(* ===== verification/Prelude.thy ===== *)
theory Prelude
  imports Main "HOL-Library.AList"
begin

text \<open>
  Shared vocabulary of the development: Go strings (byte strings), Go maps (association lists
  with distinct keys), Go times and durations (integers counting nanoseconds), errors as values
  (\<open>Inl\<close> the error message), and the lemmas on them that the component theories use.
  The standard-library functions modelled here are the ones the sources call:
  \<open>strings.HasPrefix\<close>, \<open>HasSuffix\<close>, \<open>TrimPrefix\<close>, \<open>TrimSuffix\<close>, \<open>TrimSpace\<close>, \<open>Trim\<close> with a
  one-character cutset, \<open>Split\<close> and \<open>Cut\<close> on a one-character separator, \<open>Fields\<close>, and
  \<open>len\<close>, lookup, assignment and \<open>delete\<close> on maps.
\<close>

named_theorems go_map \<open>lookup, update, delete and filter laws of Go maps\<close>
named_theorems go_str \<open>defining equations of the string functions\<close>

section \<open>Results, times\<close>

type_synonym 'a go = "string + 'a"

type_synonym time = int
type_synonym duration = int

definition second :: duration where "second = 1000000000"
definition minute :: duration where "minute = 60 * second"

text \<open>\<open>time.Time{}\<close>, the zero time, is midnight UTC of January 1, year 1.\<close>

definition zero_time :: time where "zero_time = - 62135596800 * second"

text \<open>\<open>t.Unix()\<close>: seconds since the epoch, rounded down; \<open>time.Unix(s, 0)\<close> is its section.\<close>

definition unix :: "time \<Rightarrow> int" where "unix t = t div second"
definition from_unix :: "int \<Rightarrow> time" where "from_unix s = s * second"

lemma second_pos [simp]: "0 < second" "second \<noteq> 0" "\<not> second < 0" "0 \<le> second"
  by (simp_all add: second_def)

lemma unix_from_unix [simp]: "unix (from_unix s) = s"
  by (simp add: unix_def from_unix_def second_def)

lemma unix_mono: "a \<le> b \<Longrightarrow> unix a \<le> unix b"
  by (simp add: unix_def zdiv_mono1)

lemma unix_less_imp_less: "unix a < unix b \<Longrightarrow> a < b"
  using unix_mono [of b a] by linarith

lemma from_unix_le [simp]: "from_unix (unix t) \<le> t"
  by (simp add: from_unix_def unix_def second_def)

lemma Inl_cases_simps [simp]:
  "(case Inl e of Inl x \<Rightarrow> f x | Inr y \<Rightarrow> g y) = f e"
  "(case Inr v of Inl x \<Rightarrow> f x | Inr y \<Rightarrow> g y) = g v"
  by simp_all

text \<open>
  A decoded JSON document. \<open>encoding/json\<close>'s byte-level parser is a parameter of the definitions
  that use it (\<open>string \<Rightarrow> json option\<close>, \<open>None\<close> a syntax error); object members keep their order, and
  numbers their text.
\<close>

datatype json = JNull | JBool bool | JNum string | JStr string | JArr "json list"
  | JObj "(string \<times> json) list"

section \<open>Go maps\<close>

text \<open>
  A map is its list of entries, in the order a \<open>range\<close> loop happens to visit them; the order is
  unspecified in Go, so a statement about every such list covers every visiting order.
\<close>

type_synonym ('k, 'v) gomap = "('k \<times> 'v) list"

abbreviation gget :: "('k, 'v) gomap \<Rightarrow> 'k \<Rightarrow> 'v option" where
  "gget m k \<equiv> map_of m k"

abbreviation gput :: "('k, 'v) gomap \<Rightarrow> 'k \<Rightarrow> 'v \<Rightarrow> ('k, 'v) gomap" where
  "gput m k v \<equiv> AList.update k v m"

abbreviation gdel :: "('k, 'v) gomap \<Rightarrow> 'k \<Rightarrow> ('k, 'v) gomap" where
  "gdel m k \<equiv> AList.delete k m"

abbreviation gdom :: "('k, 'v) gomap \<Rightarrow> 'k set" where
  "gdom m \<equiv> fst ` set m"

definition gkeep :: "('k \<Rightarrow> 'v \<Rightarrow> bool) \<Rightarrow> ('k, 'v) gomap \<Rightarrow> ('k, 'v) gomap" where
  "gkeep P m = filter (\<lambda>(k, v). P k v) m"

definition wf_map :: "('k, 'v) gomap \<Rightarrow> bool" where
  "wf_map m \<longleftrightarrow> distinct (map fst m)"

lemma wf_map_Nil [simp, intro]: "wf_map []"
  by (simp add: wf_map_def)

lemma wf_map_put [simp, intro]: "wf_map m \<Longrightarrow> wf_map (gput m k v)"
  by (simp add: wf_map_def distinct_update)

lemma wf_map_del [simp, intro]: "wf_map m \<Longrightarrow> wf_map (gdel m k)"
  by (simp add: wf_map_def distinct_delete)

lemma distinct_fst_filter: "distinct (map fst m) \<Longrightarrow> distinct (map fst (filter Q m))"
  by (induction m) auto

lemma wf_map_keep [simp, intro]: "wf_map m \<Longrightarrow> wf_map (gkeep P m)"
  by (simp add: wf_map_def gkeep_def distinct_fst_filter)

lemma gget_put [go_map, simp]: "gget (gput m k v) = (gget m)(k \<mapsto> v)"
  by (rule update_conv')

lemma gget_del [go_map, simp]: "gget (gdel m k) = (gget m)(k := None)"
  by (rule delete_conv')

lemma gget_keep [go_map]:
  "wf_map m \<Longrightarrow> gget (gkeep P m) k =
     (case gget m k of None \<Rightarrow> None | Some v \<Rightarrow> if P k v then Some v else None)"
proof (induction m)
  case Nil
  then show ?case by (simp add: gkeep_def)
next
  case (Cons x m)
  obtain a b where x: "x = (a, b)" by (cases x)
  from Cons.prems have wf: "wf_map m" and fresh: "a \<notin> fst ` set m"
    by (auto simp: wf_map_def x)
  from fresh have none: "gget m a = None"
    by (simp add: map_of_eq_None_iff)
  from Cons.IH [OF wf] none show ?case
    by (auto simp: gkeep_def x)
qed

lemma gget_keep_None [simp]: "gget m k = None \<Longrightarrow> gget (gkeep P m) k = None"
  by (induction m) (auto simp: gkeep_def split: if_splits)

lemma gget_keep_key [go_map]: "gget (gkeep (\<lambda>k v. P k) m) k = (if P k then gget m k else None)"
  by (induction m) (auto simp: gkeep_def)

lemma gget_keep_Some:
  "wf_map m \<Longrightarrow> gget (gkeep P m) k = Some v \<longleftrightarrow> gget m k = Some v \<and> P k v"
  by (auto simp: gget_keep split: option.splits if_splits)

lemma set_gkeep: "set (gkeep P m) = {(k, v) \<in> set m. P k v}"
  by (auto simp: gkeep_def)

lemma in_set_gget: "wf_map m \<Longrightarrow> (k, v) \<in> set m \<longleftrightarrow> gget m k = Some v"
  by (simp add: wf_map_def)

lemma length_gdel_less: "k \<in> gdom m \<Longrightarrow> length (gdel m k) < length m"
  unfolding AList.delete_eq by (auto intro: length_filter_less)

lemma length_gdel_le: "length (gdel m k) \<le> length m"
  by (simp add: AList.delete_eq)

lemma length_gput: "length (gput m k v) \<le> Suc (length m)"
  by (induction m) auto

lemma length_gput_dom: "k \<in> gdom m \<Longrightarrow> length (gput m k v) = length m"
  by (induction m) auto

lemma length_gkeep: "length (gkeep P m) \<le> length m"
  by (simp add: gkeep_def)

section \<open>Go strings\<close>

text \<open>A Go string is a sequence of bytes, so a HOL \<open>string\<close> (\<open>char\<close> is eight bits) is one.\<close>

definition has_prefix :: "string \<Rightarrow> string \<Rightarrow> bool" where
  "has_prefix p s \<longleftrightarrow> take (length p) s = p"

definition has_suffix :: "string \<Rightarrow> string \<Rightarrow> bool" where
  "has_suffix p s \<longleftrightarrow> drop (length s - length p) s = p"

definition trim_prefix :: "string \<Rightarrow> string \<Rightarrow> string" where
  "trim_prefix p s = (if has_prefix p s then drop (length p) s else s)"

definition trim_suffix :: "string \<Rightarrow> string \<Rightarrow> string" where
  "trim_suffix p s = (if has_suffix p s then take (length s - length p) s else s)"

text \<open>\<open>strings.Contains\<close>.\<close>

fun has_infix :: "string \<Rightarrow> string \<Rightarrow> bool" where
  "has_infix p [] \<longleftrightarrow> p = []"
| "has_infix p (x # xs) \<longleftrightarrow> has_prefix p (x # xs) \<or> has_infix p xs"

lemma has_prefix_append [simp]: "has_prefix p (p @ s)"
  by (simp add: has_prefix_def)

lemma has_prefix_iff: "has_prefix p s \<longleftrightarrow> (\<exists>t. s = p @ t)"
  unfolding has_prefix_def by (metis append_eq_conv_conj append_take_drop_id)

lemma has_suffix_iff: "has_suffix p s \<longleftrightarrow> (\<exists>t. s = t @ p)"
proof
  assume "has_suffix p s"
  then have "s = take (length s - length p) s @ p"
    by (metis append_take_drop_id has_suffix_def)
  then show "\<exists>t. s = t @ p" by blast
qed (auto simp: has_suffix_def)

text \<open>
  \<open>strings.Split(s, sep)\<close> for a one-byte separator: never empty, \<open>[s]\<close> when \<open>sep\<close> is absent.
\<close>

fun split_on :: "char \<Rightarrow> string \<Rightarrow> string list" where
  "split_on c [] = [[]]"
| "split_on c (x # xs) =
     (if x = c then [] # split_on c xs
      else (case split_on c xs of [] \<Rightarrow> [[x]] | p # ps \<Rightarrow> (x # p) # ps))"

fun join_with :: "string \<Rightarrow> string list \<Rightarrow> string" where
  "join_with sep [] = []"
| "join_with sep [x] = x"
| "join_with sep (x # y # xs) = x @ sep @ join_with sep (y # xs)"

text \<open>\<open>strings.Cut(s, sep)\<close>: text before the first separator, text after it, and whether it occurs.\<close>

fun cut_on :: "char \<Rightarrow> string \<Rightarrow> string \<times> string \<times> bool" where
  "cut_on c [] = ([], [], False)"
| "cut_on c (x # xs) =
     (if x = c then ([], xs, True)
      else (case cut_on c xs of (a, b, found) \<Rightarrow> (x # a, b, found)))"

lemma split_on_nonempty [simp]: "split_on c s \<noteq> []"
  by (induction s) (auto split: list.splits)

lemma join_split [simp]: "join_with [c] (split_on c s) = s"
proof (induction s)
  case Nil
  then show ?case by simp
next
  case (Cons x xs)
  then show ?case
    by (cases "split_on c xs"; cases "tl (split_on c xs)") auto
qed

lemma split_on_no_sep: "p \<in> set (split_on c s) \<Longrightarrow> c \<notin> set p"
  by (induction s arbitrary: p) (auto split: list.splits if_splits)

lemma split_on_plain [simp]: "c \<notin> set s \<Longrightarrow> split_on c s = [s]"
  by (induction s) auto

lemma split_on_append_sep:
  "split_on c (s @ c # t) = split_on c s @ split_on c t"
  by (induction s) (auto split: list.splits simp: Let_def)

lemma split_join:
  "ps \<noteq> [] \<Longrightarrow> (\<And>p. p \<in> set ps \<Longrightarrow> c \<notin> set p) \<Longrightarrow> split_on c (join_with [c] ps) = ps"
proof (induction "[c]" ps rule: join_with.induct)
  case (3 x y xs)
  then show ?case by (simp add: split_on_append_sep)
qed auto

text \<open>
  \<open>strings.TrimSpace\<close> removes leading and trailing Unicode white space. The UTF-8 encodings of
  all white-space code points are listed; none is a prefix or a suffix of another, so matching
  byte sequences at either end is decoding runes there.
\<close>

definition space_seqs :: "string list" where
  "space_seqs =
     [[CHR 0x09], [CHR 0x0A], [CHR 0x0B], [CHR 0x0C], [CHR 0x0D], [CHR 0x20],
      [CHR 0xC2, CHR 0x85], [CHR 0xC2, CHR 0xA0], [CHR 0xE1, CHR 0x9A, CHR 0x80],
      [CHR 0xE2, CHR 0x80, CHR 0x80], [CHR 0xE2, CHR 0x80, CHR 0x81],
      [CHR 0xE2, CHR 0x80, CHR 0x82], [CHR 0xE2, CHR 0x80, CHR 0x83],
      [CHR 0xE2, CHR 0x80, CHR 0x84], [CHR 0xE2, CHR 0x80, CHR 0x85],
      [CHR 0xE2, CHR 0x80, CHR 0x86], [CHR 0xE2, CHR 0x80, CHR 0x87],
      [CHR 0xE2, CHR 0x80, CHR 0x88], [CHR 0xE2, CHR 0x80, CHR 0x89],
      [CHR 0xE2, CHR 0x80, CHR 0x8A], [CHR 0xE2, CHR 0x80, CHR 0xA8],
      [CHR 0xE2, CHR 0x80, CHR 0xA9], [CHR 0xE2, CHR 0x80, CHR 0xAF],
      [CHR 0xE2, CHR 0x81, CHR 0x9F], [CHR 0xE3, CHR 0x80, CHR 0x80]]"

fun match_len :: "string list \<Rightarrow> string \<Rightarrow> nat" where
  "match_len [] s = 0"
| "match_len (p # ps) s = (if has_prefix p s then length p else match_len ps s)"

lemma match_len_le: "match_len ps s \<le> length s"
  by (induction ps) (auto simp: has_prefix_iff)

function strip_front :: "string list \<Rightarrow> string \<Rightarrow> string" where
  "strip_front ps s =
     (if match_len ps s = 0 then s else strip_front ps (drop (match_len ps s) s))"
  by pat_completeness auto
termination
proof (relation "measure (\<lambda>(ps, s). length s)", simp)
  fix ps s
  assume "match_len ps s \<noteq> 0"
  then show "((ps, drop (match_len ps s) s), ps, s) \<in> measure (\<lambda>(ps, s). length s)"
    using match_len_le [of ps s] by auto
qed

declare strip_front.simps [simp del]

lemma strip_front_stop: "match_len ps s = 0 \<Longrightarrow> strip_front ps s = s"
  by (simp add: strip_front.simps [of ps s])

lemma strip_front_step:
  "match_len ps s = Suc n \<Longrightarrow> strip_front ps s = strip_front ps (drop (Suc n) s)"
  by (simp add: strip_front.simps [of ps s])

lemma has_prefix_simps [simp]:
  "has_prefix [] s" "has_prefix (a # p) (b # s) \<longleftrightarrow> a = b \<and> has_prefix p s"
  "\<not> has_prefix (a # p) []"
  by (auto simp: has_prefix_def)

definition trim_space :: "string \<Rightarrow> string" where
  "trim_space s = rev (strip_front (map rev space_seqs) (rev (strip_front space_seqs s)))"

lemmas trim_space_eval [go_str] =
  trim_space_def strip_front_stop strip_front_step space_seqs_def

definition blank :: "string \<Rightarrow> bool" where
  "blank s \<longleftrightarrow> trim_space s = []"

lemma trim_space_Nil [simp]: "trim_space [] = []"
  by (simp add: trim_space_def strip_front_stop space_seqs_def)

lemma blank_Nil [simp]: "blank []"
  by (simp add: blank_def)

text \<open>\<open>strings.Trim(s, c)\<close> for a one-character cutset.\<close>

definition trim_char :: "char \<Rightarrow> string \<Rightarrow> string" where
  "trim_char c s = rev (dropWhile ((=) c) (rev (dropWhile ((=) c) s)))"

text \<open>\<open>strings.Fields\<close>: the maximal runs of bytes between white space.\<close>

function fields_from :: "string \<Rightarrow> string \<Rightarrow> string list" where
  "fields_from acc [] = (if acc = [] then [] else [rev acc])"
| "fields_from acc (x # xs) =
     (let n = match_len space_seqs (x # xs)
      in if n = 0 then fields_from (x # acc) xs
         else (if acc = [] then [] else [rev acc]) @ fields_from [] (drop n (x # xs)))"
  by pat_completeness auto
termination
  by (relation "measure (\<lambda>(acc, s). length s)") auto

definition go_fields :: "string \<Rightarrow> string list" where
  "go_fields s = fields_from [] s"

definition to_lower_char :: "char \<Rightarrow> char" where
  "to_lower_char c = (let n = of_char c :: nat in if 65 \<le> n \<and> n \<le> 90 then char_of (n + 32) else c)"

text \<open>\<open>strings.ToLower\<close> on ASCII letters, which is all that a comparison with an ASCII word sees.\<close>

definition to_lower :: "string \<Rightarrow> string" where
  "to_lower s = map to_lower_char s"

text \<open>White space of a regular expression.\<close>

definition re_space :: "char \<Rightarrow> bool" where
  "re_space c \<longleftrightarrow> c \<in> {CHR 0x09, CHR 0x0A, CHR 0x0C, CHR 0x0D, CHR 0x20}"

section \<open>Decimal texts\<close>

text \<open>The decimal text of a number, as \<open>fmt\<close> prints it.\<close>

fun dec_nat :: "nat \<Rightarrow> string" where
  "dec_nat n = (if n < 10 then [char_of (48 + n)] else dec_nat (n div 10) @ [char_of (48 + n mod 10)])"

declare dec_nat.simps [simp del]

definition dec_value :: "string \<Rightarrow> nat" where
  "dec_value s = foldl (\<lambda>a c. 10 * a + (of_char c - 48)) 0 s"

lemma dec_value_snoc [simp]: "dec_value (s @ [c]) = 10 * dec_value s + (of_char c - 48)"
  by (simp add: dec_value_def)

lemma of_digit: "d < 10 \<Longrightarrow> (of_char (char_of (48 + d :: nat) :: char) :: nat) = 48 + d"
  by (simp add: of_char_of)

lemma dec_nat_value [simp]: "dec_value (dec_nat n) = n"
proof (induction n rule: dec_nat.induct)
  case (1 n)
  show ?case
  proof (cases "n < 10")
    case True
    then show ?thesis
      by (subst dec_nat.simps) (simp add: dec_value_def of_digit)
  next
    case False
    then show ?thesis
      by (subst dec_nat.simps) (simp add: 1 of_digit)
  qed
qed

lemma dec_nat_inj [simp]: "dec_nat n = dec_nat m \<longleftrightarrow> n = m"
  by (metis dec_nat_value)

lemma dec_nat_digits: "c \<in> set (dec_nat n) \<Longrightarrow> 48 \<le> (of_char c :: nat) \<and> (of_char c :: nat) < 58"
proof (induction n rule: dec_nat.induct)
  case (1 n)
  show ?case
  proof (cases "n < 10")
    case True
    then show ?thesis
      using 1(2) by (subst (asm) dec_nat.simps) (auto simp: of_digit)
  next
    case False
    have "n mod 10 < 10" by simp
    then show ?thesis
      using 1 False of_digit [of "n mod 10"] by (subst (asm) dec_nat.simps) (auto simp del: of_char_of)
  qed
qed

section \<open>Simulations\<close>

text \<open>
  A component with an invariant, a view of its state as an abstract state, and steps that the abstract
  steps follow: then whole runs follow each other.
\<close>

locale simulation =
  fixes inv :: "'c \<Rightarrow> bool" and view :: "'c \<Rightarrow> 'a" and step :: "'l \<Rightarrow> 'c \<Rightarrow> 'c"
    and astep :: "'l \<Rightarrow> 'a \<Rightarrow> 'a" and allowed :: "'l \<Rightarrow> bool"
  assumes step_inv: "inv c \<Longrightarrow> allowed l \<Longrightarrow> inv (step l c)"
    and step_view: "inv c \<Longrightarrow> allowed l \<Longrightarrow> view (step l c) = astep l (view c)"
begin

lemma run_inv: "inv c \<Longrightarrow> list_all allowed ls \<Longrightarrow> inv (fold step ls c)"
  by (induction ls arbitrary: c) (auto simp: step_inv)

lemma run_view: "inv c \<Longrightarrow> list_all allowed ls \<Longrightarrow> view (fold step ls c) = fold astep ls (view c)"
  by (induction ls arbitrary: c) (auto simp: step_inv step_view)

end

end
