(* ===== verification/Scopes.thy ===== *)
theory Scopes
  imports Prelude
begin

text \<open>
  Scopes, the tool registry and the access policy: \<open>internal/tools/registry.go\<close>,
  \<open>internal/oauth/scope_alias.go\<close>, \<open>internal/oauth/scope_config.go\<close>, \<open>internal/oauth/acl.go\<close> and
  \<open>internal/server/exposure_profile.go\<close>. JSON syntax is a parameter (\<open>P\<close>); what
  \<open>json.Unmarshal\<close> does with the parsed value and the two structs of acl.go is written out.
\<close>

section \<open>internal/tools/registry.go\<close>

record tool_def =
  td_name :: string
  td_description :: string
  td_required_scope :: string
  td_input_schema :: json

record registry =
  rg_defs :: "tool_def list"
  rg_by_name :: "(string, tool_def) gomap"

definition new_registry :: registry where
  "new_registry = \<lparr>rg_defs = [], rg_by_name = []\<rparr>"

definition register :: "registry \<Rightarrow> tool_def \<Rightarrow> registry" where
  "register r d = \<lparr>rg_defs = rg_defs r @ [d], rg_by_name = gput (rg_by_name r) (td_name d) d\<rparr>"

definition required_scope_for :: "registry \<Rightarrow> string \<Rightarrow> string option" where
  "required_scope_for r name = map_option td_required_scope (gget (rg_by_name r) name)"

definition scope_rank_raw :: "string \<Rightarrow> int" where
  "scope_rank_raw s =
     (if s = '''' then 0 else if s = ''read'' then 0 else if s = ''write'' then 1
      else if s = ''admin'' then 2 else - 1)"

definition ScopeRank :: "string \<Rightarrow> int" where
  "ScopeRank s = (let r = scope_rank_raw s in if r < 0 then 0 else r)"

definition IsWriteScope :: "string \<Rightarrow> bool" where
  "IsWriteScope s \<longleftrightarrow> ScopeRank s \<ge> 1"

definition IsAdminScope :: "string \<Rightarrow> bool" where
  "IsAdminScope s \<longleftrightarrow> ScopeRank s \<ge> 2"

definition ForScope :: "registry \<Rightarrow> string \<Rightarrow> tool_def list" where
  "ForScope r scope =
     (let callerRank = scope_rank_raw scope
      in filter (\<lambda>d. td_required_scope d = '''' \<or>
                     callerRank \<ge> 0 \<and> scope_rank_raw (td_required_scope d) \<le> callerRank)
           (rg_defs r))"

lemma scope_rank_raw_simps [simp]:
  "scope_rank_raw '''' = 0" "scope_rank_raw ''read'' = 0"
  "scope_rank_raw ''write'' = 1" "scope_rank_raw ''admin'' = 2"
  by (simp_all add: scope_rank_raw_def)

lemma ScopeRank_simps [simp]:
  "ScopeRank '''' = 0" "ScopeRank ''read'' = 0" "ScopeRank ''write'' = 1" "ScopeRank ''admin'' = 2"
  by (simp_all add: ScopeRank_def)

lemma ScopeRank_max: "ScopeRank s = max 0 (scope_rank_raw s)"
  by (simp add: ScopeRank_def Let_def max_def)

lemma ScopeRank_nonneg [simp]: "0 \<le> ScopeRank s"
  by (simp add: ScopeRank_max)

lemma ScopeRank_range: "ScopeRank s \<in> {0, 1, 2}"
  by (simp add: ScopeRank_def scope_rank_raw_def)

lemma ScopeRank_write_iff: "IsWriteScope s \<longleftrightarrow> s = ''write'' \<or> s = ''admin''"
  by (auto simp: IsWriteScope_def ScopeRank_def scope_rank_raw_def Let_def)

lemma ScopeRank_admin_iff: "IsAdminScope s \<longleftrightarrow> s = ''admin''"
  by (auto simp: IsAdminScope_def ScopeRank_def scope_rank_raw_def Let_def)

section \<open>internal/oauth/scope_alias.go, scope_config.go\<close>

definition CanonicalScope :: "string \<Rightarrow> string" where
  "CanonicalScope s =
     (if s \<in> set [''mcp'', ''read'', ''content.read'', ''reader''] then ''read''
      else if s \<in> set [''admin'', ''site.admin'', ''site_admin'', ''siteadmin'',
                        ''system.admin'', ''system_admin'', ''systemadmin''] then ''admin''
      else if s \<in> set [''write'', ''content.write''] then ''write''
      else s)"

definition IsLegacyScope :: "string \<Rightarrow> bool" where
  "IsLegacyScope s = (if s = ''read'' \<or> s = ''write'' then False else CanonicalScope s \<noteq> s)"

definition normalizeConfiguredScope :: "string \<Rightarrow> string go" where
  "normalizeConfiguredScope raw =
     (let c = CanonicalScope (trim_space raw)
      in if c = '''' \<or> c = ''read'' then Inr ''read''
         else if c = ''write'' then Inr ''write''
         else if c = ''admin'' then Inr ''admin''
         else Inl ''invalid scope'')"

definition add_scope :: "string list \<Rightarrow> string \<Rightarrow> string list go" where
  "add_scope out raw0 =
     (let raw = trim_space raw0
      in if raw = '''' then Inr out
         else (case normalizeConfiguredScope raw of
                 Inl e \<Rightarrow> Inl e
               | Inr scope \<Rightarrow> if scope \<in> set out then Inr out else Inr (out @ [scope])))"

fun add_scopes :: "string list \<Rightarrow> string list \<Rightarrow> string list go" where
  "add_scopes out [] = Inr out"
| "add_scopes out (raw # raws) =
     (case add_scope out raw of Inl e \<Rightarrow> Inl e | Inr out' \<Rightarrow> add_scopes out' raws)"

definition normalizeConfiguredScopes :: "string list \<Rightarrow> string \<Rightarrow> string list go" where
  "normalizeConfiguredScopes scopes singular =
     (case add_scopes [] scopes of
        Inl e \<Rightarrow> Inl e
      | Inr out1 \<Rightarrow>
          (case add_scope out1 singular of
             Inl e \<Rightarrow> Inl e
           | Inr out2 \<Rightarrow>
               Inr (sort_key ScopeRank (if out2 = [] then [''read''] else out2))))"

definition pick_highest :: "string \<times> int \<Rightarrow> string \<Rightarrow> string \<times> int" where
  "pick_highest best scope =
     (let rank = ScopeRank scope in if rank > snd best then (scope, rank) else best)"

definition highestConfiguredScope :: "string list \<Rightarrow> string" where
  "highestConfiguredScope scopes =
     (case scopes of
        [] \<Rightarrow> ''read''
      | s # ss \<Rightarrow>
          (let highest = fst (foldl pick_highest (s, ScopeRank s) ss)
           in if highest = '''' then ''read'' else highest))"

definition requested_step :: "string \<times> int \<Rightarrow> string \<Rightarrow> string \<times> int" where
  "requested_step best part =
     (case normalizeConfiguredScope part of
        Inl e \<Rightarrow> best
      | Inr scope \<Rightarrow> pick_highest best scope)"

definition requestedScope :: "string \<Rightarrow> string go" where
  "requestedScope raw0 =
     (let raw = trim_space raw0
      in if raw = '''' then Inr ''''
         else (let parts = go_fields raw
               in if parts = [] then Inr ''''
                  else (case foldl requested_step ('''', - 1) parts of
                          (highest, highestRank) \<Rightarrow>
                            if highestRank < 0 then Inl ''invalid_scope'' else Inr highest)))"

definition allowedScope :: "string \<Rightarrow> string \<Rightarrow> bool" where
  "allowedScope scope allowedMax \<longleftrightarrow> ScopeRank scope \<le> ScopeRank allowedMax"

abbreviation canonical_scopes :: "string set" where
  "canonical_scopes \<equiv> {''read'', ''write'', ''admin''}"

lemma normalizeConfiguredScope_canonical:
  "normalizeConfiguredScope raw = Inr s \<Longrightarrow> s \<in> canonical_scopes"
  by (auto simp: normalizeConfiguredScope_def Let_def split: if_splits)

lemma CanonicalScope_idem [simp]: "CanonicalScope (CanonicalScope s) = CanonicalScope s"
  by (simp add: CanonicalScope_def)

lemma ScopeRank_inj: "inj_on ScopeRank canonical_scopes"
  by (auto simp: inj_on_def)

text \<open>The accumulator of \<open>normalizeConfiguredScopes\<close>: canonical scopes without repetition.\<close>

definition scopes_ok :: "string list \<Rightarrow> bool" where
  "scopes_ok out \<longleftrightarrow> distinct out \<and> set out \<subseteq> canonical_scopes"

lemma add_scope_ok: "add_scope out raw = Inr out' \<Longrightarrow> scopes_ok out \<Longrightarrow> scopes_ok out'"
  by (auto simp: add_scope_def Let_def scopes_ok_def
      dest: normalizeConfiguredScope_canonical split: if_splits sum.splits)

lemma add_scopes_ok: "add_scopes out raws = Inr out' \<Longrightarrow> scopes_ok out \<Longrightarrow> scopes_ok out'"
  by (induction raws arbitrary: out) (auto split: sum.splits dest: add_scope_ok)

lemma sorted_distinct_scopes:
  assumes "scopes_ok out"
  shows "scopes_ok (sort_key ScopeRank out)" "sorted_wrt (\<lambda>a b. ScopeRank a < ScopeRank b) (sort_key ScopeRank out)"
proof -
  let ?s = "sort_key ScopeRank out"
  show ok: "scopes_ok ?s"
    using assms by (simp add: scopes_ok_def)
  have "inj_on ScopeRank (set ?s)"
    using ok unfolding scopes_ok_def by (blast intro: inj_on_subset [OF ScopeRank_inj])
  then have "distinct (map ScopeRank ?s)"
    using ok by (simp add: distinct_map scopes_ok_def)
  then have "sorted_wrt (<) (map ScopeRank ?s)"
    by (simp add: strict_sorted_iff)
  then show "sorted_wrt (\<lambda>a b. ScopeRank a < ScopeRank b) ?s"
    by (simp add: sorted_wrt_map)
qed

lemma normalizeConfiguredScopes_props:
  assumes "normalizeConfiguredScopes scopes singular = Inr out"
  shows "scopes_ok out" "sorted_wrt (\<lambda>a b. ScopeRank a < ScopeRank b) out" "out \<noteq> []"
proof -
  from assms obtain out1 out2 where
    a: "add_scopes [] scopes = Inr out1" "add_scope out1 singular = Inr out2"
    and out: "out = sort_key ScopeRank (if out2 = [] then [''read''] else out2)"
    by (auto simp: normalizeConfiguredScopes_def split: sum.splits)
  have "scopes_ok []" by (simp add: scopes_ok_def)
  with a have "scopes_ok out2" by (blast intro: add_scope_ok add_scopes_ok)
  then have "scopes_ok (if out2 = [] then [''read''] else out2)"
    by (simp add: scopes_ok_def)
  from sorted_distinct_scopes [OF this]
  show "scopes_ok out" "sorted_wrt (\<lambda>a b. ScopeRank a < ScopeRank b) out"
    unfolding out by blast+
  show "out \<noteq> []"
    unfolding out by (cases out2) simp_all
qed

text \<open>\<open>pick_highest\<close> folded over a list keeps a candidate of the largest rank.\<close>

lemma pick_highest_step:
  "pick_highest b x = b' \<Longrightarrow>
     snd b \<le> snd b' \<and> ScopeRank x \<le> snd b' \<and> (b' = b \<or> fst b' = x \<and> snd b' = ScopeRank x)"
  by (auto simp: pick_highest_def Let_def split: if_splits)

lemma pick_highest_fold:
  "foldl pick_highest b ss = b' \<Longrightarrow>
     snd b \<le> snd b' \<and> (\<forall>x\<in>set ss. ScopeRank x \<le> snd b') \<and>
     (b' = b \<or> fst b' \<in> set ss \<and> snd b' = ScopeRank (fst b'))"
proof (induction ss arbitrary: b)
  case Nil
  then show ?case by simp
next
  case (Cons x ss)
  have f: "foldl pick_highest (pick_highest b x) ss = b'"
    using Cons.prems by simp
  from Cons.IH [OF f] pick_highest_step [OF refl, of b x] show ?case
    by (elim conjE disjE) auto
qed

lemma highestConfiguredScope_max:
  assumes "scopes \<noteq> []"
  shows "ScopeRank (highestConfiguredScope scopes) = Max (ScopeRank ` set scopes)"
proof -
  from assms obtain s ss where sc: "scopes = s # ss" by (cases scopes) auto
  obtain h r where f: "foldl pick_highest (s, ScopeRank s) ss = (h, r)" by fastforce
  have pf: "ScopeRank s \<le> r" "\<forall>x\<in>set ss. ScopeRank x \<le> r"
    "(h, r) = (s, ScopeRank s) \<or> h \<in> set ss \<and> r = ScopeRank h"
    using pick_highest_fold [OF f] by simp_all
  have r: "r = ScopeRank h" "h \<in> set scopes" using pf(3) sc by auto
  have "ScopeRank (highestConfiguredScope scopes) = ScopeRank h"
    by (simp add: highestConfiguredScope_def sc f Let_def)
  moreover have "Max (ScopeRank ` set scopes) = ScopeRank h"
    using pf r sc by (intro Max_eqI) auto
  ultimately show ?thesis by simp
qed

lemma highest_is_last:
  assumes "scopes \<noteq> []" "sorted_wrt (\<lambda>a b. ScopeRank a < ScopeRank b) scopes" "scopes_ok scopes"
  shows "highestConfiguredScope scopes = last scopes"
proof -
  have mx: "ScopeRank (highestConfiguredScope scopes) = ScopeRank (last scopes)"
  proof -
    have "\<forall>x\<in>set scopes. ScopeRank x \<le> ScopeRank (last scopes)"
      using assms(1,2)
      by (induction scopes rule: rev_induct) (auto simp: sorted_wrt_append)
    then have "Max (ScopeRank ` set scopes) = ScopeRank (last scopes)"
      using assms(1) by (intro Max_eqI) auto
    then show ?thesis using highestConfiguredScope_max [OF assms(1)] by simp
  qed
  have "highestConfiguredScope scopes \<in> canonical_scopes"
  proof -
    obtain s ss where sc: "scopes = s # ss" using assms(1) by (cases scopes) auto
    obtain h r where f: "foldl pick_highest (s, ScopeRank s) ss = (h, r)" by fastforce
    have "h \<in> set scopes" using pick_highest_fold [OF f] sc by auto
    then have "h \<in> canonical_scopes" using assms(3) by (auto simp: scopes_ok_def)
    then show ?thesis by (auto simp: highestConfiguredScope_def sc f Let_def)
  qed
  moreover have "last scopes \<in> canonical_scopes"
    using assms(1,3) last_in_set by (fastforce simp: scopes_ok_def)
  ultimately show ?thesis
    using mx ScopeRank_inj by (auto dest: inj_onD)
qed

text \<open>The fold of \<open>requestedScope\<close> skips what \<open>normalizeConfiguredScope\<close> refuses.\<close>

fun rights :: "'a go list \<Rightarrow> 'a list" where
  "rights [] = []"
| "rights (Inl e # xs) = rights xs"
| "rights (Inr v # xs) = v # rights xs"

lemma in_rights: "x \<in> set (rights xs) \<longleftrightarrow> Inr x \<in> set xs"
  by (induction xs rule: rights.induct) auto

lemma requested_fold:
  "foldl requested_step b parts = foldl pick_highest b (rights (map normalizeConfiguredScope parts))"
  by (induction parts arbitrary: b) (auto simp: requested_step_def split: sum.splits)

section \<open>internal/oauth/acl.go\<close>

text \<open>
  \<open>json.Unmarshal\<close> into a struct: members are visited in order, a member names a field when the
  two are equal up to case folding (a later match overwrites an earlier one), \<open>null\<close> leaves a
  string untouched, a value of another kind is a decoding error, and \<open>null\<close> for the whole struct
  leaves it zero. \<open>fold_name\<close> is the folding of encoding/json as far as it can reach the ASCII
  names of the fields: letters, and the two non-ASCII runes that fold to ASCII ones (long s,
  Kelvin sign).
\<close>

definition fold_char :: "char \<Rightarrow> char" where
  "fold_char c = (let n = of_char c :: nat in if 97 \<le> n \<and> n \<le> 122 then char_of (n - 32) else c)"

fun fold_name :: "string \<Rightarrow> string" where
  "fold_name (a # b # c # xs) =
     (if a = CHR 0xC5 \<and> b = CHR 0xBF then CHR ''S'' # fold_name (c # xs)
      else if a = CHR 0xE2 \<and> b = CHR 0x84 \<and> c = CHR 0xAA then CHR ''K'' # fold_name xs
      else fold_char a # fold_name (b # c # xs))"
| "fold_name [a, b] =
     (if a = CHR 0xC5 \<and> b = CHR 0xBF then [CHR ''S''] else [fold_char a, fold_char b])"
| "fold_name [a] = [fold_char a]"
| "fold_name [] = []"

definition names_field :: "string \<Rightarrow> string \<Rightarrow> bool" where
  "names_field field key \<longleftrightarrow> fold_name key = fold_name field"

record rpc_envelope =
  env_method :: string
  env_params :: "json option"

definition decode_string :: "json \<Rightarrow> string \<Rightarrow> string go" where
  "decode_string v old =
     (case v of JStr s \<Rightarrow> Inr s | JNull \<Rightarrow> Inr old | _ \<Rightarrow> Inl ''json: cannot unmarshal'')"

definition env_member :: "rpc_envelope go \<Rightarrow> string \<times> json \<Rightarrow> rpc_envelope go" where
  "env_member acc kv =
     (case acc of Inl e \<Rightarrow> Inl e
      | Inr env \<Rightarrow>
          if names_field ''method'' (fst kv) then
            (case decode_string (snd kv) (env_method env) of
               Inl e \<Rightarrow> Inl e | Inr m \<Rightarrow> Inr (env\<lparr>env_method := m\<rparr>))
          else if names_field ''params'' (fst kv) then Inr (env\<lparr>env_params := Some (snd kv)\<rparr>)
          else Inr env)"

definition zero_env :: rpc_envelope where
  "zero_env = \<lparr>env_method = '''', env_params = None\<rparr>"

definition decode_env :: "json \<Rightarrow> rpc_envelope go" where
  "decode_env j =
     (case j of
        JObj kvs \<Rightarrow> foldl env_member (Inr zero_env) kvs
      | JNull \<Rightarrow> Inr zero_env
      | _ \<Rightarrow> Inl ''json: cannot unmarshal'')"

fun decode_envs :: "json list \<Rightarrow> rpc_envelope list go" where
  "decode_envs [] = Inr []"
| "decode_envs (j # js) =
     (case decode_env j of Inl e \<Rightarrow> Inl e
      | Inr env \<Rightarrow> (case decode_envs js of Inl e \<Rightarrow> Inl e | Inr envs \<Rightarrow> Inr (env # envs)))"

definition name_member :: "string go \<Rightarrow> string \<times> json \<Rightarrow> string go" where
  "name_member acc kv =
     (case acc of Inl e \<Rightarrow> Inl e
      | Inr n \<Rightarrow> if names_field ''name'' (fst kv) then decode_string (snd kv) n else Inr n)"

definition decode_params :: "json option \<Rightarrow> string go" where
  "decode_params p =
     (case p of
        None \<Rightarrow> Inl ''unexpected end of JSON input''
      | Some j \<Rightarrow>
          (case j of
             JObj kvs \<Rightarrow> foldl name_member (Inr '''') kvs
           | JNull \<Rightarrow> Inr ''''
           | _ \<Rightarrow> Inl ''json: cannot unmarshal''))"

definition checkOne :: "registry \<Rightarrow> rpc_envelope \<Rightarrow> string \<Rightarrow> bool \<times> string" where
  "checkOne reg env callerScope =
     (if env_method env \<noteq> ''tools/call'' then (True, '''')
      else (case decode_params (env_params env) of
              Inl e \<Rightarrow> (False, ''unknown_tool'')
            | Inr name \<Rightarrow>
                if name = '''' then (False, ''unknown_tool'')
                else (case required_scope_for reg name of
                        None \<Rightarrow> (False, ''unknown_tool'')
                      | Some requiredScope \<Rightarrow>
                          if ScopeRank callerScope < ScopeRank requiredScope
                          then (False, ''forbidden_tool'')
                          else (True, ''''))))"

definition maxBatchSize :: nat where "maxBatchSize = 50"

definition acl_parse :: "(string \<Rightarrow> json option) \<Rightarrow> string \<Rightarrow> rpc_envelope list \<times> string" where
  "acl_parse P body0 =
     (let body = trim_space body0
      in if body = '''' then ([], ''unknown_tool'')
         else if hd body = CHR ''['' then
           (case P body of
              None \<Rightarrow> ([], ''unknown_tool'')
            | Some j \<Rightarrow>
                (case j of
                   JArr js \<Rightarrow>
                     (case decode_envs js of
                        Inl e \<Rightarrow> ([], ''unknown_tool'')
                      | Inr batch \<Rightarrow>
                          if length batch > maxBatchSize
                          then ([], ''batch_too_large: maximum 50 requests'')
                          else (batch, ''''))
                 | _ \<Rightarrow> ([], ''unknown_tool'')))
         else (case P body of
                 None \<Rightarrow> ([], ''unknown_tool'')
               | Some j \<Rightarrow> (case decode_env j of
                             Inl e \<Rightarrow> ([], ''unknown_tool'')
                           | Inr single \<Rightarrow> ([single], ''''))))"

fun all_allowed :: "registry \<Rightarrow> rpc_envelope list \<Rightarrow> string \<Rightarrow> bool" where
  "all_allowed reg [] callerScope = True"
| "all_allowed reg (env # envs) callerScope =
     (if \<not> fst (checkOne reg env callerScope) then False else all_allowed reg envs callerScope)"

definition AllowRequest :: "(string \<Rightarrow> json option) \<Rightarrow> registry \<Rightarrow> string \<Rightarrow> string \<Rightarrow> bool" where
  "AllowRequest P reg body callerScope =
     (case acl_parse P body of (envs, parseReason) \<Rightarrow>
        if parseReason \<noteq> '''' then False else all_allowed reg envs callerScope)"

fun first_reason :: "registry \<Rightarrow> rpc_envelope list \<Rightarrow> string \<Rightarrow> string" where
  "first_reason reg [] callerScope = ''''"
| "first_reason reg (env # envs) callerScope =
     (case checkOne reg env callerScope of (allow, reason) \<Rightarrow>
        if \<not> allow then reason else first_reason reg envs callerScope)"

definition DenyReason :: "(string \<Rightarrow> json option) \<Rightarrow> registry \<Rightarrow> string \<Rightarrow> string \<Rightarrow> string" where
  "DenyReason P reg body callerScope =
     (case acl_parse P body of (envs, parseReason) \<Rightarrow>
        if parseReason \<noteq> '''' then parseReason else first_reason reg envs callerScope)"

lemma checkOne_reason: "fst (checkOne reg env s) \<longleftrightarrow> snd (checkOne reg env s) = ''''"
  by (auto simp: checkOne_def split: sum.splits option.splits)

lemma checkOne_allow_iff:
  "fst (checkOne reg env s) \<longleftrightarrow>
     (env_method env = ''tools/call'' \<longrightarrow>
      (\<exists>name req. decode_params (env_params env) = Inr name \<and> name \<noteq> '''' \<and>
                  required_scope_for reg name = Some req \<and> ScopeRank req \<le> ScopeRank s))"
  by (auto simp: checkOne_def split: sum.splits option.splits)

lemma all_allowed_iff: "all_allowed reg envs s \<longleftrightarrow> (\<forall>env\<in>set envs. fst (checkOne reg env s))"
  by (induction envs) auto

lemma all_allowed_reason: "all_allowed reg envs s \<longleftrightarrow> first_reason reg envs s = ''''"
proof (induction envs)
  case Nil
  then show ?case by simp
next
  case (Cons env envs)
  with checkOne_reason [of reg env s] show ?case
    by (auto split: prod.splits)
qed

lemma decode_envs_length: "decode_envs js = Inr envs \<Longrightarrow> length envs = length js"
  by (induction js arbitrary: envs) (auto split: sum.splits)

lemma acl_parse_batch: "length (fst (acl_parse P body)) \<le> maxBatchSize"
  by (auto simp: acl_parse_def Let_def maxBatchSize_def
      split: option.splits json.splits sum.splits)

section \<open>internal/server/exposure_profile.go\<close>

definition toolExposureTier :: "(string, string) gomap" where
  "toolExposureTier = [
     (''get_page'', ''reader''),
     (''list_pages'', ''reader''),
     (''search_pages'', ''reader''),
     (''search_content'', ''reader''),
     (''get_recent_posts'', ''reader''),
     (''list_tags'', ''reader''),
     (''list_categories'', ''reader''),
     (''get_sitemap'', ''reader''),
     (''get_feed'', ''reader''),
     (''get_site_information'', ''reader''),
     (''get_related_content'', ''reader''),
     (''list_content_types'', ''reader''),
     (''get_broken_links'', ''reader''),
     (''inspect_rendered'', ''reader''),
     (''get_site_health'', ''reader''),
     (''create_page'', ''editorial''),
     (''update_page'', ''editorial''),
     (''delete_page'', ''editorial''),
     (''upload_page_asset'', ''editorial''),
     (''delete_page_asset'', ''editorial''),
     (''create_preview'', ''editorial''),
     (''list_previews'', ''editorial''),
     (''revoke_preview'', ''editorial''),
     (''inspect_preview'', ''editorial''),
     (''diff_page'', ''editorial''),
     (''validate_frontmatter'', ''editorial''),
     (''get_mutation_status'', ''editorial''),
     (''publish_changes'', ''editorial''),
     (''build_site'', ''editorial''),
     (''stage_hugo_upgrade'', ''admin''),
     (''activate_hugo'', ''admin''),
     (''rollback_hugo'', ''admin''),
     (''bootstrap_hugo'', ''admin''),
     (''apply_bundle_plan'', ''advanced''),
     (''apply_content_plan'', ''advanced''),
     (''build_agent_context'', ''advanced''),
     (''check_ai_readiness'', ''advanced''),
     (''check_sri_versions'', ''advanced''),
     (''create_bundle'', ''advanced''),
     (''create_change_set'', ''advanced''),
     (''delete_bundle'', ''advanced''),
     (''explain_structure'', ''advanced''),
     (''export_agent_context'', ''advanced''),
     (''generate_hero_image'', ''advanced''),
     (''get_backlinks'', ''advanced''),
     (''get_capabilities'', ''advanced''),
     (''get_changelog'', ''advanced''),
     (''get_hugo_update'', ''advanced''),
     (''get_page_for_edit'', ''advanced''),
     (''get_page_frontmatter'', ''advanced''),
     (''get_page_markdown'', ''advanced''),
     (''get_rate_limits'', ''advanced''),
     (''get_runtime_status'', ''advanced''),
     (''get_storage_health'', ''advanced''),
     (''get_theme_status'', ''advanced''),
     (''list_page_assets'', ''advanced''),
     (''list_page_revisions'', ''advanced''),
     (''list_page_snapshots'', ''advanced''),
     (''plan_bundle_change'', ''advanced''),
     (''plan_content_change'', ''advanced''),
     (''plan_page'', ''advanced''),
     (''preview_build'', ''advanced''),
     (''revoke_all_previews'', ''advanced''),
     (''rollback_bundle'', ''advanced''),
     (''rollback_change'', ''advanced''),
     (''run_post_build_hooks'', ''advanced''),
     (''suggest_links'', ''advanced''),
     (''validate_site'', ''advanced''),
     (''verify_publication'', ''advanced'')]"

definition exposureProfileRank :: "string \<Rightarrow> int" where
  "exposureProfileRank profile =
     (if profile = ''reader'' then 0 else if profile = ''editorial'' then 1
      else if profile = ''advanced'' then 2 else if profile = ''admin'' then 3 else - 1)"

definition isKnownExposureProfile :: "string \<Rightarrow> bool" where
  "isKnownExposureProfile profile \<longleftrightarrow> exposureProfileRank profile \<ge> 0"

definition scopeNameForRank :: "int \<Rightarrow> string" where
  "scopeNameForRank rank =
     (if rank \<ge> 2 then ''admin'' else if rank \<ge> 1 then ''write'' else '''')"

definition exposureServerKey :: "string \<Rightarrow> string \<Rightarrow> string" where
  "exposureServerKey scopeName profile = scopeName @ ''|'' @ profile"

definition toolTier :: "string \<Rightarrow> string" where
  "toolTier name = (case gget toolExposureTier name of None \<Rightarrow> ''advanced'' | Some tier \<Rightarrow> tier)"

definition toolsToHideForExposureProfile :: "string list \<Rightarrow> string \<Rightarrow> string list" where
  "toolsToHideForExposureProfile allToolNames profile =
     (let profileRank = exposureProfileRank profile
      in filter (\<lambda>name. exposureProfileRank (toolTier name) > profileRank) allToolNames)"

text \<open>The tools a scoped server still lists after \<open>RemoveTools\<close> of the hidden ones.\<close>

definition visibleTools :: "string list \<Rightarrow> string \<Rightarrow> string list" where
  "visibleTools allToolNames profile =
     filter (\<lambda>n. n \<notin> set (toolsToHideForExposureProfile allToolNames profile)) allToolNames"

lemma tiers_known: "list_all (\<lambda>(n, tier). isKnownExposureProfile tier) toolExposureTier"
  by (simp add: toolExposureTier_def isKnownExposureProfile_def exposureProfileRank_def)

lemma toolTier_known: "isKnownExposureProfile (toolTier name)"
proof (cases "gget toolExposureTier name")
  case None
  then show ?thesis
    by (simp add: toolTier_def isKnownExposureProfile_def exposureProfileRank_def)
next
  case (Some tier)
  then have "(name, tier) \<in> set toolExposureTier" by (rule map_of_SomeD)
  with tiers_known have "isKnownExposureProfile tier" by (auto simp: list_all_iff)
  with Some show ?thesis by (simp add: toolTier_def)
qed

lemma exposureProfileRank_le: "exposureProfileRank p \<le> 3"
  by (simp add: exposureProfileRank_def)

lemma in_hidden:
  "n \<in> set (toolsToHideForExposureProfile names p) \<longleftrightarrow>
     n \<in> set names \<and> exposureProfileRank (toolTier n) > exposureProfileRank p"
  by (auto simp: toolsToHideForExposureProfile_def Let_def)

lemma in_visible:
  "n \<in> set (visibleTools names p) \<longleftrightarrow>
     n \<in> set names \<and> exposureProfileRank (toolTier n) \<le> exposureProfileRank p"
  by (auto simp: visibleTools_def in_hidden)

section \<open>Properties\<close>

text \<open>Facts about a registry filled by \<open>Register\<close>, shared by the properties below.\<close>

lemma registry_by_name:
  "rg_by_name (foldl register r ds) = foldl (\<lambda>m d. gput m (td_name d) d) (rg_by_name r) ds"
  by (induction ds arbitrary: r) (simp_all add: register_def)

lemma registry_defs: "rg_defs (foldl register r ds) = rg_defs r @ ds"
  by (induction ds arbitrary: r) (simp_all add: register_def)

lemma gget_fold_put:
  "distinct (map td_name ds) \<Longrightarrow> d \<in> set ds \<Longrightarrow>
     gget (foldl (\<lambda>m d. gput m (td_name d) d) m ds) (td_name d) = Some d"
proof (induction ds arbitrary: m rule: rev_induct)
  case (snoc x ds)
  show ?case
  proof (cases "d = x")
    case True
    then show ?thesis by simp
  next
    case False
    with snoc.prems have "d \<in> set ds" "td_name x \<noteq> td_name d" by auto
    with snoc show ?thesis by auto
  qed
qed simp

lemma required_scope_registered:
  "distinct (map td_name ds) \<Longrightarrow> d \<in> set ds \<Longrightarrow>
     required_scope_for (foldl register new_registry ds) (td_name d) = Some (td_required_scope d)"
  by (simp add: required_scope_for_def registry_by_name gget_fold_put)

definition demo_tool :: "string \<Rightarrow> string \<Rightarrow> tool_def" where
  "demo_tool n s = \<lparr>td_name = n, td_description = '''', td_required_scope = s, td_input_schema = JNull\<rparr>"

definition demo_registry :: registry where
  "demo_registry = foldl register new_registry
     [demo_tool ''get_page'' ''read'', demo_tool ''create_page'' ''write'',
      demo_tool ''stage_hugo_upgrade'' ''admin'']"

definition demo_parser :: "string \<Rightarrow> json option" where
  "demo_parser s = (if s = ''x'' then Some (JObj [(''method'', JStr ''tools/call''),
      (''params'', JObj [(''name'', JStr ''create_page'')])]) else None)"

text \<open>
  C15. The access policy decides a request exactly as documented: \<open>AllowRequest\<close> accepts a body if
  and only if it parses as a single call or as a batch of at most fifty, and every \<open>tools/call\<close> in
  it names a registered tool whose required scope ranks no higher than the caller's.
\<close>

theorem acl_allow_exact:
  "AllowRequest P reg body s \<longleftrightarrow>
     (\<exists>envs. acl_parse P body = (envs, '''') \<and> length envs \<le> 50 \<and>
        (\<forall>env\<in>set envs. env_method env = ''tools/call'' \<longrightarrow>
           (\<exists>name req. decode_params (env_params env) = Inr name \<and> name \<noteq> '''' \<and>
              required_scope_for reg name = Some req \<and> ScopeRank req \<le> ScopeRank s)))"
  using acl_parse_batch [of P body]
  by (auto simp: AllowRequest_def all_allowed_iff checkOne_allow_iff maxBatchSize_def
      split: prod.splits)

theorem acl_allow_exact_witness:
  "AllowRequest demo_parser demo_registry ''x'' ''write'' \<and>
     \<not> AllowRequest demo_parser demo_registry ''x'' ''read''"
  unfolding acl_allow_exact
  by (simp add: demo_parser_def demo_registry_def demo_tool_def acl_parse_def trim_space_eval decode_env_def zero_env_def
      env_member_def names_field_def fold_char_def decode_string_def decode_params_def
      name_member_def required_scope_for_def register_def new_registry_def)

text \<open>
  The reason given for a refusal is empty exactly when the request is allowed, so the HTTP
  handler, which calls both, never refuses without a reason and never has a reason for a request
  it let through.
\<close>

theorem acl_deny_reason_iff:
  "AllowRequest P reg body s \<longleftrightarrow> DenyReason P reg body s = ''''"
  by (simp add: AllowRequest_def DenyReason_def all_allowed_reason split: prod.splits)

text \<open>
  What the registry lists for a scope is what the access policy lets that scope call: for tools
  registered under distinct non-empty names, a tool is in \<open>ForScope\<close> of a known scope if and only
  if a \<open>tools/call\<close> naming it is allowed for that scope.
\<close>

theorem for_scope_is_callable:
  assumes "distinct (map td_name ds)" "d \<in> set ds" "td_name d \<noteq> ''''"
    and "s \<in> {'''', ''read'', ''write'', ''admin''}"
    and "decode_params p = Inr (td_name d)"
  shows "d \<in> set (ForScope (foldl register new_registry ds) s) \<longleftrightarrow>
    fst (checkOne (foldl register new_registry ds) \<lparr>env_method = ''tools/call'', env_params = p\<rparr> s)"
proof -
  have s: "scope_rank_raw s \<ge> 0" "ScopeRank s = scope_rank_raw s"
    using assms(4) by auto
  have "d \<in> set (ForScope (foldl register new_registry ds) s) \<longleftrightarrow>
      ScopeRank (td_required_scope d) \<le> ScopeRank s"
    using assms(2) s by (auto simp: ForScope_def Let_def registry_defs new_registry_def ScopeRank_max)
  then show ?thesis
    using assms(3,5) required_scope_registered [OF assms(1,2)]
    by (simp add: checkOne_allow_iff)
qed

theorem for_scope_is_callable_witness:
  "demo_tool ''create_page'' ''write'' \<in> set (ForScope demo_registry ''write'') \<longleftrightarrow>
     fst (checkOne demo_registry \<lparr>env_method = ''tools/call'',
        env_params = Some (JObj [(''name'', JStr ''create_page'')])\<rparr> ''write'')"
  unfolding demo_registry_def
  by (rule for_scope_is_callable)
    (simp_all add: demo_tool_def decode_params_def name_member_def names_field_def fold_char_def
      decode_string_def)

text \<open>
  Authority is monotone in the scope's rank: whatever the policy lets one caller send, it lets
  every caller of an equal or higher rank send.
\<close>

theorem acl_monotone:
  assumes "ScopeRank s \<le> ScopeRank s'" "AllowRequest P reg body s"
  shows "AllowRequest P reg body s'"
proof -
  have "fst (checkOne reg env s')" if "fst (checkOne reg env s)" for env
    using that assms(1) unfolding checkOne_allow_iff by (meson order_trans)
  then show ?thesis
    using assms(2) by (auto simp: AllowRequest_def all_allowed_iff split: prod.splits if_splits)
qed

theorem acl_monotone_witness: "AllowRequest demo_parser demo_registry ''x'' ''admin''"
  by (rule acl_monotone [of "''write''"])
    (simp_all add: AllowRequest_def checkOne_def demo_parser_def demo_registry_def demo_tool_def
      acl_parse_def trim_space_eval
      decode_env_def zero_env_def env_member_def names_field_def fold_char_def decode_string_def
      decode_params_def name_member_def required_scope_for_def register_def new_registry_def)

text \<open>
  Configured scope lists come out canonical: no repetition, only \<open>read\<close>, \<open>write\<close> and
  \<open>admin\<close>, strictly increasing in rank and never empty, and the last one, which the SQLite store
  records as the client's scope, is the one \<open>highestConfiguredScope\<close> returns.
\<close>

theorem normalizeConfiguredScopes_canonical:
  assumes "normalizeConfiguredScopes scopes singular = Inr out"
  shows "distinct out \<and> set out \<subseteq> canonical_scopes \<and> out \<noteq> [] \<and>
    sorted_wrt (\<lambda>a b. ScopeRank a < ScopeRank b) out \<and> last out = highestConfiguredScope out"
  using normalizeConfiguredScopes_props [OF assms] highest_is_last [of out]
  by (simp add: scopes_ok_def)

lemma trim_space_examples:
  "trim_space ''site.admin'' = ''site.admin''" "trim_space ''mcp'' = ''mcp''"
  "trim_space ''write'' = ''write''"
  by (simp_all add: trim_space_eval)

theorem normalizeConfiguredScopes_canonical_witness:
  "normalizeConfiguredScopes [''site.admin'', ''mcp''] ''write'' = Inr [''read'', ''write'', ''admin''] \<and>
     last [''read'', ''write'', ''admin''] = highestConfiguredScope [''read'', ''write'', ''admin'']"
proof -
  have n: "normalizeConfiguredScopes [''site.admin'', ''mcp''] ''write'' =
      Inr [''read'', ''write'', ''admin'']"
    by (simp add: normalizeConfiguredScopes_def add_scope_def normalizeConfiguredScope_def
        CanonicalScope_def trim_space_examples)
  from normalizeConfiguredScopes_canonical [OF this] n show ?thesis by simp
qed

text \<open>
  Exposure profiles are cumulative and only ever narrow: a more permissive profile lists every
  tool a less permissive one lists, every listed tool was registered, the admin profile hides
  nothing, and an unknown profile would list nothing.
\<close>

theorem exposure_profiles_cumulative:
  assumes "exposureProfileRank p \<le> exposureProfileRank q"
  shows "set (visibleTools names p) \<subseteq> set (visibleTools names q) \<and>
    set (visibleTools names q) \<subseteq> set names \<and>
    visibleTools names ''admin'' = names \<and>
    (\<not> isKnownExposureProfile p \<longrightarrow> visibleTools names p = [])"
proof (intro conjI impI)
  show "set (visibleTools names p) \<subseteq> set (visibleTools names q)"
    using assms by (auto simp: in_visible)
  show "set (visibleTools names q) \<subseteq> set names"
    by (auto simp: in_visible)
  have "exposureProfileRank ''admin'' = 3"
    by (simp add: exposureProfileRank_def)
  then have "toolsToHideForExposureProfile names ''admin'' = []"
    by (simp add: toolsToHideForExposureProfile_def filter_empty_conv not_less exposureProfileRank_le)
  then show "visibleTools names ''admin'' = names"
    by (simp add: visibleTools_def)
  assume unknown: "\<not> isKnownExposureProfile p"
  show "visibleTools names p = []"
  proof -
    have "\<not> exposureProfileRank (toolTier n) \<le> exposureProfileRank p" for n
      using unknown toolTier_known [of n] unfolding isKnownExposureProfile_def by linarith
    then have "n \<notin> set (visibleTools names p)" for n
      by (simp add: in_visible)
    then show ?thesis
      by (cases "visibleTools names p") auto
  qed
qed

theorem exposure_profiles_cumulative_witness:
  "set (visibleTools [''get_page'', ''create_page''] ''reader'')
     \<subseteq> set (visibleTools [''get_page'', ''create_page''] ''editorial'') \<and>
   visibleTools [''get_page'', ''create_page''] ''reader'' = [''get_page'']"
proof -
  have le: "exposureProfileRank ''reader'' \<le> exposureProfileRank ''editorial''"
    by (simp add: exposureProfileRank_def)
  have tier: "toolTier ''get_page'' = ''reader''" "toolTier ''create_page'' = ''editorial''"
    by (simp_all add: toolTier_def toolExposureTier_def)
  from exposure_profiles_cumulative [OF le, of "[''get_page'', ''create_page'']"] show ?thesis
    by (simp add: tier visibleTools_def toolsToHideForExposureProfile_def exposureProfileRank_def)
qed

end
