(* ===== verification/TokenStore.thy ===== *)
theory TokenStore
  imports Prelude
begin

text \<open>
  The OAuth token stores of \<open>internal/storage\<close>: the in-memory store (store.go), the JSON file
  store (json.go) and the SQLite store (sqlite.go). The \<open>Store\<close> interface is the locale
  \<open>token_store\<close>; it is interpreted for each of the three. A call that can fail takes a \<open>fault\<close>:
  \<open>None\<close> when nothing fails, \<open>Some k\<close> when its k-th fallible step (a file operation, an SQL
  statement, counted from 0) does. Each operation reads the clock once, and gets that reading as
  \<open>now\<close>. A SQL table is a map from its primary key; \<open>INSERT OR REPLACE\<close> is an update,
  \<open>DELETE ... WHERE\<close> a filter.
\<close>

type_synonym fault = "nat option"

record access_token_details =
  atd_scope :: string
  atd_principal :: string
  atd_expires_at :: time

section \<open>internal/storage/store.go\<close>

record memory_entry =
  me_principal :: string
  me_scope :: string
  me_expires_at :: time

record memory_refresh_entry =
  mr_client_id :: string
  mr_scope :: string
  mr_expires_at :: time

record memory_store =
  ms_tokens :: "(string, memory_entry) gomap"
  ms_refresh_tokens :: "(string, memory_refresh_entry) gomap"

definition NewMemory :: memory_store where
  "NewMemory = \<lparr>ms_tokens = [], ms_refresh_tokens = []\<rparr>"

definition mem_AddAccessToken ::
    "memory_store \<Rightarrow> string \<Rightarrow> string \<Rightarrow> string \<Rightarrow> time \<Rightarrow> memory_store" where
  "mem_AddAccessToken m token scope prin expiresAt =
     m\<lparr>ms_tokens := gput (ms_tokens m) token
         \<lparr>me_principal = prin, me_scope = scope, me_expires_at = expiresAt\<rparr>\<rparr>"

definition mem_ValidateAccessToken :: "time \<Rightarrow> memory_store \<Rightarrow> string \<Rightarrow> string option" where
  "mem_ValidateAccessToken now m token =
     (case gget (ms_tokens m) token of
        None \<Rightarrow> None
      | Some e \<Rightarrow> if \<not> now < me_expires_at e then None else Some (me_scope e))"

definition mem_ValidateAccessTokenDetails ::
    "time \<Rightarrow> memory_store \<Rightarrow> string \<Rightarrow> access_token_details option" where
  "mem_ValidateAccessTokenDetails now m token =
     (case gget (ms_tokens m) token of
        None \<Rightarrow> None
      | Some e \<Rightarrow>
          if \<not> now < me_expires_at e then None
          else Some \<lparr>atd_scope = me_scope e, atd_principal = me_principal e,
                     atd_expires_at = me_expires_at e\<rparr>)"

definition mem_AddRefreshToken ::
    "memory_store \<Rightarrow> string \<Rightarrow> string \<Rightarrow> string \<Rightarrow> time \<Rightarrow> memory_store" where
  "mem_AddRefreshToken m token clientID scope expiresAt =
     m\<lparr>ms_refresh_tokens := gput (ms_refresh_tokens m) token
         \<lparr>mr_client_id = clientID, mr_scope = scope, mr_expires_at = expiresAt\<rparr>\<rparr>"

definition mem_ValidateRefreshToken ::
    "time \<Rightarrow> memory_store \<Rightarrow> string \<Rightarrow> string \<Rightarrow> string option" where
  "mem_ValidateRefreshToken now m token clientID =
     (case gget (ms_refresh_tokens m) token of
        None \<Rightarrow> None
      | Some e \<Rightarrow>
          if mr_client_id e \<noteq> clientID \<or> \<not> now < mr_expires_at e then None
          else Some (mr_scope e))"

definition mem_ExchangeRefreshToken ::
    "time \<Rightarrow> memory_store \<Rightarrow> string \<Rightarrow> string \<Rightarrow> string \<Rightarrow> string \<Rightarrow> time \<Rightarrow> time \<Rightarrow>
     memory_store \<times> string option" where
  "mem_ExchangeRefreshToken now m oldToken clientID newRefreshToken newAccessToken
       accessExpiresAt refreshExpiresAt =
     (case gget (ms_refresh_tokens m) oldToken of
        None \<Rightarrow> (m, None)
      | Some e \<Rightarrow>
          if mr_client_id e \<noteq> clientID \<or> \<not> now < mr_expires_at e then (m, None)
          else
            (let m1 = m\<lparr>ms_refresh_tokens := gdel (ms_refresh_tokens m) oldToken\<rparr>;
                 m2 = m1\<lparr>ms_tokens := gput (ms_tokens m1) newAccessToken
                        \<lparr>me_principal = clientID, me_scope = mr_scope e,
                         me_expires_at = accessExpiresAt\<rparr>\<rparr>;
                 m3 = m2\<lparr>ms_refresh_tokens := gput (ms_refresh_tokens m2) newRefreshToken
                        \<lparr>mr_client_id = clientID, mr_scope = mr_scope e,
                         mr_expires_at = refreshExpiresAt\<rparr>\<rparr>
             in (m3, Some (mr_scope e))))"

definition mem_PurgeExpiredTokens :: "time \<Rightarrow> memory_store \<Rightarrow> memory_store" where
  "mem_PurgeExpiredTokens now m =
     m\<lparr>ms_tokens := gkeep (\<lambda>k e. now < me_expires_at e) (ms_tokens m),
       ms_refresh_tokens := gkeep (\<lambda>k e. now < mr_expires_at e) (ms_refresh_tokens m)\<rparr>"

section \<open>internal/storage/json.go\<close>

record json_entry =
  je_principal :: string
  je_scope :: string
  je_expires_at :: int

record json_refresh_entry =
  jr_client_id :: string
  jr_scope :: string
  jr_expires_at :: int

record json_state =
  js_access_tokens :: "(string, json_entry) gomap"
  js_refresh_tokens :: "(string, json_refresh_entry) gomap"

text \<open>
  What the token file holds, as \<open>load\<close> distinguishes it: no file, a file that cannot be read, an
  empty one, a document with an \<open>access_tokens\<close> object (\<open>save\<close> writes only such), a legacy
  document mapping tokens to entries, and anything else.
\<close>

datatype json_file = NoFile | UnreadableFile | EmptyFile | StateFile json_state
  | LegacyFile "(string, json_entry) gomap" | BadFile

record json_store =
  jst_file :: json_file
  jst_tokens :: "(string, json_entry) gomap"
  jst_refresh_tokens :: "(string, json_refresh_entry) gomap"

definition json_load :: "json_store \<Rightarrow> json_store go" where
  "json_load s =
     (case jst_file s of
        NoFile \<Rightarrow> Inr s
      | UnreadableFile \<Rightarrow> Inl ''read json store''
      | EmptyFile \<Rightarrow> Inr s
      | StateFile st \<Rightarrow>
          Inr (s\<lparr>jst_tokens := js_access_tokens st, jst_refresh_tokens := js_refresh_tokens st\<rparr>)
      | LegacyFile m \<Rightarrow> Inr (s\<lparr>jst_tokens := m\<rparr>)
      | BadFile \<Rightarrow> Inl ''json'')"

definition NewJSON :: "json_file \<Rightarrow> json_store go" where
  "NewJSON f = json_load \<lparr>jst_file = f, jst_tokens = [], jst_refresh_tokens = []\<rparr>"

text \<open>
  \<open>saveJSONState\<close> creates the directory, writes \<open>path.tmp\<close> and renames it: until the rename
  succeeds the file is untouched.
\<close>

definition saveJSONState :: "fault \<Rightarrow> json_file \<Rightarrow> json_state \<Rightarrow> json_file \<times> string option" where
  "saveJSONState flt f st =
     (case flt of
        Some k \<Rightarrow> (f, Some (if k = 0 then ''mkdir'' else if k = 1 then ''write tmp'' else ''rename''))
      | None \<Rightarrow> (StateFile st, None))"

definition json_save :: "fault \<Rightarrow> json_store \<Rightarrow> json_store \<times> string option" where
  "json_save flt s =
     (case saveJSONState flt (jst_file s)
             \<lparr>js_access_tokens = jst_tokens s, js_refresh_tokens = jst_refresh_tokens s\<rparr> of
        (f, err) \<Rightarrow> (s\<lparr>jst_file := f\<rparr>, err))"

definition json_AddAccessToken ::
    "fault \<Rightarrow> json_store \<Rightarrow> string \<Rightarrow> string \<Rightarrow> string \<Rightarrow> time \<Rightarrow> json_store \<times> string option" where
  "json_AddAccessToken flt s token scope prin expiresAt =
     json_save flt (s\<lparr>jst_tokens := gput (jst_tokens s) token
       \<lparr>je_principal = prin, je_scope = scope, je_expires_at = unix expiresAt\<rparr>\<rparr>)"

definition json_ValidateAccessToken :: "time \<Rightarrow> json_store \<Rightarrow> string \<Rightarrow> string option" where
  "json_ValidateAccessToken now s token =
     (case gget (jst_tokens s) token of
        None \<Rightarrow> None
      | Some e \<Rightarrow> if unix now \<ge> je_expires_at e then None else Some (je_scope e))"

definition json_ValidateAccessTokenDetails ::
    "time \<Rightarrow> json_store \<Rightarrow> string \<Rightarrow> access_token_details option" where
  "json_ValidateAccessTokenDetails now s token =
     (case gget (jst_tokens s) token of
        None \<Rightarrow> None
      | Some e \<Rightarrow>
          if unix now \<ge> je_expires_at e then None
          else Some \<lparr>atd_scope = je_scope e, atd_principal = je_principal e,
                     atd_expires_at = from_unix (je_expires_at e)\<rparr>)"

definition json_AddRefreshToken ::
    "fault \<Rightarrow> json_store \<Rightarrow> string \<Rightarrow> string \<Rightarrow> string \<Rightarrow> time \<Rightarrow> json_store \<times> string option" where
  "json_AddRefreshToken flt s token clientID scope expiresAt =
     json_save flt (s\<lparr>jst_refresh_tokens := gput (jst_refresh_tokens s) token
       \<lparr>jr_client_id = clientID, jr_scope = scope, jr_expires_at = unix expiresAt\<rparr>\<rparr>)"

definition json_ValidateRefreshToken ::
    "time \<Rightarrow> json_store \<Rightarrow> string \<Rightarrow> string \<Rightarrow> string option" where
  "json_ValidateRefreshToken now s token clientID =
     (case gget (jst_refresh_tokens s) token of
        None \<Rightarrow> None
      | Some e \<Rightarrow>
          if jr_client_id e \<noteq> clientID \<or> unix now \<ge> jr_expires_at e then None
          else Some (jr_scope e))"

definition json_ExchangeRefreshToken ::
    "fault \<Rightarrow> time \<Rightarrow> json_store \<Rightarrow> string \<Rightarrow> string \<Rightarrow> string \<Rightarrow> string \<Rightarrow> time \<Rightarrow> time \<Rightarrow>
     json_store \<times> string option go" where
  "json_ExchangeRefreshToken flt now s oldToken clientID newRefreshToken newAccessToken
       accessExpiresAt refreshExpiresAt =
     (case gget (jst_refresh_tokens s) oldToken of
        None \<Rightarrow> (s, Inr None)
      | Some e \<Rightarrow>
          if jr_client_id e \<noteq> clientID \<or> unix now \<ge> jr_expires_at e then (s, Inr None)
          else
            (let nextTokens = gput (jst_tokens s) newAccessToken
                   \<lparr>je_principal = clientID, je_scope = jr_scope e,
                    je_expires_at = unix accessExpiresAt\<rparr>;
                 nextRefresh = gput (gdel (jst_refresh_tokens s) oldToken) newRefreshToken
                   \<lparr>jr_client_id = clientID, jr_scope = jr_scope e,
                    jr_expires_at = unix refreshExpiresAt\<rparr>
             in (case saveJSONState flt (jst_file s)
                        \<lparr>js_access_tokens = nextTokens, js_refresh_tokens = nextRefresh\<rparr> of
                   (f, Some err) \<Rightarrow> (s\<lparr>jst_file := f\<rparr>, Inl err)
                 | (f, None) \<Rightarrow>
                     (s\<lparr>jst_file := f, jst_tokens := nextTokens,
                       jst_refresh_tokens := nextRefresh\<rparr>, Inr (Some (jr_scope e))))))"

definition json_PurgeExpiredTokens :: "fault \<Rightarrow> time \<Rightarrow> json_store \<Rightarrow> json_store \<times> string option" where
  "json_PurgeExpiredTokens flt now s =
     json_save flt
       (s\<lparr>jst_tokens := gkeep (\<lambda>k e. \<not> unix now \<ge> je_expires_at e) (jst_tokens s),
          jst_refresh_tokens := gkeep (\<lambda>k e. \<not> unix now \<ge> jr_expires_at e) (jst_refresh_tokens s)\<rparr>)"

section \<open>internal/storage/sqlite.go\<close>

record access_row =
  ar_principal :: string
  ar_scope :: string
  ar_expires_at :: int

record refresh_row =
  rr_client_id :: string
  rr_scope :: string
  rr_expires_at :: int

record client_row =
  cr_secret_hash :: string
  cr_redirect_uris :: "string list"
  cr_scopes :: "string list"
  cr_effective_scope :: string
  cr_enabled :: int
  cr_updated_at :: int

record sqlite_store =
  sq_access_tokens :: "(string, access_row) gomap"
  sq_refresh_tokens :: "(string, refresh_row) gomap"
  sq_oauth_clients :: "(string, client_row) gomap"

definition boolToInt :: "bool \<Rightarrow> int" where
  "boolToInt v = (if v then 1 else 0)"

definition sql_UpsertOAuthClient ::
    "fault \<Rightarrow> time \<Rightarrow> sqlite_store \<Rightarrow> string \<Rightarrow> string \<Rightarrow> bool \<Rightarrow> string list \<Rightarrow> string list \<Rightarrow>
     sqlite_store \<times> string option" where
  "sql_UpsertOAuthClient flt now s clientID secretHash enabled redirectURIs scopes =
     (let effectiveScope = (if length scopes > 0 then scopes ! (length scopes - 1) else '''');
          effectiveScope = (if effectiveScope = '''' then ''content.read'' else effectiveScope)
      in if flt \<noteq> None then (s, Some ''exec'')
         else (s\<lparr>sq_oauth_clients := gput (sq_oauth_clients s) clientID
                  \<lparr>cr_secret_hash = secretHash, cr_redirect_uris = redirectURIs,
                   cr_scopes = scopes, cr_effective_scope = effectiveScope,
                   cr_enabled = boolToInt enabled, cr_updated_at = unix now\<rparr>\<rparr>, None))"

definition sql_AddAccessToken ::
    "fault \<Rightarrow> sqlite_store \<Rightarrow> string \<Rightarrow> string \<Rightarrow> string \<Rightarrow> time \<Rightarrow> sqlite_store \<times> string option" where
  "sql_AddAccessToken flt s token scope prin expiresAt =
     (if flt \<noteq> None then (s, Some ''exec'')
      else (s\<lparr>sq_access_tokens := gput (sq_access_tokens s) token
               \<lparr>ar_principal = prin, ar_scope = scope, ar_expires_at = unix expiresAt\<rparr>\<rparr>, None))"

definition sql_select_access :: "time \<Rightarrow> sqlite_store \<Rightarrow> string \<Rightarrow> access_row option" where
  "sql_select_access now s token =
     (case gget (sq_access_tokens s) token of
        None \<Rightarrow> None
      | Some r \<Rightarrow> if ar_expires_at r > unix now then Some r else None)"

definition sql_ValidateAccessToken :: "fault \<Rightarrow> time \<Rightarrow> sqlite_store \<Rightarrow> string \<Rightarrow> string option" where
  "sql_ValidateAccessToken flt now s token =
     (if flt \<noteq> None then None
      else (case sql_select_access now s token of None \<Rightarrow> None | Some r \<Rightarrow> Some (ar_scope r)))"

definition sql_ValidateAccessTokenDetails ::
    "fault \<Rightarrow> time \<Rightarrow> sqlite_store \<Rightarrow> string \<Rightarrow> access_token_details option" where
  "sql_ValidateAccessTokenDetails flt now s token =
     (if flt \<noteq> None then None
      else (case sql_select_access now s token of
              None \<Rightarrow> None
            | Some r \<Rightarrow> Some \<lparr>atd_scope = ar_scope r, atd_principal = ar_principal r,
                              atd_expires_at = from_unix (ar_expires_at r)\<rparr>))"

definition sql_AddRefreshToken ::
    "fault \<Rightarrow> sqlite_store \<Rightarrow> string \<Rightarrow> string \<Rightarrow> string \<Rightarrow> time \<Rightarrow> sqlite_store \<times> string option" where
  "sql_AddRefreshToken flt s token clientID scope expiresAt =
     (if flt \<noteq> None then (s, Some ''exec'')
      else (s\<lparr>sq_refresh_tokens := gput (sq_refresh_tokens s) token
               \<lparr>rr_client_id = clientID, rr_scope = scope, rr_expires_at = unix expiresAt\<rparr>\<rparr>, None))"

definition sql_select_refresh :: "time \<Rightarrow> sqlite_store \<Rightarrow> string \<Rightarrow> string \<Rightarrow> string option" where
  "sql_select_refresh now s token clientID =
     (case gget (sq_refresh_tokens s) token of
        None \<Rightarrow> None
      | Some r \<Rightarrow> if rr_client_id r = clientID \<and> rr_expires_at r > unix now
                  then Some (rr_scope r) else None)"

definition sql_ValidateRefreshToken ::
    "fault \<Rightarrow> time \<Rightarrow> sqlite_store \<Rightarrow> string \<Rightarrow> string \<Rightarrow> string option" where
  "sql_ValidateRefreshToken flt now s token clientID =
     (if flt \<noteq> None then None else sql_select_refresh now s token clientID)"

text \<open>
  The transaction's steps are \<open>Begin\<close> (0), the query (1), the three statements (2 to 4) and
  \<open>Commit\<close> (5 on); a step that fails rolls everything back.
\<close>

definition sql_ExchangeRefreshToken ::
    "fault \<Rightarrow> time \<Rightarrow> sqlite_store \<Rightarrow> string \<Rightarrow> string \<Rightarrow> string \<Rightarrow> string \<Rightarrow> time \<Rightarrow> time \<Rightarrow>
     sqlite_store \<times> string option go" where
  "sql_ExchangeRefreshToken flt now s oldToken clientID newRefreshToken newAccessToken
       accessExpiresAt refreshExpiresAt =
     (if flt = Some 0 then (s, Inl ''begin'')
      else if flt = Some 1 then (s, Inl ''query'')
      else (case sql_select_refresh now s oldToken clientID of
              None \<Rightarrow> (s, Inr None)
            | Some scope \<Rightarrow>
                if flt \<noteq> None then (s, Inl ''exec'')
                else
                  (let s1 = s\<lparr>sq_refresh_tokens := gdel (sq_refresh_tokens s) oldToken\<rparr>;
                       s2 = s1\<lparr>sq_access_tokens := gput (sq_access_tokens s1) newAccessToken
                              \<lparr>ar_principal = clientID, ar_scope = scope,
                               ar_expires_at = unix accessExpiresAt\<rparr>\<rparr>;
                       s3 = s2\<lparr>sq_refresh_tokens := gput (sq_refresh_tokens s2) newRefreshToken
                              \<lparr>rr_client_id = clientID, rr_scope = scope,
                               rr_expires_at = unix refreshExpiresAt\<rparr>\<rparr>
                   in (s3, Inr (Some scope)))))"

text \<open>The two readings of the clock, one per statement, are taken to be one.\<close>

definition sql_PurgeExpiredTokens :: "fault \<Rightarrow> time \<Rightarrow> sqlite_store \<Rightarrow> sqlite_store \<times> string option" where
  "sql_PurgeExpiredTokens flt now s =
     (if flt = Some 0 then (s, Some ''exec'')
      else (let s1 = s\<lparr>sq_access_tokens :=
                        gkeep (\<lambda>k r. \<not> ar_expires_at r \<le> unix now) (sq_access_tokens s)\<rparr>
            in if flt \<noteq> None then (s1, Some ''exec'')
               else (s1\<lparr>sq_refresh_tokens :=
                         gkeep (\<lambda>k r. \<not> rr_expires_at r \<le> unix now) (sq_refresh_tokens s1)\<rparr>, None)))"

section \<open>What a token store promises\<close>

text \<open>
  The abstract store maps tokens to grants. \<open>stamp\<close> is the precision a store keeps of an expiry
  time: the memory store keeps it whole, the others round it down to the second.
\<close>

record grant =
  g_owner :: string
  g_scope :: string
  g_expires :: time

record abs_tokens =
  abs_access :: "string \<Rightarrow> grant option"
  abs_refresh :: "string \<Rightarrow> grant option"

definition live_grant :: "time \<Rightarrow> grant option \<Rightarrow> grant option" where
  "live_grant now go = (case go of None \<Rightarrow> None | Some g \<Rightarrow> if now < g_expires g then Some g else None)"

definition spec_add_access ::
    "(time \<Rightarrow> time) \<Rightarrow> abs_tokens \<Rightarrow> string \<Rightarrow> string \<Rightarrow> string \<Rightarrow> time \<Rightarrow> abs_tokens" where
  "spec_add_access stamp a t sc p e =
     a\<lparr>abs_access := (abs_access a)(t \<mapsto> \<lparr>g_owner = p, g_scope = sc, g_expires = stamp e\<rparr>)\<rparr>"

definition spec_validate :: "time \<Rightarrow> abs_tokens \<Rightarrow> string \<Rightarrow> string option" where
  "spec_validate now a t = map_option g_scope (live_grant now (abs_access a t))"

definition spec_details :: "time \<Rightarrow> abs_tokens \<Rightarrow> string \<Rightarrow> access_token_details option" where
  "spec_details now a t =
     map_option (\<lambda>g. \<lparr>atd_scope = g_scope g, atd_principal = g_owner g, atd_expires_at = g_expires g\<rparr>)
       (live_grant now (abs_access a t))"

definition spec_add_refresh ::
    "(time \<Rightarrow> time) \<Rightarrow> abs_tokens \<Rightarrow> string \<Rightarrow> string \<Rightarrow> string \<Rightarrow> time \<Rightarrow> abs_tokens" where
  "spec_add_refresh stamp a t c sc e =
     a\<lparr>abs_refresh := (abs_refresh a)(t \<mapsto> \<lparr>g_owner = c, g_scope = sc, g_expires = stamp e\<rparr>)\<rparr>"

definition spec_validate_refresh :: "time \<Rightarrow> abs_tokens \<Rightarrow> string \<Rightarrow> string \<Rightarrow> string option" where
  "spec_validate_refresh now a t c =
     (case live_grant now (abs_refresh a t) of
        None \<Rightarrow> None | Some g \<Rightarrow> if g_owner g = c then Some (g_scope g) else None)"

definition spec_exchange ::
    "(time \<Rightarrow> time) \<Rightarrow> time \<Rightarrow> abs_tokens \<Rightarrow> string \<Rightarrow> string \<Rightarrow> string \<Rightarrow> string \<Rightarrow> time \<Rightarrow> time \<Rightarrow>
     abs_tokens \<times> string option" where
  "spec_exchange stamp now a old c nr na ae re =
     (case spec_validate_refresh now a old c of
        None \<Rightarrow> (a, None)
      | Some sc \<Rightarrow>
          (a\<lparr>abs_access := (abs_access a)(na \<mapsto> \<lparr>g_owner = c, g_scope = sc, g_expires = stamp ae\<rparr>),
             abs_refresh := ((abs_refresh a)(old := None))
               (nr \<mapsto> \<lparr>g_owner = c, g_scope = sc, g_expires = stamp re\<rparr>)\<rparr>, Some sc))"

definition spec_purge :: "time \<Rightarrow> abs_tokens \<Rightarrow> abs_tokens" where
  "spec_purge now a =
     \<lparr>abs_access = (\<lambda>t. live_grant now (abs_access a t)),
      abs_refresh = (\<lambda>t. live_grant now (abs_refresh a t))\<rparr>"

lemma live_grant_later:
  "x \<in> {a, live_grant now a} \<Longrightarrow> now \<le> now' \<Longrightarrow> live_grant now' x = live_grant now' a"
  by (cases a) (auto simp: live_grant_def)

locale token_store =
  fixes ok :: "'s \<Rightarrow> bool"
    and abs_of :: "'s \<Rightarrow> abs_tokens"
    and stamp :: "time \<Rightarrow> time"
    and add_access :: "fault \<Rightarrow> 's \<Rightarrow> string \<Rightarrow> string \<Rightarrow> string \<Rightarrow> time \<Rightarrow> 's \<times> string option"
    and validate :: "fault \<Rightarrow> time \<Rightarrow> 's \<Rightarrow> string \<Rightarrow> string option"
    and details :: "fault \<Rightarrow> time \<Rightarrow> 's \<Rightarrow> string \<Rightarrow> access_token_details option"
    and add_refresh :: "fault \<Rightarrow> 's \<Rightarrow> string \<Rightarrow> string \<Rightarrow> string \<Rightarrow> time \<Rightarrow> 's \<times> string option"
    and validate_refresh :: "fault \<Rightarrow> time \<Rightarrow> 's \<Rightarrow> string \<Rightarrow> string \<Rightarrow> string option"
    and exchange :: "fault \<Rightarrow> time \<Rightarrow> 's \<Rightarrow> string \<Rightarrow> string \<Rightarrow> string \<Rightarrow> string \<Rightarrow> time \<Rightarrow> time \<Rightarrow>
      's \<times> string option go"
    and purge :: "fault \<Rightarrow> time \<Rightarrow> 's \<Rightarrow> 's \<times> string option"
  assumes stamp_le: "stamp e \<le> e"
    and add_access_ok: "ok s \<Longrightarrow> ok (fst (add_access f s t sc p e))"
    and add_access_none: "ok s \<Longrightarrow> snd (add_access None s t sc p e) = None"
    and add_access_done: "ok s \<Longrightarrow> snd (add_access f s t sc p e) = None \<Longrightarrow>
      abs_of (fst (add_access f s t sc p e)) = spec_add_access stamp (abs_of s) t sc p e"
    and add_access_failed: "ok s \<Longrightarrow>
      abs_of (fst (add_access f s t sc p e)) \<in> {abs_of s, spec_add_access stamp (abs_of s) t sc p e}"
    and validate_none: "ok s \<Longrightarrow> validate None now s t = spec_validate now (abs_of s) t"
    and validate_fault: "ok s \<Longrightarrow> validate f now s t \<in> {None, validate None now s t}"
    and details_none: "ok s \<Longrightarrow> details None now s t = spec_details now (abs_of s) t"
    and details_fault: "ok s \<Longrightarrow> details f now s t \<in> {None, details None now s t}"
    and add_refresh_ok: "ok s \<Longrightarrow> ok (fst (add_refresh f s t c sc e))"
    and add_refresh_none: "ok s \<Longrightarrow> snd (add_refresh None s t c sc e) = None"
    and add_refresh_done: "ok s \<Longrightarrow> snd (add_refresh f s t c sc e) = None \<Longrightarrow>
      abs_of (fst (add_refresh f s t c sc e)) = spec_add_refresh stamp (abs_of s) t c sc e"
    and add_refresh_failed: "ok s \<Longrightarrow>
      abs_of (fst (add_refresh f s t c sc e)) \<in> {abs_of s, spec_add_refresh stamp (abs_of s) t c sc e}"
    and validate_refresh_none:
      "ok s \<Longrightarrow> validate_refresh None now s t c = spec_validate_refresh now (abs_of s) t c"
    and validate_refresh_fault:
      "ok s \<Longrightarrow> validate_refresh f now s t c \<in> {None, validate_refresh None now s t c}"
    and exchange_ok: "ok s \<Longrightarrow> ok (fst (exchange f now s old c nr na ae re))"
    and exchange_none: "ok s \<Longrightarrow> snd (exchange None now s old c nr na ae re) =
      Inr (snd (spec_exchange stamp now (abs_of s) old c nr na ae re))"
    and exchange_done: "ok s \<Longrightarrow> snd (exchange f now s old c nr na ae re) = Inr r \<Longrightarrow>
      spec_exchange stamp now (abs_of s) old c nr na ae re =
        (abs_of (fst (exchange f now s old c nr na ae re)), r)"
    and exchange_failed: "ok s \<Longrightarrow> snd (exchange f now s old c nr na ae re) = Inl err \<Longrightarrow>
      fst (exchange f now s old c nr na ae re) = s"
    and purge_ok: "ok s \<Longrightarrow> ok (fst (purge f now s))"
    and purge_none: "ok s \<Longrightarrow> snd (purge None now s) = None"
    and purge_done: "ok s \<Longrightarrow> snd (purge f now s) = None \<Longrightarrow>
      abs_of (fst (purge f now s)) = spec_purge now (abs_of s)"
    and purge_access: "ok s \<Longrightarrow> abs_access (abs_of (fst (purge f now s))) t
      \<in> {abs_access (abs_of s) t, live_grant now (abs_access (abs_of s) t)}"
    and purge_refresh: "ok s \<Longrightarrow> abs_refresh (abs_of (fst (purge f now s))) t
      \<in> {abs_refresh (abs_of s) t, live_grant now (abs_refresh (abs_of s) t)}"
begin

lemmas store_ok = add_access_ok add_refresh_ok exchange_ok purge_ok

lemma validate_added:
  assumes "ok s" "add_access f s t sc p e = (s', None)"
  shows "validate None now s' t' = (if t' = t then (if now < stamp e then Some sc else None)
    else validate None now s t')"
proof -
  have "ok s'" "abs_of s' = spec_add_access stamp (abs_of s) t sc p e"
    using add_access_ok [of s f t sc p e] add_access_done [of s f t sc p e] assms by simp_all
  then show ?thesis
    using assms(1)
    by (simp add: validate_none spec_validate_def spec_add_access_def live_grant_def)
qed

lemma validate_refresh_added:
  assumes "ok s" "add_refresh f s t c sc e = (s', None)"
  shows "validate_refresh None now s' t c = (if now < stamp e then Some sc else None)"
proof -
  have "ok s'" "abs_of s' = spec_add_refresh stamp (abs_of s) t c sc e"
    using add_refresh_ok [of s f t c sc e] add_refresh_done [of s f t c sc e] assms by simp_all
  then show ?thesis
    by (simp add: validate_refresh_none spec_validate_refresh_def spec_add_refresh_def live_grant_def)
qed

lemma exchange_success:
  assumes "ok s" "exchange f now s old c nr na ae re = (s', Inr (Some sc))"
  shows "ok s'" "validate_refresh None now s old c = Some sc"
    "nr \<noteq> old \<Longrightarrow> validate_refresh f' now' s' old c' = None"
    "validate_refresh None now' s' nr c = (if now' < stamp re then Some sc else None)"
    "validate None now' s' na = (if now' < stamp ae then Some sc else None)"
    "t \<noteq> na \<Longrightarrow> validate None now' s' t = validate None now' s t"
proof -
  show ok': "ok s'"
    using exchange_ok [OF assms(1), of f now old c nr na ae re] assms(2) by simp
  have ex: "spec_exchange stamp now (abs_of s) old c nr na ae re = (abs_of s', Some sc)"
    using exchange_done [OF assms(1), of f now old c nr na ae re] assms(2) by simp
  then have v: "spec_validate_refresh now (abs_of s) old c = Some sc"
    and a: "abs_of s' = (abs_of s)
      \<lparr>abs_access := (abs_access (abs_of s))(na \<mapsto> \<lparr>g_owner = c, g_scope = sc, g_expires = stamp ae\<rparr>),
       abs_refresh := ((abs_refresh (abs_of s))(old := None))
         (nr \<mapsto> \<lparr>g_owner = c, g_scope = sc, g_expires = stamp re\<rparr>)\<rparr>"
    by (auto simp: spec_exchange_def split: option.splits)
  show "validate_refresh None now s old c = Some sc"
    using v assms(1) by (simp add: validate_refresh_none)
  show "validate_refresh f' now' s' old c' = None" if "nr \<noteq> old"
    using validate_refresh_fault [OF ok', of f' now' old c'] that
    by (auto simp: validate_refresh_none [OF ok'] a spec_validate_refresh_def live_grant_def)
  show "validate_refresh None now' s' nr c = (if now' < stamp re then Some sc else None)"
    by (simp add: validate_refresh_none [OF ok'] a spec_validate_refresh_def live_grant_def)
  show "validate None now' s' na = (if now' < stamp ae then Some sc else None)"
    by (simp add: validate_none [OF ok'] a spec_validate_def live_grant_def)
  show "validate None now' s' t = validate None now' s t" if "t \<noteq> na"
    using that by (simp add: validate_none ok' assms(1) a spec_validate_def)
qed

lemma purge_keeps_valid:
  assumes "ok s" "now \<le> now'"
  shows "validate None now' (fst (purge f now s)) t = validate None now' s t"
    "validate_refresh None now' (fst (purge f now s)) t c = validate_refresh None now' s t c"
  using live_grant_later [OF purge_access [OF assms(1), of f now t] assms(2)]
    live_grant_later [OF purge_refresh [OF assms(1), of f now t] assms(2)]
  by (simp_all add: validate_none validate_refresh_none purge_ok assms(1) spec_validate_def
      spec_validate_refresh_def)

lemma expired_never_valid:
  assumes "ok s" "abs_access (abs_of s) t = Some g" "g_expires g \<le> now"
  shows "validate f now s t = None"
  using validate_fault [OF assms(1), of f now t] assms
  by (auto simp: validate_none spec_validate_def live_grant_def)

end

section \<open>The three stores keep the promise\<close>

definition mem_abs :: "memory_store \<Rightarrow> abs_tokens" where
  "mem_abs m =
     \<lparr>abs_access = (\<lambda>t. map_option (\<lambda>e. \<lparr>g_owner = me_principal e, g_scope = me_scope e,
         g_expires = me_expires_at e\<rparr>) (gget (ms_tokens m) t)),
      abs_refresh = (\<lambda>t. map_option (\<lambda>e. \<lparr>g_owner = mr_client_id e, g_scope = mr_scope e,
         g_expires = mr_expires_at e\<rparr>) (gget (ms_refresh_tokens m) t))\<rparr>"

definition mem_ok :: "memory_store \<Rightarrow> bool" where
  "mem_ok m \<longleftrightarrow> wf_map (ms_tokens m) \<and> wf_map (ms_refresh_tokens m)"

definition json_abs :: "json_store \<Rightarrow> abs_tokens" where
  "json_abs s =
     \<lparr>abs_access = (\<lambda>t. map_option (\<lambda>e. \<lparr>g_owner = je_principal e, g_scope = je_scope e,
         g_expires = from_unix (je_expires_at e)\<rparr>) (gget (jst_tokens s) t)),
      abs_refresh = (\<lambda>t. map_option (\<lambda>e. \<lparr>g_owner = jr_client_id e, g_scope = jr_scope e,
         g_expires = from_unix (jr_expires_at e)\<rparr>) (gget (jst_refresh_tokens s) t))\<rparr>"

definition json_ok :: "json_store \<Rightarrow> bool" where
  "json_ok s \<longleftrightarrow> wf_map (jst_tokens s) \<and> wf_map (jst_refresh_tokens s)"

definition sql_abs :: "sqlite_store \<Rightarrow> abs_tokens" where
  "sql_abs s =
     \<lparr>abs_access = (\<lambda>t. map_option (\<lambda>r. \<lparr>g_owner = ar_principal r, g_scope = ar_scope r,
         g_expires = from_unix (ar_expires_at r)\<rparr>) (gget (sq_access_tokens s) t)),
      abs_refresh = (\<lambda>t. map_option (\<lambda>r. \<lparr>g_owner = rr_client_id r, g_scope = rr_scope r,
         g_expires = from_unix (rr_expires_at r)\<rparr>) (gget (sq_refresh_tokens s) t))\<rparr>"

definition sql_ok :: "sqlite_store \<Rightarrow> bool" where
  "sql_ok s \<longleftrightarrow> wf_map (sq_access_tokens s) \<and> wf_map (sq_refresh_tokens s)"

lemma less_from_unix: "now < from_unix e \<longleftrightarrow> unix now < e"
proof -
  let ?q = "now div second"
  have q: "?q * second \<le> now" "now < (?q + 1) * second"
    by (simp_all add: second_def)
  have "e \<le> ?q \<Longrightarrow> e * second \<le> ?q * second" "?q + 1 \<le> e \<Longrightarrow> (?q + 1) * second \<le> e * second"
    using second_pos(1) by (simp_all only: mult_right_mono less_imp_le)
  with q show ?thesis
    unfolding from_unix_def unix_def by linarith
qed

lemmas spec_defs = spec_add_access_def spec_validate_def spec_details_def spec_add_refresh_def
  spec_validate_refresh_def spec_exchange_def spec_purge_def live_grant_def

lemmas mem_defs = mem_AddAccessToken_def mem_ValidateAccessToken_def
  mem_ValidateAccessTokenDetails_def mem_AddRefreshToken_def mem_ValidateRefreshToken_def
  mem_ExchangeRefreshToken_def mem_PurgeExpiredTokens_def mem_abs_def mem_ok_def

lemmas json_defs = json_AddAccessToken_def json_ValidateAccessToken_def
  json_ValidateAccessTokenDetails_def json_AddRefreshToken_def json_ValidateRefreshToken_def
  json_ExchangeRefreshToken_def json_PurgeExpiredTokens_def json_abs_def json_ok_def
  json_save_def saveJSONState_def

lemmas sql_defs = sql_AddAccessToken_def sql_ValidateAccessToken_def
  sql_ValidateAccessTokenDetails_def sql_AddRefreshToken_def sql_ValidateRefreshToken_def
  sql_ExchangeRefreshToken_def sql_PurgeExpiredTokens_def sql_abs_def sql_ok_def
  sql_select_access_def sql_select_refresh_def

lemmas store_splits = option.splits prod.splits if_splits

lemma live_Some [simp]: "live_grant now None = None"
  "live_grant now (Some g) = (if now < g_expires g then Some g else None)"
  by (simp_all add: live_grant_def)

lemma mem_sim:
  assumes "mem_ok m"
  shows "mem_ok (mem_AddAccessToken m t sc p e)"
    "mem_abs (mem_AddAccessToken m t sc p e) = spec_add_access (\<lambda>e. e) (mem_abs m) t sc p e"
    "mem_ValidateAccessToken now m t = spec_validate now (mem_abs m) t"
    "mem_ValidateAccessTokenDetails now m t = spec_details now (mem_abs m) t"
    "mem_ok (mem_AddRefreshToken m t c sc e)"
    "mem_abs (mem_AddRefreshToken m t c sc e) = spec_add_refresh (\<lambda>e. e) (mem_abs m) t c sc e"
    "mem_ValidateRefreshToken now m t c = spec_validate_refresh now (mem_abs m) t c"
  using assms
  by (auto simp: mem_defs spec_add_access_def spec_validate_def spec_details_def
      spec_add_refresh_def spec_validate_refresh_def fun_eq_iff split: option.splits)

lemma mem_sim_exchange:
  assumes "mem_ok m"
  shows "mem_ok (fst (mem_ExchangeRefreshToken now m old c nr na ae re))"
    "map_prod mem_abs id (mem_ExchangeRefreshToken now m old c nr na ae re) =
      spec_exchange (\<lambda>e. e) now (mem_abs m) old c nr na ae re"
  using assms
  by (cases "gget (ms_refresh_tokens m) old";
      simp add: mem_defs spec_exchange_def spec_validate_refresh_def fun_eq_iff)+

lemma mem_sim_purge:
  assumes "mem_ok m"
  shows "mem_ok (mem_PurgeExpiredTokens now m)"
    "mem_abs (mem_PurgeExpiredTokens now m) = spec_purge now (mem_abs m)"
  using assms
  by (simp_all add: mem_defs spec_purge_def fun_eq_iff gget_keep split: option.splits)

lemma json_save_simps [simp]:
  "jst_tokens (fst (json_save f s)) = jst_tokens s"
  "jst_refresh_tokens (fst (json_save f s)) = jst_refresh_tokens s"
  "json_ok (fst (json_save f s)) = json_ok s"
  "json_abs (fst (json_save f s)) = json_abs s"
  "snd (json_save None s) = None"
  by (auto simp: json_save_def saveJSONState_def json_ok_def json_abs_def split: option.splits prod.splits)

lemma json_sim:
  assumes "json_ok s"
  shows "json_ok (fst (json_AddAccessToken f s t sc p e))"
    "json_abs (fst (json_AddAccessToken f s t sc p e)) =
      spec_add_access (\<lambda>e. from_unix (unix e)) (json_abs s) t sc p e"
    "snd (json_AddAccessToken None s t sc p e) = None"
    "json_ValidateAccessToken now s t = spec_validate now (json_abs s) t"
    "json_ValidateAccessTokenDetails now s t = spec_details now (json_abs s) t"
    "json_ok (fst (json_AddRefreshToken f s t c sc e))"
    "json_abs (fst (json_AddRefreshToken f s t c sc e)) =
      spec_add_refresh (\<lambda>e. from_unix (unix e)) (json_abs s) t c sc e"
    "snd (json_AddRefreshToken None s t c sc e) = None"
    "json_ValidateRefreshToken now s t c = spec_validate_refresh now (json_abs s) t c"
  using assms
  by (auto simp: json_AddAccessToken_def json_ValidateAccessToken_def
      json_ValidateAccessTokenDetails_def json_AddRefreshToken_def json_ValidateRefreshToken_def
      json_abs_def json_ok_def spec_add_access_def spec_validate_def spec_details_def
      spec_add_refresh_def spec_validate_refresh_def fun_eq_iff less_from_unix
      split: option.splits)

lemma json_sim_exchange:
  assumes "json_ok s"
  shows "json_ok (fst (json_ExchangeRefreshToken f now s old c nr na ae re))"
    "snd (json_ExchangeRefreshToken f now s old c nr na ae re) = Inl err \<Longrightarrow>
      fst (json_ExchangeRefreshToken f now s old c nr na ae re) = s"
    "snd (json_ExchangeRefreshToken f now s old c nr na ae re) = Inr r \<Longrightarrow>
      spec_exchange (\<lambda>e. from_unix (unix e)) now (json_abs s) old c nr na ae re =
        (json_abs (fst (json_ExchangeRefreshToken f now s old c nr na ae re)), r)"
    "\<exists>r. snd (json_ExchangeRefreshToken None now s old c nr na ae re) = Inr r"
  using assms
  by (cases "gget (jst_refresh_tokens s) old"; cases f;
      auto simp: json_ExchangeRefreshToken_def saveJSONState_def json_abs_def json_ok_def Let_def
        spec_exchange_def spec_validate_refresh_def fun_eq_iff less_from_unix)+

lemma json_sim_purge:
  assumes "json_ok s"
  shows "json_ok (fst (json_PurgeExpiredTokens f now s))"
    "json_abs (fst (json_PurgeExpiredTokens f now s)) = spec_purge now (json_abs s)"
    "snd (json_PurgeExpiredTokens None now s) = None"
  using assms
  by (auto simp: json_PurgeExpiredTokens_def json_abs_def json_ok_def spec_purge_def fun_eq_iff
      gget_keep less_from_unix split: option.splits)

lemma sql_sim:
  assumes "sql_ok s"
  shows "sql_ok (fst (sql_AddAccessToken f s t sc p e))"
    "sql_abs (fst (sql_AddAccessToken f s t sc p e)) =
      (if f = None then spec_add_access (\<lambda>e. from_unix (unix e)) (sql_abs s) t sc p e else sql_abs s)"
    "snd (sql_AddAccessToken f s t sc p e) = None \<longleftrightarrow> f = None"
    "sql_ValidateAccessToken f now s t = (if f = None then spec_validate now (sql_abs s) t else None)"
    "sql_ValidateAccessTokenDetails f now s t =
      (if f = None then spec_details now (sql_abs s) t else None)"
    "sql_ok (fst (sql_AddRefreshToken f s t c sc e))"
    "sql_abs (fst (sql_AddRefreshToken f s t c sc e)) =
      (if f = None then spec_add_refresh (\<lambda>e. from_unix (unix e)) (sql_abs s) t c sc e else sql_abs s)"
    "snd (sql_AddRefreshToken f s t c sc e) = None \<longleftrightarrow> f = None"
    "sql_ValidateRefreshToken f now s t c =
      (if f = None then spec_validate_refresh now (sql_abs s) t c else None)"
  using assms
  by (auto simp: sql_AddAccessToken_def sql_ValidateAccessToken_def sql_select_access_def
      sql_ValidateAccessTokenDetails_def sql_AddRefreshToken_def sql_ValidateRefreshToken_def
      sql_select_refresh_def sql_abs_def sql_ok_def spec_add_access_def spec_validate_def
      spec_details_def spec_add_refresh_def spec_validate_refresh_def fun_eq_iff less_from_unix
      split: option.splits)

lemma sql_sim_exchange:
  assumes "sql_ok s"
  shows "sql_ok (fst (sql_ExchangeRefreshToken f now s old c nr na ae re))"
    "snd (sql_ExchangeRefreshToken f now s old c nr na ae re) = Inl err \<Longrightarrow>
      fst (sql_ExchangeRefreshToken f now s old c nr na ae re) = s"
    "snd (sql_ExchangeRefreshToken f now s old c nr na ae re) = Inr r \<Longrightarrow>
      spec_exchange (\<lambda>e. from_unix (unix e)) now (sql_abs s) old c nr na ae re =
        (sql_abs (fst (sql_ExchangeRefreshToken f now s old c nr na ae re)), r)"
    "\<exists>r. snd (sql_ExchangeRefreshToken None now s old c nr na ae re) = Inr r"
  using assms
  by (cases "gget (sq_refresh_tokens s) old"; cases f;
      auto simp: sql_ExchangeRefreshToken_def sql_select_refresh_def sql_abs_def sql_ok_def Let_def
        spec_exchange_def spec_validate_refresh_def fun_eq_iff less_from_unix split: if_splits)+

lemma sql_sim_purge:
  assumes "sql_ok s"
  shows "sql_ok (fst (sql_PurgeExpiredTokens f now s))"
    "snd (sql_PurgeExpiredTokens f now s) = None \<longleftrightarrow> f = None"
    "sql_abs (fst (sql_PurgeExpiredTokens None now s)) = spec_purge now (sql_abs s)"
    "abs_access (sql_abs (fst (sql_PurgeExpiredTokens f now s))) t
      \<in> {abs_access (sql_abs s) t, live_grant now (abs_access (sql_abs s) t)}"
    "abs_refresh (sql_abs (fst (sql_PurgeExpiredTokens f now s))) t
      \<in> {abs_refresh (sql_abs s) t, live_grant now (abs_refresh (sql_abs s) t)}"
  using assms
  by (auto simp: sql_PurgeExpiredTokens_def sql_abs_def sql_ok_def spec_purge_def fun_eq_iff
      gget_keep less_from_unix Let_def not_le split: option.splits if_splits)

interpretation mem: token_store mem_ok mem_abs "\<lambda>e. e"
  "\<lambda>f m t sc p e. (mem_AddAccessToken m t sc p e, None)"
  "\<lambda>f. mem_ValidateAccessToken" "\<lambda>f. mem_ValidateAccessTokenDetails"
  "\<lambda>f m t c sc e. (mem_AddRefreshToken m t c sc e, None)"
  "\<lambda>f. mem_ValidateRefreshToken"
  "\<lambda>f now m old c nr na ae re. map_prod id Inr (mem_ExchangeRefreshToken now m old c nr na ae re)"
  "\<lambda>f now m. (mem_PurgeExpiredTokens now m, None)"
  by unfold_locales
    (simp_all add: mem_sim mem_sim_purge mem_sim_exchange(1) spec_purge_def
      mem_sim_exchange(2) [symmetric] prod_eq_iff)

interpretation json: token_store json_ok json_abs "\<lambda>e. from_unix (unix e)"
  json_AddAccessToken "\<lambda>f. json_ValidateAccessToken" "\<lambda>f. json_ValidateAccessTokenDetails"
  json_AddRefreshToken "\<lambda>f. json_ValidateRefreshToken" json_ExchangeRefreshToken
  json_PurgeExpiredTokens
proof (unfold_locales, goal_cases)
  case (17 s now old c nr na ae re)
  with json_sim_exchange(4) [of s now old c nr na ae re] json_sim_exchange(3) [of s None now old c nr na ae re]
  show ?case by auto
qed (simp_all add: json_sim json_sim_purge json_sim_exchange spec_purge_def)

interpretation sql: token_store sql_ok sql_abs "\<lambda>e. from_unix (unix e)"
  sql_AddAccessToken sql_ValidateAccessToken sql_ValidateAccessTokenDetails
  sql_AddRefreshToken sql_ValidateRefreshToken sql_ExchangeRefreshToken sql_PurgeExpiredTokens
proof (unfold_locales, goal_cases)
  case (17 s now old c nr na ae re)
  with sql_sim_exchange(4) [of s now old c nr na ae re] sql_sim_exchange(3) [of s None now old c nr na ae re]
  show ?case by auto
next
  case (23 s f now t)
  then show ?case by (rule sql_sim_purge(4))
next
  case (24 s f now t)
  then show ?case by (rule sql_sim_purge(5))
qed (simp_all add: sql_sim sql_sim_purge sql_sim_exchange)

section \<open>Sequences of store calls\<close>

text \<open>
  One call of the \<open>Store\<close> interface with the clock reading it takes, and its answer. A run of a
  store without faults is the list of its answers.
\<close>

datatype store_op =
    OpAddAccess string string string time
  | OpValidate string
  | OpDetails string
  | OpAddRefresh string string string time
  | OpValidateRefresh string string
  | OpExchange string string string string time time
  | OpPurge

datatype store_answer =
    AnsError "string option"
  | AnsScope "string option"
  | AnsDetails "access_token_details option"
  | AnsExchange "string option go"

fun json_exec :: "json_store \<Rightarrow> time \<times> store_op \<Rightarrow> json_store \<times> store_answer" where
  "json_exec s (now, OpAddAccess t sc p e) = map_prod id AnsError (json_AddAccessToken None s t sc p e)"
| "json_exec s (now, OpValidate t) = (s, AnsScope (json_ValidateAccessToken now s t))"
| "json_exec s (now, OpDetails t) = (s, AnsDetails (json_ValidateAccessTokenDetails now s t))"
| "json_exec s (now, OpAddRefresh t c sc e) =
     map_prod id AnsError (json_AddRefreshToken None s t c sc e)"
| "json_exec s (now, OpValidateRefresh t c) = (s, AnsScope (json_ValidateRefreshToken now s t c))"
| "json_exec s (now, OpExchange old c nr na ae re) =
     map_prod id AnsExchange (json_ExchangeRefreshToken None now s old c nr na ae re)"
| "json_exec s (now, OpPurge) = map_prod id AnsError (json_PurgeExpiredTokens None now s)"

fun sql_exec :: "sqlite_store \<Rightarrow> time \<times> store_op \<Rightarrow> sqlite_store \<times> store_answer" where
  "sql_exec s (now, OpAddAccess t sc p e) = map_prod id AnsError (sql_AddAccessToken None s t sc p e)"
| "sql_exec s (now, OpValidate t) = (s, AnsScope (sql_ValidateAccessToken None now s t))"
| "sql_exec s (now, OpDetails t) = (s, AnsDetails (sql_ValidateAccessTokenDetails None now s t))"
| "sql_exec s (now, OpAddRefresh t c sc e) =
     map_prod id AnsError (sql_AddRefreshToken None s t c sc e)"
| "sql_exec s (now, OpValidateRefresh t c) = (s, AnsScope (sql_ValidateRefreshToken None now s t c))"
| "sql_exec s (now, OpExchange old c nr na ae re) =
     map_prod id AnsExchange (sql_ExchangeRefreshToken None now s old c nr na ae re)"
| "sql_exec s (now, OpPurge) = map_prod id AnsError (sql_PurgeExpiredTokens None now s)"

fun run_store :: "('s \<Rightarrow> 'o \<Rightarrow> 's \<times> 'a) \<Rightarrow> 's \<Rightarrow> 'o list \<Rightarrow> 'a list" where
  "run_store exec s [] = []"
| "run_store exec s (c # cs) = (case exec s c of (s', a) \<Rightarrow> a # run_store exec s' cs)"

text \<open>A simulation between two stores gives equal answers on every run.\<close>

lemma run_store_sim:
  assumes "R s s'"
    and "\<And>s s' c. R s s' \<Longrightarrow> R (fst (e1 s c)) (fst (e2 s' c)) \<and> snd (e1 s c) = snd (e2 s' c)"
  shows "run_store e1 s cs = run_store e2 s' cs"
  using assms(1)
proof (induction cs arbitrary: s s')
  case (Cons c cs)
  from assms(2) [OF Cons.prems, of c] Cons.IH [of "fst (e1 s c)" "fst (e2 s' c)"]
  show ?case by (simp add: case_prod_unfold)
qed simp

lemma exchange_agree:
  assumes "json_ok s" "sql_ok s'" "json_abs s = sql_abs s'"
  shows "snd (json_ExchangeRefreshToken None now s old c nr na ae re) =
      snd (sql_ExchangeRefreshToken None now s' old c nr na ae re)"
    "json_abs (fst (json_ExchangeRefreshToken None now s old c nr na ae re)) =
      sql_abs (fst (sql_ExchangeRefreshToken None now s' old c nr na ae re))"
proof -
  show snds: "snd (json_ExchangeRefreshToken None now s old c nr na ae re) =
      snd (sql_ExchangeRefreshToken None now s' old c nr na ae re)"
    using json.exchange_none [OF assms(1), of now old c nr na ae re]
      sql.exchange_none [OF assms(2), of now old c nr na ae re] assms(3) by simp
  obtain r where r: "snd (json_ExchangeRefreshToken None now s old c nr na ae re) = Inr r"
    using json_sim_exchange(4) [OF assms(1)] by blast
  from json.exchange_done [OF assms(1) r] sql.exchange_done [OF assms(2), of None now old c nr na ae re r]
    r snds assms(3)
  show "json_abs (fst (json_ExchangeRefreshToken None now s old c nr na ae re)) =
      sql_abs (fst (sql_ExchangeRefreshToken None now s' old c nr na ae re))"
    by simp
qed

lemma json_sql_step:
  assumes "json_ok s \<and> sql_ok s' \<and> json_abs s = sql_abs s'"
  shows "(json_ok (fst (json_exec s c)) \<and> sql_ok (fst (sql_exec s' c)) \<and>
      json_abs (fst (json_exec s c)) = sql_abs (fst (sql_exec s' c))) \<and>
    snd (json_exec s c) = snd (sql_exec s' c)"
proof -
  obtain now op where c: "c = (now, op)" by (cases c)
  from assms show ?thesis
    unfolding c
    by (cases op)
      (simp_all add: json.store_ok sql.store_ok json_sim sql_sim json_sim_purge sql_sim_purge
        exchange_agree json.purge_none sql.purge_none sql.add_access_none sql.add_refresh_none)
qed

section \<open>Properties\<close>

definition empty_json :: "json_file \<Rightarrow> json_store" where
  "empty_json f = \<lparr>jst_file = f, jst_tokens = [], jst_refresh_tokens = []\<rparr>"

definition empty_sqlite :: sqlite_store where
  "empty_sqlite = \<lparr>sq_access_tokens = [], sq_refresh_tokens = [], sq_oauth_clients = []\<rparr>"

text \<open>
  C17. The JSON and the SQLite token stores are interchangeable while their writes succeed: started empty,
  they give the same answer to every call of every sequence of calls of the \<open>Store\<close> interface in which no
  save and no statement fails, at whatever clock readings the calls are made. (After a failed save they may differ:
  see \<open>json\_add\_failed\_still\_valid\<close>.)
\<close>

theorem json_sqlite_interchangeable:
  "run_store json_exec (empty_json f) cs = run_store sql_exec empty_sqlite cs"
proof (rule run_store_sim)
  show "json_ok (empty_json f) \<and> sql_ok empty_sqlite \<and> json_abs (empty_json f) = sql_abs empty_sqlite"
    by (simp add: empty_json_def empty_sqlite_def json_ok_def sql_ok_def json_abs_def sql_abs_def)
qed (rule json_sql_step)

text \<open>
  C16. Refresh-token rotation in SQLite is single use, whatever statement of the transaction fails:
  a successful exchange needs the old token to be valid for that client, hands its scope on, makes
  the old token invalid for every client ever after (the replacement differing from it), the new
  ones valid until their expiry second, and leaves every other access token as it was; an exchange
  that reports an error has changed nothing.
\<close>

theorem sqlite_refresh_rotation:
  assumes "sql_ok s" "sql_ExchangeRefreshToken flt now s old c nr na ae re = (s', r)" "nr \<noteq> old"
  shows "(\<forall>err. r = Inl err \<longrightarrow> s' = s) \<and>
    (\<forall>sc. r = Inr (Some sc) \<longrightarrow>
       sql_ok s' \<and>
       sql_ValidateRefreshToken None now s old c = Some sc \<and>
       (\<forall>flt' now' c'. sql_ValidateRefreshToken flt' now' s' old c' = None) \<and>
       (\<forall>now'. sql_ValidateRefreshToken None now' s' nr c =
               (if unix now' < unix re then Some sc else None)) \<and>
       (\<forall>now'. sql_ValidateAccessToken None now' s' na =
               (if unix now' < unix ae then Some sc else None)) \<and>
       (\<forall>now' t. t \<noteq> na \<longrightarrow> sql_ValidateAccessToken None now' s' t = sql_ValidateAccessToken None now' s t))"
proof (intro conjI allI impI)
  fix err
  assume "r = Inl err"
  then show "s' = s"
    using sql.exchange_failed [of s flt now old c nr na ae re err] assms(1,2) by simp
next
  fix sc
  assume r: "r = Inr (Some sc)"
  note ex = sql.exchange_success [OF assms(1) assms(2) [unfolded r]]
  show "sql_ok s'" by (rule ex(1))
  show "sql_ValidateRefreshToken None now s old c = Some sc" by (rule ex(2))
  show "sql_ValidateRefreshToken flt' now' s' old c' = None" for flt' now' c'
    using ex(3) assms(3) by blast
  show "sql_ValidateRefreshToken None now' s' nr c = (if unix now' < unix re then Some sc else None)" for now'
    using ex(4) by (simp add: less_from_unix)
  show "sql_ValidateAccessToken None now' s' na = (if unix now' < unix ae then Some sc else None)" for now'
    using ex(5) by (simp add: less_from_unix)
  show "sql_ValidateAccessToken None now' s' t = sql_ValidateAccessToken None now' s t" if "t \<noteq> na" for now' t
    using ex(6) that by blast
qed

definition demo_sqlite :: sqlite_store where
  "demo_sqlite = fst (sql_AddRefreshToken None empty_sqlite ''old'' ''c'' ''write'' (from_unix 100))"

lemma demo_sqlite_exchange:
  "sql_ExchangeRefreshToken None 0 demo_sqlite ''old'' ''c'' ''new'' ''at'' (from_unix 10) (from_unix 200) =
     (fst (sql_ExchangeRefreshToken None 0 demo_sqlite ''old'' ''c'' ''new'' ''at'' (from_unix 10) (from_unix 200)),
      Inr (Some ''write''))"
  by (simp add: demo_sqlite_def empty_sqlite_def sql_AddRefreshToken_def
      sql_ExchangeRefreshToken_def sql_select_refresh_def Let_def unix_def [of 0])

theorem sqlite_refresh_rotation_witness:
  "sql_ValidateRefreshToken None 0
     (fst (sql_ExchangeRefreshToken None 0 demo_sqlite ''old'' ''c'' ''new'' ''at'' (from_unix 10) (from_unix 200)))
     ''old'' ''c'' = None \<and>
   sql_ValidateRefreshToken None 0 demo_sqlite ''old'' ''c'' = Some ''write''"
proof -
  have "sql_ok demo_sqlite"
    by (simp add: demo_sqlite_def empty_sqlite_def sql_AddRefreshToken_def sql_ok_def wf_map_def)
  from sqlite_refresh_rotation [OF this demo_sqlite_exchange] show ?thesis by simp
qed

lemma json_save_durable:
  "snd (json_save flt s) = None \<Longrightarrow>
     NewJSON (jst_file (fst (json_save flt s))) = Inr (fst (json_save flt s))"
  by (cases flt) (simp_all add: json_save_def saveJSONState_def NewJSON_def json_load_def)

lemma json_exchange_durable:
  "snd (json_ExchangeRefreshToken flt now s old c nr na ae re) = Inr (Some sc) \<Longrightarrow>
     NewJSON (jst_file (fst (json_ExchangeRefreshToken flt now s old c nr na ae re))) =
       Inr (fst (json_ExchangeRefreshToken flt now s old c nr na ae re))"
  by (cases flt)
    (auto simp: json_ExchangeRefreshToken_def saveJSONState_def NewJSON_def json_load_def Let_def
      split: option.splits if_splits)

lemma json_sim_exchange_unchanged:
  "snd (json_ExchangeRefreshToken flt now s old c nr na ae re) = Inl err \<Longrightarrow>
     fst (json_ExchangeRefreshToken flt now s old c nr na ae re) = s"
  by (cases flt)
    (auto simp: json_ExchangeRefreshToken_def saveJSONState_def Let_def
      split: option.splits if_splits)

text \<open>
  The JSON store survives a restart: whenever a call that writes reports success (and whenever
  an exchange hands out a token), reopening the file gives exactly the tokens in memory; and an
  exchange whose save fails leaves memory and file as they were.
\<close>

theorem json_store_durable:
  "(snd (json_AddAccessToken flt s t sc p e) = None \<longrightarrow>
      NewJSON (jst_file (fst (json_AddAccessToken flt s t sc p e))) =
        Inr (fst (json_AddAccessToken flt s t sc p e))) \<and>
   (snd (json_AddRefreshToken flt s t c sc e) = None \<longrightarrow>
      NewJSON (jst_file (fst (json_AddRefreshToken flt s t c sc e))) =
        Inr (fst (json_AddRefreshToken flt s t c sc e))) \<and>
   (snd (json_PurgeExpiredTokens flt now s) = None \<longrightarrow>
      NewJSON (jst_file (fst (json_PurgeExpiredTokens flt now s))) =
        Inr (fst (json_PurgeExpiredTokens flt now s))) \<and>
   (snd (json_ExchangeRefreshToken flt now s old c nr na ae re) = Inr (Some sc') \<longrightarrow>
      NewJSON (jst_file (fst (json_ExchangeRefreshToken flt now s old c nr na ae re))) =
        Inr (fst (json_ExchangeRefreshToken flt now s old c nr na ae re))) \<and>
   (snd (json_ExchangeRefreshToken flt now s old c nr na ae re) = Inl err \<longrightarrow>
      fst (json_ExchangeRefreshToken flt now s old c nr na ae re) = s)"
  by (intro conjI impI json_exchange_durable json_sim_exchange_unchanged)
    (unfold json_AddAccessToken_def json_AddRefreshToken_def json_PurgeExpiredTokens_def,
      erule json_save_durable, erule json_save_durable, erule json_save_durable)

theorem json_store_durable_witness:
  "NewJSON (jst_file (fst (json_AddAccessToken None (empty_json NoFile) ''t'' ''read'' ''c'' (from_unix 9)))) =
     Inr (fst (json_AddAccessToken None (empty_json NoFile) ''t'' ''read'' ''c'' (from_unix 9)))"
  using json_store_durable [of None "empty_json NoFile" "''t''" "''read''" "''c''" "from_unix 9"]
  by (simp add: json_AddAccessToken_def json_save_def saveJSONState_def empty_json_def)

text \<open>
  \<open>AddAccessToken\<close> of the JSON store changes memory before it saves: when the save fails it returns
  the error, and the token is valid all the same until the process restarts.
\<close>

lemma json_add_failed_still_valid:
  "snd (json_AddAccessToken (Some k) s t sc p (from_unix e)) \<noteq> None \<and>
   (unix now < e \<longrightarrow>
     json_ValidateAccessToken now (fst (json_AddAccessToken (Some k) s t sc p (from_unix e))) t = Some sc)"
  by (simp add: json_AddAccessToken_def json_save_def saveJSONState_def json_ValidateAccessToken_def)

end
