(* ===== verification/OAuth.thy ===== *)
theory OAuth
  imports Scopes TokenStore
begin

text \<open>
  The OAuth service: \<open>internal/oauth/oauth.go\<close>, \<open>agent_auth.go\<close>, \<open>redirects.go\<close> and
  \<open>client_registry.go\<close>. The \<open>storage.Store\<close> interface value the service holds is a record of
  operations (\<open>store_ops\<close>); the lemmas are proved for every store that keeps the laws of
  \<open>token_store\<close>, and used on the three stores of TokenStore. \<open>url.Parse\<close>, the IP functions of
  package net, Unicode case folding, SHA-256 and the YAML reader are fields of \<open>lib\<close>; a call of
  \<open>randomString\<close> is an argument, \<open>None\<close> when the system's generator fails. Every operation reads
  the clock once. Errors are their messages without wrapped causes; logging is left out.
\<close>

section \<open>Library functions the service calls\<close>

record url =
  u_scheme :: string
  u_host :: string
  u_hostname :: string
  u_path :: string
  u_raw_query :: string
  u_fragment :: string
  u_has_user :: bool
  u_string :: string

record lib =
  lib_url_parse :: "string \<Rightarrow> url option"
  lib_parse_ip :: "string \<Rightarrow> string option"
  lib_is_loopback :: "string \<Rightarrow> bool"
  lib_cidr_contains :: "string \<Rightarrow> (string \<Rightarrow> bool) option"
  lib_split_host_port :: "string \<Rightarrow> (string \<times> string) option"
  lib_equal_fold :: "string \<Rightarrow> string \<Rightarrow> bool"
  lib_hash_token :: "string \<Rightarrow> string"
  lib_challenge_s256 :: "string \<Rightarrow> string"

section \<open>internal/oauth/redirects.go\<close>

definition isLoopbackHost :: "lib \<Rightarrow> string \<Rightarrow> bool" where
  "isLoopbackHost L host0 =
     (let host = to_lower (trim_space host0)
      in if host = ''localhost'' then True
         else (case lib_parse_ip L host of None \<Rightarrow> False | Some ip \<Rightarrow> lib_is_loopback L ip))"

definition validateRegisteredRedirectURI :: "lib \<Rightarrow> string \<Rightarrow> bool" where
  "validateRegisteredRedirectURI L raw0 =
     (let raw1 = trim_space raw0
      in if raw1 = '''' then False
         else if count_list raw1 (CHR ''*'') > 1 then False
         else if CHR ''*'' \<in> set raw1 \<and> \<not> has_suffix ''*'' raw1 then False
         else (let raw = trim_suffix ''*'' raw1
               in (case lib_url_parse L raw of
                     None \<Rightarrow> False
                   | Some u \<Rightarrow>
                       if u_scheme u = '''' \<or> u_host u = '''' then False
                       else if u_has_user u \<or> u_fragment u \<noteq> '''' then False
                       else if u_scheme u = ''https'' then CHR ''*'' \<notin> set (u_host u)
                       else if u_scheme u = ''http'' then isLoopbackHost L (u_hostname u)
                       else False)))"

definition querySuffix :: "string \<Rightarrow> string" where
  "querySuffix q = (if q = '''' then '''' else ''?'' @ q)"

definition fragmentSuffix :: "string \<Rightarrow> string" where
  "fragmentSuffix f = (if f = '''' then '''' else ''#'' @ f)"

definition normalizeRedirectURL :: "url \<Rightarrow> string" where
  "normalizeRedirectURL u =
     u_scheme u @ ''://'' @ u_host u @ u_path u @ querySuffix (u_raw_query u) @ fragmentSuffix (u_fragment u)"

definition parse_absolute :: "lib \<Rightarrow> string \<Rightarrow> url option" where
  "parse_absolute L s =
     (case lib_url_parse L s of
        None \<Rightarrow> None
      | Some u \<Rightarrow> if u_scheme u = '''' \<or> u_host u = '''' then None else Some u)"

definition matchRedirectURI :: "lib \<Rightarrow> string \<Rightarrow> string \<Rightarrow> bool" where
  "matchRedirectURI L registered0 actual0 =
     (let registered1 = trim_space registered0; actual = trim_space actual0
      in if registered1 = '''' \<or> actual = '''' then False
         else
           (let wildcard = has_suffix ''*'' registered1;
                registered = (if wildcard then trim_suffix ''*'' registered1 else registered1)
            in (case parse_absolute L registered of
                  None \<Rightarrow> False
                | Some regURL \<Rightarrow>
                    (case parse_absolute L actual of
                       None \<Rightarrow> False
                     | Some actURL \<Rightarrow>
                         if u_scheme regURL \<noteq> u_scheme actURL
                            \<or> \<not> lib_equal_fold L (u_host regURL) (u_host actURL) then False
                         else if wildcard then
                           (if u_scheme regURL \<noteq> ''https'' then False
                            else
                              (let prefix = (if u_path regURL = '''' then ''/'' else u_path regURL)
                               in if \<not> has_prefix prefix (u_path actURL) then False
                                  else if u_raw_query regURL \<noteq> '''' \<and>
                                          u_raw_query regURL \<noteq> u_raw_query actURL then False
                                  else True))
                         else normalizeRedirectURL regURL = normalizeRedirectURL actURL))))"

section \<open>State of the service\<close>

record oauth_config =
  oc_issuer :: string
  oc_require_pkce :: bool
  oc_dynamic_client_enabled :: bool
  oc_allow_reader_self_registration :: bool
  oc_auth_code_ttl :: int
  oc_access_token_ttl :: int
  oc_refresh_token_ttl :: int
  oc_trusted_authorize_cidrs :: "string list"

record client =
  cl_redirect_uris :: "string list"
  cl_grant_types :: "string list"
  cl_secret_hash :: string
  cl_scope :: string
  cl_enabled :: bool

record auth_code =
  ac_client_id :: string
  ac_redirect_uri :: string
  ac_scope :: string
  ac_expires_at :: time
  ac_code_challenge :: string
  ac_code_challenge_method :: string

record agent_registration =
  ag_registration_id :: string
  ag_assertion_token :: string
  ag_issued_scope :: string
  ag_claim_token :: string
  ag_assertion_expires :: time
  ag_claim_expires :: time
  ag_claimed :: bool

record agent_claim =
  cm_registration_id :: string
  cm_claim_attempt_id :: string
  cm_expires_at :: time

record 's service =
  sv_cfg :: oauth_config
  sv_store :: 's
  sv_clients :: "(string, client) gomap"
  sv_codes :: "(string, auth_code) gomap"
  sv_agent_regs :: "(string, agent_registration) gomap"
  sv_agent_claim_tokens :: "(string, string) gomap"
  sv_agent_claims :: "(string, agent_claim) gomap"

record 's store_ops =
  so_add_access :: "fault \<Rightarrow> 's \<Rightarrow> string \<Rightarrow> string \<Rightarrow> string \<Rightarrow> time \<Rightarrow> 's \<times> string option"
  so_validate :: "fault \<Rightarrow> time \<Rightarrow> 's \<Rightarrow> string \<Rightarrow> string option"
  so_details :: "(fault \<Rightarrow> time \<Rightarrow> 's \<Rightarrow> string \<Rightarrow> access_token_details option) option"
  so_add_refresh :: "fault \<Rightarrow> 's \<Rightarrow> string \<Rightarrow> string \<Rightarrow> string \<Rightarrow> time \<Rightarrow> 's \<times> string option"
  so_validate_refresh :: "fault \<Rightarrow> time \<Rightarrow> 's \<Rightarrow> string \<Rightarrow> string \<Rightarrow> string option"
  so_exchange :: "fault \<Rightarrow> time \<Rightarrow> 's \<Rightarrow> string \<Rightarrow> string \<Rightarrow> string \<Rightarrow> string \<Rightarrow> time \<Rightarrow> time \<Rightarrow>
    's \<times> string option go"
  so_purge :: "fault \<Rightarrow> time \<Rightarrow> 's \<Rightarrow> 's \<times> string option"
  so_upsert_client :: "(fault \<Rightarrow> time \<Rightarrow> 's \<Rightarrow> string \<Rightarrow> string \<Rightarrow> bool \<Rightarrow> string list \<Rightarrow> string list \<Rightarrow>
    's \<times> string option) option"

definition mem_ops :: "memory_store store_ops" where
  "mem_ops =
     \<lparr>so_add_access = (\<lambda>f m t sc p e. (mem_AddAccessToken m t sc p e, None)),
      so_validate = (\<lambda>f. mem_ValidateAccessToken),
      so_details = Some (\<lambda>f. mem_ValidateAccessTokenDetails),
      so_add_refresh = (\<lambda>f m t c sc e. (mem_AddRefreshToken m t c sc e, None)),
      so_validate_refresh = (\<lambda>f. mem_ValidateRefreshToken),
      so_exchange = (\<lambda>f now m old c nr na ae re.
        map_prod id Inr (mem_ExchangeRefreshToken now m old c nr na ae re)),
      so_purge = (\<lambda>f now m. (mem_PurgeExpiredTokens now m, None)),
      so_upsert_client = None\<rparr>"

definition json_ops :: "json_store store_ops" where
  "json_ops =
     \<lparr>so_add_access = json_AddAccessToken,
      so_validate = (\<lambda>f. json_ValidateAccessToken),
      so_details = Some (\<lambda>f. json_ValidateAccessTokenDetails),
      so_add_refresh = json_AddRefreshToken,
      so_validate_refresh = (\<lambda>f. json_ValidateRefreshToken),
      so_exchange = json_ExchangeRefreshToken,
      so_purge = json_PurgeExpiredTokens,
      so_upsert_client = None\<rparr>"

definition sql_ops :: "sqlite_store store_ops" where
  "sql_ops =
     \<lparr>so_add_access = sql_AddAccessToken,
      so_validate = sql_ValidateAccessToken,
      so_details = Some sql_ValidateAccessTokenDetails,
      so_add_refresh = sql_AddRefreshToken,
      so_validate_refresh = sql_ValidateRefreshToken,
      so_exchange = sql_ExchangeRefreshToken,
      so_purge = sql_PurgeExpiredTokens,
      so_upsert_client = Some sql_UpsertOAuthClient\<rparr>"

record token_response =
  tr_access_token :: string
  tr_token_type :: string
  tr_expires_in :: int
  tr_refresh_token :: string
  tr_refresh_expires_in :: int
  tr_scope :: string

definition NewService :: "oauth_config \<Rightarrow> 's \<Rightarrow> 's service" where
  "NewService cfg st =
     (let cfg = (if oc_auth_code_ttl cfg \<le> 0 then cfg\<lparr>oc_auth_code_ttl := 300\<rparr> else cfg);
          cfg = (if oc_access_token_ttl cfg \<le> 0 then cfg\<lparr>oc_access_token_ttl := 3600\<rparr> else cfg);
          cfg = (if oc_refresh_token_ttl cfg \<le> 0 then cfg\<lparr>oc_refresh_token_ttl := 30 * 24 * 3600\<rparr> else cfg);
          cfg = (if oc_trusted_authorize_cidrs cfg = []
                 then cfg\<lparr>oc_trusted_authorize_cidrs := [''127.0.0.1/32'', ''::1/128'']\<rparr> else cfg)
      in \<lparr>sv_cfg = cfg, sv_store = st, sv_clients = [], sv_codes = [], sv_agent_regs = [],
          sv_agent_claim_tokens = [], sv_agent_claims = []\<rparr>)"

section \<open>Clients: internal/oauth/client_registry.go and the registration functions of oauth.go\<close>

fun firstNonEmpty :: "string list \<Rightarrow> string" where
  "firstNonEmpty [] = ''''"
| "firstNonEmpty (v # vs) = (if trim_space v \<noteq> '''' then trim_space v else firstNonEmpty vs)"

declare firstNonEmpty.simps [simp del]

record client_registry_entry =
  ce_id :: string
  ce_client_id :: string
  ce_secret :: string
  ce_client_secret :: string
  ce_secret_hash :: string
  ce_redirect_uris :: "string list"
  ce_scopes :: "string list"
  ce_scope :: string
  ce_enabled :: "bool option"

text \<open>
  \<open>loadClientRegistry\<close> on what the file read and the YAML decoder return: every field is trimmed.
\<close>

definition trim_entry :: "client_registry_entry \<Rightarrow> client_registry_entry" where
  "trim_entry c =
     c\<lparr>ce_id := trim_space (ce_id c), ce_client_id := trim_space (ce_client_id c),
       ce_secret := trim_space (ce_secret c), ce_client_secret := trim_space (ce_client_secret c),
       ce_secret_hash := trim_space (ce_secret_hash c), ce_scope := trim_space (ce_scope c),
       ce_redirect_uris := map trim_space (ce_redirect_uris c),
       ce_scopes := map trim_space (ce_scopes c)\<rparr>"

definition loadClientRegistry ::
    "(string \<Rightarrow> client_registry_entry list go) \<Rightarrow> string \<Rightarrow> client_registry_entry list go" where
  "loadClientRegistry read path =
     (case read path of Inl e \<Rightarrow> Inl e | Inr entries \<Rightarrow> Inr (map trim_entry entries))"

definition entry_client :: "lib \<Rightarrow> client_registry_entry \<Rightarrow> (client \<times> string list) go" where
  "entry_client L entry =
     (if \<not> list_all (validateRegisteredRedirectURI L) (ce_redirect_uris entry)
      then Inl ''invalid_client_registry: invalid redirect_uri''
      else
        (case normalizeConfiguredScopes (ce_scopes entry) (ce_scope entry) of
           Inl e \<Rightarrow> Inl ''invalid_client_registry''
         | Inr scopes \<Rightarrow>
             (let scope = highestConfiguredScope scopes;
                  enabled = (case ce_enabled entry of None \<Rightarrow> True | Some b \<Rightarrow> b);
                  secretHash = trim_space (ce_secret_hash entry);
                  secret = firstNonEmpty [ce_secret entry, ce_client_secret entry];
                  secretHash = (if secretHash = '''' \<and> secret \<noteq> '''' then lib_hash_token L secret
                                else secretHash)
              in if secretHash = '''' then Inl ''invalid_client_registry: client_secret required''
                 else Inr (\<lparr>cl_redirect_uris = ce_redirect_uris entry, cl_grant_types = [],
                            cl_secret_hash = secretHash, cl_scope = scope, cl_enabled = enabled\<rparr>,
                           scopes))))"

definition load_entry ::
    "lib \<Rightarrow> 's store_ops \<Rightarrow> fault \<Rightarrow> time \<Rightarrow> 's service \<Rightarrow> client_registry_entry \<Rightarrow>
     's service \<times> string option" where
  "load_entry L ops flt now s entry =
     (let clientID = firstNonEmpty [ce_id entry, ce_client_id entry]
      in if clientID = '''' then (s, Some ''invalid_client_registry: client_id missing'')
         else if gget (sv_clients s) clientID \<noteq> None
           then (s, Some ''invalid_client_registry: duplicate client_id'')
         else
           (case entry_client L entry of
              Inl e \<Rightarrow> (s, Some e)
            | Inr (c, scopes) \<Rightarrow>
                (let s1 = s\<lparr>sv_clients := gput (sv_clients s) clientID c\<rparr>
                 in (case so_upsert_client ops of
                       None \<Rightarrow> (s1, None)
                     | Some upsert \<Rightarrow>
                         (case upsert flt now (sv_store s1) clientID (cl_secret_hash c)
                                 (cl_enabled c) (cl_redirect_uris c) scopes of
                            (st, None) \<Rightarrow> (s1\<lparr>sv_store := st\<rparr>, None)
                          | (st, Some e) \<Rightarrow>
                              (s1\<lparr>sv_store := st\<rparr>, Some ''invalid_client_registry: persist client''))))))"

fun load_entries ::
    "lib \<Rightarrow> 's store_ops \<Rightarrow> (string \<Rightarrow> fault) \<Rightarrow> time \<Rightarrow> 's service \<Rightarrow> client_registry_entry list \<Rightarrow>
     's service \<times> string option" where
  "load_entries L ops flts now s [] = (s, None)"
| "load_entries L ops flts now s (e # es) =
     (case load_entry L ops (flts (firstNonEmpty [ce_id e, ce_client_id e])) now s e of
        (s', Some err) \<Rightarrow> (s', Some err)
      | (s', None) \<Rightarrow> load_entries L ops flts now s' es)"

definition LoadClientRegistry ::
    "lib \<Rightarrow> 's store_ops \<Rightarrow> (string \<Rightarrow> client_registry_entry list go) \<Rightarrow> (string \<Rightarrow> fault) \<Rightarrow> time \<Rightarrow>
     's service \<Rightarrow> string \<Rightarrow> 's service \<times> string option" where
  "LoadClientRegistry L ops read flts now s path0 =
     (let path = trim_space path0
      in if path = '''' then (s, None)
         else (case loadClientRegistry read path of
                 Inl e \<Rightarrow> (s, Some e)
               | Inr entries \<Rightarrow> load_entries L ops flts now s entries))"

definition lookupClient :: "'s service \<Rightarrow> string \<Rightarrow> client option" where
  "lookupClient s clientID =
     (case gget (sv_clients s) clientID of
        None \<Rightarrow> None
      | Some c \<Rightarrow> if \<not> cl_enabled c then None else Some c)"

definition resolveClientScope :: "'s service \<Rightarrow> string \<Rightarrow> string \<Rightarrow> string go" where
  "resolveClientScope s clientID requested =
     (case lookupClient s clientID of
        None \<Rightarrow> Inl ''unauthorized_client''
      | Some c \<Rightarrow>
          (case requestedScope requested of
             Inl e \<Rightarrow> Inl ''invalid_scope''
           | Inr scope0 \<Rightarrow>
               (let scope = (if scope0 = '''' then cl_scope c else scope0)
                in if \<not> allowedScope scope (cl_scope c) then Inr (cl_scope c) else Inr scope)))"

record registration_response =
  rs_client_id :: string
  rs_client_id_issued_at :: int
  rs_redirect_uris :: "string list"
  rs_grant_types :: "string list"
  rs_response_types :: "string list"
  rs_token_endpoint_auth_method :: string
  rs_code_challenge_methods :: "string list"
  rs_scope :: string

definition registerClient ::
    "lib \<Rightarrow> time \<Rightarrow> string option \<Rightarrow> 's service \<Rightarrow> string list \<Rightarrow>
     's service \<times> registration_response go" where
  "registerClient L now rnd s redirectURIs =
     (if \<not> oc_dynamic_client_enabled (sv_cfg s)
      then (s, Inl ''invalid_request: dynamic_client_registration_disabled'')
      else if redirectURIs = [] then (s, Inl ''invalid_request: redirect_uris missing or empty'')
      else if \<not> list_all (validateRegisteredRedirectURI L) redirectURIs
        then (s, Inl ''invalid_redirect_uri'')
      else
        (case rnd of
           None \<Rightarrow> (s, Inl ''server_error: generate client id'')
         | Some cid \<Rightarrow>
             (s\<lparr>sv_clients := gput (sv_clients s) cid
                \<lparr>cl_redirect_uris = redirectURIs,
                 cl_grant_types = [''authorization_code'', ''refresh_token''],
                 cl_secret_hash = '''', cl_scope = ''read'', cl_enabled = True\<rparr>\<rparr>,
              Inr \<lparr>rs_client_id = cid, rs_client_id_issued_at = unix now,
                   rs_redirect_uris = redirectURIs,
                   rs_grant_types = [''authorization_code'', ''refresh_token''],
                   rs_response_types = [''code''], rs_token_endpoint_auth_method = ''none'',
                   rs_code_challenge_methods = [''S256''], rs_scope = ''read''\<rparr>)))"

definition validateClientRedirectURL :: "lib \<Rightarrow> 's service \<Rightarrow> string \<Rightarrow> string \<Rightarrow> url go" where
  "validateClientRedirectURL L s clientID uri =
     (case lookupClient s clientID of
        None \<Rightarrow> Inl ''unauthorized_client''
      | Some c \<Rightarrow>
          (case parse_absolute L (trim_space uri) of
             None \<Rightarrow> Inl ''invalid_redirect_uri''
           | Some parsed \<Rightarrow>
               if list_ex (\<lambda>r. matchRedirectURI L r (u_string parsed)) (cl_redirect_uris c)
               then Inr parsed else Inl ''invalid_redirect_uri''))"

definition validateClientRedirect :: "lib \<Rightarrow> 's service \<Rightarrow> string \<Rightarrow> string \<Rightarrow> string go" where
  "validateClientRedirect L s clientID uri =
     (case validateClientRedirectURL L s clientID uri of Inl e \<Rightarrow> Inl e | Inr u \<Rightarrow> Inr (u_string u))"

definition sourceAllowed :: "lib \<Rightarrow> 's service \<Rightarrow> string \<Rightarrow> bool" where
  "sourceAllowed L s ipText =
     (case lib_parse_ip L (trim_space ipText) of
        None \<Rightarrow> False
      | Some ip \<Rightarrow>
          list_ex (\<lambda>raw. case lib_cidr_contains L (trim_space raw) of
                           None \<Rightarrow> False | Some contains \<Rightarrow> contains ip)
            (oc_trusted_authorize_cidrs (sv_cfg s)))"

section \<open>Tokens and codes\<close>

definition HashToken :: "lib \<Rightarrow> string \<Rightarrow> string" where
  "HashToken L = lib_hash_token L"

definition ValidatePKCE :: "lib \<Rightarrow> string \<Rightarrow> string \<Rightarrow> bool" where
  "ValidatePKCE L challenge verifier =
     (if challenge = '''' \<or> verifier = '''' then False
      else lib_challenge_s256 L verifier = challenge)"

definition ValidateBearerDetails ::
    "lib \<Rightarrow> 's store_ops \<Rightarrow> fault \<Rightarrow> time \<Rightarrow> 's service \<Rightarrow> string \<Rightarrow> (string \<times> bool) option" where
  "ValidateBearerDetails L ops flt now s token =
     (case so_details ops of
        Some det \<Rightarrow>
          (case det flt now (sv_store s) (HashToken L token) of
             None \<Rightarrow> None
           | Some details \<Rightarrow>
               if trim_space (atd_principal details) = '''' then None
               else Some (CanonicalScope (atd_scope details), IsLegacyScope (atd_scope details)))
      | None \<Rightarrow>
          (case so_validate ops flt now (sv_store s) (HashToken L token) of
             None \<Rightarrow> None
           | Some scope \<Rightarrow> Some (CanonicalScope scope, IsLegacyScope scope)))"

definition ValidateBearer ::
    "lib \<Rightarrow> 's store_ops \<Rightarrow> fault \<Rightarrow> time \<Rightarrow> 's service \<Rightarrow> string \<Rightarrow> string option" where
  "ValidateBearer L ops flt now s token = map_option fst (ValidateBearerDetails L ops flt now s token)"

definition ValidateBearerInfo ::
    "lib \<Rightarrow> 's store_ops \<Rightarrow> fault \<Rightarrow> time \<Rightarrow> 's service \<Rightarrow> string \<Rightarrow>
     (string \<times> time \<times> string \<times> bool) option" where
  "ValidateBearerInfo L ops flt now s token =
     (case so_details ops of
        None \<Rightarrow> None
      | Some det \<Rightarrow>
          (case det flt now (sv_store s) (HashToken L token) of
             None \<Rightarrow> None
           | Some details \<Rightarrow>
               if trim_space (atd_principal details) = '''' then None
               else Some (CanonicalScope (atd_scope details), atd_expires_at details,
                          trim_space (atd_principal details), IsLegacyScope (atd_scope details))))"

definition issueAuthCode ::
    "lib \<Rightarrow> time \<Rightarrow> string option \<Rightarrow> 's service \<Rightarrow> string \<Rightarrow> string \<Rightarrow> string \<Rightarrow> string \<Rightarrow> string \<Rightarrow>
     string \<Rightarrow> string \<Rightarrow> string \<Rightarrow> 's service \<times> string go" where
  "issueAuthCode L now rnd s sourceIP responseType clientID redirectURI state reqScope
       codeChallenge codeChallengeMethod =
     (if \<not> sourceAllowed L s sourceIP then (s, Inl ''access_denied: authorize source is not trusted'')
      else if responseType \<noteq> ''code'' then (s, Inl ''unsupported_response_type'')
      else if state = '''' then (s, Inl ''invalid_request: missing state parameter'')
      else if codeChallenge = '''' \<and> oc_require_pkce (sv_cfg s)
        then (s, Inl ''invalid_request: pkce_mandatory'')
      else if codeChallenge \<noteq> '''' \<and> codeChallengeMethod \<noteq> ''S256''
        then (s, Inl ''invalid_request: unsupported code_challenge_method'')
      else if codeChallenge \<noteq> '''' \<and> (length codeChallenge < 43 \<or> length codeChallenge > 128)
        then (s, Inl ''invalid_request: code_challenge length invalid'')
      else
        (case validateClientRedirect L s clientID redirectURI of
           Inl e \<Rightarrow> (s, Inl e)
         | Inr uri \<Rightarrow>
             (case resolveClientScope s clientID reqScope of
                Inl e \<Rightarrow> (s, Inl e)
              | Inr scope \<Rightarrow>
                  (case rnd of
                     None \<Rightarrow> (s, Inl ''server_error: generate authorization code'')
                   | Some code \<Rightarrow>
                       (s\<lparr>sv_codes := gput (sv_codes s) code
                          \<lparr>ac_client_id = clientID, ac_redirect_uri = redirectURI, ac_scope = scope,
                           ac_expires_at = now + oc_auth_code_ttl (sv_cfg s) * second,
                           ac_code_challenge = codeChallenge,
                           ac_code_challenge_method = codeChallengeMethod\<rparr>\<rparr>,
                        Inr code)))))"

definition client_secret_ok :: "lib \<Rightarrow> client \<Rightarrow> string \<Rightarrow> bool" where
  "client_secret_ok L c clientSecret \<longleftrightarrow>
     cl_secret_hash c = '''' \<or>
     \<not> (clientSecret = '''' \<or> HashToken L clientSecret \<noteq> cl_secret_hash c)"

definition issueBearerPair ::
    "lib \<Rightarrow> 's store_ops \<Rightarrow> fault \<times> fault \<Rightarrow> time \<Rightarrow> string option \<Rightarrow> string option \<Rightarrow> 's service \<Rightarrow>
     string \<Rightarrow> string \<Rightarrow> 's service \<times> token_response go" where
  "issueBearerPair L ops flts now rnd1 rnd2 s clientID scope =
     (case rnd1 of
        None \<Rightarrow> (s, Inl ''server_error: generate access token'')
      | Some token \<Rightarrow>
          (case so_add_access ops (fst flts) (sv_store s) (HashToken L token) scope clientID
                  (now + oc_access_token_ttl (sv_cfg s) * second) of
             (st, Some e) \<Rightarrow> (s\<lparr>sv_store := st\<rparr>, Inl ''server_error: store token'')
           | (st, None) \<Rightarrow>
               (let s1 = s\<lparr>sv_store := st\<rparr>
                in (case rnd2 of
                      None \<Rightarrow> (s1, Inl ''server_error: generate refresh token'')
                    | Some refreshToken \<Rightarrow>
                        (case so_add_refresh ops (snd flts) (sv_store s1) (HashToken L refreshToken)
                                clientID scope (now + oc_refresh_token_ttl (sv_cfg s) * second) of
                           (st2, Some e) \<Rightarrow>
                             (s1\<lparr>sv_store := st2\<rparr>, Inl ''server_error: store refresh token'')
                         | (st2, None) \<Rightarrow>
                             (s1\<lparr>sv_store := st2\<rparr>,
                              Inr \<lparr>tr_access_token = token, tr_token_type = ''Bearer'',
                                   tr_expires_in = oc_access_token_ttl (sv_cfg s),
                                   tr_refresh_token = refreshToken,
                                   tr_refresh_expires_in = oc_refresh_token_ttl (sv_cfg s),
                                   tr_scope = scope\<rparr>))))))"

definition exchangeAuthorizationCode ::
    "lib \<Rightarrow> 's store_ops \<Rightarrow> fault \<times> fault \<Rightarrow> time \<Rightarrow> string option \<Rightarrow> string option \<Rightarrow> 's service \<Rightarrow>
     string \<Rightarrow> string \<Rightarrow> string \<Rightarrow> string \<Rightarrow> string \<Rightarrow> 's service \<times> token_response go" where
  "exchangeAuthorizationCode L ops flts now rnd1 rnd2 s clientID clientSecret redirectURI code
       codeVerifier =
     (case lookupClient s clientID of
        None \<Rightarrow> (s, Inl ''invalid_client'')
      | Some c \<Rightarrow>
          if \<not> client_secret_ok L c clientSecret then (s, Inl ''invalid_client'')
          else
            (case gget (sv_codes s) code of
               None \<Rightarrow> (s, Inl ''invalid_grant: invalid or expired code'')
             | Some data \<Rightarrow>
                 (let s1 = s\<lparr>sv_codes := gdel (sv_codes s) code\<rparr>
                  in if ac_expires_at data < now
                     then (s1, Inl ''invalid_grant: invalid or expired code'')
                     else if clientID \<noteq> ac_client_id data then (s1, Inl ''invalid_client'')
                     else if redirectURI = '''' \<or> redirectURI \<noteq> ac_redirect_uri data
                       then (s1, Inl ''invalid_grant: redirect_uri mismatch'')
                     else if ac_code_challenge data \<noteq> '''' \<and>
                             \<not> ValidatePKCE L (ac_code_challenge data) codeVerifier
                       then (s1, Inl ''invalid_grant: pkce verification failed'')
                     else issueBearerPair L ops flts now rnd1 rnd2 s1 clientID
                            (CanonicalScope (ac_scope data)))))"

definition exchangeRefreshToken ::
    "lib \<Rightarrow> 's store_ops \<Rightarrow> fault \<Rightarrow> time \<Rightarrow> string option \<Rightarrow> string option \<Rightarrow> 's service \<Rightarrow>
     string \<Rightarrow> string \<Rightarrow> string \<Rightarrow> 's service \<times> token_response go" where
  "exchangeRefreshToken L ops flt now rnd1 rnd2 s clientID clientSecret refreshToken =
     (case lookupClient s clientID of
        None \<Rightarrow> (s, Inl ''invalid_client'')
      | Some c \<Rightarrow>
          if \<not> client_secret_ok L c clientSecret then (s, Inl ''invalid_client'')
          else if cl_grant_types c \<noteq> [] \<and> ''refresh_token'' \<notin> set (cl_grant_types c)
            then (s, Inl ''unauthorized_client'')
          else
            (case rnd1 of
               None \<Rightarrow> (s, Inl ''server_error: generate access token'')
             | Some accessToken \<Rightarrow>
                 (case rnd2 of
                    None \<Rightarrow> (s, Inl ''server_error: generate refresh token'')
                  | Some refreshTokenNext \<Rightarrow>
                      (case so_exchange ops flt now (sv_store s) (HashToken L refreshToken) clientID
                              (HashToken L refreshTokenNext) (HashToken L accessToken)
                              (now + oc_access_token_ttl (sv_cfg s) * second)
                              (now + oc_refresh_token_ttl (sv_cfg s) * second) of
                         (st, Inl e) \<Rightarrow>
                           (s\<lparr>sv_store := st\<rparr>, Inl ''server_error: exchange refresh token'')
                       | (st, Inr None) \<Rightarrow>
                           (s\<lparr>sv_store := st\<rparr>, Inl ''invalid_grant: invalid or expired refresh token'')
                       | (st, Inr (Some scope)) \<Rightarrow>
                           (s\<lparr>sv_store := st\<rparr>,
                            Inr \<lparr>tr_access_token = accessToken, tr_token_type = ''Bearer'',
                                 tr_expires_in = oc_access_token_ttl (sv_cfg s),
                                 tr_refresh_token = refreshTokenNext,
                                 tr_refresh_expires_in = oc_refresh_token_ttl (sv_cfg s),
                                 tr_scope = CanonicalScope scope\<rparr>)))))"

definition PurgeExpired :: "time \<Rightarrow> 's service \<Rightarrow> 's service" where
  "PurgeExpired now s =
     (let expired = filter (\<lambda>(assertion, reg). ag_assertion_expires reg < now) (sv_agent_regs s)
      in s\<lparr>sv_codes := gkeep (\<lambda>code data. \<not> ac_expires_at data < now) (sv_codes s),
           sv_agent_claim_tokens :=
             gkeep (\<lambda>tok a. tok \<notin> set (map (\<lambda>(assertion, reg). ag_claim_token reg) expired))
               (sv_agent_claim_tokens s),
           sv_agent_regs := gkeep (\<lambda>a reg. \<not> ag_assertion_expires reg < now) (sv_agent_regs s),
           sv_agent_claims := gkeep (\<lambda>attemptID claim. \<not> cm_expires_at claim < now) (sv_agent_claims s)\<rparr>)"

section \<open>internal/oauth/agent_auth.go\<close>

record agent_identity_response =
  ai_registration_id :: string
  ai_identity_assertion :: string
  ai_pre_claim_scopes :: "string list"
  ai_claim_url :: string
  ai_claim_token :: string
  ai_post_claim_scopes :: "string list"

definition registerAgentAnonymous ::
    "time \<Rightarrow> string option \<Rightarrow> string option \<Rightarrow> string option \<Rightarrow> 's service \<Rightarrow>
     's service \<times> agent_identity_response go" where
  "registerAgentAnonymous now rnd1 rnd2 rnd3 s =
     (case rnd1 of
        None \<Rightarrow> (s, Inl ''server_error: generate registration id'')
      | Some regSuffix \<Rightarrow>
          (case rnd2 of
             None \<Rightarrow> (s, Inl ''server_error: generate assertion token'')
           | Some assertionSuffix \<Rightarrow>
               (let regID = ''reg_'' @ regSuffix;
                    assertion = ''arleo_assert_'' @ assertionSuffix;
                    assertionExpires = now + 60 * minute;
                    reg = (\<lambda>claimToken claimExpires claimed.
                      \<lparr>ag_registration_id = regID, ag_assertion_token = assertion,
                       ag_issued_scope = ''read'', ag_claim_token = claimToken,
                       ag_assertion_expires = assertionExpires, ag_claim_expires = claimExpires,
                       ag_claimed = claimed\<rparr>)
                in if oc_allow_reader_self_registration (sv_cfg s) then
                     (s\<lparr>sv_agent_regs := gput (sv_agent_regs s) assertion (reg '''' zero_time True)\<rparr>,
                      Inr \<lparr>ai_registration_id = regID, ai_identity_assertion = assertion,
                           ai_pre_claim_scopes = [''read''], ai_claim_url = '''',
                           ai_claim_token = '''', ai_post_claim_scopes = [''read'']\<rparr>)
                   else
                     (case rnd3 of
                        None \<Rightarrow> (s, Inl ''server_error: generate claim token'')
                      | Some claimSuffix \<Rightarrow>
                          (let claimToken = ''clm_'' @ claimSuffix;
                               s1 = s\<lparr>sv_agent_regs := gput (sv_agent_regs s) assertion
                                       (reg claimToken (now + 10 * minute) False)\<rparr>
                           in (s1\<lparr>sv_agent_claim_tokens :=
                                    gput (sv_agent_claim_tokens s1) claimToken assertion\<rparr>,
                               Inr \<lparr>ai_registration_id = regID, ai_identity_assertion = assertion,
                                    ai_pre_claim_scopes = [],
                                    ai_claim_url = oc_issuer (sv_cfg s) @ ''/agent/identity/claim'',
                                    ai_claim_token = claimToken,
                                    ai_post_claim_scopes = [''read'']\<rparr>))))))"

definition exchangeAgentAssertion ::
    "lib \<Rightarrow> 's store_ops \<Rightarrow> fault \<Rightarrow> time \<Rightarrow> string option \<Rightarrow> 's service \<Rightarrow> string \<Rightarrow>
     's service \<times> token_response go" where
  "exchangeAgentAssertion L ops flt now rnd s assertion =
     (case gget (sv_agent_regs s) assertion of
        None \<Rightarrow> (s, Inl ''invalid_grant: assertion_not_found'')
      | Some reg \<Rightarrow>
          if now > ag_assertion_expires reg then (s, Inl ''invalid_grant'')
          else if \<not> ag_claimed reg then (s, Inl ''invalid_grant: claim_required'')
          else
            (case rnd of
               None \<Rightarrow> (s, Inl ''server_error: generate access token'')
             | Some token \<Rightarrow>
                 (let scope = (if ag_issued_scope reg = '''' then ''read'' else ag_issued_scope reg)
                  in (case so_add_access ops flt (sv_store s) (HashToken L token) scope
                             (ag_registration_id reg) (now + oc_access_token_ttl (sv_cfg s) * second) of
                        (st, Some e) \<Rightarrow> (s\<lparr>sv_store := st\<rparr>, Inl ''server_error: store token'')
                      | (st, None) \<Rightarrow>
                          (s\<lparr>sv_store := st\<rparr>,
                           Inr \<lparr>tr_access_token = token, tr_token_type = ''Bearer'',
                                tr_expires_in = oc_access_token_ttl (sv_cfg s),
                                tr_refresh_token = '''', tr_refresh_expires_in = 0,
                                tr_scope = scope\<rparr>)))))"

definition pending_claim :: "time \<Rightarrow> 's service \<Rightarrow> string \<Rightarrow> (string \<times> agent_registration) go" where
  "pending_claim now s claimToken =
     (case gget (sv_agent_claim_tokens s) claimToken of
        None \<Rightarrow> Inl ''invalid_claim_token''
      | Some assertionKey \<Rightarrow>
          (case gget (sv_agent_regs s) assertionKey of
             None \<Rightarrow> Inl ''invalid_claim_token''
           | Some reg \<Rightarrow>
               if now > ag_claim_expires reg then Inl ''claim_expired'' else Inr (assertionKey, reg)))"

definition initiateClaim ::
    "time \<Rightarrow> string option \<Rightarrow> 's service \<Rightarrow> string \<Rightarrow> 's service \<times> string go" where
  "initiateClaim now rnd s claimToken =
     (case pending_claim now s claimToken of
        Inl e \<Rightarrow> (s, Inl e)
      | Inr (assertionKey, reg) \<Rightarrow>
          (case rnd of
             None \<Rightarrow> (s, Inl ''server_error: generate claim attempt id'')
           | Some suffix \<Rightarrow>
               (let attemptID = ''cla_'' @ suffix
                in (s\<lparr>sv_agent_claims := gput (sv_agent_claims s) attemptID
                       \<lparr>cm_registration_id = ag_registration_id reg, cm_claim_attempt_id = attemptID,
                        cm_expires_at = now + 10 * minute\<rparr>\<rparr>, Inr attemptID))))"

definition verifyAgentClaim :: "time \<Rightarrow> 's service \<Rightarrow> string \<Rightarrow> 's service \<times> string option" where
  "verifyAgentClaim now s claimToken =
     (case pending_claim now s claimToken of
        Inl e \<Rightarrow> (s, Some e)
      | Inr (assertionKey, reg) \<Rightarrow>
          (s\<lparr>sv_agent_regs := gput (sv_agent_regs s) assertionKey (reg\<lparr>ag_claimed := True\<rparr>),
             sv_agent_claim_tokens := gdel (sv_agent_claim_tokens s) claimToken\<rparr>, None))"

section \<open>HTTP handlers\<close>

text \<open>
  A request as the handlers read it: the parsed form (\<open>None\<close> when \<open>ParseForm\<close> fails), Basic
  credentials, the \<open>Authorization\<close> header and the remote address. A response is what the handler
  decides; headers that never vary and the HTML pages are left out.
\<close>

record http_request =
  hr_method :: string
  hr_form :: "(string, string) gomap option"
  hr_basic :: "(string \<times> string) option"
  hr_authorization :: string
  hr_remote_addr :: string

datatype http_response =
    MethodNotAllowed string
  | HttpError string int
  | OAuthError string int
  | OAuthErrorRetry string int
  | Redirect url "(string \<times> string) list"
  | Tokens token_response
  | Registered registration_response
  | Verified

definition form_value :: "http_request \<Rightarrow> string \<Rightarrow> string" where
  "form_value r k =
     (case hr_form r of
        None \<Rightarrow> ''''
      | Some form \<Rightarrow> (case gget form k of None \<Rightarrow> '''' | Some v \<Rightarrow> v))"

definition requestSourceIP :: "lib \<Rightarrow> http_request \<Rightarrow> string" where
  "requestSourceIP L r =
     (if CHR '':'' \<in> set (hr_remote_addr r) then
        (case lib_split_host_port L (hr_remote_addr r) of
           None \<Rightarrow> hr_remote_addr r | Some (host, port) \<Rightarrow> host)
      else hr_remote_addr r)"

definition tokenClientCredentials :: "http_request \<Rightarrow> string \<times> string" where
  "tokenClientCredentials r =
     (case hr_basic r of
        Some (user, pass) \<Rightarrow>
          if user \<noteq> '''' then (user, pass) else (form_value r ''client_id'', form_value r ''client_secret'')
      | None \<Rightarrow> (form_value r ''client_id'', form_value r ''client_secret''))"

definition redirectToRegisteredClient ::
    "lib \<Rightarrow> url \<Rightarrow> (string \<times> string) list \<Rightarrow> http_response" where
  "redirectToRegisteredClient L u params =
     (if u_scheme u = '''' \<or> u_host u = '''' then HttpError ''invalid_redirect_uri'' 400
      else if u_scheme u \<noteq> ''https'' \<and> \<not> (u_scheme u = ''http'' \<and> isLoopbackHost L (u_hostname u))
        then HttpError ''invalid_redirect_uri'' 400
      else Redirect u params)"

definition oauthAuthorizeErrorCode :: "string \<Rightarrow> string" where
  "oauthAuthorizeErrorCode msg =
     (if has_prefix ''server_error'' msg then ''server_error''
      else if has_prefix ''unsupported_response_type'' msg then ''unsupported_response_type''
      else if has_prefix ''access_denied'' msg then ''access_denied''
      else if has_prefix ''unauthorized_client'' msg then ''unauthorized_client''
      else if has_prefix ''invalid_scope'' msg then ''invalid_scope''
      else ''invalid_request'')"

definition oauthAuthorizeErrorStatus :: "string \<Rightarrow> int" where
  "oauthAuthorizeErrorStatus msg =
     (if has_prefix ''server_error'' msg then 500
      else if has_prefix ''access_denied'' msg then 403
      else if has_prefix ''unauthorized_client'' msg then 401
      else 400)"

definition oauthTokenErrorCode :: "string \<Rightarrow> string" where
  "oauthTokenErrorCode msg =
     (if has_prefix ''unsupported_grant_type'' msg then ''unsupported_grant_type''
      else if has_prefix ''invalid_client'' msg then ''invalid_client''
      else if has_prefix ''invalid_grant'' msg then ''invalid_grant''
      else if has_prefix ''invalid_scope'' msg then ''invalid_scope''
      else if has_prefix ''server_error'' msg then ''server_error''
      else ''invalid_request'')"

definition oauthTokenErrorStatus :: "string \<Rightarrow> int" where
  "oauthTokenErrorStatus msg =
     (if has_prefix ''server_error'' msg then 500
      else if has_prefix ''invalid_client'' msg then 401
      else 400)"

definition oauthRegisterErrorCode :: "string \<Rightarrow> string" where
  "oauthRegisterErrorCode msg =
     (if has_prefix ''server_error'' msg then ''server_error''
      else if has_infix ''registration_disabled'' msg \<or>
              has_infix ''dynamic_client_registration_disabled'' msg then ''invalid_request''
      else if has_infix ''redirect_uri'' msg then ''invalid_redirect_uri''
      else ''invalid_client_metadata'')"

definition oauthRegisterErrorStatus :: "string \<Rightarrow> int" where
  "oauthRegisterErrorStatus msg = (if has_prefix ''server_error'' msg then 500 else 400)"

text \<open>\<open>body\<close> is the decoded registration request, \<open>None\<close> when decoding fails.\<close>

definition HandleRegister ::
    "lib \<Rightarrow> time \<Rightarrow> string option \<Rightarrow> 's service \<Rightarrow> http_request \<Rightarrow> string list option \<Rightarrow>
     's service \<times> http_response" where
  "HandleRegister L now rnd s r body =
     (if hr_method r \<noteq> ''POST'' then (s, MethodNotAllowed ''POST'')
      else
        (case body of
           None \<Rightarrow> (s, OAuthError ''invalid_request'' 400)
         | Some redirectURIs \<Rightarrow>
             (case registerClient L now rnd s redirectURIs of
                (s', Inl err) \<Rightarrow>
                  (s', OAuthError (oauthRegisterErrorCode err) (oauthRegisterErrorStatus err))
              | (s', Inr resp) \<Rightarrow> (s', Registered resp))))"

definition HandleAuthorize ::
    "lib \<Rightarrow> time \<Rightarrow> string option \<Rightarrow> 's service \<Rightarrow> http_request \<Rightarrow> 's service \<times> http_response" where
  "HandleAuthorize L now rnd s r =
     (if hr_method r \<noteq> ''GET'' \<and> hr_method r \<noteq> ''POST'' then (s, MethodNotAllowed ''GET, POST'')
      else if hr_form r = None then (s, OAuthError ''invalid_request'' 400)
      else
        (let clientID = form_value r ''client_id''
         in (case validateClientRedirectURL L s clientID (form_value r ''redirect_uri'') of
               Inl err \<Rightarrow> (s, HttpError err 400)
             | Inr safeRedirectURI \<Rightarrow>
                 (let state = form_value r ''state'';
                      state_param = (if state \<noteq> '''' then [(''state'', state)] else [])
                  in (case issueAuthCode L now rnd s (requestSourceIP L r)
                             (form_value r ''response_type'') clientID (u_string safeRedirectURI) state
                             (form_value r ''scope'') (form_value r ''code_challenge'')
                             (form_value r ''code_challenge_method'') of
                        (s', Inl err) \<Rightarrow>
                          if has_infix ''unauthorized_client'' err \<or> has_infix ''access_denied'' err \<or>
                             has_prefix ''server_error'' err
                          then (s', HttpError (oauthAuthorizeErrorCode err) (oauthAuthorizeErrorStatus err))
                          else (s', redirectToRegisteredClient L safeRedirectURI
                                      ((''error'', oauthAuthorizeErrorCode err) # state_param))
                      | (s', Inr code) \<Rightarrow>
                          (s', redirectToRegisteredClient L safeRedirectURI
                                 ((''code'', code) # state_param)))))))"

definition HandleToken ::
    "lib \<Rightarrow> 's store_ops \<Rightarrow> fault \<times> fault \<Rightarrow> time \<Rightarrow> string option \<Rightarrow> string option \<Rightarrow> 's service \<Rightarrow>
     http_request \<Rightarrow> 's service \<times> http_response" where
  "HandleToken L ops flts now rnd1 rnd2 s r =
     (if hr_method r \<noteq> ''POST'' then (s, MethodNotAllowed ''POST'')
      else if hr_form r = None then (s, OAuthError ''invalid_request'' 400)
      else
        (let grantType = form_value r ''grant_type''
         in if grantType = ''urn:ietf:params:oauth:grant-type:jwt-bearer'' then
              (case exchangeAgentAssertion L ops (fst flts) now rnd1 s (form_value r ''assertion'') of
                 (s', Inl err) \<Rightarrow>
                   (s', (if has_infix ''assertion_not_found'' err then OAuthErrorRetry else OAuthError)
                          (oauthTokenErrorCode err) (oauthTokenErrorStatus err))
               | (s', Inr resp) \<Rightarrow> (s', Tokens resp))
            else
              (case tokenClientCredentials r of
                 (clientID, clientSecret) \<Rightarrow>
                   if grantType = ''refresh_token'' then
                     (case exchangeRefreshToken L ops (fst flts) now rnd1 rnd2 s clientID clientSecret
                             (form_value r ''refresh_token'') of
                        (s', Inl err) \<Rightarrow>
                          (s', OAuthError (oauthTokenErrorCode err) (oauthTokenErrorStatus err))
                      | (s', Inr resp) \<Rightarrow> (s', Tokens resp))
                   else if grantType = ''authorization_code'' then
                     (case exchangeAuthorizationCode L ops flts now rnd1 rnd2 s clientID clientSecret
                             (form_value r ''redirect_uri'') (form_value r ''code'')
                             (form_value r ''code_verifier'') of
                        (s', Inl err) \<Rightarrow>
                          (s', OAuthError (oauthTokenErrorCode err) (oauthTokenErrorStatus err))
                      | (s', Inr resp) \<Rightarrow> (s', Tokens resp))
                   else (s, OAuthError ''unsupported_grant_type'' 400))))"

text \<open>The \<open>POST\<close> branch of \<open>HandleAgentVerify\<close>; the \<open>GET\<close> branch only renders the form.\<close>

definition HandleAgentVerify ::
    "lib \<Rightarrow> 's store_ops \<Rightarrow> fault \<Rightarrow> time \<Rightarrow> 's service \<Rightarrow> http_request \<Rightarrow> 's service \<times> http_response" where
  "HandleAgentVerify L ops flt now s r =
     (let headerToken = trim_space (trim_prefix ''Bearer '' (trim_space (hr_authorization r)))
      in if headerToken = '''' \<and> hr_form r = None then (s, HttpError ''bad request'' 400)
         else
           (let adminToken = (if headerToken = '''' then form_value r ''admin_token'' else headerToken)
            in if adminToken = '''' then (s, HttpError ''operator authentication required'' 401)
               else
                 (case ValidateBearerDetails L ops flt now s adminToken of
                    None \<Rightarrow> (s, HttpError ''forbidden: write scope required'' 403)
                  | Some (scope, legacy) \<Rightarrow>
                      if \<not> IsWriteScope scope
                      then (s, HttpError ''forbidden: write scope required'' 403)
                      else
                        (let claimToken = form_value r ''claim_token''
                         in if claimToken = '''' then (s, HttpError ''missing claim_token'' 400)
                            else (case verifyAgentClaim now s claimToken of
                                    (s', Some err) \<Rightarrow> (s', HttpError err 400)
                                  | (s', None) \<Rightarrow> (s', Verified))))))"

section \<open>The service over any lawful store\<close>

locale oauth_store =
  token_store ok abs_of stamp "so_add_access ops" "so_validate ops" det "so_add_refresh ops"
    "so_validate_refresh ops" "so_exchange ops" "so_purge ops"
  for ok :: "'s \<Rightarrow> bool" and abs_of stamp and ops :: "'s store_ops" and det +
  assumes has_details: "so_details ops = Some det"
    and upsert_ok: "so_upsert_client ops = Some up \<Longrightarrow> ok s \<Longrightarrow> ok (fst (up f now s cid h en rs scs))"
    and upsert_abs: "so_upsert_client ops = Some up \<Longrightarrow> ok s \<Longrightarrow>
      abs_of (fst (up f now s cid h en rs scs)) = abs_of s"
begin

text \<open>A bearer is accepted exactly when a live grant with a principal is stored under its hash.\<close>

lemma ValidateBearerDetails_eq:
  assumes "ok (sv_store s)"
  shows "ValidateBearerDetails L ops None now s token =
    (case live_grant now (abs_access (abs_of (sv_store s)) (HashToken L token)) of
       None \<Rightarrow> None
     | Some g \<Rightarrow> if trim_space (g_owner g) = '''' then None
                 else Some (CanonicalScope (g_scope g), IsLegacyScope (g_scope g)))"
  using details_none [OF assms, of now "HashToken L token"]
  by (simp add: ValidateBearerDetails_def has_details spec_details_def split: option.splits)

lemma ValidateBearerDetails_fault:
  assumes "ok (sv_store s)" "ValidateBearerDetails L ops f now s token = Some r"
  shows "ValidateBearerDetails L ops None now s token = Some r"
proof -
  have "det f now (sv_store s) (HashToken L token) = det None now (sv_store s) (HashToken L token)"
    using assms(2) details_fault [OF assms(1), of f now "HashToken L token"]
    by (auto simp: ValidateBearerDetails_def has_details)
  with assms(2) show ?thesis
    by (simp add: ValidateBearerDetails_def has_details)
qed

end

interpretation mem_oauth: oauth_store mem_ok mem_abs "\<lambda>e. e" mem_ops "\<lambda>f. mem_ValidateAccessTokenDetails"
proof (rule oauth_store.intro)
  show "token_store mem_ok mem_abs (\<lambda>e. e) (so_add_access mem_ops) (so_validate mem_ops)
      (\<lambda>f. mem_ValidateAccessTokenDetails) (so_add_refresh mem_ops) (so_validate_refresh mem_ops)
      (so_exchange mem_ops) (so_purge mem_ops)"
    unfolding mem_ops_def store_ops.simps by (rule mem.token_store_axioms)
qed (unfold_locales, simp_all add: mem_ops_def)

interpretation json_oauth: oauth_store json_ok json_abs "\<lambda>e. from_unix (unix e)" json_ops
  "\<lambda>f. json_ValidateAccessTokenDetails"
proof (rule oauth_store.intro)
  show "token_store json_ok json_abs (\<lambda>e. from_unix (unix e)) (so_add_access json_ops)
      (so_validate json_ops) (\<lambda>f. json_ValidateAccessTokenDetails) (so_add_refresh json_ops)
      (so_validate_refresh json_ops) (so_exchange json_ops) (so_purge json_ops)"
    unfolding json_ops_def store_ops.simps by (rule json.token_store_axioms)
qed (unfold_locales, simp_all add: json_ops_def)

interpretation sql_oauth: oauth_store sql_ok sql_abs "\<lambda>e. from_unix (unix e)" sql_ops
  sql_ValidateAccessTokenDetails
proof (rule oauth_store.intro)
  show "token_store sql_ok sql_abs (\<lambda>e. from_unix (unix e)) (so_add_access sql_ops)
      (so_validate sql_ops) sql_ValidateAccessTokenDetails (so_add_refresh sql_ops)
      (so_validate_refresh sql_ops) (so_exchange sql_ops) (so_purge sql_ops)"
    unfolding sql_ops_def store_ops.simps by (rule sql.token_store_axioms)
qed (unfold_locales, auto simp: sql_ops_def sql_UpsertOAuthClient_def sql_ok_def sql_abs_def Let_def)

end
