(* ===== verification/OAuthSafety.thy ===== *)
theory OAuthSafety
  imports OAuth
begin

text \<open>
  What the OAuth service guarantees over whole runs: the step relation of the service, the
  invariant that bounds every grant by its client's configured scope, the life of an authorization
  code, refresh rotation, operator approval of agents and safe redirects.
\<close>

section \<open>Steps of the service\<close>

text \<open>
  One request or timer event of the service, with any arguments, clock reading, randomness and
  faults; the one restriction is that a freshly generated client id is new. \<open>used\<close> is a set of
  authorization codes that the random generator does not produce again (empty for arbitrary runs).
\<close>

inductive svc_step :: "lib \<Rightarrow> 's store_ops \<Rightarrow> string set \<Rightarrow> 's service \<Rightarrow> 's service \<Rightarrow> bool"
  for L :: lib and ops :: "'s store_ops" and used :: "string set" where
  step_load: "svc_step L ops used s (fst (LoadClientRegistry L ops read flts now s path))"
| step_register: "(\<And>cid. rnd = Some cid \<Longrightarrow> gget (sv_clients s) cid = None) \<Longrightarrow>
    svc_step L ops used s (fst (registerClient L now rnd s uris))"
| step_issue: "rnd \<notin> Some ` used \<Longrightarrow>
    svc_step L ops used s (fst (issueAuthCode L now rnd s ip rt cid uri st sc cc ccm))"
| step_code: "svc_step L ops used s
    (fst (exchangeAuthorizationCode L ops flts2 now rnd rnd2 s cid secret uri code verifier))"
| step_refresh: "svc_step L ops used s (fst (exchangeRefreshToken L ops flt now rnd rnd2 s cid secret rt))"
| step_purge: "svc_step L ops used s (PurgeExpired now s)"
| step_purge_store: "svc_step L ops used s (s\<lparr>sv_store := fst (so_purge ops flt now (sv_store s))\<rparr>)"
| step_agent_register: "svc_step L ops used s (fst (registerAgentAnonymous now rnd rnd2 rnd3 s))"
| step_agent_exchange: "svc_step L ops used s (fst (exchangeAgentAssertion L ops flt now rnd s assertion))"
| step_agent_claim: "svc_step L ops used s (fst (initiateClaim now rnd s tok))"
| step_agent_verify: "svc_step L ops used s (fst (HandleAgentVerify L ops flt now s r))"

definition svc_reachable :: "lib \<Rightarrow> 's store_ops \<Rightarrow> 's service \<Rightarrow> 's service \<Rightarrow> bool" where
  "svc_reachable L ops s0 s \<longleftrightarrow> (svc_step L ops {})\<^sup>*\<^sup>* s0 s"

section \<open>Grants never exceed the client's scope\<close>

definition max_rank :: "'s service \<Rightarrow> string \<Rightarrow> int" where
  "max_rank s owner =
     (case gget (sv_clients s) owner of None \<Rightarrow> 0 | Some c \<Rightarrow> ScopeRank (cl_scope c))"

definition canonical :: "string \<Rightarrow> bool" where
  "canonical sc \<longleftrightarrow> sc \<in> canonical_scopes"

lemma canonical_simps [simp]: "canonical ''read''" "canonical ''write''" "canonical ''admin''"
  by (simp_all add: canonical_def)

lemma canonical_CanonicalScope [simp]: "canonical sc \<Longrightarrow> CanonicalScope sc = sc"
  unfolding canonical_def by (elim insertE emptyE) (simp_all add: CanonicalScope_def)

definition grant_ok :: "(string \<Rightarrow> int) \<Rightarrow> grant \<Rightarrow> bool" where
  "grant_ok m g \<longleftrightarrow> canonical (g_scope g) \<and> ScopeRank (g_scope g) \<le> m (g_owner g)"

definition grants_ok :: "(string \<Rightarrow> int) \<Rightarrow> abs_tokens \<Rightarrow> bool" where
  "grants_ok m a \<longleftrightarrow>
     (\<forall>t g. abs_access a t = Some g \<longrightarrow> grant_ok m g) \<and>
     (\<forall>t g. abs_refresh a t = Some g \<longrightarrow> grant_ok m g)"

definition client_ok :: "client \<Rightarrow> bool" where
  "client_ok c \<longleftrightarrow> canonical (cl_scope c) \<and> (IsWriteScope (cl_scope c) \<longrightarrow> cl_secret_hash c \<noteq> '''')"

definition clients_ok :: "'s service \<Rightarrow> bool" where
  "clients_ok s \<longleftrightarrow> (\<forall>k c. gget (sv_clients s) k = Some c \<longrightarrow> client_ok c)"

definition code_ok :: "(string \<Rightarrow> int) \<Rightarrow> auth_code \<Rightarrow> bool" where
  "code_ok m d \<longleftrightarrow> canonical (ac_scope d) \<and> ScopeRank (ac_scope d) \<le> m (ac_client_id d)"

definition codes_ok :: "(string \<Rightarrow> int) \<Rightarrow> 's service \<Rightarrow> bool" where
  "codes_ok m s \<longleftrightarrow> wf_map (sv_codes s) \<and> (\<forall>k d. gget (sv_codes s) k = Some d \<longrightarrow> code_ok m d)"

definition agents_ok :: "'s service \<Rightarrow> bool" where
  "agents_ok s \<longleftrightarrow> wf_map (sv_agent_regs s) \<and>
     (\<forall>k r. gget (sv_agent_regs s) k = Some r \<longrightarrow> ag_issued_scope r = ''read'')"

definition svc_inv :: "('s \<Rightarrow> bool) \<Rightarrow> ('s \<Rightarrow> abs_tokens) \<Rightarrow> 's service \<Rightarrow> bool" where
  "svc_inv ok abs_of s \<longleftrightarrow> ok (sv_store s) \<and> clients_ok s \<and> codes_ok (max_rank s) s \<and>
     agents_ok s \<and> grants_ok (max_rank s) (abs_of (sv_store s))"

lemma max_rank_nonneg [simp]: "0 \<le> max_rank s p"
  by (simp add: max_rank_def split: option.split)

lemma max_rank_cong:
  "sv_clients s' = sv_clients s \<Longrightarrow> max_rank s' = max_rank s"
  by (simp add: max_rank_def fun_eq_iff)

lemma grants_ok_add_access:
  "grants_ok m a \<Longrightarrow> grant_ok m \<lparr>g_owner = p, g_scope = sc, g_expires = stp e\<rparr> \<Longrightarrow>
     grants_ok m (spec_add_access stp a t sc p e)"
  by (auto simp: grants_ok_def spec_add_access_def)

lemma grants_ok_add_refresh:
  "grants_ok m a \<Longrightarrow> grant_ok m \<lparr>g_owner = c, g_scope = sc, g_expires = stp e\<rparr> \<Longrightarrow>
     grants_ok m (spec_add_refresh stp a t c sc e)"
  by (auto simp: grants_ok_def spec_add_refresh_def)

lemma grants_ok_exchange:
  assumes "grants_ok m a"
  shows "grants_ok m (fst (spec_exchange stp now a old c nr na ae re))"
  using assms
  by (auto simp: grants_ok_def spec_exchange_def spec_validate_refresh_def live_grant_def grant_ok_def
      split: option.splits if_splits)

lemma grants_ok_sub:
  assumes "grants_ok m a"
    and "\<And>t. abs_access b t \<in> {abs_access a t, live_grant now (abs_access a t)}"
    and "\<And>t. abs_refresh b t \<in> {abs_refresh a t, live_grant now (abs_refresh a t)}"
  shows "grants_ok m b"
proof -
  have live: "live_grant now x = Some g \<Longrightarrow> x = Some g" for x g
    by (cases x) (auto simp: live_grant_def split: if_splits)
  have "abs_access b t = Some g \<Longrightarrow> abs_access a t = Some g" for t g
    using assms(2) [of t] live by (metis empty_iff insert_iff)
  moreover have "abs_refresh b t = Some g \<Longrightarrow> abs_refresh a t = Some g" for t g
    using assms(3) [of t] live by (metis empty_iff insert_iff)
  ultimately show ?thesis
    using assms(1) unfolding grants_ok_def by blast
qed

lemma grant_ok_mono: "grant_ok m g \<Longrightarrow> (\<And>x. m x \<le> m' x) \<Longrightarrow> grant_ok m' g"
  unfolding grant_ok_def by (meson order_trans)

lemma grants_ok_mono: "grants_ok m a \<Longrightarrow> (\<And>x. m x \<le> m' x) \<Longrightarrow> grants_ok m' a"
  unfolding grants_ok_def by (meson grant_ok_mono)

lemma codes_ok_mono:
  "codes_ok m s \<Longrightarrow> (\<And>x. m x \<le> m' x) \<Longrightarrow> sv_codes s' = sv_codes s \<Longrightarrow> codes_ok m' s'"
  unfolding codes_ok_def code_ok_def by (metis order_trans)

lemma requestedScope_canonical:
  assumes "requestedScope raw = Inr sc" "sc \<noteq> ''''"
  shows "canonical sc"
proof -
  let ?xs = "rights (map normalizeConfiguredScope (go_fields (trim_space raw)))"
  from assms obtain r where
    f: "foldl requested_step ('''', - 1) (go_fields (trim_space raw)) = (sc, r)" and "\<not> r < 0"
    by (auto simp: requestedScope_def Let_def split: if_splits prod.splits)
  then have "foldl pick_highest ('''', - 1) ?xs = (sc, r)" by (simp add: requested_fold)
  from pick_highest_fold [OF this] \<open>sc \<noteq> ''''\<close> have "sc \<in> set ?xs" by auto
  then have "Inr sc \<in> normalizeConfiguredScope ` set (go_fields (trim_space raw))"
    by (simp add: in_rights)
  then obtain p where "normalizeConfiguredScope p = Inr sc" by auto
  then show ?thesis
    unfolding canonical_def by (rule normalizeConfiguredScope_canonical)
qed

lemma IsWriteScope_simps [simp]:
  "\<not> IsWriteScope ''read''" "\<not> IsWriteScope ''''" "IsWriteScope ''write''" "IsWriteScope ''admin''"
  by (simp_all add: IsWriteScope_def)

lemma resolveClientScope_ok:
  assumes "resolveClientScope s cid req = Inr sc" "clients_ok s"
  shows "canonical sc \<and> ScopeRank sc \<le> max_rank s cid"
proof -
  obtain c where l: "lookupClient s cid = Some c"
    using assms(1) by (cases "lookupClient s cid") (simp_all add: resolveClientScope_def)
  then have c: "gget (sv_clients s) cid = Some c"
    by (simp add: lookupClient_def split: option.splits if_splits)
  then have cc: "canonical (cl_scope c)" and m: "max_rank s cid = ScopeRank (cl_scope c)"
    using assms(2) by (auto simp: clients_ok_def client_ok_def max_rank_def)
  obtain sc0 where r: "requestedScope req = Inr sc0"
    using assms(1) by (cases "requestedScope req") (simp_all add: resolveClientScope_def l)
  have "sc = (let x = if sc0 = '''' then cl_scope c else sc0
              in if allowedScope x (cl_scope c) then x else cl_scope c)"
    using assms(1) by (simp add: resolveClientScope_def l r Let_def split: if_splits)
  then show ?thesis
    using requestedScope_canonical [OF r] cc
    by (simp add: m allowedScope_def Let_def split: if_splits)
qed

lemma highestConfiguredScope_in:
  assumes "scopes \<noteq> []" "set scopes \<subseteq> canonical_scopes"
  shows "canonical (highestConfiguredScope scopes)"
proof -
  obtain s ss where sc: "scopes = s # ss" using assms(1) by (cases scopes) auto
  obtain h r where f: "foldl pick_highest (s, ScopeRank s) ss = (h, r)" by fastforce
  have "h \<in> set scopes" using pick_highest_fold [OF f] sc by auto
  then have "canonical h" using assms(2) unfolding canonical_def by blast
  then show ?thesis by (simp add: highestConfiguredScope_def sc f Let_def)
qed

lemma entry_client_ok: "entry_client L e = Inr (c, scopes) \<Longrightarrow> client_ok c"
proof -
  assume a: "entry_client L e = Inr (c, scopes)"
  then obtain scs where n: "normalizeConfiguredScopes (ce_scopes e) (ce_scope e) = Inr scs"
    and c: "cl_scope c = highestConfiguredScope scs" "cl_secret_hash c \<noteq> ''''"
    by (auto simp: entry_client_def Let_def split: if_splits sum.splits)
  from normalizeConfiguredScopes_props [OF n] have "canonical (highestConfiguredScope scs)"
    by (intro highestConfiguredScope_in) (simp_all add: scopes_ok_def)
  with c show "client_ok c" by (simp add: client_ok_def)
qed

lemma max_rank_new_client:
  assumes "gget (sv_clients s) cid = None" "sv_clients s' = gput (sv_clients s) cid c"
  shows "max_rank s x \<le> max_rank s' x"
  using assms by (simp add: max_rank_def split: option.split)

lemma clients_ok_put:
  "clients_ok s \<Longrightarrow> client_ok c \<Longrightarrow> sv_clients s' = gput (sv_clients s) cid c \<Longrightarrow> clients_ok s'"
  by (auto simp: clients_ok_def)

lemma code_wf_del: "codes_ok m s \<Longrightarrow> codes_ok m (s\<lparr>sv_codes := gdel (sv_codes s) code\<rparr>)"
  by (auto simp: codes_ok_def)

lemma inv_parts:
  assumes "svc_inv ok abs_of s"
  shows "ok (sv_store s)" "clients_ok s" "codes_ok (max_rank s) s" "agents_ok s"
    "grants_ok (max_rank s) (abs_of (sv_store s))"
  using assms by (simp_all add: svc_inv_def)

lemma inv_store:
  assumes "svc_inv ok abs_of s" "ok st" "grants_ok (max_rank s) (abs_of st)"
  shows "svc_inv ok abs_of (s\<lparr>sv_store := st\<rparr>)"
proof -
  have "max_rank (s\<lparr>sv_store := st\<rparr>) = max_rank s" by (rule max_rank_cong) simp
  with assms show ?thesis
    by (simp add: svc_inv_def clients_ok_def codes_ok_def agents_ok_def)
qed

lemma inv_codes:
  assumes "svc_inv ok abs_of s" "codes_ok (max_rank s) (s\<lparr>sv_codes := cs\<rparr>)"
  shows "svc_inv ok abs_of (s\<lparr>sv_codes := cs\<rparr>)"
proof -
  have "max_rank (s\<lparr>sv_codes := cs\<rparr>) = max_rank s" by (rule max_rank_cong) simp
  with assms show ?thesis
    by (simp add: svc_inv_def clients_ok_def agents_ok_def)
qed

lemma inv_agents:
  assumes "svc_inv ok abs_of s" "sv_cfg s' = sv_cfg s" "sv_store s' = sv_store s"
    "sv_clients s' = sv_clients s" "sv_codes s' = sv_codes s" "agents_ok s'"
  shows "svc_inv ok abs_of s'"
proof -
  have "max_rank s' = max_rank s" by (rule max_rank_cong) (rule assms(4))
  with assms show ?thesis
    by (simp add: svc_inv_def clients_ok_def codes_ok_def)
qed

lemma inv_new_client:
  assumes "svc_inv ok abs_of s" "client_ok c" "gget (sv_clients s) cid = None"
  shows "svc_inv ok abs_of (s\<lparr>sv_clients := gput (sv_clients s) cid c\<rparr>)"
proof -
  let ?s = "s\<lparr>sv_clients := gput (sv_clients s) cid c\<rparr>"
  have m: "max_rank s x \<le> max_rank ?s x" for x
    using assms(3) by (rule max_rank_new_client) simp
  note p = inv_parts [OF assms(1)]
  have "codes_ok (max_rank ?s) ?s" using p(3) m by (rule codes_ok_mono) simp
  moreover have "grants_ok (max_rank ?s) (abs_of (sv_store s))" using p(5) m by (rule grants_ok_mono)
  moreover have "clients_ok ?s" using p(2) assms(2) by (rule clients_ok_put) simp
  ultimately show ?thesis
    using p(1,4) by (simp add: svc_inv_def agents_ok_def)
qed

lemma agents_ok_put:
  "agents_ok s \<Longrightarrow> ag_issued_scope r = ''read'' \<Longrightarrow>
     sv_agent_regs s' = gput (sv_agent_regs s) a r \<Longrightarrow> agents_ok s'"
  by (auto simp: agents_ok_def)

context oauth_store
begin

lemma add_access_grants:
  assumes "ok st" "grants_ok m (abs_of st)" "canonical sc" "ScopeRank sc \<le> m p"
  shows "ok (fst (so_add_access ops f st t sc p e))"
    "grants_ok m (abs_of (fst (so_add_access ops f st t sc p e)))"
proof -
  show "ok (fst (so_add_access ops f st t sc p e))" using assms(1) by (rule add_access_ok)
  have "grants_ok m (spec_add_access stamp (abs_of st) t sc p e)"
    using assms(2-) by (intro grants_ok_add_access) (simp_all add: grant_ok_def)
  then show "grants_ok m (abs_of (fst (so_add_access ops f st t sc p e)))"
    using add_access_failed [OF assms(1), of f t sc p e] assms(2)
    by (metis empty_iff insert_iff)
qed

lemma add_refresh_grants:
  assumes "ok st" "grants_ok m (abs_of st)" "canonical sc" "ScopeRank sc \<le> m c"
  shows "ok (fst (so_add_refresh ops f st t c sc e))"
    "grants_ok m (abs_of (fst (so_add_refresh ops f st t c sc e)))"
proof -
  show "ok (fst (so_add_refresh ops f st t c sc e))" using assms(1) by (rule add_refresh_ok)
  have "grants_ok m (spec_add_refresh stamp (abs_of st) t c sc e)"
    using assms(2-) by (intro grants_ok_add_refresh) (simp_all add: grant_ok_def)
  then show "grants_ok m (abs_of (fst (so_add_refresh ops f st t c sc e)))"
    using add_refresh_failed [OF assms(1), of f t c sc e] assms(2)
    by (metis empty_iff insert_iff)
qed

lemma exchange_grants:
  assumes "ok st" "grants_ok m (abs_of st)"
  shows "grants_ok m (abs_of (fst (so_exchange ops f now st old c nr na ae re)))"
proof (cases "snd (so_exchange ops f now st old c nr na ae re)")
  case (Inl e)
  then show ?thesis using exchange_failed [OF assms(1)] assms(2) by metis
next
  case (Inr r)
  from exchange_done [OF assms(1) Inr] grants_ok_exchange [OF assms(2)] show ?thesis
    by (metis fst_conv)
qed

lemma purge_grants:
  assumes "ok st" "grants_ok m (abs_of st)"
  shows "grants_ok m (abs_of (fst (so_purge ops f now st)))"
  using assms(2) by (rule grants_ok_sub) (rule purge_access purge_refresh, rule assms(1))+

lemma inv_issueBearerPair:
  assumes "svc_inv ok abs_of s" "canonical sc" "ScopeRank sc \<le> max_rank s cid"
  shows "svc_inv ok abs_of (fst (issueBearerPair L ops flts now rnd1 rnd2 s cid sc))"
proof (cases rnd1)
  case None
  with assms(1) show ?thesis by (simp add: issueBearerPair_def)
next
  case (Some token)
  note p = inv_parts [OF assms(1)]
  let ?a = "so_add_access ops (fst flts) (sv_store s) (HashToken L token) sc cid
    (now + oc_access_token_ttl (sv_cfg s) * second)"
  note a = add_access_grants [where m = "max_rank s", OF p(1) p(5) assms(2,3)]
  have i1: "svc_inv ok abs_of (s\<lparr>sv_store := fst ?a\<rparr>)"
    using assms(1) a by (rule inv_store)
  have i2: "svc_inv ok abs_of (s\<lparr>sv_store := fst (so_add_refresh ops g (fst ?a) t cid sc e)\<rparr>)" for g t e
    using assms(1) add_refresh_grants [where m = "max_rank s", OF a assms(2,3)] by (rule inv_store)
  show ?thesis
  proof (cases "snd ?a")
    case None
    then have eq: "?a = (fst ?a, None)" by (simp add: prod_eq_iff)
    show ?thesis
    proof (cases rnd2)
      case None
      with i1 show ?thesis
        unfolding issueBearerPair_def Some option.case by (subst eq) (simp add: Let_def)
    next
      case r2: (Some rt)
      obtain st2 e2 where b: "so_add_refresh ops (snd flts) (fst ?a) (HashToken L rt) cid sc
          (now + oc_refresh_token_ttl (sv_cfg s) * second) = (st2, e2)" by fastforce
      then have "svc_inv ok abs_of (s\<lparr>sv_store := st2\<rparr>)"
        using i2 by (metis fst_conv)
      then show ?thesis
        unfolding issueBearerPair_def Some r2 option.case
        by (subst eq) (simp add: Let_def b split: option.split)
    qed
  next
    case e: (Some e)
    then have eq: "?a = (fst ?a, Some e)" by (simp add: prod_eq_iff)
    show ?thesis
      unfolding issueBearerPair_def Some option.case by (subst eq) (simp add: i1)
  qed
qed

end

lemma lookupClient_Some: "lookupClient s cid = Some c \<Longrightarrow> gget (sv_clients s) cid = Some c \<and> cl_enabled c"
  by (simp add: lookupClient_def split: option.splits if_splits)

lemma HandleAgentVerify_cases:
  "fst (HandleAgentVerify L ops flt now s r) = s \<or>
   fst (HandleAgentVerify L ops flt now s r) = fst (verifyAgentClaim now s (form_value r ''claim_token''))"
proof -
  obtain h v a where h: "trim_space (trim_prefix ''Bearer '' (trim_space (hr_authorization r))) = h"
    and v: "verifyAgentClaim now s (form_value r ''claim_token'') = v"
    and a: "form_value r ''admin_token'' = a" by blast
  show ?thesis
    unfolding HandleAgentVerify_def Let_def h v a
    by (cases v; cases "snd v") (simp_all split: option.split)
qed

text \<open>What the operations do, branch by branch.\<close>

lemma issueAuthCode_result:
  "case issueAuthCode L now rnd s ip rt cid uri st sc cc ccm of
     (s', Inl e) \<Rightarrow> s' = s
   | (s', Inr code) \<Rightarrow>
       rnd = Some code \<and> sourceAllowed L s ip \<and> rt = ''code'' \<and> st \<noteq> '''' \<and>
       (oc_require_pkce (sv_cfg s) \<longrightarrow> cc \<noteq> '''') \<and>
       (cc \<noteq> '''' \<longrightarrow> ccm = ''S256'' \<and> 43 \<le> length cc \<and> length cc \<le> 128) \<and>
       (\<exists>u scope. validateClientRedirect L s cid uri = Inr u \<and> resolveClientScope s cid sc = Inr scope \<and>
         s' = s\<lparr>sv_codes := gput (sv_codes s) code
           \<lparr>ac_client_id = cid, ac_redirect_uri = uri, ac_scope = scope,
            ac_expires_at = now + oc_auth_code_ttl (sv_cfg s) * second,
            ac_code_challenge = cc, ac_code_challenge_method = ccm\<rparr>\<rparr>)"
  by (simp add: issueAuthCode_def not_less split: sum.split option.split) blast

lemma exchangeRefreshToken_result:
  "case exchangeRefreshToken L ops flt now r1 r2 s cid secret rt of (s', r) \<Rightarrow>
     (s' = s \<and> (\<exists>e. r = Inl e)) \<or>
     (\<exists>c at nrt st x. lookupClient s cid = Some c \<and> client_secret_ok L c secret \<and>
        r1 = Some at \<and> r2 = Some nrt \<and>
        so_exchange ops flt now (sv_store s) (HashToken L rt) cid (HashToken L nrt) (HashToken L at)
          (now + oc_access_token_ttl (sv_cfg s) * second)
          (now + oc_refresh_token_ttl (sv_cfg s) * second) = (st, x) \<and>
        s' = s\<lparr>sv_store := st\<rparr> \<and>
        (\<forall>resp. r = Inr resp \<longrightarrow> (\<exists>sc. x = Inr (Some sc) \<and> tr_scope resp = CanonicalScope sc \<and>
           tr_access_token resp = at \<and> tr_refresh_token resp = nrt)))"
proof (cases "lookupClient s cid")
  case None
  then show ?thesis by (simp add: exchangeRefreshToken_def)
next
  case c: (Some c)
  show ?thesis
  proof (cases r1)
    case None
    with c show ?thesis by (simp add: exchangeRefreshToken_def)
  next
    case r1: (Some at)
    show ?thesis
    proof (cases r2)
      case None
      with c r1 show ?thesis by (simp add: exchangeRefreshToken_def)
    next
      case r2: (Some nrt)
      obtain st x where x: "so_exchange ops flt now (sv_store s) (HashToken L rt) cid (HashToken L nrt)
        (HashToken L at) (now + oc_access_token_ttl (sv_cfg s) * second)
        (now + oc_refresh_token_ttl (sv_cfg s) * second) = (st, x)" by fastforce
      then show ?thesis
        using c by (simp add: exchangeRefreshToken_def r1 r2 split: sum.split option.split)
    qed
  qed
qed

lemma exchangeAuthorizationCode_result:
  "(exchangeAuthorizationCode L ops flts now r1 r2 s cid secret uri code verifier = (s', r) \<Longrightarrow>
     (s' \<in> {s, s\<lparr>sv_codes := gdel (sv_codes s) code\<rparr>} \<and> (\<exists>e. r = Inl e)) \<or>
     (\<exists>c d. lookupClient s cid = Some c \<and> client_secret_ok L c secret \<and>
        gget (sv_codes s) code = Some d \<and> now \<le> ac_expires_at d \<and> ac_client_id d = cid \<and>
        uri \<noteq> '''' \<and> uri = ac_redirect_uri d \<and>
        (ac_code_challenge d \<noteq> '''' \<longrightarrow> ValidatePKCE L (ac_code_challenge d) verifier) \<and>
        issueBearerPair L ops flts now r1 r2 (s\<lparr>sv_codes := gdel (sv_codes s) code\<rparr>) cid
          (CanonicalScope (ac_scope d)) = (s', r)))"
  by (cases "lookupClient s cid"; cases "gget (sv_codes s) code")
     (auto simp: exchangeAuthorizationCode_def Let_def not_less split: if_splits)

lemma load_entry_result:
  "case load_entry L ops flt now s e of (s', r) \<Rightarrow>
     s' = s \<or> (\<exists>cid c scopes s1. entry_client L e = Inr (c, scopes) \<and> gget (sv_clients s) cid = None \<and>
       s1 = s\<lparr>sv_clients := gput (sv_clients s) cid c\<rparr> \<and>
       (s' = s1 \<or> (\<exists>up. so_upsert_client ops = Some up \<and>
          s' = s1\<lparr>sv_store := fst (up flt now (sv_store s) cid (cl_secret_hash c)
                 (cl_enabled c) (cl_redirect_uris c) scopes)\<rparr>)))"
proof -
  obtain cid where cid: "firstNonEmpty [ce_id e, ce_client_id e] = cid" by blast
  show ?thesis
  proof (cases "so_upsert_client ops")
    case None
    then show ?thesis
      unfolding load_entry_def cid by (auto split: sum.split)
  next
    case (Some up)
    show ?thesis
    proof (cases "entry_client L e")
      case (Inr cs)
      obtain c scopes where cs: "cs = (c, scopes)" by (cases cs)
      obtain st x where u: "up flt now (sv_store s) cid (cl_secret_hash c) (cl_enabled c)
        (cl_redirect_uris c) scopes = (st, x)" by fastforce
      have "\<exists>s1. s1 = s\<lparr>sv_clients := gput (sv_clients s) cid c\<rparr>" by blast
      then show ?thesis
        unfolding load_entry_def cid
        by (cases x) (auto simp: Some Inr cs u Let_def intro!: exI [of _ cid])
    qed (simp add: load_entry_def cid)
  qed
qed

lemma verifyAgentClaim_agents:
  assumes "agents_ok s"
  shows "agents_ok (fst (verifyAgentClaim now s tok))"
proof (cases "pending_claim now s tok")
  case (Inr p)
  obtain a reg where p: "p = (a, reg)" by (cases p)
  have "gget (sv_agent_regs s) a = Some reg"
    using Inr by (simp add: p pending_claim_def split: option.splits if_splits)
  then have "ag_issued_scope reg = ''read''" using assms by (auto simp: agents_ok_def)
  then show ?thesis
    using assms by (simp add: verifyAgentClaim_def Inr p) (rule agents_ok_put, auto)
qed (simp add: verifyAgentClaim_def assms)

lemma verifyAgentClaim_frame:
  "sv_cfg (fst (verifyAgentClaim now s tok)) = sv_cfg s"
  "sv_store (fst (verifyAgentClaim now s tok)) = sv_store s"
  "sv_clients (fst (verifyAgentClaim now s tok)) = sv_clients s"
  "sv_codes (fst (verifyAgentClaim now s tok)) = sv_codes s"
  by (simp_all add: verifyAgentClaim_def split: sum.splits prod.splits)

lemma registerAgentAnonymous_frame:
  "sv_cfg (fst (registerAgentAnonymous now r1 r2 r3 s)) = sv_cfg s"
  "sv_store (fst (registerAgentAnonymous now r1 r2 r3 s)) = sv_store s"
  "sv_clients (fst (registerAgentAnonymous now r1 r2 r3 s)) = sv_clients s"
  "sv_codes (fst (registerAgentAnonymous now r1 r2 r3 s)) = sv_codes s"
  by (simp_all add: registerAgentAnonymous_def Let_def split: option.split)

lemma registerAgentAnonymous_agents:
  "agents_ok s \<Longrightarrow> agents_ok (fst (registerAgentAnonymous now r1 r2 r3 s))"
  by (auto simp: registerAgentAnonymous_def Let_def agents_ok_def split: option.split)

lemma initiateClaim_frame:
  "fst (initiateClaim now r s tok) = s \<or>
     (\<exists>cs. fst (initiateClaim now r s tok) = s\<lparr>sv_agent_claims := cs\<rparr>)"
  by (auto simp: initiateClaim_def Let_def split: sum.split option.split)

context oauth_store
begin

lemma inv_registerClient:
  assumes "svc_inv ok abs_of s" "\<And>cid. rnd = Some cid \<Longrightarrow> gget (sv_clients s) cid = None"
  shows "svc_inv ok abs_of (fst (registerClient L now rnd s uris))"
proof (cases rnd)
  case None
  with assms(1) show ?thesis by (simp add: registerClient_def)
next
  case (Some cid)
  have "client_ok \<lparr>cl_redirect_uris = uris, cl_grant_types = [''authorization_code'', ''refresh_token''],
      cl_secret_hash = '''', cl_scope = ''read'', cl_enabled = True\<rparr>"
    by (simp add: client_ok_def)
  from inv_new_client [OF assms(1) this assms(2) [OF Some]] assms(1) show ?thesis
    by (simp add: registerClient_def Some)
qed

lemma inv_load_entry:
  assumes "svc_inv ok abs_of s"
  shows "svc_inv ok abs_of (fst (load_entry L ops flt now s e))"
proof -
  note p = inv_parts [OF assms]
  obtain s' r where l: "load_entry L ops flt now s e = (s', r)" by fastforce
  consider "s' = s"
    | cid c scopes where "entry_client L e = Inr (c, scopes)" "gget (sv_clients s) cid = None"
      "s' = s\<lparr>sv_clients := gput (sv_clients s) cid c\<rparr> \<or> (\<exists>up. so_upsert_client ops = Some up \<and>
         s' = s\<lparr>sv_clients := gput (sv_clients s) cid c,
           sv_store := fst (up flt now (sv_store s) cid (cl_secret_hash c) (cl_enabled c)
             (cl_redirect_uris c) scopes)\<rparr>)"
    using load_entry_result [where L = L and ops = ops and flt = flt and now = now and s = s and e = e] unfolding l by auto
  then show ?thesis
  proof cases
    case 1
    with assms l show ?thesis by simp
  next
    case (2 cid c scopes)
    let ?s = "s\<lparr>sv_clients := gput (sv_clients s) cid c\<rparr>"
    have i: "svc_inv ok abs_of ?s"
      using assms entry_client_ok [OF 2(1)] 2(2) by (rule inv_new_client)
    have "svc_inv ok abs_of (?s\<lparr>sv_store := fst (up f n (sv_store s) k h en rs scs)\<rparr>)"
      if "so_upsert_client ops = Some up" for up f n k h en rs scs
    proof (rule inv_store [OF i])
      show "ok (fst (up f n (sv_store s) k h en rs scs))"
        using upsert_ok [OF that] p(1) .
      show "grants_ok (max_rank ?s) (abs_of (fst (up f n (sv_store s) k h en rs scs)))"
        using inv_parts(5) [OF i] upsert_abs [OF that p(1)] by simp
    qed
    then show ?thesis using 2(3) i l by auto
  qed
qed

lemma inv_load_entries:
  "svc_inv ok abs_of s \<Longrightarrow> svc_inv ok abs_of (fst (load_entries L ops flts now s es))"
proof (induction es arbitrary: s)
  case (Cons e es)
  obtain s' r where l: "load_entry L ops (flts (firstNonEmpty [ce_id e, ce_client_id e])) now s e = (s', r)"
    by fastforce
  then have "svc_inv ok abs_of s'"
    using inv_load_entry [OF Cons.prems] by (metis fst_conv)
  with Cons.IH l show ?case
    by (simp split: option.split)
qed simp

lemma inv_issueAuthCode:
  assumes "svc_inv ok abs_of s"
  shows "svc_inv ok abs_of (fst (issueAuthCode L now rnd s ip rt cid uri st sc cc ccm))"
proof -
  note p = inv_parts [OF assms]
  obtain s' r where e: "issueAuthCode L now rnd s ip rt cid uri st sc cc ccm = (s', r)" by fastforce
  note res = issueAuthCode_result [where L = L and now = now and rnd = rnd and s = s and ip = ip and
      rt = rt and cid = cid and uri = uri and st = st and sc = sc and cc = cc and ccm = ccm,
      unfolded e, simplified]
  show ?thesis
  proof (cases r)
    case (Inl err)
    with res assms e show ?thesis by simp
  next
    case (Inr code)
    with res obtain scope d where sc: "resolveClientScope s cid sc = Inr scope"
      and s': "s' = s\<lparr>sv_codes := gput (sv_codes s) code d\<rparr>" "ac_client_id d = cid" "ac_scope d = scope"
      by fastforce
    have "code_ok (max_rank s) d"
      using resolveClientScope_ok [OF sc p(2)] s'(2,3) by (simp add: code_ok_def)
    then have "codes_ok (max_rank s) (s\<lparr>sv_codes := gput (sv_codes s) code d\<rparr>)"
      using p(3) by (simp add: codes_ok_def)
    with assms e s'(1) show ?thesis by (simp add: inv_codes)
  qed
qed

lemma inv_exchangeAuthorizationCode:
  assumes "svc_inv ok abs_of s"
  shows "svc_inv ok abs_of
    (fst (exchangeAuthorizationCode L ops flts now r1 r2 s cid secret uri code verifier))"
proof -
  let ?s = "s\<lparr>sv_codes := gdel (sv_codes s) code\<rparr>"
  note p = inv_parts [OF assms]
  have i: "svc_inv ok abs_of ?s"
    using assms code_wf_del [OF p(3)] by (rule inv_codes)
  have m: "max_rank ?s = max_rank s" by (rule max_rank_cong) simp
  obtain s' r where e: "exchangeAuthorizationCode L ops flts now r1 r2 s cid secret uri code verifier = (s', r)"
    by fastforce
  from exchangeAuthorizationCode_result [OF e] show ?thesis
  proof (elim disjE exE conjE)
    assume "s' \<in> {s, ?s}"
    with assms i e show ?thesis by (metis empty_iff fst_conv insert_iff)
  next
    fix d
    assume d: "gget (sv_codes s) code = Some d" "ac_client_id d = cid"
      and b: "issueBearerPair L ops flts now r1 r2 ?s cid (CanonicalScope (ac_scope d)) = (s', r)"
    from d p(3) have "code_ok (max_rank s) d" by (simp add: codes_ok_def)
    then have "canonical (ac_scope d)" "ScopeRank (ac_scope d) \<le> max_rank ?s cid"
      using d(2) by (simp_all add: code_ok_def m)
    with inv_issueBearerPair [OF i, of "ac_scope d" cid L flts now r1 r2] b e show ?thesis by simp
  qed
qed

lemma inv_exchangeRefreshToken:
  assumes "svc_inv ok abs_of s"
  shows "svc_inv ok abs_of (fst (exchangeRefreshToken L ops flt now r1 r2 s cid secret rt))"
proof -
  note p = inv_parts [OF assms]
  have i: "svc_inv ok abs_of (s\<lparr>sv_store := fst (so_exchange ops f n (sv_store s) o' c nr na ae re)\<rparr>)"
    for f n o' c nr na ae re
    using assms exchange_ok [OF p(1)] exchange_grants [OF p(1,5)] by (rule inv_store)
  obtain s' r where e: "exchangeRefreshToken L ops flt now r1 r2 s cid secret rt = (s', r)" by fastforce
  have "svc_inv ok abs_of s'"
    using exchangeRefreshToken_result [where L = L and ops = ops and flt = flt and now = now and
        ?r1.0 = r1 and ?r2.0 = r2 and s = s and cid = cid and secret = secret and rt = rt]
    unfolding e prod.case
  proof (elim disjE exE conjE)
    fix at nrt st x
    assume x: "so_exchange ops flt now (sv_store s) (HashToken L rt) cid (HashToken L nrt)
        (HashToken L at) (now + oc_access_token_ttl (sv_cfg s) * second)
        (now + oc_refresh_token_ttl (sv_cfg s) * second) = (st, x)" and s': "s' = s\<lparr>sv_store := st\<rparr>"
    from arg_cong [OF x, of fst] s' i show ?thesis by (metis fst_conv)
  qed (simp add: assms)
  with e show ?thesis by simp
qed

end

context oauth_store
begin

lemma inv_exchangeAgentAssertion:
  assumes "svc_inv ok abs_of s"
  shows "svc_inv ok abs_of (fst (exchangeAgentAssertion L ops flt now rnd s assertion))"
proof -
  note p = inv_parts [OF assms]
  have i: "svc_inv ok abs_of (s\<lparr>sv_store := fst (so_add_access ops flt (sv_store s) t ''read'' w e)\<rparr>)" for t w e
    using assms add_access_grants [where m = "max_rank s", OF p(1,5), of "''read''" w]
    by (intro inv_store) simp_all
  show ?thesis
  proof (cases "gget (sv_agent_regs s) assertion")
    case None
    with assms show ?thesis by (simp add: exchangeAgentAssertion_def)
  next
    case (Some reg)
    then have "ag_issued_scope reg = ''read''" using p(4) by (auto simp: agents_ok_def)
    with Some assms i show ?thesis
      by (simp add: exchangeAgentAssertion_def Let_def split: option.split prod.split) (metis fst_conv)
  qed
qed

lemma inv_PurgeExpired:
  assumes "svc_inv ok abs_of s"
  shows "svc_inv ok abs_of (PurgeExpired now s)"
proof -
  note p = inv_parts [OF assms]
  have m: "max_rank (PurgeExpired now s) = max_rank s"
    by (rule max_rank_cong) (simp add: PurgeExpired_def Let_def)
  have "codes_ok (max_rank s) (PurgeExpired now s)" "agents_ok (PurgeExpired now s)"
    using p(3,4) by (auto simp: codes_ok_def agents_ok_def PurgeExpired_def Let_def gget_keep_Some)
  with p m show ?thesis
    by (simp add: svc_inv_def clients_ok_def) (simp add: PurgeExpired_def Let_def)
qed

lemma inv_step: "svc_step L ops used s s' \<Longrightarrow> svc_inv ok abs_of s \<Longrightarrow> svc_inv ok abs_of s'"
proof (induction rule: svc_step.induct)
  case (step_load s read flts now path)
  then show ?case
    by (simp add: LoadClientRegistry_def Let_def inv_load_entries split: sum.split)
next
  case (step_register rnd s now uris)
  then show ?case by (intro inv_registerClient) simp_all
next
  case (step_issue rnd s now ip rt cid uri st sc cc ccm)
  then show ?case by (intro inv_issueAuthCode) simp_all
next
  case (step_code s flts2 now rnd rnd2 cid secret uri code verifier)
  then show ?case by (rule inv_exchangeAuthorizationCode)
next
  case (step_refresh s flt now rnd rnd2 cid secret rt)
  then show ?case by (rule inv_exchangeRefreshToken)
next
  case (step_purge s now)
  then show ?case by (rule inv_PurgeExpired)
next
  case (step_purge_store s flt now)
  note p = inv_parts [OF step_purge_store]
  show ?case using step_purge_store purge_ok [OF p(1)] purge_grants [OF p(1,5)] by (rule inv_store)
next
  case (step_agent_register s now rnd rnd2 rnd3)
  show ?case
    using step_agent_register
    by (rule inv_agents) (simp_all add: registerAgentAnonymous_frame registerAgentAnonymous_agents
        inv_parts [OF step_agent_register])
next
  case (step_agent_exchange s flt now rnd assertion)
  then show ?case by (rule inv_exchangeAgentAssertion)
next
  case (step_agent_claim s now rnd tok)
  from initiateClaim_frame [of now rnd s tok] show ?case
  proof (elim disjE exE)
    fix cs
    assume e: "fst (initiateClaim now rnd s tok) = s\<lparr>sv_agent_claims := cs\<rparr>"
    show ?thesis
      unfolding e using step_agent_claim
      by (rule inv_agents) (use inv_parts(4) [OF step_agent_claim] in \<open>simp_all add: agents_ok_def\<close>)
  qed (simp add: step_agent_claim)
next
  case (step_agent_verify s flt now r)
  have "svc_inv ok abs_of (fst (verifyAgentClaim now s tok))" for tok
    using step_agent_verify
    by (rule inv_agents)
      (simp_all add: verifyAgentClaim_frame verifyAgentClaim_agents inv_parts [OF step_agent_verify])
  with HandleAgentVerify_cases [of L ops flt now s r] step_agent_verify show ?case
    by (elim disjE) simp_all
qed

lemma inv_initial:
  assumes "ok st" "abs_access (abs_of st) = Map.empty" "abs_refresh (abs_of st) = Map.empty"
  shows "svc_inv ok abs_of (NewService cfg st)"
  using assms
  by (simp add: svc_inv_def NewService_def Let_def clients_ok_def codes_ok_def agents_ok_def grants_ok_def)

lemma inv_reachable:
  assumes "svc_reachable L ops (NewService cfg st) s"
    and "ok st" "abs_access (abs_of st) = Map.empty" "abs_refresh (abs_of st) = Map.empty"
  shows "svc_inv ok abs_of s"
  using assms(1) unfolding svc_reachable_def
  by (induction rule: rtranclp_induct) (use inv_initial [OF assms(2-4)] inv_step in blast)+

text \<open>A bearer of write authority was granted to a pre-registered client with a secret.\<close>

lemma write_bearer_owner:
  assumes "svc_inv ok abs_of s" "ValidateBearerInfo L ops f now s token = Some (sc, e, p, lg)"
  shows "\<exists>owner. p = trim_space owner \<and> canonical sc \<and> now < e \<and> ScopeRank sc \<le> max_rank s owner \<and>
    (IsWriteScope sc \<longrightarrow> (\<exists>c. gget (sv_clients s) owner = Some c \<and> IsWriteScope (cl_scope c) \<and>
       cl_secret_hash c \<noteq> ''''))"
proof -
  note i = inv_parts [OF assms(1)]
  let ?d = "det f now (sv_store s) (HashToken L token)"
  from assms(2) obtain dt where d: "?d = Some dt"
    by (cases ?d) (simp_all add: ValidateBearerInfo_def has_details)
  then have "det None now (sv_store s) (HashToken L token) = Some dt"
    using details_fault [OF i(1), of f now "HashToken L token"] by auto
  then have "spec_details now (abs_of (sv_store s)) (HashToken L token) = Some dt"
    by (simp add: details_none [OF i(1)])
  then obtain g where g: "abs_access (abs_of (sv_store s)) (HashToken L token) = Some g"
    and dt: "now < g_expires g" "atd_scope dt = g_scope g" "atd_principal dt = g_owner g"
      "atd_expires_at dt = g_expires g"
    by (auto simp: spec_details_def live_grant_def split: option.splits if_splits)
  from g i(5) have ok: "canonical (g_scope g)" "ScopeRank (g_scope g) \<le> max_rank s (g_owner g)"
    by (auto simp: grants_ok_def grant_ok_def)
  from assms(2) d dt ok have sc: "sc = g_scope g" "e = g_expires g" "p = trim_space (g_owner g)"
    by (simp_all add: ValidateBearerInfo_def has_details split: if_splits)
  have "\<exists>c. gget (sv_clients s) (g_owner g) = Some c \<and> IsWriteScope (cl_scope c) \<and> cl_secret_hash c \<noteq> ''''"
    if "IsWriteScope sc"
  proof -
    from that ok sc have "1 \<le> max_rank s (g_owner g)" by (simp add: IsWriteScope_def)
    then obtain c where c: "gget (sv_clients s) (g_owner g) = Some c" "IsWriteScope (cl_scope c)"
      by (auto simp: max_rank_def IsWriteScope_def split: option.splits)
    with i(2) show ?thesis by (auto simp: clients_ok_def client_ok_def)
  qed
  with ok sc dt show ?thesis by blast
qed

end

section \<open>Properties\<close>

text \<open>
  C11. No privilege escalation: in every run of the service over a fresh SQLite token store, with
  any requests, faults and timing, a bearer token is accepted only before it expires and with a
  scope that ranks no higher than the configured scope of the client it was issued to; one that
  carries write authority was issued to a pre-registered client that has a secret. Dynamically
  registered clients and agents never hold one.
\<close>

theorem oauth_no_escalation:
  assumes "svc_reachable L sql_ops (NewService cfg empty_sqlite) s"
    and "ValidateBearerInfo L sql_ops f now s token = Some (sc, e, p, lg)"
  shows "\<exists>owner. p = trim_space owner \<and> canonical sc \<and> now < e \<and> ScopeRank sc \<le> max_rank s owner \<and>
    (IsWriteScope sc \<longrightarrow> (\<exists>c. gget (sv_clients s) owner = Some c \<and> IsWriteScope (cl_scope c) \<and>
       cl_secret_hash c \<noteq> ''''))"
proof -
  have "svc_inv sql_ok sql_abs s"
    using assms(1)
    by (rule sql_oauth.inv_reachable) (simp_all add: empty_sqlite_def sql_ok_def sql_abs_def)
  then show ?thesis using assms(2) by (rule sql_oauth.write_bearer_owner)
qed

definition demo_url :: url where
  "demo_url = \<lparr>u_scheme = ''https'', u_host = ''a'', u_hostname = ''a'', u_path = ''/cb'',
     u_raw_query = '''', u_fragment = '''', u_has_user = False, u_string = ''https://a/cb''\<rparr>"

definition demo_lib :: lib where
  "demo_lib = \<lparr>lib_url_parse = (\<lambda>s. if s = ''https://a/cb'' then Some demo_url else None),
     lib_parse_ip = Some, lib_is_loopback = (\<lambda>ip. False), lib_cidr_contains = (\<lambda>c. Some (\<lambda>ip. True)),
     lib_split_host_port = (\<lambda>s. None), lib_equal_fold = (=), lib_hash_token = (\<lambda>s. s),
     lib_challenge_s256 = (\<lambda>s. s)\<rparr>"

definition demo_cfg :: oauth_config where
  "demo_cfg = \<lparr>oc_issuer = '''', oc_require_pkce = False, oc_dynamic_client_enabled = True,
     oc_allow_reader_self_registration = False, oc_auth_code_ttl = 0, oc_access_token_ttl = 0,
     oc_refresh_token_ttl = 0, oc_trusted_authorize_cidrs = []\<rparr>"

definition demo_entry :: client_registry_entry where
  "demo_entry = \<lparr>ce_id = ''cms'', ce_client_id = '''', ce_secret = ''sec'', ce_client_secret = '''',
     ce_secret_hash = '''', ce_redirect_uris = [''https://a/cb''], ce_scopes = [''write''],
     ce_scope = '''', ce_enabled = None\<rparr>"

definition demo_s1 :: "sqlite_store service" where
  "demo_s1 = fst (LoadClientRegistry demo_lib sql_ops (\<lambda>p. Inr [demo_entry]) (\<lambda>k. None) 0
     (NewService demo_cfg empty_sqlite) ''p'')"

definition demo_s2 :: "sqlite_store service" where
  "demo_s2 = fst (issueAuthCode demo_lib 0 (Some ''code'') demo_s1 ''ip'' ''code'' ''cms''
     ''https://a/cb'' ''st'' ''write'' '''' '''')"

definition demo_s3 :: "sqlite_store service" where
  "demo_s3 = fst (exchangeAuthorizationCode demo_lib sql_ops (None, None) 0 (Some ''at'') (Some ''rt'')
     demo_s2 ''cms'' ''sec'' ''https://a/cb'' ''code'' '''')"

lemma demo_trims:
  "trim_space ''cms'' = ''cms''" "trim_space ''sec'' = ''sec''" "trim_space ''p'' = ''p''"
  "trim_space ''https://a/cb'' = ''https://a/cb''" "trim_space ''write'' = ''write''"
  "trim_space ''ip'' = ''ip''" "trim_space ''127.0.0.1/32'' = ''127.0.0.1/32''"
  by (simp_all add: trim_space_eval)

lemma demo_client_entry:
  "entry_client demo_lib (trim_entry demo_entry) =
     Inr (\<lparr>cl_redirect_uris = [''https://a/cb''], cl_grant_types = [], cl_secret_hash = ''sec'',
           cl_scope = ''write'', cl_enabled = True\<rparr>, [''write''])"
  by (simp add: entry_client_def trim_entry_def demo_entry_def demo_trims demo_lib_def demo_url_def
      validateRegisteredRedirectURI_def Let_def has_suffix_def trim_suffix_def
      normalizeConfiguredScopes_def add_scope_def normalizeConfiguredScope_def CanonicalScope_def
      highestConfiguredScope_def firstNonEmpty.simps)

lemma demo_clients:
  "sv_clients demo_s1 = [(''cms'', \<lparr>cl_redirect_uris = [''https://a/cb''], cl_grant_types = [],
     cl_secret_hash = ''sec'', cl_scope = ''write'', cl_enabled = True\<rparr>)]"
  "sv_codes demo_s1 = []" "sv_cfg demo_s1 = demo_cfg\<lparr>oc_auth_code_ttl := 300,
     oc_access_token_ttl := 3600, oc_refresh_token_ttl := 30 * 24 * 3600,
     oc_trusted_authorize_cidrs := [''127.0.0.1/32'', ''::1/128'']\<rparr>"
  "sq_access_tokens (sv_store demo_s1) = []" "sq_refresh_tokens (sv_store demo_s1) = []"
proof -
  have k: "firstNonEmpty [ce_id (trim_entry demo_entry), ce_client_id (trim_entry demo_entry)] = ''cms''"
    by (simp add: trim_entry_def demo_entry_def demo_trims firstNonEmpty.simps)
  note d = demo_s1_def LoadClientRegistry_def loadClientRegistry_def demo_trims load_entry_def k
    demo_client_entry NewService_def demo_cfg_def sql_ops_def sql_UpsertOAuthClient_def
    empty_sqlite_def Let_def
  show "sv_clients demo_s1 = [(''cms'', \<lparr>cl_redirect_uris = [''https://a/cb''], cl_grant_types = [],
     cl_secret_hash = ''sec'', cl_scope = ''write'', cl_enabled = True\<rparr>)]"
    by (simp add: d)
  show "sv_codes demo_s1 = []" by (simp add: d)
  show "sv_cfg demo_s1 = demo_cfg\<lparr>oc_auth_code_ttl := 300,
     oc_access_token_ttl := 3600, oc_refresh_token_ttl := 30 * 24 * 3600,
     oc_trusted_authorize_cidrs := [''127.0.0.1/32'', ''::1/128'']\<rparr>"
    by (simp add: d)
  show "sq_access_tokens (sv_store demo_s1) = []" by (simp add: d)
  show "sq_refresh_tokens (sv_store demo_s1) = []" by (simp add: d)
qed

lemma demo_issue:
  "issueAuthCode demo_lib 0 (Some ''code'') demo_s1 ''ip'' ''code'' ''cms''
     ''https://a/cb'' ''st'' ''write'' '''' '''' =
   (demo_s1\<lparr>sv_codes := [(''code'', \<lparr>ac_client_id = ''cms'', ac_redirect_uri = ''https://a/cb'',
      ac_scope = ''write'', ac_expires_at = 300 * second, ac_code_challenge = '''',
      ac_code_challenge_method = ''''\<rparr>)]\<rparr>, Inr ''code'')"
proof -
  have r: "resolveClientScope demo_s1 ''cms'' ''write'' = Inr ''write''"
    by (simp add: resolveClientScope_def lookupClient_def demo_clients requestedScope_def demo_trims
        go_fields_def space_seqs_def requested_step_def normalizeConfiguredScope_def
        CanonicalScope_def pick_highest_def allowedScope_def)
  have v: "validateClientRedirect demo_lib demo_s1 ''cms'' ''https://a/cb'' = Inr ''https://a/cb''"
    by (simp add: validateClientRedirect_def validateClientRedirectURL_def lookupClient_def
        demo_clients parse_absolute_def demo_trims demo_lib_def demo_url_def matchRedirectURI_def
        Let_def has_suffix_def normalizeRedirectURL_def)
  have a: "sourceAllowed demo_lib demo_s1 ''ip''"
    by (simp add: sourceAllowed_def demo_lib_def demo_trims demo_clients)
  show ?thesis
    by (simp add: issueAuthCode_def a v r demo_clients demo_cfg_def)
qed

lemma demo_exchange:
  "exchangeAuthorizationCode demo_lib sql_ops (None, None) 0 (Some ''at'') (Some ''rt'')
     demo_s2 ''cms'' ''sec'' ''https://a/cb'' ''code'' '''' =
   (demo_s1\<lparr>sv_store := (sv_store demo_s1)
      \<lparr>sq_access_tokens := [(''at'', \<lparr>ar_principal = ''cms'', ar_scope = ''write'', ar_expires_at = 3600\<rparr>)],
       sq_refresh_tokens := [(''rt'', \<lparr>rr_client_id = ''cms'', rr_scope = ''write'', rr_expires_at = 2592000\<rparr>)]\<rparr>,
      sv_codes := []\<rparr>,
    Inr \<lparr>tr_access_token = ''at'', tr_token_type = ''Bearer'', tr_expires_in = 3600,
      tr_refresh_token = ''rt'', tr_refresh_expires_in = 2592000, tr_scope = ''write''\<rparr>)"
proof -
  let ?c = "\<lparr>cl_redirect_uris = [''https://a/cb''], cl_grant_types = [], cl_secret_hash = ''sec'',
     cl_scope = ''write'', cl_enabled = True\<rparr>"
  have l: "lookupClient demo_s2 ''cms'' = Some ?c"
    by (simp add: demo_s2_def demo_issue lookupClient_def demo_clients)
  have h: "HashToken demo_lib t = t" for t
    by (simp add: HashToken_def demo_lib_def)
  then have c: "client_secret_ok demo_lib ?c ''sec''"
    by (simp add: client_secret_ok_def)
  have b: "issueBearerPair demo_lib sql_ops (None, None) 0 (Some ''at'') (Some ''rt'')
      (demo_s1\<lparr>sv_codes := []\<rparr>) ''cms'' ''write'' =
     (demo_s1\<lparr>sv_codes := [], sv_store := (sv_store demo_s1)
      \<lparr>sq_access_tokens := [(''at'', \<lparr>ar_principal = ''cms'', ar_scope = ''write'', ar_expires_at = 3600\<rparr>)],
       sq_refresh_tokens := [(''rt'', \<lparr>rr_client_id = ''cms'', rr_scope = ''write'', rr_expires_at = 2592000\<rparr>)]\<rparr>\<rparr>,
    Inr \<lparr>tr_access_token = ''at'', tr_token_type = ''Bearer'', tr_expires_in = 3600,
      tr_refresh_token = ''rt'', tr_refresh_expires_in = 2592000, tr_scope = ''write''\<rparr>)"
    by (simp add: issueBearerPair_def sql_ops_def sql_AddAccessToken_def sql_AddRefreshToken_def h
        demo_clients demo_cfg_def unix_def Let_def)
  have k: "sv_codes demo_s2 = [(''code'', \<lparr>ac_client_id = ''cms'', ac_redirect_uri = ''https://a/cb'',
      ac_scope = ''write'', ac_expires_at = 300 * second, ac_code_challenge = '''',
      ac_code_challenge_method = ''''\<rparr>)]"
    by (simp add: demo_s2_def demo_issue)
  show ?thesis
    unfolding exchangeAuthorizationCode_def l option.case k Let_def
    by (simp add: c demo_s2_def demo_issue b)
qed

theorem oauth_no_escalation_witness:
  "\<exists>owner. ''cms'' = trim_space owner \<and> canonical ''write'' \<and> 0 < from_unix 3600 \<and>
    ScopeRank ''write'' \<le> max_rank demo_s3 owner \<and>
    (IsWriteScope ''write'' \<longrightarrow> (\<exists>c. gget (sv_clients demo_s3) owner = Some c \<and>
       IsWriteScope (cl_scope c) \<and> cl_secret_hash c \<noteq> ''''))"
proof -
  have "svc_step demo_lib sql_ops {} (NewService demo_cfg empty_sqlite) demo_s1"
    unfolding demo_s1_def by (rule step_load)
  moreover have "svc_step demo_lib sql_ops {} demo_s1 demo_s2"
    unfolding demo_s2_def by (rule step_issue) simp
  moreover have "svc_step demo_lib sql_ops {} demo_s2 demo_s3"
    unfolding demo_s3_def by (rule step_code)
  ultimately have "svc_reachable demo_lib sql_ops (NewService demo_cfg empty_sqlite) demo_s3"
    unfolding svc_reachable_def by (meson converse_rtranclp_into_rtranclp rtranclp.rtrancl_refl)
  moreover have "ValidateBearerInfo demo_lib sql_ops None 0 demo_s3 ''at'' =
      Some (''write'', from_unix 3600, ''cms'', False)"
  proof -
    have "HashToken demo_lib ''at'' = ''at''" by (simp add: HashToken_def demo_lib_def)
    moreover have "sq_access_tokens (sv_store demo_s3) =
        [(''at'', \<lparr>ar_principal = ''cms'', ar_scope = ''write'', ar_expires_at = 3600\<rparr>)]"
      unfolding demo_s3_def demo_exchange by simp
    ultimately show ?thesis
      by (simp add: ValidateBearerInfo_def sql_ops_def sql_ValidateAccessTokenDetails_def
          sql_select_access_def unix_def demo_trims IsLegacyScope_def)
  qed
  ultimately show ?thesis by (rule oauth_no_escalation)
qed

text \<open>Only \<open>issueAuthCode\<close> puts a code into the table.\<close>

lemma load_entries_codes: "sv_codes (fst (load_entries L ops flts now s es)) = sv_codes s"
proof (induction es arbitrary: s)
  case (Cons e es)
  obtain s' r where l: "load_entry L ops (flts (firstNonEmpty [ce_id e, ce_client_id e])) now s e = (s', r)"
    by fastforce
  have "sv_codes s' = sv_codes s"
    using load_entry_result [where L = L and ops = ops and now = now and s = s and e = e
        and flt = "flts (firstNonEmpty [ce_id e, ce_client_id e])"] unfolding l by auto
  with Cons.IH l show ?case by (simp split: option.split)
qed simp

lemma issueBearerPair_codes:
  "sv_codes (fst (issueBearerPair L ops flts now r1 r2 s cid sc)) = sv_codes s"
  by (simp add: issueBearerPair_def Let_def split: option.split prod.split)

lemma code_absent_step:
  assumes "svc_step L ops used s s'" "gget (sv_codes s) code = None" "code \<in> used"
  shows "gget (sv_codes s') code = None"
  using assms
proof (induction rule: svc_step.induct)
  case (step_load s read flts now path)
  then show ?case
    by (simp add: LoadClientRegistry_def Let_def load_entries_codes split: sum.split)
next
  case (step_register rnd s now uris)
  then show ?case by (simp add: registerClient_def split: option.split)
next
  case (step_issue rnd s now ip rt cid uri st sc cc ccm)
  obtain s' r where e: "issueAuthCode L now rnd s ip rt cid uri st sc cc ccm = (s', r)" by fastforce
  note res = issueAuthCode_result [where L = L and now = now and rnd = rnd and s = s and ip = ip and
      rt = rt and cid = cid and uri = uri and st = st and sc = sc and cc = cc and ccm = ccm,
      unfolded e, simplified]
  show ?case
  proof (cases r)
    case (Inl err)
    with res step_issue e show ?thesis by simp
  next
    case (Inr c)
    with res obtain d where "rnd = Some c" "s' = s\<lparr>sv_codes := gput (sv_codes s) c d\<rparr>" by fastforce
    with step_issue e show ?thesis by auto
  qed
next
  case (step_code s flts2 now rnd rnd2 cid secret uri code' verifier)
  obtain s' r where e: "exchangeAuthorizationCode L ops flts2 now rnd rnd2 s cid secret uri code' verifier = (s', r)"
    by fastforce
  from exchangeAuthorizationCode_result [OF e] show ?case
  proof (elim disjE exE conjE)
    assume "s' \<in> {s, s\<lparr>sv_codes := gdel (sv_codes s) code'\<rparr>}"
    with step_code e show ?thesis by auto
  next
    fix d
    assume b: "issueBearerPair L ops flts2 now rnd rnd2 (s\<lparr>sv_codes := gdel (sv_codes s) code'\<rparr>) cid
      (CanonicalScope (ac_scope d)) = (s', r)"
    from arg_cong [OF b, of "sv_codes \<circ> fst"] have "sv_codes s' = gdel (sv_codes s) code'"
      by (simp add: issueBearerPair_codes)
    with step_code e show ?thesis by simp
  qed
next
  case (step_refresh s flt now rnd rnd2 cid secret rt)
  obtain s' r where e: "exchangeRefreshToken L ops flt now rnd rnd2 s cid secret rt = (s', r)" by fastforce
  have "sv_codes s' = sv_codes s"
    using exchangeRefreshToken_result [where L = L and ops = ops and flt = flt and now = now and
        ?r1.0 = rnd and ?r2.0 = rnd2 and s = s and cid = cid and secret = secret and rt = rt]
    unfolding e by auto
  with step_refresh e show ?case by simp
next
  case (step_purge s now)
  then show ?case by (simp add: PurgeExpired_def Let_def)
next
  case (step_agent_register s now rnd rnd2 rnd3)
  then show ?case by (simp add: registerAgentAnonymous_frame)
next
  case (step_agent_exchange s flt now rnd assertion)
  then show ?case
    by (simp add: exchangeAgentAssertion_def Let_def split: option.split prod.split)
next
  case (step_agent_claim s now rnd tok)
  with initiateClaim_frame [of now rnd s tok] show ?case by auto
next
  case (step_agent_verify s flt now r)
  with HandleAgentVerify_cases [of L ops flt now s r] show ?case
    by (auto simp: verifyAgentClaim_frame)
qed simp

text \<open>
  C12. An authorization code is redeemed at most once, and by the client it was issued to: once a
  client that authenticates has presented a code, valid or not, no later attempt with that code
  succeeds, by anyone and after any sequence of requests, as long as the random generator does not
  produce the same code again; and a redemption that succeeds presented an unexpired code of this
  client with the redirect URI and, where a challenge was recorded, the PKCE verifier bound to it.
\<close>

theorem auth_code_single_use:
  assumes "lookupClient s cid = Some c" "client_secret_ok L c secret"
    and "exchangeAuthorizationCode L ops flts now r1 r2 s cid secret uri code verifier = (s1, r)"
    and "(svc_step L ops {code})\<^sup>*\<^sup>* s1 s2"
  shows "(\<exists>e. snd (exchangeAuthorizationCode L ops flts' now' r1' r2' s2 cid' secret' uri' code verifier') = Inl e) \<and>
    (\<forall>resp. r = Inr resp \<longrightarrow>
      (\<exists>d. gget (sv_codes s) code = Some d \<and> now \<le> ac_expires_at d \<and> ac_client_id d = cid \<and>
        uri \<noteq> '''' \<and> uri = ac_redirect_uri d \<and>
        (ac_code_challenge d \<noteq> '''' \<longrightarrow> ValidatePKCE L (ac_code_challenge d) verifier)))"
proof
  have "gget (sv_codes s1) code = None"
  proof (cases "gget (sv_codes s) code")
    case None
    then show ?thesis using assms(1-3) by (simp add: exchangeAuthorizationCode_def)
  next
    case (Some d)
    let ?s = "s\<lparr>sv_codes := gdel (sv_codes s) code\<rparr>"
    have "s1 = ?s \<or> (\<exists>sc. issueBearerPair L ops flts now r1 r2 ?s cid sc = (s1, r))"
      using assms(1-3) Some by (auto simp: exchangeAuthorizationCode_def Let_def split: if_splits)
    then show ?thesis
    proof
      assume "\<exists>sc. issueBearerPair L ops flts now r1 r2 ?s cid sc = (s1, r)"
      then show ?thesis using issueBearerPair_codes by (metis fst_conv fun_upd_apply gget_del service.select_convs(4) service.surjective service.update_convs(4))
    qed simp
  qed
  with assms(4) have n: "gget (sv_codes s2) code = None"
    by (induction rule: rtranclp_induct) (auto dest: code_absent_step)
  show "\<exists>e. snd (exchangeAuthorizationCode L ops flts' now' r1' r2' s2 cid' secret' uri' code verifier') = Inl e"
    using n by (simp add: exchangeAuthorizationCode_def split: option.split)
  show "\<forall>resp. r = Inr resp \<longrightarrow>
      (\<exists>d. gget (sv_codes s) code = Some d \<and> now \<le> ac_expires_at d \<and> ac_client_id d = cid \<and>
        uri \<noteq> '''' \<and> uri = ac_redirect_uri d \<and>
        (ac_code_challenge d \<noteq> '''' \<longrightarrow> ValidatePKCE L (ac_code_challenge d) verifier))"
    using exchangeAuthorizationCode_result [OF assms(3)] by blast
qed

theorem auth_code_single_use_witness:
  "(\<exists>e. snd (exchangeAuthorizationCode demo_lib sql_ops (None, None) 0 (Some ''x'') (Some ''y'') demo_s3
        ''cms'' ''sec'' ''https://a/cb'' ''code'' '''') = Inl e) \<and>
   (\<exists>d. gget (sv_codes demo_s2) ''code'' = Some d \<and> ac_redirect_uri d = ''https://a/cb'')"
proof -
  have l: "lookupClient demo_s2 ''cms'' = Some \<lparr>cl_redirect_uris = [''https://a/cb''],
      cl_grant_types = [], cl_secret_hash = ''sec'', cl_scope = ''write'', cl_enabled = True\<rparr>"
    by (simp add: demo_s2_def demo_issue lookupClient_def demo_clients)
  have k: "client_secret_ok demo_lib \<lparr>cl_redirect_uris = [''https://a/cb''], cl_grant_types = [],
      cl_secret_hash = ''sec'', cl_scope = ''write'', cl_enabled = True\<rparr> ''sec''"
    by (simp add: client_secret_ok_def HashToken_def demo_lib_def)
  have "exchangeAuthorizationCode demo_lib sql_ops (None, None) 0 (Some ''at'') (Some ''rt'')
      demo_s2 ''cms'' ''sec'' ''https://a/cb'' ''code'' '''' =
    (demo_s3, snd (exchangeAuthorizationCode demo_lib sql_ops (None, None) 0 (Some ''at'') (Some ''rt'')
      demo_s2 ''cms'' ''sec'' ''https://a/cb'' ''code'' ''''))"
    by (simp add: demo_s3_def)
  from auth_code_single_use [OF l k this rtranclp.rtrancl_refl] demo_exchange show ?thesis
    by fastforce
qed

lemma purge_code_lookup:
  assumes "wf_map (sv_codes s)" "now \<le> now'"
  shows "gget (sv_codes (PurgeExpired now s)) code = gget (sv_codes s) code \<or>
    (gget (sv_codes (PurgeExpired now s)) code = None \<and>
     (\<exists>d. gget (sv_codes s) code = Some d \<and> ac_expires_at d < now'))"
  using assms
  by (cases "gget (sv_codes s) code")
    (auto simp: PurgeExpired_def Let_def gget_keep)

lemma PurgeExpired_frame:
  "sv_cfg (PurgeExpired now s) = sv_cfg s" "sv_store (PurgeExpired now s) = sv_store s"
  "sv_clients (PurgeExpired now s) = sv_clients s"
  by (simp_all add: PurgeExpired_def Let_def)

text \<open>\<open>issueBearerPair\<close> reads only the configuration and the token store.\<close>

lemma issueBearerPair_local:
  assumes "sv_cfg s = sv_cfg t" "sv_store s = sv_store t"
  shows "snd (issueBearerPair L ops flts now r1 r2 s cid sc) = snd (issueBearerPair L ops flts now r1 r2 t cid sc)"
    "sv_store (fst (issueBearerPair L ops flts now r1 r2 s cid sc)) =
     sv_store (fst (issueBearerPair L ops flts now r1 r2 t cid sc))"
  using assms by (simp_all add: issueBearerPair_def Let_def split: option.split prod.split)

text \<open>
  The periodic purge of authorization codes cannot be noticed: at any time after it, redeeming
  a code gives the same response and leaves the token store the same as if the purge had not run.
\<close>

theorem purge_unobservable:
  assumes "wf_map (sv_codes s)" "now \<le> now'"
  shows "snd (exchangeAuthorizationCode L ops flts now' r1 r2 (PurgeExpired now s) cid secret uri code verifier) =
      snd (exchangeAuthorizationCode L ops flts now' r1 r2 s cid secret uri code verifier) \<and>
    sv_store (fst (exchangeAuthorizationCode L ops flts now' r1 r2 (PurgeExpired now s) cid secret uri code verifier)) =
      sv_store (fst (exchangeAuthorizationCode L ops flts now' r1 r2 s cid secret uri code verifier))"
proof -
  let ?p = "PurgeExpired now s"
  have l: "lookupClient ?p cid = lookupClient s cid"
    by (simp add: lookupClient_def PurgeExpired_frame)
  from purge_code_lookup [OF assms, of code] show ?thesis
  proof
    have b: "snd (issueBearerPair L ops flts now' r1 r2 (?p\<lparr>sv_codes := x\<rparr>) cid sc) =
        snd (issueBearerPair L ops flts now' r1 r2 (s\<lparr>sv_codes := y\<rparr>) cid sc)"
      "sv_store (fst (issueBearerPair L ops flts now' r1 r2 (?p\<lparr>sv_codes := x\<rparr>) cid sc)) =
        sv_store (fst (issueBearerPair L ops flts now' r1 r2 (s\<lparr>sv_codes := y\<rparr>) cid sc))" for x y cid sc
      by (rule issueBearerPair_local; simp add: PurgeExpired_frame)+
    assume eq: "gget (sv_codes ?p) code = gget (sv_codes s) code"
    show ?thesis
      unfolding exchangeAuthorizationCode_def l Let_def eq
      by (simp add: PurgeExpired_frame b [where y = "gdel (sv_codes s) code"] split: option.split)
  next
    assume "gget (sv_codes ?p) code = None \<and> (\<exists>d. gget (sv_codes s) code = Some d \<and> ac_expires_at d < now')"
    then show ?thesis
      by (auto simp: exchangeAuthorizationCode_def l Let_def PurgeExpired_frame split: option.split)
  qed
qed

theorem purge_unobservable_witness:
  "snd (exchangeAuthorizationCode demo_lib sql_ops (None, None) (400 * second) (Some ''at'') (Some ''rt'')
      (PurgeExpired (350 * second) demo_s2) ''cms'' ''sec'' ''https://a/cb'' ''code'' '''') =
   snd (exchangeAuthorizationCode demo_lib sql_ops (None, None) (400 * second) (Some ''at'') (Some ''rt'')
      demo_s2 ''cms'' ''sec'' ''https://a/cb'' ''code'' '''')"
proof -
  have "wf_map (sv_codes demo_s2)" by (simp add: demo_s2_def demo_issue wf_map_def)
  moreover have "350 * second \<le> 400 * second" by simp
  ultimately show ?thesis using purge_unobservable by blast
qed

text \<open>How a step can change the claimed flag of an agent registration.\<close>

definition agent_claimed :: "'s service \<Rightarrow> string \<Rightarrow> bool" where
  "agent_claimed s a \<longleftrightarrow> (\<exists>reg. gget (sv_agent_regs s) a = Some reg \<and> ag_claimed reg)"

text \<open>The bearer token a verification request carries: in its header, else in its form.\<close>

definition carried_token :: "http_request \<Rightarrow> string" where
  "carried_token r =
     (let h = trim_space (trim_prefix ''Bearer '' (trim_space (hr_authorization r)))
      in if h = '''' then form_value r ''admin_token'' else h)"

lemma HandleAgentVerify_authorized:
  "fst (HandleAgentVerify L ops flt now s r) = s \<or>
   (\<exists>sc lg. ValidateBearerDetails L ops flt now s (carried_token r) = Some (sc, lg) \<and> IsWriteScope sc) \<and>
   fst (HandleAgentVerify L ops flt now s r) = fst (verifyAgentClaim now s (form_value r ''claim_token''))"
proof -
  obtain h v a where h: "trim_space (trim_prefix ''Bearer '' (trim_space (hr_authorization r))) = h"
    and v: "verifyAgentClaim now s (form_value r ''claim_token'') = v"
    and a: "form_value r ''admin_token'' = a" by blast
  have t: "carried_token r = (if h = '''' then a else h)" unfolding carried_token_def Let_def h a by simp
  show ?thesis
  proof (cases "ValidateBearerDetails L ops flt now s (carried_token r)")
    case None
    then show ?thesis unfolding HandleAgentVerify_def Let_def h v a t by simp
  next
    case (Some b)
    obtain sc lg where b: "b = (sc, lg)" by (cases b)
    show ?thesis
    proof (cases "IsWriteScope sc")
      case True
      have "fst (HandleAgentVerify L ops flt now s r) = s \<or> fst (HandleAgentVerify L ops flt now s r) = fst v"
        unfolding HandleAgentVerify_def Let_def h v a by (simp split: prod.split option.split)
      with True Some b show ?thesis unfolding v by blast
    next
      case False
      with Some b show ?thesis unfolding HandleAgentVerify_def Let_def h v a t by simp
    qed
  qed
qed

lemma verify_claims_one:
  assumes "\<not> agent_claimed s a" "agent_claimed (fst (verifyAgentClaim now s c)) a"
  shows "gget (sv_agent_claim_tokens s) c = Some a"
  using assms by (auto simp: verifyAgentClaim_def agent_claimed_def pending_claim_def split: sum.splits option.splits if_splits)

lemma load_entries_agents: "sv_agent_regs (fst (load_entries L ops flts now s es)) = sv_agent_regs s"
proof (induction es arbitrary: s)
  case (Cons e es)
  obtain s' r where l: "load_entry L ops (flts (firstNonEmpty [ce_id e, ce_client_id e])) now s e = (s', r)"
    by fastforce
  have "sv_agent_regs s' = sv_agent_regs s"
    using load_entry_result [where L = L and ops = ops and now = now and s = s and e = e
        and flt = "flts (firstNonEmpty [ce_id e, ce_client_id e])"] unfolding l by auto
  with Cons.IH l show ?case by (simp split: option.split)
qed simp

lemma issueBearerPair_agents:
  "sv_agent_regs (fst (issueBearerPair L ops flts now r1 r2 s cid sc)) = sv_agent_regs s"
  by (simp add: issueBearerPair_def Let_def split: option.split prod.split)

lemma LoadClientRegistry_agents:
  "sv_agent_regs (fst (LoadClientRegistry L ops read flts now s path)) = sv_agent_regs s"
  by (simp add: LoadClientRegistry_def Let_def load_entries_agents split: sum.split)

lemma registerClient_agents:
  "sv_agent_regs (fst (registerClient L now rnd s uris)) = sv_agent_regs s"
  by (simp add: registerClient_def split: option.split)

lemma exchangeAgentAssertion_agents:
  "sv_agent_regs (fst (exchangeAgentAssertion L ops flt now rnd s assertion)) = sv_agent_regs s"
  by (simp add: exchangeAgentAssertion_def Let_def split: option.split prod.split)

lemma exchangeAuthorizationCode_agents:
  "sv_agent_regs (fst (exchangeAuthorizationCode L ops flts now r1 r2 s cid secret uri code v)) = sv_agent_regs s"
  by (simp add: exchangeAuthorizationCode_def Let_def issueBearerPair_agents split: option.split)

lemma issueAuthCode_agents:
  "sv_agent_regs (fst (issueAuthCode L now rnd s ip rt cid uri st sc cc ccm)) = sv_agent_regs s"
  by (simp add: issueAuthCode_def split: sum.split option.split)

lemma exchangeRefreshToken_agents:
  "sv_agent_regs (fst (exchangeRefreshToken L ops flt now r1 r2 s cid secret rt)) = sv_agent_regs s"
  by (simp add: exchangeRefreshToken_def split: option.split prod.split sum.split)

text \<open>
  C13. Without reader self-registration an agent gets no token before an operator approves it: a
  step of the service that turns an unclaimed agent registration into a claimed one is the handling of a
  verification request that names the claim token of that registration and carries a bearer token which at the time of
  the step is valid and has write authority; and an assertion that is not claimed is never exchanged for a token.
\<close>

theorem agent_claim_needs_operator:
  assumes "svc_step L ops used s s'" "\<not> oc_allow_reader_self_registration (sv_cfg s)"
    and "wf_map (sv_agent_regs s)" "\<not> agent_claimed s a" "agent_claimed s' a"
  shows "(\<exists>flt now r sc lg. s' = fst (HandleAgentVerify L ops flt now s r) \<and>
     ValidateBearerDetails L ops flt now s (carried_token r) = Some (sc, lg) \<and> IsWriteScope sc \<and>
     gget (sv_agent_claim_tokens s) (form_value r ''claim_token'') = Some a) \<and>
    (\<exists>e. exchangeAgentAssertion L ops flt' now' rnd' s a = (s, Inl e))"
proof
  show "\<exists>e. exchangeAgentAssertion L ops flt' now' rnd' s a = (s, Inl e)"
    using assms(4) by (auto simp: exchangeAgentAssertion_def agent_claimed_def split: option.split)
  show "\<exists>flt now r sc lg. s' = fst (HandleAgentVerify L ops flt now s r) \<and>
     ValidateBearerDetails L ops flt now s (carried_token r) = Some (sc, lg) \<and> IsWriteScope sc \<and>
     gget (sv_agent_claim_tokens s) (form_value r ''claim_token'') = Some a"
    using assms
  proof (induction rule: svc_step.induct)
    case (step_purge s now)
    then show ?case
      by (auto simp: agent_claimed_def PurgeExpired_def Let_def gget_keep_Some)
  next
    case (step_agent_register s now rnd rnd2 rnd3)
    then show ?case
      by (auto simp: agent_claimed_def registerAgentAnonymous_def Let_def split: option.splits if_splits)
  next
    case (step_agent_claim s now rnd tok)
    with initiateClaim_frame [of now rnd s tok] show ?case by (auto simp: agent_claimed_def)
  next
    case (step_agent_verify s flt now r)
    from HandleAgentVerify_authorized [of L ops flt now s r] show ?case
    proof
      assume "fst (HandleAgentVerify L ops flt now s r) = s"
      with step_agent_verify show ?thesis by simp
    next
      assume a: "(\<exists>sc lg. ValidateBearerDetails L ops flt now s (carried_token r) = Some (sc, lg) \<and> IsWriteScope sc) \<and>
        fst (HandleAgentVerify L ops flt now s r) = fst (verifyAgentClaim now s (form_value r ''claim_token''))"
      then have "gget (sv_agent_claim_tokens s) (form_value r ''claim_token'') = Some a"
        using step_agent_verify verify_claims_one by metis
      then show ?thesis using a by blast
    qed
  qed (auto simp: agent_claimed_def registerClient_agents issueAuthCode_agents LoadClientRegistry_agents
      exchangeAuthorizationCode_agents exchangeRefreshToken_agents exchangeAgentAssertion_agents)
qed

definition demo_reg :: "bool \<Rightarrow> agent_registration" where
  "demo_reg c = \<lparr>ag_registration_id = ''reg_r'', ag_assertion_token = ''arleo_assert_a'',
     ag_issued_scope = ''read'', ag_claim_token = ''clm_c'', ag_assertion_expires = 60 * minute,
     ag_claim_expires = 10 * minute, ag_claimed = c\<rparr>"

definition demo_pending :: "sqlite_store service" where
  "demo_pending = \<lparr>sv_cfg = demo_cfg, sv_store = \<lparr>sq_access_tokens =
       [(''at'', \<lparr>ar_principal = ''cms'', ar_scope = ''write'', ar_expires_at = 3600\<rparr>)],
       sq_refresh_tokens = [], sq_oauth_clients = []\<rparr>, sv_clients = [], sv_codes = [],
     sv_agent_regs = [(''arleo_assert_a'', demo_reg False)],
     sv_agent_claim_tokens = [(''clm_c'', ''arleo_assert_a'')], sv_agent_claims = []\<rparr>"

theorem agent_claim_needs_operator_witness:
  "(\<exists>flt now r sc lg. fst (HandleAgentVerify demo_lib sql_ops None 0 demo_pending
       \<lparr>hr_method = ''POST'', hr_form = Some [(''claim_token'', ''clm_c'')], hr_basic = None,
        hr_authorization = ''at'', hr_remote_addr = ''''\<rparr>) = fst (HandleAgentVerify demo_lib sql_ops flt now demo_pending r) \<and>
     ValidateBearerDetails demo_lib sql_ops flt now demo_pending (carried_token r) = Some (sc, lg) \<and> IsWriteScope sc \<and>
     gget (sv_agent_claim_tokens demo_pending) (form_value r ''claim_token'') = Some ''arleo_assert_a'') \<and>
   (\<exists>e. exchangeAgentAssertion demo_lib sql_ops None 0 (Some ''x'') demo_pending ''arleo_assert_a'' =
     (demo_pending, Inl e))"
proof (rule agent_claim_needs_operator)
  let ?r = "\<lparr>hr_method = ''POST'', hr_form = Some [(''claim_token'', ''clm_c'')], hr_basic = None,
    hr_authorization = ''at'', hr_remote_addr = ''''\<rparr>"
  show "svc_step demo_lib sql_ops {} demo_pending (fst (HandleAgentVerify demo_lib sql_ops None 0 demo_pending ?r))"
    by (rule step_agent_verify)
  show "\<not> oc_allow_reader_self_registration (sv_cfg demo_pending)"
    "wf_map (sv_agent_regs demo_pending)" "\<not> agent_claimed demo_pending ''arleo_assert_a''"
    by (simp_all add: demo_pending_def demo_cfg_def wf_map_def agent_claimed_def demo_reg_def)
  have h: "trim_space (trim_prefix ''Bearer '' (trim_space ''at'')) = ''at''"
    by (simp add: trim_space_eval trim_prefix_def)
  have v: "ValidateBearerDetails demo_lib sql_ops None 0 demo_pending ''at'' = Some (''write'', False)"
    by (simp add: ValidateBearerDetails_def demo_pending_def sql_ops_def HashToken_def demo_lib_def
        sql_ValidateAccessTokenDetails_def sql_select_access_def unix_def demo_trims IsLegacyScope_def)
  have "form_value ?r ''claim_token'' = ''clm_c''"
    by (simp add: form_value_def)
  then have "fst (HandleAgentVerify demo_lib sql_ops None 0 demo_pending ?r) =
      fst (verifyAgentClaim 0 demo_pending ''clm_c'')"
    using v by (simp add: HandleAgentVerify_def h split: prod.split option.split)
  then show "agent_claimed (fst (HandleAgentVerify demo_lib sql_ops None 0 demo_pending ?r)) ''arleo_assert_a''"
    by (simp add: verifyAgentClaim_def pending_claim_def demo_pending_def demo_reg_def agent_claimed_def
        minute_def)
qed

lemma validateClientRedirectURL_Inr:
  "validateClientRedirectURL L s cid uri = Inr u \<Longrightarrow>
     \<exists>c. lookupClient s cid = Some c \<and> list_ex (\<lambda>r. matchRedirectURI L r (u_string u)) (cl_redirect_uris c)"
  by (auto simp: validateClientRedirectURL_def split: option.splits if_splits)

lemma redirectToRegisteredClient_Redirect:
  "redirectToRegisteredClient L u ps = Redirect v qs \<Longrightarrow>
     v = u \<and> qs = ps \<and>
     (u_scheme u = ''https'' \<or> u_scheme u = ''http'' \<and> isLoopbackHost L (u_hostname u))"
  by (auto simp: redirectToRegisteredClient_def split: if_splits)

text \<open>
  C14. The authorization endpoint is no open redirector: it redirects only to a URI that matches one
  registered for an enabled client, over HTTPS or to a loopback host, and a code it puts into the
  redirect is stored bound to that client, that URI and a future expiry, within the client's scope.
\<close>

theorem authorize_redirect_safe:
  assumes "HandleAuthorize L now rnd s r = (s', Redirect u params)" "clients_ok s"
    and "0 < oc_auth_code_ttl (sv_cfg s)"
  shows "(\<exists>c. lookupClient s (form_value r ''client_id'') = Some c \<and>
      list_ex (\<lambda>reg. matchRedirectURI L reg (u_string u)) (cl_redirect_uris c)) \<and>
    (u_scheme u = ''https'' \<or> u_scheme u = ''http'' \<and> isLoopbackHost L (u_hostname u)) \<and>
    (\<forall>code. (''code'', code) \<in> set params \<longrightarrow>
      (\<exists>d. gget (sv_codes s') code = Some d \<and> ac_client_id d = form_value r ''client_id'' \<and>
         ac_redirect_uri d = u_string u \<and> now < ac_expires_at d \<and>
         ScopeRank (ac_scope d) \<le> max_rank s (form_value r ''client_id'')))"
proof -
  let ?cid = "form_value r ''client_id''"
  have m: "hr_method r = ''GET'' \<or> hr_method r = ''POST''" "hr_form r \<noteq> None"
    using assms(1) by (auto simp: HandleAuthorize_def split: if_splits)
  obtain v where v: "validateClientRedirectURL L s ?cid (form_value r ''redirect_uri'') = Inr v"
    using assms(1) by (simp add: HandleAuthorize_def Let_def split: if_splits sum.splits)
  obtain i j where ia: "issueAuthCode L now rnd s (requestSourceIP L r) (form_value r ''response_type'')
      ?cid (u_string v) (form_value r ''state'') (form_value r ''scope'')
      (form_value r ''code_challenge'') (form_value r ''code_challenge_method'') = (i, j)"
    by fastforce
  define sp where "sp = (if form_value r ''state'' \<noteq> '''' then [(''state'', form_value r ''state'')] else [])"
  have h: "HandleAuthorize L now rnd s r =
      (case j of
         Inl err \<Rightarrow>
           if has_infix ''unauthorized_client'' err \<or> has_infix ''access_denied'' err \<or>
              has_prefix ''server_error'' err
           then (i, HttpError (oauthAuthorizeErrorCode err) (oauthAuthorizeErrorStatus err))
           else (i, redirectToRegisteredClient L v ((''error'', oauthAuthorizeErrorCode err) # sp))
       | Inr code \<Rightarrow> (i, redirectToRegisteredClient L v ((''code'', code) # sp)))"
    unfolding HandleAuthorize_def Let_def v sum.case ia prod.case sp_def [symmetric]
    using m by (cases j) auto
  then have s': "s' = i" and ex: "\<exists>p. redirectToRegisteredClient L v p = Redirect u params"
    using assms(1) by (auto split: sum.splits if_splits)
  then have u: "u = v" "u_scheme u = ''https'' \<or> u_scheme u = ''http'' \<and> isLoopbackHost L (u_hostname u)"
    using redirectToRegisteredClient_Redirect by blast+
  have "\<exists>d. gget (sv_codes s') code = Some d \<and> ac_client_id d = ?cid \<and> ac_redirect_uri d = u_string u \<and>
      now < ac_expires_at d \<and> ScopeRank (ac_scope d) \<le> max_rank s ?cid"
    if "(''code'', code) \<in> set params" for code
  proof (cases j)
    case (Inl err)
    with h assms(1) have "redirectToRegisteredClient L v ((''error'', oauthAuthorizeErrorCode err) # sp) =
        Redirect u params" by (simp split: if_splits)
    then have "params = (''error'', oauthAuthorizeErrorCode err) # sp"
      using redirectToRegisteredClient_Redirect by blast
    with that show ?thesis by (simp add: sp_def split: if_splits)
  next
    case (Inr c)
    with h assms(1) have "redirectToRegisteredClient L v ((''code'', c) # sp) = Redirect u params"
      by simp
    then have "params = (''code'', c) # sp"
      using redirectToRegisteredClient_Redirect by blast
    with that have c: "code = c" by (simp add: sp_def split: if_splits)
    note res = issueAuthCode_result [where L = L and now = now and rnd = rnd and s = s and
        ip = "requestSourceIP L r" and rt = "form_value r ''response_type''" and cid = ?cid and
        uri = "u_string v" and st = "form_value r ''state''" and sc = "form_value r ''scope''" and
        cc = "form_value r ''code_challenge''" and ccm = "form_value r ''code_challenge_method''"]
    from res [unfolded ia Inr] obtain scope where sc: "resolveClientScope s ?cid (form_value r ''scope'') = Inr scope"
      and i: "i = s\<lparr>sv_codes := gput (sv_codes s) c
           \<lparr>ac_client_id = ?cid, ac_redirect_uri = u_string v, ac_scope = scope,
            ac_expires_at = now + oc_auth_code_ttl (sv_cfg s) * second,
            ac_code_challenge = form_value r ''code_challenge'',
            ac_code_challenge_method = form_value r ''code_challenge_method''\<rparr>\<rparr>"
      by auto
    from resolveClientScope_ok [OF sc assms(2)] assms(3) show ?thesis
      by (simp add: s' i c u(1))
  qed
  with validateClientRedirectURL_Inr [OF v] u show ?thesis by blast
qed

definition demo_authorize :: http_request where
  "demo_authorize = \<lparr>hr_method = ''GET'', hr_form = Some [(''client_id'', ''cms''),
     (''redirect_uri'', ''https://a/cb''), (''response_type'', ''code''), (''state'', ''st''),
     (''scope'', ''write'')], hr_basic = None, hr_authorization = '''', hr_remote_addr = ''ip''\<rparr>"

theorem authorize_redirect_safe_witness:
  "\<exists>d. gget (sv_codes demo_s2) ''code'' = Some d \<and> ac_client_id d = ''cms'' \<and>
     ac_redirect_uri d = ''https://a/cb'' \<and> 0 < ac_expires_at d"
proof -
  have f: "form_value demo_authorize ''client_id'' = ''cms''"
    "form_value demo_authorize ''redirect_uri'' = ''https://a/cb''"
    "form_value demo_authorize ''response_type'' = ''code''"
    "form_value demo_authorize ''state'' = ''st''" "form_value demo_authorize ''scope'' = ''write''"
    "form_value demo_authorize ''code_challenge'' = ''''"
    "form_value demo_authorize ''code_challenge_method'' = ''''"
    "requestSourceIP demo_lib demo_authorize = ''ip''"
    by (simp_all add: form_value_def demo_authorize_def requestSourceIP_def)
  have v: "validateClientRedirectURL demo_lib demo_s1 ''cms'' ''https://a/cb'' = Inr demo_url"
    by (simp add: validateClientRedirectURL_def lookupClient_def
        demo_clients parse_absolute_def demo_trims demo_lib_def demo_url_def matchRedirectURI_def
        Let_def has_suffix_def normalizeRedirectURL_def)
  have u: "u_string demo_url = ''https://a/cb''" by (simp add: demo_url_def)
  have "redirectToRegisteredClient demo_lib demo_url ps = Redirect demo_url ps" for ps
    by (simp add: redirectToRegisteredClient_def demo_url_def)
  then have h: "HandleAuthorize demo_lib 0 (Some ''code'') demo_s1 demo_authorize =
      (demo_s2, Redirect demo_url [(''code'', ''code''), (''state'', ''st'')])"
    using demo_issue by (simp add: HandleAuthorize_def f v u demo_s2_def) (simp add: demo_authorize_def)
  have "clients_ok demo_s1" by (auto simp: clients_ok_def demo_clients client_ok_def)
  moreover have "0 < oc_auth_code_ttl (sv_cfg demo_s1)" by (simp add: demo_clients)
  ultimately show ?thesis
    using authorize_redirect_safe [OF h] by (simp add: f u) blast
qed

end
