(* ===== verification/Paths.thy ===== *)
theory Paths
  imports Prelude
begin

text \<open>
  The lexical path functions of packages path and path/filepath (on a Unix system, where they
  agree) that the sources call: \<open>Clean\<close>, \<open>Base\<close>, \<open>Dir\<close>, \<open>Join\<close> and \<open>IsAbs\<close>.
\<close>

definition is_abs :: "string \<Rightarrow> bool" where
  "is_abs p \<longleftrightarrow> p \<noteq> '''' \<and> hd p = CHR ''/''"

text \<open>One path element on the stack of elements kept so far, innermost first.\<close>

definition clean_elem :: "bool \<Rightarrow> string list \<Rightarrow> string \<Rightarrow> string list" where
  "clean_elem rooted acc seg =
     (if seg = '''' \<or> seg = ''.'' then acc
      else if seg = ''..'' then
        (case acc of
           [] \<Rightarrow> if rooted then [] else [''..'']
         | t # below \<Rightarrow> if t = ''..'' then ''..'' # acc else below)
      else seg # acc)"

definition clean_segs :: "string \<Rightarrow> string list" where
  "clean_segs p = rev (foldl (clean_elem (is_abs p)) [] (split_on CHR ''/'' p))"

definition path_clean :: "string \<Rightarrow> string" where
  "path_clean p =
     (let out = join_with ''/'' (clean_segs p)
      in if is_abs p then ''/'' @ out else if out = '''' then ''.'' else out)"

definition strip_slashes :: "string \<Rightarrow> string" where
  "strip_slashes p = rev (dropWhile (\<lambda>c. c = CHR ''/'') (rev p))"

definition path_base :: "string \<Rightarrow> string" where
  "path_base p =
     (if p = '''' then ''.''
      else (let q = strip_slashes p
            in if q = '''' then ''/'' else last (split_on CHR ''/'' q)))"

definition path_dir :: "string \<Rightarrow> string" where
  "path_dir p = path_clean (rev (dropWhile (\<lambda>c. c \<noteq> CHR ''/'') (rev p)))"

definition path_join :: "string list \<Rightarrow> string" where
  "path_join elems =
     (let es = filter (\<lambda>e. e \<noteq> '''') elems
      in if es = [] then '''' else path_clean (join_with ''/'' es))"

text \<open>\<open>filepath.Abs\<close>, with the working directory \<open>cwd\<close>.\<close>

definition path_abs :: "string \<Rightarrow> string \<Rightarrow> string" where
  "path_abs cwd p = (if is_abs p then path_clean p else path_join [cwd, p])"

text \<open>\<open>filepath.Rel\<close>: \<open>None\<close> is its error.\<close>

fun strip_common :: "string list \<Rightarrow> string list \<Rightarrow> string list \<times> string list" where
  "strip_common (b # bs) (t # ts) = (if b = t then strip_common bs ts else (b # bs, t # ts))"
| "strip_common [] ts = ([], ts)"
| "strip_common bs [] = (bs, [])"

definition path_rel :: "string \<Rightarrow> string \<Rightarrow> string option" where
  "path_rel base targ =
     (if is_abs base \<noteq> is_abs targ then None
      else (case strip_common (clean_segs base) (clean_segs targ) of
              (b, t) \<Rightarrow>
                if ''..'' \<in> set b then None
                else Some (let out = join_with ''/'' (replicate (length b) ''..'' @ t)
                           in if out = '''' then ''.'' else out)))"

lemma strip_common_append [simp]: "strip_common bs (bs @ ts) = ([], ts)"
  by (induction bs) simp_all

lemma strip_common_same [simp]: "strip_common bs bs = ([], [])"
  by (induction bs) simp_all

section \<open>Clean elements\<close>

text \<open>An element that survives cleaning: not empty, not a dot and without a slash.\<close>

definition plain_seg :: "string \<Rightarrow> bool" where
  "plain_seg s \<longleftrightarrow> s \<noteq> '''' \<and> s \<noteq> ''.'' \<and> s \<noteq> ''..'' \<and> CHR ''/'' \<notin> set s"

lemma clean_elem_plain [simp]: "plain_seg s \<Longrightarrow> clean_elem r acc s = s # acc"
  by (simp add: clean_elem_def plain_seg_def)

lemma clean_elem_skip [simp]: "clean_elem r acc '''' = acc" "clean_elem r acc ''.'' = acc"
  by (simp_all add: clean_elem_def)

definition kept_seg :: "string \<Rightarrow> bool" where
  "kept_seg s \<longleftrightarrow> s \<noteq> '''' \<and> s \<noteq> ''.'' \<and> CHR ''/'' \<notin> set s"

lemma clean_elem_kept:
  "list_all kept_seg acc \<Longrightarrow> CHR ''/'' \<notin> set seg \<Longrightarrow> list_all kept_seg (clean_elem r acc seg)"
  by (cases acc) (simp_all add: clean_elem_def kept_seg_def)

lemma clean_fold_kept:
  "list_all kept_seg acc \<Longrightarrow> (\<And>s. s \<in> set segs \<Longrightarrow> CHR ''/'' \<notin> set s) \<Longrightarrow>
     list_all kept_seg (foldl (clean_elem r) acc segs)"
  by (induction segs arbitrary: acc) (simp_all add: clean_elem_kept)

lemma clean_segs_kept: "s \<in> set (clean_segs p) \<Longrightarrow> kept_seg s"
proof -
  have "list_all kept_seg (foldl (clean_elem (is_abs p)) [] (split_on CHR ''/'' p))"
    by (rule clean_fold_kept) (simp, erule split_on_no_sep)
  then show "s \<in> set (clean_segs p) \<Longrightarrow> kept_seg s"
    by (simp add: clean_segs_def list_all_iff)
qed

text \<open>A rooted path loses every \<open>..\<close> when it is cleaned.\<close>

lemma clean_rooted_no_dotdot:
  "''..'' \<notin> set acc \<Longrightarrow> ''..'' \<notin> set (foldl (clean_elem True) acc segs)"
proof (induction segs arbitrary: acc)
  case (Cons s segs)
  have "''..'' \<notin> set (clean_elem True acc s)"
    using Cons.prems by (cases acc) (auto simp: clean_elem_def)
  then show ?case by (simp add: Cons.IH)
qed simp

lemma clean_segs_rooted: "is_abs p \<Longrightarrow> ''..'' \<notin> set (clean_segs p)"
  using clean_rooted_no_dotdot [of "[]"] by (simp add: clean_segs_def)

lemma clean_fold_plain:
  "list_all plain_seg segs \<Longrightarrow> foldl (clean_elem r) acc segs = rev segs @ acc"
  by (induction segs arbitrary: acc) simp_all

lemma clean_segs_snoc:
  assumes "a \<noteq> ''''" "plain_seg b"
  shows "clean_segs (a @ ''/'' @ b) = clean_segs a @ [b]"
proof -
  have "is_abs (a @ ''/'' @ b) = is_abs a" using assms(1) by (simp add: is_abs_def)
  moreover have "split_on CHR ''/'' (a @ ''/'' @ b) = split_on CHR ''/'' a @ [b]"
    using assms(2) by (simp add: split_on_append_sep plain_seg_def)
  ultimately show ?thesis using assms(2) by (simp add: clean_segs_def)
qed

lemma join_snoc:
  "join_with sep (xs @ [y]) = (if xs = [] then y else join_with sep xs @ sep @ y)"
  by (induction sep xs rule: join_with.induct) auto

lemma path_join2_inj:
  assumes "a \<noteq> ''''" "plain_seg x" "plain_seg y" "path_join [a, x] = path_join [a, y]"
  shows "x = y"
proof -
  have ne: "x \<noteq> ''''" "y \<noteq> ''''" using assms(2,3) by (auto simp: plain_seg_def)
  have "path_join [a, z] = (let out = join_with ''/'' (clean_segs a @ [z])
      in if is_abs a then ''/'' @ out else out)" if "plain_seg z" for z
  proof -
    have "join_with ''/'' (clean_segs a @ [z]) \<noteq> ''''"
      using that by (auto simp: join_snoc plain_seg_def)
    moreover have "is_abs (a @ ''/'' @ z) = is_abs a" using assms(1) by (simp add: is_abs_def)
    moreover have "z \<noteq> ''''" using that by (simp add: plain_seg_def)
    ultimately show ?thesis
      using assms(1) clean_segs_snoc [OF assms(1) that] by (simp add: path_join_def path_clean_def Let_def)
  qed
  with assms show ?thesis by (simp add: Let_def join_snoc split: if_splits)
qed

lemma path_base_plain:
  assumes "path_base p = p" "p \<noteq> ''/''" "p \<noteq> ''.''" "p \<noteq> ''..''"
  shows "plain_seg p"
proof -
  have "p \<noteq> ''''" using assms(1) by (auto simp: path_base_def)
  moreover have "strip_slashes p \<noteq> ''''"
    using assms(1,2) \<open>p \<noteq> ''''\<close> by (auto simp: path_base_def)
  ultimately have "p = last (split_on CHR ''/'' (strip_slashes p))"
    using assms(1) by (simp add: path_base_def Let_def)
  then have "CHR ''/'' \<notin> set p"
    by (metis last_in_set split_on_no_sep split_on_nonempty)
  with assms \<open>p \<noteq> ''''\<close> show ?thesis by (simp add: plain_seg_def)
qed

text \<open>Joining plain elements below a clean absolute directory.\<close>

lemma fold_skip_plain:
  "list_all (\<lambda>s. s = '''' \<or> plain_seg s) segs \<Longrightarrow>
     foldl (clean_elem r) acc segs = rev (filter plain_seg segs) @ acc"
  by (induction segs arbitrary: acc) (auto simp: plain_seg_def)

lemma clean_segs_below:
  assumes "a \<noteq> ''''" "list_all (\<lambda>s. s = '''' \<or> plain_seg s) (split_on CHR ''/'' b)"
  shows "clean_segs (a @ ''/'' @ b) = clean_segs a @ filter plain_seg (split_on CHR ''/'' b)"
proof -
  have "is_abs (a @ ''/'' @ b) = is_abs a" using assms(1) by (simp add: is_abs_def)
  moreover have "split_on CHR ''/'' (a @ ''/'' @ b) = split_on CHR ''/'' a @ split_on CHR ''/'' b"
    by (simp add: split_on_append_sep)
  ultimately show ?thesis using assms(2) by (simp add: clean_segs_def fold_skip_plain)
qed

lemma join_append:
  "xs \<noteq> [] \<Longrightarrow> ys \<noteq> [] \<Longrightarrow> join_with sep (xs @ ys) = join_with sep xs @ sep @ join_with sep ys"
proof (induction sep xs rule: join_with.induct)
  case (2 sep x)
  then show ?case by (cases ys) auto
qed auto

lemma clean_root_segs:
  assumes "is_abs root" "path_clean root = root" "root \<noteq> ''/''"
  shows "clean_segs root \<noteq> []" "root = ''/'' @ join_with ''/'' (clean_segs root)"
  using assms by (auto simp: path_clean_def Let_def)

section \<open>Cleaning twice, and the last element\<close>

lemma clean_fold_shape:
  assumes "list_all plain_seg ps" "r \<longrightarrow> k = 0" "\<And>s. s \<in> set segs \<Longrightarrow> CHR ''/'' \<notin> set s"
  shows "\<exists>ps' k'. foldl (clean_elem r) (ps @ replicate k ''..'') segs = ps' @ replicate k' ''..'' \<and>
           list_all plain_seg ps' \<and> (r \<longrightarrow> k' = 0)"
  using assms
proof (induction segs arbitrary: ps k)
  case (Cons s segs)
  have seg: "CHR ''/'' \<notin> set s" using Cons.prems(3) by simp
  have "\<exists>ps' k'. clean_elem r (ps @ replicate k ''..'') s = ps' @ replicate k' ''..'' \<and>
           list_all plain_seg ps' \<and> (r \<longrightarrow> k' = 0)"
  proof (cases "s = ''..''")
    case True
    show ?thesis
    proof (cases ps)
      case Nil
      have "clean_elem r (replicate k ''..'') ''..'' = (if r then [] else replicate (Suc k) ''..'')"
        using Cons.prems(2) by (cases k) (simp_all add: clean_elem_def)
      then have "clean_elem r (ps @ replicate k ''..'') s = [] @ replicate (if r then 0 else Suc k) ''..''"
        using True Nil by simp
      then show ?thesis by (intro exI [of _ "[]"] exI [of _ "if r then 0 else Suc k"]) simp
    next
      case (Cons p qs)
      moreover have "p \<noteq> ''..''" using Cons.prems(1) Cons by (simp add: plain_seg_def)
      ultimately have "clean_elem r (ps @ replicate k ''..'') s = qs @ replicate k ''..'' \<and> list_all plain_seg qs"
        using True Cons.prems(1) by (simp add: clean_elem_def)
      then show ?thesis using Cons.prems(2) by blast
    qed
  next
    case False
    show ?thesis
    proof (cases "s = '''' \<or> s = ''.''")
      case True
      then have "clean_elem r (ps @ replicate k ''..'') s = ps @ replicate k ''..''" by auto
      then show ?thesis using Cons.prems(1,2) by blast
    next
      case other: False
      then have "plain_seg s" using False seg by (simp add: plain_seg_def)
      then have "clean_elem r (ps @ replicate k ''..'') s = (s # ps) @ replicate k ''..'' \<and> list_all plain_seg (s # ps)"
        using Cons.prems(1) by simp
      then show ?thesis using Cons.prems(2) by blast
    qed
  qed
  then obtain ps' k' where "clean_elem r (ps @ replicate k ''..'') s = ps' @ replicate k' ''..''"
    "list_all plain_seg ps'" "r \<longrightarrow> k' = 0" by blast
  then show ?case using Cons.IH [of ps' k'] Cons.prems(3) by simp
qed auto

lemma clean_segs_shape:
  "\<exists>k ps. clean_segs p = replicate k ''..'' @ ps \<and> list_all plain_seg ps \<and> (is_abs p \<longrightarrow> k = 0)"
proof -
  have "\<And>s. s \<in> set (split_on CHR ''/'' p) \<Longrightarrow> CHR ''/'' \<notin> set s" by (erule split_on_no_sep)
  then have "\<exists>ps k. foldl (clean_elem (is_abs p)) ([] @ replicate 0 ''..'') (split_on CHR ''/'' p) = ps @ replicate k ''..'' \<and>
      list_all plain_seg ps \<and> (is_abs p \<longrightarrow> k = 0)"
    by (intro clean_fold_shape) simp_all
  then obtain ps k where
    "foldl (clean_elem (is_abs p)) [] (split_on CHR ''/'' p) = ps @ replicate k ''..''"
    "list_all plain_seg ps" "is_abs p \<longrightarrow> k = 0" by auto
  then have "clean_segs p = replicate k ''..'' @ rev ps" "list_all plain_seg (rev ps)"
    by (simp_all add: clean_segs_def)
  then show ?thesis using \<open>is_abs p \<longrightarrow> k = 0\<close> by blast
qed

lemma clean_fold_dotdots: "foldl (clean_elem False) (replicate j ''..'') (replicate k ''..'') = replicate (j + k) ''..''"
proof (induction k arbitrary: j)
  case (Suc k)
  have "clean_elem False (replicate j ''..'') ''..'' = replicate (Suc j) ''..''"
    by (cases j) (simp_all add: clean_elem_def)
  then show ?case using Suc.IH [of "Suc j"] by simp
qed simp

lemma join_kept:
  assumes "xs \<noteq> []" "\<And>s. s \<in> set xs \<Longrightarrow> kept_seg s"
  shows "join_with sep xs \<noteq> '''' \<and> hd (join_with sep xs) \<noteq> CHR ''/''"
proof -
  obtain x ys where xs: "xs = x # ys" using assms(1) by (cases xs) auto
  then have "kept_seg x" using assms(2) by simp
  then obtain c cs where "x = c # cs" "c \<noteq> CHR ''/''" by (cases x) (auto simp: kept_seg_def)
  then show ?thesis using xs by (cases ys) auto
qed

lemma clean_segs_idem [simp]: "clean_segs (path_clean p) = clean_segs p"
proof -
  obtain k ps where shape: "clean_segs p = replicate k ''..'' @ ps" "list_all plain_seg ps" "is_abs p \<longrightarrow> k = 0"
    using clean_segs_shape by blast
  let ?cs = "clean_segs p"
  have kept: "\<And>s. s \<in> set ?cs \<Longrightarrow> kept_seg s" by (rule clean_segs_kept)
  have sp: "split_on CHR ''/'' (join_with ''/'' ?cs) = (if ?cs = [] then [''''] else ?cs)"
    using split_join [of ?cs "CHR ''/''"] kept by (auto simp: kept_seg_def)
  show ?thesis
  proof (cases "is_abs p")
    case True
    then have "path_clean p = ''/'' @ join_with ''/'' ?cs" by (simp add: path_clean_def Let_def)
    then have "is_abs (path_clean p)"
      "split_on CHR ''/'' (path_clean p) = '''' # split_on CHR ''/'' (join_with ''/'' ?cs)"
      by (simp_all add: is_abs_def)
    moreover have "list_all plain_seg ?cs" using shape True by simp
    ultimately show ?thesis using sp clean_fold_plain [of ?cs True "[]"]
      by (cases "?cs = []") (simp_all add: clean_segs_def [of "path_clean p"])
  next
    case False
    have "?cs \<noteq> [] \<Longrightarrow> join_with ''/'' ?cs \<noteq> '''' \<and> hd (join_with ''/'' ?cs) \<noteq> CHR ''/''"
      by (erule join_kept) (rule kept)
    then have "?cs = [] \<or> join_with ''/'' ?cs \<noteq> '''' \<and> hd (join_with ''/'' ?cs) \<noteq> CHR ''/''" by blast
    then have path: "path_clean p = (if ?cs = [] then ''.'' else join_with ''/'' ?cs)" "\<not> is_abs (path_clean p)"
      using False by (auto simp: path_clean_def is_abs_def Let_def)
    have "foldl (clean_elem False) [] ?cs = rev ?cs"
      using clean_fold_dotdots [of 0 k] shape(2) by (simp add: shape(1) clean_fold_plain)
    moreover have "split_on CHR ''/'' (path_clean p) = (if ?cs = [] then [''.''] else ?cs)"
      using path(1) sp by simp
    ultimately show ?thesis using path(2) by (cases "?cs = []") (simp_all add: clean_segs_def [of "path_clean p"])
  qed
qed

lemma is_abs_path_clean [simp]: "is_abs (path_clean p) = is_abs p"
proof (cases "is_abs p")
  case False
  have "clean_segs p = [] \<or> hd (join_with ''/'' (clean_segs p)) \<noteq> CHR ''/''"
    using join_kept [of "clean_segs p" "''/''"] clean_segs_kept by blast
  then show ?thesis using False by (auto simp: path_clean_def is_abs_def Let_def)
qed (auto simp: path_clean_def is_abs_def Let_def)

lemma path_join2:
  assumes "a \<noteq> ''''" "plain_seg b"
  shows "clean_segs (path_join [a, b]) = clean_segs a @ [b]" "is_abs (path_join [a, b]) = is_abs a"
    "path_join [a, b] \<noteq> ''''" "path_join [a, b] = path_clean (a @ ''/'' @ b)"
proof -
  have b: "b \<noteq> ''''" using assms(2) by (simp add: plain_seg_def)
  show j: "path_join [a, b] = path_clean (a @ ''/'' @ b)" using assms(1) b by (simp add: path_join_def)
  show "clean_segs (path_join [a, b]) = clean_segs a @ [b]" using clean_segs_snoc [OF assms] j by simp
  have "is_abs (a @ ''/'' @ b) = is_abs a" using assms(1) by (simp add: is_abs_def)
  then show "is_abs (path_join [a, b]) = is_abs a" unfolding j by simp
  show "path_join [a, b] \<noteq> ''''" unfolding j by (auto simp: path_clean_def Let_def)
qed

end
