(* ===== verification/PreviewStore.thy ===== *)
theory PreviewStore
  imports Paths
begin

text \<open>
  The preview store \<open>internal/previewstore/store.go\<close> and the preview-lease table of
  \<open>internal/db/db.go\<close>. An entry is stored by value; the file system below the managed root is the
  map of its existing paths (true for a directory). The lease table is \<open>None\<close> for a store without
  a database. Database faults are predicates on the preview id of the failing statement; each
  operation reads the clock once.
\<close>

section \<open>State\<close>

record entry =
  en_dir :: string
  en_token :: string
  en_session_token :: string
  en_expires_at :: time
  en_build_status :: string
  en_created_at :: time
  en_owner :: string
  en_recovered :: bool
  en_session_activated :: bool

record preview_lease =
  le_owner :: string
  le_dir_name :: string
  le_build_status :: string
  le_state :: string
  le_created_at :: time
  le_expires_at :: time

record pstore =
  ps_entries :: "(string, entry) gomap"
  ps_leases :: "(string, preview_lease) gomap option"
  ps_root :: string
  ps_disk :: "(string, bool) gomap"

record snapshot =
  sn_id :: string
  sn_expires_at :: time
  sn_build_status :: string
  sn_created_at :: time
  sn_owner :: string
  sn_access_status :: string

record reconcile_report =
  rr_restored :: nat
  rr_expired :: nat
  rr_missing :: nat
  rr_unsafe :: nat
  rr_orphans_removed :: nat

datatype lookup_status = LookupActive | LookupMissing | LookupExpired

definition remove_all :: "string \<Rightarrow> pstore \<Rightarrow> pstore" where
  "remove_all dir s = s\<lparr>ps_disk := gdel (ps_disk s) dir\<rparr>"

section \<open>internal/db/db.go: preview leases\<close>

definition PutPreviewLease ::
    "bool \<Rightarrow> (string, preview_lease) gomap \<Rightarrow> string \<Rightarrow> preview_lease \<Rightarrow>
     (string, preview_lease) gomap \<times> string option" where
  "PutPreviewLease fails t lid lease0 =
     (if blank lid \<or> blank (le_dir_name lease0)
      then (t, Some ''preview lease: preview_id and dir_name are required'')
      else if le_created_at lease0 = zero_time \<or> le_expires_at lease0 = zero_time
        then (t, Some ''preview lease: creation and expiry timestamps are required'')
      else
        (let lease = (if le_state lease0 = '''' then lease0\<lparr>le_state := ''active''\<rparr> else lease0)
         in if fails then (t, Some ''exec'') else (gput t lid lease, None)))"

definition DeletePreviewLease ::
    "bool \<Rightarrow> (string, preview_lease) gomap \<Rightarrow> string \<Rightarrow> (string, preview_lease) gomap \<times> string option" where
  "DeletePreviewLease fails t lid = (if fails then (t, Some ''exec'') else (gdel t lid, None))"

definition DeletePreviewLeasesByOwner ::
    "bool \<Rightarrow> (string, preview_lease) gomap \<Rightarrow> string \<Rightarrow> (string, preview_lease) gomap \<times> string option" where
  "DeletePreviewLeasesByOwner fails t owner =
     (if fails then (t, Some ''exec'')
      else if owner = '''' then ([], None)
      else (gkeep (\<lambda>k le. le_owner le \<noteq> owner) t, None))"

section \<open>Registration and reconciliation\<close>

definition safeDirName :: "string \<Rightarrow> bool" where
  "safeDirName name \<longleftrightarrow>
     name = path_base name \<and> has_prefix ''mcp-preview-'' name \<and> name \<noteq> ''mcp-preview-''"

definition persistedLease :: "string \<Rightarrow> pstore \<Rightarrow> string \<Rightarrow> entry \<Rightarrow> preview_lease go" where
  "persistedLease cwd s pid e =
     (if blank pid then Inl ''preview store: nil entry or empty id''
      else
        (let dir = path_abs cwd (en_dir e); root = path_clean (ps_root s)
         in if path_dir dir \<noteq> root \<or> \<not> safeDirName (path_base dir)
            then Inl ''preview store: directory is outside the managed preview root''
            else Inr \<lparr>le_owner = en_owner e, le_dir_name = path_base dir,
                      le_build_status = en_build_status e, le_state = ''active'',
                      le_created_at = en_created_at e, le_expires_at = en_expires_at e\<rparr>))"

definition Put :: "string \<Rightarrow> bool \<Rightarrow> time \<Rightarrow> pstore \<Rightarrow> string \<Rightarrow> entry \<Rightarrow> pstore \<times> string option" where
  "Put cwd fails now s pid e0 =
     (let e = (if en_created_at e0 = zero_time then e0\<lparr>en_created_at := now\<rparr> else e0)
      in (case ps_leases s of
            None \<Rightarrow> (s\<lparr>ps_entries := gput (ps_entries s) pid e\<rparr>, None)
          | Some t \<Rightarrow>
              (case persistedLease cwd s pid e of
                 Inl err \<Rightarrow> (s, Some err)
               | Inr lease \<Rightarrow>
                   (case PutPreviewLease fails t pid lease of
                      (t', Some err) \<Rightarrow> (s\<lparr>ps_leases := Some t'\<rparr>, Some ''preview store: persist lease'')
                    | (t', None) \<Rightarrow>
                        (s\<lparr>ps_leases := Some t', ps_entries := gput (ps_entries s) pid e\<rparr>, None)))))"

definition recovered_entry :: "string \<Rightarrow> preview_lease \<Rightarrow> entry" where
  "recovered_entry dir lease =
     \<lparr>en_dir = dir, en_token = '''', en_session_token = '''', en_expires_at = le_expires_at lease,
      en_build_status = le_build_status lease, en_created_at = le_created_at lease,
      en_owner = le_owner lease, en_recovered = True, en_session_activated = False\<rparr>"

text \<open>One lease of the startup scan; \<open>active\<close> collects the directory names restored so far.\<close>

definition reconcile_lease ::
    "(string \<Rightarrow> bool) \<Rightarrow> time \<Rightarrow> pstore \<Rightarrow> string list \<Rightarrow> reconcile_report \<Rightarrow> string \<times> preview_lease \<Rightarrow>
     pstore \<times> string list \<times> reconcile_report \<times> string option" where
  "reconcile_lease fails now s active report kv =
     (case kv of (lid, lease) \<Rightarrow>
        (let dir = path_join [ps_root s, le_dir_name lease];
             t = (case ps_leases s of None \<Rightarrow> [] | Some t \<Rightarrow> t)
         in if \<not> safeDirName (le_dir_name lease) \<or> blank lid then
              (let report = report\<lparr>rr_unsafe := rr_unsafe report + 1\<rparr>
               in (case DeletePreviewLease (fails lid) t lid of
                     (t', err) \<Rightarrow> (s\<lparr>ps_leases := Some t'\<rparr>, active, report, err)))
            else if \<not> le_expires_at lease > now then
              (let report = report\<lparr>rr_expired := rr_expired report + 1\<rparr>
               in (case DeletePreviewLease (fails lid) t lid of
                     (t', Some err) \<Rightarrow> (s\<lparr>ps_leases := Some t'\<rparr>, active, report, Some err)
                   | (t', None) \<Rightarrow>
                       (remove_all dir (s\<lparr>ps_leases := Some t'\<rparr>), active, report, None)))
            else if gget (ps_disk s) dir \<noteq> Some True then
              (let report = report\<lparr>rr_missing := rr_missing report + 1\<rparr>
               in (case DeletePreviewLease (fails lid) t lid of
                     (t', err) \<Rightarrow> (s\<lparr>ps_leases := Some t'\<rparr>, active, report, err)))
            else
              (s\<lparr>ps_entries := gput (ps_entries s) lid (recovered_entry dir lease)\<rparr>,
               le_dir_name lease # active, report\<lparr>rr_restored := rr_restored report + 1\<rparr>, None)))"

fun reconcile_leases ::
    "(string \<Rightarrow> bool) \<Rightarrow> time \<Rightarrow> pstore \<Rightarrow> string list \<Rightarrow> reconcile_report \<Rightarrow>
     (string \<times> preview_lease) list \<Rightarrow> pstore \<times> string list \<times> reconcile_report \<times> string option" where
  "reconcile_leases fails now s active report [] = (s, active, report, None)"
| "reconcile_leases fails now s active report (kv # kvs) =
     (case reconcile_lease fails now s active report kv of
        (s', active', report', Some err) \<Rightarrow> (s', active', report', Some err)
      | (s', active', report', None) \<Rightarrow> reconcile_leases fails now s' active' report' kvs)"

text \<open>\<open>os.ReadDir(root)\<close>: the names directly below the root, with their kind.\<close>

definition read_dir :: "pstore \<Rightarrow> (string \<times> bool) list" where
  "read_dir s = map (\<lambda>(p, d). (path_base p, d)) (filter (\<lambda>(p, d). path_dir p = ps_root s) (ps_disk s))"

fun remove_orphans ::
    "(string \<Rightarrow> bool) \<Rightarrow> pstore \<Rightarrow> string list \<Rightarrow> reconcile_report \<Rightarrow> (string \<times> bool) list \<Rightarrow>
     pstore \<times> reconcile_report \<times> string option" where
  "remove_orphans rm_fails s active report [] = (s, report, None)"
| "remove_orphans rm_fails s active report ((name, is_dir) # es) =
     (if \<not> is_dir \<or> \<not> safeDirName name then remove_orphans rm_fails s active report es
      else if name \<in> set active then remove_orphans rm_fails s active report es
      else if rm_fails name then (s, report, Some ''preview store: remove orphan'')
      else remove_orphans rm_fails (remove_all (path_join [ps_root s, name]) s) active
             (report\<lparr>rr_orphans_removed := rr_orphans_removed report + 1\<rparr>) es)"

definition empty_report :: reconcile_report where
  "empty_report = \<lparr>rr_restored = 0, rr_expired = 0, rr_missing = 0, rr_unsafe = 0, rr_orphans_removed = 0\<rparr>"

definition reconcile ::
    "(string \<Rightarrow> bool) \<Rightarrow> (string \<Rightarrow> bool) \<Rightarrow> time \<Rightarrow> pstore \<Rightarrow> pstore \<times> reconcile_report \<times> string option" where
  "reconcile fails rm_fails now s =
     (case reconcile_leases fails now s [] empty_report
             (case ps_leases s of None \<Rightarrow> [] | Some t \<Rightarrow> t) of
        (s1, active, report, Some err) \<Rightarrow> (s1, report, Some err)
      | (s1, active, report, None) \<Rightarrow> remove_orphans rm_fails s1 active report (read_dir s1))"

text \<open>A new store on the leases \<open>t\<close> and the disk a previous process left.\<close>

definition NewPersistent ::
    "(string \<Rightarrow> bool) \<Rightarrow> (string \<Rightarrow> bool) \<Rightarrow> time \<Rightarrow> (string, preview_lease) gomap option \<Rightarrow>
     (string, bool) gomap \<Rightarrow> string \<Rightarrow> (pstore \<times> reconcile_report) go" where
  "NewPersistent fails rm_fails now t disk root0 =
     (let s = \<lparr>ps_entries = [], ps_leases = None, ps_root = '''', ps_disk = disk\<rparr>
      in (case t of
            None \<Rightarrow> Inr (s, empty_report)
          | Some leases \<Rightarrow>
              (let root = path_clean root0
               in if root = '''' \<or> \<not> is_abs root then Inl ''preview store: root must be absolute''
                  else (case reconcile fails rm_fails now (s\<lparr>ps_leases := Some leases, ps_root := root\<rparr>) of
                          (s', report, Some err) \<Rightarrow> Inl err
                        | (s', report, None) \<Rightarrow> Inr (s', report)))))"

section \<open>Access\<close>

definition deleteLease :: "(string \<Rightarrow> bool) \<Rightarrow> pstore \<Rightarrow> string \<Rightarrow> pstore \<times> string option" where
  "deleteLease fails s pid =
     (case ps_leases s of
        None \<Rightarrow> (s, None)
      | Some t \<Rightarrow> (case DeletePreviewLease (fails pid) t pid of
                     (t', err) \<Rightarrow> (s\<lparr>ps_leases := Some t'\<rparr>, err)))"

definition removeExpired :: "(string \<Rightarrow> bool) \<Rightarrow> pstore \<Rightarrow> string \<Rightarrow> pstore \<times> bool" where
  "removeExpired fails s pid =
     (case deleteLease fails s pid of
        (s1, Some err) \<Rightarrow> (s1, False)
      | (s1, None) \<Rightarrow> (s1\<lparr>ps_entries := gdel (ps_entries s1) pid\<rparr>, True))"

definition Lookup ::
    "(string \<Rightarrow> bool) \<Rightarrow> time \<Rightarrow> pstore \<Rightarrow> string \<Rightarrow> pstore \<times> entry option \<times> lookup_status" where
  "Lookup fails now s pid =
     (case gget (ps_entries s) pid of
        None \<Rightarrow> (s, None, LookupMissing)
      | Some e \<Rightarrow>
          if now > en_expires_at e then
            (case removeExpired fails s pid of
               (s1, removed) \<Rightarrow>
                 (if removed then remove_all (en_dir e) s1 else s1, None, LookupExpired))
          else (s, Some e, LookupActive))"

definition GetByToken ::
    "(string \<Rightarrow> bool) \<Rightarrow> time \<Rightarrow> pstore \<Rightarrow> string \<Rightarrow> string \<Rightarrow> pstore \<times> entry option" where
  "GetByToken fails now s pid token =
     (case Lookup fails now s pid of
        (s1, None, st) \<Rightarrow> (s1, None)
      | (s1, Some e, st) \<Rightarrow> if en_token e \<noteq> token then (s1, None) else (s1, Some e))"

definition GetBySession ::
    "(string \<Rightarrow> bool) \<Rightarrow> time \<Rightarrow> pstore \<Rightarrow> string \<Rightarrow> string \<Rightarrow> pstore \<times> entry option" where
  "GetBySession fails now s pid sessionToken =
     (case Lookup fails now s pid of
        (s1, None, st) \<Rightarrow> (s1, None)
      | (s1, Some e, st) \<Rightarrow>
          if en_session_token e \<noteq> sessionToken then (s1, None)
          else (let e' = e\<lparr>en_session_activated := True\<rparr>
                in (s1\<lparr>ps_entries := gput (ps_entries s1) pid e'\<rparr>, Some e')))"

definition EstablishSession ::
    "(string \<Rightarrow> bool) \<Rightarrow> time \<Rightarrow> string option \<Rightarrow> pstore \<Rightarrow> string \<Rightarrow> string \<Rightarrow>
     pstore \<times> (entry \<times> string) option" where
  "EstablishSession fails now rnd s pid token =
     (case Lookup fails now s pid of
        (s1, None, st) \<Rightarrow> (s1, None)
      | (s1, Some e, st) \<Rightarrow>
          if en_token e \<noteq> token then (s1, None)
          else if en_session_token e \<noteq> '''' \<and> en_session_activated e then (s1, None)
          else if en_session_token e = '''' then
            (case rnd of
               None \<Rightarrow> (s1, None)
             | Some sessionToken \<Rightarrow>
                 (let e' = e\<lparr>en_session_token := sessionToken\<rparr>
                  in (s1\<lparr>ps_entries := gput (ps_entries s1) pid e'\<rparr>, Some (e', sessionToken))))
          else (s1, Some (e, en_session_token e)))"

definition ResetSessionForProbe :: "pstore \<Rightarrow> string \<Rightarrow> pstore \<times> bool" where
  "ResetSessionForProbe s pid =
     (case gget (ps_entries s) pid of
        None \<Rightarrow> (s, False)
      | Some e \<Rightarrow>
          (s\<lparr>ps_entries := gput (ps_entries s) pid
             (e\<lparr>en_session_token := '''', en_session_activated := False\<rparr>)\<rparr>, True))"

section \<open>Sweeping, listing, revoking\<close>

text \<open>
  The sweep visits the entries in the order of the list; a failing lease deletion stops it, and the
  directories collected so far are then not removed.
\<close>

fun sweep_entries ::
    "(string \<Rightarrow> bool) \<Rightarrow> time \<Rightarrow> pstore \<Rightarrow> (string \<times> entry) list \<Rightarrow> string list \<Rightarrow>
     pstore \<times> string list \<times> string option" where
  "sweep_entries fails now s [] dirs = (s, dirs, None)"
| "sweep_entries fails now s ((pid, e) # es) dirs =
     (if now > en_expires_at e then
        (case deleteLease fails s pid of
           (s1, Some err) \<Rightarrow> (s1, dirs, Some ''preview store: expire'')
         | (s1, None) \<Rightarrow>
             sweep_entries fails now (s1\<lparr>ps_entries := gdel (ps_entries s1) pid\<rparr>) es (dirs @ [en_dir e]))
      else sweep_entries fails now s es dirs)"

definition SweepPersistent :: "(string \<Rightarrow> bool) \<Rightarrow> time \<Rightarrow> pstore \<Rightarrow> pstore \<times> string option" where
  "SweepPersistent fails now s =
     (case sweep_entries fails now s (ps_entries s) [] of
        (s1, dirs, Some err) \<Rightarrow> (s1, Some err)
      | (s1, dirs, None) \<Rightarrow> (foldl (\<lambda>s d. remove_all d s) s1 dirs, None))"

definition previewAccessStatus :: "entry \<Rightarrow> string" where
  "previewAccessStatus e = (if en_recovered e then ''restart_invalidated'' else ''active'')"

definition snapshot_of :: "string \<Rightarrow> entry \<Rightarrow> snapshot" where
  "snapshot_of pid e =
     \<lparr>sn_id = pid, sn_expires_at = en_expires_at e, sn_build_status = en_build_status e,
      sn_created_at = en_created_at e, sn_owner = en_owner e,
      sn_access_status = previewAccessStatus e\<rparr>"

fun list_entries ::
    "(string \<Rightarrow> bool) \<Rightarrow> time \<Rightarrow> string \<Rightarrow> pstore \<Rightarrow> (string \<times> entry) list \<Rightarrow> string list \<Rightarrow>
     snapshot list \<Rightarrow> pstore \<times> string list \<times> snapshot list" where
  "list_entries fails now owner s [] dirs out = (s, dirs, out)"
| "list_entries fails now owner s ((pid, e) # es) dirs out =
     (if now > en_expires_at e then
        (case deleteLease fails s pid of
           (s1, None) \<Rightarrow>
             list_entries fails now owner (s1\<lparr>ps_entries := gdel (ps_entries s1) pid\<rparr>) es
               (dirs @ [en_dir e]) out
         | (s1, Some err) \<Rightarrow> list_entries fails now owner s1 es dirs out)
      else if owner \<noteq> '''' \<and> en_owner e \<noteq> owner then list_entries fails now owner s es dirs out
      else list_entries fails now owner s es dirs (out @ [snapshot_of pid e]))"

text \<open>\<open>List\<close> is \<open>ListOwned\<close> with the empty owner, as in the code.\<close>

definition ListOwned :: "(string \<Rightarrow> bool) \<Rightarrow> time \<Rightarrow> pstore \<Rightarrow> string \<Rightarrow> pstore \<times> snapshot list" where
  "ListOwned fails now s owner =
     (case list_entries fails now owner s (ps_entries s) [] [] of
        (s1, dirs, out) \<Rightarrow> (foldl (\<lambda>s d. remove_all d s) s1 dirs, out))"

definition CountByOwner :: "time \<Rightarrow> pstore \<Rightarrow> string \<Rightarrow> nat" where
  "CountByOwner now s owner =
     length (filter (\<lambda>(pid, e). \<not> now > en_expires_at e \<and> en_owner e = owner) (ps_entries s))"

definition ActiveDirs :: "time \<Rightarrow> pstore \<Rightarrow> string set" where
  "ActiveDirs now s =
     set (map (\<lambda>(pid, e). en_dir e)
       (filter (\<lambda>(pid, e). en_dir e \<noteq> '''' \<and> \<not> now > en_expires_at e) (ps_entries s)))"

definition RevokeOwnedPersistent ::
    "(string \<Rightarrow> bool) \<Rightarrow> pstore \<Rightarrow> string \<Rightarrow> string \<Rightarrow> pstore \<times> bool go" where
  "RevokeOwnedPersistent fails s pid owner =
     (case gget (ps_entries s) pid of
        None \<Rightarrow> (s, Inr False)
      | Some e \<Rightarrow>
          if owner \<noteq> '''' \<and> en_owner e \<noteq> owner then (s, Inr False)
          else
            (case deleteLease fails s pid of
               (s1, Some err) \<Rightarrow> (s1, Inl ''preview store: revoke lease'')
             | (s1, None) \<Rightarrow>
                 (remove_all (en_dir e) (s1\<lparr>ps_entries := gdel (ps_entries s1) pid\<rparr>), Inr True)))"

definition RevokeAllOwnedPersistent :: "bool \<Rightarrow> pstore \<Rightarrow> string \<Rightarrow> pstore \<times> nat go" where
  "RevokeAllOwnedPersistent fails s owner =
     (let chosen = filter (\<lambda>(pid, e). \<not> (owner \<noteq> '''' \<and> en_owner e \<noteq> owner)) (ps_entries s);
          finish = (\<lambda>s1. (foldl (\<lambda>s (pid, e). remove_all (en_dir e) s)
             (s1\<lparr>ps_entries := gkeep (\<lambda>pid e. pid \<notin> set (map fst chosen)) (ps_entries s1)\<rparr>) chosen,
             Inr (length chosen)))
      in (case ps_leases s of
            None \<Rightarrow> finish s
          | Some t \<Rightarrow>
              (case DeletePreviewLeasesByOwner fails t owner of
                 (t', Some err) \<Rightarrow> (s\<lparr>ps_leases := Some t'\<rparr>, Inl ''preview store: bulk revoke leases'')
               | (t', None) \<Rightarrow> finish (s\<lparr>ps_leases := Some t'\<rparr>))))"

section \<open>The HTTP handler\<close>

definition CleanPath :: "string \<Rightarrow> string \<Rightarrow> string" where
  "CleanPath pid0 assetPath0 =
     (let pid = trim_space pid0;
          assetPath = trim_prefix ''/'' (trim_space assetPath0)
      in if assetPath = '''' then ''/preview/'' @ pid @ ''/''
         else (let cleaned = path_clean assetPath;
                   cleaned = (if has_suffix ''/'' assetPath \<and> cleaned \<noteq> ''.'' then cleaned @ ''/'' else cleaned)
               in ''/preview/'' @ pid @ ''/'' @ cleaned))"

text \<open>\<open>strings.SplitN(rest, "/", 3)\<close>.\<close>

definition split_path3 :: "string \<Rightarrow> string list" where
  "split_path3 rest =
     (case cut_on CHR ''/'' rest of
        (a, r, False) \<Rightarrow> [a]
      | (a, r, True) \<Rightarrow>
          (case cut_on CHR ''/'' r of (b, r', False) \<Rightarrow> [a, b] | (b, r', True) \<Rightarrow> [a, b, r']))"

datatype preview_response =
    PNotFound
  | PGone
  | PRedirect string "(string \<times> time) option"
  | PServe string

text \<open>
  \<open>cookie\<close> is the value of the cookie named for a preview id, \<open>None\<close> when the request has none. A
  redirect carries the session cookie it sets, with its expiry; \<open>PServe\<close> serves files from a
  directory. A client that reaches \<open>PGone\<close> gets 404 with the text "preview not found or expired".
\<close>

definition HTTPHandler ::
    "(string \<Rightarrow> bool) \<Rightarrow> time \<Rightarrow> string option \<Rightarrow> pstore \<Rightarrow> string \<Rightarrow> (string \<Rightarrow> string option) \<Rightarrow>
     pstore \<times> preview_response" where
  "HTTPHandler fails now rnd s urlPath cookie =
     (let parts = split_path3 (trim_prefix ''/preview/'' urlPath); pid = parts ! 0
      in if pid = '''' then (s, PNotFound)
         else
           (let target = (if length parts = 3 \<and> parts ! 2 \<noteq> '''' then CleanPath pid (parts ! 2)
                          else CleanPath pid '''');
                session = (case cookie pid of
                             None \<Rightarrow> (s, None)
                           | Some c \<Rightarrow> if blank c then (s, None) else GetBySession fails now s pid c)
            in (case session of
                  (s1, Some e) \<Rightarrow>
                    if length parts \<ge> 2 \<and> parts ! 1 \<noteq> '''' \<and> en_token e = parts ! 1
                    then (s1, PRedirect target None)
                    else (s1, PServe (en_dir e))
                | (s1, None) \<Rightarrow>
                    if length parts \<ge> 2 \<and> parts ! 1 \<noteq> '''' then
                      (case EstablishSession fails now rnd s1 pid (parts ! 1) of
                         (s2, Some (e, sessionToken)) \<Rightarrow>
                           (s2, PRedirect target (Some (sessionToken, en_expires_at e)))
                       | (s2, None) \<Rightarrow> (s2, PGone))
                    else (s1, PGone))))"

section \<open>What each operation does to the entries\<close>

lemma deleteLease_entries [simp]: "ps_entries (fst (deleteLease fails s pid)) = ps_entries s"
  by (simp add: deleteLease_def split: option.split prod.split)

lemma remove_all_entries [simp]: "ps_entries (remove_all d s) = ps_entries s"
  by (simp add: remove_all_def)

lemma remove_dirs_entries [simp]: "ps_entries (foldl (\<lambda>s d. remove_all d s) s ds) = ps_entries s"
  by (induction ds arbitrary: s) simp_all

lemma removeExpired_entries:
  "ps_entries (fst (removeExpired fails s pid)) \<in> {ps_entries s, gdel (ps_entries s) pid}"
proof -
  obtain s1 err where d: "deleteLease fails s pid = (s1, err)" by fastforce
  then have "ps_entries s1 = ps_entries s" using deleteLease_entries by (metis fst_conv)
  with d show ?thesis by (simp add: removeExpired_def split: option.split)
qed

lemma Lookup_result:
  assumes "Lookup fails now s pid = (s1, r, st)"
  shows "ps_entries s1 \<in> {ps_entries s, gdel (ps_entries s) pid}"
    "r = Some e \<Longrightarrow> s1 = s \<and> gget (ps_entries s) pid = Some e \<and> now \<le> en_expires_at e"
proof -
  obtain s2 b where x: "removeExpired fails s pid = (s2, b)" by fastforce
  with removeExpired_entries [of fails s pid] have i: "ps_entries s2 \<in> {ps_entries s, gdel (ps_entries s) pid}"
    by simp
  with assms x show "ps_entries s1 \<in> {ps_entries s, gdel (ps_entries s) pid}"
    by (auto simp: Lookup_def split: option.splits if_splits)
  show "r = Some e \<Longrightarrow> s1 = s \<and> gget (ps_entries s) pid = Some e \<and> now \<le> en_expires_at e"
    using assms x by (auto simp: Lookup_def not_less split: option.splits if_splits)
qed

lemma GetBySession_result:
  assumes "GetBySession fails now s pid c = (s1, r)"
  shows "r = None \<Longrightarrow> ps_entries s1 \<in> {ps_entries s, gdel (ps_entries s) pid}"
    "r = Some e' \<Longrightarrow> \<exists>e. gget (ps_entries s) pid = Some e \<and> now \<le> en_expires_at e \<and>
       en_session_token e = c \<and> e' = e\<lparr>en_session_activated := True\<rparr> \<and>
       s1 = s\<lparr>ps_entries := gput (ps_entries s) pid e'\<rparr>"
proof -
  obtain s2 x st where l: "Lookup fails now s pid = (s2, x, st)" using prod_cases3 by blast
  show "r = None \<Longrightarrow> ps_entries s1 \<in> {ps_entries s, gdel (ps_entries s) pid}"
    using assms l Lookup_result(1) [OF l]
    by (auto simp: GetBySession_def Let_def split: option.splits if_splits)
  show "r = Some e' \<Longrightarrow> \<exists>e. gget (ps_entries s) pid = Some e \<and> now \<le> en_expires_at e \<and>
       en_session_token e = c \<and> e' = e\<lparr>en_session_activated := True\<rparr> \<and>
       s1 = s\<lparr>ps_entries := gput (ps_entries s) pid e'\<rparr>"
    using assms l Lookup_result(2) [OF l]
    by (auto simp: GetBySession_def Let_def split: option.splits if_splits)
qed

lemma EstablishSession_result:
  assumes "EstablishSession fails now rnd s pid tok = (s1, r)"
  shows "r = None \<Longrightarrow> ps_entries s1 \<in> {ps_entries s, gdel (ps_entries s) pid}"
    "r = Some (e', tk) \<Longrightarrow> \<exists>e. gget (ps_entries s) pid = Some e \<and> now \<le> en_expires_at e \<and>
       en_token e = tok \<and> \<not> (en_session_token e \<noteq> '''' \<and> en_session_activated e) \<and>
       en_session_token e' = tk \<and> (e' = e \<or> e' = e\<lparr>en_session_token := tk\<rparr>) \<and>
       ps_entries s1 \<in> {ps_entries s, gput (ps_entries s) pid e'} \<and>
       gget (ps_entries s1) pid = Some e'"
proof -
  obtain s2 x st where l: "Lookup fails now s pid = (s2, x, st)" using prod_cases3 by blast
  show "r = None \<Longrightarrow> ps_entries s1 \<in> {ps_entries s, gdel (ps_entries s) pid}"
    using assms l Lookup_result(1) [OF l]
    by (auto simp: EstablishSession_def Let_def split: option.splits if_splits)
  show "r = Some (e', tk) \<Longrightarrow> \<exists>e. gget (ps_entries s) pid = Some e \<and> now \<le> en_expires_at e \<and>
       en_token e = tok \<and> \<not> (en_session_token e \<noteq> '''' \<and> en_session_activated e) \<and>
       en_session_token e' = tk \<and> (e' = e \<or> e' = e\<lparr>en_session_token := tk\<rparr>) \<and>
       ps_entries s1 \<in> {ps_entries s, gput (ps_entries s) pid e'} \<and>
       gget (ps_entries s1) pid = Some e'"
    using assms l Lookup_result(2) [OF l]
    by (auto simp: EstablishSession_def Let_def split: option.splits if_splits)
qed

lemma sweep_entries_subset:
  "\<lbrakk>sweep_entries fails now s es dirs = (s1, ds, err)\<rbrakk> \<Longrightarrow>
     gget (ps_entries s1) pid \<in> {gget (ps_entries s) pid, None}"
proof (induction es arbitrary: s dirs)
  case (Cons x es)
  obtain p e where x: "x = (p, e)" by (cases x)
  obtain s2 r where d: "deleteLease fails s p = (s2, r)" by fastforce
  then have "ps_entries s2 = ps_entries s" using deleteLease_entries by (metis fst_conv)
  with Cons.prems Cons.IH [of "s2\<lparr>ps_entries := gdel (ps_entries s2) p\<rparr>"] Cons.IH [of s] d show ?case
    by (fastforce simp: x split: if_splits option.splits)
qed simp

lemma list_entries_subset:
  "\<lbrakk>list_entries fails now owner s es dirs out = (s1, ds, snaps)\<rbrakk> \<Longrightarrow>
     gget (ps_entries s1) pid \<in> {gget (ps_entries s) pid, None}"
proof (induction es arbitrary: s dirs out)
  case (Cons x es)
  obtain p e where x: "x = (p, e)" by (cases x)
  obtain s2 r where d: "deleteLease fails s p = (s2, r)" by fastforce
  then have "ps_entries s2 = ps_entries s" using deleteLease_entries by (metis fst_conv)
  with Cons.prems Cons.IH [of "s2\<lparr>ps_entries := gdel (ps_entries s2) p\<rparr>"] Cons.IH [of s] Cons.IH [of s2] d show ?case
    by (fastforce simp: x split: if_splits option.splits)
qed simp

lemma SweepPersistent_subset:
  "gget (ps_entries (fst (SweepPersistent fails now s))) pid \<in> {gget (ps_entries s) pid, None}"
proof -
  obtain s1 ds err where w: "sweep_entries fails now s (ps_entries s) [] = (s1, ds, err)"
    using prod_cases3 by blast
  from sweep_entries_subset [OF w, of pid] w show ?thesis
    by (simp add: SweepPersistent_def split: option.split)
qed

lemma ListOwned_subset:
  "gget (ps_entries (fst (ListOwned fails now s owner))) pid \<in> {gget (ps_entries s) pid, None}"
proof -
  obtain s1 ds out where w: "list_entries fails now owner s (ps_entries s) [] [] = (s1, ds, out)"
    using prod_cases3 by blast
  from list_entries_subset [OF w, of pid] w show ?thesis
    by (simp add: ListOwned_def)
qed

lemma RevokeOwned_entries:
  "ps_entries (fst (RevokeOwnedPersistent fails s pid owner)) \<in> {ps_entries s, gdel (ps_entries s) pid}"
proof -
  obtain s2 r where d: "deleteLease fails s pid = (s2, r)" by fastforce
  then have "ps_entries s2 = ps_entries s" using deleteLease_entries by (metis fst_conv)
  with d show ?thesis by (simp add: RevokeOwnedPersistent_def split: option.split)
qed

lemma remove_entry_dirs [simp]:
  "ps_entries (foldl (\<lambda>s (pid, e). remove_all (en_dir e) s) s es) = ps_entries s"
  by (induction es arbitrary: s) auto

lemma RevokeAllOwned_entries:
  "ps_entries (fst (RevokeAllOwnedPersistent fails s owner)) = ps_entries s \<or>
   ps_entries (fst (RevokeAllOwnedPersistent fails s owner)) =
     gkeep (\<lambda>pid e. pid \<notin> set (map fst (filter (\<lambda>(pid, e). \<not> (owner \<noteq> '''' \<and> en_owner e \<noteq> owner)) (ps_entries s))))
       (ps_entries s)"
  by (simp add: RevokeAllOwnedPersistent_def Let_def split: option.split prod.split)

lemma Put_entries:
  "ps_entries (fst (Put cwd fails now s pid e0)) = ps_entries s \<or>
   (\<exists>t. ps_entries (fst (Put cwd fails now s pid e0)) =
      gput (ps_entries s) pid (e0\<lparr>en_created_at := t\<rparr>))"
proof -
  obtain t where t: "(if en_created_at e0 = zero_time then e0\<lparr>en_created_at := now\<rparr> else e0) = e0\<lparr>en_created_at := t\<rparr>"
    by (metis entry.surjective entry.update_convs(6))
  have "ps_entries (fst (Put cwd fails now s pid e0)) \<in> {ps_entries s, gput (ps_entries s) pid (e0\<lparr>en_created_at := t\<rparr>)}"
    unfolding Put_def Let_def t by (auto split: option.splits sum.splits prod.splits)
  then show ?thesis by auto
qed

section \<open>Runs of the store\<close>

text \<open>
  One call of the store by the server, with any arguments, clock readings, randomness and faults,
  that does not concern the registration or the probe reset of the preview \<open>pid\<close>. The session
  functions are called by the HTTP handler only.
\<close>

inductive pv_step :: "string \<Rightarrow> pstore \<Rightarrow> pstore \<Rightarrow> bool" for pid :: string where
  pv_http: "pv_step pid s (fst (HTTPHandler fails now rnd s urlPath cookie))"
| pv_lookup: "pv_step pid s (fst (Lookup fails now s pid'))"
| pv_token: "pv_step pid s (fst (GetByToken fails now s pid' tok))"
| pv_sweep: "pv_step pid s (fst (SweepPersistent fails now s))"
| pv_list: "pv_step pid s (fst (ListOwned fails now s owner))"
| pv_revoke: "pv_step pid s (fst (RevokeOwnedPersistent fails s pid' owner))"
| pv_revoke_all: "pv_step pid s (fst (RevokeAllOwnedPersistent fl s owner))"
| pv_put: "pid' \<noteq> pid \<Longrightarrow> pv_step pid s (fst (Put cwd fl now s pid' e))"
| pv_reset: "pid' \<noteq> pid \<Longrightarrow> pv_step pid s (fst (ResetSessionForProbe s pid'))"

text \<open>
  The handler's effect on the entry of one preview: it is left alone or removed, its session is
  activated by presenting its cookie, or its token, non-empty and not spent, opens a session.
\<close>

definition handler_change :: "time \<Rightarrow> entry option \<Rightarrow> entry option \<Rightarrow> bool" where
  "handler_change now x y \<longleftrightarrow> y = x \<or> y = None \<or>
     (\<exists>e. x = Some e \<and> en_session_token e \<noteq> '''' \<and> y = Some (e\<lparr>en_session_activated := True\<rparr>)) \<or>
     (\<exists>e tk. x = Some e \<and> en_token e \<noteq> '''' \<and> \<not> (en_session_token e \<noteq> '''' \<and> en_session_activated e) \<and>
        y = Some (e\<lparr>en_session_token := tk\<rparr>))"

definition handler_session ::
    "(string \<Rightarrow> bool) \<Rightarrow> time \<Rightarrow> pstore \<Rightarrow> string \<Rightarrow> string option \<Rightarrow> pstore \<times> entry option" where
  "handler_session fails now s pid c =
     (case c of None \<Rightarrow> (s, None) | Some v \<Rightarrow> if blank v then (s, None) else GetBySession fails now s pid v)"

lemma handler_session_result:
  assumes "handler_session fails now s pid c = (s1, r)"
  shows "r = None \<Longrightarrow> ps_entries s1 \<in> {ps_entries s, gdel (ps_entries s) pid}"
    "r = Some e' \<Longrightarrow> \<exists>e. gget (ps_entries s) pid = Some e \<and> now \<le> en_expires_at e \<and>
       c = Some (en_session_token e) \<and> en_session_token e \<noteq> '''' \<and>
       e' = e\<lparr>en_session_activated := True\<rparr> \<and> s1 = s\<lparr>ps_entries := gput (ps_entries s) pid e'\<rparr>"
proof -
  show "r = None \<Longrightarrow> ps_entries s1 \<in> {ps_entries s, gdel (ps_entries s) pid}"
    using assms GetBySession_result(1)
    by (auto simp: handler_session_def split: option.splits if_splits)
  assume r: "r = Some e'"
  then obtain v where v: "c = Some v" "\<not> blank v" "GetBySession fails now s pid v = (s1, Some e')"
    using assms by (auto simp: handler_session_def split: option.splits if_splits)
  from GetBySession_result(2) [OF v(3) refl] v(1,2)
  show "\<exists>e. gget (ps_entries s) pid = Some e \<and> now \<le> en_expires_at e \<and>
       c = Some (en_session_token e) \<and> en_session_token e \<noteq> '''' \<and>
       e' = e\<lparr>en_session_activated := True\<rparr> \<and> s1 = s\<lparr>ps_entries := gput (ps_entries s) pid e'\<rparr>"
    by (auto simp: blank_def)
qed

text \<open>The preview id a request addresses.\<close>

definition request_pid :: "string \<Rightarrow> string" where
  "request_pid urlPath = split_path3 (trim_prefix ''/preview/'' urlPath) ! 0"

text \<open>The handler on the preview it addresses, by the branch it takes.\<close>

lemma HTTPHandler_cases:
  assumes "HTTPHandler fails now rnd s urlPath cookie = (s', resp)"
  obtains (not_found) "s' = s" "resp = PNotFound"
    | (session) pid e where "pid = request_pid urlPath" "gget (ps_entries s) pid = Some e" "now \<le> en_expires_at e"
        "cookie pid = Some (en_session_token e)" "en_session_token e \<noteq> ''''"
        "s' = s\<lparr>ps_entries := gput (ps_entries s) pid (e\<lparr>en_session_activated := True\<rparr>)\<rparr>"
        "resp = PServe (en_dir e) \<or> (\<exists>t. resp = PRedirect t None)"
    | (opened) pid e tk t where "pid = request_pid urlPath" "gget (ps_entries s) pid = Some e" "now \<le> en_expires_at e"
        "en_token e \<noteq> ''''" "\<not> (en_session_token e \<noteq> '''' \<and> en_session_activated e)"
        "\<And>p. p \<noteq> pid \<Longrightarrow> gget (ps_entries s') p = gget (ps_entries s) p"
        "gget (ps_entries s') pid = Some (e\<lparr>en_session_token := tk\<rparr>)"
        "resp = PRedirect t (Some (tk, en_expires_at e))"
    | (gone) pid where "pid = request_pid urlPath" "gget (ps_entries s') = gget (ps_entries s) \<or>
        gget (ps_entries s') = (gget (ps_entries s))(pid := None)" "resp = PGone"
proof -
  define parts where "parts = split_path3 (trim_prefix ''/preview/'' urlPath)"
  define pid where "pid = parts ! 0"
  have rp: "pid = request_pid urlPath" by (simp add: pid_def parts_def request_pid_def)
  obtain s1 r where hs: "handler_session fails now s pid (cookie pid) = (s1, r)" by fastforce
  note h = assms [unfolded HTTPHandler_def Let_def parts_def [symmetric] pid_def [symmetric]
      handler_session_def [symmetric] hs]
  show ?thesis
  proof (cases "pid = ''''")
    case True
    with h not_found show ?thesis by simp
  next
    case False
    show ?thesis
    proof (cases r)
      case (Some e')
      from handler_session_result(2) [OF hs Some] h False Some session [OF rp] show ?thesis
        by (fastforce split: if_splits)
    next
      case None
      note n = handler_session_result(1) [OF hs None]
      then have g: "gget (ps_entries s1) = gget (ps_entries s) \<or>
          gget (ps_entries s1) = (gget (ps_entries s))(pid := None)"
        by (elim insertE emptyE) (simp_all add: fun_eq_iff)
      show ?thesis
      proof (cases "length parts \<ge> 2 \<and> parts ! 1 \<noteq> ''''")
        case f: False
        with h False None have "s' = s1" "resp = PGone" by (auto split: if_splits)
        with g show ?thesis by (intro gone [of pid, OF rp]) simp_all
      next
        case True
        obtain s2 x where es: "EstablishSession fails now rnd s1 pid (parts ! 1) = (s2, x)" by fastforce
        show ?thesis
        proof (cases x)
          case xn: None
          with h False None True es have "s' = s2" "resp = PGone" by simp_all
          from EstablishSession_result(1) [OF es xn] have "gget (ps_entries s2) = gget (ps_entries s1) \<or>
              gget (ps_entries s2) = (gget (ps_entries s1))(pid := None)"
            by (elim insertE emptyE) (simp_all add: fun_eq_iff)
          with g have "gget (ps_entries s2) = gget (ps_entries s) \<or>
              gget (ps_entries s2) = (gget (ps_entries s))(pid := None)"
            by (metis fun_upd_upd)
          with \<open>s' = s2\<close> \<open>resp = PGone\<close> show ?thesis by (intro gone [of pid, OF rp]) simp_all
        next
          case xs: (Some y)
          obtain e' tk where y: "y = (e', tk)" by (cases y)
          from EstablishSession_result(2) [OF es xs [unfolded y]] obtain e where
            e: "gget (ps_entries s1) pid = Some e" "now \<le> en_expires_at e" "en_token e = parts ! 1"
              "\<not> (en_session_token e \<noteq> '''' \<and> en_session_activated e)" "en_session_token e' = tk"
              "e' = e \<or> e' = e\<lparr>en_session_token := tk\<rparr>"
              "ps_entries s2 \<in> {ps_entries s1, gput (ps_entries s1) pid e'}"
              "gget (ps_entries s2) pid = Some e'" by blast
          have s1: "ps_entries s1 = ps_entries s" using n e(1) by auto
          have e': "e' = e\<lparr>en_session_token := tk\<rparr>" using e(5,6) by auto
          from h False None True es xs y have s': "s' = s2" "\<exists>t. resp = PRedirect t (Some (tk, en_expires_at e'))"
            by auto
          then obtain t where "resp = PRedirect t (Some (tk, en_expires_at e))" using e' by auto
          then show ?thesis
            using opened [of pid e tk t, OF rp] e s1 e' s' True by auto
        qed
      qed
    qed
  qed
qed

text \<open>The facts a proof about one preview needs of a step: the handler's change, or less.\<close>

lemma pv_step_change:
  assumes "pv_step pid s s'"
  shows "\<exists>now. handler_change now (gget (ps_entries s) pid) (gget (ps_entries s') pid)"
  using assms
proof (induction rule: pv_step.induct)
  case (pv_http s fails now rnd urlPath cookie)
  obtain s' resp where h: "HTTPHandler fails now rnd s urlPath cookie = (s', resp)" by fastforce
  then show ?case
  proof (cases rule: HTTPHandler_cases)
    case not_found
    with h show ?thesis by (simp add: handler_change_def)
  next
    case (session p e)
    with h show ?thesis by (cases "p = pid") (auto simp: handler_change_def)
  next
    case (opened p e tk t)
    with h show ?thesis by (cases "p = pid") (auto simp: handler_change_def)
  next
    case (gone p)
    with h show ?thesis by (cases "p = pid") (auto simp: handler_change_def)
  qed
next
  case (pv_lookup s fails now pid')
  obtain s1 r st where l: "Lookup fails now s pid' = (s1, r, st)" using prod_cases3 by blast
  from Lookup_result(1) [OF l] l show ?case
    by (auto simp: handler_change_def split: if_splits)
next
  case (pv_token s fails now pid' tok)
  obtain s1 r st where l: "Lookup fails now s pid' = (s1, r, st)" using prod_cases3 by blast
  then have "fst (GetByToken fails now s pid' tok) = s1"
    by (simp add: GetByToken_def split: option.split)
  with Lookup_result(1) [OF l] show ?case
    by (auto simp: handler_change_def split: if_splits)
next
  case (pv_sweep s fails now)
  with SweepPersistent_subset [of fails now s pid] show ?case by (auto simp: handler_change_def)
next
  case (pv_list s fails now owner)
  with ListOwned_subset [of fails now s owner pid] show ?case by (auto simp: handler_change_def)
next
  case (pv_revoke s fails pid' owner)
  with RevokeOwned_entries [of fails s pid' owner] show ?case
    by (auto simp: handler_change_def split: if_splits)
next
  case (pv_revoke_all s fl owner)
  from RevokeAllOwned_entries [of fl s owner] show ?case
  proof
    assume "ps_entries (fst (RevokeAllOwnedPersistent fl s owner)) = ps_entries s"
    then show ?thesis by (simp add: handler_change_def)
  next
    let ?P = "\<lambda>p e. p \<notin> set (map fst (filter (\<lambda>(pid, e). \<not> (owner \<noteq> '''' \<and> en_owner e \<noteq> owner)) (ps_entries s)))"
    assume e: "ps_entries (fst (RevokeAllOwnedPersistent fl s owner)) = gkeep ?P (ps_entries s)"
    show ?thesis unfolding e gget_keep_key by (simp add: handler_change_def)
  qed
next
  case (pv_put pid' s cwd fl now e)
  with Put_entries [of cwd fl now s pid' e] show ?case by (auto simp: handler_change_def)
next
  case (pv_reset pid' s)
  then show ?case by (auto simp: handler_change_def ResetSessionForProbe_def split: option.split)
qed

text \<open>A preview whose session has been used, or that is gone.\<close>

definition spent :: "pstore \<Rightarrow> string \<Rightarrow> bool" where
  "spent s pid \<longleftrightarrow>
     (case gget (ps_entries s) pid of
        None \<Rightarrow> True | Some e \<Rightarrow> en_session_token e \<noteq> '''' \<and> en_session_activated e)"

text \<open>A preview restored after a restart carries no secret, or is gone.\<close>

definition no_secret :: "pstore \<Rightarrow> string \<Rightarrow> bool" where
  "no_secret s pid \<longleftrightarrow>
     (case gget (ps_entries s) pid of
        None \<Rightarrow> True | Some e \<Rightarrow> en_token e = '''' \<and> en_session_token e = '''')"

lemma spent_step: "pv_step pid s s' \<Longrightarrow> spent s pid \<Longrightarrow> spent s' pid"
  by (drule pv_step_change) (auto simp: spent_def handler_change_def split: option.splits)

lemma no_secret_step: "pv_step pid s s' \<Longrightarrow> no_secret s pid \<Longrightarrow> no_secret s' pid"
  by (drule pv_step_change) (auto simp: no_secret_def handler_change_def split: option.splits)

lemma spent_run: "(pv_step pid)\<^sup>*\<^sup>* s s' \<Longrightarrow> spent s pid \<Longrightarrow> spent s' pid"
  by (induction rule: rtranclp_induct) (auto intro: spent_step)

lemma no_secret_run: "(pv_step pid)\<^sup>*\<^sup>* s s' \<Longrightarrow> no_secret s pid \<Longrightarrow> no_secret s' pid"
  by (induction rule: rtranclp_induct) (auto intro: no_secret_step)

lemma spent_no_cookie:
  assumes "spent s pid" "pid = request_pid urlPath"
    and "HTTPHandler fails now rnd s urlPath cookie = (s', resp)"
  shows "resp \<noteq> PRedirect t (Some ck)"
  using assms(3)
proof (cases rule: HTTPHandler_cases)
  case (opened p e tk t')
  with assms(1,2) show ?thesis by (simp add: spent_def)
qed auto

section \<open>Properties\<close>

text \<open>
  C18. Preview content is confidential to the session, and the entry link is single use: the handler
  serves files only to a request whose cookie is the session token of the unexpired preview it
  addresses, and from that preview's directory; and once it has served content of a preview, no
  later request ever obtains a session cookie for that preview, whatever happens in between, as long as
  the preview is not registered anew (\<open>Put\<close>) and its session is not reset (\<open>ResetSessionForProbe\<close>, which
  \<open>create\_preview\<close> calls after its own probe, so that the link it hands out is still unused).
\<close>

theorem preview_single_use:
  assumes "HTTPHandler fails now rnd s urlPath cookie = (s1, PServe d)"
    and "(pv_step (request_pid urlPath))\<^sup>*\<^sup>* s1 s2"
    and "request_pid urlPath' = request_pid urlPath"
    and "HTTPHandler fails' now' rnd' s2 urlPath' cookie' = (s3, resp)"
  shows "(\<exists>e. gget (ps_entries s) (request_pid urlPath) = Some e \<and> now \<le> en_expires_at e \<and>
      cookie (request_pid urlPath) = Some (en_session_token e) \<and> en_session_token e \<noteq> '''' \<and>
      d = en_dir e) \<and>
    resp \<noteq> PRedirect t (Some ck)"
  using assms(1)
proof (cases rule: HTTPHandler_cases)
  case (session p e)
  then have "spent s1 (request_pid urlPath)" by (simp add: spent_def)
  with assms(2) have "spent s2 (request_pid urlPath)" by (rule spent_run)
  from spent_no_cookie [OF this assms(3) [symmetric] assms(4)] session show ?thesis by auto
qed auto

definition demo_preview :: entry where
  "demo_preview = \<lparr>en_dir = ''/r/mcp-preview-1'', en_token = ''tok'', en_session_token = ''ses'',
     en_expires_at = 100, en_build_status = ''ok'', en_created_at = 1, en_owner = ''o'',
     en_recovered = False, en_session_activated = False\<rparr>"

definition demo_previews :: pstore where
  "demo_previews = \<lparr>ps_entries = [(''p'', demo_preview)], ps_leases = None, ps_root = '''', ps_disk = []\<rparr>"

lemma demo_request: "split_path3 (trim_prefix ''/preview/'' ''/preview/p/'') = [''p'', '''']"
  "split_path3 (trim_prefix ''/preview/'' ''/preview/p/tok'') = [''p'', ''tok'']"
  by (simp_all add: trim_prefix_def split_path3_def)

theorem preview_single_use_witness:
  "snd (HTTPHandler (\<lambda>i. False) 5 None demo_previews ''/preview/p/'' (\<lambda>i. Some ''ses'')) =
     PServe ''/r/mcp-preview-1'' \<and>
   snd (HTTPHandler (\<lambda>i. False) 6 (Some ''x'')
     (fst (HTTPHandler (\<lambda>i. False) 5 None demo_previews ''/preview/p/'' (\<lambda>i. Some ''ses'')))
     ''/preview/p/tok'' (\<lambda>i. None)) \<noteq> PRedirect ''/preview/p/'' (Some (''x'', 100))"
proof -
  have b: "\<not> blank ''ses''" by (simp add: blank_def trim_space_eval)
  have h: "HTTPHandler (\<lambda>i. False) 5 None demo_previews ''/preview/p/'' (\<lambda>i. Some ''ses'') =
      (fst (HTTPHandler (\<lambda>i. False) 5 None demo_previews ''/preview/p/'' (\<lambda>i. Some ''ses'')),
       PServe ''/r/mcp-preview-1'')"
    unfolding HTTPHandler_def Let_def demo_request
    by (simp add: b GetBySession_def Lookup_def demo_previews_def demo_preview_def Let_def)
  have r: "request_pid ''/preview/p/tok'' = request_pid ''/preview/p/''"
    by (simp add: request_pid_def demo_request)
  from preview_single_use [OF h rtranclp.rtrancl_refl r prod.collapse [symmetric]] h
  show ?thesis by (metis snd_conv)
qed

lemma reconcile_lease_frame:
  assumes "reconcile_lease fails now s active report kv = (s', active', report', err)"
    and "\<And>p. no_secret s p"
  shows "no_secret s' p"
proof -
  obtain lid lease where kv: "kv = (lid, lease)" by (cases kv)
  have "ps_entries s' = ps_entries s \<or>
      (\<exists>dir. ps_entries s' = gput (ps_entries s) lid (recovered_entry dir lease))"
    using assms(1) by (auto simp: reconcile_lease_def kv Let_def split: if_splits prod.splits option.splits)
  with assms(2) [of p] show ?thesis
    by (auto simp: no_secret_def recovered_entry_def)
qed

lemma reconcile_leases_no_secret:
  "reconcile_leases fails now s active report kvs = (s', active', report', err) \<Longrightarrow>
     (\<And>p. no_secret s p) \<Longrightarrow> no_secret s' p"
proof (induction kvs arbitrary: s active report)
  case (Cons kv kvs)
  obtain s1 a1 r1 e1 where l: "reconcile_lease fails now s active report kv = (s1, a1, r1, e1)"
    using prod_cases4 by blast
  have "no_secret s1 p" for p using reconcile_lease_frame [OF l Cons.prems(2)] .
  with Cons.prems(1) Cons.IH l show ?case
    by (cases e1) auto
qed simp

lemma remove_orphans_entries [simp]:
  "ps_entries (fst (remove_orphans rm_fails s active report es)) = ps_entries s"
  by (induction rm_fails s active report es rule: remove_orphans.induct) auto

lemma NewPersistent_no_secret:
  assumes "NewPersistent fails rm_fails now t disk root = Inr (s, report)"
  shows "no_secret s p"
proof (cases t)
  case None
  with assms show ?thesis by (auto simp: NewPersistent_def Let_def no_secret_def)
next
  case (Some leases)
  let ?s0 = "\<lparr>ps_entries = [], ps_leases = Some leases, ps_root = path_clean root, ps_disk = disk\<rparr>"
  from assms Some have r: "reconcile fails rm_fails now ?s0 = (s, report, None)"
    by (auto simp: NewPersistent_def Let_def split: if_splits prod.splits option.splits)
  obtain s1 a1 r1 e1 where l: "reconcile_leases fails now ?s0 [] empty_report leases = (s1, a1, r1, e1)"
    using prod_cases4 by blast
  have n: "no_secret s1 p" using l by (rule reconcile_leases_no_secret) (simp add: no_secret_def)
  from r l have "remove_orphans rm_fails s1 a1 r1 (read_dir s1) = (s, report, None)"
    by (auto simp: reconcile_def split: option.splits)
  then have "ps_entries s = ps_entries s1" using remove_orphans_entries by (metis fst_conv)
  with n show ?thesis by (simp add: no_secret_def)
qed

text \<open>
  Old preview links die with the process: after a restart, and any run of the restarted server
  that does not register the preview anew, every request for it is answered "not found", whatever
  path, cookie or token it presents.
\<close>

theorem preview_restart_invalidates:
  assumes "NewPersistent fails rm_fails now t disk root = Inr (s0, report)"
    and "(pv_step (request_pid urlPath))\<^sup>*\<^sup>* s0 s"
    and "HTTPHandler fails' now' rnd s urlPath cookie = (s', resp)"
  shows "resp = PGone \<or> resp = PNotFound"
proof -
  have n: "no_secret s (request_pid urlPath)"
    using assms(2) NewPersistent_no_secret [OF assms(1)] by (rule no_secret_run)
  from assms(3) show ?thesis
  proof (cases rule: HTTPHandler_cases)
    case (session p e)
    with n show ?thesis by (simp add: no_secret_def)
  next
    case (opened p e tk t)
    with n show ?thesis by (simp add: no_secret_def)
  qed simp_all
qed

theorem preview_restart_invalidates_witness:
  "snd (HTTPHandler (\<lambda>i. False) 5 (Some ''x'')
     \<lparr>ps_entries = [(''p'', recovered_entry ''/r/mcp-preview-1''
        \<lparr>le_owner = ''o'', le_dir_name = ''mcp-preview-1'', le_build_status = ''ok'',
         le_state = ''active'', le_created_at = 1, le_expires_at = 100\<rparr>)],
      ps_leases = Some [(''p'', \<lparr>le_owner = ''o'', le_dir_name = ''mcp-preview-1'',
         le_build_status = ''ok'', le_state = ''active'', le_created_at = 1, le_expires_at = 100\<rparr>)],
      ps_root = ''/r'', ps_disk = [(''/r/mcp-preview-1'', True)]\<rparr>
     ''/preview/p/tok'' (\<lambda>i. None)) \<in> {PGone, PNotFound}"
  (is "snd (HTTPHandler ?f 5 ?r ?s ?u ?c) \<in> _")
proof -
  have k: "path_clean ''/r'' = ''/r''" "path_join [''/r'', ''mcp-preview-1''] = ''/r/mcp-preview-1''"
    "path_base ''mcp-preview-1'' = ''mcp-preview-1''" "path_base ''/r/mcp-preview-1'' = ''mcp-preview-1''"
    "path_dir ''/r/mcp-preview-1'' = ''/r''"
    by (simp_all add: path_clean_def path_join_def path_base_def path_dir_def is_abs_def
        clean_segs_def clean_elem_def strip_slashes_def Let_def)
  have b: "\<not> blank ''p''" by (simp add: blank_def trim_space_eval)
  have sd: "safeDirName ''mcp-preview-1''" by (simp add: safeDirName_def k)
  have "reconcile_lease ?f 5 (?s\<lparr>ps_entries := []\<rparr>) [] empty_report (''p'', snd (hd (the (ps_leases ?s)))) =
      (?s, [''mcp-preview-1''], empty_report\<lparr>rr_restored := 1\<rparr>, None)"
    by (simp add: reconcile_lease_def k b sd Let_def) (simp add: empty_report_def)
  then have "reconcile ?f ?f 5 (?s\<lparr>ps_entries := []\<rparr>) = (?s, empty_report\<lparr>rr_restored := 1\<rparr>, None)"
    by (simp add: reconcile_def read_dir_def k sd)
  then have "NewPersistent ?f ?f 5 (ps_leases ?s) (ps_disk ?s) ''/r'' = Inr (?s, empty_report\<lparr>rr_restored := 1\<rparr>)"
    by (simp add: NewPersistent_def k is_abs_def)
  from preview_restart_invalidates [OF this rtranclp.rtrancl_refl prod.collapse [symmetric]]
  show ?thesis by blast
qed

text \<open>A directory name the reconciliation accepts is a single plain path element.\<close>

lemma safeDirName_plain: "safeDirName n \<Longrightarrow> plain_seg n"
proof -
  assume s: "safeDirName n"
  then have "path_base n = n" by (simp add: safeDirName_def)
  then show "plain_seg n"
    using s by (intro path_base_plain) (auto simp: safeDirName_def has_prefix_iff)
qed

definition lease_live :: "time \<Rightarrow> (string, bool) gomap \<Rightarrow> string \<Rightarrow> string \<Rightarrow> preview_lease \<Rightarrow> bool" where
  "lease_live now disk root lid le \<longleftrightarrow>
     safeDirName (le_dir_name le) \<and> \<not> blank lid \<and> now < le_expires_at le \<and>
     gget disk (path_join [root, le_dir_name le]) = Some True"

lemma reconcile_lease_ok:
  assumes "reconcile_lease fails now s active report (lid, le) = (s', active', report', None)"
  shows "ps_root s' = ps_root s"
    "ps_entries s' = (if lease_live now (ps_disk s) (ps_root s) lid le
       then gput (ps_entries s) lid (recovered_entry (path_join [ps_root s, le_dir_name le]) le)
       else ps_entries s)"
    "ps_disk s' = ps_disk s \<or>
       safeDirName (le_dir_name le) \<and> ps_disk s' = gdel (ps_disk s) (path_join [ps_root s, le_dir_name le])"
  using assms
  by (auto simp: reconcile_lease_def lease_live_def Let_def remove_all_def
      split: if_splits prod.splits option.splits)

lemma reconcile_leases_ok:
  assumes "reconcile_leases fails now s active report kvs = (s', active', report', None)"
    and "distinct (map fst kvs)" "distinct (map (le_dir_name \<circ> snd) kvs)" "ps_root s \<noteq> ''''"
    and "fst ` set kvs \<inter> gdom (ps_entries s) = {}"
  shows "ps_root s' = ps_root s"
    "gget (ps_entries s') p =
       (case map_of kvs p of
          None \<Rightarrow> gget (ps_entries s) p
        | Some le \<Rightarrow> if lease_live now (ps_disk s) (ps_root s) p le
                     then Some (recovered_entry (path_join [ps_root s, le_dir_name le]) le) else None)"
  using assms
proof (induction kvs arbitrary: s active report)
  case Nil
  { case 1 then show ?case by simp next case 2 then show ?case by simp }
next
  case (Cons kv kvs)
  obtain lid le where kv: "kv = (lid, le)" by (cases kv)
  have main: "ps_root s' = ps_root s \<and> gget (ps_entries s') p =
       (case map_of (kv # kvs) p of
          None \<Rightarrow> gget (ps_entries s) p
        | Some le \<Rightarrow> if lease_live now (ps_disk s) (ps_root s) p le
                     then Some (recovered_entry (path_join [ps_root s, le_dir_name le]) le) else None)"
    if run: "reconcile_leases fails now s active report (kv # kvs) = (s', active', report', None)"
      and d: "distinct (map fst (kv # kvs))" "distinct (map (le_dir_name \<circ> snd) (kv # kvs))"
      and r: "ps_root s \<noteq> ''''" and e: "fst ` set (kv # kvs) \<inter> gdom (ps_entries s) = {}"
    for s active report
  proof -
    obtain s1 a1 r1 e1 where l: "reconcile_lease fails now s active report (lid, le) = (s1, a1, r1, e1)"
      using prod_cases4 by blast
    with run kv have e1: "e1 = None" and run1: "reconcile_leases fails now s1 a1 r1 kvs = (s', active', report', None)"
      by (auto split: option.splits)
    note ok = reconcile_lease_ok [OF l [unfolded e1]]
    have sub: "gdom (ps_entries s1) \<subseteq> insert lid (gdom (ps_entries s))"
      using ok(2) by (auto simp: dom_update)
    have e': "fst ` set kvs \<inter> gdom (ps_entries s1) = {}"
      using sub e d(1) kv by auto
    have d': "distinct (map fst kvs)" "distinct (map (le_dir_name \<circ> snd) kvs)" "ps_root s1 \<noteq> ''''"
      using d r ok(1) by simp_all
    note IH = Cons.IH [OF run1 d' e']
    have live: "lease_live now (ps_disk s1) (ps_root s1) q le' = lease_live now (ps_disk s) (ps_root s) q le'"
      if "(q, le') \<in> set kvs" for q le'
    proof (cases "ps_disk s1 = ps_disk s")
      case True
      then show ?thesis by (simp add: ok(1))
    next
      case False
      with ok(3) have s: "safeDirName (le_dir_name le)"
        and g: "ps_disk s1 = gdel (ps_disk s) (path_join [ps_root s, le_dir_name le])" by auto
      have ne: "le_dir_name le' \<noteq> le_dir_name le" using that d(2) kv by force
      have "path_join [ps_root s, le_dir_name le'] \<noteq> path_join [ps_root s, le_dir_name le]"
        if "safeDirName (le_dir_name le')"
        using path_join2_inj [OF r] safeDirName_plain [OF that] safeDirName_plain [OF s] ne by blast
      then show ?thesis by (auto simp: lease_live_def ok(1) g)
    qed
    have root: "ps_root s' = ps_root s"
      using IH(1) ok(1) by simp
    have get: "gget (ps_entries s') p =
       (case map_of kvs p of
          None \<Rightarrow> gget (ps_entries s1) p
        | Some le \<Rightarrow> if lease_live now (ps_disk s1) (ps_root s1) p le
                     then Some (recovered_entry (path_join [ps_root s1, le_dir_name le]) le) else None)"
      by (rule IH(2))
    show ?thesis
    proof (cases "p = lid")
      case True
      then have "map_of kvs p = None" using d(1) kv by (simp add: map_of_eq_None_iff)
      moreover have "gget (ps_entries s) p = None"
        using e kv True by (auto simp: map_of_eq_None_iff)
      ultimately show ?thesis using get root True by (simp add: ok(2) kv)
    next
      case False
      then have same: "gget (ps_entries s1) p = gget (ps_entries s) p"
        "map_of (kv # kvs) p = map_of kvs p" by (simp_all add: ok(2) kv)
      show ?thesis
      proof (cases "map_of kvs p")
        case None
        then show ?thesis unfolding get same(2) same(1) [symmetric] by (simp add: root)
      next
        case (Some le')
        from live [OF map_of_SomeD [OF Some]] show ?thesis
          unfolding get same(2) Some option.case by (simp only: root ok(1) simp_thms)
      qed
    qed
  qed
  { case 1 from main [OF 1] show ?case by (rule conjunct1)
  next case 2 from main [OF 2] show ?case by (rule conjunct2) }
qed

text \<open>
  A restart restores exactly the leases that are worth restoring: with leases under distinct
  directory names, an entry exists after the startup scan if and only if its lease has a plain
  \<open>mcp-preview-\<close> directory name and a non-blank id, has not expired and its directory is there; it
  then has the lease's owner and expiry, and no secret.
\<close>

theorem preview_restart_exact:
  assumes "NewPersistent fails rm_fails now (Some leases) disk root0 = Inr (s, report)"
    and "wf_map leases" "distinct (map (le_dir_name \<circ> snd) leases)"
  shows "gget (ps_entries s) p =
    (case gget leases p of
       None \<Rightarrow> None
     | Some le \<Rightarrow> if lease_live now disk (path_clean root0) p le
                  then Some (recovered_entry (path_join [path_clean root0, le_dir_name le]) le)
                  else None)"
proof -
  let ?s0 = "\<lparr>ps_entries = [], ps_leases = Some leases, ps_root = path_clean root0, ps_disk = disk\<rparr>"
  have ne: "path_clean root0 \<noteq> ''''" and r: "reconcile fails rm_fails now ?s0 = (s, report, None)"
    using assms(1) by (auto simp: NewPersistent_def Let_def split: if_splits prod.splits option.splits)
  obtain s1 a1 r1 e1 where l: "reconcile_leases fails now ?s0 [] empty_report leases = (s1, a1, r1, e1)"
    using prod_cases4 by blast
  from r l have e1: "e1 = None" and o: "remove_orphans rm_fails s1 a1 r1 (read_dir s1) = (s, report, None)"
    by (auto simp: reconcile_def split: option.splits)
  from o have "ps_entries s = ps_entries s1" using remove_orphans_entries by (metis fst_conv)
  with reconcile_leases_ok(2) [OF l [unfolded e1], of p] assms(2,3) ne show ?thesis
    by (cases "gget leases p") (simp_all add: wf_map_def)
qed

theorem preview_restart_exact_witness:
  "gget (ps_entries (fst (projr (NewPersistent (\<lambda>i. False) (\<lambda>i. False) 5
     (Some [(''p'', \<lparr>le_owner = ''o'', le_dir_name = ''etc'', le_build_status = ''ok'',
         le_state = ''active'', le_created_at = 1, le_expires_at = 100\<rparr>)]) [] ''/r'')))) ''p'' = None"
proof -
  let ?le = "\<lparr>le_owner = ''o'', le_dir_name = ''etc'', le_build_status = ''ok'',
         le_state = ''active'', le_created_at = 1, le_expires_at = 100\<rparr>"
  have k: "path_clean ''/r'' = ''/r''"
    by (simp add: path_clean_def is_abs_def clean_segs_def clean_elem_def)
  have u: "\<not> safeDirName ''etc''" by (simp add: safeDirName_def)
  have n: "NewPersistent (\<lambda>i. False) (\<lambda>i. False) 5 (Some [(''p'', ?le)]) [] ''/r'' =
      Inr (\<lparr>ps_entries = [], ps_leases = Some [], ps_root = ''/r'', ps_disk = []\<rparr>,
        empty_report\<lparr>rr_unsafe := 1\<rparr>)"
    by (simp add: NewPersistent_def k is_abs_def reconcile_def reconcile_lease_def u
        DeletePreviewLease_def read_dir_def empty_report_def Let_def)
  from preview_restart_exact [OF n, of "''p''"] show ?thesis
    unfolding n by (simp add: wf_map_def lease_live_def u)
qed

lemma list_entries_snaps:
  "list_entries fails now owner s es dirs out = (s1, ds, snaps) \<Longrightarrow> sn \<in> set snaps \<Longrightarrow>
     sn \<in> set out \<or> (\<exists>pid e. (pid, e) \<in> set es \<and> sn = snapshot_of pid e \<and> now \<le> en_expires_at e \<and>
       (owner \<noteq> '''' \<longrightarrow> en_owner e = owner))"
proof (induction es arbitrary: s dirs out)
  case (Cons x es)
  obtain p e where x: "x = (p, e)" by (cases x)
  obtain s2 r where d: "deleteLease fails s p = (s2, r)" by fastforce
  show ?case
  proof (cases "now > en_expires_at e")
    case True
    with Cons.prems(1) d x obtain s3 dirs3 where
      "list_entries fails now owner s3 es dirs3 out = (s1, ds, snaps)"
      by (cases r) auto
    from Cons.IH [OF this Cons.prems(2)] show ?thesis by (auto simp: x)
  next
    case False
    show ?thesis
    proof (cases "owner \<noteq> '''' \<and> en_owner e \<noteq> owner")
      case True
      with False Cons.prems(1) x have "list_entries fails now owner s es dirs out = (s1, ds, snaps)"
        by simp
      from Cons.IH [OF this Cons.prems(2)] show ?thesis by (auto simp: x)
    next
      case o: False
      then have "owner = '''' \<or> en_owner e = owner" by simp
      with False Cons.prems(1) x
      have "list_entries fails now owner s es dirs (out @ [snapshot_of p e]) = (s1, ds, snaps)"
        by auto
      from Cons.IH [OF this Cons.prems(2)] False o show ?thesis by (auto simp: x not_less)
    qed
  qed
qed simp

text \<open>
  Callers cannot touch one another's previews: revoking by an owner, one preview or all of
  them, leaves every preview of another owner in place, and a listing by an owner shows that
  owner's previews only, all unexpired.
\<close>

theorem preview_owner_isolation:
  assumes "owner \<noteq> ''''" "wf_map (ps_entries s)" "gget (ps_entries s) p = Some e" "en_owner e \<noteq> owner"
  shows "gget (ps_entries (fst (RevokeOwnedPersistent fails s pid owner))) p = Some e \<and>
    gget (ps_entries (fst (RevokeAllOwnedPersistent fl s owner))) p = Some e \<and>
    (\<forall>sn\<in>set (snd (ListOwned fails now s owner)).
       sn_owner sn = owner \<and> now \<le> sn_expires_at sn \<and> sn_id sn \<noteq> p)"
proof (intro conjI ballI)
  show "gget (ps_entries (fst (RevokeOwnedPersistent fails s pid owner))) p = Some e"
  proof (cases "p = pid")
    case True
    with assms show ?thesis by (simp add: RevokeOwnedPersistent_def)
  next
    case False
    with RevokeOwned_entries [of fails s pid owner] assms(3) show ?thesis by auto
  qed
  have "(p, e) \<in> set (ps_entries s)" using assms(2,3) by (simp add: in_set_gget)
  then have "p \<notin> set (map fst (filter (\<lambda>(pid, e). \<not> (owner \<noteq> '''' \<and> en_owner e \<noteq> owner)) (ps_entries s)))"
    using assms by (auto simp: in_set_gget)
  with RevokeAllOwned_entries [of fl s owner] assms(3)
  show "gget (ps_entries (fst (RevokeAllOwnedPersistent fl s owner))) p = Some e"
    by (elim disjE) (simp_all only: gget_keep_key simp_thms if_True not_False_eq_True)
next
  fix sn
  assume "sn \<in> set (snd (ListOwned fails now s owner))"
  moreover obtain s1 ds out where w: "list_entries fails now owner s (ps_entries s) [] [] = (s1, ds, out)"
    using prod_cases3 by blast
  ultimately have "sn \<in> set out" by (simp add: ListOwned_def)
  from list_entries_snaps [OF w this] obtain pid e' where
    pe: "(pid, e') \<in> set (ps_entries s)" "sn = snapshot_of pid e'" "now \<le> en_expires_at e'"
    "en_owner e' = owner" using assms(1) by auto
  then show "sn_owner sn = owner" "now \<le> sn_expires_at sn" by (simp_all add: snapshot_of_def)
  show "sn_id sn \<noteq> p" using pe assms by (auto simp: snapshot_of_def in_set_gget)
qed

theorem preview_owner_isolation_witness:
  "gget (ps_entries (fst (RevokeAllOwnedPersistent False demo_previews ''other''))) ''p'' = Some demo_preview \<and>
   snd (ListOwned (\<lambda>i. False) 5 demo_previews ''other'') = []"
proof -
  have "gget (ps_entries demo_previews) ''p'' = Some demo_preview" "wf_map (ps_entries demo_previews)"
    "en_owner demo_preview \<noteq> ''other''"
    by (simp_all add: demo_previews_def demo_preview_def wf_map_def)
  then have "gget (ps_entries (fst (RevokeAllOwnedPersistent False demo_previews ''other''))) ''p'' = Some demo_preview"
    using preview_owner_isolation [of "''other''" demo_previews "''p''" demo_preview
        "\<lambda>i. False" "''p''" False 5] by simp
  then show ?thesis by (simp add: ListOwned_def demo_previews_def demo_preview_def)
qed

end
