(* ===== verification/Journal.thy ===== *)
theory Journal
  imports Prelude
begin

text \<open>
  The durable operational tables of \<open>internal/db/db.go\<close>: caller-owned records with a lifetime
  (plans and snapshots), the mutation journal behind idempotent replay, the recovery journal and
  the publication manifests. A table is the map of its rows by primary key. A statement of SQLite
  either takes effect as a whole or fails and changes nothing: which statements of a call fail is
  an argument. Every operation reads the clock once.
\<close>

section \<open>Rows and faults\<close>

record io_faults =
  io_read :: bool
  io_write :: bool
  io_delete :: bool

abbreviation no_faults :: io_faults where
  "no_faults \<equiv> \<lparr>io_read = False, io_write = False, io_delete = False\<rparr>"

record eph_row =
  ep_caller :: string
  ep_payload :: string
  ep_created :: time

type_synonym eph_table = "(string \<times> string, eph_row) gomap"

record eph_record =
  er_id :: string
  er_payload :: string
  er_created :: time

record mutation_row =
  mr_hash :: string
  mr_result :: string
  mr_created :: time

type_synonym mutation_table = "(string \<times> string \<times> string, mutation_row) gomap"

record recovery_row =
  rc_kind :: string
  rc_state :: string
  rc_payload :: string
  rc_updated :: time

type_synonym recovery_table = "(string, recovery_row) gomap"

record manifest_row =
  ma_source_revision :: string
  ma_output_revision :: string
  ma_hugo_version :: string
  ma_status :: string
  ma_observed_at :: time

type_synonym manifest_table = "(string, manifest_row) gomap"

section \<open>Records with a lifetime\<close>

definition outlived :: "duration \<Rightarrow> time \<Rightarrow> time \<Rightarrow> bool" where
  "outlived ttl now created \<longleftrightarrow> 0 < ttl \<and> ttl < now - created"

definition PutEphemeralRecord ::
    "io_faults \<Rightarrow> time \<Rightarrow> eph_table \<Rightarrow> string \<Rightarrow> string \<Rightarrow> string \<Rightarrow> string \<Rightarrow> time \<Rightarrow>
     eph_table \<times> string option" where
  "PutEphemeralRecord fl now t kind rid callerKey payload createdAt =
     (if kind = '''' \<or> rid = '''' \<or> payload = ''''
      then (t, Some ''ephemeral record: kind, id, and payload are required'')
      else
        (let createdAt = (if createdAt = zero_time then now else createdAt)
         in if io_write fl then (t, Some ''exec'')
            else (gput t (kind, rid)
                    \<lparr>ep_caller = callerKey, ep_payload = payload, ep_created = createdAt\<rparr>, None)))"

text \<open>The result is \<open>Inr None\<close> for a record that is absent, foreign or expired.\<close>

definition GetEphemeralRecord ::
    "io_faults \<Rightarrow> time \<Rightarrow> eph_table \<Rightarrow> string \<Rightarrow> string \<Rightarrow> string \<Rightarrow> duration \<Rightarrow>
     eph_table \<times> string option go" where
  "GetEphemeralRecord fl now t kind rid callerKey ttl =
     (if io_read fl then (t, Inl ''query'')
      else (case gget t (kind, rid) of
              None \<Rightarrow> (t, Inr None)
            | Some r \<Rightarrow>
                if ep_caller r \<noteq> callerKey then (t, Inr None)
                else if outlived ttl now (ep_created r)
                  then (if io_delete fl then t else gdel t (kind, rid), Inr None)
                else (t, Inr (Some (ep_payload r)))))"

definition DeleteEphemeralRecord ::
    "io_faults \<Rightarrow> eph_table \<Rightarrow> string \<Rightarrow> string \<Rightarrow> string \<Rightarrow> eph_table \<times> string option" where
  "DeleteEphemeralRecord fl t kind rid callerKey =
     (if io_delete fl then (t, Some ''exec'')
      else (gkeep (\<lambda>k r. \<not> (k = (kind, rid) \<and> ep_caller r = callerKey)) t, None))"

text \<open>
  \<open>order\<close> is SQLite's arrangement of the selected rows (\<open>ORDER BY created_at DESC\<close>). The expired
  rows are deleted after the loop, one statement each; the first failure abandons the call.
\<close>

definition list_live :: "time \<Rightarrow> duration \<Rightarrow> (string \<times> eph_row) list \<Rightarrow> eph_record list" where
  "list_live now ttl rows =
     map (\<lambda>(i, r). \<lparr>er_id = i, er_payload = ep_payload r, er_created = ep_created r\<rparr>)
       (filter (\<lambda>(i, r). \<not> outlived ttl now (ep_created r)) rows)"

fun delete_expired :: "(string \<Rightarrow> bool) \<Rightarrow> string \<Rightarrow> string list \<Rightarrow> eph_table \<Rightarrow> eph_table \<times> bool" where
  "delete_expired fails kind [] t = (t, True)"
| "delete_expired fails kind (i # is) t =
     (if fails i then (t, False) else delete_expired fails kind is (gdel t (kind, i)))"

definition ListEphemeralRecords ::
    "((string \<times> eph_row) list \<Rightarrow> (string \<times> eph_row) list) \<Rightarrow> bool \<Rightarrow> (string \<Rightarrow> bool) \<Rightarrow> time \<Rightarrow>
     eph_table \<Rightarrow> string \<Rightarrow> string \<Rightarrow> duration \<Rightarrow> eph_table \<times> eph_record list go" where
  "ListEphemeralRecords order read_fails del_fails now t kind callerKey ttl =
     (if read_fails then (t, Inl ''query'')
      else
        (let rows = order (map (\<lambda>((k, i), r). (i, r))
                             (filter (\<lambda>((k, i), r). k = kind \<and> ep_caller r = callerKey) t));
             expired = map fst (filter (\<lambda>(i, r). outlived ttl now (ep_created r)) rows)
         in (case delete_expired del_fails kind expired t of
               (t', False) \<Rightarrow> (t', Inl ''exec'')
             | (t', True) \<Rightarrow> (t', Inr (list_live now ttl rows)))))"

lemma put_eph_cases:
  assumes "PutEphemeralRecord fl now t kind i c p at = (t', err)"
  shows "(err = None \<and> t' = gput t (kind, i) \<lparr>ep_caller = c, ep_payload = p,
            ep_created = (if at = zero_time then now else at)\<rparr>) \<or> (err \<noteq> None \<and> t' = t)"
  using assms by (auto simp: PutEphemeralRecord_def Let_def split: if_splits)

lemma get_eph_other:
  assumes "GetEphemeralRecord fl now t kind i c ttl = (t', r)" "k \<noteq> (kind, i)"
  shows "gget t' k = gget t k"
  using assms by (auto simp: GetEphemeralRecord_def split: if_splits option.splits)

lemma get_eph_row:
  assumes "GetEphemeralRecord fl now t kind i c ttl = (t', r)"
  shows "gget t' k = Some row \<Longrightarrow> gget t k = Some row"
  using assms by (auto simp: GetEphemeralRecord_def split: if_splits option.splits)

lemma get_eph_wf:
  assumes "GetEphemeralRecord fl now t kind i c ttl = (t', r)" "wf_map t"
  shows "wf_map t'"
  using assms by (auto simp: GetEphemeralRecord_def split: if_splits option.splits)

lemma get_eph_Some:
  assumes "GetEphemeralRecord fl now t kind i c ttl = (t', Inr (Some p))"
  shows "t' = t" "\<exists>row. gget t (kind, i) = Some row \<and> ep_caller row = c \<and> ep_payload row = p \<and>
           \<not> outlived ttl now (ep_created row)"
  using assms by (auto simp: GetEphemeralRecord_def split: if_splits option.splits)

lemma get_eph_kept:
  assumes "GetEphemeralRecord fl now t kind i c ttl = (t', r)" "gget t k = Some row"
  shows "gget t' k = Some row \<or> outlived ttl now (ep_created row)"
  using assms by (auto simp: GetEphemeralRecord_def split: if_splits option.splits)

end
