(* ===== verification/TtlStore.thy ===== *)
theory TtlStore
  imports Journal
begin

text \<open>
  The stores of plans and snapshots in \<open>internal/tools/write\<close>: \<open>planStore\<close> (content_plan.go),
  \<open>bundlePlanStore\<close> and \<open>bundleSnapshotStore\<close> (bundle_plan.go) and \<open>snapshotStore\<close>
  (rollback_change.go). The source repeats one shape four times: a map under a mutex, pruned by
  age, trimmed to a maximum size oldest first, optionally backed by the table of records with a
  lifetime. The shape is defined once over a description of the entry type (record kind, error
  label, owner, creation time, JSON coding); the four stores are its instances. \<open>encoding/json\<close>
  enters as the two functions of the description. Each operation reads the clock once.
\<close>

section \<open>The shared shape\<close>

record 'e kind_ops =
  kd_name :: string
  kd_label :: string
  kd_caller :: "'e \<Rightarrow> string"
  kd_created :: "'e \<Rightarrow> time"
  kd_enc :: "'e \<Rightarrow> string option"
  kd_dec :: "string \<Rightarrow> 'e option"

record 'e ttl_store =
  ts_ttl :: duration
  ts_max :: int
  ts_entries :: "(string, 'e) gomap"
  ts_db :: "eph_table option"

definition new_store :: "duration \<Rightarrow> int \<Rightarrow> eph_table option \<Rightarrow> 'e ttl_store" where
  "new_store ttl maxEntries persistent =
     \<lparr>ts_ttl = ttl, ts_max = maxEntries, ts_entries = [], ts_db = persistent\<rparr>"

definition store_prune :: "'e kind_ops \<Rightarrow> time \<Rightarrow> 'e ttl_store \<Rightarrow> 'e ttl_store" where
  "store_prune kd now s =
     (if ts_ttl s \<le> 0 then s
      else s\<lparr>ts_entries := gkeep (\<lambda>i e. \<not> ts_ttl s < now - kd_created kd e) (ts_entries s)\<rparr>)"

text \<open>The inner loop of \<open>trimLocked\<close>: the first entry visited among the oldest.\<close>

fun oldest_entry :: "('e \<Rightarrow> time) \<Rightarrow> (string, 'e) gomap \<Rightarrow> (string \<times> time) option \<Rightarrow> (string \<times> time) option" where
  "oldest_entry created [] acc = acc"
| "oldest_entry created ((i, e) # m) acc =
     oldest_entry created m
       (case acc of None \<Rightarrow> Some (i, created e)
        | Some (j, at) \<Rightarrow> if created e < at then Some (i, created e) else acc)"

lemma oldest_entry_in:
  "oldest_entry created m acc = Some (i, at) \<Longrightarrow> i \<in> gdom m \<or> acc = Some (i, at)"
proof (induction created m acc rule: oldest_entry.induct)
  case (2 created j e m acc)
  then show ?case by (fastforce split: option.splits if_splits prod.splits)
qed simp

lemma oldest_entry_Some: "m \<noteq> [] \<or> acc \<noteq> None \<Longrightarrow> oldest_entry created m acc \<noteq> None"
  by (induction created m acc rule: oldest_entry.induct) (auto split: option.splits)

function trim_entries :: "('e \<Rightarrow> time) \<Rightarrow> int \<Rightarrow> (string, 'e) gomap \<Rightarrow> (string, 'e) gomap" where
  "trim_entries created maxEntries m =
     (if maxEntries \<le> 0 \<or> int (length m) \<le> maxEntries then m
      else (case oldest_entry created m None of
              None \<Rightarrow> m
            | Some (i, at) \<Rightarrow> trim_entries created maxEntries (gdel m i)))"
  by pat_completeness auto
termination
  by (relation "measure (\<lambda>(created, maxEntries, m). length m)")
     (auto dest!: oldest_entry_in intro: length_gdel_less)

declare trim_entries.simps [simp del]

definition store_trim :: "'e kind_ops \<Rightarrow> 'e ttl_store \<Rightarrow> 'e ttl_store" where
  "store_trim kd s = s\<lparr>ts_entries := trim_entries (kd_created kd) (ts_max s) (ts_entries s)\<rparr>"

definition store_put ::
    "'e kind_ops \<Rightarrow> io_faults \<Rightarrow> time \<Rightarrow> 'e ttl_store \<Rightarrow> string \<Rightarrow> 'e \<Rightarrow> 'e ttl_store \<times> string option" where
  "store_put kd fl now s0 i e =
     (let s = store_prune kd now s0;
          keep = (\<lambda>s. store_trim kd (s\<lparr>ts_entries := gput (ts_entries s) i e\<rparr>))
      in case ts_db s of
           None \<Rightarrow> (keep s, None)
         | Some t \<Rightarrow>
             (case kd_enc kd e of
                None \<Rightarrow> (s, Some ''marshal'')
              | Some raw \<Rightarrow>
                  (case PutEphemeralRecord fl now t (kd_name kd) i (kd_caller kd e) raw (kd_created kd e) of
                     (t', Some err) \<Rightarrow> (s\<lparr>ts_db := Some t'\<rparr>, Some err)
                   | (t', None) \<Rightarrow> (keep (s\<lparr>ts_db := Some t'\<rparr>), None))))"

text \<open>
  The lookup that \<open>get\<close> and \<open>consume\<close> share: memory first, then the table. \<open>get\<close> caches a row it
  has read back, \<open>consume\<close> does not.
\<close>

definition store_fetch ::
    "'e kind_ops \<Rightarrow> bool \<Rightarrow> io_faults \<Rightarrow> time \<Rightarrow> 'e ttl_store \<Rightarrow> string \<Rightarrow> string \<Rightarrow>
     'e ttl_store \<times> 'e option go" where
  "store_fetch kd cache fl now s i callerKey =
     (case (gget (ts_entries s) i, ts_db s) of
        (Some e, _) \<Rightarrow> (s, Inr (Some e))
      | (None, None) \<Rightarrow> (s, Inr None)
      | (None, Some t) \<Rightarrow>
          (case GetEphemeralRecord fl now t (kd_name kd) i callerKey (ts_ttl s) of
             (t', Inl err) \<Rightarrow> (s\<lparr>ts_db := Some t'\<rparr>, Inl (''read persisted '' @ kd_label kd))
           | (t', Inr None) \<Rightarrow> (s\<lparr>ts_db := Some t'\<rparr>, Inr None)
           | (t', Inr (Some raw)) \<Rightarrow>
               (let s' = s\<lparr>ts_db := Some t'\<rparr>
                in case kd_dec kd raw of
                     None \<Rightarrow> (s', Inl (''decode persisted '' @ kd_label kd))
                   | Some e \<Rightarrow>
                       (if cache then s'\<lparr>ts_entries := gput (ts_entries s') i e\<rparr> else s', Inr (Some e)))))"

definition store_get ::
    "'e kind_ops \<Rightarrow> io_faults \<Rightarrow> time \<Rightarrow> 'e ttl_store \<Rightarrow> string \<Rightarrow> string \<Rightarrow>
     'e ttl_store \<times> 'e option go" where
  "store_get kd fl now s i callerKey =
     (case store_fetch kd True fl now (store_prune kd now s) i callerKey of
        (s', Inr (Some e)) \<Rightarrow>
          (s', if kd_caller kd e \<noteq> '''' \<and> kd_caller kd e \<noteq> callerKey then Inr None else Inr (Some e))
      | (s', r) \<Rightarrow> (s', r))"

definition store_consume ::
    "'e kind_ops \<Rightarrow> io_faults \<Rightarrow> time \<Rightarrow> 'e ttl_store \<Rightarrow> string \<Rightarrow> string \<Rightarrow>
     'e ttl_store \<times> 'e option go" where
  "store_consume kd fl now s i callerKey =
     (case store_fetch kd False fl now (store_prune kd now s) i callerKey of
        (s', Inr (Some e)) \<Rightarrow>
          (if kd_caller kd e \<noteq> '''' \<and> kd_caller kd e \<noteq> callerKey then (s', Inr None)
           else (case ts_db s' of
                   None \<Rightarrow> (s'\<lparr>ts_entries := gdel (ts_entries s') i\<rparr>, Inr (Some e))
                 | Some t \<Rightarrow>
                     (case DeleteEphemeralRecord fl t (kd_name kd) i callerKey of
                        (t', Some err) \<Rightarrow> (s'\<lparr>ts_db := Some t'\<rparr>, Inl err)
                      | (t', None) \<Rightarrow>
                          (s'\<lparr>ts_db := Some t', ts_entries := gdel (ts_entries s') i\<rparr>, Inr (Some e)))))
      | (s', r) \<Rightarrow> (s', r))"

text \<open>
  \<open>list\<close> first loads the caller's rows whose identifier satisfies \<open>P\<close>, then reads the map. An
  undecodable row abandons the call with the rows before it loaded.
\<close>

fun load_records ::
    "'e kind_ops \<Rightarrow> (string \<Rightarrow> bool) \<Rightarrow> eph_record list \<Rightarrow> (string, 'e) gomap \<Rightarrow>
     (string, 'e) gomap \<times> bool" where
  "load_records kd P [] m = (m, True)"
| "load_records kd P (r # rs) m =
     (if \<not> P (er_id r) then load_records kd P rs m
      else (case kd_dec kd (er_payload r) of
              None \<Rightarrow> (m, False)
            | Some e \<Rightarrow> load_records kd P rs (gput m (er_id r) e)))"

definition store_list ::
    "'e kind_ops \<Rightarrow> (string \<Rightarrow> bool) \<Rightarrow> ((string \<times> eph_row) list \<Rightarrow> (string \<times> eph_row) list) \<Rightarrow>
     bool \<Rightarrow> (string \<Rightarrow> bool) \<Rightarrow> time \<Rightarrow> 'e ttl_store \<Rightarrow> string \<Rightarrow>
     'e ttl_store \<times> (string \<times> 'e) list go" where
  "store_list kd P order read_fails del_fails now s0 callerKey =
     (let s = store_prune kd now s0;
          visible = (\<lambda>m. filter (\<lambda>(i, e). P i \<and> (kd_caller kd e = '''' \<or> kd_caller kd e = callerKey)) m)
      in case ts_db s of
           None \<Rightarrow> (s, Inr (visible (ts_entries s)))
         | Some t \<Rightarrow>
             (case ListEphemeralRecords order read_fails del_fails now t (kd_name kd) callerKey (ts_ttl s) of
                (t', Inl err) \<Rightarrow> (s\<lparr>ts_db := Some t'\<rparr>, Inl (''list persisted '' @ kd_label kd @ ''s''))
              | (t', Inr records) \<Rightarrow>
                  (case load_records kd P records (ts_entries s) of
                     (m, False) \<Rightarrow> (s\<lparr>ts_db := Some t', ts_entries := m\<rparr>, Inl (''decode persisted '' @ kd_label kd))
                   | (m, True) \<Rightarrow> (s\<lparr>ts_db := Some t', ts_entries := m\<rparr>, Inr (visible m)))))"

section \<open>Runs of one store and the ledger\<close>

text \<open>
  A call of a store. \<open>COther\<close> is what anything else does to the shared table: it may change every
  row of another kind. \<open>CRestart\<close> is a new process on the same database.
\<close>

datatype 'e store_call =
    CPut io_faults time string 'e
  | CGet io_faults time string string
  | CConsume io_faults time string string
  | CList "string \<Rightarrow> bool" "(string \<times> eph_row) list \<Rightarrow> (string \<times> eph_row) list" bool "string \<Rightarrow> bool"
      time string
  | COther eph_table
  | CRestart

fun apply_call :: "'e kind_ops \<Rightarrow> 'e ttl_store \<Rightarrow> 'e store_call \<Rightarrow> 'e ttl_store \<times> 'e option go" where
  "apply_call kd s (CPut fl now i e) =
     (case store_put kd fl now s i e of
        (s', None) \<Rightarrow> (s', Inr None) | (s', Some err) \<Rightarrow> (s', Inl err))"
| "apply_call kd s (CGet fl now i k) = store_get kd fl now s i k"
| "apply_call kd s (CConsume fl now i k) = store_consume kd fl now s i k"
| "apply_call kd s (CList P order rf df now k) =
     (case store_list kd P order rf df now s k of
        (s', Inl err) \<Rightarrow> (s', Inl err) | (s', Inr xs) \<Rightarrow> (s', Inr None))"
| "apply_call kd s (COther t) =
     (case ts_db s of None \<Rightarrow> (s, Inr None) | Some t0 \<Rightarrow> (s\<lparr>ts_db := Some t\<rparr>, Inr None))"
| "apply_call kd s CRestart = (s\<lparr>ts_entries := []\<rparr>, Inr None)"

fun call_time :: "'e store_call \<Rightarrow> time option" where
  "call_time (CPut fl now i e) = Some now"
| "call_time (CGet fl now i k) = Some now"
| "call_time (CConsume fl now i k) = Some now"
| "call_time (CList P order rf df now k) = Some now"
| "call_time (COther t) = None"
| "call_time CRestart = None"

text \<open>If the entry has a JSON coding, it keeps the entry, as \<open>encoding/json\<close> does for valid UTF-8 text.\<close>

definition survives :: "'e kind_ops \<Rightarrow> 'e \<Rightarrow> bool" where
  "survives kd e \<longleftrightarrow>
     (case kd_enc kd e of None \<Rightarrow> True | Some raw \<Rightarrow> raw \<noteq> '''' \<and> kd_dec kd raw = Some e)"

text \<open>
  The calls the server makes: an entry has an owner (\<open>mutationCallerKey\<close> and
  \<open>isolationCallerKey\<close> fall back to a non-empty word) and a creation time, the clock does not run
  backwards, and everything else leaves the rows of this kind alone.
\<close>

fun proper_call :: "'e kind_ops \<Rightarrow> 'e ttl_store \<Rightarrow> 'e store_call \<Rightarrow> bool" where
  "proper_call kd s (CPut fl now i e) \<longleftrightarrow>
     kd_caller kd e \<noteq> '''' \<and> kd_created kd e \<noteq> zero_time \<and> survives kd e"
| "proper_call kd s (COther t) \<longleftrightarrow>
     wf_map t \<and> (case ts_db s of None \<Rightarrow> True
                   | Some t0 \<Rightarrow> \<forall>i. gget t (kd_name kd, i) = gget t0 (kd_name kd, i))"
| "proper_call kd s (CList P order rf df now k) \<longleftrightarrow> (\<forall>rows. set (order rows) = set rows)"
| "proper_call kd s c \<longleftrightarrow> True"

text \<open>The ledger: the entries put and not yet consumed.\<close>

fun ledger_step :: "'e store_call \<Rightarrow> 'e option go \<Rightarrow> (string \<Rightarrow> 'e option) \<Rightarrow> (string \<Rightarrow> 'e option)" where
  "ledger_step (CPut fl now i e) (Inr r) L = L(i \<mapsto> e)"
| "ledger_step (CConsume fl now i k) (Inr (Some e)) L = L(i := None)"
| "ledger_step c r L = L"

inductive ledger_run ::
    "'e kind_ops \<Rightarrow> duration \<Rightarrow> int \<Rightarrow> (string \<Rightarrow> 'e option) \<Rightarrow> time \<Rightarrow> 'e ttl_store \<Rightarrow> bool"
  for kd ttl maxEntries where
  start: "(\<forall>t. db = Some t \<longrightarrow> wf_map t \<and> (\<forall>i. gget t (kd_name kd, i) = None)) \<Longrightarrow>
    ledger_run kd ttl maxEntries (\<lambda>i. None) now (new_store ttl maxEntries db)"
| step: "ledger_run kd ttl maxEntries L now s \<Longrightarrow> proper_call kd s c \<Longrightarrow>
    (\<forall>at. call_time c = Some at \<longrightarrow> now \<le> at) \<Longrightarrow> apply_call kd s c = (s', r) \<Longrightarrow>
    ledger_run kd ttl maxEntries (ledger_step c r L)
      (case call_time c of None \<Rightarrow> now | Some at \<Rightarrow> at) s'"

section \<open>The invariant\<close>

definition row_of :: "'e kind_ops \<Rightarrow> 'e \<Rightarrow> eph_row \<Rightarrow> bool" where
  "row_of kd e row \<longleftrightarrow> ep_caller row = kd_caller kd e \<and> ep_created row = kd_created kd e \<and>
     kd_dec kd (ep_payload row) = Some e"

definition mem_ok :: "(string \<Rightarrow> 'e option) \<Rightarrow> (string, 'e) gomap \<Rightarrow> bool" where
  "mem_ok L m \<longleftrightarrow> wf_map m \<and> (\<forall>i e. gget m i = Some e \<longrightarrow> L i = Some e)"

definition table_ok ::
    "'e kind_ops \<Rightarrow> duration \<Rightarrow> time \<Rightarrow> (string \<Rightarrow> 'e option) \<Rightarrow> eph_table \<Rightarrow> bool" where
  "table_ok kd ttl now L t \<longleftrightarrow> wf_map t \<and>
     (\<forall>i row. gget t (kd_name kd, i) = Some row \<longrightarrow> (\<exists>e. L i = Some e \<and> row_of kd e row)) \<and>
     (\<forall>i e. L i = Some e \<longrightarrow> gget t (kd_name kd, i) \<noteq> None \<or> outlived ttl now (kd_created kd e))"

definition store_ok ::
    "'e kind_ops \<Rightarrow> duration \<Rightarrow> int \<Rightarrow> (string \<Rightarrow> 'e option) \<Rightarrow> time \<Rightarrow> 'e ttl_store \<Rightarrow> bool" where
  "store_ok kd ttl maxEntries L now s \<longleftrightarrow>
     ts_ttl s = ttl \<and> ts_max s = maxEntries \<and> mem_ok L (ts_entries s) \<and>
     (\<forall>i e. L i = Some e \<longrightarrow> kd_caller kd e \<noteq> '''') \<and>
     (\<forall>t. ts_db s = Some t \<longrightarrow> table_ok kd ttl now L t)"

lemma outlived_mono: "outlived ttl now at \<Longrightarrow> now \<le> now' \<Longrightarrow> outlived ttl now' at"
  by (auto simp: outlived_def)

lemma mem_ok_keep: "mem_ok L m \<Longrightarrow> mem_ok L (gkeep P m)"
  by (auto simp: mem_ok_def gget_keep_Some)

lemma mem_ok_put: "mem_ok L m \<Longrightarrow> L i = Some e \<Longrightarrow> mem_ok L (gput m i e)"
  by (auto simp: mem_ok_def)

lemma mem_ok_del: "mem_ok L m \<Longrightarrow> mem_ok L (gdel m i)"
  by (auto simp: mem_ok_def split: if_splits)

lemma mem_ok_forget: "mem_ok L m \<Longrightarrow> mem_ok (L(i := None)) (gdel m i)"
  by (auto simp: mem_ok_def split: if_splits)

lemma mem_ok_new: "mem_ok L m \<Longrightarrow> mem_ok (L(i \<mapsto> e)) (gput m i e)"
  by (auto simp: mem_ok_def split: if_splits)

lemma mem_ok_trim: "mem_ok L m \<Longrightarrow> mem_ok L (trim_entries created mx m)"
  by (induction created mx m rule: trim_entries.induct)
     (subst trim_entries.simps, auto simp: mem_ok_del split: option.splits)

lemma table_ok_later: "table_ok kd ttl now L t \<Longrightarrow> now \<le> now' \<Longrightarrow> table_ok kd ttl now' L t"
  unfolding table_ok_def using outlived_mono by blast

lemma prune_entries:
  "store_prune kd now s = s\<lparr>ts_entries := gkeep (\<lambda>i e. \<not> outlived (ts_ttl s) now (kd_created kd e)) (ts_entries s)\<rparr>"
  by (auto simp: store_prune_def outlived_def gkeep_def)

lemma store_ok_prune:
  "store_ok kd ttl mx L now s \<Longrightarrow> now \<le> now' \<Longrightarrow> store_ok kd ttl mx L now' (store_prune kd now' s)"
  by (simp add: store_ok_def prune_entries mem_ok_keep) (blast intro: table_ok_later)

lemma pruned_fresh:
  "wf_map (ts_entries s) \<Longrightarrow> gget (ts_entries (store_prune kd now s)) i = Some e \<Longrightarrow>
   \<not> outlived (ts_ttl s) now (kd_created kd e)"
  by (simp add: prune_entries gget_keep_Some)

lemma trim_size: "0 < mx \<Longrightarrow> int (length (trim_entries created mx m)) \<le> mx"
proof (induction created mx m rule: trim_entries.induct)
  case (1 created mx m)
  show ?case
  proof (cases "int (length m) \<le> mx")
    case True
    then show ?thesis by (simp add: trim_entries.simps [of created mx m])
  next
    case False
    then have "m \<noteq> []" using "1.prems" by auto
    then obtain i at where o: "oldest_entry created m None = Some (i, at)"
      using oldest_entry_Some [of m None created] by (cases "oldest_entry created m None") auto
    show ?thesis
      using "1.IH" [OF _ o] False "1.prems" by (simp add: trim_entries.simps [of created mx m] o)
  qed
qed

lemma table_ok_subset:
  assumes "table_ok kd ttl now L t" "wf_map t'"
    and "\<And>k row. gget t' k = Some row \<Longrightarrow> gget t k = Some row"
    and "\<And>k row. gget t k = Some row \<Longrightarrow> gget t' k = Some row \<or> outlived ttl now (ep_created row)"
  shows "table_ok kd ttl now L t'"
  unfolding table_ok_def
proof (intro conjI allI impI)
  fix i e assume L: "L i = Some e"
  then consider row where "gget t (kd_name kd, i) = Some row" | "outlived ttl now (kd_created kd e)"
    using assms(1) unfolding table_ok_def not_None_eq by blast
  then show "gget t' (kd_name kd, i) \<noteq> None \<or> outlived ttl now (kd_created kd e)"
  proof cases
    case 1
    moreover from this have "ep_created row = kd_created kd e"
      using assms(1) L by (fastforce simp: table_ok_def row_of_def)
    ultimately show ?thesis using assms(4) by fastforce
  qed simp
qed (use assms in \<open>auto simp: table_ok_def\<close>)

lemma store_ok_table:
  "store_ok kd ttl mx L now s \<Longrightarrow> table_ok kd ttl now L t \<Longrightarrow> store_ok kd ttl mx L now (s\<lparr>ts_db := Some t\<rparr>)"
  by (simp add: store_ok_def)

lemma store_ok_entries:
  "store_ok kd ttl mx L now s \<Longrightarrow> mem_ok L m \<Longrightarrow> store_ok kd ttl mx L now (s\<lparr>ts_entries := m\<rparr>)"
  by (simp add: store_ok_def)

lemma store_ok_mem: "store_ok kd ttl mx L now s \<Longrightarrow> mem_ok L (ts_entries s)"
  by (simp add: store_ok_def)

lemma store_ok_db: "store_ok kd ttl mx L now s \<Longrightarrow> ts_db s = Some t \<Longrightarrow> table_ok kd ttl now L t"
  by (simp add: store_ok_def)

lemma get_table_ok:
  assumes "store_ok kd ttl mx L now s" "ts_db s = Some t"
    and "GetEphemeralRecord fl now t kind i k (ts_ttl s) = (t', r)"
  shows "table_ok kd ttl now L t'"
proof (rule table_ok_subset [OF store_ok_db [OF assms(1,2)]])
  have "ts_ttl s = ttl" using assms(1) by (simp add: store_ok_def)
  then show "gget t' k = Some row \<or> outlived ttl now (ep_created row)"
    if "gget t k = Some row" for k row
    using get_eph_kept [OF assms(3) that] by simp
  show "wf_map t'"
    using get_eph_wf [OF assms(3)] store_ok_db [OF assms(1,2)] by (simp add: table_ok_def)
qed (rule get_eph_row [OF assms(3)])

lemma fetched_row:
  assumes "store_ok kd ttl mx L now s" "ts_db s = Some t"
    and "GetEphemeralRecord fl now t (kd_name kd) i k (ts_ttl s) = (t', Inr (Some raw))"
  shows "\<exists>e. L i = Some e \<and> kd_dec kd raw = Some e \<and> kd_caller kd e = k \<and> \<not> outlived ttl now (kd_created kd e)"
proof -
  have ttl: "ts_ttl s = ttl" using assms(1) by (simp add: store_ok_def)
  obtain row where "gget t (kd_name kd, i) = Some row" "ep_caller row = k" "ep_payload row = raw"
      "\<not> outlived ttl now (ep_created row)"
    using get_eph_Some [OF assms(3)] ttl by auto
  then show ?thesis
    using store_ok_db [OF assms(1,2)] by (fastforce simp: table_ok_def row_of_def)
qed

lemma fetch_ok:
  assumes ok: "store_ok kd ttl mx L now s" and f: "store_fetch kd cache fl now s i k = (s', r)"
  shows "store_ok kd ttl mx L now s'"
    and "r = Inr (Some e) \<Longrightarrow> L i = Some e"
    and "r = Inr (Some e) \<Longrightarrow> gget (ts_entries s) i = Some e \<or>
           kd_caller kd e = k \<and> \<not> outlived ttl now (kd_created kd e)"
    and "ts_db s' = None \<longleftrightarrow> ts_db s = None"
proof -
  have "store_ok kd ttl mx L now s' \<and> (r = Inr (Some e) \<longrightarrow> L i = Some e \<and>
     (gget (ts_entries s) i = Some e \<or> kd_caller kd e = k \<and> \<not> outlived ttl now (kd_created kd e)))
     \<and> (ts_db s' = None \<longleftrightarrow> ts_db s = None)"
  proof (cases "gget (ts_entries s) i")
    case (Some e')
    then show ?thesis using f ok by (auto simp: store_fetch_def store_ok_def mem_ok_def)
  next
    case none: None
    show ?thesis
    proof (cases "ts_db s")
      case None
      then show ?thesis using f ok none by (auto simp: store_fetch_def)
    next
      case (Some t)
      obtain t' q where g: "GetEphemeralRecord fl now t (kd_name kd) i k (ts_ttl s) = (t', q)"
        by fastforce
      have t': "store_ok kd ttl mx L now (s\<lparr>ts_db := Some t'\<rparr>)"
        using store_ok_table [OF ok get_table_ok [OF ok Some g]] .
      show ?thesis
      proof (cases "\<exists>raw. q = Inr (Some raw)")
        case True
        then obtain raw where q: "q = Inr (Some raw)" ..
        obtain e' where e': "L i = Some e'" "kd_dec kd raw = Some e'" "kd_caller kd e' = k"
            "\<not> outlived ttl now (kd_created kd e')"
          using fetched_row [OF ok Some g [unfolded q]] by blast
        have "store_ok kd ttl mx L now (s\<lparr>ts_db := Some t', ts_entries := gput (ts_entries s) i e'\<rparr>)"
          using store_ok_entries [OF t' mem_ok_put [OF store_ok_mem [OF ok] e'(1)]] by simp
        then show ?thesis
          using f none Some g q e' t' by (auto simp: store_fetch_def Let_def split: if_splits)
      next
        case False
        then show ?thesis
          using f none Some g t' by (auto simp: store_fetch_def split: sum.splits option.splits)
      qed
    qed
  qed
  then show "store_ok kd ttl mx L now s'" "r = Inr (Some e) \<Longrightarrow> L i = Some e"
    "r = Inr (Some e) \<Longrightarrow> gget (ts_entries s) i = Some e \<or>
       kd_caller kd e = k \<and> \<not> outlived ttl now (kd_created kd e)"
    "ts_db s' = None \<longleftrightarrow> ts_db s = None" by blast+
qed

lemma fetch_durable:
  assumes ok: "store_ok kd ttl mx L now s" and db: "ts_db s = Some t"
    and f: "store_fetch kd cache no_faults now s i k = (s', r)"
  shows "r = Inr (case L i of None \<Rightarrow> None
           | Some e \<Rightarrow> if gget (ts_entries s) i = Some e \<or>
                        kd_caller kd e = k \<and> \<not> outlived ttl now (kd_created kd e) then Some e else None)"
proof (cases "gget (ts_entries s) i")
  case (Some e)
  then have "L i = Some e" using store_ok_mem [OF ok] by (simp add: mem_ok_def)
  then show ?thesis using Some f by (auto simp: store_fetch_def)
next
  case none: None
  have ttl: "ts_ttl s = ttl" using ok by (simp add: store_ok_def)
  have tab: "table_ok kd ttl now L t" using store_ok_db [OF ok db] .
  show ?thesis
  proof (cases "gget t (kd_name kd, i)")
    case None
    then have "\<And>e. L i = Some e \<Longrightarrow> outlived ttl now (kd_created kd e)"
      using tab unfolding table_ok_def by blast
    then show ?thesis
      using f none db None by (auto simp: store_fetch_def GetEphemeralRecord_def split: option.splits)
  next
    case (Some row)
    then obtain e where "L i = Some e" "row_of kd e row"
      using tab unfolding table_ok_def by blast
    then show ?thesis
      using f none db Some ttl
      by (auto simp: store_fetch_def GetEphemeralRecord_def row_of_def Let_def split: if_splits)
  qed
qed

section \<open>Each call keeps the invariant and agrees with the ledger\<close>

lemma put_ok:
  assumes ok: "store_ok kd ttl mx L now s" and le: "now \<le> at"
    and e: "kd_caller kd e \<noteq> ''''" "kd_created kd e \<noteq> zero_time" "survives kd e"
    and p: "store_put kd fl at s i e = (s', err)"
  shows "store_ok kd ttl mx (if err = None then L(i \<mapsto> e) else L) at s'"
proof -
  let ?s = "store_prune kd at s"
  have ok': "store_ok kd ttl mx L at ?s" by (rule store_ok_prune [OF ok le])
  have keep: "store_ok kd ttl mx (L(i \<mapsto> e)) at (store_trim kd (u\<lparr>ts_entries := gput (ts_entries u) i e\<rparr>))"
    if "ts_ttl u = ttl" "ts_max u = mx" "ts_entries u = ts_entries ?s"
      and "\<And>t. ts_db u = Some t \<Longrightarrow> table_ok kd ttl at (L(i \<mapsto> e)) t" for u
    using ok' e that by (auto simp: store_ok_def store_trim_def intro!: mem_ok_trim mem_ok_new)
  have sel: "ts_ttl ?s = ttl" "ts_max ?s = mx" "ts_db ?s = ts_db s"
    using ok' by (auto simp: store_ok_def prune_entries)
  show ?thesis
  proof (cases "ts_db s")
    case None
    then show ?thesis using p keep [of ?s] sel by (auto simp: store_put_def Let_def)
  next
    case (Some t)
    show ?thesis
    proof (cases "kd_enc kd e")
      case None
      then show ?thesis using p Some sel ok' by (auto simp: store_put_def Let_def)
    next
      case (Some raw)
      then have raw: "kd_enc kd e = Some raw" "kd_dec kd raw = Some e"
        using e(3) by (auto simp: survives_def)
      note Some = \<open>ts_db s = Some t\<close>
      obtain t' er where pe: "PutEphemeralRecord fl at t (kd_name kd) i (kd_caller kd e) raw (kd_created kd e) = (t', er)"
        by fastforce
      have tab: "table_ok kd ttl at L t" using store_ok_db [OF ok', of t] sel Some by simp
      show ?thesis
      proof (cases er)
        case None
        then have t': "t' = gput t (kd_name kd, i)
            \<lparr>ep_caller = kd_caller kd e, ep_payload = raw, ep_created = kd_created kd e\<rparr>"
          using put_eph_cases [OF pe] e(2) by simp
        have "table_ok kd ttl at (L(i \<mapsto> e)) t'"
          unfolding t' using tab raw by (auto simp: table_ok_def row_of_def)
        then show ?thesis
          using p Some raw pe None sel keep [of "?s\<lparr>ts_db := Some t'\<rparr>"]
          by (auto simp: store_put_def Let_def)
      next
        case (Some er')
        then have "t' = t" using put_eph_cases [OF pe] by simp
        then show ?thesis
          using p \<open>ts_db s = Some t\<close> raw pe Some sel ok'
          by (auto simp: store_put_def Let_def store_ok_def)
      qed
    qed
  qed
qed

lemma get_ok:
  assumes ok: "store_ok kd ttl mx L now s" and le: "now \<le> at"
    and g: "store_get kd fl at s i k = (s', r)"
  shows "store_ok kd ttl mx L at s'"
    and "r = Inr (Some e) \<Longrightarrow> L i = Some e \<and> kd_caller kd e = k \<and> \<not> outlived ttl at (kd_created kd e)"
proof -
  have ok': "store_ok kd ttl mx L at (store_prune kd at s)" by (rule store_ok_prune [OF ok le])
  obtain u q where f: "store_fetch kd True fl at (store_prune kd at s) i k = (u, q)" by fastforce
  note F = fetch_ok [OF ok' f]
  have "s' = u" using g f by (auto simp: store_get_def split: sum.splits option.splits)
  then show "store_ok kd ttl mx L at s'" using F(1) by simp
  assume "r = Inr (Some e)"
  then have q: "q = Inr (Some e)" and c: "kd_caller kd e = '''' \<or> kd_caller kd e = k"
    using g f by (auto simp: store_get_def split: sum.splits option.splits if_splits)
  have w: "wf_map (ts_entries s)" "ts_ttl s = ttl"
    using ok by (auto simp: store_ok_def mem_ok_def)
  have "L i = Some e" using F(2) [OF q] .
  moreover from this have "kd_caller kd e \<noteq> ''''" using ok by (auto simp: store_ok_def)
  ultimately show "L i = Some e \<and> kd_caller kd e = k \<and> \<not> outlived ttl at (kd_created kd e)"
    using c F(3) [OF q] pruned_fresh [OF w(1), of kd at i e] w(2) by auto
qed

lemma get_durable:
  assumes ok: "store_ok kd ttl mx L now s" and le: "now \<le> at" and db: "ts_db s \<noteq> None"
    and g: "store_get kd no_faults at s i k = (s', r)"
    and L: "L i = Some e" "kd_caller kd e = k" "\<not> outlived ttl at (kd_created kd e)"
  shows "r = Inr (Some e)"
proof -
  have ok': "store_ok kd ttl mx L at (store_prune kd at s)" by (rule store_ok_prune [OF ok le])
  obtain t where db': "ts_db (store_prune kd at s) = Some t" using db by (auto simp: prune_entries)
  obtain u q where f: "store_fetch kd True no_faults at (store_prune kd at s) i k = (u, q)" by fastforce
  show ?thesis using fetch_durable [OF ok' db' f] L g f by (auto simp: store_get_def)
qed

lemma table_ok_consume:
  assumes tab: "table_ok kd ttl now L t" and L: "L i = Some e" "kd_caller kd e = k"
    and d: "DeleteEphemeralRecord fl t (kd_name kd) i k = (t', None)"
  shows "table_ok kd ttl now (L(i := None)) t'" and "gget t' (kd_name kd, i) = None"
proof -
  have t': "t' = gkeep (\<lambda>q r. \<not> (q = (kd_name kd, i) \<and> ep_caller r = k)) t"
    using d by (simp add: DeleteEphemeralRecord_def split: if_splits)
  have wf: "wf_map t" using tab by (simp add: table_ok_def)
  show gone: "gget t' (kd_name kd, i) = None"
    using tab L wf unfolding t' table_ok_def row_of_def
    by (fastforce simp: gget_keep split: option.splits)
  have other: "gget t' (kd_name kd, j) = gget t (kd_name kd, j)" if "j \<noteq> i" for j
    using that wf by (auto simp: t' gget_keep split: option.splits)
  show "table_ok kd ttl now (L(i := None)) t'"
    unfolding table_ok_def
  proof (intro conjI allI impI)
    show "wf_map t'" using wf by (simp add: t')
    fix j row assume "gget t' (kd_name kd, j) = Some row"
    moreover from this gone have "j \<noteq> i" by auto
    ultimately show "\<exists>e. (L(i := None)) j = Some e \<and> row_of kd e row"
      using other tab by (auto simp: table_ok_def)
  next
    fix j e' assume "(L(i := None)) j = Some e'"
    then have j: "j \<noteq> i" "L j = Some e'" by (auto split: if_splits)
    then show "gget t' (kd_name kd, j) \<noteq> None \<or> outlived ttl now (kd_created kd e')"
      using other [OF j(1)] tab unfolding table_ok_def by metis
  qed
qed

lemma consume_ok:
  assumes ok: "store_ok kd ttl mx L now s" and le: "now \<le> at"
    and c: "store_consume kd fl at s i k = (s', r)"
  shows "store_ok kd ttl mx (case r of Inr (Some e) \<Rightarrow> L(i := None) | _ \<Rightarrow> L) at s'"
    and "r = Inr (Some e) \<Longrightarrow> L i = Some e \<and> kd_caller kd e = k \<and> \<not> outlived ttl at (kd_created kd e)"
    and "r = Inr (Some e) \<Longrightarrow> gget (ts_entries s') i = None \<and>
           (\<forall>t. ts_db s' = Some t \<longrightarrow> gget t (kd_name kd, i) = None)"
proof -
  have ok': "store_ok kd ttl mx L at (store_prune kd at s)" by (rule store_ok_prune [OF ok le])
  obtain u q where f: "store_fetch kd False fl at (store_prune kd at s) i k = (u, q)" by fastforce
  note F = fetch_ok [OF ok' f]
  have w: "wf_map (ts_entries s)" "ts_ttl s = ttl"
    using ok by (auto simp: store_ok_def mem_ok_def)
  have "store_ok kd ttl mx (case r of Inr (Some e) \<Rightarrow> L(i := None) | _ \<Rightarrow> L) at s' \<and>
    (\<forall>e. r = Inr (Some e) \<longrightarrow> L i = Some e \<and> kd_caller kd e = k \<and> \<not> outlived ttl at (kd_created kd e) \<and>
      gget (ts_entries s') i = None \<and> (\<forall>t. ts_db s' = Some t \<longrightarrow> gget t (kd_name kd, i) = None))"
  proof (cases "\<exists>e. q = Inr (Some e) \<and> (kd_caller kd e = '''' \<or> kd_caller kd e = k)")
    case False
    then have "s' = u" "\<And>e. r \<noteq> Inr (Some e)"
      using c f by (auto simp: store_consume_def split: sum.splits option.splits if_splits)
    then show ?thesis using F(1) by (auto split: sum.splits option.splits)
  next
    case True
    then obtain e where q: "q = Inr (Some e)" and k: "kd_caller kd e = '''' \<or> kd_caller kd e = k" by blast
    have L: "L i = Some e" using F(2) [OF q] .
    moreover from this have "kd_caller kd e \<noteq> ''''" using ok by (auto simp: store_ok_def)
    ultimately have e: "kd_caller kd e = k" "\<not> outlived ttl at (kd_created kd e)"
      using k F(3) [OF q] pruned_fresh [OF w(1), of kd at i e] w(2) by auto
    have owners: "\<And>j e. (L(i := None)) j = Some e \<Longrightarrow> kd_caller kd e \<noteq> ''''"
      using ok by (auto simp: store_ok_def split: if_splits)
    show ?thesis
    proof (cases "ts_db u")
      case None
      then show ?thesis
        using c f q e L owners F(1)
        by (auto simp: store_consume_def store_ok_def mem_ok_forget split: if_splits)
    next
      case (Some t)
      obtain t' er where d: "DeleteEphemeralRecord fl t (kd_name kd) i k = (t', er)" by fastforce
      show ?thesis
      proof (cases er)
        case None
        note T = table_ok_consume [OF store_ok_db [OF F(1) Some] L e(1) d [unfolded None]]
        have "s' = u\<lparr>ts_db := Some t', ts_entries := gdel (ts_entries u) i\<rparr>" "r = Inr (Some e)"
          using c f q e Some d None by (auto simp: store_consume_def split: if_splits)
        then show ?thesis
          using L e owners F(1) T by (auto simp: store_ok_def mem_ok_forget split: if_splits)
      next
        case er: (Some err)
        then have "t' = t" using d by (auto simp: DeleteEphemeralRecord_def split: if_splits)
        then have "s' = u" "r = Inl err"
          using c f q e Some d er by (auto simp: store_consume_def split: if_splits)
        then show ?thesis using F(1) by simp
      qed
    qed
  qed
  then show "store_ok kd ttl mx (case r of Inr (Some e) \<Rightarrow> L(i := None) | _ \<Rightarrow> L) at s'"
    "r = Inr (Some e) \<Longrightarrow> L i = Some e \<and> kd_caller kd e = k \<and> \<not> outlived ttl at (kd_created kd e)"
    "r = Inr (Some e) \<Longrightarrow> gget (ts_entries s') i = None \<and>
       (\<forall>t. ts_db s' = Some t \<longrightarrow> gget t (kd_name kd, i) = None)" by blast+
qed

lemma consume_durable:
  assumes ok: "store_ok kd ttl mx L now s" and le: "now \<le> at" and db: "ts_db s \<noteq> None"
    and c: "store_consume kd no_faults at s i k = (s', r)"
    and L: "L i = Some e" "kd_caller kd e = k" "\<not> outlived ttl at (kd_created kd e)"
  shows "r = Inr (Some e)"
proof -
  have ok': "store_ok kd ttl mx L at (store_prune kd at s)" by (rule store_ok_prune [OF ok le])
  obtain t where db': "ts_db (store_prune kd at s) = Some t" using db by (auto simp: prune_entries)
  obtain u q where f: "store_fetch kd False no_faults at (store_prune kd at s) i k = (u, q)" by fastforce
  have "q = Inr (Some e)" using fetch_durable [OF ok' db' f] L by auto
  then show ?thesis
    using c f L by (auto simp: store_consume_def DeleteEphemeralRecord_def split: option.splits)
qed

lemma delete_expired_row:
  assumes "delete_expired f kind is t = (t', b)"
  shows "gget t' k = Some row \<Longrightarrow> gget t k = Some row"
    and "k \<notin> Pair kind ` set is \<Longrightarrow> gget t' k = gget t k" and "wf_map t \<Longrightarrow> wf_map t'"
  using assms by (induction f kind "is" t rule: delete_expired.induct) (auto split: if_splits)

lemma list_records:
  assumes "ListEphemeralRecords order rf df now t kind k ttl = (t', r)"
    and ord: "\<forall>rows. set (order rows) = set rows" and wf: "wf_map t"
  shows "gget t' q = Some row \<Longrightarrow> gget t q = Some row"
    and "gget t q = Some row \<Longrightarrow> gget t' q = Some row \<or> outlived ttl now (ep_created row)"
    and "wf_map t'"
    and "r = Inr rs \<Longrightarrow> er \<in> set rs \<longleftrightarrow> (\<exists>row. gget t (kind, er_id er) = Some row \<and> ep_caller row = k \<and>
           \<not> outlived ttl now (ep_created row) \<and> er_payload er = ep_payload row \<and> er_created er = ep_created row)"
proof -
  let ?sel = "map (\<lambda>((k, i), r). (i, r)) (filter (\<lambda>((kk, i), r). kk = kind \<and> ep_caller r = k) t)"
  let ?ids = "map fst (filter (\<lambda>(i, r). outlived ttl now (ep_created r)) (order ?sel))"
  have sel: "(i, r) \<in> set (order ?sel) \<longleftrightarrow> gget t (kind, i) = Some r \<and> ep_caller r = k" for i r
    using ord wf by (force simp flip: in_set_gget)
  obtain u b where d: "delete_expired df kind ?ids t = (u, b)" by fastforce
  note D = delete_expired_row [OF d]
  have t': "t' = u \<or> t' = t"
    using assms(1) d by (auto simp: ListEphemeralRecords_def Let_def split: if_splits bool.splits)
  show "gget t' q = Some row \<Longrightarrow> gget t q = Some row" using t' D(1) by metis
  show "wf_map t'" using t' D(3) wf by auto
  show "gget t' q = Some row \<or> outlived ttl now (ep_created row)" if "gget t q = Some row"
  proof (cases "q \<in> Pair kind ` set ?ids")
    case True
    then obtain i r where "q = (kind, i)" "(i, r) \<in> set (order ?sel)" "outlived ttl now (ep_created r)"
      by auto
    then show ?thesis using sel that by auto
  next
    case False
    then show ?thesis using t' D(2) that by metis
  qed
  assume "r = Inr rs"
  then have rs: "rs = list_live now ttl (order ?sel)"
    using assms(1) d by (auto simp: ListEphemeralRecords_def Let_def split: if_splits bool.splits)
  show "er \<in> set rs \<longleftrightarrow> (\<exists>row. gget t (kind, er_id er) = Some row \<and> ep_caller row = k \<and>
           \<not> outlived ttl now (ep_created row) \<and> er_payload er = ep_payload row \<and> er_created er = ep_created row)"
    (is "_ = (\<exists>row. ?Q row)")
  proof
    assume "er \<in> set rs"
    then show "\<exists>row. ?Q row" using sel by (auto simp: rs list_live_def)
  next
    assume "\<exists>row. ?Q row"
    then obtain row where "?Q row" ..
    then have "(er_id er, row) \<in> set (order ?sel)" "\<not> outlived ttl now (ep_created row)"
      "er = \<lparr>er_id = er_id er, er_payload = ep_payload row, er_created = ep_created row\<rparr>"
      using sel by auto
    then show "er \<in> set rs" by (force simp: rs list_live_def)
  qed
qed

lemma load_records_ok:
  assumes "load_records kd P rs m = (m', b)" "mem_ok L m"
    and "\<And>er. er \<in> set rs \<Longrightarrow> \<exists>e. L (er_id er) = Some e \<and> kd_dec kd (er_payload er) = Some e"
  shows "mem_ok L m'" and "b"
    and "gget m' i = Some e \<longleftrightarrow> gget m i = Some e \<or> P i \<and> L i = Some e \<and> i \<in> er_id ` set rs"
proof -
  have "mem_ok L m' \<and> b \<and>
    (gget m' i = Some e \<longleftrightarrow> gget m i = Some e \<or> P i \<and> L i = Some e \<and> i \<in> er_id ` set rs)"
    using assms
  proof (induction kd P rs m rule: load_records.induct)
    case (2 kd P r rs m)
    obtain e' where e': "L (er_id r) = Some e'" "kd_dec kd (er_payload r) = Some e'"
      using "2.prems"(3) by fastforce
    show ?case
    proof (cases "P (er_id r)")
      case False
      then show ?thesis using "2.IH"(1) "2.prems" by auto
    next
      case True
      have m: "mem_ok L (gput m (er_id r) e')" using mem_ok_put [OF "2.prems"(2) e'(1)] .
      have "mem_ok L m' \<and> b \<and> (gget m' i = Some e \<longleftrightarrow>
          gget (gput m (er_id r) e') i = Some e \<or> P i \<and> L i = Some e \<and> i \<in> er_id ` set rs)"
        using "2.IH"(2) [OF _ e'(2) _ m] True e' "2.prems" by auto
      then show ?thesis using True e' "2.prems"(2) by (auto simp: mem_ok_def split: if_splits)
    qed
  qed simp
  then show "mem_ok L m'" "b"
    "gget m' i = Some e \<longleftrightarrow> gget m i = Some e \<or> P i \<and> L i = Some e \<and> i \<in> er_id ` set rs" by blast+
qed

lemma table_ok_row:
  assumes tab: "table_ok kd ttl now L t" and L: "L i = Some e" "\<not> outlived ttl now (kd_created kd e)"
  shows "\<exists>row. gget t (kd_name kd, i) = Some row \<and> row_of kd e row"
proof -
  obtain row where row: "gget t (kd_name kd, i) = Some row"
    using tab L unfolding table_ok_def not_None_eq by blast
  then show ?thesis using tab L(1) by (fastforce simp: table_ok_def)
qed

lemma list_ok:
  assumes ok: "store_ok kd ttl mx L now s" and le: "now \<le> at"
    and ord: "\<forall>rows. set (order rows) = set rows"
    and l: "store_list kd P order rf df at s k = (s', r)"
  shows "store_ok kd ttl mx L at s'"
    and "r = Inr xs \<Longrightarrow> (i, e) \<in> set xs \<Longrightarrow>
           P i \<and> L i = Some e \<and> kd_caller kd e = k \<and> \<not> outlived ttl at (kd_created kd e)"
    and "r = Inr xs \<Longrightarrow> ts_db s \<noteq> None \<Longrightarrow> P i \<Longrightarrow> L i = Some e \<Longrightarrow> kd_caller kd e = k \<Longrightarrow>
           \<not> outlived ttl at (kd_created kd e) \<Longrightarrow> (i, e) \<in> set xs"
proof -
  let ?s = "store_prune kd at s"
  have ok': "store_ok kd ttl mx L at ?s" by (rule store_ok_prune [OF ok le])
  have w: "wf_map (ts_entries s)" "ts_ttl s = ttl"
    using ok by (auto simp: store_ok_def mem_ok_def)
  have own: "kd_caller kd e \<noteq> ''''" if "L i = Some e" for i e
    using ok that by (auto simp: store_ok_def)
  have fresh: "\<not> outlived ttl at (kd_created kd e)" if "gget (ts_entries ?s) i = Some e" for i e
    using pruned_fresh [OF w(1) that] w(2) by simp
  have "store_ok kd ttl mx L at s' \<and> (r = Inr xs \<longrightarrow> ((i, e) \<in> set xs \<longrightarrow>
      P i \<and> L i = Some e \<and> kd_caller kd e = k \<and> \<not> outlived ttl at (kd_created kd e)) \<and>
      (ts_db s \<noteq> None \<longrightarrow> P i \<and> L i = Some e \<and> kd_caller kd e = k \<and>
        \<not> outlived ttl at (kd_created kd e) \<longrightarrow> (i, e) \<in> set xs))"
  proof (cases "ts_db ?s")
    case None
    then have s': "s' = ?s"
      "r = Inr (filter (\<lambda>(i, e). P i \<and> (kd_caller kd e = '''' \<or> kd_caller kd e = k)) (ts_entries ?s))"
      using l by (auto simp: store_list_def Let_def)
    have mem: "gget (ts_entries ?s) i = Some e \<Longrightarrow> L i = Some e"
      and in_mem: "(i, e) \<in> set (ts_entries ?s) \<longleftrightarrow> gget (ts_entries ?s) i = Some e"
      using store_ok_mem [OF ok'] by (auto simp: mem_ok_def in_set_gget)
    have "ts_db s = None" using None by (simp add: prune_entries)
    moreover have "P i \<and> L i = Some e \<and> kd_caller kd e = k \<and> \<not> outlived ttl at (kd_created kd e)"
      if "r = Inr xs" "(i, e) \<in> set xs"
    proof -
      have m: "(i, e) \<in> set (ts_entries ?s)" and v: "P i" "kd_caller kd e = '''' \<or> kd_caller kd e = k"
        using that s'(2) by auto
      then show ?thesis using in_mem mem own [of i e] fresh [of i e] by blast
    qed
    ultimately show ?thesis using ok' s'(1) by blast
  next
    case (Some t)
    have tab: "table_ok kd ttl at L t" by (rule store_ok_db [OF ok' Some])
    then have wf: "wf_map t" by (simp add: table_ok_def)
    have ttl: "ts_ttl ?s = ttl" using ok' by (simp add: store_ok_def)
    obtain t' q where lr: "ListEphemeralRecords order rf df at t (kd_name kd) k ttl = (t', q)" by fastforce
    note R = list_records [OF lr ord wf]
    have t': "table_ok kd ttl at L t'"
      by (rule table_ok_subset [OF tab R(3)]) (use R in auto)
    show ?thesis
    proof (cases q)
      case (Inl err)
      then show ?thesis
        using l Some lr ttl store_ok_table [OF ok' t'] by (auto simp: store_list_def Let_def)
    next
      case (Inr rs)
      obtain m b where ld: "load_records kd P rs (ts_entries ?s) = (m, b)" by fastforce
      have row: "\<exists>e. L (er_id er) = Some e \<and> kd_dec kd (er_payload er) = Some e \<and> kd_caller kd e = k \<and>
          \<not> outlived ttl at (kd_created kd e)" if er: "er \<in> set rs" for er
      proof -
        obtain row where "gget t (kd_name kd, er_id er) = Some row" "ep_caller row = k"
            "\<not> outlived ttl at (ep_created row)" "er_payload er = ep_payload row"
          using R(4) [OF Inr, of er] er by blast
        then show ?thesis using tab by (fastforce simp: table_ok_def row_of_def)
      qed
      have found: "i \<in> er_id ` set rs" if live: "L i = Some e" "kd_caller kd e = k" "\<not> outlived ttl at (kd_created kd e)"
      proof -
        obtain row where row: "gget t (kd_name kd, i) = Some row" "row_of kd e row"
          using table_ok_row [OF tab live(1,3)] by blast
        let ?er = "\<lparr>er_id = i, er_payload = ep_payload row, er_created = ep_created row\<rparr>"
        have "?er \<in> set rs" using R(4) [OF Inr, of ?er] row live by (auto simp: row_of_def)
        then show ?thesis by force
      qed
      have row': "\<And>er. er \<in> set rs \<Longrightarrow> \<exists>e. L (er_id er) = Some e \<and> kd_dec kd (er_payload er) = Some e"
        using row by blast
      note M = load_records_ok [OF ld store_ok_mem [OF ok'] row']
      have s': "s' = ?s\<lparr>ts_db := Some t', ts_entries := m\<rparr>"
        "r = Inr (filter (\<lambda>(i, e). P i \<and> (kd_caller kd e = '''' \<or> kd_caller kd e = k)) m)"
        using l Some lr ttl Inr ld M(2) by (auto simp: store_list_def Let_def)
      have "store_ok kd ttl mx L at s'"
        using ok' t' M(1) by (simp add: s' store_ok_def)
      moreover have in_m: "(i, e) \<in> set m \<longleftrightarrow>
          gget (ts_entries ?s) i = Some e \<or> P i \<and> L i = Some e \<and> i \<in> er_id ` set rs"
        using M(1,3) by (simp add: mem_ok_def in_set_gget)
      moreover have "L i = Some e \<and> \<not> outlived ttl at (kd_created kd e)" if inm: "(i, e) \<in> set m"
      proof (cases "gget (ts_entries ?s) i = Some e")
        case True
        then show ?thesis using fresh store_ok_mem [OF ok'] by (simp add: mem_ok_def)
      next
        case False
        then obtain er where "er \<in> set rs" "er_id er = i" "L i = Some e" using inm in_m by blast
        then show ?thesis using row [of er] by auto
      qed
      moreover have "(i, e) \<in> set xs \<longleftrightarrow> (i, e) \<in> set m \<and> P i \<and>
          (kd_caller kd e = '''' \<or> kd_caller kd e = k)" if "r = Inr xs"
        using that s'(2) by auto
      ultimately show ?thesis using own [of i e] found by blast
    qed
  qed
  then show "store_ok kd ttl mx L at s'"
    "r = Inr xs \<Longrightarrow> (i, e) \<in> set xs \<Longrightarrow>
       P i \<and> L i = Some e \<and> kd_caller kd e = k \<and> \<not> outlived ttl at (kd_created kd e)"
    "r = Inr xs \<Longrightarrow> ts_db s \<noteq> None \<Longrightarrow> P i \<Longrightarrow> L i = Some e \<Longrightarrow> kd_caller kd e = k \<Longrightarrow>
       \<not> outlived ttl at (kd_created kd e) \<Longrightarrow> (i, e) \<in> set xs" by blast+
qed

lemma prune_keeps_absent: "gget (ts_entries s) i = None \<Longrightarrow> gget (ts_entries (store_prune kd now s)) i = None"
  by (simp add: prune_entries)

lemma call_ok:
  assumes ok: "store_ok kd ttl mx L now s" and p: "proper_call kd s c"
    and le: "\<forall>at. call_time c = Some at \<longrightarrow> now \<le> at" and a: "apply_call kd s c = (s', r)"
  shows "store_ok kd ttl mx (ledger_step c r L) (case call_time c of None \<Rightarrow> now | Some at \<Rightarrow> at) s'"
proof (cases c)
  case (CPut fl at i e)
  obtain u err where u: "store_put kd fl at s i e = (u, err)" by fastforce
  show ?thesis
    using put_ok [OF ok _ _ _ _ u] p le a u by (cases err) (auto simp: CPut)
next
  case (CGet fl at i k)
  then show ?thesis using get_ok(1) [OF ok] le a by auto
next
  case (CConsume fl at i k)
  then have "store_consume kd fl at s i k = (s', r)" "now \<le> at" using le a by auto
  from consume_ok(1) [OF ok this(2,1)] show ?thesis
    by (auto simp: CConsume split: sum.splits option.splits)
next
  case (CList P order rf df at k)
  obtain u q where u: "store_list kd P order rf df at s k = (u, q)" by fastforce
  then have "store_ok kd ttl mx L at u"
    using list_ok(1) [OF ok _ _ u] p le by (auto simp: CList)
  then show ?thesis using a u by (auto simp: CList split: sum.splits)
next
  case (COther t)
  show ?thesis
  proof (cases "ts_db s")
    case (Some t0)
    then have "table_ok kd ttl now L t0" using ok by (simp add: store_ok_def)
    then have "table_ok kd ttl now L t" using p Some by (auto simp: COther table_ok_def)
    then show ?thesis using a ok Some by (auto simp: COther store_ok_def)
  qed (use a ok in \<open>auto simp: COther\<close>)
next
  case CRestart
  then show ?thesis using a ok by (auto simp: store_ok_def mem_ok_def)
qed

lemma run_ok: "ledger_run kd ttl mx L now s \<Longrightarrow> store_ok kd ttl mx L now s"
proof (induction rule: ledger_run.induct)
  case (start db now)
  then show ?case by (auto simp: store_ok_def new_store_def mem_ok_def table_ok_def)
next
  case (step L now s c s' r)
  then show ?case using call_ok by metis
qed

text \<open>
  An identifier known neither to the map nor to the table stays unknown until it is put again;
  this needs no assumption on clocks, faults or callers.
\<close>

definition gone :: "'e kind_ops \<Rightarrow> string \<Rightarrow> 'e ttl_store \<Rightarrow> bool" where
  "gone kd i s \<longleftrightarrow> gget (ts_entries s) i = None \<and>
     (\<forall>t. ts_db s = Some t \<longrightarrow> wf_map t \<and> gget t (kd_name kd, i) = None)"

fun puts_id :: "'e store_call \<Rightarrow> string option" where
  "puts_id (CPut fl now i e) = Some i"
| "puts_id c = None"

fun calls_from :: "'e kind_ops \<Rightarrow> 'e ttl_store \<Rightarrow> 'e store_call list \<Rightarrow> 'e ttl_store \<Rightarrow> bool" where
  "calls_from kd s [] s' \<longleftrightarrow> s' = s"
| "calls_from kd s (c # cs) s' \<longleftrightarrow> proper_call kd s c \<and> calls_from kd (fst (apply_call kd s c)) cs s'"

lemma trim_absent: "gget m i = None \<Longrightarrow> gget (trim_entries created mx m) i = None"
  by (induction created mx m rule: trim_entries.induct)
     (subst trim_entries.simps, auto split: option.splits)

lemma gone_fetch:
  assumes g: "gone kd i s" and f: "store_fetch kd cache fl now s j k = (s', r)"
  shows "gone kd i s'" and "i = j \<Longrightarrow> r \<noteq> Inr (Some e)"
proof -
  have "gone kd i s' \<and> (i = j \<longrightarrow> r \<noteq> Inr (Some e))"
  proof (cases "gget (ts_entries s) j")
    case (Some e')
    then show ?thesis using f g by (auto simp: store_fetch_def gone_def)
  next
    case none: None
    show ?thesis
    proof (cases "ts_db s")
      case None
      then show ?thesis using f g none by (auto simp: store_fetch_def)
    next
      case (Some t)
      obtain t' q where q: "GetEphemeralRecord fl now t (kd_name kd) j k (ts_ttl s) = (t', q)"
        by fastforce
      have "gget t (kd_name kd, i) = None" "wf_map t" using g Some by (auto simp: gone_def)
      then have t': "gget t' (kd_name kd, i) = None" "wf_map t'"
        using get_eph_row [OF q] get_eph_wf [OF q] by (metis option.exhaust)+
      have "\<forall>raw. q \<noteq> Inr (Some raw)" if "i = j"
        using get_eph_Some(2) [of fl now t "kd_name kd" j k "ts_ttl s" t'] q that g Some
        by (auto simp: gone_def)
      then show ?thesis
        using f g none Some q t'
        by (auto simp: store_fetch_def gone_def Let_def split: sum.splits option.splits if_splits)
    qed
  qed
  then show "gone kd i s'" "i = j \<Longrightarrow> r \<noteq> Inr (Some e)" by blast+
qed

lemma gone_prune: "gone kd i s \<Longrightarrow> gone kd i (store_prune kd now s)"
  by (simp add: gone_def prune_entries)

lemma gone_get:
  assumes "gone kd i s" "store_get kd fl now s j k = (s', r)"
  shows "gone kd i s'" and "i = j \<Longrightarrow> r \<noteq> Inr (Some e)"
proof -
  obtain u q where f: "store_fetch kd True fl now (store_prune kd now s) j k = (u, q)" by fastforce
  note F = gone_fetch [OF gone_prune [OF assms(1)] f]
  show "gone kd i s'" using F(1) assms(2) f by (auto simp: store_get_def split: sum.splits option.splits)
  show "i = j \<Longrightarrow> r \<noteq> Inr (Some e)"
    using F(2) assms(2) f by (auto simp: store_get_def split: sum.splits option.splits if_splits)
qed

lemma gone_consume:
  assumes "gone kd i s" "store_consume kd fl now s j k = (s', r)"
  shows "gone kd i s'" and "i = j \<Longrightarrow> r \<noteq> Inr (Some e)"
proof -
  obtain u q where f: "store_fetch kd False fl now (store_prune kd now s) j k = (u, q)" by fastforce
  note F = gone_fetch [OF gone_prune [OF assms(1)] f]
  show "gone kd i s'"
  proof (cases "\<exists>t e. ts_db u = Some t \<and> q = Inr (Some e)")
    case True
    then obtain t e' where t: "ts_db u = Some t" and q: "q = Inr (Some e')" by blast
    obtain t' er where d: "DeleteEphemeralRecord fl t (kd_name kd) j k = (t', er)" by fastforce
    have "gget t' (kd_name kd, i) = None" "wf_map t'"
      using d F(1) t by (auto simp: gone_def DeleteEphemeralRecord_def split: if_splits)
    then show ?thesis
      using F(1) assms(2) f t q d
      by (auto simp: store_consume_def gone_def split: if_splits option.splits)
  next
    case False
    then show ?thesis
      using F(1) assms(2) f
      by (auto simp: store_consume_def gone_def split: sum.splits option.splits if_splits)
  qed
  show "i = j \<Longrightarrow> r \<noteq> Inr (Some e)"
    using F(2) assms(2) f
    by (auto simp: store_consume_def split: sum.splits option.splits if_splits prod.splits)
qed

lemma gone_put:
  assumes g: "gone kd i s" and p: "store_put kd fl now s j e = (s', err)" and "i \<noteq> j"
  shows "gone kd i s'"
proof (cases "ts_db s")
  case None
  then show ?thesis
    using g p \<open>i \<noteq> j\<close>
    by (auto simp: gone_def store_put_def Let_def prune_entries store_trim_def trim_absent)
next
  case (Some t)
  show ?thesis
  proof (cases "kd_enc kd e")
    case None
    then show ?thesis using g p Some by (auto simp: gone_def store_put_def Let_def prune_entries)
  next
    case enc: (Some raw)
    obtain t' er where pe: "PutEphemeralRecord fl now t (kd_name kd) j (kd_caller kd e) raw (kd_created kd e) = (t', er)"
      by fastforce
    have "gget t' (kd_name kd, i) = None" "wf_map t'"
      using put_eph_cases [OF pe] g Some \<open>i \<noteq> j\<close> by (auto simp: gone_def)
    then show ?thesis
      using g p Some enc pe \<open>i \<noteq> j\<close>
      by (auto simp: gone_def store_put_def Let_def prune_entries store_trim_def trim_absent
          split: option.splits)
  qed
qed

lemma load_absent:
  "load_records kd P rs m = (m', b) \<Longrightarrow> i \<notin> er_id ` set rs \<Longrightarrow> gget m' i = None \<longleftrightarrow> gget m i = None"
  by (induction kd P rs m rule: load_records.induct) (auto split: if_splits option.splits)

lemma gone_list:
  assumes g: "gone kd i s" and l: "store_list kd P order rf df now s k = (s', r)"
    and ord: "\<forall>rows. set (order rows) = set rows"
  shows "gone kd i s'"
proof (cases "ts_db s")
  case None
  then show ?thesis using g l by (auto simp: gone_def store_list_def Let_def prune_entries)
next
  case (Some t)
  obtain t' q where lr: "ListEphemeralRecords order rf df now t (kd_name kd) k (ts_ttl s) = (t', q)"
    by fastforce
  have t: "gget t (kd_name kd, i) = None" "wf_map t" using g Some by (auto simp: gone_def)
  note R = list_records [OF lr ord t(2)]
  have t': "gget t' (kd_name kd, i) = None" "wf_map t'"
    using R(1,3) t by (metis option.exhaust)+
  show ?thesis
  proof (cases q)
    case (Inl err)
    then show ?thesis using g l Some lr t'
      by (auto simp: gone_def store_list_def Let_def prune_entries)
  next
    case (Inr rs)
    have "i \<notin> er_id ` set rs" using R(4) [OF Inr] t(1) by fastforce
    then show ?thesis
      using g l Some lr Inr t'
      by (auto simp: gone_def store_list_def Let_def prune_entries load_absent
          split: prod.splits bool.splits)
  qed
qed

lemma gone_call:
  assumes "gone kd i s" "apply_call kd s c = (s', r)" "proper_call kd s c" "puts_id c \<noteq> Some i"
  shows "gone kd i s'"
proof (cases c)
  case (CPut fl at j e)
  then show ?thesis using assms gone_put [of kd i s fl at j e] by (auto split: prod.splits option.splits)
next
  case (CList P order rf df at k)
  then show ?thesis
    using assms gone_list [of kd i s P order rf df at k] by (auto split: prod.splits sum.splits)
next
  case (COther t)
  then show ?thesis using assms by (auto simp: gone_def split: option.splits)
next
  case (CGet fl at j k)
  then show ?thesis using assms gone_get(1) by fastforce
next
  case (CConsume fl at j k)
  then show ?thesis using assms gone_consume(1) by fastforce
next
  case CRestart
  then show ?thesis using assms by (auto simp: gone_def)
qed

lemma gone_calls:
  "calls_from kd s cs s' \<Longrightarrow> gone kd i s \<Longrightarrow> \<forall>c\<in>set cs. puts_id c \<noteq> Some i \<Longrightarrow> gone kd i s'"
proof (induction cs arbitrary: s)
  case (Cons c cs)
  obtain u r where "apply_call kd s c = (u, r)" by fastforce
  then show ?case using Cons gone_call [of kd i s c u r] by auto
qed simp

section \<open>What a run guarantees\<close>

definition live_entry ::
    "'e kind_ops \<Rightarrow> duration \<Rightarrow> (string \<Rightarrow> 'e option) \<Rightarrow> time \<Rightarrow> string \<Rightarrow> string \<Rightarrow> 'e option" where
  "live_entry kd ttl L at i k =
     (case L i of None \<Rightarrow> None
      | Some e \<Rightarrow> if kd_caller kd e = k \<and> \<not> outlived ttl at (kd_created kd e) then Some e else None)"

lemma live_entry_Some:
  "live_entry kd ttl L at i k = Some e \<longleftrightarrow>
     L i = Some e \<and> kd_caller kd e = k \<and> \<not> outlived ttl at (kd_created kd e)"
  by (auto simp: live_entry_def split: option.splits if_splits)

lemma get_live:
  assumes ok: "store_ok kd ttl mx L now s" and le: "now \<le> at"
    and g: "store_get kd fl at s i k = (s', r)"
  shows "r = Inr (Some e) \<Longrightarrow> live_entry kd ttl L at i k = Some e"
    and "ts_db s \<noteq> None \<Longrightarrow> fl = no_faults \<Longrightarrow> r = Inr (live_entry kd ttl L at i k)"
proof -
  show live: "live_entry kd ttl L at i k = Some e" if "r = Inr (Some e)" for e
    using get_ok(2) [OF ok le g that] by (simp add: live_entry_Some)
  assume db: "ts_db s \<noteq> None" and fl: "fl = no_faults"
  have ok': "store_ok kd ttl mx L at (store_prune kd at s)" by (rule store_ok_prune [OF ok le])
  obtain t where db': "ts_db (store_prune kd at s) = Some t" using db by (auto simp: prune_entries)
  obtain u q where f: "store_fetch kd True no_faults at (store_prune kd at s) i k = (u, q)" by fastforce
  obtain x where x: "r = Inr x"
    using fetch_durable [OF ok' db' f] f g fl by (auto simp: store_get_def split: option.splits if_splits)
  show "r = Inr (live_entry kd ttl L at i k)"
  proof (cases "live_entry kd ttl L at i k")
    case None
    then show ?thesis using x live by (cases x) auto
  next
    case (Some e)
    then show ?thesis
      using get_durable [OF ok le db g [unfolded fl]] Some [unfolded live_entry_Some] by simp
  qed
qed

lemma consume_live:
  assumes ok: "store_ok kd ttl mx L now s" and le: "now \<le> at"
    and c: "store_consume kd fl at s i k = (s', r)"
  shows "r = Inr (Some e) \<Longrightarrow> live_entry kd ttl L at i k = Some e"
    and "ts_db s \<noteq> None \<Longrightarrow> fl = no_faults \<Longrightarrow> r = Inr (live_entry kd ttl L at i k)"
proof -
  show live: "live_entry kd ttl L at i k = Some e" if "r = Inr (Some e)" for e
    using consume_ok(2) [OF ok le c that] by (simp add: live_entry_Some)
  assume db: "ts_db s \<noteq> None" and fl: "fl = no_faults"
  have ok': "store_ok kd ttl mx L at (store_prune kd at s)" by (rule store_ok_prune [OF ok le])
  obtain t where db': "ts_db (store_prune kd at s) = Some t" using db by (auto simp: prune_entries)
  obtain u q where f: "store_fetch kd False no_faults at (store_prune kd at s) i k = (u, q)" by fastforce
  obtain x where x: "r = Inr x"
    using fetch_durable [OF ok' db' f] f c fl
    by (auto simp: store_consume_def DeleteEphemeralRecord_def split: option.splits if_splits)
  show "r = Inr (live_entry kd ttl L at i k)"
  proof (cases "live_entry kd ttl L at i k")
    case None
    then show ?thesis using x live by (cases x) auto
  next
    case (Some e)
    then show ?thesis
      using consume_durable [OF ok le db c [unfolded fl]] Some [unfolded live_entry_Some] by simp
  qed
qed

lemma consumed_gone:
  assumes ok: "store_ok kd ttl mx L now s" and le: "now \<le> at"
    and c: "store_consume kd fl at s i k = (s', Inr (Some e))"
  shows "gone kd i s'"
proof -
  have "wf_map t" if "ts_db s' = Some t" for t
    using consume_ok(1) [OF ok le c] that by (auto simp: store_ok_def table_ok_def)
  then show ?thesis using consume_ok(3) [OF ok le c] by (auto simp: gone_def)
qed

lemma oldest_entry_min:
  "oldest_entry created m acc = Some (i, at) \<Longrightarrow>
     (\<forall>x\<in>set m. at \<le> created (snd x)) \<and> (\<forall>j b. acc = Some (j, b) \<longrightarrow> at \<le> b) \<and>
     (acc = Some (i, at) \<or> (\<exists>e. (i, e) \<in> set m \<and> created e = at))"
proof (induction created m acc rule: oldest_entry.induct)
  case (2 created j e m acc)
  show ?case
  proof (cases acc)
    case None
    then show ?thesis using "2.IH" "2.prems" by auto
  next
    case (Some p)
    obtain j' b where "p = (j', b)" by fastforce
    then show ?thesis
      using "2.IH" "2.prems" Some by (cases "created e < b") (simp_all, (fastforce | linarith)+)
  qed
qed simp

text \<open>Trimming keeps a sub-map, and nothing kept is older than anything dropped.\<close>

lemma trim_oldest_first:
  assumes "wf_map m"
  shows "set (trim_entries created mx m) \<subseteq> set m"
    and "x \<in> set m - set (trim_entries created mx m) \<Longrightarrow> y \<in> set (trim_entries created mx m) \<Longrightarrow>
           created (snd x) \<le> created (snd y)"
proof -
  have "set (trim_entries created mx m) \<subseteq> set m \<and>
    (\<forall>x\<in>set m - set (trim_entries created mx m). \<forall>y\<in>set (trim_entries created mx m).
       created (snd x) \<le> created (snd y))"
    using assms
  proof (induction created mx m rule: trim_entries.induct)
    case (1 created mx m)
    show ?case
    proof (cases "mx \<le> 0 \<or> int (length m) \<le> mx \<or> oldest_entry created m None = None")
      case True
      then show ?thesis by (auto simp: trim_entries.simps [of created mx m] split: option.splits)
    next
      case False
      then obtain i at where o: "oldest_entry created m None = Some (i, at)" by auto
      let ?r = "trim_entries created mx (gdel m i)"
      have eq: "trim_entries created mx m = ?r"
        using False o by (simp add: trim_entries.simps [of created mx m])
      have IH: "set ?r \<subseteq> set (gdel m i)"
        "\<forall>x\<in>set (gdel m i) - set ?r. \<forall>y\<in>set ?r. created (snd x) \<le> created (snd y)"
        using "1.IH" [OF _ o] False "1.prems" by auto
      have sub: "set (gdel m i) = {x \<in> set m. fst x \<noteq> i}"
        by (auto simp: AList.delete_eq)
      obtain e where e: "(i, e) \<in> set m" "created e = at"
        using oldest_entry_min [OF o] by auto
      have at: "\<forall>y\<in>set m. at \<le> created (snd y)" using oldest_entry_min [OF o] by blast
      have first: "created (snd x) = at" if "x \<in> set m" "fst x = i" for x
      proof -
        have "gget m i = Some (snd x)" "gget m i = Some e"
          using that e in_set_gget [OF "1.prems"] by (metis prod.collapse)+
        then show ?thesis using e by simp
      qed
      have "created (snd x) \<le> created (snd y)" if x: "x \<in> set m - set ?r" and y: "y \<in> set ?r" for x y
      proof (cases "fst x = i")
        case True
        then show ?thesis using first x y at IH(1) sub by fastforce
      next
        case False
        then show ?thesis using IH(2) x y sub by blast
      qed
      then show ?thesis unfolding eq using IH(1) sub by blast
    qed
  qed
  then show "set (trim_entries created mx m) \<subseteq> set m"
    "x \<in> set m - set (trim_entries created mx m) \<Longrightarrow> y \<in> set (trim_entries created mx m) \<Longrightarrow>
       created (snd x) \<le> created (snd y)" by blast+
qed

end
