(* ===== verification/Plans.thy ===== *)
theory Plans
  imports TtlStore
begin

text \<open>
  The four stores of \<open>internal/tools/write\<close> as instances of the shared shape: content plans,
  snapshots, bundle plans and bundle snapshots, with the record kinds and messages of the source.
  \<open>enc\<close> and \<open>dec\<close> stand for \<open>json.Marshal\<close> and \<open>json.Unmarshal\<close> on the entry type.
\<close>

section \<open>Entries\<close>

record plan_entry =
  pe_caller_key :: string
  pe_slug :: string
  pe_lang :: string
  pe_file_path :: string
  pe_revision :: string
  pe_content :: string
  pe_title :: string
  pe_body :: string
  pe_tags :: "string list option"
  pe_categories :: "string list option"
  pe_created_at :: time

record snapshot_entry =
  se_caller_key :: string
  se_content :: string
  se_created_at :: time

record snapshot_listing =
  sl_revision :: string
  sl_created_at :: time
  sl_expires_at :: time

record rejected_operation =
  ro_op :: string
  ro_reason :: string

record bundle_translation_plan =
  bt_lang :: string
  bt_file_path :: string
  bt_revision :: string
  bt_content :: string
  bt_title :: string
  bt_body :: string
  bt_tags :: "string list"
  bt_categories :: "string list"
  bt_applied :: "string list"
  bt_rejected :: "rejected_operation list"
  bt_diff :: string

record bundle_plan_entry =
  bp_caller_key :: string
  bp_slug :: string
  bp_bundle_dir :: string
  bp_bundle_revision :: string
  bp_translations :: "bundle_translation_plan list"
  bp_created_at :: time

record bundle_snapshot =
  bs_caller_key :: string
  bs_files :: "(string, string) gomap"
  bs_created_at :: time

section \<open>Content plans\<close>

definition planTTL :: duration where "planTTL = 5 * minute"

definition planMaxEntries :: int where "planMaxEntries = 128"

definition plan_kind :: "(plan_entry \<Rightarrow> string option) \<Rightarrow> (string \<Rightarrow> plan_entry option) \<Rightarrow> plan_entry kind_ops" where
  "plan_kind enc dec =
     \<lparr>kd_name = ''content_plan'', kd_label = ''content plan'', kd_caller = pe_caller_key,
      kd_created = pe_created_at, kd_enc = enc, kd_dec = dec\<rparr>"

definition newPlanStore :: "duration \<Rightarrow> int \<Rightarrow> eph_table option \<Rightarrow> plan_entry ttl_store" where
  "newPlanStore = new_store"

definition planStore_put where
  "planStore_put enc dec fl now s i e = store_put (plan_kind enc dec) fl now s i e"

definition planStore_get where
  "planStore_get enc dec fl now s i callerKey = store_get (plan_kind enc dec) fl now s i callerKey"

definition planStore_consume where
  "planStore_consume enc dec fl now s i callerKey = store_consume (plan_kind enc dec) fl now s i callerKey"

section \<open>Snapshots\<close>

definition snapshotTTL :: duration where "snapshotTTL = 24 * 60 * minute"

definition snapshotMaxEntries :: int where "snapshotMaxEntries = 512"

definition snapshotKey :: "string \<Rightarrow> string \<Rightarrow> string" where
  "snapshotKey filePath revision = filePath @ [CHR 0x00] @ revision"

definition snapshot_kind ::
    "(snapshot_entry \<Rightarrow> string option) \<Rightarrow> (string \<Rightarrow> snapshot_entry option) \<Rightarrow> snapshot_entry kind_ops" where
  "snapshot_kind enc dec =
     \<lparr>kd_name = ''content_snapshot'', kd_label = ''content snapshot'', kd_caller = se_caller_key,
      kd_created = se_created_at, kd_enc = enc, kd_dec = dec\<rparr>"

definition newSnapshotStore :: "duration \<Rightarrow> int \<Rightarrow> eph_table option \<Rightarrow> snapshot_entry ttl_store" where
  "newSnapshotStore = new_store"

definition snapshotStore_put where
  "snapshotStore_put enc dec fl now s filePath revision callerKey content =
     store_put (snapshot_kind enc dec) fl now s (snapshotKey filePath revision)
       \<lparr>se_caller_key = callerKey, se_content = content, se_created_at = now\<rparr>"

definition snapshotStore_get where
  "snapshotStore_get enc dec fl now s filePath revision callerKey =
     (case store_get (snapshot_kind enc dec) fl now s (snapshotKey filePath revision) callerKey of
        (s', Inl err) \<Rightarrow> (s', Inl err)
      | (s', Inr r) \<Rightarrow> (s', Inr (map_option se_content r)))"

text \<open>\<open>slices.SortFunc\<close> by decreasing creation time; the order of equal times is the map's.\<close>

definition snapshotStore_list where
  "snapshotStore_list enc dec order read_fails del_fails now s filePath callerKey =
     (let prefix = filePath @ [CHR 0x00]
      in (case store_list (snapshot_kind enc dec) (has_prefix prefix) order read_fails del_fails now s callerKey of
            (s', Inl err) \<Rightarrow> (s', Inl err)
          | (s', Inr es) \<Rightarrow>
              (s', Inr (sort_key (\<lambda>x. - sl_created_at x)
                 (map (\<lambda>(key, e). \<lparr>sl_revision = trim_prefix prefix key, sl_created_at = se_created_at e,
                                   sl_expires_at = se_created_at e + ts_ttl s\<rparr>) es)))))"

section \<open>Bundle plans and bundle snapshots\<close>

definition bundle_plan_kind ::
    "(bundle_plan_entry \<Rightarrow> string option) \<Rightarrow> (string \<Rightarrow> bundle_plan_entry option) \<Rightarrow> bundle_plan_entry kind_ops" where
  "bundle_plan_kind enc dec =
     \<lparr>kd_name = ''bundle_plan'', kd_label = ''bundle plan'', kd_caller = bp_caller_key,
      kd_created = bp_created_at, kd_enc = enc, kd_dec = dec\<rparr>"

definition newBundlePlanStore :: "duration \<Rightarrow> int \<Rightarrow> eph_table option \<Rightarrow> bundle_plan_entry ttl_store" where
  "newBundlePlanStore = new_store"

definition bundlePlanStore_put where
  "bundlePlanStore_put enc dec fl now s i e = store_put (bundle_plan_kind enc dec) fl now s i e"

definition bundlePlanStore_get where
  "bundlePlanStore_get enc dec fl now s i callerKey = store_get (bundle_plan_kind enc dec) fl now s i callerKey"

definition bundlePlanStore_consume where
  "bundlePlanStore_consume enc dec fl now s i callerKey =
     store_consume (bundle_plan_kind enc dec) fl now s i callerKey"

definition bundle_snapshot_kind ::
    "(bundle_snapshot \<Rightarrow> string option) \<Rightarrow> (string \<Rightarrow> bundle_snapshot option) \<Rightarrow> bundle_snapshot kind_ops" where
  "bundle_snapshot_kind enc dec =
     \<lparr>kd_name = ''bundle_snapshot'', kd_label = ''bundle snapshot'', kd_caller = bs_caller_key,
      kd_created = bs_created_at, kd_enc = enc, kd_dec = dec\<rparr>"

definition bundleSnapshotKey :: "string \<Rightarrow> string \<Rightarrow> string" where
  "bundleSnapshotKey dir revision = dir @ [CHR 0x00] @ revision"

definition newBundleSnapshotStore :: "duration \<Rightarrow> int \<Rightarrow> eph_table option \<Rightarrow> bundle_snapshot ttl_store" where
  "newBundleSnapshotStore = new_store"

definition bundleSnapshotStore_put where
  "bundleSnapshotStore_put enc dec fl now s dir revision callerKey files =
     store_put (bundle_snapshot_kind enc dec) fl now s (bundleSnapshotKey dir revision)
       \<lparr>bs_caller_key = callerKey, bs_files = files, bs_created_at = now\<rparr>"

definition bundleSnapshotStore_get where
  "bundleSnapshotStore_get enc dec fl now s dir revision callerKey =
     (case store_get (bundle_snapshot_kind enc dec) fl now s (bundleSnapshotKey dir revision) callerKey of
        (s', Inl err) \<Rightarrow> (s', Inl err)
      | (s', Inr r) \<Rightarrow> (s', Inr (map_option bs_files r)))"

section \<open>Properties\<close>

text \<open>
  C19. Along any run of the plan store that starts on a database without plans, with restarts,
  other writers, faults and evictions anywhere, a lookup or a consumption answers with a plan only
  if it is the last one put under that identifier, has not been consumed, belongs to the caller
  and is within its lifetime. With a database and no fault in the call it finds every such plan,
  also after a restart or an eviction from memory.
\<close>

theorem plan_store_exact:
  assumes run: "ledger_run (plan_kind enc dec) ttl mx L now s" and le: "now \<le> at"
  shows "(snd (planStore_get enc dec fl at s i k) = Inr (Some e) \<longrightarrow>
            live_entry (plan_kind enc dec) ttl L at i k = Some e) \<and>
         (snd (planStore_consume enc dec fl at s i k) = Inr (Some e) \<longrightarrow>
            live_entry (plan_kind enc dec) ttl L at i k = Some e) \<and>
         (ts_db s \<noteq> None \<longrightarrow>
            snd (planStore_get enc dec no_faults at s i k) = Inr (live_entry (plan_kind enc dec) ttl L at i k) \<and>
            snd (planStore_consume enc dec no_faults at s i k) = Inr (live_entry (plan_kind enc dec) ttl L at i k))"
  unfolding planStore_get_def planStore_consume_def
  using get_live [OF run_ok [OF run] le] consume_live [OF run_ok [OF run] le]
  by (metis prod.collapse)

definition demo_plan :: plan_entry where
  "demo_plan =
     \<lparr>pe_caller_key = ''alice'', pe_slug = ''a'', pe_lang = ''en'', pe_file_path = ''/c/a.md'',
      pe_revision = ''r1'', pe_content = ''text'', pe_title = ''A'', pe_body = ''text'', pe_tags = None,
      pe_categories = None, pe_created_at = 1\<rparr>"

definition demo_enc :: "plan_entry \<Rightarrow> string option" where
  "demo_enc e = Some (CHR ''c'' # pe_content e)"

definition demo_dec :: "string \<Rightarrow> plan_entry option" where
  "demo_dec raw = (case raw of [] \<Rightarrow> None | c # text \<Rightarrow> Some (demo_plan\<lparr>pe_content := text\<rparr>))"

definition demo_plans :: "plan_entry ttl_store" where
  "demo_plans =
     \<lparr>ts_ttl = planTTL, ts_max = 128, ts_entries = [],
      ts_db = Some [((''content_plan'', ''p1''), \<lparr>ep_caller = ''alice'', ep_payload = ''ctext'', ep_created = 1\<rparr>)]\<rparr>"

lemma demo_plans_run:
  "ledger_run (plan_kind demo_enc demo_dec) planTTL 128 (\<lambda>i. if i = ''p1'' then Some demo_plan else None) 1 demo_plans"
proof -
  let ?kd = "plan_kind demo_enc demo_dec"
  let ?put = "CPut no_faults 1 ''p1'' demo_plan"
  let ?s = "\<lparr>ts_ttl = planTTL, ts_max = 128, ts_entries = [(''p1'', demo_plan)], ts_db = ts_db demo_plans\<rparr>"
  have "ledger_run ?kd planTTL 128 (\<lambda>i. None) 0 (new_store planTTL 128 (Some []))"
    by (rule ledger_run.start) simp
  then have "ledger_run ?kd planTTL 128 (ledger_step ?put (Inr None) (\<lambda>i. None))
      (case call_time ?put of None \<Rightarrow> 0 | Some at \<Rightarrow> at) ?s"
  proof (rule ledger_run.step)
    show "proper_call ?kd (new_store planTTL 128 (Some [])) ?put"
      by (simp add: plan_kind_def demo_plan_def demo_enc_def demo_dec_def survives_def zero_time_def second_def)
    show "apply_call ?kd (new_store planTTL 128 (Some [])) ?put = (?s, Inr None)"
      by (simp add: store_put_def new_store_def Let_def prune_entries gkeep_def plan_kind_def demo_enc_def
          demo_plan_def PutEphemeralRecord_def store_trim_def trim_entries.simps demo_plans_def
          zero_time_def second_def)
  qed simp
  then have "ledger_run ?kd planTTL 128 (ledger_step CRestart (Inr None) ((\<lambda>i. None)(''p1'' \<mapsto> demo_plan)))
      (case call_time CRestart of None \<Rightarrow> 1 | Some at \<Rightarrow> at) demo_plans"
    using ledger_run.step [of _ _ _ _ _ _ CRestart demo_plans "Inr None"]
    by (simp add: demo_plans_def)
  moreover have "((\<lambda>i. None)(''p1'' \<mapsto> demo_plan)) = (\<lambda>i. if i = ''p1'' then Some demo_plan else None)"
    by auto
  ultimately show ?thesis by simp
qed

lemma plan_store_exact_witness:
  "snd (planStore_consume demo_enc demo_dec no_faults 2 demo_plans ''p1'' ''alice'') = Inr (Some demo_plan) \<and>
   snd (planStore_consume demo_enc demo_dec no_faults 2 demo_plans ''p1'' ''mallory'') = Inr None \<and>
   snd (planStore_get demo_enc demo_dec no_faults (2 + planTTL) demo_plans ''p1'' ''alice'') = Inr None"
proof -
  have db: "ts_db demo_plans \<noteq> None" by (simp add: demo_plans_def)
  have owner: "kd_caller (plan_kind demo_enc demo_dec) demo_plan = ''alice''"
    "kd_created (plan_kind demo_enc demo_dec) demo_plan = 1"
    by (simp_all add: plan_kind_def demo_plan_def)
  show ?thesis
    using db plan_store_exact [OF demo_plans_run, of 2 no_faults "''p1''" "''alice''"]
      plan_store_exact [OF demo_plans_run, of 2 no_faults "''p1''" "''mallory''"]
      plan_store_exact [OF demo_plans_run, of "2 + planTTL" no_faults "''p1''" "''alice''"]
    by (simp add: live_entry_def owner outlived_def planTTL_def minute_def second_def)
qed

lemma has_prefix_key: "has_prefix p (p @ r)" "trim_prefix p (p @ r) = r"
  by (simp_all add: trim_prefix_def)

text \<open>
  A bundle plan is applied at most once: after a consumption that returned it, no later lookup
  or consumption of its identifier by any caller returns a plan, whatever calls, restarts and
  faults come between, until a plan is put under that identifier again.
\<close>

theorem bundle_plan_single_use:
  assumes run: "ledger_run (bundle_plan_kind enc dec) ttl mx L now s" and le: "now \<le> at"
    and used: "bundlePlanStore_consume enc dec fl at s i k = (s1, Inr (Some e))"
    and later: "calls_from (bundle_plan_kind enc dec) s1 cs s2" "\<forall>c\<in>set cs. puts_id c \<noteq> Some i"
  shows "snd (bundlePlanStore_get enc dec fl' at' s2 i k') \<noteq> Inr (Some e') \<and>
         snd (bundlePlanStore_consume enc dec fl' at' s2 i k') \<noteq> Inr (Some e')"
proof -
  have "gone (bundle_plan_kind enc dec) i s1"
    using consumed_gone [OF run_ok [OF run] le] used by (simp add: bundlePlanStore_consume_def)
  then have "gone (bundle_plan_kind enc dec) i s2" by (rule gone_calls [OF later(1) _ later(2)])
  then show ?thesis
    unfolding bundlePlanStore_get_def bundlePlanStore_consume_def
    using gone_get(2) gone_consume(2) by (metis prod.collapse)
qed

definition demo_bundle_plan :: bundle_plan_entry where
  "demo_bundle_plan =
     \<lparr>bp_caller_key = ''alice'', bp_slug = ''a'', bp_bundle_dir = ''/c/a'', bp_bundle_revision = ''b1'',
      bp_translations = [], bp_created_at = 1\<rparr>"

definition demo_bundle_store :: "bundle_plan_entry ttl_store" where
  "demo_bundle_store =
     \<lparr>ts_ttl = planTTL, ts_max = 128, ts_entries = [(''b'', demo_bundle_plan)], ts_db = None\<rparr>"

lemma demo_bundle_run:
  "ledger_run (bundle_plan_kind (\<lambda>e. Some ''x'') (\<lambda>raw. Some demo_bundle_plan)) planTTL 128
     ((\<lambda>i. None)(''b'' \<mapsto> demo_bundle_plan)) 1 demo_bundle_store"
proof -
  let ?kd = "bundle_plan_kind (\<lambda>e. Some ''x'') (\<lambda>raw. Some demo_bundle_plan)"
  let ?put = "CPut no_faults 1 ''b'' demo_bundle_plan"
  let ?s0 = "new_store planTTL 128 None"
  have start: "ledger_run ?kd planTTL 128 (\<lambda>i. None) 0 ?s0"
    by (rule ledger_run.start) simp
  have "proper_call ?kd ?s0 ?put"
    by (simp add: bundle_plan_kind_def demo_bundle_plan_def survives_def zero_time_def second_def)
  moreover have "apply_call ?kd ?s0 ?put = (demo_bundle_store, Inr None)"
    by (simp add: store_put_def new_store_def Let_def prune_entries gkeep_def bundle_plan_kind_def
        store_trim_def trim_entries.simps demo_bundle_store_def)
  ultimately show ?thesis
    using ledger_run.step [OF start, of ?put demo_bundle_store "Inr None"] by simp
qed

lemma bundle_plan_single_use_witness:
  "let enc = (\<lambda>e. Some ''x''); dec = (\<lambda>raw. Some demo_bundle_plan);
       (s1, r) = bundlePlanStore_consume enc dec no_faults 2 demo_bundle_store ''b'' ''alice''
   in r = Inr (Some demo_bundle_plan) \<and>
      snd (bundlePlanStore_consume enc dec no_faults 3 (s1\<lparr>ts_entries := []\<rparr>) ''b'' ''alice'') \<noteq>
        Inr (Some demo_bundle_plan)"
proof -
  let ?enc = "\<lambda>e::bundle_plan_entry. Some ''x''" and ?dec = "\<lambda>raw::string. Some demo_bundle_plan"
  let ?s1 = "demo_bundle_store\<lparr>ts_entries := []\<rparr>"
  have c: "bundlePlanStore_consume ?enc ?dec no_faults 2 demo_bundle_store ''b'' ''alice'' =
      (?s1, Inr (Some demo_bundle_plan))"
    by (simp add: bundlePlanStore_consume_def store_consume_def store_fetch_def prune_entries gkeep_def
        demo_bundle_store_def bundle_plan_kind_def demo_bundle_plan_def outlived_def planTTL_def
        minute_def second_def)
  have "calls_from (bundle_plan_kind ?enc ?dec) ?s1 [CRestart] (?s1\<lparr>ts_entries := []\<rparr>)" by simp
  from bundle_plan_single_use [OF demo_bundle_run _ c this, of no_faults 3 "''alice''" demo_bundle_plan]
  show ?thesis by (simp add: c)
qed

text \<open>
  A successful put leaves at most the configured number of plans in memory, and every plan it
  evicts for size is at most as recent as every plan it keeps.
\<close>

theorem plan_store_bounded:
  assumes put: "planStore_put enc dec fl at s i e = (s', None)"
    and "wf_map (ts_entries s)" "0 < ts_max s"
  shows "int (length (ts_entries s')) \<le> ts_max s \<and>
    (\<forall>x \<in> set (gput (ts_entries (store_prune (plan_kind enc dec) at s)) i e) - set (ts_entries s').
       \<forall>y \<in> set (ts_entries s'). pe_created_at (snd x) \<le> pe_created_at (snd y))"
proof -
  let ?m = "gput (ts_entries (store_prune (plan_kind enc dec) at s)) i e"
  have "ts_entries s' = trim_entries pe_created_at (ts_max s) ?m"
    using put by (auto simp: planStore_put_def store_put_def Let_def store_trim_def prune_entries plan_kind_def
        split: option.splits prod.splits)
  moreover have "wf_map ?m" using assms(2) by (simp add: prune_entries)
  ultimately show ?thesis
    using trim_size [OF assms(3)] trim_oldest_first(2) [of ?m _ pe_created_at "ts_max s"] by simp
qed

lemma plan_store_bounded_witness:
  "let s = \<lparr>ts_ttl = planTTL, ts_max = 1, ts_entries = [(''p1'', demo_plan)], ts_db = None\<rparr>;
       s' = fst (planStore_put demo_enc demo_dec no_faults 3 s ''p2'' (demo_plan\<lparr>pe_created_at := 2\<rparr>))
   in int (length (ts_entries s')) \<le> 1 \<and> gget (ts_entries s') ''p1'' = None"
proof -
  let ?s = "\<lparr>ts_ttl = planTTL, ts_max = 1, ts_entries = [(''p1'', demo_plan)], ts_db = None\<rparr>"
  let ?s' = "\<lparr>ts_ttl = planTTL, ts_max = 1, ts_entries = [(''p2'', demo_plan\<lparr>pe_created_at := 2\<rparr>)], ts_db = None\<rparr>"
  have p: "planStore_put demo_enc demo_dec no_faults 3 ?s ''p2'' (demo_plan\<lparr>pe_created_at := 2\<rparr>) = (?s', None)"
    by (simp add: planStore_put_def store_put_def prune_entries gkeep_def plan_kind_def Let_def store_trim_def
        trim_entries.simps demo_plan_def outlived_def planTTL_def minute_def second_def)
  from plan_store_bounded [OF p] p show ?thesis by (simp add: wf_map_def Let_def)
qed

lemma list_keeps_db:
  "store_list kd P order rf df at s k = (s', r) \<Longrightarrow> ts_db s \<noteq> None \<Longrightarrow> ts_db s' \<noteq> None"
  by (auto simp: store_list_def Let_def prune_entries split: option.splits prod.splits sum.splits bool.splits)

text \<open>
  With a database, the listing of a file's snapshots and the lookup that a rollback makes agree:
  a revision is listed for a caller exactly when a lookup by that caller finds its content, before
  and after restarts and evictions. The listing is newest first, and no listed snapshot has passed
  its advertised expiry.
\<close>

theorem snapshot_list_matches_get:
  assumes run: "ledger_run (snapshot_kind enc dec) ttl mx L now s" and le: "now \<le> at"
    and db: "ts_db s \<noteq> None" and ord: "\<forall>rows. set (order rows) = set rows"
    and l: "snapshotStore_list enc dec order rf df at s filePath k = (s1, Inr items)"
  shows "(rv \<in> sl_revision ` set items \<longleftrightarrow>
            (\<exists>c. snd (snapshotStore_get enc dec no_faults at s1 filePath rv k) = Inr (Some c))) \<and>
         sorted_wrt (\<lambda>x y. sl_created_at y \<le> sl_created_at x) items \<and>
         (0 < ttl \<longrightarrow> (\<forall>x \<in> set items. at \<le> sl_expires_at x))"
proof -
  let ?kd = "snapshot_kind enc dec" and ?p = "filePath @ [CHR 0x00]"
  let ?key = "filePath @ CHR 0x00 # rv"
  have ok: "store_ok ?kd ttl mx L now s" by (rule run_ok [OF run])
  obtain es where ls: "store_list ?kd (has_prefix ?p) order rf df at s k = (s1, Inr es)"
    and items: "items = sort_key (\<lambda>x. - sl_created_at x)
       (map (\<lambda>(key, e). \<lparr>sl_revision = trim_prefix ?p key, sl_created_at = se_created_at e,
                         sl_expires_at = se_created_at e + ts_ttl s\<rparr>) es)"
    using l by (auto simp: snapshotStore_list_def Let_def split: prod.splits sum.splits)
  note L = list_ok [OF ok le ord ls]
  have db1: "ts_db s1 \<noteq> None" by (rule list_keeps_db [OF ls db])
  have es: "(i, e) \<in> set es \<longleftrightarrow> has_prefix ?p i \<and> live_entry ?kd ttl L at i k = Some e" for i e
    using L(2,3) db unfolding live_entry_Some by blast
  have get: "snd (snapshotStore_get enc dec no_faults at s1 filePath rv k) =
      Inr (map_option se_content (live_entry ?kd ttl L at ?key k))"
    using get_live(2) [OF L(1) order_refl _ db1, of no_faults ?key k]
    by (auto simp: snapshotStore_get_def snapshotKey_def split: prod.splits sum.splits)
  have "rv \<in> sl_revision ` set items \<longleftrightarrow> (\<exists>e. (?key, e) \<in> set es)"
  proof
    assume "rv \<in> sl_revision ` set items"
    then obtain i e where "(i, e) \<in> set es" "rv = trim_prefix ?p i" by (auto simp: items)
    moreover from this have "has_prefix ?p i" using es by blast
    ultimately show "\<exists>e. (?key, e) \<in> set es" by (auto simp: has_prefix_iff trim_prefix_def)
  next
    assume "\<exists>e. (?key, e) \<in> set es"
    then show "rv \<in> sl_revision ` set items"
      using has_prefix_key(2) [of ?p rv] by (force simp: items)
  qed
  then have "rv \<in> sl_revision ` set items \<longleftrightarrow> (\<exists>e. live_entry ?kd ttl L at ?key k = Some e)"
    using es [of ?key] has_prefix_append [of ?p rv] by simp
  moreover have "sorted_wrt (\<lambda>x y. sl_created_at y \<le> sl_created_at x) items"
    using sorted_sort_key [of "\<lambda>x. - sl_created_at x"] unfolding items sorted_map by simp
  moreover have "at \<le> sl_expires_at x" if pos: "0 < ttl" and x: "x \<in> set items" for x
  proof -
    obtain i e where "(i, e) \<in> set es" "sl_expires_at x = se_created_at e + ts_ttl s"
      using x by (auto simp: items)
    then show ?thesis
      using L(2) [of es i e] ok pos by (auto simp: store_ok_def outlived_def snapshot_kind_def)
  qed
  ultimately show ?thesis by (simp add: get)
qed

definition demo_snapshot :: snapshot_entry where
  "demo_snapshot = \<lparr>se_caller_key = ''alice'', se_content = ''old'', se_created_at = 5\<rparr>"

lemma demo_snapshots_run:
  "ledger_run (snapshot_kind (\<lambda>e. Some ''x'') (\<lambda>raw. Some demo_snapshot)) 100 512
     ((\<lambda>i. None)(snapshotKey ''f'' ''r'' \<mapsto> demo_snapshot)) 5
     \<lparr>ts_ttl = 100, ts_max = 512, ts_entries = [(snapshotKey ''f'' ''r'', demo_snapshot)],
      ts_db = Some [((''content_snapshot'', snapshotKey ''f'' ''r''),
                     \<lparr>ep_caller = ''alice'', ep_payload = ''x'', ep_created = 5\<rparr>)]\<rparr>"
proof -
  let ?kd = "snapshot_kind (\<lambda>e. Some ''x'') (\<lambda>raw. Some demo_snapshot)"
  let ?put = "CPut no_faults 5 (snapshotKey ''f'' ''r'') demo_snapshot"
  let ?init = "new_store 100 512 (Some [])"
  let ?s = "\<lparr>ts_ttl = 100, ts_max = 512, ts_entries = [(snapshotKey ''f'' ''r'', demo_snapshot)],
      ts_db = Some [((''content_snapshot'', snapshotKey ''f'' ''r''),
                     \<lparr>ep_caller = ''alice'', ep_payload = ''x'', ep_created = 5\<rparr>)]\<rparr>"
  have start: "ledger_run ?kd 100 512 (\<lambda>i. None) 0 ?init"
    by (rule ledger_run.start) simp
  have "proper_call ?kd ?init ?put"
    by (simp add: snapshot_kind_def demo_snapshot_def survives_def zero_time_def second_def)
  moreover have "apply_call ?kd ?init ?put = (?s, Inr None)"
    by (simp add: store_put_def new_store_def Let_def prune_entries gkeep_def snapshot_kind_def
        PutEphemeralRecord_def store_trim_def trim_entries.simps demo_snapshot_def snapshotKey_def
        zero_time_def second_def)
  ultimately show ?thesis
    using ledger_run.step [OF start, of ?put ?s "Inr None"] by simp
qed

lemma snapshot_list_matches_get_witness:
  "let enc = (\<lambda>e. Some ''x''); dec = (\<lambda>raw. Some demo_snapshot);
       s = \<lparr>ts_ttl = 100, ts_max = 512, ts_entries = [(snapshotKey ''f'' ''r'', demo_snapshot)],
            ts_db = Some [((''content_snapshot'', snapshotKey ''f'' ''r''),
                           \<lparr>ep_caller = ''alice'', ep_payload = ''x'', ep_created = 5\<rparr>)]\<rparr>;
       (s1, r) = snapshotStore_list enc dec (\<lambda>rows. rows) False (\<lambda>i. False) 6 s ''f'' ''alice''
   in r = Inr [\<lparr>sl_revision = ''r'', sl_created_at = 5, sl_expires_at = 105\<rparr>] \<and>
      (\<exists>c. snd (snapshotStore_get enc dec no_faults 6 s1 ''f'' ''r'' ''alice'') = Inr (Some c))"
proof -
  let ?enc = "\<lambda>e::snapshot_entry. Some ''x''" and ?dec = "\<lambda>raw::string. Some demo_snapshot"
  let ?s = "\<lparr>ts_ttl = 100, ts_max = 512, ts_entries = [(snapshotKey ''f'' ''r'', demo_snapshot)],
            ts_db = Some [((''content_snapshot'', snapshotKey ''f'' ''r''),
                           \<lparr>ep_caller = ''alice'', ep_payload = ''x'', ep_created = 5\<rparr>)]\<rparr>"
  let ?items = "[\<lparr>sl_revision = ''r'', sl_created_at = 5, sl_expires_at = 105\<rparr>]"
  have l: "snapshotStore_list ?enc ?dec (\<lambda>rows. rows) False (\<lambda>i. False) 6 ?s ''f'' ''alice'' = (?s, Inr ?items)"
    by (simp add: snapshotStore_list_def store_list_def ListEphemeralRecords_def list_live_def prune_entries
        gkeep_def snapshot_kind_def demo_snapshot_def snapshotKey_def trim_prefix_def outlived_def Let_def)
  have "\<exists>c. snd (snapshotStore_get ?enc ?dec no_faults 6 ?s ''f'' ''r'' ''alice'') = Inr (Some c)"
    using snapshot_list_matches_get [OF demo_snapshots_run _ _ _ l, of "''r''"] by simp
  then show ?thesis by (simp only: l Let_def prod.case simp_thms)
qed

end
