(* ===== verification/Caller.thy ===== *)
theory Caller
  imports Prelude
begin

text \<open>
  Caller identities: \<open>internal/caller/caller.go\<close> and the key functions of
  \<open>internal/tools/write/tools.go\<close>. A context is the three values the middleware stores in it; a
  missing value and a value of another type read as the empty string.
\<close>

record call_ctx =
  cx_principal :: string
  cx_token_id :: string
  cx_caller_ip :: string

definition TokenKey :: "call_ctx \<Rightarrow> string" where
  "TokenKey ctx =
     (if \<not> blank (cx_token_id ctx) then cx_token_id ctx
      else if \<not> blank (cx_caller_ip ctx) then cx_caller_ip ctx
      else '''')"

definition Key :: "call_ctx \<Rightarrow> string" where
  "Key ctx = (if \<not> blank (cx_principal ctx) then cx_principal ctx else TokenKey ctx)"

definition MutationKey :: "call_ctx \<Rightarrow> string" where
  "MutationKey ctx = (if Key ctx \<noteq> '''' then Key ctx else ''unknown'')"

definition Source :: "call_ctx \<Rightarrow> string" where
  "Source ctx =
     (if \<not> blank (cx_principal ctx) then ''principal''
      else if \<not> blank (cx_token_id ctx) then ''token''
      else if \<not> blank (cx_caller_ip ctx) then ''ip''
      else ''unknown'')"

definition mutationCallerKey :: "call_ctx \<Rightarrow> string" where
  "mutationCallerKey ctx = (if Key ctx \<noteq> '''' then Key ctx else ''unknown'')"

definition isolationCallerKey :: "call_ctx \<Rightarrow> string" where
  "isolationCallerKey ctx = (if TokenKey ctx \<noteq> '''' then TokenKey ctx else ''unknown'')"

definition idempotencyCallerKey :: "call_ctx \<Rightarrow> string" where
  "idempotencyCallerKey ctx = (if cx_token_id ctx \<noteq> '''' then cx_token_id ctx else ''local'')"

lemma not_blank_nonempty: "\<not> blank s \<Longrightarrow> s \<noteq> ''''"
  by auto

text \<open>The keys that own state are never empty, as the durable tables and the stores require.\<close>

lemma caller_keys_nonempty [simp]:
  "MutationKey ctx \<noteq> ''''" "mutationCallerKey ctx \<noteq> ''''" "isolationCallerKey ctx \<noteq> ''''"
  "idempotencyCallerKey ctx \<noteq> ''''"
  by (simp_all add: MutationKey_def mutationCallerKey_def isolationCallerKey_def idempotencyCallerKey_def)

lemma MutationKey_mutationCallerKey: "MutationKey = mutationCallerKey"
  by (simp add: MutationKey_def mutationCallerKey_def fun_eq_iff)

text \<open>
  The diagnostic \<open>identity_source\<close> never drifts from the key in use: the quota key is the
  principal, the token, the address or the fallback word exactly as \<open>Source\<close> says, and the
  isolation key is independent of the principal.
\<close>

theorem caller_source_matches_key:
  "(Source ctx = ''principal'' \<and> MutationKey ctx = cx_principal ctx \<or>
    Source ctx = ''token'' \<and> MutationKey ctx = cx_token_id ctx \<and> isolationCallerKey ctx = cx_token_id ctx \<or>
    Source ctx = ''ip'' \<and> MutationKey ctx = cx_caller_ip ctx \<and> isolationCallerKey ctx = cx_caller_ip ctx \<or>
    Source ctx = ''unknown'' \<and> MutationKey ctx = ''unknown'' \<and> isolationCallerKey ctx = ''unknown'') \<and>
   isolationCallerKey (ctx\<lparr>cx_principal := p\<rparr>) = isolationCallerKey ctx"
  using not_blank_nonempty
  by (auto simp: Source_def MutationKey_def Key_def TokenKey_def isolationCallerKey_def)

end
