(* ===== verification/Idempotency.thy ===== *)
theory Idempotency
  imports TtlStore Caller
begin

text \<open>
  Idempotent replay: \<open>internal/tools/write/idempotency.go\<close>, the mutation journal of
  \<open>internal/db/db.go\<close> and the tool of \<open>internal/tools/write/mutation_status.go\<close>. The durable journal
  is consulted first and written first; the map is the fallback and, without a database, all there
  is. \<open>enc\<close> and \<open>dec\<close> stand for \<open>json.Marshal\<close> and \<open>json.Unmarshal\<close> on a tool's output.
\<close>

section \<open>Key validation\<close>

definition maxIdempotencyKeyLen :: nat where "maxIdempotencyKeyLen = 128"

definition idem_key_char :: "char \<Rightarrow> bool" where
  "idem_key_char c \<longleftrightarrow>
     (let n = of_char c :: nat
      in 65 \<le> n \<and> n \<le> 90 \<or> 97 \<le> n \<and> n \<le> 122 \<or> 48 \<le> n \<and> n \<le> 57 \<or> n = 95 \<or> n = 45)"

definition idempotencyKeyPattern :: "string \<Rightarrow> bool" where
  "idempotencyKeyPattern key \<longleftrightarrow> key \<noteq> '''' \<and> list_all idem_key_char key"

definition validateIdempotencyKey :: "string \<Rightarrow> string option" where
  "validateIdempotencyKey key =
     (if blank key then None
      else if maxIdempotencyKeyLen < length key
        then Some ''invalid_params: idempotency_key exceeds 128 characters''
      else if \<not> idempotencyKeyPattern key
        then Some ''invalid_params: idempotency_key must contain only alphanumeric characters, dashes or underscores''
      else None)"

section \<open>The mutation journal\<close>

definition RememberMutation ::
    "io_faults \<Rightarrow> time \<Rightarrow> mutation_table \<Rightarrow> string \<Rightarrow> string \<Rightarrow> string \<Rightarrow> mutation_row \<Rightarrow>
     mutation_table \<times> string option" where
  "RememberMutation fl now t callerKey tool key e =
     (if callerKey = '''' \<or> tool = '''' \<or> key = '''' \<or> mr_hash e = '''' \<or> mr_result e = ''''
      then (t, Some ''mutation journal: caller, tool, key, request hash, and result are required'')
      else
        (let e' = (if mr_created e = zero_time then e\<lparr>mr_created := now\<rparr> else e)
         in if io_write fl then (t, Some ''exec'') else (gput t (callerKey, tool, key) e', None)))"

definition LookupMutation ::
    "io_faults \<Rightarrow> time \<Rightarrow> mutation_table \<Rightarrow> string \<Rightarrow> string \<Rightarrow> string \<Rightarrow> duration \<Rightarrow>
     mutation_table \<times> mutation_row option go" where
  "LookupMutation fl now t callerKey tool key ttl =
     (if io_read fl then (t, Inl ''query'')
      else (case gget t (callerKey, tool, key) of
              None \<Rightarrow> (t, Inr None)
            | Some e \<Rightarrow>
                if outlived ttl now (mr_created e)
                then (if io_delete fl then (t, Inl ''mutation journal: delete expired entry'')
                      else (gdel t (callerKey, tool, key), Inr None))
                else (t, Inr (Some e))))"

text \<open>
  The retention pass compares times as RFC 3339 text. Two times of different seconds compare by
  their fixed-width prefix, that is chronologically; within one second the comparison is of the
  fraction text with its trailing zeros removed, followed by \<open>Z\<close>.
\<close>

fun digits_of :: "nat \<Rightarrow> nat \<Rightarrow> string" where
  "digits_of 0 n = []"
| "digits_of (Suc k) n = digits_of k (n div 10) @ [char_of (48 + n mod 10)]"

definition frac_text :: "int \<Rightarrow> string" where
  "frac_text f =
     (if f = 0 then ''Z''
      else CHR ''.'' # rev (dropWhile ((=) (CHR ''0'')) (rev (digits_of 9 (nat f)))) @ ''Z'')"

fun text_less :: "string \<Rightarrow> string \<Rightarrow> bool" where
  "text_less s [] \<longleftrightarrow> False"
| "text_less [] (y # ys) \<longleftrightarrow> True"
| "text_less (x # xs) (y # ys) \<longleftrightarrow>
     (of_char x :: nat) < of_char y \<or> x = y \<and> text_less xs ys"

definition rfc3339_less :: "time \<Rightarrow> time \<Rightarrow> bool" where
  "rfc3339_less a b \<longleftrightarrow>
     unix a < unix b \<or> unix a = unix b \<and> text_less (frac_text (a mod second)) (frac_text (b mod second))"

record journal_stats =
  js_active_entries :: nat
  js_last_pruned_at :: time
  js_last_pruned_entries :: nat

definition PruneMutationJournal ::
    "bool \<Rightarrow> mutation_table \<Rightarrow> duration \<Rightarrow> time \<Rightarrow> mutation_table \<times> journal_stats go" where
  "PruneMutationJournal tx_fails t ttl now =
     (let t' = (if 0 < ttl then gkeep (\<lambda>k e. \<not> rfc3339_less (mr_created e) (now - ttl)) t else t)
      in if tx_fails then (t, Inl ''tx'')
         else (t', Inr \<lparr>js_active_entries = length t', js_last_pruned_at = now,
                        js_last_pruned_entries = length t - length t'\<rparr>))"

section \<open>The idempotency store\<close>

type_synonym idem_entry = mutation_row

record idem_store =
  im_ttl :: duration
  im_max :: int
  im_entries :: "(string, idem_entry) gomap"
  im_db :: "mutation_table option"

definition newIdempotencyStore :: "duration \<Rightarrow> int \<Rightarrow> mutation_table option \<Rightarrow> idem_store" where
  "newIdempotencyStore ttl maxEntries persistent =
     \<lparr>im_ttl = ttl, im_max = maxEntries, im_entries = [], im_db = persistent\<rparr>"

definition cacheKey :: "string \<Rightarrow> string \<Rightarrow> string \<Rightarrow> string" where
  "cacheKey callerKey tool key = callerKey @ [CHR 0x00] @ tool @ [CHR 0x00] @ key"

definition idem_prune :: "time \<Rightarrow> idem_store \<Rightarrow> idem_store" where
  "idem_prune now s =
     (if im_ttl s \<le> 0 then s
      else s\<lparr>im_entries := gkeep (\<lambda>k e. \<not> im_ttl s < now - mr_created e) (im_entries s)\<rparr>)"

definition idem_trim :: "idem_store \<Rightarrow> idem_store" where
  "idem_trim s = s\<lparr>im_entries := trim_entries mr_created (im_max s) (im_entries s)\<rparr>"

definition idem_conflict :: string where
  "idem_conflict = ''idempotency_conflict: idempotency_key was already used for a different request''"

text \<open>
  The result of \<open>replay\<close>: the flag, the error and the decoded output. A journal entry that does not
  decode is reported as a hit with an error, a map entry as a miss with an error.
\<close>

definition replay ::
    "(string \<Rightarrow> 'o option) \<Rightarrow> io_faults \<Rightarrow> time \<Rightarrow> idem_store \<Rightarrow> string \<Rightarrow> string \<Rightarrow> string \<Rightarrow> string \<Rightarrow>
     idem_store \<times> bool \<times> string option \<times> 'o option" where
  "replay dec fl now s callerKey tool key requestHash =
     (let from_map = (\<lambda>s0.
        let s = idem_prune now s0
        in (case gget (im_entries s) (cacheKey callerKey tool key) of
              None \<Rightarrow> (s, False, None, None)
            | Some e \<Rightarrow>
                if mr_hash e \<noteq> requestHash then (s, False, Some idem_conflict, None)
                else (case dec (mr_result e) of
                        None \<Rightarrow> (s, False, Some ''unmarshal'', None)
                      | Some out \<Rightarrow> (s, True, None, Some out))))
      in if key = '''' then (s, False, None, None)
         else (case im_db s of
                 None \<Rightarrow> from_map s
               | Some t \<Rightarrow>
                   (case LookupMutation fl now t callerKey tool key (im_ttl s) of
                      (t', Inl err) \<Rightarrow> (s\<lparr>im_db := Some t'\<rparr>, False, Some err, None)
                    | (t', Inr None) \<Rightarrow> from_map (s\<lparr>im_db := Some t'\<rparr>)
                    | (t', Inr (Some e)) \<Rightarrow>
                        (let s' = s\<lparr>im_db := Some t'\<rparr>
                         in if mr_hash e \<noteq> requestHash then (s', False, Some idem_conflict, None)
                            else (case dec (mr_result e) of
                                    None \<Rightarrow> (s', True, Some ''unmarshal'', None)
                                  | Some out \<Rightarrow> (s', True, None, Some out))))))"

definition remember ::
    "('o \<Rightarrow> string option) \<Rightarrow> io_faults \<Rightarrow> time \<Rightarrow> idem_store \<Rightarrow> string \<Rightarrow> string \<Rightarrow> string \<Rightarrow> string \<Rightarrow> 'o \<Rightarrow>
     idem_store \<times> string option" where
  "remember enc fl now s callerKey tool key requestHash out =
     (if key = '''' then (s, None)
      else (case enc out of
              None \<Rightarrow> (s, Some ''marshal'')
            | Some raw \<Rightarrow>
                (let e = \<lparr>mr_hash = requestHash, mr_result = raw, mr_created = now\<rparr>;
                     keep = (\<lambda>s0. let s = idem_prune now s0
                       in idem_trim (s\<lparr>im_entries := gput (im_entries s) (cacheKey callerKey tool key) e\<rparr>))
                 in case im_db s of
                      None \<Rightarrow> (keep s, None)
                    | Some t \<Rightarrow>
                        (case RememberMutation fl now t callerKey tool key (e\<lparr>mr_created := zero_time\<rparr>) of
                           (t', Some err) \<Rightarrow> (s\<lparr>im_db := Some t'\<rparr>, Some err)
                         | (t', None) \<Rightarrow> (keep (s\<lparr>im_db := Some t'\<rparr>), None)))))"

definition idem_lookup ::
    "io_faults \<Rightarrow> time \<Rightarrow> idem_store \<Rightarrow> string \<Rightarrow> string \<Rightarrow> string \<Rightarrow> idem_store \<times> string option go" where
  "idem_lookup fl now s callerKey tool key =
     (let from_map = (\<lambda>s0.
        let s = idem_prune now s0
        in (s, Inr (map_option mr_result (gget (im_entries s) (cacheKey callerKey tool key)))))
      in if key = '''' then (s, Inr None)
         else (case im_db s of
                 None \<Rightarrow> from_map s
               | Some t \<Rightarrow>
                   (case LookupMutation fl now t callerKey tool key (im_ttl s) of
                      (t', Inl err) \<Rightarrow> (s\<lparr>im_db := Some t'\<rparr>, Inl err)
                    | (t', Inr None) \<Rightarrow> from_map (s\<lparr>im_db := Some t'\<rparr>)
                    | (t', Inr (Some e)) \<Rightarrow> (s\<lparr>im_db := Some t'\<rparr>, Inr (Some (mr_result e))))))"

section \<open>get\_mutation\_status\<close>

definition mutationStatusLookupTools :: "string list" where
  "mutationStatusLookupTools =
     [''create_page'', ''update_page'', ''delete_page'', ''upload_page_asset'', ''delete_page_asset'',
      ''apply_content_plan'', ''rollback_change'', ''apply_bundle_plan'', ''rollback_bundle'',
      ''create_bundle'', ''delete_bundle'']"

record mutation_status =
  ms_tool :: string
  ms_key :: string
  ms_status :: string
  ms_result :: "json option"

text \<open>\<open>dec_obj\<close> decodes a JSON object; \<open>Some None\<close> is the decoded \<open>null\<close>.\<close>

definition getMutationStatus ::
    "(string \<Rightarrow> json option) \<Rightarrow> io_faults \<Rightarrow> time \<Rightarrow> idem_store \<Rightarrow> call_ctx \<Rightarrow> string \<Rightarrow> string \<Rightarrow>
     idem_store \<times> mutation_status go" where
  "getMutationStatus dec_obj fl now s ctx tool key =
     (if tool \<notin> set mutationStatusLookupTools
      then (s, Inl ''invalid_params: tool must be one of the listed mutation tools'')
      else if key = '''' then (s, Inl ''invalid_params: idempotency_key must not be empty'')
      else (case idem_lookup fl now s (idempotencyCallerKey ctx) tool key of
              (s', Inl err) \<Rightarrow> (s', Inl ''internal_error: failed to read mutation journal'')
            | (s', Inr None) \<Rightarrow>
                (s', Inr \<lparr>ms_tool = tool, ms_key = key, ms_status = ''unknown'', ms_result = None\<rparr>)
            | (s', Inr (Some raw)) \<Rightarrow>
                (case dec_obj raw of
                   None \<Rightarrow> (s', Inl ''internal_error: failed to decode recorded mutation result'')
                 | Some v \<Rightarrow>
                     (s', Inr \<lparr>ms_tool = tool, ms_key = key, ms_status = ''succeeded'', ms_result = Some v\<rparr>))))"

section \<open>Keys\<close>

definition nul_free :: "string \<Rightarrow> bool" where
  "nul_free s \<longleftrightarrow> CHR 0x00 \<notin> set s"

lemma split_last_nul:
  "nul_free b \<Longrightarrow> nul_free b' \<Longrightarrow> a @ CHR 0x00 # b = a' @ CHR 0x00 # b' \<longleftrightarrow> a = a' \<and> b = b'"
  unfolding nul_free_def by (auto simp: append_eq_append_conv2 append_eq_Cons_conv Cons_eq_append_conv)

lemma cacheKey_inj:
  assumes "nul_free t" "nul_free k" "nul_free t'" "nul_free k'"
  shows "cacheKey c t k = cacheKey c' t' k' \<longleftrightarrow> c = c' \<and> t = t' \<and> k = k'"
proof -
  have "cacheKey c t k = (c @ CHR 0x00 # t) @ CHR 0x00 # k" for c t k by (simp add: cacheKey_def)
  then show ?thesis using assms by (metis split_last_nul)
qed

lemma valid_key_nul_free:
  "validateIdempotencyKey key = None \<Longrightarrow> \<not> blank key \<Longrightarrow> nul_free key \<and> key \<noteq> '''' \<and> length key \<le> 128"
  by (auto simp: validateIdempotencyKey_def idempotencyKeyPattern_def nul_free_def list_all_iff
      idem_key_char_def maxIdempotencyKeyLen_def split: if_splits)

section \<open>Runs and the ledger of remembered results\<close>

datatype 'o idem_call =
    IRemember io_faults time string string string string 'o
  | IReplay io_faults time string string string string
  | ILookup io_faults time string string string
  | IPrune bool duration time
  | IRestart

type_synonym idem_ledger = "string \<times> string \<times> string \<Rightarrow> mutation_row option"

fun idem_step ::
    "('o \<Rightarrow> string option) \<Rightarrow> (string \<Rightarrow> 'o option) \<Rightarrow> idem_ledger \<Rightarrow> idem_store \<Rightarrow> 'o idem_call \<Rightarrow>
     idem_store \<times> idem_ledger" where
  "idem_step enc dec L s (IRemember fl now c t k h out) =
     (case remember enc fl now s c t k h out of
        (s', None) \<Rightarrow>
          (s', if k = '''' then L
               else L((c, t, k) \<mapsto> \<lparr>mr_hash = h, mr_result = the (enc out), mr_created = now\<rparr>))
      | (s', Some err) \<Rightarrow> (s', L))"
| "idem_step enc dec L s (IReplay fl now c t k h) = (fst (replay dec fl now s c t k h), L)"
| "idem_step enc dec L s (ILookup fl now c t k) = (fst (idem_lookup fl now s c t k), L)"
| "idem_step enc dec L s (IPrune fails ttl now) =
     (case im_db s of None \<Rightarrow> (s, L)
      | Some t \<Rightarrow> (s\<lparr>im_db := Some (fst (PruneMutationJournal fails t ttl now))\<rparr>, L))"
| "idem_step enc dec L s IRestart = (s\<lparr>im_entries := []\<rparr>, L)"

fun idem_time :: "'o idem_call \<Rightarrow> time option" where
  "idem_time (IRemember fl now c t k h out) = Some now"
| "idem_time (IReplay fl now c t k h) = Some now"
| "idem_time (ILookup fl now c t k) = Some now"
| "idem_time (IPrune fails ttl now) = Some now"
| "idem_time IRestart = None"

text \<open>
  Tool names and validated keys contain no NUL byte, and retention uses the store's own lifetime.
\<close>

fun proper_idem :: "duration \<Rightarrow> 'o idem_call \<Rightarrow> bool" where
  "proper_idem ttl (IRemember fl now c t k h out) \<longleftrightarrow> nul_free t \<and> nul_free k"
| "proper_idem ttl (IPrune fails ttl' now) \<longleftrightarrow> ttl' = ttl"
| "proper_idem ttl c \<longleftrightarrow> True"

inductive idem_run ::
    "('o \<Rightarrow> string option) \<Rightarrow> (string \<Rightarrow> 'o option) \<Rightarrow> duration \<Rightarrow> int \<Rightarrow> idem_ledger \<Rightarrow> time \<Rightarrow> idem_store \<Rightarrow> bool"
  for enc dec ttl mx where
  idem_start: "db = None \<or> db = Some [] \<Longrightarrow>
    idem_run enc dec ttl mx (\<lambda>k. None) now (newIdempotencyStore ttl mx db)"
| idem_next: "idem_run enc dec ttl mx L now s \<Longrightarrow> proper_idem ttl c \<Longrightarrow>
    (\<forall>at. idem_time c = Some at \<longrightarrow> now \<le> at) \<Longrightarrow> idem_step enc dec L s c = (s', L') \<Longrightarrow>
    idem_run enc dec ttl mx L' (case idem_time c of None \<Rightarrow> now | Some at \<Rightarrow> at) s'"

definition near_end :: "duration \<Rightarrow> time \<Rightarrow> time \<Rightarrow> bool" where
  "near_end ttl now created \<longleftrightarrow> 0 < ttl \<and> ttl - second < now - created"

definition idem_mem_ok :: "idem_ledger \<Rightarrow> (string, idem_entry) gomap \<Rightarrow> bool" where
  "idem_mem_ok L m \<longleftrightarrow> wf_map m \<and>
     (\<forall>ck e. gget m ck = Some e \<longrightarrow>
        (\<exists>c t k. ck = cacheKey c t k \<and> nul_free t \<and> nul_free k \<and> L (c, t, k) = Some e))"

definition idem_table_ok :: "duration \<Rightarrow> idem_ledger \<Rightarrow> time \<Rightarrow> mutation_table \<Rightarrow> bool" where
  "idem_table_ok ttl L now t \<longleftrightarrow> wf_map t \<and>
     (\<forall>q e. gget t q = Some e \<longrightarrow> L q = Some e) \<and>
     (\<forall>q e. L q = Some e \<longrightarrow> gget t q \<noteq> None \<or> near_end ttl now (mr_created e))"

definition idem_ok :: "duration \<Rightarrow> int \<Rightarrow> idem_ledger \<Rightarrow> time \<Rightarrow> idem_store \<Rightarrow> bool" where
  "idem_ok ttl mx L now s \<longleftrightarrow> im_ttl s = ttl \<and> im_max s = mx \<and>
     (\<forall>c t k e. L (c, t, k) = Some e \<longrightarrow> nul_free t \<and> nul_free k) \<and>
     idem_mem_ok L (im_entries s) \<and> (\<forall>t. im_db s = Some t \<longrightarrow> idem_table_ok ttl L now t)"

lemma near_end_mono: "near_end ttl now at \<Longrightarrow> now \<le> now' \<Longrightarrow> near_end ttl now' at"
  by (auto simp: near_end_def)

lemma outlived_near_end: "outlived ttl now at \<Longrightarrow> near_end ttl now at"
  by (auto simp: near_end_def outlived_def second_def)

lemma rfc3339_less_bounds:
  "rfc3339_less a b \<Longrightarrow> a < b + second" "a + second \<le> b \<Longrightarrow> rfc3339_less a b"
proof -
  have sec: "x = unix x * second + x mod second" "0 \<le> x mod second" "x mod second < second" for x :: int
    by (simp_all add: unix_def second_def)
  show "a < b + second" if "rfc3339_less a b"
  proof -
    have "unix a \<le> unix b" using that by (auto simp: rfc3339_less_def)
    then have "unix a * second \<le> unix b * second" by (simp add: second_def)
    then show ?thesis using sec [of a] sec [of b] by linarith
  qed
  show "rfc3339_less a b" if "a + second \<le> b"
  proof -
    have "unix a + 1 \<le> unix b" using that unix_mono [of "a + second" b] by (simp add: unix_def second_def)
    then show ?thesis by (simp add: rfc3339_less_def)
  qed
qed

lemma prune_near_end: "0 < ttl \<Longrightarrow> rfc3339_less at (now - ttl) \<Longrightarrow> near_end ttl now at"
  using rfc3339_less_bounds(1) [of at "now - ttl"] by (simp add: near_end_def)

section \<open>The invariant\<close>

lemma idem_prune_eq:
  "idem_prune now s = s\<lparr>im_entries := gkeep (\<lambda>k e. \<not> outlived (im_ttl s) now (mr_created e)) (im_entries s)\<rparr>"
  by (auto simp: idem_prune_def outlived_def gkeep_def)

lemma idem_mem_keep: "idem_mem_ok L m \<Longrightarrow> idem_mem_ok L (gkeep P m)"
  by (auto simp: idem_mem_ok_def gget_keep_Some)

lemma idem_mem_del: "idem_mem_ok L m \<Longrightarrow> idem_mem_ok L (gdel m k)"
  by (auto simp: idem_mem_ok_def split: if_splits)

lemma idem_mem_trim: "idem_mem_ok L m \<Longrightarrow> idem_mem_ok L (trim_entries created mx m)"
  by (induction created mx m rule: trim_entries.induct)
     (subst trim_entries.simps, auto simp: idem_mem_del split: option.splits)

lemma idem_mem_put:
  assumes "idem_mem_ok L m" "nul_free t" "nul_free k"
  shows "idem_mem_ok (L((c, t, k) \<mapsto> e)) (gput m (cacheKey c t k) e)"
  unfolding idem_mem_ok_def
proof (intro conjI allI impI)
  show "wf_map (gput m (cacheKey c t k) e)" using assms(1) by (simp add: idem_mem_ok_def)
  fix ck e'
  assume g: "gget (gput m (cacheKey c t k) e) ck = Some e'"
  show "\<exists>c' t' k'. ck = cacheKey c' t' k' \<and> nul_free t' \<and> nul_free k' \<and> (L((c, t, k) \<mapsto> e)) (c', t', k') = Some e'"
  proof (cases "ck = cacheKey c t k")
    case True
    then show ?thesis using g assms(2,3) by auto
  next
    case False
    then have "gget m ck = Some e'" using g by simp
    then obtain c' t' k' where "ck = cacheKey c' t' k'" "nul_free t'" "nul_free k'" "L (c', t', k') = Some e'"
      using assms(1) unfolding idem_mem_ok_def by blast
    moreover from this have "(L((c, t, k) \<mapsto> e)) (c', t', k') = Some e'" using False by auto
    ultimately show ?thesis by blast
  qed
qed

lemma idem_mem_get:
  assumes "idem_mem_ok L m" "nul_free t" "nul_free k" "gget m (cacheKey c t k) = Some e"
  shows "L (c, t, k) = Some e"
  using assms cacheKey_inj unfolding idem_mem_ok_def by metis

lemma idem_table_get: "idem_table_ok ttl L now t \<Longrightarrow> gget t q = Some e \<Longrightarrow> L q = Some e"
  unfolding idem_table_ok_def by blast

lemma idem_table_has:
  "idem_table_ok ttl L now t \<Longrightarrow> L q = Some e \<Longrightarrow> gget t q \<noteq> None \<or> near_end ttl now (mr_created e)"
  unfolding idem_table_ok_def by blast

lemma idem_table_later: "idem_table_ok ttl L now t \<Longrightarrow> now \<le> now' \<Longrightarrow> idem_table_ok ttl L now' t"
  unfolding idem_table_ok_def using near_end_mono by blast

lemma idem_ok_later: "idem_ok ttl mx L now s \<Longrightarrow> now \<le> now' \<Longrightarrow> idem_ok ttl mx L now' s"
  unfolding idem_ok_def using idem_table_later by blast

lemma idem_ok_prune: "idem_ok ttl mx L now s \<Longrightarrow> idem_ok ttl mx L now (idem_prune at s)"
  by (simp add: idem_ok_def idem_prune_eq idem_mem_keep)

lemma lookup_mutation_cases:
  assumes "LookupMutation fl now t c u k ttl = (t', r)" "idem_table_ok ttl L now t"
  shows "idem_table_ok ttl L now t'"
    and "r = Inr (Some e) \<Longrightarrow> gget t (c, u, k) = Some e \<and> \<not> outlived ttl now (mr_created e)"
    and "fl = no_faults \<Longrightarrow> gget t (c, u, k) = Some e \<Longrightarrow> \<not> outlived ttl now (mr_created e) \<Longrightarrow> r = Inr (Some e)"
    and "fl = no_faults \<Longrightarrow> \<exists>x. r = Inr x"
proof -
  have del: "idem_table_ok ttl L now (gdel t q)" if "gget t q = Some e" "outlived ttl now (mr_created e)" for q e
    unfolding idem_table_ok_def
  proof (intro conjI allI impI)
    show "wf_map (gdel t q)" using assms(2) by (simp add: idem_table_ok_def)
    fix p e'
    show "L p = Some e'" if "gget (gdel t q) p = Some e'"
    proof -
      have "gget t p = Some e'" using that by (simp split: if_splits)
      then show ?thesis using assms(2) unfolding idem_table_ok_def by blast
    qed
    show "gget (gdel t q) p \<noteq> None \<or> near_end ttl now (mr_created e')" if "L p = Some e'"
    proof (cases "p = q")
      case True
      then have "e' = e" using that \<open>gget t q = Some e\<close> idem_table_get [OF assms(2)] by fastforce
      then show ?thesis using \<open>outlived ttl now (mr_created e)\<close> outlived_near_end by blast
    next
      case False
      then show ?thesis using that idem_table_has [OF assms(2)] by fastforce
    qed
  qed
  show "idem_table_ok ttl L now t'"
    using assms del by (auto simp: LookupMutation_def split: if_splits option.splits)
  show "r = Inr (Some e) \<Longrightarrow> gget t (c, u, k) = Some e \<and> \<not> outlived ttl now (mr_created e)"
    using assms(1) by (auto simp: LookupMutation_def split: if_splits option.splits)
  show "fl = no_faults \<Longrightarrow> gget t (c, u, k) = Some e \<Longrightarrow> \<not> outlived ttl now (mr_created e) \<Longrightarrow> r = Inr (Some e)"
    "fl = no_faults \<Longrightarrow> \<exists>x. r = Inr x"
    using assms(1) by (auto simp: LookupMutation_def split: if_splits option.splits)
qed

lemma idem_ok_db: "idem_ok ttl mx L now s \<Longrightarrow> idem_table_ok ttl L now t \<Longrightarrow> idem_ok ttl mx L now (s\<lparr>im_db := Some t\<rparr>)"
  by (simp add: idem_ok_def)

lemma lookup_keeps:
  assumes "idem_ok ttl mx L now s" "im_db s = Some t" "LookupMutation fl now t c u k (im_ttl s) = (t', r)"
  shows "idem_ok ttl mx L now (s\<lparr>im_db := Some t'\<rparr>)"
  using assms lookup_mutation_cases(1) idem_ok_db by (metis idem_ok_def)

lemma lookup_db_cases:
  assumes "idem_ok ttl mx L now s" "im_db s = Some t"
  obtains t' r where "LookupMutation fl now t c u k (im_ttl s) = (t', r)"
    "idem_ok ttl mx L now (s\<lparr>im_db := Some t'\<rparr>)" "idem_ok ttl mx L now (idem_prune now (s\<lparr>im_db := Some t'\<rparr>))"
  using lookup_keeps [OF assms] idem_ok_prune by (metis prod.exhaust)

lemma replay_ok:
  assumes ok: "idem_ok ttl mx L now s"
  shows "idem_ok ttl mx L now (fst (replay dec fl now s c t k h))"
proof (cases "im_db s")
  case None
  then show ?thesis
    using ok idem_ok_prune [OF ok] by (auto simp: replay_def Let_def split: option.split)
next
  case (Some T)
  obtain T' r where "LookupMutation fl now T c t k (im_ttl s) = (T', r)"
    "idem_ok ttl mx L now (s\<lparr>im_db := Some T'\<rparr>)" "idem_ok ttl mx L now (idem_prune now (s\<lparr>im_db := Some T'\<rparr>))"
    by (rule lookup_db_cases [OF ok Some])
  then show ?thesis using ok Some by (auto simp: replay_def Let_def split: option.split sum.split)
qed

lemma idem_lookup_ok:
  assumes ok: "idem_ok ttl mx L now s"
  shows "idem_ok ttl mx L now (fst (idem_lookup fl now s c t k))"
proof (cases "im_db s")
  case None
  then show ?thesis using ok idem_ok_prune [OF ok] by (auto simp: idem_lookup_def Let_def)
next
  case (Some T)
  obtain T' r where "LookupMutation fl now T c t k (im_ttl s) = (T', r)"
    "idem_ok ttl mx L now (s\<lparr>im_db := Some T'\<rparr>)" "idem_ok ttl mx L now (idem_prune now (s\<lparr>im_db := Some T'\<rparr>))"
    by (rule lookup_db_cases [OF ok Some])
  then show ?thesis using ok Some by (auto simp: idem_lookup_def Let_def split: option.split sum.split)
qed

lemma remember_ok:
  assumes ok: "idem_ok ttl mx L now s" and nf: "nul_free t" "nul_free k"
    and r: "remember enc fl now s c t k h out = (s', err)"
  shows "idem_ok ttl mx (if err = None \<and> k \<noteq> ''''
           then L((c, t, k) \<mapsto> \<lparr>mr_hash = h, mr_result = the (enc out), mr_created = now\<rparr>) else L) now s'"
proof (cases "k = '''' \<or> enc out = None")
  case True
  then have "s' = s" "err = None \<longrightarrow> k = ''''" using r by (auto simp: remember_def split: if_splits)
  then show ?thesis using ok by auto
next
  case False
  then obtain raw where raw: "enc out = Some raw" and k: "k \<noteq> ''''" by auto
  let ?e = "\<lparr>mr_hash = h, mr_result = raw, mr_created = now\<rparr>"
  let ?L = "L((c, t, k) \<mapsto> ?e)"
  let ?keep = "\<lambda>u. idem_trim (idem_prune now u\<lparr>im_entries := gput (im_entries (idem_prune now u)) (cacheKey c t k) ?e\<rparr>)"
  have keep: "idem_ok ttl mx ?L now (?keep u)"
    if "im_ttl u = ttl" "im_max u = mx" "im_entries u = im_entries s" "\<And>t. im_db u = Some t \<Longrightarrow> idem_table_ok ttl ?L now t" for u
    using that nf ok
    by (auto simp: idem_ok_def idem_trim_def idem_prune_eq intro!: idem_mem_trim idem_mem_put idem_mem_keep)
  show ?thesis
  proof (cases "im_db s")
    case None
    have "idem_ok ttl mx ?L now (?keep s)" by (rule keep) (use ok None in \<open>auto simp: idem_ok_def\<close>)
    then show ?thesis using r raw k None by (auto simp: remember_def Let_def)
  next
    case (Some T)
    obtain T' er where rm: "RememberMutation fl now T c t k (?e\<lparr>mr_created := zero_time\<rparr>) = (T', er)"
      by fastforce
    show ?thesis
    proof (cases er)
      case None
      then have T': "T' = gput T (c, t, k) ?e"
        using rm by (auto simp: RememberMutation_def Let_def split: if_splits)
      have "idem_table_ok ttl L now T" using ok Some by (simp add: idem_ok_def)
      then have "idem_table_ok ttl ?L now T'" unfolding T' by (auto simp: idem_table_ok_def)
      then have "idem_ok ttl mx ?L now (?keep (s\<lparr>im_db := Some T'\<rparr>))"
        by (intro keep) (use ok Some in \<open>auto simp: idem_ok_def\<close>)
      then show ?thesis using r raw k Some rm None by (auto simp: remember_def Let_def)
    next
      case er: (Some x)
      then have "T' = T" using rm by (auto simp: RememberMutation_def Let_def split: if_splits)
      then show ?thesis using r ok raw k Some rm er by (auto simp: remember_def Let_def idem_ok_def)
    qed
  qed
qed

lemma prune_ok:
  assumes "idem_table_ok ttl L now t"
  shows "idem_table_ok ttl L now (fst (PruneMutationJournal fails t ttl now))"
proof (cases "0 < ttl \<and> \<not> fails")
  case True
  have "idem_table_ok ttl L now (gkeep (\<lambda>k e. \<not> rfc3339_less (mr_created e) (now - ttl)) t)"
    unfolding idem_table_ok_def
  proof (intro conjI allI impI)
    show "wf_map (gkeep (\<lambda>k e. \<not> rfc3339_less (mr_created e) (now - ttl)) t)"
      using assms by (simp add: idem_table_ok_def)
    fix q e
    show "L q = Some e" if "gget (gkeep (\<lambda>k e. \<not> rfc3339_less (mr_created e) (now - ttl)) t) q = Some e"
    proof -
      have "wf_map t" using assms by (simp add: idem_table_ok_def)
      then show ?thesis using that idem_table_get [OF assms] by (simp add: gget_keep_Some)
    qed
    show "gget (gkeep (\<lambda>k e. \<not> rfc3339_less (mr_created e) (now - ttl)) t) q \<noteq> None \<or> near_end ttl now (mr_created e)"
      if L: "L q = Some e"
    proof (cases "gget t q")
      case None
      then show ?thesis using L assms unfolding idem_table_ok_def by blast
    next
      case (Some e')
      then have "e' = e" using L idem_table_get [OF assms] by fastforce
      then show ?thesis
        using Some assms True prune_near_end by (auto simp: idem_table_ok_def gget_keep)
    qed
  qed
  then show ?thesis using True by (simp add: PruneMutationJournal_def Let_def)
next
  case False
  then show ?thesis using assms by (auto simp: PruneMutationJournal_def Let_def)
qed

lemma idem_run_ok: "idem_run enc dec ttl mx L now s \<Longrightarrow> idem_ok ttl mx L now s"
proof (induction rule: idem_run.induct)
  case (idem_start db now)
  then show ?case
    by (auto simp: idem_ok_def newIdempotencyStore_def idem_mem_ok_def idem_table_ok_def)
next
  case (idem_next L now s c s' L')
  have ok: "idem_ok ttl mx L at s" if "idem_time c = Some at" for at
    using idem_ok_later idem_next that by blast
  show ?case
  proof (cases c)
    case (IRemember fl at cl t k h out)
    obtain u er where r: "remember enc fl at s cl t k h out = (u, er)" by fastforce
    show ?thesis
      using remember_ok [OF ok _ _ r] idem_next(2,4) r by (cases er) (auto simp: IRemember split: if_splits)
  next
    case (IReplay fl at cl t k h)
    then have "idem_ok ttl mx L at s" using ok by simp
    then show ?thesis using replay_ok idem_next(4) IReplay by auto
  next
    case (ILookup fl at cl t k)
    then have "idem_ok ttl mx L at s" using ok by simp
    then show ?thesis using idem_lookup_ok idem_next(4) ILookup by auto
  next
    case (IPrune fails ttl' at)
    then show ?thesis
      using idem_next(2,4) ok prune_ok by (auto simp: idem_ok_def split: option.splits)
  next
    case IRestart
    then show ?thesis using idem_next by (auto simp: idem_ok_def idem_mem_ok_def)
  qed
qed

section \<open>Properties\<close>

lemma replay_reads_map:
  assumes ok: "idem_ok ttl mx L now s" and nf: "nul_free t" "nul_free k"
    and g: "gget (im_entries (idem_prune at s)) (cacheKey c t k) = Some e"
  shows "L (c, t, k) = Some e" "\<not> outlived ttl at (mr_created e)"
proof -
  have m: "idem_mem_ok L (im_entries s)" "wf_map (im_entries s)" "im_ttl s = ttl"
    using ok by (auto simp: idem_ok_def idem_mem_ok_def)
  show "L (c, t, k) = Some e"
    using idem_mem_get [OF _ nf] idem_ok_prune [OF ok, of at] g by (auto simp: idem_ok_def)
  show "\<not> outlived ttl at (mr_created e)"
    using g m(2,3) by (simp add: idem_prune_eq gget_keep_Some)
qed

text \<open>
  C20. Replay is exact. Along any run of the store with restarts, evictions, retention passes and
  faults: a replayed output is the decoded result of the last successful remember for exactly this
  caller, tool and key, with the same request hash and within its lifetime, and a conflict is
  reported only when such a result has a different hash. With a database and no fault in the call,
  every remembered result that is not in the last second of its lifetime is replayed, or answered
  as a conflict.
\<close>

theorem idempotent_replay_exact:
  assumes run: "idem_run enc dec ttl mx L now s" and le: "now \<le> at"
    and key: "nul_free t" "nul_free k" "k \<noteq> ''''"
  shows "(snd (replay dec fl at s c t k h) = (True, None, Some out) \<longrightarrow>
            (\<exists>e. L (c, t, k) = Some e \<and> mr_hash e = h \<and> dec (mr_result e) = Some out \<and>
                 \<not> outlived ttl at (mr_created e))) \<and>
         (snd (replay dec fl at s c t k h) = (False, Some idem_conflict, None) \<longrightarrow>
            (\<exists>e. L (c, t, k) = Some e \<and> mr_hash e \<noteq> h)) \<and>
         (im_db s \<noteq> None \<and> L (c, t, k) = Some e' \<and> \<not> near_end ttl at (mr_created e') \<longrightarrow>
            snd (replay dec no_faults at s c t k h) =
              (if mr_hash e' \<noteq> h then (False, Some idem_conflict, None)
               else (case dec (mr_result e') of None \<Rightarrow> (True, Some ''unmarshal'', None)
                     | Some out' \<Rightarrow> (True, None, Some out'))))"
proof -
  have ok: "idem_ok ttl mx L at s" using idem_ok_later [OF idem_run_ok [OF run] le] .
  have ttl: "im_ttl s = ttl" using ok by (simp add: idem_ok_def)
  note neq = idem_conflict_def
  show ?thesis
  proof (cases "im_db s")
    case None
    then show ?thesis
      using replay_reads_map [OF ok key(1,2), of at] key(3)
      by (auto simp: replay_def Let_def neq split: option.split)
  next
    case (Some T)
    have tab: "idem_table_ok ttl L at T" using ok Some by (simp add: idem_ok_def)
    obtain T' r where lk: "LookupMutation fl at T c t k (im_ttl s) = (T', r)" by fastforce
    note C = lookup_mutation_cases [OF lk [unfolded ttl] tab]
    have ok': "idem_ok ttl mx L at (s\<lparr>im_db := Some T'\<rparr>)" by (rule lookup_keeps [OF ok Some lk])
    have err: "r = Inl x \<Longrightarrow> x \<noteq> idem_conflict" for x
      using lk by (auto simp: LookupMutation_def neq split: if_splits option.splits)
    have hit: "L (c, t, k) = Some e \<and> \<not> outlived ttl at (mr_created e)" if "r = Inr (Some e)" for e
      using C(2) [OF that] idem_table_get [OF tab] by blast
    obtain T'' r'' where lk0: "LookupMutation no_faults at T c t k (im_ttl s) = (T'', r'')" by fastforce
    have durable: "r'' = Inr (Some e')" if "L (c, t, k) = Some e'" "\<not> near_end ttl at (mr_created e')"
      using idem_table_has [OF tab that(1)] idem_table_get [OF tab] that outlived_near_end
        lookup_mutation_cases(3) [OF lk0 [unfolded ttl] tab] by fastforce
    show ?thesis
    proof (intro conjI impI)
      assume "snd (replay dec fl at s c t k h) = (True, None, Some out)"
      then show "\<exists>e. L (c, t, k) = Some e \<and> mr_hash e = h \<and> dec (mr_result e) = Some out \<and>
          \<not> outlived ttl at (mr_created e)"
        using replay_reads_map [OF ok' key(1,2), of at] key(3) Some lk hit
        by (auto simp: replay_def Let_def split: option.splits sum.splits if_splits)
    next
      assume "snd (replay dec fl at s c t k h) = (False, Some idem_conflict, None)"
      then show "\<exists>e. L (c, t, k) = Some e \<and> mr_hash e \<noteq> h"
        using replay_reads_map [OF ok' key(1,2), of at] key(3) Some lk hit err
        by (auto simp: replay_def Let_def neq split: option.splits sum.splits if_splits)
    next
      assume "im_db s \<noteq> None \<and> L (c, t, k) = Some e' \<and> \<not> near_end ttl at (mr_created e')"
      then have "r'' = Inr (Some e')" using durable by blast
      then show "snd (replay dec no_faults at s c t k h) =
          (if mr_hash e' \<noteq> h then (False, Some idem_conflict, None)
           else (case dec (mr_result e') of None \<Rightarrow> (True, Some ''unmarshal'', None)
                 | Some out' \<Rightarrow> (True, None, Some out')))"
        using key(3) Some lk0 by (simp add: replay_def Let_def split: option.split)
    qed
  qed
qed

definition demo_idem :: idem_store where
  "demo_idem =
     \<lparr>im_ttl = 900 * second, im_max = 256, im_entries = [],
      im_db = Some [((''tok'', ''create_page'', ''k1''), \<lparr>mr_hash = ''h1'', mr_result = ''done'', mr_created = 7\<rparr>)]\<rparr>"

lemma demo_idem_run:
  "idem_run Some Some (900 * second) 256
     ((\<lambda>q. None)((''tok'', ''create_page'', ''k1'') \<mapsto> \<lparr>mr_hash = ''h1'', mr_result = ''done'', mr_created = 7\<rparr>)) 7 demo_idem"
proof -
  let ?init = "newIdempotencyStore (900 * second) 256 (Some [])"
  let ?c = "IRemember no_faults 7 ''tok'' ''create_page'' ''k1'' ''h1'' ''done''"
  let ?L = "(\<lambda>q. None)((''tok'', ''create_page'', ''k1'') \<mapsto> \<lparr>mr_hash = ''h1'', mr_result = ''done'', mr_created = 7\<rparr>)"
  let ?mid = "demo_idem\<lparr>im_entries :=
      [(cacheKey ''tok'' ''create_page'' ''k1'', \<lparr>mr_hash = ''h1'', mr_result = ''done'', mr_created = 7\<rparr>)]\<rparr>"
  have "idem_run Some Some (900 * second) 256 (\<lambda>q. None) 0 ?init" by (rule idem_start) simp
  moreover have "idem_step Some Some (\<lambda>q. None) ?init ?c = (?mid, ?L)"
    by (simp add: remember_def newIdempotencyStore_def RememberMutation_def idem_prune_eq gkeep_def
        idem_trim_def trim_entries.simps demo_idem_def cacheKey_def Let_def)
  ultimately have "idem_run Some Some (900 * second) 256 ?L 7 ?mid"
    using idem_next [of Some Some "900 * second" 256 "\<lambda>q. None" 0 ?init ?c ?mid ?L] by (simp add: nul_free_def)
  then show ?thesis
    using idem_next [of Some Some "900 * second" 256 ?L 7 ?mid IRestart demo_idem ?L]
    by (simp add: demo_idem_def)
qed

lemma idempotent_replay_exact_witness:
  "snd (replay Some no_faults (100 * second) demo_idem ''tok'' ''create_page'' ''k1'' ''h1'') = (True, None, Some ''done'') \<and>
   snd (replay Some no_faults (100 * second) demo_idem ''tok'' ''create_page'' ''k1'' ''h2'') = (False, Some idem_conflict, None)"
proof -
  have "(7::int) \<le> 100 * second" "nul_free ''create_page''" "nul_free ''k1''" "''k1'' \<noteq> ''''"
    by (simp_all add: second_def nul_free_def)
  note exact = idempotent_replay_exact [OF demo_idem_run this, where c = "''tok''"]
  show ?thesis using exact [of no_faults "''h1''"] exact [of no_faults "''h2''"]
    by (simp add: demo_idem_def near_end_def second_def)
qed

text \<open>
  \<open>get_mutation_status\<close> agrees with a retry: it reports \<open>succeeded\<close> with a result exactly when
  repeating the mutation with the recorded request hash would replay that same recorded text,
  under the caller's own key and in the same state, clock and faults.
\<close>

theorem mutation_status_is_replay:
  assumes "tool \<in> set mutationStatusLookupTools" "key \<noteq> ''''"
  shows "(\<exists>m. snd (getMutationStatus dec_obj fl now s ctx tool key) = Inr m \<and>
              ms_status m = ''succeeded'' \<and> ms_result m = Some v) \<longleftrightarrow>
         (\<exists>h raw. dec_obj raw = Some v \<and>
              snd (replay Some fl now s (idempotencyCallerKey ctx) tool key h) = (True, None, Some raw))"
proof -
  let ?c = "idempotencyCallerKey ctx"
  have lookup: "snd (idem_lookup fl now s ?c tool key) = Inr (Some raw) \<longleftrightarrow>
      (\<exists>h. snd (replay Some fl now s ?c tool key h) = (True, None, Some raw))" for raw
  proof (cases "im_db s")
    case None
    then show ?thesis
      using assms(2) by (auto simp: idem_lookup_def replay_def Let_def split: option.split)
  next
    case (Some T)
    obtain T' r where lk: "LookupMutation fl now T ?c tool key (im_ttl s) = (T', r)" by fastforce
    show ?thesis
    proof (cases "\<exists>e. r = Inr (Some e)")
      case True
      then show ?thesis
        using assms(2) Some lk by (auto simp: idem_lookup_def replay_def Let_def split: if_splits)
    next
      case False
      then show ?thesis
        using assms(2) Some lk
        by (auto simp: idem_lookup_def replay_def Let_def split: option.split sum.split)
    qed
  qed
  have status: "(\<exists>m. snd (getMutationStatus dec_obj fl now s ctx tool key) = Inr m \<and>
      ms_status m = ''succeeded'' \<and> ms_result m = Some v) \<longleftrightarrow>
    (\<exists>raw. dec_obj raw = Some v \<and> snd (idem_lookup fl now s ?c tool key) = Inr (Some raw))"
    using assms by (auto simp: getMutationStatus_def split: prod.splits sum.splits option.splits)
  show ?thesis unfolding status using lookup by blast
qed

lemma mutation_status_is_replay_witness:
  "\<exists>m. snd (getMutationStatus (\<lambda>raw. Some (JStr raw)) no_faults 8 demo_idem
         \<lparr>cx_principal = '''', cx_token_id = ''tok'', cx_caller_ip = ''''\<rparr> ''create_page'' ''k1'') = Inr m \<and>
       ms_status m = ''succeeded'' \<and> ms_result m = Some (JStr ''done'')"
proof -
  have "snd (replay Some no_faults 8 demo_idem ''tok'' ''create_page'' ''k1'' ''h1'') = (True, None, Some ''done'')"
    by (simp add: replay_def demo_idem_def LookupMutation_def outlived_def second_def Let_def)
  then show ?thesis
    using mutation_status_is_replay [of "''create_page''" "''k1''" "\<lambda>raw. Some (JStr raw)" no_faults 8
        demo_idem "\<lparr>cx_principal = '''', cx_token_id = ''tok'', cx_caller_ip = ''''\<rparr>" "JStr ''done''"]
    by (auto simp: mutationStatusLookupTools_def idempotencyCallerKey_def)
qed

text \<open>
  The retention pass, which compares times as text, removes nothing younger than the retention
  less one second, leaves nothing older than the retention plus one second, and reports the number
  of entries it removed and kept.
\<close>

theorem journal_prune_bounds:
  assumes p: "PruneMutationJournal False t ttl now = (t', Inr st)" and "0 < ttl" "wf_map t"
  shows "(\<forall>q e. gget t q = Some e \<and> gget t' q = None \<longrightarrow> ttl - second < now - mr_created e) \<and>
         (\<forall>q e. gget t' q = Some e \<longrightarrow> gget t q = Some e \<and> now - mr_created e < ttl + second) \<and>
         js_active_entries st + js_last_pruned_entries st = length t \<and> js_active_entries st = length t'"
proof -
  have t': "t' = gkeep (\<lambda>k e. \<not> rfc3339_less (mr_created e) (now - ttl)) t"
    and st: "js_active_entries st = length t'" "js_last_pruned_entries st = length t - length t'"
    using p assms(2) by (auto simp: PruneMutationJournal_def Let_def)
  have "ttl - second < now - mr_created e" if "gget t q = Some e" "gget t' q = None" for q e
    using that assms(3) rfc3339_less_bounds(1) [of "mr_created e" "now - ttl"]
    by (auto simp: t' gget_keep split: if_splits)
  moreover have "gget t q = Some e \<and> now - mr_created e < ttl + second" if "gget t' q = Some e" for q e
  proof -
    have e: "gget t q = Some e" "\<not> rfc3339_less (mr_created e) (now - ttl)"
      using that assms(3) by (auto simp: t' gget_keep_Some)
    then have "\<not> mr_created e + second \<le> now - ttl" using rfc3339_less_bounds(2) by blast
    then show ?thesis using e(1) by simp
  qed
  moreover have "length t' \<le> length t" by (simp add: t' length_gkeep)
  ultimately show ?thesis using st by (intro conjI allI impI) (blast | linarith)+
qed

lemma journal_prune_bounds_witness:
  "\<exists>st. PruneMutationJournal False
      [((''a'', ''t'', ''k''), \<lparr>mr_hash = ''h'', mr_result = ''r'', mr_created = 0\<rparr>),
       ((''b'', ''t'', ''k''), \<lparr>mr_hash = ''h'', mr_result = ''r'', mr_created = 9 * second\<rparr>)] (5 * second) (10 * second) =
     ([((''b'', ''t'', ''k''), \<lparr>mr_hash = ''h'', mr_result = ''r'', mr_created = 9 * second\<rparr>)], Inr st) \<and>
     js_active_entries st + js_last_pruned_entries st = 2"
proof -
  let ?t = "[((''a'', ''t'', ''k''), \<lparr>mr_hash = ''h'', mr_result = ''r'', mr_created = 0\<rparr>),
       ((''b'', ''t'', ''k''), \<lparr>mr_hash = ''h'', mr_result = ''r'', mr_created = 9 * second\<rparr>)]"
  let ?u = "[((''b'', ''t'', ''k''), \<lparr>mr_hash = ''h'', mr_result = ''r'', mr_created = 9 * second\<rparr>)]"
  let ?st = "\<lparr>js_active_entries = 1, js_last_pruned_at = 10 * second, js_last_pruned_entries = 1\<rparr>"
  have p: "PruneMutationJournal False ?t (5 * second) (10 * second) = (?u, Inr ?st)"
    by (simp add: PruneMutationJournal_def gkeep_def rfc3339_less_def unix_def second_def)
  from journal_prune_bounds [OF p] p show ?thesis by (simp add: wf_map_def second_def)
qed

end
