(* ===== verification/ChangeSet.thy ===== *)
theory ChangeSet
  imports Caller "HOL-Library.List_Lexorder" "HOL-Library.Char_ord"
begin

text \<open>
  Change sets: \<open>internal/changeset/changeset.go\<close>, its two tables in \<open>internal/db/db.go\<close> and the
  publication guard of \<open>internal/tools/admin/change_set_guard.go\<close>. The registry's maps are
  authoritative while the process runs; ownership is rehydrated from the table after a restart, the
  mutation record is not. Writes to the table are best effort.
\<close>

section \<open>State\<close>

record cs_owner =
  ow_principal :: string
  ow_created_at :: "time option"
  ow_last_used_at :: "time option"
  ow_declared :: bool
  ow_note :: string

record cs_mutation =
  cm_change_set :: string
  cm_principal :: string
  cm_tool :: string
  cm_source_key :: string
  cm_type :: string
  cm_created :: time

record cs_row =
  cr_principal :: string
  cr_created :: time
  cr_last_used :: time
  cr_declared :: bool
  cr_note :: string

record cs_db =
  cd_sets :: "(string, cs_row) gomap"
  cd_mutations :: "cs_mutation list"

record cs_registry =
  rg_owners :: "(string, cs_owner) gomap"
  rg_mutations :: "(string, cs_mutation list) gomap"
  rg_persistent :: "cs_db option"

section \<open>The tables\<close>

text \<open>\<open>fails\<close> says that the statement fails; it then changes nothing.\<close>

definition CreateChangeSet :: "bool \<Rightarrow> cs_db \<Rightarrow> string \<Rightarrow> string \<Rightarrow> time \<Rightarrow> cs_db \<times> string option" where
  "CreateChangeSet fails d i principalID now =
     (if i = '''' \<or> principalID = '''' then (d, Some ''change set: id and principal_id are required'')
      else if fails then (d, Some ''exec'')
      else (case gget (cd_sets d) i of
              Some row \<Rightarrow> (d, None)
            | None \<Rightarrow> (d\<lparr>cd_sets := gput (cd_sets d) i
                \<lparr>cr_principal = principalID, cr_created = now, cr_last_used = now, cr_declared = False,
                 cr_note = ''''\<rparr>\<rparr>, None)))"

definition GetChangeSetOwner :: "bool \<Rightarrow> cs_db \<Rightarrow> string \<Rightarrow> (string \<times> bool \<times> string) option go" where
  "GetChangeSetOwner fails d i =
     (if fails then Inl ''query''
      else Inr (map_option (\<lambda>row. (cr_principal row, cr_declared row, cr_note row)) (gget (cd_sets d) i)))"

definition SetChangeSetDeclared :: "bool \<Rightarrow> cs_db \<Rightarrow> string \<Rightarrow> bool \<Rightarrow> string \<Rightarrow> cs_db" where
  "SetChangeSetDeclared fails d i declared note =
     (case gget (cd_sets d) i of
        Some row \<Rightarrow> if fails then d
          else d\<lparr>cd_sets := gput (cd_sets d) i (row\<lparr>cr_declared := declared, cr_note := note\<rparr>)\<rparr>
      | None \<Rightarrow> d)"

definition TouchChangeSet :: "bool \<Rightarrow> cs_db \<Rightarrow> string \<Rightarrow> time \<Rightarrow> cs_db" where
  "TouchChangeSet fails d i now =
     (case gget (cd_sets d) i of
        Some row \<Rightarrow> if fails then d else d\<lparr>cd_sets := gput (cd_sets d) i (row\<lparr>cr_last_used := now\<rparr>)\<rparr>
      | None \<Rightarrow> d)"

definition RecordChangeSetMutation :: "bool \<Rightarrow> time \<Rightarrow> cs_db \<Rightarrow> cs_mutation \<Rightarrow> cs_db \<times> string option" where
  "RecordChangeSetMutation fails now d m =
     (if cm_change_set m = '''' \<or> cm_principal m = '''' \<or> cm_tool m = '''' \<or> cm_type m = ''''
      then (d, Some ''change set mutation: change_set_id, principal_id, tool, and mutation_type are required'')
      else if fails then (d, Some ''exec'')
      else (d\<lparr>cd_mutations := cd_mutations d @
                [if cm_created m = zero_time then m\<lparr>cm_created := now\<rparr> else m]\<rparr>, None))"

text \<open>\<open>order\<close> is SQLite's arrangement of the selected rows by the text of their creation time.\<close>

definition ListChangeSetMutations ::
    "(cs_mutation list \<Rightarrow> cs_mutation list) \<Rightarrow> bool \<Rightarrow> cs_db \<Rightarrow> string \<Rightarrow> cs_mutation list go" where
  "ListChangeSetMutations order fails d i =
     (if fails then Inl ''query'' else Inr (order (filter (\<lambda>m. cm_change_set m = i) (cd_mutations d))))"

section \<open>The registry\<close>

definition NewRegistry :: "cs_db option \<Rightarrow> cs_registry" where
  "NewRegistry persistent = \<lparr>rg_owners = [], rg_mutations = [], rg_persistent = persistent\<rparr>"

text \<open>\<open>random\<close> is the hexadecimal text of sixteen random bytes, \<open>None\<close> when the source fails.\<close>

definition NewID :: "string option \<Rightarrow> string go" where
  "NewID random = (case random of None \<Rightarrow> Inl ''rand'' | Some h \<Rightarrow> Inr (''cs_'' @ h))"

definition DefaultID :: "string \<Rightarrow> string" where
  "DefaultID principalID = ''default:'' @ principalID"

definition Create ::
    "bool \<Rightarrow> string option \<Rightarrow> cs_registry \<Rightarrow> string \<Rightarrow> time \<Rightarrow> cs_registry \<times> string go" where
  "Create fails random r principalID now =
     (if principalID = ''''
      then (r, Inl ''internal_error: cannot create a change-set without a caller identity'')
      else (case NewID random of
              Inl e \<Rightarrow> (r, Inl ''internal_error: failed to generate change_set_id'')
            | Inr i \<Rightarrow>
                (let r1 = r\<lparr>rg_owners := gput (rg_owners r) i
                       \<lparr>ow_principal = principalID, ow_created_at = Some now, ow_last_used_at = Some now,
                        ow_declared = False, ow_note = ''''\<rparr>\<rparr>
                 in (r1\<lparr>rg_persistent := map_option (\<lambda>d. fst (CreateChangeSet fails d i principalID now))
                          (rg_persistent r1)\<rparr>, Inr i))))"

definition SetDeclaredUntrustedDerivation ::
    "bool \<Rightarrow> cs_registry \<Rightarrow> string \<Rightarrow> bool \<Rightarrow> string \<Rightarrow> cs_registry" where
  "SetDeclaredUntrustedDerivation fails r i declared note =
     (case gget (rg_owners r) i of
        None \<Rightarrow> r
      | Some o' \<Rightarrow>
          r\<lparr>rg_owners := gput (rg_owners r) i (o'\<lparr>ow_declared := declared, ow_note := note\<rparr>),
            rg_persistent := map_option (\<lambda>d. SetChangeSetDeclared fails d i declared note) (rg_persistent r)\<rparr>)"

definition DeclaredUntrustedDerivation :: "cs_registry \<Rightarrow> string \<Rightarrow> bool \<times> string" where
  "DeclaredUntrustedDerivation r i =
     (case gget (rg_owners r) i of None \<Rightarrow> (False, '''') | Some o' \<Rightarrow> (ow_declared o', ow_note o'))"

definition unknown_change_set :: string where
  "unknown_change_set =
     ''invalid_params: change_set_id is unknown or does not belong to this caller''"

definition checkOwnership ::
    "bool \<Rightarrow> call_ctx \<Rightarrow> cs_registry \<Rightarrow> string \<Rightarrow> cs_registry \<times> string go" where
  "checkOwnership fails ctx r requested =
     (let principalID = MutationKey ctx;
          decide = (\<lambda>r. (r, case gget (rg_owners r) requested of
             None \<Rightarrow> Inl unknown_change_set
           | Some o' \<Rightarrow> if ow_principal o' \<noteq> principalID then Inl unknown_change_set else Inr requested))
      in if requested = '''' then (r, Inr (DefaultID principalID))
         else (case (gget (rg_owners r) requested, rg_persistent r) of
                 (None, Some d) \<Rightarrow>
                   (case GetChangeSetOwner fails d requested of
                      Inl e \<Rightarrow> (r, Inl ''internal_error: failed to look up change_set_id'')
                    | Inr None \<Rightarrow> decide r
                    | Inr (Some (persisted, declared, note)) \<Rightarrow>
                        decide (r\<lparr>rg_owners := gput (rg_owners r) requested
                          \<lparr>ow_principal = persisted, ow_created_at = None, ow_last_used_at = None,
                           ow_declared = declared, ow_note = note\<rparr>\<rparr>))
               | _ \<Rightarrow> decide r))"

definition Resolve ::
    "bool \<Rightarrow> bool \<Rightarrow> call_ctx \<Rightarrow> cs_registry \<Rightarrow> string \<Rightarrow> time \<Rightarrow> cs_registry \<times> string go" where
  "Resolve read_fails touch_fails ctx r requested now =
     (case checkOwnership read_fails ctx r requested of
        (r1, Inl e) \<Rightarrow> (r1, Inl e)
      | (r1, Inr resolved) \<Rightarrow>
          (if requested = '''' then (r1, Inr resolved)
           else (r1\<lparr>rg_owners := (case gget (rg_owners r1) requested of
                       None \<Rightarrow> rg_owners r1
                     | Some o' \<Rightarrow> gput (rg_owners r1) requested (o'\<lparr>ow_last_used_at := Some now\<rparr>)),
                   rg_persistent := map_option (\<lambda>d. TouchChangeSet touch_fails d requested now) (rg_persistent r1)\<rparr>,
                 Inr resolved)))"

definition Peek :: "bool \<Rightarrow> call_ctx \<Rightarrow> cs_registry \<Rightarrow> string \<Rightarrow> cs_registry \<times> string go" where
  "Peek fails ctx r requested = checkOwnership fails ctx r requested"

definition MutationsFor :: "cs_registry \<Rightarrow> string \<Rightarrow> cs_mutation list" where
  "MutationsFor r i = (case gget (rg_mutations r) i of None \<Rightarrow> [] | Some ms \<Rightarrow> ms)"

definition RecordMutation ::
    "bool \<Rightarrow> cs_registry \<Rightarrow> string \<Rightarrow> string \<Rightarrow> string \<Rightarrow> string \<Rightarrow> string \<Rightarrow> time \<Rightarrow> cs_registry" where
  "RecordMutation fails r i principalID tool sourceKey mutationType now =
     (let e = \<lparr>cm_change_set = i, cm_principal = principalID, cm_tool = tool, cm_source_key = sourceKey,
               cm_type = mutationType, cm_created = now\<rparr>
      in r\<lparr>rg_mutations := gput (rg_mutations r) i (MutationsFor r i @ [e]),
           rg_persistent := map_option (\<lambda>d. fst (RecordChangeSetMutation fails now d e)) (rg_persistent r)\<rparr>)"

text \<open>The two nested loops: a strictly later mutation of the page replaces the candidate.\<close>

fun scan_entries :: "string \<Rightarrow> string \<Rightarrow> cs_mutation list \<Rightarrow> (string \<times> time) option \<Rightarrow> (string \<times> time) option" where
  "scan_entries sourceKey cs [] acc = acc"
| "scan_entries sourceKey cs (e # es) acc =
     scan_entries sourceKey cs es
       (if cm_source_key e \<noteq> sourceKey then acc
        else (case acc of
                None \<Rightarrow> Some (cs, cm_created e)
              | Some (c, latest) \<Rightarrow> if latest < cm_created e then Some (cs, cm_created e) else acc))"

fun scan_owners :: "string \<Rightarrow> (string, cs_mutation list) gomap \<Rightarrow> (string \<times> time) option \<Rightarrow> (string \<times> time) option" where
  "scan_owners sourceKey [] acc = acc"
| "scan_owners sourceKey ((cs, es) # m) acc = scan_owners sourceKey m (scan_entries sourceKey cs es acc)"

definition OwnerOfSourceKey :: "cs_registry \<Rightarrow> string \<Rightarrow> string option" where
  "OwnerOfSourceKey r sourceKey = map_option fst (scan_owners sourceKey (rg_mutations r) None)"

section \<open>The publication guard\<close>

fun resolve_all ::
    "(nat \<Rightarrow> bool) \<Rightarrow> call_ctx \<Rightarrow> time \<Rightarrow> string list \<Rightarrow> cs_registry \<Rightarrow> string list \<Rightarrow> cs_registry \<times> string list go" where
  "resolve_all fails ctx now [] r acc = (r, Inr acc)"
| "resolve_all fails ctx now (i # is) r acc =
     (case Resolve (fails (length is)) False ctx r i now of
        (r', Inl e) \<Rightarrow> (r', Inl e)
      | (r', Inr resolved) \<Rightarrow> resolve_all fails ctx now is r' (acc @ [resolved]))"

fun foreign_pages :: "(string \<Rightarrow> string option) \<Rightarrow> string list \<Rightarrow> string list \<Rightarrow> string list \<Rightarrow> string list" where
  "foreign_pages owner acknowledged [] foreign = foreign"
| "foreign_pages owner acknowledged (slug # pending) foreign =
     foreign_pages owner acknowledged pending
       (if slug \<in> set foreign then foreign
        else (case owner slug of
                None \<Rightarrow> foreign
              | Some cs \<Rightarrow> if cs \<notin> set acknowledged then foreign @ [slug] else foreign))"

text \<open>
  \<open>pending\<close> is the slugs of the pages the source index marks as awaiting a build, \<open>None\<close> for a
  missing index. \<open>fails i\<close> is a fault of the ownership lookup with \<open>i\<close> identifiers left to resolve.
\<close>

definition guardForeignChangeSet ::
    "(nat \<Rightarrow> bool) \<Rightarrow> call_ctx \<Rightarrow> time \<Rightarrow> cs_registry option \<Rightarrow> string list option \<Rightarrow> string \<Rightarrow> string list \<Rightarrow>
     cs_registry option \<times> string option" where
  "guardForeignChangeSet fails ctx now changeSets srcIdx changeSetID changeSetIDs =
     (case (changeSets, srcIdx) of
        (Some r, Some pending) \<Rightarrow>
          (let requested = (if changeSetIDs = [] then [changeSetID] else changeSetIDs)
           in (case resolve_all fails ctx now requested r [] of
                 (r', Inl e) \<Rightarrow> (Some r', Some e)
               | (r', Inr acknowledged) \<Rightarrow>
                   (let foreign = foreign_pages (OwnerOfSourceKey r') acknowledged pending []
                    in if foreign = [] then (Some r', None)
                       else (Some r', Some (''foreign_change_set_present: '' @ join_with '', '' (sort foreign))))))
      | _ \<Rightarrow> (changeSets, None))"

section \<open>Runs\<close>

datatype cs_call =
    CsCreate bool "string option" string time
  | CsDeclare bool string bool string
  | CsResolve bool bool call_ctx string time
  | CsPeek bool call_ctx string
  | CsRecord bool string string string string string time
  | CsRestart

text \<open>
  The ledger of minted identifiers: the principal an identifier was minted for, and whether the
  minting reached the table.
\<close>

type_synonym cs_ledger = "string \<Rightarrow> (string \<times> bool) option"

definition create_durable :: "bool \<Rightarrow> cs_registry \<Rightarrow> bool" where
  "create_durable fails r \<longleftrightarrow> rg_persistent r \<noteq> None \<and> \<not> fails"

fun cs_step :: "cs_ledger \<Rightarrow> cs_registry \<Rightarrow> cs_call \<Rightarrow> cs_registry \<times> cs_ledger" where
  "cs_step W r (CsCreate fails random p now) =
     (case Create fails random r p now of
        (r', Inl e) \<Rightarrow> (r', W)
      | (r', Inr i) \<Rightarrow> (r', W(i \<mapsto> (p, create_durable fails r))))"
| "cs_step W r (CsDeclare fails i d note) = (SetDeclaredUntrustedDerivation fails r i d note, W)"
| "cs_step W r (CsResolve rf tf ctx i now) = (fst (Resolve rf tf ctx r i now), W)"
| "cs_step W r (CsPeek f ctx i) = (fst (Peek f ctx r i), W)"
| "cs_step W r (CsRecord f i p tool sk mt now) = (RecordMutation f r i p tool sk mt now, W)"
| "cs_step W r CsRestart = (NewRegistry (rg_persistent r), W)"

text \<open>Sixteen random bytes do not repeat.\<close>

fun cs_fresh :: "cs_ledger \<Rightarrow> cs_call \<Rightarrow> bool" where
  "cs_fresh W (CsCreate fails (Some h) p now) \<longleftrightarrow> W (''cs_'' @ h) = None"
| "cs_fresh W c \<longleftrightarrow> True"

inductive cs_run :: "cs_ledger \<Rightarrow> cs_registry \<Rightarrow> bool" where
  cs_start: "db = None \<or> db = Some \<lparr>cd_sets = [], cd_mutations = []\<rparr> \<Longrightarrow> cs_run (\<lambda>i. None) (NewRegistry db)"
| cs_next: "cs_run W r \<Longrightarrow> cs_fresh W c \<Longrightarrow> cs_step W r c = (r', W') \<Longrightarrow> cs_run W' r'"

section \<open>Ownership\<close>

definition owners_ok :: "cs_ledger \<Rightarrow> (string, cs_owner) gomap \<Rightarrow> bool" where
  "owners_ok W m \<longleftrightarrow> (\<forall>i o'. gget m i = Some o' \<longrightarrow> (\<exists>d. W i = Some (ow_principal o', d)))"

definition sets_ok :: "cs_ledger \<Rightarrow> (string, cs_row) gomap \<Rightarrow> bool" where
  "sets_ok W m \<longleftrightarrow> (\<forall>i row. gget m i = Some row \<longrightarrow> (\<exists>d. W i = Some (cr_principal row, d))) \<and>
     (\<forall>i p. W i = Some (p, True) \<longrightarrow> (\<exists>row. gget m i = Some row \<and> cr_principal row = p))"

definition cs_ok :: "cs_ledger \<Rightarrow> cs_registry \<Rightarrow> bool" where
  "cs_ok W r \<longleftrightarrow> owners_ok W (rg_owners r) \<and>
     (case rg_persistent r of None \<Rightarrow> \<forall>i p. W i \<noteq> Some (p, True) | Some d \<Rightarrow> sets_ok W (cd_sets d)) \<and>
     W '''' = None"

lemma owners_ok_put:
  "owners_ok W m \<Longrightarrow> W i = Some (ow_principal w, d) \<Longrightarrow> owners_ok W (gput m i w)"
  by (auto simp: owners_ok_def)

lemma owners_ok_get: "owners_ok W m \<Longrightarrow> gget m i = Some w \<Longrightarrow> \<exists>d. W i = Some (ow_principal w, d)"
  by (simp add: owners_ok_def)

lemma sets_ok_get: "sets_ok W m \<Longrightarrow> gget m i = Some row \<Longrightarrow> \<exists>d. W i = Some (cr_principal row, d)"
  by (simp add: sets_ok_def)

lemma sets_ok_has: "sets_ok W m \<Longrightarrow> W i = Some (p, True) \<Longrightarrow> \<exists>row. gget m i = Some row \<and> cr_principal row = p"
  by (simp add: sets_ok_def)

lemma sets_ok_update:
  "sets_ok W m \<Longrightarrow> gget m i = Some row \<Longrightarrow> cr_principal row' = cr_principal row \<Longrightarrow> sets_ok W (gput m i row')"
  unfolding sets_ok_def by (auto split: if_splits) (metis option.inject)+

lemma checkOwnership_ok:
  assumes ok: "cs_ok W r" and c: "checkOwnership f ctx r i = (r', res)"
  shows "cs_ok W r'" "rg_mutations r' = rg_mutations r" "rg_persistent r' = rg_persistent r"
    and "i \<noteq> '''' \<Longrightarrow> res = Inr x \<Longrightarrow>
           x = i \<and> (\<exists>w d. gget (rg_owners r') i = Some w \<and> ow_principal w = MutationKey ctx \<and> W i = Some (MutationKey ctx, d))"
    and "i \<noteq> '''' \<Longrightarrow> \<not> f \<Longrightarrow> W i = Some (MutationKey ctx, True) \<Longrightarrow> res = Inr i"
    and "i \<noteq> '''' \<Longrightarrow> \<not> f \<Longrightarrow> \<forall>d. W i \<noteq> Some (MutationKey ctx, d) \<Longrightarrow> res = Inl unknown_change_set"
proof -
  have own: "owners_ok W (rg_owners r)" using ok by (simp add: cs_ok_def)
  have "cs_ok W r' \<and> rg_mutations r' = rg_mutations r \<and> rg_persistent r' = rg_persistent r \<and>
    (i \<noteq> '''' \<longrightarrow> (res = Inr x \<longrightarrow>
      x = i \<and> (\<exists>w d. gget (rg_owners r') i = Some w \<and> ow_principal w = MutationKey ctx \<and> W i = Some (MutationKey ctx, d))) \<and>
      (\<not> f \<longrightarrow> W i = Some (MutationKey ctx, True) \<longrightarrow> res = Inr i) \<and>
      (\<not> f \<longrightarrow> (\<forall>d. W i \<noteq> Some (MutationKey ctx, d)) \<longrightarrow> res = Inl unknown_change_set))"
  proof (cases "i = ''''")
    case True
    then show ?thesis using c ok by (auto simp: checkOwnership_def)
  next
    case i: False
    show ?thesis
    proof (cases "gget (rg_owners r) i")
      case (Some w)
      then obtain d where "W i = Some (ow_principal w, d)" using owners_ok_get [OF own] by blast
      then show ?thesis
        using c ok i Some by (auto simp: checkOwnership_def Let_def split: if_splits)
    next
      case miss: None
      show ?thesis
      proof (cases "rg_persistent r")
        case None
        then show ?thesis
          using c ok i miss by (auto simp: checkOwnership_def Let_def cs_ok_def)
      next
        case (Some D)
        then have sets: "sets_ok W (cd_sets D)" using ok by (simp add: cs_ok_def)
        show ?thesis
        proof (cases "f \<or> gget (cd_sets D) i = None")
          case True
          then have "f \<or> W i \<noteq> Some (MutationKey ctx, True)" using sets_ok_has [OF sets] by fastforce
          then show ?thesis
            using c ok i miss Some True
            by (cases f) (auto simp: checkOwnership_def Let_def GetChangeSetOwner_def)
        next
          case False
          then obtain row where row: "gget (cd_sets D) i = Some row" and f: "\<not> f" by auto
          obtain d where d: "W i = Some (cr_principal row, d)" using sets_ok_get [OF sets row] by blast
          let ?w = "\<lparr>ow_principal = cr_principal row, ow_created_at = None, ow_last_used_at = None,
                     ow_declared = cr_declared row, ow_note = cr_note row\<rparr>"
          have "owners_ok W (gput (rg_owners r) i ?w)" using owners_ok_put [OF own, of i ?w d] d by simp
          then show ?thesis
            using c ok i miss Some f row d
            by (auto simp: checkOwnership_def Let_def GetChangeSetOwner_def cs_ok_def split: if_splits)
        qed
      qed
    qed
  qed
  then show "cs_ok W r'" "rg_mutations r' = rg_mutations r" "rg_persistent r' = rg_persistent r"
    "i \<noteq> '''' \<Longrightarrow> res = Inr x \<Longrightarrow>
      x = i \<and> (\<exists>w d. gget (rg_owners r') i = Some w \<and> ow_principal w = MutationKey ctx \<and> W i = Some (MutationKey ctx, d))"
    "i \<noteq> '''' \<Longrightarrow> \<not> f \<Longrightarrow> W i = Some (MutationKey ctx, True) \<Longrightarrow> res = Inr i"
    "i \<noteq> '''' \<Longrightarrow> \<not> f \<Longrightarrow> \<forall>d. W i \<noteq> Some (MutationKey ctx, d) \<Longrightarrow> res = Inl unknown_change_set"
    by blast+
qed

lemma touch_ok: "sets_ok W (cd_sets d) \<Longrightarrow> sets_ok W (cd_sets (TouchChangeSet f d i now))"
  by (auto simp: TouchChangeSet_def sets_ok_update split: option.split)

lemma declare_ok: "sets_ok W (cd_sets d) \<Longrightarrow> sets_ok W (cd_sets (SetChangeSetDeclared f d i b n))"
  by (auto simp: SetChangeSetDeclared_def sets_ok_update split: option.split)

lemma Resolve_ok:
  assumes ok: "cs_ok W r" and c: "Resolve f tf ctx r i now = (r', res)"
  shows "cs_ok W r'" "rg_mutations r' = rg_mutations r"
    and "i = '''' \<Longrightarrow> res = Inr (DefaultID (MutationKey ctx)) \<and> r' = r"
    and "i \<noteq> '''' \<Longrightarrow> res = Inr x \<Longrightarrow> x = i \<and> (\<exists>d. W i = Some (MutationKey ctx, d))"
    and "i \<noteq> '''' \<Longrightarrow> \<not> f \<Longrightarrow> W i = Some (MutationKey ctx, True) \<Longrightarrow> res = Inr i"
    and "i \<noteq> '''' \<Longrightarrow> \<not> f \<Longrightarrow> \<forall>d. W i \<noteq> Some (MutationKey ctx, d) \<Longrightarrow> res = Inl unknown_change_set"
proof -
  obtain r1 q where ch: "checkOwnership f ctx r i = (r1, q)" by fastforce
  note C = checkOwnership_ok [OF ok ch]
  show "i = '''' \<Longrightarrow> res = Inr (DefaultID (MutationKey ctx)) \<and> r' = r"
    using c by (auto simp: Resolve_def checkOwnership_def Let_def)
  show "cs_ok W r'"
  proof (cases "\<exists>y. q = Inr y \<and> i \<noteq> ''''")
    case False
    then have "r' = r1" using c ch by (auto simp: Resolve_def split: sum.splits if_splits)
    then show ?thesis using C(1) by simp
  next
    case True
    then obtain w d where w: "gget (rg_owners r1) i = Some w" "W i = Some (ow_principal w, d)"
      using C(4) by metis
    have "owners_ok W (gput (rg_owners r1) i (w\<lparr>ow_last_used_at := Some now\<rparr>))"
      using C(1) w by (auto simp: cs_ok_def intro!: owners_ok_put)
    then show ?thesis
      using c ch True w C(1) touch_ok
      by (auto simp: Resolve_def cs_ok_def split: option.splits)
  qed
  show "rg_mutations r' = rg_mutations r"
    using c ch C(2) by (auto simp: Resolve_def split: sum.splits if_splits)
  show "i \<noteq> '''' \<Longrightarrow> res = Inr x \<Longrightarrow> x = i \<and> (\<exists>d. W i = Some (MutationKey ctx, d))"
    using c ch C(4) [of x] by (auto simp: Resolve_def split: sum.splits if_splits)
  show "i \<noteq> '''' \<Longrightarrow> \<not> f \<Longrightarrow> W i = Some (MutationKey ctx, True) \<Longrightarrow> res = Inr i"
    using c ch C(5) by (auto simp: Resolve_def split: sum.splits if_splits)
  show "i \<noteq> '''' \<Longrightarrow> \<not> f \<Longrightarrow> \<forall>d. W i \<noteq> Some (MutationKey ctx, d) \<Longrightarrow> res = Inl unknown_change_set"
    using c ch C(6) by (auto simp: Resolve_def split: sum.splits if_splits)
qed

lemma Create_ok:
  assumes ok: "cs_ok W r" and fresh: "\<forall>h. random = Some h \<longrightarrow> W (''cs_'' @ h) = None"
    and c: "Create f random r p now = (r', Inr i)"
  shows "cs_ok (W(i \<mapsto> (p, create_durable f r))) r'"
proof -
  obtain h where h: "random = Some h" "i = ''cs_'' @ h" and p: "p \<noteq> ''''"
    using c by (auto simp: Create_def NewID_def Let_def split: if_splits option.splits)
  have new: "W i = None" using fresh h by simp
  have own: "owners_ok (W(i \<mapsto> (p, b))) (gput (rg_owners r) i
      \<lparr>ow_principal = p, ow_created_at = Some now, ow_last_used_at = Some now, ow_declared = False, ow_note = ''''\<rparr>)" for b
    using ok by (auto simp: cs_ok_def owners_ok_def)
  show ?thesis
  proof (cases "rg_persistent r")
    case None
    then show ?thesis
      using c h p own ok by (auto simp: Create_def NewID_def Let_def cs_ok_def create_durable_def)
  next
    case (Some D)
    have "sets_ok W (cd_sets D)" using ok Some by (simp add: cs_ok_def)
    moreover from this have "gget (cd_sets D) i = None"
      using new sets_ok_get [of W "cd_sets D" i] by (cases "gget (cd_sets D) i") auto
    ultimately have "sets_ok (W(i \<mapsto> (p, \<not> f))) (cd_sets (fst (CreateChangeSet f D i p now)))"
      using p h by (auto simp: CreateChangeSet_def sets_ok_def)
    then show ?thesis
      using c h p own ok Some by (auto simp: Create_def NewID_def Let_def cs_ok_def create_durable_def)
  qed
qed

lemma cs_run_ok: "cs_run W r \<Longrightarrow> cs_ok W r"
proof (induction rule: cs_run.induct)
  case (cs_start db)
  then show ?case by (auto simp: cs_ok_def NewRegistry_def owners_ok_def sets_ok_def)
next
  case (cs_next W r c r' W')
  show ?case
  proof (cases c)
    case (CsCreate f random p now)
    obtain u q where u: "Create f random r p now = (u, q)" by fastforce
    show ?thesis
    proof (cases q)
      case (Inl e)
      then have "u = r" using u by (auto simp: Create_def Let_def split: if_splits sum.splits)
      then show ?thesis using cs_next u Inl CsCreate by auto
    next
      case (Inr i)
      have "\<forall>h. random = Some h \<longrightarrow> W (''cs_'' @ h) = None"
        using cs_next.hyps(2) CsCreate by (cases random) auto
      then have "cs_ok (W(i \<mapsto> (p, create_durable f r))) u"
        using Create_ok [OF cs_next.IH] u Inr by blast
      moreover have "W' = W(i \<mapsto> (p, create_durable f r))" "r' = u"
        using cs_next.hyps(3) u Inr CsCreate by simp_all
      ultimately show ?thesis by (simp only:)
    qed
  next
    case (CsDeclare f i d note')
    then show ?thesis
      using cs_next owners_ok_get [of W "rg_owners r" i] declare_ok
      by (auto simp: SetDeclaredUntrustedDerivation_def cs_ok_def intro!: owners_ok_put split: option.splits)
  next
    case (CsResolve rf tf ctx i now)
    then show ?thesis using cs_next Resolve_ok(1) by (metis cs_step.simps(3) prod.collapse prod.inject)
  next
    case (CsPeek f ctx i)
    then show ?thesis
      using cs_next checkOwnership_ok(1) by (metis Peek_def cs_step.simps(4) prod.collapse prod.inject)
  next
    case (CsRecord f i p tool sk mt now)
    then show ?thesis
      using cs_next by (auto simp: RecordMutation_def Let_def cs_ok_def RecordChangeSetMutation_def split: option.splits)
  next
    case CsRestart
    then show ?thesis using cs_next by (auto simp: NewRegistry_def cs_ok_def owners_ok_def)
  qed
qed

section \<open>Attribution\<close>

definition touched :: "string \<Rightarrow> (string, cs_mutation list) gomap \<Rightarrow> (string \<times> time) set" where
  "touched sk m = {(cs, cm_created e) |cs es e. (cs, es) \<in> set m \<and> e \<in> set es \<and> cm_source_key e = sk}"

text \<open>\<open>r\<close> is a latest element of \<open>A\<close>, \<open>None\<close> when there is none.\<close>

definition latest_of :: "('a \<times> time) set \<Rightarrow> ('a \<times> time) option \<Rightarrow> bool" where
  "latest_of A r \<longleftrightarrow> (case r of None \<Rightarrow> A = {} | Some q \<Rightarrow> q \<in> A \<and> (\<forall>p\<in>A. snd p \<le> snd q))"

lemma latest_of_trans:
  assumes "latest_of A a" "latest_of (B \<union> set_option a) r"
  shows "latest_of (A \<union> B) r"
proof (cases a)
  case None
  then show ?thesis using assms by (simp add: latest_of_def)
next
  case a: (Some p)
  show ?thesis
  proof (cases r)
    case None
    then show ?thesis using assms a by (simp add: latest_of_def)
  next
    case (Some q)
    then show ?thesis using assms a by (auto simp: latest_of_def intro: order_trans)
  qed
qed

lemma scan_entries_latest: "latest_of (set_option acc \<union> touched sk [(cs, es)]) (scan_entries sk cs es acc)"
proof (induction es arbitrary: acc)
  case Nil
  then show ?case by (cases acc) (auto simp: touched_def latest_of_def)
next
  case (Cons e es)
  let ?A = "if cm_source_key e = sk then {(cs, cm_created e)} else {}"
  let ?acc = "if cm_source_key e \<noteq> sk then acc
    else (case acc of None \<Rightarrow> Some (cs, cm_created e)
          | Some (c, latest) \<Rightarrow> if latest < cm_created e then Some (cs, cm_created e) else acc)"
  have split: "touched sk [(cs, e # es)] = ?A \<union> touched sk [(cs, es)]"
    by (auto simp: touched_def)
  have "latest_of (set_option acc \<union> ?A) ?acc"
    by (cases acc) (auto simp: latest_of_def)
  moreover have "latest_of (touched sk [(cs, es)] \<union> set_option ?acc) (scan_entries sk cs (e # es) acc)"
    using Cons.IH [of ?acc] by (simp add: Un_commute)
  ultimately show ?case using latest_of_trans unfolding split by (metis Un_assoc)
qed

lemma scan_owners_latest: "latest_of (set_option acc \<union> touched sk m) (scan_owners sk m acc)"
proof (induction m arbitrary: acc)
  case Nil
  then show ?case by (cases acc) (auto simp: touched_def latest_of_def)
next
  case (Cons x m)
  obtain cs es where x: "x = (cs, es)" by fastforce
  let ?acc = "scan_entries sk cs es acc"
  have split: "touched sk (x # m) = touched sk [(cs, es)] \<union> touched sk m"
    by (auto simp: touched_def x)
  have "latest_of (touched sk m \<union> set_option ?acc) (scan_owners sk (x # m) acc)"
    using Cons.IH [of ?acc] by (simp add: Un_commute x)
  then show ?case using latest_of_trans [OF scan_entries_latest] unfolding split by (metis Un_assoc)
qed

text \<open>
  The owner of a pending page is the change set with the latest recorded mutation of that page:
  the lookup finds none exactly when no recorded mutation touches it, and otherwise a change set
  with a mutation of the page at least as late as every recorded mutation of it, in whatever
  order the map is visited.
\<close>

theorem owner_is_latest_editor:
  "(OwnerOfSourceKey r sk = None \<longleftrightarrow>
      (\<nexists>cs es e. (cs, es) \<in> set (rg_mutations r) \<and> e \<in> set es \<and> cm_source_key e = sk)) \<and>
   (OwnerOfSourceKey r sk = Some c \<longrightarrow>
      (\<exists>es e. (c, es) \<in> set (rg_mutations r) \<and> e \<in> set es \<and> cm_source_key e = sk \<and>
        (\<forall>(cs', es')\<in>set (rg_mutations r). \<forall>e'\<in>set es'. cm_source_key e' = sk \<longrightarrow> cm_created e' \<le> cm_created e)))"
proof -
  have S: "latest_of (touched sk (rg_mutations r)) (scan_owners sk (rg_mutations r) None)"
    using scan_owners_latest [of None] by simp
  have "OwnerOfSourceKey r sk = None \<longleftrightarrow> touched sk (rg_mutations r) = {}"
    using S by (auto simp: OwnerOfSourceKey_def latest_of_def split: option.splits)
  moreover have "touched sk (rg_mutations r) = {} \<longleftrightarrow>
      (\<nexists>cs es e. (cs, es) \<in> set (rg_mutations r) \<and> e \<in> set es \<and> cm_source_key e = sk)"
    by (auto simp: touched_def)
  moreover have "\<exists>es e. (c, es) \<in> set (rg_mutations r) \<and> e \<in> set es \<and> cm_source_key e = sk \<and>
      (\<forall>(cs', es')\<in>set (rg_mutations r). \<forall>e'\<in>set es'. cm_source_key e' = sk \<longrightarrow> cm_created e' \<le> cm_created e)"
    if found: "OwnerOfSourceKey r sk = Some c"
  proof -
    obtain t where t: "scan_owners sk (rg_mutations r) None = Some (c, t)"
      using found by (auto simp: OwnerOfSourceKey_def)
    then have "(c, t) \<in> touched sk (rg_mutations r)" and mx: "\<forall>q\<in>touched sk (rg_mutations r). snd q \<le> t"
      using S by (auto simp: latest_of_def)
    then obtain es e where e: "(c, es) \<in> set (rg_mutations r)" "e \<in> set es" "cm_source_key e = sk" "cm_created e = t"
      by (auto simp: touched_def)
    have "cm_created e' \<le> cm_created e"
      if "(cs', es') \<in> set (rg_mutations r)" "e' \<in> set es'" "cm_source_key e' = sk" for cs' es' e'
    proof -
      have "(cs', cm_created e') \<in> touched sk (rg_mutations r)" using that by (auto simp: touched_def)
      then show ?thesis using mx e(4) by fastforce
    qed
    then show ?thesis using e by fast
  qed
  ultimately show ?thesis by blast
qed

lemma owner_is_latest_editor_witness:
  "\<exists>es e. (''cs_b'', es) \<in> set [(''cs_a'', [\<lparr>cm_change_set = ''cs_a'', cm_principal = ''p'', cm_tool = ''update_page'',
       cm_source_key = ''posts/x'', cm_type = ''update'', cm_created = 3\<rparr>]),
     (''cs_b'', [\<lparr>cm_change_set = ''cs_b'', cm_principal = ''q'', cm_tool = ''update_page'',
       cm_source_key = ''posts/x'', cm_type = ''update'', cm_created = 5\<rparr>])] \<and>
     e \<in> set es \<and> cm_created e = 5"
proof -
  let ?m = "[(''cs_a'', [\<lparr>cm_change_set = ''cs_a'', cm_principal = ''p'', cm_tool = ''update_page'',
       cm_source_key = ''posts/x'', cm_type = ''update'', cm_created = 3\<rparr>]),
     (''cs_b'', [\<lparr>cm_change_set = ''cs_b'', cm_principal = ''q'', cm_tool = ''update_page'',
       cm_source_key = ''posts/x'', cm_type = ''update'', cm_created = 5\<rparr>])]"
  let ?r = "\<lparr>rg_owners = [], rg_mutations = ?m, rg_persistent = None\<rparr>"
  have "OwnerOfSourceKey ?r ''posts/x'' = Some ''cs_b''" by (simp add: OwnerOfSourceKey_def)
  then show ?thesis using owner_is_latest_editor [of ?r "''posts/x''" "''cs_b''"] by auto
qed

section \<open>Ownership and publication\<close>

text \<open>
  C21. A change set identifier is accepted only from the principal it was minted for, across
  restarts, failed writes and any other calls. An identifier that is unknown and one that belongs
  to somebody else are refused with the same error, and an identifier whose minting reached the
  table is accepted from its owner also after a restart.
\<close>

theorem change_set_ownership:
  assumes run: "cs_run W r" and i: "i \<noteq> ''''"
  shows "(snd (Resolve f tf ctx r i now) = Inr x \<longrightarrow> x = i \<and> (\<exists>d. W i = Some (MutationKey ctx, d))) \<and>
    (snd (Peek f ctx r i) = Inr x \<longrightarrow> x = i \<and> (\<exists>d. W i = Some (MutationKey ctx, d))) \<and>
    ((\<forall>d. W i \<noteq> Some (MutationKey ctx, d)) \<longrightarrow>
       snd (Resolve False tf ctx r i now) = Inl unknown_change_set \<and>
       snd (Peek False ctx r i) = Inl unknown_change_set) \<and>
    (W i = Some (MutationKey ctx, True) \<longrightarrow>
       snd (Resolve False tf ctx r i now) = Inr i \<and> snd (Peek False ctx r i) = Inr i)"
proof -
  note ok = cs_run_ok [OF run]
  obtain r1 y1 where R: "Resolve f tf ctx r i now = (r1, y1)" by fastforce
  obtain r2 y2 where R0: "Resolve False tf ctx r i now = (r2, y2)" by fastforce
  obtain r3 y3 where P: "Peek f ctx r i = (r3, y3)" by fastforce
  obtain r4 y4 where P0: "Peek False ctx r i = (r4, y4)" by fastforce
  note C = checkOwnership_ok [OF ok P [unfolded Peek_def]]
    and C0 = checkOwnership_ok [OF ok P0 [unfolded Peek_def]]
  have "y1 = Inr x \<Longrightarrow> x = i \<and> (\<exists>d. W i = Some (MutationKey ctx, d))" by (rule Resolve_ok(4) [OF ok R i])
  moreover have "y3 = Inr x \<Longrightarrow> x = i \<and> (\<exists>d. W i = Some (MutationKey ctx, d))" using C(4) [OF i] by blast
  moreover have "\<forall>d. W i \<noteq> Some (MutationKey ctx, d) \<Longrightarrow> y2 = Inl unknown_change_set"
    by (rule Resolve_ok(6) [OF ok R0 i]) simp_all
  moreover have "\<forall>d. W i \<noteq> Some (MutationKey ctx, d) \<Longrightarrow> y4 = Inl unknown_change_set" by (rule C0(6) [OF i]) simp_all
  moreover have "W i = Some (MutationKey ctx, True) \<Longrightarrow> y2 = Inr i" by (rule Resolve_ok(5) [OF ok R0 i]) simp_all
  moreover have "W i = Some (MutationKey ctx, True) \<Longrightarrow> y4 = Inr i" by (rule C0(5) [OF i]) simp_all
  ultimately show ?thesis unfolding R R0 P P0 snd_conv by blast
qed

definition demo_ctx :: call_ctx where
  "demo_ctx = \<lparr>cx_principal = ''alice'', cx_token_id = ''t'', cx_caller_ip = ''''\<rparr>"

definition demo_registry :: cs_registry where
  "demo_registry = \<lparr>rg_owners = [], rg_mutations = [],
     rg_persistent = Some \<lparr>cd_sets = [(''cs_0a'', \<lparr>cr_principal = ''alice'', cr_created = 1, cr_last_used = 1,
        cr_declared = False, cr_note = ''''\<rparr>)], cd_mutations = []\<rparr>\<rparr>"

lemma demo_ctx_key [simp]: "MutationKey demo_ctx = ''alice''"
  by (simp add: MutationKey_def Key_def demo_ctx_def blank_def trim_space_eval)

lemma demo_registry_run: "cs_run ((\<lambda>i. None)(''cs_0a'' \<mapsto> (''alice'', True))) demo_registry"
proof -
  let ?init = "NewRegistry (Some \<lparr>cd_sets = [], cd_mutations = []\<rparr>)"
  let ?mid = "demo_registry\<lparr>rg_owners := [(''cs_0a'', \<lparr>ow_principal = ''alice'', ow_created_at = Some 1,
     ow_last_used_at = Some 1, ow_declared = False, ow_note = ''''\<rparr>)]\<rparr>"
  let ?W = "(\<lambda>i. None)(''cs_0a'' \<mapsto> (''alice'', True))"
  have "cs_run (\<lambda>i. None) ?init" by (rule cs_start) simp
  moreover have "cs_step (\<lambda>i. None) ?init (CsCreate False (Some ''0a'') ''alice'' 1) = (?mid, ?W)"
    by (simp add: Create_def NewID_def NewRegistry_def CreateChangeSet_def create_durable_def
        demo_registry_def Let_def)
  ultimately have "cs_run ?W ?mid" using cs_next [of "\<lambda>i. None"] by (metis cs_fresh.simps(1))
  moreover have "cs_step ?W ?mid CsRestart = (demo_registry, ?W)"
    by (simp add: NewRegistry_def demo_registry_def)
  ultimately show ?thesis using cs_next by (metis cs_fresh.simps(7))
qed

lemma change_set_ownership_witness:
  "snd (Resolve False False demo_ctx demo_registry ''cs_0a'' 9) = Inr ''cs_0a'' \<and>
   snd (Peek False (demo_ctx\<lparr>cx_principal := ''bob''\<rparr>) demo_registry ''cs_0a'') =
   snd (Peek False (demo_ctx\<lparr>cx_principal := ''bob''\<rparr>) demo_registry ''cs_zz'')"
proof -
  have "MutationKey (demo_ctx\<lparr>cx_principal := ''bob''\<rparr>) = ''bob''"
    by (simp add: MutationKey_def Key_def demo_ctx_def blank_def trim_space_eval)
  then show ?thesis
    using change_set_ownership [OF demo_registry_run, of "''cs_0a''" False False demo_ctx]
      change_set_ownership [OF demo_registry_run, of "''cs_0a''" False False "demo_ctx\<lparr>cx_principal := ''bob''\<rparr>"]
      change_set_ownership [OF demo_registry_run, of "''cs_zz''" False False "demo_ctx\<lparr>cx_principal := ''bob''\<rparr>"]
    by simp
qed

definition bucket :: "call_ctx \<Rightarrow> string \<Rightarrow> string" where
  "bucket ctx i = (if i = '''' then DefaultID (MutationKey ctx) else i)"

lemma resolve_all_ok:
  assumes "cs_ok W r" "resolve_all fails ctx now is r acc = (r', res)"
  shows "cs_ok W r' \<and> rg_mutations r' = rg_mutations r"
    and "res = Inr ack \<Longrightarrow> ack = acc @ map (bucket ctx) is \<and>
           (\<forall>i\<in>set is. i = '''' \<or> (\<exists>d. W i = Some (MutationKey ctx, d)))"
    and "(\<And>n. \<not> fails n) \<Longrightarrow> \<forall>i\<in>set is. i = '''' \<or> W i = Some (MutationKey ctx, True) \<Longrightarrow> \<exists>y. res = Inr y"
proof -
  have "cs_ok W r' \<and> rg_mutations r' = rg_mutations r \<and>
    (\<forall>ack. res = Inr ack \<longrightarrow> ack = acc @ map (bucket ctx) is \<and>
           (\<forall>i\<in>set is. i = '''' \<or> (\<exists>d. W i = Some (MutationKey ctx, d)))) \<and>
    ((\<forall>n. \<not> fails n) \<longrightarrow> (\<forall>i\<in>set is. i = '''' \<or> W i = Some (MutationKey ctx, True)) \<longrightarrow> (\<exists>y. res = Inr y))"
    using assms
  proof (induction "is" arbitrary: r acc)
    case Nil
    then show ?case by auto
  next
    case (Cons i "is")
    obtain u q where u: "Resolve (fails (length is)) False ctx r i now = (u, q)" by fastforce
    note R = Resolve_ok [OF Cons.prems(1) u]
    show ?case
    proof (cases q)
      case (Inl e)
      then have "r' = u" "res = Inl e" using Cons.prems(2) u by auto
      moreover have "i \<noteq> ''''" using R(3) Inl by auto
      ultimately show ?thesis using R(1,2,5) Inl by auto
    next
      case (Inr x)
      then have "resolve_all fails ctx now is u (acc @ [x]) = (r', res)" using Cons.prems(2) u by simp
      note IH = Cons.IH [OF R(1) this]
      have "x = bucket ctx i \<and> (i = '''' \<or> (\<exists>d. W i = Some (MutationKey ctx, d)))"
        using R(3,4) Inr by (auto simp: bucket_def)
      then show ?thesis using IH R(2) by auto
    qed
  qed
  note big = this
  note rest = big [THEN conjunct2, THEN conjunct2]
  note keep = big [THEN conjunct1] big [THEN conjunct2, THEN conjunct1]
  note ack = rest [THEN conjunct1]
  show "cs_ok W r' \<and> rg_mutations r' = rg_mutations r" using keep by (rule conjI)
  show "res = Inr ack \<Longrightarrow> ack = acc @ map (bucket ctx) is \<and>
           (\<forall>i\<in>set is. i = '''' \<or> (\<exists>d. W i = Some (MutationKey ctx, d)))" by (rule ack [rule_format])
  show "\<exists>y. res = Inr y" if f: "\<And>n. \<not> fails n" and i: "\<forall>i\<in>set is. i = '''' \<or> W i = Some (MutationKey ctx, True)"
    by (rule rest [THEN conjunct2, THEN mp, THEN mp, OF allI, OF f i])
qed

lemma foreign_pages_set:
  "set (foreign_pages owner ack pending acc) =
     set acc \<union> {slug \<in> set pending. \<exists>cs. owner slug = Some cs \<and> cs \<notin> set ack}"
proof (induction pending arbitrary: acc)
  case (Cons slug pending)
  show ?case
  proof (cases "owner slug")
    case None
    then show ?thesis by (auto simp: Cons.IH)
  next
    case (Some cs)
    then show ?thesis by (auto simp: Cons.IH)
  qed
qed simp

lemma guard_Some:
  "\<exists>r' res. guardForeignChangeSet fails ctx now (Some r) (Some pending) csid csids = (Some r', res)"
proof -
  obtain u q where "resolve_all fails ctx now (if csids = [] then [csid] else csids) r [] = (u, q)" by fastforce
  then show ?thesis by (cases q) (auto simp: guardForeignChangeSet_def Let_def)
qed

text \<open>
  The publication guard. If it lets a build through, every pending page that any recorded
  mutation touched was last touched under a change set of the caller: its default one or one minted
  for its principal. Conversely it lets the build through, when the caller names only its own
  durable change sets and no lookup fails, exactly if the latest editor of each pending page is
  among the change sets named; it never changes the record of mutations.
\<close>

theorem guard_blocks_foreign_work:
  assumes run: "cs_run W r"
    and g: "guardForeignChangeSet fails ctx now (Some r) (Some pending) csid csids = (Some r', res)"
  shows "(res = None \<longrightarrow> (\<forall>slug\<in>set pending. \<forall>cs. OwnerOfSourceKey r slug = Some cs \<longrightarrow>
            cs = DefaultID (MutationKey ctx) \<or> (\<exists>d. W cs = Some (MutationKey ctx, d)))) \<and>
    ((\<forall>n. \<not> fails n) \<and>
     (\<forall>i\<in>set (if csids = [] then [csid] else csids). i = '''' \<or> W i = Some (MutationKey ctx, True)) \<longrightarrow>
       (res = None \<longleftrightarrow> (\<forall>slug\<in>set pending. \<forall>cs. OwnerOfSourceKey r slug = Some cs \<longrightarrow>
          cs \<in> bucket ctx ` set (if csids = [] then [csid] else csids)))) \<and>
    rg_mutations r' = rg_mutations r"
proof -
  let ?req = "if csids = [] then [csid] else csids"
  obtain u q where u: "resolve_all fails ctx now ?req r [] = (u, q)" by fastforce
  note A = resolve_all_ok [OF cs_run_ok [OF run] u]
  have own: "OwnerOfSourceKey u = OwnerOfSourceKey r" using A(1) by (simp add: OwnerOfSourceKey_def fun_eq_iff)
  show ?thesis
  proof (cases q)
    case (Inl e)
    then have "r' = u" "res = Some e" using g u by (auto simp: guardForeignChangeSet_def Let_def)
    then show ?thesis using A(1,3) Inl by auto
  next
    case (Inr ack)
    note B = A(2) [OF Inr]
    let ?F = "foreign_pages (OwnerOfSourceKey u) ack pending []"
    have "r' = u" "res = None \<longleftrightarrow> ?F = []"
      using g u Inr by (auto simp: guardForeignChangeSet_def Let_def split: if_splits)
    moreover have "?F = [] \<longleftrightarrow> (\<forall>slug\<in>set pending. \<forall>cs. OwnerOfSourceKey r slug = Some cs \<longrightarrow> cs \<in> set ack)"
    proof -
      have "set ?F = {} \<longleftrightarrow> (\<forall>slug\<in>set pending. \<forall>cs. OwnerOfSourceKey r slug = Some cs \<longrightarrow> cs \<in> set ack)"
        unfolding foreign_pages_set own by auto
      then show ?thesis by simp
    qed
    moreover have "set ack = bucket ctx ` set ?req" using B by simp
    moreover have "cs = DefaultID (MutationKey ctx) \<or> (\<exists>d. W cs = Some (MutationKey ctx, d))"
      if cs: "cs \<in> bucket ctx ` set ?req" for cs
    proof -
      obtain i where i: "i \<in> set ?req" "cs = bucket ctx i" using cs by blast
      then have "i = '''' \<or> (\<exists>d. W i = Some (MutationKey ctx, d))" using B by blast
      then show ?thesis using i(2) by (auto simp: bucket_def)
    qed
    ultimately show ?thesis using A(1) by metis
  qed
qed

lemma guard_blocks_foreign_work_witness:
  "snd (guardForeignChangeSet (\<lambda>n. False) demo_ctx 9
     (Some (RecordMutation False demo_registry ''cs_bb'' ''bob'' ''update_page'' ''posts/x'' ''update'' 5))
     (Some [''posts/x'']) ''cs_0a'' []) \<noteq> None"
proof -
  let ?W = "(\<lambda>i. None)(''cs_0a'' \<mapsto> (''alice'', True))"
  let ?r = "RecordMutation False demo_registry ''cs_bb'' ''bob'' ''update_page'' ''posts/x'' ''update'' 5"
  have run: "cs_run ?W ?r"
    using cs_next [OF demo_registry_run, of "CsRecord False ''cs_bb'' ''bob'' ''update_page'' ''posts/x'' ''update'' 5" ?r ?W]
    by simp
  have "OwnerOfSourceKey ?r ''posts/x'' = Some ''cs_bb''"
    by (simp add: RecordMutation_def Let_def demo_registry_def MutationsFor_def OwnerOfSourceKey_def)
  moreover obtain r' res where g: "guardForeignChangeSet (\<lambda>n. False) demo_ctx 9 (Some ?r) (Some [''posts/x'']) ''cs_0a'' [] =
      (Some r', res)"
    using guard_Some by blast
  ultimately show ?thesis
    using guard_blocks_foreign_work [OF run g] by (auto simp: DefaultID_def)
qed

end
