(* ===== verification/PathGuard.thy ===== *)
theory PathGuard
  imports Paths
begin

text \<open>
  The content-root guard \<open>internal/security/pathguard.go\<close>. The file system is what \<open>os.Lstat\<close> and
  \<open>filepath.EvalSymlinks\<close> answer for a path at the moment of the call.
\<close>

datatype lstat_result = NotExist | StatError | Node bool

record fs_view =
  fs_lstat :: "string \<Rightarrow> lstat_result"
  fs_eval :: "string \<Rightarrow> string option"

record path_guard =
  pg_root :: string
  pg_reject_symlinks :: bool

text \<open>\<open>cwd\<close> is the working directory, \<open>None\<close> when it cannot be determined.\<close>

definition NewGuard :: "fs_view \<Rightarrow> string option \<Rightarrow> string \<Rightarrow> bool \<Rightarrow> path_guard go" where
  "NewGuard fs cwd root rejectSymlinks =
     (case fs_eval fs root of
        Some real \<Rightarrow> Inr \<lparr>pg_root = real, pg_reject_symlinks = rejectSymlinks\<rparr>
      | None \<Rightarrow>
          (if is_abs root then Inr \<lparr>pg_root = path_clean root, pg_reject_symlinks = rejectSymlinks\<rparr>
           else (case cwd of
                   None \<Rightarrow> Inl ''pathguard: resolving root''
                 | Some d \<Rightarrow> Inr \<lparr>pg_root = path_abs d root, pg_reject_symlinks = rejectSymlinks\<rparr>)))"

definition WithinRoot :: "path_guard \<Rightarrow> string \<Rightarrow> bool" where
  "WithinRoot pg p \<longleftrightarrow> p = pg_root pg \<or> has_prefix (pg_root pg @ ''/'') p"

text \<open>The loop over the components below the root; it stops at the first that does not exist.\<close>

fun walk_components :: "fs_view \<Rightarrow> string \<Rightarrow> string list \<Rightarrow> string option" where
  "walk_components fs current [] = None"
| "walk_components fs current (part # parts) =
     (if part = '''' \<or> part = ''.'' then walk_components fs current parts
      else
        (let next = path_join [current, part]
         in case fs_lstat fs next of
              NotExist \<Rightarrow> None
            | StatError \<Rightarrow> Some ''pathguard: stat failed''
            | Node symlink \<Rightarrow>
                if symlink then Some ''pathguard: symlinks not allowed in path''
                else if fs_eval fs next \<noteq> None \<and> fs_eval fs next \<noteq> Some next
                  then Some ''pathguard: symlinks not allowed in path''
                else walk_components fs next parts))"

definition rejectSymlinkComponents :: "fs_view \<Rightarrow> path_guard \<Rightarrow> string \<Rightarrow> string option" where
  "rejectSymlinkComponents fs pg p =
     (case path_rel (pg_root pg) p of
        None \<Rightarrow> Some ''pathguard: cannot relativize path''
      | Some rel \<Rightarrow> walk_components fs (pg_root pg) (split_on CHR ''/'' rel))"

definition SafeJoin :: "fs_view \<Rightarrow> path_guard \<Rightarrow> string \<Rightarrow> string go" where
  "SafeJoin fs pg rel =
     (if rel = '''' then Inl ''pathguard: empty relative path''
      else
        (let clean = path_clean rel
         in if list_ex (has_prefix ''.'') (split_on CHR ''/'' clean)
            then Inl ''pathguard: hidden path component not allowed''
            else
              (let joined = path_join [pg_root pg, clean]
               in case (if pg_reject_symlinks pg then rejectSymlinkComponents fs pg joined else None) of
                    Some err \<Rightarrow> Inl err
                  | None \<Rightarrow> if \<not> WithinRoot pg joined then Inl ''pathguard: path escapes root''
                            else Inr joined)))"

definition RevalidateForWrite :: "fs_view \<Rightarrow> path_guard \<Rightarrow> string \<Rightarrow> string option" where
  "RevalidateForWrite fs pg p =
     (if \<not> pg_reject_symlinks pg then None else rejectSymlinkComponents fs pg p)"

section \<open>Containment\<close>

text \<open>The directories from the root down to the \<open>k\<close>-th component.\<close>

fun below :: "string \<Rightarrow> string list \<Rightarrow> string" where
  "below root [] = root"
| "below root (s # ss) = root @ ''/'' @ join_with ''/'' (s # ss)"

definition visible_seg :: "string \<Rightarrow> bool" where
  "visible_seg s \<longleftrightarrow> plain_seg s \<and> \<not> has_prefix ''.'' s"

definition clean_root :: "string \<Rightarrow> bool" where
  "clean_root root \<longleftrightarrow> is_abs root \<and> path_clean root = root \<and> root \<noteq> ''/''"

lemma visible_plain: "visible_seg s \<Longrightarrow> plain_seg s"
  by (simp add: visible_seg_def)

lemma visible_iff: "kept_seg s \<and> \<not> has_prefix ''.'' s \<longleftrightarrow> visible_seg s"
  by (cases s) (auto simp: visible_seg_def plain_seg_def kept_seg_def)

lemma clean_join:
  assumes "list_all visible_seg ss"
  shows "split_on CHR ''/'' (join_with ''/'' ss) = (if ss = [] then [''''] else ss)"
  using assms split_join [of ss "CHR ''/''"]
  by (auto simp: list_all_iff visible_seg_def plain_seg_def)

text \<open>The components that a name accepted by the dot check cleans to.\<close>

lemma no_hidden_segs:
  assumes "rel \<noteq> ''''" "\<not> list_ex (has_prefix ''.'') (split_on CHR ''/'' (path_clean rel))"
  shows "list_all visible_seg (clean_segs rel)"
    and "split_on CHR ''/'' (path_clean rel) =
           (if is_abs rel then '''' # (if clean_segs rel = [] then [''''] else clean_segs rel) else clean_segs rel)"
    and "\<not> is_abs rel \<Longrightarrow> clean_segs rel \<noteq> []"
proof -
  let ?cs = "clean_segs rel"
  have kept: "\<And>s. s \<in> set ?cs \<Longrightarrow> kept_seg s" by (rule clean_segs_kept)
  have sp: "split_on CHR ''/'' (join_with ''/'' ?cs) = (if ?cs = [] then [''''] else ?cs)"
    using split_join [of ?cs "CHR ''/''"] kept by (auto simp: kept_seg_def)
  have dot: "split_on CHR ''/'' ''.'' = [''.'']" by simp
  have out: "?cs \<noteq> [] \<Longrightarrow> join_with ''/'' ?cs \<noteq> ''''"
    using kept by (cases ?cs rule: rev_cases) (auto simp: join_snoc kept_seg_def)
  show ne: "\<not> is_abs rel \<Longrightarrow> ?cs \<noteq> []"
    using assms(2) by (auto simp: path_clean_def)
  show eq: "split_on CHR ''/'' (path_clean rel) =
      (if is_abs rel then '''' # (if ?cs = [] then [''''] else ?cs) else ?cs)"
    using sp out ne by (simp add: path_clean_def Let_def)
  have "\<And>s. s \<in> set ?cs \<Longrightarrow> \<not> has_prefix ''.'' s"
    using assms(2) unfolding eq by (auto simp: list_ex_iff split: if_splits)
  then show "list_all visible_seg ?cs" using kept visible_iff by (auto simp: list_all_iff)
qed

lemma join_below:
  assumes root: "clean_root root" and rel: "rel \<noteq> ''''"
    and ok: "\<not> list_ex (has_prefix ''.'') (split_on CHR ''/'' (path_clean rel))"
  shows "path_join [root, path_clean rel] = below root (clean_segs rel)"
    and "clean_segs (path_join [root, path_clean rel]) = clean_segs root @ clean_segs rel"
proof -
  note N = no_hidden_segs [OF rel ok]
  have r: "root \<noteq> ''''" "is_abs root" using root by (auto simp: clean_root_def is_abs_def)
  note R = clean_root_segs [OF r(2)]
  have root': "path_clean root = root" "root \<noteq> ''/''" using root by (auto simp: clean_root_def)
  have c: "path_clean rel \<noteq> ''''" by (auto simp: path_clean_def Let_def)
  have all: "list_all (\<lambda>s. s = '''' \<or> plain_seg s) (split_on CHR ''/'' (path_clean rel))"
    using N(1,2) by (auto simp: list_all_iff visible_plain)
  have "filter plain_seg (split_on CHR ''/'' (path_clean rel)) = clean_segs rel"
    using N(1,2) by (auto simp: list_all_iff visible_plain plain_seg_def [of "[]"] intro: filter_True)
  then have segs: "clean_segs (root @ ''/'' @ path_clean rel) = clean_segs root @ clean_segs rel"
    using clean_segs_below [OF r(1) all] by simp
  have joined: "path_join [root, path_clean rel] = ''/'' @ join_with ''/'' (clean_segs root @ clean_segs rel)"
  proof -
    have "path_clean (root @ ''/'' @ path_clean rel) = ''/'' @ join_with ''/'' (clean_segs root @ clean_segs rel)"
      by (subst path_clean_def) (use segs r in \<open>simp add: is_abs_def Let_def\<close>)
    then show ?thesis using r c by (simp add: path_join_def)
  qed
  show b: "path_join [root, path_clean rel] = below root (clean_segs rel)"
  proof (cases "clean_segs rel")
    case Nil
    then show ?thesis using joined R(2) [OF root'] by simp
  next
    case (Cons s ss)
    then show ?thesis
      using joined R [OF root'] join_append [of "clean_segs root" "clean_segs rel" "''/''"]
      by (metis append_assoc below.simps(2) list.distinct(1))
  qed
  show "clean_segs (path_join [root, path_clean rel]) = clean_segs root @ clean_segs rel"
  proof -
    have "path_join [root, path_clean rel] = below root (clean_segs rel)" by (rule b)
    moreover have "clean_segs (below root (clean_segs rel)) = clean_segs root @ clean_segs rel"
    proof (cases "clean_segs rel")
      case (Cons s ss)
      have "list_all (\<lambda>s. s = '''' \<or> plain_seg s) (clean_segs rel)" "list_all plain_seg (clean_segs rel)"
        using N(1) by (auto simp: list_all_iff visible_plain)
      then show ?thesis
        using clean_segs_below [OF r(1), of "join_with ''/'' (clean_segs rel)"] clean_join [OF N(1)] Cons
        by (simp add: list_all_iff)
    qed simp
    ultimately show ?thesis by simp
  qed
qed

lemma below_abs:
  assumes "clean_root root"
  shows "below root ss \<noteq> ''''" "is_abs (below root ss)"
  using assms by (cases ss; auto simp: clean_root_def is_abs_def)+

lemma below_segs:
  assumes root: "clean_root root" and ss: "list_all visible_seg ss"
  shows "clean_segs (below root ss) = clean_segs root @ ss"
    and "below root ss = ''/'' @ join_with ''/'' (clean_segs root @ ss)"
proof -
  have r: "root \<noteq> ''''" "is_abs root" using root by (auto simp: clean_root_def is_abs_def)
  have R: "clean_segs root \<noteq> []" "root = ''/'' @ join_with ''/'' (clean_segs root)"
    using clean_root_segs [OF r(2)] root by (auto simp: clean_root_def)
  have "list_all (\<lambda>s. s = '''' \<or> plain_seg s) ss" "list_all plain_seg ss"
    using ss by (auto simp: list_all_iff visible_plain)
  then show "clean_segs (below root ss) = clean_segs root @ ss"
    using clean_segs_below [OF r(1), of "join_with ''/'' ss"] clean_join [OF ss]
    by (cases ss) (simp_all add: list_all_iff)
  show "below root ss = ''/'' @ join_with ''/'' (clean_segs root @ ss)"
  proof (cases ss)
    case Nil
    then show ?thesis using R(2) by simp
  next
    case (Cons s ss')
    then show ?thesis
      using R join_append [of "clean_segs root" ss "''/''"] by (metis append_assoc below.simps(2) list.distinct(1))
  qed
qed

lemma below_step:
  assumes "clean_root root" "list_all visible_seg ss" "visible_seg s"
  shows "path_join [below root ss, s] = below root (ss @ [s])"
proof -
  have s: "plain_seg s" "s \<noteq> ''''" using assms(3) by (auto simp: visible_seg_def plain_seg_def)
  note B = below_abs [OF assms(1), of ss]
  have "is_abs (below root ss @ ''/'' @ s)" using B by (simp add: is_abs_def)
  then have "path_clean (below root ss @ ''/'' @ s) = ''/'' @ join_with ''/'' (clean_segs (below root ss) @ [s])"
    using clean_segs_snoc [OF B(1) s(1)] by (simp add: path_clean_def Let_def)
  then show ?thesis
    using B(1) s(2) below_segs [OF assms(1,2)] below_segs(2) [OF assms(1), of "ss @ [s]"] assms(2,3)
    by (simp add: path_join_def list_all_iff)
qed

lemma rel_below:
  assumes "clean_root root" "list_all visible_seg ss"
  shows "\<exists>rel. path_rel root (below root ss) = Some rel \<and>
           split_on CHR ''/'' rel = (if ss = [] then [''.''] else ss)"
proof -
  have "is_abs root" using assms(1) by (simp add: clean_root_def)
  moreover have "ss \<noteq> [] \<Longrightarrow> join_with ''/'' ss \<noteq> ''''"
    using assms(2) by (cases ss rule: rev_cases) (auto simp: join_snoc visible_seg_def plain_seg_def)
  ultimately show ?thesis
    using below_abs(2) [OF assms(1)] below_segs(1) [OF assms] clean_join [OF assms(2)]
    by (cases "ss = []") (auto simp: path_rel_def Let_def)
qed

text \<open>Every existing component, down to the first that does not exist, is no link.\<close>

definition no_links :: "fs_view \<Rightarrow> string \<Rightarrow> string list \<Rightarrow> bool" where
  "no_links fs root ss \<longleftrightarrow>
     (\<forall>k<length ss. (\<forall>j<k. fs_lstat fs (below root (take (Suc j) ss)) \<noteq> NotExist) \<longrightarrow>
        fs_lstat fs (below root (take (Suc k) ss)) = NotExist \<or>
        fs_lstat fs (below root (take (Suc k) ss)) = Node False \<and>
        (\<forall>real. fs_eval fs (below root (take (Suc k) ss)) = Some real \<longrightarrow> real = below root (take (Suc k) ss)))"

lemma walk_no_links:
  assumes "clean_root root" "list_all visible_seg (pre @ ss)"
  shows "walk_components fs (below root pre) ss = None \<longleftrightarrow>
     (\<forall>k<length ss. (\<forall>j<k. fs_lstat fs (below root (pre @ take (Suc j) ss)) \<noteq> NotExist) \<longrightarrow>
        fs_lstat fs (below root (pre @ take (Suc k) ss)) = NotExist \<or>
        fs_lstat fs (below root (pre @ take (Suc k) ss)) = Node False \<and>
        (\<forall>real. fs_eval fs (below root (pre @ take (Suc k) ss)) = Some real \<longrightarrow>
           real = below root (pre @ take (Suc k) ss)))"
  using assms(2)
proof (induction ss arbitrary: pre)
  case (Cons s ss)
  let ?next = "below root (pre @ [s])"
  have v: "list_all visible_seg pre" "visible_seg s" "list_all visible_seg ((pre @ [s]) @ ss)"
    using Cons.prems by auto
  have s: "s \<noteq> ''''" "s \<noteq> ''.''" using v(2) by (auto simp: visible_seg_def plain_seg_def)
  have step: "path_join [below root pre, s] = ?next" by (rule below_step [OF assms(1) v(1,2)])
  note IH = Cons.IH [OF v(3)]
  have all: "(\<forall>k<length (s # ss). P k) \<longleftrightarrow> P 0 \<and> (\<forall>k<length ss. P (Suc k))" for P :: "nat \<Rightarrow> bool"
    using All_less_Suc2 [of "length ss" P] by simp
  have all': "(\<forall>j<Suc k. Q j) \<longleftrightarrow> Q 0 \<and> (\<forall>j<k. Q (Suc j))" for k and Q :: "nat \<Rightarrow> bool"
    by (rule All_less_Suc2)
  show ?case
  proof (cases "fs_lstat fs ?next")
    case NotExist
    then show ?thesis using s step unfolding all all' by simp
  next
    case StatError
    then show ?thesis using s step unfolding all by simp
  next
    case (Node link)
    show ?thesis
    proof (cases "link \<or> fs_eval fs ?next \<noteq> None \<and> fs_eval fs ?next \<noteq> Some ?next")
      case True
      then show ?thesis using s step Node unfolding all by (auto simp: Let_def)
    next
      case False
      then have "walk_components fs (below root pre) (s # ss) = walk_components fs ?next ss"
        using s step Node by (auto simp: Let_def)
      moreover have "fs_lstat fs ?next = Node False" "\<forall>real. fs_eval fs ?next = Some real \<longrightarrow> real = ?next"
        using False Node by auto
      ultimately show ?thesis using IH unfolding all all' by simp
    qed
  qed
qed simp

lemma hidden_iff:
  assumes "rel \<noteq> ''''"
  shows "\<not> list_ex (has_prefix ''.'') (split_on CHR ''/'' (path_clean rel)) \<longleftrightarrow>
     list_all visible_seg (clean_segs rel) \<and> (clean_segs rel \<noteq> [] \<or> is_abs rel)"
proof
  assume "\<not> list_ex (has_prefix ''.'') (split_on CHR ''/'' (path_clean rel))"
  then show "list_all visible_seg (clean_segs rel) \<and> (clean_segs rel \<noteq> [] \<or> is_abs rel)"
    using no_hidden_segs [OF assms] by blast
next
  assume v: "list_all visible_seg (clean_segs rel) \<and> (clean_segs rel \<noteq> [] \<or> is_abs rel)"
  then have "clean_segs rel \<noteq> [] \<Longrightarrow> join_with ''/'' (clean_segs rel) \<noteq> ''''"
    by (cases "clean_segs rel" rule: rev_cases) (auto simp: join_snoc visible_seg_def plain_seg_def)
  then show "\<not> list_ex (has_prefix ''.'') (split_on CHR ''/'' (path_clean rel))"
    using v clean_join [of "clean_segs rel"]
    by (auto simp: path_clean_def Let_def list_ex_iff list_all_iff visible_seg_def split: if_splits)
qed

lemma reject_below:
  assumes "clean_root (pg_root pg)" "list_all visible_seg ss"
  shows "rejectSymlinkComponents fs pg (below (pg_root pg) ss) = None \<longleftrightarrow> no_links fs (pg_root pg) ss"
proof -
  obtain rel where rel: "path_rel (pg_root pg) (below (pg_root pg) ss) = Some rel"
    "split_on CHR ''/'' rel = (if ss = [] then [''.''] else ss)"
    using rel_below [OF assms] by blast
  have "walk_components fs (pg_root pg) ss = None \<longleftrightarrow> no_links fs (pg_root pg) ss"
    using walk_no_links [OF assms(1), of "[]" ss] assms(2) by (simp add: no_links_def)
  then show ?thesis using rel by (cases "ss = []") (simp_all add: rejectSymlinkComponents_def)
qed

lemma safe_join_below:
  assumes "SafeJoin fs pg rel = Inr p" "clean_root (pg_root pg)"
  shows "p = below (pg_root pg) (clean_segs rel)" "list_all visible_seg (clean_segs rel)"
    "clean_segs p = clean_segs (pg_root pg) @ clean_segs rel" "is_abs p" "p \<noteq> ''''"
proof -
  have ok: "rel \<noteq> ''''" "\<not> list_ex (has_prefix ''.'') (split_on CHR ''/'' (path_clean rel))"
    and p: "p = path_join [pg_root pg, path_clean rel]"
    using assms(1) by (auto simp: SafeJoin_def Let_def split: if_splits option.splits)
  show "p = below (pg_root pg) (clean_segs rel)" using join_below(1) [OF assms(2) ok] p by simp
  show "list_all visible_seg (clean_segs rel)" using no_hidden_segs(1) [OF ok] .
  show "clean_segs p = clean_segs (pg_root pg) @ clean_segs rel" using join_below(2) [OF assms(2) ok] p by simp
  show "is_abs p" "p \<noteq> ''''" using below_abs [OF assms(2)] join_below(1) [OF assms(2) ok] p by simp_all
qed

text \<open>
  C22. \<open>SafeJoin\<close> under a clean absolute root accepts a name exactly when it is not empty, cleans to
  components none of which is empty, a dot element or hidden, and, when links are rejected, no
  existing component on the way is a link or resolves elsewhere. The accepted path is the root
  followed by these components, so it never leaves the root.
\<close>

theorem safe_join_contained:
  assumes "clean_root (pg_root pg)"
  shows "SafeJoin fs pg rel = Inr p \<longleftrightarrow>
     rel \<noteq> '''' \<and> list_all visible_seg (clean_segs rel) \<and> (clean_segs rel \<noteq> [] \<or> is_abs rel) \<and>
     p = below (pg_root pg) (clean_segs rel) \<and>
     (pg_reject_symlinks pg \<longrightarrow> no_links fs (pg_root pg) (clean_segs rel)) \<and> WithinRoot pg p"
proof (cases "rel = '''' \<or> list_ex (has_prefix ''.'') (split_on CHR ''/'' (path_clean rel))")
  case True
  then show ?thesis using hidden_iff [of rel] by (auto simp: SafeJoin_def Let_def)
next
  case False
  then have rel: "rel \<noteq> ''''" and ok: "\<not> list_ex (has_prefix ''.'') (split_on CHR ''/'' (path_clean rel))"
    by auto
  have v: "list_all visible_seg (clean_segs rel)" "clean_segs rel \<noteq> [] \<or> is_abs rel"
    using hidden_iff [OF rel] ok by auto
  have j: "path_join [pg_root pg, path_clean rel] = below (pg_root pg) (clean_segs rel)"
    by (rule join_below [OF assms rel ok])
  have within: "WithinRoot pg (below (pg_root pg) (clean_segs rel))"
    by (cases "clean_segs rel") (simp_all add: WithinRoot_def has_prefix_iff)
  show ?thesis
    using rel ok v j within reject_below [OF assms v(1), of fs]
    by (auto simp: SafeJoin_def Let_def split: option.split)
qed

lemma safe_join_contained_witness:
  "SafeJoin \<lparr>fs_lstat = (\<lambda>p. Node False), fs_eval = (\<lambda>p. Some p)\<rparr>
     \<lparr>pg_root = ''/srv/content'', pg_reject_symlinks = True\<rparr> ''posts/../en//a'' = Inr ''/srv/content/en/a'' \<and>
   (\<nexists>p. SafeJoin \<lparr>fs_lstat = (\<lambda>p. Node False), fs_eval = (\<lambda>p. Some p)\<rparr>
     \<lparr>pg_root = ''/srv/content'', pg_reject_symlinks = True\<rparr> ''en/../../etc'' = Inr p)"
proof -
  let ?fs = "\<lparr>fs_lstat = (\<lambda>p. Node False), fs_eval = (\<lambda>p. Some p)\<rparr>"
  let ?pg = "\<lparr>pg_root = ''/srv/content'', pg_reject_symlinks = True\<rparr>"
  have root: "clean_root (pg_root ?pg)"
    by (simp add: clean_root_def is_abs_def path_clean_def clean_segs_def clean_elem_def)
  have a: "clean_segs ''posts/../en//a'' = [''en'', ''a'']" and b: "clean_segs ''en/../../etc'' = [''..'', ''etc'']"
    by (simp_all add: clean_segs_def is_abs_def clean_elem_def)
  have "no_links ?fs (pg_root ?pg) [''en'', ''a'']" by (simp add: no_links_def)
  moreover have "visible_seg ''en''" "visible_seg ''a''" "\<not> visible_seg ''..''"
    by (simp_all add: visible_seg_def plain_seg_def)
  ultimately show ?thesis
    using safe_join_contained [OF root, of ?fs "''posts/../en//a''" "''/srv/content/en/a''"]
      safe_join_contained [OF root, of ?fs "''en/../../etc''"] a b
    by (simp add: WithinRoot_def)
qed

end
