(* ===== verification/FileUtil.thy ===== *)
theory FileUtil
  imports PathGuard
begin

text \<open>
  Atomic file writes (\<open>internal/fileutil/atomic.go\<close>) and agent-facing paths
  (\<open>internal/fileutil/logicalpath.go\<close>). A file system is the map of its regular files by path. The
  temporary file of a write has a name of its own and is removed by the deferred call, so it does not
  appear in the result; one that a killed process leaves behind (\<open>.mcp-write-*.tmp\<close>) is left out of the model. The
  errors of the system calls are arguments.
\<close>

type_synonym files = "(string, string) gomap"

record atomic_faults =
  af_mkdir :: bool
  af_create_tmp :: bool
  af_write :: bool
  af_close :: bool
  af_promote :: bool

abbreviation no_atomic_faults :: atomic_faults where
  "no_atomic_faults \<equiv> \<lparr>af_mkdir = False, af_create_tmp = False, af_write = False, af_close = False,
     af_promote = False\<rparr>"

text \<open>The errors up to the promotion of the temporary file; \<open>check1\<close> and \<open>check2\<close> are the re-checks.\<close>

definition before_promote :: "atomic_faults \<Rightarrow> string option \<Rightarrow> string option \<Rightarrow> string option" where
  "before_promote fl check1 check2 =
     (if af_mkdir fl then Some ''mkdir''
      else if check1 \<noteq> None then check1
      else if af_create_tmp fl then Some ''create temp''
      else if af_write fl then Some ''write''
      else if af_close fl then Some ''close''
      else check2)"

definition AtomicWrite :: "atomic_faults \<Rightarrow> files \<Rightarrow> string \<Rightarrow> string \<Rightarrow> files \<times> string option" where
  "AtomicWrite fl fs path content =
     (case before_promote fl None None of
        Some err \<Rightarrow> (fs, Some err)
      | None \<Rightarrow> if af_promote fl then (fs, Some ''rename'') else (gput fs path content, None))"

text \<open>\<open>v1\<close> and \<open>v2\<close> are the file system as the two re-checks of the parent directory see it.\<close>

definition AtomicWriteChecked ::
    "atomic_faults \<Rightarrow> fs_view \<Rightarrow> fs_view \<Rightarrow> path_guard \<Rightarrow> files \<Rightarrow> string \<Rightarrow> string \<Rightarrow> files \<times> string option" where
  "AtomicWriteChecked fl v1 v2 pg fs path content =
     (let dir = path_dir path
      in case before_promote fl (RevalidateForWrite v1 pg dir) (RevalidateForWrite v2 pg dir) of
           Some err \<Rightarrow> (fs, Some err)
         | None \<Rightarrow> if af_promote fl then (fs, Some ''rename'') else (gput fs path content, None))"

text \<open>\<open>os.Link\<close> never replaces an existing path: \<open>taken\<close> says that a directory or link is there.\<close>

definition errExist :: string where "errExist = ''file already exists''"

definition AtomicCreateChecked ::
    "atomic_faults \<Rightarrow> fs_view \<Rightarrow> fs_view \<Rightarrow> (string \<Rightarrow> bool) \<Rightarrow> path_guard \<Rightarrow> files \<Rightarrow> string \<Rightarrow> string \<Rightarrow>
     files \<times> string option" where
  "AtomicCreateChecked fl v1 v2 taken pg fs path content =
     (let dir = path_dir path
      in case before_promote fl (RevalidateForWrite v1 pg dir) (RevalidateForWrite v2 pg dir) of
           Some err \<Rightarrow> (fs, Some err)
         | None \<Rightarrow>
             if gget fs path \<noteq> None \<or> taken path then (fs, Some errExist)
             else if af_promote fl then (fs, Some ''link'')
             else (gput fs path content, None))"

definition AtomicCreateCheckedBytes ::
    "atomic_faults \<Rightarrow> fs_view \<Rightarrow> fs_view \<Rightarrow> (string \<Rightarrow> bool) \<Rightarrow> path_guard \<Rightarrow> files \<Rightarrow> string \<Rightarrow> string \<Rightarrow>
     files \<times> string option" where
  "AtomicCreateCheckedBytes = AtomicCreateChecked"

definition AtomicWriteBytes :: "atomic_faults \<Rightarrow> files \<Rightarrow> string \<Rightarrow> string \<Rightarrow> files \<times> string option" where
  "AtomicWriteBytes = AtomicWrite"

text \<open>\<open>filepath.ToSlash\<close> is the identity on a Unix system.\<close>

definition LogicalContentPath :: "string \<Rightarrow> string \<Rightarrow> string" where
  "LogicalContentPath contentRoot0 sourcePath0 =
     (let contentRoot = trim_space contentRoot0;
          sourcePath = trim_space sourcePath0;
          rest = (if is_abs sourcePath then '''' else sourcePath)
      in if sourcePath = '''' then ''''
         else if contentRoot = '''' then rest
         else (case path_rel contentRoot sourcePath of
                 None \<Rightarrow> rest
               | Some rel \<Rightarrow>
                   if rel \<noteq> '''' \<and> rel \<noteq> ''.'' \<and> rel \<noteq> ''..'' \<and> \<not> has_prefix ''../'' rel
                   then path_join [''content'', rel] else rest))"

section \<open>All or nothing\<close>

lemma AtomicWrite_cases:
  "AtomicWrite fl fs p c = (fs', err) \<Longrightarrow> err = None \<and> fs' = gput fs p c \<or> err \<noteq> None \<and> fs' = fs"
  by (auto simp: AtomicWrite_def split: option.splits if_splits)

lemma AtomicWriteChecked_cases:
  "AtomicWriteChecked fl v1 v2 pg fs p c = (fs', err) \<Longrightarrow>
     err = None \<and> fs' = gput fs p c \<and> RevalidateForWrite v2 pg (path_dir p) = None \<or> err \<noteq> None \<and> fs' = fs"
  by (auto simp: AtomicWriteChecked_def before_promote_def Let_def split: option.splits if_splits)

lemma AtomicCreateChecked_cases:
  "AtomicCreateChecked fl v1 v2 taken pg fs p c = (fs', err) \<Longrightarrow>
     err = None \<and> fs' = gput fs p c \<and> gget fs p = None \<and> \<not> taken p \<and>
       RevalidateForWrite v2 pg (path_dir p) = None \<or>
     err \<noteq> None \<and> fs' = fs"
  by (auto simp: AtomicCreateChecked_def before_promote_def Let_def split: option.splits if_splits)

end
