(* ===== verification/Assets.thy ===== *)
theory Assets
  imports FileUtil Idempotency ChangeSet
begin

text \<open>
  Page assets: the checks of \<open>internal/tools/write/page_assets.go\<close> and \<open>svg_validate.go\<close> on names and
  bytes, and the handlers of \<open>upload_page_asset\<close> and \<open>delete_page_asset\<close>. A file system is the map of
  its regular files by path. Parameters: \<open>sha\<close> for \<open>contentmodel.SourceRevisionBytes\<close> (SHA-256),
  \<open>sniff\<close> for \<open>http.DetectContentType\<close>, \<open>xml\<close> for the token stream of \<open>encoding/xml\<close> and \<open>lower\<close> for
  \<open>strings.ToLower\<close>.
\<close>

section \<open>Names\<close>

definition maxAssetBytes :: nat where "maxAssetBytes = 10 * 2 ^ 20"

definition ascii_alnum :: "char \<Rightarrow> bool" where
  "ascii_alnum c \<longleftrightarrow>
     (let n = of_char c :: nat in 65 \<le> n \<and> n \<le> 90 \<or> 97 \<le> n \<and> n \<le> 122 \<or> 48 \<le> n \<and> n \<le> 57)"

definition assetFilenamePattern :: "string \<Rightarrow> bool" where
  "assetFilenamePattern s \<longleftrightarrow>
     (case s of [] \<Rightarrow> False
      | c # cs \<Rightarrow> ascii_alnum c \<and> length cs \<le> 119 \<and>
          list_all (\<lambda>c. ascii_alnum c \<or> c = CHR ''.'' \<or> c = CHR ''_'' \<or> c = CHR ''-'') cs)"

definition allowedAssetTypes :: "(string, string) gomap" where
  "allowedAssetTypes =
     [(''.png'', ''image/png''), (''.jpg'', ''image/jpeg''), (''.jpeg'', ''image/jpeg''),
      (''.gif'', ''image/gif''), (''.webp'', ''image/webp''), (''.svg'', ''image/svg+xml'')]"

text \<open>\<open>filepath.Ext\<close>.\<close>

definition path_ext :: "string \<Rightarrow> string" where
  "path_ext p =
     (let elem = takeWhile (\<lambda>c. c \<noteq> CHR ''/'') (rev p)
      in if CHR ''.'' \<in> set elem then ''.'' @ rev (takeWhile (\<lambda>c. c \<noteq> CHR ''.'') elem) else '''')"

definition validateAssetFilename :: "string \<Rightarrow> (string \<times> string \<times> string) go" where
  "validateAssetFilename name =
     (let clean = trim_space name
      in if \<not> assetFilenamePattern clean
         then Inl ''invalid_params: filename must be a single path component''
         else (let ext = to_lower (path_ext clean)
               in case gget allowedAssetTypes ext of
                    None \<Rightarrow> Inl ''invalid_params: filename extension is not an allowed asset type''
                  | Some wantMIME \<Rightarrow> Inr (clean, ext, wantMIME)))"

definition validateDeleteAssetFilename :: "string \<Rightarrow> string go" where
  "validateDeleteAssetFilename name =
     (let clean = trim_space name
      in if \<not> assetFilenamePattern clean
         then Inl ''invalid_params: filename must be a single path component''
         else if clean = ''index.md'' \<or> has_prefix ''index.'' clean \<and> has_suffix ''.md'' clean
         then Inl ''invalid_params: the filename is the page's own content file, not an asset''
         else Inr clean)"

definition validateExpectedSha256 :: "string \<Rightarrow> string go" where
  "validateExpectedSha256 v0 =
     (let v = trim_space v0
      in if v = '''' then Inr ''''
         else if length v \<noteq> 7 + 64 \<or> \<not> has_prefix ''sha256:'' v
         then Inl ''invalid_params: sha256 must be of the form sha256:<64 lowercase hex characters>''
         else if list_all (\<lambda>c. let n = of_char c :: nat in 48 \<le> n \<and> n \<le> 57 \<or> 97 \<le> n \<and> n \<le> 102) (drop 7 v)
         then Inr v
         else Inl ''invalid_params: sha256 must be of the form sha256:<64 lowercase hex characters>'')"

section \<open>Base64\<close>

text \<open>
  \<open>base64.StdEncoding.DecodeString\<close>: line breaks are skipped, quantums of four digits give three
  bytes, and only the last one may be padded. The unused low bits of a padded quantum are ignored.
\<close>

definition b64_digit :: "char \<Rightarrow> nat option" where
  "b64_digit c =
     (let n = of_char c :: nat
      in if 65 \<le> n \<and> n \<le> 90 then Some (n - 65)
         else if 97 \<le> n \<and> n \<le> 122 then Some (n - 71)
         else if 48 \<le> n \<and> n \<le> 57 then Some (n + 4)
         else if c = CHR ''+'' then Some 62
         else if c = CHR ''/'' then Some 63
         else None)"

fun b64_quads :: "string \<Rightarrow> string option" where
  "b64_quads [] = Some []"
| "b64_quads (a # b # c # d # rest) =
     (case (b64_digit a, b64_digit b) of
        (Some x, Some y) \<Rightarrow>
          (let first = char_of (x * 4 + y div 16)
           in if c = CHR ''='' then (if d = CHR ''='' \<and> rest = [] then Some [first] else None)
              else (case b64_digit c of
                      None \<Rightarrow> None
                    | Some z \<Rightarrow>
                        (let second = char_of (y mod 16 * 16 + z div 4)
                         in if d = CHR ''='' then (if rest = [] then Some [first, second] else None)
                            else (case (b64_digit d, b64_quads rest) of
                                    (Some w, Some out) \<Rightarrow>
                                      Some (first # second # char_of (z mod 4 * 64 + w) # out)
                                  | _ \<Rightarrow> None))))
      | _ \<Rightarrow> None)"
| "b64_quads _ = None"

definition b64_decode :: "string \<Rightarrow> string option" where
  "b64_decode s = b64_quads (filter (\<lambda>c. c \<noteq> CHR 0x0A \<and> c \<noteq> CHR 0x0D) s)"

definition decodeAssetBase64 :: "string \<Rightarrow> string go" where
  "decodeAssetBase64 b64 =
     (if blank b64 then Inl ''invalid_params: content_base64 must not be empty''
      else if maxAssetBytes * 2 < length b64
        then Inl ''invalid_params: asset content exceeds the maximum allowed size''
      else (case b64_decode b64 of
              None \<Rightarrow> Inl ''invalid_params: content_base64 is not valid base64''
            | Some data \<Rightarrow> Inr data))"

section \<open>SVG\<close>

record xml_attr =
  xa_space :: string
  xa_local :: string
  xa_value :: string

text \<open>A token of \<open>xml.Decoder\<close>; character data, comments and end elements are not inspected.\<close>

datatype xml_token = Directive | ProcInst string | StartElement string "xml_attr list" | OtherToken

definition allowedSVGElements :: "string list" where
  "allowedSVGElements =
     [''svg'', ''g'', ''path'', ''rect'', ''circle'', ''ellipse'', ''line'', ''polyline'', ''polygon'',
      ''text'', ''tspan'', ''defs'', ''use'', ''symbol'', ''clippath'', ''mask'', ''lineargradient'',
      ''radialgradient'', ''stop'', ''title'', ''desc'', ''marker'', ''pattern'']"

definition allowedSVGAttributes :: "string list" where
  "allowedSVGAttributes =
     [''id'', ''class'', ''transform'', ''viewbox'', ''xmlns'', ''version'', ''width'', ''height'', ''x'', ''y'',
      ''x1'', ''y1'', ''x2'', ''y2'', ''cx'', ''cy'', ''r'', ''rx'', ''ry'', ''d'', ''points'', ''fill'', ''fill-rule'',
      ''fill-opacity'', ''stroke'', ''stroke-width'', ''stroke-linecap'', ''stroke-linejoin'',
      ''stroke-dasharray'', ''stroke-opacity'', ''opacity'', ''offset'', ''stop-color'', ''stop-opacity'',
      ''gradientunits'', ''gradienttransform'', ''patternunits'', ''patterntransform'', ''markerwidth'',
      ''markerheight'', ''markerunits'', ''orient'', ''refx'', ''refy'', ''preserveaspectratio'', ''clip-path'',
      ''mask'', ''role'']"

definition urlBearingSVGAttributes :: "string list" where
  "urlBearingSVGAttributes = [''fill'', ''stroke'', ''clip-path'', ''mask'']"

text \<open>
  The matches of \<open>(?i)url\(\s*(.*?)\s*\)\<close>, leftmost first: the captured target is the shortest text
  without a line feed that is followed by white space and a closing parenthesis.
\<close>

fun url_target :: "string \<Rightarrow> (string \<times> string) option" where
  "url_target s =
     (case dropWhile re_space s of
        c # rest \<Rightarrow>
          if c = CHR '')'' then Some ([], rest)
          else (case s of
                  [] \<Rightarrow> None
                | d # ds \<Rightarrow> if d = CHR 0x0A then None else map_option (map_prod ((#) d) id) (url_target ds))
      | [] \<Rightarrow> None)"

declare url_target.simps [simp del]

lemma url_target_shorter: "url_target s = Some (t, rest) \<Longrightarrow> length rest < length s"
proof (induction s arbitrary: t rest rule: url_target.induct)
  case (1 s)
  have "length (dropWhile re_space s) \<le> length s" by (rule length_dropWhile_le)
  with 1 show ?case
    by (subst (asm) (2) url_target.simps) (force split: list.splits if_splits)
qed

function svgURLFuncPattern :: "string \<Rightarrow> string list" where
  "svgURLFuncPattern s =
     (case s of
        [] \<Rightarrow> []
      | c # cs \<Rightarrow>
          (case (if has_prefix ''url('' (to_lower s) then url_target (dropWhile re_space (drop 4 s)) else None) of
             None \<Rightarrow> svgURLFuncPattern cs
           | Some (target, rest) \<Rightarrow> target # svgURLFuncPattern rest))"
  by pat_completeness auto
termination
proof (relation "measure length")
  show "wf (measure (length :: string \<Rightarrow> nat))" by simp
  show "(cs, s) \<in> measure length" if "s = c # cs" for s cs :: string and c using that by simp
  show "(rest, s) \<in> measure length"
    if "(if has_prefix ''url('' (to_lower s) then url_target (dropWhile re_space (drop 4 s)) else None) = Some x"
      "(target, rest) = x" for s rest target x
  proof -
    have "length rest < length (dropWhile re_space (drop 4 s))"
      using that url_target_shorter by (auto split: if_splits)
    also have "\<dots> \<le> length s" using length_dropWhile_le [of re_space "drop 4 s"] by simp
    finally show ?thesis by simp
  qed
qed

declare svgURLFuncPattern.simps [simp del]

definition trim_quotes :: "string \<Rightarrow> string" where
  "trim_quotes s =
     (let q = (\<lambda>c. c = CHR 0x22 \<or> c = CHR 0x27) in rev (dropWhile q (rev (dropWhile q s))))"

definition validateSVGURLBearingValue :: "string \<Rightarrow> string option" where
  "validateSVGURLBearingValue value =
     (if list_all (\<lambda>target. has_prefix ''#'' (trim_quotes (trim_space target))) (svgURLFuncPattern value)
      then None else Some ''invalid_svg: attribute must reference only a local fragment'')"

fun check_attrs :: "(string \<Rightarrow> string) \<Rightarrow> xml_attr list \<Rightarrow> string option" where
  "check_attrs lower [] = None"
| "check_attrs lower (a # as) =
     (if xa_space a = ''xmlns'' then check_attrs lower as
      else
        (let local = lower (xa_local a)
         in if has_prefix ''on'' local then Some ''invalid_svg: disallowed event-handler attribute''
            else if local = ''href'' then
              (if \<not> has_prefix ''#'' (trim_space (xa_value a))
               then Some ''invalid_svg: href must be a local fragment reference''
               else check_attrs lower as)
            else if local \<notin> set allowedSVGAttributes then Some ''invalid_svg: disallowed attribute''
            else (case (if local \<in> set urlBearingSVGAttributes
                        then validateSVGURLBearingValue (xa_value a) else None) of
                    Some err \<Rightarrow> Some err
                  | None \<Rightarrow> check_attrs lower as)))"

text \<open>\<open>clean\<close> says that the token stream ends at the end of the data and not in a parse error.\<close>

fun svg_loop :: "(string \<Rightarrow> string) \<Rightarrow> bool \<Rightarrow> bool \<Rightarrow> xml_token list \<Rightarrow> string option" where
  "svg_loop lower clean sawRoot [] =
     (if \<not> clean then Some ''invalid_svg: XML parse error''
      else if \<not> sawRoot then Some ''invalid_svg: no root <svg> element found'' else None)"
| "svg_loop lower clean sawRoot (Directive # toks) =
     Some ''invalid_svg: DOCTYPE/markup declarations are not allowed''"
| "svg_loop lower clean sawRoot (ProcInst target # toks) =
     (if to_lower target \<noteq> ''xml''
      then Some ''invalid_svg: processing instructions other than the XML declaration are not allowed''
      else svg_loop lower clean sawRoot toks)"
| "svg_loop lower clean sawRoot (StartElement elem attrs # toks) =
     (let name = lower elem
      in if \<not> sawRoot \<and> name \<noteq> ''svg'' then Some ''invalid_svg: root element must be <svg>''
         else if name \<notin> set allowedSVGElements then Some ''invalid_svg: disallowed element''
         else (case check_attrs lower attrs of
                 Some err \<Rightarrow> Some err
               | None \<Rightarrow> svg_loop lower clean True toks))"
| "svg_loop lower clean sawRoot (OtherToken # toks) = svg_loop lower clean sawRoot toks"

text \<open>The data of a successful answer; the rate-limit bucket is left out.\<close>

record upload_data =
  ud_status :: string
  ud_slug :: string
  ud_source_key :: string
  ud_filename :: string
  ud_path :: string
  ud_content_type :: string
  ud_size :: nat
  ud_sha :: string
  ud_duplicate_of :: string
  ud_dry_run :: bool

text \<open>
  The library functions: hashing, sniffing, XML tokens, case mapping, the JSON coding of an answer and
  the hash of the replay request (slug, file name, content hash).
\<close>

record asset_lib =
  al_sha :: "string \<Rightarrow> string"
  al_sniff :: "string \<Rightarrow> string"
  al_xml :: "string \<Rightarrow> xml_token list \<times> bool"
  al_lower :: "string \<Rightarrow> string"
  al_enc :: "upload_data \<Rightarrow> string option"
  al_dec :: "string \<Rightarrow> upload_data option"
  al_request_hash :: "string \<Rightarrow> string \<Rightarrow> string \<Rightarrow> string option"

definition validateSVGContent :: "asset_lib \<Rightarrow> string \<Rightarrow> string option" where
  "validateSVGContent A data =
     (case al_xml A data of (toks, clean) \<Rightarrow> svg_loop (al_lower A) clean False toks)"

definition validateAssetBytes :: "asset_lib \<Rightarrow> string \<Rightarrow> string \<Rightarrow> string \<Rightarrow> string option" where
  "validateAssetBytes A data ext wantMIME =
     (if data = [] then Some ''invalid_params: decoded asset content is empty''
      else if maxAssetBytes < length data then Some ''invalid_params: decoded asset content exceeds the maximum''
      else if ext = ''.svg'' then map_option ((@) ''invalid_params: '') (validateSVGContent A data)
      else (let sniffed = al_sniff A (take 512 data)
            in if trim_space (fst (cut_on CHR '';'' sniffed)) \<noteq> wantMIME
               then Some ''invalid_params: filename/content_base64 mismatch'' else None))"

definition decodeAndValidateAssetContent :: "asset_lib \<Rightarrow> string \<Rightarrow> string \<Rightarrow> string \<Rightarrow> string go" where
  "decodeAndValidateAssetContent A b64 ext wantMIME =
     (case decodeAssetBase64 b64 of
        Inl err \<Rightarrow> Inl err
      | Inr data \<Rightarrow>
          (case validateAssetBytes A data ext wantMIME of Some err \<Rightarrow> Inl err | None \<Rightarrow> Inr data))"

section \<open>Slugs and bundles\<close>

definition normalizeInputSlug :: "string \<Rightarrow> string" where
  "normalizeInputSlug s0 =
     (let s = trim_space s0
      in if s = ''/'' then ''/''
         else if has_prefix ''/'' s \<and> has_suffix ''/'' s then trim_char CHR ''/'' s
         else if has_prefix ''/'' s then s
         else strip_slashes s)"

definition canonicalPublicSlug :: "string \<Rightarrow> string" where
  "canonicalPublicSlug sourceSlug =
     (let slug = trim_char CHR ''/'' sourceSlug
      in if slug = '''' then (if trim_space sourceSlug = ''/'' then ''/'' else '''')
         else ''/'' @ slug @ ''/'')"

text \<open>\<open>page\<close> is the file path that the source index records for a slug.\<close>

definition validateBundleSlug :: "(string \<Rightarrow> string option) \<Rightarrow> string \<Rightarrow> string option" where
  "validateBundleSlug page slug =
     (case page slug of
        None \<Rightarrow> Some ''not_found: page not found''
      | Some filePath \<Rightarrow>
          if \<not> has_prefix ''index.'' (path_base filePath)
          then Some ''not_a_bundle: slug is a single-file page with no bundle directory for assets''
          else None)"

text \<open>
  The entries of a directory are its names, in the order of \<open>os.ReadDir\<close>, each with the flag of a
  directory; an entry that is not a regular file of the file system cannot be read.
\<close>

fun find_duplicate :: "(string \<Rightarrow> string) \<Rightarrow> files \<Rightarrow> string \<Rightarrow> string \<Rightarrow> (string \<times> bool) list \<Rightarrow> string" where
  "find_duplicate sha fs dir data [] = ''''"
| "find_duplicate sha fs dir data ((name, is_dir) # es) =
     (if is_dir \<or> has_prefix ''index.'' name \<and> has_suffix ''.md'' name \<or> has_prefix ''.'' name
      then find_duplicate sha fs dir data es
      else (case gget fs (path_join [dir, name]) of
              None \<Rightarrow> find_duplicate sha fs dir data es
            | Some raw \<Rightarrow>
                if length raw = length data \<and> sha raw = sha data then name
                else find_duplicate sha fs dir data es))"

definition findDuplicateAsset ::
    "(string \<Rightarrow> string) \<Rightarrow> (string \<Rightarrow> (string \<times> bool) list option) \<Rightarrow> files \<Rightarrow> string \<Rightarrow> string \<Rightarrow> string" where
  "findDuplicateAsset sha ls fs dir data =
     (case ls dir of None \<Rightarrow> '''' | Some es \<Rightarrow> find_duplicate sha fs dir data es)"

section \<open>upload\_page\_asset\<close>

record asset_world =
  aw_files :: files
  aw_idem :: idem_store
  aw_sets :: cs_registry

record asset_config =
  ac_content_root :: string
  ac_force_dry_run :: bool

text \<open>
  What a call meets: the clock, the caller, the verdict of the limiter, the file system as the link
  checks see it before and during the write, directory listings, the source index before and under
  the content lock, whether the lock is obtained in time, and faults. \<open>ae_other\<close> says that something
  other than a regular file is at a path.
\<close>

record asset_env =
  ae_now :: time
  ae_ctx :: call_ctx
  ae_allow :: bool
  ae_view :: fs_view
  ae_view_write :: fs_view
  ae_ls :: "string \<Rightarrow> (string \<times> bool) list option"
  ae_page :: "string \<Rightarrow> string option"
  ae_page_locked :: "string \<Rightarrow> string option"
  ae_locked :: bool
  ae_other :: "string \<Rightarrow> bool"
  ae_stat_fails :: bool
  ae_atomic :: atomic_faults
  ae_replay_fl :: io_faults
  ae_remember_fl :: io_faults
  ae_cs_read_fails :: bool
  ae_cs_touch_fails :: bool
  ae_cs_record_fails :: bool

text \<open>\<open>os.Stat\<close> of the destination: the error of the handler, if any.\<close>

definition stat_new :: "('e) asset_env_scheme \<Rightarrow> files \<Rightarrow> string \<Rightarrow> string option" where
  "stat_new env fs p =
     (if ae_stat_fails env then Some ''read_error: failed to inspect destination path''
      else if gget fs p \<noteq> None \<or> ae_other env p then Some ''already_exists: asset already exists''
      else None)"

record upload_input =
  ui_slug :: string
  ui_filename :: string
  ui_content :: string
  ui_key :: string
  ui_change_set :: string
  ui_dry_run :: bool

text \<open>The replay step shared by the asset handlers: the request hash and a recorded answer.\<close>

definition asset_replay ::
    "asset_lib \<Rightarrow> ('e) asset_env_scheme \<Rightarrow> ('w) asset_world_scheme \<Rightarrow> string \<Rightarrow> string \<Rightarrow> bool \<Rightarrow>
     string \<Rightarrow> string \<Rightarrow> string \<Rightarrow> ('w) asset_world_scheme \<times> (string \<times> upload_data option) go" where
  "asset_replay A env w tool key dry slug filename hash =
     (if dry \<or> blank key then (w, Inr ('''', None))
      else (case al_request_hash A slug filename hash of
              None \<Rightarrow> (w, Inl ''internal_error: failed to hash idempotency request'')
            | Some h \<Rightarrow>
                (case replay (al_dec A) (ae_replay_fl env) (ae_now env) (aw_idem w)
                        (idempotencyCallerKey (ae_ctx env)) tool key h of
                   (i, hit, Some err, out) \<Rightarrow> (w\<lparr>aw_idem := i\<rparr>, Inl err)
                 | (i, hit, None, out) \<Rightarrow> (w\<lparr>aw_idem := i\<rparr>, Inr (h, if hit then out else None)))))"

text \<open>The bookkeeping after a successful write; a failure to remember is only logged.\<close>

definition asset_record ::
    "asset_lib \<Rightarrow> ('e) asset_env_scheme \<Rightarrow> ('w) asset_world_scheme \<Rightarrow> string \<Rightarrow> string \<Rightarrow> string \<Rightarrow> string \<Rightarrow>
     upload_data \<Rightarrow> ('w) asset_world_scheme" where
  "asset_record A env w tool key idemHash cs out =
     (let ctx = ae_ctx env;
          w1 = (if idemHash = '''' then w
                else w\<lparr>aw_idem := fst (remember (al_enc A) (ae_remember_fl env) (ae_now env) (aw_idem w)
                         (idempotencyCallerKey ctx) tool key idemHash out)\<rparr>)
      in w1\<lparr>aw_sets := RecordMutation (ae_cs_record_fails env) (aw_sets w1) cs (mutationCallerKey ctx) tool
              (ud_source_key out) ''create'' (ae_now env)\<rparr>)"

text \<open>The part of the handler that runs under the content lock.\<close>

definition upload_locked ::
    "asset_lib \<Rightarrow> path_guard \<Rightarrow> asset_config \<Rightarrow> ('e) asset_env_scheme \<Rightarrow> ('w) asset_world_scheme \<Rightarrow>
     upload_input \<Rightarrow> bool \<Rightarrow> string \<Rightarrow> string \<Rightarrow> string \<Rightarrow> string \<Rightarrow> string \<Rightarrow>
     ('w) asset_world_scheme \<times> upload_data go" where
  "upload_locked A pg cfg env w inp dry slug cs filename wantMIME data =
     (case validateBundleSlug (ae_page_locked env) slug of
        Some err \<Rightarrow> (w, Inl err)
      | None \<Rightarrow>
          (case SafeJoin (ae_view env) pg slug of
             Inl e \<Rightarrow> (w, Inl ''invalid_params: path validation failed'')
           | Inr dir \<Rightarrow>
               (let filePath = path_join [dir, filename];
                    hash = al_sha A data;
                    out = \<lparr>ud_status = (if dry then ''would_create'' else ''created''),
                           ud_slug = canonicalPublicSlug slug, ud_source_key = slug, ud_filename = filename,
                           ud_path = LogicalContentPath (ac_content_root cfg) filePath,
                           ud_content_type = wantMIME, ud_size = length data, ud_sha = hash,
                           ud_duplicate_of = findDuplicateAsset (al_sha A) (ae_ls env) (aw_files w) dir data,
                           ud_dry_run = dry\<rparr>
                in case asset_replay A env w ''upload_page_asset'' (ui_key inp) dry slug filename hash of
                     (w1, Inl err) \<Rightarrow> (w1, Inl err)
                   | (w1, Inr (idemHash, Some cached)) \<Rightarrow> (w1, Inr cached)
                   | (w1, Inr (idemHash, None)) \<Rightarrow>
                       (case stat_new env (aw_files w1) filePath of
                          Some err \<Rightarrow> (w1, Inl err)
                        | None \<Rightarrow>
                            if dry then (w1, Inr out)
                            else (case RevalidateForWrite (ae_view_write env) pg filePath of
                                    Some e \<Rightarrow> (w1, Inl ''security_error: symlink detected in write path'')
                                  | None \<Rightarrow>
                                      (case AtomicCreateCheckedBytes (ae_atomic env) (ae_view_write env)
                                              (ae_view_write env) (ae_other env) pg (aw_files w1) filePath data of
                                         (fs', Some e) \<Rightarrow>
                                           (w1, Inl (if e = errExist then ''already_exists: asset already exists''
                                                     else ''write_error: failed to write asset''))
                                       | (fs', None) \<Rightarrow>
                                           (asset_record A env (w1\<lparr>aw_files := fs'\<rparr>) ''upload_page_asset''
                                              (ui_key inp) idemHash cs out, Inr out)))))))"

definition uploadPageAsset ::
    "asset_lib \<Rightarrow> path_guard \<Rightarrow> asset_config \<Rightarrow> ('e) asset_env_scheme \<Rightarrow> ('w) asset_world_scheme \<Rightarrow>
     upload_input \<Rightarrow> ('w) asset_world_scheme \<times> upload_data go" where
  "uploadPageAsset A pg cfg env w inp =
     (let dry = (ac_force_dry_run cfg \<or> ui_dry_run inp);
          slug = normalizeInputSlug (ui_slug inp)
      in if slug = '''' then (w, Inl ''invalid_params: slug must not be empty'')
         else (case validateIdempotencyKey (ui_key inp) of
           Some err \<Rightarrow> (w, Inl err)
         | None \<Rightarrow>
           (case Resolve (ae_cs_read_fails env) (ae_cs_touch_fails env) (ae_ctx env) (aw_sets w)
                   (ui_change_set inp) (ae_now env) of
              (r, Inl err) \<Rightarrow> (w\<lparr>aw_sets := r\<rparr>, Inl err)
            | (r, Inr cs) \<Rightarrow>
              (let w = w\<lparr>aw_sets := r\<rparr>
               in case validateAssetFilename (ui_filename inp) of
                    Inl err \<Rightarrow> (w, Inl err)
                  | Inr (filename, ext, wantMIME) \<Rightarrow>
                    (case validateBundleSlug (ae_page env) slug of
                       Some err \<Rightarrow> (w, Inl err)
                     | None \<Rightarrow>
                       if \<not> dry \<and> \<not> ae_allow env then (w, Inl ''rate_limit_exceeded: upload_page_asset'')
                       else (case decodeAndValidateAssetContent A (ui_content inp) ext wantMIME of
                               Inl err \<Rightarrow> (w, Inl err)
                             | Inr data \<Rightarrow>
                                 if \<not> ae_locked env
                                 then (w, Inl ''build_in_progress: content lock is held, retry in a moment'')
                                 else upload_locked A pg cfg env w inp dry slug cs filename wantMIME data))))))"

section \<open>Names are safe\<close>

lemma ascii_alnum_not: "\<not> ascii_alnum CHR ''/''" "\<not> ascii_alnum CHR ''.''"
  by (simp_all add: ascii_alnum_def)

lemma asset_name_visible: "assetFilenamePattern s \<Longrightarrow> visible_seg s \<and> length s \<le> 120"
  by (cases s) (auto simp: assetFilenamePattern_def visible_seg_def plain_seg_def has_prefix_def
      list_all_iff ascii_alnum_not)

lemma asset_name_ok:
  assumes "validateAssetFilename name = Inr (clean, ext, mime)"
  shows "visible_seg clean" "length clean \<le> 120" "gget allowedAssetTypes ext = Some mime"
  using assms asset_name_visible
  by (auto simp: validateAssetFilename_def Let_def split: if_splits option.splits)

section \<open>What the SVG gate accepts\<close>

text \<open>
  The rules as a predicate on single attributes and tokens: the loops accept exactly the streams all
  of whose tokens obey them.
\<close>

definition local_ref :: "string \<Rightarrow> bool" where
  "local_ref value \<longleftrightarrow> has_prefix ''#'' (trim_space value)"

definition svg_attr_ok :: "(string \<Rightarrow> string) \<Rightarrow> xml_attr \<Rightarrow> bool" where
  "svg_attr_ok lower a \<longleftrightarrow> xa_space a = ''xmlns'' \<or>
     (let local = lower (xa_local a)
      in \<not> has_prefix ''on'' local \<and>
         (if local = ''href'' then local_ref (xa_value a)
          else local \<in> set allowedSVGAttributes \<and>
               (local \<in> set urlBearingSVGAttributes \<longrightarrow>
                  (\<forall>target \<in> set (svgURLFuncPattern (xa_value a)).
                     has_prefix ''#'' (trim_quotes (trim_space target))))))"

fun svg_token_ok :: "(string \<Rightarrow> string) \<Rightarrow> xml_token \<Rightarrow> bool" where
  "svg_token_ok lower Directive \<longleftrightarrow> False"
| "svg_token_ok lower (ProcInst target) \<longleftrightarrow> to_lower target = ''xml''"
| "svg_token_ok lower (StartElement elem attrs) \<longleftrightarrow>
     lower elem \<in> set allowedSVGElements \<and> list_all (svg_attr_ok lower) attrs"
| "svg_token_ok lower OtherToken \<longleftrightarrow> True"

fun element_names :: "xml_token list \<Rightarrow> string list" where
  "element_names [] = []"
| "element_names (StartElement elem attrs # toks) = elem # element_names toks"
| "element_names (tok # toks) = element_names toks"

lemma check_attrs_iff: "check_attrs lower as = None \<longleftrightarrow> list_all (svg_attr_ok lower) as"
  by (induction as)
    (auto simp: svg_attr_ok_def local_ref_def Let_def validateSVGURLBearingValue_def list_all_iff
      split: option.split)

lemma svg_loop_iff:
  "svg_loop lower clean saw toks = None \<longleftrightarrow>
     clean \<and> list_all (svg_token_ok lower) toks \<and>
     (saw \<or> (\<exists>n ns. element_names toks = n # ns \<and> lower n = ''svg''))"
proof (induction lower clean saw toks rule: svg_loop.induct)
  case (4 lower clean saw elem attrs toks)
  show ?case
  proof (cases "check_attrs lower attrs")
    case None
    then have "list_all (svg_attr_ok lower) attrs" by (simp add: check_attrs_iff)
    then show ?thesis using 4 None by (auto simp: Let_def allowedSVGElements_def)
  next
    case (Some err)
    then have "\<not> list_all (svg_attr_ok lower) attrs" by (metis check_attrs_iff option.distinct(1))
    then show ?thesis using Some by (simp add: Let_def)
  qed
qed auto

lemma element_names_iff: "n \<in> set (element_names toks) \<longleftrightarrow> (\<exists>as. StartElement n as \<in> set toks)"
  by (induction toks rule: element_names.induct) auto

text \<open>
  C23. The SVG gate accepts exactly the documents that parse to the end, whose first element is
  \<open>svg\<close>, and in which every element is on the list, every attribute obeys the attribute rules and
  there is no declaration or foreign processing instruction. In particular no script, style, image or
  foreignObject element, no event handler and no \<open>href\<close> to another document gets through.
\<close>

theorem svg_accept_exact:
  "(validateSVGContent A data = None \<longleftrightarrow>
      snd (al_xml A data) \<and> list_all (svg_token_ok (al_lower A)) (fst (al_xml A data)) \<and>
      (\<exists>n ns. element_names (fst (al_xml A data)) = n # ns \<and> al_lower A n = ''svg'')) \<and>
   (validateSVGContent A data = None \<and> StartElement elem attrs \<in> set (fst (al_xml A data)) \<longrightarrow>
      al_lower A elem \<notin> {''script'', ''style'', ''image'', ''foreignobject'', ''animate'', ''set'', ''iframe''} \<and>
      (\<forall>a \<in> set attrs. xa_space a \<noteq> ''xmlns'' \<longrightarrow>
         \<not> has_prefix ''on'' (al_lower A (xa_local a)) \<and> al_lower A (xa_local a) \<noteq> ''style'' \<and>
         (al_lower A (xa_local a) = ''href'' \<longrightarrow> local_ref (xa_value a))))"
proof -
  let ?toks = "fst (al_xml A data)"
  have iff: "validateSVGContent A data = None \<longleftrightarrow>
      snd (al_xml A data) \<and> list_all (svg_token_ok (al_lower A)) ?toks \<and>
      (\<exists>n ns. element_names ?toks = n # ns \<and> al_lower A n = ''svg'')"
    by (simp add: validateSVGContent_def svg_loop_iff case_prod_beta)
  have attr: "svg_attr_ok lower a \<Longrightarrow> xa_space a \<noteq> ''xmlns'' \<Longrightarrow>
      \<not> has_prefix ''on'' (lower (xa_local a)) \<and> lower (xa_local a) \<noteq> ''style'' \<and>
      (lower (xa_local a) = ''href'' \<longrightarrow> local_ref (xa_value a))" for lower a
    by (auto simp: svg_attr_ok_def Let_def allowedSVGAttributes_def)
  have elem: "svg_token_ok lower (StartElement elem attrs) \<Longrightarrow>
      lower elem \<notin> {''script'', ''style'', ''image'', ''foreignobject'', ''animate'', ''set'', ''iframe''} \<and>
      (\<forall>a \<in> set attrs. svg_attr_ok lower a)" for lower
    by (auto simp: allowedSVGElements_def list_all_iff)
  have "validateSVGContent A data = None \<and> StartElement elem attrs \<in> set ?toks \<Longrightarrow>
      svg_token_ok (al_lower A) (StartElement elem attrs)"
    unfolding iff list_all_iff by blast
  then show ?thesis using iff elem attr by blast
qed

lemma svg_accept_exact_witness:
  "validateSVGContent \<lparr>al_sha = id, al_sniff = id,
       al_xml = (\<lambda>d. ([StartElement ''svg'' [\<lparr>xa_space = '''', xa_local = ''fill'', xa_value = ''url( #g )''\<rparr>],
                       StartElement ''svg'' []], True)),
       al_lower = to_lower, al_enc = (\<lambda>d. None), al_dec = (\<lambda>s. None), al_request_hash = (\<lambda>a b c. None)\<rparr> ''<svg/>'' = None \<and>
   \<not> has_prefix ''on'' ''fill''"
proof -
  let ?a = "\<lparr>xa_space = '''', xa_local = ''fill'', xa_value = ''url( #g )''\<rparr>"
  let ?A = "\<lparr>al_sha = id, al_sniff = id,
       al_xml = (\<lambda>d :: string. ([StartElement ''svg'' [?a], StartElement ''svg'' []], True)),
       al_lower = to_lower, al_enc = (\<lambda>d. None), al_dec = (\<lambda>s. None), al_request_hash = (\<lambda>a b c. None)\<rparr>"
  have "to_lower ''url( #g )'' = ''url( #g )''" by (simp add: to_lower_def to_lower_char_def)
  moreover have "url_target ''#g )'' = Some (''#g'', [])" by (simp add: url_target.simps re_space_def)
  ultimately have "svgURLFuncPattern ''url( #g )'' = [''#g'']"
    by (subst svgURLFuncPattern.simps) (simp add: re_space_def svgURLFuncPattern.simps [of "[]"])
  then have "svg_attr_ok to_lower ?a"
    by (simp add: svg_attr_ok_def to_lower_def to_lower_char_def allowedSVGAttributes_def go_str
        urlBearingSVGAttributes_def trim_quotes_def)
  moreover have "to_lower ''fill'' = ''fill''" "to_lower ''svg'' = ''svg''"
    by (simp_all add: to_lower_def to_lower_char_def)
  ultimately show ?thesis
    using svg_accept_exact [of ?A "''<svg/>''" "''svg''" "[?a]"] by (simp add: allowedSVGElements_def)
qed

end
