(* ===== verification/ChunkedUpload.thy ===== *)
theory ChunkedUpload
  imports Assets
begin

text \<open>
  Chunked uploads: \<open>internal/tools/write/chunked_upload_store.go\<close> and the handlers of
  \<open>chunked_upload_tools.go\<close>. The store lives in memory, the staged bytes in a file of the bundle
  directory. A write may stop after part of the data: the number of bytes that reached the file is an
  argument. The commit handler is two steps, up to the content lock and under it, between which
  other calls may run.
\<close>

section \<open>The store\<close>

record chunk_record =
  ch_length :: int
  ch_sha :: string

record upload_entry =
  ue_caller :: string
  ue_slug :: string
  ue_dir :: string
  ue_filename :: string
  ue_ext :: string
  ue_mime :: string
  ue_size :: int
  ue_expected_sha :: string
  ue_staging :: string
  ue_received :: int
  ue_chunks :: "(int, chunk_record) gomap"
  ue_created :: time
  ue_expires :: time

record upload_store =
  us_ttl :: duration
  us_entries :: "(string, upload_entry) gomap"

definition chunkedUploadTTL :: duration where "chunkedUploadTTL = 15 * minute"

definition newChunkedUploadStore :: "duration \<Rightarrow> upload_store" where
  "newChunkedUploadStore ttl = \<lparr>us_ttl = ttl, us_entries = []\<rparr>"

definition uploadStagingPrefix :: string where "uploadStagingPrefix = ''.upload-''"
definition uploadStagingSuffix :: string where "uploadStagingSuffix = ''.part''"

definition uploadStagingName :: "string \<Rightarrow> string" where
  "uploadStagingName uploadID = uploadStagingPrefix @ uploadID @ uploadStagingSuffix"

text \<open>\<open>random\<close> is the hexadecimal text of sixteen random bytes, \<open>None\<close> when the source fails.\<close>

definition newUploadID :: "string option \<Rightarrow> string go" where
  "newUploadID random = (case random of None \<Rightarrow> Inl ''rand'' | Some h \<Rightarrow> Inr (''upload_'' @ h))"

text \<open>\<open>stuck\<close> says which files cannot be removed; the error is ignored.\<close>

definition remove_file :: "(string \<Rightarrow> bool) \<Rightarrow> files \<Rightarrow> string \<Rightarrow> files" where
  "remove_file stuck fs p = (if stuck p then fs else gdel fs p)"

fun prune_files :: "(string \<Rightarrow> bool) \<Rightarrow> time \<Rightarrow> (string, upload_entry) gomap \<Rightarrow> files \<Rightarrow> files" where
  "prune_files stuck now [] fs = fs"
| "prune_files stuck now ((i, e) # es) fs =
     prune_files stuck now es (if ue_expires e < now then remove_file stuck fs (ue_staging e) else fs)"

definition pruneExpired ::
    "(string \<Rightarrow> bool) \<Rightarrow> time \<Rightarrow> upload_store \<times> files \<Rightarrow> upload_store \<times> files" where
  "pruneExpired stuck now sf =
     (case sf of (s, fs) \<Rightarrow>
        (s\<lparr>us_entries := gkeep (\<lambda>i e. \<not> ue_expires e < now) (us_entries s)\<rparr>,
         prune_files stuck now (us_entries s) fs))"

definition upload_begin ::
    "(string \<Rightarrow> bool) \<Rightarrow> string option \<Rightarrow> bool \<Rightarrow> time \<Rightarrow> upload_store \<times> files \<Rightarrow>
     string \<Rightarrow> string \<Rightarrow> string \<Rightarrow> string \<Rightarrow> string \<Rightarrow> string \<Rightarrow> string \<Rightarrow> int \<Rightarrow>
     (upload_store \<times> files) \<times> (string \<times> upload_entry) go" where
  "upload_begin stuck random create_fails now sf callerKey slug dir filename ext wantMIME expectedSha256 sizeBytes =
     (case newUploadID random of
        Inl e \<Rightarrow> (sf, Inl ''internal_error: failed to generate upload id'')
      | Inr i \<Rightarrow>
          (let stagingPath = path_join [dir, uploadStagingName i]
           in if create_fails \<or> gget (snd sf) stagingPath \<noteq> None
              then (sf, Inl ''write_error: failed to create upload staging file'')
              else
                (let entry = \<lparr>ue_caller = callerKey, ue_slug = slug, ue_dir = dir, ue_filename = filename,
                       ue_ext = ext, ue_mime = wantMIME, ue_size = sizeBytes,
                       ue_expected_sha = expectedSha256, ue_staging = stagingPath, ue_received = 0,
                       ue_chunks = [], ue_created = now, ue_expires = now + us_ttl (fst sf)\<rparr>;
                     (s, fs) = pruneExpired stuck now (fst sf, gput (snd sf) stagingPath [])
                 in ((s\<lparr>us_entries := gput (us_entries s) i entry\<rparr>, fs), Inr (i, entry)))))"

datatype chunk_result = ChunkAccepted | ChunkIdempotentReplay

text \<open>
  \<open>torn\<close> is \<open>None\<close> for a write that succeeds, and otherwise the number of bytes that reached the file
  before the write or the close reported an error.
\<close>

definition appendChunk ::
    "(string \<Rightarrow> string) \<Rightarrow> (string \<Rightarrow> bool) \<Rightarrow> bool \<Rightarrow> nat option \<Rightarrow> time \<Rightarrow> upload_store \<times> files \<Rightarrow>
     string \<Rightarrow> string \<Rightarrow> int \<Rightarrow> string \<Rightarrow> (upload_store \<times> files) \<times> (chunk_result \<times> int) go" where
  "appendChunk sha stuck open_fails torn now sf i callerKey offset data =
     (case pruneExpired stuck now sf of
        (s, fs) \<Rightarrow>
          (case gget (us_entries s) i of
             None \<Rightarrow> ((s, fs), Inl ''not_found: upload_id not found or expired'')
           | Some entry \<Rightarrow>
               if ue_caller entry \<noteq> callerKey
               then ((s, fs), Inl ''not_found: upload_id not found or expired'')
               else (case gget (ue_chunks entry) offset of
                 Some rec \<Rightarrow>
                   if ch_length rec = int (length data) \<and> ch_sha rec = sha data
                   then ((s, fs), Inr (ChunkIdempotentReplay, ue_received entry))
                   else ((s, fs), Inl ''chunk_conflict: a different chunk was already received at this offset'')
               | None \<Rightarrow>
                   if offset \<noteq> ue_received entry
                   then ((s, fs), Inl ''out_of_order: chunks must be uploaded strictly in order'')
                   else if ue_size entry < ue_received entry + int (length data)
                   then ((s, fs), Inl ''invalid_params: chunk would push received bytes past the declared size_bytes'')
                   else (case (open_fails, gget fs (ue_staging entry)) of
                     (False, Some staged) \<Rightarrow>
                       (case torn of
                          Some k \<Rightarrow>
                            ((s, gput fs (ue_staging entry) (staged @ take k data)),
                             Inl ''write_error: failed to write chunk to upload staging file'')
                        | None \<Rightarrow>
                            (let entry' = entry\<lparr>ue_chunks := gput (ue_chunks entry) offset
                                   \<lparr>ch_length = int (length data), ch_sha = sha data\<rparr>,
                                   ue_received := ue_received entry + int (length data)\<rparr>
                             in ((s\<lparr>us_entries := gput (us_entries s) i entry'\<rparr>,
                                  gput fs (ue_staging entry) (staged @ data)),
                                 Inr (ChunkAccepted, ue_received entry'))))
                   | _ \<Rightarrow> ((s, fs), Inl ''write_error: failed to open upload staging file'')))))"

definition upload_get ::
    "(string \<Rightarrow> bool) \<Rightarrow> time \<Rightarrow> upload_store \<times> files \<Rightarrow> string \<Rightarrow> string \<Rightarrow>
     (upload_store \<times> files) \<times> upload_entry option" where
  "upload_get stuck now sf i callerKey =
     (let sf' = pruneExpired stuck now sf
      in (sf', case gget (us_entries (fst sf')) i of
                 None \<Rightarrow> None
               | Some entry \<Rightarrow> if ue_caller entry \<noteq> callerKey then None else Some entry))"

definition upload_consume ::
    "(string \<Rightarrow> bool) \<Rightarrow> time \<Rightarrow> upload_store \<times> files \<Rightarrow> string \<Rightarrow> string \<Rightarrow>
     (upload_store \<times> files) \<times> upload_entry option" where
  "upload_consume stuck now sf i callerKey =
     (case upload_get stuck now sf i callerKey of
        (sf', None) \<Rightarrow> (sf', None)
      | ((s, fs), Some entry) \<Rightarrow> ((s\<lparr>us_entries := gdel (us_entries s) i\<rparr>, fs), Some entry))"

definition upload_abandon ::
    "(string \<Rightarrow> bool) \<Rightarrow> time \<Rightarrow> upload_store \<times> files \<Rightarrow> string \<Rightarrow> string \<Rightarrow> upload_store \<times> files" where
  "upload_abandon stuck now sf i callerKey =
     (case upload_get stuck now sf i callerKey of
        (sf', None) \<Rightarrow> sf'
      | ((s, fs), Some entry) \<Rightarrow>
          (s\<lparr>us_entries := gdel (us_entries s) i\<rparr>, remove_file stuck fs (ue_staging entry)))"

text \<open>
  The sweep at start-up, over the regular files below the content root; \<open>is_dir\<close> says that the root
  is a directory. The result counts the files removed.
\<close>

definition is_staging :: "string \<Rightarrow> string \<Rightarrow> bool" where
  "is_staging contentRoot p \<longleftrightarrow>
     has_prefix (path_clean contentRoot @ ''/'') p \<and>
     has_prefix uploadStagingPrefix (path_base p) \<and> has_suffix uploadStagingSuffix (path_base p)"

definition sweepOrphanedUploadStaging ::
    "(string \<Rightarrow> bool) \<Rightarrow> (string \<Rightarrow> bool) \<Rightarrow> string \<Rightarrow> files \<Rightarrow> files \<times> nat" where
  "sweepOrphanedUploadStaging stuck is_dir contentRoot0 fs =
     (let contentRoot = trim_space contentRoot0
      in if contentRoot = '''' \<or> \<not> is_dir contentRoot then (fs, 0)
         else (let fs' = gkeep (\<lambda>p c. \<not> is_staging contentRoot p \<or> stuck p) fs
               in (fs', length fs - length fs')))"

section \<open>The handlers\<close>

record upload_world = asset_world +
  uw_store :: upload_store

text \<open>The further faults of an upload call: see the operations of the store.\<close>

record upload_env = asset_env +
  uv_stuck :: "string \<Rightarrow> bool"
  uv_random :: "string option"
  uv_create_fails :: bool
  uv_open_fails :: bool
  uv_torn :: "nat option"
  uv_read_fails :: bool
  uv_rename_fails :: bool
  uv_later :: time

definition store_files :: "upload_world \<Rightarrow> upload_store \<times> files" where
  "store_files w = (uw_store w, aw_files w)"

definition with_store :: "upload_world \<Rightarrow> upload_store \<times> files \<Rightarrow> upload_world" where
  "with_store w sf = w\<lparr>aw_files := snd sf, uw_store := fst sf\<rparr>"

record begin_input =
  bi_slug :: string
  bi_filename :: string
  bi_size :: int
  bi_sha :: string

record begin_data =
  bd_upload :: string
  bd_slug :: string
  bd_source_key :: string
  bd_filename :: string
  bd_content_type :: string
  bd_next_offset :: int
  bd_expires :: time

definition beginAssetUpload ::
    "path_guard \<Rightarrow> upload_env \<Rightarrow> upload_world \<Rightarrow> begin_input \<Rightarrow> upload_world \<times> begin_data go" where
  "beginAssetUpload pg env w inp =
     (let slug = normalizeInputSlug (bi_slug inp)
      in if slug = '''' then (w, Inl ''invalid_params: slug must not be empty'')
         else (case validateAssetFilename (bi_filename inp) of
           Inl err \<Rightarrow> (w, Inl err)
         | Inr (filename, ext, wantMIME) \<Rightarrow>
           if bi_size inp \<le> 0 then (w, Inl ''invalid_params: size_bytes must be greater than 0'')
           else if int maxAssetBytes < bi_size inp
           then (w, Inl ''invalid_params: size_bytes exceeds the maximum allowed asset size'')
           else (case validateExpectedSha256 (bi_sha inp) of
             Inl err \<Rightarrow> (w, Inl err)
           | Inr expectedSha256 \<Rightarrow>
             (case validateBundleSlug (ae_page env) slug of
                Some err \<Rightarrow> (w, Inl err)
              | None \<Rightarrow>
                if \<not> ae_allow env then (w, Inl ''rate_limit_exceeded: begin_asset_upload'')
                else (case SafeJoin (ae_view env) pg slug of
                  Inl e \<Rightarrow> (w, Inl ''invalid_params: path validation failed'')
                | Inr dir \<Rightarrow>
                  if RevalidateForWrite (ae_view_write env) pg dir \<noteq> None
                  then (w, Inl ''security_error: symlink detected in write path'')
                  else (case upload_begin (uv_stuck env) (uv_random env) (uv_create_fails env) (ae_now env)
                               (store_files w) (isolationCallerKey (ae_ctx env)) slug dir filename ext wantMIME
                               expectedSha256 (bi_size inp) of
                      (sf, Inl err) \<Rightarrow> (with_store w sf, Inl err)
                    | (sf, Inr (i, entry)) \<Rightarrow>
                        (with_store w sf,
                         Inr \<lparr>bd_upload = i, bd_slug = canonicalPublicSlug slug, bd_source_key = slug,
                              bd_filename = filename, bd_content_type = wantMIME, bd_next_offset = 0,
                              bd_expires = ue_expires entry\<rparr>)))))))"

record chunk_input =
  ci_upload :: string
  ci_offset :: int
  ci_content :: string

record chunk_data =
  cd_upload :: string
  cd_received :: int
  cd_next_offset :: int
  cd_size :: int
  cd_complete :: bool
  cd_replayed :: bool

definition uploadAssetChunk ::
    "asset_lib \<Rightarrow> upload_env \<Rightarrow> upload_world \<Rightarrow> chunk_input \<Rightarrow> upload_world \<times> chunk_data go" where
  "uploadAssetChunk A env w inp =
     (let uploadID = trim_space (ci_upload inp);
          callerKey = isolationCallerKey (ae_ctx env)
      in if uploadID = '''' then (w, Inl ''invalid_params: upload_id must not be empty'')
         else if ci_offset inp < 0 then (w, Inl ''invalid_params: offset must not be negative'')
         else (case decodeAssetBase64 (ci_content inp) of
           Inl err \<Rightarrow> (w, Inl err)
         | Inr data \<Rightarrow>
           if data = [] then (w, Inl ''invalid_params: chunk content_base64 decodes to zero bytes'')
           else (case appendChunk (al_sha A) (uv_stuck env) (uv_open_fails env) (uv_torn env) (ae_now env)
                        (store_files w) uploadID callerKey (ci_offset inp) data of
             (sf, Inl err) \<Rightarrow> (with_store w sf, Inl err)
           | (sf, Inr (result, nextOffset)) \<Rightarrow>
             (case upload_get (uv_stuck env) (uv_later env) sf uploadID callerKey of
                (sf', entry) \<Rightarrow>
                  (let sizeBytes = (case entry of None \<Rightarrow> 0 | Some e \<Rightarrow> ue_size e)
                   in (with_store w sf',
                       Inr \<lparr>cd_upload = uploadID, cd_received = nextOffset, cd_next_offset = nextOffset,
                            cd_size = sizeBytes, cd_complete = (0 < sizeBytes \<and> nextOffset = sizeBytes),
                            cd_replayed = (result = ChunkIdempotentReplay)\<rparr>))))))"

record commit_input =
  co_upload :: string
  co_sha :: string
  co_key :: string
  co_change_set :: string
  co_dry_run :: bool

text \<open>What the handler has in its variables when it waits for the content lock.\<close>

record pending_commit =
  pc_upload :: string
  pc_entry :: upload_entry
  pc_data :: string
  pc_idem_hash :: string
  pc_key :: string
  pc_change_set :: string
  pc_dest :: string
  pc_ctx :: call_ctx
  pc_now :: time
  pc_path :: string

definition commit_data :: "asset_lib \<Rightarrow> upload_entry \<Rightarrow> string \<Rightarrow> string \<Rightarrow> string \<Rightarrow> bool \<Rightarrow> upload_data" where
  "commit_data A entry data path dup dry =
     \<lparr>ud_status = (if dry then ''would_create'' else ''created''), ud_slug = canonicalPublicSlug (ue_slug entry),
      ud_source_key = ue_slug entry, ud_filename = ue_filename entry, ud_path = path,
      ud_content_type = ue_mime entry, ud_size = length data, ud_sha = al_sha A data, ud_duplicate_of = dup,
      ud_dry_run = dry\<rparr>"

text \<open>The checks on the staged bytes; the flag says that the upload is abandoned.\<close>

definition commit_checks :: "asset_lib \<Rightarrow> upload_entry \<Rightarrow> string \<Rightarrow> string \<Rightarrow> (string \<times> bool) option" where
  "commit_checks A entry data expected0 =
     (case validateAssetBytes A data (ue_ext entry) (ue_mime entry) of
        Some err \<Rightarrow> Some (err, True)
      | None \<Rightarrow>
          if ue_expected_sha entry \<noteq> '''' \<and> ue_expected_sha entry \<noteq> al_sha A data
          then Some (''sha256_mismatch: does not match sha256 declared at begin_asset_upload'', True)
          else (case validateExpectedSha256 expected0 of
                  Inl err \<Rightarrow> Some (err, False)
                | Inr expected \<Rightarrow>
                    if expected \<noteq> '''' \<and> expected \<noteq> al_sha A data
                    then Some (''sha256_mismatch: does not match expected_sha256 of the commit'', True)
                    else None))"

datatype commit_stage = Answer upload_data | Waiting pending_commit

text \<open>From the replay of the key to the wait for the content lock.\<close>

definition commit_place ::
    "asset_lib \<Rightarrow> path_guard \<Rightarrow> asset_config \<Rightarrow> upload_env \<Rightarrow> upload_world \<Rightarrow> commit_input \<Rightarrow> bool \<Rightarrow>
     string \<Rightarrow> string \<Rightarrow> upload_entry \<Rightarrow> string \<Rightarrow> upload_world \<times> commit_stage go" where
  "commit_place A pg cfg env w inp dry uploadID cs entry data =
     (case asset_replay A env w ''commit_asset_upload'' (co_key inp) dry (ue_slug entry) (ue_filename entry)
             (al_sha A data) of
        (w1, Inl err) \<Rightarrow> (w1, Inl err)
      | (w1, Inr (idemHash, Some cached)) \<Rightarrow> (w1, Inr (Answer cached))
      | (w1, Inr (idemHash, None)) \<Rightarrow>
          (let path = LogicalContentPath (ac_content_root cfg) (path_join [ue_dir entry, ue_filename entry])
           in case SafeJoin (ae_view env) pg (path_join [ue_slug entry, ue_filename entry]) of
                Inl e \<Rightarrow> (w1, Inl ''invalid_params: path validation failed'')
              | Inr destPath \<Rightarrow>
                  (case stat_new env (aw_files w1) destPath of
                     Some err \<Rightarrow> (w1, Inl err)
                   | None \<Rightarrow>
                       if dry then (w1, Inr (Answer (commit_data A entry data path '''' True)))
                       else if \<not> ae_locked env
                       then (w1, Inl ''build_in_progress: content lock is held, retry in a moment'')
                       else (w1, Inr (Waiting \<lparr>pc_upload = uploadID, pc_entry = entry, pc_data = data,
                               pc_idem_hash = idemHash, pc_key = co_key inp, pc_change_set = cs,
                               pc_dest = destPath, pc_ctx = ae_ctx env, pc_now = ae_now env,
                               pc_path = path\<rparr>)))))"

definition commit_prepare ::
    "asset_lib \<Rightarrow> path_guard \<Rightarrow> asset_config \<Rightarrow> upload_env \<Rightarrow> upload_world \<Rightarrow> commit_input \<Rightarrow>
     upload_world \<times> commit_stage go" where
  "commit_prepare A pg cfg env w inp =
     (let dry = (ac_force_dry_run cfg \<or> co_dry_run inp);
          uploadID = trim_space (co_upload inp);
          isolationKey = isolationCallerKey (ae_ctx env)
      in if uploadID = '''' then (w, Inl ''invalid_params: upload_id must not be empty'')
         else (case validateIdempotencyKey (co_key inp) of
           Some err \<Rightarrow> (w, Inl err)
         | None \<Rightarrow>
           (case Resolve (ae_cs_read_fails env) (ae_cs_touch_fails env) (ae_ctx env) (aw_sets w)
                   (co_change_set inp) (ae_now env) of
              (r, Inl err) \<Rightarrow> (w\<lparr>aw_sets := r\<rparr>, Inl err)
            | (r, Inr cs) \<Rightarrow>
              (let w0 = w\<lparr>aw_sets := r\<rparr>
               in case upload_get (uv_stuck env) (ae_now env) (store_files w0) uploadID isolationKey of
                 (sf, None) \<Rightarrow> (with_store w0 sf, Inl ''not_found: upload_id not found or expired'')
               | (sf, Some entry) \<Rightarrow>
                 (let w = with_store w0 sf;
                      abandoned = with_store w
                        (upload_abandon (uv_stuck env) (ae_now env) (store_files w) uploadID isolationKey)
                  in if ue_received entry \<noteq> ue_size entry
                     then (w, Inl ''incomplete_upload: keep calling upload_asset_chunk before committing'')
                     else if \<not> dry \<and> \<not> ae_allow env
                     then (w, Inl ''rate_limit_exceeded: commit_asset_upload'')
                     else (case (uv_read_fails env, gget (aw_files w) (ue_staging entry)) of
                       (False, Some data) \<Rightarrow>
                         (case commit_checks A entry data (co_sha inp) of
                            Some (err, True) \<Rightarrow> (abandoned, Inl err)
                          | Some (err, False) \<Rightarrow> (w, Inl err)
                          | None \<Rightarrow> commit_place A pg cfg env w inp dry uploadID cs entry data)
                     | _ \<Rightarrow> (abandoned, Inl ''read_error: failed to read staged upload data'')))))))"

text \<open>Under the content lock.\<close>

definition commit_finish ::
    "asset_lib \<Rightarrow> path_guard \<Rightarrow> upload_env \<Rightarrow> upload_world \<Rightarrow> pending_commit \<Rightarrow> upload_world \<times> upload_data go" where
  "commit_finish A pg env w pc =
     (let entry = pc_entry pc; dest = pc_dest pc; isolationKey = isolationCallerKey (pc_ctx pc)
      in case validateBundleSlug (ae_page_locked env) (ue_slug entry) of
           Some err \<Rightarrow>
             (with_store w (upload_abandon (uv_stuck env) (pc_now pc) (store_files w) (pc_upload pc) isolationKey),
              Inl err)
         | None \<Rightarrow>
           if RevalidateForWrite (ae_view_write env) pg dest \<noteq> None
           then (w, Inl ''security_error: symlink detected in write path'')
           else (case stat_new env (aw_files w) dest of
             Some err \<Rightarrow> (w, Inl err)
           | None \<Rightarrow>
             (case (uv_rename_fails env, gget (aw_files w) (ue_staging entry)) of
                (False, Some staged) \<Rightarrow>
                  (let dup = findDuplicateAsset (al_sha A) (ae_ls env) (aw_files w) (ue_dir entry) (pc_data pc);
                       out = commit_data A entry (pc_data pc) (pc_path pc) dup False;
                       w1 = w\<lparr>aw_files := gput (gdel (aw_files w) (ue_staging entry)) dest staged\<rparr>;
                       w2 = with_store w1 (fst (upload_consume (uv_stuck env) (pc_now pc) (store_files w1)
                              (pc_upload pc) isolationKey))
                   in (asset_record A (env\<lparr>ae_ctx := pc_ctx pc\<rparr>) w2 ''commit_asset_upload'' (pc_key pc)
                         (pc_idem_hash pc) (pc_change_set pc) out, Inr out))
              | _ \<Rightarrow> (w, Inl ''write_error: failed to finalize asset''))))"

section \<open>Runs\<close>

text \<open>
  The calls of a run. Other tools remove any file and write files of visible names; a restart forgets
  the store and the waiting commits and sweeps the content root.
\<close>

datatype upload_call =
    UBegin upload_env begin_input
  | UChunk upload_env chunk_input
  | UPrepare upload_env commit_input
  | UFinish upload_env pending_commit
  | URemove string
  | UWrite string string
  | URestart "string \<Rightarrow> bool" "string \<Rightarrow> bool"

text \<open>
  The ledger of an upload: the chunks it accepted, whether one of its writes reported an error, and
  whether it was committed.
\<close>

record upload_ghost =
  gh_chunks :: "string list"
  gh_torn :: bool
  gh_done :: bool

type_synonym upload_ledger = "string \<Rightarrow> upload_ghost option"
type_synonym upload_state = "upload_world \<times> pending_commit list \<times> upload_ledger"

definition torn_error :: string where
  "torn_error = ''write_error: failed to write chunk to upload staging file''"

definition chunk_ledger ::
    "chunk_input \<Rightarrow> upload_ledger \<Rightarrow> chunk_data go \<Rightarrow> upload_ledger" where
  "chunk_ledger inp L res =
     (let i = trim_space (ci_upload inp)
      in case (L i, decodeAssetBase64 (ci_content inp), res) of
           (Some g, Inr data, Inr d) \<Rightarrow>
             if cd_replayed d then L else L(i \<mapsto> g\<lparr>gh_chunks := gh_chunks g @ [data]\<rparr>)
         | (Some g, Inr data, Inl err) \<Rightarrow> if err = torn_error then L(i \<mapsto> g\<lparr>gh_torn := True\<rparr>) else L
         | _ \<Rightarrow> L)"

fun upload_step ::
    "asset_lib \<Rightarrow> path_guard \<Rightarrow> asset_config \<Rightarrow> upload_state \<Rightarrow> upload_call \<Rightarrow> upload_state" where
  "upload_step A pg cfg (w, P, L) (UBegin env inp) =
     (case beginAssetUpload pg env w inp of
        (w', Inl err) \<Rightarrow> (w', P, L)
      | (w', Inr d) \<Rightarrow> (w', P, L(bd_upload d \<mapsto> \<lparr>gh_chunks = [], gh_torn = False, gh_done = False\<rparr>)))"
| "upload_step A pg cfg (w, P, L) (UChunk env inp) =
     (case uploadAssetChunk A env w inp of (w', res) \<Rightarrow> (w', P, chunk_ledger inp L res))"
| "upload_step A pg cfg (w, P, L) (UPrepare env inp) =
     (case commit_prepare A pg cfg env w inp of
        (w', Inr (Waiting pc)) \<Rightarrow> (w', pc # P, L)
      | (w', _) \<Rightarrow> (w', P, L))"
| "upload_step A pg cfg (w, P, L) (UFinish env pc) =
     (case commit_finish A pg env w pc of
        (w', Inl err) \<Rightarrow> (w', remove1 pc P, L)
      | (w', Inr out) \<Rightarrow>
          (w', remove1 pc P, L(pc_upload pc := map_option (\<lambda>g. g\<lparr>gh_done := True\<rparr>) (L (pc_upload pc)))))"
| "upload_step A pg cfg (w, P, L) (URemove p) = (w\<lparr>aw_files := gdel (aw_files w) p\<rparr>, P, L)"
| "upload_step A pg cfg (w, P, L) (UWrite p c) = (w\<lparr>aw_files := gput (aw_files w) p c\<rparr>, P, L)"
| "upload_step A pg cfg (w, P, L) (URestart stuck is_dir) =
     (w\<lparr>aw_files := fst (sweepOrphanedUploadStaging stuck is_dir (ac_content_root cfg) (aw_files w)),
        uw_store := newChunkedUploadStore chunkedUploadTTL\<rparr>, [], L)"

definition hidden_path :: "string \<Rightarrow> bool" where
  "hidden_path p \<longleftrightarrow> clean_segs p \<noteq> [] \<and> has_prefix ''.'' (last (clean_segs p))"

text \<open>
  Sixteen random bytes do not repeat and are written in hexadecimal; a commit finishes once; no other
  tool writes a file with a hidden name.
\<close>

fun upload_allowed :: "upload_state \<Rightarrow> upload_call \<Rightarrow> bool" where
  "upload_allowed (w, P, L) (UBegin env inp) \<longleftrightarrow>
     (\<forall>h. uv_random env = Some h \<longrightarrow> L (''upload_'' @ h) = None \<and> CHR ''/'' \<notin> set h)"
| "upload_allowed (w, P, L) (UFinish env pc) \<longleftrightarrow> pc \<in> set P"
| "upload_allowed (w, P, L) (UWrite p c) \<longleftrightarrow> \<not> hidden_path p"
| "upload_allowed (w, P, L) c \<longleftrightarrow> True"

inductive upload_run :: "asset_lib \<Rightarrow> path_guard \<Rightarrow> asset_config \<Rightarrow> upload_state \<Rightarrow> bool"
  for A pg cfg where
  upload_start: "us_entries (uw_store w) = [] \<Longrightarrow> us_ttl (uw_store w) = chunkedUploadTTL \<Longrightarrow>
    upload_run A pg cfg (w, [], \<lambda>i. None)"
| upload_next: "upload_run A pg cfg st \<Longrightarrow> upload_allowed st c \<Longrightarrow>
    upload_run A pg cfg (upload_step A pg cfg st c)"

section \<open>The invariant\<close>

definition entry_static :: "path_guard \<Rightarrow> string \<Rightarrow> upload_entry \<Rightarrow> bool" where
  "entry_static pg i e \<longleftrightarrow>
     plain_seg (uploadStagingName i) \<and> ue_staging e = path_join [ue_dir e, uploadStagingName i] \<and>
     (\<exists>v. SafeJoin v pg (ue_slug e) = Inr (ue_dir e)) \<and> ue_slug e \<noteq> '''' \<and>
     0 < ue_size e \<and> ue_size e \<le> int maxAssetBytes \<and> visible_seg (ue_filename e) \<and>
     gget allowedAssetTypes (ue_ext e) = Some (ue_mime e)"

text \<open>The chunk map is the list of accepted chunks by their offsets.\<close>

fun chunk_map :: "(string \<Rightarrow> string) \<Rightarrow> nat \<Rightarrow> string list \<Rightarrow> int \<Rightarrow> chunk_record option" where
  "chunk_map sha n [] = (\<lambda>off. None)"
| "chunk_map sha n (c # cs) =
     (chunk_map sha (n + length c) cs)(int n \<mapsto> \<lparr>ch_length = int (length c), ch_sha = sha c\<rparr>)"

definition entry_live :: "asset_lib \<Rightarrow> upload_ledger \<Rightarrow> files \<Rightarrow> string \<Rightarrow> upload_entry \<Rightarrow> bool" where
  "entry_live A L fs i e \<longleftrightarrow>
     (\<exists>g. L i = Some g \<and> \<not> gh_done g \<and> [] \<notin> set (gh_chunks g) \<and>
        ue_received e = int (length (concat (gh_chunks g))) \<and> ue_received e \<le> ue_size e \<and>
        gget (ue_chunks e) = chunk_map (al_sha A) 0 (gh_chunks g) \<and>
        (\<forall>c. \<not> gh_torn g \<longrightarrow> gget fs (ue_staging e) = Some c \<longrightarrow> c = concat (gh_chunks g)))"

definition store_inv :: "asset_lib \<Rightarrow> path_guard \<Rightarrow> upload_ledger \<Rightarrow> upload_store \<times> files \<Rightarrow> bool" where
  "store_inv A pg L sf \<longleftrightarrow> wf_map (us_entries (fst sf)) \<and>
     (\<forall>i e. gget (us_entries (fst sf)) i = Some e \<longrightarrow> entry_static pg i e \<and> entry_live A L (snd sf) i e)"

definition pend_inv ::
    "asset_lib \<Rightarrow> path_guard \<Rightarrow> upload_ledger \<Rightarrow> upload_store \<times> files \<Rightarrow> pending_commit \<Rightarrow> bool" where
  "pend_inv A pg L sf pc \<longleftrightarrow>
     (let i = pc_upload pc; e = pc_entry pc; data = pc_data pc
      in entry_static pg i e \<and> pc_dest pc = path_join [ue_dir e, ue_filename e] \<and> \<not> hidden_path (path_join [ue_dir e, ue_filename e]) \<and>
         validateAssetBytes A data (ue_ext e) (ue_mime e) = None \<and>
         (ue_expected_sha e \<noteq> '''' \<longrightarrow> ue_expected_sha e = al_sha A data) \<and>
         (\<exists>g. L i = Some g \<and> (\<not> gh_torn g \<longrightarrow> data = concat (gh_chunks g) \<and> int (length data) = ue_size e)) \<and>
         (\<forall>c. gget (snd sf) (ue_staging e) = Some c \<longrightarrow> c = data) \<and>
         (\<forall>e'. gget (us_entries (fst sf)) i = Some e' \<longrightarrow>
            ue_received e' = ue_size e' \<and> ue_caller e' = isolationCallerKey (pc_ctx pc)))"

lemma staging_hidden:
  assumes "entry_static pg i e" "clean_root (pg_root pg)"
  shows "hidden_path (ue_staging e)" "last (clean_segs (ue_staging e)) = uploadStagingName i"
proof -
  obtain v where "SafeJoin v pg (ue_slug e) = Inr (ue_dir e)" using assms(1) by (auto simp: entry_static_def)
  from safe_join_below(5) [OF this assms(2)] have "ue_dir e \<noteq> ''''" .
  with assms(1) have "clean_segs (ue_staging e) = clean_segs (ue_dir e) @ [uploadStagingName i]"
    by (simp add: entry_static_def path_join2(1))
  then show "hidden_path (ue_staging e)" "last (clean_segs (ue_staging e)) = uploadStagingName i"
    by (simp_all add: hidden_path_def uploadStagingName_def uploadStagingPrefix_def)
qed

lemma staging_inj:
  assumes "entry_static pg i e" "entry_static pg j f" "clean_root (pg_root pg)" "ue_staging e = ue_staging f"
  shows "i = j"
  using staging_hidden(2) [OF assms(1,3)] staging_hidden(2) [OF assms(2,3)] assms(4)
  by (simp add: uploadStagingName_def)

text \<open>Operations that only forget entries and hidden files keep both invariants.\<close>

definition shrinks :: "upload_store \<times> files \<Rightarrow> upload_store \<times> files \<Rightarrow> bool" where
  "shrinks sf sf' \<longleftrightarrow> (wf_map (us_entries (fst sf)) \<longrightarrow> wf_map (us_entries (fst sf')) \<and>
       (\<forall>i e. gget (us_entries (fst sf')) i = Some e \<longrightarrow> gget (us_entries (fst sf)) i = Some e)) \<and>
     (\<forall>p c. hidden_path p \<longrightarrow> gget (snd sf') p = Some c \<longrightarrow> gget (snd sf) p = Some c) \<and>
     us_ttl (fst sf') = us_ttl (fst sf)"

lemma shrinks_refl [simp]: "shrinks sf sf"
  by (simp add: shrinks_def)

lemma shrinks_trans: "shrinks a b \<Longrightarrow> shrinks b c \<Longrightarrow> shrinks a c"
  unfolding shrinks_def by metis

lemma store_inv_shrinks:
  assumes "store_inv A pg L sf" "shrinks sf sf'" "clean_root (pg_root pg)"
  shows "store_inv A pg L sf'"
proof -
  have sub: "wf_map (us_entries (fst sf'))" "\<And>i e. gget (us_entries (fst sf')) i = Some e \<Longrightarrow> gget (us_entries (fst sf)) i = Some e"
    "\<And>p c. hidden_path p \<Longrightarrow> gget (snd sf') p = Some c \<Longrightarrow> gget (snd sf) p = Some c"
    using assms(1,2) unfolding shrinks_def store_inv_def by blast+
  have "entry_live A L (snd sf') i e" if "entry_static pg i e" "entry_live A L (snd sf) i e" for i e
    using that(2) sub(3) [OF staging_hidden(1) [OF that(1) assms(3)]] unfolding entry_live_def by blast
  with sub(1,2) assms(1) show ?thesis unfolding store_inv_def by blast
qed

lemma pend_inv_shrinks:
  assumes "pend_inv A pg L sf pc" "store_inv A pg L sf" "shrinks sf sf'" "clean_root (pg_root pg)"
  shows "pend_inv A pg L sf' pc"
proof -
  have sub: "\<And>i e. gget (us_entries (fst sf')) i = Some e \<Longrightarrow> gget (us_entries (fst sf)) i = Some e"
    "\<And>p c. hidden_path p \<Longrightarrow> gget (snd sf') p = Some c \<Longrightarrow> gget (snd sf) p = Some c"
    using assms(2,3) unfolding shrinks_def store_inv_def by blast+
  have "hidden_path (ue_staging (pc_entry pc))"
    using assms(1,4) staging_hidden(1) by (auto simp: pend_inv_def Let_def)
  with sub assms(1) show ?thesis unfolding pend_inv_def Let_def by blast
qed

lemma remove_file_sub: "gget (remove_file stuck fs p) q = Some c \<Longrightarrow> gget fs q = Some c"
  by (auto simp: remove_file_def split: if_splits)

lemma prune_files_sub: "gget (prune_files stuck now es fs) q = Some c \<Longrightarrow> gget fs q = Some c"
  by (induction stuck now es fs rule: prune_files.induct) (auto dest: remove_file_sub split: if_splits)

lemma prune_shrinks [simp]: "shrinks sf (pruneExpired stuck now sf)"
  by (auto simp: shrinks_def pruneExpired_def gget_keep_Some split: prod.splits dest: prune_files_sub)

lemma get_shrinks: "upload_get stuck now sf i c = (sf', r) \<Longrightarrow> shrinks sf sf'"
  by (auto simp: upload_get_def Let_def)

lemma drop_entry_shrinks: "shrinks (s, fs) (s\<lparr>us_entries := gdel (us_entries s) i\<rparr>, remove_file stuck fs p)"
  by (auto simp: shrinks_def dest: remove_file_sub split: if_splits)

lemma drop_entry_shrinks': "shrinks (s, fs) (s\<lparr>us_entries := gdel (us_entries s) i\<rparr>, fs)"
  by (auto simp: shrinks_def split: if_splits)

lemma abandon_shrinks [simp]: "shrinks sf (upload_abandon stuck now sf i c)"
  unfolding upload_abandon_def
  by (auto split: prod.splits option.splits dest!: get_shrinks intro: shrinks_trans drop_entry_shrinks)

lemma consume_shrinks: "shrinks sf (fst (upload_consume stuck now sf i c))"
  unfolding upload_consume_def
  by (auto split: prod.splits option.splits dest!: get_shrinks intro: shrinks_trans drop_entry_shrinks')

lemma get_entry:
  assumes "upload_get stuck now sf i c = (sf', Some e)"
  shows "gget (us_entries (fst sf')) i = Some e" "ue_caller e = c" "sf' = pruneExpired stuck now sf"
  using assms by (auto simp: upload_get_def Let_def split: option.splits if_splits)

lemma store_files_with [simp]: "store_files (with_store w sf) = sf" "aw_files (with_store w sf) = snd sf"
  "uw_store (with_store w sf) = fst sf"
  by (simp_all add: store_files_def with_store_def)

lemma store_files_sets [simp]: "store_files (w\<lparr>aw_sets := r\<rparr>) = store_files w"
  "store_files (w\<lparr>aw_idem := im\<rparr>) = store_files w"
  by (simp_all add: store_files_def)

lemma asset_replay_same:
  "asset_replay A env w tool key dry slug filename hash = (w', r) \<Longrightarrow> store_files w' = store_files w"
  by (auto simp: asset_replay_def split: if_splits option.splits prod.splits)

lemma asset_record_same [simp]: "store_files (asset_record A env w tool key h cs out) = store_files w"
  by (simp add: asset_record_def Let_def)

lemma store_files_snd: "aw_files w = snd (store_files w)"
  by (simp add: store_files_def)

section \<open>A chunk\<close>

lemma chunk_map_snoc:
  "chunk_map sha n (cs @ [c]) =
     (chunk_map sha n cs)(int (n + length (concat cs)) \<mapsto> \<lparr>ch_length = int (length c), ch_sha = sha c\<rparr>)"
  if "[] \<notin> set cs"
  using that
proof (induction cs arbitrary: n)
  case (Cons d cs)
  then obtain x d' where "d = x # d'" by (cases d) auto
  with Cons show ?case by (auto simp: fun_eq_iff add.assoc)
qed simp

text \<open>
  The outcome of an append, in terms of the store after the expired entries are gone: nothing else
  changes, or part of the data is staged and an error reported, or the chunk is accepted.
\<close>

lemma append_cases:
  assumes "appendChunk sha stuck open_fails torn now sf i c off data = (sf', res)"
  obtains (same) "sf' = pruneExpired stuck now sf" "res \<noteq> Inl torn_error"
      "\<forall>n. res \<noteq> Inr (ChunkAccepted, n)"
  | (torn) s fs e k staged where "pruneExpired stuck now sf = (s, fs)" "gget (us_entries s) i = Some e"
      "ue_caller e = c" "ue_received e + int (length data) \<le> ue_size e" "torn = Some k"
      "gget fs (ue_staging e) = Some staged" "gget (ue_chunks e) off = None" "off = ue_received e"
      "sf' = (s, gput fs (ue_staging e) (staged @ take k data))" "res = Inl torn_error"
  | (accepted) s fs e staged where "pruneExpired stuck now sf = (s, fs)" "gget (us_entries s) i = Some e"
      "ue_caller e = c" "ue_received e + int (length data) \<le> ue_size e" "torn = None"
      "gget fs (ue_staging e) = Some staged" "gget (ue_chunks e) off = None" "off = ue_received e"
      "sf' = (s\<lparr>us_entries := gput (us_entries s) i (e\<lparr>ue_chunks := gput (ue_chunks e) off
                \<lparr>ch_length = int (length data), ch_sha = sha data\<rparr>,
                ue_received := ue_received e + int (length data)\<rparr>)\<rparr>,
              gput fs (ue_staging e) (staged @ data))"
      "res = Inr (ChunkAccepted, ue_received e + int (length data))"
proof -
  obtain s fs where p: "pruneExpired stuck now sf = (s, fs)" by fastforce
  show ?thesis
  proof (cases "gget (us_entries s) i")
    case None
    then show ?thesis using assms p same by (auto simp: appendChunk_def torn_error_def)
  next
    case (Some e)
    note d = appendChunk_def torn_error_def p Some
    show ?thesis
    proof (cases "ue_caller e = c \<and> gget (ue_chunks e) off = None \<and> off = ue_received e \<and>
        ue_received e + int (length data) \<le> ue_size e \<and> \<not> open_fails \<and> gget fs (ue_staging e) \<noteq> None")
      case False
      then show ?thesis using assms same by (auto simp: d split: if_splits option.splits bool.splits)
    next
      case True
      then obtain staged where st: "gget fs (ue_staging e) = Some staged" by blast
      show ?thesis
      proof (cases torn)
        case None
        then show ?thesis using assms True st accepted [OF p Some] by (auto simp: d Let_def)
      next
        case (Some k)
        then show ?thesis using assms True st torn [OF p \<open>gget (us_entries s) i = Some e\<close>]
          by (auto simp: d Let_def)
      qed
    qed
  qed
qed

lemma store_inv_put:
  assumes inv: "store_inv A pg L (s, fs)" and root: "clean_root (pg_root pg)"
    and st: "entry_static pg i e" and live: "entry_live A (L(i \<mapsto> g)) fs' i e"
    and fs': "\<And>p. p \<noteq> ue_staging e \<Longrightarrow> gget fs' p = gget fs p"
  shows "store_inv A pg (L(i \<mapsto> g)) (s\<lparr>us_entries := gput (us_entries s) i e\<rparr>, fs')"
proof -
  have "entry_static pg j f \<and> entry_live A (L(i \<mapsto> g)) fs' j f"
    if "gget (us_entries s) j = Some f" "j \<noteq> i" for j f
  proof -
    have f: "entry_static pg j f" "entry_live A L fs j f" using inv that(1) by (auto simp: store_inv_def)
    have "ue_staging f \<noteq> ue_staging e" using staging_inj [OF f(1) st root] that(2) by blast
    then show ?thesis using f fs' that(2) by (simp add: entry_live_def)
  qed
  then show ?thesis using inv st live by (auto simp: store_inv_def)
qed

lemma pend_inv_put:
  assumes inv: "pend_inv A pg L (s, fs) pc" and root: "clean_root (pg_root pg)"
    and st: "entry_static pg i e" and other: "i \<noteq> pc_upload pc"
    and fs': "\<And>p. p \<noteq> ue_staging e \<Longrightarrow> gget fs' p = gget fs p"
  shows "pend_inv A pg (L(i \<mapsto> g)) (s\<lparr>us_entries := gput (us_entries s) i e\<rparr>, fs') pc"
proof -
  have "entry_static pg (pc_upload pc) (pc_entry pc)" using inv by (simp add: pend_inv_def Let_def)
  then have "ue_staging (pc_entry pc) \<noteq> ue_staging e" using staging_inj [OF _ st root] other by metis
  then show ?thesis using inv fs' other by (simp add: pend_inv_def Let_def)
qed

lemma entry_live_get: "entry_live A L fs i e \<Longrightarrow> \<exists>g. L i = Some g"
  by (auto simp: entry_live_def)

lemma store_invD:
  "store_inv A pg L sf \<Longrightarrow> gget (us_entries (fst sf)) i = Some e \<Longrightarrow> entry_static pg i e \<and> entry_live A L (snd sf) i e"
  by (simp add: store_inv_def)

lemma append_inv:
  assumes inv: "store_inv A pg L sf" "\<And>pc. pc \<in> set P \<Longrightarrow> pend_inv A pg L sf pc"
    and root: "clean_root (pg_root pg)" and data: "data \<noteq> []"
    and a: "appendChunk (al_sha A) stuck open_fails torn now sf i c off data = (sf', res)"
  shows "\<exists>L'. store_inv A pg L' sf' \<and> (\<forall>pc \<in> set P. pend_inv A pg L' sf' pc) \<and> us_ttl (fst sf') = us_ttl (fst sf) \<and>
      (case res of
         Inl err \<Rightarrow> if err = torn_error then (\<exists>g. L i = Some g \<and> L' = L(i \<mapsto> g\<lparr>gh_torn := True\<rparr>)) else L' = L
       | Inr (ChunkAccepted, n) \<Rightarrow> (\<exists>g. L i = Some g \<and> L' = L(i \<mapsto> g\<lparr>gh_chunks := gh_chunks g @ [data]\<rparr>))
       | Inr (ChunkIdempotentReplay, n) \<Rightarrow> L' = L)"
proof -
  let ?sf1 = "pruneExpired stuck now sf"
  have inv1: "store_inv A pg L ?sf1" "\<And>pc. pc \<in> set P \<Longrightarrow> pend_inv A pg L ?sf1 pc"
    using store_inv_shrinks [OF inv(1) prune_shrinks root] pend_inv_shrinks [OF _ inv(1) prune_shrinks root] inv(2)
    by blast+
  have ttl: "us_ttl (fst ?sf1) = us_ttl (fst sf)" by (simp add: pruneExpired_def case_prod_beta)
  from a show ?thesis
  proof (cases rule: append_cases)
    case same
    then show ?thesis using inv1 ttl
      by (intro exI [of _ L]) (auto split: sum.split prod.split chunk_result.split)
  next
    case (torn s fs e k staged)
    have e: "entry_static pg i e" "entry_live A L fs i e"
      using inv1(1) torn(1,2) by (auto simp: store_inv_def)
    then obtain g where g: "L i = Some g" using entry_live_get by blast
    let ?L = "L(i \<mapsto> g\<lparr>gh_torn := True\<rparr>)" and ?fs = "gput fs (ue_staging e) (staged @ take k data)"
    have live: "entry_live A ?L ?fs i e" using e(2) g by (auto simp: entry_live_def)
    have "store_inv A pg ?L (s, ?fs)"
    proof -
      have "entry_static pg j f \<and> entry_live A ?L ?fs j f" if j: "gget (us_entries s) j = Some f" for j f
      proof (cases "j = i")
        case True
        then show ?thesis using j torn(2) e(1) live by simp
      next
        case False
        have f: "entry_static pg j f" "entry_live A L fs j f"
          using inv1(1) torn(1) j by (auto simp: store_inv_def)
        have "ue_staging f \<noteq> ue_staging e" using staging_inj [OF f(1) e(1) root] False by blast
        then show ?thesis using f False by (simp add: entry_live_def)
      qed
      then show ?thesis using inv1(1) torn(1) by (simp add: store_inv_def)
    qed
    moreover have "pend_inv A pg ?L (s, ?fs) pc" if pc: "pc \<in> set P" for pc
    proof -
      have p: "pend_inv A pg L (s, fs) pc" using inv1(2) [OF pc] torn(1) by simp
      have ne: "i \<noteq> pc_upload pc"
        using p torn(2,4) data by (auto simp: pend_inv_def Let_def)
      have "ue_staging (pc_entry pc) \<noteq> ue_staging e"
        using staging_inj [OF _ e(1) root] p ne by (auto simp: pend_inv_def Let_def)
      then show ?thesis using p ne by (simp add: pend_inv_def Let_def)
    qed
    ultimately show ?thesis using torn(9,10) g ttl torn(1) by (intro exI [of _ ?L]) simp
  next
    case (accepted s fs e staged)
    have e: "entry_static pg i e" "entry_live A L fs i e"
      using inv1(1) accepted(1,2) by (auto simp: store_inv_def)
    then obtain g where g: "L i = Some g" "\<not> gh_done g" "[] \<notin> set (gh_chunks g)"
        "ue_received e = int (length (concat (gh_chunks g)))"
        "gget (ue_chunks e) = chunk_map (al_sha A) 0 (gh_chunks g)"
        "\<forall>c. \<not> gh_torn g \<longrightarrow> gget fs (ue_staging e) = Some c \<longrightarrow> c = concat (gh_chunks g)"
      unfolding entry_live_def by blast
    let ?g = "g\<lparr>gh_chunks := gh_chunks g @ [data]\<rparr>"
    let ?L = "L(i \<mapsto> ?g)" and ?fs = "gput fs (ue_staging e) (staged @ data)"
    let ?e = "e\<lparr>ue_chunks := gput (ue_chunks e) off \<lparr>ch_length = int (length data), ch_sha = al_sha A data\<rparr>,
                ue_received := ue_received e + int (length data)\<rparr>"
    have live: "entry_live A ?L ?fs i ?e"
      using g accepted(4,6,8) data chunk_map_snoc [OF g(3), of "al_sha A" 0 data]
      by (auto simp: entry_live_def fun_eq_iff)
    have static: "entry_static pg i ?e" using e(1) by (simp add: entry_static_def)
    have fs: "p \<noteq> ue_staging ?e \<Longrightarrow> gget ?fs p = gget fs p" for p by simp
    have "store_inv A pg ?L (s\<lparr>us_entries := gput (us_entries s) i ?e\<rparr>, ?fs)"
      by (rule store_inv_put [OF _ root static live fs]) (use inv1(1) accepted(1) in simp)
    moreover have "pend_inv A pg ?L (s\<lparr>us_entries := gput (us_entries s) i ?e\<rparr>, ?fs) pc" if pc: "pc \<in> set P" for pc
    proof -
      have p: "pend_inv A pg L (s, fs) pc" using inv1(2) [OF pc] accepted(1) by simp
      have "i \<noteq> pc_upload pc" using p accepted(2,4) data by (auto simp: pend_inv_def Let_def)
      from pend_inv_put [OF p root static this fs] show ?thesis .
    qed
    ultimately show ?thesis using accepted(9,10) g(1) ttl accepted(1) by (intro exI [of _ ?L]) simp
  qed
qed

section \<open>Begin, prepare, finish\<close>

lemma begin_inv:
  assumes inv: "store_inv A pg L sf" "\<And>pc. pc \<in> set P \<Longrightarrow> pend_inv A pg L sf pc"
    and root: "clean_root (pg_root pg)"
    and fresh: "\<And>h. random = Some h \<Longrightarrow> L (''upload_'' @ h) = None \<and> CHR ''/'' \<notin> set h"
    and static: "SafeJoin v pg slug = Inr dir" "slug \<noteq> ''''" "0 < n" "n \<le> int maxAssetBytes"
      "visible_seg filename" "gget allowedAssetTypes ext = Some mime"
    and b: "upload_begin stuck random fails now sf c slug dir filename ext mime sha n = (sf', Inr (i, entry))"
  shows "store_inv A pg (L(i \<mapsto> \<lparr>gh_chunks = [], gh_torn = False, gh_done = False\<rparr>)) sf' \<and>
    (\<forall>pc \<in> set P. pend_inv A pg (L(i \<mapsto> \<lparr>gh_chunks = [], gh_torn = False, gh_done = False\<rparr>)) sf' pc) \<and>
    us_ttl (fst sf') = us_ttl (fst sf)"
proof -
  obtain s fs where sf: "sf = (s, fs)" by fastforce
  let ?g = "\<lparr>gh_chunks = [], gh_torn = False, gh_done = False\<rparr>"
  let ?st = "path_join [dir, uploadStagingName i]"
  let ?sf1 = "(s, gput fs ?st [])"
  obtain h where h: "random = Some h" "i = ''upload_'' @ h" and none: "gget fs ?st = None"
    and entry: "entry = \<lparr>ue_caller = c, ue_slug = slug, ue_dir = dir, ue_filename = filename,
       ue_ext = ext, ue_mime = mime, ue_size = n, ue_expected_sha = sha, ue_staging = ?st, ue_received = 0,
       ue_chunks = [], ue_created = now, ue_expires = now + us_ttl s\<rparr>"
    and sf': "sf' = (fst (pruneExpired stuck now ?sf1)\<lparr>us_entries :=
        gput (us_entries (fst (pruneExpired stuck now ?sf1))) i entry\<rparr>, snd (pruneExpired stuck now ?sf1))"
    using b sf by (auto simp: upload_begin_def newUploadID_def Let_def case_prod_beta split: option.splits if_splits)
  have L: "L i = None" "CHR ''/'' \<notin> set i" using fresh h by auto
  then have st: "entry_static pg i entry"
    using static by (auto simp: entry entry_static_def plain_seg_def uploadStagingName_def
        uploadStagingPrefix_def uploadStagingSuffix_def)
  have no_entry: "gget (us_entries s) i = None"
    using store_invD [OF inv(1)] L(1) entry_live_get by (cases "gget (us_entries s) i") (fastforce simp: sf)+
  have other: "ue_staging f \<noteq> ?st" if "entry_static pg j f" "j \<noteq> i" for j f
    using staging_inj [OF that(1) st root] that(2) by (auto simp: entry)
  have "entry_static pg j f \<and> entry_live A (L(i \<mapsto> ?g)) (gput fs ?st []) j f"
    if "gget (us_entries s) j = Some f" for j f
  proof -
    have "entry_static pg j f" "entry_live A L fs j f" "j \<noteq> i" using inv(1) that no_entry by (auto simp: sf store_inv_def)
    then show ?thesis using other by (simp add: entry_live_def)
  qed
  then have s1: "store_inv A pg (L(i \<mapsto> ?g)) ?sf1" using inv(1) by (simp add: sf store_inv_def)
  have p1: "pend_inv A pg (L(i \<mapsto> ?g)) ?sf1 pc \<and> pc_upload pc \<noteq> i" if "pc \<in> set P" for pc
  proof -
    have p: "pend_inv A pg L sf pc" by (rule inv(2) [OF that])
    then have ne: "pc_upload pc \<noteq> i" using L(1) by (auto simp: pend_inv_def Let_def)
    moreover have "ue_staging (pc_entry pc) \<noteq> ?st" using p ne other by (auto simp: pend_inv_def Let_def)
    ultimately show ?thesis using p by (simp add: sf pend_inv_def Let_def)
  qed
  let ?sf2 = "pruneExpired stuck now ?sf1"
  note s2 = store_inv_shrinks [OF s1 prune_shrinks root, of stuck now]
  have p2: "pend_inv A pg (L(i \<mapsto> ?g)) ?sf2 pc" if "pc \<in> set P" for pc
    using pend_inv_shrinks [OF _ s1 prune_shrinks root] p1 that by blast
  have "gget (snd ?sf2) ?st = Some x \<Longrightarrow> x = []" for x
    by (auto simp: pruneExpired_def dest: prune_files_sub)
  then have live: "entry_live A ((L(i \<mapsto> ?g))(i \<mapsto> ?g)) (snd ?sf2) i entry"
    using static(3) by (simp add: entry entry_live_def)
  have "store_inv A pg ((L(i \<mapsto> ?g))(i \<mapsto> ?g)) sf'"
    unfolding sf' by (rule store_inv_put [OF _ root st live]) (use s2 in \<open>simp_all add: case_prod_beta\<close>)
  moreover have "pend_inv A pg ((L(i \<mapsto> ?g))(i \<mapsto> ?g)) sf' pc" if "pc \<in> set P" for pc
    unfolding sf' by (rule pend_inv_put [OF _ root st]) (use p2 p1 that in \<open>auto simp: case_prod_beta\<close>)
  moreover have "us_ttl (fst sf') = us_ttl (fst sf)"
    by (simp add: sf' sf pruneExpired_def)
  ultimately show ?thesis by simp
qed

lemma place_cases:
  assumes "commit_place A pg cfg env w inp dry i cs e data = (w', r)"
  shows "store_files w' = store_files w"
    and "r = Inr (Waiting pc) \<Longrightarrow> pc_upload pc = i \<and> pc_entry pc = e \<and> pc_data pc = data \<and> pc_ctx pc = ae_ctx env \<and>
           SafeJoin (ae_view env) pg (path_join [ue_slug e, ue_filename e]) = Inr (pc_dest pc)"
  using assms
  by (auto simp: commit_place_def Let_def dest: asset_replay_same
      split: prod.splits sum.splits option.splits if_splits)

lemma prepare_cases:
  assumes p: "commit_prepare A pg cfg env w inp = (w', r)"
  shows "shrinks (store_files w) (store_files w')"
    and "r = Inr (Waiting pc) \<Longrightarrow>
      gget (us_entries (uw_store w')) (pc_upload pc) = Some (pc_entry pc) \<and>
      ue_received (pc_entry pc) = ue_size (pc_entry pc) \<and> ue_caller (pc_entry pc) = isolationCallerKey (pc_ctx pc) \<and>
      gget (aw_files w') (ue_staging (pc_entry pc)) = Some (pc_data pc) \<and>
      commit_checks A (pc_entry pc) (pc_data pc) (co_sha inp) = None \<and>
      SafeJoin (ae_view env) pg (path_join [ue_slug (pc_entry pc), ue_filename (pc_entry pc)]) = Inr (pc_dest pc)"
proof -
  let ?i = "trim_space (co_upload inp)" and ?c = "isolationCallerKey (ae_ctx env)"
  obtain rr cs0 where res: "Resolve (ae_cs_read_fails env) (ae_cs_touch_fails env) (ae_ctx env) (aw_sets w)
      (co_change_set inp) (ae_now env) = (rr, cs0)" by fastforce
  let ?w0 = "w\<lparr>aw_sets := rr\<rparr>"
  obtain sf ent where g: "upload_get (uv_stuck env) (ae_now env) (store_files w) ?i ?c = (sf, ent)" by fastforce
  have sh: "shrinks (store_files w) sf" using get_shrinks [OF g] by simp
  note d = commit_prepare_def Let_def res g
  have "shrinks (store_files w) (store_files w') \<and> (r = Inr (Waiting pc) \<longrightarrow>
      gget (us_entries (uw_store w')) (pc_upload pc) = Some (pc_entry pc) \<and>
      ue_received (pc_entry pc) = ue_size (pc_entry pc) \<and> ue_caller (pc_entry pc) = isolationCallerKey (pc_ctx pc) \<and>
      gget (aw_files w') (ue_staging (pc_entry pc)) = Some (pc_data pc) \<and>
      commit_checks A (pc_entry pc) (pc_data pc) (co_sha inp) = None \<and>
      SafeJoin (ae_view env) pg (path_join [ue_slug (pc_entry pc), ue_filename (pc_entry pc)]) = Inr (pc_dest pc))"
  proof (cases "?i = '''' \<or> validateIdempotencyKey (co_key inp) \<noteq> None \<or> (\<exists>err. cs0 = Inl err)")
    case True
    then show ?thesis using p by (auto simp: d split: option.splits if_splits)
  next
    case False
    then obtain cs where ok: "?i \<noteq> ''''" "validateIdempotencyKey (co_key inp) = None" "cs0 = Inr cs"
      by (cases cs0) auto
    show ?thesis
    proof (cases ent)
      case None
      then have "(w', r) = (with_store ?w0 sf, Inl ''not_found: upload_id not found or expired'')"
        using p ok by (simp add: commit_prepare_def Let_def res g [unfolded None])
      then show ?thesis using sh by simp
    next
      case (Some e)
      let ?w = "with_store ?w0 sf" and ?dry = "ac_force_dry_run cfg \<or> co_dry_run inp"
      let ?gone = "upload_abandon (uv_stuck env) (ae_now env) (store_files ?w) ?i ?c"
      note E = get_entry [OF g [unfolded Some]]
      have gone: "shrinks (store_files w) ?gone"
        using shrinks_trans [OF sh abandon_shrinks] by simp
      have eq: "commit_prepare A pg cfg env w inp =
          (if ue_received e \<noteq> ue_size e
           then (?w, Inl ''incomplete_upload: keep calling upload_asset_chunk before committing'')
           else if \<not> ?dry \<and> \<not> ae_allow env then (?w, Inl ''rate_limit_exceeded: commit_asset_upload'')
           else (case (uv_read_fails env, gget (aw_files ?w) (ue_staging e)) of
                   (False, Some data) \<Rightarrow>
                     (case commit_checks A e data (co_sha inp) of
                        Some (err, True) \<Rightarrow> (with_store ?w ?gone, Inl err)
                      | Some (err, False) \<Rightarrow> (?w, Inl err)
                      | None \<Rightarrow> commit_place A pg cfg env ?w inp ?dry ?i cs e data)
                 | _ \<Rightarrow> (with_store ?w ?gone, Inl ''read_error: failed to read staged upload data'')))"
        using ok by (simp add: commit_prepare_def Let_def res g [unfolded Some])
      show ?thesis
      proof (cases "\<exists>data. gget (aw_files ?w) (ue_staging e) = Some data \<and> commit_checks A e data (co_sha inp) = None \<and>
          (w', r) = commit_place A pg cfg env ?w inp ?dry ?i cs e data \<and> ue_received e = ue_size e")
        case True
        then obtain data where data: "gget (aw_files ?w) (ue_staging e) = Some data"
          "commit_checks A e data (co_sha inp) = None" "ue_received e = ue_size e"
          and place: "commit_place A pg cfg env ?w inp ?dry ?i cs e data = (w', r)" by auto
        have sf': "store_files w' = sf" using place_cases(1) [OF place] by simp
        then have "uw_store w' = fst sf" "aw_files w' = snd sf" by (auto simp: store_files_def)
        then show ?thesis using place_cases(2) [OF place] E(1,2) data sh sf' by auto
      next
        case False
        then have "(w', r) \<in> {(?w, Inl err) |err. True} \<union> {(with_store ?w ?gone, Inl err) |err. True}"
          using p unfolding eq by (auto split: if_splits option.splits bool.splits)
        then show ?thesis using sh gone by auto
      qed
    qed
  qed
  then show "shrinks (store_files w) (store_files w')"
    "r = Inr (Waiting pc) \<Longrightarrow>
      gget (us_entries (uw_store w')) (pc_upload pc) = Some (pc_entry pc) \<and>
      ue_received (pc_entry pc) = ue_size (pc_entry pc) \<and> ue_caller (pc_entry pc) = isolationCallerKey (pc_ctx pc) \<and>
      gget (aw_files w') (ue_staging (pc_entry pc)) = Some (pc_data pc) \<and>
      commit_checks A (pc_entry pc) (pc_data pc) (co_sha inp) = None \<and>
      SafeJoin (ae_view env) pg (path_join [ue_slug (pc_entry pc), ue_filename (pc_entry pc)]) = Inr (pc_dest pc)"
    by simp_all
qed

lemma finish_cases:
  assumes "commit_finish A pg env w pc = (w', r)"
  obtains (failed) err where "r = Inl err" "shrinks (store_files w) (store_files w')"
  | (created) staged dup where
      "gget (aw_files w) (ue_staging (pc_entry pc)) = Some staged" "gget (aw_files w) (pc_dest pc) = None"
      "\<not> ae_other env (pc_dest pc)"
      "r = Inr (commit_data A (pc_entry pc) (pc_data pc) (pc_path pc) dup False)"
      "store_files w' = fst (upload_consume (uv_stuck env) (pc_now pc)
         (uw_store w, gput (gdel (aw_files w) (ue_staging (pc_entry pc))) (pc_dest pc) staged)
         (pc_upload pc) (isolationCallerKey (pc_ctx pc)))"
proof (cases "validateBundleSlug (ae_page_locked env) (ue_slug (pc_entry pc))")
  case (Some err)
  then show ?thesis using assms failed by (auto simp: commit_finish_def Let_def)
next
  case None
  show ?thesis
  proof (cases "RevalidateForWrite (ae_view_write env) pg (pc_dest pc) = None \<and> stat_new env (aw_files w) (pc_dest pc) = None \<and>
      \<not> uv_rename_fails env \<and> gget (aw_files w) (ue_staging (pc_entry pc)) \<noteq> None")
    case False
    then show ?thesis using assms None failed
      by (auto simp: commit_finish_def Let_def split: option.splits if_splits bool.splits)
  next
    case True
    then obtain staged where st: "gget (aw_files w) (ue_staging (pc_entry pc)) = Some staged" by blast
    show ?thesis
      by (rule created [OF st]) (use True st assms None in \<open>auto simp: commit_finish_def Let_def stat_new_def
          store_files_def [of "w\<lparr>aw_files := _\<rparr>"] split: if_splits\<close>)
  qed
qed

section \<open>Every run keeps the invariant\<close>

definition upload_inv :: "asset_lib \<Rightarrow> path_guard \<Rightarrow> upload_state \<Rightarrow> bool" where
  "upload_inv A pg st \<longleftrightarrow>
     (case st of (w, P, L) \<Rightarrow>
        store_inv A pg L (store_files w) \<and> (\<forall>pc \<in> set P. pend_inv A pg L (store_files w) pc) \<and>
        us_ttl (uw_store w) = chunkedUploadTTL)"

lemma upload_inv_shrinks:
  assumes "upload_inv A pg (w, P, L)" "shrinks (store_files w) (store_files w')" "set P' \<subseteq> set P"
    and "clean_root (pg_root pg)"
  shows "upload_inv A pg (w', P', L)"
proof -
  have "us_ttl (uw_store w') = us_ttl (uw_store w)" using assms(2) by (simp add: shrinks_def store_files_def)
  moreover have "store_inv A pg L (store_files w')"
    using assms(1) store_inv_shrinks [OF _ assms(2,4)] by (simp add: upload_inv_def)
  moreover have "pend_inv A pg L (store_files w') pc" if "pc \<in> set P'" for pc
    using assms(1,3) that pend_inv_shrinks [OF _ _ assms(2,4)] by (auto simp: upload_inv_def)
  ultimately show ?thesis using assms(1) by (simp add: upload_inv_def)
qed

lemma upload_inv_ledger:
  assumes "upload_inv A pg (w, P, L)" "gget (us_entries (uw_store w)) i = None"
  shows "upload_inv A pg (w, P, L(i := map_option (\<lambda>g. g\<lparr>gh_done := True\<rparr>) (L i)))"
proof -
  let ?L = "L(i := map_option (\<lambda>g. g\<lparr>gh_done := True\<rparr>) (L i))"
  have "store_inv A pg ?L (store_files w)"
    using assms by (auto simp: upload_inv_def store_inv_def entry_live_def store_files_def)
  moreover have "pend_inv A pg ?L (store_files w) pc" if "pend_inv A pg L (store_files w) pc" for pc
    using that by (auto simp: pend_inv_def Let_def)
  ultimately show ?thesis using assms(1) by (simp add: upload_inv_def)
qed

lemma consume_gone:
  assumes "\<And>e. gget (us_entries (fst sf)) i = Some e \<Longrightarrow> ue_caller e = c" "wf_map (us_entries (fst sf))"
  shows "gget (us_entries (fst (fst (upload_consume stuck now sf i c)))) i = None"
  using assms
  by (auto simp: upload_consume_def upload_get_def Let_def pruneExpired_def gget_keep_Some
      split: option.splits prod.splits if_splits)

lemma dest_in_bundle:
  assumes st: "entry_static pg i e" and root: "clean_root (pg_root pg)"
    and d: "SafeJoin v pg (path_join [ue_slug e, ue_filename e]) = Inr dest"
  shows "dest = path_join [ue_dir e, ue_filename e]" "\<not> hidden_path (path_join [ue_dir e, ue_filename e])"
proof -
  let ?f = "ue_filename e" and ?root = "pg_root pg"
  obtain v' where s: "SafeJoin v' pg (ue_slug e) = Inr (ue_dir e)" "ue_slug e \<noteq> ''''" "visible_seg ?f"
    using st by (auto simp: entry_static_def)
  note S = safe_join_below [OF s(1) root]
  have "clean_segs (path_join [ue_slug e, ?f]) = clean_segs (ue_slug e) @ [?f]"
    using path_join2(1) [OF s(2) visible_plain [OF s(3)]] .
  then have "dest = below ?root (clean_segs (ue_slug e) @ [?f])" using safe_join_below(1) [OF d root] by simp
  then show "dest = path_join [ue_dir e, ?f]" using below_step [OF root S(2) s(3)] S(1) by simp
  show "\<not> hidden_path (path_join [ue_dir e, ?f])"
    using path_join2(1) [OF S(5) visible_plain [OF s(3)]] s(3) by (simp add: hidden_path_def visible_seg_def)
qed

lemma commit_checks_None:
  "commit_checks A e data x = None \<Longrightarrow> validateAssetBytes A data (ue_ext e) (ue_mime e) = None \<and>
     (ue_expected_sha e \<noteq> '''' \<longrightarrow> ue_expected_sha e = al_sha A data)"
  by (auto simp: commit_checks_def split: option.splits if_splits sum.splits)

lemma prepare_inv:
  assumes inv: "upload_inv A pg (w, P, L)" and root: "clean_root (pg_root pg)"
    and p: "commit_prepare A pg cfg env w inp = (w', r)"
  shows "upload_inv A pg (w', (case r of Inr (Waiting pc) \<Rightarrow> pc # P | _ \<Rightarrow> P), L)"
proof -
  note C = prepare_cases [OF p]
  have inv': "upload_inv A pg (w', P, L)" by (rule upload_inv_shrinks [OF inv C(1) subset_refl root])
  have "pend_inv A pg L (store_files w') pc" if r: "r = Inr (Waiting pc)" for pc
  proof -
    let ?e = "pc_entry pc"
    note W = C(2) [OF r]
    have e: "entry_static pg (pc_upload pc) ?e" "entry_live A L (aw_files w') (pc_upload pc) ?e"
      using store_invD [of A pg L "store_files w'" "pc_upload pc" ?e] inv' W
      by (auto simp: upload_inv_def store_files_def)
    obtain g where g: "L (pc_upload pc) = Some g"
      "ue_received ?e = int (length (concat (gh_chunks g)))"
      "\<forall>c. \<not> gh_torn g \<longrightarrow> gget (aw_files w') (ue_staging ?e) = Some c \<longrightarrow> c = concat (gh_chunks g)"
      using e(2) unfolding entry_live_def by blast
    have "\<not> gh_torn g \<longrightarrow> pc_data pc = concat (gh_chunks g) \<and> int (length (pc_data pc)) = ue_size ?e"
      using g W by simp
    then show ?thesis
      using e(1) g(1) W dest_in_bundle [OF e(1) root] commit_checks_None
      by (auto simp: pend_inv_def Let_def store_files_def)
  qed
  then show ?thesis using inv' by (auto simp: upload_inv_def split: sum.split commit_stage.split)
qed

lemma finish_inv:
  assumes inv: "upload_inv A pg (w, P, L)" and root: "clean_root (pg_root pg)" and pc: "pc \<in> set P"
    and f: "commit_finish A pg env w pc = (w', r)"
  shows "upload_inv A pg (w', remove1 pc P, case r of Inl err \<Rightarrow> L
     | Inr out \<Rightarrow> L(pc_upload pc := map_option (\<lambda>g. g\<lparr>gh_done := True\<rparr>) (L (pc_upload pc))))"
  using f
proof (cases rule: finish_cases)
  case (failed err)
  then show ?thesis using upload_inv_shrinks [OF inv _ set_remove1_subset root] by simp
next
  case (created staged dup)
  have P: "pend_inv A pg L (store_files w) pc" using inv pc by (auto simp: upload_inv_def)
  let ?sf = "(uw_store w, gput (gdel (aw_files w) (ue_staging (pc_entry pc))) (pc_dest pc) staged)"
  have sh: "shrinks (store_files w) ?sf"
    using P by (auto simp: shrinks_def store_files_def pend_inv_def Let_def split: if_splits)
  have "upload_inv A pg (w', remove1 pc P, L)"
    using upload_inv_shrinks [OF inv _ set_remove1_subset root] shrinks_trans [OF sh consume_shrinks] created(5) by simp
  moreover have "gget (us_entries (uw_store w')) (pc_upload pc) = None"
  proof -
    have "wf_map (us_entries (uw_store w))" using inv by (simp add: upload_inv_def store_inv_def store_files_def)
    moreover have "gget (us_entries (uw_store w)) (pc_upload pc) = Some e \<Longrightarrow>
        ue_caller e = isolationCallerKey (pc_ctx pc)" for e
      using P by (simp add: pend_inv_def Let_def store_files_def)
    ultimately have "gget (us_entries (fst (store_files w'))) (pc_upload pc) = None"
      unfolding created(5) by (intro consume_gone) simp_all
    then show ?thesis by (simp add: store_files_def)
  qed
  ultimately show ?thesis using upload_inv_ledger created(4) by simp
qed

lemma chunk_inv:
  assumes inv: "upload_inv A pg (w, P, L)" and root: "clean_root (pg_root pg)"
    and c: "uploadAssetChunk A env w inp = (w', res)"
  shows "upload_inv A pg (w', P, chunk_ledger inp L res)"
proof (cases "trim_space (ci_upload inp) = '''' \<or> ci_offset inp < 0 \<or>
    (\<forall>data. decodeAssetBase64 (ci_content inp) = Inr data \<longrightarrow> data = [])")
  case True
  then have "w' = w \<and> (\<exists>err. res = Inl err \<and> (err \<noteq> torn_error \<or> (\<forall>data. decodeAssetBase64 (ci_content inp) \<noteq> Inr data)))"
    using c by (auto simp: uploadAssetChunk_def Let_def torn_error_def split: sum.splits if_splits)
  then show ?thesis using inv by (auto simp: chunk_ledger_def Let_def split: option.split sum.split)
next
  case False
  let ?i = "trim_space (ci_upload inp)" and ?c = "isolationCallerKey (ae_ctx env)"
  obtain data where data: "decodeAssetBase64 (ci_content inp) = Inr data" "data \<noteq> []" and i: "?i \<noteq> ''''"
    and off: "\<not> ci_offset inp < 0" using False by blast
  obtain sf r where a: "appendChunk (al_sha A) (uv_stuck env) (uv_open_fails env) (uv_torn env) (ae_now env)
      (store_files w) ?i ?c (ci_offset inp) data = (sf, r)" by fastforce
  obtain L' where L': "store_inv A pg L' sf" "\<forall>pc \<in> set P. pend_inv A pg L' sf pc"
      "us_ttl (fst sf) = us_ttl (uw_store w)"
      "case r of Inl err \<Rightarrow> if err = torn_error then (\<exists>g. L ?i = Some g \<and> L' = L(?i \<mapsto> g\<lparr>gh_torn := True\<rparr>)) else L' = L
       | Inr (ChunkAccepted, n) \<Rightarrow> (\<exists>g. L ?i = Some g \<and> L' = L(?i \<mapsto> g\<lparr>gh_chunks := gh_chunks g @ [data]\<rparr>))
       | Inr (ChunkIdempotentReplay, n) \<Rightarrow> L' = L"
    using append_inv [OF _ _ root data(2) a, of L P] inv by (auto simp: upload_inv_def store_files_def)
  have inv': "upload_inv A pg (with_store w sf, P, L')" using L'(1-3) inv by (simp add: upload_inv_def)
  show ?thesis
  proof (cases r)
    case (Inl err)
    then have "w' = with_store w sf \<and> res = Inl err" using c a data i off by (simp add: uploadAssetChunk_def)
    moreover from this have "chunk_ledger inp L res = L'"
      using L'(4) Inl data by (auto simp: chunk_ledger_def Let_def split: option.split if_splits)
    ultimately show ?thesis using inv' by simp
  next
    case (Inr x)
    obtain kind n where x: "x = (kind, n)" by fastforce
    obtain sf' ent where g: "upload_get (uv_stuck env) (uv_later env) sf ?i ?c = (sf', ent)" by fastforce
    let ?size = "case ent of None \<Rightarrow> 0 | Some e \<Rightarrow> ue_size e"
    have "(w', res) = (with_store w sf', Inr \<lparr>cd_upload = ?i, cd_received = n, cd_next_offset = n, cd_size = ?size,
        cd_complete = (0 < ?size \<and> n = ?size), cd_replayed = (kind = ChunkIdempotentReplay)\<rparr>)"
      unfolding c [symmetric] uploadAssetChunk_def Let_def using a data i off by (simp add: Inr x g)
    then have w': "w' = with_store w sf'" and res: "\<exists>d. res = Inr d \<and> (cd_replayed d \<longleftrightarrow> kind = ChunkIdempotentReplay)"
      by auto
    have "upload_inv A pg (w', P, L')"
      using upload_inv_shrinks [OF inv' _ subset_refl root, of w'] get_shrinks [OF g] w' by simp
    moreover have "chunk_ledger inp L res = L'"
      using res L'(4) Inr x data by (cases kind) (auto simp: chunk_ledger_def Let_def split: option.split)
    ultimately show ?thesis by simp
  qed
qed

lemma begin_handler_inv:
  assumes inv: "upload_inv A pg (w, P, L)" and root: "clean_root (pg_root pg)"
    and fresh: "upload_allowed (w, P, L) (UBegin env inp)"
    and b: "beginAssetUpload pg env w inp = (w', Inr d)"
  shows "upload_inv A pg (w', P, L(bd_upload d \<mapsto> \<lparr>gh_chunks = [], gh_torn = False, gh_done = False\<rparr>))"
proof -
  let ?slug = "normalizeInputSlug (bi_slug inp)"
  note d = beginAssetUpload_def Let_def
  obtain filename ext mime where f: "validateAssetFilename (bi_filename inp) = Inr (filename, ext, mime)"
    using b by (cases "validateAssetFilename (bi_filename inp)") (auto simp: d split: if_splits)
  obtain sha where x: "validateExpectedSha256 (bi_sha inp) = Inr sha"
    using b f by (cases "validateExpectedSha256 (bi_sha inp)") (simp_all add: d split: if_splits)
  obtain dir where j: "SafeJoin (ae_view env) pg ?slug = Inr dir"
    using b f x by (cases "SafeJoin (ae_view env) pg ?slug") (simp_all add: d split: if_splits option.splits)
  obtain sf ans where u: "upload_begin (uv_stuck env) (uv_random env) (uv_create_fails env) (ae_now env)
       (store_files w) (isolationCallerKey (ae_ctx env)) ?slug dir filename ext mime sha (bi_size inp) = (sf, ans)"
    by fastforce
  obtain entry where ok: "?slug \<noteq> ''''" "validateAssetFilename (bi_filename inp) = Inr (filename, ext, mime)"
    "0 < bi_size inp" "bi_size inp \<le> int maxAssetBytes" "SafeJoin (ae_view env) pg ?slug = Inr dir"
    "upload_begin (uv_stuck env) (uv_random env) (uv_create_fails env) (ae_now env) (store_files w)
       (isolationCallerKey (ae_ctx env)) ?slug dir filename ext mime sha (bi_size inp)
       = (sf, Inr (bd_upload d, entry))" "w' = with_store w sf"
    using b f x j u
    by (cases ans) (auto simp: d split: if_splits option.splits)
  have "\<And>pc. pc \<in> set P \<Longrightarrow> pend_inv A pg L (store_files w) pc" "store_inv A pg L (store_files w)"
    using inv by (simp_all add: upload_inv_def)
  from begin_inv [OF this(2,1) root _ ok(5,1,3,4) asset_name_ok(1,3) [OF ok(2)] ok(6)] fresh inv ok(7)
  show ?thesis by (simp add: upload_inv_def store_files_def)
qed

lemma upload_run_inv:
  assumes "upload_run A pg cfg st" "clean_root (pg_root pg)"
  shows "upload_inv A pg st"
  using assms(1)
proof (induction rule: upload_run.induct)
  case (upload_start w)
  then show ?case by (simp add: upload_inv_def store_inv_def store_files_def)
next
  case (upload_next st c)
  obtain w P L where st: "st = (w, P, L)" by (cases st)
  have inv: "upload_inv A pg (w, P, L)" using upload_next.IH st by simp
  have ok: "upload_allowed (w, P, L) c" using upload_next.hyps(2) st by simp
  show ?case
  proof (cases c)
    case (UBegin env inp)
    show ?thesis
    proof (cases "beginAssetUpload pg env w inp")
      case (Pair w' r)
      have "r = Inl err \<Longrightarrow> shrinks (store_files w) (store_files w')" for err
        using Pair by (auto simp: beginAssetUpload_def upload_begin_def Let_def
            split: if_splits option.splits prod.splits sum.splits)
      then show ?thesis
        using Pair st UBegin begin_handler_inv [OF inv assms(2)] ok upload_inv_shrinks [OF inv _ subset_refl assms(2)]
        by (cases r) simp_all
    qed
  next
    case (UChunk env inp)
    then show ?thesis using chunk_inv [OF inv assms(2)] st by (cases "uploadAssetChunk A env w inp") simp
  next
    case (UPrepare env inp)
    obtain w' r where p: "commit_prepare A pg cfg env w inp = (w', r)" by fastforce
    then show ?thesis using prepare_inv [OF inv assms(2) p] UPrepare st
      by (auto split: sum.splits commit_stage.splits)
  next
    case (UFinish env pc)
    obtain w' r where f: "commit_finish A pg env w pc = (w', r)" by fastforce
    show ?thesis using finish_inv [OF inv assms(2) _ f] ok UFinish st f by (cases r) simp_all
  next
    case (URemove p)
    have "shrinks (store_files w) (store_files (w\<lparr>aw_files := gdel (aw_files w) p\<rparr>))"
      by (auto simp: shrinks_def store_files_def split: if_splits)
    then show ?thesis using upload_inv_shrinks [OF inv _ subset_refl assms(2)] st URemove by simp
  next
    case (UWrite p x)
    have "shrinks (store_files w) (store_files (w\<lparr>aw_files := gput (aw_files w) p x\<rparr>))"
      using ok UWrite by (auto simp: shrinks_def store_files_def)
    then show ?thesis using upload_inv_shrinks [OF inv _ subset_refl assms(2)] st UWrite by simp
  next
    case (URestart stuck is_dir)
    then show ?thesis using st
      by (simp add: upload_inv_def store_inv_def store_files_def newChunkedUploadStore_def)
  qed
qed

lemma chunk_map_iff:
  assumes "[] \<notin> set cs"
  shows "chunk_map sha n cs off = Some r \<longleftrightarrow>
    (\<exists>pre d post. cs = pre @ d # post \<and> off = int (n + length (concat pre)) \<and>
       r = \<lparr>ch_length = int (length d), ch_sha = sha d\<rparr>)"
  using assms
proof (induction cs arbitrary: n)
  case (Cons c cs)
  have split: "(\<exists>pre d post. c # cs = pre @ d # post \<and> Q pre d) \<longleftrightarrow>
      Q [] c \<or> (\<exists>pre d post. cs = pre @ d # post \<and> Q (c # pre) d)" (is "?l \<longleftrightarrow> ?r") for Q
  proof
    assume ?l
    then obtain pre d post where "c # cs = pre @ d # post" "Q pre d" by blast
    then show ?r by (cases pre) auto
  next
    assume ?r
    then show ?l
    proof
      assume "Q [] c"
      then show ?l by (metis append_Nil)
    next
      assume "\<exists>pre d post. cs = pre @ d # post \<and> Q (c # pre) d"
      then show ?l by (metis append_Cons)
    qed
  qed
  show ?case
  proof (cases "off = int n")
    case True
    obtain x c' where "c = x # c'" using Cons.prems by (cases c) auto
    then show ?thesis using True unfolding split by auto
  next
    case False
    then show ?thesis using Cons.IH [of "n + length c"] Cons.prems unfolding split
      by (simp add: add.assoc)
  qed
qed simp

section \<open>A concrete upload\<close>

definition demo_lib :: asset_lib where
  "demo_lib = \<lparr>al_sha = (\<lambda>s. ''sha256:'' @ s), al_sniff = (\<lambda>s. ''image/png''), al_xml = (\<lambda>s. ([], True)),
     al_lower = id, al_enc = (\<lambda>d. Some ''{}''), al_dec = (\<lambda>s. None), al_request_hash = (\<lambda>a b c. Some ''h'')\<rparr>"

definition demo_guard :: path_guard where
  "demo_guard = \<lparr>pg_root = ''/c'', pg_reject_symlinks = False\<rparr>"

definition demo_config :: asset_config where
  "demo_config = \<lparr>ac_content_root = ''/c'', ac_force_dry_run = False\<rparr>"

definition demo_env :: upload_env where
  "demo_env = \<lparr>ae_now = 0, ae_ctx = \<lparr>cx_principal = ''p'', cx_token_id = ''t'', cx_caller_ip = ''''\<rparr>, ae_allow = True,
     ae_view = \<lparr>fs_lstat = (\<lambda>p. NotExist), fs_eval = (\<lambda>p. None)\<rparr>,
     ae_view_write = \<lparr>fs_lstat = (\<lambda>p. NotExist), fs_eval = (\<lambda>p. None)\<rparr>, ae_ls = (\<lambda>d. None),
     ae_page = (\<lambda>s. Some ''/c/p/index.md''), ae_page_locked = (\<lambda>s. Some ''/c/p/index.md''), ae_locked = True,
     ae_other = (\<lambda>p. False), ae_stat_fails = False, ae_atomic = no_atomic_faults, ae_replay_fl = no_faults,
     ae_remember_fl = no_faults, ae_cs_read_fails = False, ae_cs_touch_fails = False, ae_cs_record_fails = False,
     uv_stuck = (\<lambda>p. False), uv_random = Some ''1'', uv_create_fails = False, uv_open_fails = False, uv_torn = None,
     uv_read_fails = False, uv_rename_fails = False, uv_later = 0\<rparr>"

definition demo_world :: upload_world where
  "demo_world = \<lparr>aw_files = [], aw_idem = newIdempotencyStore 0 0 None, aw_sets = NewRegistry None,
     uw_store = newChunkedUploadStore chunkedUploadTTL\<rparr>"

definition demo_staging :: string where "demo_staging = ''/c/p/.upload-upload_1.part''"

definition demo_entry :: "string list \<Rightarrow> upload_entry" where
  "demo_entry cs = \<lparr>ue_caller = ''t'', ue_slug = ''p'', ue_dir = ''/c/p'', ue_filename = ''a.png'', ue_ext = ''.png'',
     ue_mime = ''image/png'', ue_size = 2, ue_expected_sha = '''', ue_staging = demo_staging,
     ue_received = int (length (concat cs)),
     ue_chunks = map (\<lambda>c. (0, \<lparr>ch_length = int (length c), ch_sha = ''sha256:'' @ c\<rparr>)) cs, ue_created = 0,
     ue_expires = chunkedUploadTTL\<rparr>"

definition demo_staged :: "string list \<Rightarrow> string \<Rightarrow> upload_world" where
  "demo_staged cs c = demo_world\<lparr>aw_files := [(demo_staging, c)],
     uw_store := \<lparr>us_ttl = chunkedUploadTTL, us_entries = [(''upload_1'', demo_entry cs)]\<rparr>\<rparr>"

lemma demo_begin:
  "beginAssetUpload demo_guard demo_env demo_world \<lparr>bi_slug = ''p'', bi_filename = ''a.png'', bi_size = 2, bi_sha = ''''\<rparr>
   = (demo_staged [] [],
      Inr \<lparr>bd_upload = ''upload_1'', bd_slug = ''/p/'', bd_source_key = ''p'', bd_filename = ''a.png'',
        bd_content_type = ''image/png'', bd_next_offset = 0, bd_expires = chunkedUploadTTL\<rparr>)"
proof -
  have "trim_space ''p'' = ''p''" by (simp add: go_str)
  moreover have n: "normalizeInputSlug ''p'' = ''p''" by (simp add: normalizeInputSlug_def go_str strip_slashes_def)
  moreover have "validateAssetFilename ''a.png'' = Inr (''a.png'', ''.png'', ''image/png'')"
    by (simp add: validateAssetFilename_def go_str assetFilenamePattern_def ascii_alnum_def path_ext_def
        allowedAssetTypes_def to_lower_def to_lower_char_def Let_def)
  moreover have "validateExpectedSha256 '''' = Inr ''''" by (simp add: validateExpectedSha256_def)
  moreover have j: "SafeJoin v demo_guard ''p'' = Inr ''/c/p''" for v
    by (simp add: SafeJoin_def demo_guard_def path_clean_def clean_segs_def is_abs_def clean_elem_def path_join_def WithinRoot_def)
  moreover have "path_join [''/c/p'', uploadStagingName ''upload_1''] = demo_staging"
    by (simp add: path_join_def uploadStagingName_def uploadStagingPrefix_def uploadStagingSuffix_def demo_staging_def
       path_clean_def clean_segs_def is_abs_def clean_elem_def)
  moreover have "canonicalPublicSlug ''p'' = ''/p/''" by (simp add: canonicalPublicSlug_def trim_char_def)
  moreover have "validateBundleSlug (ae_page demo_env) ''p'' = None"
    by (simp add: demo_env_def validateBundleSlug_def path_base_def strip_slashes_def)
  moreover have "isolationCallerKey (ae_ctx demo_env) = ''t''"
    by (simp add: demo_env_def isolationCallerKey_def TokenKey_def blank_def go_str)
  moreover have "0 < chunkedUploadTTL" by (simp add: chunkedUploadTTL_def minute_def)
  ultimately show ?thesis
    by (simp add: beginAssetUpload_def maxAssetBytes_def RevalidateForWrite_def demo_guard_def upload_begin_def newUploadID_def demo_env_def
       store_files_def with_store_def demo_world_def newChunkedUploadStore_def pruneExpired_def demo_entry_def gkeep_def Let_def
       demo_staged_def)
qed

definition demo_pending :: pending_commit where
  "demo_pending = \<lparr>pc_upload = ''upload_1'', pc_entry = demo_entry [''AB''], pc_data = ''AB'', pc_idem_hash = ''h'',
     pc_key = ''k'', pc_change_set = ''default:p'', pc_dest = ''/c/p/a.png'', pc_ctx = ae_ctx demo_env, pc_now = 0,
     pc_path = ''content/p/a.png''\<rparr>"

lemma demo_trim: "trim_space ''upload_1'' = ''upload_1''" by (simp add: go_str)

lemma demo_caller: "isolationCallerKey (ae_ctx demo_env) = ''t''"
  by (simp add: demo_env_def isolationCallerKey_def TokenKey_def blank_def go_str)

lemma demo_decode: "decodeAssetBase64 ''QUI='' = Inr ''AB''"
proof -
  have "(of_char CHR ''A'' :: nat) = 65" "(of_char CHR ''B'' :: nat) = 66" by simp_all
  then have "char_of (65 :: nat) = CHR ''A''" "char_of (66 :: nat) = CHR ''B''" by (metis char_of_char)+
  then show ?thesis
    by (simp add: decodeAssetBase64_def blank_def go_str maxAssetBytes_def b64_decode_def b64_digit_def)
qed

lemma demo_chunk:
  "uploadAssetChunk demo_lib demo_env (demo_staged [] []) \<lparr>ci_upload = ''upload_1'', ci_offset = 0, ci_content = ''QUI=''\<rparr>
   = (demo_staged [''AB''] ''AB'', Inr \<lparr>cd_upload = ''upload_1'', cd_received = 2, cd_next_offset = 2, cd_size = 2,
        cd_complete = True, cd_replayed = False\<rparr>)"
proof -
  have "0 < chunkedUploadTTL" by (simp add: chunkedUploadTTL_def minute_def)
  then show ?thesis using demo_trim demo_caller demo_decode
    by (simp add: uploadAssetChunk_def appendChunk_def upload_get_def demo_lib_def demo_env_def demo_staged_def
       store_files_def with_store_def demo_world_def pruneExpired_def demo_entry_def gkeep_def Let_def)
qed

lemma demo_prepare:
  "commit_prepare demo_lib demo_guard demo_config demo_env (demo_staged [''AB''] ''AB'')
     \<lparr>co_upload = ''upload_1'', co_sha = '''', co_key = ''k'', co_change_set = '''', co_dry_run = False\<rparr>
   = (demo_staged [''AB''] ''AB'', Inr (Waiting demo_pending))"
proof -
  have key: "validateIdempotencyKey ''k'' = None" "\<not> blank ''k''"
    by (simp_all add: validateIdempotencyKey_def blank_def go_str maxIdempotencyKeyLen_def idempotencyKeyPattern_def idem_key_char_def)
  have res: "Resolve False False (ae_ctx demo_env) (NewRegistry None) '''' 0 = (NewRegistry None, Inr ''default:p'')"
    by (simp add: Resolve_def checkOwnership_def NewRegistry_def DefaultID_def MutationKey_def Key_def demo_env_def blank_def go_str)
  have ttl: "0 < chunkedUploadTTL" by (simp add: chunkedUploadTTL_def minute_def)
  have "trim_space ''image/png'' = ''image/png''" by (simp add: go_str)
  then have checks: "commit_checks demo_lib (demo_entry [''AB'']) ''AB'' '''' = None"
    by (simp add: commit_checks_def validateAssetBytes_def demo_lib_def demo_entry_def maxAssetBytes_def
        validateExpectedSha256_def)
  have j: "SafeJoin v demo_guard ''p/a.png'' = Inr ''/c/p/a.png''" for v
    by (simp add: SafeJoin_def demo_guard_def path_clean_def clean_segs_def is_abs_def clean_elem_def path_join_def WithinRoot_def)
  have p: "path_join [''p'', ''a.png''] = ''p/a.png''" "path_join [''/c/p'', ''a.png''] = ''/c/p/a.png''"
    by (simp_all add: path_join_def path_clean_def clean_segs_def is_abs_def clean_elem_def)
  have l: "LogicalContentPath ''/c'' ''/c/p/a.png'' = ''content/p/a.png''"
    by (simp add: LogicalContentPath_def go_str path_rel_def is_abs_def path_join_def path_clean_def clean_segs_def clean_elem_def)
  have rep: "asset_replay demo_lib demo_env w ''commit_asset_upload'' ''k'' False a b c = (w, Inr (''h'', None))"
    if "aw_idem w = newIdempotencyStore 0 0 None" for w :: upload_world and a b c
    using key that by (simp add: asset_replay_def demo_lib_def replay_def newIdempotencyStore_def idem_prune_def demo_env_def)
  have get: "upload_get (uv_stuck demo_env) (ae_now demo_env) (store_files (demo_staged [''AB''] ''AB'')) ''upload_1'' ''t''
      = (store_files (demo_staged [''AB''] ''AB''), Some (demo_entry [''AB'']))"
    using ttl by (simp add: upload_get_def Let_def demo_staged_def store_files_def pruneExpired_def gkeep_def demo_entry_def demo_env_def)
  have same: "with_store ((demo_staged [''AB''] ''AB'')\<lparr>aw_sets := NewRegistry None\<rparr>) (store_files (demo_staged [''AB''] ''AB''))
      = demo_staged [''AB''] ''AB''"
    by (simp add: with_store_def store_files_def demo_staged_def demo_world_def)
  have place: "commit_place demo_lib demo_guard demo_config demo_env (demo_staged [''AB''] ''AB'')
     \<lparr>co_upload = ''upload_1'', co_sha = '''', co_key = ''k'', co_change_set = '''', co_dry_run = False\<rparr> False ''upload_1''
     ''default:p'' (demo_entry [''AB'']) ''AB'' = (demo_staged [''AB''] ''AB'', Inr (Waiting demo_pending))"
    using rep [of "demo_staged [''AB''] ''AB''"] j p l
    by (simp add: commit_place_def demo_entry_def demo_config_def demo_staged_def demo_world_def demo_env_def stat_new_def
       demo_staging_def demo_pending_def)
  show ?thesis
    using key(1) res checks place get same demo_trim demo_caller
    by (simp add: commit_prepare_def demo_config_def demo_env_def demo_staged_def demo_world_def demo_entry_def)
qed

definition demo_ledger :: "string list \<Rightarrow> upload_ledger" where
  "demo_ledger cs = [''upload_1'' \<mapsto> \<lparr>gh_chunks = cs, gh_torn = False, gh_done = False\<rparr>]"

lemma demo_root: "clean_root (pg_root demo_guard)"
  by (simp add: demo_guard_def clean_root_def is_abs_def path_clean_def clean_segs_def clean_elem_def)

lemma demo_run_begun: "upload_run demo_lib demo_guard demo_config (demo_staged [] [], [], demo_ledger [])"
proof -
  have "upload_run demo_lib demo_guard demo_config (demo_world, [], \<lambda>i. None)"
    by (rule upload_start) (simp_all add: demo_world_def newChunkedUploadStore_def)
  from upload_next [OF this, of "UBegin demo_env \<lparr>bi_slug = ''p'', bi_filename = ''a.png'', bi_size = 2, bi_sha = ''''\<rparr>"]
  show ?thesis using demo_begin by (simp add: demo_ledger_def demo_env_def)
qed

lemma demo_run_staged: "upload_run demo_lib demo_guard demo_config (demo_staged [''AB''] ''AB'', [], demo_ledger [''AB''])"
proof -
  let ?inp = "\<lparr>ci_upload = ''upload_1'', ci_offset = 0, ci_content = ''QUI=''\<rparr>"
  have "chunk_ledger ?inp (demo_ledger []) (snd (uploadAssetChunk demo_lib demo_env (demo_staged [] []) ?inp)) = demo_ledger [''AB'']"
    unfolding demo_chunk using demo_trim demo_decode by (simp add: chunk_ledger_def demo_ledger_def Let_def)
  then show ?thesis
    using upload_next [OF demo_run_begun, of "UChunk demo_env ?inp"] demo_chunk by simp
qed

lemma demo_run_waiting:
  "upload_run demo_lib demo_guard demo_config (demo_staged [''AB''] ''AB'', [demo_pending], demo_ledger [''AB''])"
  using upload_next [OF demo_run_staged, of "UPrepare demo_env
     \<lparr>co_upload = ''upload_1'', co_sha = '''', co_key = ''k'', co_change_set = '''', co_dry_run = False\<rparr>"] demo_prepare
  by simp

lemma demo_finish:
  "\<exists>w out. commit_finish demo_lib demo_guard demo_env (demo_staged [''AB''] ''AB'') demo_pending = (w, Inr out)"
proof -
  have "RevalidateForWrite v demo_guard p = None" for v p by (simp add: RevalidateForWrite_def demo_guard_def)
  moreover have "validateBundleSlug (ae_page_locked demo_env) ''p'' = None"
    by (simp add: demo_env_def validateBundleSlug_def path_base_def strip_slashes_def)
  ultimately show ?thesis
    by (simp add: commit_finish_def Let_def demo_pending_def demo_entry_def demo_staged_def stat_new_def demo_env_def
        demo_staging_def)
qed

section \<open>Properties\<close>

text \<open>
  C24. In every run of begins, chunks, commits, writes and removals of other tools and restarts, a live
  upload has received exactly the chunks it accepted: the count of bytes is their total length and at
  most the declared size, which is at most the asset limit; the chunk map holds each of them at its
  offset; and the staged file of an upload none of whose chunk writes was torn is their concatenation,
  as long as it is there.
\<close>

theorem staged_bytes_exact:
  assumes "upload_run A pg cfg (w, P, L)" "clean_root (pg_root pg)"
    and "gget (us_entries (uw_store w)) i = Some e"
  shows "\<exists>g. L i = Some g \<and> \<not> gh_done g \<and> ue_received e = int (length (concat (gh_chunks g))) \<and>
     ue_received e \<le> ue_size e \<and> 0 < ue_size e \<and> ue_size e \<le> int maxAssetBytes \<and>
     (\<forall>off r. gget (ue_chunks e) off = Some r \<longleftrightarrow>
        (\<exists>pre d post. gh_chunks g = pre @ d # post \<and> off = int (length (concat pre)) \<and>
           r = \<lparr>ch_length = int (length d), ch_sha = al_sha A d\<rparr>)) \<and>
     (\<forall>c. \<not> gh_torn g \<longrightarrow> gget (aw_files w) (ue_staging e) = Some c \<longrightarrow> c = concat (gh_chunks g))"
proof -
  have e: "entry_static pg i e" "entry_live A L (aw_files w) i e"
    using store_invD [of A pg L "store_files w" i e] upload_run_inv [OF assms(1,2)] assms(3)
    by (auto simp: upload_inv_def store_files_def)
  then obtain g where g: "L i = Some g" "\<not> gh_done g" "[] \<notin> set (gh_chunks g)"
      "ue_received e = int (length (concat (gh_chunks g)))" "ue_received e \<le> ue_size e"
      "gget (ue_chunks e) = chunk_map (al_sha A) 0 (gh_chunks g)"
      "\<forall>c. \<not> gh_torn g \<longrightarrow> gget (aw_files w) (ue_staging e) = Some c \<longrightarrow> c = concat (gh_chunks g)"
    unfolding entry_live_def by blast
  then show ?thesis using e(1) chunk_map_iff [OF g(3), of "al_sha A" 0]
    by (intro exI [of _ g]) (simp add: entry_static_def)
qed

lemma staged_bytes_exact_witness:
  "\<exists>g. demo_ledger [''AB''] ''upload_1'' = Some g \<and>
     ue_received (demo_entry [''AB'']) = int (length (concat (gh_chunks g))) \<and> ''AB'' = concat (gh_chunks g)"
proof -
  have "gget (us_entries (uw_store (demo_staged [''AB''] ''AB''))) ''upload_1'' = Some (demo_entry [''AB''])"
    by (simp add: demo_staged_def)
  from staged_bytes_exact [OF demo_run_staged demo_root this] show ?thesis
    by (auto simp: demo_staged_def demo_entry_def demo_ledger_def)
qed

lemma prune_files_keep:
  "(\<And>i e. (i, e) \<in> set es \<Longrightarrow> ue_expires e < now \<Longrightarrow> ue_staging e \<noteq> p) \<Longrightarrow>
     gget (prune_files stuck now es fs) p = gget fs p"
proof (induction stuck now es fs rule: prune_files.induct)
  case (2 stuck now i e es fs)
  let ?fs = "if ue_expires e < now then remove_file stuck fs (ue_staging e) else fs"
  have "gget (prune_files stuck now es ?fs) p = gget ?fs p" by (rule 2(1)) (use 2(2) in auto)
  moreover have "gget ?fs p = gget fs p" using 2(2) [of i e] by (auto simp: remove_file_def)
  ultimately show ?case by simp
qed simp

lemma prune_keep_visible:
  assumes "store_inv A pg L (s, fs0)" "clean_root (pg_root pg)" "\<not> hidden_path p"
  shows "gget (snd (pruneExpired stuck now (s, fs))) p = gget fs p"
proof -
  have "ue_staging e \<noteq> p" if "(i, e) \<in> set (us_entries s)" for i e
    using that store_invD [OF assms(1), of i e] assms in_set_gget staging_hidden(1)
    by (metis fst_conv store_inv_def)
  then show ?thesis unfolding pruneExpired_def by (simp add: prune_files_keep)
qed

text \<open>
  C25. What a commit publishes is what was validated, whatever ran between the checks and the content
  lock: under the lock the destination is new and becomes exactly the bytes that were read, passed the
  content checks and match the hash declared at the beginning; size and hash reported are those of
  the file; the destination is the named file in the bundle directory of the upload; the upload and
  its staged file are gone; every other visible file is as before; and without a write error the
  bytes are the accepted chunks, complete.
\<close>

theorem commit_publishes_validated:
  assumes run: "upload_run A pg cfg (w, P, L)" and root: "clean_root (pg_root pg)"
    and pc: "pc \<in> set P" and fin: "commit_finish A pg env w pc = (w', Inr out)"
  shows "gget (aw_files w) (pc_dest pc) = None \<and> gget (aw_files w') (pc_dest pc) = Some (pc_data pc) \<and>
     pc_dest pc = path_join [ue_dir (pc_entry pc), ue_filename (pc_entry pc)] \<and>
     validateAssetBytes A (pc_data pc) (ue_ext (pc_entry pc)) (ue_mime (pc_entry pc)) = None \<and>
     (ue_expected_sha (pc_entry pc) \<noteq> '''' \<longrightarrow> ue_expected_sha (pc_entry pc) = al_sha A (pc_data pc)) \<and>
     ud_sha out = al_sha A (pc_data pc) \<and> ud_size out = length (pc_data pc) \<and> ud_status out = ''created'' \<and>
     gget (us_entries (uw_store w')) (pc_upload pc) = None \<and> gget (aw_files w') (ue_staging (pc_entry pc)) = None \<and>
     (\<forall>p. \<not> hidden_path p \<longrightarrow> p \<noteq> pc_dest pc \<longrightarrow> gget (aw_files w') p = gget (aw_files w) p) \<and>
     (\<forall>g. L (pc_upload pc) = Some g \<longrightarrow> \<not> gh_torn g \<longrightarrow>
        pc_data pc = concat (gh_chunks g) \<and> int (length (pc_data pc)) = ue_size (pc_entry pc))"
proof -
  note inv = upload_run_inv [OF run root]
  then have P: "pend_inv A pg L (store_files w) pc" and S: "store_inv A pg L (store_files w)"
    using pc by (auto simp: upload_inv_def)
  have st: "entry_static pg (pc_upload pc) (pc_entry pc)" and dest: "\<not> hidden_path (pc_dest pc)"
    using P by (simp_all add: pend_inv_def Let_def)
  have hid: "hidden_path (ue_staging (pc_entry pc))" by (rule staging_hidden(1) [OF st root])
  from fin show ?thesis
  proof (cases rule: finish_cases)
    case (created staged dup)
    let ?fs = "gput (gdel (aw_files w) (ue_staging (pc_entry pc))) (pc_dest pc) staged"
    let ?sf = "(uw_store w, ?fs)"
    have data: "staged = pc_data pc"
      using P created(1) by (simp add: pend_inv_def Let_def store_files_def)
    have w': "aw_files w' = snd (store_files w')" "uw_store w' = fst (store_files w')"
      by (simp_all add: store_files_def)
    have files: "aw_files w' = snd (pruneExpired (uv_stuck env) (pc_now pc) ?sf)"
      unfolding w'(1) created(5)
      by (auto simp: upload_consume_def upload_get_def Let_def split: prod.splits option.splits if_splits)
    have keep: "gget (aw_files w') p = gget ?fs p" if "\<not> hidden_path p" for p
      unfolding files using prune_keep_visible [OF _ root that] S by (simp add: store_files_def)
    have "gget (us_entries (uw_store w')) (pc_upload pc) = None"
      unfolding w'(2) created(5)
      by (rule consume_gone) (use P S in \<open>simp_all add: pend_inv_def Let_def store_files_def store_inv_def\<close>)
    moreover have "gget (aw_files w') (ue_staging (pc_entry pc)) = None"
    proof -
      have "gget ?fs (ue_staging (pc_entry pc)) = None" using hid dest by auto
      moreover have "gget (aw_files w') p = Some c \<Longrightarrow> gget ?fs p = Some c" for p c
        using prune_files_sub unfolding files pruneExpired_def by (metis case_prod_conv snd_conv)
      ultimately show ?thesis by (metis not_None_eq)
    qed
    moreover have "p \<noteq> ue_staging (pc_entry pc)" if "\<not> hidden_path p" for p using hid that by auto
    ultimately show ?thesis
      using keep dest created(2,4) data P by (auto simp: commit_data_def pend_inv_def Let_def)
  qed simp
qed

lemma commit_publishes_validated_witness:
  "\<exists>w out. commit_finish demo_lib demo_guard demo_env (demo_staged [''AB''] ''AB'') demo_pending = (w, Inr out) \<and>
     gget (aw_files w) ''/c/p/a.png'' = Some ''AB'' \<and> ud_size out = 2"
proof -
  obtain w out where f: "commit_finish demo_lib demo_guard demo_env (demo_staged [''AB''] ''AB'') demo_pending = (w, Inr out)"
    using demo_finish by blast
  have "demo_pending \<in> set [demo_pending]" by simp
  from commit_publishes_validated [OF demo_run_waiting demo_root this f] f show ?thesis
    by (auto simp: demo_pending_def)
qed

text \<open>
  A committed upload is gone for good: at any later moment of the run a commit with the same
  upload identifier, in particular the retry of the same commit with the same idempotency key, fails,
  and with \<open>not\_found\<close> whenever key and change set are accepted. So the recorded answer is never
  replayed for this upload. A late chunk fails too.
\<close>

theorem commit_retry_not_found:
  assumes run: "upload_run A pg cfg (w, P, L)" and root: "clean_root (pg_root pg)"
    and gone: "L (trim_space (co_upload inp)) = Some g" "gh_done g"
    and retry: "commit_prepare A pg cfg env w inp = (w', res)"
  shows "(\<exists>err. res = Inl err) \<and>
     (trim_space (co_upload inp) \<noteq> '''' \<and> validateIdempotencyKey (co_key inp) = None \<and>
      (\<exists>r cs. Resolve (ae_cs_read_fails env) (ae_cs_touch_fails env) (ae_ctx env) (aw_sets w)
         (co_change_set inp) (ae_now env) = (r, Inr cs)) \<longrightarrow>
      res = Inl ''not_found: upload_id not found or expired'')"
proof -
  let ?i = "trim_space (co_upload inp)"
  have "store_inv A pg L (store_files w)" using upload_run_inv [OF run root] by (simp add: upload_inv_def)
  then have "gget (us_entries (uw_store w)) ?i = None"
    using store_invD [of A pg L "store_files w" ?i] gone
    by (cases "gget (us_entries (uw_store w)) ?i") (auto simp: store_files_def entry_live_def)
  then have "upload_get (uv_stuck env) (ae_now env) (store_files w) ?i c =
      (pruneExpired (uv_stuck env) (ae_now env) (store_files w), None)" for c
    by (simp add: upload_get_def Let_def pruneExpired_def store_files_def)
  with retry show ?thesis
    by (auto simp: commit_prepare_def Let_def split: option.splits prod.splits sum.splits if_splits)
qed

lemma commit_retry_not_found_witness:
  "\<exists>w L w'. upload_run demo_lib demo_guard demo_config (w, [], L) \<and>
     commit_prepare demo_lib demo_guard demo_config demo_env w
       \<lparr>co_upload = ''upload_1'', co_sha = '''', co_key = ''k'', co_change_set = '''', co_dry_run = False\<rparr> =
       (w', Inl ''not_found: upload_id not found or expired'')"
proof -
  let ?inp = "\<lparr>co_upload = ''upload_1'', co_sha = '''', co_key = ''k'', co_change_set = '''', co_dry_run = False\<rparr>"
  obtain w out where f: "commit_finish demo_lib demo_guard demo_env (demo_staged [''AB''] ''AB'') demo_pending = (w, Inr out)"
    using demo_finish by blast
  define L where "L = (demo_ledger [''AB''])(''upload_1'' \<mapsto> \<lparr>gh_chunks = [''AB''], gh_torn = False, gh_done = True\<rparr>)"
  have run: "upload_run demo_lib demo_guard demo_config (w, [], L)"
    using upload_next [OF demo_run_waiting, of "UFinish demo_env demo_pending"] f
    by (simp add: L_def demo_pending_def demo_ledger_def)
  have L: "L (trim_space (co_upload ?inp)) = Some \<lparr>gh_chunks = [''AB''], gh_torn = False, gh_done = True\<rparr>"
    using demo_trim by (simp add: L_def)
  obtain w' res where p: "commit_prepare demo_lib demo_guard demo_config demo_env w ?inp = (w', res)" by fastforce
  have key: "validateIdempotencyKey ''k'' = None"
    by (simp add: validateIdempotencyKey_def blank_def go_str maxIdempotencyKeyLen_def idempotencyKeyPattern_def
        idem_key_char_def)
  have "Resolve f1 f2 ctx r '''' t = (r, Inr (DefaultID (MutationKey ctx)))" for f1 f2 ctx r t
    by (simp add: Resolve_def checkOwnership_def)
  then have "res = Inl ''not_found: upload_id not found or expired''"
    using commit_retry_not_found [OF run demo_root L _ p] key demo_trim by simp
  then show ?thesis using run p by blast
qed

section \<open>A torn write, and completion\<close>

lemma prune_keep_live:
  assumes inv: "store_inv A pg L sf" and root: "clean_root (pg_root pg)"
    and e: "gget (us_entries (fst sf)) i = Some e" and now: "now \<le> ue_expires e"
  shows "gget (us_entries (fst (pruneExpired stuck now sf))) i = Some e"
    "gget (snd (pruneExpired stuck now sf)) (ue_staging e) = gget (snd sf) (ue_staging e)"
proof -
  have wf: "wf_map (us_entries (fst sf))" using inv by (simp add: store_inv_def)
  show "gget (us_entries (fst (pruneExpired stuck now sf))) i = Some e"
    using e now by (simp add: pruneExpired_def case_prod_beta gget_keep_Some [OF wf])
  have "ue_staging f \<noteq> ue_staging e" if "(j, f) \<in> set (us_entries (fst sf))" "ue_expires f < now" for j f
  proof
    assume eq: "ue_staging f = ue_staging e"
    have f: "gget (us_entries (fst sf)) j = Some f" using that(1) in_set_gget [OF wf] by simp
    then have "j = i" using staging_inj [OF _ _ root eq] store_invD [OF inv f] store_invD [OF inv e] by blast
    with f e that(2) now show False by simp
  qed
  then show "gget (snd (pruneExpired stuck now sf)) (ue_staging e) = gget (snd sf) (ue_staging e)"
    by (simp add: pruneExpired_def case_prod_beta prune_files_keep)
qed

lemma next_offset_free:
  assumes "entry_live A L fs i e"
  shows "gget (ue_chunks e) (ue_received e) = None"
proof -
  obtain g where g: "[] \<notin> set (gh_chunks g)" "ue_received e = int (length (concat (gh_chunks g)))"
    "gget (ue_chunks e) = chunk_map (al_sha A) 0 (gh_chunks g)" "L i = Some g"
    using assms unfolding entry_live_def by blast
  have "chunk_map (al_sha A) 0 (gh_chunks g) (ue_received e) \<noteq> Some r" for r
    unfolding chunk_map_iff [OF g(1)] using g(1,2) by auto
  then show ?thesis using g(3) by (metis not_None_eq)
qed

text \<open>The next chunk of a live upload, with a write that succeeds or tears.\<close>

lemma append_next:
  assumes inv: "store_inv A pg L sf" and root: "clean_root (pg_root pg)"
    and e: "gget (us_entries (fst sf)) i = Some e" "now \<le> ue_expires e"
    and fits: "ue_received e + int (length data) \<le> ue_size e" and st: "gget (snd sf) (ue_staging e) = Some staged"
    and a: "appendChunk (al_sha A) stuck False torn now sf i (ue_caller e) (ue_received e) data = (sf', r)"
  shows "torn = Some k \<Longrightarrow> r = Inl torn_error \<and> gget (us_entries (fst sf')) i = Some e \<and>
           gget (snd sf') (ue_staging e) = Some (staged @ take k data)"
    and "torn = None \<Longrightarrow> r = Inr (ChunkAccepted, ue_received e + int (length data)) \<and>
           (\<exists>ch. gget (us_entries (fst sf')) i =
              Some (e\<lparr>ue_chunks := ch, ue_received := ue_received e + int (length data)\<rparr>)) \<and>
           gget (snd sf') (ue_staging e) = Some (staged @ data)"
    and "\<not> hidden_path p \<Longrightarrow> gget (snd sf') p = gget (snd sf) p"
proof -
  obtain s fs where p: "pruneExpired stuck now sf = (s, fs)" by fastforce
  have E: "gget (us_entries s) i = Some e" "gget fs (ue_staging e) = Some staged"
    using prune_keep_live [OF inv root e, of stuck] st p by simp_all
  have live: "entry_static pg i e" "entry_live A L (snd sf) i e" using store_invD [OF inv e(1)] by auto
  note d = appendChunk_def p E next_offset_free [OF live(2)] torn_error_def Let_def
  show "torn = Some k \<Longrightarrow> r = Inl torn_error \<and> gget (us_entries (fst sf')) i = Some e \<and>
           gget (snd sf') (ue_staging e) = Some (staged @ take k data)"
    using a fits by (auto simp: d)
  show "torn = None \<Longrightarrow> r = Inr (ChunkAccepted, ue_received e + int (length data)) \<and>
           (\<exists>ch. gget (us_entries (fst sf')) i =
              Some (e\<lparr>ue_chunks := ch, ue_received := ue_received e + int (length data)\<rparr>)) \<and>
           gget (snd sf') (ue_staging e) = Some (staged @ data)"
    using a fits by (auto simp: d)
  assume vis: "\<not> hidden_path p"
  then have "p \<noteq> ue_staging e" using staging_hidden(1) [OF live(1) root] by auto
  moreover have "gget fs p = gget (snd sf) p"
    using prune_keep_visible [OF _ root vis, of A L "fst sf" "snd sf" stuck now "snd sf"] inv p by simp
  ultimately show "gget (snd sf') p = gget (snd sf) p"
    using a fits by (cases torn) (auto simp: d)
qed

text \<open>
  C26. A chunk whose write fails after part of the data leaves these bytes in the staged file while the
  count of received bytes stays, so the retry that the protocol asks for is accepted as the next chunk
  and the staged file is longer than the count by the torn part: the upload can complete by count with
  bytes the client never sent in that order.
\<close>

theorem torn_chunk_corrupts:
  assumes run: "upload_run A pg cfg (w, P, L)" and root: "clean_root (pg_root pg)"
    and e: "gget (us_entries (uw_store w)) i = Some e"
    and fits: "ue_received e + int (length data) \<le> ue_size e" and data: "data \<noteq> []"
    and st: "gget (aw_files w) (ue_staging e) = Some staged"
    and k: "k \<le> length data" and now: "now \<le> ue_expires e" "now' \<le> ue_expires e"
    and first: "appendChunk (al_sha A) stuck False (Some k) now (store_files w) i (ue_caller e) (ue_received e) data = (sf1, r1)"
    and retry: "appendChunk (al_sha A) stuck' False None now' sf1 i (ue_caller e) (ue_received e) data = (sf2, r2)"
  shows "r1 = Inl torn_error \<and> r2 = Inr (ChunkAccepted, ue_received e + int (length data)) \<and>
     gget (snd sf2) (ue_staging e) = Some (staged @ take k data @ data) \<and>
     (\<exists>e2. gget (us_entries (fst sf2)) i = Some e2 \<and> ue_received e2 = ue_received e + int (length data) \<and>
        (\<forall>g. L i = Some g \<longrightarrow> \<not> gh_torn g \<longrightarrow>
           int (length (staged @ take k data @ data)) = ue_received e2 + int k))"
proof -
  have inv: "store_inv A pg L (store_files w)" using upload_run_inv [OF run root] by (simp add: upload_inv_def)
  have e': "gget (us_entries (fst (store_files w))) i = Some e" "gget (snd (store_files w)) (ue_staging e) = Some staged"
    using e st by (simp_all add: store_files_def)
  have one: "r1 = Inl torn_error" "gget (us_entries (fst sf1)) i = Some e"
    "gget (snd sf1) (ue_staging e) = Some (staged @ take k data)"
    using append_next(1) [OF inv root e'(1) now(1) fits e'(2) first refl] by auto
  obtain L' where inv1: "store_inv A pg L' sf1"
    using append_inv [OF inv _ root data first, of "[]"] by auto
  note two = append_next(2) [OF inv1 root one(2) now(2) fits one(3) retry refl]
  have "length staged = length (concat (gh_chunks g)) \<and> ue_received e = int (length (concat (gh_chunks g)))"
    if "L i = Some g" "\<not> gh_torn g" for g
    using store_invD [OF inv e'(1)] that e'(2) by (auto simp: entry_live_def)
  then show ?thesis using one(1) two k by auto
qed

lemma torn_chunk_corrupts_witness:
  "\<exists>sf1 sf2 r1. appendChunk (al_sha demo_lib) (\<lambda>p. False) False (Some 1) 0 (store_files (demo_staged [] [])) ''upload_1'' ''t'' 0 ''AB''
       = (sf1, r1) \<and>
     appendChunk (al_sha demo_lib) (\<lambda>p. False) False None 0 sf1 ''upload_1'' ''t'' 0 ''AB'' = (sf2, Inr (ChunkAccepted, 2)) \<and>
     gget (snd sf2) demo_staging = Some ''AAB''"
proof -
  let ?e = "demo_entry []"
  have e: "gget (us_entries (uw_store (demo_staged [] []))) ''upload_1'' = Some ?e"
    "gget (aw_files (demo_staged [] [])) (ue_staging ?e) = Some []"
    by (simp_all add: demo_staged_def demo_entry_def)
  have fits: "ue_received ?e + int (length ''AB'') \<le> ue_size ?e" by (simp add: demo_entry_def)
  have now: "0 \<le> ue_expires ?e" by (simp add: demo_entry_def chunkedUploadTTL_def minute_def)
  obtain sf1 r1 where a: "appendChunk (al_sha demo_lib) (\<lambda>p. False) False (Some 1) 0 (store_files (demo_staged [] []))
      ''upload_1'' (ue_caller ?e) (ue_received ?e) ''AB'' = (sf1, r1)" by fastforce
  obtain sf2 r2 where b: "appendChunk (al_sha demo_lib) (\<lambda>p. False) False None 0 sf1
      ''upload_1'' (ue_caller ?e) (ue_received ?e) ''AB'' = (sf2, r2)" by fastforce
  have "''AB'' \<noteq> []" "1 \<le> length ''AB''" by simp_all
  from torn_chunk_corrupts [OF demo_run_begun demo_root e(1) fits this(1) e(2) this(2) now now a b] a b
  have "appendChunk (al_sha demo_lib) (\<lambda>p. False) False (Some 1) 0 (store_files (demo_staged [] [])) ''upload_1'' ''t'' 0 ''AB''
       = (sf1, r1) \<and>
     appendChunk (al_sha demo_lib) (\<lambda>p. False) False None 0 sf1 ''upload_1'' ''t'' 0 ''AB'' = (sf2, Inr (ChunkAccepted, 2)) \<and>
     gget (snd sf2) demo_staging = Some ''AAB''" by (auto simp: demo_entry_def)
  then show ?thesis by blast
qed

text \<open>
  C27. Nothing blocks a healthy upload that is under way. In a reachable state in which the staged file of the
  upload is the part of a text received so far, the text is valid content of the declared size, type and digest, and
  the destination is free, its owner can, before the expiry and without faults, send the rest in one chunk and commit
  it, and the destination then holds the text. (After a torn write the staged file is not that part, and the upload
  is stuck.)
\<close>

theorem upload_completes:
  assumes run: "upload_run A pg cfg (w, P, L)" and root: "clean_root (pg_root pg)"
    and e: "gget (us_entries (uw_store w)) i = Some e" and i: "trim_space i = i" "i \<noteq> ''''"
    and own: "ue_caller e = isolationCallerKey ctx" "ae_ctx cenv = ctx" "ae_ctx env = ctx"
    and now: "ae_now cenv \<le> ue_expires e" "uv_later cenv \<le> ue_expires e" "ae_now env \<le> ue_expires e"
    and data: "int (length data) = ue_size e" "ue_received e = int n" "n < length data"
      "gget (aw_files w) (ue_staging e) = Some (take n data)" "decodeAssetBase64 b = Inr (drop n data)"
    and good: "validateAssetBytes A data (ue_ext e) (ue_mime e) = None" "ue_expected_sha e \<in> {'''', al_sha A data}"
    and chunk: "\<not> uv_open_fails cenv" "uv_torn cenv = None"
    and commit: "ae_allow env" "ae_locked env" "\<not> uv_read_fails env" "\<not> uv_rename_fails env"
      "\<not> ae_stat_fails env" "\<not> ac_force_dry_run cfg"
      "validateBundleSlug (ae_page_locked env) (ue_slug e) = None"
    and dest: "SafeJoin (ae_view env) pg (path_join [ue_slug e, ue_filename e]) = Inr dest"
      "RevalidateForWrite (ae_view_write env) pg dest = None" "gget (aw_files w) dest = None" "\<not> ae_other env dest"
  shows "\<exists>w1 d w2 pc w3 out.
     uploadAssetChunk A cenv w \<lparr>ci_upload = i, ci_offset = ue_received e, ci_content = b\<rparr> = (w1, Inr d) \<and>
     commit_prepare A pg cfg env w1 \<lparr>co_upload = i, co_sha = '''', co_key = '''', co_change_set = '''', co_dry_run = False\<rparr>
       = (w2, Inr (Waiting pc)) \<and>
     commit_finish A pg env w2 pc = (w3, Inr out) \<and> gget (aw_files w3) dest = Some data"
proof -
  note inv0 = upload_run_inv [OF run root]
  have inv: "store_inv A pg L (store_files w)" using inv0 by (simp add: upload_inv_def)
  have e': "gget (us_entries (fst (store_files w))) i = Some e"
    "gget (snd (store_files w)) (ue_staging e) = Some (take n data)"
    using e data(4) by (simp_all add: store_files_def)
  have static: "entry_static pg i e" using store_invD [OF inv e'(1)] by blast
  note D = dest_in_bundle [OF static root dest(1)]
  obtain sf1 r1 where a: "appendChunk (al_sha A) (uv_stuck cenv) False None (ae_now cenv) (store_files w) i (ue_caller e)
      (ue_received e) (drop n data) = (sf1, r1)" by fastforce
  have fits: "ue_received e + int (length (drop n data)) = ue_size e" using data(1-3) by simp
  note N = append_next [OF inv root e'(1) now(1) eq_refl [OF fits] e'(2) a]
  obtain ch where one: "r1 = Inr (ChunkAccepted, ue_size e)" "gget (snd sf1) (ue_staging e) = Some data"
    "gget (us_entries (fst sf1)) i = Some (e\<lparr>ue_chunks := ch, ue_received := ue_size e\<rparr>)"
    using N(2) fits by auto
  let ?e = "e\<lparr>ue_chunks := ch, ue_received := ue_size e\<rparr>"
  obtain L1 where inv1: "store_inv A pg L1 sf1"
    using append_inv [OF inv _ root _ a, of "[]"] data(3) by auto
  obtain sf2 where g: "upload_get (uv_stuck cenv) (uv_later cenv) sf1 i (ue_caller e) = (sf2, Some ?e)"
    "sf2 = pruneExpired (uv_stuck cenv) (uv_later cenv) sf1"
    using prune_keep_live(1) [OF inv1 root one(3)] now(2) by (simp add: upload_get_def Let_def)
  have two: "gget (us_entries (fst sf2)) i = Some ?e" "gget (snd sf2) (ue_staging e) = Some data"
    "gget (snd sf2) dest = None"
    using prune_keep_live [OF inv1 root one(3), of "uv_later cenv"] now(2) one(2) g(2) N(3) D dest(3)
      prune_keep_visible [OF _ root, of A L1 "fst sf1" "snd sf1" dest "uv_stuck cenv" "uv_later cenv" "snd sf1"] inv1
    by (auto simp: store_files_def)
  have inv2: "store_inv A pg L1 sf2" unfolding g(2) by (rule store_inv_shrinks [OF inv1 prune_shrinks root])
  let ?w1 = "with_store w sf2"
  have chunk_ok: "\<exists>d. uploadAssetChunk A cenv w \<lparr>ci_upload = i, ci_offset = ue_received e, ci_content = b\<rparr> = (?w1, Inr d)"
    using i data a g one(1) own chunk by (simp add: uploadAssetChunk_def Let_def)
  let ?inp = "\<lparr>co_upload = i, co_sha = '''', co_key = '''', co_change_set = '''', co_dry_run = False\<rparr>"
  let ?cs = "DefaultID (MutationKey ctx)"
  let ?sf3 = "pruneExpired (uv_stuck env) (ae_now env) sf2"
  let ?w2 = "with_store ?w1 ?sf3"
  have three: "gget (us_entries (fst ?sf3)) i = Some ?e" "gget (snd ?sf3) (ue_staging e) = Some data"
    "gget (snd ?sf3) dest = None"
    using prune_keep_live [OF inv2 root two(1), of "ae_now env"] now(3) two D
      prune_keep_visible [OF _ root, of A L1 "fst sf2" "snd sf2" dest "uv_stuck env" "ae_now env" "snd sf2"] inv2
    by auto
  let ?pc = "\<lparr>pc_upload = i, pc_entry = ?e, pc_data = data, pc_idem_hash = '''', pc_key = '''', pc_change_set = ?cs,
      pc_dest = dest, pc_ctx = ctx, pc_now = ae_now env,
      pc_path = LogicalContentPath (ac_content_root cfg) (path_join [ue_dir e, ue_filename e])\<rparr>"
  have res: "Resolve rf tf ctx r '''' t = (r, Inr ?cs)" for rf tf r t
    by (simp add: Resolve_def checkOwnership_def)
  have checks: "commit_checks A ?e data '''' = None"
    using good by (auto simp: commit_checks_def validateExpectedSha256_def)
  have "commit_place A pg cfg env ?w2 ?inp False i ?cs ?e data = (?w2, Inr (Waiting ?pc))"
    using dest three(3) commit own(3) by (simp add: commit_place_def asset_replay_def stat_new_def)
  then have prep: "commit_prepare A pg cfg env ?w1 ?inp = (?w2, Inr (Waiting ?pc))"
    using i own commit three res checks
    by (simp add: commit_prepare_def validateIdempotencyKey_def upload_get_def Let_def with_store_def store_files_def)
  have "\<exists>w3 out. commit_finish A pg env ?w2 ?pc = (w3, Inr out) \<and> gget (aw_files w3) dest = Some data"
  proof -
    let ?fs = "gput (gdel (snd ?sf3) (ue_staging e)) dest data"
    have S3: "store_inv A pg L1 (fst ?sf3, snd ?sf3)"
      using store_inv_shrinks [OF inv2 prune_shrinks root, of "uv_stuck env" "ae_now env"] by simp
    have vis: "gget (snd (pruneExpired (uv_stuck env) (ae_now env) (fst ?sf3, ?fs))) dest = Some data"
      using prune_keep_visible [OF S3 root, of dest "uv_stuck env" "ae_now env" ?fs] D by simp
    obtain w3 out where f: "commit_finish A pg env ?w2 ?pc = (w3, Inr out)"
      using commit dest three by (simp add: commit_finish_def stat_new_def Let_def)
    then have "store_files w3 = fst (upload_consume (uv_stuck env) (ae_now env) (fst ?sf3, ?fs) i (isolationCallerKey ctx))"
      using three(2) by (cases rule: finish_cases) auto
    then have "aw_files w3 = snd (pruneExpired (uv_stuck env) (ae_now env) (fst ?sf3, ?fs))"
      by (auto simp: upload_consume_def upload_get_def Let_def store_files_def split: prod.splits option.splits if_splits)
    then show ?thesis using f vis by auto
  qed
  then show ?thesis using chunk_ok prep by blast
qed

lemma upload_completes_witness:
  "\<exists>w1 d w2 pc w3 out.
     uploadAssetChunk demo_lib demo_env (demo_staged [] []) \<lparr>ci_upload = ''upload_1'', ci_offset = 0, ci_content = ''QUI=''\<rparr>
       = (w1, Inr d) \<and>
     commit_prepare demo_lib demo_guard demo_config demo_env w1
       \<lparr>co_upload = ''upload_1'', co_sha = '''', co_key = '''', co_change_set = '''', co_dry_run = False\<rparr>
       = (w2, Inr (Waiting pc)) \<and>
     commit_finish demo_lib demo_guard demo_env w2 pc = (w3, Inr out) \<and> gget (aw_files w3) ''/c/p/a.png'' = Some ''AB''"
proof -
  let ?e = "demo_entry []"
  have e: "gget (us_entries (uw_store (demo_staged [] []))) ''upload_1'' = Some ?e"
    "gget (aw_files (demo_staged [] [])) (ue_staging ?e) = Some (take 0 ''AB'')"
    "gget (aw_files (demo_staged [] [])) ''/c/p/a.png'' = None"
    by (simp_all add: demo_staged_def demo_entry_def demo_staging_def)
  have now: "0 \<le> chunkedUploadTTL" by (simp add: chunkedUploadTTL_def minute_def)
  have "trim_space ''image/png'' = ''image/png''" by (simp add: go_str)
  then have ok: "validateAssetBytes demo_lib ''AB'' (ue_ext ?e) (ue_mime ?e) = None"
    by (simp add: validateAssetBytes_def demo_lib_def demo_entry_def maxAssetBytes_def)
  have j: "SafeJoin v demo_guard (path_join [''p'', ''a.png'']) = Inr ''/c/p/a.png''" for v
    by (simp add: SafeJoin_def demo_guard_def path_clean_def clean_segs_def is_abs_def clean_elem_def path_join_def WithinRoot_def)
  have b: "validateBundleSlug (ae_page_locked demo_env) ''p'' = None"
    by (simp add: demo_env_def validateBundleSlug_def path_base_def strip_slashes_def)
  have r: "RevalidateForWrite v demo_guard x = None" for v x by (simp add: RevalidateForWrite_def demo_guard_def)
  show ?thesis
    using upload_completes [OF demo_run_begun demo_root e(1) demo_trim, of "ae_ctx demo_env" demo_env demo_env "''AB''" 0
        "''QUI=''" "''/c/p/a.png''"] e(2,3) now ok j b r demo_caller demo_decode
    by (simp add: demo_entry_def demo_env_def demo_config_def)
qed

end
