(* ===== verification/Recovery.thy ===== *)
theory Recovery
  imports FileUtil Idempotency ChangeSet
begin

text \<open>
  Revisions (\<open>internal/contentmodel/revision.go\<close>), the recovery journal of the write tools
  (\<open>internal/tools/write/recovery.go\<close>, its table in \<open>internal/db/db.go\<close>) and its reconciliation at
  start-up (\<open>internal/server/server.go\<close>). \<open>sha\<close> is the hexadecimal SHA-256 of a text; JSON coding is a
  parameter. The errors of system calls are arguments.
\<close>

section \<open>Revisions\<close>

definition SourceRevisionBytes :: "(string \<Rightarrow> string) \<Rightarrow> string \<Rightarrow> string" where
  "SourceRevisionBytes sha raw = ''sha256:'' @ sha raw"

definition SourceRevision :: "(string \<Rightarrow> string) \<Rightarrow> (string \<Rightarrow> bool) \<Rightarrow> files \<Rightarrow> string \<Rightarrow> string go" where
  "SourceRevision sha unreadable fs path =
     (case (unreadable path, gget fs path) of
        (False, Some raw) \<Rightarrow> Inr (SourceRevisionBytes sha raw)
      | _ \<Rightarrow> Inl ''read source for revision'')"

definition bundle_files :: "files \<Rightarrow> string \<Rightarrow> (string \<times> string) list" where
  "bundle_files fs dir =
     sort_key fst (map (\<lambda>(p, c). (drop (length dir + 1) p, c)) (filter (\<lambda>(p, c). has_prefix (dir @ ''/'') p) fs))"

definition encode_file :: "string \<times> string \<Rightarrow> string" where
  "encode_file f =
     dec_nat (length (fst f)) @ '':'' @ fst f @ [CHR 0x0A] @ dec_nat (length (snd f)) @ '':'' @ snd f @ [CHR 0x0A]"

text \<open>A directory that is missing or cannot be walked is one that \<open>unreadable\<close> holds of.\<close>

definition BundleRevision :: "(string \<Rightarrow> string) \<Rightarrow> (string \<Rightarrow> bool) \<Rightarrow> files \<Rightarrow> string \<Rightarrow> string go" where
  "BundleRevision sha unreadable fs dir =
     (if unreadable dir then Inl ''walk bundle for revision''
      else if list_ex (\<lambda>(p, c). has_prefix (dir @ ''/'') p \<and> unreadable p) fs then Inl ''read bundle file for revision''
      else Inr (''sha256:'' @ sha (concat (map encode_file (bundle_files fs dir)))))"

text \<open>The directory listing gives names with the flag of a directory.\<close>

fun bundle_translations :: "string \<Rightarrow> (string \<times> bool) list \<Rightarrow> (string, string) gomap \<Rightarrow> (string, string) gomap" where
  "bundle_translations dir [] out = out"
| "bundle_translations dir ((name, is_dir) # es) out =
     bundle_translations dir es
       (if is_dir \<or> \<not> has_suffix ''.md'' name then out
        else if name = ''index.md'' then gput out '''' (path_join [dir, name])
        else if has_prefix ''index.'' name then
          (let lang = trim_suffix ''.md'' (trim_prefix ''index.'' name)
           in if lang \<noteq> '''' then gput out lang (path_join [dir, name]) else out)
        else out)"

definition BundleTranslations ::
    "(string \<Rightarrow> (string \<times> bool) list option) \<Rightarrow> string \<Rightarrow> (string, string) gomap go" where
  "BundleTranslations ls dir =
     (case ls dir of None \<Rightarrow> Inl ''read bundle dir'' | Some es \<Rightarrow> Inr (bundle_translations dir es []))"

section \<open>The journal table\<close>

record recovery_entry =
  re_id :: string
  re_kind :: string
  re_state :: string
  re_payload :: string
  re_updated :: time

definition RecordRecovery ::
    "bool \<Rightarrow> time \<Rightarrow> recovery_table \<Rightarrow> recovery_entry \<Rightarrow> recovery_table \<times> string option" where
  "RecordRecovery fails now t e =
     (if re_id e = '''' \<or> re_kind e = '''' \<or> re_state e = ''''
      then (t, Some ''recovery journal: operation_id, kind, and state are required'')
      else
        (let at = (if re_updated e = zero_time then now else re_updated e)
         in if fails then (t, Some ''exec'')
            else (gput t (re_id e)
                    \<lparr>rc_kind = (case gget t (re_id e) of None \<Rightarrow> re_kind e | Some row \<Rightarrow> rc_kind row),
                     rc_state = re_state e, rc_payload = re_payload e, rc_updated = at\<rparr>, None)))"

text \<open>\<open>order\<close> is SQLite's arrangement of the selected rows by the text of their time.\<close>

definition PendingRecovery ::
    "((string \<times> recovery_row) list \<Rightarrow> (string \<times> recovery_row) list) \<Rightarrow> bool \<Rightarrow> recovery_table \<Rightarrow>
     recovery_entry list go" where
  "PendingRecovery order fails t =
     (if fails then Inl ''query''
      else Inr (map (\<lambda>(i, row). \<lparr>re_id = i, re_kind = rc_kind row, re_state = rc_state row,
                                 re_payload = rc_payload row, re_updated = rc_updated row\<rparr>)
             (order (filter (\<lambda>(i, row). rc_state row \<noteq> ''committed'' \<and> rc_state row \<noteq> ''reconciled'') t))))"

section \<open>Recording an operation\<close>

record recovery_idem =
  ri_caller :: string
  ri_tool :: string
  ri_key :: string
  ri_hash :: string
  ri_result :: string

record recovery_file =
  rf_path :: string
  rf_before :: "string option"
  rf_after :: "string option"

record source_recovery =
  sr_path :: string
  sr_before :: string
  sr_after :: string
  sr_idem :: "recovery_idem option"
  sr_cleanup :: "string list"

record bundle_recovery =
  br_dir :: string
  br_files :: "recovery_file list"
  br_idem :: "recovery_idem option"
  br_cleanup :: "string list"

datatype recovery_payload = SourceWrite source_recovery | BundleWrite bundle_recovery

record recovery_operation =
  op_id :: string
  op_kind :: string
  op_payload :: recovery_payload

text \<open>\<open>seed\<close> is the fallback answer that a restart replays when the handler did not get to stage its own.\<close>

definition recoveryIdempotencyFor ::
    "call_ctx \<Rightarrow> string \<Rightarrow> string \<Rightarrow> string \<Rightarrow> string \<Rightarrow> recovery_idem option" where
  "recoveryIdempotencyFor ctx tool key requestHash seed =
     (if key = '''' then None
      else Some \<lparr>ri_caller = idempotencyCallerKey ctx, ri_tool = tool, ri_key = key, ri_hash = requestHash,
                 ri_result = seed\<rparr>)"

text \<open>\<open>random\<close> is the hexadecimal text of twelve random bytes.\<close>

definition newRecoveryOperationID :: "string option \<Rightarrow> string go" where
  "newRecoveryOperationID random = (case random of None \<Rightarrow> Inl ''rand'' | Some h \<Rightarrow> Inr (''src_'' @ h))"

definition op_record ::
    "(recovery_payload \<Rightarrow> string option) \<Rightarrow> bool \<Rightarrow> time \<Rightarrow> recovery_table option \<Rightarrow> recovery_operation \<Rightarrow> string \<Rightarrow>
     recovery_table option \<times> string option" where
  "op_record enc fails now journal op state =
     (case journal of
        None \<Rightarrow> (None, None)
      | Some t \<Rightarrow>
          if op_id op = '''' then (Some t, None)
          else (case enc (op_payload op) of
                  None \<Rightarrow> (Some t, Some ''marshal'')
                | Some payload \<Rightarrow>
                    (case RecordRecovery fails now t \<lparr>re_id = op_id op, re_kind = op_kind op, re_state = state,
                            re_payload = payload, re_updated = now\<rparr> of
                       (t', err) \<Rightarrow> (Some t', err))))"

definition beginRecovery ::
    "(recovery_payload \<Rightarrow> string option) \<Rightarrow> string option \<Rightarrow> bool \<Rightarrow> time \<Rightarrow> recovery_table option \<Rightarrow> string \<Rightarrow>
     recovery_payload \<Rightarrow> recovery_table option \<times> recovery_operation go" where
  "beginRecovery enc random fails now journal kind payload =
     (case journal of
        None \<Rightarrow> (None, Inr \<lparr>op_id = '''', op_kind = kind, op_payload = payload\<rparr>)
      | Some t \<Rightarrow>
          (case newRecoveryOperationID random of
             Inl e \<Rightarrow> (Some t, Inl ''new recovery operation id'')
           | Inr i \<Rightarrow>
               (let op = \<lparr>op_id = i, op_kind = kind, op_payload = payload\<rparr>
                in case op_record enc fails now (Some t) op ''in_progress'' of
                     (journal', Some err) \<Rightarrow> (journal', Inl err)
                   | (journal', None) \<Rightarrow> (journal', Inr op))))"

definition beginSourceWriteRecovery where
  "beginSourceWriteRecovery enc random fails now journal path beforeRevision afterRevision idem cleanupPaths =
     beginRecovery enc random fails now journal ''content_write''
       (SourceWrite \<lparr>sr_path = path_clean path, sr_before = beforeRevision, sr_after = afterRevision,
                     sr_idem = idem, sr_cleanup = map path_clean cleanupPaths\<rparr>)"

definition beginBundleWriteRecovery where
  "beginBundleWriteRecovery enc random fails now journal dir rfiles idem cleanupPaths =
     beginRecovery enc random fails now journal ''bundle_write''
       (BundleWrite \<lparr>br_dir = path_clean dir, br_files = rfiles, br_idem = idem,
                     br_cleanup = map path_clean cleanupPaths\<rparr>)"

definition stage_payload :: "string \<Rightarrow> recovery_payload \<Rightarrow> recovery_payload" where
  "stage_payload raw p =
     (let put = map_option (\<lambda>idem. idem\<lparr>ri_result := raw\<rparr>)
      in case p of
           SourceWrite r \<Rightarrow> SourceWrite (r\<lparr>sr_idem := put (sr_idem r)\<rparr>)
         | BundleWrite r \<Rightarrow> BundleWrite (r\<lparr>br_idem := put (br_idem r)\<rparr>))"

text \<open>\<open>result\<close> is the coded answer; the returned operation carries it.\<close>

definition stageResult ::
    "(recovery_payload \<Rightarrow> string option) \<Rightarrow> bool \<Rightarrow> time \<Rightarrow> recovery_table option \<Rightarrow> recovery_operation \<Rightarrow>
     string option \<Rightarrow> recovery_table option \<times> recovery_operation go" where
  "stageResult enc fails now journal op result =
     (if journal = None \<or> op_id op = '''' then (journal, Inr op)
      else (case result of
              None \<Rightarrow> (journal, Inl ''marshal'')
            | Some raw \<Rightarrow>
                (let op' = op\<lparr>op_payload := stage_payload raw (op_payload op)\<rparr>
                 in case op_record enc fails now journal op' ''file_written'' of
                      (journal', Some err) \<Rightarrow> (journal', Inl err)
                    | (journal', None) \<Rightarrow> (journal', Inr op'))))"

definition recoveryFile :: "string \<Rightarrow> string option \<Rightarrow> string option \<Rightarrow> recovery_file" where
  "recoveryFile path old new = \<lparr>rf_path = path_clean path, rf_before = old, rf_after = new\<rparr>"

definition captureBundleRecoveryFile ::
    "(string \<Rightarrow> bool) \<Rightarrow> files \<Rightarrow> string \<Rightarrow> string option \<Rightarrow> recovery_file go" where
  "captureBundleRecoveryFile unreadable fs path after =
     (if unreadable path then Inl ''read'' else Inr (recoveryFile path (gget fs path) after))"

section \<open>Reconciliation at start-up\<close>

text \<open>The payload as the server decodes it; a member that is absent is empty.\<close>

record server_payload =
  sp_path :: string
  sp_bundle_dir :: string
  sp_before :: string
  sp_after :: string
  sp_files :: "recovery_file list"
  sp_idem :: "recovery_idem option"
  sp_cleanup :: "string list"

definition server_view :: "recovery_payload \<Rightarrow> server_payload" where
  "server_view p =
     (case p of
        SourceWrite r \<Rightarrow> \<lparr>sp_path = sr_path r, sp_bundle_dir = '''', sp_before = sr_before r, sp_after = sr_after r,
          sp_files = [], sp_idem = sr_idem r, sp_cleanup = sr_cleanup r\<rparr>
      | BundleWrite r \<Rightarrow> \<lparr>sp_path = '''', sp_bundle_dir = br_dir r, sp_before = '''', sp_after = '''',
          sp_files = br_files r, sp_idem = br_idem r, sp_cleanup = br_cleanup r\<rparr>)"

definition recoveryPathAllowed :: "string \<Rightarrow> string \<Rightarrow> bool" where
  "recoveryPathAllowed contentRoot path \<longleftrightarrow> contentRoot \<noteq> '''' \<and> path \<noteq> '''' \<and>
     (case path_rel (path_clean contentRoot) (path_clean path) of
        None \<Rightarrow> False | Some rel \<Rightarrow> rel \<noteq> ''..'' \<and> \<not> has_prefix ''../'' rel)"

text \<open>What start-up meets: files that cannot be read or removed, and the errors of writes.\<close>

record recovery_env =
  rv_unreadable :: "string \<Rightarrow> bool"
  rv_stuck :: "string \<Rightarrow> bool"
  rv_stuck_tree :: "string \<Rightarrow> (string \<Rightarrow> bool) option"
  rv_write :: "string \<Rightarrow> atomic_faults"
  rv_view :: fs_view
  rv_cwd :: "string option"
  rv_content_root :: string
  rv_reject_symlinks :: bool

text \<open>
  \<open>os.RemoveAll\<close>: everything at or below a path; when it fails, the files that remain are given.
\<close>

definition remove_all :: "(string \<Rightarrow> bool) option \<Rightarrow> files \<Rightarrow> string \<Rightarrow> files \<times> bool" where
  "remove_all stuck fs p =
     (let below_p = (\<lambda>q. q = p \<or> has_prefix (p @ ''/'') q)
      in case stuck of
           None \<Rightarrow> (gkeep (\<lambda>q c. \<not> below_p q) fs, True)
         | Some remains \<Rightarrow> (gkeep (\<lambda>q c. \<not> below_p q \<or> remains q) fs, False))"

definition observedRecoveryRevision ::
    "(string \<Rightarrow> string) \<Rightarrow> recovery_env \<Rightarrow> files \<Rightarrow> string \<Rightarrow> (string \<times> bool) go" where
  "observedRecoveryRevision sha env fs path =
     (if rv_unreadable env path then Inl ''read''
      else (case gget fs path of
              None \<Rightarrow> Inr ('''', False) | Some raw \<Rightarrow> Inr (SourceRevisionBytes sha raw, True)))"

definition recoveryFileMatches :: "recovery_env \<Rightarrow> files \<Rightarrow> string \<Rightarrow> string option \<Rightarrow> bool go" where
  "recoveryFileMatches env fs path expected =
     (if rv_unreadable env path then Inl ''read'' else Inr (gget fs path = expected))"

text \<open>The first loop: \<open>None\<close> leaves the operation pending.\<close>

fun classify_files ::
    "recovery_env \<Rightarrow> string \<Rightarrow> files \<Rightarrow> recovery_file list \<Rightarrow> bool \<Rightarrow> bool \<Rightarrow> (bool \<times> bool) option go" where
  "classify_files env dir fs [] allBefore allAfter = Inr (Some (allBefore, allAfter))"
| "classify_files env dir fs (f # rest) allBefore allAfter =
     (if \<not> recoveryPathAllowed (rv_content_root env) (rf_path f) \<or> \<not> recoveryPathAllowed dir (rf_path f)
      then Inr None
      else (case recoveryFileMatches env fs (rf_path f) (rf_before f) of
              Inl err \<Rightarrow> Inl err
            | Inr was_before \<Rightarrow>
                (case recoveryFileMatches env fs (rf_path f) (rf_after f) of
                   Inl err \<Rightarrow> Inl err
                 | Inr is_after \<Rightarrow>
                     if \<not> was_before \<and> \<not> is_after then Inr None
                     else classify_files env dir fs rest (allBefore \<and> was_before) (allAfter \<and> is_after))))"

fun restore_before ::
    "recovery_env \<Rightarrow> path_guard \<Rightarrow> recovery_file list \<Rightarrow> files \<Rightarrow> files \<times> string option" where
  "restore_before env pg [] fs = (fs, None)"
| "restore_before env pg (f # rest) fs =
     (case rf_before f of
        None \<Rightarrow>
          (case RevalidateForWrite (rv_view env) pg (rf_path f) of
             Some err \<Rightarrow> (fs, Some err)
           | None \<Rightarrow>
               if rv_stuck env (rf_path f) \<and> gget fs (rf_path f) \<noteq> None then (fs, Some ''remove'')
               else restore_before env pg rest (gdel fs (rf_path f)))
      | Some content \<Rightarrow>
          (case AtomicWriteChecked (rv_write env (rf_path f)) (rv_view env) (rv_view env) pg fs (rf_path f) content of
             (fs', Some err) \<Rightarrow> (fs', Some err)
           | (fs', None) \<Rightarrow> restore_before env pg rest fs'))"

fun clean_bundle :: "recovery_env \<Rightarrow> string \<Rightarrow> string list \<Rightarrow> bool \<Rightarrow> files \<Rightarrow> files \<times> bool option go" where
  "clean_bundle env dir [] changed fs = (fs, Inr (Some changed))"
| "clean_bundle env dir (p # ps) changed fs =
     (if \<not> recoveryPathAllowed (rv_content_root env) p \<or> \<not> recoveryPathAllowed dir p then (fs, Inr None)
      else (case remove_all (rv_stuck_tree env p) fs p of
              (fs', False) \<Rightarrow> (fs', Inl ''remove all'')
            | (fs', True) \<Rightarrow> clean_bundle env dir ps True fs'))"

text \<open>The answer is \<open>(resolved, changed, landed)\<close>.\<close>

definition reconcileBundleFiles ::
    "recovery_env \<Rightarrow> server_payload \<Rightarrow> files \<Rightarrow> files \<times> (bool \<times> bool \<times> bool) go" where
  "reconcileBundleFiles env payload fs =
     (if sp_files payload = [] then (fs, Inr (False, False, False))
      else (case classify_files env (sp_bundle_dir payload) fs (sp_files payload) True True of
              Inl err \<Rightarrow> (fs, Inl err)
            | Inr None \<Rightarrow> (fs, Inr (False, False, False))
            | Inr (Some (allBefore, allAfter)) \<Rightarrow>
                if allBefore then (fs, Inr (True, False, False))
                else if allAfter then
                  (case clean_bundle env (sp_bundle_dir payload) (sp_cleanup payload) False fs of
                     (fs', Inl err) \<Rightarrow> (fs', Inl err)
                   | (fs', Inr None) \<Rightarrow> (fs', Inr (False, False, False))
                   | (fs', Inr (Some changed)) \<Rightarrow> (fs', Inr (True, changed, True)))
                else
                  (case NewGuard (rv_view env) (rv_cwd env) (rv_content_root env) (rv_reject_symlinks env) of
                     Inl err \<Rightarrow> (fs, Inl err)
                   | Inr pg \<Rightarrow>
                       (case restore_before env pg (sp_files payload) fs of
                          (fs', Some err) \<Rightarrow> (fs', Inl err)
                        | (fs', None) \<Rightarrow> (fs', Inr (True, True, False))))))"

fun clean_source :: "recovery_env \<Rightarrow> string list \<Rightarrow> bool \<Rightarrow> files \<Rightarrow> files \<times> bool \<times> bool" where
  "clean_source env [] changed fs = (fs, True, changed)"
| "clean_source env (p # ps) changed fs =
     (if \<not> recoveryPathAllowed (rv_content_root env) p then (fs, False, changed)
      else (case remove_all (rv_stuck_tree env p) fs p of
              (fs', False) \<Rightarrow> (fs', False, changed)
            | (fs', True) \<Rightarrow> clean_source env ps True fs'))"

text \<open>One pending entry: the files, whether it was resolved and landed, and whether files changed.\<close>

definition prepare_entry ::
    "(string \<Rightarrow> string) \<Rightarrow> (string \<Rightarrow> server_payload option) \<Rightarrow> recovery_env \<Rightarrow> recovery_entry \<Rightarrow> files \<Rightarrow>
     files \<times> bool option \<times> bool" where
  "prepare_entry sha dec env e fs =
     (if re_state e \<noteq> ''in_progress'' \<and> re_state e \<noteq> ''file_written'' then (fs, None, False)
      else if re_kind e \<noteq> ''content_write'' \<and> re_kind e \<noteq> ''bundle_write'' then (fs, None, False)
      else (case dec (re_payload e) of
        None \<Rightarrow> (fs, None, False)
      | Some payload \<Rightarrow>
          if re_kind e = ''bundle_write'' then
            (case reconcileBundleFiles env payload fs of
               (fs', Inl err) \<Rightarrow> (fs', None, False)
             | (fs', Inr (resolved, changed, landed)) \<Rightarrow>
                 if \<not> resolved then (fs', None, False) else (fs', Some landed, changed))
          else if \<not> recoveryPathAllowed (rv_content_root env) (sp_path payload) then (fs, None, False)
          else (case observedRecoveryRevision sha env fs (sp_path payload) of
            Inl err \<Rightarrow> (fs, None, False)
          | Inr (observed, present) \<Rightarrow>
              if \<not> (present \<and> (observed = sp_before payload \<or> observed = sp_after payload) \<or>
                    \<not> present \<and> (sp_before payload = '''' \<or> sp_after payload = '''')) then (fs, None, False)
              else if present \<and> observed = sp_after payload \<or> \<not> present \<and> sp_after payload = '''' then
                (case clean_source env (sp_cleanup payload) False fs of
                   (fs', ok, changed) \<Rightarrow> (fs', if ok then Some True else None, changed))
              else (fs, Some False, False))))"

fun prepare_entries ::
    "(string \<Rightarrow> string) \<Rightarrow> (string \<Rightarrow> server_payload option) \<Rightarrow> recovery_env \<Rightarrow> recovery_entry list \<Rightarrow> files \<Rightarrow>
     (recovery_entry \<times> bool) list \<Rightarrow> bool \<Rightarrow> files \<times> (recovery_entry \<times> bool) list \<times> bool" where
  "prepare_entries sha dec env [] fs acc changed = (fs, acc, changed)"
| "prepare_entries sha dec env (e # es) fs acc changed =
     (case prepare_entry sha dec env e fs of
        (fs', r, ch) \<Rightarrow>
          prepare_entries sha dec env es fs' (case r of None \<Rightarrow> acc | Some landed \<Rightarrow> acc @ [(e, landed)])
            (changed \<or> ch))"

definition prepareMutationRecovery ::
    "(string \<Rightarrow> string) \<Rightarrow> (string \<Rightarrow> server_payload option) \<Rightarrow>
     ((string \<times> recovery_row) list \<Rightarrow> (string \<times> recovery_row) list) \<Rightarrow> bool \<Rightarrow> recovery_env \<Rightarrow> recovery_table \<Rightarrow> files \<Rightarrow>
     files \<times> (recovery_entry \<times> bool) list \<times> bool" where
  "prepareMutationRecovery sha dec order fails env t fs =
     (case PendingRecovery order fails t of
        Inl err \<Rightarrow> (fs, [], False)
      | Inr pending \<Rightarrow> prepare_entries sha dec env pending fs [] False)"

text \<open>\<open>fl\<close> says which statements fail for an entry: the journal of answers, the recovery journal.\<close>

definition commit_entry ::
    "(string \<Rightarrow> server_payload option) \<Rightarrow> (string \<Rightarrow> bool \<times> bool) \<Rightarrow> time \<Rightarrow> recovery_entry \<times> bool \<Rightarrow>
     mutation_table \<times> recovery_table \<Rightarrow> mutation_table \<times> recovery_table" where
  "commit_entry dec fl now el mt =
     (case (el, mt) of ((e, landed), (m, t)) \<Rightarrow>
        (case dec (re_payload e) of
           None \<Rightarrow> (m, t)
         | Some payload \<Rightarrow>
             (let close = fst (RecordRecovery (snd (fl (re_id e))) now t (e\<lparr>re_state := ''reconciled''\<rparr>))
              in case sp_idem payload of
                   Some idem \<Rightarrow>
                     if landed \<and> ri_result idem \<noteq> '''' then
                       (case RememberMutation (no_faults\<lparr>io_write := fst (fl (re_id e))\<rparr>) now m (ri_caller idem)
                               (ri_tool idem) (ri_key idem)
                               \<lparr>mr_hash = ri_hash idem, mr_result = ri_result idem, mr_created = re_updated e\<rparr> of
                          (m', Some err) \<Rightarrow> (m', t)
                        | (m', None) \<Rightarrow> (m', close))
                     else (m, close)
                 | None \<Rightarrow> (m, close))))"

definition commitRecoveryReconciliation ::
    "(string \<Rightarrow> server_payload option) \<Rightarrow> (string \<Rightarrow> bool \<times> bool) \<Rightarrow> time \<Rightarrow> (recovery_entry \<times> bool) list \<Rightarrow>
     mutation_table \<times> recovery_table \<Rightarrow> mutation_table \<times> recovery_table" where
  "commitRecoveryReconciliation dec fl now entries mt = fold (commit_entry dec fl now) entries mt"

definition reconcileBuildRecoveryJournal ::
    "((string \<times> recovery_row) list \<Rightarrow> (string \<times> recovery_row) list) \<Rightarrow> bool \<Rightarrow> (string \<Rightarrow> bool) \<Rightarrow> time \<Rightarrow>
     recovery_table \<Rightarrow> recovery_table" where
  "reconcileBuildRecoveryJournal order fails wfails now t =
     (case PendingRecovery order fails t of
        Inl err \<Rightarrow> t
      | Inr pending \<Rightarrow>
          fold (\<lambda>e t. if re_kind e \<noteq> ''build'' \<or> re_state e \<noteq> ''in_progress'' \<and> re_state e \<noteq> ''file_written'' then t
                      else fst (RecordRecovery (wfails (re_id e)) now t (e\<lparr>re_state := ''reconciled''\<rparr>)))
            pending t)"

section \<open>A revision stands for the bundle's files\<close>

lemma dec_nat_no_colon: "CHR '':'' \<notin> set (dec_nat n)"
  using dec_nat_digits [of "CHR '':''" n] by auto

lemma split_at_first:
  "x \<notin> set a \<Longrightarrow> x \<notin> set b \<Longrightarrow> a @ x # s = b @ x # t \<longleftrightarrow> a = b \<and> s = t"
  by (auto simp: append_eq_append_conv2 Cons_eq_append_conv append_eq_Cons_conv)

lemma length_prefix_inj:
  "dec_nat (length a) @ '':'' @ a @ s = dec_nat (length b) @ '':'' @ b @ t \<longleftrightarrow> a = b \<and> s = t"
  using split_at_first [OF dec_nat_no_colon dec_nat_no_colon, of "length a" "a @ s" "length b" "b @ t"] by auto

lemma encode_file_inj: "encode_file f @ s = encode_file g @ t \<longleftrightarrow> f = g \<and> s = t"
  using length_prefix_inj [of "fst f" "[CHR 0x0A] @ dec_nat (length (snd f)) @ '':'' @ snd f @ [CHR 0x0A] @ s"
          "fst g" "[CHR 0x0A] @ dec_nat (length (snd g)) @ '':'' @ snd g @ [CHR 0x0A] @ t"]
    length_prefix_inj [of "snd f" "[CHR 0x0A] @ s" "snd g" "[CHR 0x0A] @ t"]
  by (auto simp: encode_file_def prod_eq_iff)

lemma encode_file_nonempty [simp]: "encode_file f \<noteq> []"
  by (simp add: encode_file_def)

lemma encode_files_inj: "concat (map encode_file fs) = concat (map encode_file gs) \<longleftrightarrow> fs = gs"
proof (induction fs arbitrary: gs)
  case Nil
  then show ?case by (cases gs) auto
next
  case (Cons f fs)
  show ?case
  proof (cases gs)
    case Nil
    then show ?thesis by simp
  next
    case (Cons g gs')
    then show ?thesis using Cons.IH encode_file_inj by simp
  qed
qed

lemma bundle_files_get:
  assumes "wf_map fs"
  shows "map_of (bundle_files fs dir) r = gget fs (dir @ ''/'' @ r)"
    and "distinct (map fst (bundle_files fs dir))"
proof -
  let ?P = "\<lambda>(p, c). has_prefix (dir @ ''/'') p"
  let ?g = "\<lambda>(p, c). (drop (length dir + 1) p, c)"
  have inj: "x \<in> set (filter ?P fs) \<Longrightarrow> y \<in> set (filter ?P fs) \<Longrightarrow> fst (?g x) = fst (?g y) \<Longrightarrow> fst x = fst y" for x y
    by (auto simp: has_prefix_iff)
  have d0: "distinct (map fst (filter ?P fs))"
    using assms by (simp add: wf_map_def distinct_fst_filter)
  have "inj_on (fst \<circ> ?g) (set (filter ?P fs))"
  proof (rule inj_onI)
    fix x y
    assume xy: "x \<in> set (filter ?P fs)" "y \<in> set (filter ?P fs)" "(fst \<circ> ?g) x = (fst \<circ> ?g) y"
    then have "fst x = fst y"
      using inj [of x y] by simp
    then show "x = y"
      using d0 xy by (metis distinct_map inj_onD)
  qed
  then have "distinct (map (fst \<circ> ?g) (filter ?P fs))"
    using d0 by (simp add: distinct_map)
  then have d: "distinct (map fst (map ?g (filter ?P fs)))"
    by (simp only: map_map)
  show dd: "distinct (map fst (bundle_files fs dir))"
    using d by (simp add: bundle_files_def distinct_map del: map_map)
  have "(r, c) \<in> set (bundle_files fs dir) \<longleftrightarrow> (dir @ ''/'' @ r, c) \<in> set fs" for c
    by (force simp: bundle_files_def has_prefix_iff)
  then have "map_of (bundle_files fs dir) r = Some c \<longleftrightarrow> gget fs (dir @ ''/'' @ r) = Some c" for c
    using dd assms by (metis in_set_gget map_of_eq_Some_iff)
  then show "map_of (bundle_files fs dir) r = gget fs (dir @ ''/'' @ r)"
    by (metis option.exhaust)
qed

lemma bundle_files_sorted: "sorted (map fst (bundle_files fs dir))"
  by (simp add: bundle_files_def)

lemma bundle_files_eq:
  assumes "wf_map fs" "wf_map gs"
  shows "bundle_files fs dir = bundle_files gs dir \<longleftrightarrow>
           (\<forall>r. gget fs (dir @ ''/'' @ r) = gget gs (dir @ ''/'' @ r))"
proof
  assume "bundle_files fs dir = bundle_files gs dir"
  then show "\<forall>r. gget fs (dir @ ''/'' @ r) = gget gs (dir @ ''/'' @ r)"
    using bundle_files_get(1) [OF assms(1)] bundle_files_get(1) [OF assms(2)] by metis
next
  assume "\<forall>r. gget fs (dir @ ''/'' @ r) = gget gs (dir @ ''/'' @ r)"
  then have "map_of (bundle_files fs dir) = map_of (bundle_files gs dir)"
    using bundle_files_get(1) [OF assms(1)] bundle_files_get(1) [OF assms(2)] by (intro ext) simp
  then have "set (bundle_files fs dir) = set (bundle_files gs dir)"
    using map_of_inject_set [OF bundle_files_get(2) [OF assms(1)] bundle_files_get(2) [OF assms(2)]] by simp
  moreover have "inj_on fst (set (bundle_files fs dir))"
    using bundle_files_get(2) [OF assms(1), of dir] by (simp add: distinct_map)
  ultimately show "bundle_files fs dir = bundle_files gs dir"
    using bundle_files_get(2) [OF assms(1), of dir] bundle_files_get(2) [OF assms(2), of dir] bundle_files_sorted
    by (intro map_sorted_distinct_set_unique [where f = fst]) simp_all
qed

text \<open>
  C28. A bundle revision stands for the whole content of the bundle directory. Where SHA-256 does not
  collide on the two hashed texts, two states of the directory have the same revision exactly when
  they have the same files with the same bytes: a file added, removed, renamed or changed anywhere
  in it moves the revision, and nothing outside it does.
\<close>

theorem bundle_revision_exact:
  assumes "wf_map fs" and "wf_map gs"
    and "inj_on sha {concat (map encode_file (bundle_files fs dir)), concat (map encode_file (bundle_files gs dir))}"
    and "BundleRevision sha unreadable fs dir = Inr r" and "BundleRevision sha unreadable' gs dir = Inr r'"
  shows "r = r' \<longleftrightarrow> (\<forall>name. gget fs (dir @ ''/'' @ name) = gget gs (dir @ ''/'' @ name))"
proof -
  let ?text = "\<lambda>fs. concat (map encode_file (bundle_files fs dir))"
  have "r = ''sha256:'' @ sha (?text fs)" "r' = ''sha256:'' @ sha (?text gs)"
    using assms(4,5) by (auto simp: BundleRevision_def split: if_splits)
  moreover have "sha (?text fs) = sha (?text gs) \<longleftrightarrow> ?text fs = ?text gs"
    using inj_on_eq_iff [OF assms(3), of "?text fs" "?text gs"] by blast
  ultimately show ?thesis
    using bundle_files_eq [OF assms(1,2)] by (simp add: encode_files_inj)
qed

lemma bundle_revision_exact_witness:
  "BundleRevision (\<lambda>s. s) (\<lambda>p. False) [(''/c/p/index.md'', ''a'')] ''/c/p'' \<noteq>
     BundleRevision (\<lambda>s. s) (\<lambda>p. False) [(''/c/p/index.md'', ''b'')] ''/c/p''"
proof -
  let ?fs = "[(''/c/p/index.md'', ''a'')]" and ?gs = "[(''/c/p/index.md'', ''b'')]"
  obtain r r' where r: "BundleRevision (\<lambda>s. s) (\<lambda>p. False) ?fs ''/c/p'' = Inr r"
      "BundleRevision (\<lambda>s. s) (\<lambda>p. False) ?gs ''/c/p'' = Inr r'"
    by (simp add: BundleRevision_def)
  have "r \<noteq> r'"
    using bundle_revision_exact [OF _ _ _ r] by (auto simp: wf_map_def)
  then show ?thesis using r by simp
qed

section \<open>The journal row of a running operation on a bundle\<close>

definition write_op :: "string \<Rightarrow> string \<Rightarrow> recovery_file list \<Rightarrow> string list \<Rightarrow> recovery_operation \<Rightarrow> bool" where
  "write_op i dir rfs cl op \<longleftrightarrow> op_id op = i \<and> i \<noteq> '''' \<and> op_kind op = ''bundle_write'' \<and>
     (\<exists>idem. op_payload op = BundleWrite \<lparr>br_dir = dir, br_files = rfs, br_idem = idem, br_cleanup = cl\<rparr>)"

definition write_row ::
    "(recovery_payload \<Rightarrow> string option) \<Rightarrow> string \<Rightarrow> string \<Rightarrow> recovery_file list \<Rightarrow> string list \<Rightarrow> recovery_table option \<Rightarrow> bool" where
  "write_row enc i dir rfs cl j \<longleftrightarrow>
     (\<exists>t row idem. j = Some t \<and> gget t i = Some row \<and> rc_kind row = ''bundle_write'' \<and>
        rc_state row \<in> {''in_progress'', ''file_written'', ''committed''} \<and>
        enc (BundleWrite \<lparr>br_dir = dir, br_files = rfs, br_idem = idem, br_cleanup = cl\<rparr>) = Some (rc_payload row))"

lemma op_record_keeps:
  assumes "op_record enc fails now j op state = (j', err)" and "write_op i dir rfs cl op"
    and "state \<in> {''in_progress'', ''file_written'', ''committed''}" and "write_row enc i dir rfs cl j"
  shows "write_row enc i dir rfs cl j'"
  using assms
  by (auto simp: op_record_def RecordRecovery_def write_op_def write_row_def Let_def
      split: option.splits if_splits)

lemma begin_row:
  assumes "beginBundleWriteRecovery enc random fails now j dir rfs idem cl = (j', r)"
    and "j = Some t" and "\<And>h. random = Some h \<Longrightarrow> gget t (''src_'' @ h) = None"
  shows "(\<exists>e. r = Inl e) \<and> j' = j \<or>
     (\<exists>h op. random = Some h \<and> r = Inr op \<and> write_op (''src_'' @ h) (path_clean dir) rfs (map path_clean cl) op \<and>
        write_row enc (''src_'' @ h) (path_clean dir) rfs (map path_clean cl) j')"
  using assms
  by (auto simp: beginBundleWriteRecovery_def beginRecovery_def newRecoveryOperationID_def op_record_def
      RecordRecovery_def write_op_def write_row_def Let_def split: option.splits if_splits sum.splits)

lemma stage_row:
  assumes "stageResult enc fails now j op result = (j', r)" and "write_op i dir rfs cl op"
    and "write_row enc i dir rfs cl j"
  shows "write_row enc i dir rfs cl j' \<and> (\<forall>op'. r = Inr op' \<longrightarrow> write_op i dir rfs cl op')"
proof -
  have op': "write_op i dir rfs cl (op\<lparr>op_payload := stage_payload raw (op_payload op)\<rparr>)" for raw
    using assms(2) by (auto simp: write_op_def stage_payload_def)
  show ?thesis
    using assms op_record_keeps [OF _ op' _ assms(3)] op'
    by (auto simp: stageResult_def Let_def split: option.splits if_splits prod.splits)
qed

section \<open>A restart settles a bundle\<close>

text \<open>A start-up that meets no error on the listed files: readable, removable, writable, no links.\<close>

definition calm_restart :: "recovery_env \<Rightarrow> string \<Rightarrow> recovery_file list \<Rightarrow> bool" where
  "calm_restart env dir rfs \<longleftrightarrow>
     (case NewGuard (rv_view env) (rv_cwd env) (rv_content_root env) (rv_reject_symlinks env) of
        Inl e \<Rightarrow> False
      | Inr pg \<Rightarrow>
          list_all (\<lambda>f. recoveryPathAllowed (rv_content_root env) (rf_path f) \<and> recoveryPathAllowed dir (rf_path f) \<and>
             \<not> rv_unreadable env (rf_path f) \<and> \<not> rv_stuck env (rf_path f) \<and>
             rv_write env (rf_path f) = no_atomic_faults \<and>
             RevalidateForWrite (rv_view env) pg (rf_path f) = None \<and>
             RevalidateForWrite (rv_view env) pg (path_dir (rf_path f)) = None) rfs)"

definition at_before :: "files \<Rightarrow> recovery_file \<Rightarrow> bool" where
  "at_before fs f \<longleftrightarrow> gget fs (rf_path f) = rf_before f"

definition at_after :: "files \<Rightarrow> recovery_file \<Rightarrow> bool" where
  "at_after fs f \<longleftrightarrow> gget fs (rf_path f) = rf_after f"

lemma calm_restartE:
  assumes "calm_restart env dir rfs"
  obtains pg where "NewGuard (rv_view env) (rv_cwd env) (rv_content_root env) (rv_reject_symlinks env) = Inr pg"
    and "\<And>f. f \<in> set rfs \<Longrightarrow> recoveryPathAllowed (rv_content_root env) (rf_path f) \<and>
           recoveryPathAllowed dir (rf_path f) \<and> \<not> rv_unreadable env (rf_path f)"
    and "\<And>f. f \<in> set rfs \<Longrightarrow> \<not> rv_stuck env (rf_path f) \<and> rv_write env (rf_path f) = no_atomic_faults \<and>
           RevalidateForWrite (rv_view env) pg (rf_path f) = None \<and>
           RevalidateForWrite (rv_view env) pg (path_dir (rf_path f)) = None"
  using assms by (auto simp: calm_restart_def list_all_iff split: sum.splits)

lemma classify_calm:
  assumes "\<And>f. f \<in> set rfs \<Longrightarrow> recoveryPathAllowed (rv_content_root env) (rf_path f) \<and>
      recoveryPathAllowed dir (rf_path f) \<and> \<not> rv_unreadable env (rf_path f)"
    and "\<And>f. f \<in> set rfs \<Longrightarrow> at_before fs f \<or> at_after fs f"
  shows "classify_files env dir fs rfs b a =
           Inr (Some (b \<and> list_all (at_before fs) rfs, a \<and> list_all (at_after fs) rfs))"
  using assms by (induction rfs arbitrary: b a) (auto simp: recoveryFileMatches_def at_before_def at_after_def)

lemma AtomicWriteChecked_calm:
  "RevalidateForWrite v pg (path_dir p) = None \<Longrightarrow> AtomicWriteChecked no_atomic_faults v v pg fs p c = (gput fs p c, None)"
  by (simp add: AtomicWriteChecked_def before_promote_def)

lemma restore_calm:
  assumes "\<And>f. f \<in> set rfs \<Longrightarrow> \<not> rv_stuck env (rf_path f) \<and> rv_write env (rf_path f) = no_atomic_faults \<and>
           RevalidateForWrite (rv_view env) pg (rf_path f) = None \<and>
           RevalidateForWrite (rv_view env) pg (path_dir (rf_path f)) = None"
    and "distinct (map rf_path rfs)"
  shows "\<exists>fs'. restore_before env pg rfs fs = (fs', None) \<and> list_all (at_before fs') rfs \<and>
           (\<forall>q. q \<notin> rf_path ` set rfs \<longrightarrow> gget fs' q = gget fs q)"
  using assms
proof (induction rfs arbitrary: fs)
  case Nil
  then show ?case by simp
next
  case (Cons f rfs)
  define fs1 where "fs1 = (case rf_before f of None \<Rightarrow> gdel fs (rf_path f) | Some c \<Rightarrow> gput fs (rf_path f) c)"
  obtain fs' where fs': "restore_before env pg rfs fs1 = (fs', None)" "list_all (at_before fs') rfs"
      "\<forall>q. q \<notin> rf_path ` set rfs \<longrightarrow> gget fs' q = gget fs1 q"
    using Cons.IH [of fs1] Cons.prems by auto
  have "restore_before env pg (f # rfs) fs = restore_before env pg rfs fs1"
    using Cons.prems(1) [of f] by (auto simp: fs1_def AtomicWriteChecked_calm split: option.splits)
  moreover have "at_before fs' f"
    unfolding at_before_def using fs'(3) Cons.prems(2) by (auto simp: fs1_def split: option.splits)
  moreover have "gget fs1 q = gget fs q" if "q \<noteq> rf_path f" for q
    using that by (auto simp: fs1_def split: option.splits)
  ultimately show ?case using fs' by (intro exI [of _ fs']) (auto simp del: restore_before.simps)
qed

text \<open>
  From any mixture of the two known states, start-up reaches one of them and touches nothing else.
\<close>

lemma reconcile_settles:
  assumes calm: "calm_restart env (sp_bundle_dir payload) (sp_files payload)"
    and files: "sp_files payload \<noteq> []" "distinct (map rf_path (sp_files payload))" "sp_cleanup payload = []"
    and mix: "\<And>f. f \<in> set (sp_files payload) \<Longrightarrow> at_before fs f \<or> at_after fs f"
  shows "\<exists>fs' changed landed. reconcileBundleFiles env payload fs = (fs', Inr (True, changed, landed)) \<and>
           list_all (if landed then at_after fs' else at_before fs') (sp_files payload) \<and>
           (\<forall>q. q \<notin> rf_path ` set (sp_files payload) \<longrightarrow> gget fs' q = gget fs q) \<and>
           (list_all (at_after fs) (sp_files payload) \<and> \<not> list_all (at_before fs) (sp_files payload) \<longrightarrow> landed \<and> fs' = fs)"
proof -
  let ?rfs = "sp_files payload"
  obtain pg where pg: "NewGuard (rv_view env) (rv_cwd env) (rv_content_root env) (rv_reject_symlinks env) = Inr pg"
    and ok: "\<And>f. f \<in> set ?rfs \<Longrightarrow> recoveryPathAllowed (rv_content_root env) (rf_path f) \<and>
           recoveryPathAllowed (sp_bundle_dir payload) (rf_path f) \<and> \<not> rv_unreadable env (rf_path f)"
    and wr: "\<And>f. f \<in> set ?rfs \<Longrightarrow> \<not> rv_stuck env (rf_path f) \<and> rv_write env (rf_path f) = no_atomic_faults \<and>
           RevalidateForWrite (rv_view env) pg (rf_path f) = None \<and>
           RevalidateForWrite (rv_view env) pg (path_dir (rf_path f)) = None"
    using calm by (rule calm_restartE) blast
  have cl: "classify_files env (sp_bundle_dir payload) fs ?rfs True True =
      Inr (Some (list_all (at_before fs) ?rfs, list_all (at_after fs) ?rfs))"
    using classify_calm [OF ok mix] by simp
  obtain fs' where fs': "restore_before env pg ?rfs fs = (fs', None)" "list_all (at_before fs') ?rfs"
      "\<forall>q. q \<notin> rf_path ` set ?rfs \<longrightarrow> gget fs' q = gget fs q"
    using restore_calm [OF wr files(2)] by blast
  consider "list_all (at_before fs) ?rfs" | "\<not> list_all (at_before fs) ?rfs" "list_all (at_after fs) ?rfs"
    | "\<not> list_all (at_before fs) ?rfs" "\<not> list_all (at_after fs) ?rfs" by blast
  then show ?thesis
  proof cases
    case 1
    then show ?thesis using files(1) cl
      by (intro exI [of _ fs] exI [of _ False]) (simp add: reconcileBundleFiles_def)
  next
    case 2
    then show ?thesis using files(1,3) cl
      by (intro exI [of _ fs] exI [of _ False] exI [of _ True]) (simp add: reconcileBundleFiles_def)
  next
    case 3
    then show ?thesis using files(1) cl pg fs'
      by (intro exI [of _ fs'] exI [of _ True] exI [of _ False]) (simp add: reconcileBundleFiles_def)
  qed
qed

text \<open>The same with directories to clean up once everything landed.\<close>

definition cleaned :: "string list \<Rightarrow> files \<Rightarrow> files" where
  "cleaned ps fs = foldl (\<lambda>fs p. fst (remove_all None fs p)) fs ps"

lemma clean_bundle_calm:
  assumes "\<And>p. p \<in> set ps \<Longrightarrow> recoveryPathAllowed (rv_content_root env) p \<and> recoveryPathAllowed dir p \<and>
      rv_stuck_tree env p = None"
  shows "clean_bundle env dir ps changed fs = (cleaned ps fs, Inr (Some (changed \<or> ps \<noteq> [])))"
  using assms by (induction ps arbitrary: changed fs) (auto simp: cleaned_def remove_all_def)

lemma reconcile_settles_cleaning:
  assumes calm: "calm_restart env (sp_bundle_dir payload) (sp_files payload)"
    and files: "sp_files payload \<noteq> []" "distinct (map rf_path (sp_files payload))"
    and cl: "\<And>p. p \<in> set (sp_cleanup payload) \<Longrightarrow> recoveryPathAllowed (rv_content_root env) p \<and>
      recoveryPathAllowed (sp_bundle_dir payload) p \<and> rv_stuck_tree env p = None"
    and mix: "\<And>f. f \<in> set (sp_files payload) \<Longrightarrow> at_before fs f \<or> at_after fs f"
  shows "\<exists>fs' changed landed. reconcileBundleFiles env payload fs = (fs', Inr (True, changed, landed)) \<and>
           landed = (list_all (at_after fs) (sp_files payload) \<and> \<not> list_all (at_before fs) (sp_files payload)) \<and>
           (landed \<longrightarrow> fs' = cleaned (sp_cleanup payload) fs) \<and>
           (\<not> landed \<longrightarrow> list_all (at_before fs') (sp_files payload) \<and>
              (\<forall>q. q \<notin> rf_path ` set (sp_files payload) \<longrightarrow> gget fs' q = gget fs q))"
proof -
  let ?bare = "payload\<lparr>sp_cleanup := []\<rparr>"
  let ?landed = "list_all (at_after fs) (sp_files payload) \<and> \<not> list_all (at_before fs) (sp_files payload)"
  have sorted_out: "classify_files env (sp_bundle_dir payload) fs (sp_files payload) True True =
      Inr (Some (list_all (at_before fs) (sp_files payload), list_all (at_after fs) (sp_files payload)))"
    using classify_calm [of "sp_files payload" env "sp_bundle_dir payload" fs True True] mix calm
    by (elim calm_restartE) simp
  show ?thesis
  proof (cases ?landed)
    case True
    have "reconcileBundleFiles env payload fs = (cleaned (sp_cleanup payload) fs, Inr (True, sp_cleanup payload \<noteq> [], True))"
      using True files(1) sorted_out clean_bundle_calm [OF cl] by (simp add: reconcileBundleFiles_def)
    then show ?thesis using True by blast
  next
    case False
    then have same: "reconcileBundleFiles env payload fs = reconcileBundleFiles env ?bare fs"
      using sorted_out files(1) by (auto simp: reconcileBundleFiles_def split: sum.splits)
    have "\<exists>fs' changed landed. reconcileBundleFiles env ?bare fs = (fs', Inr (True, changed, landed)) \<and>
        list_all (if landed then at_after fs' else at_before fs') (sp_files ?bare) \<and>
        (\<forall>q. q \<notin> rf_path ` set (sp_files ?bare) \<longrightarrow> gget fs' q = gget fs q) \<and>
        (list_all (at_after fs) (sp_files ?bare) \<and> \<not> list_all (at_before fs) (sp_files ?bare) \<longrightarrow> landed \<and> fs' = fs)"
      by (rule reconcile_settles) (use calm files mix in auto)
    then obtain fs' changed landed where out: "reconcileBundleFiles env ?bare fs = (fs', Inr (True, changed, landed))"
      "list_all (if landed then at_after fs' else at_before fs') (sp_files payload)"
      "\<forall>q. q \<notin> rf_path ` set (sp_files payload) \<longrightarrow> gget fs' q = gget fs q" by auto
    have "\<not> landed"
      using out(1) False sorted_out files(1) by (auto simp: reconcileBundleFiles_def split: if_splits sum.splits prod.splits option.splits)
    then show ?thesis using False out same by (intro exI [of _ fs'] exI [of _ changed] exI [of _ landed]) auto
  qed
qed

end
