(* ===== verification/Validation.thy ===== *)
theory Validation
  imports Paths
begin

text \<open>
  The gates on editorial input: \<open>internal/tools/write/validation.go\<close>, the frontmatter re-check of
  \<open>internal/tools/write/tools.go\<close> and the shared URL policy \<open>internal/urlpolicy/urlpolicy.go\<close>. A text is
  its bytes; \<open>runes\<close> decodes it as a \<open>range\<close> loop does. The regular expressions are written out as the
  matchers they denote. The YAML parser is a parameter. Errors carry the constant part of the message.
\<close>

section \<open>Runes\<close>

definition byte :: "char \<Rightarrow> nat" where "byte c = of_char c"

definition in_range :: "nat \<Rightarrow> nat \<Rightarrow> char \<Rightarrow> bool" where
  "in_range lo hi c \<longleftrightarrow> lo \<le> byte c \<and> byte c \<le> hi"

definition rune_error :: nat where "rune_error = 0xFFFD"

text \<open>The rune at the front of a non-empty text and the number of bytes it takes.\<close>

definition decode_rune :: "char \<Rightarrow> string \<Rightarrow> nat \<times> nat" where
  "decode_rune c s =
     (let b = byte c;
          cont = (\<lambda>k. k < length s \<and> in_range 0x80 0xBF (s ! k));
          bits = (\<lambda>k. byte (s ! k) mod 64);
          lo = (if b = 0xE0 then 0xA0 else if b = 0xF0 then 0x90 else 0x80);
          hi = (if b = 0xED then 0x9F else if b = 0xF4 then 0x8F else 0xBF);
          second_ok = (s \<noteq> [] \<and> in_range lo hi (hd s))
      in if b < 0x80 then (b, 1)
         else if 0xC2 \<le> b \<and> b \<le> 0xDF \<and> second_ok then ((b mod 32) * 64 + bits 0, 2)
         else if 0xE0 \<le> b \<and> b \<le> 0xEF \<and> second_ok \<and> cont 1
           then ((b mod 16) * 4096 + bits 0 * 64 + bits 1, 3)
         else if 0xF0 \<le> b \<and> b \<le> 0xF4 \<and> second_ok \<and> cont 1 \<and> cont 2
           then ((b mod 8) * 262144 + bits 0 * 4096 + bits 1 * 64 + bits 2, 4)
         else (rune_error, 1))"

lemma decode_rune_width: "decode_rune c s = (r, n) \<Longrightarrow> 0 < n"
  by (auto simp: decode_rune_def Let_def split: if_splits)

function runes :: "string \<Rightarrow> nat list" where
  "runes [] = []"
| "runes (c # s) = (case decode_rune c s of (r, n) \<Rightarrow> r # runes (drop n (c # s)))"
  by pat_completeness auto
termination
  by (relation "measure length") (auto dest: decode_rune_width [OF sym])

section \<open>Character gates\<close>

definition isBidiControlRune :: "nat \<Rightarrow> bool" where
  "isBidiControlRune r \<longleftrightarrow> 0x202A \<le> r \<and> r \<le> 0x202E \<or> 0x2066 \<le> r \<and> r \<le> 0x2069"

definition emojiTagBase :: nat where "emojiTagBase = 0x1F3F4"

definition is_tag_letter :: "nat \<Rightarrow> bool" where
  "is_tag_letter r \<longleftrightarrow> 0xE0061 \<le> r \<and> r \<le> 0xE007A"

definition in_tag_block :: "nat \<Rightarrow> bool" where
  "in_tag_block r \<longleftrightarrow> 0xE0000 \<le> r \<and> r \<le> 0xE007F"

definition cancelTagRune :: nat where "cancelTagRune = 0xE007F"

definition validEmojiTagSpecs :: "string list" where
  "validEmojiTagSpecs = [''gbeng'', ''gbsct'', ''gbwls'']"

function rejectMalformedEmojiTags :: "nat list \<Rightarrow> string option" where
  "rejectMalformedEmojiTags [] = None"
| "rejectMalformedEmojiTags (r # rs) =
     (if r = emojiTagBase \<and> rs \<noteq> [] \<and> in_tag_block (hd rs) then
        (let spec = takeWhile is_tag_letter rs; rest = dropWhile is_tag_letter rs
         in if spec = [] \<or> rest = [] \<or> hd rest \<noteq> cancelTagRune
              then Some ''must not contain malformed Unicode TAG sequences''
            else if map (\<lambda>r. char_of (r - 0xE0000)) spec \<notin> set validEmojiTagSpecs
              then Some ''must not contain non-RGI Unicode TAG sequences''
            else rejectMalformedEmojiTags (tl rest))
      else if in_tag_block r then Some ''must not contain standalone Unicode TAG characters''
      else rejectMalformedEmojiTags rs)"
  by pat_completeness auto
termination
proof (relation "measure length", goal_cases)
  case (2 r rs spec rest)
  have "length rest \<le> length rs"
    using 2 by (simp add: length_dropWhile_le)
  then show ?case by simp
qed auto

definition rune_fault :: "nat \<Rightarrow> string option" where
  "rune_fault r =
     (if r = 0 then Some ''must not contain null bytes''
      else if r < 0x20 \<and> r \<noteq> 0x0A \<and> r \<noteq> 0x0D \<and> r \<noteq> 0x09 then Some ''must not contain control characters''
      else if 0x7F \<le> r \<and> r \<le> 0x9F then Some ''must not contain C1 control characters''
      else if isBidiControlRune r then Some ''must not contain bidirectional control characters''
      else None)"

fun first_fault :: "('a \<Rightarrow> string option) \<Rightarrow> 'a list \<Rightarrow> string option" where
  "first_fault f [] = None"
| "first_fault f (x # xs) = (case f x of None \<Rightarrow> first_fault f xs | Some e \<Rightarrow> Some e)"

definition rejectUnsafeText :: "string \<Rightarrow> string option" where
  "rejectUnsafeText s =
     (case rejectMalformedEmojiTags (runes s) of
        Some e \<Rightarrow> Some e | None \<Rightarrow> first_fault rune_fault (runes s))"

definition is_upper :: "char \<Rightarrow> bool" where "is_upper = in_range 65 90"
definition is_lower :: "char \<Rightarrow> bool" where "is_lower = in_range 97 122"
definition is_digit :: "char \<Rightarrow> bool" where "is_digit = in_range 48 57"

text \<open>\<open>^[a-z0-9]([a-z0-9/\_-]*[a-z0-9])?$\<close>\<close>

definition slug_edge :: "char \<Rightarrow> bool" where "slug_edge c \<longleftrightarrow> is_lower c \<or> is_digit c"

definition slugPattern :: "string \<Rightarrow> bool" where
  "slugPattern s \<longleftrightarrow> s \<noteq> [] \<and> slug_edge (hd s) \<and> slug_edge (last s) \<and>
     list_all (\<lambda>c. slug_edge c \<or> c \<in> set ''/_-'') s"

definition validateSlugFormat :: "string \<Rightarrow> string option" where
  "validateSlugFormat slug = (if slugPattern slug then None else Some ''invalid_params: slug must match'')"

definition rejectRootSlug :: "string \<Rightarrow> string option" where
  "rejectRootSlug slug =
     (if slug = ''/'' then Some ''invalid_params: the tool cannot target the site root'' else None)"

definition skip_space :: "string \<Rightarrow> string" where "skip_space = dropWhile re_space"

definition skip_slash :: "string \<Rightarrow> string" where
  "skip_slash s =
     (let t = skip_space s in case t of [] \<Rightarrow> [] | c # t' \<Rightarrow> if c = CHR ''/'' then skip_space t' else t)"

text \<open>
  \<open>(?i)<\s*/?\s*[a-z!][^>]*>\<close>; the case-insensitive class also holds the long s and the Kelvin sign.
\<close>

definition tag_letter_at :: "string \<Rightarrow> bool" where
  "tag_letter_at s \<longleftrightarrow> s \<noteq> [] \<and> (is_lower (hd s) \<or> is_upper (hd s) \<or> hd s = CHR ''!'') \<or>
     has_prefix [CHR 0xC5, CHR 0xBF] s \<or> has_prefix [CHR 0xE2, CHR 0x84, CHR 0xAA] s"

fun htmlTagPattern :: "string \<Rightarrow> bool" where
  "htmlTagPattern [] = False"
| "htmlTagPattern (c # s) \<longleftrightarrow>
     c = CHR ''<'' \<and> tag_letter_at (skip_slash s) \<and> CHR ''>'' \<in> set (skip_slash s) \<or> htmlTagPattern s"

definition maxTitleRunes :: nat where "maxTitleRunes = 255"
definition maxBodyBytes :: nat where "maxBodyBytes = 1048576"
definition maxTaxonomyTermRunes :: nat where "maxTaxonomyTermRunes = 100"

definition validateTitleFormat :: "string \<Rightarrow> string option" where
  "validateTitleFormat title =
     (case rejectUnsafeText title of
        Some e \<Rightarrow> Some (''invalid_params: title '' @ e)
      | None \<Rightarrow>
          if htmlTagPattern title then Some ''invalid_params: title must not contain HTML markup''
          else if maxTitleRunes < length (runes title) then Some ''invalid_params: title exceeds 255 characters''
          else None)"

definition validateTaxonomyTerms :: "string \<Rightarrow> string list \<Rightarrow> string option" where
  "validateTaxonomyTerms kind terms =
     (if list_ex (\<lambda>t. maxTaxonomyTermRunes < length (runes t)) terms
      then Some (''invalid_params: '' @ kind @ '' value exceeds 100 characters'') else None)"

section \<open>Shortcodes\<close>

text \<open>
  The expression is two opening braces, \<open>%\<close> or \<open><\<close>, then \<open>-?\s*/?\s*([A-Za-z0-9\_-]+)\<close>. A name cannot start with a slash, so an optional
  slash is always taken; the optional dash is given back when the rest does not match after it.
\<close>

definition name_char :: "char \<Rightarrow> bool" where
  "name_char c \<longleftrightarrow> is_upper c \<or> is_lower c \<or> is_digit c \<or> c = CHR ''_'' \<or> c = CHR ''-''"

definition name_at :: "string \<Rightarrow> (string \<times> string) option" where
  "name_at s =
     (let u = skip_slash s; name = takeWhile name_char u
      in if name = [] then None else Some (name, dropWhile name_char u))"

definition after_delimiter :: "string \<Rightarrow> (string \<times> string) option" where
  "after_delimiter s =
     (if s \<noteq> [] \<and> hd s = CHR ''-'' then
        (case name_at (tl s) of None \<Rightarrow> name_at s | Some r \<Rightarrow> Some r)
      else name_at s)"

definition shortcode_at :: "string \<Rightarrow> (string \<times> string) option" where
  "shortcode_at s =
     (case s of
        a # b # c # rest \<Rightarrow>
          if a = CHR 0x7B \<and> b = CHR 0x7B \<and> (c = CHR ''%'' \<or> c = CHR ''<'') then after_delimiter rest else None
      | _ \<Rightarrow> None)"

lemma skip_slash_suffix: "\<exists>pre. s = pre @ skip_slash s \<and> CHR 0x7B \<notin> set pre"
proof -
  have sp: "\<exists>pre. t = pre @ skip_space t \<and> CHR 0x7B \<notin> set pre" for t
  proof (intro exI conjI)
    show "t = takeWhile re_space t @ skip_space t" by (simp add: skip_space_def)
    show "CHR 0x7B \<notin> set (takeWhile re_space t)"
      by (auto simp: re_space_def dest!: set_takeWhileD)
  qed
  obtain pre where pre: "s = pre @ skip_space s" "CHR 0x7B \<notin> set pre" using sp by blast
  show ?thesis
  proof (cases "skip_space s")
    case Nil
    then show ?thesis using pre by (auto simp: skip_slash_def)
  next
    case (Cons c t)
    obtain pre' where pre': "t = pre' @ skip_space t" "CHR 0x7B \<notin> set pre'" using sp by blast
    show ?thesis
    proof (cases "c = CHR ''/''")
      case True
      have "s = (pre @ c # pre') @ skip_slash s"
        using pre(1) pre'(1) Cons True by (simp add: skip_slash_def)
      moreover have "CHR 0x7B \<notin> set (pre @ c # pre')" using pre(2) pre'(2) True by simp
      ultimately show ?thesis by blast
    next
      case False
      have "s = pre @ skip_slash s" using pre(1) Cons False by (simp add: skip_slash_def)
      then show ?thesis using pre(2) by blast
    qed
  qed
qed

lemma name_at_split: "name_at s = Some (n, rest) \<Longrightarrow> \<exists>pre. s = pre @ rest \<and> CHR 0x7B \<notin> set pre"
proof -
  assume n: "name_at s = Some (n, rest)"
  obtain pre where pre: "s = pre @ skip_slash s" "CHR 0x7B \<notin> set pre" using skip_slash_suffix by blast
  have r: "rest = dropWhile name_char (skip_slash s)"
    using n by (auto simp: name_at_def Let_def split: if_splits)
  have "s = (pre @ takeWhile name_char (skip_slash s)) @ rest"
    using pre(1) by (simp add: r)
  moreover have "CHR 0x7B \<notin> set (takeWhile name_char (skip_slash s))"
    by (auto simp: name_char_def is_upper_def is_lower_def is_digit_def in_range_def byte_def dest!: set_takeWhileD)
  ultimately show ?thesis using pre(2) by (metis Un_iff set_append)
qed

lemma after_delimiter_split:
  "after_delimiter s = Some (n, rest) \<Longrightarrow> \<exists>pre. s = pre @ rest \<and> CHR 0x7B \<notin> set pre"
proof -
  assume a: "after_delimiter s = Some (n, rest)"
  show ?thesis
  proof (cases "name_at s = Some (n, rest)")
    case True
    then show ?thesis by (rule name_at_split)
  next
    case False
    then have d: "s \<noteq> []" "hd s = CHR ''-''" "name_at (tl s) = Some (n, rest)"
      using a by (auto simp: after_delimiter_def split: if_splits option.splits)
    obtain pre where "tl s = pre @ rest" "CHR 0x7B \<notin> set pre" using name_at_split [OF d(3)] by blast
    then have "s = (CHR ''-'' # pre) @ rest" "CHR 0x7B \<notin> set (CHR ''-'' # pre)"
      using d(1,2) by (cases s; simp)+
    then show ?thesis by blast
  qed
qed

lemma shortcode_at_split:
  "shortcode_at s = Some (n, rest) \<Longrightarrow>
     \<exists>mid. s = CHR 0x7B # CHR 0x7B # mid @ rest \<and> mid \<noteq> [] \<and> CHR 0x7B \<notin> set mid"
proof -
  assume "shortcode_at s = Some (n, rest)"
  then obtain c t where s: "s = CHR 0x7B # CHR 0x7B # c # t" and c: "c = CHR ''%'' \<or> c = CHR ''<''"
      and t: "after_delimiter t = Some (n, rest)"
    by (auto simp: shortcode_at_def split: list.splits if_splits)
  obtain pre where "t = pre @ rest" "CHR 0x7B \<notin> set pre" using after_delimiter_split [OF t] by blast
  then have "s = CHR 0x7B # CHR 0x7B # (c # pre) @ rest" "CHR 0x7B \<notin> set (c # pre)"
    using s c by auto
  then show ?thesis by (metis list.distinct(1))
qed

lemma shortcode_at_start: "shortcode_at s = None \<or> (\<exists>t. s = CHR 0x7B # CHR 0x7B # t)"
proof (cases "shortcode_at s")
  case (Some m)
  then show ?thesis using shortcode_at_split [of s "fst m" "snd m"] by auto
qed simp

text \<open>\<open>FindAllStringSubmatch\<close>: the captured names, left to right.\<close>

function shortcode_names :: "string \<Rightarrow> string list" where
  "shortcode_names [] = []"
| "shortcode_names (c # s) =
     (case shortcode_at (c # s) of
        None \<Rightarrow> shortcode_names s | Some (n, rest) \<Rightarrow> n # shortcode_names rest)"
  by pat_completeness auto
termination
proof (relation "measure length", goal_cases)
  case (3 c s r n rest)
  then obtain mid where "c # s = CHR 0x7B # CHR 0x7B # mid @ rest"
    using shortcode_at_split by blast
  then have "length (c # s) = length (CHR 0x7B # CHR 0x7B # mid @ rest)" by (rule arg_cong)
  then show ?case by simp
qed auto

definition rejectDangerousShortcodes :: "string \<Rightarrow> string list \<Rightarrow> string option" where
  "rejectDangerousShortcodes body blocked =
     (if blocked = [] then None
      else if list_ex (\<lambda>n. to_lower n \<in> set (map (\<lambda>b. to_lower (trim_space b)) blocked)) (shortcode_names body)
        then Some ''body invokes a blocked shortcode''
      else None)"

definition validateBodyFormat :: "string \<Rightarrow> string list \<Rightarrow> string option" where
  "validateBodyFormat body blocked =
     (case rejectUnsafeText body of
        Some e \<Rightarrow> Some (''invalid_params: body '' @ e)
      | None \<Rightarrow>
          if maxBodyBytes < length body then Some ''invalid_params: body exceeds 1048576 bytes''
          else (case rejectDangerousShortcodes body blocked of
                  Some e \<Rightarrow> Some (''invalid_params: '' @ e) | None \<Rightarrow> None))"

section \<open>Frontmatter\<close>

text \<open>\<open>strings.Index\<close> with the texts before and after the first occurrence.\<close>

fun cut_sub :: "string \<Rightarrow> string \<Rightarrow> (string \<times> string) option" where
  "cut_sub p [] = (if p = [] then Some ([], []) else None)"
| "cut_sub p (c # s) =
     (if has_prefix p (c # s) then Some ([], drop (length p) (c # s))
      else map_option (\<lambda>(a, b). (c # a, b)) (cut_sub p s))"

definition fm_open :: string where "fm_open = ''---'' @ [CHR 0x0A]"
definition fm_close :: string where "fm_close = [CHR 0x0A] @ ''---''"

text \<open>
  \<open>yaml\_any\<close>: the block parses; \<open>yaml\_doc\<close>: its \<open>test\_content\<close> and \<open>draft\<close> members when it decodes as a
  page header.
\<close>

definition validateFrontmatterRoundTrip ::
    "(string \<Rightarrow> bool) \<Rightarrow> (string \<Rightarrow> (bool \<times> bool) option) \<Rightarrow> string \<Rightarrow> string option" where
  "validateFrontmatterRoundTrip yaml_any yaml_doc content =
     (if \<not> has_prefix fm_open content then Some ''missing YAML frontmatter delimiter''
      else (case cut_sub fm_close (drop 4 content) of
              None \<Rightarrow> Some ''unterminated YAML frontmatter''
            | Some (yaml, after) \<Rightarrow>
                if \<not> yaml_any yaml then Some ''frontmatter YAML invalid after update''
                else (case yaml_doc yaml of
                        None \<Rightarrow> Some ''frontmatter YAML invalid after update''
                      | Some (test_content, draft) \<Rightarrow>
                          if test_content \<and> \<not> draft
                          then Some ''test_content pages must remain draft:true until the test_content marker is removed''
                          else
                            (let body = trim_space after
                             in if has_prefix fm_open body then
                                  (case cut_sub fm_close (drop 4 body) of
                                     None \<Rightarrow> None
                                   | Some (inner, rest) \<Rightarrow>
                                       if length (filter (\<lambda>c. c = CHR 0x0A) inner) \<le> 30
                                       then Some ''body contains a second frontmatter block''
                                       else None)
                                else None))))"

section \<open>URL policy\<close>

datatype url_policy = LocalOnly | ExternalAllowed

definition local_char :: "char \<Rightarrow> bool" where
  "local_char c \<longleftrightarrow> is_upper c \<or> is_lower c \<or> is_digit c \<or> c \<in> set ''._~/-''"

definition localCharsetPattern :: "string \<Rightarrow> bool" where
  "localCharsetPattern s \<longleftrightarrow> (\<exists>t. s = CHR ''/'' # t \<and> t \<noteq> [] \<and> list_all local_char t)"

lemma localCharsetPattern_code [code]:
  "localCharsetPattern s = (case s of [] \<Rightarrow> False | c # t \<Rightarrow> c = CHR ''/'' \<and> t \<noteq> [] \<and> list_all local_char t)"
  by (cases s) (auto simp: localCharsetPattern_def)

definition forbiddenLocalSchemePrefixes :: "string list" where
  "forbiddenLocalSchemePrefixes = [''data:'', ''javascript:'', ''file:'', ''http://'', ''https://'']"

definition validateLocalPath :: "string \<Rightarrow> string option" where
  "validateLocalPath v =
     (if \<not> has_prefix ''/'' v then Some ''must be a site-root-relative path starting with /''
      else if has_prefix ''//'' v then Some ''must not be protocol-relative''
      else if CHR 0x5C \<in> set v then Some ''must not contain backslashes''
      else if list_ex (\<lambda>p. has_prefix p (to_lower v)) forbiddenLocalSchemePrefixes
        then Some ''must be a local site path''
      else if list_ex (\<lambda>seg. seg = ''.'' \<or> seg = ''..'') (split_on CHR ''/'' (trim_prefix ''/'' v))
        then Some ''must not contain dot path segments''
      else if path_clean v \<noteq> v then Some ''must be a normalized local path''
      else if \<not> localCharsetPattern v then Some ''must contain only letters, digits, and ._~/- characters''
      else None)"

definition isAbsoluteHTTPURL :: "string \<Rightarrow> bool" where
  "isAbsoluteHTTPURL v \<longleftrightarrow> has_prefix ''http://'' (to_lower v) \<or> has_prefix ''https://'' (to_lower v)"

definition externalUnsafeChars :: string where
  "externalUnsafeChars = [CHR 0x22, CHR 0x27, CHR ''<'', CHR ''>'', CHR 0x60, CHR '' '', CHR 0x09, CHR 0x0A, CHR 0x0D]"

definition validateAbsoluteHTTPURL :: "string \<Rightarrow> string option" where
  "validateAbsoluteHTTPURL v =
     (if CHR 0x5C \<in> set v then Some ''must not contain backslashes''
      else if list_ex (\<lambda>c. c \<in> set externalUnsafeChars) v
        then Some ''must not contain spaces or HTML-unsafe characters''
      else (case cut_sub ''//'' v of
              None \<Rightarrow> None
            | Some (scheme, rest) \<Rightarrow>
                if blank (takeWhile (\<lambda>c. c \<notin> set ''/?#'') rest)
                then Some ''must be an absolute http(s) URL with a host'' else None))"

definition url_rune_fault :: "nat \<Rightarrow> string option" where
  "url_rune_fault r =
     (if r = 0 then Some ''must not contain null bytes''
      else if r < 0x20 \<and> r \<noteq> 0x0A \<and> r \<noteq> 0x0D \<and> r \<noteq> 0x09 then Some ''must not contain control characters''
      else if 0x7F \<le> r \<and> r \<le> 0x9F then Some ''must not contain C1 control characters''
      else None)"

definition rejectControlChars :: "string \<Rightarrow> string option" where
  "rejectControlChars s = first_fault url_rune_fault (runes s)"

definition urlpolicy_Validate :: "string \<Rightarrow> url_policy \<Rightarrow> string option" where
  "urlpolicy_Validate value policy =
     (case rejectControlChars value of
        Some e \<Rightarrow> Some e
      | None \<Rightarrow>
          if value = '''' then None
          else if policy = ExternalAllowed \<and> isAbsoluteHTTPURL value then validateAbsoluteHTTPURL value
          else validateLocalPath value)"

definition validateFeaturedImagePath :: "string \<Rightarrow> string option" where
  "validateFeaturedImagePath v =
     map_option (\<lambda>e. ''invalid_params: featured_image '' @ e) (urlpolicy_Validate v LocalOnly)"

section \<open>What the text gates let through\<close>

lemma first_fault_None: "first_fault f xs = None \<longleftrightarrow> (\<forall>x \<in> set xs. f x = None)"
  by (induction xs) (auto split: option.splits)

text \<open>A text without hidden tag characters: runes outside the block and whole subdivision flags.\<close>

definition flag_piece :: "nat list \<Rightarrow> bool" where
  "flag_piece p \<longleftrightarrow>
     (\<exists>spec \<in> set validEmojiTagSpecs. p = emojiTagBase # map (\<lambda>c. 0xE0000 + byte c) spec @ [cancelTagRune])"

definition text_piece :: "nat list \<Rightarrow> bool" where
  "text_piece p \<longleftrightarrow> flag_piece p \<or> (\<exists>r. p = [r] \<and> \<not> in_tag_block r)"

lemma spec_letters:
  "spec \<in> set validEmojiTagSpecs \<Longrightarrow> list_all is_tag_letter (map (\<lambda>c. 0xE0000 + byte c) spec)"
  by (auto simp: validEmojiTagSpecs_def is_tag_letter_def byte_def)

lemma spec_chars: "map (\<lambda>r. char_of (r - 0xE0000)) (map (\<lambda>c. 0xE0000 + byte c) spec) = spec"
  by (induction spec) (simp_all add: byte_def)

lemma cancel_no_letter [simp]: "\<not> is_tag_letter cancelTagRune"
  by (simp add: is_tag_letter_def cancelTagRune_def)

lemma while_run:
  "list_all P xs \<Longrightarrow> \<not> P y \<Longrightarrow> takeWhile P (xs @ y # ys) = xs \<and> dropWhile P (xs @ y # ys) = y # ys"
  by (induction xs) auto

lemma base_outside [simp]: "\<not> in_tag_block emojiTagBase"
  by (simp add: in_tag_block_def emojiTagBase_def)

lemma piece_head: "text_piece p \<Longrightarrow> p \<noteq> [] \<and> \<not> in_tag_block (hd p)"
  by (auto simp: text_piece_def flag_piece_def)

lemma pieces_head: "list_all text_piece ps \<Longrightarrow> concat ps \<noteq> [] \<Longrightarrow> \<not> in_tag_block (hd (concat ps))"
  by (cases ps) (auto dest: piece_head)

lemma tags_accept_pieces: "list_all text_piece ps \<Longrightarrow> rejectMalformedEmojiTags (concat ps) = None"
proof (induction ps)
  case Nil
  then show ?case by simp
next
  case (Cons p ps)
  then have ih: "rejectMalformedEmojiTags (concat ps) = None" and p: "text_piece p" by simp_all
  show ?case
  proof (cases "flag_piece p")
    case True
    then obtain spec where spec: "spec \<in> set validEmojiTagSpecs"
      and pe: "p = emojiTagBase # map (\<lambda>c. 0xE0000 + byte c) spec @ [cancelTagRune]"
      by (auto simp: flag_piece_def)
    let ?s = "map (\<lambda>c. 0xE0000 + byte c) spec" and ?rest = "cancelTagRune # concat ps"
    have tw: "takeWhile is_tag_letter (?s @ ?rest) = ?s" "dropWhile is_tag_letter (?s @ ?rest) = ?rest"
      using while_run [OF spec_letters [OF spec] cancel_no_letter] by auto
    have ne: "spec \<noteq> []" using spec by (auto simp: validEmojiTagSpecs_def)
    have hd: "in_tag_block (hd (?s @ ?rest))"
      using spec_letters [OF spec] ne by (cases spec) (auto simp: in_tag_block_def is_tag_letter_def)
    have c: "concat (p # ps) = emojiTagBase # (?s @ ?rest)" by (simp add: pe)
    show ?thesis
      unfolding c rejectMalformedEmojiTags.simps Let_def tw spec_chars using hd ne spec ih by simp
  next
    case False
    then obtain r where r: "p = [r]" "\<not> in_tag_block r" using p by (auto simp: text_piece_def)
    have "\<not> (concat ps \<noteq> [] \<and> in_tag_block (hd (concat ps)))"
      using pieces_head [of ps] Cons.prems by auto
    then show ?thesis using r ih by auto
  qed
qed

lemma tags_pieces: "rejectMalformedEmojiTags rs = None \<Longrightarrow> \<exists>ps. rs = concat ps \<and> list_all text_piece ps"
proof (induction rs rule: rejectMalformedEmojiTags.induct)
  case 1
  show ?case by (intro exI [of _ "[]"]) simp
next
  case (2 r rs)
  let ?spec = "takeWhile is_tag_letter rs" and ?rest = "dropWhile is_tag_letter rs"
  show ?case
  proof (cases "r = emojiTagBase \<and> rs \<noteq> [] \<and> in_tag_block (hd rs)")
    case True
    then have rest: "\<not> (?spec = [] \<or> ?rest = [] \<or> hd ?rest \<noteq> cancelTagRune)"
      and spec: "\<not> map (\<lambda>r. char_of (r - 0xE0000)) ?spec \<notin> set validEmojiTagSpecs"
      and tl: "rejectMalformedEmojiTags (tl ?rest) = None"
      using 2(3) by (simp_all add: Let_def split: if_splits)
    from 2(1) [OF True refl refl rest spec tl] obtain ps where
      ps: "tl ?rest = concat ps" "list_all text_piece ps" by blast
    have "map (\<lambda>c. 0xE0000 + byte c) (map (\<lambda>r. char_of (r - 0xE0000)) ?spec) = ?spec"
    proof -
      have "\<And>x. x \<in> set ?spec \<Longrightarrow> 0xE0000 + byte (char_of (x - 0xE0000)) = x"
        by (auto simp: byte_def is_tag_letter_def dest!: set_takeWhileD)
      then show ?thesis by (simp add: map_idI)
    qed
    then have "flag_piece (r # ?spec @ [cancelTagRune])"
      using spec True unfolding flag_piece_def by metis
    moreover have "rs = ?spec @ [cancelTagRune] @ concat ps"
      using rest ps(1) takeWhile_dropWhile_id [of is_tag_letter rs] by (cases ?rest) auto
    moreover have "text_piece (r # ?spec @ [cancelTagRune])"
      using calculation(1) by (simp add: text_piece_def)
    ultimately show ?thesis
      using ps(2) by (intro exI [of _ "(r # ?spec @ [cancelTagRune]) # ps"]) simp
  next
    case False
    then have r: "\<not> in_tag_block r" and rs: "rejectMalformedEmojiTags rs = None"
      using 2(3) by (auto split: if_splits)
    obtain ps where "rs = concat ps" "list_all text_piece ps"
      using 2(2) [OF False r rs] by blast
    moreover have "text_piece [r]" using r by (simp add: text_piece_def)
    ultimately show ?thesis
      by (intro exI [of _ "[r] # ps"]) simp
  qed
qed

lemma tags_exact: "rejectMalformedEmojiTags rs = None \<longleftrightarrow> (\<exists>ps. rs = concat ps \<and> list_all text_piece ps)"
proof
  show "rejectMalformedEmojiTags rs = None \<Longrightarrow> \<exists>ps. rs = concat ps \<and> list_all text_piece ps"
    by (rule tags_pieces)
  show "\<exists>ps. rs = concat ps \<and> list_all text_piece ps \<Longrightarrow> rejectMalformedEmojiTags rs = None"
    by (elim exE conjE) (simp add: tags_accept_pieces)
qed

text \<open>The scan misses no invocation: nothing inside a match can start another one.\<close>

lemma no_start_inside:
  assumes "CHR 0x7B \<notin> set mid" and "i < length mid"
  shows "shortcode_at (drop i (mid @ rest)) = None"
proof -
  have "hd (drop i (mid @ rest)) = mid ! i"
    using assms(2) by (simp add: hd_drop_conv_nth nth_append)
  moreover have "mid ! i \<noteq> CHR 0x7B" using assms nth_mem by metis
  ultimately have "hd (drop i (mid @ rest)) \<noteq> CHR 0x7B" by simp
  then show ?thesis
    using shortcode_at_start [of "drop i (mid @ rest)"] by auto
qed

lemma shortcode_names_exact:
  "n \<in> set (shortcode_names s) \<longleftrightarrow> (\<exists>i r. shortcode_at (drop i s) = Some (n, r))"
proof (induction s rule: shortcode_names.induct)
  case 1
  show ?case by (simp add: shortcode_at_def)
next
  case (2 c s)
  show ?case
  proof (cases "shortcode_at (c # s)")
    case None
    have "(\<exists>i r. shortcode_at (drop i (c # s)) = Some (n, r)) \<longleftrightarrow> (\<exists>i r. shortcode_at (drop i s) = Some (n, r))"
    proof
      assume "\<exists>i r. shortcode_at (drop i (c # s)) = Some (n, r)"
      then obtain i r where "shortcode_at (drop i (c # s)) = Some (n, r)" by blast
      then show "\<exists>i r. shortcode_at (drop i s) = Some (n, r)"
        using None by (cases i) auto
    next
      assume "\<exists>i r. shortcode_at (drop i s) = Some (n, r)"
      then obtain i r where "shortcode_at (drop (Suc i) (c # s)) = Some (n, r)" by auto
      then show "\<exists>i r. shortcode_at (drop i (c # s)) = Some (n, r)" by blast
    qed
    then show ?thesis using None 2(1) [OF None] by simp
  next
    case (Some m)
    obtain name rest where m: "m = (name, rest)" by (cases m)
    obtain mid where cs: "c # s = CHR 0x7B # CHR 0x7B # mid @ rest" and mid: "mid \<noteq> []" "CHR 0x7B \<notin> set mid"
      using shortcode_at_split Some m by blast
    have inside: "shortcode_at (drop i (c # s)) = None" if "0 < i" "i < length mid + 2" for i
    proof (cases "i = 1")
      case True
      obtain d mid' where d: "mid = d # mid'" "d \<noteq> CHR 0x7B" using mid by (cases mid) auto
      have "drop i (c # s) = CHR 0x7B # d # mid' @ rest" using True cs d by simp
      then show ?thesis
        using shortcode_at_start [of "drop i (c # s)"] d(2) by auto
    next
      case False
      then have i: "i = Suc (Suc (i - 2))" using that(1) by simp
      have "drop i (c # s) = drop (i - 2) (mid @ rest)" unfolding cs by (subst i) simp
      moreover have "i - 2 < length mid" using i that(2) by simp
      ultimately show ?thesis
        using no_start_inside [OF mid(2), of "i - 2" rest] by simp
    qed
    have after: "drop (length mid + 2 + j) (c # s) = drop j rest" for j
      unfolding cs by simp
    have "(\<exists>i r. shortcode_at (drop i (c # s)) = Some (n, r)) \<longleftrightarrow>
            n = name \<or> (\<exists>i r. shortcode_at (drop i rest) = Some (n, r))"
    proof
      assume "\<exists>i r. shortcode_at (drop i (c # s)) = Some (n, r)"
      then obtain i r where i: "shortcode_at (drop i (c # s)) = Some (n, r)" by blast
      consider "i = 0" | "0 < i" "i < length mid + 2" | "length mid + 2 \<le> i" by linarith
      then show "n = name \<or> (\<exists>i r. shortcode_at (drop i rest) = Some (n, r))"
      proof cases
        case 1
        then show ?thesis using i Some m by simp
      next
        case 2
        then show ?thesis using i inside by simp
      next
        case 3
        then have e: "length mid + 2 + (i - (length mid + 2)) = i" by simp
        have "drop i (c # s) = drop (i - (length mid + 2)) rest"
          using after [of "i - (length mid + 2)"] unfolding e .
        then show ?thesis using i by auto
      qed
    next
      assume "n = name \<or> (\<exists>i r. shortcode_at (drop i rest) = Some (n, r))"
      then show "\<exists>i r. shortcode_at (drop i (c # s)) = Some (n, r)"
      proof
        assume "n = name"
        then have "shortcode_at (drop 0 (c # s)) = Some (n, rest)" using Some m by simp
        then show ?thesis by blast
      next
        assume "\<exists>i r. shortcode_at (drop i rest) = Some (n, r)"
        then obtain j r where "shortcode_at (drop (length mid + 2 + j) (c # s)) = Some (n, r)"
          using after by auto
        then show ?thesis by blast
      qed
    qed
    then show ?thesis using Some m 2(2) [OF Some m [symmetric]] by simp
  qed
qed

lemma blocked_exact:
  "rejectDangerousShortcodes body blocked = None \<longleftrightarrow>
     (\<forall>i n r. shortcode_at (drop i body) = Some (n, r) \<longrightarrow> (\<forall>b \<in> set blocked. to_lower n \<noteq> to_lower (trim_space b)))"
proof -
  have "list_ex (\<lambda>n. to_lower n \<in> set (map (\<lambda>b. to_lower (trim_space b)) blocked)) (shortcode_names body) \<longleftrightarrow>
      (\<exists>n. n \<in> set (shortcode_names body) \<and> (\<exists>b \<in> set blocked. to_lower n = to_lower (trim_space b)))"
    by (auto simp: list_ex_iff)
  also have "\<dots> \<longleftrightarrow> (\<exists>i n r. shortcode_at (drop i body) = Some (n, r) \<and>
      (\<exists>b \<in> set blocked. to_lower n = to_lower (trim_space b)))"
    unfolding shortcode_names_exact by blast
  finally have ex: "list_ex (\<lambda>n. to_lower n \<in> set (map (\<lambda>b. to_lower (trim_space b)) blocked)) (shortcode_names body) \<longleftrightarrow>
      (\<exists>i n r. shortcode_at (drop i body) = Some (n, r) \<and> (\<exists>b \<in> set blocked. to_lower n = to_lower (trim_space b)))" .
  show ?thesis
  proof (cases "blocked = []")
    case True
    then show ?thesis by (simp add: rejectDangerousShortcodes_def)
  next
    case False
    then show ?thesis unfolding rejectDangerousShortcodes_def ex by auto
  qed
qed

lemma safe_text_exact:
  "rejectUnsafeText s = None \<longleftrightarrow>
     (\<exists>ps. runes s = concat ps \<and> list_all text_piece ps) \<and>
     (\<forall>r \<in> set (runes s). (0x20 \<le> r \<or> r \<in> {0x09, 0x0A, 0x0D}) \<and> \<not> (0x7F \<le> r \<and> r \<le> 0x9F) \<and> \<not> isBidiControlRune r)"
proof -
  have "rune_fault r = None \<longleftrightarrow>
      (0x20 \<le> r \<or> r \<in> {0x09, 0x0A, 0x0D}) \<and> \<not> (0x7F \<le> r \<and> r \<le> 0x9F) \<and> \<not> isBidiControlRune r" for r
    by (auto simp: rune_fault_def)
  then show ?thesis
    by (simp add: rejectUnsafeText_def first_fault_None tags_exact [symmetric] split: option.splits)
qed

text \<open>
  The gate on page bodies lets a body through exactly when it has at most 1 MiB, every control
  rune in it is a tab or a line break, no bidirectional control occurs, every tag character belongs
  to one of the three subdivision flags, and no position of it starts the invocation of a blocked
  shortcode, in whatever case, spacing, trim marker or closing form it is written.
\<close>

theorem body_gate_exact:
  "validateBodyFormat body blocked = None \<longleftrightarrow>
     length body \<le> 1048576 \<and>
     (\<forall>r \<in> set (runes body). (0x20 \<le> r \<or> r \<in> {0x09, 0x0A, 0x0D}) \<and> \<not> (0x7F \<le> r \<and> r \<le> 0x9F) \<and>
        \<not> isBidiControlRune r) \<and>
     (\<exists>ps. runes body = concat ps \<and> list_all text_piece ps) \<and>
     (\<forall>i n r. shortcode_at (drop i body) = Some (n, r) \<longrightarrow>
        (\<forall>b \<in> set blocked. to_lower n \<noteq> to_lower (trim_space b)))"
proof -
  have "validateBodyFormat body blocked = None \<longleftrightarrow>
      rejectUnsafeText body = None \<and> length body \<le> 1048576 \<and> rejectDangerousShortcodes body blocked = None"
    by (auto simp: validateBodyFormat_def maxBodyBytes_def split: option.splits)
  then show ?thesis
    unfolding safe_text_exact blocked_exact by blast
qed

lemma body_gate_exact_witness: "validateBodyFormat ''{{<  raw >}}'' ['' RAW''] \<noteq> None"
proof -
  have at: "shortcode_at (drop 0 ''{{<  raw >}}'') = Some (''raw'', '' >}}'')"
    by (simp add: shortcode_at_def after_delimiter_def name_at_def skip_slash_def skip_space_def re_space_def
        name_char_def is_upper_def is_lower_def is_digit_def in_range_def byte_def)
  have "trim_space '' RAW'' = ''RAW''" by (simp add: go_str)
  moreover have "char_of (114::nat) = CHR ''r''" "char_of (97::nat) = CHR ''a''" "char_of (119::nat) = CHR ''w''"
    by (simp_all add: char_of_eq_iff)
  ultimately have "to_lower ''raw'' = to_lower (trim_space '' RAW'')"
    by (simp add: to_lower_def to_lower_char_def)
  then show ?thesis
    unfolding body_gate_exact using at by (metis list.set_intros(1))
qed

text \<open>The paths a site-relative field may hold: slash-led, with plain segments over a small alphabet.\<close>

definition url_seg :: "string \<Rightarrow> bool" where
  "url_seg s \<longleftrightarrow> s \<noteq> [] \<and> s \<noteq> ''.'' \<and> s \<noteq> ''..'' \<and>
     list_all (\<lambda>c. is_upper c \<or> is_lower c \<or> is_digit c \<or> c \<in> set ''._~-'') s"

lemma url_seg_plain: "url_seg s \<Longrightarrow> plain_seg s"
  by (auto simp: url_seg_def plain_seg_def list_all_iff is_upper_def is_lower_def is_digit_def in_range_def byte_def)

lemma clean_plain_join:
  assumes "list_all plain_seg ss" "ss \<noteq> []"
  shows "path_clean (CHR ''/'' # join_with ''/'' ss) = CHR ''/'' # join_with ''/'' ss"
proof -
  have sp: "split_on CHR ''/'' (join_with ''/'' ss) = ss"
    using assms by (intro split_join) (auto simp: list_all_iff plain_seg_def)
  have "clean_segs (CHR ''/'' # join_with ''/'' ss) = ss"
    using assms(1) by (simp add: clean_segs_def is_abs_def sp clean_fold_plain)
  then show ?thesis by (simp add: path_clean_def is_abs_def)
qed

lemma local_chars_join:
  "list_all url_seg ss \<Longrightarrow> list_all local_char (join_with ''/'' ss)"
  by (induction ss rule: induct_list012) (auto simp: url_seg_def local_char_def list_all_iff)

lemma clean_segs_nonempty: "s \<in> set (clean_segs p) \<Longrightarrow> s \<noteq> ''''"
  using clean_segs_kept by (auto simp: kept_seg_def)

lemma local_path_exact:
  "validateLocalPath v = None \<longleftrightarrow> (\<exists>ss. ss \<noteq> [] \<and> list_all url_seg ss \<and> v = CHR ''/'' # join_with ''/'' ss)"
proof
  assume n: "validateLocalPath v = None"
  then obtain t where v: "v = CHR ''/'' # t" "t \<noteq> []" "list_all local_char t"
    by (auto simp: validateLocalPath_def localCharsetPattern_def split: if_splits)
  have clean: "path_clean v = v" using n by (auto simp: validateLocalPath_def split: if_splits)
  have dots: "\<not> list_ex (\<lambda>seg. seg = ''.'' \<or> seg = ''..'') (split_on CHR ''/'' t)"
    using n v(1) by (auto simp: validateLocalPath_def trim_prefix_def split: if_splits)
  have abs: "is_abs v" using v by (simp add: is_abs_def)
  have t: "t = join_with ''/'' (clean_segs v)"
    using clean v(1) abs by (simp add: path_clean_def Let_def)
  then have ne: "clean_segs v \<noteq> []" using v(2) by auto
  have sp: "split_on CHR ''/'' t = clean_segs v"
    unfolding t using ne clean_segs_kept by (intro split_join) (auto simp: kept_seg_def)
  have "url_seg s" if s: "s \<in> set (clean_segs v)" for s
  proof -
    have "set s \<subseteq> set t"
    proof -
      have "set s \<subseteq> set (join_with ''/'' ss)" if "s \<in> set ss" for ss
        using that by (induction ss rule: induct_list012) auto
      then show ?thesis using s t by auto
    qed
    moreover have "s \<noteq> ''.'' \<and> s \<noteq> ''..''" using dots s unfolding sp by (auto simp: list_ex_iff)
    moreover have "CHR ''/'' \<notin> set s" "s \<noteq> ''''" using clean_segs_kept [OF s] by (auto simp: kept_seg_def)
    moreover have "\<forall>c \<in> set s. local_char c \<and> c \<noteq> CHR ''/''"
      using v(3) calculation(1,3) by (auto simp: list_all_iff)
    then have "\<forall>c \<in> set s. is_upper c \<or> is_lower c \<or> is_digit c \<or> c \<in> set ''._~-''"
      unfolding local_char_def by auto
    ultimately show ?thesis
      by (simp add: url_seg_def list_all_iff)
  qed
  then have "list_all url_seg (clean_segs v)" by (simp add: list_all_iff)
  moreover have "v = CHR ''/'' # join_with ''/'' (clean_segs v)"
    by (rule trans [OF v(1)]) (rule arg_cong [OF t])
  ultimately show "\<exists>ss. ss \<noteq> [] \<and> list_all url_seg ss \<and> v = CHR ''/'' # join_with ''/'' ss"
    using ne by blast
next
  assume "\<exists>ss. ss \<noteq> [] \<and> list_all url_seg ss \<and> v = CHR ''/'' # join_with ''/'' ss"
  then obtain ss where ss: "ss \<noteq> []" "list_all url_seg ss" and v: "v = CHR ''/'' # join_with ''/'' ss" by blast
  have plain: "list_all plain_seg ss" using ss(2) url_seg_plain by (auto simp: list_all_iff)
  have sp: "split_on CHR ''/'' (join_with ''/'' ss) = ss"
    using ss(1) plain by (intro split_join) (auto simp: list_all_iff plain_seg_def)
  have lc: "list_all local_char (join_with ''/'' ss)" using local_chars_join [OF ss(2)] .
  have ne: "join_with ''/'' ss \<noteq> []" and hd: "hd (join_with ''/'' ss) \<noteq> CHR ''/''"
  proof -
    obtain s1 ss' where s: "ss = s1 # ss'" using ss(1) by (cases ss) auto
    then have p1: "plain_seg s1" using plain by simp
    then show "join_with ''/'' ss \<noteq> []" "hd (join_with ''/'' ss) \<noteq> CHR ''/''"
      unfolding s by (cases ss'; cases s1; auto simp: plain_seg_def)+
  qed
  have bs: "CHR 0x5C \<notin> set v"
    using lc v by (auto simp: list_all_iff local_char_def is_upper_def is_lower_def is_digit_def in_range_def byte_def)
  have lo: "\<not> list_ex (\<lambda>p. has_prefix p (to_lower v)) forbiddenLocalSchemePrefixes"
    by (simp add: v forbiddenLocalSchemePrefixes_def to_lower_def to_lower_char_def Let_def)
  have "\<not> has_prefix ''//'' v" using ne hd v by (cases "join_with ''/'' ss") auto
  moreover have "\<not> list_ex (\<lambda>seg. seg = ''.'' \<or> seg = ''..'') (split_on CHR ''/'' (trim_prefix ''/'' v))"
    using plain by (auto simp: v trim_prefix_def sp list_ex_iff list_all_iff plain_seg_def)
  moreover have "path_clean v = v" unfolding v by (rule clean_plain_join [OF plain ss(1)])
  moreover have "localCharsetPattern v" using lc ne by (simp add: localCharsetPattern_def v)
  ultimately show "validateLocalPath v = None"
    using bs lo by (simp add: validateLocalPath_def v)
qed

end
