(* ===== verification/WriteCommon.thy ===== *)
theory WriteCommon
  imports Recovery Assets Validation
begin

text \<open>
  What the write handlers of \<open>internal/tools/write\<close> share: slugs and languages (\<open>tools.go\<close>), the files
  of a bundle, lifecycle states, the outcome of the last build (\<open>internal/buildstatus\<close>), the answer a
  restart replays (\<open>recovery.go\<close>) and the wait for the content lock (\<open>bundle\_plan.go\<close>).
\<close>

section \<open>Slugs and languages\<close>

definition sourceKeyForInputSlug :: "string \<Rightarrow> string" where
  "sourceKeyForInputSlug s = (if trim_space s = ''/'' then '''' else trim_char CHR ''/'' s)"

definition reservedSlugs :: "string list" where
  "reservedSlugs = [''_index'', ''index'', ''404'']"

definition reservedSlugConflict :: "string \<Rightarrow> string option" where
  "reservedSlugConflict slug = find (\<lambda>seg. seg \<noteq> '''' \<and> seg \<in> set reservedSlugs) (split_on CHR ''/'' slug)"

definition validLangPattern :: "string \<Rightarrow> bool" where
  "validLangPattern s \<longleftrightarrow> 2 \<le> length s \<and> length s \<le> 5 \<and>
     list_all (\<lambda>c. is_upper c \<or> is_lower c \<or> is_digit c \<or> c = CHR ''-'') s"

definition validateLangParam :: "string \<Rightarrow> string go" where
  "validateLangParam lang0 =
     (let lang = trim_space lang0
      in if lang = '''' then Inr ''''
         else if \<not> validLangPattern lang \<or> has_infix ''..'' lang \<or> CHR ''/'' \<in> set lang \<or> CHR 0x5C \<in> set lang
           then Inl ''invalid_params: lang must be a simple language code''
         else Inr lang)"

definition unknown_lang_text :: string where
  "unknown_lang_text = ''lang has no existing content and is not the default language of this site''"

text \<open>\<open>known\<close> are the languages of the source index; the message is its constant part.\<close>

definition unknownLangWarning :: "string \<Rightarrow> string list \<Rightarrow> string \<Rightarrow> string list \<Rightarrow> string" where
  "unknownLangWarning lang0 known defaultLang configuredLangs =
     (let lang = trim_space lang0
      in if lang = '''' \<or> lang = trim_space defaultLang \<or> lang \<in> set (map trim_space configuredLangs) \<or>
            lang \<in> set known then ''''
         else unknown_lang_text)"

definition rejectUnconfiguredLang :: "string \<Rightarrow> string list \<Rightarrow> string \<Rightarrow> string option" where
  "rejectUnconfiguredLang lang0 configuredLangs defaultLang =
     (let lang = trim_space lang0
      in if lang = '''' \<or> configuredLangs = [] \<or> lang = trim_space defaultLang \<or>
            lang \<in> set (map trim_space configuredLangs) then None
         else Some ''invalid_params: lang is not in the configured_languages of this site'')"

section \<open>Files of a bundle\<close>

definition inferLangFromIndexFile :: "string \<Rightarrow> string" where
  "inferLangFromIndexFile path =
     (let base = path_base path
      in if base = ''index.md'' then '''' else trim_suffix ''.md'' (trim_prefix ''index.'' base))"

definition is_lang_file :: "string \<Rightarrow> bool" where
  "is_lang_file name \<longleftrightarrow> name = ''index.md'' \<or> has_prefix ''index.'' name \<and> has_suffix ''.md'' name"

definition lang_files :: "(string \<times> bool) list option \<Rightarrow> string list" where
  "lang_files es = (case es of None \<Rightarrow> [] | Some es \<Rightarrow> map fst (filter (\<lambda>(n, d). \<not> d \<and> is_lang_file n) es))"

definition bundleHasRemainingLangFiles :: "(string \<Rightarrow> (string \<times> bool) list option) \<Rightarrow> string \<Rightarrow> bool" where
  "bundleHasRemainingLangFiles ls dir \<longleftrightarrow> lang_files (ls dir) \<noteq> []"

definition bundleHasOtherLangFiles :: "(string \<Rightarrow> (string \<times> bool) list option) \<Rightarrow> string \<Rightarrow> string \<Rightarrow> bool" where
  "bundleHasOtherLangFiles ls dir excluded \<longleftrightarrow>
     list_ex (\<lambda>n. path_join [dir, n] \<noteq> excluded) (lang_files (ls dir))"

definition bundleHasUnselectedLangFiles ::
    "(string \<Rightarrow> (string \<times> bool) list option) \<Rightarrow> string \<Rightarrow> string list \<Rightarrow> bool" where
  "bundleHasUnselectedLangFiles ls dir selected \<longleftrightarrow>
     list_ex (\<lambda>n. path_join [dir, n] \<notin> set selected) (lang_files (ls dir))"

definition bundleWouldBeFullyRemovedAfterDelete ::
    "(string \<Rightarrow> (string \<times> bool) list option) \<Rightarrow> string \<Rightarrow> string \<Rightarrow> bool" where
  "bundleWouldBeFullyRemovedAfterDelete ls dir resolved \<longleftrightarrow>
     (if blank resolved then True
      else (case ls dir of
              None \<Rightarrow> False
            | Some es \<Rightarrow>
                \<not> list_ex (\<lambda>(n, d). \<not> d \<and> n \<noteq> path_base resolved \<and> has_prefix ''index.'' n \<and> has_suffix ''.md'' n) es))"

section \<open>Lifecycle states and the last build\<close>

record lifecycle_state =
  lc_source :: string
  lc_build :: string
  lc_public :: string
  lc_index :: string

definition createPageState :: lifecycle_state where
  "createPageState = \<lparr>lc_source = ''present'', lc_build = ''pending'', lc_public = ''not_yet_available'',
                      lc_index = ''source_only''\<rparr>"

definition updatePageState :: "bool \<Rightarrow> bool \<Rightarrow> lifecycle_state" where
  "updatePageState hasSiteIndex hadPublic =
     \<lparr>lc_source = ''present'', lc_build = ''pending'',
      lc_public = (if hadPublic then ''stale'' else if hasSiteIndex then ''not_yet_available'' else ''unknown''),
      lc_index = (if hadPublic then ''stale'' else if hasSiteIndex then ''source_only'' else ''unknown'')\<rparr>"

definition deletePageState :: "bool \<Rightarrow> bool \<Rightarrow> bool \<Rightarrow> lifecycle_state" where
  "deletePageState hasSiteRoot publicCleanupFailed dbDeleteFailed =
     \<lparr>lc_source = ''deleted'', lc_build = ''not_applicable'',
      lc_public = (if \<not> hasSiteRoot then ''unknown'' else if publicCleanupFailed then ''stale'' else ''removed''),
      lc_index = (if dbDeleteFailed then ''stale'' else ''removed'')\<rparr>"

record build_snapshot =
  bs_attempted :: bool
  bs_status :: string
  bs_error_class :: string
  bs_at :: time

definition RecordSuccess :: "time \<Rightarrow> build_snapshot" where
  "RecordSuccess at = \<lparr>bs_attempted = True, bs_status = ''ok'', bs_error_class = '''', bs_at = at\<rparr>"

definition RecordFailure :: "string \<Rightarrow> time \<Rightarrow> build_snapshot" where
  "RecordFailure errorClass at = \<lparr>bs_attempted = True, bs_status = ''failed'', bs_error_class = errorClass, bs_at = at\<rparr>"

definition appendLastBuildWarning :: "build_snapshot \<Rightarrow> string \<Rightarrow> string" where
  "appendLastBuildWarning snap warning =
     (if \<not> bs_attempted snap \<or> bs_status snap \<noteq> ''failed'' then warning
      else
        (let advisory = ''the last build_site attempt failed ('' @ bs_error_class snap @ '')''
         in if warning = '''' then advisory else warning @ ''; '' @ advisory))"

section \<open>The answer a restart replays\<close>

text \<open>
  \<open>marshal\<close> codes a JSON value; \<open>meta\<close> are the build identifiers and \<open>at\<close> the text of the time. The seed
  replaces the members of the same name.
\<close>

definition recovery_warning :: string where
  "recovery_warning = ''response reconstructed from the durable recovery journal after restart''"

definition fallback_status :: "string \<Rightarrow> string \<times> string" where
  "fallback_status tool =
     (if tool \<in> {''create_page'', ''create_bundle''} then (''created'', ''created'')
      else if tool \<in> {''delete_page'', ''delete_bundle''} then (''deleted'', ''deleted'')
      else if tool \<in> {''rollback_change'', ''rollback_bundle''} then (''restored'', ''restored'')
      else (''updated'', ''applied''))"

definition recoveryFallbackResult ::
    "(json \<Rightarrow> string) \<Rightarrow> json \<Rightarrow> string \<Rightarrow> string \<Rightarrow> (string \<times> json) list \<Rightarrow> string" where
  "recoveryFallbackResult marshal meta at tool seed =
     (case fallback_status tool of (status, bundle_status) \<Rightarrow>
        let base = [(''status'', JStr status), (''bundle_status'', JStr bundle_status), (''languages'', JArr []),
                    (''translations'', JArr []), (''revisions'', JObj []), (''validation'', JStr ''recovered''),
                    (''warning'', JStr recovery_warning)];
            data = fold (\<lambda>(k, v) m. gput m k v) seed base
        in marshal (JObj [(''success'', JBool True), (''data'', JObj data), (''errors'', JArr []),
             (''warnings'', JArr [JStr recovery_warning]), (''meta'', meta), (''generated_at'', JStr at),
             (''rate_limit_remaining'', JNum ''0'')]))"

section \<open>Waiting for the content lock\<close>

text \<open>
  \<open>lock k\<close> says whether the \<open>k\<close>-th attempt succeeds and \<open>clock k\<close> is the reading after it fails. The
  answer comes with the number of the last attempt.
\<close>

definition lockWait :: duration where "lockWait = 10 * second"

definition lockSleep :: duration where "lockSleep = 50000000"

partial_function (option) lock_loop ::
    "(nat \<Rightarrow> bool) \<Rightarrow> (nat \<Rightarrow> time) \<Rightarrow> time \<Rightarrow> nat \<Rightarrow> (bool \<times> nat) option" where
  "lock_loop lock clock deadline k =
     (if lock k then Some (True, k)
      else if deadline < clock k then Some (False, k)
      else lock_loop lock clock deadline (Suc k))"

definition acquireContentLock :: "(nat \<Rightarrow> bool) \<Rightarrow> (nat \<Rightarrow> time) \<Rightarrow> time \<Rightarrow> (bool \<times> nat) option" where
  "acquireContentLock lock clock start = lock_loop lock clock (start + lockWait) 0"

lemma lock_loop_returns:
  assumes "deadline < clock m" and "k \<le> m"
  shows "\<exists>r n. lock_loop lock clock deadline k = Some (r, n) \<and> k \<le> n \<and> n \<le> m \<and>
           (\<forall>j. k \<le> j \<and> j < n \<longrightarrow> \<not> lock j) \<and> r = lock n \<and> (\<not> r \<longrightarrow> deadline < clock n)"
  using assms(2)
proof (induction "m - k" arbitrary: k)
  case 0
  then show ?case
    using assms(1) by (subst lock_loop.simps) auto
next
  case (Suc d)
  show ?case
  proof (cases "lock k \<or> deadline < clock k")
    case True
    then show ?thesis
      using Suc.prems by (subst lock_loop.simps) (auto intro: exI [of _ k])
  next
    case False
    have "d = m - Suc k" "Suc k \<le> m" using Suc.hyps(2) by simp_all
    from Suc.hyps(1) [OF this] obtain r n where
      n: "lock_loop lock clock deadline (Suc k) = Some (r, n)" "Suc k \<le> n" "n \<le> m"
        "\<forall>j. Suc k \<le> j \<and> j < n \<longrightarrow> \<not> lock j" "r = lock n" "\<not> r \<longrightarrow> deadline < clock n" by blast
    have "\<not> lock j" if "k \<le> j" "j < n" for j
      using that n(4) False by (cases "j = k") auto
    then show ?thesis
      using n False by (subst lock_loop.simps) auto
  qed
qed

text \<open>
  C29. The wait for the content lock ends: if every pause of 50 ms takes at least 50 ms of clock, the
  loop returns after at most 202 attempts. It reports success exactly when its last attempt got the
  lock, after only failed ones, and gives up only past the deadline of ten seconds.
\<close>

theorem content_lock_terminates:
  assumes pause: "\<And>k. start + int k * lockSleep \<le> clock k"
  shows "\<exists>r n. acquireContentLock lock clock start = Some (r, n) \<and> n \<le> 201 \<and> (\<forall>j < n. \<not> lock j) \<and>
           r = lock n \<and> (\<not> r \<longrightarrow> start + lockWait < clock n)"
proof -
  have "start + lockWait < clock 201"
    using pause [of 201] by (simp add: lockWait_def lockSleep_def second_def)
  then show ?thesis
    using lock_loop_returns [of "start + lockWait" clock 201 0 lock] by (simp add: acquireContentLock_def)
qed

lemma content_lock_terminates_witness:
  "\<exists>n. acquireContentLock (\<lambda>k. k = 7) (\<lambda>k. 5 + int k * lockSleep) 5 = Some (True, n) \<and> n = 7"
proof -
  obtain r n where n: "acquireContentLock (\<lambda>k. k = 7) (\<lambda>k. 5 + int k * lockSleep) 5 = Some (r, n)"
      "\<forall>j < n. j \<noteq> 7" "r = (n = 7)" "\<not> r \<longrightarrow> 5 + lockWait < 5 + int n * lockSleep"
    using content_lock_terminates [of 5 "\<lambda>k. 5 + int k * lockSleep" "\<lambda>k. k = 7"] by auto
  moreover have "n = 7"
  proof (rule ccontr)
    assume "n \<noteq> 7"
    then have "lockWait < int n * lockSleep" using n(3,4) by simp
    then have "200 < n" by (simp add: lockWait_def lockSleep_def second_def)
    then have "(7::nat) < n" by simp
    then show False using n(2) by blast
  qed
  ultimately show ?thesis by simp
qed

end
