(* ===== verification/Utf8.thy ===== *)
theory Utf8
  imports Validation
begin

text \<open>
  Text that is valid UTF-8 (Go's \<open>utf8.Valid\<close>): what \<open>encoding/json\<close> writes and reads back unchanged. It
  replaces every other byte by the replacement character, so the laws assumed of the JSON coders speak of such text only.
\<close>

text \<open>The width alone of the rune at the front.\<close>

definition rune_width :: "char \<Rightarrow> string \<Rightarrow> nat" where
  "rune_width c s =
     (let b = byte c; cont = (\<lambda>k. k < length s \<and> in_range 0x80 0xBF (s ! k));
          lo = (if b = 0xE0 then 0xA0 else if b = 0xF0 then 0x90 else 0x80);
          hi = (if b = 0xED then 0x9F else if b = 0xF4 then 0x8F else 0xBF);
          second_ok = (s \<noteq> [] \<and> in_range lo hi (hd s))
      in if 0xC2 \<le> b \<and> b \<le> 0xDF \<and> second_ok then 2
         else if 0xE0 \<le> b \<and> b \<le> 0xEF \<and> second_ok \<and> cont 1 then 3
         else if 0xF0 \<le> b \<and> b \<le> 0xF4 \<and> second_ok \<and> cont 1 \<and> cont 2 then 4 else 1)"

lemma decode_rune_snd: "snd (decode_rune c s) = rune_width c s"
  by (auto simp: decode_rune_def rune_width_def Let_def)

lemma rune_width_pos: "0 < rune_width c s"
  by (simp add: rune_width_def Let_def)

text \<open>The front of the text is no encoded rune; \<open>DecodeRune\<close> answers with the replacement character of width one.\<close>

definition bad_rune :: "char \<Rightarrow> string \<Rightarrow> bool" where
  "bad_rune c s \<longleftrightarrow> 0x80 \<le> byte c \<and> rune_width c s = 1"

lemma width_one:
  "(if p then 2 else if q then 3 else if r then 4 else 1) = (1 :: nat) \<Longrightarrow>
     (if b then x else if p then y else if q then z else if r then v else e) = (if b then x else e)"
  by (cases p; cases q; cases r) simp_all

lemma bad_rune_iff: "bad_rune c s \<longleftrightarrow> decode_rune c s = (rune_error, 1)"
proof (cases "byte c < 0x80")
  case True
  then have "decode_rune c s = (byte c, 1)" by (simp add: decode_rune_def Let_def)
  then show ?thesis using True by (simp add: bad_rune_def rune_error_def)
next
  case False
  have "decode_rune c s = (rune_error, 1)" if "rune_width c s = 1"
    unfolding decode_rune_def Let_def by (simp only: width_one [OF that [unfolded rune_width_def Let_def]] False if_False)
  then show ?thesis using False decode_rune_snd [of c s] by (auto simp: bad_rune_def)
qed

function valid_utf8 :: "string \<Rightarrow> bool" where
  "valid_utf8 [] \<longleftrightarrow> True"
| "valid_utf8 (c # s) \<longleftrightarrow> (if bad_rune c s then False else valid_utf8 (drop (rune_width c s) (c # s)))"
  by pat_completeness auto
termination
  by (relation "measure length") (simp_all add: rune_width_pos)

declare valid_utf8.simps(2) [simp del]

lemma ascii_utf8: "list_all (\<lambda>c. byte c < 0x80) s \<Longrightarrow> valid_utf8 s"
proof (induction s)
  case (Cons c s)
  then have "rune_width c s = 1" by (simp add: rune_width_def Let_def)
  then show ?case using Cons by (simp add: valid_utf8.simps(2) bad_rune_def)
qed simp

definition opt_utf8 :: "string option \<Rightarrow> bool" where
  "opt_utf8 t \<longleftrightarrow> (case t of None \<Rightarrow> True | Some s \<Rightarrow> valid_utf8 s)"

lemma utf8_samples:
  "valid_utf8 ''page''" "valid_utf8 [CHR 0xC3, CHR 0xA9]" "\<not> valid_utf8 [CHR 0xE9]" "\<not> valid_utf8 [CHR 0xED, CHR 0xA0, CHR 0x80]"
  by code_simp+

end
