(* ===== verification/Coding.thy ===== *)
theory Coding
  imports WriteCommon Utf8
begin

text \<open>
  What is assumed of \<open>encoding/json\<close> on journal rows: the fields of a row that hold valid UTF-8 come back as they
  were. Of other text nothing is assumed, since the encoder replaces the bytes it cannot represent.
\<close>

definition file_utf8 :: "recovery_file \<Rightarrow> bool" where
  "file_utf8 f \<longleftrightarrow> valid_utf8 (rf_path f) \<and> opt_utf8 (rf_before f) \<and> opt_utf8 (rf_after f)"

definition row_utf8 :: "string \<Rightarrow> recovery_file list \<Rightarrow> bool" where
  "row_utf8 dir rfs \<longleftrightarrow> valid_utf8 dir \<and> list_all file_utf8 rfs"

definition row_codec :: "(recovery_payload \<Rightarrow> string option) \<Rightarrow> (string \<Rightarrow> server_payload option) \<Rightarrow> bool" where
  "row_codec enc dec \<longleftrightarrow>
     (\<forall>r raw. row_utf8 (br_dir r) (br_files r) \<and> list_all valid_utf8 (br_cleanup r) \<and> enc (BundleWrite r) = Some raw \<longrightarrow>
        (\<exists>p. dec raw = Some p \<and> sp_bundle_dir p = br_dir r \<and> sp_files p = br_files r \<and> sp_cleanup p = br_cleanup r))"

lemma row_decodes:
  assumes "row_codec enc dec" "row_utf8 dir rfs" "list_all valid_utf8 cl"
    and "enc (BundleWrite \<lparr>br_dir = dir, br_files = rfs, br_idem = idem, br_cleanup = cl\<rparr>) = Some raw"
  obtains p where "dec raw = Some p" "sp_bundle_dir p = dir" "sp_files p = rfs" "sp_cleanup p = cl"
proof -
  let ?r = "\<lparr>br_dir = dir, br_files = rfs, br_idem = idem, br_cleanup = cl\<rparr>"
  have "row_utf8 (br_dir ?r) (br_files ?r) \<and> list_all valid_utf8 (br_cleanup ?r) \<and> enc (BundleWrite ?r) = Some raw"
    using assms(2-4) by simp
  with assms(1) have "\<exists>p. dec raw = Some p \<and> sp_bundle_dir p = dir \<and> sp_files p = rfs \<and> sp_cleanup p = cl"
    unfolding row_codec_def by (metis bundle_recovery.select_convs)
  then show ?thesis using that by blast
qed

end
