(* ===== verification/BundleTx.thy ===== *)
theory BundleTx
  imports Coding Plans
begin

text \<open>
  Bundle transactions (\<open>internal/tools/write/bundle\_plan.go\<close>): \<open>apply\_bundle\_plan\<close> and \<open>rollback\_bundle\<close>
  write every translation of a bundle, with the pre-write snapshot, the recovery journal and the
  in-process rollback. The process may die at the points of \<open>crash\_point\<close>; what it leaves then is the
  world of the result. The indexes are not modelled: the warning of the derived database per
  translation is an argument. The rate-limit members of the answers are left out.
\<close>

section \<open>Inputs and answers\<close>

record apply_input =
  ai_plan_id :: string
  ai_key :: string
  ai_change_set :: string
  ai_dry_run :: bool

record rollback_input =
  rb_slug :: string
  rb_to_revision :: string
  rb_expected :: string
  rb_key :: string
  rb_change_set :: string
  rb_dry_run :: bool

record bundle_outcome =
  bo_lang :: string
  bo_source_path :: string
  bo_status :: string
  bo_before :: string
  bo_after :: string
  bo_applied :: "string list"
  bo_rejected :: "rejected_operation list"
  bo_diff :: string

text \<open>One record for both answers: a member that is empty is absent from the coded answer.\<close>

record bundle_data =
  bd_status :: string
  bd_plan_id :: string
  bd_pub_slug :: string
  bd_dry_run :: bool
  bd_bundle_status :: string
  bd_before :: string
  bd_after :: string
  bd_translations :: "bundle_outcome list"
  bd_warning :: string
  bd_state :: "lifecycle_state option"

datatype crash_point = BeforeWrite string | BeforeUndo string | AfterWrites | AfterLog | AfterConsume
  | AfterStage | AfterRemember | AfterCommit

datatype 'o outcome = Done 'o | Failed string | Died

section \<open>State and environment\<close>

record bundle_world =
  bw_files :: files
  bw_journal :: "recovery_table option"
  bw_plans :: "bundle_plan_entry ttl_store"
  bw_snaps :: "bundle_snapshot ttl_store"
  bw_idem :: idem_store
  bw_sets :: cs_registry

record bundle_config =
  bc_content_root :: string
  bc_force_dry_run :: bool
  bc_blocked :: "string list"

text \<open>The coders and parsers the handlers call.\<close>

record bundle_lib =
  bl_sha :: "string \<Rightarrow> string"
  bl_yaml_any :: "string \<Rightarrow> bool"
  bl_yaml_doc :: "string \<Rightarrow> (bool \<times> bool) option"
  bl_plan_enc :: "bundle_plan_entry \<Rightarrow> string option"
  bl_plan_dec :: "string \<Rightarrow> bundle_plan_entry option"
  bl_snap_enc :: "bundle_snapshot \<Rightarrow> string option"
  bl_snap_dec :: "string \<Rightarrow> bundle_snapshot option"
  bl_rec_enc :: "recovery_payload \<Rightarrow> string option"
  bl_out_enc :: "bundle_data \<Rightarrow> string option"
  bl_out_dec :: "string \<Rightarrow> bundle_data option"
  bl_request_hash :: "string list \<Rightarrow> string option"
  bl_marshal :: "json \<Rightarrow> string"
  bl_meta :: json

record bundle_env =
  be_now :: time
  be_now_text :: string
  be_ctx :: call_ctx
  be_allow :: bool
  be_locked :: bool
  be_view :: fs_view
  be_is_dir :: "string \<Rightarrow> bool"
  be_ls :: "string \<Rightarrow> (string \<times> bool) list option"
  be_unreadable :: "string \<Rightarrow> bool"
  be_write :: "string \<Rightarrow> atomic_faults"
  be_undo :: "string \<Rightarrow> atomic_faults"
  be_dies :: "crash_point \<Rightarrow> bool"
  be_random :: "string option"
  be_plan_fl :: io_faults
  be_consume_fl :: io_faults
  be_snap_fl :: io_faults
  be_snap_put_fl :: io_faults
  be_replay_fl :: io_faults
  be_remember_fl :: io_faults
  be_rec_fails :: "string \<Rightarrow> bool"
  be_cs_read_fails :: bool
  be_cs_touch_fails :: bool
  be_cs_record_fails :: bool
  be_index_warn :: "string \<Rightarrow> string"
  be_has_index :: bool
  be_public :: "string \<Rightarrow> bool"
  be_last_build :: build_snapshot

section \<open>Directories, snapshots and writes\<close>

definition resolveBundleDir ::
    "'e bundle_env_scheme \<Rightarrow> path_guard \<Rightarrow> string \<Rightarrow> string \<Rightarrow> (string \<times> (string, string) gomap) go" where
  "resolveBundleDir env pg contentRoot slug =
     (case SafeJoin (be_view env) pg slug of
        Inl e \<Rightarrow> Inl ''invalid_params: path validation failed''
      | Inr joined \<Rightarrow>
          (let dir = path_join [contentRoot, slug]
           in if \<not> be_is_dir env dir then Inl ''not_a_bundle: the slug is not a page bundle directory''
              else (case BundleTranslations (be_ls env) dir of
                      Inl e \<Rightarrow> Inl ''read_error: failed to read bundle directory''
                    | Inr ts \<Rightarrow> if ts = [] then Inl ''not_a_bundle: the slug has no translation files''
                                else Inr (dir, ts))))"

text \<open>A file that does not exist is captured as the empty text.\<close>

fun capture_files ::
    "(string \<Rightarrow> bool) \<Rightarrow> files \<Rightarrow> (string \<times> string) list \<Rightarrow> (string, string) gomap \<Rightarrow> (string, string) gomap go" where
  "capture_files unreadable fs [] prior = Inr prior"
| "capture_files unreadable fs ((p, c) # rest) prior =
     (if unreadable p then Inl ''read_error: failed to read''
      else capture_files unreadable fs rest (gput prior p (case gget fs p of None \<Rightarrow> '''' | Some raw \<Rightarrow> raw)))"

definition captureBundleTranslations ::
    "(string \<Rightarrow> bool) \<Rightarrow> files \<Rightarrow> (string \<times> string) list \<Rightarrow> (string, string) gomap go" where
  "captureBundleTranslations unreadable fs fls = capture_files unreadable fs fls []"

datatype write_result = Wrote | WriteFailed string | WriteDied

text \<open>The rollback of the written files, in their order; a failure is only logged.\<close>

fun undo_writes ::
    "'e bundle_env_scheme \<Rightarrow> path_guard \<Rightarrow> (string, string) gomap \<Rightarrow> string list \<Rightarrow> files \<Rightarrow> files \<times> bool" where
  "undo_writes env pg prior [] fs = (fs, True)"
| "undo_writes env pg prior (p # ps) fs =
     (if be_dies env (BeforeUndo p) then (fs, False)
      else undo_writes env pg prior ps
             (fst (AtomicWriteChecked (be_undo env p) (be_view env) (be_view env) pg fs p
                (case gget prior p of None \<Rightarrow> '''' | Some c \<Rightarrow> c))))"

definition failed_write ::
    "'e bundle_env_scheme \<Rightarrow> path_guard \<Rightarrow> (string, string) gomap \<Rightarrow> string list \<Rightarrow> files \<Rightarrow> string \<Rightarrow> files \<times> write_result" where
  "failed_write env pg prior written fs err =
     (case undo_writes env pg prior written fs of
        (fs', alive) \<Rightarrow> (fs', if alive then WriteFailed err else WriteDied))"

fun write_files ::
    "'e bundle_env_scheme \<Rightarrow> path_guard \<Rightarrow> (string, string) gomap \<Rightarrow> (string \<times> string) list \<Rightarrow> string list \<Rightarrow> files \<Rightarrow>
     files \<times> write_result" where
  "write_files env pg prior [] written fs = (fs, Wrote)"
| "write_files env pg prior ((p, c) # rest) written fs =
     (if be_dies env (BeforeWrite p) then (fs, WriteDied)
      else if RevalidateForWrite (be_view env) pg p \<noteq> None
        then failed_write env pg prior written fs ''security_error: symlink detected in write path''
      else (case AtomicWriteChecked (be_write env p) (be_view env) (be_view env) pg fs p c of
              (fs', Some e) \<Rightarrow> failed_write env pg prior written fs' ''write_error: failed to write (bundle rolled back)''
            | (fs', None) \<Rightarrow> write_files env pg prior rest (written @ [p]) fs'))"

definition writeBundleTranslations ::
    "'e bundle_env_scheme \<Rightarrow> path_guard \<Rightarrow> files \<Rightarrow> (string \<times> string) list \<Rightarrow> files \<times> write_result" where
  "writeBundleTranslations env pg fs fls =
     (case captureBundleTranslations (be_unreadable env) fs fls of
        Inl e \<Rightarrow> (fs, WriteFailed e)
      | Inr prior \<Rightarrow> write_files env pg prior fls [] fs)"

text \<open>The transitions recorded in the journal: every file before and after.\<close>

fun recovery_files ::
    "(string \<Rightarrow> bool) \<Rightarrow> files \<Rightarrow> (string \<times> string) list \<Rightarrow> recovery_file list go" where
  "recovery_files unreadable fs [] = Inr []"
| "recovery_files unreadable fs ((p, c) # rest) =
     (case captureBundleRecoveryFile unreadable fs p (Some c) of
        Inl e \<Rightarrow> Inl ''read_error: failed to capture bundle recovery state''
      | Inr f \<Rightarrow> (case recovery_files unreadable fs rest of Inl e \<Rightarrow> Inl e | Inr fs' \<Rightarrow> Inr (f # fs')))"

definition candidate_fault :: "bundle_lib \<Rightarrow> string list \<Rightarrow> string \<Rightarrow> string option" where
  "candidate_fault L blocked content =
     (case validateFrontmatterRoundTrip (bl_yaml_any L) (bl_yaml_doc L) content of
        Some e \<Rightarrow> Some (''validation_error: '' @ e)
      | None \<Rightarrow> map_option (\<lambda>e. ''invalid_params: '' @ e) (rejectDangerousShortcodes content blocked))"

section \<open>The steps after the write\<close>

definition log_state :: "bundle_lib \<Rightarrow> 'e bundle_env_scheme \<Rightarrow> bundle_world \<Rightarrow> recovery_operation \<Rightarrow> string \<Rightarrow> bundle_world" where
  "log_state L env w op state =
     w\<lparr>bw_journal := fst (op_record (bl_rec_enc L) (be_rec_fails env state) (be_now env) (bw_journal w) op state)\<rparr>"

definition bundle_remember ::
    "bundle_lib \<Rightarrow> 'e bundle_env_scheme \<Rightarrow> bundle_world \<Rightarrow> string \<Rightarrow> string \<Rightarrow> string \<Rightarrow> bundle_data \<Rightarrow> bundle_world" where
  "bundle_remember L env w tool key idemHash out =
     (if idemHash = '''' then w
      else w\<lparr>bw_idem := fst (remember (bl_out_enc L) (be_remember_fl env) (be_now env) (bw_idem w)
              (idempotencyCallerKey (be_ctx env)) tool key idemHash out)\<rparr>)"

text \<open>From the staged answer to the end of the handler.\<close>

definition bundle_close ::
    "bundle_lib \<Rightarrow> 'e bundle_env_scheme \<Rightarrow> bundle_world \<Rightarrow> recovery_operation \<Rightarrow> string \<Rightarrow> string \<Rightarrow> string \<Rightarrow> string \<Rightarrow> string \<Rightarrow>
     string \<Rightarrow> bundle_data \<Rightarrow> bundle_world \<times> bundle_data outcome" where
  "bundle_close L env w op tool key idemHash cs slug action out =
     (case stageResult (bl_rec_enc L) (be_rec_fails env ''staged'') (be_now env) (bw_journal w) op
             (bl_out_enc L out) of
        (j, Inl e) \<Rightarrow> (w\<lparr>bw_journal := j\<rparr>, Failed ''persistence_error: failed to stage recoverable mutation result'')
      | (j, Inr op') \<Rightarrow>
          (let w1 = w\<lparr>bw_journal := j\<rparr>
           in if be_dies env AfterStage then (w1, Died)
              else (let w2 = bundle_remember L env w1 tool key idemHash out
                    in if be_dies env AfterRemember then (w2, Died)
                       else (let w3 = log_state L env w2 op' ''committed''
                             in if be_dies env AfterCommit then (w3, Died)
                                else (w3\<lparr>bw_sets := RecordMutation (be_cs_record_fails env) (bw_sets w3) cs
                                         (mutationCallerKey (be_ctx env)) tool slug action (be_now env)\<rparr>, Done out)))))"

definition index_warnings :: "'e bundle_env_scheme \<Rightarrow> string list \<Rightarrow> string list" where
  "index_warnings env langs = filter (\<lambda>w. w \<noteq> '''') (map (be_index_warn env) langs)"

definition after_revision :: "bundle_lib \<Rightarrow> 'e bundle_env_scheme \<Rightarrow> files \<Rightarrow> string \<Rightarrow> string" where
  "after_revision L env fs dir =
     (case BundleRevision (bl_sha L) (be_unreadable env) fs dir of Inl e \<Rightarrow> '''' | Inr r \<Rightarrow> r)"

text \<open>The steps both handlers take between the checks and the index: snapshot, intent and writes.\<close>

definition bundle_write ::
    "bundle_lib \<Rightarrow> 'e bundle_env_scheme \<Rightarrow> path_guard \<Rightarrow> bundle_world \<Rightarrow> string \<Rightarrow> string \<Rightarrow> (string \<times> string) list \<Rightarrow>
     recovery_idem option \<Rightarrow> bundle_world \<times> recovery_operation outcome" where
  "bundle_write L env pg w dir revision fls idem =
     (case captureBundleTranslations (be_unreadable env) (bw_files w) fls of
        Inl e \<Rightarrow> (w, Failed e)
      | Inr prior \<Rightarrow>
          (case bundleSnapshotStore_put (bl_snap_enc L) (bl_snap_dec L) (be_snap_put_fl env) (be_now env) (bw_snaps w)
                  dir revision (isolationCallerKey (be_ctx env)) prior of
             (sn, Some e) \<Rightarrow> (w\<lparr>bw_snaps := sn\<rparr>, Failed ''persistence_error: failed to persist bundle rollback snapshot'')
           | (sn, None) \<Rightarrow>
               (let w1 = w\<lparr>bw_snaps := sn\<rparr>
                in case recovery_files (be_unreadable env) (bw_files w1) fls of
                     Inl e \<Rightarrow> (w1, Failed e)
                   | Inr rfs \<Rightarrow>
                       (case beginBundleWriteRecovery (bl_rec_enc L) (be_random env) (be_rec_fails env ''in_progress'')
                               (be_now env) (bw_journal w1) dir rfs idem [] of
                          (j, Inl e) \<Rightarrow>
                            (w1\<lparr>bw_journal := j\<rparr>, Failed ''persistence_error: failed to record bundle write intent'')
                        | (j, Inr op) \<Rightarrow>
                            (case writeBundleTranslations env pg (bw_files w1) fls of
                               (fs', WriteFailed e) \<Rightarrow> (w1\<lparr>bw_journal := j, bw_files := fs'\<rparr>, Failed e)
                             | (fs', WriteDied) \<Rightarrow> (w1\<lparr>bw_journal := j, bw_files := fs'\<rparr>, Died)
                             | (fs', Wrote) \<Rightarrow>
                                 (let w2 = w1\<lparr>bw_journal := j, bw_files := fs'\<rparr>
                                  in if be_dies env AfterWrites then (w2, Died)
                                     else (let w3 = log_state L env w2 op ''file_written''
                                           in if be_dies env AfterLog then (w3, Died) else (w3, Done op))))))))"

definition bundle_seed :: "bundle_lib \<Rightarrow> string \<Rightarrow> (string \<times> json) list \<Rightarrow> (string \<times> string) list \<Rightarrow> string \<Rightarrow> (string \<times> json) list" where
  "bundle_seed L root head_members fls status =
     head_members @
     [(''translations'', JArr (map (\<lambda>(p, c). JObj [(''lang'', JStr (inferLangFromIndexFile p)),
         (''source_path'', JStr (LogicalContentPath root p)), (''status'', JStr status),
         (''after_revision'', JStr (SourceRevisionBytes (bl_sha L) c))]) fls))]"

section \<open>The handlers\<close>

text \<open>The idempotency step: the request hash and a recorded answer.\<close>

definition bundle_replay ::
    "bundle_lib \<Rightarrow> 'e bundle_env_scheme \<Rightarrow> bundle_world \<Rightarrow> string \<Rightarrow> string \<Rightarrow> bool \<Rightarrow> string list \<Rightarrow>
     bundle_world \<times> (string \<times> bundle_data option) go" where
  "bundle_replay L env w tool key dry request =
     (if dry \<or> blank key then (w, Inr ('''', None))
      else (case bl_request_hash L request of
              None \<Rightarrow> (w, Inl ''internal_error: failed to hash idempotency request'')
            | Some h \<Rightarrow>
                (case replay (bl_out_dec L) (be_replay_fl env) (be_now env) (bw_idem w)
                        (idempotencyCallerKey (be_ctx env)) tool key h of
                   (i, hit, Some err, out) \<Rightarrow> (w\<lparr>bw_idem := i\<rparr>, Inl err)
                 | (i, hit, None, out) \<Rightarrow> (w\<lparr>bw_idem := i\<rparr>, Inr (h, if hit then out else None)))))"

definition bundleDryRunOutcomes :: "string \<Rightarrow> bundle_translation_plan list \<Rightarrow> bundle_outcome list" where
  "bundleDryRunOutcomes root ts =
     map (\<lambda>t. \<lparr>bo_lang = bt_lang t, bo_source_path = LogicalContentPath root (bt_file_path t), bo_status = ''valid'',
                bo_before = bt_revision t, bo_after = '''', bo_applied = bt_applied t, bo_rejected = bt_rejected t,
                bo_diff = bt_diff t\<rparr>) ts"

definition applied_outcome :: "bundle_lib \<Rightarrow> string \<Rightarrow> bundle_translation_plan \<Rightarrow> bundle_outcome" where
  "applied_outcome L root t =
     \<lparr>bo_lang = bt_lang t, bo_source_path = LogicalContentPath root (bt_file_path t), bo_status = ''applied'',
      bo_before = bt_revision t, bo_after = SourceRevisionBytes (bl_sha L) (bt_content t),
      bo_applied = bt_applied t, bo_rejected = bt_rejected t, bo_diff = ''''\<rparr>"

definition consume_warning :: string where
  "consume_warning = ''bundle changed but plan consumption could not be persisted''"

definition apply_files :: "bundle_plan_entry \<Rightarrow> (string \<times> string) list" where
  "apply_files entry = map (\<lambda>t. (bt_file_path t, bt_content t)) (bp_translations entry)"

text \<open>Under the content lock, once every check has passed.\<close>

definition apply_finish ::
    "bundle_lib \<Rightarrow> 'e bundle_env_scheme \<Rightarrow> bundle_config \<Rightarrow> bundle_world \<Rightarrow> recovery_operation \<Rightarrow> bundle_plan_entry \<Rightarrow>
     apply_input \<Rightarrow> string \<Rightarrow> string \<Rightarrow> bundle_world \<times> bundle_data outcome" where
  "apply_finish L env cfg w op entry inp idemHash cs =
     (case bundlePlanStore_consume (bl_plan_enc L) (bl_plan_dec L) (be_consume_fl env) (be_now env) (bw_plans w)
             (ai_plan_id inp) (isolationCallerKey (be_ctx env)) of
        (ps, r) \<Rightarrow>
          let w1 = w\<lparr>bw_plans := ps\<rparr>;
              used = (case r of Inr (Some e) \<Rightarrow> [] | _ \<Rightarrow> [consume_warning]);
              warnings = used @ index_warnings env (map bt_lang (bp_translations entry));
              out = \<lparr>bd_status = (if warnings = [] then ''updated'' else ''partial_success''),
                     bd_plan_id = ai_plan_id inp, bd_pub_slug = canonicalPublicSlug (bp_slug entry), bd_dry_run = False,
                     bd_bundle_status = ''applied'', bd_before = bp_bundle_revision entry,
                     bd_after = after_revision L env (bw_files w1) (bp_bundle_dir entry),
                     bd_translations = map (applied_outcome L (bc_content_root cfg)) (bp_translations entry),
                     bd_warning = appendLastBuildWarning (be_last_build env) (join_with ''; '' warnings),
                     bd_state = Some (updatePageState (be_has_index env) (be_has_index env \<and> be_public env (bp_slug entry)))\<rparr>
          in if be_dies env AfterConsume then (w1, Died)
             else bundle_close L env w1 op ''apply_bundle_plan'' (ai_key inp) idemHash cs (bp_slug entry) ''update'' out)"

definition apply_locked ::
    "bundle_lib \<Rightarrow> 'e bundle_env_scheme \<Rightarrow> path_guard \<Rightarrow> bundle_config \<Rightarrow> bundle_world \<Rightarrow> bundle_plan_entry \<Rightarrow> apply_input \<Rightarrow>
     bool \<Rightarrow> string \<Rightarrow> string \<Rightarrow> bundle_world \<times> bundle_data outcome" where
  "apply_locked L env pg cfg w entry inp dry idemHash cs =
     (case BundleRevision (bl_sha L) (be_unreadable env) (bw_files w) (bp_bundle_dir entry) of
        Inl e \<Rightarrow> (w, Failed ''read_error: failed to recompute bundle revision'')
      | Inr currentRev \<Rightarrow>
          if currentRev \<noteq> bp_bundle_revision entry
          then (w, Failed ''bundle_conflict: bundle changed since the plan was created'')
          else (case first_fault (candidate_fault L (bc_blocked cfg)) (map bt_content (bp_translations entry)) of
            Some e \<Rightarrow> (w, Failed e)
          | None \<Rightarrow>
              if dry then
                (w, Done \<lparr>bd_status = (if list_ex (\<lambda>t. bt_diff t \<noteq> '''') (bp_translations entry)
                                       then ''would_apply'' else ''unchanged''),
                       bd_plan_id = ai_plan_id inp, bd_pub_slug = canonicalPublicSlug (bp_slug entry), bd_dry_run = True,
                       bd_bundle_status = ''valid'', bd_before = bp_bundle_revision entry, bd_after = '''',
                       bd_translations = bundleDryRunOutcomes (bc_content_root cfg) (bp_translations entry),
                       bd_warning = '''',
                       bd_state = Some (updatePageState (be_has_index env) (be_has_index env \<and> be_public env (bp_slug entry)))\<rparr>)
              else
                (let fls = apply_files entry;
                     seed = recoveryFallbackResult (bl_marshal L) (bl_meta L) (be_now_text env) ''apply_bundle_plan''
                       (bundle_seed L (bc_content_root cfg)
                          [(''plan_id'', JStr (ai_plan_id inp)),
                           (''slug'', JStr (canonicalPublicSlug (bp_slug entry))),
                           (''before_revision'', JStr currentRev)] fls ''applied'')
                 in case bundle_write L env pg w (bp_bundle_dir entry) (bp_bundle_revision entry) fls
                           (recoveryIdempotencyFor (be_ctx env) ''apply_bundle_plan'' (ai_key inp) idemHash seed) of
                      (w1, Failed e) \<Rightarrow> (w1, Failed e)
                    | (w1, Died) \<Rightarrow> (w1, Died)
                    | (w1, Done op) \<Rightarrow> apply_finish L env cfg w1 op entry inp idemHash cs)))"

definition applyBundlePlan ::
    "bundle_lib \<Rightarrow> 'e bundle_env_scheme \<Rightarrow> path_guard \<Rightarrow> bundle_config \<Rightarrow> bundle_world \<Rightarrow> apply_input \<Rightarrow>
     bundle_world \<times> bundle_data outcome" where
  "applyBundlePlan L env pg cfg w inp =
     (let dry = (bc_force_dry_run cfg \<or> ai_dry_run inp)
      in if blank (ai_plan_id inp) then (w, Failed ''invalid_params: plan_id must not be empty'')
         else (case validateIdempotencyKey (ai_key inp) of
           Some err \<Rightarrow> (w, Failed err)
         | None \<Rightarrow>
           (case Resolve (be_cs_read_fails env) (be_cs_touch_fails env) (be_ctx env) (bw_sets w)
                   (ai_change_set inp) (be_now env) of
              (r, Inl err) \<Rightarrow> (w\<lparr>bw_sets := r\<rparr>, Failed err)
            | (r, Inr cs) \<Rightarrow>
              (let w1 = w\<lparr>bw_sets := r\<rparr>
               in if \<not> dry \<and> \<not> be_allow env then (w1, Failed ''rate_limit_exceeded: apply_bundle_plan'')
                  else (case bundle_replay L env w1 ''apply_bundle_plan'' (ai_key inp) dry [ai_plan_id inp] of
                     (w2, Inl err) \<Rightarrow> (w2, Failed err)
                   | (w2, Inr (idemHash, Some cached)) \<Rightarrow> (w2, Done cached)
                   | (w2, Inr (idemHash, None)) \<Rightarrow>
                     (case bundlePlanStore_get (bl_plan_enc L) (bl_plan_dec L) (be_plan_fl env) (be_now env) (bw_plans w2)
                             (ai_plan_id inp) (isolationCallerKey (be_ctx env)) of
                        (ps, Inl err) \<Rightarrow> (w2\<lparr>bw_plans := ps\<rparr>, Failed ''persistence_error: failed to load bundle plan'')
                      | (ps, Inr None) \<Rightarrow>
                          (w2\<lparr>bw_plans := ps\<rparr>, Failed ''plan_not_found: plan_id is unknown or has expired'')
                      | (ps, Inr (Some entry)) \<Rightarrow>
                          (let w3 = w2\<lparr>bw_plans := ps\<rparr>
                           in if \<not> be_locked env
                              then (w3, Failed ''build_in_progress: content lock is held, retry in a moment'')
                              else apply_locked L env pg cfg w3 entry inp dry idemHash cs)))))))"

definition restored_outcome :: "bundle_lib \<Rightarrow> string \<Rightarrow> bool \<Rightarrow> string \<times> string \<Rightarrow> bundle_outcome" where
  "restored_outcome L root dry f =
     \<lparr>bo_lang = inferLangFromIndexFile (fst f), bo_source_path = LogicalContentPath root (fst f),
      bo_status = (if dry then ''would_restore'' else ''restored''), bo_before = '''',
      bo_after = (if dry then '''' else SourceRevisionBytes (bl_sha L) (snd f)), bo_applied = [], bo_rejected = [],
      bo_diff = ''''\<rparr>"

definition rollback_finish ::
    "bundle_lib \<Rightarrow> 'e bundle_env_scheme \<Rightarrow> bundle_config \<Rightarrow> bundle_world \<Rightarrow> recovery_operation \<Rightarrow> string \<Rightarrow> string \<Rightarrow> string \<Rightarrow>
     (string \<times> string) list \<Rightarrow> rollback_input \<Rightarrow> string \<Rightarrow> string \<Rightarrow> bundle_world \<times> bundle_data outcome" where
  "rollback_finish L env cfg w op slug dir currentRev fls inp idemHash cs =
     (let warnings = index_warnings env (map (\<lambda>f. inferLangFromIndexFile (fst f)) fls);
          out = \<lparr>bd_status = (if warnings = [] then ''restored'' else ''partial_success''), bd_plan_id = '''',
                 bd_pub_slug = canonicalPublicSlug slug, bd_dry_run = False, bd_bundle_status = ''restored'',
                 bd_before = currentRev, bd_after = after_revision L env (bw_files w) dir,
                 bd_translations = map (restored_outcome L (bc_content_root cfg) False) fls,
                 bd_warning = appendLastBuildWarning (be_last_build env) (join_with ''; '' warnings),
                 bd_state = Some (updatePageState (be_has_index env) (be_has_index env \<and> be_public env slug))\<rparr>
      in bundle_close L env w op ''rollback_bundle'' (rb_key inp) idemHash cs slug ''rollback'' out)"

definition rollback_locked ::
    "bundle_lib \<Rightarrow> 'e bundle_env_scheme \<Rightarrow> path_guard \<Rightarrow> bundle_config \<Rightarrow> bundle_world \<Rightarrow> string \<Rightarrow> string \<Rightarrow> rollback_input \<Rightarrow>
     bool \<Rightarrow> string \<Rightarrow> string \<Rightarrow> bundle_world \<times> bundle_data outcome" where
  "rollback_locked L env pg cfg w slug dir inp dry idemHash cs =
     (case BundleRevision (bl_sha L) (be_unreadable env) (bw_files w) dir of
        Inl e \<Rightarrow> (w, Failed ''read_error: failed to compute bundle revision'')
      | Inr currentRev \<Rightarrow>
          if \<not> dry \<and> blank (rb_expected inp)
          then (w, Failed ''invalid_params: expected_bundle_revision is required'')
          else if \<not> dry \<and> rb_expected inp \<noteq> currentRev
          then (w, Failed ''bundle_conflict: bundle changed since it was read'')
          else (case bundleSnapshotStore_get (bl_snap_enc L) (bl_snap_dec L) (be_snap_fl env) (be_now env) (bw_snaps w)
                       dir (rb_to_revision inp) (isolationCallerKey (be_ctx env)) of
            (sn, Inl e) \<Rightarrow> (w\<lparr>bw_snaps := sn\<rparr>, Failed ''persistence_error: failed to load rollback snapshot'')
          | (sn, Inr None) \<Rightarrow> (w\<lparr>bw_snaps := sn\<rparr>, Failed ''snapshot_not_found: no bundle snapshot recorded'')
          | (sn, Inr (Some restore)) \<Rightarrow>
              (let w1 = w\<lparr>bw_snaps := sn\<rparr>; fls = sort_key fst restore
               in case first_fault (candidate_fault L (bc_blocked cfg)) (map snd fls) of
                    Some e \<Rightarrow> (w1, Failed e)
                  | None \<Rightarrow>
                      if dry then
                        (w1, Done \<lparr>bd_status = ''would_restore'', bd_plan_id = '''',
                               bd_pub_slug = canonicalPublicSlug slug, bd_dry_run = True,
                               bd_bundle_status = ''restorable'', bd_before = currentRev, bd_after = '''',
                               bd_translations = map (restored_outcome L (bc_content_root cfg) True) fls,
                               bd_warning = '''', bd_state = None\<rparr>)
                      else
                        (let seed = recoveryFallbackResult (bl_marshal L) (bl_meta L) (be_now_text env) ''rollback_bundle''
                               (bundle_seed L (bc_content_root cfg)
                                  [(''slug'', JStr (canonicalPublicSlug slug)), (''before_revision'', JStr currentRev)]
                                  fls ''restored'')
                         in case bundle_write L env pg w1 dir currentRev fls
                                   (recoveryIdempotencyFor (be_ctx env) ''rollback_bundle'' (rb_key inp) idemHash seed) of
                              (w2, Failed e) \<Rightarrow> (w2, Failed e)
                            | (w2, Died) \<Rightarrow> (w2, Died)
                            | (w2, Done op) \<Rightarrow>
                                rollback_finish L env cfg w2 op slug dir currentRev fls inp idemHash cs))))"

definition rollbackBundle ::
    "bundle_lib \<Rightarrow> 'e bundle_env_scheme \<Rightarrow> path_guard \<Rightarrow> bundle_config \<Rightarrow> bundle_world \<Rightarrow> rollback_input \<Rightarrow>
     bundle_world \<times> bundle_data outcome" where
  "rollbackBundle L env pg cfg w inp =
     (let dry = (bc_force_dry_run cfg \<or> rb_dry_run inp); slug = normalizeInputSlug (rb_slug inp)
      in if slug = '''' then (w, Failed ''invalid_params: slug must not be empty'')
         else (case validateSlugFormat slug of
           Some err \<Rightarrow> (w, Failed err)
         | None \<Rightarrow>
         (case validateIdempotencyKey (rb_key inp) of
           Some err \<Rightarrow> (w, Failed err)
         | None \<Rightarrow>
           (case Resolve (be_cs_read_fails env) (be_cs_touch_fails env) (be_ctx env) (bw_sets w)
                   (rb_change_set inp) (be_now env) of
              (r, Inl err) \<Rightarrow> (w\<lparr>bw_sets := r\<rparr>, Failed err)
            | (r, Inr cs) \<Rightarrow>
              (let w1 = w\<lparr>bw_sets := r\<rparr>
               in if blank (rb_to_revision inp)
                  then (w1, Failed ''invalid_params: to_bundle_revision must not be empty'')
                  else if \<not> dry \<and> \<not> be_allow env then (w1, Failed ''rate_limit_exceeded: rollback_bundle'')
                  else (case resolveBundleDir env pg (bc_content_root cfg) slug of
                     Inl err \<Rightarrow> (w1, Failed err)
                   | Inr (dir, ts) \<Rightarrow>
                     (case bundle_replay L env w1 ''rollback_bundle'' (rb_key inp) dry
                             [slug, rb_to_revision inp, rb_expected inp] of
                        (w2, Inl err) \<Rightarrow> (w2, Failed err)
                      | (w2, Inr (idemHash, Some cached)) \<Rightarrow> (w2, Done cached)
                      | (w2, Inr (idemHash, None)) \<Rightarrow>
                          if \<not> be_locked env
                          then (w2, Failed ''build_in_progress: content lock is held, retry in a moment'')
                          else rollback_locked L env pg cfg w2 slug dir inp dry idemHash cs)))))))"

section \<open>What a write leaves\<close>

lemma checked_write_outcome:
  "AtomicWriteChecked fl v1 v2 pg fs p c = (fs', err) \<Longrightarrow> err = None \<and> fs' = gput fs p c \<or> err \<noteq> None \<and> fs' = fs"
  using AtomicWriteChecked_cases by blast

lemma checked_write_fst:
  "fst (AtomicWriteChecked fl v1 v2 pg fs p c) = gput fs p c \<or> fst (AtomicWriteChecked fl v1 v2 pg fs p c) = fs"
  using checked_write_outcome [of fl v1 v2 pg fs p c] by (cases "AtomicWriteChecked fl v1 v2 pg fs p c") auto

text \<open>The captured texts are the old contents; an absent file counts as empty.\<close>

lemma capture_files_get:
  "capture_files u fs fls prior = Inr prior' \<Longrightarrow>
     gget prior' q = (if q \<in> fst ` set fls then Some (case gget fs q of None \<Rightarrow> '''' | Some c \<Rightarrow> c) else gget prior q)"
proof (induction fls arbitrary: prior)
  case (Cons f fls)
  obtain p c where f: "f = (p, c)" by (cases f)
  show ?case using Cons.IH [of "gput prior p (case gget fs p of None \<Rightarrow> '''' | Some raw \<Rightarrow> raw)"] Cons.prems
    by (auto simp: f split: if_splits)
qed simp

text \<open>Every file is as it was, or holds its planned text; a mixture is possible.\<close>

definition mixture :: "files \<Rightarrow> (string \<times> string) list \<Rightarrow> files \<Rightarrow> bool" where
  "mixture fs fls fs' \<longleftrightarrow>
     (\<forall>q. gget fs' q = gget fs q \<or> (\<exists>c. (q, c) \<in> set fls \<and> gget fs' q = Some c))"

lemma mixture_refl [simp]: "mixture fs fls fs"
  by (simp add: mixture_def)

lemma mixture_put: "mixture fs fls fs1 \<Longrightarrow> (p, c) \<in> set fls \<Longrightarrow> mixture fs fls (gput fs1 p c)"
  unfolding mixture_def by auto

lemma mixture_restore: "mixture fs fls fs1 \<Longrightarrow> gget fs p = Some c \<Longrightarrow> mixture fs fls (gput fs1 p c)"
  unfolding mixture_def by auto

lemma undo_mixture:
  assumes "undo_writes env pg prior ps fs1 = (fs', alive)"
    and "\<And>p. p \<in> set ps \<Longrightarrow> gget prior p = gget fs p \<and> gget fs p \<noteq> None"
    and "mixture fs fls fs1"
  shows "mixture fs fls fs'"
  using assms
proof (induction ps arbitrary: fs1)
  case Nil
  then show ?case by simp
next
  case (Cons p ps)
  obtain c where c: "gget prior p = Some c" "gget fs p = Some c" using Cons.prems(2) [of p] by auto
  let ?fs2 = "fst (AtomicWriteChecked (be_undo env p) (be_view env) (be_view env) pg fs1 p c)"
  have m: "mixture fs fls ?fs2"
    using checked_write_fst [of "be_undo env p" "be_view env" "be_view env" pg fs1 p c]
      Cons.prems(3) mixture_restore [OF Cons.prems(3) c(2)] by auto
  show ?case
  proof (cases "be_dies env (BeforeUndo p)")
    case True
    then show ?thesis using Cons.prems by simp
  next
    case False
    then have "undo_writes env pg prior ps ?fs2 = (fs', alive)" using Cons.prems(1) c(1) by simp
    then show ?thesis using Cons.IH [OF _ _ m] Cons.prems(2) by simp
  qed
qed

lemma failed_mixture:
  assumes "failed_write env pg prior ps fs1 e = (fs', r)"
    and "\<And>p. p \<in> set ps \<Longrightarrow> gget prior p = gget fs p \<and> gget fs p \<noteq> None"
    and "mixture fs fls fs1"
  shows "mixture fs fls fs' \<and> r \<noteq> Wrote"
  using assms(1) undo_mixture [OF _ assms(2,3)]
  by (auto simp: failed_write_def split: prod.splits if_splits)

lemma write_files_mixture:
  assumes "write_files env pg prior fls written fs1 = (fs', r)"
    and "\<And>p. p \<in> set written \<union> fst ` set fls \<Longrightarrow> gget prior p = gget fs p \<and> gget fs p \<noteq> None"
    and "mixture fs all fs1" and "set fls \<subseteq> set all" and "distinct (map fst fls)"
  shows "mixture fs all fs' \<and> (r = Wrote \<longrightarrow> (\<forall>(p, c) \<in> set fls. gget fs' p = Some c) \<and>
           (\<forall>q. q \<notin> fst ` set fls \<longrightarrow> gget fs' q = gget fs1 q))"
  using assms
proof (induction fls arbitrary: written fs1)
  case Nil
  then show ?case by simp
next
  case (Cons f fls)
  obtain p c where f: "f = (p, c)" by (cases f)
  have wr: "\<And>q. q \<in> set written \<Longrightarrow> gget prior q = gget fs q \<and> gget fs q \<noteq> None"
    using Cons.prems(2) by blast
  show ?case
  proof (cases "be_dies env (BeforeWrite p) \<or> RevalidateForWrite (be_view env) pg p \<noteq> None")
    case True
    then show ?thesis
      using Cons.prems(1,3) failed_mixture [where env = env, OF _ wr Cons.prems(3)] by (auto simp: f split: if_splits)
  next
    case False
    obtain fs2 err where w: "AtomicWriteChecked (be_write env p) (be_view env) (be_view env) pg fs1 p c = (fs2, err)"
      by (cases "AtomicWriteChecked (be_write env p) (be_view env) (be_view env) pg fs1 p c")
    show ?thesis
    proof (cases err)
      case (Some e)
      then have "fs2 = fs1" using checked_write_outcome [OF w] by auto
      then have "failed_write env pg prior written fs1 ''write_error: failed to write (bundle rolled back)'' = (fs', r)"
        using Cons.prems(1) False w Some by (simp add: f)
      then show ?thesis using failed_mixture [where env = env, OF _ wr Cons.prems(3)] by auto
    next
      case None
      then have fs2: "fs2 = gput fs1 p c" using checked_write_outcome [OF w] by auto
      then have rest: "write_files env pg prior fls (written @ [p]) fs2 = (fs', r)"
        using Cons.prems(1) False w None by (simp add: f)
      have "mixture fs all fs2"
        unfolding fs2 using Cons.prems(3,4) by (intro mixture_put) (auto simp: f)
      from Cons.IH [OF rest _ this] Cons.prems(2,4,5)
      have ih: "mixture fs all fs' \<and> (r = Wrote \<longrightarrow> (\<forall>(p, c) \<in> set fls. gget fs' p = Some c) \<and>
           (\<forall>q. q \<notin> fst ` set fls \<longrightarrow> gget fs' q = gget fs2 q))"
        by (auto simp: f)
      moreover have "p \<notin> fst ` set fls" using Cons.prems(5) by (simp add: f)
      ultimately show ?thesis by (auto simp: f fs2)
    qed
  qed
qed

lemma writeBundle_mixture:
  assumes w: "writeBundleTranslations env pg fs fls = (fs', r)"
    and ex: "\<And>p. p \<in> fst ` set fls \<Longrightarrow> gget fs p \<noteq> None" and d: "distinct (map fst fls)"
  shows "mixture fs fls fs' \<and> (r = Wrote \<longrightarrow> (\<forall>(p, c) \<in> set fls. gget fs' p = Some c) \<and>
           (\<forall>q. q \<notin> fst ` set fls \<longrightarrow> gget fs' q = gget fs q))"
proof (cases "captureBundleTranslations (be_unreadable env) fs fls")
  case (Inl e)
  then show ?thesis using w by (auto simp: writeBundleTranslations_def)
next
  case (Inr prior)
  have "gget prior p = gget fs p \<and> gget fs p \<noteq> None" if "p \<in> fst ` set fls" for p
    using capture_files_get [of "be_unreadable env" fs fls "[]" prior p] Inr that ex [OF that]
    by (auto simp: captureBundleTranslations_def)
  then show ?thesis
    using write_files_mixture [of env pg prior fls "[]" fs fs' r fs fls] w Inr d
    by (auto simp: writeBundleTranslations_def)
qed

section \<open>The journal row of a running transaction\<close>

abbreviation bundle_op :: "string \<Rightarrow> string \<Rightarrow> recovery_file list \<Rightarrow> recovery_operation \<Rightarrow> bool" where
  "bundle_op i dir rfs op \<equiv> write_op i dir rfs [] op"

abbreviation has_row :: "bundle_lib \<Rightarrow> string \<Rightarrow> string \<Rightarrow> recovery_file list \<Rightarrow> recovery_table option \<Rightarrow> bool" where
  "has_row L i dir rfs j \<equiv> write_row (bl_rec_enc L) i dir rfs [] j"

lemma recovery_files_shape:
  "recovery_files u fs fls = Inr rfs \<Longrightarrow>
     rfs = map (\<lambda>(p, c). \<lparr>rf_path = path_clean p, rf_before = gget fs p, rf_after = Some c\<rparr>) fls"
  by (induction fls arbitrary: rfs)
    (auto simp: captureBundleRecoveryFile_def recoveryFile_def split: if_splits sum.splits)

text \<open>
  Either nothing was written, or the row is in the journal with the transition of every file and
  the files are what the write loop left.
\<close>

definition tracked_write ::
    "bundle_lib \<Rightarrow> 'e bundle_env_scheme \<Rightarrow> path_guard \<Rightarrow> string \<Rightarrow> (string \<times> string) list \<Rightarrow> bundle_world \<Rightarrow> bundle_world \<Rightarrow>
     write_result \<Rightarrow> bool" where
  "tracked_write L env pg dir fls w w' r \<longleftrightarrow>
     (\<exists>h rfs. be_random env = Some h \<and> recovery_files (be_unreadable env) (bw_files w) fls = Inr rfs \<and>
        has_row L (''src_'' @ h) (path_clean dir) rfs (bw_journal w') \<and>
        writeBundleTranslations env pg (bw_files w) fls = (bw_files w', r))"

definition same_disk :: "bundle_world \<Rightarrow> bundle_world \<Rightarrow> bool" where
  "same_disk w w' \<longleftrightarrow> bw_files w' = bw_files w \<and> bw_journal w' = bw_journal w"

lemma same_disk_refl [simp]: "same_disk w w"
  "same_disk w (w\<lparr>bw_plans := ps\<rparr>) = True" "same_disk w (w\<lparr>bw_snaps := sn\<rparr>) = True"
  by (simp_all add: same_disk_def)

definition fresh_op :: "'e bundle_env_scheme \<Rightarrow> bundle_world \<Rightarrow> bool" where
  "fresh_op env w \<longleftrightarrow>
     (\<exists>t. bw_journal w = Some t \<and> (\<forall>h. be_random env = Some h \<longrightarrow> gget t (''src_'' @ h) = None))"

lemma bundle_write_cases:
  assumes b: "bundle_write L env pg w dir revision fls idem = (w', r)" and fresh: "fresh_op env w"
  shows "same_disk w w' \<and> (\<exists>e. r = Failed e) \<or>
     (\<exists>res. tracked_write L env pg dir fls w w' res \<and>
        (\<forall>op. r = Done op \<longrightarrow> res = Wrote \<and> (\<exists>h rfs. be_random env = Some h \<and>
           recovery_files (be_unreadable env) (bw_files w) fls = Inr rfs \<and>
           bundle_op (''src_'' @ h) (path_clean dir) rfs op)))"
proof (cases "captureBundleTranslations (be_unreadable env) (bw_files w) fls")
  case (Inl e)
  then show ?thesis using b by (auto simp: bundle_write_def same_disk_def)
next
  case (Inr prior)
  obtain sn err where sn: "bundleSnapshotStore_put (bl_snap_enc L) (bl_snap_dec L) (be_snap_put_fl env) (be_now env)
      (bw_snaps w) dir revision (isolationCallerKey (be_ctx env)) prior = (sn, err)"
    by (cases "bundleSnapshotStore_put (bl_snap_enc L) (bl_snap_dec L) (be_snap_put_fl env) (be_now env)
      (bw_snaps w) dir revision (isolationCallerKey (be_ctx env)) prior")
  show ?thesis
  proof (cases err)
    case (Some e)
    then show ?thesis using b Inr sn by (auto simp: bundle_write_def same_disk_def)
  next
    case None
    show ?thesis
    proof (cases "recovery_files (be_unreadable env) (bw_files w) fls")
      case (Inl e)
      then show ?thesis using b Inr sn None by (auto simp: bundle_write_def Let_def same_disk_def)
    next
      case rfs: (Inr rfs)
      obtain t where t: "bw_journal w = Some t" "\<And>h. be_random env = Some h \<Longrightarrow> gget t (''src_'' @ h) = None"
        using fresh by (auto simp: fresh_op_def)
      obtain j ro where j: "beginBundleWriteRecovery (bl_rec_enc L) (be_random env) (be_rec_fails env ''in_progress'')
          (be_now env) (bw_journal w) dir rfs idem [] = (j, ro)"
        by (cases "beginBundleWriteRecovery (bl_rec_enc L) (be_random env) (be_rec_fails env ''in_progress'')
          (be_now env) (bw_journal w) dir rfs idem []")
      have "(\<exists>e. ro = Inl e) \<and> j = bw_journal w \<or>
          (\<exists>h op. be_random env = Some h \<and> ro = Inr op \<and> bundle_op (''src_'' @ h) (path_clean dir) rfs op \<and>
             has_row L (''src_'' @ h) (path_clean dir) rfs j)"
        using begin_row [OF j t(1)] t(2) by simp
      then show ?thesis
      proof (elim disjE exE conjE)
        fix e
        assume "ro = Inl e" "j = bw_journal w"
        then show ?thesis using b Inr sn None rfs j by (auto simp: bundle_write_def Let_def same_disk_def)
      next
        fix h op
        assume h: "be_random env = Some h" "ro = Inr op" "bundle_op (''src_'' @ h) (path_clean dir) rfs op"
          "has_row L (''src_'' @ h) (path_clean dir) rfs j"
        obtain fs' res where wr: "writeBundleTranslations env pg (bw_files w) fls = (fs', res)"
          by (cases "writeBundleTranslations env pg (bw_files w) fls")
        let ?w1 = "w\<lparr>bw_snaps := sn, bw_journal := j, bw_files := fs'\<rparr>"
        have tr: "tracked_write L env pg dir fls w w2 res"
          if "bw_files w2 = fs'" "has_row L (''src_'' @ h) (path_clean dir) rfs (bw_journal w2)" for w2
          using that h(1) rfs wr unfolding tracked_write_def by auto
        have log: "has_row L (''src_'' @ h) (path_clean dir) rfs (bw_journal (log_state L env ?w1 op ''file_written''))"
          using op_record_keeps [OF _ h(3) _ h(4)]
          by (cases "op_record (bl_rec_enc L) (be_rec_fails env ''file_written'') (be_now env) j op ''file_written''")
            (auto simp: log_state_def)
        have filesl: "bw_files (log_state L env ?w1 op ''file_written'') = fs'"
          by (simp add: log_state_def)
        have cases: "w' = ?w1 \<and> (\<exists>e. r = Failed e) \<or> w' = ?w1 \<and> r = Died \<or>
            w' = log_state L env ?w1 op ''file_written'' \<and> (r = Died \<or> r = Done op \<and> res = Wrote)"
          using b Inr sn None rfs j h(2) wr
          by (auto simp: bundle_write_def Let_def split: write_result.splits if_splits)
        have "tracked_write L env pg dir fls w w' res"
          using cases tr [of ?w1] tr [of "log_state L env ?w1 op ''file_written''"] h(4) log filesl by auto
        moreover have "r = Done op' \<Longrightarrow> res = Wrote \<and> op' = op" for op' using cases by auto
        ultimately show ?thesis using h(1,3) rfs by blast
      qed
    qed
  qed
qed

text \<open>The steps after the write keep the row and the files.\<close>

lemma bundle_close_keeps:
  assumes "bundle_close L env w op tool key idemHash cs slug action out = (w', r)"
    and "bundle_op i dir rfs op" and "has_row L i dir rfs (bw_journal w)"
  shows "bw_files w' = bw_files w \<and> has_row L i dir rfs (bw_journal w')"
proof -
  obtain j so where st: "stageResult (bl_rec_enc L) (be_rec_fails env ''staged'') (be_now env) (bw_journal w) op
      (bl_out_enc L out) = (j, so)"
    by (cases "stageResult (bl_rec_enc L) (be_rec_fails env ''staged'') (be_now env) (bw_journal w) op (bl_out_enc L out)")
  have row: "has_row L i dir rfs j" and op': "\<And>op'. so = Inr op' \<Longrightarrow> bundle_op i dir rfs op'"
    using stage_row [OF st assms(2,3)] by auto
  show ?thesis
  proof (cases so)
    case (Inl e)
    then show ?thesis using assms(1) st row by (auto simp: bundle_close_def)
  next
    case (Inr op2)
    let ?w1 = "w\<lparr>bw_journal := j\<rparr>"
    let ?w2 = "bundle_remember L env ?w1 tool key idemHash out"
    let ?w3 = "log_state L env ?w2 op2 ''committed''"
    have w2: "bw_files ?w2 = bw_files w" "has_row L i dir rfs (bw_journal ?w2)"
      using row by (simp_all add: bundle_remember_def)
    have w3: "bw_files ?w3 = bw_files w" "has_row L i dir rfs (bw_journal ?w3)"
      using w2 op_record_keeps [OF _ op' [OF Inr] _ w2(2)]
      by (cases "op_record (bl_rec_enc L) (be_rec_fails env ''committed'') (be_now env) (bw_journal ?w2) op2 ''committed''";
          simp add: log_state_def)+
    have "w' = ?w1 \<or> w' = ?w2 \<or> w' = ?w3 \<or> (\<exists>cr. w' = ?w3\<lparr>bw_sets := cr\<rparr>)"
      using assms(1) st Inr by (auto simp: bundle_close_def Let_def split: if_splits)
    then show ?thesis
      using row w2 w3 by auto
  qed
qed

section \<open>A plan is applied whole or not at all, across a crash\<close>

definition planned_files :: "files \<Rightarrow> bundle_plan_entry \<Rightarrow> recovery_file list" where
  "planned_files fs entry =
     map (\<lambda>t. \<lparr>rf_path = bt_file_path t, rf_before = gget fs (bt_file_path t), rf_after = Some (bt_content t)\<rparr>)
       (bp_translations entry)"

text \<open>The paths of a plan are clean, distinct and name files that exist.\<close>

definition sound_plan :: "files \<Rightarrow> bundle_plan_entry \<Rightarrow> bool" where
  "sound_plan fs entry \<longleftrightarrow> bp_translations entry \<noteq> [] \<and> distinct (map bt_file_path (bp_translations entry)) \<and>
     list_all (\<lambda>t. path_clean (bt_file_path t) = bt_file_path t \<and> gget fs (bt_file_path t) \<noteq> None)
       (bp_translations entry)"

lemma apply_finish_keeps:
  assumes "apply_finish L env cfg w op entry inp idemHash cs = (w', r)"
    and "bundle_op i dir rfs op" and "has_row L i dir rfs (bw_journal w)"
  shows "bw_files w' = bw_files w \<and> has_row L i dir rfs (bw_journal w')"
  using assms bundle_close_keeps [OF _ assms(2)]
  by (fastforce simp: apply_finish_def Let_def split: prod.splits if_splits)

lemma apply_locked_tracked:
  assumes a: "apply_locked L env pg cfg w entry inp dry idemHash cs = (w', out)" and fresh: "fresh_op env w"
  shows "same_disk w w' \<or> (\<exists>res. tracked_write L env pg (bp_bundle_dir entry) (apply_files entry) w w' res \<and>
           ((\<exists>d. out = Done d) \<longrightarrow> res = Wrote))"
proof (cases "same_disk w w'")
  case False
  then obtain cur seed w1 r where cur: "bundle_write L env pg w (bp_bundle_dir entry) (bp_bundle_revision entry)
        (apply_files entry) (recoveryIdempotencyFor (be_ctx env) ''apply_bundle_plan'' (ai_key inp) idemHash seed) = (w1, r)"
      and rest: "(case r of Failed e \<Rightarrow> (w1, Failed e) | Died \<Rightarrow> (w1, Died)
         | Done op \<Rightarrow> apply_finish L env cfg w1 op entry inp idemHash cs) = (w', out)"
    using a
    by (auto simp: apply_locked_def Let_def split: sum.splits if_splits option.splits prod.splits)
  show ?thesis
  proof (cases r)
    case (Done op)
    then have fin: "apply_finish L env cfg w1 op entry inp idemHash cs = (w', out)" using rest by simp
    from bundle_write_cases [OF cur fresh] Done obtain h rfs where
      tr: "tracked_write L env pg (bp_bundle_dir entry) (apply_files entry) w w1 Wrote"
      and h: "be_random env = Some h" "recovery_files (be_unreadable env) (bw_files w) (apply_files entry) = Inr rfs"
        "bundle_op (''src_'' @ h) (path_clean (bp_bundle_dir entry)) rfs op"
      by auto
    have row: "has_row L (''src_'' @ h) (path_clean (bp_bundle_dir entry)) rfs (bw_journal w1)"
      using tr h unfolding tracked_write_def by auto
    show ?thesis
      using tr h apply_finish_keeps [OF fin h(3) row] unfolding tracked_write_def by auto
  next
    case (Failed e)
    then show ?thesis using rest bundle_write_cases [OF cur fresh] by auto
  next
    case Died
    then show ?thesis using rest bundle_write_cases [OF cur fresh] by auto
  qed
qed simp

lemma replay_same: "bundle_replay L env w tool key dry req = (w', r) \<Longrightarrow>
    same_disk w w' \<and> bw_plans w' = bw_plans w \<and> bw_snaps w' = bw_snaps w"
  by (auto simp: bundle_replay_def same_disk_def split: if_splits option.splits prod.splits)

lemma same_disk_trans: "same_disk a b \<Longrightarrow> same_disk b c \<Longrightarrow> same_disk a c"
  by (simp add: same_disk_def)

lemma tracked_same: "same_disk w w0 \<Longrightarrow> tracked_write L env pg dir fls w0 w' res \<Longrightarrow> tracked_write L env pg dir fls w w' res"
  by (simp add: tracked_write_def same_disk_def)

lemma fresh_same: "same_disk w w0 \<Longrightarrow> fresh_op env w \<Longrightarrow> fresh_op env w0"
  by (simp add: fresh_op_def same_disk_def)

lemma apply_tracked:
  assumes a: "applyBundlePlan L env pg cfg w inp = (w', out)" and fresh: "fresh_op env w"
    and plan: "snd (bundlePlanStore_get (bl_plan_enc L) (bl_plan_dec L) (be_plan_fl env) (be_now env) (bw_plans w)
                 (ai_plan_id inp) (isolationCallerKey (be_ctx env))) = Inr (Some entry)"
  shows "same_disk w w' \<or> (\<exists>res. tracked_write L env pg (bp_bundle_dir entry) (apply_files entry) w w' res \<and>
           ((\<exists>d. out = Done d) \<longrightarrow> res = Wrote))"
proof (cases "same_disk w w'")
  case False
  obtain r rr where r: "Resolve (be_cs_read_fails env) (be_cs_touch_fails env) (be_ctx env) (bw_sets w)
      (ai_change_set inp) (be_now env) = (r, rr)" by fastforce
  let ?w1 = "w\<lparr>bw_sets := r\<rparr>"
  have s1: "same_disk w ?w1" "bw_plans ?w1 = bw_plans w" by (simp_all add: same_disk_def)
  obtain w2 res2 where rep: "bundle_replay L env ?w1 ''apply_bundle_plan'' (ai_key inp)
      (bc_force_dry_run cfg \<or> ai_dry_run inp) [ai_plan_id inp] = (w2, res2)" by fastforce
  have s2: "same_disk w w2" "bw_plans w2 = bw_plans w"
    using replay_same [OF rep] s1 same_disk_trans by auto
  obtain ps where ps: "bundlePlanStore_get (bl_plan_enc L) (bl_plan_dec L) (be_plan_fl env) (be_now env) (bw_plans w2)
      (ai_plan_id inp) (isolationCallerKey (be_ctx env)) = (ps, Inr (Some entry))"
    using plan s2(2) by (metis prod.collapse)
  have s3: "same_disk w (w2\<lparr>bw_plans := ps\<rparr>)" using s2(1) by (simp add: same_disk_def)
  obtain idemHash cs where l: "apply_locked L env pg cfg (w2\<lparr>bw_plans := ps\<rparr>) entry inp
      (bc_force_dry_run cfg \<or> ai_dry_run inp) idemHash cs = (w', out)"
    using a False r rep ps s1(1) s2(1) s3
    by (auto simp: applyBundlePlan_def Let_def split: sum.splits if_splits option.splits prod.splits)
  from apply_locked_tracked [OF l fresh_same [OF s3 fresh]] show ?thesis
    using s3 False same_disk_trans tracked_same by blast
qed simp

lemma planned_recovery:
  assumes "recovery_files u fs (apply_files entry) = Inr rfs" and "sound_plan fs entry"
  shows "rfs = planned_files fs entry"
  using recovery_files_shape [OF assms(1)] assms(2)
  by (auto simp: planned_files_def apply_files_def sound_plan_def list_all_iff)

definition row_entry :: "string \<Rightarrow> recovery_row \<Rightarrow> recovery_entry" where
  "row_entry i row = \<lparr>re_id = i, re_kind = rc_kind row, re_state = rc_state row, re_payload = rc_payload row,
                      re_updated = rc_updated row\<rparr>"

text \<open>
  C1. A bundle plan is applied whole or not at all, also when the process dies. However an
  \<open>apply\_bundle\_plan\<close> call ended (with an answer, an error, a failed rollback, or killed between any
  two of its writes or journal steps), if its journal row is still open and the texts and paths in it are
  valid UTF-8 (the row is JSON, which cannot hold other text), a start-up that meets no
  error resolves it: every translation of the plan is then its planned text, or every one is
  exactly what it was before the call, no other file has changed, and a call that had answered
  keeps its change.
\<close>

theorem bundle_crash_atomic:
  assumes run: "applyBundlePlan L env pg cfg w inp = (w', out)" and fresh: "fresh_op env w"
    and plan: "snd (bundlePlanStore_get (bl_plan_enc L) (bl_plan_dec L) (be_plan_fl env) (be_now env) (bw_plans w)
                 (ai_plan_id inp) (isolationCallerKey (be_ctx env))) = Inr (Some entry)"
    and sound: "sound_plan (bw_files w) entry"
    and row: "bw_journal w' = Some t" "be_random env = Some h" "gget t (''src_'' @ h) = Some row"
      "rc_state row \<noteq> ''committed''"
    and codec: "row_codec (bl_rec_enc L) dec"
    and utf8: "row_utf8 (path_clean (bp_bundle_dir entry)) (planned_files (bw_files w) entry)"
    and calm: "calm_restart renv (path_clean (bp_bundle_dir entry)) (planned_files (bw_files w) entry)"
  shows "\<exists>fs landed changed.
           prepare_entry sha dec renv (row_entry (''src_'' @ h) row) (bw_files w') = (fs, Some landed, changed) \<and>
           (\<forall>tr \<in> set (bp_translations entry). gget fs (bt_file_path tr) =
              (if landed then Some (bt_content tr) else gget (bw_files w) (bt_file_path tr))) \<and>
           (\<forall>q. q \<notin> bt_file_path ` set (bp_translations entry) \<longrightarrow> gget fs q = gget (bw_files w) q) \<and>
           ((\<exists>d. out = Done d) \<longrightarrow> (\<forall>tr \<in> set (bp_translations entry). gget fs (bt_file_path tr) = Some (bt_content tr)))"
proof -
  let ?rfs = "planned_files (bw_files w) entry" and ?ps = "bt_file_path ` set (bp_translations entry)"
  have "\<not> same_disk w w'"
    using fresh row(1-3) by (auto simp: fresh_op_def same_disk_def)
  then obtain res where tr: "tracked_write L env pg (bp_bundle_dir entry) (apply_files entry) w w' res"
    and answered: "(\<exists>d. out = Done d) \<longrightarrow> res = Wrote"
    using apply_tracked [OF run fresh plan] by blast
  then obtain rfs where rfs: "recovery_files (be_unreadable env) (bw_files w) (apply_files entry) = Inr rfs"
      "has_row L (''src_'' @ h) (path_clean (bp_bundle_dir entry)) rfs (bw_journal w')"
      "writeBundleTranslations env pg (bw_files w) (apply_files entry) = (bw_files w', res)"
    using row(2) by (auto simp: tracked_write_def)
  have rfs_eq: "rfs = ?rfs" using planned_recovery [OF rfs(1) sound] .
  then obtain idem where kind: "rc_kind row = ''bundle_write''" "rc_state row = ''in_progress'' \<or> rc_state row = ''file_written''"
    and enc: "bl_rec_enc L (BundleWrite \<lparr>br_dir = path_clean (bp_bundle_dir entry), br_files = ?rfs, br_idem = idem,
        br_cleanup = []\<rparr>) = Some (rc_payload row)"
    using rfs(2) row by (auto simp: write_row_def)
  obtain pl where dec: "dec (rc_payload row) = Some pl"
    and pl: "sp_bundle_dir pl = path_clean (bp_bundle_dir entry)" "sp_files pl = ?rfs" "sp_cleanup pl = []"
    by (rule row_decodes [OF codec utf8 _ enc]) simp
  have paths: "rf_path ` set ?rfs = ?ps" "map rf_path ?rfs = map bt_file_path (bp_translations entry)"
    by (simp_all add: planned_files_def image_image comp_def)
  have exist: "gget (bw_files w) p \<noteq> None" if "p \<in> fst ` set (apply_files entry)" for p
    using that sound by (auto simp: sound_plan_def apply_files_def list_all_iff)
  have dist: "distinct (map fst (apply_files entry))"
    using sound by (simp add: sound_plan_def apply_files_def comp_def)
  have mix: "mixture (bw_files w) (apply_files entry) (bw_files w')"
    and wrote: "res = Wrote \<Longrightarrow> \<forall>(p, c) \<in> set (apply_files entry). gget (bw_files w') p = Some c"
    using writeBundle_mixture [OF rfs(3) exist dist] by auto
  have uniq: "c = bt_content x" if "x \<in> set (bp_translations entry)" "(bt_file_path x, c) \<in> set (apply_files entry)" for x c
    using that sound by (auto simp: sound_plan_def apply_files_def distinct_map dest: inj_onD)
  have either: "at_before (bw_files w') f \<or> at_after (bw_files w') f" if "f \<in> set (sp_files pl)" for f
    using that mix uniq unfolding pl(2) mixture_def
    by (fastforce simp: planned_files_def at_before_def at_after_def)
  have outside: "gget (bw_files w') q = gget (bw_files w) q" if "q \<notin> ?ps" for q
    using mix that unfolding mixture_def by (force simp: apply_files_def)
  have settle: "\<exists>fs' changed landed. reconcileBundleFiles renv pl (bw_files w') = (fs', Inr (True, changed, landed)) \<and>
      list_all (if landed then at_after fs' else at_before fs') (sp_files pl) \<and>
      (\<forall>q. q \<notin> rf_path ` set (sp_files pl) \<longrightarrow> gget fs' q = gget (bw_files w') q) \<and>
      (list_all (at_after (bw_files w')) (sp_files pl) \<and> \<not> list_all (at_before (bw_files w')) (sp_files pl) \<longrightarrow>
         landed \<and> fs' = bw_files w')"
  proof (rule reconcile_settles)
    show "calm_restart renv (sp_bundle_dir pl) (sp_files pl)" using calm by (simp add: pl)
    show "sp_files pl \<noteq> []" using sound by (simp add: pl planned_files_def sound_plan_def)
    show "distinct (map rf_path (sp_files pl))" using sound by (simp add: pl paths sound_plan_def)
  qed (use pl either in auto)
  then obtain fs' changed landed where
      rec: "reconcileBundleFiles renv pl (bw_files w') = (fs', Inr (True, changed, landed))"
      and all: "list_all (if landed then at_after fs' else at_before fs') ?rfs"
      and other: "\<And>q. q \<notin> ?ps \<Longrightarrow> gget fs' q = gget (bw_files w') q"
      and keep: "list_all (at_after (bw_files w')) ?rfs \<and> \<not> list_all (at_before (bw_files w')) ?rfs \<Longrightarrow> landed"
    unfolding pl paths by blast
  have "prepare_entry sha dec renv (row_entry (''src_'' @ h) row) (bw_files w') = (fs', Some landed, changed)"
    using kind dec rec by (auto simp: prepare_entry_def row_entry_def)
  moreover have each: "\<forall>tr \<in> set (bp_translations entry). gget fs' (bt_file_path tr) =
      (if landed then Some (bt_content tr) else gget (bw_files w) (bt_file_path tr))"
    using all by (auto simp: list_all_iff planned_files_def at_before_def at_after_def split: if_splits)
  moreover have "\<forall>q. q \<notin> ?ps \<longrightarrow> gget fs' q = gget (bw_files w) q"
    using other outside by simp
  moreover have "\<forall>tr \<in> set (bp_translations entry). gget fs' (bt_file_path tr) = Some (bt_content tr)" if "\<exists>d. out = Done d"
  proof -
    have aft: "list_all (at_after (bw_files w')) ?rfs"
      using wrote answered that by (auto simp: list_all_iff planned_files_def apply_files_def at_after_def)
    show ?thesis
    proof (cases landed)
      case True
      then show ?thesis using each by simp
    next
      case False
      then have "list_all (at_before (bw_files w')) ?rfs" using aft keep by blast
      then have "\<forall>x \<in> set (bp_translations entry). gget (bw_files w) (bt_file_path x) = Some (bt_content x)"
        using aft by (auto simp: list_all_iff planned_files_def at_before_def at_after_def)
      then show ?thesis using each False by simp
    qed
  qed
  ultimately show ?thesis by blast
qed

section \<open>A crash between two translations\<close>

definition sample_page :: "string \<Rightarrow> string" where
  "sample_page s = ''---'' @ [CHR 0x0A] @ s @ [CHR 0x0A] @ ''---''"

definition sample_tr :: "string \<Rightarrow> string \<Rightarrow> string \<Rightarrow> bundle_translation_plan" where
  "sample_tr lang p c = \<lparr>bt_lang = lang, bt_file_path = p, bt_revision = '''', bt_content = c, bt_title = '''',
     bt_body = '''', bt_tags = [], bt_categories = [], bt_applied = [], bt_rejected = [], bt_diff = ''d''\<rparr>"

definition sample_plan :: bundle_plan_entry where
  "sample_plan = \<lparr>bp_caller_key = ''t'', bp_slug = ''p'', bp_bundle_dir = ''/c/p'', bp_bundle_revision = ''sha256:r'',
     bp_translations = [sample_tr '''' ''/c/p/index.md'' (sample_page ''A''), sample_tr ''fr'' ''/c/p/index.fr.md'' (sample_page ''B'')],
     bp_created_at = 0\<rparr>"

definition sample_files :: files where
  "sample_files = [(''/c/p/index.md'', sample_page ''a''), (''/c/p/index.fr.md'', sample_page ''b'')]"

definition sample_payload :: recovery_payload where
  "sample_payload = BundleWrite \<lparr>br_dir = ''/c/p'', br_files = planned_files sample_files sample_plan, br_idem = None, br_cleanup = []\<rparr>"

definition sample_lib :: bundle_lib where
  "sample_lib = \<lparr>bl_sha = (\<lambda>s. ''r''), bl_yaml_any = (\<lambda>s. True), bl_yaml_doc = (\<lambda>s. Some (False, False)),
     bl_plan_enc = (\<lambda>e. None), bl_plan_dec = (\<lambda>s. None), bl_snap_enc = (\<lambda>e. None), bl_snap_dec = (\<lambda>s. None),
     bl_rec_enc = (\<lambda>p. if p = sample_payload then Some ''P'' else None), bl_out_enc = (\<lambda>d. Some ''O''),
     bl_out_dec = (\<lambda>s. None), bl_request_hash = (\<lambda>xs. None), bl_marshal = (\<lambda>j. ''J''), bl_meta = JNull\<rparr>"

definition sample_view :: fs_view where "sample_view = \<lparr>fs_lstat = (\<lambda>p. NotExist), fs_eval = (\<lambda>p. None)\<rparr>"

definition sample_guard :: path_guard where "sample_guard = \<lparr>pg_root = ''/c'', pg_reject_symlinks = False\<rparr>"

definition sample_env :: "(crash_point \<Rightarrow> bool) \<Rightarrow> bundle_env" where
  "sample_env dies = \<lparr>be_now = 1, be_now_text = '''', be_ctx = \<lparr>cx_principal = '''', cx_token_id = ''t'', cx_caller_ip = ''''\<rparr>,
     be_allow = True, be_locked = True, be_view = sample_view, be_is_dir = (\<lambda>p. True), be_ls = (\<lambda>p. None),
     be_unreadable = (\<lambda>p. False), be_write = (\<lambda>p. no_atomic_faults), be_undo = (\<lambda>p. no_atomic_faults),
     be_dies = dies, be_random = Some ''1'', be_plan_fl = no_faults, be_consume_fl = no_faults,
     be_snap_fl = no_faults, be_snap_put_fl = no_faults, be_replay_fl = no_faults, be_remember_fl = no_faults,
     be_rec_fails = (\<lambda>s. False), be_cs_read_fails = False, be_cs_touch_fails = False, be_cs_record_fails = False,
     be_index_warn = (\<lambda>l. ''''), be_has_index = False, be_public = (\<lambda>s. False),
     be_last_build = \<lparr>bs_attempted = False, bs_status = '''', bs_error_class = '''', bs_at = 0\<rparr>\<rparr>"

definition sample_config :: bundle_config where
  "sample_config = \<lparr>bc_content_root = ''/c'', bc_force_dry_run = False, bc_blocked = []\<rparr>"

definition sample_world :: bundle_world where
  "sample_world = \<lparr>bw_files = sample_files, bw_journal = Some [],
     bw_plans = \<lparr>ts_ttl = planTTL, ts_max = 128, ts_entries = [(''bplan_1'', sample_plan)], ts_db = None\<rparr>,
     bw_snaps = newBundleSnapshotStore snapshotTTL 512 None,
     bw_idem = newIdempotencyStore 1 1 None, bw_sets = NewRegistry None\<rparr>"

definition sample_input :: apply_input where
  "sample_input = \<lparr>ai_plan_id = ''bplan_1'', ai_key = '''', ai_change_set = '''', ai_dry_run = False\<rparr>"

definition sample_crash :: bundle_world where
  "sample_crash = fst (applyBundlePlan sample_lib (sample_env (\<lambda>c. c = BeforeWrite ''/c/p/index.fr.md'')) sample_guard sample_config sample_world sample_input)"

definition sample_row :: recovery_row where
  "sample_row = \<lparr>rc_kind = ''bundle_write'', rc_state = ''in_progress'', rc_payload = ''P'', rc_updated = 1\<rparr>"

definition sample_restart :: recovery_env where
  "sample_restart = \<lparr>rv_unreadable = (\<lambda>p. False), rv_stuck = (\<lambda>p. False), rv_stuck_tree = (\<lambda>p. None),
     rv_write = (\<lambda>p. no_atomic_faults), rv_view = sample_view, rv_cwd = None, rv_content_root = ''/c'',
     rv_reject_symlinks = False\<rparr>"

lemma bundle_crash_atomic_witness:
  "\<exists>fs landed changed.
     prepare_entry (\<lambda>s. ''r'') (\<lambda>raw. if raw = ''P'' then Some (server_view sample_payload) else None) sample_restart
       (row_entry ''src_1'' sample_row) (bw_files sample_crash) = (fs, Some landed, changed) \<and>
     gget fs ''/c/p/index.md'' = Some (sample_page (if landed then ''A'' else ''a'')) \<and>
     gget fs ''/c/p/index.fr.md'' = Some (sample_page (if landed then ''B'' else ''b''))"
proof -
  let ?env = "sample_env (\<lambda>c. c = BeforeWrite ''/c/p/index.fr.md'')"
  let ?dec = "\<lambda>raw. if raw = ''P'' then Some (server_view sample_payload) else None"
  have run: "applyBundlePlan sample_lib ?env sample_guard sample_config sample_world sample_input =
      (sample_crash, snd (applyBundlePlan sample_lib ?env sample_guard sample_config sample_world sample_input))"
    by (simp add: sample_crash_def)
  have fresh: "fresh_op ?env sample_world" by (simp add: fresh_op_def sample_world_def)
  have plan: "snd (bundlePlanStore_get (bl_plan_enc sample_lib) (bl_plan_dec sample_lib) (be_plan_fl ?env) (be_now ?env)
      (bw_plans sample_world) (ai_plan_id sample_input) (isolationCallerKey (be_ctx ?env))) = Inr (Some sample_plan)"
    by code_simp
  have sound: "sound_plan (bw_files sample_world) sample_plan" by code_simp
  have j: "bw_journal sample_crash = Some [(''src_1'', sample_row)]" by code_simp
  have codec: "row_codec (bl_rec_enc sample_lib) ?dec"
    by (auto simp: row_codec_def sample_lib_def sample_payload_def server_view_def split: if_splits)
  have utf8: "row_utf8 (path_clean (bp_bundle_dir sample_plan)) (planned_files (bw_files sample_world) sample_plan)"
    by code_simp
  have calm: "calm_restart sample_restart (path_clean (bp_bundle_dir sample_plan))
      (planned_files (bw_files sample_world) sample_plan)" by code_simp
  have rnd: "be_random ?env = Some ''1''" by (simp add: sample_env_def)
  have st: "rc_state sample_row \<noteq> ''committed''" by (simp add: sample_row_def)
  have get: "gget [(''src_1'', sample_row)] (''src_'' @ ''1'') = Some sample_row" by simp
  obtain fs landed changed where
    *: "prepare_entry (\<lambda>s. ''r'') ?dec sample_restart (row_entry (''src_'' @ ''1'') sample_row) (bw_files sample_crash) =
          (fs, Some landed, changed)"
      "\<forall>tr \<in> set (bp_translations sample_plan). gget fs (bt_file_path tr) =
              (if landed then Some (bt_content tr) else gget (bw_files sample_world) (bt_file_path tr))"
    using bundle_crash_atomic [OF run fresh plan sound j rnd get st codec utf8 calm, where sha = "\<lambda>s. ''r''"] by blast
  then show ?thesis
    by (intro exI [of _ fs] exI [of _ landed] exI [of _ changed])
      (simp add: sample_plan_def sample_tr_def sample_world_def sample_files_def)
qed

end
