(* ===== verification/FrontMatter.thy ===== *)
theory FrontMatter
  imports Validation Plans
begin

text \<open>
  Reading and editing page headers: the plan operations and raw readers of
  \<open>internal/tools/write/content\_plan.go\<close> and the YAML-node editing of \<open>internal/tools/write/tools.go\<close>.
  The YAML library is a parameter: parsing, printing, decoding and \<open>SetString\<close>. A node is the library's
  structure; what the code does not look at (style, anchors, comments) is its last component.
\<close>

section \<open>YAML nodes and values\<close>

datatype yaml_kind = DocumentNode | SequenceNode | MappingNode | ScalarNode | AliasNode

datatype 'a ynode = YNode (yn_kind: yaml_kind) (yn_tag: string) (yn_value: string) (yn_content: "'a ynode list") (yn_rest: 'a)

datatype yval = YStr string | YList "yval list" | YBool bool | YTime time | YNil | YOther string

text \<open>\<open>ya\_parse\<close>: an error, an empty document, or the root of the document.\<close>

record 'a yaml_lib =
  ya_parse :: "string \<Rightarrow> 'a ynode option go"
  ya_marshal :: "'a ynode \<Rightarrow> string option"
  ya_set_string :: "string \<Rightarrow> 'a ynode \<Rightarrow> 'a ynode"
  ya_blank :: 'a
  ya_map :: "string \<Rightarrow> (string, yval) gomap option"
  ya_sprint :: "yval \<Rightarrow> string"
  ya_any :: "string \<Rightarrow> bool"
  ya_doc :: "string \<Rightarrow> (bool \<times> bool) option"

section \<open>Raw readers\<close>

text \<open>The parts of \<open>strings.SplitN\<close> at three dashes after the opening ones.\<close>

definition split_dashes :: "string \<Rightarrow> (string \<times> string) option" where
  "split_dashes raw = (if has_prefix ''---'' raw then cut_sub ''---'' (drop 3 raw) else None)"

definition parseFrontmatterMap :: "'a yaml_lib \<Rightarrow> string \<Rightarrow> (string, yval) gomap option" where
  "parseFrontmatterMap Y raw =
     (case split_dashes raw of None \<Rightarrow> None | Some (yaml, rest) \<Rightarrow> ya_map Y yaml)"

definition bodyFromRaw :: "string \<Rightarrow> string" where
  "bodyFromRaw raw = (case split_dashes raw of None \<Rightarrow> raw | Some (yaml, rest) \<Rightarrow> trim_space rest)"

definition toStringSlice :: "'a yaml_lib \<Rightarrow> yval option \<Rightarrow> string list option" where
  "toStringSlice Y v =
     (case v of
        Some (YList xs) \<Rightarrow> Some (map (\<lambda>x. case x of YStr s \<Rightarrow> s | _ \<Rightarrow> ya_sprint Y x) xs)
      | _ \<Rightarrow> None)"

definition currentTaxonomyFromRaw :: "'a yaml_lib \<Rightarrow> string \<Rightarrow> string list option \<times> string list option" where
  "currentTaxonomyFromRaw Y raw =
     (case parseFrontmatterMap Y raw of
        None \<Rightarrow> (None, None)
      | Some fm \<Rightarrow> (toStringSlice Y (gget fm ''tags''), toStringSlice Y (gget fm ''categories'')))"

section \<open>Plan operations\<close>

record plan_operation =
  po_op :: string
  po_body :: string
  po_value :: string
  po_field :: string
  po_draft :: "bool option"

record resolved_ops =
  rs_title :: string
  rs_body :: string
  rs_tags :: "string list"
  rs_categories :: "string list"
  rs_tags_changed :: bool
  rs_categories_changed :: bool
  rs_draft :: "bool option"
  rs_description :: string
  rs_applied :: "string list"
  rs_rejected :: "rejected_operation list"

definition applied :: "string \<Rightarrow> resolved_ops \<Rightarrow> resolved_ops" where
  "applied s r = r\<lparr>rs_applied := rs_applied r @ [s]\<rparr>"

definition rejected :: "string \<Rightarrow> string \<Rightarrow> resolved_ops \<Rightarrow> resolved_ops" where
  "rejected s why r = r\<lparr>rs_rejected := rs_rejected r @ [\<lparr>ro_op = s, ro_reason = why\<rparr>]\<rparr>"

text \<open>\<open>slices.Delete\<close> at the first position of a value.\<close>

definition plan_op :: "string list \<Rightarrow> plan_operation \<Rightarrow> resolved_ops \<Rightarrow> resolved_ops go" where
  "plan_op blocked x r =
     (let v = po_value x
      in if po_op x = ''update_body'' then
           (if blank (po_body x) then Inl ''invalid_params: update_body operation requires a non-empty body''
            else (case validateBodyFormat (po_body x) blocked of
                    Some e \<Rightarrow> Inl e | None \<Rightarrow> Inr (applied ''update_body'' (r\<lparr>rs_body := po_body x\<rparr>))))
         else if po_op x = ''set_title'' then
           (if blank v then Inl ''invalid_params: set_title operation requires a non-empty value''
            else (case validateTitleFormat v of
                    Some e \<Rightarrow> Inl e | None \<Rightarrow> Inr (applied ''set_title'' (r\<lparr>rs_title := v\<rparr>))))
         else if po_op x = ''add_tag'' then
           (if v = '''' then Inl ''invalid_params: add_tag operation requires value''
            else (case validateTaxonomyTerms ''tag'' [v] of
                    Some e \<Rightarrow> Inl e
                  | None \<Rightarrow>
                      if v \<in> set (rs_tags r) then Inr (rejected (''add_tag:'' @ v) ''tag already present'' r)
                      else Inr (applied (''add_tag:'' @ v) (r\<lparr>rs_tags := rs_tags r @ [v], rs_tags_changed := True\<rparr>))))
         else if po_op x = ''remove_tag'' then
           (if v = '''' then Inl ''invalid_params: remove_tag operation requires value''
            else if v \<notin> set (rs_tags r) then Inr (rejected (''remove_tag:'' @ v) ''tag not present'' r)
            else Inr (applied (''remove_tag:'' @ v) (r\<lparr>rs_tags := remove1 v (rs_tags r), rs_tags_changed := True\<rparr>)))
         else if po_op x = ''add_category'' then
           (if v = '''' then Inl ''invalid_params: add_category operation requires value''
            else (case validateTaxonomyTerms ''category'' [v] of
                    Some e \<Rightarrow> Inl e
                  | None \<Rightarrow>
                      if v \<in> set (rs_categories r)
                      then Inr (rejected (''add_category:'' @ v) ''category already present'' r)
                      else Inr (applied (''add_category:'' @ v)
                             (r\<lparr>rs_categories := rs_categories r @ [v], rs_categories_changed := True\<rparr>))))
         else if po_op x = ''remove_category'' then
           (if v = '''' then Inl ''invalid_params: remove_category operation requires value''
            else if v \<notin> set (rs_categories r)
              then Inr (rejected (''remove_category:'' @ v) ''category not present'' r)
            else Inr (applied (''remove_category:'' @ v)
                   (r\<lparr>rs_categories := remove1 v (rs_categories r), rs_categories_changed := True\<rparr>)))
         else if po_op x = ''set_draft'' then
           (case po_draft x of
              None \<Rightarrow> Inl ''invalid_params: set_draft operation requires draft_value''
            | Some d \<Rightarrow> Inr (applied ''set_draft'' (r\<lparr>rs_draft := Some d\<rparr>)))
         else if po_op x = ''set_field'' then
           (if po_field x \<noteq> ''description'' then Inl ''invalid_params: set_field only supports field description''
            else (case rejectUnsafeText v of
                    Some e \<Rightarrow> Inl (''invalid_params: description '' @ e)
                  | None \<Rightarrow> Inr (applied ''set_field:description'' (r\<lparr>rs_description := v\<rparr>))))
         else if po_op x = '''' then Inl ''invalid_params: operations[].op must not be empty''
         else Inl ''invalid_params: unknown operation'')"

fun plan_ops :: "string list \<Rightarrow> plan_operation list \<Rightarrow> resolved_ops \<Rightarrow> resolved_ops go" where
  "plan_ops blocked [] r = Inr r"
| "plan_ops blocked (x # xs) r = (case plan_op blocked x r of Inl e \<Rightarrow> Inl e | Inr r' \<Rightarrow> plan_ops blocked xs r')"

text \<open>A taxonomy list that no operation changed is not part of the result.\<close>

definition resolvePlanOperations ::
    "string list option \<Rightarrow> string list option \<Rightarrow> plan_operation list \<Rightarrow> string list \<Rightarrow> resolved_ops go" where
  "resolvePlanOperations existingTags existingCategories ops blocked =
     plan_ops blocked ops
       \<lparr>rs_title = '''', rs_body = '''', rs_tags = (case existingTags of None \<Rightarrow> [] | Some ts \<Rightarrow> ts),
        rs_categories = (case existingCategories of None \<Rightarrow> [] | Some cs \<Rightarrow> cs), rs_tags_changed = False,
        rs_categories_changed = False, rs_draft = None, rs_description = '''', rs_applied = [], rs_rejected = []\<rparr>"

section \<open>Editing a header\<close>

record page_update =
  pu_tags :: "string list option"
  pu_categories :: "string list option"
  pu_draft :: "bool option"
  pu_description :: "string option"
  pu_featured :: "string option"

text \<open>The content of a mapping node is its keys and values in turn.\<close>

fun change_value :: "string \<Rightarrow> ('a ynode \<Rightarrow> 'a ynode) \<Rightarrow> 'a ynode list \<Rightarrow> 'a ynode list option" where
  "change_value key f (k # v # rest) =
     (if yn_value k = key then Some (k # f v # rest)
      else map_option (\<lambda>r. k # v # r) (change_value key f rest))"
| "change_value key f _ = None"

definition scalar :: "'a \<Rightarrow> string \<Rightarrow> string \<Rightarrow> 'a ynode" where
  "scalar z tag v = YNode ScalarNode tag v [] z"

definition put_value :: "'a \<Rightarrow> string \<Rightarrow> ('a ynode \<Rightarrow> 'a ynode) \<Rightarrow> 'a ynode \<Rightarrow> 'a ynode list \<Rightarrow> 'a ynode list" where
  "put_value z key f new content =
     (case change_value key f content of Some c \<Rightarrow> c | None \<Rightarrow> content @ [scalar z ''!!str'' key, new])"

definition setYAMLKey :: "'a yaml_lib \<Rightarrow> string \<Rightarrow> string \<Rightarrow> 'a ynode list \<Rightarrow> 'a ynode list" where
  "setYAMLKey Y key v = put_value (ya_blank Y) key (ya_set_string Y v) (scalar (ya_blank Y) ''!!str'' v)"

definition setYAMLSeq :: "'a yaml_lib \<Rightarrow> string \<Rightarrow> string list \<Rightarrow> 'a ynode list \<Rightarrow> 'a ynode list" where
  "setYAMLSeq Y key vs =
     (let seq = YNode SequenceNode ''!!seq'' '''' (map (scalar (ya_blank Y) ''!!str'') vs) (ya_blank Y)
      in put_value (ya_blank Y) key (\<lambda>old. seq) seq)"

definition setYAMLBool :: "'a yaml_lib \<Rightarrow> string \<Rightarrow> bool \<Rightarrow> 'a ynode list \<Rightarrow> 'a ynode list" where
  "setYAMLBool Y key b =
     (let node = scalar (ya_blank Y) ''!!bool'' (if b then ''true'' else ''false'')
      in put_value (ya_blank Y) key (\<lambda>old. node) node)"

fun deleteYAMLKey :: "string \<Rightarrow> 'a ynode list \<Rightarrow> 'a ynode list" where
  "deleteYAMLKey key (k # v # rest) = (if yn_value k = key then rest else k # v # deleteYAMLKey key rest)"
| "deleteYAMLKey key xs = xs"

definition set_or_delete :: "'a yaml_lib \<Rightarrow> string \<Rightarrow> string option \<Rightarrow> 'a ynode list \<Rightarrow> 'a ynode list" where
  "set_or_delete Y key v c =
     (case v of None \<Rightarrow> c | Some s \<Rightarrow> if s = '''' then deleteYAMLKey key c else setYAMLKey Y key s c)"

definition update_mapping :: "'a yaml_lib \<Rightarrow> string \<Rightarrow> page_update \<Rightarrow> 'a ynode list \<Rightarrow> 'a ynode list" where
  "update_mapping Y newTitle u c0 =
     (let c1 = (if newTitle = '''' then c0 else setYAMLKey Y ''title'' newTitle c0);
          c2 = (case pu_tags u of None \<Rightarrow> c1 | Some ts \<Rightarrow> setYAMLSeq Y ''tags'' ts c1);
          c3 = (case pu_categories u of None \<Rightarrow> c2 | Some cs \<Rightarrow> setYAMLSeq Y ''categories'' cs c2);
          c4 = (case pu_draft u of None \<Rightarrow> c3 | Some d \<Rightarrow> setYAMLBool Y ''draft'' d c3);
          c5 = set_or_delete Y ''description'' (pu_description u) c4
      in set_or_delete Y ''featuredImage'' (pu_featured u) c5)"

definition needs_yaml :: "string \<Rightarrow> page_update \<Rightarrow> bool" where
  "needs_yaml newTitle u \<longleftrightarrow> newTitle \<noteq> '''' \<or> pu_tags u \<noteq> None \<or> pu_categories u \<noteq> None \<or>
     pu_draft u \<noteq> None \<or> pu_description u \<noteq> None \<or> pu_featured u \<noteq> None"

text \<open>\<open>strings.TrimRight\<close> of line feeds.\<close>

definition trim_lines :: "string \<Rightarrow> string" where
  "trim_lines s = rev (dropWhile (\<lambda>c. c = CHR 0x0A) (rev s))"

definition updated_yaml :: "'a yaml_lib \<Rightarrow> string \<Rightarrow> page_update \<Rightarrow> string \<Rightarrow> string go" where
  "updated_yaml Y newTitle u yaml =
     (if \<not> needs_yaml newTitle u then Inr yaml
      else (case ya_parse Y yaml of
              Inl e \<Rightarrow> Inl ''YAML parse''
            | Inr None \<Rightarrow> Inl ''YAML parse: frontmatter root must be a mapping''
            | Inr (Some root) \<Rightarrow>
                if yn_kind root \<noteq> MappingNode then Inl ''YAML parse: frontmatter root must be a mapping''
                else (case ya_marshal Y (YNode (yn_kind root) (yn_tag root) (yn_value root)
                               (update_mapping Y newTitle u (yn_content root)) (yn_rest root)) of
                        None \<Rightarrow> Inl ''YAML marshal''
                      | Some out \<Rightarrow> Inr (trim_lines out))))"

definition applyPageUpdates :: "'a yaml_lib \<Rightarrow> string \<Rightarrow> string \<Rightarrow> string \<Rightarrow> page_update \<Rightarrow> string go" where
  "applyPageUpdates Y fileContent newTitle newBody u =
     (if \<not> has_prefix fm_open fileContent then Inl ''no YAML frontmatter delimiter''
      else (case cut_sub fm_close (drop 4 fileContent) of
              None \<Rightarrow> Inl ''unterminated YAML frontmatter''
            | Some (yaml, body) \<Rightarrow>
                (case updated_yaml Y newTitle u yaml of
                   Inl e \<Rightarrow> Inl e
                 | Inr yaml' \<Rightarrow>
                     Inr (fm_open @ yaml' @ fm_close @
                          (if newBody = '''' then body else [CHR 0x0A, CHR 0x0A] @ newBody)))))"

text \<open>What a plan hands to the update: an empty description is not passed on.\<close>

definition plan_update :: "resolved_ops \<Rightarrow> page_update" where
  "plan_update r =
     \<lparr>pu_tags = (if rs_tags_changed r then Some (rs_tags r) else None),
      pu_categories = (if rs_categories_changed r then Some (rs_categories r) else None),
      pu_draft = rs_draft r,
      pu_description = (if rs_description r \<noteq> '''' then Some (rs_description r) else None), pu_featured = None\<rparr>"

section \<open>An update touches what it names\<close>

fun pairs :: "'a ynode list \<Rightarrow> ('a ynode \<times> 'a ynode) list" where
  "pairs (k # v # rest) = (k, v) # pairs rest"
| "pairs _ = []"

definition others :: "string set \<Rightarrow> 'a ynode list \<Rightarrow> ('a ynode \<times> 'a ynode) list" where
  "others keys c = filter (\<lambda>(k, v). yn_value k \<notin> keys) (pairs c)"

definition entry_of :: "'a ynode list \<Rightarrow> string \<Rightarrow> 'a ynode option" where
  "entry_of c key = map_option snd (find (\<lambda>(k, v). yn_value k = key) (pairs c))"

lemma pairs_snoc: "even (length c) \<Longrightarrow> pairs (c @ [k, v]) = pairs c @ [(k, v)]"
  by (induction c rule: pairs.induct) auto

lemma change_value_laws:
  "change_value key f c = Some c' \<Longrightarrow>
     length c' = length c \<and> others {key} c' = others {key} c \<and>
     entry_of c' key = map_option f (entry_of c key) \<and> entry_of c key \<noteq> None \<and>
     (\<forall>k. k \<noteq> key \<longrightarrow> entry_of c' k = entry_of c k)"
  by (induction key f c arbitrary: c' rule: change_value.induct)
    (auto simp: others_def entry_of_def split: if_splits)

lemma change_value_None: "change_value key f c = None \<Longrightarrow> entry_of c key = None"
  by (induction key f c rule: change_value.induct) (auto simp: entry_of_def split: if_splits)

lemma find_append: "find P (xs @ ys) = (case find P xs of None \<Rightarrow> find P ys | Some x \<Rightarrow> Some x)"
  by (induction xs) auto

lemma put_value_laws:
  assumes "even (length c)"
  shows "even (length (put_value z key f new c))"
    and "others {key} (put_value z key f new c) = others {key} c"
    and "entry_of (put_value z key f new c) key = Some (case entry_of c key of None \<Rightarrow> new | Some v \<Rightarrow> f v)"
    and "k \<noteq> key \<Longrightarrow> entry_of (put_value z key f new c) k = entry_of c k"
proof -
  have "even (length (put_value z key f new c)) \<and> others {key} (put_value z key f new c) = others {key} c \<and>
      entry_of (put_value z key f new c) key = Some (case entry_of c key of None \<Rightarrow> new | Some v \<Rightarrow> f v) \<and>
      (\<forall>k. k \<noteq> key \<longrightarrow> entry_of (put_value z key f new c) k = entry_of c k)"
  proof (cases "change_value key f c")
    case None
    have "entry_of c key = None" by (rule change_value_None [OF None])
    then show ?thesis
      using assms None
      by (auto simp: put_value_def others_def entry_of_def pairs_snoc find_append scalar_def split: option.splits)
  next
    case (Some c')
    then show ?thesis
      using assms change_value_laws [OF Some] by (auto simp: put_value_def split: option.splits)
  qed
  then show "even (length (put_value z key f new c))"
    and "others {key} (put_value z key f new c) = others {key} c"
    and "entry_of (put_value z key f new c) key = Some (case entry_of c key of None \<Rightarrow> new | Some v \<Rightarrow> f v)"
    and "k \<noteq> key \<Longrightarrow> entry_of (put_value z key f new c) k = entry_of c k" by blast+
qed

lemma delete_laws:
  "even (length c) \<Longrightarrow> even (length (deleteYAMLKey key c)) \<and> others {key} (deleteYAMLKey key c) = others {key} c \<and>
     (\<forall>k. k \<noteq> key \<longrightarrow> entry_of (deleteYAMLKey key c) k = entry_of c k)"
  by (induction key c rule: deleteYAMLKey.induct) (auto simp: others_def entry_of_def)

lemma others_mono: "others S c = others S d \<Longrightarrow> S \<subseteq> T \<Longrightarrow> others T c = others T d"
proof -
  assume a: "others S c = others S d" "S \<subseteq> T"
  have "others T x = filter (\<lambda>(k, v). yn_value k \<notin> T) (others S x)" for x :: "'a ynode list"
    using a(2) by (auto simp: others_def intro!: filter_cong)
  then show ?thesis using a(1) by metis
qed

definition touched_keys :: "string \<Rightarrow> page_update \<Rightarrow> string set" where
  "touched_keys newTitle u =
     (if newTitle = '''' then {} else {''title''}) \<union> (if pu_tags u = None then {} else {''tags''}) \<union>
     (if pu_categories u = None then {} else {''categories''}) \<union> (if pu_draft u = None then {} else {''draft''}) \<union>
     (if pu_description u = None then {} else {''description''}) \<union>
     (if pu_featured u = None then {} else {''featuredImage''})"

text \<open>One step of the update: it keeps the pairs of a mapping and changes one key, or nothing.\<close>

definition edits :: "string \<Rightarrow> bool \<Rightarrow> 'a ynode list \<Rightarrow> 'a ynode list \<Rightarrow> bool" where
  "edits key on c d \<longleftrightarrow> even (length d) \<and> others {key} d = others {key} c \<and>
     (\<forall>k. k \<noteq> key \<longrightarrow> entry_of d k = entry_of c k) \<and> (\<not> on \<longrightarrow> d = c)"

lemma edits_keep: "even (length c) \<Longrightarrow> edits key False c c"
  by (simp add: edits_def)

lemma edits_put: "even (length c) \<Longrightarrow> edits key True c (put_value z key f new c)"
  by (simp add: edits_def put_value_laws)

lemma edits_delete: "even (length c) \<Longrightarrow> edits key True c (deleteYAMLKey key c)"
  using delete_laws by (auto simp: edits_def)

lemmas edit_steps = edits_put edits_delete edits_keep

lemma set_or_delete_edits: "even (length c) \<Longrightarrow> edits key (v \<noteq> None) c (set_or_delete Y key v c)"
  by (cases v) (auto simp: set_or_delete_def setYAMLKey_def intro: edit_steps)

lemma edits_others: "edits key on c d \<Longrightarrow> (on \<Longrightarrow> key \<in> T) \<Longrightarrow> others T d = others T c"
  by (cases on) (auto simp: edits_def intro: others_mono [of "{key}"])

lemma edits_even: "edits key on c d \<Longrightarrow> even (length d)"
  by (simp add: edits_def)

lemma edits_entry: "edits key on c d \<Longrightarrow> k \<noteq> key \<Longrightarrow> entry_of d k = entry_of c k"
  by (simp add: edits_def)

lemma update_mapping_laws:
  assumes "even (length c)" and d_def: "d = update_mapping Y newTitle u c"
  shows "others (touched_keys newTitle u) d = others (touched_keys newTitle u) c"
    and "newTitle \<noteq> '''' \<Longrightarrow> entry_of d ''title'' =
           Some (case entry_of c ''title'' of None \<Rightarrow> scalar (ya_blank Y) ''!!str'' newTitle
                 | Some v \<Rightarrow> ya_set_string Y newTitle v)"
    and "pu_tags u = Some ts \<Longrightarrow> entry_of d ''tags'' =
           Some (YNode SequenceNode ''!!seq'' '''' (map (scalar (ya_blank Y) ''!!str'') ts) (ya_blank Y))"
    and "pu_categories u = Some cs \<Longrightarrow> entry_of d ''categories'' =
           Some (YNode SequenceNode ''!!seq'' '''' (map (scalar (ya_blank Y) ''!!str'') cs) (ya_blank Y))"
    and "pu_draft u = Some b \<Longrightarrow> entry_of d ''draft'' =
           Some (scalar (ya_blank Y) ''!!bool'' (if b then ''true'' else ''false''))"
proof -
  define c1 where "c1 = (if newTitle = '''' then c else setYAMLKey Y ''title'' newTitle c)"
  define c2 where "c2 = (case pu_tags u of None \<Rightarrow> c1 | Some ts \<Rightarrow> setYAMLSeq Y ''tags'' ts c1)"
  define c3 where "c3 = (case pu_categories u of None \<Rightarrow> c2 | Some cs \<Rightarrow> setYAMLSeq Y ''categories'' cs c2)"
  define c4 where "c4 = (case pu_draft u of None \<Rightarrow> c3 | Some b \<Rightarrow> setYAMLBool Y ''draft'' b c3)"
  define c5 where "c5 = set_or_delete Y ''description'' (pu_description u) c4"
  have d: "d = set_or_delete Y ''featuredImage'' (pu_featured u) c5"
    unfolding d_def update_mapping_def Let_def c5_def c4_def c3_def c2_def c1_def by (rule refl)
  have e1: "edits ''title'' (newTitle \<noteq> '''') c c1"
    using assms(1) by (auto simp: c1_def setYAMLKey_def intro: edit_steps)
  have e2: "edits ''tags'' (pu_tags u \<noteq> None) c1 c2"
    using edits_even [OF e1] by (auto simp: c2_def setYAMLSeq_def Let_def split: option.splits intro: edit_steps)
  have e3: "edits ''categories'' (pu_categories u \<noteq> None) c2 c3"
    using edits_even [OF e2] by (auto simp: c3_def setYAMLSeq_def Let_def split: option.splits intro: edit_steps)
  have e4: "edits ''draft'' (pu_draft u \<noteq> None) c3 c4"
    using edits_even [OF e3] by (auto simp: c4_def setYAMLBool_def Let_def split: option.splits intro: edit_steps)
  have e5: "edits ''description'' (pu_description u \<noteq> None) c4 c5"
    unfolding c5_def by (rule set_or_delete_edits [OF edits_even [OF e4]])
  have e6: "edits ''featuredImage'' (pu_featured u \<noteq> None) c5 d"
    unfolding d by (rule set_or_delete_edits [OF edits_even [OF e5]])
  let ?T = "touched_keys newTitle u"
  have "others ?T d = others ?T c5" by (rule edits_others [OF e6]) (auto simp: touched_keys_def)
  also have "\<dots> = others ?T c4" by (rule edits_others [OF e5]) (auto simp: touched_keys_def)
  also have "\<dots> = others ?T c3" by (rule edits_others [OF e4]) (auto simp: touched_keys_def)
  also have "\<dots> = others ?T c2" by (rule edits_others [OF e3]) (auto simp: touched_keys_def)
  also have "\<dots> = others ?T c1" by (rule edits_others [OF e2]) (auto simp: touched_keys_def)
  also have "\<dots> = others ?T c" by (rule edits_others [OF e1]) (auto simp: touched_keys_def)
  finally show "others ?T d = others ?T c" .
  note late = edits_entry [OF e6] edits_entry [OF e5] edits_entry [OF e4] edits_entry [OF e3] edits_entry [OF e2]
  show "newTitle \<noteq> '''' \<Longrightarrow> entry_of d ''title'' =
           Some (case entry_of c ''title'' of None \<Rightarrow> scalar (ya_blank Y) ''!!str'' newTitle
                 | Some v \<Rightarrow> ya_set_string Y newTitle v)"
    using assms(1) by (simp add: late c1_def setYAMLKey_def put_value_laws)
  show "pu_tags u = Some ts \<Longrightarrow> entry_of d ''tags'' =
           Some (YNode SequenceNode ''!!seq'' '''' (map (scalar (ya_blank Y) ''!!str'') ts) (ya_blank Y))"
    using edits_even [OF e1]
    by (simp add: late c2_def setYAMLSeq_def Let_def put_value_laws split: option.splits)
  show "pu_categories u = Some cs \<Longrightarrow> entry_of d ''categories'' =
           Some (YNode SequenceNode ''!!seq'' '''' (map (scalar (ya_blank Y) ''!!str'') cs) (ya_blank Y))"
    using edits_even [OF e2]
    by (simp add: late c3_def setYAMLSeq_def Let_def put_value_laws split: option.splits)
  show "pu_draft u = Some b \<Longrightarrow> entry_of d ''draft'' =
           Some (scalar (ya_blank Y) ''!!bool'' (if b then ''true'' else ''false''))"
    using edits_even [OF e3]
    by (simp add: late c4_def setYAMLBool_def Let_def put_value_laws split: option.splits)
qed

lemma cut_sub_split: "p \<noteq> [] \<Longrightarrow> cut_sub p s = Some (a, b) \<Longrightarrow> s = a @ p @ b"
proof (induction p s arbitrary: a rule: cut_sub.induct)
  case (2 p c s)
  show ?case
  proof (cases "has_prefix p (c # s)")
    case True
    then obtain t where t: "c # s = p @ t" by (auto simp: has_prefix_iff)
    have "a = []" "b = drop (length p) (c # s)" using 2(3) True by auto
    then show ?thesis using t by simp
  next
    case False
    then show ?thesis using 2 by auto
  qed
qed simp

text \<open>
  C30. An edit of a page changes what it names and nothing else. Where it succeeds, the page is a
  header and a body; the body is replaced exactly when a new one is given, and is otherwise kept
  byte for byte, as is the header when no field is named. An edited header is the library's print of
  the parsed mapping in which every pair whose key is not named stands unchanged and in its place,
  and the title, tags, categories and draft flag hold the values asked for.
\<close>

theorem page_update_minimal:
  assumes ok: "applyPageUpdates Y content newTitle newBody u = Inr out"
    and mapping: "\<forall>yaml root. ya_parse Y yaml = Inr (Some root) \<and> yn_kind root = MappingNode \<longrightarrow>
                    even (length (yn_content root))"
  shows "\<exists>yaml rest yaml'. content = fm_open @ yaml @ fm_close @ rest \<and>
           out = fm_open @ yaml' @ fm_close @ (if newBody = '''' then rest else [CHR 0x0A, CHR 0x0A] @ newBody) \<and>
           (if needs_yaml newTitle u then
              \<exists>root c printed. ya_parse Y yaml = Inr (Some root) \<and> yn_kind root = MappingNode \<and>
                ya_marshal Y (YNode MappingNode (yn_tag root) (yn_value root) c (yn_rest root)) = Some printed \<and>
                yaml' = trim_lines printed \<and>
                others (touched_keys newTitle u) c = others (touched_keys newTitle u) (yn_content root) \<and>
                (newTitle \<noteq> '''' \<longrightarrow> entry_of c ''title'' = Some (case entry_of (yn_content root) ''title'' of
                   None \<Rightarrow> scalar (ya_blank Y) ''!!str'' newTitle | Some v \<Rightarrow> ya_set_string Y newTitle v)) \<and>
                (\<forall>ts. pu_tags u = Some ts \<longrightarrow> entry_of c ''tags'' =
                   Some (YNode SequenceNode ''!!seq'' '''' (map (scalar (ya_blank Y) ''!!str'') ts) (ya_blank Y))) \<and>
                (\<forall>cs. pu_categories u = Some cs \<longrightarrow> entry_of c ''categories'' =
                   Some (YNode SequenceNode ''!!seq'' '''' (map (scalar (ya_blank Y) ''!!str'') cs) (ya_blank Y))) \<and>
                (\<forall>b. pu_draft u = Some b \<longrightarrow> entry_of c ''draft'' =
                   Some (scalar (ya_blank Y) ''!!bool'' (if b then ''true'' else ''false'')))
            else yaml' = yaml)"
proof -
  obtain yaml rest yaml' where split: "has_prefix fm_open content" "cut_sub fm_close (drop 4 content) = Some (yaml, rest)"
    and upd: "updated_yaml Y newTitle u yaml = Inr yaml'"
    and out: "out = fm_open @ yaml' @ fm_close @ (if newBody = '''' then rest else [CHR 0x0A, CHR 0x0A] @ newBody)"
    using ok by (auto simp: applyPageUpdates_def split: if_splits option.splits sum.splits)
  have "content = fm_open @ drop 4 content" using split(1) by (auto simp: has_prefix_iff fm_open_def)
  moreover have "drop 4 content = yaml @ fm_close @ rest"
    using cut_sub_split [OF _ split(2)] by (simp add: fm_close_def)
  ultimately have content: "content = fm_open @ yaml @ fm_close @ rest" by metis
  show ?thesis
  proof (cases "needs_yaml newTitle u")
    case False
    then have "yaml' = yaml" using upd by (simp add: updated_yaml_def)
    then show ?thesis using False content out by auto
  next
    case True
    then obtain root printed where root: "ya_parse Y yaml = Inr (Some root)" "yn_kind root = MappingNode"
        "ya_marshal Y (YNode MappingNode (yn_tag root) (yn_value root)
           (update_mapping Y newTitle u (yn_content root)) (yn_rest root)) = Some printed" "yaml' = trim_lines printed"
      using upd by (auto simp: updated_yaml_def split: sum.splits option.splits if_splits)
    have "even (length (yn_content root))" using mapping root(1,2) by blast
    note laws = update_mapping_laws [OF this refl [of "update_mapping Y newTitle u (yn_content root)"]]
    have "\<exists>root c printed. ya_parse Y yaml = Inr (Some root) \<and> yn_kind root = MappingNode \<and>
        ya_marshal Y (YNode MappingNode (yn_tag root) (yn_value root) c (yn_rest root)) = Some printed \<and>
        yaml' = trim_lines printed \<and>
        others (touched_keys newTitle u) c = others (touched_keys newTitle u) (yn_content root) \<and>
        (newTitle \<noteq> '''' \<longrightarrow> entry_of c ''title'' = Some (case entry_of (yn_content root) ''title'' of
           None \<Rightarrow> scalar (ya_blank Y) ''!!str'' newTitle | Some v \<Rightarrow> ya_set_string Y newTitle v)) \<and>
        (\<forall>ts. pu_tags u = Some ts \<longrightarrow> entry_of c ''tags'' =
           Some (YNode SequenceNode ''!!seq'' '''' (map (scalar (ya_blank Y) ''!!str'') ts) (ya_blank Y))) \<and>
        (\<forall>cs. pu_categories u = Some cs \<longrightarrow> entry_of c ''categories'' =
           Some (YNode SequenceNode ''!!seq'' '''' (map (scalar (ya_blank Y) ''!!str'') cs) (ya_blank Y))) \<and>
        (\<forall>b. pu_draft u = Some b \<longrightarrow> entry_of c ''draft'' =
           Some (scalar (ya_blank Y) ''!!bool'' (if b then ''true'' else ''false'')))"
      using root laws by (intro exI [of _ root] exI [of _ "update_mapping Y newTitle u (yn_content root)"] exI [of _ printed]) simp
    then show ?thesis
      using True content out by (intro exI [of _ yaml] exI [of _ rest] exI [of _ yaml']) simp
  qed
qed

definition sample_yaml :: "unit yaml_lib" where
  "sample_yaml = \<lparr>ya_parse = (\<lambda>s. Inr (Some (YNode MappingNode '''' '''' [scalar () '''' ''title'', scalar () '''' ''a''] ()))),
     ya_marshal = (\<lambda>n. Some ''title: a''), ya_set_string = (\<lambda>v n. scalar () ''!!str'' v), ya_blank = (),
     ya_map = (\<lambda>s. if s = CHR 0x0A # ''title: a '' then Some [(''title'', YStr ''a'')] else None),
     ya_sprint = (\<lambda>v. ''''), ya_any = (\<lambda>s. True), ya_doc = (\<lambda>s. Some (False, False))\<rparr>"

definition sample_md :: string where
  "sample_md = fm_open @ ''title: a'' @ fm_close @ [CHR 0x0A] @ ''old''"

definition no_update :: page_update where
  "no_update = \<lparr>pu_tags = None, pu_categories = None, pu_draft = None, pu_description = None, pu_featured = None\<rparr>"

lemma page_update_minimal_witness:
  "\<exists>yaml rest. sample_md = fm_open @ yaml @ fm_close @ rest \<and>
     applyPageUpdates sample_yaml sample_md '''' ''new'' no_update =
       Inr (fm_open @ yaml @ fm_close @ [CHR 0x0A, CHR 0x0A] @ ''new'')"
proof -
  obtain out where out: "applyPageUpdates sample_yaml sample_md '''' ''new'' no_update = Inr out"
    by (simp add: applyPageUpdates_def sample_md_def fm_open_def fm_close_def updated_yaml_def needs_yaml_def no_update_def)
  have even: "\<forall>yaml root. ya_parse sample_yaml yaml = Inr (Some root) \<and> yn_kind root = MappingNode \<longrightarrow>
      even (length (yn_content root))"
    by (auto simp: sample_yaml_def)
  have "\<not> needs_yaml '''' no_update" by (simp add: needs_yaml_def no_update_def)
  then show ?thesis
    using page_update_minimal [OF out even] out by auto
qed

section \<open>Three dashes inside a header\<close>

lemma cut_sub_append: "p \<noteq> [] \<Longrightarrow> cut_sub p s = Some (x, y) \<Longrightarrow> cut_sub p (s @ t) = Some (x, y @ t)"
proof (induction p s arbitrary: x rule: cut_sub.induct)
  case (2 p c s)
  show ?case
  proof (cases "has_prefix p (c # s)")
    case True
    then obtain u where u: "c # s = p @ u" by (auto simp: has_prefix_iff)
    have "x = []" "y = drop (length p) (c # s)" using 2(3) True by auto
    then have xy: "x = []" "y = u" by (simp_all add: u)
    have e: "(c # s) @ t = p @ u @ t" by (simp only: u append_assoc)
    have "has_prefix p ((c # s) @ t)" unfolding has_prefix_iff using e by blast
    then have "cut_sub p ((c # s) @ t) = Some ([], drop (length p) ((c # s) @ t))" by simp
    then show ?thesis unfolding e xy by simp
  next
    case False
    then obtain x' where x': "cut_sub p s = Some (x', y)" "x = c # x'" using 2(3) by auto
    have "length p \<le> length s"
      using arg_cong [OF cut_sub_split [OF 2(2) x'(1)], of length] by simp
    then have "take (length p) ((c # s) @ t) = take (length p) (c # s)" by (simp only: take_append) simp
    then have "\<not> has_prefix p (c # s @ t)"
      using False by (simp add: has_prefix_def)
    then show ?thesis using 2(1) [OF False 2(2) x'(1)] x'(2) by simp
  qed
qed simp

definition add_tag_op :: "string \<Rightarrow> plan_operation" where
  "add_tag_op v = \<lparr>po_op = ''add_tag'', po_body = '''', po_value = v, po_field = '''', po_draft = None\<rparr>"

text \<open>
  Adding a tag can drop all others. The raw reader ends the header at the first three dashes
  anywhere after the opening ones, while the writer ends it at a line that starts with them. If a
  header value holds three dashes before the tags, so that the text up to them does not parse or has
  no tags, a plan that only adds the tag \<open>v\<close> is accepted, reports the operation as applied, and its
  update replaces the tags of the page, whatever they are, by \<open>v\<close> alone.
\<close>

theorem plan_drops_tags:
  assumes first: "cut_sub ''---'' (CHR 0x0A # a @ ''---'') = Some (CHR 0x0A # a, '''')"
    and short: "case ya_map Y (CHR 0x0A # a) of None \<Rightarrow> True | Some fm \<Rightarrow> gget fm ''tags'' = None"
    and page: "content = fm_open @ a @ ''---'' @ rest"
    and v: "v \<noteq> ''''" "length (runes v) \<le> 100"
  shows "\<exists>r. resolvePlanOperations (fst (currentTaxonomyFromRaw Y content)) (snd (currentTaxonomyFromRaw Y content))
             [add_tag_op v] blocked = Inr r \<and> rs_applied r = [''add_tag:'' @ v] \<and>
           (\<forall>c. even (length c) \<longrightarrow> entry_of (update_mapping Y (rs_title r) (plan_update r) c) ''tags'' =
              Some (YNode SequenceNode ''!!seq'' '''' [scalar (ya_blank Y) ''!!str'' v] (ya_blank Y)))"
proof -
  have "content = ''---'' @ (CHR 0x0A # a @ ''---'') @ rest" by (simp add: page fm_open_def)
  then have "split_dashes content = cut_sub ''---'' ((CHR 0x0A # a @ ''---'') @ rest)"
    by (simp add: split_dashes_def)
  then have "split_dashes content = Some (CHR 0x0A # a, rest)"
    using cut_sub_append [OF _ first, of rest] by simp
  then have "fst (currentTaxonomyFromRaw Y content) = None"
    using short by (auto simp: currentTaxonomyFromRaw_def parseFrontmatterMap_def toStringSlice_def split: option.splits)
  moreover obtain cs where "snd (currentTaxonomyFromRaw Y content) = cs" by simp
  ultimately obtain r where r: "resolvePlanOperations (fst (currentTaxonomyFromRaw Y content))
      (snd (currentTaxonomyFromRaw Y content)) [add_tag_op v] blocked = Inr r"
    and app: "rs_applied r = [''add_tag:'' @ v]" and tags: "pu_tags (plan_update r) = Some [v]"
    using v by (simp add: resolvePlanOperations_def plan_op_def add_tag_op_def validateTaxonomyTerms_def
        maxTaxonomyTermRunes_def applied_def plan_update_def)
  have "entry_of (update_mapping Y (rs_title r) (plan_update r) c) ''tags'' =
      Some (YNode SequenceNode ''!!seq'' '''' [scalar (ya_blank Y) ''!!str'' v] (ya_blank Y))" if "even (length c)" for c
    using update_mapping_laws(3) [OF that refl tags, of Y "rs_title r"] by simp
  then show ?thesis using r app by blast
qed

lemma plan_drops_tags_witness:
  "\<exists>r. resolvePlanOperations
         (fst (currentTaxonomyFromRaw sample_yaml (fm_open @ ''title: a --- b'' @ CHR 0x0A # ''tags: [x]'' @ fm_close)))
         (snd (currentTaxonomyFromRaw sample_yaml (fm_open @ ''title: a --- b'' @ CHR 0x0A # ''tags: [x]'' @ fm_close)))
         [add_tag_op ''y''] [] = Inr r \<and>
       entry_of (update_mapping sample_yaml (rs_title r) (plan_update r)
         [scalar () '''' ''tags'', YNode SequenceNode '''' '''' [scalar () '''' ''x''] ()]) ''tags'' =
         Some (YNode SequenceNode ''!!seq'' '''' [scalar () ''!!str'' ''y''] ())"
proof -
  have first: "cut_sub ''---'' (CHR 0x0A # ''title: a '' @ ''---'') = Some (CHR 0x0A # ''title: a '', '''')" by simp
  have short: "case ya_map sample_yaml (CHR 0x0A # ''title: a '') of None \<Rightarrow> True | Some fm \<Rightarrow> gget fm ''tags'' = None"
    by (simp add: sample_yaml_def)
  have page: "fm_open @ ''title: a --- b'' @ CHR 0x0A # ''tags: [x]'' @ fm_close =
      fm_open @ ''title: a '' @ ''---'' @ '' b'' @ CHR 0x0A # ''tags: [x]'' @ fm_close" by simp
  have v: "''y'' \<noteq> ''''" "length (runes ''y'') \<le> 100" by (simp, code_simp)
  obtain r where r: "resolvePlanOperations
         (fst (currentTaxonomyFromRaw sample_yaml (fm_open @ ''title: a --- b'' @ CHR 0x0A # ''tags: [x]'' @ fm_close)))
         (snd (currentTaxonomyFromRaw sample_yaml (fm_open @ ''title: a --- b'' @ CHR 0x0A # ''tags: [x]'' @ fm_close)))
         [add_tag_op ''y''] [] = Inr r"
      "\<And>c. even (length c) \<Longrightarrow> entry_of (update_mapping sample_yaml (rs_title r) (plan_update r) c) ''tags'' =
         Some (YNode SequenceNode ''!!seq'' '''' [scalar (ya_blank sample_yaml) ''!!str'' ''y''] (ya_blank sample_yaml))"
    using plan_drops_tags [OF first short page v, where blocked = "[]"] by blast
  show ?thesis
    using r(1) r(2) [of "[scalar () '''' ''tags'', YNode SequenceNode '''' '''' [scalar () '''' ''x''] ()]"]
    by (simp add: sample_yaml_def)
qed

end
