(* ===== verification/Diff.thy ===== *)
theory Diff
  imports Prelude
begin

text \<open>
  The line diff that plans and dry runs show (\<open>simpleDiff\<close> of \<open>internal/tools/write/tools.go\<close> and
  \<open>diffLineCounts\<close> of \<open>content\_plan.go\<close>): the table of longest common subsequences, the walk back
  through it, the hunks with their context and their printed form.
\<close>

section \<open>The table and the edit script\<close>

type_synonym edit = "char \<times> string"

fun dp_cells :: "string \<Rightarrow> string list \<Rightarrow> nat list \<Rightarrow> nat \<Rightarrow> nat list" where
  "dp_cells x (y # ys) (diag # up # prev) left =
     (let c = (if x = y then diag + 1 else if up \<ge> left then up else left)
      in c # dp_cells x ys (up # prev) c)"
| "dp_cells x _ _ left = []"

definition dp_row :: "string \<Rightarrow> string list \<Rightarrow> nat list \<Rightarrow> nat list" where
  "dp_row x ys prev = 0 # dp_cells x ys prev 0"

fun dp_rows :: "string list \<Rightarrow> string list \<Rightarrow> nat list \<Rightarrow> nat list list" where
  "dp_rows ys [] prev = [prev]"
| "dp_rows ys (x # xs) prev = prev # dp_rows ys xs (dp_row x ys prev)"

definition dp_table :: "string list \<Rightarrow> string list \<Rightarrow> nat list list" where
  "dp_table xs ys = dp_rows ys xs (replicate (length ys + 1) 0)"

function walk_back :: "nat list list \<Rightarrow> string list \<Rightarrow> string list \<Rightarrow> nat \<Rightarrow> nat \<Rightarrow> edit list" where
  "walk_back dp old new i j =
     (if i = 0 \<and> j = 0 then []
      else if i > 0 \<and> j > 0 \<and> old ! (i - 1) = new ! (j - 1) then
        (CHR '' '', old ! (i - 1)) # walk_back dp old new (i - 1) (j - 1)
      else if j > 0 \<and> (i = 0 \<or> dp ! i ! (j - 1) \<ge> dp ! (i - 1) ! j) then
        (CHR ''+'', new ! (j - 1)) # walk_back dp old new i (j - 1)
      else (CHR ''-'', old ! (i - 1)) # walk_back dp old new (i - 1) j)"
  by pat_completeness auto

termination
  by (relation "measure (\<lambda>(dp, old, new, i, j). i + j)") auto

declare walk_back.simps [simp del]

definition edit_script :: "string list \<Rightarrow> string list \<Rightarrow> edit list" where
  "edit_script old new = rev (walk_back (dp_table old new) old new (length old) (length new))"

section \<open>Hunks\<close>

definition diff_context :: nat where "diff_context = 3"

text \<open>The state of the scan is the start of the open change, \<open>None\<close> outside of one.\<close>

fun scan_hunks :: "nat \<Rightarrow> nat \<Rightarrow> edit list \<Rightarrow> nat option \<Rightarrow> (nat \<times> nat) list" where
  "scan_hunks len k [] cs = (case cs of None \<Rightarrow> [] | Some c \<Rightarrow> [(c - diff_context, len - 1)])"
| "scan_hunks len k (e # es) cs =
     (if fst e \<noteq> CHR '' '' then scan_hunks len (k + 1) es (case cs of None \<Rightarrow> Some k | Some c \<Rightarrow> Some c)
      else (case cs of
              None \<Rightarrow> scan_hunks len (k + 1) es None
            | Some c \<Rightarrow>
                (c - diff_context, min (len - 1) (k + diff_context - 1)) # scan_hunks len (k + 1) es None))"

definition merge_hunk :: "(nat \<times> nat) list \<Rightarrow> nat \<times> nat \<Rightarrow> (nat \<times> nat) list" where
  "merge_hunk merged h =
     (if merged \<noteq> [] \<and> fst h \<le> snd (last merged) + 1 then
        (if snd h > snd (last merged) then butlast merged @ [(fst (last merged), snd h)] else merged)
      else merged @ [h])"

definition merged_hunks :: "edit list \<Rightarrow> (nat \<times> nat) list" where
  "merged_hunks edits = foldl merge_hunk [] (scan_hunks (length edits) 0 edits None)"

definition old_side :: "edit list \<Rightarrow> string list" where
  "old_side es = map snd (filter (\<lambda>e. fst e \<noteq> CHR ''+'') es)"

definition new_side :: "edit list \<Rightarrow> string list" where
  "new_side es = map snd (filter (\<lambda>e. fst e \<noteq> CHR ''-'') es)"

record hunk =
  hk_old_start :: nat
  hk_old_count :: nat
  hk_new_start :: nat
  hk_new_count :: nat
  hk_edits :: "edit list"

definition make_hunk :: "edit list \<Rightarrow> nat \<times> nat \<Rightarrow> hunk" where
  "make_hunk edits h =
     (let before = take (fst h) edits; inside = take (snd h + 1 - fst h) (drop (fst h) edits)
      in \<lparr>hk_old_start = 1 + length (old_side before), hk_old_count = length (old_side inside),
          hk_new_start = 1 + length (new_side before), hk_new_count = length (new_side inside),
          hk_edits = inside\<rparr>)"

definition diff_hunks :: "string list \<Rightarrow> string list \<Rightarrow> hunk list" where
  "diff_hunks old new = (let es = edit_script old new in map (make_hunk es) (merged_hunks es))"

section \<open>The printed diff\<close>

definition line_end :: string where "line_end = [CHR 0x0A]"

definition hunk_header :: "hunk \<Rightarrow> string" where
  "hunk_header h =
     ''@@ -'' @ dec_nat (hk_old_start h) @ '','' @ dec_nat (hk_old_count h) @ '' +'' @
     dec_nat (hk_new_start h) @ '','' @ dec_nat (hk_new_count h) @ '' @@''"

definition hunk_lines :: "hunk \<Rightarrow> string list" where
  "hunk_lines h = hunk_header h # map (\<lambda>(kind, line). kind # line) (hk_edits h)"

definition diff_header :: "string \<Rightarrow> string list" where
  "diff_header path = [''--- a/'' @ path, ''+++ b/'' @ path]"

definition print_lines :: "string list \<Rightarrow> string" where
  "print_lines ls = concat (map (\<lambda>l. l @ line_end) ls)"

definition go_lines :: "string \<Rightarrow> string list" where "go_lines s = split_on (CHR 0x0A) s"

text \<open>The arrow is the UTF-8 text of U+2192.\<close>

definition long_diff_line :: "nat \<Rightarrow> nat \<Rightarrow> string" where
  "long_diff_line m n =
     ''# content changed ('' @ dec_nat m @ '' '' @ [CHR 0xE2, CHR 0x86, CHR 0x92] @ '' '' @ dec_nat n @ '' lines)''"

definition simpleDiff :: "string \<Rightarrow> string \<Rightarrow> string \<Rightarrow> string" where
  "simpleDiff path old new =
     (if old = new then ''''
      else (let m = length (go_lines old); n = length (go_lines new)
            in if m > 500 \<or> n > 500 then print_lines (diff_header path @ [long_diff_line m n])
               else print_lines (diff_header path @ concat (map hunk_lines (diff_hunks (go_lines old) (go_lines new))))))"

definition diffLineCounts :: "string \<Rightarrow> nat \<times> nat" where
  "diffLineCounts diff =
     (let ls = filter (\<lambda>l. \<not> (has_prefix ''+++'' l \<or> has_prefix ''---'' l)) (go_lines diff)
      in (length (filter (has_prefix ''+'') ls), length (filter (has_prefix ''-'') ls)))"

section \<open>The walk gives a longest common subsequence\<close>

fun lcs :: "string list \<Rightarrow> string list \<Rightarrow> nat \<Rightarrow> nat \<Rightarrow> nat" where
  "lcs xs ys 0 j = 0"
| "lcs xs ys i 0 = 0"
| "lcs xs ys (Suc i) (Suc j) =
     (if xs ! i = ys ! j then lcs xs ys i j + 1 else max (lcs xs ys i (Suc j)) (lcs xs ys (Suc i) j))"

lemma lcs_0 [simp]: "lcs xs ys i 0 = 0"
  by (cases i) auto

lemma lcs_steps:
  "lcs xs ys i j \<le> lcs xs ys (Suc i) j \<and> lcs xs ys (Suc i) j \<le> lcs xs ys i j + 1 \<and>
   lcs xs ys i j \<le> lcs xs ys i (Suc j) \<and> lcs xs ys i (Suc j) \<le> lcs xs ys i j + 1"
proof (induction "i + j" arbitrary: i j rule: less_induct)
  case less
  have a: "lcs xs ys i j \<le> lcs xs ys (Suc i) j \<and> lcs xs ys (Suc i) j \<le> lcs xs ys i j + 1"
  proof (cases j)
    case (Suc j')
    then show ?thesis using less(1) [of i j'] by auto
  qed simp
  have b: "lcs xs ys i j \<le> lcs xs ys i (Suc j) \<and> lcs xs ys i (Suc j) \<le> lcs xs ys i j + 1"
  proof (cases i)
    case (Suc i')
    then show ?thesis using less(1) [of i' j] by auto
  qed simp
  show ?case using a b by blast
qed

lemma dp_cells_nth:
  assumes "\<forall>j \<le> length ys. prev ! j = lcs xs zs i (k + j)" "length prev = length ys + 1"
    and "\<forall>j < length ys. ys ! j = zs ! (k + j)" "left = lcs xs zs (Suc i) k" "x = xs ! i" "j < length ys"
  shows "dp_cells x ys prev left ! j = lcs xs zs (Suc i) (Suc (k + j))"
  using assms
proof (induction x ys prev left arbitrary: k j rule: dp_cells.induct)
  case (1 x y ys diag up prev left)
  have d: "diag = lcs xs zs i k" using 1(2) by (metis Nat.add_0_right le0 nth_Cons_0)
  have u: "up = lcs xs zs i (Suc k)" using 1(2) [THEN spec, of 1] by simp
  have y: "y = zs ! k" using 1(4) by auto
  define c where "c = (if x = y then diag + 1 else if up \<ge> left then up else left)"
  have c: "c = lcs xs zs (Suc i) (Suc k)"
    using 1(5,6) d u y by (auto simp: c_def)
  show ?case
  proof (cases j)
    case 0
    then show ?thesis using c by (simp add: c_def Let_def)
  next
    case (Suc j')
    have "dp_cells x ys (up # prev) c ! j' = lcs xs zs (Suc i) (Suc (Suc k + j'))"
    proof (rule 1(1) [OF c_def, of "Suc k"])
      show "\<forall>j \<le> length ys. (up # prev) ! j = lcs xs zs i (Suc k + j)"
      proof (intro allI impI)
        fix j assume "j \<le> length ys"
        then show "(up # prev) ! j = lcs xs zs i (Suc k + j)" using 1(2) [THEN spec, of "Suc j"] by simp
      qed
      show "length (up # prev) = length ys + 1" using 1(3) by simp
      show "\<forall>j < length ys. ys ! j = zs ! (Suc k + j)" using 1(4) by auto
    qed (use c 1(6,7) Suc in auto)
    then show ?thesis using Suc by (simp add: c_def Let_def)
  qed
qed auto

lemma dp_cells_length: "length prev = length ys + 1 \<Longrightarrow> length (dp_cells x ys prev left) = length ys"
  by (induction x ys prev left rule: dp_cells.induct) (auto simp: Let_def)

lemma dp_row_nth:
  assumes "\<forall>j \<le> length zs. prev ! j = lcs xs zs i j" "length prev = length zs + 1" "x = xs ! i" "j \<le> length zs"
  shows "dp_row x zs prev ! j = lcs xs zs (Suc i) j"
  using dp_cells_nth [of zs prev xs zs i 0 0 x "j - 1"] assms
  by (cases j) (auto simp: dp_row_def)

lemma dp_rows_nth:
  assumes "\<forall>j \<le> length zs. prev ! j = lcs all zs k j" "length prev = length zs + 1"
    and "xs = drop k all" "k \<le> length all" "i \<le> length xs" "j \<le> length zs"
  shows "dp_rows zs xs prev ! i ! j = lcs all zs (k + i) j"
  using assms
proof (induction zs xs prev arbitrary: k i rule: dp_rows.induct)
  case (2 ys x xs prev)
  show ?case
  proof (cases i)
    case 0
    then show ?thesis using 2(2,7) by simp
  next
    case (Suc i')
    have k: "k < length all" "x = all ! k" "xs = drop (Suc k) all"
      using 2(4,5) by (metis Cons_nth_drop_Suc drop_eq_Nil2 leI list.distinct(1) list.inject)+
    have "dp_rows ys xs (dp_row x ys prev) ! i' ! j = lcs all ys (Suc k + i') j"
    proof (rule 2(1))
      show "\<forall>j\<le>length ys. dp_row x ys prev ! j = lcs all ys (Suc k) j"
        using dp_row_nth [OF 2(2) 2(3) k(2)] by blast
      show "length (dp_row x ys prev) = length ys + 1"
        using 2(3) by (simp add: dp_row_def dp_cells_length)
    qed (use k 2 Suc in auto)
    then show ?thesis using Suc by simp
  qed
qed simp

lemma dp_table_nth:
  "i \<le> length xs \<Longrightarrow> j \<le> length ys \<Longrightarrow> dp_table xs ys ! i ! j = lcs xs ys i j"
  using dp_rows_nth [of ys "replicate (length ys + 1) 0" xs 0 xs i j]
  by (simp add: dp_table_def nth_append replicate_app_Cons_same del: replicate.simps)

lemma old_side_append [simp]: "old_side (xs @ ys) = old_side xs @ old_side ys"
  by (simp add: old_side_def)

lemma new_side_append [simp]: "new_side (xs @ ys) = new_side xs @ new_side ys"
  by (simp add: new_side_def)

lemma side_Nil [simp]: "old_side [] = []" "new_side [] = []"
  by (simp_all add: old_side_def new_side_def)

lemma side_single [simp]:
  "old_side [(CHR '' '', l)] = [l]" "new_side [(CHR '' '', l)] = [l]"
  "old_side [(CHR ''+'', l)] = []" "new_side [(CHR ''+'', l)] = [l]"
  "old_side [(CHR ''-'', l)] = [l]" "new_side [(CHR ''-'', l)] = []"
  by (simp_all add: old_side_def new_side_def)

definition kept :: "edit list \<Rightarrow> nat" where
  "kept es = length (filter (\<lambda>e. fst e = CHR '' '') es)"

definition changes :: "edit list \<Rightarrow> nat" where
  "changes es = length (filter (\<lambda>e. fst e \<noteq> CHR '' '') es)"

definition edit_kinds :: "edit list \<Rightarrow> bool" where
  "edit_kinds es \<longleftrightarrow> (\<forall>e \<in> set es. fst e \<in> {CHR '' '', CHR ''+'', CHR ''-''})"

lemma kept_append [simp]: "kept (xs @ ys) = kept xs + kept ys" "kept [] = 0"
    "kept [e] = (if fst e = CHR '' '' then 1 else 0)"
  by (simp_all add: kept_def)

lemma edit_kinds_append [simp]: "edit_kinds (xs @ ys) \<longleftrightarrow> edit_kinds xs \<and> edit_kinds ys" "edit_kinds []"
    "edit_kinds [e] \<longleftrightarrow> fst e \<in> {CHR '' '', CHR ''+'', CHR ''-''}"
  by (auto simp: edit_kinds_def)

lemma changes_kept: "edit_kinds es \<Longrightarrow> changes es + 2 * kept es = length (old_side es) + length (new_side es)"
  by (induction es) (auto simp: edit_kinds_def changes_def kept_def old_side_def new_side_def)

lemma take_Suc_last: "0 < i \<Longrightarrow> i \<le> length xs \<Longrightarrow> take i xs = take (i - 1) xs @ [xs ! (i - 1)]"
  by (metis Suc_diff_1 Suc_le_lessD diff_less less_or_eq_imp_le less_le_trans take_Suc_conv_app_nth zero_less_one)

lemma back_laws:
  assumes "dp = dp_table old new" "i \<le> length old" "j \<le> length new"
  shows "old_side (rev (walk_back dp old new i j)) = take i old \<and>
         new_side (rev (walk_back dp old new i j)) = take j new \<and>
         edit_kinds (rev (walk_back dp old new i j)) \<and>
         kept (rev (walk_back dp old new i j)) = lcs old new i j"
  using assms
proof (induction dp old new i j rule: walk_back.induct)
  case (1 dp old new i j)
  consider "i = 0 \<and> j = 0" | (both) "i > 0" "j > 0" "old ! (i - 1) = new ! (j - 1)"
    | (ins) "\<not> (i > 0 \<and> j > 0 \<and> old ! (i - 1) = new ! (j - 1))"
        "j > 0" "i = 0 \<or> dp ! i ! (j - 1) \<ge> dp ! (i - 1) ! j"
    | (del) "\<not> (i > 0 \<and> j > 0 \<and> old ! (i - 1) = new ! (j - 1))" "i > 0"
        "\<not> (j > 0 \<and> (i = 0 \<or> dp ! i ! (j - 1) \<ge> dp ! (i - 1) ! j))"
    by fastforce
  then show ?case
  proof cases
    case both
    have e: "walk_back dp old new i j = (CHR '' '', old ! (i - 1)) # walk_back dp old new (i - 1) (j - 1)"
      by (subst walk_back.simps) (use both in simp)
    have "lcs old new i j = lcs old new (i - 1) (j - 1) + 1"
      using both by (cases i; cases j) auto
    then show ?thesis
      using 1(1) 1(4-) both take_Suc_last [OF both(1) 1(5)] take_Suc_last [OF both(2) 1(6)]
      unfolding e by simp
  next
    case ins
    have e: "walk_back dp old new i j = (CHR ''+'', new ! (j - 1)) # walk_back dp old new i (j - 1)"
      by (subst walk_back.simps) (use ins in auto)
    have "lcs old new i j = lcs old new i (j - 1)"
      using ins 1(4-) by (cases i; cases j) (auto simp: dp_table_nth)
    then show ?thesis
      using 1(2) 1(4-) ins take_Suc_last [OF ins(2) 1(6)] unfolding e by auto
  next
    case del
    have e: "walk_back dp old new i j = (CHR ''-'', old ! (i - 1)) # walk_back dp old new (i - 1) j"
      by (subst walk_back.simps) (use del in auto)
    have "lcs old new i j = lcs old new (i - 1) j"
      using del 1(4-) by (cases i; cases j) (auto simp: dp_table_nth)
    then show ?thesis
      using 1(3) 1(4-) del take_Suc_last [OF del(2) 1(5)] unfolding e by auto
  qed (subst (1 2 3 4) walk_back.simps, simp)
qed

lemma edit_script_laws:
  "old_side (edit_script old new) = old" "new_side (edit_script old new) = new"
  "edit_kinds (edit_script old new)" "kept (edit_script old new) = lcs old new (length old) (length new)"
  using back_laws [OF refl order_refl order_refl, of old new] by (simp_all add: edit_script_def)

lemma lcs_max:
  assumes "edit_kinds es" "old_side es = take i old" "new_side es = take j new" "i \<le> length old" "j \<le> length new"
  shows "kept es \<le> lcs old new i j"
  using assms
proof (induction es arbitrary: i j rule: rev_induct)
  case (snoc e es)
  obtain c l where e: "e = (c, l)" by (cases e)
  have last: "take n xs = us @ [l] \<Longrightarrow> n \<le> length xs \<Longrightarrow> n > 0 \<and> us = take (n - 1) xs \<and> xs ! (n - 1) = l" for n us xs
    by (cases "n = 0") (auto simp: take_Suc_last)
  consider "c = CHR '' ''" | "c = CHR ''+''" | "c = CHR ''-''"
    using snoc(2) e by auto
  then show ?case
  proof cases
    case 1
    then have "take i old = old_side es @ [l]" "take j new = new_side es @ [l]" using snoc(3,4) e by simp_all
    note i = last [OF this(1) snoc(5)] and j = last [OF this(2) snoc(6)]
    have "kept es \<le> lcs old new (i - 1) (j - 1)"
      using snoc(1) [of "i - 1" "j - 1"] snoc(2,5,6) i j by simp
    then show ?thesis using i j e 1 by (cases i; cases j) auto
  next
    case 2
    then have "take j new = new_side es @ [l]" "old_side es = take i old" using snoc(3,4) e by simp_all
    note j = last [OF this(1) snoc(6)] and o = this(2)
    have "kept es \<le> lcs old new i (j - 1)"
      using snoc(1) [of i "j - 1"] snoc(2,5,6) o j by simp
    then show ?thesis using j e 2 lcs_steps [of old new i "j - 1"] by simp
  next
    case 3
    then have "take i old = old_side es @ [l]" "new_side es = take j new" using snoc(3,4) e by simp_all
    note i = last [OF this(1) snoc(5)] and n = this(2)
    have "kept es \<le> lcs old new (i - 1) j"
      using snoc(1) [of "i - 1" j] snoc(2,5,6) n i by simp
    then show ?thesis using i e 3 lcs_steps [of old new "i - 1" j] by simp
  qed
qed simp

lemma edit_script_minimal:
  assumes "edit_kinds es" "old_side es = old" "new_side es = new"
  shows "changes (edit_script old new) \<le> changes es"
proof -
  have "kept es \<le> kept (edit_script old new)"
    using lcs_max [of es "length old" old "length new" new] assms by (simp add: edit_script_laws)
  then show ?thesis
    using changes_kept [OF assms(1)] changes_kept [OF edit_script_laws(3), of old new] assms
    by (simp add: edit_script_laws)
qed

section \<open>The hunks are a patch\<close>

definition covers :: "(nat \<times> nat) list \<Rightarrow> nat \<Rightarrow> bool" where
  "covers hs p \<longleftrightarrow> (\<exists>h \<in> set hs. fst h \<le> p \<and> p \<le> snd h)"

lemma scan_laws:
  assumes "n = k + length es" "case cs of None \<Rightarrow> True | Some c \<Rightarrow> c < k"
  shows "(\<forall>h \<in> set (scan_hunks n k es cs). (case cs of None \<Rightarrow> k | Some c \<Rightarrow> c) - diff_context \<le> fst h \<and>
            fst h \<le> snd h \<and> snd h < n) \<and>
         sorted (map fst (scan_hunks n k es cs)) \<and>
         (\<forall>p. (case cs of None \<Rightarrow> False | Some c \<Rightarrow> c \<le> p \<and> p < k) \<longrightarrow> covers (scan_hunks n k es cs) p) \<and>
         (\<forall>i < length es. fst (es ! i) \<noteq> CHR '' '' \<longrightarrow> covers (scan_hunks n k es cs) (k + i))"
  using assms
proof (induction n k es cs rule: scan_hunks.induct)
  case (1 len k cs)
  then show ?case by (auto simp: covers_def diff_context_def split: option.splits)
next
  case (2 len k e es cs)
  have nth: "(\<forall>i < length (e # es). fst ((e # es) ! i) \<noteq> CHR '' '' \<longrightarrow> P (k + i)) \<longleftrightarrow>
      (fst e \<noteq> CHR '' '' \<longrightarrow> P k) \<and> (\<forall>i < length es. fst (es ! i) \<noteq> CHR '' '' \<longrightarrow> P (Suc k + i))" for P
    by (auto simp: less_Suc_eq_0_disj)
  consider (chg) "fst e \<noteq> CHR '' ''" | (none) "fst e = CHR '' ''" "cs = None"
    | (close) c where "fst e = CHR '' ''" "cs = Some c" by (cases cs) auto
  then show ?case
  proof cases
    case chg
    define c where "c = (case cs of None \<Rightarrow> k | Some c \<Rightarrow> c)"
    have c: "c \<le> k" "(case cs of None \<Rightarrow> Some k | Some c \<Rightarrow> Some c) = Some c"
      using 2(5) by (auto simp: c_def split: option.splits)
    have e: "scan_hunks len k (e # es) cs = scan_hunks len (Suc k) es (Some c)"
      using chg c(2) by simp
    have IH: "(\<forall>h \<in> set (scan_hunks len (Suc k) es (Some c)). c - diff_context \<le> fst h \<and> fst h \<le> snd h \<and> snd h < len) \<and>
         sorted (map fst (scan_hunks len (Suc k) es (Some c))) \<and>
         (\<forall>p. c \<le> p \<and> p < Suc k \<longrightarrow> covers (scan_hunks len (Suc k) es (Some c)) p) \<and>
         (\<forall>i < length es. fst (es ! i) \<noteq> CHR '' '' \<longrightarrow> covers (scan_hunks len (Suc k) es (Some c)) (Suc k + i))"
      using 2(1) [OF chg] 2(4) c by simp
    have d: "(case cs of None \<Rightarrow> False | Some c \<Rightarrow> c \<le> p \<and> p < k) \<Longrightarrow> c \<le> p \<and> p < Suc k" for p
      by (auto simp: c_def split: option.splits)
    show ?thesis
      unfolding nth e c_def [symmetric] using IH c d by (meson le_less_Suc_eq lessI)
  next
    case none
    have e: "scan_hunks len k (e # es) cs = scan_hunks len (Suc k) es None" using none by simp
    show ?thesis
      unfolding nth e using 2(2) none 2(4) by fastforce
  next
    case close
    let ?r = "scan_hunks len (Suc k) es None"
    let ?h = "(c - diff_context, min (len - 1) (k + diff_context - 1))"
    have e: "scan_hunks len k (e # es) cs = ?h # ?r" using close by simp
    have IH: "(\<forall>h \<in> set ?r. Suc k - diff_context \<le> fst h \<and> fst h \<le> snd h \<and> snd h < len) \<and> sorted (map fst ?r) \<and>
        (\<forall>i < length es. fst (es ! i) \<noteq> CHR '' '' \<longrightarrow> covers ?r (Suc k + i))"
      using 2(3) close 2(4) by simp
    have c: "c < k" using 2(5) close by simp
    have cov: "covers (?h # ?r) p" if "covers ?r p \<or> (c \<le> p \<and> p < k)" for p
      using that c 2(4) by (auto simp: covers_def diff_context_def)
    have len: "len = Suc (k + length es)" using 2(4) by simp
    have h: "fst ?h \<le> snd ?h" "snd ?h < len" using c len by (auto simp: diff_context_def)
    have mono: "c - diff_context \<le> Suc k - diff_context" using c by (simp add: diff_context_def)
    then have low: "\<forall>x \<in> set ?r. c - diff_context \<le> fst x" using IH by (meson le_trans)
    have "\<forall>x \<in> set (?h # ?r). c - diff_context \<le> fst x \<and> fst x \<le> snd x \<and> snd x < len"
      using low h IH by simp
    moreover have "sorted (map fst (?h # ?r))" using low IH by simp
    moreover have "\<forall>p. c \<le> p \<and> p < k \<longrightarrow> covers (?h # ?r) p" using cov by blast
    moreover have "\<forall>i < length es. fst (es ! i) \<noteq> CHR '' '' \<longrightarrow> covers (?h # ?r) (Suc k + i)"
      using cov IH by blast
    ultimately show ?thesis
      unfolding nth e using close by simp
  qed
qed

definition apart :: "(nat \<times> nat) list \<Rightarrow> bool" where
  "apart hs \<longleftrightarrow> sorted_wrt (\<lambda>a b. snd a + 1 < fst b) hs"

lemma merge_hunk_laws:
  assumes "apart ms" "\<forall>m \<in> set ms. fst m \<le> snd m \<and> snd m < n \<and> fst m \<le> fst h" "fst h \<le> snd h" "snd h < n"
  shows "apart (merge_hunk ms h) \<and> (\<forall>m \<in> set (merge_hunk ms h). fst m \<le> snd m \<and> snd m < n \<and> fst m \<le> fst h) \<and>
         (\<forall>p. covers ms p \<or> (fst h \<le> p \<and> p \<le> snd h) \<longrightarrow> covers (merge_hunk ms h) p)"
proof (cases "ms = []")
  case True
  then show ?thesis using assms by (simp add: merge_hunk_def apart_def covers_def)
next
  case False
  then obtain us l where ms: "ms = us @ [l]" by (metis rev_exhaust)
  have u: "snd x + 1 < fst l" if "x \<in> set us" for x
    using assms(1) that by (simp add: ms apart_def sorted_wrt_append)
  have us: "apart us" "\<forall>m \<in> set us. fst m \<le> snd m \<and> snd m < n \<and> fst m \<le> fst h"
    and l: "fst l \<le> snd l" "snd l < n" "fst l \<le> fst h"
    using assms by (auto simp: ms apart_def sorted_wrt_append)
  consider (new) "\<not> fst h \<le> snd l + 1" | (grow) "fst h \<le> snd l + 1" "snd h > snd l"
    | (inside) "fst h \<le> snd l + 1" "\<not> snd h > snd l" by blast
  then show ?thesis
  proof cases
    case new
    then have e: "merge_hunk ms h = us @ [l, h]" by (simp add: merge_hunk_def ms)
    have "snd x + 1 < fst h" if "x \<in> set us" for x using u [OF that] l by simp
    then have "apart (us @ [l, h])" using us(1) u new by (simp add: apart_def sorted_wrt_append)
    then show ?thesis unfolding e using us(2) l assms(3,4) by (auto simp: covers_def ms)
  next
    case grow
    then have e: "merge_hunk ms h = us @ [(fst l, snd h)]" by (simp add: merge_hunk_def ms)
    have "apart (us @ [(fst l, snd h)])" using us(1) u by (simp add: apart_def sorted_wrt_append)
    moreover have "covers (us @ [(fst l, snd h)]) p" if "covers ms p \<or> (fst h \<le> p \<and> p \<le> snd h)" for p
      using that grow l by (auto simp: covers_def ms)
    ultimately show ?thesis unfolding e using us(2) l assms(3,4) by auto
  next
    case inside
    then have e: "merge_hunk ms h = ms" by (simp add: merge_hunk_def ms)
    show ?thesis unfolding e using assms(1,2) inside l by (auto simp: covers_def ms)
  qed
qed

lemma merge_all_laws:
  assumes "sorted (map fst hs)" "\<forall>h \<in> set hs. fst h \<le> snd h \<and> snd h < n"
  shows "apart (foldl merge_hunk [] hs) \<and> (\<forall>m \<in> set (foldl merge_hunk [] hs). fst m \<le> snd m \<and> snd m < n) \<and>
         (hs \<noteq> [] \<longrightarrow> (\<forall>m \<in> set (foldl merge_hunk [] hs). fst m \<le> fst (last hs))) \<and>
         (\<forall>p. covers hs p \<longrightarrow> covers (foldl merge_hunk [] hs) p)"
  using assms
proof (induction hs rule: rev_induct)
  case (snoc h hs)
  have s: "sorted (map fst hs)" "\<forall>x \<in> set hs. fst x \<le> fst h" using snoc(2) by (auto simp: sorted_append)
  let ?ms = "foldl merge_hunk [] hs"
  have IH: "apart ?ms" "\<forall>m \<in> set ?ms. fst m \<le> snd m \<and> snd m < n"
      "hs \<noteq> [] \<longrightarrow> (\<forall>m \<in> set ?ms. fst m \<le> fst (last hs))" "\<forall>p. covers hs p \<longrightarrow> covers ?ms p"
    using snoc(1) [OF s(1)] snoc(3) by auto
  have "\<forall>m \<in> set ?ms. fst m \<le> fst h"
  proof (cases "hs = []")
    case False
    then have "fst (last hs) \<le> fst h" using s(2) by simp
    then show ?thesis using IH(3) False by (meson le_trans)
  qed simp
  then have "apart (merge_hunk ?ms h) \<and> (\<forall>m \<in> set (merge_hunk ?ms h). fst m \<le> snd m \<and> snd m < n \<and> fst m \<le> fst h) \<and>
         (\<forall>p. covers ?ms p \<or> (fst h \<le> p \<and> p \<le> snd h) \<longrightarrow> covers (merge_hunk ?ms h) p)"
    by (intro merge_hunk_laws) (use IH(1,2) snoc(3) in auto)
  moreover have "covers (hs @ [h]) p \<Longrightarrow> covers ?ms p \<or> (fst h \<le> p \<and> p \<le> snd h)" for p
    using IH(4) by (auto simp: covers_def)
  moreover have "foldl merge_hunk [] (hs @ [h]) = merge_hunk ?ms h" "last (hs @ [h]) = h" by simp_all
  ultimately show ?case by (metis (no_types, lifting))
qed (simp add: apart_def covers_def)

lemma merged_laws:
  shows merged_apart: "apart (merged_hunks es)"
    and merged_bounds: "\<forall>m \<in> set (merged_hunks es). fst m \<le> snd m \<and> snd m < length es"
    and merged_covers: "i < length es \<Longrightarrow> fst (es ! i) \<noteq> CHR '' '' \<Longrightarrow> covers (merged_hunks es) i"
proof -
  define hs where "hs = scan_hunks (length es) 0 es None"
  note scan = scan_laws [of "length es" 0 es None, unfolded option.case add_0, OF refl TrueI, folded hs_def]
  have s: "\<forall>h \<in> set hs. fst h \<le> snd h \<and> snd h < length es" "sorted (map fst hs)"
    using scan by blast+
  have c: "\<forall>i < length es. fst (es ! i) \<noteq> CHR '' '' \<longrightarrow> covers hs i"
    by (rule scan [THEN conjunct2, THEN conjunct2, THEN conjunct2])
  note m = merge_all_laws [OF s(2) s(1)]
  show "apart (merged_hunks es)" "\<forall>m \<in> set (merged_hunks es). fst m \<le> snd m \<and> snd m < length es"
    unfolding merged_hunks_def hs_def [symmetric] using m by blast+
  show "i < length es \<Longrightarrow> fst (es ! i) \<noteq> CHR '' '' \<Longrightarrow> covers (merged_hunks es) i"
    unfolding merged_hunks_def hs_def [symmetric] using m c by blast
qed

text \<open>
  Applying a patch: each hunk copies the old lines up to its start, checks that its old side is what
  stands there, with the counts and the new start its header says, and puts its new side.
\<close>

fun apply_hunks :: "string list \<Rightarrow> nat \<Rightarrow> nat \<Rightarrow> hunk list \<Rightarrow> string list option" where
  "apply_hunks old p q [] = Some (drop p old)"
| "apply_hunks old p q (h # hs) =
     (let gap = hk_old_start h - 1 - p; a = p + gap
      in if p + 1 \<le> hk_old_start h \<and> hk_new_start h = q + gap + 1 \<and>
            take (hk_old_count h) (drop a old) = old_side (hk_edits h) \<and>
            hk_old_count h = length (old_side (hk_edits h)) \<and> hk_new_count h = length (new_side (hk_edits h))
         then map_option (\<lambda>r. take gap (drop p old) @ new_side (hk_edits h) @ r)
                (apply_hunks old (a + hk_old_count h) (q + gap + hk_new_count h) hs)
         else None)"

lemma sides_same: "\<forall>e \<in> set es. fst e = CHR '' '' \<Longrightarrow> old_side es = new_side es"
  by (induction es) (auto simp: old_side_def new_side_def)

lemma drop_sides:
  "drop (length (old_side (take k es))) (old_side es) = old_side (drop k es)"
  "drop (length (new_side (take k es))) (new_side es) = new_side (drop k es)"
  by (metis append_eq_conv_conj append_take_drop_id old_side_append, metis append_eq_conv_conj append_take_drop_id new_side_append)

definition regions :: "edit list \<Rightarrow> nat \<Rightarrow> (nat \<times> nat) list \<Rightarrow> bool" where
  "regions es k hs \<longleftrightarrow> apart hs \<and> (\<forall>m \<in> set hs. fst m \<le> snd m \<and> snd m < length es \<and> k \<le> fst m) \<and>
     (\<forall>i < length es. k \<le> i \<longrightarrow> fst (es ! i) \<noteq> CHR '' '' \<longrightarrow> covers hs i)"

lemma regions_merged: "regions es 0 (merged_hunks es)"
  unfolding regions_def using merged_apart merged_bounds merged_covers by blast

lemma regions_Nil:
  assumes "regions es k []"
  shows "\<forall>e \<in> set (drop k es). fst e = CHR '' ''"
proof
  fix x assume "x \<in> set (drop k es)"
  then obtain i where "i < length es - k" "x = es ! (k + i)" by (auto simp: in_set_conv_nth)
  moreover have "k + i < length es" using \<open>i < length es - k\<close> by simp
  ultimately show "fst x = CHR '' ''" using assms by (auto simp: regions_def covers_def)
qed

lemma regions_Cons:
  assumes "regions es k (h # hs)"
  obtains G where "take (fst h) es = take k es @ G" "\<forall>x \<in> set G. fst x = CHR '' ''"
    "take (snd h + 1) es = take (fst h) es @ hk_edits (make_hunk es h)"
    "drop k es = G @ hk_edits (make_hunk es h) @ drop (snd h + 1) es" "regions es (snd h + 1) hs"
proof -
  obtain s e where h: "h = (s, e)" by (cases h)
  have b: "s \<le> e" "e < length es" "k \<le> s" using assms h by (auto simp: regions_def)
  define G where "G = take (s - k) (drop k es)"
  define I where "I = take (e + 1 - s) (drop s es)"
  have I: "hk_edits (make_hunk es h) = I" by (simp add: make_hunk_def h I_def Let_def)
  have tk: "take s es = take k es @ G"
    using b(3) by (simp add: G_def flip: take_add)
  have te: "take (e + 1) es = take s es @ I"
    using b(1) by (simp add: I_def flip: take_add)
  have dk: "drop k es = G @ I @ drop (e + 1) es"
    unfolding G_def I_def using b
    by (metis (no_types, lifting) append_assoc append_take_drop_id drop_drop le_add_diff_inverse2 trans_le_add1 le_SucI Suc_eq_plus1)
  have G: "\<forall>x \<in> set G. fst x = CHR '' ''"
  proof
    fix x assume "x \<in> set G"
    then obtain i where i: "i < s - k" "x = es ! (k + i)"
      using b by (auto simp: G_def in_set_conv_nth)
    then have lt: "k + i < s" by simp
    have "\<not> covers (h # hs) (k + i)"
      using assms lt b by (auto simp: regions_def covers_def apart_def h)
    moreover have "k + i < length es" using lt b by simp
    ultimately show "fst x = CHR '' ''" using assms i(2) unfolding regions_def by (metis le_add1)
  qed
  have "regions es (e + 1) hs"
    unfolding regions_def
  proof (intro conjI allI impI)
    show "apart hs" using assms by (simp add: regions_def apart_def)
    show "\<forall>m \<in> set hs. fst m \<le> snd m \<and> snd m < length es \<and> e + 1 \<le> fst m"
      using assms h by (auto simp: regions_def apart_def)
    fix i assume "i < length es" "e + 1 \<le> i" "fst (es ! i) \<noteq> CHR '' ''"
    then have "covers (h # hs) i" using assms b by (simp add: regions_def)
    then show "covers hs i" using \<open>e + 1 \<le> i\<close> h by (auto simp: covers_def)
  qed
  then show thesis
    using that [of G] tk te dk G unfolding I unfolding h fst_conv snd_conv by blast
qed

lemma apply_laws:
  assumes "regions es k hs" "p = length (old_side (take k es))" "q = length (new_side (take k es))"
  shows "apply_hunks (old_side es) p q (map (make_hunk es) hs) = Some (new_side (drop k es))"
  using assms
proof (induction hs arbitrary: k p q)
  case Nil
  then show ?case using regions_Nil [OF Nil(1)] sides_same by (simp add: drop_sides)
next
  case (Cons h hs)
  define I where "I = hk_edits (make_hunk es h)"
  obtain G where G: "take (fst h) es = take k es @ G" "\<forall>x \<in> set G. fst x = CHR '' ''"
    "take (snd h + 1) es = take (fst h) es @ I" "drop k es = G @ I @ drop (snd h + 1) es" "regions es (snd h + 1) hs"
    using regions_Cons [OF Cons(2)] unfolding I_def by metis
  have g: "new_side G = old_side G" by (rule sides_same [OF G(2), symmetric])
  have gl: "length (old_side (take (fst h) es)) = p + length (old_side G)"
    "length (new_side (take (fst h) es)) = q + length (old_side G)"
    using Cons(3,4) g by (simp_all add: G(1))
  have dp: "drop p (old_side es) = old_side G @ old_side I @ old_side (drop (snd h + 1) es)"
    unfolding Cons(3) drop_sides(1) G(4) by simp
  then have da: "drop (p + length (old_side G)) (old_side es) = old_side I @ old_side (drop (snd h + 1) es)"
    by (metis append_eq_conv_conj drop_drop add.commute)
  have rest: "apply_hunks (old_side es) (p + length (old_side G) + length (old_side I))
      (q + length (old_side G) + length (new_side I)) (map (make_hunk es) hs) = Some (new_side (drop (snd h + 1) es))"
    by (rule Cons(1) [OF G(5)]) (simp_all only: G(3) gl old_side_append new_side_append length_append)
  have mk: "make_hunk es h = \<lparr>hk_old_start = 1 + (p + length (old_side G)), hk_old_count = length (old_side I),
      hk_new_start = 1 + (q + length (old_side G)), hk_new_count = length (new_side I), hk_edits = I\<rparr>"
    by (simp add: I_def make_hunk_def Let_def gl)
  show ?case
    using rest by (simp add: mk Let_def da dp G(4) g)
qed

lemma changed_laws:
  assumes "regions es k hs" "\<forall>e. fst e = CHR '' '' \<longrightarrow> \<not> P e"
  shows "filter P (concat (map (\<lambda>h. hk_edits (make_hunk es h)) hs)) = filter P (drop k es)"
  using assms(1)
proof (induction hs arbitrary: k)
  case Nil
  have "filter P (drop k es) = []" unfolding filter_empty_conv using regions_Nil [OF Nil] assms(2) by blast
  then show ?case by simp
next
  case (Cons h hs)
  obtain G where G: "\<forall>x \<in> set G. fst x = CHR '' ''"
    "drop k es = G @ hk_edits (make_hunk es h) @ drop (snd h + 1) es" "regions es (snd h + 1) hs"
    using regions_Cons [OF Cons(2)] by metis
  have "filter P G = []" unfolding filter_empty_conv using G(1) assms(2) by blast
  then show ?case using Cons(1) [OF G(3)] G(2) by simp
qed

lemma diff_hunks_patch: "apply_hunks old 0 0 (diff_hunks old new) = Some new"
  using apply_laws [OF regions_merged refl refl, of "edit_script old new"]
  by (simp add: diff_hunks_def edit_script_laws Let_def)

lemma diff_hunks_changed:
  "\<forall>e. fst e = CHR '' '' \<longrightarrow> \<not> P e \<Longrightarrow>
     filter P (concat (map hk_edits (diff_hunks old new))) = filter P (edit_script old new)"
  using changed_laws [OF regions_merged, of P "edit_script old new"] by (simp add: diff_hunks_def Let_def comp_def)

lemma go_lines_inj: "join_with line_end (go_lines s) = s"
  by (simp add: go_lines_def line_end_def)

text \<open>
  C31. The diff of two different texts of at most 500 lines is a patch, and a shortest one: its header
  is followed by hunks that, applied to the old text with all line numbers and counts checked, give
  exactly the new text, and no edit script from the old lines to the new ones has fewer added and
  removed lines.
\<close>

theorem diff_is_shortest_patch:
  assumes "old \<noteq> new" "length (go_lines old) \<le> 500" "length (go_lines new) \<le> 500"
  shows "\<exists>hs. simpleDiff path old new = print_lines (diff_header path @ concat (map hunk_lines hs)) \<and>
           map_option (join_with line_end) (apply_hunks (go_lines old) 0 0 hs) = Some new \<and>
           (\<forall>es. edit_kinds es \<and> old_side es = go_lines old \<and> new_side es = go_lines new \<longrightarrow>
              changes (concat (map hk_edits hs)) \<le> changes es)"
proof (intro exI conjI allI impI)
  let ?hs = "diff_hunks (go_lines old) (go_lines new)"
  show "simpleDiff path old new = print_lines (diff_header path @ concat (map hunk_lines ?hs))"
    using assms by (simp add: simpleDiff_def)
  show "map_option (join_with line_end) (apply_hunks (go_lines old) 0 0 ?hs) = Some new"
    by (simp add: diff_hunks_patch go_lines_inj)
  fix es assume "edit_kinds es \<and> old_side es = go_lines old \<and> new_side es = go_lines new"
  then show "changes (concat (map hk_edits ?hs)) \<le> changes es"
    using edit_script_minimal [of es] diff_hunks_changed [of "\<lambda>e. fst e \<noteq> CHR '' ''"] by (simp add: changes_def)
qed

lemma diff_is_shortest_patch_witness:
  "\<exists>hs. simpleDiff ''p'' ''a'' ''b'' = print_lines (diff_header ''p'' @ concat (map hunk_lines hs)) \<and>
     map_option (join_with line_end) (apply_hunks (go_lines ''a'') 0 0 hs) = Some ''b'' \<and>
     (\<forall>es. edit_kinds es \<and> old_side es = go_lines ''a'' \<and> new_side es = go_lines ''b'' \<longrightarrow>
        changes (concat (map hk_edits hs)) \<le> changes es)"
  by (rule diff_is_shortest_patch) (simp_all add: go_lines_def)

lemma go_lines_print:
  "\<forall>l \<in> set ls. CHR 0x0A \<notin> set l \<Longrightarrow> go_lines (print_lines ls) = ls @ ['''']"
proof (induction ls)
  case (Cons l ls)
  then show ?case
    using split_on_append_sep [of "CHR 0x0A" l "print_lines ls"]
    by (simp add: go_lines_def print_lines_def line_end_def)
qed (simp add: go_lines_def print_lines_def)

lemma header_plain: "CHR 0x0A \<notin> set (hunk_header h)"
  using dec_nat_digits by (fastforce simp: hunk_header_def)

lemma edit_script_lines:
  assumes "e \<in> set (edit_script (go_lines old) (go_lines new))"
  shows "CHR 0x0A \<notin> set (snd e)"
proof -
  let ?es = "edit_script (go_lines old) (go_lines new)"
  have "snd e \<in> set (old_side ?es) \<union> set (new_side ?es)"
    using assms by (cases "fst e = CHR ''+''") (auto simp: old_side_def new_side_def)
  then show ?thesis
    unfolding edit_script_laws go_lines_def using split_on_no_sep by auto
qed

lemma hunk_edits_sub: "h \<in> set (diff_hunks old new) \<Longrightarrow> set (hk_edits h) \<subseteq> set (edit_script old new)"
  by (auto simp: diff_hunks_def make_hunk_def Let_def dest!: in_set_takeD in_set_dropD)

lemma filter_hunk_lines:
  assumes "\<not> P (hunk_header h)"
  shows "filter P (hunk_lines h) = map (\<lambda>(kind, line). kind # line) (filter (\<lambda>(kind, line). P (kind # line)) (hk_edits h))"
  using assms by (simp add: hunk_lines_def filter_map comp_def case_prod_unfold)

text \<open>
  Where the counts of a diff are wrong. For a diff that is printed in full, they are the numbers of
  added and of removed lines, except those whose own text begins with two plus signs, or two dashes:
  these lines look like the header of the diff and are not counted. A removed or added front matter
  delimiter is such a line.
\<close>

theorem diff_counts_exact:
  assumes "old \<noteq> new" "length (go_lines old) \<le> 500" "length (go_lines new) \<le> 500" "CHR 0x0A \<notin> set path"
  shows "diffLineCounts (simpleDiff path old new) =
     (length (filter (\<lambda>(k, l). k = CHR ''+'' \<and> \<not> has_prefix ''++'' l) (edit_script (go_lines old) (go_lines new))),
      length (filter (\<lambda>(k, l). k = CHR ''-'' \<and> \<not> has_prefix ''--'' l) (edit_script (go_lines old) (go_lines new))))"
proof -
  let ?hs = "diff_hunks (go_lines old) (go_lines new)"
  let ?es = "edit_script (go_lines old) (go_lines new)"
  have kinds: "fst e \<noteq> CHR 0x0A" if "e \<in> set ?es" for e
    using edit_script_laws(3) [of "go_lines old" "go_lines new"] that by (auto simp: edit_kinds_def)
  have "\<forall>l \<in> set (diff_header path @ concat (map hunk_lines ?hs)). CHR 0x0A \<notin> set l"
    using assms(4) header_plain hunk_edits_sub edit_script_lines kinds
    by (fastforce simp: diff_header_def hunk_lines_def)
  then have lines: "go_lines (simpleDiff path old new) = diff_header path @ concat (map hunk_lines ?hs) @ ['''']"
    using assms go_lines_print [of "diff_header path @ concat (map hunk_lines ?hs)"] by (simp add: simpleDiff_def)
  have count: "length (filter P (go_lines (simpleDiff path old new))) =
      length (filter (\<lambda>(kind, line). P (kind # line)) ?es)"
    if "\<forall>l. P l \<longrightarrow> has_prefix ''+'' l \<and> \<not> has_prefix ''+++'' l \<or> has_prefix ''-'' l \<and> \<not> has_prefix ''---'' l" for P
  proof -
    have "\<not> P (hunk_header h)" for h using that [rule_format, of "hunk_header h"] by (auto simp: hunk_header_def)
    moreover have "filter P (diff_header path) = []" "\<not> P ''''"
      using that by (auto simp: diff_header_def)
    ultimately have "filter P (go_lines (simpleDiff path old new)) =
        map (\<lambda>(kind, line). kind # line) (filter (\<lambda>(kind, line). P (kind # line)) (concat (map hk_edits ?hs)))"
      unfolding lines by (simp add: filter_concat map_concat filter_hunk_lines comp_def)
    moreover have "filter (\<lambda>(kind, line). P (kind # line)) (concat (map hk_edits ?hs)) =
        filter (\<lambda>(kind, line). P (kind # line)) ?es"
      by (rule diff_hunks_changed) (use that in force)
    ultimately show ?thesis by simp
  qed
  let ?head = "\<lambda>l. has_prefix ''+++'' l \<or> has_prefix ''---'' l"
  have plus: "length (filter (\<lambda>l. \<not> ?head l \<and> has_prefix ''+'' l) (go_lines (simpleDiff path old new))) =
      length (filter (\<lambda>(k, l). k = CHR ''+'' \<and> \<not> has_prefix ''++'' l) ?es)"
    by (subst count) (auto intro!: arg_cong [of _ _ length] filter_cong)
  have minus: "length (filter (\<lambda>l. \<not> ?head l \<and> has_prefix ''-'' l) (go_lines (simpleDiff path old new))) =
      length (filter (\<lambda>(k, l). k = CHR ''-'' \<and> \<not> has_prefix ''--'' l) ?es)"
    by (subst count) (auto intro!: arg_cong [of _ _ length] filter_cong)
  show ?thesis
    unfolding diffLineCounts_def Let_def filter_filter plus minus ..
qed

lemma diff_counts_exact_witness:
  "diffLineCounts (simpleDiff ''p'' ''---'' ''a'') = (1, 0)"
  by (subst diff_counts_exact) (simp_all add: go_lines_def, code_simp)

end
