(* ===== verification/Glob.thy ===== *)
theory Glob
  imports Utf8 "HOL-Library.Char_ord" "HOL-Library.List_Lexorder"
begin

text \<open>
  The pattern language of Go's \<open>filepath.Match\<close> and \<open>filepath.Glob\<close>, which the page lookup
  calls: stars, question marks, character classes and escapes, read byte by byte and rune by
  rune as the library does. A malformed pattern is an error. Directories are listed through a function that gives the
  entries of a directory.
\<close>

section \<open>Matching one name\<close>

definition bad_pattern :: string where "bad_pattern = ''syntax error in pattern''"

definition meta_char :: "char \<Rightarrow> bool" where
  "meta_char c \<longleftrightarrow> c = CHR ''*'' \<or> c = CHR ''?'' \<or> c = CHR ''['' \<or> c = CHR 0x5C"

definition hasMeta :: "string \<Rightarrow> bool" where "hasMeta path \<longleftrightarrow> list_ex meta_char path"

text \<open>One character of a class, escaped or not.\<close>

definition get_esc :: "string \<Rightarrow> (nat \<times> string) option" where
  "get_esc chunk =
     (case chunk of
        [] \<Rightarrow> None
      | c # cs \<Rightarrow>
          if c = CHR ''-'' \<or> c = CHR '']'' then None
          else (case (if c = CHR 0x5C then cs else chunk) of
                  [] \<Rightarrow> None
                | d # ds \<Rightarrow>
                    (case decode_rune d ds of (r, n) \<Rightarrow>
                       if bad_rune d ds \<or> drop n (d # ds) = [] then None else Some (r, drop n (d # ds)))))"

lemma get_esc_shorter: "get_esc chunk = Some (r, rest) \<Longrightarrow> length rest < length chunk \<and> rest \<noteq> []"
  using decode_rune_width
  by (auto simp: get_esc_def split: list.splits if_splits prod.splits)

function class_loop :: "nat \<Rightarrow> string \<Rightarrow> bool \<Rightarrow> bool \<Rightarrow> (bool \<times> string) option" where
  "class_loop r [] matched ranges = None"
| "class_loop r (c # cs) matched ranges =
     (if ranges \<and> c = CHR '']'' then Some (matched, cs)
      else (case get_esc (c # cs) of
              None \<Rightarrow> None
            | Some (lo, ch) \<Rightarrow>
                (case (if hd ch = CHR ''-'' then get_esc (tl ch) else Some (lo, ch)) of
                   None \<Rightarrow> None
                 | Some (hi, ch2) \<Rightarrow> class_loop r ch2 (matched \<or> lo \<le> r \<and> r \<le> hi) True)))"
  by pat_completeness auto
termination
  by (relation "measure (\<lambda>(r, chunk, m, g). length chunk)")
    (fastforce dest!: get_esc_shorter [OF sym] get_esc_shorter split: if_splits)+

declare class_loop.simps(2) [simp del]

lemma class_loop_shorter: "class_loop r chunk m g = Some (b, rest) \<Longrightarrow> length rest < length chunk"
proof (induction r chunk m g arbitrary: b rest rule: class_loop.induct)
  case (2 r c cs m g)
  show ?case
  proof (cases "g \<and> c = CHR '']''")
    case True
    then show ?thesis using 2(2) by (simp add: class_loop.simps(2))
  next
    case False
    then obtain lo ch hi ch2 where e: "get_esc (c # cs) = Some (lo, ch)"
        "(if hd ch = CHR ''-'' then get_esc (tl ch) else Some (lo, ch)) = Some (hi, ch2)"
        "class_loop r ch2 (m \<or> lo \<le> r \<and> r \<le> hi) True = Some (b, rest)"
      using 2(2) by (auto simp: class_loop.simps(2) split: option.splits prod.splits)
    have "length rest < length ch2" by (rule 2(1) [OF False e(1) refl e(2) refl e(3)])
    moreover have "length ch2 \<le> length ch"
      using e(2) get_esc_shorter [of "tl ch" hi ch2] by (auto split: if_splits)
    ultimately show ?thesis using get_esc_shorter [OF e(1)] by linarith
  qed
qed simp

text \<open>
  A chunk has no star. The name is gone once the match has failed; the chunk is read to its end nevertheless, to find
  errors in it. The outer option is the error.
\<close>

function match_chunk :: "string \<Rightarrow> string option \<Rightarrow> string option option" where
  "match_chunk [] s = Some s"
| "match_chunk (c # cs) s0 =
     (let s = (if s0 = Some [] then None else s0);
          front = (case s of Some (x # xs) \<Rightarrow> decode_rune x xs | _ \<Rightarrow> (0, 0));
          after = map_option (drop (snd front)) s
      in if c = CHR ''['' then
           (let negated = (cs \<noteq> [] \<and> hd cs = CHR ''^'')
            in case class_loop (fst front) (if negated then tl cs else cs) False False of
                 None \<Rightarrow> None
               | Some (m, rest) \<Rightarrow> match_chunk rest (if m = negated then None else after))
         else if c = CHR ''?'' then
           match_chunk cs (if map_option hd s = Some CHR ''/'' then None else after)
         else if c = CHR 0x5C \<and> cs = [] then None
         else (let d = (if c = CHR 0x5C then hd cs else c); ds = (if c = CHR 0x5C then tl cs else cs)
               in match_chunk ds (if map_option hd s = Some d then map_option tl s else None)))"
  by pat_completeness auto
termination
  by (relation "measure (\<lambda>(chunk, s). length chunk)") (auto dest!: class_loop_shorter [OF sym] class_loop_shorter split: if_splits)

declare match_chunk.simps(2) [simp del]

fun chunk_len :: "bool \<Rightarrow> string \<Rightarrow> nat" where
  "chunk_len inrange [] = 0"
| "chunk_len inrange (c # cs) =
     (if c = CHR 0x5C then (case cs of [] \<Rightarrow> 1 | d # ds \<Rightarrow> 2 + chunk_len inrange ds)
      else if c = CHR ''*'' \<and> \<not> inrange then 0
      else 1 + chunk_len (if c = CHR ''['' then True else if c = CHR '']'' then False else inrange) cs)"

definition scan_chunk :: "string \<Rightarrow> bool \<times> string \<times> string" where
  "scan_chunk pattern =
     (let p = dropWhile (\<lambda>c. c = CHR ''*'') pattern; n = chunk_len False p
      in (pattern \<noteq> [] \<and> hd pattern = CHR ''*'', take n p, drop n p))"

lemma scan_chunk_shorter: "scan_chunk p = (star, chunk, rest) \<Longrightarrow> p \<noteq> [] \<Longrightarrow> length rest < length p"
proof -
  assume s: "scan_chunk p = (star, chunk, rest)" and ne: "p \<noteq> []"
  let ?q = "dropWhile (\<lambda>c. c = CHR ''*'') p"
  have r: "rest = drop (chunk_len False ?q) ?q" using s by (simp add: scan_chunk_def Let_def)
  obtain c cs where p: "p = c # cs" using ne by (cases p) auto
  show ?thesis
  proof (cases "c = CHR ''*''")
    case True
    then have "length ?q \<le> length cs" using p by (simp add: length_dropWhile_le)
    then show ?thesis using r p by simp
  next
    case False
    then have "?q = p" "0 < chunk_len False p" using p by (auto split: list.splits)
    then show ?thesis using r ne by simp
  qed
qed

text \<open>The match after skipping some of the name, at least one byte and no slash.\<close>

fun skip_match :: "string \<Rightarrow> bool \<Rightarrow> string \<Rightarrow> string option option" where
  "skip_match chunk is_last [] = Some None"
| "skip_match chunk is_last (x # xs) =
     (if x = CHR ''/'' then Some None
      else (case match_chunk chunk (Some xs) of
              None \<Rightarrow> None
            | Some (Some t) \<Rightarrow> if is_last \<and> t \<noteq> [] then skip_match chunk is_last xs else Some (Some t)
            | Some None \<Rightarrow> skip_match chunk is_last xs))"

function rest_ok :: "string \<Rightarrow> bool" where
  "rest_ok [] = True"
| "rest_ok (p # ps) =
     (case scan_chunk (p # ps) of (star, chunk, rest) \<Rightarrow> match_chunk chunk (Some []) \<noteq> None \<and> rest_ok rest)"
  by pat_completeness auto
termination
  by (relation "measure length") (auto dest: scan_chunk_shorter [OF sym])

declare rest_ok.simps(2) [simp del]

function Match :: "string \<Rightarrow> string \<Rightarrow> bool go" where
  "Match [] name = Inr (name = [])"
| "Match (p # ps) name =
     (case scan_chunk (p # ps) of (star, chunk, rest) \<Rightarrow>
        if star \<and> chunk = [] then Inr (CHR ''/'' \<notin> set name)
        else (case match_chunk chunk (Some name) of
                None \<Rightarrow> Inl bad_pattern
              | Some here \<Rightarrow>
                  if here \<noteq> None \<and> (here = Some [] \<or> rest \<noteq> []) then Match rest (the here)
                  else (case (if star then skip_match chunk (rest = []) name else Some None) of
                          None \<Rightarrow> Inl bad_pattern
                        | Some (Some t) \<Rightarrow> Match rest t
                        | Some None \<Rightarrow> if rest_ok rest then Inr False else Inl bad_pattern)))"
  by pat_completeness auto
termination
  by (relation "measure (\<lambda>(pattern, name). length pattern)")
    (simp_all only: in_measure case_prod_conv wf_measure, (metis scan_chunk_shorter list.distinct(1))+)

declare Match.simps(2) [simp del]

lemma match_samples:
  "Match ''hell?'' ''hello'' = Inr True" "Match ''[a-c]*.md'' ''b.x.md'' = Inr True" "Match ''[^a]'' ''a'' = Inr False"
  "Match [CHR 0x5C, CHR ''*''] ''*'' = Inr True" "Match ''a*b'' ''a/b'' = Inr False" "Match ''a['' ''b'' = Inl bad_pattern"
  "Match ''*'' ''x/y'' = Inr False" "Match ''x*['' ''b'' = Inl bad_pattern"
  by code_simp+

section \<open>Listing the names that match\<close>

type_synonym dir_lister = "string \<Rightarrow> (string \<times> bool) list option"

definition path_split :: "string \<Rightarrow> string \<times> string" where
  "path_split path = (rev (dropWhile (\<lambda>c. c \<noteq> CHR ''/'') (rev path)), rev (takeWhile (\<lambda>c. c \<noteq> CHR ''/'') (rev path)))"

definition clean_glob_path :: "string \<Rightarrow> string" where
  "clean_glob_path dir = (if dir = '''' then ''.'' else if dir = ''/'' then dir else butlast dir)"

fun matching_names :: "string \<Rightarrow> string \<Rightarrow> string list \<Rightarrow> string list go" where
  "matching_names dir pattern [] = Inr []"
| "matching_names dir pattern (n # ns) =
     (case Match pattern n of
        Inl e \<Rightarrow> Inl e
      | Inr b \<Rightarrow>
          (case matching_names dir pattern ns of
             Inl e \<Rightarrow> Inl e
           | Inr ps \<Rightarrow> Inr (if b then path_join [dir, n] # ps else ps)))"

definition glob_dir :: "dir_lister \<Rightarrow> string \<Rightarrow> string \<Rightarrow> string list go" where
  "glob_dir ls dir pattern =
     (case ls dir of None \<Rightarrow> Inr [] | Some es \<Rightarrow> matching_names dir pattern (sort (map fst es)))"

fun glob_dirs :: "dir_lister \<Rightarrow> string list \<Rightarrow> string \<Rightarrow> string list go" where
  "glob_dirs ls [] pattern = Inr []"
| "glob_dirs ls (d # ds) pattern =
     (case glob_dir ls d pattern of
        Inl e \<Rightarrow> Inl e
      | Inr ps \<Rightarrow> (case glob_dirs ls ds pattern of Inl e \<Rightarrow> Inl e | Inr qs \<Rightarrow> Inr (ps @ qs)))"

lemma clean_glob_shorter:
  assumes "hasMeta pattern" "hasMeta (clean_glob_path (fst (path_split pattern)))"
  shows "length (clean_glob_path (fst (path_split pattern))) < length pattern"
proof -
  let ?d = "fst (path_split pattern)"
  have "length ?d \<le> length pattern" by (simp add: path_split_def) (metis length_dropWhile_le length_rev)
  moreover have "?d \<noteq> ''''" "?d \<noteq> ''/''"
    using assms(2) by (auto simp: clean_glob_path_def hasMeta_def meta_char_def)
  ultimately show ?thesis by (cases ?d) (auto simp: clean_glob_path_def)
qed

text \<open>
  \<open>there\<close> says whether a path without a pattern exists. The partial answers that go with an error are left
  out: no caller looks at them.
\<close>

function Glob_at :: "dir_lister \<Rightarrow> (string \<Rightarrow> bool) \<Rightarrow> nat \<Rightarrow> string \<Rightarrow> string list go" where
  "Glob_at ls there depth pattern =
     (if depth = 10000 then Inl bad_pattern
      else (case Match pattern '''' of
              Inl e \<Rightarrow> Inl e
            | Inr b \<Rightarrow>
                if \<not> hasMeta pattern then Inr (if there pattern then [pattern] else [])
                else if \<not> hasMeta (clean_glob_path (fst (path_split pattern)))
                then glob_dir ls (clean_glob_path (fst (path_split pattern))) (snd (path_split pattern))
                else (case Glob_at ls there (depth + 1) (clean_glob_path (fst (path_split pattern))) of
                        Inl e \<Rightarrow> Inl e
                      | Inr ds \<Rightarrow> glob_dirs ls ds (snd (path_split pattern)))))"
  by pat_completeness auto
termination
  by (relation "measure (\<lambda>(ls, there, depth, pattern). length pattern)") (simp_all add: clean_glob_shorter)

declare Glob_at.simps [simp del]

definition Glob :: "dir_lister \<Rightarrow> (string \<Rightarrow> bool) \<Rightarrow> string \<Rightarrow> string list go" where
  "Glob ls there pattern = Glob_at ls there 0 pattern"

section \<open>Literal texts around one star\<close>

lemma hasMeta_append [simp]: "hasMeta (a @ b) \<longleftrightarrow> hasMeta a \<or> hasMeta b"
  by (simp add: hasMeta_def)

lemma hasMeta_simps [simp]: "\<not> hasMeta []" "hasMeta (c # cs) \<longleftrightarrow> meta_char c \<or> hasMeta cs"
  by (simp_all add: hasMeta_def)

lemma match_literal:
  "\<not> hasMeta c \<Longrightarrow> match_chunk c None = Some None"
  "\<not> hasMeta c \<Longrightarrow> match_chunk c (Some n) = Some (if has_prefix c n then Some (drop (length c) n) else None)"
proof (induction c arbitrary: n)
  case (Cons x c)
  {
    case 1
    then show ?case using Cons by (auto simp: match_chunk.simps(2) meta_char_def Let_def)
  next
    case 2
    then show ?case using Cons by (cases n) (auto simp: match_chunk.simps(2) meta_char_def Let_def)
  }
qed simp_all

lemma literal_chunk:
  "\<not> hasMeta c \<Longrightarrow> chunk_len False c = length c"
  "\<not> hasMeta c \<Longrightarrow> chunk_len False (c @ CHR ''*'' # r) = length c"
  by (induction c) (auto simp: meta_char_def)

lemma no_star: "\<not> hasMeta c \<Longrightarrow> dropWhile (\<lambda>x. x = CHR ''*'') (c @ r) = (if c = [] then dropWhile (\<lambda>x. x = CHR ''*'') r else c @ r)"
  by (cases c) (auto simp: meta_char_def)

lemma scan_literal:
  "\<not> hasMeta c \<Longrightarrow> c \<noteq> [] \<Longrightarrow> scan_chunk (c @ CHR ''*'' # r) = (False, c, CHR ''*'' # r)"
  "\<not> hasMeta c \<Longrightarrow> c \<noteq> [] \<Longrightarrow> scan_chunk c = (False, c, [])"
  "\<not> hasMeta c \<Longrightarrow> c \<noteq> [] \<Longrightarrow> scan_chunk (CHR ''*'' # c) = (True, c, [])"
  using no_star [of c "CHR ''*'' # r"] no_star [of c "[]"] literal_chunk [of c]
  by (cases c; simp add: scan_chunk_def Let_def meta_char_def)+

lemma skip_literal:
  assumes "\<not> hasMeta c"
  shows "\<exists>t. skip_match c True n = Some t \<and> (t = None \<or> t = Some []) \<and>
     (t = Some [] \<longleftrightarrow> (\<exists>m. m \<noteq> [] \<and> n = m @ c \<and> CHR ''/'' \<notin> set m))"
proof (induction n)
  case (Cons x n)
  show ?case
  proof (cases "x = CHR ''/'' \<or> n = c")
    case True
    then show ?thesis using match_literal(2) [OF assms, of n] by (auto simp: has_prefix_iff Cons_eq_append_conv)
  next
    case False
    have "(\<exists>m. m \<noteq> [] \<and> x # n = m @ c \<and> CHR ''/'' \<notin> set m) \<longleftrightarrow> (\<exists>m. m \<noteq> [] \<and> n = m @ c \<and> CHR ''/'' \<notin> set m)"
      using False by (auto simp: Cons_eq_append_conv)
    moreover have "skip_match c True (x # n) = skip_match c True n"
      using False match_literal(2) [OF assms, of n] by (auto simp: has_prefix_iff)
    ultimately show ?thesis using Cons.IH by simp
  qed
qed simp

lemma match_star_literal:
  assumes "\<not> hasMeta post" "post \<noteq> []"
  shows "Match (CHR ''*'' # post) n = Inr (\<exists>m. n = m @ post \<and> CHR ''/'' \<notin> set m)"
proof -
  obtain t where t: "skip_match post True n = Some t" "t = None \<or> t = Some []"
      "t = Some [] \<longleftrightarrow> (\<exists>m. m \<noteq> [] \<and> n = m @ post \<and> CHR ''/'' \<notin> set m)"
    using skip_literal [OF assms(1)] by blast
  have e: "(\<exists>m. n = m @ post \<and> CHR ''/'' \<notin> set m) \<longleftrightarrow> n = post \<or> t = Some []"
    using t(3) by (metis append_Nil empty_iff list.set(1))
  show ?thesis
    using match_literal(2) [OF assms(1), of n] t(1,2) assms(2) unfolding e
    by (auto simp: Match.simps(2) scan_literal(3) [OF assms] has_prefix_iff split: if_splits)
qed

text \<open>The pattern is a literal beginning, a star and a literal end.\<close>

lemma match_one_star:
  assumes pre: "\<not> hasMeta pre" "pre \<noteq> []" and post: "\<not> hasMeta post" "post \<noteq> []"
  shows "Match (pre @ CHR ''*'' # post) n = Inr (\<exists>m. n = pre @ m @ post \<and> CHR ''/'' \<notin> set m)"
proof -
  have ok: "rest_ok (CHR ''*'' # post)"
    using match_literal(2) [OF post(1), of "[]"] by (simp add: rest_ok.simps(2) scan_literal(3) [OF post])
  obtain p ps where p: "pre @ CHR ''*'' # post = p # ps" using pre(2) by (cases pre) auto
  have "Match (p # ps) n = (if has_prefix pre n then Match (CHR ''*'' # post) (drop (length pre) n) else Inr False)"
    using match_literal(2) [OF pre(1), of n] pre(2) ok
    by (simp add: Match.simps(2) scan_literal(1) [OF pre, of post, unfolded p])
  then show ?thesis using match_star_literal [OF post] unfolding p by (auto simp: has_prefix_iff)
qed

lemma matching_names_one_star:
  assumes "\<not> hasMeta pre" "pre \<noteq> []" "\<not> hasMeta post" "post \<noteq> []"
  shows "matching_names dir (pre @ CHR ''*'' # post) ns =
    Inr (map (\<lambda>n. path_join [dir, n]) (filter (\<lambda>n. \<exists>m. n = pre @ m @ post \<and> CHR ''/'' \<notin> set m) ns))"
  by (induction ns) (simp_all add: match_one_star [OF assms])

lemma path_split_file:
  "CHR ''/'' \<notin> set f \<Longrightarrow> path_split (d @ CHR ''/'' # f) = (d @ ''/'', f)"
proof -
  assume f: "CHR ''/'' \<notin> set f"
  then have "takeWhile (\<lambda>c. c \<noteq> CHR ''/'') (rev f @ CHR ''/'' # rev d) = rev f"
    "dropWhile (\<lambda>c. c \<noteq> CHR ''/'') (rev f @ CHR ''/'' # rev d) = CHR ''/'' # rev d"
    by (induction f rule: rev_induct) auto
  then show ?thesis by (simp add: path_split_def)
qed

lemma glob_one_star:
  assumes d: "\<not> hasMeta d" "d \<noteq> ''''" and pre: "\<not> hasMeta pre" "CHR ''/'' \<notin> set pre" "pre \<noteq> []"
    and post: "\<not> hasMeta post" "CHR ''/'' \<notin> set post" "post \<noteq> []"
  shows "Glob ls there (d @ CHR ''/'' # pre @ CHR ''*'' # post) =
    (case ls d of None \<Rightarrow> Inr []
     | Some es \<Rightarrow> Inr (map (\<lambda>n. path_join [d, n])
         (filter (\<lambda>n. \<exists>m. n = pre @ m @ post \<and> CHR ''/'' \<notin> set m) (sort (map fst es)))))"
proof -
  let ?g = "d @ CHR ''/'' # pre @ CHR ''*'' # post" and ?a = "d @ CHR ''/'' # pre"
  have "\<not> hasMeta ?a" "?a \<noteq> []" using d pre by (simp_all add: meta_char_def)
  from match_one_star [OF this post(1,3), of "''''"] have m: "Match ?g '''' = Inr False" by simp
  have s: "path_split ?g = (d @ ''/'', pre @ CHR ''*'' # post)"
    using path_split_file [of "pre @ CHR ''*'' # post" d] pre(2) post(2) by simp
  have c: "clean_glob_path (d @ ''/'') = d" using d(2) by (simp add: clean_glob_path_def)
  have meta: "hasMeta ?g" by (simp add: meta_char_def)
  show ?thesis
    unfolding Glob_def Glob_at.simps [of ls there 0] m s
    using meta d(1) by (simp add: c glob_dir_def matching_names_one_star [OF pre(1,3) post(1,3)] split: option.split)
qed

end
