(* ===== verification/ContentModel.thy ===== *)
theory ContentModel
  imports WriteCommon Glob
begin

text \<open>
  From a slug to its source file (\<open>internal/contentmodel/resolve.go\<close>), from a source path back to the
  key of the page (\<open>source\_key.go\<close>), and the names of throw-away test pages (\<open>test\_content.go\<close>).
  A view gives the entries of a directory and the paths that are files; links are followed, as
  \<open>os.Stat\<close> does. The slug goes into the patterns of \<open>filepath.Glob\<close> (theory \<open>Glob\<close>) as it is.
\<close>

section \<open>Resolution\<close>

record resolved_source =
  rs_slug :: string
  rs_lang :: string
  rs_path :: string
  rs_section :: bool

record content_view =
  cv_ls :: "string \<Rightarrow> (string \<times> bool) list option"
  cv_file :: "string \<Rightarrow> bool"

record candidate =
  cd_path :: string
  cd_lang :: string
  cd_section :: bool

definition normalizeSlug :: "string \<Rightarrow> string" where
  "normalizeSlug slug0 =
     (let slug = trim_char CHR ''/'' (trim_space slug0); cleaned = path_clean slug
      in if slug = '''' then ''''
         else if cleaned = ''.'' \<or> cleaned = ''..'' \<or> has_prefix ''../'' cleaned then ''''
         else if list_ex (\<lambda>part. part = '''' \<or> part = ''.'' \<or> part = ''..'') (split_on CHR ''/'' cleaned) then ''''
         else cleaned)"

definition extractLang :: "string \<Rightarrow> string" where
  "extractLang path =
     (let base = path_base path; parts = split_on CHR ''.'' base
      in if has_prefix ''index.'' base \<and> has_suffix ''.md'' base
         then trim_suffix ''.md'' (trim_prefix ''index.'' base)
         else if 3 \<le> length parts \<and> has_suffix ''.md'' base then parts ! (length parts - 2)
         else '''')"

definition sorted_glob :: "content_view \<Rightarrow> string \<Rightarrow> string list" where
  "sorted_glob V pattern =
     (case Glob (cv_ls V) (\<lambda>p. cv_file V p \<or> cv_ls V p \<noteq> None) pattern of Inl e \<Rightarrow> [] | Inr matches \<Rightarrow> sort matches)"

fun keep_new :: "content_view \<Rightarrow> candidate list \<Rightarrow> string list \<Rightarrow> candidate list" where
  "keep_new V [] seen = []"
| "keep_new V (c # cs) seen =
     (if \<not> cv_file V (cd_path c) \<or> cd_path c \<in> set seen then keep_new V cs seen
      else c # keep_new V cs (cd_path c # seen))"

definition lang_globs :: "string \<Rightarrow> string \<Rightarrow> string list" where
  "lang_globs slug root =
     [path_join [root, slug, ''_index.*.md''], path_join [root, slug @ ''.*.md''],
      path_join [root, slug, ''index.*.md'']]"

definition collectCandidates :: "content_view \<Rightarrow> string \<Rightarrow> string \<Rightarrow> candidate list" where
  "collectCandidates V slug root =
     keep_new V
       ([\<lparr>cd_path = path_join [root, slug, ''_index.md''], cd_lang = '''', cd_section = True\<rparr>,
         \<lparr>cd_path = path_join [root, slug @ ''.md''], cd_lang = '''', cd_section = False\<rparr>,
         \<lparr>cd_path = path_join [root, slug, ''index.md''], cd_lang = '''', cd_section = False\<rparr>] @
        map (\<lambda>p. \<lparr>cd_path = p, cd_lang = extractLang p, cd_section = has_prefix ''_index.'' (path_base p)\<rparr>)
          (filter (\<lambda>p. \<not> has_suffix ''index.md'' p) (concat (map (sorted_glob V) (lang_globs slug root)))))
       []"

definition uniqueNonEmptyLangs :: "candidate list \<Rightarrow> string list" where
  "uniqueNonEmptyLangs cs = sort (remdups (filter (\<lambda>l. l \<noteq> '''') (map cd_lang cs)))"

definition ambiguous_text :: "candidate list \<Rightarrow> string" where
  "ambiguous_text cs =
     (let langs = uniqueNonEmptyLangs cs
      in ''ambiguous_language: page has multiple language files; specify lang (available: '' @
         join_with '', '' (if langs = [] then [''default''] else langs) @ '')'')"

definition ResolvePageSource :: "content_view \<Rightarrow> string \<Rightarrow> string \<Rightarrow> string \<Rightarrow> resolved_source go" where
  "ResolvePageSource V rawSlug lang0 root =
     (let rootSection = (\<not> blank rawSlug \<and> trim_char CHR ''/'' rawSlug = '''');
          slug = normalizeSlug rawSlug; lang = trim_space lang0;
          found = (\<lambda>c. \<lparr>rs_slug = slug, rs_lang = cd_lang c, rs_path = cd_path c, rs_section = cd_section c\<rparr>)
      in if blank rawSlug then Inl ''slug_not_found: slug must not be empty''
         else if slug = '''' \<and> \<not> rootSection then Inl ''invalid_slug: slug must stay under the content root''
         else if lang \<noteq> '''' then
           (case find (\<lambda>c. cv_file V (cd_path c))
               [\<lparr>cd_path = path_join [root, slug, ''_index.'' @ lang @ ''.md''], cd_lang = lang, cd_section = True\<rparr>,
                \<lparr>cd_path = path_join [root, slug, ''index.'' @ lang @ ''.md''], cd_lang = lang, cd_section = False\<rparr>,
                \<lparr>cd_path = path_join [root, slug @ ''.'' @ lang @ ''.md''], cd_lang = lang, cd_section = False\<rparr>] of
              Some c \<Rightarrow> Inr (found c)
            | None \<Rightarrow> Inl ''source_file_not_found: no source file found for slug and lang'')
         else (case collectCandidates V slug root of
                 [] \<Rightarrow> Inl ''source_file_not_found: no source file found for slug''
               | [c] \<Rightarrow> Inr (found c)
               | cs \<Rightarrow> Inl (ambiguous_text cs)))"

definition resolveExistingSource :: "content_view \<Rightarrow> string \<Rightarrow> string \<Rightarrow> string \<Rightarrow> resolved_source go" where
  "resolveExistingSource V root slug lang =
     (case ResolvePageSource V slug lang root of
        Inl e \<Rightarrow> if has_prefix ''source_file_not_found:'' e then Inl ''not_found: page not found'' else Inl e
      | Inr r \<Rightarrow> Inr r)"

section \<open>Source keys and test pages\<close>

definition SourceKeyFromLogicalPath :: "string \<Rightarrow> string" where
  "SourceKeyFromLogicalPath logicalPath =
     (let p = trim_prefix ''/'' (trim_prefix ''content/'' (trim_space logicalPath));
          base = path_base p; dir = path_dir p; key = (if dir = ''.'' then '''' else dir)
      in if p = '''' then ''''
         else if base = ''index.md'' then key
         else if has_prefix ''index.'' base \<and> has_suffix ''.md'' base then key
         else if base = ''_index.md'' then key
         else if has_prefix ''_index.'' base \<and> has_suffix ''.md'' base then key
         else if has_suffix ''.md'' base then trim_prefix ''./'' (trim_suffix ''.md'' p)
         else trim_prefix ''./'' p)"

definition ReservedTestSlugPrefixes :: "string list" where
  "ReservedTestSlugPrefixes = [''mcp-audit-'', ''test-audit-'', ''codex-'']"

definition IsReservedTestSlug :: "string \<Rightarrow> bool" where
  "IsReservedTestSlug slug \<longleftrightarrow>
     list_ex (\<lambda>p. has_prefix p (to_lower (last (split_on CHR ''/'' slug)))) ReservedTestSlugPrefixes"

lemma source_key_language_leaf:
  "SourceKeyFromLogicalPath ''content/posts/hello.md'' = ''posts/hello''"
  "SourceKeyFromLogicalPath ''content/posts/hello/index.fr.md'' = ''posts/hello''"
  "SourceKeyFromLogicalPath ''content/posts/hello.fr.md'' = ''posts/hello.fr''"
  by code_simp+

section \<open>The language files of a directory\<close>

definition language_name :: "string \<Rightarrow> bool" where
  "language_name n \<longleftrightarrow> n = ''index.md'' \<or> (\<exists>m. n = ''index.'' @ m @ ''.md'')"

text \<open>Every language file that the directory is known to hold is one of the given paths; of a directory that
cannot be listed nothing is known.\<close>

definition none_beside :: "(string \<Rightarrow> (string \<times> bool) list option) \<Rightarrow> string \<Rightarrow> string set \<Rightarrow> bool" where
  "none_beside ls dir ps \<longleftrightarrow>
     (case ls dir of
        None \<Rightarrow> True
      | Some es \<Rightarrow> \<forall>n. (n, False) \<in> set es \<and> language_name n \<longrightarrow> path_join [dir, n] \<in> ps)"

lemma language_name_code: "is_lang_file n \<longleftrightarrow> language_name n"
proof
  assume "is_lang_file n"
  then have "n = ''index.md'' \<or> (\<exists>u v. n = ''index.'' @ u \<and> n = v @ ''.md'')"
    unfolding is_lang_file_def has_prefix_iff has_suffix_iff by blast
  then consider "n = ''index.md''" | u v where "n = ''index.'' @ u" "n = v @ ''.md''" by blast
  then show "language_name n"
  proof cases
    case 2
    then have "''index.'' @ u = v @ ''.md''" by simp
    then consider us where "v = ''index.'' @ us" | us where "''index.'' = v @ us" "us @ u = ''.md''"
      unfolding append_eq_append_conv2 by metis
    then show ?thesis
    proof cases
      case 1
      then show ?thesis using 2(2) by (auto simp: language_name_def)
    next
      case (2 us)
      then have "us = [] \<and> u = ''.md'' \<or> us = ''.'' \<and> u = ''md''" by (auto simp: Cons_eq_append_conv append_eq_Cons_conv)
      then show ?thesis using \<open>n = ''index.'' @ u\<close> by (auto simp: language_name_def)
    qed
  qed (simp add: language_name_def)
qed (auto simp: language_name_def is_lang_file_def has_prefix_iff has_suffix_iff)

lemma none_beside_code:
  "bundleHasUnselectedLangFiles ls dir ps \<longleftrightarrow> \<not> none_beside ls dir (set ps)"
  by (auto simp: bundleHasUnselectedLangFiles_def none_beside_def lang_files_def list_ex_iff language_name_code split: option.splits)

section \<open>A slug names one file below the root\<close>

lemma path_below:
  assumes root: "clean_root root" and ss: "list_all plain_seg ss" "ss \<noteq> []"
  shows "path_join [root, join_with ''/'' ss] = below root ss"
proof -
  have r: "root \<noteq> ''''" "is_abs root" using root by (auto simp: clean_root_def is_abs_def)
  have R: "clean_segs root \<noteq> []" "root = ''/'' @ join_with ''/'' (clean_segs root)"
    using clean_root_segs [OF r(2)] root by (auto simp: clean_root_def)
  have split: "split_on CHR ''/'' (join_with ''/'' ss) = ss"
    using ss split_join [of ss "CHR ''/''"] by (auto simp: list_all_iff plain_seg_def)
  have segs: "clean_segs (root @ ''/'' @ join_with ''/'' ss) = clean_segs root @ ss"
    using clean_segs_below [OF r(1), of "join_with ''/'' ss"] ss by (simp add: split list_all_iff)
  have "join_with ''/'' ss \<noteq> ''''"
    using ss by (cases ss rule: rev_cases) (auto simp: join_snoc plain_seg_def)
  then have "path_join [root, join_with ''/'' ss] = path_clean (root @ ''/'' @ join_with ''/'' ss)"
    using r by (simp add: path_join_def)
  also have "\<dots> = ''/'' @ join_with ''/'' (clean_segs root @ ss)"
    using segs r by (simp add: path_clean_def is_abs_def Let_def)
  also have "\<dots> = root @ ''/'' @ join_with ''/'' ss"
    using join_append [OF R(1) ss(2), of "''/''"] R(2) by simp
  finally show ?thesis using ss(2) by (cases ss) simp_all
qed

lemma below_snoc: "below root (ss @ [n]) = below root ss @ ''/'' @ n"
  by (cases ss) (simp_all add: join_snoc [of "''/''" "_ # _", simplified])

lemma base_below: "plain_seg n \<Longrightarrow> path_base (a @ ''/'' @ n) = n"
proof -
  assume n: "plain_seg n"
  then have "n \<noteq> []" "last n \<noteq> CHR ''/''" unfolding plain_seg_def by (blast, metis last_in_set)
  then have "strip_slashes (a @ ''/'' @ n) = a @ ''/'' @ n"
    by (cases n rule: rev_cases) (simp_all add: strip_slashes_def)
  then show ?thesis
    using n split_on_append_sep [of "CHR ''/''" a n] by (simp add: path_base_def plain_seg_def)
qed

lemma dir_below:
  assumes "clean_root root" "list_all plain_seg ss" "plain_seg n"
  shows "path_dir (below root (ss @ [n])) = below root ss"
proof -
  have n: "CHR ''/'' \<notin> set n" using assms(3) by (simp add: plain_seg_def)
  have "dropWhile (\<lambda>c. c \<noteq> CHR ''/'') (rev n @ CHR ''/'' # rev (below root ss)) = CHR ''/'' # rev (below root ss)"
    by (subst dropWhile_append2) (use n in auto)
  then have d: "path_dir (below root (ss @ [n])) = path_clean (below root ss @ ''/'')"
    by (simp add: path_dir_def below_snoc)
  have b: "below root ss \<noteq> ''''" "is_abs (below root ss)" by (rule below_abs [OF assms(1)])+
  have r: "root \<noteq> ''''" "is_abs root" "clean_segs root \<noteq> []" "root = ''/'' @ join_with ''/'' (clean_segs root)"
    using assms(1) clean_root_segs [of root] by (auto simp: clean_root_def is_abs_def)
  have "clean_segs (below root ss) = clean_segs root @ ss"
  proof (cases ss)
    case (Cons s ss')
    have "split_on CHR ''/'' (join_with ''/'' ss) = ss"
      using assms(2) Cons split_join [of ss "CHR ''/''"] by (auto simp: list_all_iff plain_seg_def)
    then show ?thesis
      using clean_segs_below [OF r(1), of "join_with ''/'' ss"] assms(2) Cons by (simp add: list_all_iff)
  qed simp
  then have "clean_segs (below root ss @ ''/'') = clean_segs root @ ss"
    using clean_segs_below [OF b(1), of "''''"] by (simp add: plain_seg_def)
  then have "path_clean (below root ss @ ''/'') = ''/'' @ join_with ''/'' (clean_segs root @ ss)"
    using b by (simp add: path_clean_def is_abs_def Let_def)
  also have "\<dots> = below root ss"
    using r join_append [OF r(3), of ss "''/''"] by (cases ss) auto
  finally show ?thesis using d by simp
qed

lemma below_join:
  assumes "clean_root root" "list_all plain_seg ss" "plain_seg n"
  shows "path_join [below root ss, n] = below root (ss @ [n])"
proof (cases "ss = []")
  case True
  then show ?thesis using path_below [OF assms(1), of "[n]"] assms(3) by simp
next
  case False
  have n: "n \<noteq> ''''" using assms(3) by (simp add: plain_seg_def)
  have "path_join [below root ss, n] = path_clean (root @ ''/'' @ join_with ''/'' ss @ ''/'' @ n)"
    using False n below_abs(1) [OF assms(1), of ss] by (cases ss) (simp_all add: path_join_def)
  also have "\<dots> = path_join [root, join_with ''/'' (ss @ [n])]"
    using assms(1) n False by (simp add: path_join_def join_snoc clean_root_def is_abs_def)
  also have "\<dots> = below root (ss @ [n])"
    by (rule path_below) (use assms in simp_all)
  finally show ?thesis .
qed

definition slug_segs :: "string \<Rightarrow> string list" where
  "slug_segs slug = (if slug = '''' then [] else split_on CHR ''/'' slug)"

definition leaf_base :: "string list \<Rightarrow> string" where
  "leaf_base segs = (if segs = [] then '''' else last segs)"

lemma normalizeSlug_segs:
  "list_all plain_seg (slug_segs (normalizeSlug slug))" "join_with ''/'' (slug_segs (normalizeSlug slug)) = normalizeSlug slug"
proof -
  have "\<forall>s \<in> set (split_on CHR ''/'' x). CHR ''/'' \<notin> set s" for x using split_on_no_sep by blast
  then show "list_all plain_seg (slug_segs (normalizeSlug slug))"
    by (auto simp: normalizeSlug_def slug_segs_def Let_def list_all_iff list_ex_iff plain_seg_def)
  show "join_with ''/'' (slug_segs (normalizeSlug slug)) = normalizeSlug slug"
    by (simp add: slug_segs_def)
qed

lemma candidate_paths:
  assumes root: "clean_root root" and segs: "list_all plain_seg segs" "slug = join_with ''/'' segs"
  shows "plain_seg n \<Longrightarrow> path_join [root, slug, n] = below root (segs @ [n])"
    and "plain_seg (leaf_base segs @ x) \<Longrightarrow> path_join [root, slug @ x] = below root (butlast segs @ [leaf_base segs @ x])"
proof -
  have r: "root \<noteq> ''''" using root by (auto simp: clean_root_def is_abs_def)
  have ne: "segs \<noteq> [] \<Longrightarrow> slug \<noteq> ''''"
    using segs by (cases segs rule: rev_cases) (auto simp: join_snoc plain_seg_def)
  show "path_join [root, slug, n] = below root (segs @ [n])" if n: "plain_seg n"
  proof (cases "segs = []")
    case True
    then have "path_join [root, slug, n] = path_join [root, n]" using segs(2) by (simp add: path_join_def)
    then show ?thesis using path_below [OF root, of "[n]"] n True by simp
  next
    case False
    have "n \<noteq> ''''" using n by (simp add: plain_seg_def)
    then have "path_join [root, slug, n] = path_join [root, join_with ''/'' (segs @ [n])]"
      using False ne [OF False] segs(2) r by (simp add: path_join_def join_snoc)
    then show ?thesis using path_below [OF root, of "segs @ [n]"] segs(1) n by simp
  qed
  show "path_join [root, slug @ x] = below root (butlast segs @ [leaf_base segs @ x])" if n: "plain_seg (leaf_base segs @ x)"
  proof (cases segs rule: rev_cases)
    case Nil
    then show ?thesis using path_below [OF root, of "[x]"] n segs(2) by (simp add: leaf_base_def)
  next
    case (snoc ss s)
    have "slug @ x = join_with ''/'' (ss @ [s @ x])"
      using segs(2) snoc by (simp add: join_snoc)
    then show ?thesis
      using path_below [OF root, of "ss @ [s @ x]"] segs(1) n snoc by (simp add: leaf_base_def)
  qed
qed

lemma keep_new_paths: "cd_path ` set (keep_new V cs seen) = {p \<in> cd_path ` set cs. cv_file V p \<and> p \<notin> set seen}"
  by (induction V cs seen rule: keep_new.induct) auto

lemma keep_new_sub: "c \<in> set (keep_new V cs seen) \<Longrightarrow> c \<in> set cs \<and> cv_file V (cd_path c)"
  by (induction V cs seen rule: keep_new.induct) (auto split: if_splits)

definition plain_view :: "content_view \<Rightarrow> bool" where
  "plain_view V \<longleftrightarrow> (\<forall>d es e. cv_ls V d = Some es \<and> e \<in> set es \<longrightarrow> plain_seg (fst e)) \<and>
     (\<forall>d n. plain_seg n \<and> cv_file V (path_join [d, n]) \<longrightarrow> (\<exists>es. cv_ls V d = Some es \<and> n \<in> fst ` set es))"

lemma meta_below: "\<not> hasMeta root \<Longrightarrow> list_all (\<lambda>s. \<not> hasMeta s) ss \<Longrightarrow> \<not> hasMeta (below root ss)"
proof (induction ss rule: rev_induct)
  case (snoc s ss)
  then show ?case by (simp add: below_snoc meta_char_def)
qed simp

lemma glob_below:
  assumes root: "clean_root root" "\<not> hasMeta root" and ss: "list_all plain_seg ss" "list_all (\<lambda>s. \<not> hasMeta s) ss"
    and pre: "\<not> hasMeta pre" "CHR ''/'' \<notin> set pre" "pre \<noteq> ''''"
  shows "p \<in> set (sorted_glob V (below root (ss @ [pre @ ''*.md'']))) \<longleftrightarrow>
    (\<exists>es n m. cv_ls V (below root ss) = Some es \<and> n \<in> fst ` set es \<and> n = pre @ m @ ''.md'' \<and> CHR ''/'' \<notin> set m \<and>
       p = path_join [below root ss, n])"
proof -
  have b: "below root ss \<noteq> ''''" by (rule below_abs(1) [OF root(1)])
  have md: "\<not> hasMeta ''.md''" "CHR ''/'' \<notin> set ''.md''" "''.md'' \<noteq> ''''" by (simp_all add: meta_char_def)
  have g: "below root (ss @ [pre @ ''*.md'']) = below root ss @ CHR ''/'' # pre @ CHR ''*'' # ''.md''"
    by (simp add: below_snoc)
  show ?thesis
    unfolding sorted_glob_def g glob_one_star [OF meta_below [OF root(2) ss(2)] b pre md]
    by (cases "cv_ls V (below root ss)") (auto simp: image_iff)
qed

lemma glob_below_some:
  assumes root: "clean_root root" "\<not> hasMeta root" and ss: "list_all plain_seg ss" "list_all (\<lambda>s. \<not> hasMeta s) ss"
    and V: "plain_view V" and pre: "\<not> hasMeta pre" "CHR ''/'' \<notin> set pre" "pre \<noteq> ''''"
    and p: "p \<in> set (sorted_glob V (below root (ss @ [pre @ ''*.md''])))"
  shows "\<exists>m. p = below root (ss @ [pre @ m @ ''.md''])"
proof -
  obtain es n m where n: "cv_ls V (below root ss) = Some es" "n \<in> fst ` set es" "n = pre @ m @ ''.md''"
      "p = path_join [below root ss, n]" using glob_below [OF root ss pre] p by blast
  have "plain_seg n" using V n(1,2) unfolding plain_view_def by blast
  then show ?thesis using n(3,4) below_join [OF root(1) ss(1)] by metis
qed

lemma glob_below_all:
  assumes root: "clean_root root" "\<not> hasMeta root" and ss: "list_all plain_seg ss" "list_all (\<lambda>s. \<not> hasMeta s) ss"
    and V: "plain_view V" and pre: "\<not> hasMeta pre" "CHR ''/'' \<notin> set pre" "pre \<noteq> ''''"
    and n: "n = pre @ m @ ''.md''" "plain_seg n" "cv_file V (below root (ss @ [n]))"
  shows "below root (ss @ [n]) \<in> set (sorted_glob V (below root (ss @ [pre @ ''*.md''])))"
proof -
  have j: "path_join [below root ss, n] = below root (ss @ [n])" by (rule below_join [OF root(1) ss(1) n(2)])
  then obtain es where es: "cv_ls V (below root ss) = Some es" "n \<in> fst ` set es"
    using V n(2,3) unfolding plain_view_def by metis
  have "CHR ''/'' \<notin> set m" using n(1,2) by (simp add: plain_seg_def)
  then show ?thesis using es n(1) j unfolding glob_below [OF root ss pre] by metis
qed

definition base_file :: "string \<Rightarrow> string list \<Rightarrow> string \<Rightarrow> bool" where
  "base_file root segs p \<longleftrightarrow>
     p = below root (segs @ [''_index.md'']) \<or> p = below root (segs @ [''index.md'']) \<or>
     p = below root (butlast segs @ [leaf_base segs @ ''.md''])"

definition lang_file :: "string \<Rightarrow> string list \<Rightarrow> string \<Rightarrow> string \<Rightarrow> bool" where
  "lang_file root segs m p \<longleftrightarrow>
     p = below root (segs @ [''_index.'' @ m @ ''.md'']) \<or> p = below root (segs @ [''index.'' @ m @ ''.md'']) \<or>
     p = below root (butlast segs @ [leaf_base segs @ ''.'' @ m @ ''.md''])"

lemma plain_names:
  assumes "CHR ''/'' \<notin> set m"
  shows "plain_seg (''_index.'' @ m @ ''.md'')" "plain_seg (''index.'' @ m @ ''.md'')"
    "plain_seg ''_index.md''" "plain_seg ''index.md''" "plain_seg ''_index.*.md''" "plain_seg ''index.*.md''"
  using assms by (simp_all add: plain_seg_def)

lemma plain_leaf:
  assumes "list_all plain_seg segs" "CHR ''/'' \<notin> set x" "3 \<le> length x"
  shows "plain_seg (leaf_base segs @ x)"
proof -
  have "CHR ''/'' \<notin> set (leaf_base segs)"
    using assms(1) by (cases segs rule: rev_cases) (auto simp: leaf_base_def plain_seg_def)
  moreover have long: "leaf_base segs @ x \<noteq> y" if "length y < 3" for y using that assms(3) by auto
  have "leaf_base segs @ x \<noteq> ''''" "leaf_base segs @ x \<noteq> ''.''" "leaf_base segs @ x \<noteq> ''..''"
    by (rule long, simp)+
  ultimately show ?thesis using assms(2) by (simp only: plain_seg_def set_append Un_iff) blast
qed

lemma leaf_base_chars:
  assumes "list_all plain_seg segs"
  shows "CHR ''/'' \<notin> set (leaf_base segs)" "set (leaf_base segs) \<subseteq> set (join_with ''/'' segs)"
proof -
  have "CHR ''/'' \<notin> set (leaf_base segs) \<and> set (leaf_base segs) \<subseteq> set (join_with ''/'' segs)"
  proof (cases segs rule: rev_cases)
    case (snoc ss s)
    then show ?thesis using assms by (simp add: leaf_base_def join_snoc plain_seg_def) blast
  qed (simp add: leaf_base_def)
  then show "CHR ''/'' \<notin> set (leaf_base segs)" "set (leaf_base segs) \<subseteq> set (join_with ''/'' segs)" by blast+
qed

text \<open>The candidates of a lookup without a language: the files of the slug that exist.\<close>

lemma collect_paths:
  assumes root: "clean_root root" "\<not> hasMeta root" and segs: "list_all plain_seg segs" "slug = join_with ''/'' segs"
    and V: "plain_view V" and meta: "\<not> hasMeta slug"
  shows "\<forall>c \<in> set (collectCandidates V slug root). cv_file V (cd_path c) \<and>
            (base_file root segs (cd_path c) \<or> (\<exists>m. lang_file root segs m (cd_path c)))"
    and "cv_file V p \<Longrightarrow> base_file root segs p \<or>
           (\<not> has_suffix ''index.md'' p \<and> (\<exists>m. CHR ''/'' \<notin> set m \<and> lang_file root segs m p)) \<Longrightarrow>
           p \<in> cd_path ` set (collectCandidates V slug root)"
proof -
  note C = candidate_paths [OF root(1) segs]
  have bs: "list_all plain_seg (butlast segs)" using segs(1) by (simp add: list_all_iff in_set_butlastD)
  have join: "s \<in> set ss \<Longrightarrow> set s \<subseteq> set (join_with sep ss)" for s sep ss
    by (induction sep ss rule: join_with.induct) auto
  have sub: "s \<in> set segs \<Longrightarrow> set s \<subseteq> set slug" for s using join segs(2) by blast
  have ms: "list_all (\<lambda>s. \<not> hasMeta s) segs" "list_all (\<lambda>s. \<not> hasMeta s) (butlast segs)"
    using sub meta by (fastforce simp: list_all_iff hasMeta_def list_ex_iff dest: in_set_butlastD)+
  have lb: "\<not> hasMeta (leaf_base segs)" "CHR ''/'' \<notin> set (leaf_base segs)"
    using leaf_base_chars [OF segs(1)] meta segs(2) by (auto simp: hasMeta_def list_ex_iff)
  have ix: "\<not> hasMeta ''_index.''" "CHR ''/'' \<notin> set ''_index.''" "''_index.'' \<noteq> ''''"
    "\<not> hasMeta ''index.''" "CHR ''/'' \<notin> set ''index.''" "''index.'' \<noteq> ''''" by (simp_all add: meta_char_def)
  have lf: "\<not> hasMeta (leaf_base segs @ ''.'')" "CHR ''/'' \<notin> set (leaf_base segs @ ''.'')" "leaf_base segs @ ''.'' \<noteq> ''''"
    using lb by (simp_all add: meta_char_def)
  have base: "path_join [root, slug, ''_index.md''] = below root (segs @ [''_index.md''])"
      "path_join [root, slug @ ''.md''] = below root (butlast segs @ [leaf_base segs @ ''.md''])"
      "path_join [root, slug, ''index.md''] = below root (segs @ [''index.md''])"
    using C(1) C(2) plain_names [of "[]"] plain_leaf [OF segs(1)] by simp_all
  have globs: "lang_globs slug root = [below root (segs @ [''_index.'' @ ''*.md'']),
      below root (butlast segs @ [(leaf_base segs @ ''.'') @ ''*.md'']), below root (segs @ [''index.'' @ ''*.md''])]"
    using C(1) [of "''_index.*.md''"] C(1) [of "''index.*.md''"] C(2) [of "''.*.md''"] plain_names [of "[]"]
      plain_leaf [OF segs(1), of "''.*.md''"] by (simp add: lang_globs_def)
  have G: "p \<in> set (sorted_glob V g) \<Longrightarrow> g \<in> set (lang_globs slug root) \<Longrightarrow> \<exists>m. lang_file root segs m p" for p g
    using glob_below_some [OF root segs(1) ms(1) V ix(1-3), of p] glob_below_some [OF root segs(1) ms(1) V ix(4-6), of p]
      glob_below_some [OF root bs ms(2) V lf, of p]
    unfolding globs lang_file_def by auto
  show "\<forall>c \<in> set (collectCandidates V slug root). cv_file V (cd_path c) \<and>
            (base_file root segs (cd_path c) \<or> (\<exists>m. lang_file root segs m (cd_path c)))"
  proof
    fix c assume c: "c \<in> set (collectCandidates V slug root)"
    note k = keep_new_sub [OF c [unfolded collectCandidates_def]]
    have "cv_file V (cd_path c)" and
      "cd_path c \<in> {path_join [root, slug, ''_index.md''], path_join [root, slug @ ''.md''], path_join [root, slug, ''index.md'']} \<or>
       (\<exists>g \<in> set (lang_globs slug root). cd_path c \<in> set (sorted_glob V g))"
      using k by auto
    then show "cv_file V (cd_path c) \<and> (base_file root segs (cd_path c) \<or> (\<exists>m. lang_file root segs m (cd_path c)))"
      using G unfolding base base_file_def by blast
  qed
  assume p: "cv_file V p" "base_file root segs p \<or>
     (\<not> has_suffix ''index.md'' p \<and> (\<exists>m. CHR ''/'' \<notin> set m \<and> lang_file root segs m p))"
  have H: "\<exists>g \<in> set (lang_globs slug root). p \<in> set (sorted_glob V g)" if m: "CHR ''/'' \<notin> set m" "lang_file root segs m p" for m
    using m glob_below_all [OF root segs(1) ms(1) V ix(1-3), of "''_index.'' @ m @ ''.md''" m]
      glob_below_all [OF root segs(1) ms(1) V ix(4-6), of "''index.'' @ m @ ''.md''" m]
      glob_below_all [OF root bs ms(2) V lf, of "leaf_base segs @ ''.'' @ m @ ''.md''" m]
      plain_names [OF m(1)] plain_leaf [OF segs(1), of "''.'' @ m @ ''.md''"] lb p(1)
    unfolding globs lang_file_def by auto
  show "p \<in> cd_path ` set (collectCandidates V slug root)"
    unfolding collectCandidates_def keep_new_paths
    using p H unfolding base_file_def base [symmetric] by (auto simp: image_iff)
qed

text \<open>
  C32. A slug never leads out of the content root, and never to a file chosen among several. Whatever the
  slug, parent steps included, a successful lookup gives an existing file that lies in the root under
  the plain elements of the slug, as an index file of the directory or as a leaf named by its last
  element. With a language it is a file of that language; without one it is the only existing file
  of the slug, the starred names that end in \<open>index.md\<close> apart; this needs slug and root to have no character
  of the pattern language, since the code globs with them as they are (see \<open>slug\_is\_a\_pattern\<close>).
\<close>

theorem page_source_unique:
  assumes root: "clean_root root" and V: "plain_view V"
    and meta: "trim_space lang = '''' \<Longrightarrow> \<not> hasMeta root \<and> \<not> hasMeta (normalizeSlug slug)"
    and lang: "CHR ''/'' \<notin> set (trim_space lang)" and r: "ResolvePageSource V slug lang root = Inr r"
  shows "let segs = slug_segs (normalizeSlug slug)
         in list_all plain_seg segs \<and> cv_file V (rs_path r) \<and> rs_slug r = normalizeSlug slug \<and>
            (if trim_space lang \<noteq> '''' then rs_lang r = trim_space lang \<and> lang_file root segs (trim_space lang) (rs_path r)
             else (base_file root segs (rs_path r) \<or> (\<exists>m. lang_file root segs m (rs_path r))) \<and>
               (\<forall>p. cv_file V p \<and> (base_file root segs p \<or>
                    \<not> has_suffix ''index.md'' p \<and> (\<exists>m. CHR ''/'' \<notin> set m \<and> lang_file root segs m p)) \<longrightarrow> p = rs_path r))"
proof -
  let ?slug = "normalizeSlug slug" let ?segs = "slug_segs ?slug"
  note N = normalizeSlug_segs [of slug]
  note C = candidate_paths [OF root N(1) N(2) [symmetric]]
  show ?thesis
  proof (cases "trim_space lang = ''''")
    case False
    let ?cs = "[\<lparr>cd_path = path_join [root, ?slug, ''_index.'' @ trim_space lang @ ''.md''], cd_lang = trim_space lang, cd_section = True\<rparr>,
      \<lparr>cd_path = path_join [root, ?slug, ''index.'' @ trim_space lang @ ''.md''], cd_lang = trim_space lang, cd_section = False\<rparr>,
      \<lparr>cd_path = path_join [root, ?slug @ ''.'' @ trim_space lang @ ''.md''], cd_lang = trim_space lang, cd_section = False\<rparr>]"
    obtain c where c: "find (\<lambda>c. cv_file V (cd_path c)) ?cs = Some c"
      "r = \<lparr>rs_slug = ?slug, rs_lang = cd_lang c, rs_path = cd_path c, rs_section = cd_section c\<rparr>"
      using r False by (auto simp: ResolvePageSource_def Let_def simp del: find.simps split: if_splits option.splits)
    have "c \<in> set ?cs" "cv_file V (cd_path c)"
      using c(1) unfolding find_Some_iff by (metis nth_mem, blast)
    moreover have "lang_file root ?segs (trim_space lang) (cd_path c)"
      using \<open>c \<in> set ?cs\<close> C(1) C(2) plain_names [OF lang] plain_leaf [OF N(1), of "''.'' @ trim_space lang @ ''.md''"] lang
      by (auto simp: lang_file_def)
    ultimately show ?thesis using c(2) N(1) False by (auto simp: Let_def)
  next
    case True
    obtain c where c: "collectCandidates V ?slug root = [c]"
      "r = \<lparr>rs_slug = ?slug, rs_lang = cd_lang c, rs_path = cd_path c, rs_section = cd_section c\<rparr>"
      using r True by (auto simp: ResolvePageSource_def Let_def split: if_splits list.splits)
    have P: "\<not> hasMeta root" "\<not> hasMeta ?slug" using meta [OF True] by simp_all
    show ?thesis
      using c collect_paths [OF root P(1) N(1) N(2) [symmetric] V P(2)] N(1) True by (auto simp: Let_def)
  qed
qed

definition sample_view :: content_view where
  "sample_view =
     \<lparr>cv_ls = (\<lambda>d. if path_clean d = ''/c/hello'' then Some [(''index.md'', False)] else None),
      cv_file = (\<lambda>p. p = ''/c/hello/index.md'')\<rparr>"

lemma plain_sample_view: "plain_view sample_view"
proof -
  have "path_clean d = ''/c/hello'' \<and> n = ''index.md''"
    if n: "plain_seg n" and p: "path_join [d, n] = ''/c/hello/index.md''" for d n
  proof (cases "d = ''''")
    case True
    then have "path_join [d, n] = n"
      using n by (simp add: path_join_def path_clean_def clean_segs_def plain_seg_def is_abs_def Let_def) (metis hd_in_set)
    then have "n = ''/c/hello/index.md''" using p by simp
    then have "CHR ''/'' \<in> set n" by simp
    then show ?thesis using n by (simp add: plain_seg_def)
  next
    case False
    have "clean_segs ''/c/hello/index.md'' = [''c'', ''hello'', ''index.md'']" by code_simp
    then have "clean_segs d @ [n] = [''c'', ''hello'', ''index.md'']" using path_join2(1) [OF False n] p by metis
    then have "clean_segs d = [''c'', ''hello'']" "n = ''index.md''"
      by (simp_all add: append_eq_Cons_conv)
    moreover have "is_abs ''/c/hello/index.md''" by (simp add: is_abs_def)
    then have "is_abs d" using path_join2(2) [OF False n] p by metis
    ultimately have "clean_segs d = [''c'', ''hello'']" "n = ''index.md''" "is_abs d" by blast+
    then show ?thesis by (simp add: path_clean_def)
  qed
  then show ?thesis by (auto simp: plain_view_def sample_view_def plain_seg_def split: if_splits)
qed

lemma page_source_unique_witness:
  "let r = \<lparr>rs_slug = ''hello'', rs_lang = '''', rs_path = ''/c/hello/index.md'', rs_section = False\<rparr>;
       segs = slug_segs (normalizeSlug ''/posts/../hello/'')
   in list_all plain_seg segs \<and> cv_file sample_view (rs_path r) \<and> rs_slug r = normalizeSlug ''/posts/../hello/'' \<and>
      (if trim_space '''' \<noteq> '''' then rs_lang r = trim_space '''' \<and> lang_file ''/c'' segs (trim_space '''') (rs_path r)
       else (base_file ''/c'' segs (rs_path r) \<or> (\<exists>m. lang_file ''/c'' segs m (rs_path r))) \<and>
         (\<forall>p. cv_file sample_view p \<and> (base_file ''/c'' segs p \<or>
              \<not> has_suffix ''index.md'' p \<and> (\<exists>m. CHR ''/'' \<notin> set m \<and> lang_file ''/c'' segs m p)) \<longrightarrow> p = rs_path r))"
  unfolding Let_def
  by (rule page_source_unique [OF _ plain_sample_view, unfolded Let_def]) code_simp+

text \<open>
  A slug with a character of the pattern language finds the file of another page: only
  \<open>hello/index.fr.md\<close> exists here, and the slug asked for is \<open>hell?\<close>.
\<close>

lemma slug_is_a_pattern:
  "ResolvePageSource
     \<lparr>cv_ls = (\<lambda>d. if d = ''/c'' then Some [(''hello'', True)] else if d = ''/c/hello'' then Some [(''index.fr.md'', False)] else None),
      cv_file = (\<lambda>p. p = ''/c/hello/index.fr.md'')\<rparr> ''hell?'' '''' ''/c'' =
   Inr \<lparr>rs_slug = ''hell?'', rs_lang = ''fr'', rs_path = ''/c/hello/index.fr.md'', rs_section = False\<rparr>"
  by code_simp

end
