(* ===== verification/Taxonomy.thy ===== *)
theory Taxonomy
  imports Validation "HOL-Library.Char_ord" "HOL-Library.List_Lexorder"
begin

text \<open>
  Tags and categories (\<open>internal/taxonomy/taxonomy.go\<close>): slugs, labels, deduplication, operator
  aliases and the edit distance that finds look-alike terms; and the casing rules of the write tools
  (\<open>internal/tools/write/taxonomy\_casing.go\<close>). The Unicode case tables are a parameter: \<open>lower\<close> is
  \<open>strings.ToLower\<close>, \<open>upper\<close> is \<open>unicode.ToUpper\<close> of the first rune of a word.
\<close>

section \<open>Terms\<close>

record case_table =
  ct_lower :: "string \<Rightarrow> string"
  ct_title :: "string \<Rightarrow> string"

record taxonomy_term =
  tt_source :: string
  tt_slug :: string
  tt_label :: string

definition replace_char :: "char \<Rightarrow> char \<Rightarrow> string \<Rightarrow> string" where
  "replace_char a b s = map (\<lambda>c. if c = a then b else c) s"

definition Slug :: "case_table \<Rightarrow> string \<Rightarrow> string" where
  "Slug U raw = join_with ''-'' (go_fields (replace_char CHR ''_'' CHR ''-'' (trim_space (ct_lower U raw))))"

text \<open>\<open>strings.FieldsFunc\<close> at dashes and underscores.\<close>

fun label_words :: "string \<Rightarrow> string \<Rightarrow> string list" where
  "label_words acc [] = (if acc = [] then [] else [rev acc])"
| "label_words acc (c # s) =
     (if c = CHR ''-'' \<or> c = CHR ''_'' then (if acc = [] then [] else [rev acc]) @ label_words [] s
      else label_words (c # acc) s)"

definition titleWord :: "case_table \<Rightarrow> string \<Rightarrow> string" where
  "titleWord U word = (if word = '''' then '''' else ct_title U word)"

definition Label :: "case_table \<Rightarrow> string \<Rightarrow> string" where
  "Label U slug = join_with '' '' (map (titleWord U) (label_words [] slug))"

definition term_of :: "case_table \<Rightarrow> string \<Rightarrow> string \<Rightarrow> taxonomy_term" where
  "term_of U source slug = \<lparr>tt_source = source, tt_slug = slug, tt_label = Label U slug\<rparr>"

fun normalize_from :: "case_table \<Rightarrow> string list \<Rightarrow> string list \<Rightarrow> taxonomy_term list" where
  "normalize_from U seen [] = []"
| "normalize_from U seen (raw # rest) =
     (let source = trim_space raw; slug = Slug U source
      in if source = '''' then normalize_from U seen rest
         else if slug = '''' \<or> slug \<in> set seen then normalize_from U seen rest
         else term_of U source slug # normalize_from U (slug # seen) rest)"

definition Normalize :: "case_table \<Rightarrow> string list \<Rightarrow> taxonomy_term list" where
  "Normalize U values = normalize_from U [] values"

fun merge_from :: "string list \<Rightarrow> taxonomy_term list \<Rightarrow> taxonomy_term list" where
  "merge_from seen [] = []"
| "merge_from seen (t # ts) =
     (if tt_slug t \<in> set seen then merge_from seen ts else t # merge_from (tt_slug t # seen) ts)"

definition Merge :: "taxonomy_term list \<Rightarrow> taxonomy_term list \<Rightarrow> taxonomy_term list" where
  "Merge a b = merge_from [] (a @ b)"

definition Slugs :: "taxonomy_term list \<Rightarrow> string list" where
  "Slugs terms = map tt_slug terms"

definition MatchesSlug :: "case_table \<Rightarrow> string list \<Rightarrow> string \<Rightarrow> bool" where
  "MatchesSlug U rawValues target \<longleftrightarrow> list_ex (\<lambda>raw. Slug U raw = target) rawValues"

fun shared_from :: "case_table \<Rightarrow> string list \<Rightarrow> string list \<Rightarrow> string list \<Rightarrow> taxonomy_term list" where
  "shared_from U bSlugs seen [] = []"
| "shared_from U bSlugs seen (raw # rest) =
     (let s = Slug U raw
      in if s = '''' \<or> s \<in> set seen then shared_from U bSlugs seen rest
         else if s \<in> set bSlugs
           then term_of U (trim_space raw) s # shared_from U bSlugs (s # seen) rest
         else shared_from U bSlugs seen rest)"

definition SharedTerms :: "case_table \<Rightarrow> string list \<Rightarrow> string list \<Rightarrow> taxonomy_term list" where
  "SharedTerms U a b = shared_from U (filter (\<lambda>s. s \<noteq> '''') (map (Slug U) b)) [] a"

fun dedup_from :: "case_table \<Rightarrow> string list \<Rightarrow> string list \<Rightarrow> string list" where
  "dedup_from U seen [] = []"
| "dedup_from U seen (raw # rest) =
     (let v = trim_space raw; key = Slug U v
      in if v = '''' \<or> key \<in> set seen then dedup_from U seen rest else v # dedup_from U (key # seen) rest)"

definition DeduplicateRaw :: "case_table \<Rightarrow> string list \<Rightarrow> string list" where
  "DeduplicateRaw U values = sort (dedup_from U [] values)"

section \<open>Aliases\<close>

definition ResolveAlias :: "string \<Rightarrow> (string, string) gomap \<Rightarrow> string" where
  "ResolveAlias slug aliases = (case gget aliases slug of None \<Rightarrow> slug | Some canonical \<Rightarrow> canonical)"

text \<open>The entries in the order the map is visited; of two keys with one slug the later stays.\<close>

definition NormalizeAliasMap :: "case_table \<Rightarrow> (string, string) gomap \<Rightarrow> (string, string) gomap" where
  "NormalizeAliasMap U raw =
     foldl (\<lambda>out (k, v).
       let ks = Slug U k; vs = Slug U v
       in if ks \<noteq> '''' \<and> vs \<noteq> '''' \<and> ks \<noteq> vs then gput out ks vs else out) [] raw"

fun apply_aliases_from :: "case_table \<Rightarrow> (string, string) gomap \<Rightarrow> string list \<Rightarrow> string list \<Rightarrow> string list" where
  "apply_aliases_from U aliases seen [] = []"
| "apply_aliases_from U aliases seen (raw # rest) =
     (let v = trim_space raw; s = Slug U v
      in if v = '''' then apply_aliases_from U aliases seen rest
         else (case gget aliases s of
                 Some canonical \<Rightarrow>
                   if canonical \<in> set seen then apply_aliases_from U aliases seen rest
                   else canonical # apply_aliases_from U aliases (canonical # seen) rest
               | None \<Rightarrow>
                   if s \<in> set seen then apply_aliases_from U aliases seen rest
                   else v # apply_aliases_from U aliases (s # seen) rest))"

definition ApplyAliases :: "case_table \<Rightarrow> string list \<Rightarrow> (string, string) gomap \<Rightarrow> string list" where
  "ApplyAliases U rawValues aliases =
     (if aliases = [] then rawValues else apply_aliases_from U aliases [] rawValues)"

definition MatchesSlugWithAliases :: "case_table \<Rightarrow> string list \<Rightarrow> string \<Rightarrow> (string, string) gomap \<Rightarrow> bool" where
  "MatchesSlugWithAliases U rawValues target aliases \<longleftrightarrow>
     list_ex (\<lambda>raw. let s = Slug U raw in s = target \<or> gget aliases s = Some target) rawValues"

section \<open>Edit distance\<close>

definition min3 :: "nat \<Rightarrow> nat \<Rightarrow> nat \<Rightarrow> nat" where
  "min3 a b c = (if a < b then (if a < c then a else c) else if b < c then b else c)"

text \<open>One row from the row above it: the cells above left and above, and the one to the left.\<close>

fun lev_cells :: "nat \<Rightarrow> nat list \<Rightarrow> nat list \<Rightarrow> nat \<Rightarrow> nat list" where
  "lev_cells x (y # ys) (diag # up # prev) left =
     (let c = min3 (up + 1) (left + 1) (diag + (if x = y then 0 else 1)) in c # lev_cells x ys (up # prev) c)"
| "lev_cells x _ _ left = []"

definition lev_row :: "nat list \<Rightarrow> nat list \<Rightarrow> nat \<times> nat \<Rightarrow> nat list" where
  "lev_row rb prev ix = fst ix # lev_cells (snd ix) rb prev (fst ix)"

definition levenshtein :: "string \<Rightarrow> string \<Rightarrow> nat" where
  "levenshtein a b =
     (let ra = runes a; rb = runes b
      in if ra = [] then length rb else if rb = [] then length ra
         else foldl (lev_row rb) [0..<length rb + 1] (zip [1..<length ra + 1] ra) ! length rb)"

definition similar_pair :: "nat \<Rightarrow> nat \<Rightarrow> (string, string) gomap \<Rightarrow> string \<Rightarrow> string \<Rightarrow> (string \<times> string) list" where
  "similar_pair maxDist minLen aliases a b =
     (if length (runes b) < minLen then []
      else if ResolveAlias a aliases = b \<or> ResolveAlias b aliases = a then []
      else if 1 \<le> levenshtein a b \<and> levenshtein a b \<le> maxDist then [if a > b then (b, a) else (a, b)]
      else [])"

fun FindSimilarPairs :: "string list \<Rightarrow> nat \<Rightarrow> nat \<Rightarrow> (string, string) gomap \<Rightarrow> (string \<times> string) list" where
  "FindSimilarPairs [] maxDist minLen aliases = []"
| "FindSimilarPairs (a # rest) maxDist minLen aliases =
     (if length (runes a) < minLen then [] else concat (map (similar_pair maxDist minLen aliases a) rest)) @
     FindSimilarPairs rest maxDist minLen aliases"

section \<open>Casing of new terms\<close>

record casing_change =
  cc_type :: string
  cc_from :: string
  cc_to :: string

record casing_skipped =
  cs_type :: string
  cs_term :: string

text \<open>
  The spellings of a slug in a language are those on the pages, each with its language and terms;
  the model looks them up instead of building the nested map.
\<close>

definition spellings :: "case_table \<Rightarrow> (string \<times> string list) list \<Rightarrow> string \<Rightarrow> string \<Rightarrow> string list" where
  "spellings U pages slug lang =
     remdups (filter (\<lambda>t. Slug U t = slug) (concat (map snd (filter (\<lambda>(l, ts). l = lang) pages))))"

definition casing_of ::
    "case_table \<Rightarrow> (string \<times> string list) list \<Rightarrow> string \<Rightarrow> string \<Rightarrow> string \<times> bool" where
  "casing_of U pages lang x =
     (let forms = spellings U pages (Slug U x) lang
      in if x \<in> set forms then (x, False)
         else (case forms of [] \<Rightarrow> (x, False) | [existing] \<Rightarrow> (existing, False) | _ \<Rightarrow> (x, True)))"

definition normalizeTaxonomyCasing ::
    "case_table \<Rightarrow> (string \<times> string list) list \<Rightarrow> string \<Rightarrow> string \<Rightarrow> string list \<Rightarrow>
     string list \<times> casing_change list \<times> casing_skipped list" where
  "normalizeTaxonomyCasing U pages noun lang terms =
     (map (\<lambda>x. fst (casing_of U pages lang x)) terms,
      concat (map (\<lambda>x. if fst (casing_of U pages lang x) \<noteq> x
        then [\<lparr>cc_type = noun, cc_from = x, cc_to = fst (casing_of U pages lang x)\<rparr>] else []) terms),
      concat (map (\<lambda>x. if snd (casing_of U pages lang x) then [\<lparr>cs_type = noun, cs_term = x\<rparr>] else []) terms))"

record taxonomy_delta =
  td_added :: "string list"
  td_removed :: "string list"
  td_unchanged :: "string list"

text \<open>\<open>remdups\<close> keeps last occurrences, the code first ones.\<close>

definition firsts :: "'a list \<Rightarrow> 'a list" where
  "firsts xs = rev (remdups (rev xs))"

definition computeTaxonomyDelta :: "string list \<Rightarrow> string list \<Rightarrow> taxonomy_delta" where
  "computeTaxonomyDelta old new =
     \<lparr>td_added = filter (\<lambda>v. v \<notin> set old) (firsts new),
      td_removed = filter (\<lambda>v. v \<notin> set new) (firsts old),
      td_unchanged = filter (\<lambda>v. v \<in> set old) (firsts new)\<rparr>"

section \<open>The distance is the least number of edits\<close>

inductive edit_step :: "nat list \<Rightarrow> nat list \<Rightarrow> bool" where
  insert_rune: "edit_step (us @ vs) (us @ y # vs)"
| delete_rune: "edit_step (us @ x # vs) (us @ vs)"
| change_rune: "edit_step (us @ x # vs) (us @ y # vs)"

lemma edit_step_Cons: "edit_step xs ys \<Longrightarrow> edit_step (x # xs) (x # ys)"
  by (induction rule: edit_step.induct) (metis append_Cons edit_step.intros)+

lemma edit_steps_Cons: "(edit_step ^^ n) xs ys \<Longrightarrow> (edit_step ^^ n) (x # xs) (x # ys)"
  by (induction n arbitrary: ys) (auto dest: edit_step_Cons)

text \<open>Alignments: pairs of an optional old and an optional new rune.\<close>

type_synonym alignment = "(nat option \<times> nat option) list"

definition lefts :: "alignment \<Rightarrow> nat list" where
  "lefts al = concat (map (\<lambda>p. case fst p of None \<Rightarrow> [] | Some x \<Rightarrow> [x]) al)"

definition rights :: "alignment \<Rightarrow> nat list" where
  "rights al = concat (map (\<lambda>p. case snd p of None \<Rightarrow> [] | Some y \<Rightarrow> [y]) al)"

definition pair_cost :: "nat option \<times> nat option \<Rightarrow> nat" where
  "pair_cost p = (if fst p = snd p then 0 else 1)"

definition cost :: "alignment \<Rightarrow> nat" where
  "cost al = sum_list (map pair_cost al)"

lemma align_simps [simp]:
  "lefts [] = []" "rights [] = []" "cost [] = 0"
  "lefts (al @ bl) = lefts al @ lefts bl" "rights (al @ bl) = rights al @ rights bl" "cost (al @ bl) = cost al + cost bl"
  "lefts ((Some x, b) # al) = x # lefts al" "lefts ((None, b) # al) = lefts al"
  "rights ((a, Some y) # al) = y # rights al" "rights ((a, None) # al) = rights al"
  "cost (p # al) = pair_cost p + cost al"
  by (simp_all add: lefts_def rights_def cost_def)

lemma align_edits: "(edit_step ^^ cost al) (lefts al) (rights al)"
proof (induction al)
  case (Cons p al)
  obtain a b where p: "p = (a, b)" by (cases p)
  show ?case
  proof (cases "a = b")
    case True
    then show ?thesis using Cons edit_steps_Cons by (cases a) (auto simp: p pair_cost_def)
  next
    case False
    have "\<exists>zs. edit_step (lefts (p # al)) zs \<and> (edit_step ^^ cost al) zs (rights (p # al))"
    proof (cases a)
      case None
      then obtain y where y: "b = Some y" using False by (cases b) auto
      have "edit_step (lefts al) (y # lefts al)" using insert_rune [of "[]" "lefts al" y] by simp
      then show ?thesis using edit_steps_Cons [OF Cons, of y] None y by (auto simp: p)
    next
      case (Some x)
      show ?thesis
      proof (cases b)
        case None
        have "edit_step (x # lefts al) (lefts al)" using delete_rune [of "[]" x "lefts al"] by simp
        then show ?thesis using Cons Some None by (auto simp: p)
      next
        case b: (Some y)
        have "edit_step (x # lefts al) (y # lefts al)" using change_rune [of "[]" x "lefts al" y] by simp
        then show ?thesis using edit_steps_Cons [OF Cons, of y] Some b by (auto simp: p)
      qed
    qed
    moreover have "cost (p # al) = Suc (cost al)" using False by (simp add: p pair_cost_def)
    ultimately show ?thesis by (metis relpowp_Suc_I2)
  qed
qed simp

lemma rights_append: "rights al = us @ vs \<Longrightarrow> \<exists>a1 a2. al = a1 @ a2 \<and> rights a1 = us \<and> rights a2 = vs"
proof (induction al arbitrary: us)
  case (Cons p al)
  show ?case
  proof (cases us)
    case Nil
    then show ?thesis using Cons(2) by (intro exI [of _ "[]"] exI [of _ "p # al"]) simp
  next
    case us: (Cons u us')
    obtain a b where p: "p = (a, b)" by (cases p)
    then obtain us0 where "rights al = us0 @ vs" "(case b of None \<Rightarrow> us0 = us | Some y \<Rightarrow> y # us0 = us)"
      using Cons(2) us by (cases b) auto
    then obtain a1 a2 where "al = a1 @ a2" "rights a1 = us0" "rights a2 = vs" using Cons(1) by blast
    then show ?thesis
      using \<open>case b of None \<Rightarrow> us0 = us | Some y \<Rightarrow> y # us0 = us\<close> p
      by (intro exI [of _ "p # a1"] exI [of _ a2]) (auto split: option.splits)
  qed
qed simp

lemma rights_Cons: "rights al = y # vs \<Longrightarrow> \<exists>a1 a a2. al = a1 @ (a, Some y) # a2 \<and> rights a1 = [] \<and> rights a2 = vs"
proof (induction al)
  case (Cons p al)
  obtain a b where p: "p = (a, b)" by (cases p)
  show ?case
  proof (cases b)
    case None
    then obtain a1 a' a2 where "al = a1 @ (a', Some y) # a2" "rights a1 = []" "rights a2 = vs"
      using Cons p by auto
    then show ?thesis using p None by (intro exI [of _ "p # a1"] exI [of _ a'] exI [of _ a2]) simp
  next
    case (Some z)
    then show ?thesis using Cons(2) p by (intro exI [of _ "[]"] exI [of _ a] exI [of _ al]) simp
  qed
qed simp

text \<open>One more edit costs at most one more.\<close>

lemma edit_align:
  assumes "edit_step ys zs" "rights al = ys"
  shows "\<exists>bl. lefts bl = lefts al \<and> rights bl = zs \<and> cost bl \<le> cost al + 1"
  using assms
proof (cases rule: edit_step.cases)
  case (insert_rune us vs y)
  then obtain a1 a2 where "al = a1 @ a2" "rights a1 = us" "rights a2 = vs"
    using rights_append assms(2) by metis
  then show ?thesis using insert_rune by (intro exI [of _ "a1 @ (None, Some y) # a2"]) (simp add: pair_cost_def)
next
  case (delete_rune us x vs)
  obtain a1 a0 where a: "al = a1 @ a0" "rights a1 = us" "rights a0 = x # vs"
    using rights_append assms(2) delete_rune by metis
  obtain b1 c b2 where b: "a0 = b1 @ (c, Some x) # b2" "rights b1 = []" "rights b2 = vs"
    using rights_Cons [OF a(3)] by metis
  show ?thesis
    using a b delete_rune by (intro exI [of _ "a1 @ b1 @ (c, None) # b2"]) (cases c; simp add: pair_cost_def)
next
  case (change_rune us x vs y)
  obtain a1 a0 where a: "al = a1 @ a0" "rights a1 = us" "rights a0 = x # vs"
    using rights_append assms(2) change_rune by metis
  obtain b1 c b2 where b: "a0 = b1 @ (c, Some x) # b2" "rights b1 = []" "rights b2 = vs"
    using rights_Cons [OF a(3)] by metis
  show ?thesis
    using a b change_rune by (intro exI [of _ "a1 @ b1 @ (c, Some y) # b2"]) (cases c; simp add: pair_cost_def)
qed

lemma edits_align: "(edit_step ^^ n) xs ys \<Longrightarrow> \<exists>al. lefts al = xs \<and> rights al = ys \<and> cost al \<le> n"
proof (induction n arbitrary: ys)
  case 0
  have "lefts (map (\<lambda>x. (Some x, Some x)) xs) = xs \<and> rights (map (\<lambda>x. (Some x, Some x)) xs) = xs \<and>
      cost (map (\<lambda>x. (Some x, Some x)) xs) = 0"
    by (induction xs) (auto simp: pair_cost_def)
  then show ?case using 0 by (intro exI [of _ "map (\<lambda>x. (Some x, Some x)) xs"]) simp
next
  case (Suc n)
  then obtain ws where ws: "(edit_step ^^ n) xs ws" "edit_step ws ys" by auto
  then obtain al where al: "lefts al = xs" "rights al = ws" "cost al \<le> n" using Suc(1) by blast
  then obtain bl where "lefts bl = lefts al" "rights bl = ys" "cost bl \<le> cost al + 1"
    using edit_align [OF ws(2)] by blast
  then show ?case using al by (intro exI [of _ bl]) simp
qed

text \<open>The cells of the table.\<close>

fun dist :: "nat list \<Rightarrow> nat list \<Rightarrow> nat \<Rightarrow> nat \<Rightarrow> nat" where
  "dist xs ys 0 j = j"
| "dist xs ys i 0 = i"
| "dist xs ys (Suc i) (Suc j) =
     min3 (dist xs ys i (Suc j) + 1) (dist xs ys (Suc i) j + 1) (dist xs ys i j + (if xs ! i = ys ! j then 0 else 1))"

lemma dist_0 [simp]: "dist xs ys i 0 = i"
  by (cases i) auto

lemma min3_min: "min3 a b c = min a (min b c)"
  by (auto simp: min3_def)

lemma lev_cells_row:
  assumes "j \<le> length ys" "x = xs ! i"
  shows "lev_cells x (drop j ys) (map (dist xs ys i) [j..<length ys + 1]) (dist xs ys (Suc i) j) =
         map (dist xs ys (Suc i)) [Suc j..<length ys + 1]"
  using assms
proof (induction "length ys - j" arbitrary: j)
  case 0
  then show ?case by (simp add: upt_rec)
next
  case (Suc k)
  then have j: "j < length ys" by simp
  have d: "drop j ys = ys ! j # drop (Suc j) ys" using j by (simp add: Cons_nth_drop_Suc)
  have u: "[j..<length ys + 1] = j # Suc j # [Suc (Suc j)..<length ys + 1]"
    "[Suc j..<length ys + 1] = Suc j # [Suc (Suc j)..<length ys + 1]"
    using j by (simp_all add: upt_rec [of j] upt_rec [of "Suc j"])
  have "lev_cells x (drop (Suc j) ys) (map (dist xs ys i) [Suc j..<length ys + 1]) (dist xs ys (Suc i) (Suc j)) =
      map (dist xs ys (Suc i)) [Suc (Suc j)..<length ys + 1]"
    using Suc(1) [of "Suc j"] Suc(2) Suc(4) j by simp
  then show ?case
    unfolding d u using Suc(4) by (simp add: Let_def u)
qed

lemma lev_rows:
  assumes "k \<le> length ra"
  shows "foldl (lev_row rb) [0..<length rb + 1] (take k (zip [1..<length ra + 1] ra)) = map (dist ra rb k) [0..<length rb + 1]"
  using assms
proof (induction k)
  case 0
  then show ?case by (simp add: map_idI)
next
  case (Suc k)
  have k: "k < length ra" using Suc(2) by simp
  then have z: "zip [1..<length ra + 1] ra ! k = (Suc k, ra ! k)" by (simp del: upt_Suc)
  have "take (Suc k) (zip [1..<length ra + 1] ra) = take k (zip [1..<length ra + 1] ra) @ [(Suc k, ra ! k)]"
    using k z by (simp add: take_Suc_conv_app_nth)
  moreover have "lev_row rb (map (dist ra rb k) [0..<length rb + 1]) (Suc k, ra ! k) = map (dist ra rb (Suc k)) [0..<length rb + 1]"
  proof -
    have "map (dist ra rb (Suc k)) [0..<length rb + 1] = Suc k # map (dist ra rb (Suc k)) [Suc 0..<length rb + 1]"
      by (subst upt_conv_Cons) (simp_all del: upt_Suc)
    then show ?thesis using lev_cells_row [of 0 rb "ra ! k" ra k] by (simp add: lev_row_def del: upt_Suc)
  qed
  ultimately show ?case using Suc k by simp
qed

lemma levenshtein_dist: "levenshtein a b = dist (runes a) (runes b) (length (runes a)) (length (runes b))"
  using lev_rows [of "length (runes a)" "runes a" "runes b"]
  by (cases "runes a"; cases "runes b") (auto simp: levenshtein_def Let_def nth_append simp del: upt_Suc)

lemma dist_align:
  "i \<le> length xs \<Longrightarrow> j \<le> length ys \<Longrightarrow> \<exists>al. lefts al = take i xs \<and> rights al = take j ys \<and> cost al = dist xs ys i j"
proof (induction xs ys i j rule: dist.induct)
  case (1 xs ys j)
  have "lefts (map (\<lambda>y. (None, Some y)) zs) = [] \<and> rights (map (\<lambda>y. (None, Some y)) zs) = zs \<and>
      cost (map (\<lambda>y. (None, Some y)) zs) = length zs" for zs
    by (induction zs) (auto simp: pair_cost_def)
  then show ?case using 1 by (intro exI [of _ "map (\<lambda>y. (None, Some y)) (take j ys)"]) simp
next
  case (2 xs ys i)
  have "lefts (map (\<lambda>x. (Some x, None)) zs) = zs \<and> rights (map (\<lambda>x. (Some x, None)) zs) = [] \<and>
      cost (map (\<lambda>x. (Some x, None)) zs) = length zs" for zs
    by (induction zs) (auto simp: pair_cost_def)
  then show ?case using 2 by (intro exI [of _ "map (\<lambda>x. (Some x, None)) (take (Suc i) xs)"]) simp
next
  case (3 xs ys i j)
  have t: "take (Suc i) xs = take i xs @ [xs ! i]" "take (Suc j) ys = take j ys @ [ys ! j]"
    using 3(4,5) by (simp_all add: take_Suc_conv_app_nth)
  obtain al where al: "lefts al = take i xs" "rights al = take (Suc j) ys" "cost al = dist xs ys i (Suc j)"
    using 3(1,4,5) by auto
  obtain bl where bl: "lefts bl = take (Suc i) xs" "rights bl = take j ys" "cost bl = dist xs ys (Suc i) j"
    using 3(2,4,5) by auto
  obtain cl where cl: "lefts cl = take i xs" "rights cl = take j ys" "cost cl = dist xs ys i j"
    using 3(3,4,5) by auto
  have "lefts (al @ [(Some (xs ! i), None)]) = take (Suc i) xs \<and> rights (al @ [(Some (xs ! i), None)]) = take (Suc j) ys \<and>
      cost (al @ [(Some (xs ! i), None)]) = dist xs ys i (Suc j) + 1" using al t by (simp add: pair_cost_def)
  moreover have "lefts (bl @ [(None, Some (ys ! j))]) = take (Suc i) xs \<and> rights (bl @ [(None, Some (ys ! j))]) = take (Suc j) ys \<and>
      cost (bl @ [(None, Some (ys ! j))]) = dist xs ys (Suc i) j + 1" using bl t by (simp add: pair_cost_def)
  moreover have "lefts (cl @ [(Some (xs ! i), Some (ys ! j))]) = take (Suc i) xs \<and>
      rights (cl @ [(Some (xs ! i), Some (ys ! j))]) = take (Suc j) ys \<and>
      cost (cl @ [(Some (xs ! i), Some (ys ! j))]) = dist xs ys i j + (if xs ! i = ys ! j then 0 else 1)"
    using cl t by (simp add: pair_cost_def)
  moreover have "dist xs ys (Suc i) (Suc j) = dist xs ys i (Suc j) + 1 \<or> dist xs ys (Suc i) (Suc j) = dist xs ys (Suc i) j + 1 \<or>
      dist xs ys (Suc i) (Suc j) = dist xs ys i j + (if xs ! i = ys ! j then 0 else 1)"
    by (simp add: min3_def)
  ultimately show ?case by metis
qed

lemma align_dist:
  "lefts al = take i xs \<Longrightarrow> rights al = take j ys \<Longrightarrow> i \<le> length xs \<Longrightarrow> j \<le> length ys \<Longrightarrow> dist xs ys i j \<le> cost al"
proof (induction al arbitrary: i j rule: rev_induct)
  case Nil
  then show ?case by (cases "i = 0"; cases "j = 0") auto
next
  case (snoc p al)
  have last: "take n zs = us @ [z] \<Longrightarrow> n \<le> length zs \<Longrightarrow> \<exists>m. n = Suc m \<and> us = take m zs \<and> z = zs ! m" for n us and z :: nat and zs
    by (cases n) (auto simp: take_Suc_conv_app_nth)
  obtain a b where p: "p = (a, b)" by (cases p)
  show ?case
  proof (cases a)
    case None
    show ?thesis
    proof (cases b)
      case None
      then show ?thesis using snoc(1) [of i j] snoc(2-) \<open>a = None\<close> by (simp add: p)
    next
      case (Some y)
      then obtain m where m: "j = Suc m" "rights al = take m ys"
        using last [of j ys "rights al" y] snoc(3,5) by (auto simp: p)
      then have "dist xs ys i m \<le> cost al" using snoc(1) [of i m] snoc(2,4,5) None by (simp add: p)
      then show ?thesis using m None Some by (cases i) (auto simp: p pair_cost_def min3_min)
    qed
  next
    case (Some x)
    then obtain m where m: "i = Suc m" "lefts al = take m xs" "x = xs ! m"
      using last [of i xs "lefts al" x] snoc(2,4) by (auto simp: p)
    show ?thesis
    proof (cases b)
      case None
      then have "dist xs ys m j \<le> cost al" using snoc(1) [of m j] snoc(3,4,5) m by (simp add: p)
      then show ?thesis using m None Some by (cases j) (auto simp: p pair_cost_def min3_min)
    next
      case b: (Some y)
      then obtain l where l: "j = Suc l" "rights al = take l ys" "y = ys ! l"
        using last [of j ys "rights al" y] snoc(3,5) by (auto simp: p)
      then have "dist xs ys m l \<le> cost al" using snoc(1) [of m l] snoc(4,5) m by simp
      then show ?thesis using m l Some b by (auto simp: p pair_cost_def min3_min)
    qed
  qed
qed

text \<open>
  C34. The distance by which similar taxonomy terms are found is the edit distance of their runes: the
  least number of insertions, deletions and changes of one rune that lead from one to the other.
\<close>

theorem levenshtein_least_edits: "levenshtein a b = (LEAST n. (edit_step ^^ n) (runes a) (runes b))"
proof (rule Least_equality [symmetric])
  obtain al where "lefts al = runes a" "rights al = runes b" "cost al = levenshtein a b"
    using dist_align [of "length (runes a)" "runes a" "length (runes b)" "runes b"] by (auto simp: levenshtein_dist)
  then show "(edit_step ^^ levenshtein a b) (runes a) (runes b)" using align_edits [of al] by simp
next
  fix n assume "(edit_step ^^ n) (runes a) (runes b)"
  then obtain al where "lefts al = runes a" "rights al = runes b" "cost al \<le> n" using edits_align by blast
  then show "levenshtein a b \<le> n"
    using align_dist [of al "length (runes a)" "runes a" "length (runes b)" "runes b"] by (simp add: levenshtein_dist)
qed

section \<open>Casing and deltas\<close>

lemma casing_keeps_slug: "Slug U (fst (casing_of U pages lang x)) = Slug U x"
proof -
  have "fst (casing_of U pages lang x) = x \<or> fst (casing_of U pages lang x) \<in> set (spellings U pages (Slug U x) lang)"
    by (simp add: casing_of_def Let_def split: list.split)
  moreover have "Slug U f = Slug U x" if "f \<in> set (spellings U pages (Slug U x) lang)" for f
    using that by (simp add: spellings_def)
  ultimately show ?thesis by metis
qed

lemma casing_known_kept: "x \<in> set (spellings U pages (Slug U x) lang) \<Longrightarrow> casing_of U pages lang x = (x, False)"
  by (simp add: casing_of_def Let_def)

lemma delta_partition:
  "set (td_added (computeTaxonomyDelta old new)) = set new - set old"
  "set (td_removed (computeTaxonomyDelta old new)) = set old - set new"
  "set (td_unchanged (computeTaxonomyDelta old new)) = set old \<inter> set new"
  "distinct (td_added (computeTaxonomyDelta old new) @ td_unchanged (computeTaxonomyDelta old new) @
     td_removed (computeTaxonomyDelta old new))"
  by (auto simp: computeTaxonomyDelta_def firsts_def)

end
