(* ===== verification/SourceIndex.thy ===== *)
theory SourceIndex
  imports FrontMatter Taxonomy
begin

text \<open>
  The in-memory index of source pages (\<open>internal/hugosite/source\_index.go\<close>): how a page is read from a
  file, the slug and language of a path, the index with its three maps, and its lookups and updates.
  A page is known by its slug and language; the index refines a map from these pairs to pages.
\<close>

section \<open>Reading a page\<close>

record source_page =
  pg_slug :: string
  pg_file_path :: string
  pg_lang :: string
  pg_title :: string
  pg_date :: string
  pg_draft :: bool
  pg_publish :: time
  pg_expiry :: time
  pg_tags :: "string list"
  pg_categories :: "string list"
  pg_body :: string
  pg_fm :: "(string, yval) gomap"
  pg_pending :: bool

text \<open>The decoders and the time formats of the standard library: the layouts are tried in their order.\<close>

record page_lib =
  pl_yaml :: "string \<Rightarrow> (string, yval) gomap option"
  pl_toml :: "string \<Rightarrow> (string, yval) gomap option"
  pl_sprint :: "yval \<Rightarrow> string"
  pl_format_time :: "time \<Rightarrow> string"
  pl_parse_time :: "string \<Rightarrow> string \<Rightarrow> time option"

definition stringVal :: "page_lib \<Rightarrow> yval option \<Rightarrow> string" where
  "stringVal P v =
     (case v of None \<Rightarrow> '''' | Some YNil \<Rightarrow> '''' | Some (YStr s) \<Rightarrow> s | Some (YTime t) \<Rightarrow> pl_format_time P t
      | Some x \<Rightarrow> pl_sprint P x)"

definition boolVal :: "yval option \<Rightarrow> bool" where
  "boolVal v = (case v of Some (YBool b) \<Rightarrow> b | _ \<Rightarrow> False)"

definition time_layouts :: "string list" where
  "time_layouts = [''2006-01-02T15:04:05Z07:00'', ''2006-01-02T15:04:05'', ''2006-01-02'']"

fun first_time :: "page_lib \<Rightarrow> string list \<Rightarrow> string \<Rightarrow> time" where
  "first_time P [] x = zero_time"
| "first_time P (l # ls) x = (case pl_parse_time P l x of Some t \<Rightarrow> t | None \<Rightarrow> first_time P ls x)"

definition timeVal :: "page_lib \<Rightarrow> yval option \<Rightarrow> time" where
  "timeVal P v =
     (case v of Some (YTime t) \<Rightarrow> t
      | Some (YStr x) \<Rightarrow> if x = '''' then zero_time else first_time P time_layouts x
      | _ \<Rightarrow> zero_time)"

definition stringSlice :: "page_lib \<Rightarrow> yval option \<Rightarrow> string list" where
  "stringSlice P v = (case v of Some (YList xs) \<Rightarrow> map (\<lambda>x. stringVal P (Some x)) xs | _ \<Rightarrow> [])"

definition decodeDelimitedFrontmatter ::
    "string \<Rightarrow> string \<Rightarrow> (string \<Rightarrow> (string, yval) gomap option) \<Rightarrow> (string, yval) gomap \<times> string" where
  "decodeDelimitedFrontmatter content delim decode =
     (case cut_sub delim (drop (length delim) content) of
        None \<Rightarrow> ([], content)
      | Some (head, rest) \<Rightarrow> ((case decode head of None \<Rightarrow> [] | Some fm \<Rightarrow> fm), trim_space rest))"

definition splitFrontmatter :: "page_lib \<Rightarrow> string \<Rightarrow> (string, yval) gomap \<times> string" where
  "splitFrontmatter P content =
     (if has_prefix ''---'' content then decodeDelimitedFrontmatter content ''---'' (pl_yaml P)
      else if has_prefix ''+++'' content then decodeDelimitedFrontmatter content ''+++'' (pl_toml P)
      else ([], content))"

definition ParseFrontmatterFile :: "page_lib \<Rightarrow> string option \<Rightarrow> (string, yval) gomap go" where
  "ParseFrontmatterFile P raw = (case raw of None \<Rightarrow> Inl ''read'' | Some r \<Rightarrow> Inr (fst (splitFrontmatter P r)))"

section \<open>Slugs and languages of paths\<close>

text \<open>\<open>strings.LastIndex\<close>, with the texts before and after the last occurrence.\<close>

definition cut_last :: "string \<Rightarrow> string \<Rightarrow> (string \<times> string) option" where
  "cut_last p s = map_option (\<lambda>(a, b). (rev b, rev a)) (cut_sub (rev p) (rev s))"

definition short_lang :: "string \<Rightarrow> bool" where
  "short_lang lang \<longleftrightarrow> 2 \<le> length lang \<and> length lang \<le> 5"

definition SlugFromRel :: "string \<Rightarrow> string" where
  "SlugFromRel rel =
     (if has_suffix ''/index.md'' rel then trim_suffix ''/index.md'' rel
      else (case cut_last ''/index.'' rel of
              Some (dir, after) \<Rightarrow>
                if has_suffix ''.md'' after \<and> short_lang (trim_suffix ''.md'' after) then dir
                else trim_suffix ''.md'' rel
            | None \<Rightarrow> trim_suffix ''.md'' rel))"

definition langFromRel :: "string \<Rightarrow> string" where
  "langFromRel rel =
     (let base = last (split_on CHR ''/'' rel);
          lang_of = (\<lambda>after. if has_suffix ''.md'' after \<and> short_lang (trim_suffix ''.md'' after)
                             then trim_suffix ''.md'' after else '''')
      in if has_prefix ''index.'' base then lang_of (trim_prefix ''index.'' base)
         else if has_prefix ''_index.'' base then lang_of (trim_prefix ''_index.'' base)
         else '''')"

section \<open>The index\<close>

record source_index =
  ix_pages :: "source_page list"
  ix_by_slug :: "(string, nat) gomap"
  ix_by_slug_lang :: "(string, nat) gomap"
  ix_by_default :: "(string, nat) gomap"

definition sourceLangKey :: "string \<Rightarrow> string \<Rightarrow> string" where
  "sourceLangKey slug lang = slug @ CHR 0x00 # lang"

fun rebuild_from :: "nat \<Rightarrow> source_page list \<Rightarrow> source_index \<Rightarrow> source_index" where
  "rebuild_from i [] idx = idx"
| "rebuild_from i (p # ps) idx =
     rebuild_from (Suc i) ps
       (let idx' = idx\<lparr>ix_by_slug := gput (ix_by_slug idx) (pg_slug p) i\<rparr>
        in if pg_lang p \<noteq> ''''
           then idx'\<lparr>ix_by_slug_lang := gput (ix_by_slug_lang idx) (sourceLangKey (pg_slug p) (pg_lang p)) i\<rparr>
           else idx'\<lparr>ix_by_default := gput (ix_by_default idx) (pg_slug p) i\<rparr>)"

definition rebuildMaps :: "source_page list \<Rightarrow> source_index" where
  "rebuildMaps ps =
     rebuild_from 0 ps \<lparr>ix_pages = ps, ix_by_slug = [], ix_by_slug_lang = [], ix_by_default = []\<rparr>"

definition page_of_file :: "page_lib \<Rightarrow> string \<Rightarrow> string \<Rightarrow> string \<Rightarrow> source_page" where
  "page_of_file P rel path raw =
     (case splitFrontmatter P raw of
        (fm, body) \<Rightarrow>
          \<lparr>pg_slug = SlugFromRel rel, pg_file_path = path, pg_lang = langFromRel rel,
           pg_title = stringVal P (gget fm ''title''), pg_date = stringVal P (gget fm ''date''),
           pg_draft = boolVal (gget fm ''draft''), pg_publish = timeVal P (gget fm ''publishDate''),
           pg_expiry = timeVal P (gget fm ''expiryDate''), pg_tags = stringSlice P (gget fm ''tags''),
           pg_categories = stringSlice P (gget fm ''categories''), pg_body = body, pg_fm = fm, pg_pending = False\<rparr>)"

text \<open>
  \<open>walk\<close> gives the files of the tree in the order of \<open>filepath.WalkDir\<close>, each with its text unless it
  cannot be read, or \<open>None\<close> when the walk fails; \<open>arrange\<close> is \<open>sort.Slice\<close> by slug, which may put pages of
  one slug in any order.
\<close>

definition walk_page :: "page_lib \<Rightarrow> string \<Rightarrow> string \<times> string option \<Rightarrow> source_page list" where
  "walk_page P root f =
     (case f of
        (path, content) \<Rightarrow>
          if \<not> has_suffix ''.md'' (path_base path) then []
          else (case (path_rel root path, content) of
                  (Some rel, Some raw) \<Rightarrow> [page_of_file P rel path raw]
                | _ \<Rightarrow> []))"

definition NewSourceIndex ::
    "page_lib \<Rightarrow> (source_page list \<Rightarrow> source_page list) \<Rightarrow> bool option \<Rightarrow> (string \<times> string option) list option \<Rightarrow>
     string \<Rightarrow> source_index go" where
  "NewSourceIndex P arrange root_is_dir walk root =
     (case root_is_dir of
        None \<Rightarrow> Inl ''hugosite: content root''
      | Some False \<Rightarrow> Inl ''hugosite: content root is not a directory''
      | Some True \<Rightarrow>
          (case walk of
             None \<Rightarrow> Inl ''hugosite: walk''
           | Some fs \<Rightarrow> Inr (rebuildMaps (arrange (concat (map (walk_page P root) fs))))))"

definition Reload ::
    "page_lib \<Rightarrow> (source_page list \<Rightarrow> source_page list) \<Rightarrow> bool option \<Rightarrow> (string \<times> string option) list option \<Rightarrow>
     source_index \<Rightarrow> string \<Rightarrow> source_index \<times> string option" where
  "Reload P arrange root_is_dir walk idx root =
     (case NewSourceIndex P arrange root_is_dir walk root of Inl e \<Rightarrow> (idx, Some e) | Inr r \<Rightarrow> (r, None))"

definition page_at :: "source_index \<Rightarrow> nat option \<Rightarrow> source_page option" where
  "page_at idx i = map_option (\<lambda>i. ix_pages idx ! i) i"

definition GetBySlug :: "source_index \<Rightarrow> string \<Rightarrow> source_page option" where
  "GetBySlug idx slug = page_at idx (gget (ix_by_slug idx) slug)"

definition GetBySlugLang :: "source_index \<Rightarrow> string \<Rightarrow> string \<Rightarrow> source_page option" where
  "GetBySlugLang idx slug lang = page_at idx (gget (ix_by_slug_lang idx) (sourceLangKey slug lang))"

definition GetDefaultBySlug :: "source_index \<Rightarrow> string \<Rightarrow> source_page option" where
  "GetDefaultBySlug idx slug = page_at idx (gget (ix_by_default idx) slug)"

definition GetByFilePath :: "source_index \<Rightarrow> string \<Rightarrow> source_page option" where
  "GetByFilePath idx path = find (\<lambda>p. pg_file_path p = path) (ix_pages idx)"

definition AllSlugs :: "source_index \<Rightarrow> string list" where
  "AllSlugs idx = map pg_slug (ix_pages idx)"

text \<open>A negative offset is outside of the callers' range.\<close>

definition ListPages :: "source_index \<Rightarrow> int \<Rightarrow> nat \<Rightarrow> source_page list" where
  "ListPages idx limit offset =
     (let total = length (ix_pages idx)
      in if total \<le> offset then []
         else (let stop = (if limit \<le> 0 \<or> int total < int offset + limit then total else offset + nat limit)
               in take (stop - offset) (drop offset (ix_pages idx))))"

definition Languages :: "source_index \<Rightarrow> string list" where
  "Languages idx = sort (remdups (filter (\<lambda>l. l \<noteq> '''') (map (\<lambda>p. trim_space (pg_lang p)) (ix_pages idx))))"

definition AllTags :: "case_table \<Rightarrow> source_index \<Rightarrow> string list" where
  "AllTags U idx = DeduplicateRaw U (concat (map pg_tags (ix_pages idx)))"

definition AllCategories :: "case_table \<Rightarrow> source_index \<Rightarrow> string list" where
  "AllCategories U idx = DeduplicateRaw U (concat (map pg_categories (ix_pages idx)))"

definition Upsert :: "source_index \<Rightarrow> source_page \<Rightarrow> source_index" where
  "Upsert idx page =
     (case (if pg_lang page \<noteq> '''' then gget (ix_by_slug_lang idx) (sourceLangKey (pg_slug page) (pg_lang page))
            else gget (ix_by_default idx) (pg_slug page)) of
        Some i \<Rightarrow> rebuildMaps ((ix_pages idx)[i := page])
      | None \<Rightarrow> rebuildMaps (ix_pages idx @ [page]))"

definition index_delete :: "source_index \<Rightarrow> string \<Rightarrow> source_index" where
  "index_delete idx slug =
     (if ix_pages idx = [] then idx else rebuildMaps (filter (\<lambda>p. pg_slug p \<noteq> slug) (ix_pages idx)))"

definition DeleteLang :: "source_index \<Rightarrow> string \<Rightarrow> string \<Rightarrow> source_index" where
  "DeleteLang idx slug lang =
     (if ix_pages idx = [] then idx
      else rebuildMaps (filter (\<lambda>p. \<not> (pg_slug p = slug \<and> pg_lang p = lang)) (ix_pages idx)))"

definition ClearAllBuildPending :: "source_index \<Rightarrow> source_index" where
  "ClearAllBuildPending idx = idx\<lparr>ix_pages := map (\<lambda>p. p\<lparr>pg_pending := False\<rparr>) (ix_pages idx)\<rparr>"

definition HasPendingBuild :: "source_index \<Rightarrow> bool" where
  "HasPendingBuild idx \<longleftrightarrow> list_ex pg_pending (ix_pages idx)"

definition PendingPages :: "source_index \<Rightarrow> source_page list" where
  "PendingPages idx = filter pg_pending (ix_pages idx)"

definition PendingCount :: "source_index \<Rightarrow> nat" where
  "PendingCount idx = length (filter pg_pending (ix_pages idx))"

section \<open>The index is a map from slug and language to page\<close>

type_synonym page_map = "string \<times> string \<Rightarrow> source_page option"

definition page_key :: "source_page \<Rightarrow> string \<times> string" where
  "page_key p = (pg_slug p, pg_lang p)"

definition page_map :: "source_page list \<Rightarrow> page_map" where
  "page_map ps = map_of (rev (map (\<lambda>p. (page_key p, p)) ps))"

definition index_ok :: "source_index \<Rightarrow> bool" where
  "index_ok idx \<longleftrightarrow> idx = rebuildMaps (ix_pages idx) \<and> (\<forall>p \<in> set (ix_pages idx). CHR 0x00 \<notin> set (pg_slug p))"

fun last_pos :: "('a \<Rightarrow> bool) \<Rightarrow> nat \<Rightarrow> 'a list \<Rightarrow> nat option" where
  "last_pos Q i [] = None"
| "last_pos Q i (x # xs) =
     (case last_pos Q (Suc i) xs of Some j \<Rightarrow> Some j | None \<Rightarrow> if Q x then Some i else None)"

lemma rebuild_pages [simp]: "ix_pages (rebuild_from i ps idx) = ix_pages idx"
  by (induction i ps idx rule: rebuild_from.induct) (auto simp: Let_def)

lemma rebuildMaps_pages [simp]: "ix_pages (rebuildMaps ps) = ps"
  by (simp add: rebuildMaps_def)

lemma rebuild_maps:
  "gget (ix_by_slug (rebuild_from i ps idx)) s =
     (case last_pos (\<lambda>p. pg_slug p = s) i ps of Some j \<Rightarrow> Some j | None \<Rightarrow> gget (ix_by_slug idx) s)"
  "gget (ix_by_slug_lang (rebuild_from i ps idx)) k =
     (case last_pos (\<lambda>p. pg_lang p \<noteq> '''' \<and> sourceLangKey (pg_slug p) (pg_lang p) = k) i ps of
        Some j \<Rightarrow> Some j | None \<Rightarrow> gget (ix_by_slug_lang idx) k)"
  "gget (ix_by_default (rebuild_from i ps idx)) s =
     (case last_pos (\<lambda>p. pg_lang p = '''' \<and> pg_slug p = s) i ps of Some j \<Rightarrow> Some j | None \<Rightarrow> gget (ix_by_default idx) s)"
  by (induction i ps idx rule: rebuild_from.induct) (auto simp: Let_def split: option.splits)

lemma last_pos_find: "map_option (\<lambda>j. ps ! (j - i)) (last_pos Q i ps) = find Q (rev ps)"
  and last_pos_bounds: "last_pos Q i ps = Some j \<Longrightarrow> i \<le> j \<and> j < i + length ps"
proof -
  have b: "last_pos Q i ps = Some j \<Longrightarrow> i \<le> j \<and> j < i + length ps" for Q :: "'a \<Rightarrow> bool" and i j ps
    by (induction Q i ps arbitrary: j rule: last_pos.induct) (fastforce split: option.splits if_splits)+
  have f: "map_option (\<lambda>j. ps ! (j - i)) (last_pos Q i ps) = find Q (rev ps)" for Q :: "'a \<Rightarrow> bool" and i ps
  proof (induction Q i ps rule: last_pos.induct)
    case (2 Q i x xs)
    have "(x # xs) ! (j - i) = xs ! (j - Suc i)" if "last_pos Q (Suc i) xs = Some j" for j
      using b [OF that] by (simp add: nth_Cons' diff_Suc split: nat.splits)
    then show ?case using 2 [symmetric] by (cases "last_pos Q (Suc i) xs") (auto simp: find_append)
  qed simp
  show "map_option (\<lambda>j. ps ! (j - i)) (last_pos Q i ps) = find Q (rev ps)" by (rule f)
  show "last_pos Q i ps = Some j \<Longrightarrow> i \<le> j \<and> j < i + length ps" by (rule b)
qed

lemma page_map_find: "page_map ps k = find (\<lambda>p. page_key p = k) (rev ps)"
proof -
  have "map_of (map (\<lambda>p. (page_key p, p)) qs) k = find (\<lambda>p. page_key p = k) qs" for qs
    by (induction qs) auto
  then show ?thesis by (simp add: page_map_def rev_map)
qed

definition lookup_page :: "source_index \<Rightarrow> string \<Rightarrow> string \<Rightarrow> source_page option" where
  "lookup_page idx slug lang = (if lang = '''' then GetDefaultBySlug idx slug else GetBySlugLang idx slug lang)"

lemma lang_key_inj:
  assumes "CHR 0x00 \<notin> set s" "CHR 0x00 \<notin> set t"
  shows "sourceLangKey s l = sourceLangKey t m \<longleftrightarrow> s = t \<and> l = m"
  using assms by (auto simp: sourceLangKey_def append_eq_append_conv2 Cons_eq_append_conv append_eq_Cons_conv)

lemma rebuilt_maps:
  "gget (ix_by_slug (rebuildMaps ps)) s = last_pos (\<lambda>p. pg_slug p = s) 0 ps"
  "gget (ix_by_slug_lang (rebuildMaps ps)) k =
     last_pos (\<lambda>p. pg_lang p \<noteq> '''' \<and> sourceLangKey (pg_slug p) (pg_lang p) = k) 0 ps"
  "gget (ix_by_default (rebuildMaps ps)) s = last_pos (\<lambda>p. pg_lang p = '''' \<and> pg_slug p = s) 0 ps"
  by (simp_all add: rebuildMaps_def rebuild_maps split: option.split)

lemma page_at_find: "page_at (rebuildMaps ps) (last_pos Q 0 ps) = find Q (rev ps)"
  using last_pos_find [of ps 0 Q] by (simp add: page_at_def)

lemma find_rev_cong: "(\<And>x. x \<in> set xs \<Longrightarrow> P x = Q x) \<Longrightarrow> find P (rev xs) = find Q (rev xs)"
  by (rule find_cong) auto

lemma lookup_map:
  assumes "index_ok idx" "CHR 0x00 \<notin> set s"
  shows "lookup_page idx s l = page_map (ix_pages idx) (s, l)"
proof -
  obtain ps where ps: "idx = rebuildMaps ps" "\<forall>p \<in> set ps. CHR 0x00 \<notin> set (pg_slug p)"
    using assms(1) by (metis index_ok_def)
  have "page_map ps (s, l) = find (\<lambda>p. pg_lang p = '''' \<and> pg_slug p = s) (rev ps)" if "l = ''''"
    unfolding page_map_find by (rule find_rev_cong) (use that in \<open>auto simp: page_key_def\<close>)
  moreover have "page_map ps (s, l) = find (\<lambda>p. pg_lang p \<noteq> '''' \<and> sourceLangKey (pg_slug p) (pg_lang p) = sourceLangKey s l) (rev ps)"
    if "l \<noteq> ''''"
    unfolding page_map_find
    by (rule find_rev_cong) (use that ps(2) assms(2) lang_key_inj in \<open>auto simp: page_key_def\<close>)
  ultimately show ?thesis
    by (simp add: ps(1) lookup_page_def GetDefaultBySlug_def GetBySlugLang_def rebuilt_maps page_at_find)
qed

lemma by_slug_map:
  assumes "index_ok idx"
  shows "(GetBySlug idx s = None \<longleftrightarrow> (\<forall>l. page_map (ix_pages idx) (s, l) = None)) \<and>
         (GetBySlug idx s = Some p \<longrightarrow> pg_slug p = s \<and> page_map (ix_pages idx) (s, pg_lang p) = Some p)"
proof -
  obtain ps where ps: "idx = rebuildMaps ps" using assms by (metis index_ok_def)
  have g: "GetBySlug idx s = find (\<lambda>p. pg_slug p = s) (rev ps)"
    by (simp add: ps(1) GetBySlug_def rebuilt_maps page_at_find)
  have "find (\<lambda>p. pg_slug p = s) qs = Some p \<Longrightarrow> pg_slug p = s \<and> find (\<lambda>q. page_key q = (s, pg_lang p)) qs = Some p" for qs
    by (induction qs) (auto simp: page_key_def split: if_splits)
  moreover have "find (\<lambda>p. pg_slug p = s) qs = None \<longleftrightarrow> (\<forall>l. find (\<lambda>q. page_key q = (s, l)) qs = None)" for qs
    by (auto simp: find_None_iff page_key_def)
  ultimately show ?thesis unfolding g page_map_find by (simp add: ps)
qed

datatype index_call = IUpsert source_page | IDelete string | IDeleteLang string string | IClear

fun index_step :: "index_call \<Rightarrow> source_index \<Rightarrow> source_index" where
  "index_step (IUpsert p) idx = Upsert idx p"
| "index_step (IDelete slug) idx = index_delete idx slug"
| "index_step (IDeleteLang slug lang) idx = DeleteLang idx slug lang"
| "index_step IClear idx = ClearAllBuildPending idx"

fun map_step :: "index_call \<Rightarrow> page_map \<Rightarrow> page_map" where
  "map_step (IUpsert p) M = M(page_key p \<mapsto> p)"
| "map_step (IDelete slug) M = (\<lambda>k. if fst k = slug then None else M k)"
| "map_step (IDeleteLang slug lang) M = M((slug, lang) := None)"
| "map_step IClear M = (\<lambda>k. map_option (\<lambda>p. p\<lparr>pg_pending := False\<rparr>) (M k))"

fun plain_call :: "index_call \<Rightarrow> bool" where
  "plain_call (IUpsert p) \<longleftrightarrow> CHR 0x00 \<notin> set (pg_slug p)"
| "plain_call _ \<longleftrightarrow> True"

lemma page_map_append: "page_map (ps @ qs) = page_map ps ++ page_map qs"
  by (simp add: page_map_def)

lemma page_map_filter:
  assumes "\<And>p. p \<in> set ps \<Longrightarrow> P p = R (page_key p)"
  shows "page_map (filter P ps) k = (if R k then page_map ps k else None)"
  using assms
proof (induction ps)
  case (Cons p ps)
  have c: "page_map (p # qs) = page_map [p] ++ page_map qs" for qs using page_map_append [of "[p]" qs] by simp
  show ?case
    using Cons by (auto simp: c [of ps] c [of "filter P ps"] page_map_def [of "[p]"] map_add_def split: option.splits)
qed (simp add: page_map_def)

lemma last_pos_split:
  "last_pos Q 0 ps = Some j \<Longrightarrow> ps = take j ps @ ps ! j # drop (Suc j) ps \<and> j < length ps \<and> Q (ps ! j) \<and> (\<forall>p \<in> set (drop (Suc j) ps). \<not> Q p)"
proof -
  have "last_pos Q i ps = Some j \<Longrightarrow> Q (ps ! (j - i)) \<and> (\<forall>p \<in> set (drop (Suc (j - i)) ps). \<not> Q p)" for i
  proof (induction Q i ps arbitrary: j rule: last_pos.induct)
    case (2 Q i x xs)
    show ?case
    proof (cases "last_pos Q (Suc i) xs")
      case None
      then have "find Q (rev xs) = None" using last_pos_find [of xs "Suc i" Q] by simp
      then show ?thesis using 2(2) None by (auto simp: find_None_iff split: if_splits)
    next
      case (Some k)
      then have "k = j" "i < j" using 2(2) last_pos_bounds [OF Some] by auto
      then show ?thesis using 2(1) [OF Some] by (auto simp: nth_Cons' Suc_diff_Suc)
    qed
  qed simp
  from this [of 0] show "last_pos Q 0 ps = Some j \<Longrightarrow> ?thesis"
    using last_pos_bounds [of Q 0 ps j] id_take_nth_drop [of j ps] by simp
qed

lemma page_map_update:
  assumes "last_pos Q 0 ps = Some j" "\<And>p. p \<in> set ps \<Longrightarrow> Q p = (page_key p = page_key q)"
  shows "page_map (ps[j := q]) = (page_map ps)(page_key q \<mapsto> q)"
proof -
  note S = last_pos_split [OF assms(1)]
  define xs where "xs = take j ps" define ys where "ys = drop (Suc j) ps" define o' where "o' = ps ! j"
  have ps: "ps = xs @ o' # ys" using S by (simp add: xs_def ys_def o'_def)
  have len: "length xs = j" using S by (simp add: xs_def)
  have key: "page_key o' = page_key q" using S assms(2) [of o'] by (simp add: o'_def)
  have "\<forall>p \<in> set ys. page_key p \<noteq> page_key q"
    using S assms(2) unfolding ys_def by (metis in_set_dropD)
  then have ys: "page_map ys (page_key q) = None"
    by (auto simp: page_map_find find_None_iff)
  have u: "ps[j := q] = xs @ q # ys" unfolding ps len [symmetric] by simp
  have c: "page_map (xs @ p # ys) = page_map xs ++ page_map [p] ++ page_map ys" for p
    using page_map_append [of xs "[p] @ ys"] page_map_append [of "[p]" ys] by simp
  show ?thesis
  proof
    fix k show "page_map (ps[j := q]) k = ((page_map ps)(page_key q \<mapsto> q)) k"
      unfolding u unfolding ps c using ys key
      by (cases "k = page_key q") (auto simp: map_add_def page_map_def [of "[_]"] split: option.splits)
  qed
qed

lemma Upsert_map:
  assumes "index_ok idx" "CHR 0x00 \<notin> set (pg_slug q)"
  shows "index_ok (Upsert idx q) \<and> page_map (ix_pages (Upsert idx q)) = (page_map (ix_pages idx))(page_key q \<mapsto> q)"
proof -
  obtain ps where ps: "idx = rebuildMaps ps" "\<forall>p \<in> set ps. CHR 0x00 \<notin> set (pg_slug p)"
    using assms(1) by (metis index_ok_def)
  let ?Q = "\<lambda>p. if pg_lang q \<noteq> '''' then pg_lang p \<noteq> '''' \<and> sourceLangKey (pg_slug p) (pg_lang p) = sourceLangKey (pg_slug q) (pg_lang q)
      else pg_lang p = '''' \<and> pg_slug p = pg_slug q"
  have Q: "?Q p = (page_key p = page_key q)" if "p \<in> set ps" for p
    using ps(2) assms(2) that lang_key_inj by (auto simp: page_key_def)
  have pos: "(if pg_lang q \<noteq> '''' then gget (ix_by_slug_lang idx) (sourceLangKey (pg_slug q) (pg_lang q))
            else gget (ix_by_default idx) (pg_slug q)) = last_pos ?Q 0 ps"
    by (simp add: ps(1) rebuilt_maps)
  show ?thesis
  proof (cases "last_pos ?Q 0 ps")
    case None
    have "Upsert idx q = rebuildMaps (ps @ [q])" unfolding Upsert_def pos None by (simp add: ps(1))
    then show ?thesis using ps assms(2) by (simp add: index_ok_def page_map_append page_map_def [of "[q]"] fun_eq_iff map_add_def)
  next
    case (Some j)
    have "Upsert idx q = rebuildMaps (ps[j := q])" unfolding Upsert_def pos Some by (simp add: ps(1))
    moreover have "\<forall>p \<in> set (ps[j := q]). CHR 0x00 \<notin> set (pg_slug p)"
      using ps(2) assms(2) set_update_subset_insert [of ps j q] by blast
    ultimately show ?thesis using page_map_update [OF Some Q] by (simp add: index_ok_def ps(1))
  qed
qed

lemma rebuild_same_keys:
  "map page_key ps = map page_key qs \<Longrightarrow> rebuild_from i ps idx = rebuild_from i qs idx"
proof (induction ps arbitrary: qs i idx)
  case (Cons p ps)
  then obtain q qs' where q: "qs = q # qs'" "page_key p = page_key q" "map page_key ps = map page_key qs'" by (cases qs) auto
  then have "pg_slug p = pg_slug q" "pg_lang p = pg_lang q" by (simp_all add: page_key_def)
  then show ?case using Cons(1) [OF q(3)] by (simp add: q(1) Let_def)
qed simp

lemma rebuild_pages_update:
  "rebuild_from i ps (idx\<lparr>ix_pages := qs\<rparr>) = (rebuild_from i ps idx)\<lparr>ix_pages := qs\<rparr>"
proof (induction ps arbitrary: i idx)
  case (Cons p ps)
  let ?up = "\<lambda>idx. let idx' = idx\<lparr>ix_by_slug := gput (ix_by_slug idx) (pg_slug p) i\<rparr>
        in if pg_lang p \<noteq> ''''
           then idx'\<lparr>ix_by_slug_lang := gput (ix_by_slug_lang idx) (sourceLangKey (pg_slug p) (pg_lang p)) i\<rparr>
           else idx'\<lparr>ix_by_default := gput (ix_by_default idx) (pg_slug p) i\<rparr>"
  have "?up (idx\<lparr>ix_pages := qs\<rparr>) = (?up idx)\<lparr>ix_pages := qs\<rparr>"
    by (cases idx) (simp add: Let_def)
  then show ?case using Cons [of "Suc i" "?up idx"] by simp
qed simp

lemma find_map: "find P (map f xs) = map_option f (find (\<lambda>x. P (f x)) xs)"
  by (induction xs) auto

interpretation pages: simulation index_ok "\<lambda>idx. page_map (ix_pages idx)" index_step map_step plain_call
proof
  fix idx c assume ok: "index_ok idx" "plain_call c"
  have drop: "index_ok (rebuildMaps (filter P (ix_pages idx)))" for P
    using ok(1) by (auto simp: index_ok_def)
  have "index_ok (index_step c idx) \<and> page_map (ix_pages (index_step c idx)) = map_step c (page_map (ix_pages idx))"
  proof (cases c)
    case (IUpsert p)
    then show ?thesis using Upsert_map [OF ok(1)] ok(2) by simp
  next
    case (IDelete slug)
    have "page_map (filter (\<lambda>p. pg_slug p \<noteq> slug) (ix_pages idx)) k = (if fst k \<noteq> slug then page_map (ix_pages idx) k else None)" for k
      by (rule page_map_filter) (simp add: page_key_def)
    then show ?thesis
      using ok(1) drop IDelete by (auto simp: index_delete_def fun_eq_iff page_map_def [of "[]"])
  next
    case (IDeleteLang slug lang)
    have "page_map (filter (\<lambda>p. \<not> (pg_slug p = slug \<and> pg_lang p = lang)) (ix_pages idx)) k =
        (if k \<noteq> (slug, lang) then page_map (ix_pages idx) k else None)" for k
      by (rule page_map_filter) (auto simp: page_key_def)
    then show ?thesis
      using ok(1) drop IDeleteLang by (auto simp: DeleteLang_def fun_eq_iff page_map_def [of "[]"])
  next
    case IClear
    let ?f = "\<lambda>p::source_page. p\<lparr>pg_pending := False\<rparr>"
    have "map page_key (map ?f (ix_pages idx)) = map page_key (ix_pages idx)" by (simp add: page_key_def)
    note r = rebuild_same_keys [OF this]
    have "rebuildMaps (map ?f (ix_pages idx)) = (rebuildMaps (ix_pages idx))\<lparr>ix_pages := map ?f (ix_pages idx)\<rparr>"
      unfolding rebuildMaps_def r rebuild_pages_update [symmetric] by simp
    moreover have "page_map (map ?f ps) k = map_option ?f (page_map ps k)" for ps k
      unfolding page_map_find rev_map find_map by (simp add: page_key_def)
    ultimately show ?thesis
      using ok(1) IClear by (auto simp: ClearAllBuildPending_def index_ok_def fun_eq_iff)
  qed
  then show "index_ok (index_step c idx)" "page_map (ix_pages (index_step c idx)) = map_step c (page_map (ix_pages idx))"
    by blast+
qed

text \<open>
  C33. The source index is a map. Read from any tree and changed by any sequence of insertions, deletions
  of a page or of one language, and resets of the pending flags, its lookups answer what a plain map
  from slug and language to page would: the last page put under the pair since it was last deleted. A
  lookup by slug alone finds some language of the page, and nothing only when there is none.
\<close>

theorem source_index_is_map:
  assumes new: "NewSourceIndex P arrange dir walk root = Inr idx"
    and names: "\<forall>p \<in> set (ix_pages idx). CHR 0x00 \<notin> set (pg_slug p)"
    and calls: "list_all plain_call calls" and s: "CHR 0x00 \<notin> set s"
  shows "let idx' = fold index_step calls idx; M = fold map_step calls (page_map (ix_pages idx))
         in lookup_page idx' s l = M (s, l) \<and>
            (GetBySlug idx' s = None \<longleftrightarrow> (\<forall>l. M (s, l) = None)) \<and>
            (\<forall>p. GetBySlug idx' s = Some p \<longrightarrow> pg_slug p = s \<and> M (s, pg_lang p) = Some p)"
proof -
  have "index_ok idx"
    using new names by (auto simp: NewSourceIndex_def index_ok_def split: option.splits bool.splits)
  then have "index_ok (fold index_step calls idx)"
    "page_map (ix_pages (fold index_step calls idx)) = fold map_step calls (page_map (ix_pages idx))"
    using pages.run_inv pages.run_view calls by blast+
  note ok = this
  note B = by_slug_map [OF ok(1), of s, unfolded ok(2)]
  show ?thesis
    unfolding Let_def using lookup_map [OF ok(1) s, of l, unfolded ok(2)] B by blast
qed

definition plain_lib :: page_lib where
  "plain_lib = \<lparr>pl_yaml = (\<lambda>s. None), pl_toml = (\<lambda>s. None), pl_sprint = (\<lambda>v. ''''), pl_format_time = (\<lambda>t. ''''),
                pl_parse_time = (\<lambda>l x. None)\<rparr>"

lemma source_index_is_map_witness:
  "let idx = (case NewSourceIndex plain_lib (\<lambda>ps. ps) (Some True) (Some [(''/c/a/index.md'', Some ''x''), (''/c/a/index.fr.md'', Some ''y'')]) ''/c'' of
        Inr i \<Rightarrow> i | Inl e \<Rightarrow> rebuildMaps []);
       calls = [IDeleteLang ''a'' '''', IClear];
       idx' = fold index_step calls idx; M = fold map_step calls (page_map (ix_pages idx))
   in lookup_page idx' ''a'' ''fr'' = M (''a'', ''fr'') \<and> M (''a'', ''fr'') \<noteq> None \<and> M (''a'', '''') = None \<and>
      (GetBySlug idx' ''a'' = None \<longleftrightarrow> (\<forall>l. M (''a'', l) = None)) \<and>
      (\<forall>p. GetBySlug idx' ''a'' = Some p \<longrightarrow> pg_slug p = ''a'' \<and> M (''a'', pg_lang p) = Some p)"
proof -
  let ?new = "NewSourceIndex plain_lib (\<lambda>ps. ps) (Some True) (Some [(''/c/a/index.md'', Some ''x''), (''/c/a/index.fr.md'', Some ''y'')]) ''/c''"
  define idx where "idx = (case ?new of Inr i \<Rightarrow> i | Inl e \<Rightarrow> rebuildMaps [])"
  have new: "?new = Inr idx" by (simp add: idx_def NewSourceIndex_def)
  have names: "\<forall>p \<in> set (ix_pages idx). CHR 0x00 \<notin> set (pg_slug p)"
    unfolding idx_def by code_simp
  have M: "fold map_step [IDeleteLang ''a'' '''', IClear] (page_map (ix_pages idx)) (''a'', ''fr'') \<noteq> None"
    unfolding idx_def by code_simp
  have "CHR 0x00 \<notin> set ''a''" by simp
  from source_index_is_map [OF new names _ this, of "[IDeleteLang ''a'' '''', IClear]" "''fr''"]
  show ?thesis
    unfolding idx_def [symmetric] Let_def using M by simp
qed

end
