(* ===== verification/PageTools.thy ===== *)
theory PageTools
  imports BundleTx Diff ContentModel SourceIndex
begin

text \<open>
  What the tools that write one page share (\<open>content\_plan.go\<close>, \<open>tools.go\<close>, \<open>rollback\_change.go\<close> of
  \<open>internal/tools/write\<close>): the state they change, the parameters of their environment, the replay of a
  recorded answer, the guarded write of a source file and the steps that follow it. The environment of a
  call extends that of the bundle tools. The public index is not modelled: \<open>be_public\<close> says which slugs
  it has. The rate-limit members of the answers are left out, and so is the context that an error carries.
\<close>

section \<open>State and environment\<close>

record page_world =
  pw_files :: files
  pw_journal :: "recovery_table option"
  pw_plans :: "plan_entry ttl_store"
  pw_snaps :: "snapshot_entry ttl_store"
  pw_idem :: idem_store
  pw_sets :: cs_registry
  pw_index :: source_index

text \<open>The content tree that slugs are resolved in, and the faults of the snapshot store.\<close>

record page_env = bundle_env +
  px_tree :: content_view
  px_taken :: "string \<Rightarrow> bool"

record ('a, 'o) page_coders =
  pk_sha :: "string \<Rightarrow> string"
  pk_yaml :: "'a yaml_lib"
  pk_yaml_any :: "string \<Rightarrow> bool"
  pk_yaml_doc :: "string \<Rightarrow> (bool \<times> bool) option"
  pk_plan_enc :: "plan_entry \<Rightarrow> string option"
  pk_plan_dec :: "string \<Rightarrow> plan_entry option"
  pk_snap_enc :: "snapshot_entry \<Rightarrow> string option"
  pk_snap_dec :: "string \<Rightarrow> snapshot_entry option"
  pk_rec_enc :: "recovery_payload \<Rightarrow> string option"
  pk_out_enc :: "'o \<Rightarrow> string option"
  pk_out_dec :: "string \<Rightarrow> 'o option"
  pk_request_hash :: "(string \<times> json) list \<Rightarrow> string option"
  pk_marshal :: "json \<Rightarrow> string"
  pk_meta :: json
  pk_page :: page_lib
  pk_case :: case_table

text \<open>The answers of the tools that write a page; a member that is empty is absent from the coded answer.\<close>

record page_answer =
  pa_status :: string
  pa_slug :: string
  pa_source_key :: string
  pa_lang :: "string option"
  pa_source_path :: "string option"
  pa_plan_id :: string
  pa_dry_run :: bool
  pa_diff :: string
  pa_changed :: "bool option"
  pa_before :: string
  pa_after :: string
  pa_kind :: string
  pa_validation :: string
  pa_warning :: string
  pa_state :: "lifecycle_state option"
  pa_normalized :: "casing_change list"
  pa_ambiguous :: "casing_skipped list"
  pa_tags_delta :: "taxonomy_delta option"
  pa_categories_delta :: "taxonomy_delta option"
  pa_bundle_revision :: string

definition no_answer :: page_answer where
  "no_answer = \<lparr>pa_status = '''', pa_slug = '''', pa_source_key = '''', pa_lang = None, pa_source_path = None,
     pa_plan_id = '''', pa_dry_run = False, pa_diff = '''', pa_changed = None, pa_before = '''', pa_after = '''',
     pa_kind = '''', pa_validation = '''', pa_warning = '''', pa_state = None, pa_normalized = [],
     pa_ambiguous = [], pa_tags_delta = None, pa_categories_delta = None, pa_bundle_revision = ''''\<rparr>"

type_synonym 'a page_lib_of = "('a, page_answer) page_coders"

section \<open>Shared steps\<close>

definition page_rev :: "('a, 'o) page_coders \<Rightarrow> string \<Rightarrow> string" where
  "page_rev L raw = SourceRevisionBytes (pk_sha L) raw"

text \<open>\<open>os.ReadFile\<close>: a file that is missing or cannot be read is an error.\<close>

definition read_page :: "'e bundle_env_scheme \<Rightarrow> files \<Rightarrow> string \<Rightarrow> string option" where
  "read_page env fs p = (if be_unreadable env p then None else gget fs p)"

definition round_trip_fault :: "('a, 'o) page_coders \<Rightarrow> string \<Rightarrow> string option" where
  "round_trip_fault L content =
     map_option (\<lambda>e. ''validation_error: '' @ e)
       (validateFrontmatterRoundTrip (pk_yaml_any L) (pk_yaml_doc L) content)"

definition had_public :: "'e bundle_env_scheme \<Rightarrow> string \<Rightarrow> bool" where
  "had_public env slug \<longleftrightarrow> be_has_index env \<and> be_public env slug"

text \<open>The idempotency step: the hash of the request, and the recorded answer if there is one.\<close>

definition page_replay ::
    "('a, 'o) page_coders \<Rightarrow> 'e bundle_env_scheme \<Rightarrow> page_world \<Rightarrow> string \<Rightarrow> string \<Rightarrow> bool \<Rightarrow>
     (string \<times> json) list \<Rightarrow> page_world \<times> (string \<times> 'o option) go" where
  "page_replay L env w tool key dry request =
     (if dry \<or> blank key then (w, Inr ('''', None))
      else (case pk_request_hash L request of
              None \<Rightarrow> (w, Inl ''internal_error: failed to hash idempotency request'')
            | Some h \<Rightarrow>
                (case replay (pk_out_dec L) (be_replay_fl env) (be_now env) (pw_idem w)
                        (idempotencyCallerKey (be_ctx env)) tool key h of
                   (i, hit, Some err, out) \<Rightarrow> (w\<lparr>pw_idem := i\<rparr>, Inl err)
                 | (i, hit, None, out) \<Rightarrow> (w\<lparr>pw_idem := i\<rparr>, Inr (h, if hit then out else None)))))"

definition page_log :: "('a, 'o) page_coders \<Rightarrow> 'e bundle_env_scheme \<Rightarrow> page_world \<Rightarrow> recovery_operation \<Rightarrow> string \<Rightarrow>
    page_world" where
  "page_log L env w op state =
     w\<lparr>pw_journal := fst (op_record (pk_rec_enc L) (be_rec_fails env state) (be_now env) (pw_journal w) op state)\<rparr>"

text \<open>The intent in the journal, the write and the note that the file is written.\<close>

definition page_write ::
    "('a, 'o) page_coders \<Rightarrow> 'e bundle_env_scheme \<Rightarrow> path_guard \<Rightarrow> page_world \<Rightarrow> string \<Rightarrow> string \<Rightarrow> string \<Rightarrow>
     recovery_idem option \<Rightarrow> page_world \<times> recovery_operation outcome" where
  "page_write L env pg w path before content idem =
     (case beginSourceWriteRecovery (pk_rec_enc L) (be_random env) (be_rec_fails env ''in_progress'') (be_now env)
             (pw_journal w) path before (page_rev L content) idem [] of
        (j, Inl e) \<Rightarrow> (w\<lparr>pw_journal := j\<rparr>, Failed ''persistence_error: failed to record source write intent'')
      | (j, Inr op) \<Rightarrow>
          (let w1 = w\<lparr>pw_journal := j\<rparr>
           in if be_dies env (BeforeWrite path) then (w1, Died)
              else (case AtomicWriteChecked (be_write env path) (be_view env) (be_view env) pg (pw_files w1) path content of
                      (fs, Some e) \<Rightarrow> (w1\<lparr>pw_files := fs\<rparr>, Failed ''write_error: failed to write page'')
                    | (fs, None) \<Rightarrow>
                        (let w2 = w1\<lparr>pw_files := fs\<rparr>
                         in if be_dies env AfterWrites then (w2, Died)
                            else (let w3 = page_log L env w2 op ''file_written''
                                  in if be_dies env AfterLog then (w3, Died) else (w3, Done op))))))"

text \<open>From the staged answer to the end of the handler.\<close>

definition page_remember ::
    "('a, 'o) page_coders \<Rightarrow> 'e bundle_env_scheme \<Rightarrow> page_world \<Rightarrow> string \<Rightarrow> string \<Rightarrow> string \<Rightarrow> 'o \<Rightarrow> page_world" where
  "page_remember L env w tool key idemHash out =
     (if idemHash = '''' then w
      else w\<lparr>pw_idem := fst (remember (pk_out_enc L) (be_remember_fl env) (be_now env) (pw_idem w)
              (idempotencyCallerKey (be_ctx env)) tool key idemHash out)\<rparr>)"

definition page_close ::
    "('a, 'o) page_coders \<Rightarrow> 'e bundle_env_scheme \<Rightarrow> page_world \<Rightarrow> recovery_operation \<Rightarrow> string \<Rightarrow> string \<Rightarrow> string \<Rightarrow>
     string \<Rightarrow> string \<Rightarrow> string \<Rightarrow> 'o \<Rightarrow> page_world \<times> 'o outcome" where
  "page_close L env w op tool key idemHash cs slug action out =
     (case stageResult (pk_rec_enc L) (be_rec_fails env ''staged'') (be_now env) (pw_journal w) op
             (pk_out_enc L out) of
        (j, Inl e) \<Rightarrow> (w\<lparr>pw_journal := j\<rparr>, Failed ''persistence_error: failed to stage recoverable mutation result'')
      | (j, Inr op') \<Rightarrow>
          (let w1 = w\<lparr>pw_journal := j\<rparr>
           in if be_dies env AfterStage then (w1, Died)
              else (let w2 = page_remember L env w1 tool key idemHash out
                    in if be_dies env AfterRemember then (w2, Died)
                       else (let w3 = page_log L env w2 op' ''committed''
                             in if be_dies env AfterCommit then (w3, Died)
                                else (w3\<lparr>pw_sets := RecordMutation (be_cs_record_fails env) (pw_sets w3) cs
                                         (mutationCallerKey (be_ctx env)) tool slug action (be_now env)\<rparr>, Done out)))))"

text \<open>The typed members of an index entry, taken again from the header of the text just written.\<close>

definition resync_dates :: "page_lib \<Rightarrow> (string, yval) gomap \<Rightarrow> source_page \<Rightarrow> source_page" where
  "resync_dates P fm p =
     p\<lparr>pg_fm := fm, pg_date := stringVal P (gget fm ''date''), pg_draft := boolVal (gget fm ''draft''),
       pg_publish := timeVal P (gget fm ''publishDate''), pg_expiry := timeVal P (gget fm ''expiryDate'')\<rparr>"

definition blank_page :: "string \<Rightarrow> string \<Rightarrow> source_page" where
  "blank_page slug lang =
     \<lparr>pg_slug = slug, pg_file_path = '''', pg_lang = lang, pg_title = '''', pg_date = '''', pg_draft = False,
      pg_publish = zero_time, pg_expiry = zero_time, pg_tags = [], pg_categories = [], pg_body = '''',
      pg_fm = [], pg_pending = False\<rparr>"

definition seed_text :: "('a, 'o) page_coders \<Rightarrow> 'e bundle_env_scheme \<Rightarrow> string \<Rightarrow> (string \<times> json) list \<Rightarrow> string" where
  "seed_text L env tool seed = recoveryFallbackResult (pk_marshal L) (pk_meta L) (be_now_text env) tool seed"

end
