(* ===== verification/PagePlan.thy ===== *)
theory PagePlan
  imports PageTools
begin

text \<open>
  \<open>plan_content_change\<close> and \<open>apply_content_plan\<close> (\<open>internal/tools/write/content\_plan.go\<close>): a plan pins
  the revision of a page and holds the text to write; applying it writes that text or nothing.
\<close>

section \<open>Planning\<close>

record plan_input =
  pi_slug :: string
  pi_lang :: string
  pi_operations :: "plan_operation list"

record plan_answer =
  pl_slug :: string
  pl_source_path :: string
  pl_revision :: string
  pl_state :: lifecycle_state
  pl_applied :: "string list"
  pl_rejected :: "rejected_operation list"
  pl_diff :: string
  pl_added :: nat
  pl_removed :: nat
  pl_plan_id :: string
  pl_expires_at :: time
  pl_confirm :: bool

definition planConfirmationLineThreshold :: nat where "planConfirmationLineThreshold = 20"

definition newPlanID :: "string option \<Rightarrow> string go" where
  "newPlanID random =
     (case random of None \<Rightarrow> Inl ''internal_error: failed to allocate plan id'' | Some h \<Rightarrow> Inr (''plan_'' @ h))"

text \<open>The text a plan would write, with the resolved operations.\<close>

definition planned_text ::
    "('a, 'o) page_coders \<Rightarrow> string list \<Rightarrow> plan_operation list \<Rightarrow> string \<Rightarrow> (resolved_ops \<times> string) go" where
  "planned_text L blocked ops raw =
     (case currentTaxonomyFromRaw (pk_yaml L) raw of
        (tags, categories) \<Rightarrow>
          (case resolvePlanOperations tags categories ops blocked of
             Inl e \<Rightarrow> Inl e
           | Inr r \<Rightarrow>
               (case applyPageUpdates (pk_yaml L) raw (rs_title r) (rs_body r) (plan_update r) of
                  Inl e \<Rightarrow> Inl ''parse_error: failed to update frontmatter''
                | Inr content \<Rightarrow>
                    (case round_trip_fault L content of Some e \<Rightarrow> Inl e | None \<Rightarrow> Inr (r, content)))))"

definition plan_entry_of ::
    "('a, 'o) page_coders \<Rightarrow> 'e bundle_env_scheme \<Rightarrow> string \<Rightarrow> resolved_source \<Rightarrow> string \<Rightarrow> resolved_ops \<Rightarrow> string \<Rightarrow>
     plan_entry" where
  "plan_entry_of L env slug src raw r content =
     \<lparr>pe_caller_key = isolationCallerKey (be_ctx env), pe_slug = slug, pe_lang = rs_lang src,
      pe_file_path = rs_path src, pe_revision = page_rev L raw, pe_content = content, pe_title = rs_title r,
      pe_body = rs_body r, pe_tags = pu_tags (plan_update r), pe_categories = pu_categories (plan_update r),
      pe_created_at = be_now env\<rparr>"

definition plan_answer_of ::
    "('a, 'o) page_coders \<Rightarrow> 'e bundle_env_scheme \<Rightarrow> string \<Rightarrow> string \<Rightarrow> string \<Rightarrow> string \<Rightarrow> resolved_ops \<Rightarrow> string \<Rightarrow>
     string \<Rightarrow> plan_answer" where
  "plan_answer_of L env root slug path raw r content planID =
     (let diff = simpleDiff (slug @ ''/'' @ path_base path) raw content
      in case diffLineCounts diff of
           (added, removed) \<Rightarrow>
             \<lparr>pl_slug = canonicalPublicSlug slug, pl_source_path = LogicalContentPath root path,
              pl_revision = page_rev L raw, pl_state = updatePageState (be_has_index env) (had_public env slug),
              pl_applied = rs_applied r, pl_rejected = rs_rejected r, pl_diff = diff, pl_added = added,
              pl_removed = removed, pl_plan_id = planID, pl_expires_at = be_now env + planTTL,
              pl_confirm = (planConfirmationLineThreshold < added + removed)\<rparr>)"

definition handlePlanContentChange ::
    "('a, 'o) page_coders \<Rightarrow> 'e page_env_scheme \<Rightarrow> path_guard \<Rightarrow> bundle_config \<Rightarrow> page_world \<Rightarrow> plan_input \<Rightarrow>
     page_world \<times> plan_answer go" where
  "handlePlanContentChange L env pg cfg w inp =
     (let slug = normalizeInputSlug (pi_slug inp)
      in if slug = '''' then (w, Inl ''invalid_params: slug must not be empty'')
         else (case validateLangParam (pi_lang inp) of
           Inl e \<Rightarrow> (w, Inl e)
         | Inr lang \<Rightarrow>
           (case validateSlugFormat slug of
              Some e \<Rightarrow> (w, Inl e)
            | None \<Rightarrow>
              if pi_operations inp = [] then (w, Inl ''invalid_params: operations must not be empty'')
              else (case SafeJoin (be_view env) pg slug of
                Inl e \<Rightarrow> (w, Inl ''invalid_params: path validation failed'')
              | Inr joined \<Rightarrow>
                (case resolveExistingSource (px_tree env) (bc_content_root cfg) slug lang of
                   Inl e \<Rightarrow> (w, Inl e)
                 | Inr src \<Rightarrow>
                   (case read_page env (pw_files w) (rs_path src) of
                      None \<Rightarrow> (w, Inl ''read_error: failed to read page'')
                    | Some raw \<Rightarrow>
                      (case planned_text L (bc_blocked cfg) (pi_operations inp) raw of
                         Inl e \<Rightarrow> (w, Inl e)
                       | Inr (r, content) \<Rightarrow>
                         (case newPlanID (be_random env) of
                            Inl e \<Rightarrow> (w, Inl e)
                          | Inr planID \<Rightarrow>
                            (case planStore_put (pk_plan_enc L) (pk_plan_dec L) (be_plan_fl env) (be_now env)
                                    (pw_plans w) planID (plan_entry_of L env slug src raw r content) of
                               (ps, Some e) \<Rightarrow>
                                 (w\<lparr>pw_plans := ps\<rparr>, Inl ''persistence_error: failed to persist content plan'')
                             | (ps, None) \<Rightarrow>
                                 (w\<lparr>pw_plans := ps\<rparr>,
                                  Inr (plan_answer_of L env (bc_content_root cfg) slug (rs_path src) raw r content
                                         planID)))))))))))"

section \<open>Applying\<close>

definition page_plan_warning :: string where
  "page_plan_warning = ''source updated but plan consumption could not be persisted''"

definition page_db_warning :: string where
  "page_db_warning = ''source updated but derived DB could not be updated''"

definition consumeAppliedContentPlan ::
    "('a, 'o) page_coders \<Rightarrow> 'e bundle_env_scheme \<Rightarrow> page_world \<Rightarrow> string \<Rightarrow> page_world \<times> string \<times> string" where
  "consumeAppliedContentPlan L env w planID =
     (case planStore_consume (pk_plan_enc L) (pk_plan_dec L) (be_consume_fl env) (be_now env) (pw_plans w)
             planID (isolationCallerKey (be_ctx env)) of
        (ps, r) \<Rightarrow>
          (w\<lparr>pw_plans := ps\<rparr>,
           case r of Inr (Some e) \<Rightarrow> (''updated'', '''') | _ \<Rightarrow> (''partial_success'', page_plan_warning)))"

text \<open>
  The entry of the page in the source index. It starts from the page \<open>GetBySlug\<close> finds, whatever its
  language, and keeps what the plan did not name.
\<close>

definition plan_index_page :: "('a, 'o) page_coders \<Rightarrow> source_index \<Rightarrow> plan_entry \<Rightarrow> source_page" where
  "plan_index_page L idx e =
     (let p0 = (case GetBySlug idx (pe_slug e) of Some p \<Rightarrow> p | None \<Rightarrow> blank_page (pe_slug e) '''');
          p1 = p0\<lparr>pg_file_path := pe_file_path e, pg_lang := pe_lang e\<rparr>;
          p2 = (if pe_title e \<noteq> '''' then p1\<lparr>pg_title := pe_title e\<rparr> else p1);
          p3 = (if pe_body e \<noteq> '''' then p2\<lparr>pg_body := pe_body e\<rparr> else p2);
          p4 = (case pe_tags e of None \<Rightarrow> p3 | Some ts \<Rightarrow> p3\<lparr>pg_tags := ts\<rparr>);
          p5 = (case pe_categories e of None \<Rightarrow> p4 | Some cs \<Rightarrow> p4\<lparr>pg_categories := cs\<rparr>);
          p6 = (case parseFrontmatterMap (pk_yaml L) (pe_content e) of
                  None \<Rightarrow> p5 | Some fm \<Rightarrow> p5\<lparr>pg_fm := fm\<rparr>)
      in p6\<lparr>pg_pending := True\<rparr>)"

definition plan_warnings :: "'e bundle_env_scheme \<Rightarrow> string \<Rightarrow> string \<times> string \<Rightarrow> string \<times> string" where
  "plan_warnings env lang sw =
     (if be_index_warn env lang = '''' then sw
      else (''partial_success'', if snd sw \<noteq> '''' then snd sw @ ''; '' @ page_db_warning else page_db_warning))"

definition plan_applied_answer ::
    "('a, 'o) page_coders \<Rightarrow> 'e bundle_env_scheme \<Rightarrow> string \<Rightarrow> plan_entry \<Rightarrow> string \<times> string \<Rightarrow> page_answer" where
  "plan_applied_answer L env planID e sw =
     no_answer\<lparr>pa_status := fst sw, pa_plan_id := planID, pa_slug := canonicalPublicSlug (pe_slug e),
       pa_before := pe_revision e, pa_after := page_rev L (pe_content e), pa_kind := ''content_snapshot'',
       pa_validation := ''passed'', pa_warning := appendLastBuildWarning (be_last_build env) (snd sw),
       pa_state := Some (updatePageState (be_has_index env) (had_public env (pe_slug e)))\<rparr>"

definition plan_dry_answer :: "'e bundle_env_scheme \<Rightarrow> string \<Rightarrow> plan_entry \<Rightarrow> string \<Rightarrow> page_answer" where
  "plan_dry_answer env planID e raw =
     no_answer\<lparr>pa_status := (if pe_content e \<noteq> raw then ''would_update'' else ''unchanged''),
       pa_plan_id := planID, pa_slug := canonicalPublicSlug (pe_slug e), pa_dry_run := True,
       pa_before := pe_revision e, pa_validation := ''passed'',
       pa_state := Some (updatePageState (be_has_index env) (had_public env (pe_slug e)))\<rparr>"

definition plan_seed :: "('a, 'o) page_coders \<Rightarrow> 'e bundle_env_scheme \<Rightarrow> string \<Rightarrow> plan_entry \<Rightarrow> string \<Rightarrow> string" where
  "plan_seed L env planID e currentRevision =
     seed_text L env ''apply_content_plan''
       [(''plan_id'', JStr planID), (''slug'', JStr (canonicalPublicSlug (pe_slug e))),
        (''before_revision'', JStr currentRevision), (''after_revision'', JStr (page_rev L (pe_content e))),
        (''revision_kind'', JStr ''content_snapshot'')]"

text \<open>Under the content lock, after the write.\<close>

definition content_plan_finish ::
    "'a page_lib_of \<Rightarrow> 'e page_env_scheme \<Rightarrow> page_world \<Rightarrow> recovery_operation \<Rightarrow> plan_entry \<Rightarrow> apply_input \<Rightarrow> string \<Rightarrow>
     string \<Rightarrow> page_world \<times> page_answer outcome" where
  "content_plan_finish L env w op e inp idemHash cs =
     (case consumeAppliedContentPlan L env w (ai_plan_id inp) of
        (w1, sw) \<Rightarrow>
          if be_dies env AfterConsume then (w1, Died)
          else (let w2 = w1\<lparr>pw_index := Upsert (pw_index w1) (plan_index_page L (pw_index w1) e)\<rparr>
                in page_close L env w2 op ''apply_content_plan'' (ai_key inp) idemHash cs (pe_slug e) ''update''
                     (plan_applied_answer L env (ai_plan_id inp) e (plan_warnings env (pe_lang e) sw))))"

definition content_plan_locked ::
    "'a page_lib_of \<Rightarrow> 'e page_env_scheme \<Rightarrow> path_guard \<Rightarrow> page_world \<Rightarrow> plan_entry \<Rightarrow> apply_input \<Rightarrow> bool \<Rightarrow> string \<Rightarrow>
     string \<Rightarrow> page_world \<times> page_answer outcome" where
  "content_plan_locked L env pg w e inp dry idemHash cs =
     (case read_page env (pw_files w) (pe_file_path e) of
        None \<Rightarrow> (w, Failed ''read_error: failed to read page'')
      | Some raw \<Rightarrow>
          if pe_revision e \<noteq> page_rev L raw
          then (w, Failed ''revision_conflict: page changed since the plan was created'')
          else (case round_trip_fault L (pe_content e) of
            Some err \<Rightarrow> (w, Failed err)
          | None \<Rightarrow>
              if dry then (w, Done (plan_dry_answer env (ai_plan_id inp) e raw))
              else (case snapshotStore_put (pk_snap_enc L) (pk_snap_dec L) (be_snap_put_fl env) (be_now env)
                            (pw_snaps w) (pe_file_path e) (pe_revision e) (isolationCallerKey (be_ctx env)) raw of
                      (sn, Some err) \<Rightarrow>
                        (w\<lparr>pw_snaps := sn\<rparr>, Failed ''persistence_error: failed to retain rollback snapshot'')
                    | (sn, None) \<Rightarrow>
                        (let w1 = w\<lparr>pw_snaps := sn\<rparr>
                         in if RevalidateForWrite (be_view env) pg (pe_file_path e) \<noteq> None
                            then (w1, Failed ''security_error: symlink detected in write path'')
                            else (case page_write L env pg w1 (pe_file_path e) (page_rev L raw) (pe_content e)
                                         (recoveryIdempotencyFor (be_ctx env) ''apply_content_plan'' (ai_key inp) idemHash
                                            (plan_seed L env (ai_plan_id inp) e (page_rev L raw))) of
                                    (w2, Failed err) \<Rightarrow> (w2, Failed err)
                                  | (w2, Died) \<Rightarrow> (w2, Died)
                                  | (w2, Done op) \<Rightarrow> content_plan_finish L env w2 op e inp idemHash cs)))))"

definition handleApplyContentPlan ::
    "'a page_lib_of \<Rightarrow> 'e page_env_scheme \<Rightarrow> path_guard \<Rightarrow> bundle_config \<Rightarrow> page_world \<Rightarrow> apply_input \<Rightarrow>
     page_world \<times> page_answer outcome" where
  "handleApplyContentPlan L env pg cfg w inp =
     (let dry = (bc_force_dry_run cfg \<or> ai_dry_run inp)
      in if blank (ai_plan_id inp) then (w, Failed ''invalid_params: plan_id must not be empty'')
         else (case validateIdempotencyKey (ai_key inp) of
           Some err \<Rightarrow> (w, Failed err)
         | None \<Rightarrow>
           (case Resolve (be_cs_read_fails env) (be_cs_touch_fails env) (be_ctx env) (pw_sets w)
                   (ai_change_set inp) (be_now env) of
              (r, Inl err) \<Rightarrow> (w\<lparr>pw_sets := r\<rparr>, Failed err)
            | (r, Inr cs) \<Rightarrow>
              (let w1 = w\<lparr>pw_sets := r\<rparr>
               in if \<not> dry \<and> \<not> be_allow env then (w1, Failed ''rate_limit_exceeded: apply_content_plan'')
                  else (case page_replay L env w1 ''apply_content_plan'' (ai_key inp) dry
                               [(''plan_id'', JStr (ai_plan_id inp))] of
                     (w2, Inl err) \<Rightarrow> (w2, Failed err)
                   | (w2, Inr (idemHash, Some cached)) \<Rightarrow> (w2, Done cached)
                   | (w2, Inr (idemHash, None)) \<Rightarrow>
                     (case planStore_get (pk_plan_enc L) (pk_plan_dec L) (be_plan_fl env) (be_now env) (pw_plans w2)
                             (ai_plan_id inp) (isolationCallerKey (be_ctx env)) of
                        (ps, Inl err) \<Rightarrow> (w2\<lparr>pw_plans := ps\<rparr>, Failed ''persistence_error: failed to load content plan'')
                      | (ps, Inr None) \<Rightarrow>
                          (w2\<lparr>pw_plans := ps\<rparr>, Failed ''plan_not_found: plan_id is unknown or has expired'')
                      | (ps, Inr (Some e)) \<Rightarrow>
                          (let w3 = w2\<lparr>pw_plans := ps\<rparr>
                           in if \<not> be_locked env
                              then (w3, Failed ''build_in_progress: content lock is held, retry in a moment'')
                              else content_plan_locked L env pg w3 e inp dry idemHash cs)))))))"

end
