(* ===== verification/PageRollback.thy ===== *)
theory PageRollback
  imports PagePlan
begin

text \<open>
  \<open>rollback_change\<close> and \<open>list_page_snapshots\<close> (\<open>internal/tools/write/rollback\_change.go\<close>): a page goes
  back to a text that an earlier write of the same caller replaced.
\<close>

section \<open>The handler\<close>

record page_rollback_input =
  rk_slug :: string
  rk_lang :: string
  rk_to_revision :: string
  rk_expected :: string
  rk_idem_key :: string
  rk_change_set :: string
  rk_dry_run :: bool

definition prefixed_slug :: "string \<Rightarrow> string \<Rightarrow> bool" where
  "prefixed_slug slug lang \<longleftrightarrow> lang \<noteq> '''' \<and> has_prefix (lang @ ''/'') (trim_char CHR ''/'' slug)"

definition rollback_checks :: "page_rollback_input \<Rightarrow> string \<Rightarrow> string go" where
  "rollback_checks inp slug =
     (if slug = '''' then Inl ''invalid_params: slug must not be empty''
      else (case validateLangParam (rk_lang inp) of
        Inl e \<Rightarrow> Inl e
      | Inr lang \<Rightarrow>
          if prefixed_slug slug lang then Inl ''language_prefixed_slug_with_explicit_lang: use slug with lang''
          else (case validateSlugFormat slug of
            Some e \<Rightarrow> Inl e
          | None \<Rightarrow>
              if blank (rk_to_revision inp) then Inl ''invalid_params: to_revision must not be empty''
              else (case validateIdempotencyKey (rk_idem_key inp) of Some e \<Rightarrow> Inl e | None \<Rightarrow> Inr lang))))"

definition rollback_db_warning :: string where
  "rollback_db_warning = ''source rolled back but derived DB could not be updated''"

definition restored_title :: "(string, yval) gomap option \<Rightarrow> string" where
  "restored_title fm = (case fm of None \<Rightarrow> '''' | Some m \<Rightarrow> (case gget m ''title'' of Some (YStr t) \<Rightarrow> t | _ \<Rightarrow> ''''))"

text \<open>The index entry: looked up by language, and every member taken from the restored text.\<close>

definition rollback_index_page ::
    "('a, 'o) page_coders \<Rightarrow> source_index \<Rightarrow> string \<Rightarrow> resolved_source \<Rightarrow> string \<Rightarrow> source_page" where
  "rollback_index_page L idx slug src content =
     (let p0 = (if rs_lang src \<noteq> ''''
                then (case GetBySlugLang idx slug (rs_lang src) of
                        Some p \<Rightarrow> p | None \<Rightarrow> blank_page slug (rs_lang src))
                else (case GetDefaultBySlug idx slug of Some p \<Rightarrow> p | None \<Rightarrow> blank_page slug ''''));
          p1 = p0\<lparr>pg_file_path := rs_path src, pg_lang := rs_lang src\<rparr>;
          fm = parseFrontmatterMap (pk_yaml L) content;
          p2 = (if restored_title fm \<noteq> '''' then p1\<lparr>pg_title := restored_title fm\<rparr> else p1);
          p3 = (case fm of None \<Rightarrow> p2 | Some m \<Rightarrow> resync_dates (pk_page L) m p2);
          tax = currentTaxonomyFromRaw (pk_yaml L) content;
          of_nil = (\<lambda>v. case v of None \<Rightarrow> [] | Some xs \<Rightarrow> xs)
      in p3\<lparr>pg_tags := of_nil (fst tax), pg_categories := of_nil (snd tax), pg_body := bodyFromRaw content,
            pg_pending := True\<rparr>)"

definition snapshot_fault :: "('a, 'o) page_coders \<Rightarrow> string list \<Rightarrow> string \<Rightarrow> string option" where
  "snapshot_fault L blocked content =
     (case round_trip_fault L content of
        Some e \<Rightarrow> Some e
      | None \<Rightarrow> map_option (\<lambda>e. ''invalid_params: '' @ e) (rejectDangerousShortcodes content blocked))"

definition rollback_answer ::
    "('a, 'o) page_coders \<Rightarrow> 'e page_env_scheme \<Rightarrow> string \<Rightarrow> resolved_source \<Rightarrow> string \<Rightarrow> string \<Rightarrow> page_answer" where
  "rollback_answer L env slug src before content =
     (let failed = (be_index_warn env (rs_lang src) \<noteq> '''')
      in no_answer\<lparr>pa_status := (if failed then ''partial_success'' else ''restored''),
           pa_slug := canonicalPublicSlug slug, pa_before := before, pa_after := page_rev L content,
           pa_warning := appendLastBuildWarning (be_last_build env) (if failed then rollback_db_warning else ''''),
           pa_state := Some (updatePageState (be_has_index env) (had_public env slug))\<rparr>)"

definition rollback_seed :: "('a, 'o) page_coders \<Rightarrow> 'e bundle_env_scheme \<Rightarrow> string \<Rightarrow> string \<Rightarrow> string \<Rightarrow> string" where
  "rollback_seed L env slug before content =
     seed_text L env ''rollback_change''
       [(''slug'', JStr (canonicalPublicSlug slug)), (''before_revision'', JStr before),
        (''after_revision'', JStr (page_rev L content))]"

text \<open>The snapshot of the present text, the checked write and what follows.\<close>

definition page_rollback_write ::
    "'a page_lib_of \<Rightarrow> 'e page_env_scheme \<Rightarrow> path_guard \<Rightarrow> page_world \<Rightarrow> string \<Rightarrow> resolved_source \<Rightarrow> string \<Rightarrow>
     string \<Rightarrow> page_rollback_input \<Rightarrow> string \<Rightarrow> string \<Rightarrow> page_world \<times> page_answer outcome" where
  "page_rollback_write L env pg w slug src raw content inp idemHash cs =
     (case snapshotStore_put (pk_snap_enc L) (pk_snap_dec L) (be_snap_put_fl env) (be_now env)
             (pw_snaps w) (rs_path src) (page_rev L raw) (isolationCallerKey (be_ctx env)) raw of
        (sn, Some err) \<Rightarrow> (w\<lparr>pw_snaps := sn\<rparr>, Failed ''persistence_error: failed to persist pre-rollback snapshot'')
      | (sn, None) \<Rightarrow>
          (let w1 = w\<lparr>pw_snaps := sn\<rparr>
           in if RevalidateForWrite (be_view env) pg (rs_path src) \<noteq> None
              then (w1, Failed ''security_error: symlink detected in write path'')
              else (case page_write L env pg w1 (rs_path src) (page_rev L raw) content
                           (recoveryIdempotencyFor (be_ctx env) ''rollback_change'' (rk_idem_key inp) idemHash
                              (rollback_seed L env slug (page_rev L raw) content)) of
                      (w2, Failed err) \<Rightarrow> (w2, Failed err)
                    | (w2, Died) \<Rightarrow> (w2, Died)
                    | (w2, Done op) \<Rightarrow>
                        page_close L env
                          (w2\<lparr>pw_index := Upsert (pw_index w2) (rollback_index_page L (pw_index w2) slug src content)\<rparr>)
                          op ''rollback_change'' (rk_idem_key inp) idemHash cs slug ''rollback''
                          (rollback_answer L env slug src (page_rev L raw) content))))"

definition page_rollback_locked ::
    "'a page_lib_of \<Rightarrow> 'e page_env_scheme \<Rightarrow> path_guard \<Rightarrow> bundle_config \<Rightarrow> page_world \<Rightarrow> string \<Rightarrow> resolved_source \<Rightarrow>
     page_rollback_input \<Rightarrow> bool \<Rightarrow> string \<Rightarrow> string \<Rightarrow> page_world \<times> page_answer outcome" where
  "page_rollback_locked L env pg cfg w slug src inp dry idemHash cs =
     (case read_page env (pw_files w) (rs_path src) of
        None \<Rightarrow> (w, Failed ''read_error: failed to read page'')
      | Some raw \<Rightarrow>
          if \<not> dry \<and> blank (rk_expected inp)
          then (w, Failed ''invalid_params: expected_revision is required for non-dry-run rollback_change'')
          else if \<not> dry \<and> rk_expected inp \<noteq> page_rev L raw
          then (w, Failed ''revision_conflict: page changed since it was read'')
          else (case snapshotStore_get (pk_snap_enc L) (pk_snap_dec L) (be_snap_fl env) (be_now env) (pw_snaps w)
                        (rs_path src) (rk_to_revision inp) (isolationCallerKey (be_ctx env)) of
                  (sn, Inl e) \<Rightarrow> (w\<lparr>pw_snaps := sn\<rparr>, Failed ''persistence_error: failed to load rollback snapshot'')
                | (sn, Inr None) \<Rightarrow>
                    (w\<lparr>pw_snaps := sn\<rparr>, Failed ''snapshot_not_found: no snapshot recorded for the revision'')
                | (sn, Inr (Some content)) \<Rightarrow>
                    (let w1 = w\<lparr>pw_snaps := sn\<rparr>
                     in case snapshot_fault L (bc_blocked cfg) content of
                          Some e \<Rightarrow> (w1, Failed e)
                        | None \<Rightarrow>
                            if dry then
                              (w1, Done (no_answer\<lparr>pa_status := ''would_restore'', pa_slug := canonicalPublicSlug slug,
                                 pa_dry_run := True, pa_before := page_rev L raw,
                                 pa_diff := simpleDiff (slug @ ''/'' @ path_base (rs_path src)) raw content\<rparr>))
                            else page_rollback_write L env pg w1 slug src raw content inp idemHash cs)))"

definition rollback_request :: "page_rollback_input \<Rightarrow> string \<Rightarrow> string \<Rightarrow> (string \<times> json) list" where
  "rollback_request inp slug lang =
     [(''slug'', JStr slug)] @ (if lang = '''' then [] else [(''lang'', JStr lang)]) @
     [(''to_revision'', JStr (rk_to_revision inp)), (''expected_revision'', JStr (rk_expected inp))]"

definition handleRollbackChange ::
    "'a page_lib_of \<Rightarrow> 'e page_env_scheme \<Rightarrow> path_guard \<Rightarrow> bundle_config \<Rightarrow> page_world \<Rightarrow> page_rollback_input \<Rightarrow>
     page_world \<times> page_answer outcome" where
  "handleRollbackChange L env pg cfg w inp =
     (let dry = (bc_force_dry_run cfg \<or> rk_dry_run inp); slug = normalizeInputSlug (rk_slug inp)
      in case rollback_checks inp slug of
           Inl e \<Rightarrow> (w, Failed e)
         | Inr lang \<Rightarrow>
           (case Resolve (be_cs_read_fails env) (be_cs_touch_fails env) (be_ctx env) (pw_sets w)
                   (rk_change_set inp) (be_now env) of
              (r, Inl err) \<Rightarrow> (w\<lparr>pw_sets := r\<rparr>, Failed err)
            | (r, Inr cs) \<Rightarrow>
              (let w1 = w\<lparr>pw_sets := r\<rparr>
               in if \<not> dry \<and> \<not> be_allow env then (w1, Failed ''rate_limit_exceeded: rollback_change'')
                  else (case SafeJoin (be_view env) pg slug of
                    Inl e \<Rightarrow> (w1, Failed ''invalid_params: path validation failed'')
                  | Inr joined \<Rightarrow>
                    (case resolveExistingSource (px_tree env) (bc_content_root cfg) slug lang of
                       Inl e \<Rightarrow> (w1, Failed e)
                     | Inr src \<Rightarrow>
                       (case page_replay L env w1 ''rollback_change'' (rk_idem_key inp) dry (rollback_request inp slug lang) of
                          (w2, Inl err) \<Rightarrow> (w2, Failed err)
                        | (w2, Inr (idemHash, Some cached)) \<Rightarrow> (w2, Done cached)
                        | (w2, Inr (idemHash, None)) \<Rightarrow>
                            if \<not> be_locked env
                            then (w2, Failed ''build_in_progress: content lock is held, retry in a moment'')
                            else page_rollback_locked L env pg cfg w2 slug src inp dry idemHash cs))))))"

section \<open>Listing\<close>

record snapshots_answer =
  sa_slug :: string
  sa_source_key :: string
  sa_lang :: string
  sa_snapshots :: "snapshot_listing list"

definition list_page_snapshots ::
    "('a, 'o) page_coders \<Rightarrow> 'e page_env_scheme \<Rightarrow> bundle_config \<Rightarrow>
     ((string \<times> eph_row) list \<Rightarrow> (string \<times> eph_row) list) \<Rightarrow> bool \<Rightarrow> (string \<Rightarrow> bool) \<Rightarrow> page_world \<Rightarrow> string \<Rightarrow> string \<Rightarrow>
     page_world \<times> snapshots_answer go" where
  "list_page_snapshots L env cfg order read_fails del_fails w slug0 lang0 =
     (let slug = normalizeInputSlug slug0
      in if slug = '''' then (w, Inl ''invalid_params: slug must not be empty'')
         else (case validateLangParam lang0 of
           Inl e \<Rightarrow> (w, Inl e)
         | Inr lang \<Rightarrow>
           (case ResolvePageSource (px_tree env) slug lang (bc_content_root cfg) of
              Inl e \<Rightarrow> (w, Inl e)
            | Inr src \<Rightarrow>
              (case snapshotStore_list (pk_snap_enc L) (pk_snap_dec L) order read_fails del_fails (be_now env) (pw_snaps w)
                      (rs_path src) (isolationCallerKey (be_ctx env)) of
                 (sn, Inl e) \<Rightarrow> (w\<lparr>pw_snaps := sn\<rparr>, Inl ''persistence_error: failed to list rollback snapshots'')
               | (sn, Inr items) \<Rightarrow>
                   (w\<lparr>pw_snaps := sn\<rparr>,
                    Inr \<lparr>sa_slug = canonicalPublicSlug slug, sa_source_key = slug, sa_lang = rs_lang src,
                         sa_snapshots = items\<rparr>)))))"

end
