(* ===== verification/PageUpdate.thy ===== *)
theory PageUpdate
  imports PageRollback
begin

text \<open>
  \<open>update_page\<close> (\<open>internal/tools/write/tools.go\<close>): the checks on the input, the surgical patch of the body,
  the guards on the revisions, the write and the reconciled index.
\<close>

section \<open>Inputs\<close>

record update_input =
  ui_page :: string
  ui_page_lang :: string
  ui_title :: string
  ui_body :: "string option"
  ui_old :: "string option"
  ui_new :: "string option"
  ui_section :: bool
  ui_tags :: "string list option"
  ui_categories :: "string list option"
  ui_draft :: "bool option"
  ui_description :: "string option"
  ui_featured :: "string option"
  ui_casing :: bool
  ui_expected :: string
  ui_expected_bundle :: string
  ui_idem_key :: string
  ui_cs :: string
  ui_dry :: bool

definition some_text :: "(string \<Rightarrow> string option) \<Rightarrow> string option \<Rightarrow> string option" where
  "some_text check v = (case v of None \<Rightarrow> None | Some s \<Rightarrow> check s)"

definition nil_list :: "string list option \<Rightarrow> string list" where
  "nil_list v = (case v of None \<Rightarrow> [] | Some xs \<Rightarrow> xs)"

text \<open>The first failing check of a list.\<close>

definition prefix_fault :: "string \<Rightarrow> string option \<Rightarrow> string option" where
  "prefix_fault s e = map_option (\<lambda>x. s @ x) e"

fun first_some :: "'b option list \<Rightarrow> 'b option" where
  "first_some [] = None"
| "first_some (x # xs) = (case x of Some e \<Rightarrow> Some e | None \<Rightarrow> first_some xs)"

definition patch_faults :: "update_input \<Rightarrow> string option" where
  "patch_faults inp =
     (if (ui_old inp = None) \<noteq> (ui_new inp = None)
      then Some ''invalid_params: old_str and new_str must be supplied together''
      else (case ui_old inp of
        None \<Rightarrow> None
      | Some old \<Rightarrow>
          if ui_body inp \<noteq> None then Some ''invalid_params: body is mutually exclusive with old_str/new_str''
          else if old = '''' then Some ''invalid_params: old_str must not be empty''
          else first_some [prefix_fault ''invalid_params: old_str '' (rejectUnsafeText old),
            prefix_fault ''invalid_params: new_str '' (some_text rejectUnsafeText (ui_new inp))]))"

definition validateUpdatePageInput :: "string list \<Rightarrow> update_input \<Rightarrow> string \<Rightarrow> string go" where
  "validateUpdatePageInput blocked inp slug =
     (if slug = '''' then Inl ''invalid_params: slug must not be empty''
      else (case validateLangParam (ui_page_lang inp) of
        Inl e \<Rightarrow> Inl e
      | Inr lang \<Rightarrow>
          (case first_some
             [if slug \<noteq> ''/'' then validateSlugFormat slug else None,
              if ui_title inp \<noteq> '''' then validateTitleFormat (ui_title inp) else None,
              some_text (\<lambda>b. if b \<noteq> '''' then validateBodyFormat b blocked else None) (ui_body inp),
              patch_faults inp,
              prefix_fault ''invalid_params: description '' (some_text rejectUnsafeText (ui_description inp)),
              some_text validateFeaturedImagePath (ui_featured inp),
              validateTaxonomyTerms ''tag'' (nil_list (ui_tags inp)),
              validateTaxonomyTerms ''category'' (nil_list (ui_categories inp)),
              validateIdempotencyKey (ui_idem_key inp)] of
             Some e \<Rightarrow> Inl e
           | None \<Rightarrow> Inr lang)))"

section \<open>The patch of the body\<close>

lemma cut_sub_parts: "cut_sub p s = Some (a, b) \<Longrightarrow> s = a @ p @ b"
  by (induction p s arbitrary: a b rule: cut_sub.induct) (auto simp: has_prefix_iff split: if_splits)

text \<open>\<open>strings.Count\<close> of a text that is not empty: occurrences that do not overlap.\<close>

function count_sub :: "string \<Rightarrow> string \<Rightarrow> nat" where
  "count_sub p s =
     (if p = [] then 0 else (case cut_sub p s of None \<Rightarrow> 0 | Some (a, b) \<Rightarrow> Suc (count_sub p b)))"
  by pat_completeness auto

termination
  by (relation "measure (\<lambda>(p, s). length s)") (auto dest!: cut_sub_parts)

declare count_sub.simps [simp del]

definition applyBodySnippetPatch :: "string \<Rightarrow> string \<Rightarrow> string \<Rightarrow> (string \<times> string) go" where
  "applyBodySnippetPatch fileContent old new =
     (if \<not> has_prefix fm_open fileContent then Inl ''parse_error: failed to locate YAML frontmatter''
      else (case cut_sub fm_close (drop 4 fileContent) of
        None \<Rightarrow> Inl ''parse_error: failed to locate YAML frontmatter''
      | Some (yaml, body) \<Rightarrow>
          let head = fm_open @ yaml @ fm_close
          in if count_sub old body = 0 then Inl ''invalid_params: old_str does not match the current body''
             else if count_sub old body \<noteq> 1
             then Inl ''invalid_params: old_str must match the current body exactly once''
             else (case cut_sub old body of
                     None \<Rightarrow> Inr (head @ body, body)
                   | Some (a, b) \<Rightarrow> Inr (head @ a @ new @ b, a @ new @ b))))"

section \<open>Preparing the text\<close>

record prepared_update =
  pd_content :: string
  pd_body :: "string option"
  pd_tags :: "string list option"
  pd_categories :: "string list option"
  pd_normalized :: "casing_change list"
  pd_ambiguous :: "casing_skipped list"
  pd_tags_delta :: "taxonomy_delta option"
  pd_categories_delta :: "taxonomy_delta option"

definition taxonomyRawForms :: "source_index \<Rightarrow> string \<Rightarrow> (string \<times> string list) list" where
  "taxonomyRawForms idx noun =
     map (\<lambda>p. (pg_lang p, if noun = ''category'' then pg_categories p else pg_tags p)) (ListPages idx 0 0)"

definition cased ::
    "case_table \<Rightarrow> source_index \<Rightarrow> string \<Rightarrow> string \<Rightarrow> string list option \<Rightarrow>
     string list option \<times> casing_change list \<times> casing_skipped list" where
  "cased U idx noun lang terms =
     (case terms of
        None \<Rightarrow> (None, [], [])
      | Some ts \<Rightarrow>
          (case normalizeTaxonomyCasing U (taxonomyRawForms idx noun) noun lang ts of (out, ch, sk) \<Rightarrow> (Some out, ch, sk)))"

definition patched_input ::
    "string list \<Rightarrow> update_input \<Rightarrow> string \<Rightarrow> (string \<times> string option) go" where
  "patched_input blocked inp raw =
     (case (ui_old inp, ui_new inp) of
        (Some old, Some new) \<Rightarrow>
          (case applyBodySnippetPatch raw old new of
             Inl e \<Rightarrow> Inl e
           | Inr (content, body) \<Rightarrow>
               (case validateBodyFormat body blocked of
                  Some e \<Rightarrow> Inl e | None \<Rightarrow> Inr (content, Some (trim_space body))))
      | _ \<Rightarrow> Inr (raw, case ui_body inp of Some b \<Rightarrow> if b \<noteq> '''' then Some b else None | None \<Rightarrow> None))"

definition prepareUpdatePage ::
    "('a, 'o) page_coders \<Rightarrow> string list \<Rightarrow> source_index \<Rightarrow> update_input \<Rightarrow> source_page \<Rightarrow> string \<Rightarrow> string \<Rightarrow>
     prepared_update go" where
  "prepareUpdatePage L blocked idx inp current lang raw =
     (let tagRes = (if ui_casing inp then cased (pk_case L) idx ''tag'' lang (ui_tags inp) else (ui_tags inp, [], []));
          catRes = (if ui_casing inp then cased (pk_case L) idx ''category'' lang (ui_categories inp)
                    else (ui_categories inp, [], []));
          tags = fst tagRes; categories = fst catRes
      in case patched_input blocked inp raw of
           Inl e \<Rightarrow> Inl e
         | Inr (input, body) \<Rightarrow>
             (case applyPageUpdates (pk_yaml L) input (ui_title inp) (case ui_body inp of None \<Rightarrow> '''' | Some b \<Rightarrow> b)
                     \<lparr>pu_tags = tags, pu_categories = categories, pu_draft = ui_draft inp,
                      pu_description = ui_description inp, pu_featured = ui_featured inp\<rparr> of
                Inl e \<Rightarrow> Inl ''parse_error: failed to update frontmatter''
              | Inr content \<Rightarrow>
                  (case round_trip_fault L content of
                     Some e \<Rightarrow> Inl e
                   | None \<Rightarrow>
                       Inr \<lparr>pd_content = content, pd_body = body, pd_tags = tags, pd_categories = categories,
                            pd_normalized = fst (snd tagRes) @ fst (snd catRes),
                            pd_ambiguous = snd (snd tagRes) @ snd (snd catRes),
                            pd_tags_delta = map_option (\<lambda>_. computeTaxonomyDelta (pg_tags current) (nil_list tags)) (ui_tags inp),
                            pd_categories_delta =
                              map_option (\<lambda>_. computeTaxonomyDelta (pg_categories current) (nil_list categories))
                                (ui_categories inp)\<rparr>)))"

section \<open>Guards, index and answers\<close>

text \<open>The limiter is asked once the revision of the request is there, before it is compared.\<close>

definition verifyUpdatePageGuards ::
    "('a, 'o) page_coders \<Rightarrow> 'e bundle_env_scheme \<Rightarrow> path_guard \<Rightarrow> bundle_config \<Rightarrow> files \<Rightarrow> update_input \<Rightarrow> string \<Rightarrow>
     bool \<Rightarrow> string \<Rightarrow> string option" where
  "verifyUpdatePageGuards L env pg cfg fs inp slug dry currentRevision =
     (if dry then None
      else if blank (ui_expected inp)
      then Some ''invalid_params: expected_revision is required for non-dry-run update_page''
      else if \<not> be_allow env then Some ''rate_limit_exceeded: update_page''
      else if ui_expected inp \<noteq> currentRevision
      then Some ''revision_conflict: page changed since it was read''
      else if blank (ui_expected_bundle inp) then None
      else (case resolveBundleDir env pg (bc_content_root cfg) slug of
              Inl e \<Rightarrow> Some ''invalid_params: expected_bundle_revision was supplied but the slug is not a page bundle''
            | Inr (dir, ts) \<Rightarrow>
                (case BundleRevision (pk_sha L) (be_unreadable env) fs dir of
                   Inl e \<Rightarrow> Some ''read_error: failed to compute bundle revision''
                 | Inr r \<Rightarrow>
                     if ui_expected_bundle inp \<noteq> r
                     then Some ''bundle_conflict: a sibling translation or bundle-local asset changed''
                     else None)))"

definition reconcile_page ::
    "('a, 'o) page_coders \<Rightarrow> update_input \<Rightarrow> source_page \<Rightarrow> string \<Rightarrow> string \<Rightarrow> prepared_update \<Rightarrow> source_page" where
  "reconcile_page L inp current lang path d =
     (let p1 = current\<lparr>pg_file_path := path, pg_lang := lang\<rparr>;
          p2 = (if ui_title inp \<noteq> '''' then p1\<lparr>pg_title := ui_title inp\<rparr> else p1);
          p3 = (case pd_body d of None \<Rightarrow> p2 | Some b \<Rightarrow> p2\<lparr>pg_body := b\<rparr>);
          p4 = (case parseFrontmatterMap (pk_yaml L) (pd_content d) of
                  None \<Rightarrow> p3 | Some fm \<Rightarrow> resync_dates (pk_page L) fm p3);
          p5 = (case pd_tags d of None \<Rightarrow> p4 | Some ts \<Rightarrow> p4\<lparr>pg_tags := ts\<rparr>);
          p6 = (case pd_categories d of None \<Rightarrow> p5 | Some cs \<Rightarrow> p5\<lparr>pg_categories := cs\<rparr>)
      in p6\<lparr>pg_pending := True\<rparr>)"

definition dir_revision :: "('a, 'o) page_coders \<Rightarrow> 'e bundle_env_scheme \<Rightarrow> files \<Rightarrow> string \<Rightarrow> string" where
  "dir_revision L env fs path =
     (case BundleRevision (pk_sha L) (be_unreadable env) fs (path_dir path) of Inl e \<Rightarrow> '''' | Inr r \<Rightarrow> r)"

definition hero_hint :: string where
  "hero_hint = ''title changed but featuredImage was left unchanged''"

definition hero_warning :: "update_input \<Rightarrow> source_page \<Rightarrow> string \<Rightarrow> string" where
  "hero_warning inp current warning =
     (if ui_title inp \<noteq> '''' \<and> ui_featured inp = None then
        (case gget (pg_fm current) ''featuredImage'' of
           Some (YStr s) \<Rightarrow>
             if blank s then warning else if warning = '''' then hero_hint else warning @ ''; '' @ hero_hint
         | _ \<Rightarrow> warning)
      else warning)"

definition update_answer ::
    "('a, 'o) page_coders \<Rightarrow> 'e bundle_env_scheme \<Rightarrow> bundle_config \<Rightarrow> files \<Rightarrow> update_input \<Rightarrow> string \<Rightarrow> string \<Rightarrow>
     string \<Rightarrow> prepared_update \<Rightarrow> page_answer" where
  "update_answer L env cfg fs inp slug lang path d =
     no_answer\<lparr>pa_slug := canonicalPublicSlug slug, pa_source_key := sourceKeyForInputSlug slug,
       pa_lang := Some lang, pa_source_path := Some (LogicalContentPath (bc_content_root cfg) path),
       pa_normalized := pd_normalized d, pa_ambiguous := pd_ambiguous d, pa_tags_delta := pd_tags_delta d,
       pa_categories_delta := pd_categories_delta d, pa_bundle_revision := dir_revision L env fs path\<rparr>"

definition buildUpdatePageDryRunOutput ::
    "('a, 'o) page_coders \<Rightarrow> 'e bundle_env_scheme \<Rightarrow> bundle_config \<Rightarrow> files \<Rightarrow> update_input \<Rightarrow> string \<Rightarrow> string \<Rightarrow>
     string \<Rightarrow> string \<Rightarrow> prepared_update \<Rightarrow> page_answer" where
  "buildUpdatePageDryRunOutput L env cfg fs inp slug lang path raw d =
     (let changed = (pd_content d \<noteq> raw)
      in (update_answer L env cfg fs inp slug lang path d)
           \<lparr>pa_status := (if changed then ''would_update'' else ''unchanged''), pa_dry_run := True,
            pa_diff := simpleDiff (slug @ ''/'' @ path_base path) raw (pd_content d), pa_changed := Some changed\<rparr>)"

definition update_done_answer ::
    "('a, 'o) page_coders \<Rightarrow> 'e bundle_env_scheme \<Rightarrow> bundle_config \<Rightarrow> files \<Rightarrow> update_input \<Rightarrow> string \<Rightarrow> string \<Rightarrow>
     string \<Rightarrow> string \<Rightarrow> source_page \<Rightarrow> prepared_update \<Rightarrow> page_answer" where
  "update_done_answer L env cfg fs inp slug lang path raw current d =
     (let changed = (pd_content d \<noteq> raw); failed = (be_index_warn env lang \<noteq> '''');
          warning = hero_warning inp current (if failed then page_db_warning else '''')
      in (update_answer L env cfg fs inp slug lang path d)
           \<lparr>pa_status := (if failed then ''partial_success'' else if changed then ''updated'' else ''unchanged''),
            pa_changed := Some changed, pa_after := page_rev L (pd_content d), pa_kind := ''content_snapshot'',
            pa_warning := appendLastBuildWarning (be_last_build env) warning,
            pa_state := Some (updatePageState (be_has_index env) (had_public env slug))\<rparr>)"

section \<open>The handler\<close>

text \<open>The page of the index that the update starts from.\<close>

definition update_current ::
    "source_index \<Rightarrow> update_input \<Rightarrow> string \<Rightarrow> resolved_source \<Rightarrow> source_page go" where
  "update_current idx inp slug src =
     (let missing = Inl ''not_found: page not found''
      in if rs_section src then
           (if \<not> ui_section inp
            then Inl ''invalid_params: confirm_section_index:true is required to update a Hugo section index''
            else if ui_old inp = None \<or> ui_new inp = None
            then Inl ''invalid_params: section indexes require an old_str/new_str body patch''
            else (case GetByFilePath idx (rs_path src) of None \<Rightarrow> missing | Some p \<Rightarrow> Inr p))
         else (case GetBySlug idx slug of
                 None \<Rightarrow> missing
               | Some p \<Rightarrow>
                   Inr (case GetBySlugLang idx slug (rs_lang src) of Some q \<Rightarrow> q | None \<Rightarrow> p)))"

definition opt_member :: "string \<Rightarrow> bool \<Rightarrow> json \<Rightarrow> (string \<times> json) list" where
  "opt_member k present v = (if present then [(k, v)] else [])"

definition opt_text :: "string \<Rightarrow> string option \<Rightarrow> (string \<times> json) list" where
  "opt_text k v = (case v of None \<Rightarrow> [] | Some s \<Rightarrow> [(k, JStr s)])"

definition opt_list :: "string \<Rightarrow> string list option \<Rightarrow> (string \<times> json) list" where
  "opt_list k v = opt_member k (nil_list v \<noteq> []) (JArr (map JStr (nil_list v)))"

text \<open>The request that is hashed; the casing flag is not part of it.\<close>

definition update_request :: "update_input \<Rightarrow> string \<Rightarrow> string \<Rightarrow> (string \<times> json) list" where
  "update_request inp slug lang =
     [(''slug'', JStr slug)] @ opt_member ''lang'' (lang \<noteq> '''') (JStr lang) @
     opt_member ''title'' (ui_title inp \<noteq> '''') (JStr (ui_title inp)) @ opt_text ''body'' (ui_body inp) @
     opt_text ''old_str'' (ui_old inp) @ opt_text ''new_str'' (ui_new inp) @
     opt_member ''confirm_section_index'' (ui_section inp) (JBool True) @ opt_list ''tags'' (ui_tags inp) @
     opt_list ''categories'' (ui_categories inp) @
     (case ui_draft inp of None \<Rightarrow> [] | Some b \<Rightarrow> [(''draft'', JBool b)]) @
     opt_text ''description'' (ui_description inp) @ opt_text ''featured_image'' (ui_featured inp) @
     opt_member ''expected_revision'' (ui_expected inp \<noteq> '''') (JStr (ui_expected inp)) @
     opt_member ''expected_bundle_revision'' (ui_expected_bundle inp \<noteq> '''') (JStr (ui_expected_bundle inp))"

definition update_seed ::
    "('a, 'o) page_coders \<Rightarrow> 'e bundle_env_scheme \<Rightarrow> bundle_config \<Rightarrow> string \<Rightarrow> resolved_source \<Rightarrow> string \<Rightarrow> string" where
  "update_seed L env cfg slug src content =
     seed_text L env ''update_page''
       [(''slug'', JStr (canonicalPublicSlug slug)), (''source_key'', JStr (sourceKeyForInputSlug slug)),
        (''resolved_lang'', JStr (rs_lang src)),
        (''resolved_source_path'', JStr (LogicalContentPath (bc_content_root cfg) (rs_path src))),
        (''changed'', JBool True), (''new_revision'', JStr (page_rev L content)),
        (''revision_kind'', JStr ''content_snapshot'')]"

definition update_write ::
    "'a page_lib_of \<Rightarrow> 'e page_env_scheme \<Rightarrow> path_guard \<Rightarrow> bundle_config \<Rightarrow> page_world \<Rightarrow> update_input \<Rightarrow> string \<Rightarrow>
     resolved_source \<Rightarrow> string \<Rightarrow> source_page \<Rightarrow> prepared_update \<Rightarrow> string \<Rightarrow> string \<Rightarrow>
     page_world \<times> page_answer outcome" where
  "update_write L env pg cfg w inp slug src raw current d idemHash cs =
     (if RevalidateForWrite (be_view env) pg (rs_path src) \<noteq> None
      then (w, Failed ''security_error: symlink detected in write path'')
      else (case snapshotStore_put (pk_snap_enc L) (pk_snap_dec L) (be_snap_put_fl env) (be_now env)
                    (pw_snaps w) (rs_path src) (page_rev L raw) (isolationCallerKey (be_ctx env)) raw of
              (sn, Some err) \<Rightarrow> (w\<lparr>pw_snaps := sn\<rparr>, Failed ''persistence_error: failed to retain rollback snapshot'')
            | (sn, None) \<Rightarrow>
                (case page_write L env pg (w\<lparr>pw_snaps := sn\<rparr>) (rs_path src) (page_rev L raw) (pd_content d)
                        (recoveryIdempotencyFor (be_ctx env) ''update_page'' (ui_idem_key inp) idemHash
                           (update_seed L env cfg slug src (pd_content d))) of
                   (w2, Failed err) \<Rightarrow> (w2, Failed err)
                 | (w2, Died) \<Rightarrow> (w2, Died)
                 | (w2, Done op) \<Rightarrow>
                     page_close L env
                       (w2\<lparr>pw_index := Upsert (pw_index w2) (reconcile_page L inp current (rs_lang src) (rs_path src) d)\<rparr>)
                       op ''update_page'' (ui_idem_key inp) idemHash cs slug ''update''
                       (update_done_answer L env cfg (pw_files w2) inp slug (rs_lang src) (rs_path src) raw current d))))"

definition update_found ::
    "'a page_lib_of \<Rightarrow> 'e page_env_scheme \<Rightarrow> path_guard \<Rightarrow> bundle_config \<Rightarrow> page_world \<Rightarrow> update_input \<Rightarrow> bool \<Rightarrow>
     string \<Rightarrow> string \<Rightarrow> resolved_source \<Rightarrow> source_page \<Rightarrow> string \<Rightarrow> page_world \<times> page_answer outcome" where
  "update_found L env pg cfg w inp dry slug lang src current cs =
     (case page_replay L env w ''update_page'' (ui_idem_key inp) dry (update_request inp slug lang) of
        (w1, Inl e) \<Rightarrow> (w1, Failed e)
      | (w1, Inr (idemHash, Some cached)) \<Rightarrow> (w1, Done cached)
      | (w1, Inr (idemHash, None)) \<Rightarrow>
          (case read_page env (pw_files w1) (rs_path src) of
             None \<Rightarrow> (w1, Failed ''read_error: failed to read page'')
           | Some raw \<Rightarrow>
               (case verifyUpdatePageGuards L env pg cfg (pw_files w1) inp slug dry (page_rev L raw) of
                  Some e \<Rightarrow> (w1, Failed e)
                | None \<Rightarrow>
                    (case prepareUpdatePage L (bc_blocked cfg) (pw_index w1) inp current (rs_lang src) raw of
                       Inl e \<Rightarrow> (w1, Failed e)
                     | Inr d \<Rightarrow>
                         if dry then
                           (w1, Done (buildUpdatePageDryRunOutput L env cfg (pw_files w1) inp slug (rs_lang src)
                                        (rs_path src) raw d))
                         else update_write L env pg cfg w1 inp slug src raw current d idemHash cs))))"

definition handleUpdatePage ::
    "'a page_lib_of \<Rightarrow> 'e page_env_scheme \<Rightarrow> path_guard \<Rightarrow> bundle_config \<Rightarrow> page_world \<Rightarrow> update_input \<Rightarrow>
     page_world \<times> page_answer outcome" where
  "handleUpdatePage L env pg cfg w inp =
     (let dry = (bc_force_dry_run cfg \<or> ui_dry inp); slug = normalizeInputSlug (ui_page inp)
      in case validateUpdatePageInput (bc_blocked cfg) inp slug of
           Inl e \<Rightarrow> (w, Failed e)
         | Inr lang \<Rightarrow>
           (case Resolve (be_cs_read_fails env) (be_cs_touch_fails env) (be_ctx env) (pw_sets w)
                   (ui_cs inp) (be_now env) of
              (r, Inl err) \<Rightarrow> (w\<lparr>pw_sets := r\<rparr>, Failed err)
            | (r, Inr cs) \<Rightarrow>
              (let w1 = w\<lparr>pw_sets := r\<rparr>
               in if \<not> be_locked env
                  then (w1, Failed ''build_in_progress: content lock is held, retry in a moment'')
                  else (case SafeJoin (be_view env) pg slug of
                    Inl e \<Rightarrow> (w1, Failed ''invalid_params: path validation failed'')
                  | Inr joined \<Rightarrow>
                    (case resolveExistingSource (px_tree env) (bc_content_root cfg) slug lang of
                       Inl e \<Rightarrow> (w1, Failed e)
                     | Inr src \<Rightarrow>
                       (case update_current (pw_index w1) inp slug src of
                          Inl e \<Rightarrow> (w1, Failed e)
                        | Inr current \<Rightarrow> update_found L env pg cfg w1 inp dry slug lang src current cs))))))"

end
