(* ===== verification/PageDelete.thy ===== *)
theory PageDelete
  imports PageUpdate
begin

text \<open>
  \<open>delete\_page\<close> (\<open>internal/tools/write/tools.go\<close>) and the location of hero images
  (\<open>internal/assets/hero.go\<close>). The state and the steps before and after the removal are those of
  \<open>PageTools\<close>. The file map also holds the built site, the hero images and the audit log, which the
  handler cleans up or appends to. The environment adds what the system calls of a removal can answer.
  The notification of the cache network is left out: its outcome changes nothing.
\<close>

section \<open>Inputs and environment\<close>

record delete_input =
  dl_slug :: string
  dl_lang :: string
  dl_expected :: string
  dl_key :: string
  dl_cs :: string
  dl_dry :: bool
  dl_mode :: string
  dl_confirm :: bool

record delete_config = bundle_config +
  dc_require_confirm :: bool
  dc_site_root :: string
  dc_hugo_root :: string

text \<open>
  \<open>dx_stuck\<close> holds for files that \<open>os.Remove\<close> cannot remove, \<open>dx_tree\<close> gives what \<open>os.RemoveAll\<close> leaves
  behind at a path when it fails.
\<close>

record delete_env = page_env +
  dx_cwd :: "string option"
  dx_stuck :: "string \<Rightarrow> bool"
  dx_tree :: "string \<Rightarrow> (string \<Rightarrow> bool) option"
  dx_db_fails :: bool
  dx_shadow_fails :: bool
  dx_audit_fails :: bool
  dx_modified :: "string \<Rightarrow> string"
  dx_backlinks :: "string \<Rightarrow> (string \<times> string \<times> string) list"

record generated_asset =
  ga_name :: string
  ga_path :: string
  ga_kind :: string
  ga_size :: nat
  ga_modified :: string
  ga_sha :: string

record delete_answer =
  dn_status :: string
  dn_slug :: string
  dn_source_key :: string
  dn_lang :: string
  dn_source_path :: string
  dn_dry_run :: bool
  dn_content :: string
  dn_backlinks :: "(string \<times> string \<times> string) list option"
  dn_assets :: "generated_asset list"
  dn_backlinks_count :: "nat option"
  dn_warning :: string
  dn_state :: "lifecycle_state option"
  dn_removed :: "bool option"
  dn_will_remove :: "bool option"

type_synonym 'a delete_lib_of = "('a, delete_answer) page_coders"

section \<open>Hero images\<close>

definition HeroImageSuffix :: string where "HeroImageSuffix = ''-featured.jpg''"

record hero_location =
  hl_abs :: string
  hl_logical :: string
  hl_name :: string

definition logicalHugoRootPath :: "string \<Rightarrow> string \<Rightarrow> string" where
  "logicalHugoRootPath hugoRoot0 absPath0 =
     (let hugoRoot = trim_space hugoRoot0; absPath = trim_space absPath0;
          rest = (if is_abs absPath then '''' else absPath)
      in if absPath = '''' then ''''
         else if hugoRoot = '''' then rest
         else (case path_rel hugoRoot absPath of
                 None \<Rightarrow> rest
               | Some rel \<Rightarrow> if rel \<noteq> '''' \<and> rel \<noteq> ''.'' \<and> \<not> has_prefix ''..'' rel then rel else rest))"

definition ResolveHeroImageLocation :: "fs_view \<Rightarrow> string option \<Rightarrow> string \<Rightarrow> string \<Rightarrow> hero_location go" where
  "ResolveHeroImageLocation v cwd hugoRoot slug =
     (case NewGuard v cwd (path_join [hugoRoot, ''static'', ''images'']) True of
        Inl e \<Rightarrow> Inl e
      | Inr guard \<Rightarrow>
          (case SafeJoin v guard (slug @ HeroImageSuffix) of
             Inl e \<Rightarrow> Inl e
           | Inr target \<Rightarrow>
               Inr \<lparr>hl_abs = target, hl_logical = logicalHugoRootPath hugoRoot target, hl_name = path_base target\<rparr>))"

text \<open>A path that is not in the file map is absent, or a directory, which is not a regular file.\<close>

definition removeHeroImage :: "'e delete_env_scheme \<Rightarrow> files \<Rightarrow> string \<Rightarrow> string \<Rightarrow> files \<times> bool go" where
  "removeHeroImage env fs hugoRoot slug =
     (case ResolveHeroImageLocation (be_view env) (dx_cwd env) hugoRoot slug of
        Inl e \<Rightarrow> (fs, Inl e)
      | Inr loc \<Rightarrow>
          if gget fs (hl_abs loc) = None then (fs, Inr False)
          else if dx_stuck env (hl_abs loc) then (fs, Inl ''remove'')
          else (gdel fs (hl_abs loc), Inr True))"

definition previewGeneratedHeroAssets ::
    "('a, 'o) page_coders \<Rightarrow> 'e delete_env_scheme \<Rightarrow> files \<Rightarrow> string \<Rightarrow> string \<Rightarrow> bool \<Rightarrow> generated_asset list" where
  "previewGeneratedHeroAssets L env fs hugoRoot slug include =
     (if \<not> include \<or> blank hugoRoot then []
      else (case ResolveHeroImageLocation (be_view env) (dx_cwd env) hugoRoot slug of
              Inl e \<Rightarrow> []
            | Inr loc \<Rightarrow>
                (case read_page env fs (hl_abs loc) of
                   None \<Rightarrow> []
                 | Some raw \<Rightarrow>
                     [\<lparr>ga_name = hl_name loc, ga_path = hl_logical loc, ga_kind = ''global_static'', ga_size = length raw,
                       ga_modified = dx_modified env (hl_abs loc), ga_sha = page_rev L raw\<rparr>])))"

section \<open>Checks\<close>

text \<open>\<open>toolcontract.ResolveResponseMode\<close>.\<close>

definition ResolveResponseMode :: "string \<Rightarrow> string go" where
  "ResolveResponseMode raw =
     (if raw = '''' \<or> raw = ''standard'' then Inr ''standard''
      else if raw = ''compact'' then Inr ''compact''
      else if raw = ''full'' \<or> raw = ''ids_only''
      then Inl ''invalid_params: response_mode is reserved for future use and not yet implemented''
      else Inl ''invalid_params: response_mode must be one of: standard, compact'')"

definition validateDeletePageInput :: "delete_input \<Rightarrow> string \<Rightarrow> (string \<times> string) go" where
  "validateDeletePageInput inp slug =
     (if slug = '''' then Inl ''invalid_params: slug must not be empty''
      else (case validateLangParam (dl_lang inp) of
        Inl e \<Rightarrow> Inl e
      | Inr lang \<Rightarrow>
          (case ResolveResponseMode (dl_mode inp) of
             Inl e \<Rightarrow> Inl e
           | Inr mode \<Rightarrow>
               (case validateIdempotencyKey (dl_key inp) of Some e \<Rightarrow> Inl e | None \<Rightarrow> Inr (lang, mode)))))"

text \<open>A slug without a source file is no error when no language was asked for: \<open>None\<close>.\<close>

definition resolveDeletePageSource ::
    "content_view \<Rightarrow> string \<Rightarrow> string \<Rightarrow> string \<Rightarrow> resolved_source option go" where
  "resolveDeletePageSource V slug lang root =
     (case ResolvePageSource V slug lang root of
        Inr src \<Rightarrow> Inr (Some src)
      | Inl e \<Rightarrow>
          if has_prefix ''ambiguous_language:'' e then Inl e
          else if has_prefix ''source_file_not_found:'' e \<and> lang = '''' then Inr None
          else Inl e)"

definition confirm_error :: string where
  "confirm_error = ''invalid_params: this deployment requires confirm_delete_of_published_page:true''"

definition validateDeletePageConfirmation ::
    "('a, 'o) page_coders \<Rightarrow> 'e bundle_env_scheme \<Rightarrow> delete_config \<Rightarrow> files \<Rightarrow> delete_input \<Rightarrow>
     resolved_source option \<Rightarrow> string option" where
  "validateDeletePageConfirmation L env cfg fs inp src =
     (case src of
        None \<Rightarrow> None
      | Some s \<Rightarrow>
          if \<not> dc_require_confirm cfg \<or> dl_confirm inp then None
          else (case ParseFrontmatterFile (pk_page L) (read_page env fs (rs_path s)) of
                  Inl e \<Rightarrow> Some confirm_error
                | Inr fm \<Rightarrow> if boolVal (gget fm ''test_content'') then None else Some confirm_error))"

section \<open>The removal of the source\<close>

definition src_path :: "resolved_source option \<Rightarrow> string" where
  "src_path src = (case src of None \<Rightarrow> '''' | Some s \<Rightarrow> rs_path s)"

definition src_lang :: "resolved_source option \<Rightarrow> string" where
  "src_lang src = (case src of None \<Rightarrow> '''' | Some s \<Rightarrow> rs_lang s)"

text \<open>The entries of a directory once a file is gone.\<close>

definition ls_without ::
    "(string \<Rightarrow> (string \<times> bool) list option) \<Rightarrow> string \<Rightarrow> string \<Rightarrow> (string \<times> bool) list option" where
  "ls_without ls p d = map_option (filter (\<lambda>(n, is_dir). path_join [d, n] \<noteq> p)) (ls d)"

definition delete_cleanup :: "'e bundle_env_scheme \<Rightarrow> string \<Rightarrow> resolved_source option \<Rightarrow> string list" where
  "delete_cleanup env dir src =
     (case src of None \<Rightarrow> []
      | Some s \<Rightarrow> if bundleHasOtherLangFiles (be_ls env) dir (rs_path s) then [] else [dir])"

definition delete_seed ::
    "('a, 'o) page_coders \<Rightarrow> 'e bundle_env_scheme \<Rightarrow> delete_config \<Rightarrow> string \<Rightarrow> resolved_source option \<Rightarrow> bool \<Rightarrow> string" where
  "delete_seed L env cfg slug src full =
     seed_text L env ''delete_page''
       [(''slug'', JStr (canonicalPublicSlug slug)), (''source_key'', JStr slug), (''resolved_lang'', JStr (src_lang src)),
        (''resolved_source_path'', JStr (LogicalContentPath (bc_content_root cfg) (src_path src))),
        (''bundle_fully_removed'', JBool full)]"

text \<open>The files after the removal, and whether the whole directory went; a crash leaves what was done.\<close>

definition remove_source ::
    "'e delete_env_scheme \<Rightarrow> path_guard \<Rightarrow> files \<Rightarrow> string \<Rightarrow> resolved_source option \<Rightarrow> files \<times> bool outcome" where
  "remove_source env pg fs dir src =
     (case src of
        Some s \<Rightarrow>
          if RevalidateForWrite (be_view env) pg (rs_path s) \<noteq> None
          then (fs, Failed ''security_error: symlink detected in delete path'')
          else if gget fs (rs_path s) = None \<or> dx_stuck env (rs_path s)
          then (fs, Failed ''delete_error: failed to delete page'')
          else
            (let fs1 = gdel fs (rs_path s);
                 full = (\<not> bundleHasRemainingLangFiles (ls_without (be_ls env) (rs_path s)) dir)
             in if be_dies env (BeforeWrite dir) then (fs1, Died)
                else if \<not> full then (fs1, Done False)
                else (case remove_all (dx_tree env dir) fs1 dir of
                        (fs2, True) \<Rightarrow> (fs2, Done True)
                      | (fs2, False) \<Rightarrow> (fs2, Failed ''delete_error: failed to delete page'')))
      | None \<Rightarrow>
          (case remove_all (dx_tree env dir) fs dir of
             (fs1, True) \<Rightarrow> (fs1, Done True)
           | (fs1, False) \<Rightarrow> (fs1, Failed ''delete_error: failed to delete page'')))"

definition commitDeletePageSource ::
    "('a, 'o) page_coders \<Rightarrow> 'e delete_env_scheme \<Rightarrow> path_guard \<Rightarrow> delete_config \<Rightarrow> page_world \<Rightarrow> delete_input \<Rightarrow>
     string \<Rightarrow> string \<Rightarrow> resolved_source option \<Rightarrow> string \<Rightarrow> string \<Rightarrow> page_world \<times> (bool \<times> recovery_operation) outcome" where
  "commitDeletePageSource L env pg cfg w inp slug dir src currentRevision idemHash =
     (let cleanup = delete_cleanup env dir src
      in case beginSourceWriteRecovery (pk_rec_enc L) (be_random env) (be_rec_fails env ''in_progress'') (be_now env)
                (pw_journal w) (if src = None then dir else src_path src) currentRevision ''''
                (recoveryIdempotencyFor (be_ctx env) ''delete_page'' (dl_key inp) idemHash
                   (delete_seed L env cfg slug src (cleanup \<noteq> []))) cleanup of
           (j, Inl e) \<Rightarrow> (w\<lparr>pw_journal := j\<rparr>, Failed ''persistence_error: failed to record source delete intent'')
         | (j, Inr op) \<Rightarrow>
             (let w1 = w\<lparr>pw_journal := j\<rparr>
              in if be_dies env (BeforeWrite (src_path src)) then (w1, Died)
                 else (case remove_source env pg (pw_files w1) dir src of
                         (fs, Failed e) \<Rightarrow> (w1\<lparr>pw_files := fs\<rparr>, Failed e)
                       | (fs, Died) \<Rightarrow> (w1\<lparr>pw_files := fs\<rparr>, Died)
                       | (fs, Done full) \<Rightarrow>
                           (let w2 = w1\<lparr>pw_files := fs\<rparr>
                            in if be_dies env AfterWrites then (w2, Died)
                               else (let w3 = page_log L env w2 op ''file_written''
                                     in if be_dies env AfterLog then (w3, Died) else (w3, Done (full, op)))))))"

section \<open>Cleaning up\<close>

definition join_warning :: "string \<Rightarrow> string \<Rightarrow> string" where
  "join_warning old new = (if old \<noteq> '''' then old @ ''; '' @ new else new)"

definition survivor_warning :: string where
  "survivor_warning = ''public output for the removed language was not touched''"

text \<open>The built pages of the slug: files, warning, whether the removal failed, whether anything is degraded.\<close>

definition clean_public ::
    "'e delete_env_scheme \<Rightarrow> delete_config \<Rightarrow> bool \<Rightarrow> files \<Rightarrow> string \<Rightarrow> bool \<Rightarrow> string \<Rightarrow> files \<times> string \<times> bool \<times> bool" where
  "clean_public env cfg has_db fs slug full warning =
     (let publicPath = path_join [dc_site_root cfg, slug]
      in if \<not> full then (fs, if px_taken env publicPath then survivor_warning else warning, False, False)
         else if dc_site_root cfg = '''' then (fs, warning, False, False)
         else (case remove_all (dx_tree env publicPath) fs publicPath of
                 (fs1, False) \<Rightarrow>
                   (fs1, join_warning warning ''source deleted but public output cleanup failed'', True, True)
               | (fs1, True) \<Rightarrow>
                   if has_db \<and> dx_shadow_fails env
                   then (fs1, join_warning warning ''public output removed but derived public shadow could not be updated'',
                         False, True)
                   else (fs1, warning, False, False)))"

definition clean_hero ::
    "'e delete_env_scheme \<Rightarrow> delete_config \<Rightarrow> files \<Rightarrow> string \<Rightarrow> bool \<Rightarrow> string \<Rightarrow> files \<times> string \<times> bool" where
  "clean_hero env cfg fs slug full warning =
     (if full \<and> dc_hugo_root cfg \<noteq> '''' then
        (case removeHeroImage env fs (dc_hugo_root cfg) slug of
           (fs1, Inl e) \<Rightarrow> (fs1, join_warning warning ''hero image cleanup failed'', True)
         | (fs1, Inr removed) \<Rightarrow> (fs1, warning, False))
      else (fs, warning, False))"

definition audit_path :: "delete_config \<Rightarrow> string" where
  "audit_path cfg = path_join [bc_content_root cfg, ''.mcp-audit.log'']"

definition appendAuditLog :: "bool \<Rightarrow> files \<Rightarrow> string \<Rightarrow> string \<Rightarrow> files \<times> bool" where
  "appendAuditLog fails fs path entry =
     (if fails then (fs, False)
      else (gput fs path ((case gget fs path of None \<Rightarrow> '''' | Some old \<Rightarrow> old) @ entry), True))"

definition audit_entry :: "'e bundle_env_scheme \<Rightarrow> string \<Rightarrow> string" where
  "audit_entry env slug = be_now_text env @ '' DELETE '' @ slug @ [CHR 0x0A]"

definition deleted_answer ::
    "delete_config \<Rightarrow> string \<Rightarrow> resolved_source option \<Rightarrow> bool \<Rightarrow> bool \<Rightarrow> string \<Rightarrow> generated_asset list \<Rightarrow>
     lifecycle_state \<Rightarrow> delete_answer" where
  "deleted_answer cfg slug src full degraded warning assets state =
     \<lparr>dn_status = (if degraded then ''partial_success'' else ''deleted''), dn_slug = canonicalPublicSlug slug,
      dn_source_key = slug, dn_lang = src_lang src,
      dn_source_path = LogicalContentPath (bc_content_root cfg) (src_path src), dn_dry_run = False, dn_content = '''',
      dn_backlinks = None, dn_assets = assets, dn_backlinks_count = None, dn_warning = warning, dn_state = Some state,
      dn_removed = Some full, dn_will_remove = None\<rparr>"

definition delete_finish ::
    "('a, 'o) page_coders \<Rightarrow> 'e delete_env_scheme \<Rightarrow> delete_config \<Rightarrow> page_world \<Rightarrow> string \<Rightarrow> resolved_source option \<Rightarrow> bool \<Rightarrow>
     page_world \<times> delete_answer" where
  "delete_finish L env cfg w slug src full =
     (let idx = (if full then index_delete (pw_index w) slug else DeleteLang (pw_index w) slug (src_lang src));
          has_db = (pw_journal w \<noteq> None); db_fails = (has_db \<and> dx_db_fails env);
          warning0 = (if db_fails then ''source deleted but derived DB could not be updated'' else '''');
          public = clean_public env cfg has_db (pw_files w) slug full warning0;
          fs1 = fst public; warning1 = fst (snd public); public_failed = fst (snd (snd public));
          assets = previewGeneratedHeroAssets L env fs1 (dc_hugo_root cfg) slug full;
          hero = clean_hero env cfg fs1 slug full warning1;
          fs2 = fst hero; warning2 = fst (snd hero);
          audit = appendAuditLog (dx_audit_fails env) fs2 (audit_path cfg) (audit_entry env slug);
          warning3 = (if snd audit then warning2 else join_warning warning2 ''audit_error: '');
          degraded = (db_fails \<or> snd (snd (snd public)) \<or> snd (snd hero) \<or> \<not> snd audit);
          state = deletePageState (dc_site_root cfg \<noteq> '''') public_failed db_fails
      in (w\<lparr>pw_files := fst audit, pw_index := idx\<rparr>,
          deleted_answer cfg slug src full degraded warning3 assets state))"

section \<open>The handler\<close>

definition buildDeletePageDryRunOutput ::
    "('a, 'o) page_coders \<Rightarrow> 'e delete_env_scheme \<Rightarrow> delete_config \<Rightarrow> files \<Rightarrow> string \<Rightarrow> string \<Rightarrow> string \<Rightarrow>
     resolved_source option \<Rightarrow> delete_answer" where
  "buildDeletePageDryRunOutput L env cfg fs slug mode dir src =
     (let content = (case src of None \<Rightarrow> '''' | Some s \<Rightarrow>
                       (case read_page env fs (rs_path s) of None \<Rightarrow> '''' | Some raw \<Rightarrow> raw));
          backlinks = (if be_has_index env then dx_backlinks env slug else []);
          shown = (mode \<noteq> ''compact'');
          full = bundleWouldBeFullyRemovedAfterDelete (be_ls env) dir (src_path src)
      in \<lparr>dn_status = ''would_delete'', dn_slug = canonicalPublicSlug slug, dn_source_key = slug, dn_lang = src_lang src,
          dn_source_path = LogicalContentPath (bc_content_root cfg) (src_path src), dn_dry_run = True,
          dn_content = (if shown then content else ''''), dn_backlinks = (if shown then Some backlinks else None),
          dn_assets = previewGeneratedHeroAssets L env fs (dc_hugo_root cfg) slug full,
          dn_backlinks_count = Some (length backlinks), dn_warning = '''', dn_state = None, dn_removed = None,
          dn_will_remove = Some full\<rparr>)"

definition delete_request :: "delete_input \<Rightarrow> string \<Rightarrow> string \<Rightarrow> (string \<times> json) list" where
  "delete_request inp slug lang =
     [(''slug'', JStr slug)] @ opt_member ''lang'' (lang \<noteq> '''') (JStr lang) @
     opt_member ''expected_revision'' (dl_expected inp \<noteq> '''') (JStr (dl_expected inp))"

definition delete_revision ::
    "('a, 'o) page_coders \<Rightarrow> 'e bundle_env_scheme \<Rightarrow> files \<Rightarrow> resolved_source option \<Rightarrow> string go" where
  "delete_revision L env fs src =
     (case src of None \<Rightarrow> Inr ''''
      | Some s \<Rightarrow>
          (case SourceRevision (pk_sha L) (be_unreadable env) fs (rs_path s) of
             Inl e \<Rightarrow> Inl ''read_error: failed to read page revision'' | Inr r \<Rightarrow> Inr r))"

definition delete_write ::
    "'a delete_lib_of \<Rightarrow> 'e delete_env_scheme \<Rightarrow> path_guard \<Rightarrow> delete_config \<Rightarrow> page_world \<Rightarrow> delete_input \<Rightarrow> string \<Rightarrow>
     string \<Rightarrow> resolved_source option \<Rightarrow> string \<Rightarrow> string \<Rightarrow> string \<Rightarrow> page_world \<times> delete_answer outcome" where
  "delete_write L env pg cfg w inp slug dir src currentRevision idemHash cs =
     (case commitDeletePageSource L env pg cfg w inp slug dir src currentRevision idemHash of
        (w1, Failed e) \<Rightarrow> (w1, Failed e)
      | (w1, Died) \<Rightarrow> (w1, Died)
      | (w1, Done (full, op)) \<Rightarrow>
          (case delete_finish L env cfg w1 slug src full of
             (w2, out) \<Rightarrow>
               if be_dies env AfterConsume then (w2, Died)
               else page_close L env w2 op ''delete_page'' (dl_key inp) idemHash cs slug ''delete'' out))"

definition delete_resolved ::
    "'a delete_lib_of \<Rightarrow> 'e delete_env_scheme \<Rightarrow> path_guard \<Rightarrow> delete_config \<Rightarrow> page_world \<Rightarrow> delete_input \<Rightarrow> bool \<Rightarrow> string \<Rightarrow>
     string \<Rightarrow> string \<Rightarrow> resolved_source option \<Rightarrow> string \<Rightarrow> string \<Rightarrow> page_world \<times> delete_answer outcome" where
  "delete_resolved L env pg cfg w inp dry slug mode dir src idemHash cs =
     (if (case src of None \<Rightarrow> False | Some s \<Rightarrow> rs_section s)
      then (w, Failed ''invalid_params: delete_page cannot delete a Hugo section index'')
      else if dry then (w, Done (buildDeletePageDryRunOutput L env cfg (pw_files w) slug mode dir src))
      else if src \<noteq> None \<and> blank (dl_expected inp)
      then (w, Failed ''invalid_params: expected_revision is required for non-dry-run delete_page'')
      else (case validateDeletePageConfirmation L env cfg (pw_files w) inp src of
        Some e \<Rightarrow> (w, Failed e)
      | None \<Rightarrow>
          if \<not> be_allow env then (w, Failed ''rate_limit_exceeded: delete_page'')
          else if \<not> be_locked env then (w, Failed ''build_in_progress: content lock is held, retry in a moment'')
          else (case delete_revision L env (pw_files w) src of
                  Inl e \<Rightarrow> (w, Failed e)
                | Inr currentRevision \<Rightarrow>
                    if dl_expected inp \<noteq> currentRevision
                    then (w, Failed ''revision_conflict: page changed since it was read'')
                    else delete_write L env pg cfg w inp slug dir src currentRevision idemHash cs)))"

definition handleDeletePage ::
    "'a delete_lib_of \<Rightarrow> 'e delete_env_scheme \<Rightarrow> path_guard \<Rightarrow> delete_config \<Rightarrow> page_world \<Rightarrow> delete_input \<Rightarrow>
     page_world \<times> delete_answer outcome" where
  "handleDeletePage L env pg cfg w inp =
     (let dry = (bc_force_dry_run cfg \<or> dl_dry inp); slug = normalizeInputSlug (dl_slug inp)
      in case rejectRootSlug slug of
           Some e \<Rightarrow> (w, Failed e)
         | None \<Rightarrow>
           (case validateDeletePageInput inp slug of
              Inl e \<Rightarrow> (w, Failed e)
            | Inr (lang, mode) \<Rightarrow>
              (case Resolve (be_cs_read_fails env) (be_cs_touch_fails env) (be_ctx env) (pw_sets w)
                      (dl_cs inp) (be_now env) of
                 (r, Inl err) \<Rightarrow> (w\<lparr>pw_sets := r\<rparr>, Failed err)
               | (r, Inr cs) \<Rightarrow>
                 (let w1 = w\<lparr>pw_sets := r\<rparr>
                  in if \<not> dry \<and> \<not> blank (dl_key inp) \<and> \<not> be_locked env
                     then (w1, Failed ''build_in_progress: content lock is held, retry in a moment'')
                     else (case page_replay L env w1 ''delete_page'' (dl_key inp) dry (delete_request inp slug lang) of
                       (w2, Inl err) \<Rightarrow> (w2, Failed err)
                     | (w2, Inr (idemHash, Some cached)) \<Rightarrow> (w2, Done cached)
                     | (w2, Inr (idemHash, None)) \<Rightarrow>
                       (case SafeJoin (be_view env) pg slug of
                          Inl e \<Rightarrow> (w2, Failed ''invalid_params: path validation failed'')
                        | Inr dir \<Rightarrow>
                          if \<not> px_taken env dir then (w2, Failed ''not_found: page not found for slug'')
                          else (case resolveDeletePageSource (px_tree env) slug lang (bc_content_root cfg) of
                                  Inl e \<Rightarrow> (w2, Failed e)
                                | Inr src \<Rightarrow>
                                    delete_resolved L env pg cfg w2 inp dry slug mode dir src idemHash cs)))))))"

end
