(* ===== verification/PageCreate.thy ===== *)
theory PageCreate
  imports PageDelete
begin

text \<open>
  \<open>create\_page\<close> (\<open>internal/tools/write/tools.go\<close>): the checks of a new page, its header, the write that
  must not find a file, and the steps after it, over the state of \<open>PageTools\<close>. The YAML encoding of the
  header record is a parameter, and times are printed by the function of \<open>pk\_page\<close>.
\<close>

section \<open>Inputs\<close>

record test_content =
  tc_ttl_hours :: "int option"
  tc_owner :: string

record create_input =
  cp_slug :: string
  cp_lang :: string
  cp_title :: string
  cp_body :: string
  cp_tags :: "string list option"
  cp_categories :: "string list option"
  cp_casing :: bool
  cp_key :: string
  cp_cs :: string
  cp_dry :: bool
  cp_test :: "test_content option"

record create_config = bundle_config +
  cc_default_lang :: string
  cc_languages :: "string list"

text \<open>The header of a new page, as the encoder gets it.\<close>

record frontmatter_doc =
  fd_title :: string
  fd_date :: string
  fd_tags :: "string list"
  fd_categories :: "string list"
  fd_draft :: bool
  fd_description :: string
  fd_featured :: string
  fd_test :: bool
  fd_owner :: string
  fd_expires :: string

record create_env = page_env +
  cx_stat_fails :: "string \<Rightarrow> bool"

record create_answer =
  cn_status :: string
  cn_slug :: string
  cn_source_key :: string
  cn_path :: string
  cn_lang :: string
  cn_source_path :: string
  cn_dry_run :: bool
  cn_content :: string
  cn_warning :: string
  cn_revision :: string
  cn_kind :: string
  cn_state :: "lifecycle_state option"
  cn_normalized :: "casing_change list"
  cn_ambiguous :: "casing_skipped list"
  cn_expires :: string

type_synonym 'a create_lib_of = "('a, create_answer) page_coders"

section \<open>The new text\<close>

definition testContentDefaultTTLHours :: int where "testContentDefaultTTLHours = 24"

definition testContentMaxTTLHours :: int where "testContentMaxTTLHours = 24 * 7"

definition expiry_text :: "page_lib \<Rightarrow> time \<Rightarrow> test_content \<Rightarrow> string" where
  "expiry_text P now t =
     (let hours = (case tc_ttl_hours t of None \<Rightarrow> testContentDefaultTTLHours | Some h \<Rightarrow> h)
      in pl_format_time P (now + hours * (60 * minute)))"

definition buildFrontmatterWithOptions ::
    "page_lib \<Rightarrow> (frontmatter_doc \<Rightarrow> string) \<Rightarrow> time \<Rightarrow> string \<Rightarrow> string list option \<Rightarrow> string list option \<Rightarrow> string \<Rightarrow>
     bool option \<Rightarrow> string option \<Rightarrow> string option \<Rightarrow> test_content option \<Rightarrow> string \<times> string" where
  "buildFrontmatterWithOptions P marshal now title tags categories body draft description featured test =
     (let text = (\<lambda>v. case v of None \<Rightarrow> '''' | Some s \<Rightarrow> s);
          doc = \<lparr>fd_title = title, fd_date = pl_format_time P now, fd_tags = nil_list tags,
                 fd_categories = nil_list categories, fd_draft = (draft = Some True \<or> test \<noteq> None),
                 fd_description = text description, fd_featured = text featured, fd_test = (test \<noteq> None),
                 fd_owner = (case test of None \<Rightarrow> '''' | Some t \<Rightarrow> tc_owner t),
                 fd_expires = (case test of None \<Rightarrow> '''' | Some t \<Rightarrow> expiry_text P now t)\<rparr>
      in (fm_open @ marshal doc @ ''---'' @ (if body \<noteq> '''' then [CHR 0x0A, CHR 0x0A] @ body else ''''), fd_expires doc))"

definition buildFrontmatter ::
    "page_lib \<Rightarrow> (frontmatter_doc \<Rightarrow> string) \<Rightarrow> time \<Rightarrow> string \<Rightarrow> string list option \<Rightarrow> string list option \<Rightarrow> string \<Rightarrow>
     test_content option \<Rightarrow> string \<times> string" where
  "buildFrontmatter P marshal now title tags categories body test =
     buildFrontmatterWithOptions P marshal now title tags categories body None None None test"

text \<open>The entry of the source index; the header map is the one the handler puts together.\<close>

definition created_page :: "page_lib \<Rightarrow> time \<Rightarrow> create_input \<Rightarrow> string \<Rightarrow> string \<Rightarrow> string \<Rightarrow> string list option \<Rightarrow>
    string list option \<Rightarrow> string \<Rightarrow> source_page" where
  "created_page P now inp slug lang path tags categories expires =
     (let date = pl_format_time P now; draft = (cp_test inp \<noteq> None);
          test = (case cp_test inp of None \<Rightarrow> []
                  | Some t \<Rightarrow> [(''test_content'', YBool True)] @
                      (if tc_owner t \<noteq> '''' then [(''test_content_owner'', YStr (tc_owner t))] else []) @
                      [(''test_content_expires_at'', YStr expires)])
      in (blank_page slug lang)
           \<lparr>pg_file_path := path, pg_title := cp_title inp, pg_date := date, pg_tags := nil_list tags,
            pg_categories := nil_list categories, pg_body := cp_body inp, pg_draft := draft,
            pg_fm := [(''title'', YStr (cp_title inp)), (''date'', YStr date), (''draft'', YBool draft)] @ test,
            pg_pending := True\<rparr>)"

section \<open>Checks\<close>

definition test_content_fault :: "test_content option \<Rightarrow> string option" where
  "test_content_fault test =
     (case test of None \<Rightarrow> None
      | Some t \<Rightarrow>
          (case tc_ttl_hours t of None \<Rightarrow> None
           | Some ttl \<Rightarrow>
               if ttl \<le> 0 \<or> testContentMaxTTLHours < ttl
               then Some ''invalid_params: test_content.ttl_hours must be between 1 and 168 hours when provided''
               else None))"

definition validate_create :: "create_config \<Rightarrow> create_input \<Rightarrow> string \<Rightarrow> string go" where
  "validate_create cfg inp slug =
     (if slug = '''' then Inl ''invalid_params: slug must not be empty''
      else (case validateLangParam (cp_lang inp) of
        Inl e \<Rightarrow> Inl e
      | Inr lang \<Rightarrow>
          (case first_some
             [rejectUnconfiguredLang lang (cc_languages cfg) (cc_default_lang cfg),
              if cp_title inp = '''' then Some ''invalid_params: title must not be empty'' else None,
              map_option (\<lambda>seg. ''invalid_params: slug segment is a Hugo-reserved name'') (reservedSlugConflict slug),
              validateSlugFormat slug, validateTitleFormat (cp_title inp),
              validateBodyFormat (cp_body inp) (bc_blocked cfg),
              validateTaxonomyTerms ''tag'' (nil_list (cp_tags inp)),
              validateTaxonomyTerms ''category'' (nil_list (cp_categories inp)),
              validateIdempotencyKey (cp_key inp)] of
             Some e \<Rightarrow> Inl e | None \<Rightarrow> Inr lang)))"

definition page_file :: "string \<Rightarrow> string \<Rightarrow> string" where
  "page_file dir lang = path_join [dir, if lang \<noteq> '''' then ''index.'' @ lang @ ''.md'' else ''index.md'']"

section \<open>The handler\<close>

record prepared_create =
  pc_content :: string
  pc_expires :: string
  pc_tags :: "string list option"
  pc_categories :: "string list option"
  pc_normalized :: "casing_change list"
  pc_ambiguous :: "casing_skipped list"

definition prepare_create ::
    "('a, 'o) page_coders \<Rightarrow> (frontmatter_doc \<Rightarrow> string) \<Rightarrow> 'e bundle_env_scheme \<Rightarrow> source_index \<Rightarrow> create_input \<Rightarrow> string \<Rightarrow>
     prepared_create go" where
  "prepare_create L marshal env idx inp lang =
     (let tagRes = (if cp_casing inp then cased (pk_case L) idx ''tag'' lang (cp_tags inp) else (cp_tags inp, [], []));
          catRes = (if cp_casing inp then cased (pk_case L) idx ''category'' lang (cp_categories inp)
                    else (cp_categories inp, [], []));
          built = buildFrontmatter (pk_page L) marshal (be_now env) (cp_title inp) (fst tagRes) (fst catRes)
                    (cp_body inp) (cp_test inp)
      in case round_trip_fault L (fst built) of
           Some e \<Rightarrow> Inl e
         | None \<Rightarrow> Inr \<lparr>pc_content = fst built, pc_expires = snd built, pc_tags = fst tagRes, pc_categories = fst catRes,
                        pc_normalized = fst (snd tagRes) @ fst (snd catRes),
                        pc_ambiguous = snd (snd tagRes) @ snd (snd catRes)\<rparr>)"

definition create_answer_of :: "create_config \<Rightarrow> string \<Rightarrow> string \<Rightarrow> string \<Rightarrow> prepared_create \<Rightarrow> create_answer" where
  "create_answer_of cfg slug lang path d =
     \<lparr>cn_status = '''', cn_slug = canonicalPublicSlug slug, cn_source_key = slug, cn_path = '''', cn_lang = lang,
      cn_source_path = LogicalContentPath (bc_content_root cfg) path, cn_dry_run = False, cn_content = '''',
      cn_warning = '''', cn_revision = '''', cn_kind = '''', cn_state = None, cn_normalized = pc_normalized d,
      cn_ambiguous = pc_ambiguous d, cn_expires = pc_expires d\<rparr>"

definition create_dry ::
    "('a, 'o) page_coders \<Rightarrow> 'e create_env_scheme \<Rightarrow> create_config \<Rightarrow> page_world \<Rightarrow> string \<Rightarrow> string \<Rightarrow> string \<Rightarrow>
     prepared_create \<Rightarrow> create_answer outcome" where
  "create_dry L env cfg w slug lang path d =
     (if gget (pw_files w) path \<noteq> None \<or> px_taken env path then Failed ''already_exists: page already exists at slug''
      else if cx_stat_fails env path then Failed ''read_error: failed to inspect destination path''
      else Done ((create_answer_of cfg slug lang path d)
             \<lparr>cn_status := ''would_create'', cn_dry_run := True, cn_content := pc_content d,
              cn_warning := unknownLangWarning lang (Languages (pw_index w)) (cc_default_lang cfg) (cc_languages cfg)\<rparr>))"

definition created_answer ::
    "('a, 'o) page_coders \<Rightarrow> 'e create_env_scheme \<Rightarrow> create_config \<Rightarrow> source_index \<Rightarrow> string \<Rightarrow> string \<Rightarrow> string \<Rightarrow>
     prepared_create \<Rightarrow> create_answer" where
  "created_answer L env cfg idx slug lang path d =
     (let failed = (be_index_warn env lang \<noteq> '''');
          warning0 = (if failed then ''source created but derived DB could not be updated'' else '''');
          langWarning = unknownLangWarning lang (Languages idx) (cc_default_lang cfg) (cc_languages cfg);
          warning = (if langWarning = '''' then warning0
                     else if warning0 \<noteq> '''' then langWarning @ ''; '' @ warning0 else langWarning)
      in (create_answer_of cfg slug lang path d)
           \<lparr>cn_status := (if failed then ''partial_success'' else ''created''),
            cn_path := LogicalContentPath (bc_content_root cfg) path, cn_revision := page_rev L (pc_content d),
            cn_kind := ''content_snapshot'', cn_warning := appendLastBuildWarning (be_last_build env) warning,
            cn_state := Some createPageState\<rparr>)"

definition create_request :: "create_input \<Rightarrow> string \<Rightarrow> string \<Rightarrow> (string \<times> json) list" where
  "create_request inp slug lang =
     (let terms = (\<lambda>v. case v of None \<Rightarrow> JNull | Some ts \<Rightarrow> JArr (map JStr ts))
      in [(''slug'', JStr slug)] @ opt_member ''lang'' (lang \<noteq> '''') (JStr lang) @
         [(''title'', JStr (cp_title inp)), (''body'', JStr (cp_body inp)), (''tags'', terms (cp_tags inp)),
          (''categories'', terms (cp_categories inp))])"

definition create_seed ::
    "('a, 'o) page_coders \<Rightarrow> 'e bundle_env_scheme \<Rightarrow> create_config \<Rightarrow> string \<Rightarrow> string \<Rightarrow> string \<Rightarrow> string \<Rightarrow> string" where
  "create_seed L env cfg slug lang path content =
     (let logical = LogicalContentPath (bc_content_root cfg) path
      in seed_text L env ''create_page''
           [(''slug'', JStr (canonicalPublicSlug slug)), (''source_key'', JStr slug), (''path'', JStr logical),
            (''resolved_lang'', JStr lang), (''resolved_source_path'', JStr logical),
            (''new_revision'', JStr (page_rev L content)), (''revision_kind'', JStr ''content_snapshot'')])"

definition create_file ::
    "('a, 'o) page_coders \<Rightarrow> 'e create_env_scheme \<Rightarrow> path_guard \<Rightarrow> page_world \<Rightarrow> string \<Rightarrow> string \<Rightarrow> recovery_idem option \<Rightarrow>
     page_world \<times> recovery_operation outcome" where
  "create_file L env pg w path content idem =
     (case beginSourceWriteRecovery (pk_rec_enc L) (be_random env) (be_rec_fails env ''in_progress'') (be_now env)
             (pw_journal w) path '''' (page_rev L content) idem [] of
        (j, Inl e) \<Rightarrow> (w\<lparr>pw_journal := j\<rparr>, Failed ''persistence_error: failed to record source create intent'')
      | (j, Inr op) \<Rightarrow>
          (let w1 = w\<lparr>pw_journal := j\<rparr>
           in if be_dies env (BeforeWrite path) then (w1, Died)
              else (case AtomicCreateChecked (be_write env path) (be_view env) (be_view env) (px_taken env) pg
                           (pw_files w1) path content of
                      (fs, Some e) \<Rightarrow>
                        (w1\<lparr>pw_files := fs\<rparr>,
                         Failed (if e = errExist then ''already_exists: page already exists at slug''
                                 else ''write_error: failed to write page''))
                    | (fs, None) \<Rightarrow>
                        (let w2 = w1\<lparr>pw_files := fs\<rparr>
                         in if be_dies env AfterWrites then (w2, Died)
                            else (let w3 = page_log L env w2 op ''file_written''
                                  in if be_dies env AfterLog then (w3, Died) else (w3, Done op))))))"

definition create_locked ::
    "'a create_lib_of \<Rightarrow> 'e create_env_scheme \<Rightarrow> path_guard \<Rightarrow> create_config \<Rightarrow> page_world \<Rightarrow> create_input \<Rightarrow> string \<Rightarrow>
     string \<Rightarrow> string \<Rightarrow> prepared_create \<Rightarrow> string \<Rightarrow> page_world \<times> create_answer outcome" where
  "create_locked L env pg cfg w inp slug lang path d cs =
     (case page_replay L env w ''create_page'' (cp_key inp) False (create_request inp slug lang) of
        (w1, Inl err) \<Rightarrow> (w1, Failed err)
      | (w1, Inr (idemHash, Some cached)) \<Rightarrow> (w1, Done cached)
      | (w1, Inr (idemHash, None)) \<Rightarrow>
          if \<not> be_allow env then (w1, Failed ''rate_limit_exceeded: create_page'')
          else if RevalidateForWrite (be_view env) pg path \<noteq> None
          then (w1, Failed ''security_error: symlink detected in write path'')
          else (case create_file L env pg w1 path (pc_content d)
                       (recoveryIdempotencyFor (be_ctx env) ''create_page'' (cp_key inp) idemHash
                          (create_seed L env cfg slug lang path (pc_content d))) of
                  (w2, Failed err) \<Rightarrow> (w2, Failed err)
                | (w2, Died) \<Rightarrow> (w2, Died)
                | (w2, Done op) \<Rightarrow>
                    page_close L env
                      (w2\<lparr>pw_index := Upsert (pw_index w2) (created_page (pk_page L) (be_now env) inp slug lang path
                             (pc_tags d) (pc_categories d) (pc_expires d))\<rparr>)
                      op ''create_page'' (cp_key inp) idemHash cs slug ''create''
                      (created_answer L env cfg (pw_index w2) slug lang path d)))"

definition handleCreatePage ::
    "'a create_lib_of \<Rightarrow> (frontmatter_doc \<Rightarrow> string) \<Rightarrow> 'e create_env_scheme \<Rightarrow> path_guard \<Rightarrow> create_config \<Rightarrow> page_world \<Rightarrow>
     create_input \<Rightarrow> page_world \<times> create_answer outcome" where
  "handleCreatePage L marshal env pg cfg w inp =
     (let dry = (bc_force_dry_run cfg \<or> cp_dry inp); slug = normalizeInputSlug (cp_slug inp)
      in case validate_create cfg inp slug of
           Inl e \<Rightarrow> (w, Failed e)
         | Inr lang \<Rightarrow>
           (case Resolve (be_cs_read_fails env) (be_cs_touch_fails env) (be_ctx env) (pw_sets w)
                   (cp_cs inp) (be_now env) of
              (r, Inl err) \<Rightarrow> (w\<lparr>pw_sets := r\<rparr>, Failed err)
            | (r, Inr cs) \<Rightarrow>
              (let w1 = w\<lparr>pw_sets := r\<rparr>
               in case test_content_fault (cp_test inp) of
                    Some e \<Rightarrow> (w1, Failed e)
                  | None \<Rightarrow>
                    (case SafeJoin (be_view env) pg slug of
                       Inl e \<Rightarrow> (w1, Failed ''invalid_params: path validation failed'')
                     | Inr dir \<Rightarrow>
                       (case prepare_create L marshal env (pw_index w1) inp lang of
                          Inl e \<Rightarrow> (w1, Failed e)
                        | Inr d \<Rightarrow>
                          if dry then (w1, create_dry L env cfg w1 slug lang (page_file dir lang) d)
                          else if \<not> be_locked env
                          then (w1, Failed ''build_in_progress: content lock is held, retry in a moment'')
                          else create_locked L env pg cfg w1 inp slug lang (page_file dir lang) d cs)))))"

end
