(* ===== verification/PageSafety.thy ===== *)
theory PageSafety
  imports PageUpdate Utf8
begin

text \<open>
  What a call of a tool that writes one page does to the disk and to the two stores, whichever tool it
  is: the locale \<open>page_writer\<close> states it, the three handlers are shown to satisfy it, and the facts about
  plans, snapshots and undoing follow for reachable states of the server.
\<close>

section \<open>The shared steps\<close>

definition same_stores :: "page_world \<Rightarrow> page_world \<Rightarrow> bool" where
  "same_stores w w' \<longleftrightarrow> pw_files w' = pw_files w \<and> pw_plans w' = pw_plans w \<and> pw_snaps w' = pw_snaps w"

lemma same_stores_refl [simp]: "same_stores w w"
  by (simp add: same_stores_def)

lemma same_stores_trans [trans]: "same_stores w w1 \<Longrightarrow> same_stores w1 w2 \<Longrightarrow> same_stores w w2"
  by (simp add: same_stores_def)

lemma same_stores_updates [simp]:
  "same_stores w (w\<lparr>pw_sets := r\<rparr>)" "same_stores w (w\<lparr>pw_idem := i\<rparr>)" "same_stores w (w\<lparr>pw_journal := j\<rparr>)"
  "same_stores w (w\<lparr>pw_index := x\<rparr>)" "same_stores w (page_log L env w op state)"
  "same_stores w (page_remember L env w tool key h out)"
  by (simp_all add: same_stores_def page_log_def page_remember_def)

lemma replay_stores: "page_replay L env w tool key dry req = (w', r) \<Longrightarrow> same_stores w w'"
  by (auto simp: page_replay_def same_stores_def split: if_splits option.splits prod.splits)

lemma replay_index: "page_replay L env w tool key dry req = (w', r) \<Longrightarrow> pw_index w' = pw_index w"
  by (auto simp: page_replay_def split: if_splits option.splits prod.splits)

lemma close_stores: "page_close L env w op tool key h cs slug action out = (w', r) \<Longrightarrow> same_stores w w'"
  by (auto simp: page_close_def same_stores_def Let_def page_log_def page_remember_def
      split: prod.splits sum.splits if_splits)

lemma page_write_stores:
  assumes "page_write L env pg w path before content idem = (w', r)"
  shows "pw_plans w' = pw_plans w" "pw_snaps w' = pw_snaps w"
    and "pw_files w' = pw_files w \<and> (\<forall>op. r \<noteq> Done op) \<or> pw_files w' = gput (pw_files w) path content"
  using assms unfolding page_write_def
  by (auto simp: page_log_def Let_def AtomicWriteChecked_def split: prod.splits sum.splits if_splits option.splits)

section \<open>The contract of a page writer\<close>

definition snap_put ::
    "('a, 'o) page_coders \<Rightarrow> 'e bundle_env_scheme \<Rightarrow> snapshot_entry ttl_store \<Rightarrow> string \<Rightarrow> string \<Rightarrow>
     snapshot_entry ttl_store \<times> string option" where
  "snap_put L env s p raw =
     snapshotStore_put (pk_snap_enc L) (pk_snap_dec L) (be_snap_put_fl env) (be_now env) s p (page_rev L raw)
       (isolationCallerKey (be_ctx env)) raw"

definition snap_got ::
    "('a, 'o) page_coders \<Rightarrow> 'e bundle_env_scheme \<Rightarrow> snapshot_entry ttl_store \<Rightarrow> snapshot_entry ttl_store \<Rightarrow> bool" where
  "snap_got L env s s' \<longleftrightarrow>
     s' = s \<or> (\<exists>fl p rev r. snapshotStore_get (pk_snap_enc L) (pk_snap_dec L) fl (be_now env) s p rev
                         (isolationCallerKey (be_ctx env)) = (s', r))"

text \<open>How the snapshots change: a lookup at most, then a snapshot of a file of the disk at most.\<close>

definition snaps_change ::
    "('a, 'o) page_coders \<Rightarrow> 'e bundle_env_scheme \<Rightarrow> page_world \<Rightarrow> page_world \<Rightarrow> bool" where
  "snaps_change L env w w' \<longleftrightarrow>
     (\<exists>s. snap_got L env (pw_snaps w) s \<and>
        (pw_snaps w' = s \<or>
         (\<exists>p raw r. gget (pw_files w) p = Some raw \<and> snap_put L env s p raw = (pw_snaps w', r))))"

text \<open>How the plans change: a lookup at most, then a consumption at most.\<close>

definition plans_change ::
    "('a, 'o) page_coders \<Rightarrow> 'e bundle_env_scheme \<Rightarrow> page_world \<Rightarrow> page_world \<Rightarrow> bool" where
  "plans_change L env w w' \<longleftrightarrow>
     (\<exists>s. (s = pw_plans w \<or>
           (\<exists>fl i r. planStore_get (pk_plan_enc L) (pk_plan_dec L) fl (be_now env) (pw_plans w) i
                      (isolationCallerKey (be_ctx env)) = (s, r))) \<and>
        (pw_plans w' = s \<or>
           (\<exists>fl i r. planStore_consume (pk_plan_enc L) (pk_plan_dec L) fl (be_now env) s i
                      (isolationCallerKey (be_ctx env)) = (pw_plans w', r))))"

text \<open>One file has a new text, and its old text is a snapshot of the caller.\<close>

definition text_swap ::
    "('a, 'o) page_coders \<Rightarrow> 'e bundle_env_scheme \<Rightarrow> page_world \<Rightarrow> page_world \<Rightarrow> string \<Rightarrow> string \<Rightarrow> string \<Rightarrow> bool" where
  "text_swap L env w w' p old new \<longleftrightarrow>
     gget (pw_files w) p = Some old \<and> pw_files w' = gput (pw_files w) p new \<and>
     (\<exists>s. snap_got L env (pw_snaps w) s \<and> snap_put L env s p old = (pw_snaps w', None))"

lemma same_changes:
  "same_stores w w' \<Longrightarrow> snaps_change L env w w' \<and> plans_change L env w w' \<and> pw_files w' = pw_files w"
  by (auto simp: same_stores_def snaps_change_def plans_change_def snap_got_def)

lemma same_first:
  assumes "same_stores w w1"
  shows "snaps_change L env w1 w' \<Longrightarrow> snaps_change L env w w'"
    and "plans_change L env w1 w' \<Longrightarrow> plans_change L env w w'"
    and "text_swap L env w1 w' p old new \<Longrightarrow> text_swap L env w w' p old new"
    and "pw_files w' = pw_files w1 \<Longrightarrow> pw_files w' = pw_files w"
  using assms by (simp_all add: same_stores_def snaps_change_def plans_change_def text_swap_def)

text \<open>The three facts of the contract, for one pair of states.\<close>

definition page_change :: "('a, 'o) page_coders \<Rightarrow> 'e bundle_env_scheme \<Rightarrow> page_world \<Rightarrow> page_world \<Rightarrow> bool" where
  "page_change L env w w' \<longleftrightarrow> snaps_change L env w w' \<and> plans_change L env w w' \<and>
     (pw_files w' = pw_files w \<or> (\<exists>p old new. text_swap L env w w' p old new))"

lemma same_change: "same_stores w w' \<Longrightarrow> page_change L env w w'"
  unfolding page_change_def using same_changes by blast

lemma page_change_first: "same_stores w w1 \<Longrightarrow> page_change L env w1 w' \<Longrightarrow> page_change L env w w'"
  by (auto simp: page_change_def same_stores_def snaps_change_def plans_change_def text_swap_def)

lemma snap_got_refl: "snap_got L env s s"
  by (simp add: snap_got_def)

lemma got_change:
  "pw_files w' = pw_files w \<Longrightarrow> pw_plans w' = pw_plans w \<Longrightarrow> snap_got L env (pw_snaps w) (pw_snaps w') \<Longrightarrow>
   page_change L env w w'"
  unfolding page_change_def snaps_change_def plans_change_def by blast

text \<open>The common tail of the three handlers: snapshot, write, then steps that leave the stores alone.\<close>

lemma swap_change:
  assumes "gget (pw_files w) p = Some raw" and "snap_got L env (pw_snaps w) s"
    and "snap_put L env s p raw = (sn, r)"
    and "pw_snaps w' = sn" and "plans_change L env w w'"
    and "pw_files w' = pw_files w \<or> pw_files w' = gput (pw_files w) p new \<and> r = None"
  shows "page_change L env w w'"
  using assms unfolding page_change_def snaps_change_def text_swap_def by blast

section \<open>The handlers satisfy the contract\<close>

lemma snaps_step_plans: "pw_plans w' = pw_plans w \<Longrightarrow> plans_change L env w w'"
  by (auto simp: plans_change_def)

lemma finish_stores:
  assumes "content_plan_finish L env w op e inp h cs = (w', r)"
  shows "pw_files w' = pw_files w" and "pw_snaps w' = pw_snaps w"
    and "\<exists>fl q. planStore_consume (pk_plan_enc L) (pk_plan_dec L) fl (be_now env) (pw_plans w) (ai_plan_id inp)
           (isolationCallerKey (be_ctx env)) = (pw_plans w', q)"
proof -
  obtain ps q where c: "planStore_consume (pk_plan_enc L) (pk_plan_dec L) (be_consume_fl env) (be_now env)
      (pw_plans w) (ai_plan_id inp) (isolationCallerKey (be_ctx env)) = (ps, q)" by fastforce
  then obtain w1 sw where f: "consumeAppliedContentPlan L env w (ai_plan_id inp) = (w1, sw)"
      and w1: "w1 = w\<lparr>pw_plans := ps\<rparr>"
    by (simp add: consumeAppliedContentPlan_def)
  have "same_stores w1 w'"
  proof (cases "be_dies env AfterConsume")
    case True
    then show ?thesis using assms f by (simp add: content_plan_finish_def)
  next
    case False
    then have "page_close L env (w1\<lparr>pw_index := Upsert (pw_index w1) (plan_index_page L (pw_index w1) e)\<rparr>) op
        ''apply_content_plan'' (ai_key inp) h cs (pe_slug e) ''update''
        (plan_applied_answer L env (ai_plan_id inp) e (plan_warnings env (pe_lang e) sw)) = (w', r)"
      using assms f by (simp add: content_plan_finish_def Let_def)
    from close_stores [OF this] show ?thesis by (simp add: same_stores_def)
  qed
  then show "pw_files w' = pw_files w" "pw_snaps w' = pw_snaps w"
    "\<exists>fl q. planStore_consume (pk_plan_enc L) (pk_plan_dec L) fl (be_now env) (pw_plans w) (ai_plan_id inp)
       (isolationCallerKey (be_ctx env)) = (pw_plans w', q)"
    using c by (auto simp: same_stores_def w1)
qed

text \<open>Applying under the lock: the disk changes only where the plan says, past every check.\<close>

lemma apply_locked_cases:
  assumes "content_plan_locked L env pg w e inp dry h cs = (w', out)"
  obtains (untouched) "same_stores w w'"
  | (tried) raw sn r where "read_page env (pw_files w) (pe_file_path e) = Some raw" "pe_revision e = page_rev L raw"
      "snap_put L env (pw_snaps w) (pe_file_path e) raw = (sn, r)" "pw_snaps w' = sn" "\<not> dry"
      "pw_plans w' = pw_plans w \<or> (\<exists>fl i q. planStore_consume (pk_plan_enc L) (pk_plan_dec L) fl (be_now env)
         (pw_plans w) i (isolationCallerKey (be_ctx env)) = (pw_plans w', q))"
      "pw_files w' = pw_files w \<or> pw_files w' = gput (pw_files w) (pe_file_path e) (pe_content e) \<and> r = None"
proof (cases "read_page env (pw_files w) (pe_file_path e)")
  case None
  then show ?thesis using assms untouched by (simp add: content_plan_locked_def)
next
  case (Some raw)
  show ?thesis
  proof (cases "pe_revision e = page_rev L raw \<and> round_trip_fault L (pe_content e) = None \<and> \<not> dry")
    case False
    then show ?thesis using assms untouched Some
      by (auto simp: content_plan_locked_def split: if_splits option.splits)
  next
    case True
    obtain sn r where put: "snap_put L env (pw_snaps w) (pe_file_path e) raw = (sn, r)" by fastforce
    note put' = put [unfolded snap_put_def]
    let ?w1 = "w\<lparr>pw_snaps := sn\<rparr>"
    show ?thesis
    proof (cases "r = None \<and> RevalidateForWrite (be_view env) pg (pe_file_path e) = None")
      case False
      then have "w' = ?w1" using assms Some True put'
        by (auto simp: content_plan_locked_def Let_def split: option.splits)
      then show ?thesis using tried [OF Some _ put] True by simp
    next
      case ok: True
      obtain w2 q where wr: "page_write L env pg ?w1 (pe_file_path e) (page_rev L raw) (pe_content e)
          (recoveryIdempotencyFor (be_ctx env) ''apply_content_plan'' (ai_key inp) h
             (plan_seed L env (ai_plan_id inp) e (page_rev L raw))) = (w2, q)" by fastforce
      note W = page_write_stores [OF wr]
      show ?thesis
      proof (cases q)
        case (Done op)
        have "content_plan_finish L env w2 op e inp h cs = (w', out)"
          using assms Some True put' ok wr Done by (simp add: content_plan_locked_def Let_def)
        note F = finish_stores [OF this]
        show ?thesis
          by (rule tried [OF Some _ put]) (use True ok W F in \<open>auto simp: Done\<close>)
      next
        case (Failed err)
        then have "w' = w2" using assms Some True put' ok wr by (simp add: content_plan_locked_def Let_def)
        then show ?thesis
          by (intro tried [OF Some _ put]) (use True ok W in auto)
      next
        case Died
        then have "w' = w2" using assms Some True put' ok wr by (simp add: content_plan_locked_def Let_def)
        then show ?thesis
          by (intro tried [OF Some _ put]) (use True ok W in auto)
      qed
    qed
  qed
qed

definition plan_got ::
    "('a, 'o) page_coders \<Rightarrow> 'e bundle_env_scheme \<Rightarrow> plan_entry ttl_store \<Rightarrow> string \<Rightarrow>
     plan_entry ttl_store \<times> plan_entry option go" where
  "plan_got L env s i =
     planStore_get (pk_plan_enc L) (pk_plan_dec L) (be_plan_fl env) (be_now env) s i (isolationCallerKey (be_ctx env))"

lemma apply_cases:
  assumes "handleApplyContentPlan L env pg cfg w inp = (w', out)"
  obtains (untouched) "pw_files w' = pw_files w" "pw_snaps w' = pw_snaps w"
      "pw_plans w' = pw_plans w \<or> pw_plans w' = fst (plan_got L env (pw_plans w) (ai_plan_id inp))"
  | (looked) e w1 h cs where "plan_got L env (pw_plans w) (ai_plan_id inp) = (pw_plans w1, Inr (Some e))"
      "pw_files w1 = pw_files w" "pw_snaps w1 = pw_snaps w"
      "content_plan_locked L env pg w1 e inp (bc_force_dry_run cfg \<or> ai_dry_run inp) h cs = (w', out)"
proof -
  let ?dry = "bc_force_dry_run cfg \<or> ai_dry_run inp"
  let ?resolve = "Resolve (be_cs_read_fails env) (be_cs_touch_fails env) (be_ctx env) (pw_sets w) (ai_change_set inp) (be_now env)"
  obtain r q where R: "?resolve = (r, q)" by fastforce
  show ?thesis
  proof (cases "blank (ai_plan_id inp) \<or> validateIdempotencyKey (ai_key inp) \<noteq> None \<or> (\<exists>e. q = Inl e) \<or>
      \<not> ?dry \<and> \<not> be_allow env")
    case True
    then have "same_stores w w'"
      using assms R by (auto simp: handleApplyContentPlan_def Let_def split: if_splits option.splits sum.splits)
    then show ?thesis using untouched by (simp add: same_stores_def)
  next
    case False
    then obtain cs where cs: "q = Inr cs" by (cases q) auto
    obtain w2 p where P: "page_replay L env (w\<lparr>pw_sets := r\<rparr>) ''apply_content_plan'' (ai_key inp) ?dry
        [(''plan_id'', JStr (ai_plan_id inp))] = (w2, p)" by fastforce
    have same: "same_stores w w2" using replay_stores [OF P] by (simp add: same_stores_def)
    note step = assms [unfolded handleApplyContentPlan_def Let_def]
    show ?thesis
    proof (cases "\<exists>h. p = Inr (h, None)")
      case False
      then have "w' = w2" using step \<open>\<not> (blank _ \<or> _)\<close> R cs P
        by (auto split: sum.splits option.splits if_splits)
      then show ?thesis using untouched same by (simp add: same_stores_def)
    next
      case True
      then obtain h where h: "p = Inr (h, None)" by blast
      obtain ps g where G: "plan_got L env (pw_plans w2) (ai_plan_id inp) = (ps, g)" by fastforce
      note G' = G [unfolded plan_got_def]
      show ?thesis
      proof (cases "(\<exists>e. g = Inr (Some e)) \<and> be_locked env")
        case False
        then have "w' = w2\<lparr>pw_plans := ps\<rparr>" using step \<open>\<not> (blank _ \<or> _)\<close> R cs P h G'
          by (auto simp: Let_def split: sum.splits option.splits if_splits)
        then show ?thesis using untouched same G by (simp add: same_stores_def)
      next
        case True
        then obtain e where e: "g = Inr (Some e)" by blast
        have "content_plan_locked L env pg (w2\<lparr>pw_plans := ps\<rparr>) e inp ?dry h cs = (w', out)"
          using step \<open>\<not> (blank _ \<or> _)\<close> R cs P h G' e True
          by (auto simp: Let_def split: option.splits if_splits)
        then show ?thesis using looked [of "w2\<lparr>pw_plans := ps\<rparr>" e h cs] G e same by (simp add: same_stores_def)
      qed
    qed
  qed
qed

lemma consumed_plans:
  assumes "pw_plans w1 = s" and "s = pw_plans w \<or> plan_got L env (pw_plans w) i = (s, r)"
    and "pw_plans w' = pw_plans w1 \<or> (\<exists>fl j q. planStore_consume (pk_plan_enc L) (pk_plan_dec L) fl (be_now env)
           (pw_plans w1) j (isolationCallerKey (be_ctx env)) = (pw_plans w', q))"
  shows "plans_change L env w w'"
  using assms unfolding plans_change_def plan_got_def by blast

lemma apply_change: "handleApplyContentPlan L env pg cfg w inp = (w', out) \<Longrightarrow> page_change L env w w'"
proof (erule apply_cases)
  assume same: "pw_files w' = pw_files w" "pw_snaps w' = pw_snaps w"
    and "pw_plans w' = pw_plans w \<or> pw_plans w' = fst (plan_got L env (pw_plans w) (ai_plan_id inp))"
  then have "plans_change L env w w'"
    by (intro consumed_plans [of w' _ w L env "ai_plan_id inp" "snd (plan_got L env (pw_plans w) (ai_plan_id inp))"]) auto
  then show ?thesis using same by (auto simp: page_change_def snaps_change_def snap_got_def)
next
  fix e w1 h cs
  assume g: "plan_got L env (pw_plans w) (ai_plan_id inp) = (pw_plans w1, Inr (Some e))"
    and same: "pw_files w1 = pw_files w" "pw_snaps w1 = pw_snaps w"
    and "content_plan_locked L env pg w1 e inp (bc_force_dry_run cfg \<or> ai_dry_run inp) h cs = (w', out)"
  from this(4) show ?thesis
  proof (cases rule: apply_locked_cases)
    case untouched
    then have "plans_change L env w w'"
      using g by (intro consumed_plans [of w1 "pw_plans w1" w L env "ai_plan_id inp" "Inr (Some e)"]) (auto simp: same_stores_def)
    then show ?thesis using untouched same by (auto simp: page_change_def same_stores_def snaps_change_def snap_got_def)
  next
    case (tried raw sn r)
    have "gget (pw_files w) (pe_file_path e) = Some raw"
      using tried(1) same by (simp add: read_page_def split: if_splits)
    then show ?thesis
    proof (rule swap_change)
      show "snap_got L env (pw_snaps w) (pw_snaps w)" by (simp add: snap_got_def)
      show "snap_put L env (pw_snaps w) (pe_file_path e) raw = (sn, r)" using tried(3) same by simp
      show "plans_change L env w w'" using g tried(6) by (intro consumed_plans [OF refl]) auto
    qed (use tried same in auto)
  qed
qed

text \<open>A snapshot as the rollback looks it up.\<close>

definition snap_get ::
    "('a, 'o) page_coders \<Rightarrow> 'e bundle_env_scheme \<Rightarrow> snapshot_entry ttl_store \<Rightarrow> string \<Rightarrow> string \<Rightarrow>
     snapshot_entry ttl_store \<times> string option go" where
  "snap_get L env s p revision =
     snapshotStore_get (pk_snap_enc L) (pk_snap_dec L) (be_snap_fl env) (be_now env) s p revision
       (isolationCallerKey (be_ctx env))"

lemma snap_get_got: "snap_get L env s p revision = (s', r) \<Longrightarrow> snap_got L env s s'"
  by (auto simp: snap_get_def snap_got_def)

lemma rollback_write_cases:
  assumes "page_rollback_write L env pg w slug src raw content inp h cs = (w', out)"
  obtains sn r where "snap_put L env (pw_snaps w) (rs_path src) raw = (sn, r)" "pw_snaps w' = sn"
      "pw_plans w' = pw_plans w"
      "pw_files w' = pw_files w \<and> (\<forall>a. out \<noteq> Done a) \<or> pw_files w' = gput (pw_files w) (rs_path src) content \<and> r = None"
proof -
  obtain sn r where put: "snap_put L env (pw_snaps w) (rs_path src) raw = (sn, r)" by fastforce
  note put' = put [unfolded snap_put_def]
  let ?w1 = "w\<lparr>pw_snaps := sn\<rparr>"
  show ?thesis
  proof (cases "r = None \<and> RevalidateForWrite (be_view env) pg (rs_path src) = None")
    case False
    then have "w' = ?w1 \<and> (\<forall>a. out \<noteq> Done a)" using assms put'
      by (auto simp: page_rollback_write_def Let_def split: option.splits)
    then show ?thesis using that [OF put] by simp
  next
    case ok: True
    obtain w2 q where wr: "page_write L env pg ?w1 (rs_path src) (page_rev L raw) content
        (recoveryIdempotencyFor (be_ctx env) ''rollback_change'' (rk_idem_key inp) h
           (rollback_seed L env slug (page_rev L raw) content)) = (w2, q)" by fastforce
    note W = page_write_stores [OF wr]
    show ?thesis
    proof (cases q)
      case (Done op)
      have "page_close L env
          (w2\<lparr>pw_index := Upsert (pw_index w2) (rollback_index_page L (pw_index w2) slug src content)\<rparr>)
          op ''rollback_change'' (rk_idem_key inp) h cs slug ''rollback''
          (rollback_answer L env slug src (page_rev L raw) content) = (w', out)"
        using assms put' ok wr Done by (simp add: page_rollback_write_def Let_def)
      then show ?thesis
        by (intro that [OF put]) (use ok W Done in \<open>auto dest!: close_stores simp: same_stores_def\<close>)
    next
      case (Failed err)
      then have "w' = w2 \<and> (\<forall>a. out \<noteq> Done a)" using assms put' ok wr
        by (auto simp: page_rollback_write_def Let_def)
      then show ?thesis by (intro that [OF put]) (use ok W in auto)
    next
      case Died
      then have "w' = w2 \<and> (\<forall>a. out \<noteq> Done a)" using assms put' ok wr
        by (auto simp: page_rollback_write_def Let_def)
      then show ?thesis by (intro that [OF put]) (use ok W in auto)
    qed
  qed
qed

lemma rollback_locked_cases:
  assumes "page_rollback_locked L env pg cfg w slug src inp dry h cs = (w', out)"
  obtains (untouched) "pw_files w' = pw_files w" "pw_plans w' = pw_plans w"
      "snap_got L env (pw_snaps w) (pw_snaps w')"
  | (tried) raw content s sn r where "read_page env (pw_files w) (rs_path src) = Some raw" "\<not> dry"
      "rk_expected inp = page_rev L raw" "snap_get L env (pw_snaps w) (rs_path src) (rk_to_revision inp) = (s, Inr (Some content))"
      "snap_put L env s (rs_path src) raw = (sn, r)" "pw_snaps w' = sn" "pw_plans w' = pw_plans w"
      "pw_files w' = pw_files w \<and> (\<forall>a. out \<noteq> Done a) \<or> pw_files w' = gput (pw_files w) (rs_path src) content \<and> r = None"
      "snapshot_fault L (bc_blocked cfg) content = None"
proof (cases "read_page env (pw_files w) (rs_path src)")
  case None
  then show ?thesis using assms by (intro untouched) (auto simp: page_rollback_locked_def snap_got_def)
next
  case (Some raw)
  note step = assms [unfolded page_rollback_locked_def]
  show ?thesis
  proof (cases "\<not> dry \<and> (blank (rk_expected inp) \<or> rk_expected inp \<noteq> page_rev L raw)")
    case True
    then have "w' = w" using step Some by (auto split: if_splits)
    then show ?thesis by (intro untouched) (simp_all add: snap_got_refl)
  next
    case rev: False
    obtain s g where g: "snap_get L env (pw_snaps w) (rs_path src) (rk_to_revision inp) = (s, g)" by fastforce
    note g' = g [unfolded snap_get_def]
    show ?thesis
    proof (cases "\<exists>content. g = Inr (Some content) \<and> snapshot_fault L (bc_blocked cfg) content = None \<and> \<not> dry")
      case False
      then have "w' = w\<lparr>pw_snaps := s\<rparr>" using step Some rev g'
        by (auto simp: Let_def split: if_splits sum.splits option.splits)
      then show ?thesis using untouched snap_get_got [OF g] by simp
    next
      case True
      then obtain content where c: "g = Inr (Some content)" "snapshot_fault L (bc_blocked cfg) content = None" "\<not> dry"
        by blast
      have "page_rollback_write L env pg (w\<lparr>pw_snaps := s\<rparr>) slug src raw content inp h cs = (w', out)"
        using step Some rev g' c by (auto simp: Let_def split: if_splits)
      then show ?thesis
      proof (rule rollback_write_cases)
        fix sn r
        assume "snap_put L env (pw_snaps (w\<lparr>pw_snaps := s\<rparr>)) (rs_path src) raw = (sn, r)" "pw_snaps w' = sn"
          "pw_plans w' = pw_plans (w\<lparr>pw_snaps := s\<rparr>)"
          "pw_files w' = pw_files (w\<lparr>pw_snaps := s\<rparr>) \<and> (\<forall>a. out \<noteq> Done a) \<or>
           pw_files w' = gput (pw_files (w\<lparr>pw_snaps := s\<rparr>)) (rs_path src) content \<and> r = None"
        then show ?thesis using tried [of raw s content sn r] Some g c rev by simp
      qed
    qed
  qed
qed

lemma rollback_cases:
  assumes "handleRollbackChange L env pg cfg w inp = (w', out)"
  obtains (untouched) "same_stores w w'"
  | (locked) w1 slug src lang h cs where "same_stores w w1" "rollback_checks inp slug = Inr lang"
      "slug = normalizeInputSlug (rk_slug inp)"
      "resolveExistingSource (px_tree env) (bc_content_root cfg) slug lang = Inr src"
      "page_rollback_locked L env pg cfg w1 slug src inp (bc_force_dry_run cfg \<or> rk_dry_run inp) h cs = (w', out)"
proof -
  let ?dry = "bc_force_dry_run cfg \<or> rk_dry_run inp" and ?slug = "normalizeInputSlug (rk_slug inp)"
  note step = assms [unfolded handleRollbackChange_def Let_def]
  obtain r q where R: "Resolve (be_cs_read_fails env) (be_cs_touch_fails env) (be_ctx env) (pw_sets w)
      (rk_change_set inp) (be_now env) = (r, q)" by fastforce
  let ?w1 = "w\<lparr>pw_sets := r\<rparr>"
  show ?thesis
  proof (cases "\<exists>lang cs joined src. rollback_checks inp ?slug = Inr lang \<and> q = Inr cs \<and> (?dry \<or> be_allow env) \<and>
      SafeJoin (be_view env) pg ?slug = Inr joined \<and>
      resolveExistingSource (px_tree env) (bc_content_root cfg) ?slug lang = Inr src")
    case False
    then have "w' = w \<or> w' = ?w1" using step R
      by (auto split: sum.splits if_splits)
    then show ?thesis using untouched by auto
  next
    case True
    then obtain lang cs joined src where ok: "rollback_checks inp ?slug = Inr lang" "q = Inr cs" "?dry \<or> be_allow env"
        "SafeJoin (be_view env) pg ?slug = Inr joined"
        "resolveExistingSource (px_tree env) (bc_content_root cfg) ?slug lang = Inr src" by blast
    obtain w2 p where P: "page_replay L env ?w1 ''rollback_change'' (rk_idem_key inp) ?dry
        (rollback_request inp ?slug lang) = (w2, p)" by fastforce
    have same: "same_stores w w2" using replay_stores [OF P] by (simp add: same_stores_def)
    show ?thesis
    proof (cases "(\<exists>h. p = Inr (h, None)) \<and> be_locked env")
      case False
      then have "w' = w2" using step R ok P by (auto split: sum.splits option.splits if_splits)
      then show ?thesis using untouched same by simp
    next
      case True
      then obtain h where "p = Inr (h, None)" by blast
      then have "page_rollback_locked L env pg cfg w2 ?slug src inp ?dry h cs = (w', out)"
        using step R ok P True by auto
      then show ?thesis using locked [OF same ok(1) refl ok(5)] by blast
    qed
  qed
qed

lemma rollback_change: "handleRollbackChange L env pg cfg w inp = (w', out) \<Longrightarrow> page_change L env w w'"
proof (erule rollback_cases)
  assume "same_stores w w'"
  then show ?thesis by (rule same_change)
next
  fix w1 slug src lang h cs
  assume same: "same_stores w w1"
    and "page_rollback_locked L env pg cfg w1 slug src inp (bc_force_dry_run cfg \<or> rk_dry_run inp) h cs = (w', out)"
  from this(2) show ?thesis
  proof (cases rule: rollback_locked_cases)
    case untouched
    then have "page_change L env w1 w'" using snap_got_refl by (intro got_change) auto
    then show ?thesis by (rule page_change_first [OF same])
  next
    case (tried raw content s sn r)
    have "page_change L env w1 w'"
    proof (rule swap_change)
      show "gget (pw_files w1) (rs_path src) = Some raw" using tried(1) by (simp add: read_page_def split: if_splits)
      show "snap_got L env (pw_snaps w1) s" by (rule snap_get_got [OF tried(4)])
      show "snap_put L env s (rs_path src) raw = (sn, r)" by (rule tried(5))
      show "plans_change L env w1 w'" by (rule snaps_step_plans [OF tried(7)])
    qed (use tried in auto)
    then show ?thesis by (rule page_change_first [OF same])
  qed
qed

lemma update_write_cases:
  assumes "update_write L env pg cfg w inp slug src raw current d h cs = (w', out)"
  obtains (untouched) "w' = w" "\<forall>a. out \<noteq> Done a"
  | (tried) sn r where "snap_put L env (pw_snaps w) (rs_path src) raw = (sn, r)" "pw_snaps w' = sn"
      "pw_plans w' = pw_plans w"
      "pw_files w' = pw_files w \<and> (\<forall>a. out \<noteq> Done a) \<or>
       pw_files w' = gput (pw_files w) (rs_path src) (pd_content d) \<and> r = None"
proof (cases "RevalidateForWrite (be_view env) pg (rs_path src) = None")
  case False
  then show ?thesis using assms untouched by (auto simp: update_write_def split: option.splits)
next
  case ok: True
  obtain sn r where put: "snap_put L env (pw_snaps w) (rs_path src) raw = (sn, r)" by fastforce
  note put' = put [unfolded snap_put_def]
  let ?w1 = "w\<lparr>pw_snaps := sn\<rparr>"
  show ?thesis
  proof (cases r)
    case (Some err)
    then have "w' = ?w1 \<and> (\<forall>a. out \<noteq> Done a)" using assms put' ok by (auto simp: update_write_def)
    then show ?thesis using tried [OF put] by simp
  next
    case None
    obtain w2 q where wr: "page_write L env pg ?w1 (rs_path src) (page_rev L raw) (pd_content d)
        (recoveryIdempotencyFor (be_ctx env) ''update_page'' (ui_idem_key inp) h
           (update_seed L env cfg slug src (pd_content d))) = (w2, q)" by fastforce
    note W = page_write_stores [OF wr]
    show ?thesis
    proof (cases q)
      case (Done op)
      have "page_close L env
          (w2\<lparr>pw_index := Upsert (pw_index w2) (reconcile_page L inp current (rs_lang src) (rs_path src) d)\<rparr>)
          op ''update_page'' (ui_idem_key inp) h cs slug ''update''
          (update_done_answer L env cfg (pw_files w2) inp slug (rs_lang src) (rs_path src) raw current d) = (w', out)"
        using assms put' ok wr Done None by (simp add: update_write_def)
      then show ?thesis
        by (intro tried [OF put]) (use ok W Done None in \<open>auto dest!: close_stores simp: same_stores_def\<close>)
    next
      case (Failed err)
      then have "w' = w2 \<and> (\<forall>a. out \<noteq> Done a)" using assms put' ok wr None by (auto simp: update_write_def)
      then show ?thesis by (intro tried [OF put]) (use None W in auto)
    next
      case Died
      then have "w' = w2 \<and> (\<forall>a. out \<noteq> Done a)" using assms put' ok wr None by (auto simp: update_write_def)
      then show ?thesis by (intro tried [OF put]) (use None W in auto)
    qed
  qed
qed

lemma update_cases:
  assumes "handleUpdatePage L env pg cfg w inp = (w', out)"
  obtains (untouched) "same_stores w w'"
  | (written) w1 slug src lang current raw d h cs where "same_stores w w1"
      "pw_index w1 = pw_index w" "update_current (pw_index w) inp slug src = Inr current"
      "validateUpdatePageInput (bc_blocked cfg) inp slug = Inr lang" "slug = normalizeInputSlug (ui_page inp)"
      "resolveExistingSource (px_tree env) (bc_content_root cfg) slug lang = Inr src"
      "\<not> (bc_force_dry_run cfg \<or> ui_dry inp)" "read_page env (pw_files w1) (rs_path src) = Some raw"
      "verifyUpdatePageGuards L env pg cfg (pw_files w1) inp slug False (page_rev L raw) = None"
      "prepareUpdatePage L (bc_blocked cfg) (pw_index w1) inp current (rs_lang src) raw = Inr d"
      "update_write L env pg cfg w1 inp slug src raw current d h cs = (w', out)"
proof -
  let ?dry = "bc_force_dry_run cfg \<or> ui_dry inp" and ?slug = "normalizeInputSlug (ui_page inp)"
  note step = assms [unfolded handleUpdatePage_def Let_def]
  obtain r q where R: "Resolve (be_cs_read_fails env) (be_cs_touch_fails env) (be_ctx env) (pw_sets w)
      (ui_cs inp) (be_now env) = (r, q)" by fastforce
  let ?w1 = "w\<lparr>pw_sets := r\<rparr>"
  show ?thesis
  proof (cases "\<exists>lang cs joined src current. validateUpdatePageInput (bc_blocked cfg) inp ?slug = Inr lang \<and> q = Inr cs \<and>
      be_locked env \<and> SafeJoin (be_view env) pg ?slug = Inr joined \<and>
      resolveExistingSource (px_tree env) (bc_content_root cfg) ?slug lang = Inr src \<and>
      update_current (pw_index ?w1) inp ?slug src = Inr current")
    case False
    then have "w' = w \<or> w' = ?w1" using step R by (auto split: sum.splits if_splits)
    then show ?thesis using untouched by auto
  next
    case True
    then obtain lang cs joined src current where ok: "validateUpdatePageInput (bc_blocked cfg) inp ?slug = Inr lang"
        "q = Inr cs" "be_locked env" "SafeJoin (be_view env) pg ?slug = Inr joined"
        "resolveExistingSource (px_tree env) (bc_content_root cfg) ?slug lang = Inr src"
        "update_current (pw_index ?w1) inp ?slug src = Inr current" by blast
    then have found: "update_found L env pg cfg ?w1 inp ?dry ?slug lang src current cs = (w', out)"
      using step R by simp
    obtain w2 p where P: "page_replay L env ?w1 ''update_page'' (ui_idem_key inp) ?dry
        (update_request inp ?slug lang) = (w2, p)" by fastforce
    have same: "same_stores w w2" using replay_stores [OF P] by (simp add: same_stores_def)
    show ?thesis
    proof (cases "\<exists>h raw d. p = Inr (h, None) \<and> read_page env (pw_files w2) (rs_path src) = Some raw \<and>
        verifyUpdatePageGuards L env pg cfg (pw_files w2) inp ?slug ?dry (page_rev L raw) = None \<and>
        prepareUpdatePage L (bc_blocked cfg) (pw_index w2) inp current (rs_lang src) raw = Inr d \<and> \<not> ?dry")
      case False
      then have "w' = w2" using found P
        by (auto simp: update_found_def split: sum.splits option.splits if_splits)
      then show ?thesis using untouched same by simp
    next
      case True
      then obtain h raw d where w: "p = Inr (h, None)" "read_page env (pw_files w2) (rs_path src) = Some raw"
          "verifyUpdatePageGuards L env pg cfg (pw_files w2) inp ?slug False (page_rev L raw) = None"
          "prepareUpdatePage L (bc_blocked cfg) (pw_index w2) inp current (rs_lang src) raw = Inr d" "\<not> ?dry" by auto
      then have "update_write L env pg cfg w2 inp ?slug src raw current d h cs = (w', out)"
        using found P by (simp add: update_found_def)
      moreover have "pw_index w2 = pw_index w" using replay_index [OF P] by simp
      ultimately show ?thesis using written [OF same _ _ ok(1) refl ok(5) w(5,2,3,4)] ok(6) by simp
    qed
  qed
qed

lemma update_change: "handleUpdatePage L env pg cfg w inp = (w', out) \<Longrightarrow> page_change L env w w'"
proof (erule update_cases)
  assume "same_stores w w'"
  then show ?thesis by (rule same_change)
next
  fix w1 slug src lang current raw d h cs
  assume same: "same_stores w w1" and raw: "read_page env (pw_files w1) (rs_path src) = Some raw"
    and "update_write L env pg cfg w1 inp slug src raw current d h cs = (w', out)"
  from this(3) have "page_change L env w1 w'"
  proof (cases rule: update_write_cases)
    case untouched
    then show ?thesis using same_change [OF same_stores_refl] by simp
  next
    case (tried sn r)
    show ?thesis
    proof (rule swap_change)
      show "gget (pw_files w1) (rs_path src) = Some raw" using raw by (simp add: read_page_def split: if_splits)
      show "snap_got L env (pw_snaps w1) (pw_snaps w1)" by (simp add: snap_got_def)
      show "snap_put L env (pw_snaps w1) (rs_path src) raw = (sn, r)" by (rule tried(1))
      show "plans_change L env w1 w'" by (rule snaps_step_plans [OF tried(3)])
    qed (use tried in auto)
  qed
  then show ?thesis by (rule page_change_first [OF same])
qed

section \<open>The invariant of the two stores\<close>

text \<open>
  The answers of \<open>plan_content_change\<close> so far, with the caller each went to: what a stored plan will write
  is what its answer showed. A snapshot is stored under the revision of its text.
\<close>

type_synonym shown = "(string \<times> plan_answer) set"

definition plan_shown :: "('a, 'o) page_coders \<Rightarrow> shown \<Rightarrow> string \<Rightarrow> plan_entry \<Rightarrow> bool" where
  "plan_shown L G i e \<longleftrightarrow>
     (\<exists>a raw label. (pe_caller_key e, a) \<in> G \<and> pl_plan_id a = i \<and> pl_slug a = canonicalPublicSlug (pe_slug e) \<and>
        pl_revision a = pe_revision e \<and> pe_revision e = page_rev L raw \<and>
        pl_diff a = simpleDiff label raw (pe_content e) \<and> pl_expires_at a = pe_created_at e + planTTL)"

text \<open>
  The coding of plans and snapshots is \<open>encoding/json\<close>: it is never empty, and an entry all of whose
  texts are valid UTF-8 comes back as it was. Of other entries nothing is assumed (the encoder replaces what is
  not UTF-8, and nothing in the server keeps such pages out).
\<close>

definition plan_utf8 :: "plan_entry \<Rightarrow> bool" where
  "plan_utf8 e \<longleftrightarrow>
     list_all valid_utf8 ([pe_caller_key e, pe_slug e, pe_lang e, pe_file_path e, pe_revision e, pe_content e, pe_title e,
        pe_body e] @ concat (map (case_option [] id) [pe_tags e, pe_categories e]))"

definition snapshot_utf8 :: "snapshot_entry \<Rightarrow> bool" where
  "snapshot_utf8 e \<longleftrightarrow> valid_utf8 (se_caller_key e) \<and> valid_utf8 (se_content e)"

definition coders_ok :: "('a, 'o) page_coders \<Rightarrow> bool" where
  "coders_ok L \<longleftrightarrow>
     (\<forall>e raw. pk_plan_enc L e = Some raw \<longrightarrow> raw \<noteq> '''' \<and> (plan_utf8 e \<longrightarrow> pk_plan_dec L raw = Some e)) \<and>
     (\<forall>e raw. pk_snap_enc L e = Some raw \<longrightarrow> raw \<noteq> '''' \<and> (snapshot_utf8 e \<longrightarrow> pk_snap_dec L raw = Some e))"

lemma utf8_survives:
  "coders_ok L \<Longrightarrow> plan_utf8 e \<Longrightarrow> survives (plan_kind (pk_plan_enc L) (pk_plan_dec L)) e"
  "coders_ok L \<Longrightarrow> snapshot_utf8 x \<Longrightarrow> survives (snapshot_kind (pk_snap_enc L) (pk_snap_dec L)) x"
  by (auto simp: coders_ok_def survives_def plan_kind_def snapshot_kind_def split: option.splits)

definition plans_inv :: "('a, 'o) page_coders \<Rightarrow> shown \<Rightarrow> time \<Rightarrow> plan_entry ttl_store \<Rightarrow> bool" where
  "plans_inv L G now s \<longleftrightarrow>
     (\<exists>M. store_ok (plan_kind (pk_plan_enc L) (pk_plan_dec L)) planTTL planMaxEntries M now s \<and>
        (\<forall>i e. M i = Some e \<longrightarrow> plan_shown L G i e))"

definition snaps_ledger :: "('a, 'o) page_coders \<Rightarrow> (string \<Rightarrow> snapshot_entry option) \<Rightarrow> time \<Rightarrow> snapshot_entry ttl_store \<Rightarrow> bool" where
  "snaps_ledger L M now s \<longleftrightarrow>
     store_ok (snapshot_kind (pk_snap_enc L) (pk_snap_dec L)) snapshotTTL snapshotMaxEntries M now s \<and>
     (\<forall>k e. M k = Some e \<longrightarrow> (\<exists>p. CHR 0x00 \<notin> set p \<and> k = snapshotKey p (page_rev L (se_content e))))"

definition plain_names_on :: "files \<Rightarrow> bool" where
  "plain_names_on fs \<longleftrightarrow> (\<forall>p. gget fs p \<noteq> None \<longrightarrow> CHR 0x00 \<notin> set p)"

definition page_inv :: "('a, 'o) page_coders \<Rightarrow> shown \<Rightarrow> time \<Rightarrow> page_world \<Rightarrow> bool" where
  "page_inv L G now w \<longleftrightarrow> plain_names_on (pw_files w) \<and> plans_inv L G now (pw_plans w) \<and>
     (\<exists>M. snaps_ledger L M now (pw_snaps w))"

lemma kind_fields [simp]:
  "kd_caller (plan_kind enc dec) = pe_caller_key" "kd_created (plan_kind enc dec) = pe_created_at"
  "kd_caller (snapshot_kind enc2 dec2) = se_caller_key" "kd_created (snapshot_kind enc2 dec2) = se_created_at"
  by (simp_all add: plan_kind_def snapshot_kind_def)

lemma plans_get_inv:
  assumes "plans_inv L G now s" "now \<le> at"
    and "planStore_get (pk_plan_enc L) (pk_plan_dec L) fl at s i k = (s', r)"
  shows "plans_inv L G at s'"
    and "r = Inr (Some e) \<Longrightarrow> plan_shown L G i e \<and> pe_caller_key e = k \<and> at \<le> pe_created_at e + planTTL"
proof -
  obtain M where M: "store_ok (plan_kind (pk_plan_enc L) (pk_plan_dec L)) planTTL planMaxEntries M now s"
      "\<forall>i e. M i = Some e \<longrightarrow> plan_shown L G i e"
    using assms(1) by (auto simp: plans_inv_def)
  note G = get_ok [OF M(1) assms(2) assms(3) [unfolded planStore_get_def]]
  show "plans_inv L G at s'" using G(1) M(2) by (auto simp: plans_inv_def)
  show "plan_shown L G i e \<and> pe_caller_key e = k \<and> at \<le> pe_created_at e + planTTL" if "r = Inr (Some e)"
    using G(2) [OF that] M(2) by (auto simp: outlived_def planTTL_def minute_def second_def)
qed

lemma plans_consume_inv:
  assumes "plans_inv L G now s" "now \<le> at"
    and "planStore_consume (pk_plan_enc L) (pk_plan_dec L) fl at s i k = (s', r)"
  shows "plans_inv L G at s'"
proof -
  obtain M where M: "store_ok (plan_kind (pk_plan_enc L) (pk_plan_dec L)) planTTL planMaxEntries M now s"
      "\<forall>i e. M i = Some e \<longrightarrow> plan_shown L G i e"
    using assms(1) by (auto simp: plans_inv_def)
  note C = consume_ok(1) [OF M(1) assms(2) assms(3) [unfolded planStore_consume_def]]
  have "\<forall>j e. (case r of Inr (Some e) \<Rightarrow> M(i := None) | _ \<Rightarrow> M) j = Some e \<longrightarrow> plan_shown L G j e"
    using M(2) by (auto split: sum.splits option.splits if_splits)
  then show ?thesis using C unfolding plans_inv_def by blast
qed

lemma plan_shown_mono: "plan_shown L G i e \<Longrightarrow> G \<subseteq> G' \<Longrightarrow> plan_shown L G' i e"
  unfolding plan_shown_def by blast

lemma plans_put_inv:
  assumes "plans_inv L G now s" "now \<le> at" "coders_ok L" "G \<subseteq> G'"
    and e: "pe_caller_key e \<noteq> ''''" "pe_created_at e \<noteq> zero_time" "plan_utf8 e"
    and "planStore_put (pk_plan_enc L) (pk_plan_dec L) fl at s i e = (s', err)"
    and "err = None \<Longrightarrow> plan_shown L G' i e"
  shows "plans_inv L G' at s'"
proof -
  obtain M where M: "store_ok (plan_kind (pk_plan_enc L) (pk_plan_dec L)) planTTL planMaxEntries M now s"
      "\<forall>i e. M i = Some e \<longrightarrow> plan_shown L G i e"
    using assms(1) by (auto simp: plans_inv_def)
  have "store_ok (plan_kind (pk_plan_enc L) (pk_plan_dec L)) planTTL planMaxEntries
      (if err = None then M(i \<mapsto> e) else M) at s'"
    by (rule put_ok [OF M(1) assms(2)]) (use e assms(3,8) utf8_survives(1) in \<open>simp_all add: planStore_put_def\<close>)
  moreover
  have mono: "plan_shown L G j e' \<Longrightarrow> plan_shown L G' j e'" for j e'
    by (rule plan_shown_mono [OF _ assms(4)])
  have "\<forall>j e'. (if err = None then M(i \<mapsto> e) else M) j = Some e' \<longrightarrow> plan_shown L G' j e'"
    using M(2) assms(9) mono by auto
  ultimately show ?thesis unfolding plans_inv_def by blast
qed

lemma store_ok_later: "store_ok kd ttl mx M now s \<Longrightarrow> now \<le> at \<Longrightarrow> store_ok kd ttl mx M at s"
  using table_ok_later by (auto simp: store_ok_def)

lemma store_ok_restart: "store_ok kd ttl mx M now s \<Longrightarrow> store_ok kd ttl mx M now (s\<lparr>ts_entries := []\<rparr>)"
  by (simp add: store_ok_def mem_ok_def)

lemma snapshot_get_store:
  assumes "snapshotStore_get enc dec fl now s p v k = (s', r)"
  shows "\<exists>q. store_get (snapshot_kind enc dec) fl now s (snapshotKey p v) k = (s', q) \<and>
    (\<forall>c. r = Inr (Some c) \<longleftrightarrow> (\<exists>e. q = Inr (Some e) \<and> c = se_content e))"
proof -
  obtain u q where "store_get (snapshot_kind enc dec) fl now s (snapshotKey p v) k = (u, q)" by fastforce
  then show ?thesis using assms by (cases q) (auto simp: snapshotStore_get_def split: option.splits)
qed

lemma snaps_got_ledger:
  assumes "snaps_ledger L M now s" "now \<le> be_now env" "snap_got L env s s'"
  shows "snaps_ledger L M (be_now env) s'"
proof -
  have ok: "store_ok (snapshot_kind (pk_snap_enc L) (pk_snap_dec L)) snapshotTTL snapshotMaxEntries M now s"
    using assms(1) by (simp add: snaps_ledger_def)
  have "store_ok (snapshot_kind (pk_snap_enc L) (pk_snap_dec L)) snapshotTTL snapshotMaxEntries M (be_now env) s'"
  proof (cases "s' = s")
    case True
    then show ?thesis using store_ok_later [OF ok assms(2)] by simp
  next
    case False
    then obtain fl p v r where "snapshotStore_get (pk_snap_enc L) (pk_snap_dec L) fl (be_now env) s p v
        (isolationCallerKey (be_ctx env)) = (s', r)"
      using assms(3) unfolding snap_got_def by blast
    from snapshot_get_store [OF this] obtain q where
      "store_get (snapshot_kind (pk_snap_enc L) (pk_snap_dec L)) fl (be_now env) s
        (snapshotKey p v) (isolationCallerKey (be_ctx env)) = (s', q)" by auto
    then show ?thesis by (rule get_ok(1) [OF ok assms(2)])
  qed
  then show ?thesis using assms(1) by (simp add: snaps_ledger_def)
qed

lemma snaps_put_ledger:
  assumes "snaps_ledger L M now s" "now \<le> be_now env" "coders_ok L" "be_now env \<noteq> zero_time"
    and "CHR 0x00 \<notin> set p" "snap_put L env s p raw = (s', err)"
    and utf8: "valid_utf8 raw" "valid_utf8 (isolationCallerKey (be_ctx env))"
  shows "snaps_ledger L (if err = None
      then M(snapshotKey p (page_rev L raw) \<mapsto> \<lparr>se_caller_key = isolationCallerKey (be_ctx env), se_content = raw,
                                             se_created_at = be_now env\<rparr>) else M) (be_now env) s'"
proof -
  let ?e = "\<lparr>se_caller_key = isolationCallerKey (be_ctx env), se_content = raw, se_created_at = be_now env\<rparr>"
  have ok: "store_ok (snapshot_kind (pk_snap_enc L) (pk_snap_dec L)) snapshotTTL snapshotMaxEntries M now s"
    using assms(1) by (simp add: snaps_ledger_def)
  have "store_ok (snapshot_kind (pk_snap_enc L) (pk_snap_dec L)) snapshotTTL snapshotMaxEntries
      (if err = None then M(snapshotKey p (page_rev L raw) \<mapsto> ?e) else M) (be_now env) s'"
    by (rule put_ok [OF ok assms(2)])
       (use assms(3,4,6) utf8 utf8_survives(2) [OF assms(3), of ?e] in \<open>simp_all add: snap_put_def snapshotStore_put_def snapshot_utf8_def\<close>)
  moreover have "\<exists>q. CHR 0x00 \<notin> set q \<and> k = snapshotKey q (page_rev L (se_content e))"
    if "(if err = None then M(snapshotKey p (page_rev L raw) \<mapsto> ?e) else M) k = Some e" for k e
    using that assms(1,5) by (auto simp: snaps_ledger_def split: if_splits)
  ultimately show ?thesis by (simp add: snaps_ledger_def)
qed

section \<open>Reachable states\<close>

text \<open>A call happens at a time that is not before the last one and is not the zero time.\<close>

definition call_at :: "time \<Rightarrow> 'e bundle_env_scheme \<Rightarrow> bool" where
  "call_at now env \<longleftrightarrow> now \<le> be_now env \<and> be_now env \<noteq> zero_time"

text \<open>The call snapshots, if anything, a text that is valid UTF-8; so is the name of its caller.\<close>

definition utf8_snapshot :: "('a, 'o) page_coders \<Rightarrow> 'e bundle_env_scheme \<Rightarrow> page_world \<Rightarrow> page_world \<Rightarrow> bool" where
  "utf8_snapshot L env w w' \<longleftrightarrow>
     (\<exists>s. snap_got L env (pw_snaps w) s \<and>
        (pw_snaps w' = s \<or>
         (\<exists>p raw r. gget (pw_files w) p = Some raw \<and> valid_utf8 raw \<and> valid_utf8 (isolationCallerKey (be_ctx env)) \<and>
            snap_put L env s p raw = (pw_snaps w', r))))"

lemma utf8_files_snapshot:
  assumes "snaps_change L env w w'" "\<And>p raw. gget (pw_files w) p = Some raw \<Longrightarrow> valid_utf8 raw"
    and "valid_utf8 (isolationCallerKey (be_ctx env))"
  shows "utf8_snapshot L env w w'"
  using assms unfolding snaps_change_def utf8_snapshot_def by blast

lemma snaps_change_ledger:
  assumes "snaps_ledger L M now (pw_snaps w)" "plain_names_on (pw_files w)" "coders_ok L" "call_at now env"
    and "utf8_snapshot L env w w'"
  shows "\<exists>M'. snaps_ledger L M' (be_now env) (pw_snaps w')"
proof -
  let ?put = "\<lambda>s p raw r. gget (pw_files w) p = Some raw \<and> valid_utf8 raw \<and> valid_utf8 (isolationCallerKey (be_ctx env)) \<and>
      snap_put L env s p raw = (pw_snaps w', r)"
  obtain s where s: "snap_got L env (pw_snaps w) s" "pw_snaps w' = s \<or> (\<exists>p raw r. ?put s p raw r)"
    using assms(5) by (auto simp: utf8_snapshot_def)
  have at: "now \<le> be_now env" "be_now env \<noteq> zero_time" using assms(4) by (auto simp: call_at_def)
  have ok: "snaps_ledger L M (be_now env) s" by (rule snaps_got_ledger [OF assms(1) at(1) s(1)])
  from s(2) show ?thesis
  proof
    assume "pw_snaps w' = s"
    then show ?thesis using ok by blast
  next
    assume "\<exists>p raw r. ?put s p raw r"
    then obtain p raw r where p: "gget (pw_files w) p = Some raw" "snap_put L env s p raw = (pw_snaps w', r)"
      "valid_utf8 raw" "valid_utf8 (isolationCallerKey (be_ctx env))" by blast
    have "CHR 0x00 \<notin> set p" using p(1) assms(2) by (simp add: plain_names_on_def)
    from snaps_put_ledger [OF ok order.refl assms(3) at(2) this p(2-4)] show ?thesis by blast
  qed
qed

lemma plans_change_inv:
  assumes "plans_inv L G now (pw_plans w)" "call_at now env" "plans_change L env w w'"
  shows "plans_inv L G (be_now env) (pw_plans w')"
proof -
  have at: "now \<le> be_now env" using assms(2) by (simp add: call_at_def)
  have later: "plans_inv L G (be_now env) (pw_plans w)"
    using assms(1) store_ok_later [OF _ at] unfolding plans_inv_def by blast
  obtain s where s: "s = pw_plans w \<or> (\<exists>fl i r. planStore_get (pk_plan_enc L) (pk_plan_dec L) fl (be_now env)
        (pw_plans w) i (isolationCallerKey (be_ctx env)) = (s, r))"
      "pw_plans w' = s \<or> (\<exists>fl i r. planStore_consume (pk_plan_enc L) (pk_plan_dec L) fl (be_now env) s i
        (isolationCallerKey (be_ctx env)) = (pw_plans w', r))"
    using assms(3) by (auto simp: plans_change_def)
  have "plans_inv L G (be_now env) s"
    using s(1) later plans_get_inv(1) [OF later order.refl] by blast
  then show ?thesis using s(2) plans_consume_inv [OF _ order.refl] by blast
qed

lemma page_change_inv:
  assumes inv: "page_inv L G now w" and ok: "coders_ok L" "call_at now env" and ch: "page_change L env w w'"
    and utf8: "utf8_snapshot L env w w'"
  shows "page_inv L G (be_now env) w'"
proof -
  have "plain_names_on (pw_files w')"
    using ch inv by (auto simp: page_change_def text_swap_def page_inv_def plain_names_on_def split: if_splits)
  moreover have "plans_inv L G (be_now env) (pw_plans w')"
    by (rule plans_change_inv [OF _ ok(2), of L G w]) (use inv ch in \<open>simp_all add: page_inv_def page_change_def\<close>)
  moreover have "\<exists>M. snaps_ledger L M (be_now env) (pw_snaps w')"
    using snaps_change_ledger [OF _ _ ok utf8] inv by (auto simp: page_inv_def)
  ultimately show ?thesis by (simp add: page_inv_def)
qed

datatype page_call = CallApply apply_input | CallUpdate update_input | CallRollback page_rollback_input

fun page_call_run ::
    "'a page_lib_of \<Rightarrow> page_env \<Rightarrow> path_guard \<Rightarrow> bundle_config \<Rightarrow> page_world \<Rightarrow> page_call \<Rightarrow>
     page_world \<times> page_answer outcome" where
  "page_call_run L env pg cfg w (CallApply inp) = handleApplyContentPlan L env pg cfg w inp"
| "page_call_run L env pg cfg w (CallUpdate inp) = handleUpdatePage L env pg cfg w inp"
| "page_call_run L env pg cfg w (CallRollback inp) = handleRollbackChange L env pg cfg w inp"

text \<open>The plan that the call makes, if it makes one, holds only texts that are valid UTF-8.\<close>

definition utf8_plan :: "'a page_lib_of \<Rightarrow> page_env \<Rightarrow> bundle_config \<Rightarrow> page_world \<Rightarrow> plan_input \<Rightarrow> bool" where
  "utf8_plan L env cfg w inp \<longleftrightarrow>
     (\<forall>lang src raw r content. validateLangParam (pi_lang inp) = Inr lang \<and>
        resolveExistingSource (px_tree env) (bc_content_root cfg) (normalizeInputSlug (pi_slug inp)) lang = Inr src \<and>
        read_page env (pw_files w) (rs_path src) = Some raw \<and>
        planned_text L (bc_blocked cfg) (pi_operations inp) raw = Inr (r, content) \<longrightarrow>
        plan_utf8 (plan_entry_of L env (normalizeInputSlug (pi_slug inp)) src raw r content))"

text \<open>
  The runs of the server on pages of UTF-8 text: planning, the three writers, listing, a restart of the process, changes of rows
  of other kinds in the shared table, and whatever else happens to the files, the journal, the other
  stores and the index. A Unix file name has no NUL byte.
\<close>

definition fresh_table :: "'e kind_ops \<Rightarrow> eph_table option \<Rightarrow> bool" where
  "fresh_table kd db \<longleftrightarrow> (\<forall>t. db = Some t \<longrightarrow> wf_map t \<and> (\<forall>i. gget t (kd_name kd, i) = None))"

inductive page_run :: "'a page_lib_of \<Rightarrow> shown \<Rightarrow> time \<Rightarrow> page_world \<Rightarrow> bool" for L where
  start: "fresh_table (plan_kind (pk_plan_enc L) (pk_plan_dec L)) db \<Longrightarrow>
    fresh_table (snapshot_kind (pk_snap_enc L) (pk_snap_dec L)) db' \<Longrightarrow> plain_names_on (pw_files w) \<Longrightarrow>
    pw_plans w = newPlanStore planTTL planMaxEntries db \<Longrightarrow>
    pw_snaps w = newSnapshotStore snapshotTTL snapshotMaxEntries db' \<Longrightarrow> page_run L {} now w"
| planned: "page_run L G now w \<Longrightarrow> call_at now (env :: page_env) \<Longrightarrow> handlePlanContentChange L env pg cfg w inp = (w', r) \<Longrightarrow>
    utf8_plan L env cfg w inp \<Longrightarrow>
    page_run L (case r of Inr a \<Rightarrow> insert (isolationCallerKey (be_ctx env), a) G | Inl e \<Rightarrow> G) (be_now env) w'"
| wrote: "page_run L G now w \<Longrightarrow> call_at now (env :: page_env) \<Longrightarrow> page_call_run L env pg cfg w c = (w', out) \<Longrightarrow>
    utf8_snapshot L env w w' \<Longrightarrow> page_run L G (be_now env) w'"
| listed: "page_run L G now w \<Longrightarrow> call_at now (env :: page_env) \<Longrightarrow> (\<And>rows. set (order rows) = set rows) \<Longrightarrow>
    list_page_snapshots L env cfg order rf df w slug lang = (w', r) \<Longrightarrow> page_run L G (be_now env) w'"
| outside: "page_run L G now w \<Longrightarrow> plain_names_on fs \<Longrightarrow>
    page_run L G now (w\<lparr>pw_files := fs, pw_journal := j, pw_idem := i, pw_sets := cs, pw_index := x\<rparr>)"
| others: "page_run L G now w \<Longrightarrow> proper_call (plan_kind (pk_plan_enc L) (pk_plan_dec L)) (pw_plans w) (COther t) \<Longrightarrow>
    proper_call (snapshot_kind (pk_snap_enc L) (pk_snap_dec L)) (pw_snaps w) (COther t') \<Longrightarrow>
    page_run L G now
      (w\<lparr>pw_plans := fst (apply_call (plan_kind (pk_plan_enc L) (pk_plan_dec L)) (pw_plans w) (COther t)),
         pw_snaps := fst (apply_call (snapshot_kind (pk_snap_enc L) (pk_snap_dec L)) (pw_snaps w) (COther t'))\<rparr>)"
| restart: "page_run L G now w \<Longrightarrow>
    page_run L G now (w\<lparr>pw_plans := (pw_plans w)\<lparr>ts_entries := []\<rparr>, pw_snaps := (pw_snaps w)\<lparr>ts_entries := []\<rparr>\<rparr>)"

lemma page_call_change: "page_call_run L env pg cfg w c = (w', out) \<Longrightarrow> page_change L env w w'"
  by (cases c) (auto intro: apply_change update_change rollback_change)

lemma list_snapshots_inv:
  assumes inv: "page_inv L G now w" and at: "call_at now env" and ord: "\<And>rows. set (order rows) = set rows"
    and l: "list_page_snapshots L env cfg order rf df w slug lang = (w', r)"
  shows "page_inv L G (be_now env) w'"
proof -
  have le: "now \<le> be_now env" using at by (simp add: call_at_def)
  obtain M where M: "snaps_ledger L M now (pw_snaps w)" using inv by (auto simp: page_inv_def)
  have keep: "snaps_ledger L M (be_now env) (pw_snaps w)"
    using M store_ok_later [OF _ le] unfolding snaps_ledger_def by blast
  have plans: "plans_inv L G (be_now env) (pw_plans w)"
    using inv store_ok_later [OF _ le] unfolding page_inv_def plans_inv_def by blast
  have "w' = w \<or> (\<exists>p sn q. store_list (snapshot_kind (pk_snap_enc L) (pk_snap_dec L)) (has_prefix (p @ [CHR 0x00]))
      order rf df (be_now env) (pw_snaps w) (isolationCallerKey (be_ctx env)) = (sn, q) \<and> w' = w\<lparr>pw_snaps := sn\<rparr>)"
    using l unfolding list_page_snapshots_def Let_def snapshotStore_list_def
    by (auto split: if_splits sum.splits prod.splits)
  then show ?thesis
  proof
    assume "w' = w"
    then show ?thesis using inv keep plans by (auto simp: page_inv_def)
  next
    assume "\<exists>p sn q. store_list (snapshot_kind (pk_snap_enc L) (pk_snap_dec L)) (has_prefix (p @ [CHR 0x00]))
      order rf df (be_now env) (pw_snaps w) (isolationCallerKey (be_ctx env)) = (sn, q) \<and> w' = w\<lparr>pw_snaps := sn\<rparr>"
    then obtain p sn q where s: "store_list (snapshot_kind (pk_snap_enc L) (pk_snap_dec L)) (has_prefix (p @ [CHR 0x00]))
        order rf df (be_now env) (pw_snaps w) (isolationCallerKey (be_ctx env)) = (sn, q)" "w' = w\<lparr>pw_snaps := sn\<rparr>"
      by blast
    have "snaps_ledger L M (be_now env) sn"
      using keep list_ok(1) [OF _ order.refl _ s(1), of _ _ M] ord unfolding snaps_ledger_def by blast
    then show ?thesis using inv plans s(2) by (auto simp: page_inv_def)
  qed
qed

lemma plan_of_put:
  assumes "plan_entry_of L env slug src raw r content = e"
    and "plan_answer_of L env root slug (rs_path src) raw r content i = a"
    and "(isolationCallerKey (be_ctx env), a) \<in> G"
  shows "plan_shown L G i e"
  using assms unfolding plan_shown_def plan_entry_of_def plan_answer_of_def Let_def
  by (fastforce split: prod.splits)

lemma plan_cases:
  assumes "handlePlanContentChange L env pg cfg w inp = (w', res)"
  obtains (failed) e where "w' = w" "res = Inl e"
  | (put) src raw r content i ps err where
      "planStore_put (pk_plan_enc L) (pk_plan_dec L) (be_plan_fl env) (be_now env) (pw_plans w) i
         (plan_entry_of L env (normalizeInputSlug (pi_slug inp)) src raw r content) = (ps, err)"
      "\<exists>lang. validateLangParam (pi_lang inp) = Inr lang \<and>
         resolveExistingSource (px_tree env) (bc_content_root cfg) (normalizeInputSlug (pi_slug inp)) lang = Inr src"
      "read_page env (pw_files w) (rs_path src) = Some raw"
      "planned_text L (bc_blocked cfg) (pi_operations inp) raw = Inr (r, content)"
      "w' = w\<lparr>pw_plans := ps\<rparr>"
      "res = (case err of None \<Rightarrow> Inr (plan_answer_of L env (bc_content_root cfg) (normalizeInputSlug (pi_slug inp))
                                      (rs_path src) raw r content i)
              | Some e \<Rightarrow> Inl ''persistence_error: failed to persist content plan'')"
proof -
  note step = assms [unfolded handlePlanContentChange_def Let_def]
  let ?slug = "normalizeInputSlug (pi_slug inp)"
  show ?thesis
  proof (cases "\<exists>lang joined src raw r content. ?slug \<noteq> '''' \<and> validateLangParam (pi_lang inp) = Inr lang \<and>
      validateSlugFormat ?slug = None \<and> pi_operations inp \<noteq> [] \<and> SafeJoin (be_view env) pg ?slug = Inr joined \<and>
      resolveExistingSource (px_tree env) (bc_content_root cfg) ?slug lang = Inr src \<and>
      read_page env (pw_files w) (rs_path src) = Some raw \<and>
      planned_text L (bc_blocked cfg) (pi_operations inp) raw = Inr (r, content)")
    case False
    then have "w' = w \<and> (\<exists>e. res = Inl e)" using step by (auto split: if_splits sum.splits option.splits)
    then obtain e where "w' = w" "res = Inl e" by blast
    then show ?thesis by (rule failed)
  next
    case True
    then obtain lang joined src raw r content where ok: "?slug \<noteq> ''''" "validateLangParam (pi_lang inp) = Inr lang"
        "validateSlugFormat ?slug = None" "pi_operations inp \<noteq> []" "SafeJoin (be_view env) pg ?slug = Inr joined"
        "resolveExistingSource (px_tree env) (bc_content_root cfg) ?slug lang = Inr src"
        "read_page env (pw_files w) (rs_path src) = Some raw"
        "planned_text L (bc_blocked cfg) (pi_operations inp) raw = Inr (r, content)" by blast
    show ?thesis
    proof (cases "newPlanID (be_random env)")
      case (Inl e)
      then have "w' = w" "res = Inl e" using step ok by simp_all
      then show ?thesis by (rule failed)
    next
      case (Inr i)
      obtain ps err where p: "planStore_put (pk_plan_enc L) (pk_plan_dec L) (be_plan_fl env) (be_now env) (pw_plans w) i
          (plan_entry_of L env ?slug src raw r content) = (ps, err)" by fastforce
      show ?thesis
        by (rule put [OF p]) (use step ok Inr p in \<open>auto split: option.splits\<close>)
    qed
  qed
qed

lemma plan_handler_inv:
  assumes inv: "page_inv L G now w" and ok: "coders_ok L" "call_at now env"
    and h: "handlePlanContentChange L env pg cfg w inp = (w', res)" and utf8: "utf8_plan L env cfg w inp"
  shows "page_inv L (case res of Inr a \<Rightarrow> insert (isolationCallerKey (be_ctx env), a) G | Inl e \<Rightarrow> G) (be_now env) w'"
proof -
  have le: "now \<le> be_now env" "be_now env \<noteq> zero_time" using ok(2) by (auto simp: call_at_def)
  have snaps: "\<exists>M. snaps_ledger L M (be_now env) (pw_snaps w)"
    using inv store_ok_later [OF _ le(1)] unfolding page_inv_def snaps_ledger_def by blast
  have plans: "plans_inv L G now (pw_plans w)" using inv by (simp add: page_inv_def)
  from h show ?thesis
  proof (cases rule: plan_cases)
    case (failed e)
    have "plans_inv L G (be_now env) (pw_plans w)"
      using plans store_ok_later [OF _ le(1)] unfolding plans_inv_def by blast
    then show ?thesis using inv snaps failed by (auto simp: page_inv_def)
  next
    case (put src raw r content i ps err)
    let ?a = "plan_answer_of L env (bc_content_root cfg) (normalizeInputSlug (pi_slug inp)) (rs_path src) raw r content i"
    let ?G = "case res of Inr a \<Rightarrow> insert (isolationCallerKey (be_ctx env), a) G | Inl e \<Rightarrow> G"
    have "plans_inv L ?G (be_now env) ps"
    proof (rule plans_put_inv [OF plans le(1) ok(1) _ _ _ _ put(1)])
      show "plan_utf8 (plan_entry_of L env (normalizeInputSlug (pi_slug inp)) src raw r content)"
        using utf8 put(2-4) unfolding utf8_plan_def by blast
      show "G \<subseteq> ?G" by (auto split: sum.splits)
      assume "err = None"
      then have "(isolationCallerKey (be_ctx env), ?a) \<in> ?G" using put(6) by simp
      then show "plan_shown L ?G i (plan_entry_of L env (normalizeInputSlug (pi_slug inp)) src raw r content)"
        by (rule plan_of_put [OF refl refl])
    qed (auto simp: plan_entry_of_def le(2))
    then show ?thesis using inv snaps put(5) by (simp add: page_inv_def)
  qed
qed

lemma page_run_inv: "page_run L G now w \<Longrightarrow> coders_ok L \<Longrightarrow> page_inv L G now w"
proof (induction rule: page_run.induct)
  case (start db db' w now)
  have "store_ok (plan_kind (pk_plan_enc L) (pk_plan_dec L)) planTTL planMaxEntries (\<lambda>i. None) now (pw_plans w)"
    using start(1,4) by (auto simp: store_ok_def newPlanStore_def new_store_def mem_ok_def table_ok_def fresh_table_def)
  moreover have "store_ok (snapshot_kind (pk_snap_enc L) (pk_snap_dec L)) snapshotTTL snapshotMaxEntries (\<lambda>i. None) now
      (pw_snaps w)"
    using start(2,5) by (auto simp: store_ok_def newSnapshotStore_def new_store_def mem_ok_def table_ok_def fresh_table_def)
  ultimately show ?case using start(3) unfolding page_inv_def plans_inv_def snaps_ledger_def by blast
next
  case (planned G now w env pg cfg inp w' r)
  then show ?case using plan_handler_inv by blast
next
  case (wrote G now w env pg cfg c w' out)
  then show ?case using page_change_inv page_call_change by blast
next
  case (listed G now w env order cfg rf df slug lang w' r)
  then show ?case using list_snapshots_inv by blast
next
  case (outside G now w fs j i cs x)
  then show ?case by (simp add: page_inv_def)
next
  case (others G now w t t')
  let ?kp = "plan_kind (pk_plan_enc L) (pk_plan_dec L)" and ?ks = "snapshot_kind (pk_snap_enc L) (pk_snap_dec L)"
  have inv: "page_inv L G now w" using others by blast
  then obtain M N where M: "store_ok ?kp planTTL planMaxEntries M now (pw_plans w)" "\<forall>i e. M i = Some e \<longrightarrow> plan_shown L G i e"
      and N: "snaps_ledger L N now (pw_snaps w)"
    unfolding page_inv_def plans_inv_def by blast
  have "store_ok ?kp planTTL planMaxEntries M now (fst (apply_call ?kp (pw_plans w) (COther t)))"
    using call_ok [OF M(1) others(2), of "fst (apply_call ?kp (pw_plans w) (COther t))" "snd (apply_call ?kp (pw_plans w) (COther t))"]
    by simp
  moreover have "snaps_ledger L N now (fst (apply_call ?ks (pw_snaps w) (COther t')))"
    using N call_ok [OF _ others(3), of snapshotTTL snapshotMaxEntries N now
        "fst (apply_call ?ks (pw_snaps w) (COther t'))" "snd (apply_call ?ks (pw_snaps w) (COther t'))"]
    by (simp add: snaps_ledger_def)
  ultimately show ?case using inv M(2) unfolding page_inv_def plans_inv_def by auto
next
  case (restart G now w)
  then show ?case by (auto simp: page_inv_def plans_inv_def snaps_ledger_def store_ok_def mem_ok_def)
qed

section \<open>The contract as an interface\<close>

text \<open>What every page writer promises, and what follows for its callers.\<close>

locale page_writer =
  fixes call :: "page_world \<Rightarrow> page_world \<times> page_answer outcome"
    and L :: "'a page_lib_of" and env :: page_env
  assumes change: "call w = (w', out) \<Longrightarrow> page_change L env w w'"
begin

lemma one_file:
  assumes "call w = (w', out)" "pw_files w' \<noteq> pw_files w"
  shows "\<exists>p old new. text_swap L env w w' p old new"
  using change [OF assms(1)] assms(2) by (simp add: page_change_def)

lemma keeps_inv: "page_inv L G now w \<Longrightarrow> coders_ok L \<Longrightarrow> call_at now env \<Longrightarrow> call w = (w', out) \<Longrightarrow>
    utf8_snapshot L env w w' \<Longrightarrow> page_inv L G (be_now env) w'"
  using page_change_inv change by blast

text \<open>The replaced text stays available to the caller for the life of a snapshot, also after a restart.\<close>

lemma old_text_kept:
  assumes inv: "page_inv L G now w" "coders_ok L" "call_at now env" and swap: "text_swap L env w w' p old new"
    and db: "ts_db (pw_snaps w') \<noteq> None"
    and s2: "s2 = pw_snaps w' \<or> s2 = (pw_snaps w')\<lparr>ts_entries := []\<rparr>"
    and later: "be_now env \<le> be_now env'" "be_now env' \<le> be_now env + snapshotTTL" "be_snap_fl env' = no_faults"
    and caller: "isolationCallerKey (be_ctx env') = isolationCallerKey (be_ctx env)"
    and utf8: "valid_utf8 old" "valid_utf8 (isolationCallerKey (be_ctx env))"
  shows "\<exists>s. snap_get L env' s2 p (page_rev L old) = (s, Inr (Some old))"
proof -
  let ?kd = "snapshot_kind (pk_snap_enc L) (pk_snap_dec L)"
  let ?e = "\<lparr>se_caller_key = isolationCallerKey (be_ctx env), se_content = old, se_created_at = be_now env\<rparr>"
  have at: "now \<le> be_now env" "be_now env \<noteq> zero_time" using inv(3) by (auto simp: call_at_def)
  obtain M where M: "snaps_ledger L M now (pw_snaps w)" using inv(1) by (auto simp: page_inv_def)
  obtain s where s: "snap_got L env (pw_snaps w) s" "snap_put L env s p old = (pw_snaps w', None)"
      and old: "gget (pw_files w) p = Some old"
    using swap by (auto simp: text_swap_def)
  have nul: "CHR 0x00 \<notin> set p" using inv(1) old by (auto simp: page_inv_def plain_names_on_def)
  have "snaps_ledger L (M(snapshotKey p (page_rev L old) \<mapsto> ?e)) (be_now env) (pw_snaps w')"
    using snaps_put_ledger [OF snaps_got_ledger [OF M at(1) s(1)] order.refl inv(2) at(2) nul s(2) utf8] by simp
  then have ok: "store_ok ?kd snapshotTTL snapshotMaxEntries (M(snapshotKey p (page_rev L old) \<mapsto> ?e)) (be_now env) (pw_snaps w')"
    by (simp add: snaps_ledger_def)
  then have ok2: "store_ok ?kd snapshotTTL snapshotMaxEntries (M(snapshotKey p (page_rev L old) \<mapsto> ?e)) (be_now env) s2"
    using s2 store_ok_restart by blast
  have db2: "ts_db s2 \<noteq> None" using s2 db by auto
  obtain t r where g: "store_get ?kd no_faults (be_now env') s2 (snapshotKey p (page_rev L old))
      (isolationCallerKey (be_ctx env)) = (t, r)" by fastforce
  have "r = Inr (Some ?e)"
    by (rule get_durable [OF ok2 later(1) db2 g]) (use later(2) in \<open>auto simp: outlived_def snapshotTTL_def minute_def second_def\<close>)
  then show ?thesis using g by (simp add: snap_get_def snapshotStore_get_def caller later(3))
qed

end

interpretation apply_writer: page_writer "\<lambda>w. handleApplyContentPlan L env pg cfg w inp" L env for L env pg cfg inp
  by unfold_locales (rule apply_change)

interpretation update_writer: page_writer "\<lambda>w. handleUpdatePage L env pg cfg w inp" L env for L env pg cfg inp
  by unfold_locales (rule update_change)

interpretation rollback_writer: page_writer "\<lambda>w. handleRollbackChange L env pg cfg w inp" L env for L env pg cfg inp
  by unfold_locales (rule rollback_change)

interpretation any_writer: page_writer "\<lambda>w. page_call_run L env pg cfg w c" L env for L env pg cfg c
  by unfold_locales (rule page_call_change)

end
