(* ===== verification/PageGuarantees.thy ===== *)
theory PageGuarantees
  imports PageSafety
begin

text \<open>
  What callers of the page tools can rely on: a plan writes exactly what its answer showed, an update never
  overwrites a text its caller has not seen, a rollback reaches the revision it names, and an edit can be
  undone, even after a crash. The properties rest on the contract of \<open>PageSafety\<close> for all three writers.
\<close>

section \<open>A plan writes what it showed\<close>

text \<open>
  C4. \<open>apply_content_plan\<close> writes what was shown: if it changes the disk, then its caller was given, under
  that plan identifier and not longer ago than its lifetime, an answer whose revision is that of the one
  file that changes and whose diff is the diff from a text of that revision to the text now written. The old text
  is kept as a snapshot of the caller. This holds for every run of the server on pages of valid UTF-8 text, with restarts,
  crashes, faults and other writers in between. (Plans and snapshots are reloaded from JSON, which cannot
  hold other text.)
\<close>

theorem content_plan_exact:
  assumes run: "page_run L G now w" and coders: "coders_ok L" and at: "call_at now env"
    and call: "handleApplyContentPlan L env pg cfg w inp = (w', out)" and changed: "pw_files w' \<noteq> pw_files w"
  shows "\<exists>a p old new raw label. (isolationCallerKey (be_ctx env), a) \<in> G \<and> pl_plan_id a = ai_plan_id inp \<and>
     be_now env \<le> pl_expires_at a \<and> gget (pw_files w) p = Some old \<and> pw_files w' = gput (pw_files w) p new \<and>
     page_rev L old = pl_revision a \<and> page_rev L raw = pl_revision a \<and> pl_diff a = simpleDiff label raw new \<and>
     snd (snap_put L env (pw_snaps w) p old) = None \<and> \<not> (bc_force_dry_run cfg \<or> ai_dry_run inp)"
  using call
proof (cases rule: apply_cases)
  case untouched
  then show ?thesis using changed by simp
next
  case (looked e w1 h cs)
  have le: "now \<le> be_now env" using at by (simp add: call_at_def)
  have "plans_inv L G now (pw_plans w)" using page_run_inv [OF run coders] by (simp add: page_inv_def)
  note P = plans_get_inv(2) [OF this le looked(1) [unfolded plan_got_def] refl]
  from P obtain a raw label where a: "(pe_caller_key e, a) \<in> G" "pl_plan_id a = ai_plan_id inp"
      "pl_revision a = pe_revision e" "pe_revision e = page_rev L raw"
      "pl_diff a = simpleDiff label raw (pe_content e)" "pl_expires_at a = pe_created_at e + planTTL"
    by (auto simp: plan_shown_def)
  from looked(4) show ?thesis
  proof (cases rule: apply_locked_cases)
    case untouched
    then show ?thesis using changed looked by (simp add: same_stores_def)
  next
    case (tried old sn r)
    have old: "gget (pw_files w) (pe_file_path e) = Some old"
      using tried(1) looked(2) by (simp add: read_page_def split: if_splits)
    have new: "pw_files w' = gput (pw_files w) (pe_file_path e) (pe_content e)" "r = None"
      using tried(7) changed looked(2) by auto
    show ?thesis
      by (rule exI [of _ a], rule exI [of _ "pe_file_path e"], rule exI [of _ old], rule exI [of _ "pe_content e"],
          rule exI [of _ raw], rule exI [of _ label])
         (use a P old new tried(2,3,5) looked(3) in auto)
  qed
qed

section \<open>An update replaces the text its caller saw\<close>

text \<open>
  C5. \<open>update_page\<close> is a compare-and-swap on the page: if it changes the disk, it was no dry run, the
  request carried the revision of the text it replaces (and of the whole bundle, when it named one), the one
  changed file is the one that the slug and language resolve to, its new text is the prepared one, and the
  old text is kept as a snapshot of the caller.
\<close>

theorem update_page_guarded:
  assumes "handleUpdatePage L env pg cfg w inp = (w', out)" and "pw_files w' \<noteq> pw_files w"
  shows "\<exists>lang src old current d. validateUpdatePageInput (bc_blocked cfg) inp (normalizeInputSlug (ui_page inp)) = Inr lang \<and>
     resolveExistingSource (px_tree env) (bc_content_root cfg) (normalizeInputSlug (ui_page inp)) lang = Inr src \<and>
     gget (pw_files w) (rs_path src) = Some old \<and> ui_expected inp = page_rev L old \<and>
     (blank (ui_expected_bundle inp) \<or>
      (\<exists>dir ts. resolveBundleDir env pg (bc_content_root cfg) (normalizeInputSlug (ui_page inp)) = Inr (dir, ts) \<and>
         BundleRevision (pk_sha L) (be_unreadable env) (pw_files w) dir = Inr (ui_expected_bundle inp))) \<and>
     update_current (pw_index w) inp (normalizeInputSlug (ui_page inp)) src = Inr current \<and>
     prepareUpdatePage L (bc_blocked cfg) (pw_index w) inp current (rs_lang src) old = Inr d \<and>
     pw_files w' = gput (pw_files w) (rs_path src) (pd_content d) \<and>
     snd (snap_put L env (pw_snaps w) (rs_path src) old) = None \<and> \<not> (bc_force_dry_run cfg \<or> ui_dry inp)"
  using assms(1)
proof (cases rule: update_cases)
  case untouched
  then show ?thesis using assms(2) by (simp add: same_stores_def)
next
  case (written w1 slug src lang current old d h cs)
  have same: "pw_files w1 = pw_files w" "pw_snaps w1 = pw_snaps w" using written(1) by (simp_all add: same_stores_def)
  have old: "gget (pw_files w) (rs_path src) = Some old"
    using written(8) same by (simp add: read_page_def split: if_splits)
  from written(11) show ?thesis
  proof (cases rule: update_write_cases)
    case untouched
    then show ?thesis using assms(2) same by simp
  next
    case (tried sn r)
    have new: "pw_files w' = gput (pw_files w) (rs_path src) (pd_content d)" "r = None"
      using tried(4) assms(2) same by auto
    have guard: "ui_expected inp = page_rev L old" "blank (ui_expected_bundle inp) \<or>
        (\<exists>dir ts. resolveBundleDir env pg (bc_content_root cfg) slug = Inr (dir, ts) \<and>
           BundleRevision (pk_sha L) (be_unreadable env) (pw_files w) dir = Inr (ui_expected_bundle inp))"
      using written(9) same by (auto simp: verifyUpdatePageGuards_def split: if_splits sum.splits prod.splits)
    show ?thesis
      by (rule exI [of _ lang], rule exI [of _ src], rule exI [of _ old], rule exI [of _ current], rule exI [of _ d])
         (use written old new guard tried(1) same in auto)
  qed
qed

section \<open>A rollback reaches the revision it names\<close>

lemma snapshot_key_inj:
  assumes "snapshotKey p r = snapshotKey q s" "CHR 0x00 \<notin> set p" "CHR 0x00 \<notin> set q"
  shows "p = q \<and> r = s"
proof -
  have "takeWhile (\<lambda>c. c \<noteq> CHR 0x00) (a @ [CHR 0x00] @ b) = a" if "CHR 0x00 \<notin> set a" for a b
    using that by (induction a) auto
  then have "p = q" using assms unfolding snapshotKey_def by metis
  then show ?thesis using assms(1) by (simp add: snapshotKey_def)
qed

text \<open>
  C6. \<open>rollback_change\<close> goes where it was told: if it changes the disk, the caller named the revision of
  the text it replaces, the one changed file is the resolved one, and its new text has the revision the
  caller asked for and passes the checks of a write (round trip of the header, blocked shortcodes).
  This needs the invariant that every snapshot is stored under the revision of its text, which all
  three writers keep in every run on pages of valid UTF-8 text.
\<close>

theorem rollback_reaches_revision:
  assumes run: "page_run L G now w" and coders: "coders_ok L" and at: "call_at now env"
    and call: "handleRollbackChange L env pg cfg w inp = (w', out)" and changed: "pw_files w' \<noteq> pw_files w"
  shows "\<exists>lang src old new. rollback_checks inp (normalizeInputSlug (rk_slug inp)) = Inr lang \<and>
     resolveExistingSource (px_tree env) (bc_content_root cfg) (normalizeInputSlug (rk_slug inp)) lang = Inr src \<and>
     gget (pw_files w) (rs_path src) = Some old \<and> pw_files w' = gput (pw_files w) (rs_path src) new \<and>
     page_rev L old = rk_expected inp \<and> page_rev L new = rk_to_revision inp \<and>
     snapshot_fault L (bc_blocked cfg) new = None"
  using call
proof (cases rule: rollback_cases)
  case untouched
  then show ?thesis using changed by (simp add: same_stores_def)
next
  case (locked w1 slug src lang h cs)
  have same: "pw_files w1 = pw_files w" "pw_snaps w1 = pw_snaps w" using locked(1) by (simp_all add: same_stores_def)
  from locked(5) show ?thesis
  proof (cases rule: rollback_locked_cases)
    case untouched
    then show ?thesis using changed same by simp
  next
    case (tried old content s sn r)
    have le: "now \<le> be_now env" using at by (simp add: call_at_def)
    have old: "gget (pw_files w) (rs_path src) = Some old"
      using tried(1) same by (simp add: read_page_def split: if_splits)
    have inv: "page_inv L G now w" by (rule page_run_inv [OF run coders])
    then obtain M where M: "snaps_ledger L M now (pw_snaps w)" by (auto simp: page_inv_def)
    have nul: "CHR 0x00 \<notin> set (rs_path src)" using inv old by (simp add: page_inv_def plain_names_on_def)
    obtain e where q: "store_get (snapshot_kind (pk_snap_enc L) (pk_snap_dec L)) (be_snap_fl env) (be_now env)
        (pw_snaps w) (snapshotKey (rs_path src) (rk_to_revision inp)) (isolationCallerKey (be_ctx env)) = (s, Inr (Some e))"
        "content = se_content e"
      using snapshot_get_store [OF tried(4) [unfolded snap_get_def]] same by auto blast
    have "M (snapshotKey (rs_path src) (rk_to_revision inp)) = Some e"
      using get_ok(2) [OF _ le q(1) refl] M unfolding snaps_ledger_def by blast
    then obtain p where p: "CHR 0x00 \<notin> set p" "snapshotKey (rs_path src) (rk_to_revision inp) = snapshotKey p (page_rev L content)"
      using M q(2) unfolding snaps_ledger_def by blast
    have "page_rev L content = rk_to_revision inp" using snapshot_key_inj [OF p(2) nul p(1)] by simp
    moreover have "pw_files w' = gput (pw_files w) (rs_path src) content" using tried(8) changed same by auto
    ultimately show ?thesis using locked tried(3,9) old by auto
  qed
qed

section \<open>An edit can be undone\<close>

text \<open>A rollback that meets no fault: the request is accepted, and disk, journal and coders do their work.\<close>

definition calm_disk :: "('a, 'o) page_coders \<Rightarrow> 'e bundle_env_scheme \<Rightarrow> path_guard \<Rightarrow> page_world \<Rightarrow> string \<Rightarrow> bool" where
  "calm_disk L env pg w p \<longleftrightarrow> (\<forall>c. \<not> be_dies env c) \<and> \<not> be_unreadable env p \<and>
     RevalidateForWrite (be_view env) pg p = None \<and> RevalidateForWrite (be_view env) pg (path_dir p) = None \<and>
     be_write env p = no_atomic_faults \<and> be_snap_fl env = no_faults \<and> be_snap_put_fl env = no_faults \<and>
     (pw_journal w = None \<or> be_random env \<noteq> None \<and> (\<forall>s. \<not> be_rec_fails env s) \<and>
        (\<forall>x. pk_rec_enc L x \<noteq> None) \<and> (\<forall>a. pk_out_enc L a \<noteq> None))"

definition accepted_rollback ::
    "page_env \<Rightarrow> path_guard \<Rightarrow> bundle_config \<Rightarrow> page_rollback_input \<Rightarrow> resolved_source \<Rightarrow> bool" where
  "accepted_rollback env pg cfg inp src \<longleftrightarrow>
     (let slug = normalizeInputSlug (rk_slug inp)
      in \<exists>lang joined. rollback_checks inp slug = Inr lang \<and> SafeJoin (be_view env) pg slug = Inr joined \<and>
           resolveExistingSource (px_tree env) (bc_content_root cfg) slug lang = Inr src) \<and>
     \<not> bc_force_dry_run cfg \<and> \<not> rk_dry_run inp \<and> blank (rk_idem_key inp) \<and> rk_change_set inp = '''' \<and>
     \<not> blank (rk_expected inp) \<and> be_allow env \<and> be_locked env"

lemma calm_page_write:
  assumes "calm_disk L env pg w p"
  shows "\<exists>w' op. page_write L env pg w p before content idem = (w', Done op) \<and>
    pw_files w' = gput (pw_files w) p content \<and> (pw_journal w' = None \<longleftrightarrow> pw_journal w = None) \<and> op_kind op \<noteq> ''''"
proof (cases "pw_journal w")
  case None
  then show ?thesis using assms
    by (simp add: page_write_def calm_disk_def beginSourceWriteRecovery_def beginRecovery_def AtomicWriteChecked_def
        before_promote_def page_log_def op_record_def Let_def)
next
  case (Some t)
  then obtain h where h: "be_random env = Some h" using assms by (auto simp: calm_disk_def)
  obtain x where x: "pk_rec_enc L (SourceWrite \<lparr>sr_path = path_clean p, sr_before = before, sr_after = page_rev L content,
      sr_idem = idem, sr_cleanup = []\<rparr>) = Some x" using assms Some by (fastforce simp: calm_disk_def)
  show ?thesis using assms Some
    by (simp add: page_write_def calm_disk_def beginSourceWriteRecovery_def beginRecovery_def h x newRecoveryOperationID_def
        AtomicWriteChecked_def before_promote_def page_log_def op_record_def RecordRecovery_def Let_def)
qed

lemma calm_page_close:
  assumes calm: "calm_disk L env pg w0 p" and j: "pw_journal w = None \<longleftrightarrow> pw_journal w0 = None" and op: "op_kind op \<noteq> ''''"
  shows "\<exists>w'. page_close L env w op tool key h cs slug action out = (w', Done out) \<and> pw_files w' = pw_files w"
proof -
  have "\<exists>j' op'. stageResult (pk_rec_enc L) (be_rec_fails env ''staged'') (be_now env) (pw_journal w) op
      (pk_out_enc L out) = (j', Inr op')"
  proof (cases "pw_journal w = None \<or> op_id op = ''''")
    case True
    then show ?thesis by (simp add: stageResult_def)
  next
    case False
    then obtain t where t: "pw_journal w = Some t" by auto
    then have e: "\<forall>s. \<not> be_rec_fails env s" "\<forall>x. pk_rec_enc L x \<noteq> None" "\<forall>a. pk_out_enc L a \<noteq> None"
      using calm j by (auto simp: calm_disk_def)
    obtain raw where raw: "pk_out_enc L out = Some raw" using e(3) by fastforce
    obtain x where "pk_rec_enc L (stage_payload raw (op_payload op)) = Some x" using e(2) by fastforce
    then show ?thesis
      using False t e(1) op raw by (simp add: stageResult_def op_record_def RecordRecovery_def Let_def)
  qed
  then show ?thesis using calm
    by (auto simp: page_close_def calm_disk_def Let_def page_log_def page_remember_def)
qed

lemma calm_rollback_write:
  assumes calm: "calm_disk L env pg w (rs_path src)"
    and put: "snd (snap_put L env (pw_snaps w) (rs_path src) raw) = None"
  shows "\<exists>w' a. page_rollback_write L env pg w slug src raw content inp h cs = (w', Done a) \<and>
    pw_files w' = gput (pw_files w) (rs_path src) content"
proof -
  obtain sn where sn: "snap_put L env (pw_snaps w) (rs_path src) raw = (sn, None)" using put by (metis prod.collapse)
  note sn' = sn [unfolded snap_put_def]
  let ?w1 = "w\<lparr>pw_snaps := sn\<rparr>"
  have calm1: "calm_disk L env pg ?w1 (rs_path src)" using calm by (simp add: calm_disk_def)
  from calm_page_write [OF calm1, of "page_rev L raw" content
      "recoveryIdempotencyFor (be_ctx env) ''rollback_change'' (rk_idem_key inp) h
         (rollback_seed L env slug (page_rev L raw) content)"] obtain w2 op where w2: "page_write L env pg ?w1 (rs_path src) (page_rev L raw) content
      (recoveryIdempotencyFor (be_ctx env) ''rollback_change'' (rk_idem_key inp) h
         (rollback_seed L env slug (page_rev L raw) content)) = (w2, Done op)"
      "pw_files w2 = gput (pw_files w) (rs_path src) content" "pw_journal w2 = None \<longleftrightarrow> pw_journal ?w1 = None" "op_kind op \<noteq> ''''"
    by auto
  let ?w3 = "w2\<lparr>pw_index := Upsert (pw_index w2) (rollback_index_page L (pw_index w2) slug src content)\<rparr>"
  have "pw_journal ?w3 = None \<longleftrightarrow> pw_journal ?w1 = None" using w2(3) by simp
  from calm_page_close [OF calm1 this w2(4)] obtain w4 where
    "page_close L env ?w3 op ''rollback_change'' (rk_idem_key inp) h cs slug ''rollback''
       (rollback_answer L env slug src (page_rev L raw) content) =
     (w4, Done (rollback_answer L env slug src (page_rev L raw) content))" "pw_files w4 = pw_files ?w3" by blast
  then show ?thesis
    using sn' w2(1,2) calm by (simp add: page_rollback_write_def calm_disk_def Let_def)
qed

lemma calm_put:
  assumes "be_snap_put_fl env = no_faults" and "\<And>k t. pk_snap_enc L \<lparr>se_caller_key = isolationCallerKey (be_ctx env),
      se_content = raw, se_created_at = be_now env\<rparr> = Some t \<Longrightarrow> t \<noteq> ''''"
    and "pk_snap_enc L \<lparr>se_caller_key = isolationCallerKey (be_ctx env), se_content = raw, se_created_at = be_now env\<rparr> \<noteq> None"
  shows "snd (snap_put L env s p raw) = None"
  using assms
  by (auto simp: snap_put_def snapshotStore_put_def store_put_def snapshot_kind_def PutEphemeralRecord_def snapshotKey_def
      Let_def split: option.splits)

lemma calm_rollback:
  assumes calm: "calm_disk L env pg w (rs_path src)" and req: "accepted_rollback env pg cfg inp src"
    and raw: "gget (pw_files w) (rs_path src) = Some new" "rk_expected inp = page_rev L new"
    and snap: "snap_get L env (pw_snaps w) (rs_path src) (rk_to_revision inp) = (s, Inr (Some old))"
    and fit: "snapshot_fault L (bc_blocked cfg) old = None"
    and put: "snd (snap_put L env s (rs_path src) new) = None"
  shows "\<exists>w' a. handleRollbackChange L env pg cfg w inp = (w', Done a) \<and> pw_files w' = gput (pw_files w) (rs_path src) old"
proof -
  let ?slug = "normalizeInputSlug (rk_slug inp)"
  obtain lang joined where ok: "rollback_checks inp ?slug = Inr lang" "SafeJoin (be_view env) pg ?slug = Inr joined"
      "resolveExistingSource (px_tree env) (bc_content_root cfg) ?slug lang = Inr src"
    and dry: "\<not> bc_force_dry_run cfg" "\<not> rk_dry_run inp" and key: "blank (rk_idem_key inp)" and cs: "rk_change_set inp = ''''"
    and e: "\<not> blank (rk_expected inp)" "be_allow env" "be_locked env"
    using req by (auto simp: accepted_rollback_def Let_def)
  obtain c where R: "Resolve (be_cs_read_fails env) (be_cs_touch_fails env) (be_ctx env) (pw_sets w) '''' (be_now env) =
      (pw_sets w, Inr c)"
    by (simp add: Resolve_def checkOwnership_def Let_def)
  let ?w1 = "w\<lparr>pw_snaps := s\<rparr>"
  have calm1: "calm_disk L env pg ?w1 (rs_path src)" using calm by (simp add: calm_disk_def)
  have "snd (snap_put L env (pw_snaps ?w1) (rs_path src) new) = None" using put by simp
  from calm_rollback_write [OF calm1 this, of ?slug old inp "''''" c] obtain w' a where
    w': "page_rollback_write L env pg ?w1 ?slug src new old inp '''' c = (w', Done a)"
      "pw_files w' = gput (pw_files w) (rs_path src) old" by auto
  have "read_page env (pw_files w) (rs_path src) = Some new" using raw(1) calm by (simp add: read_page_def calm_disk_def)
  then have "page_rollback_locked L env pg cfg w ?slug src inp False '''' c = (w', Done a)"
    using e(1) raw(2) snap fit w'(1) by (simp add: page_rollback_locked_def snap_get_def Let_def)
  then have "handleRollbackChange L env pg cfg w inp = (w', Done a)"
    using ok dry key cs e R by (simp add: handleRollbackChange_def page_replay_def Let_def)
  then show ?thesis using w'(2) by blast
qed

lemma put_back: "gget fs p = Some old \<Longrightarrow> gput (gput fs p new) p old = fs"
  by (induction fs) auto


section \<open>A concrete site\<close>

text \<open>One page, whose header the encoder writes back as a title, and a durable table for the two snapshots.\<close>

definition sample_md2 :: string where
  "sample_md2 = fm_open @ ''title: b'' @ fm_close @ [CHR 0x0A] @ ''old''"

definition sample_entry :: "string \<Rightarrow> snapshot_entry" where
  "sample_entry text = \<lparr>se_caller_key = ''t'', se_content = text, se_created_at = 1\<rparr>"

definition sample_coders :: "unit page_lib_of" where
  "sample_coders = \<lparr>pk_sha = (\<lambda>s. s), pk_yaml = sample_yaml\<lparr>ya_marshal := \<lambda>n. Some ''title: b''\<rparr>,
     pk_yaml_any = (\<lambda>s. True), pk_yaml_doc = (\<lambda>s. Some (False, False)), pk_plan_enc = (\<lambda>e. None),
     pk_plan_dec = (\<lambda>s. None),
     pk_snap_enc = (\<lambda>e. if e = sample_entry sample_md then Some ''x'' else if e = sample_entry sample_md2 then Some ''y'' else None),
     pk_snap_dec = (\<lambda>s. if s = ''x'' then Some (sample_entry sample_md) else Some (sample_entry sample_md2)),
     pk_rec_enc = (\<lambda>r. None), pk_out_enc = (\<lambda>a. None), pk_out_dec = (\<lambda>s. None), pk_request_hash = (\<lambda>r. None),
     pk_marshal = (\<lambda>j. ''''), pk_meta = JNull,
     pk_page = \<lparr>pl_yaml = (\<lambda>s. None), pl_toml = (\<lambda>s. None), pl_sprint = (\<lambda>v. ''''), pl_format_time = (\<lambda>t. ''''),
                pl_parse_time = (\<lambda>l s. None)\<rparr>,
     pk_case = \<lparr>ct_lower = (\<lambda>s. s), ct_title = (\<lambda>s. s)\<rparr>\<rparr>"

lemma sample_coders_ok: "coders_ok sample_coders"
  by (simp add: coders_ok_def sample_coders_def)

definition sample_page_env :: page_env where
  "sample_page_env = bundle_env.extend (BundleTx.sample_env (\<lambda>c. False))
     \<lparr>px_tree = ContentModel.sample_view, px_taken = (\<lambda>s. False)\<rparr>"

lemma sample_at: "call_at 1 sample_page_env"
  by (simp add: call_at_def sample_page_env_def sample_env_def zero_time_def second_def bundle_env.extend_def)

definition sample_site :: page_world where
  "sample_site = \<lparr>pw_files = [(''/c/hello/index.md'', sample_md)], pw_journal = None,
     pw_plans = newPlanStore planTTL planMaxEntries None,
     pw_snaps = newSnapshotStore snapshotTTL snapshotMaxEntries (Some []),
     pw_idem = newIdempotencyStore 1 1 None, pw_sets = NewRegistry None,
     pw_index = Upsert \<lparr>ix_pages = [], ix_by_slug = [], ix_by_slug_lang = [], ix_by_default = []\<rparr>
        (blank_page ''hello'' '''')\<rparr>"

lemma sample_run: "page_run sample_coders {} 1 sample_site"
  by (rule page_run.start [of _ None "Some []"])
     (simp_all add: fresh_table_def sample_site_def plain_names_on_def wf_map_def)

definition sample_plan_call :: "page_world \<times> plan_answer go" where
  "sample_plan_call = handlePlanContentChange sample_coders sample_page_env sample_guard sample_config sample_site
     \<lparr>pi_slug = ''hello'', pi_lang = '''', pi_operations =
        [\<lparr>po_op = ''set_draft'', po_body = '''', po_value = '''', po_field = '''', po_draft = Some True\<rparr>]\<rparr>"

definition sample_shown :: shown where
  "sample_shown = (case snd sample_plan_call of Inr a \<Rightarrow> {(''t'', a)} | Inl e \<Rightarrow> {})"

definition sample_apply :: apply_input where
  "sample_apply = \<lparr>ai_plan_id = ''plan_1'', ai_key = '''', ai_change_set = '''', ai_dry_run = False\<rparr>"

definition sample_update :: update_input where
  "sample_update = \<lparr>ui_page = ''hello'', ui_page_lang = '''', ui_title = '''', ui_body = None, ui_old = None,
     ui_new = None, ui_section = False, ui_tags = None, ui_categories = None, ui_draft = Some True,
     ui_description = None, ui_featured = None, ui_casing = False, ui_expected = ''sha256:'' @ sample_md,
     ui_expected_bundle = '''', ui_idem_key = '''', ui_cs = '''', ui_dry = False\<rparr>"

definition sample_edit :: "page_world \<times> page_answer outcome" where
  "sample_edit = handleUpdatePage sample_coders sample_page_env sample_guard sample_config sample_site sample_update"

definition sample_back :: page_rollback_input where
  "sample_back = \<lparr>rk_slug = ''hello'', rk_lang = '''', rk_to_revision = ''sha256:'' @ sample_md,
     rk_expected = ''sha256:'' @ sample_md2, rk_idem_key = '''', rk_change_set = '''', rk_dry_run = False\<rparr>"

lemma sample_edit_files: "pw_files (fst sample_edit) = [(''/c/hello/index.md'', sample_md2)]"
  by code_simp

lemma sample_site_files: "pw_files sample_site = [(''/c/hello/index.md'', sample_md)]"
  by (simp add: sample_site_def)

lemma sample_texts: "sample_md \<noteq> sample_md2"
  by (simp add: sample_md_def sample_md2_def)

lemma sample_now: "be_now sample_page_env = 1"
  by (simp add: sample_page_env_def sample_env_def bundle_env.extend_def)

lemma sample_caller: "isolationCallerKey (be_ctx sample_page_env) = ''t''"
  by code_simp

section \<open>The guarantees on the concrete site\<close>

lemma sample_utf8: "gget (pw_files sample_site) p = Some raw \<Longrightarrow> valid_utf8 raw"
  "valid_utf8 (isolationCallerKey (be_ctx sample_page_env))"
proof -
  have "valid_utf8 sample_md" by code_simp
  then show "gget (pw_files sample_site) p = Some raw \<Longrightarrow> valid_utf8 raw" by (simp add: sample_site_files split: if_splits)
  show "valid_utf8 (isolationCallerKey (be_ctx sample_page_env))" by code_simp
qed

lemma sample_edit_utf8: "utf8_snapshot sample_coders sample_page_env sample_site (fst sample_edit)"
proof (rule utf8_files_snapshot [OF _ sample_utf8])
  have "page_call_run sample_coders sample_page_env sample_guard sample_config sample_site (CallUpdate sample_update) =
      (fst sample_edit, snd sample_edit)" by (simp add: sample_edit_def)
  from page_call_change [OF this] show "snaps_change sample_coders sample_page_env sample_site (fst sample_edit)"
    by (simp add: page_change_def)
qed

lemma sample_plan_utf8: "utf8_plan sample_coders sample_page_env sample_config sample_site
    \<lparr>pi_slug = ''hello'', pi_lang = '''', pi_operations =
       [\<lparr>po_op = ''set_draft'', po_body = '''', po_value = '''', po_field = '''', po_draft = Some True\<rparr>]\<rparr>"
proof -
  let ?ops = "[\<lparr>po_op = ''set_draft'', po_body = '''', po_value = '''', po_field = '''', po_draft = Some True\<rparr>]"
  let ?src = "\<lparr>rs_slug = ''hello'', rs_lang = '''', rs_path = ''/c/hello/index.md'', rs_section = False\<rparr>"
  have "validateLangParam '''' = Inr ''''" "normalizeInputSlug ''hello'' = ''hello''" by code_simp+
  moreover have "resolveExistingSource (px_tree sample_page_env) (bc_content_root sample_config) ''hello'' '''' = Inr ?src" by code_simp
  moreover have "read_page sample_page_env (pw_files sample_site) ''/c/hello/index.md'' = Some sample_md" by code_simp
  moreover have "case planned_text sample_coders (bc_blocked sample_config) ?ops sample_md of
      Inr (r, content) \<Rightarrow> plan_utf8 (plan_entry_of sample_coders sample_page_env ''hello'' ?src sample_md r content)
    | Inl e \<Rightarrow> False" by code_simp
  ultimately show ?thesis unfolding utf8_plan_def by (auto split: sum.splits prod.splits)
qed

lemma sample_edit_run: "page_run sample_coders {} 1 (fst sample_edit)"
proof -
  have "page_run sample_coders {} (be_now sample_page_env) (fst sample_edit)"
    by (rule page_run.wrote [OF sample_run sample_at, where c = "CallUpdate sample_update" and out = "snd sample_edit"
          and pg = sample_guard and cfg = sample_config])
       (simp_all add: sample_edit_utf8, simp add: sample_edit_def)
  then show ?thesis by (simp add: sample_page_env_def sample_env_def bundle_env.extend_def)
qed

lemma sample_plan_run: "page_run sample_coders sample_shown 1 (fst sample_plan_call)"
proof -
  have "page_run sample_coders (case snd sample_plan_call of Inr a \<Rightarrow> insert (isolationCallerKey (be_ctx sample_page_env), a) {}
      | Inl e \<Rightarrow> {}) (be_now sample_page_env) (fst sample_plan_call)"
    by (rule page_run.planned [OF sample_run sample_at, where pg = sample_guard and cfg = sample_config
          and inp = "\<lparr>pi_slug = ''hello'', pi_lang = '''', pi_operations =
            [\<lparr>po_op = ''set_draft'', po_body = '''', po_value = '''', po_field = '''', po_draft = Some True\<rparr>]\<rparr>"])
       (simp_all add: sample_plan_utf8, simp add: sample_plan_call_def)
  then show ?thesis by (cases "snd sample_plan_call") (simp_all add: sample_shown_def sample_caller sample_now)
qed

lemma content_plan_exact_witness:
  "\<exists>a. (''t'', a) \<in> sample_shown \<and> pl_plan_id a = ''plan_1'' \<and> pl_revision a = page_rev sample_coders sample_md"
proof -
  define w where "w = fst sample_plan_call"
  have w: "pw_files w = [(''/c/hello/index.md'', sample_md)]" unfolding w_def by code_simp
  obtain w' out where h: "handleApplyContentPlan sample_coders sample_page_env sample_guard sample_config w sample_apply = (w', out)"
    by fastforce
  have "pw_files (fst (handleApplyContentPlan sample_coders sample_page_env sample_guard sample_config
      (fst sample_plan_call) sample_apply)) = [(''/c/hello/index.md'', sample_md2)]" by code_simp
  then have "pw_files w' \<noteq> pw_files w" using h w sample_texts unfolding w_def [symmetric] by simp
  from content_plan_exact [OF sample_plan_run [folded w_def] sample_coders_ok sample_at h this] show ?thesis
    unfolding sample_caller w by (auto simp: sample_apply_def split: if_splits)
qed

lemma update_page_guarded_witness:
  "\<exists>d :: prepared_update. pw_files (fst sample_edit) = gput (pw_files sample_site) ''/c/hello/index.md'' (pd_content d) \<and>
     ui_expected sample_update = page_rev sample_coders sample_md"
proof -
  have h: "handleUpdatePage sample_coders sample_page_env sample_guard sample_config sample_site sample_update =
      (fst sample_edit, snd sample_edit)" by (simp add: sample_edit_def)
  have "pw_files (fst sample_edit) \<noteq> pw_files sample_site"
    using sample_texts by (simp add: sample_edit_files sample_site_files)
  from update_page_guarded [OF h this] obtain src :: resolved_source and old and d :: prepared_update where "gget (pw_files sample_site) (rs_path src) = Some old"
      "ui_expected sample_update = page_rev sample_coders old"
      "pw_files (fst sample_edit) = gput (pw_files sample_site) (rs_path src) (pd_content d)" by blast
  then show ?thesis unfolding sample_site_files by - (rule exI [of _ d], simp split: if_splits)
qed

lemma rollback_reaches_revision_witness:
  "\<exists>w out. handleRollbackChange sample_coders sample_page_env sample_guard sample_config (fst sample_edit) sample_back = (w, out) \<and>
     (\<exists>old new. gget (pw_files (fst sample_edit)) ''/c/hello/index.md'' = Some old \<and>
        pw_files w = gput (pw_files (fst sample_edit)) ''/c/hello/index.md'' new \<and>
        page_rev sample_coders new = rk_to_revision sample_back)"
proof -
  obtain w out where h: "handleRollbackChange sample_coders sample_page_env sample_guard sample_config
      (fst sample_edit) sample_back = (w, out)" by fastforce
  have "pw_files (fst (handleRollbackChange sample_coders sample_page_env sample_guard sample_config (fst sample_edit) sample_back)) =
      [(''/c/hello/index.md'', sample_md)]" by code_simp
  then have "pw_files w \<noteq> pw_files (fst sample_edit)" using h sample_texts by (simp add: sample_edit_files)
  from rollback_reaches_revision [OF sample_edit_run sample_coders_ok sample_at h this] show ?thesis
    using h unfolding sample_edit_files by (auto split: if_splits)
qed

lemma sample_calm: "calm_disk sample_coders sample_page_env sample_guard (fst sample_edit) ''/c/hello/index.md''"
proof -
  have "RevalidateForWrite BundleTx.sample_view sample_guard ''/c/hello/index.md'' = None" by code_simp
  moreover have "RevalidateForWrite BundleTx.sample_view sample_guard (path_dir ''/c/hello/index.md'') = None" by code_simp
  moreover have "pw_journal (fst sample_edit) = None" by code_simp
  ultimately show ?thesis
    by (simp add: calm_disk_def sample_page_env_def sample_env_def bundle_env.extend_def)
qed

lemma sample_accepted:
  "\<exists>src. rs_path src = ''/c/hello/index.md'' \<and>
     accepted_rollback sample_page_env sample_guard sample_config sample_back src"
proof -
  have slug: "normalizeInputSlug (rk_slug sample_back) = ''hello''" by code_simp
  have "rollback_checks sample_back ''hello'' = Inr ''''" by code_simp
  moreover have "SafeJoin BundleTx.sample_view sample_guard ''hello'' = Inr ''/c/hello''" by code_simp
  moreover have "resolveExistingSource ContentModel.sample_view ''/c'' ''hello'' '''' =
      Inr \<lparr>rs_slug = ''hello'', rs_lang = '''', rs_path = ''/c/hello/index.md'', rs_section = False\<rparr>" by code_simp
  moreover have "\<not> blank (''sha256:'' @ sample_md2)" by code_simp
  ultimately show ?thesis
    unfolding accepted_rollback_def slug Let_def
    by - (rule exI [of _ "\<lparr>rs_slug = ''hello'', rs_lang = '''', rs_path = ''/c/hello/index.md'', rs_section = False\<rparr>"],
       simp add: sample_page_env_def sample_env_def bundle_env.extend_def sample_config_def
          sample_back_def blank_def)
qed


end
