(* ===== verification/PageRemoval.thy ===== *)
theory PageRemoval
  imports PageDelete PageGuarantees
begin

text \<open>
  What \<open>delete\_page\<close> can reach, and what it does not guard: the files that one call can change, the
  conditions under which it changes any, and the slugs for which neither a revision nor a confirmation is asked.
\<close>

section \<open>The reach of one call\<close>

definition at_or_below :: "string \<Rightarrow> string \<Rightarrow> bool" where
  "at_or_below p q \<longleftrightarrow> q = p \<or> has_prefix (p @ ''/'') q"

lemma remove_all_get: "gget (fst (remove_all st fs p)) q = gget fs q \<or> at_or_below p q"
  by (auto simp: remove_all_def at_or_below_def gget_keep_key split: option.splits)

lemma remove_all_done: "remove_all st fs p = (fs', True) \<Longrightarrow> at_or_below p q \<Longrightarrow> gget fs' q = None"
  by (auto simp: remove_all_def at_or_below_def gget_keep_key split: option.splits)

lemma remove_all_ok: "remove_all None fs p = (fst (remove_all None fs p), True)"
  by (simp add: remove_all_def)

definition hero_path :: "'e delete_env_scheme \<Rightarrow> delete_config \<Rightarrow> string \<Rightarrow> string option" where
  "hero_path env cfg slug =
     (case ResolveHeroImageLocation (be_view env) (dx_cwd env) (dc_hugo_root cfg) slug of
        Inl e \<Rightarrow> None | Inr loc \<Rightarrow> Some (hl_abs loc))"

text \<open>The files beside the source that a completed removal cleans up.\<close>

definition leftovers :: "'e delete_env_scheme \<Rightarrow> delete_config \<Rightarrow> string \<Rightarrow> string \<Rightarrow> bool" where
  "leftovers env cfg slug q \<longleftrightarrow>
     dc_site_root cfg \<noteq> '''' \<and> at_or_below (path_join [dc_site_root cfg, slug]) q \<or> hero_path env cfg slug = Some q"

lemma clean_public_get:
  "gget (fst (clean_public env cfg db fs slug full wn)) q = gget fs q \<or>
   full \<and> dc_site_root cfg \<noteq> '''' \<and> at_or_below (path_join [dc_site_root cfg, slug]) q"
  using remove_all_get [of "dx_tree env (path_join [dc_site_root cfg, slug])" fs "path_join [dc_site_root cfg, slug]" q]
  by (auto simp: clean_public_def Let_def split: prod.splits bool.splits)

lemma clean_hero_get:
  "gget (fst (clean_hero env cfg fs slug full wn)) q = gget fs q \<or> full \<and> hero_path env cfg slug = Some q"
  by (auto simp: clean_hero_def removeHeroImage_def hero_path_def split: sum.splits if_splits)

lemma audit_get: "gget (fst (appendAuditLog f fs p entry)) q = gget fs q \<or> q = p"
  by (simp add: appendAuditLog_def)

lemma delete_finish_get:
  "gget (pw_files (fst (delete_finish L env cfg w slug src full))) q = gget (pw_files w) q \<or>
   q = audit_path cfg \<or> full \<and> leftovers env cfg slug q"
proof -
  let ?wn = "if pw_journal w \<noteq> None \<and> dx_db_fails env then ''source deleted but derived DB could not be updated'' else ''''"
  let ?public = "clean_public env cfg (pw_journal w \<noteq> None) (pw_files w) slug full ?wn"
  let ?hero = "clean_hero env cfg (fst ?public) slug full (fst (snd ?public))"
  have "pw_files (fst (delete_finish L env cfg w slug src full)) =
      fst (appendAuditLog (dx_audit_fails env) (fst ?hero) (audit_path cfg) (audit_entry env slug))"
    by (simp add: delete_finish_def Let_def)
  then show ?thesis
    using audit_get [of "dx_audit_fails env" "fst ?hero" "audit_path cfg" "audit_entry env slug" q]
      clean_hero_get [of env cfg "fst ?public" slug full "fst (snd ?public)" q]
      clean_public_get [of env cfg "pw_journal w \<noteq> None" "pw_files w" slug full ?wn q]
    unfolding leftovers_def by metis
qed

text \<open>
  The directory goes when its listing shows no language file but the source, when it cannot be listed, or when the slug has
  no source file at all.
\<close>

definition last_source :: "'e bundle_env_scheme \<Rightarrow> string \<Rightarrow> resolved_source option \<Rightarrow> bool" where
  "last_source env dir src \<longleftrightarrow>
     (case src of None \<Rightarrow> True | Some s \<Rightarrow> none_beside (be_ls env) dir {rs_path s})"

lemma last_source_code:
  "last_source env dir src \<longleftrightarrow>
     (case src of None \<Rightarrow> True | Some s \<Rightarrow> \<not> bundleHasRemainingLangFiles (ls_without (be_ls env) (rs_path s)) dir)"
  by (auto simp: last_source_def none_beside_def bundleHasRemainingLangFiles_def ls_without_def lang_files_def
      language_name_code filter_empty_conv split: option.splits)

lemma remove_source_get:
  assumes "remove_source env pg fs dir src = (fs', r)"
  shows "gget fs' q = gget fs q \<or> src \<noteq> None \<and> q = src_path src \<or> last_source env dir src \<and> at_or_below dir q"
    and "r = Done full \<Longrightarrow> full = last_source env dir src"
proof -
  show "gget fs' q = gget fs q \<or> src \<noteq> None \<and> q = src_path src \<or> last_source env dir src \<and> at_or_below dir q"
  proof (cases src)
    case None
    then have "fs' = fst (remove_all (dx_tree env dir) fs dir)"
      using assms by (auto simp: remove_source_def split: prod.splits bool.splits)
    then show ?thesis using remove_all_get [of "dx_tree env dir" fs dir q] None by (auto simp: last_source_def)
  next
    case (Some s)
    then have "fs' = fs \<or> fs' = gdel fs (rs_path s) \<or>
        last_source env dir src \<and> fs' = fst (remove_all (dx_tree env dir) (gdel fs (rs_path s)) dir)"
      using assms by (auto simp: remove_source_def last_source_code Let_def split: prod.splits bool.splits if_splits)
    then show ?thesis
      using Some remove_all_get [of "dx_tree env dir" "gdel fs (rs_path s)" dir q] by (auto simp: src_path_def)
  qed
  show "full = last_source env dir src" if "r = Done full"
    using assms that
    by (auto simp: remove_source_def last_source_code Let_def split: prod.splits bool.splits if_splits option.splits)
qed

lemma page_close_files:
  assumes "page_close L env w op tool key h cs slug action out = (w', r)"
  shows "pw_files w' = pw_files w"
  using assms
  by (auto simp: page_close_def page_remember_def page_log_def Let_def split: prod.splits sum.splits if_splits)

lemma commit_get:
  assumes "commitDeletePageSource L env pg cfg w inp slug dir src cur h = (w', r)"
  shows "gget (pw_files w') q = gget (pw_files w) q \<or> src \<noteq> None \<and> q = src_path src \<or> last_source env dir src \<and> at_or_below dir q"
    and "r = Done (full, op) \<Longrightarrow> full = last_source env dir src"
proof -
  have parts: "pw_files w' = pw_files w \<or> (\<exists>fs x. remove_source env pg (pw_files w) dir src = (fs, x) \<and> pw_files w' = fs)"
    and full: "r = Done (full, op) \<Longrightarrow> \<exists>fs. remove_source env pg (pw_files w) dir src = (fs, Done full)"
    using assms unfolding commitDeletePageSource_def Let_def
    by (auto simp: page_log_def split: prod.splits sum.splits if_splits outcome.splits)
  show "gget (pw_files w') q = gget (pw_files w) q \<or> src \<noteq> None \<and> q = src_path src \<or> last_source env dir src \<and> at_or_below dir q"
    using parts remove_source_get(1) by metis
  show "r = Done (full, op) \<Longrightarrow> full = last_source env dir src"
    using full remove_source_get(2) by metis
qed

lemma delete_write_get:
  assumes "delete_write L env pg cfg w inp slug dir src cur h cs = (w', r)"
  shows "gget (pw_files w') q = gget (pw_files w) q \<or> q = audit_path cfg \<or> src \<noteq> None \<and> q = src_path src \<or>
    last_source env dir src \<and> (at_or_below dir q \<or> leftovers env cfg slug q)"
proof -
  obtain w1 c where c: "commitDeletePageSource L env pg cfg w inp slug dir src cur h = (w1, c)" by fastforce
  note base = commit_get(1) [OF c, of q]
  show ?thesis
  proof (cases c)
    case (Done x)
    obtain full op where x: "x = (full, op)" by fastforce
    then have full: "full = last_source env dir src" using commit_get(2) [OF c] Done by auto
    obtain w2 out where w2: "delete_finish L env cfg w1 slug src full = (w2, out)" by fastforce
    have "pw_files w' = pw_files w2"
      using assms c Done x w2 page_close_files by (auto simp: delete_write_def split: if_splits)
    then show ?thesis using base delete_finish_get [of L env cfg w1 slug src full q] full w2 by auto
  qed (use assms c base in \<open>auto simp: delete_write_def\<close>)
qed

lemma delete_resolved_cases:
  assumes "delete_resolved L env pg cfg w inp dry slug mode dir src h cs = (w', r)"
  obtains (untouched) "w' = w"
  | (tried) cur where "\<not> (case src of None \<Rightarrow> False | Some s \<Rightarrow> rs_section s)" "\<not> dry"
      "src \<noteq> None \<Longrightarrow> \<not> blank (dl_expected inp)" "validateDeletePageConfirmation L env cfg (pw_files w) inp src = None"
      "delete_revision L env (pw_files w) src = Inr cur" "dl_expected inp = cur"
      "delete_write L env pg cfg w inp slug dir src cur h cs = (w', r)"
  using assms unfolding delete_resolved_def by (auto split: if_splits option.splits sum.splits)

lemma page_replay_keeps:
  "page_replay L env w tool key dry req = (w', r) \<Longrightarrow> pw_files w' = pw_files w \<and> pw_index w' = pw_index w"
  by (auto simp: page_replay_def split: if_splits option.splits prod.splits)

lemma delete_cases:
  assumes "handleDeletePage L env pg cfg w inp = (w', r)"
  obtains (untouched) "pw_files w' = pw_files w" "pw_index w' = pw_index w"
  | (resolved) w1 lang mode dir src h cs where "pw_files w1 = pw_files w"
      "rejectRootSlug (normalizeInputSlug (dl_slug inp)) = None"
      "validateDeletePageInput inp (normalizeInputSlug (dl_slug inp)) = Inr (lang, mode)"
      "SafeJoin (be_view env) pg (normalizeInputSlug (dl_slug inp)) = Inr dir"
      "resolveDeletePageSource (px_tree env) (normalizeInputSlug (dl_slug inp)) lang (bc_content_root cfg) = Inr src"
      "delete_resolved L env pg cfg w1 inp (bc_force_dry_run cfg \<or> dl_dry inp) (normalizeInputSlug (dl_slug inp)) mode dir
         src h cs = (w', r)"
      "pw_index w1 = pw_index w"
proof -
  let ?slug = "normalizeInputSlug (dl_slug inp)" and ?dry = "bc_force_dry_run cfg \<or> dl_dry inp"
  note step = assms [unfolded handleDeletePage_def Let_def]
  show ?thesis
  proof (cases "\<exists>lang mode rg cs w2 h dir src. rejectRootSlug ?slug = None \<and> validateDeletePageInput inp ?slug = Inr (lang, mode) \<and>
      Resolve (be_cs_read_fails env) (be_cs_touch_fails env) (be_ctx env) (pw_sets w) (dl_cs inp) (be_now env) = (rg, Inr cs) \<and>
      page_replay L env (w\<lparr>pw_sets := rg\<rparr>) ''delete_page'' (dl_key inp) ?dry (delete_request inp ?slug lang) = (w2, Inr (h, None)) \<and>
      SafeJoin (be_view env) pg ?slug = Inr dir \<and>
      resolveDeletePageSource (px_tree env) ?slug lang (bc_content_root cfg) = Inr src \<and>
      delete_resolved L env pg cfg w2 inp ?dry ?slug mode dir src h cs = (w', r)")
    case True
    then obtain lang mode rg cs w2 h dir src where ok: "rejectRootSlug ?slug = None"
      "validateDeletePageInput inp ?slug = Inr (lang, mode)"
      "page_replay L env (w\<lparr>pw_sets := rg\<rparr>) ''delete_page'' (dl_key inp) ?dry (delete_request inp ?slug lang) = (w2, Inr (h, None))"
      "SafeJoin (be_view env) pg ?slug = Inr dir"
      "resolveDeletePageSource (px_tree env) ?slug lang (bc_content_root cfg) = Inr src"
      "delete_resolved L env pg cfg w2 inp ?dry ?slug mode dir src h cs = (w', r)" by blast
    have same: "pw_files w2 = pw_files w" "pw_index w2 = pw_index w" using page_replay_keeps [OF ok(3)] by simp_all
    show ?thesis by (rule resolved [OF same(1) ok(1,2,4,5,6) same(2)])
  next
    case False
    have "pw_files w' = pw_files w \<and> pw_index w' = pw_index w"
      using step False
      by (auto split: option.splits sum.splits prod.splits if_splits dest!: page_replay_keeps)
    then show ?thesis using untouched by blast
  qed
qed

text \<open>
  C8. The reach of \<open>delete\_page\<close>. If a call changes the text at any path, it was no dry run and did not name
  the site root or a section index; when the slug has a source file, the caller named the revision of its
  present text and, where the deployment asks for it, confirmed (or the page is marked as test content).
  The path is the audit log, the source file, or, only when no other language file is left in the
  directory of the slug, a path in that directory, in the built output of the slug, or its hero image.
\<close>

theorem delete_page_scope:
  assumes call: "handleDeletePage L env pg cfg w inp = (w', out)"
    and changed: "gget (pw_files w') q \<noteq> gget (pw_files w) q"
  shows "\<exists>lang mode dir src. validateDeletePageInput inp (normalizeInputSlug (dl_slug inp)) = Inr (lang, mode) \<and>
     normalizeInputSlug (dl_slug inp) \<noteq> ''/'' \<and> \<not> (bc_force_dry_run cfg \<or> dl_dry inp) \<and>
     SafeJoin (be_view env) pg (normalizeInputSlug (dl_slug inp)) = Inr dir \<and>
     resolveDeletePageSource (px_tree env) (normalizeInputSlug (dl_slug inp)) lang (bc_content_root cfg) = Inr src \<and>
     (\<forall>s. src = Some s \<longrightarrow> \<not> rs_section s \<and>
        (\<exists>old. gget (pw_files w) (rs_path s) = Some old \<and> dl_expected inp = page_rev L old) \<and>
        (dc_require_confirm cfg \<longrightarrow> dl_confirm inp \<or>
           (\<exists>old. gget (pw_files w) (rs_path s) = Some old \<and>
              boolVal (gget (fst (splitFrontmatter (pk_page L) old)) ''test_content'')))) \<and>
     (q = audit_path cfg \<or> src \<noteq> None \<and> q = src_path src \<or>
      last_source env dir src \<and> (at_or_below dir q \<or> leftovers env cfg (normalizeInputSlug (dl_slug inp)) q))"
  using call
proof (cases rule: delete_cases)
  case untouched
  then show ?thesis using changed by simp
next
  case (resolved w1 lang mode dir src h cs)
  from resolved(6) show ?thesis
  proof (cases rule: delete_resolved_cases)
    case untouched
    then show ?thesis using changed resolved(1) by simp
  next
    case (tried cur)
    have guard: "\<not> rs_section s \<and> (\<exists>old. gget (pw_files w) (rs_path s) = Some old \<and> dl_expected inp = page_rev L old) \<and>
        (dc_require_confirm cfg \<longrightarrow> dl_confirm inp \<or> (\<exists>old. gget (pw_files w) (rs_path s) = Some old \<and>
           boolVal (gget (fst (splitFrontmatter (pk_page L) old)) ''test_content'')))" if "src = Some s" for s
      using tried(1,4,5,6) that resolved(1)
      by (auto simp: delete_revision_def SourceRevision_def page_rev_def validateDeletePageConfirmation_def read_page_def
          ParseFrontmatterFile_def split: option.splits sum.splits if_splits bool.splits)
    have reach: "q = audit_path cfg \<or> src \<noteq> None \<and> q = src_path src \<or>
        last_source env dir src \<and> (at_or_below dir q \<or> leftovers env cfg (normalizeInputSlug (dl_slug inp)) q)"
      using delete_write_get [OF tried(7), of q] changed resolved(1) by auto
    have root: "normalizeInputSlug (dl_slug inp) \<noteq> ''/''"
      using resolved(2) by (auto simp: rejectRootSlug_def split: if_splits)
    show ?thesis
      by (rule exI [of _ lang], rule exI [of _ mode], rule exI [of _ dir], rule exI [of _ src])
         (use resolved tried(2) guard reach root in auto)
  qed
qed

section \<open>What is not guarded\<close>

text \<open>A deletion that meets no fault; \<open>calm_disk\<close> is asked for the directory of the slug.\<close>

lemma calm_begin:
  assumes "calm_disk L env pg w p"
  shows "\<exists>j op. beginSourceWriteRecovery (pk_rec_enc L) (be_random env) (be_rec_fails env ''in_progress'') (be_now env)
      (pw_journal w) path before after idem cleanup = (j, Inr op) \<and> (j = None \<longleftrightarrow> pw_journal w = None) \<and> op_kind op \<noteq> ''''"
proof (cases "pw_journal w")
  case None
  then show ?thesis by (simp add: beginSourceWriteRecovery_def beginRecovery_def op_record_def Let_def)
next
  case (Some t)
  then obtain h where h: "be_random env = Some h" using assms by (auto simp: calm_disk_def)
  obtain x where x: "pk_rec_enc L (SourceWrite \<lparr>sr_path = path_clean path, sr_before = before, sr_after = after,
      sr_idem = idem, sr_cleanup = map path_clean cleanup\<rparr>) = Some x" using assms Some by (fastforce simp: calm_disk_def)
  show ?thesis using assms Some
    by (simp add: calm_disk_def beginSourceWriteRecovery_def beginRecovery_def h x newRecoveryOperationID_def
        op_record_def RecordRecovery_def Let_def)
qed

lemma calm_commit:
  assumes calm: "calm_disk L env pg w dir" and tree: "dx_tree env dir = None"
  shows "\<exists>w1 op. commitDeletePageSource L env pg cfg w inp slug dir None cur h = (w1, Done (True, op)) \<and>
    (\<forall>q. at_or_below dir q \<longrightarrow> gget (pw_files w1) q = None) \<and> (pw_journal w1 = None \<longleftrightarrow> pw_journal w = None) \<and> op_kind op \<noteq> ''''"
proof -
  obtain j op where j: "beginSourceWriteRecovery (pk_rec_enc L) (be_random env) (be_rec_fails env ''in_progress'') (be_now env)
      (pw_journal w) dir cur '''' (recoveryIdempotencyFor (be_ctx env) ''delete_page'' (dl_key inp) h
         (delete_seed L env cfg slug None False)) [] = (j, Inr op)" "j = None \<longleftrightarrow> pw_journal w = None" "op_kind op \<noteq> ''''"
    using calm_begin [OF calm] by blast
  have dies: "\<And>c. \<not> be_dies env c" using calm by (simp add: calm_disk_def)
  let ?w1 = "page_log L env (w\<lparr>pw_journal := j, pw_files := fst (remove_all None (pw_files w) dir)\<rparr>) op ''file_written''"
  have "commitDeletePageSource L env pg cfg w inp slug dir None cur h = (?w1, Done (True, op))"
    using j(1) dies tree remove_all_ok [of "pw_files w" dir]
    by (auto simp: commitDeletePageSource_def delete_cleanup_def remove_source_def Let_def split: prod.splits)
  moreover have "gget (pw_files ?w1) q = None" if "at_or_below dir q" for q
    using remove_all_done [OF remove_all_ok that] by (simp add: page_log_def)
  moreover have "pw_journal ?w1 = None \<longleftrightarrow> pw_journal w = None"
    using j(2) by (auto simp: page_log_def op_record_def RecordRecovery_def Let_def split: option.splits)
  ultimately show ?thesis using j(3) by (intro exI [of _ ?w1] exI [of _ op]) auto
qed

lemma delete_finish_none:
  assumes "gget (pw_files w) q = None" "q \<noteq> audit_path cfg"
  shows "gget (pw_files (fst (delete_finish L env cfg w slug src full))) q = None"
proof -
  have tree: "gget fs q = None \<Longrightarrow> gget (fst (remove_all st fs p)) q = None" for fs st p
    by (simp add: remove_all_def Let_def split: option.splits)
  have public: "gget fs q = None \<Longrightarrow> gget (fst (clean_public env cfg db fs slug full wn)) q = None" for fs db wn
    using tree [of fs "dx_tree env (path_join [dc_site_root cfg, slug])" "path_join [dc_site_root cfg, slug]"]
    by (auto simp: clean_public_def Let_def split: prod.splits bool.splits)
  have hero: "gget fs q = None \<Longrightarrow> gget (fst (clean_hero env cfg fs slug full wn)) q = None" for fs wn
    by (auto simp: clean_hero_def removeHeroImage_def split: sum.splits)
  show ?thesis using assms
    by (auto simp: delete_finish_def Let_def appendAuditLog_def intro!: hero public)
qed

text \<open>
  C9. \<open>delete\_page\<close> asks for no revision and no confirmation when its slug has no source file of its own.
  Then everything at or below the path that the slug names is deleted: all pages of a section without
  an \<open>\_index.md\<close>, or, with the slug \<open>posts/a/index.md\<close>, a published page by its file name. The
  deployment's \<open>require\_delete\_confirmation\<close> makes no difference.
\<close>

theorem delete_page_unguarded:
  assumes slug: "normalizeInputSlug (dl_slug inp) = slug" "slug \<noteq> ''/''" "validateDeletePageInput inp slug = Inr ('''', mode)"
    and path: "SafeJoin (be_view env) pg slug = Inr dir" "px_taken env dir"
    and no_source: "ResolvePageSource (px_tree env) slug '''' (bc_content_root cfg) = Inl (''source_file_not_found:'' @ e)"
    and request: "dl_expected inp = ''''" "blank (dl_key inp)" "dl_cs inp = ''''" "\<not> (bc_force_dry_run cfg \<or> dl_dry inp)"
    and calm: "be_allow env" "be_locked env" "calm_disk L env pg w dir" "dx_tree env dir = None"
  shows "\<exists>w' a. handleDeletePage L env pg cfg w inp = (w', Done a) \<and> dn_removed a = Some True \<and>
     (\<forall>q. at_or_below dir q \<and> q \<noteq> audit_path cfg \<longrightarrow> gget (pw_files w') q = None)"
proof -
  obtain c where R: "Resolve (be_cs_read_fails env) (be_cs_touch_fails env) (be_ctx env) (pw_sets w) '''' (be_now env) =
      (pw_sets w, Inr c)"
    by (simp add: Resolve_def checkOwnership_def Let_def)
  have src: "resolveDeletePageSource (px_tree env) slug '''' (bc_content_root cfg) = Inr None"
    using no_source by (simp add: resolveDeletePageSource_def)
  obtain w1 op where w1: "commitDeletePageSource L env pg cfg w inp slug dir None '''' '''' = (w1, Done (True, op))"
      "\<forall>q. at_or_below dir q \<longrightarrow> gget (pw_files w1) q = None" "pw_journal w1 = None \<longleftrightarrow> pw_journal w = None" "op_kind op \<noteq> ''''"
    using calm_commit [OF calm(3,4), of cfg inp slug "''''" "''''"] by (elim exE conjE) (rule that)
  obtain w2 a where w2: "delete_finish L env cfg w1 slug None True = (w2, a)" by fastforce
  then have a: "dn_removed a = Some True" "pw_journal w2 = pw_journal w1"
    by (auto simp: delete_finish_def deleted_answer_def Let_def)
  from calm_page_close [OF calm(3), of w2 op "''delete_page''" "dl_key inp" "''''" c slug "''delete''" a]
  obtain w3 where w3: "page_close L env w2 op ''delete_page'' (dl_key inp) '''' c slug ''delete'' a = (w3, Done a)"
      "pw_files w3 = pw_files w2" using a(2) w1(3,4) by auto
  have dies: "\<not> be_dies env AfterConsume" using calm(3) by (simp add: calm_disk_def)
  have "delete_write L env pg cfg w inp slug dir None '''' '''' c = (w3, Done a)"
    using w1(1) w2 w3(1) dies by (simp add: delete_write_def)
  then have "delete_resolved L env pg cfg w inp False slug mode dir None '''' c = (w3, Done a)"
    using request(1) calm(1,2) by (simp add: delete_resolved_def validateDeletePageConfirmation_def delete_revision_def)
  then have "handleDeletePage L env pg cfg w inp = (w3, Done a)"
    using slug path src request R by (simp add: handleDeletePage_def rejectRootSlug_def page_replay_def Let_def)
  moreover have "gget (pw_files w3) q = None" if "at_or_below dir q" "q \<noteq> audit_path cfg" for q
    using delete_finish_none [of w1 q cfg L env slug None True] w1(2) that w2 w3(2) by simp
  ultimately show ?thesis using a(1) by blast
qed

section \<open>Concrete calls\<close>

definition sample_delete_coders :: "unit delete_lib_of" where
  "sample_delete_coders = \<lparr>pk_sha = (\<lambda>s. s), pk_yaml = sample_yaml, pk_yaml_any = (\<lambda>s. True),
     pk_yaml_doc = (\<lambda>s. Some (False, False)), pk_plan_enc = (\<lambda>e. None), pk_plan_dec = (\<lambda>s. None),
     pk_snap_enc = (\<lambda>e. None), pk_snap_dec = (\<lambda>s. None), pk_rec_enc = (\<lambda>r. None), pk_out_enc = (\<lambda>a. None),
     pk_out_dec = (\<lambda>s. None), pk_request_hash = (\<lambda>r. None), pk_marshal = (\<lambda>j. ''''), pk_meta = JNull,
     pk_page = pk_page sample_coders, pk_case = pk_case sample_coders\<rparr>"

definition sample_delete_env :: delete_env where
  "sample_delete_env = page_env.extend
     (sample_page_env\<lparr>be_ls := \<lambda>d. if d = ''/c/hello'' then Some [(''index.md'', False)] else None,
        px_taken := \<lambda>p. p = ''/c/hello'' \<or> p = ''/c/hello/index.md''\<rparr>)
     \<lparr>dx_cwd = None, dx_stuck = (\<lambda>p. False), dx_tree = (\<lambda>p. None), dx_db_fails = False, dx_shadow_fails = False,
      dx_audit_fails = False, dx_modified = (\<lambda>p. ''''), dx_backlinks = (\<lambda>s. [])\<rparr>"

definition sample_delete_config :: delete_config where
  "sample_delete_config = \<lparr>bc_content_root = ''/c'', bc_force_dry_run = False, bc_blocked = [],
     dc_require_confirm = True, dc_site_root = ''/s'', dc_hugo_root = ''/h''\<rparr>"

definition sample_delete :: "string \<Rightarrow> string \<Rightarrow> bool \<Rightarrow> delete_input" where
  "sample_delete slug expected confirm = \<lparr>dl_slug = slug, dl_lang = '''', dl_expected = expected, dl_key = '''', dl_cs = '''',
     dl_dry = False, dl_mode = '''', dl_confirm = confirm\<rparr>"

lemma delete_page_scope_witness:
  "\<exists>old. gget (pw_files sample_site) ''/c/hello/index.md'' = Some old \<and> ''sha256:'' @ sample_md = page_rev sample_delete_coders old"
proof -
  let ?inp = "sample_delete ''hello'' (''sha256:'' @ sample_md) True"
  obtain w out where h: "handleDeletePage sample_delete_coders sample_delete_env sample_guard sample_delete_config sample_site ?inp = (w, out)"
    by fastforce
  have "gget (pw_files (fst (handleDeletePage sample_delete_coders sample_delete_env sample_guard sample_delete_config
      sample_site ?inp))) ''/c/hello/index.md'' = None" by code_simp
  then have "gget (pw_files w) ''/c/hello/index.md'' \<noteq> gget (pw_files sample_site) ''/c/hello/index.md''"
    using h by (simp add: sample_site_files)
  from delete_page_scope [OF h this] obtain lang src where
    v: "\<exists>mode. validateDeletePageInput ?inp (normalizeInputSlug (dl_slug ?inp)) = Inr (lang, mode)" and
    r: "resolveDeletePageSource (px_tree sample_delete_env) (normalizeInputSlug (dl_slug ?inp)) lang
        (bc_content_root sample_delete_config) = Inr src" and
    g: "\<forall>s. src = Some s \<longrightarrow> (\<exists>old. gget (pw_files sample_site) (rs_path s) = Some old \<and>
        dl_expected ?inp = page_rev sample_delete_coders old)" by auto
  have "validateDeletePageInput ?inp (normalizeInputSlug (dl_slug ?inp)) = Inr ('''', ''standard'')" by code_simp
  then have "lang = ''''" using v by auto
  moreover have "resolveDeletePageSource (px_tree sample_delete_env) (normalizeInputSlug (dl_slug ?inp)) ''''
      (bc_content_root sample_delete_config) =
      Inr (Some \<lparr>rs_slug = ''hello'', rs_lang = '''', rs_path = ''/c/hello/index.md'', rs_section = False\<rparr>)" by code_simp
  ultimately show ?thesis using r g by (auto simp: sample_delete_def)
qed

lemma delete_page_unguarded_witness:
  "\<exists>w a. handleDeletePage sample_delete_coders sample_delete_env sample_guard sample_delete_config sample_site
       (sample_delete ''hello/index.md'' '''' False) = (w, Done a) \<and> gget (pw_files w) ''/c/hello/index.md'' = None"
proof -
  let ?inp = "sample_delete ''hello/index.md'' '''' False"
  have slug: "normalizeInputSlug (dl_slug ?inp) = ''hello/index.md''" "''hello/index.md'' \<noteq> ''/''"
      "validateDeletePageInput ?inp ''hello/index.md'' = Inr ('''', ''standard'')" by code_simp+
  have path: "SafeJoin (be_view sample_delete_env) sample_guard ''hello/index.md'' = Inr ''/c/hello/index.md''"
      "px_taken sample_delete_env ''/c/hello/index.md''" by code_simp+
  have src: "ResolvePageSource (px_tree sample_delete_env) ''hello/index.md'' '''' (bc_content_root sample_delete_config) =
      Inl (''source_file_not_found:'' @ '' no source file found for slug'')" by code_simp
  have req: "dl_expected ?inp = ''''" "blank (dl_key ?inp)" "dl_cs ?inp = ''''"
      "\<not> (bc_force_dry_run sample_delete_config \<or> dl_dry ?inp)" by code_simp+
  have env: "be_allow sample_delete_env" "be_locked sample_delete_env" "dx_tree sample_delete_env ''/c/hello/index.md'' = None"
    by code_simp+
  have "RevalidateForWrite BundleTx.sample_view sample_guard ''/c/hello/index.md'' = None"
      "RevalidateForWrite BundleTx.sample_view sample_guard (path_dir ''/c/hello/index.md'') = None" by code_simp+
  then have calm: "calm_disk sample_delete_coders sample_delete_env sample_guard sample_site ''/c/hello/index.md''"
    by (simp add: calm_disk_def sample_delete_env_def sample_page_env_def sample_env_def bundle_env.extend_def
        page_env.extend_def sample_site_def)
  have "at_or_below ''/c/hello/index.md'' ''/c/hello/index.md'' \<and> ''/c/hello/index.md'' \<noteq> audit_path sample_delete_config"
    by code_simp
  then show ?thesis
    using delete_page_unguarded [OF slug path src req env(1,2) calm env(3)] by blast
qed

end
