(* ===== verification/PageSuite.thy ===== *)
theory PageSuite
  imports PageCreate PageRemoval
begin

text \<open>
  \<open>create\_page\<close> never touches an existing file: where it writes, how it extends the index, and a concrete call.
\<close>

section \<open>A new page\<close>

lemma create_file_effect:
  assumes "create_file L env pg w path content idem = (w', r)"
  shows "pw_index w' = pw_index w \<and> (pw_files w' = pw_files w \<or>
      pw_files w' = gput (pw_files w) path content \<and> gget (pw_files w) path = None \<and> \<not> px_taken env path)"
  using assms
  by (auto simp: create_file_def page_log_def Let_def dest!: AtomicCreateChecked_cases
      split: prod.splits sum.splits if_splits option.splits)

lemma page_close_keeps:
  assumes "page_close L env w op tool key h cs slug action out = (w', r)"
  shows "pw_files w' = pw_files w \<and> pw_index w' = pw_index w"
  using assms
  by (auto simp: page_close_def page_remember_def page_log_def Let_def split: prod.splits sum.splits if_splits)

lemma create_locked_effect:
  assumes "create_locked L env pg cfg w inp slug lang path d cs = (w', r)"
  shows "pw_files w' = pw_files w \<or>
      pw_files w' = gput (pw_files w) path (pc_content d) \<and> gget (pw_files w) path = None \<and> \<not> px_taken env path"
    and "pw_index w' = pw_index w \<or> pw_index w' = Upsert (pw_index w)
      (created_page (pk_page L) (be_now env) inp slug lang path (pc_tags d) (pc_categories d) (pc_expires d))"
proof -
  have "(pw_files w' = pw_files w \<or>
      pw_files w' = gput (pw_files w) path (pc_content d) \<and> gget (pw_files w) path = None \<and> \<not> px_taken env path) \<and>
    (pw_index w' = pw_index w \<or> pw_index w' = Upsert (pw_index w)
      (created_page (pk_page L) (be_now env) inp slug lang path (pc_tags d) (pc_categories d) (pc_expires d)))"
    using assms unfolding create_locked_def
    by (auto dest!: page_replay_keeps create_file_effect page_close_keeps
        split: prod.splits sum.splits option.splits if_splits outcome.splits)
  then show "pw_files w' = pw_files w \<or>
      pw_files w' = gput (pw_files w) path (pc_content d) \<and> gget (pw_files w) path = None \<and> \<not> px_taken env path"
    "pw_index w' = pw_index w \<or> pw_index w' = Upsert (pw_index w)
      (created_page (pk_page L) (be_now env) inp slug lang path (pc_tags d) (pc_categories d) (pc_expires d))"
    by blast+
qed

lemma create_cases:
  assumes "handleCreatePage L marshal env pg cfg w inp = (w', r)"
  obtains (untouched) "pw_files w' = pw_files w" "pw_index w' = pw_index w"
  | (tried) w1 lang dir d cs where "pw_files w1 = pw_files w" "pw_index w1 = pw_index w"
      "validate_create cfg inp (normalizeInputSlug (cp_slug inp)) = Inr lang"
      "SafeJoin (be_view env) pg (normalizeInputSlug (cp_slug inp)) = Inr dir"
      "test_content_fault (cp_test inp) = None"
      "prepare_create L marshal env (pw_index w) inp lang = Inr d" "\<not> (bc_force_dry_run cfg \<or> cp_dry inp)"
      "create_locked L env pg cfg w1 inp (normalizeInputSlug (cp_slug inp)) lang (page_file dir lang) d cs = (w', r)"
proof -
  let ?slug = "normalizeInputSlug (cp_slug inp)" and ?dry = "bc_force_dry_run cfg \<or> cp_dry inp"
  note step = assms [unfolded handleCreatePage_def Let_def]
  show ?thesis
  proof (cases "\<exists>lang rg cs dir d. validate_create cfg inp ?slug = Inr lang \<and> SafeJoin (be_view env) pg ?slug = Inr dir \<and>
      test_content_fault (cp_test inp) = None \<and> prepare_create L marshal env (pw_index w) inp lang = Inr d \<and> \<not> ?dry \<and>
      create_locked L env pg cfg (w\<lparr>pw_sets := rg\<rparr>) inp ?slug lang (page_file dir lang) d cs = (w', r)")
    case True
    then obtain lang rg cs dir d where ok: "validate_create cfg inp ?slug = Inr lang" "SafeJoin (be_view env) pg ?slug = Inr dir"
      "test_content_fault (cp_test inp) = None" "prepare_create L marshal env (pw_index w) inp lang = Inr d" "\<not> ?dry"
      "create_locked L env pg cfg (w\<lparr>pw_sets := rg\<rparr>) inp ?slug lang (page_file dir lang) d cs = (w', r)" by blast
    show ?thesis by (rule tried [OF _ _ ok(1,2,3,4,5,6)]) simp_all
  next
    case False
    have "pw_files w' = pw_files w \<and> pw_index w' = pw_index w"
      using step False by (auto split: option.splits sum.splits prod.splits if_splits)
    then show ?thesis using untouched by blast
  qed
qed

text \<open>
  C10. \<open>create\_page\<close> only creates. If a call changes the disk, it was no dry run, exactly one path changes, the
  index file of the slug and language, at which nothing was before; no segment of the slug is a name that Hugo
  reserves; the new text passes the round trip of its header and is the encoded header with the given body;
  and the header of a page asked for as test content is a draft with an expiry between one hour and
  seven days from now.
\<close>

theorem create_page_fresh:
  assumes call: "handleCreatePage L marshal env pg cfg w inp = (w', out)" and changed: "pw_files w' \<noteq> pw_files w"
  shows "\<exists>lang dir doc text. validate_create cfg inp (normalizeInputSlug (cp_slug inp)) = Inr lang \<and>
     reservedSlugConflict (normalizeInputSlug (cp_slug inp)) = None \<and> \<not> (bc_force_dry_run cfg \<or> cp_dry inp) \<and>
     SafeJoin (be_view env) pg (normalizeInputSlug (cp_slug inp)) = Inr dir \<and>
     gget (pw_files w) (page_file dir lang) = None \<and> \<not> px_taken env (page_file dir lang) \<and>
     pw_files w' = gput (pw_files w) (page_file dir lang) text \<and> round_trip_fault L text = None \<and>
     text = fm_open @ marshal doc @ ''---'' @ (if cp_body inp \<noteq> '''' then [CHR 0x0A, CHR 0x0A] @ cp_body inp else '''') \<and>
     fd_title doc = cp_title inp \<and> (fd_draft doc \<longleftrightarrow> cp_test inp \<noteq> None) \<and> (fd_test doc \<longleftrightarrow> cp_test inp \<noteq> None) \<and>
     (cp_test inp \<noteq> None \<longrightarrow> (\<exists>h. 1 \<le> h \<and> h \<le> 168 \<and> fd_expires doc = pl_format_time (pk_page L) (be_now env + h * (60 * minute))))"
  using call
proof (cases rule: create_cases)
  case untouched
  then show ?thesis using changed by simp
next
  case (tried w1 lang dir d cs)
  let ?slug = "normalizeInputSlug (cp_slug inp)"
  have made: "pw_files w' = gput (pw_files w) (page_file dir lang) (pc_content d)"
      "gget (pw_files w) (page_file dir lang) = None" "\<not> px_taken env (page_file dir lang)"
    using create_locked_effect(1) [OF tried(8)] changed tried(1) by auto
  have reserved: "reservedSlugConflict ?slug = None"
    using tried(3) by (auto simp: validate_create_def split: if_splits sum.splits option.splits)
  obtain tags categories where "buildFrontmatter (pk_page L) marshal (be_now env) (cp_title inp) tags categories
      (cp_body inp) (cp_test inp) = (pc_content d, pc_expires d)" "round_trip_fault L (pc_content d) = None"
    using tried(6) by (auto simp: prepare_create_def Let_def split: option.splits)
  moreover define doc where "doc = \<lparr>fd_title = cp_title inp, fd_date = pl_format_time (pk_page L) (be_now env),
      fd_tags = nil_list tags, fd_categories = nil_list categories, fd_draft = (cp_test inp \<noteq> None), fd_description = '''',
      fd_featured = '''', fd_test = (cp_test inp \<noteq> None),
      fd_owner = (case cp_test inp of None \<Rightarrow> '''' | Some t \<Rightarrow> tc_owner t),
      fd_expires = (case cp_test inp of None \<Rightarrow> '''' | Some t \<Rightarrow> expiry_text (pk_page L) (be_now env) t)\<rparr>"
  ultimately have new: "pc_content d = fm_open @ marshal doc @ ''---'' @
      (if cp_body inp \<noteq> '''' then [CHR 0x0A, CHR 0x0A] @ cp_body inp else '''')" "round_trip_fault L (pc_content d) = None"
    by (auto simp: buildFrontmatter_def buildFrontmatterWithOptions_def Let_def)
  have ttl: "\<exists>h. 1 \<le> h \<and> h \<le> 168 \<and> fd_expires doc = pl_format_time (pk_page L) (be_now env + h * (60 * minute))"
    if t: "cp_test inp \<noteq> None"
  proof -
    from t obtain t where t: "cp_test inp = Some t" by blast
    show ?thesis
      by (rule exI [of _ "case tc_ttl_hours t of None \<Rightarrow> 24 | Some h \<Rightarrow> h"])
         (use tried(5) t in \<open>auto simp: test_content_fault_def doc_def expiry_text_def testContentMaxTTLHours_def
            testContentDefaultTTLHours_def split: option.splits if_splits\<close>)
  qed
  show ?thesis
    by (rule exI [of _ lang], rule exI [of _ dir], rule exI [of _ doc], rule exI [of _ "pc_content d"])
       (use tried(3,4,7) reserved made new ttl in \<open>simp add: doc_def\<close>)
qed

section \<open>A concrete new page\<close>

definition sample_create_coders :: "unit create_lib_of" where
  "sample_create_coders = \<lparr>pk_sha = (\<lambda>s. s), pk_yaml = sample_yaml, pk_yaml_any = (\<lambda>s. True),
     pk_yaml_doc = (\<lambda>s. Some (False, False)), pk_plan_enc = (\<lambda>e. None), pk_plan_dec = (\<lambda>s. None),
     pk_snap_enc = (\<lambda>e. None), pk_snap_dec = (\<lambda>s. None), pk_rec_enc = (\<lambda>r. None), pk_out_enc = (\<lambda>a. None),
     pk_out_dec = (\<lambda>s. None), pk_request_hash = (\<lambda>r. None), pk_marshal = (\<lambda>j. ''''), pk_meta = JNull,
     pk_page = pk_page sample_coders, pk_case = pk_case sample_coders\<rparr>"

definition sample_create_env :: create_env where
  "sample_create_env = page_env.extend sample_page_env \<lparr>cx_stat_fails = (\<lambda>p. False)\<rparr>"

definition sample_create_config :: create_config where
  "sample_create_config = \<lparr>bc_content_root = ''/c'', bc_force_dry_run = False, bc_blocked = [],
     cc_default_lang = ''en'', cc_languages = []\<rparr>"

definition sample_create :: create_input where
  "sample_create = \<lparr>cp_slug = ''new'', cp_lang = '''', cp_title = ''n'', cp_body = '''', cp_tags = None, cp_categories = None,
     cp_casing = False, cp_key = '''', cp_cs = '''', cp_dry = False,
     cp_test = Some \<lparr>tc_ttl_hours = Some 1, tc_owner = ''o''\<rparr>\<rparr>"

definition sample_marshal :: "frontmatter_doc \<Rightarrow> string" where
  "sample_marshal d = ''title: '' @ fd_title d @ [CHR 0x0A]"

lemma sample_validate: "validate_create sample_create_config sample_create ''new'' = Inr ''''"
proof -
  have r: "runes ''n'' = [110]" by code_simp
  have "rejectUnsafeText ''n'' = None"
    unfolding rejectUnsafeText_def r by (simp add: rune_fault_def isBidiControlRune_def emojiTagBase_def in_tag_block_def)
  then have title: "validateTitleFormat ''n'' = None" by (simp add: validateTitleFormat_def maxTitleRunes_def r del: runes.simps)
  have "rejectUnsafeText '''' = None" by (simp add: rejectUnsafeText_def)
  then have body: "validateBodyFormat '''' [] = None" by (simp add: validateBodyFormat_def rejectDangerousShortcodes_def)
  have "validateLangParam '''' = Inr ''''" "rejectUnconfiguredLang '''' [] ''en'' = None"
    "reservedSlugConflict ''new'' = None" "validateSlugFormat ''new'' = None" "validateIdempotencyKey '''' = None" by code_simp+
  then show ?thesis
    using title body by (simp add: validate_create_def sample_create_def sample_create_config_def nil_list_def
      validateTaxonomyTerms_def)
qed

lemma sample_created:
  "\<exists>w a. handleCreatePage sample_create_coders sample_marshal sample_create_env sample_guard sample_create_config
       sample_site sample_create = (w, Done a) \<and> pw_files w \<noteq> pw_files sample_site"
proof -
  obtain w out where h: "handleCreatePage sample_create_coders sample_marshal sample_create_env sample_guard sample_create_config
       sample_site sample_create = (w, out)" by fastforce
  have slug: "normalizeInputSlug (cp_slug sample_create) = ''new''" by code_simp
  have res: "Resolve (be_cs_read_fails sample_create_env) (be_cs_touch_fails sample_create_env)
      (be_ctx sample_create_env) (pw_sets sample_site) (cp_cs sample_create) (be_now sample_create_env) =
      (pw_sets sample_site, Inr ''default:t'')" by code_simp
  have join: "SafeJoin (be_view sample_create_env) sample_guard ''new'' = Inr ''/c/new''" by code_simp
  have "test_content_fault (cp_test sample_create) = None" "be_locked sample_create_env"
    "\<not> (bc_force_dry_run sample_create_config \<or> cp_dry sample_create)"
    by (simp_all add: test_content_fault_def sample_create_def testContentMaxTTLHours_def sample_create_env_def
        sample_page_env_def sample_env_def bundle_env.extend_def page_env.extend_def sample_create_config_def)
  moreover define d where "d = projr (prepare_create sample_create_coders sample_marshal sample_create_env
      (pw_index sample_site) sample_create '''')"
  have "\<not> isl (prepare_create sample_create_coders sample_marshal sample_create_env (pw_index sample_site) sample_create '''')"
    by code_simp
  then have "prepare_create sample_create_coders sample_marshal sample_create_env (pw_index sample_site) sample_create '''' = Inr d"
    unfolding d_def by simp
  moreover have "page_file ''/c/new'' '''' = ''/c/new/index.md''" by code_simp
  ultimately have run: "handleCreatePage sample_create_coders sample_marshal sample_create_env sample_guard sample_create_config
       sample_site sample_create = create_locked sample_create_coders sample_create_env sample_guard sample_create_config
       sample_site sample_create ''new'' '''' ''/c/new/index.md'' d ''default:t''"
    using slug res join sample_validate by (simp add: handleCreatePage_def Let_def)
  have "(case create_locked sample_create_coders sample_create_env sample_guard sample_create_config
       sample_site sample_create ''new'' '''' ''/c/new/index.md'' d ''default:t'' of
       (v, Done a) \<Rightarrow> pw_files v \<noteq> pw_files sample_site | (v, _) \<Rightarrow> False)"
    unfolding d_def by code_simp
  then show ?thesis using run by (auto split: prod.splits outcome.splits)
qed

lemma create_page_fresh_witness:
  "\<exists>w out. handleCreatePage sample_create_coders sample_marshal sample_create_env sample_guard sample_create_config
       sample_site sample_create = (w, out) \<and> gget (pw_files sample_site) ''/c/new/index.md'' = None \<and>
     (\<exists>text. pw_files w = gput (pw_files sample_site) ''/c/new/index.md'' text)"
proof -
  obtain w a where h: "handleCreatePage sample_create_coders sample_marshal sample_create_env sample_guard sample_create_config
       sample_site sample_create = (w, Done a)" and changed: "pw_files w \<noteq> pw_files sample_site"
    using sample_created by blast
  have "normalizeInputSlug (cp_slug sample_create) = ''new''" "page_file ''/c/new'' '''' = ''/c/new/index.md''"
    "SafeJoin (be_view sample_create_env) sample_guard ''new'' = Inr ''/c/new''" by code_simp+
  then show ?thesis
    using create_page_fresh [OF h changed] h sample_validate by auto
qed

end
