(* ===== verification/PageWellFormed.thy ===== *)
theory PageWellFormed
  imports PageSuite
begin

text \<open>
  The type invariant of the page tools: one text per path, and a source index whose lookup maps are those
  of its list of pages, kept by every call of the tools that take a slug; and how the index follows the disk.
\<close>

section \<open>Well-formed files and index\<close>

text \<open>The file table has one text per path, and the maps of the index are those of its pages.\<close>

definition well_formed :: "page_world \<Rightarrow> bool" where
  "well_formed w \<longleftrightarrow> wf_map (pw_files w) \<and> index_ok (pw_index w)"

lemma page_write_index: "page_write L env pg w path before content idem = (w', r) \<Longrightarrow> pw_index w' = pw_index w"
  by (auto simp: page_write_def page_log_def Let_def split: prod.splits sum.splits option.splits if_splits)

lemma update_write_index:
  assumes "update_write L env pg cfg w inp slug src raw current d h cs = (w', r)"
  shows "pw_index w' = pw_index w \<or>
    pw_index w' = Upsert (pw_index w) (reconcile_page L inp current (rs_lang src) (rs_path src) d)"
  using assms unfolding update_write_def
  by (auto dest!: page_write_index page_close_keeps
      split: prod.splits sum.splits option.splits if_splits outcome.splits)

lemma update_found_index:
  assumes "update_found L env pg cfg w inp dry slug lang src current cs = (w', r)"
  shows "pw_index w' = pw_index w \<or>
    (\<exists>d. pw_index w' = Upsert (pw_index w) (reconcile_page L inp current (rs_lang src) (rs_path src) d))"
  using assms unfolding update_found_def
  by (auto dest!: page_replay_keeps update_write_index
      split: prod.splits sum.splits option.splits if_splits)

lemma update_index:
  assumes "handleUpdatePage L env pg cfg w inp = (w', r)"
  shows "pw_index w' = pw_index w \<or>
    (\<exists>slug src current d. update_current (pw_index w) inp slug src = Inr current \<and>
       pw_index w' = Upsert (pw_index w) (reconcile_page L inp current (rs_lang src) (rs_path src) d))"
proof (rule ccontr)
  assume no: "\<not> ?thesis"
  show False
    using assms no unfolding handleUpdatePage_def Let_def
    by (auto dest!: update_found_index split: prod.splits sum.splits if_splits) blast
qed

lemma reconcile_slug: "pg_slug (reconcile_page L inp current lang path d) = pg_slug current"
  by (auto simp: reconcile_page_def resync_dates_def Let_def split: option.splits)

lemma find_in: "find P xs = Some p \<Longrightarrow> p \<in> set xs"
  by (induction xs) (auto split: if_splits)

lemma index_lookup_in:
  assumes "index_ok idx"
  shows "GetBySlug idx s = Some p \<Longrightarrow> p \<in> set (ix_pages idx)"
    and "GetBySlugLang idx s l = Some p \<Longrightarrow> p \<in> set (ix_pages idx)"
    and "GetDefaultBySlug idx s = Some p \<Longrightarrow> p \<in> set (ix_pages idx)"
proof -
  obtain ps where idx: "idx = rebuildMaps ps" using assms by (auto simp: index_ok_def)
  show "GetBySlug idx s = Some p \<Longrightarrow> p \<in> set (ix_pages idx)"
    "GetBySlugLang idx s l = Some p \<Longrightarrow> p \<in> set (ix_pages idx)"
    "GetDefaultBySlug idx s = Some p \<Longrightarrow> p \<in> set (ix_pages idx)"
    unfolding idx GetBySlug_def GetBySlugLang_def GetDefaultBySlug_def rebuilt_maps page_at_find
    by (auto dest: find_in)
qed

lemma update_current_in:
  assumes "update_current idx inp slug src = Inr current" "index_ok idx"
  shows "current \<in> set (ix_pages idx)"
  using assms
  by (auto simp: update_current_def GetByFilePath_def Let_def split: if_splits option.splits
      dest: find_in index_lookup_in [OF assms(2)])

lemma update_keeps:
  assumes "well_formed w" "handleUpdatePage L (env :: page_env) pg cfg w inp = (w', r)"
  shows "well_formed w'"
proof -
  have "page_call_run L env pg cfg w (CallUpdate inp) = (w', r)" using assms(2) by simp
  then have "wf_map (pw_files w')"
    using page_call_change assms(1) by (fastforce simp: page_change_def text_swap_def well_formed_def)
  moreover have "index_ok (pw_index w')"
  proof -
    have ok: "index_ok (pw_index w)" using assms(1) by (simp add: well_formed_def)
    from update_index [OF assms(2)] show ?thesis
    proof
      assume "\<exists>slug src current d. update_current (pw_index w) inp slug src = Inr current \<and>
         pw_index w' = Upsert (pw_index w) (reconcile_page L inp current (rs_lang src) (rs_path src) d)"
      then obtain slug src current d where u: "update_current (pw_index w) inp slug src = Inr current"
          "pw_index w' = Upsert (pw_index w) (reconcile_page L inp current (rs_lang src) (rs_path src) d)" by blast
      have "CHR 0x00 \<notin> set (pg_slug current)"
        using update_current_in [OF u(1) ok] ok unfolding index_ok_def by blast
      then show ?thesis using Upsert_map [OF ok] u(2) by (simp add: reconcile_slug)
    qed (use ok in simp)
  qed
  ultimately show ?thesis by (simp add: well_formed_def)
qed

lemma rollback_write_index:
  assumes "page_rollback_write L env pg w slug src raw content inp h cs = (w', r)"
  shows "pw_index w' = pw_index w \<or>
    pw_index w' = Upsert (pw_index w) (rollback_index_page L (pw_index w) slug src content)"
  using assms unfolding page_rollback_write_def Let_def
  by (auto dest!: page_write_index page_close_keeps split: prod.splits option.splits if_splits outcome.splits)

lemma rollback_locked_index:
  assumes "page_rollback_locked L env pg cfg w slug src inp dry h cs = (w', r)"
  shows "pw_index w' = pw_index w \<or>
    (\<exists>content. pw_index w' = Upsert (pw_index w) (rollback_index_page L (pw_index w) slug src content))"
  using assms unfolding page_rollback_locked_def Let_def
  by (auto dest!: rollback_write_index split: prod.splits sum.splits option.splits if_splits)

lemma rollback_index:
  assumes "handleRollbackChange L env pg cfg w inp = (w', r)"
  shows "pw_index w' = pw_index w \<or>
    (\<exists>src content. slugPattern (normalizeInputSlug (rk_slug inp)) \<and>
       pw_index w' = Upsert (pw_index w) (rollback_index_page L (pw_index w) (normalizeInputSlug (rk_slug inp)) src content))"
proof (rule ccontr)
  assume no: "\<not> ?thesis"
  have slug: "rollback_checks inp (normalizeInputSlug (rk_slug inp)) = Inr lang \<Longrightarrow> slugPattern (normalizeInputSlug (rk_slug inp))" for lang
    by (auto simp: rollback_checks_def validateSlugFormat_def split: if_splits sum.splits option.splits)
  show False
    using assms no slug unfolding handleRollbackChange_def Let_def
    by (auto dest!: page_replay_keeps rollback_locked_index split: prod.splits sum.splits option.splits if_splits) blast+
qed

lemma slug_no_nul: "slugPattern s \<Longrightarrow> CHR 0x00 \<notin> set s"
proof -
  have "\<not> (slug_edge (CHR 0x00) \<or> CHR 0x00 \<in> set ''/_-'')" by code_simp
  then show "slugPattern s \<Longrightarrow> CHR 0x00 \<notin> set s" by (auto simp: slugPattern_def list_all_iff)
qed

lemma rollback_page_slug:
  assumes "index_ok idx" "CHR 0x00 \<notin> set slug"
  shows "CHR 0x00 \<notin> set (pg_slug (rollback_index_page L idx slug src content))"
proof -
  have "pg_slug (rollback_index_page L idx slug src content) = slug \<or>
      (\<exists>p. pg_slug (rollback_index_page L idx slug src content) = pg_slug p \<and> p \<in> set (ix_pages idx))"
    using index_lookup_in [OF assms(1)]
    by (auto simp: rollback_index_page_def resync_dates_def blank_page_def Let_def split: option.splits)
  then show ?thesis using assms by (auto simp: index_ok_def)
qed

lemma rollback_keeps:
  assumes "well_formed w" "handleRollbackChange L (env :: page_env) pg cfg w inp = (w', r)"
  shows "well_formed w'"
proof -
  have "page_call_run L env pg cfg w (CallRollback inp) = (w', r)" using assms(2) by simp
  then have "wf_map (pw_files w')"
    using page_call_change assms(1) by (fastforce simp: page_change_def text_swap_def well_formed_def)
  moreover have "index_ok (pw_index w')"
    using rollback_index [OF assms(2)] Upsert_map rollback_page_slug slug_no_nul assms(1)
    unfolding well_formed_def by metis
  ultimately show ?thesis by (simp add: well_formed_def)
qed

lemma create_keeps:
  assumes "well_formed w" "handleCreatePage L marshal env pg cfg w inp = (w', r)"
  shows "well_formed w'"
  using assms(2)
proof (cases rule: create_cases)
  case untouched
  then show ?thesis using assms(1) by (simp add: well_formed_def)
next
  case (tried w1 lang dir d cs)
  let ?p = "created_page (pk_page L) (be_now env) inp (normalizeInputSlug (cp_slug inp)) lang (page_file dir lang)
      (pc_tags d) (pc_categories d) (pc_expires d)"
  have "slugPattern (normalizeInputSlug (cp_slug inp))"
    using tried(3) by (auto simp: validate_create_def validateSlugFormat_def split: if_splits sum.splits option.splits)
  then have "CHR 0x00 \<notin> set (pg_slug ?p)" using slug_no_nul by (simp add: created_page_def blank_page_def Let_def)
  then have "index_ok (pw_index w')"
    using create_locked_effect(2) [OF tried(8)] tried(2) Upsert_map assms(1) unfolding well_formed_def by metis
  moreover have "wf_map (pw_files w')"
    using create_locked_effect(1) [OF tried(8)] tried(1) assms(1) by (auto simp: well_formed_def)
  ultimately show ?thesis by (simp add: well_formed_def)
qed

lemma wf_remove_all [simp]: "wf_map fs \<Longrightarrow> wf_map (fst (remove_all st fs p))"
  by (auto simp: remove_all_def Let_def split: option.splits)

lemma wf_remove_all_eq: "remove_all st fs p = (fs', b) \<Longrightarrow> wf_map fs \<Longrightarrow> wf_map fs'"
  using wf_remove_all [of fs st p] by simp

lemma wf_delete_finish: "wf_map (pw_files w) \<Longrightarrow> wf_map (pw_files (fst (delete_finish L env cfg w slug src full)))"
proof -
  have public: "wf_map fs \<Longrightarrow> wf_map (fst (clean_public env cfg db fs slug full wn))" for fs db wn
    by (auto simp: clean_public_def Let_def dest: wf_remove_all_eq split: prod.splits bool.splits)
  have hero: "wf_map fs \<Longrightarrow> wf_map (fst (clean_hero env cfg fs slug full wn))" for fs wn
    by (auto simp: clean_hero_def removeHeroImage_def split: sum.splits)
  show "wf_map (pw_files w) \<Longrightarrow> wf_map (pw_files (fst (delete_finish L env cfg w slug src full)))"
    by (auto simp: delete_finish_def Let_def appendAuditLog_def intro!: hero public)
qed

lemma wf_remove_source:
  assumes "remove_source env pg fs dir src = (fs', r)" "wf_map fs"
  shows "wf_map fs'"
proof (cases src)
  case None
  then have "fs' = fst (remove_all (dx_tree env dir) fs dir)"
    using assms(1) by (auto simp: remove_source_def split: prod.splits bool.splits)
  then show ?thesis using assms(2) by simp
next
  case (Some s)
  then have "fs' = fs \<or> fs' = gdel fs (rs_path s) \<or> fs' = fst (remove_all (dx_tree env dir) (gdel fs (rs_path s)) dir)"
    using assms(1) by (auto simp: remove_source_def Let_def split: prod.splits bool.splits if_splits)
  then show ?thesis using assms(2) by auto
qed

lemma commit_keeps:
  assumes "commitDeletePageSource L env pg cfg w inp slug dir src cur h = (w', r)" "wf_map (pw_files w)"
  shows "wf_map (pw_files w') \<and> pw_index w' = pw_index w"
  using assms unfolding commitDeletePageSource_def Let_def
  by (auto simp: page_log_def dest: wf_remove_source split: prod.splits sum.splits if_splits outcome.splits)

lemma delete_finish_index:
  "pw_index (fst (delete_finish L env cfg w slug src full)) =
     (if full then index_delete (pw_index w) slug else DeleteLang (pw_index w) slug (src_lang src))"
  by (simp add: delete_finish_def Let_def)

lemma delete_write_keeps:
  assumes "delete_write L env pg cfg w inp slug dir src cur h cs = (w', r)" "well_formed w"
  shows "well_formed w'"
proof -
  obtain w1 c where c: "commitDeletePageSource L env pg cfg w inp slug dir src cur h = (w1, c)" by fastforce
  have w1: "wf_map (pw_files w1)" "index_ok (pw_index w1)"
    using commit_keeps [OF c] assms(2) by (auto simp: well_formed_def)
  have drop: "index_ok (index_delete (pw_index w1) s)" "index_ok (DeleteLang (pw_index w1) s l)" for s l
    using pages.step_inv [OF w1(2), of "IDelete s"] pages.step_inv [OF w1(2), of "IDeleteLang s l"] by simp_all
  show ?thesis
  proof (cases c)
    case (Done x)
    obtain full op where x: "x = (full, op)" by fastforce
    obtain w2 out where w2: "delete_finish L env cfg w1 slug src full = (w2, out)" by fastforce
    have "well_formed w2"
      using wf_delete_finish [OF w1(1), of L env cfg slug src full] delete_finish_index [of L env cfg w1 slug src full] w2 drop
      by (simp add: well_formed_def)
    then show ?thesis
      using assms(1) c Done x w2 page_close_keeps by (fastforce simp: delete_write_def well_formed_def split: if_splits)
  qed (use assms(1) c w1 in \<open>auto simp: delete_write_def well_formed_def\<close>)
qed

lemma delete_keeps:
  assumes "well_formed w" "handleDeletePage L env pg cfg w inp = (w', r)"
  shows "well_formed w'"
proof -
  have idx: "delete_resolved L env pg cfg w1 inp dry slug mode dir src h cs = (w', r) \<Longrightarrow> well_formed w1 \<Longrightarrow> well_formed w'"
    for w1 dry slug mode dir src h cs
    by (cases rule: delete_resolved_cases) (auto dest: delete_write_keeps)
  have sets: "well_formed (w\<lparr>pw_sets := s\<rparr>)" for s using assms(1) by (simp add: well_formed_def)
  have replayed: "page_replay L env v tool key dry req = (v', q) \<Longrightarrow> well_formed v \<Longrightarrow> well_formed v'" for v tool key dry req v' q
    using page_replay_keeps by (fastforce simp: well_formed_def)
  show ?thesis
    using assms sets unfolding handleDeletePage_def Let_def
    by (auto dest: idx replayed split: option.splits sum.splits prod.splits if_splits)
qed

text \<open>The calls of one server, whose coders do not change, and reloads of the index from any tree.\<close>

inductive tool_steps ::
    "'a page_lib_of \<Rightarrow> 'a delete_lib_of \<Rightarrow> 'a create_lib_of \<Rightarrow> (frontmatter_doc \<Rightarrow> string) \<Rightarrow> page_world \<Rightarrow> page_world \<Rightarrow> bool"
    for U D C M where
  none: "tool_steps U D C M w w"
| updated: "tool_steps U D C M w v \<Longrightarrow> handleUpdatePage U (env :: page_env) pg cfg v inp = (v', r) \<Longrightarrow> tool_steps U D C M w v'"
| rolled: "tool_steps U D C M w v \<Longrightarrow> handleRollbackChange U (env :: page_env) pg cfg v inp = (v', r) \<Longrightarrow> tool_steps U D C M w v'"
| created: "tool_steps U D C M w v \<Longrightarrow> handleCreatePage C M (env :: create_env) pg cfg v inp = (v', r) \<Longrightarrow> tool_steps U D C M w v'"
| deleted: "tool_steps U D C M w v \<Longrightarrow> handleDeletePage D (env :: delete_env) pg cfg v inp = (v', r) \<Longrightarrow> tool_steps U D C M w v'"
| reloaded: "tool_steps U D C M w v \<Longrightarrow> NewSourceIndex P arrange dir walk root = Inr idx \<Longrightarrow>
    \<forall>p \<in> set (ix_pages idx). CHR 0x00 \<notin> set (pg_slug p) \<Longrightarrow> tool_steps U D C M w (v\<lparr>pw_index := idx\<rparr>)"

text \<open>
  The page tools that take a slug keep their state well formed, with any inputs, faults and crashes: there is
  one text per path, every lookup map of the source index is the one that its list of pages determines, and no
  slug has a NUL byte, so that slug and language stay a key.
\<close>

lemma tool_steps_keep:
  assumes "tool_steps U D C M w w'" "well_formed w"
  shows "well_formed w'"
  using assms
proof (induction rule: tool_steps.induct)
  case (reloaded w v P arrange dir walk root idx)
  have "index_ok idx"
    using reloaded.hyps(2,3) by (auto simp: NewSourceIndex_def index_ok_def split: option.splits bool.splits)
  then show ?case using reloaded.IH reloaded.prems by (simp add: well_formed_def)
qed (blast intro: update_keeps rollback_keeps create_keeps delete_keeps)+

section \<open>The index follows the disk\<close>

text \<open>Which lookups change between two indexes: one pair of slug and language, or what is forgotten of a slug.\<close>

definition index_put :: "source_index \<Rightarrow> source_index \<Rightarrow> string \<Rightarrow> string \<Rightarrow> source_page \<Rightarrow> bool" where
  "index_put idx idx' slug lang p \<longleftrightarrow>
     (\<forall>s l. CHR 0x00 \<notin> set s \<longrightarrow> lookup_page idx' s l = (if s = slug \<and> l = lang then Some p else lookup_page idx s l))"

definition index_forget :: "source_index \<Rightarrow> source_index \<Rightarrow> string \<Rightarrow> (string \<Rightarrow> bool) \<Rightarrow> bool" where
  "index_forget idx idx' slug lost \<longleftrightarrow>
     (\<forall>s l. CHR 0x00 \<notin> set s \<longrightarrow> lookup_page idx' s l = (if s = slug \<and> lost l then None else lookup_page idx s l))"

lemma upsert_put:
  assumes "index_ok idx" "CHR 0x00 \<notin> set (pg_slug p)"
  shows "index_put idx (Upsert idx p) (pg_slug p) (pg_lang p) p"
proof -
  note U = Upsert_map [OF assms]
  then have "index_ok (Upsert idx p)" by blast
  note L = lookup_map [OF this] lookup_map [OF assms(1)]
  show ?thesis using U by (simp add: index_put_def L page_key_def)
qed

lemma delete_forget:
  assumes "index_ok idx"
  shows "index_forget idx (index_delete idx slug) slug (\<lambda>l. True)"
    and "index_forget idx (DeleteLang idx slug lang) slug (\<lambda>l. l = lang)"
proof -
  have ok: "index_ok (index_delete idx slug)" "index_ok (DeleteLang idx slug lang)"
    using pages.step_inv [OF assms, of "IDelete slug"] pages.step_inv [OF assms, of "IDeleteLang slug lang"] by simp_all
  have view: "page_map (ix_pages (index_delete idx slug)) = map_step (IDelete slug) (page_map (ix_pages idx))"
    "page_map (ix_pages (DeleteLang idx slug lang)) = map_step (IDeleteLang slug lang) (page_map (ix_pages idx))"
    using pages.step_view [OF assms, of "IDelete slug"] pages.step_view [OF assms, of "IDeleteLang slug lang"] by simp_all
  show "index_forget idx (index_delete idx slug) slug (\<lambda>l. True)"
    using view(1) by (simp add: index_forget_def lookup_map [OF ok(1)] lookup_map [OF assms])
  show "index_forget idx (DeleteLang idx slug lang) slug (\<lambda>l. l = lang)"
    using view(2) by (simp add: index_forget_def lookup_map [OF ok(2)] lookup_map [OF assms])
qed

lemma create_file_done:
  assumes "create_file L env pg w path content idem = (w', r)"
  shows "pw_index w' = pw_index w \<and> (\<forall>op. r = Done op \<longrightarrow> pw_files w' = gput (pw_files w) path content)"
  using assms
  by (auto simp: create_file_def page_log_def Let_def dest!: AtomicCreateChecked_cases
      split: prod.splits sum.splits if_splits option.splits)

lemma create_locked_index:
  assumes "create_locked L env pg cfg w inp slug lang path d cs = (w', r)"
  shows "pw_index w' = pw_index w \<and> (pw_files w' = pw_files w \<or> (\<forall>a. r \<noteq> Done a)) \<or>
    pw_files w' = gput (pw_files w) path (pc_content d) \<and> pw_index w' = Upsert (pw_index w)
      (created_page (pk_page L) (be_now env) inp slug lang path (pc_tags d) (pc_categories d) (pc_expires d))"
  using assms unfolding create_locked_def
  by (auto dest!: page_replay_keeps create_file_done page_close_keeps
      split: prod.splits sum.splits option.splits if_splits outcome.splits)

lemma remove_all_keeps_gone: "gget fs q = None \<Longrightarrow> gget (fst (remove_all st fs p)) q = None"
  by (auto simp: remove_all_def gget_keep_key split: option.splits)

lemma removed_source:
  assumes "remove_source env pg fs dir (Some s) = (fs', Done full)"
  shows "gget fs' (rs_path s) = None"
  using assms remove_all_keeps_gone [of "gdel fs (rs_path s)" "rs_path s" "dx_tree env dir" dir]
  by (auto simp: remove_source_def Let_def split: prod.splits bool.splits if_splits)

lemma delete_finish_gone:
  assumes "gget (pw_files w) q = None" "q \<noteq> audit_path cfg"
  shows "gget (pw_files (fst (delete_finish L env cfg w slug src full))) q = None"
proof -
  have public: "gget fs q = None \<Longrightarrow> gget (fst (clean_public env cfg db fs slug full wn)) q = None" for fs db wn
    using remove_all_keeps_gone [of fs q "dx_tree env (path_join [dc_site_root cfg, slug])" "path_join [dc_site_root cfg, slug]"]
    by (auto simp: clean_public_def Let_def split: prod.splits bool.splits)
  have hero: "gget fs q = None \<Longrightarrow> gget (fst (clean_hero env cfg fs slug full wn)) q = None" for fs wn
    by (auto simp: clean_hero_def removeHeroImage_def split: sum.splits)
  show ?thesis
    using assms by (auto simp: delete_finish_def Let_def appendAuditLog_def intro!: hero public)
qed

lemma delete_write_index:
  assumes "delete_write L env pg cfg w inp slug dir src cur h cs = (w', r)" "index_ok (pw_index w)"
  shows "pw_index w' = pw_index w \<and> (\<forall>a. r \<noteq> Done a) \<or>
    index_forget (pw_index w) (pw_index w') slug (\<lambda>l. last_source env dir src \<or> l = src_lang src) \<and>
    (\<forall>s. src = Some s \<longrightarrow> rs_path s \<noteq> audit_path cfg \<longrightarrow> gget (pw_files w') (rs_path s) = None)"
proof -
  obtain w1 c where c: "commitDeletePageSource L env pg cfg w inp slug dir src cur h = (w1, c)" by fastforce
  have same: "pw_index w1 = pw_index w"
    using c unfolding commitDeletePageSource_def Let_def
    by (auto simp: page_log_def split: prod.splits sum.splits if_splits outcome.splits)
  show ?thesis
  proof (cases c)
    case (Done x)
    obtain full op where x: "x = (full, op)" by fastforce
    have full: "full = last_source env dir src" using commit_get(2) [OF c] Done x by auto
    have gone: "gget (pw_files w1) (rs_path s) = None" if "src = Some s" for s
      using c Done that unfolding commitDeletePageSource_def Let_def
      by (auto simp: page_log_def dest: removed_source split: prod.splits sum.splits if_splits outcome.splits)
    obtain w2 out where w2: "delete_finish L env cfg w1 slug src full = (w2, out)" by fastforce
    have w': "pw_index w' = pw_index w2" "pw_files w' = pw_files w2"
      using assms(1) c Done x w2 by (auto simp: delete_write_def dest!: page_close_keeps split: if_splits)
    have "gget (pw_files w2) (rs_path s) = None" if "src = Some s" "rs_path s \<noteq> audit_path cfg" for s
      using delete_finish_gone [OF gone, of s cfg L env slug src full] that w2 by simp
    moreover have "index_forget (pw_index w) (pw_index w2) slug (\<lambda>l. last_source env dir src \<or> l = src_lang src)"
      using delete_finish_index [of L env cfg w1 slug src full] w2 same full delete_forget [OF assms(2)]
      by (auto split: if_splits)
    ultimately show ?thesis using w' by simp
  qed (use assms(1) c same in \<open>auto simp: delete_write_def\<close>)
qed


lemma sample_site_well_formed: "well_formed sample_site"
proof -
  have "index_ok \<lparr>ix_pages = [], ix_by_slug = [], ix_by_slug_lang = [], ix_by_default = []\<rparr>"
    by (simp add: index_ok_def rebuildMaps_def)
  moreover have "CHR 0x00 \<notin> set (pg_slug (blank_page ''hello'' ''''))" by code_simp
  ultimately show ?thesis using Upsert_map by (simp add: well_formed_def sample_site_def wf_map_def)
qed


end
