(* ===== verification/BundleLifecycle.thy ===== *)
theory BundleLifecycle
  imports PageCreate
begin

text \<open>
  \<open>create\_bundle\<close> and \<open>delete\_bundle\<close> (\<open>internal/tools/write/bundle\_lifecycle.go\<close>): every check comes before
  the first file is touched, a failed step is rolled back, and the journal records each file before and
  after, so that a restart can finish or undo the call. The state and the closing steps are those of
  \<open>PageTools\<close>; the derived database is left out, and so are the registration and its descriptions.
\<close>

section \<open>Inputs\<close>

record bundle_page_input =
  bg_lang :: string
  bg_title :: string
  bg_body :: string
  bg_tags :: "string list option"
  bg_categories :: "string list option"
  bg_draft :: "bool option"
  bg_description :: "string option"
  bg_image :: "string option"
  bg_test :: "test_content option"

record create_bundle_input =
  cb_slug :: string
  cb_pages :: "bundle_page_input list"
  cb_dry :: bool
  cb_key :: string
  cb_cs :: string
  cb_casing :: bool

record delete_bundle_input =
  db_slug :: string
  db_languages :: "string list"
  db_expected :: "(string, string) gomap option"
  db_dry :: bool
  db_key :: string
  db_cs :: string

text \<open>
  \<open>lx_stuck\<close> holds for files that \<open>os.Remove\<close> cannot remove, \<open>lx_tree\<close> gives what a failing \<open>os.RemoveAll\<close>
  leaves behind, \<open>lx_raced\<close> the files once the content lock is held, when another call changed them after
  the first checks.
\<close>

record lifecycle_env = page_env +
  lx_stat_fails :: "string \<Rightarrow> bool"
  lx_stuck :: "string \<Rightarrow> bool"
  lx_tree :: "string \<Rightarrow> (string \<Rightarrow> bool) option"
  lx_raced :: "files option"

record lifecycle_answer =
  ln_status :: string
  ln_slug :: string
  ln_languages :: "string list"
  ln_dry_run :: bool
  ln_revisions :: "(string, string) gomap"
  ln_expires :: "(string, string) gomap"
  ln_normalized :: "casing_change list"
  ln_ambiguous :: "casing_skipped list"

type_synonym 'a lifecycle_lib_of = "('a, lifecycle_answer) page_coders"

definition bundleLangFile :: "string \<Rightarrow> string \<Rightarrow> string go" where
  "bundleLangFile dir lang0 =
     (case validateLangParam lang0 of
        Inl e \<Rightarrow> Inl e
      | Inr lang \<Rightarrow> Inr (path_join [dir, if lang = '''' then ''index.md'' else ''index.'' @ lang @ ''.md'']))"

definition buildBundleFrontmatter ::
    "page_lib \<Rightarrow> (frontmatter_doc \<Rightarrow> string) \<Rightarrow> time \<Rightarrow> bundle_page_input \<Rightarrow> string \<times> string" where
  "buildBundleFrontmatter P marshal now p =
     buildFrontmatterWithOptions P marshal now (bg_title p) (bg_tags p) (bg_categories p) (bg_body p) (bg_draft p)
       (bg_description p) (bg_image p) (bg_test p)"

section \<open>The pages of a new bundle\<close>

record bundle_file =
  bf_path :: string
  bf_content :: string
  bf_expires :: string
  bf_page :: bundle_page_input

record prepared_bundle =
  pb_files :: "bundle_file list"
  pb_normalized :: "casing_change list"
  pb_ambiguous :: "casing_skipped list"

text \<open>The checks of one page that come before its text is built, in their order.\<close>

definition bundle_page_fault :: "create_config \<Rightarrow> bundle_page_input \<Rightarrow> string \<Rightarrow> string option" where
  "bundle_page_fault cfg p lang =
     first_some
       [rejectUnconfiguredLang lang (cc_languages cfg) (cc_default_lang cfg),
        if bg_title p = '''' then Some ''invalid_params: title must not be empty'' else None,
        validateTitleFormat (bg_title p), validateBodyFormat (bg_body p) (bc_blocked cfg),
        (case bg_description p of None \<Rightarrow> None
         | Some s \<Rightarrow> map_option (\<lambda>e. ''invalid_params: description '' @ e) (rejectUnsafeText s)),
        (case bg_image p of None \<Rightarrow> None | Some s \<Rightarrow> validateFeaturedImagePath s),
        test_content_fault (bg_test p),
        validateTaxonomyTerms ''tag'' (nil_list (bg_tags p)),
        validateTaxonomyTerms ''category'' (nil_list (bg_categories p))]"

definition prepare_bundle_page ::
    "'a lifecycle_lib_of \<Rightarrow> (frontmatter_doc \<Rightarrow> string) \<Rightarrow> time \<Rightarrow> create_config \<Rightarrow> source_index \<Rightarrow> bool \<Rightarrow> string \<Rightarrow>
     bundle_page_input \<Rightarrow> string \<Rightarrow> (bundle_file \<times> casing_change list \<times> casing_skipped list) go" where
  "prepare_bundle_page L marshal now cfg idx casing dir p0 lang =
     (case bundle_page_fault cfg p0 lang of
        Some e \<Rightarrow> Inl e
      | None \<Rightarrow>
          (let tagRes = (if casing then cased (pk_case L) idx ''tag'' lang (bg_tags p0) else (bg_tags p0, [], []));
               catRes = (if casing then cased (pk_case L) idx ''category'' lang (bg_categories p0)
                         else (bg_categories p0, [], []));
               p = p0\<lparr>bg_tags := fst tagRes, bg_categories := fst catRes\<rparr>;
               built = buildBundleFrontmatter (pk_page L) marshal now p
           in case round_trip_fault L (fst built) of
                Some e \<Rightarrow> Inl e
              | None \<Rightarrow>
                  (case bundleLangFile dir lang of
                     Inl e \<Rightarrow> Inl e
                   | Inr path \<Rightarrow>
                       Inr (\<lparr>bf_path = path, bf_content = fst built, bf_expires = snd built, bf_page = p\<lparr>bg_lang := lang\<rparr>\<rparr>,
                            fst (snd tagRes) @ fst (snd catRes), snd (snd tagRes) @ snd (snd catRes)))))"

fun prepare_bundle ::
    "'a lifecycle_lib_of \<Rightarrow> (frontmatter_doc \<Rightarrow> string) \<Rightarrow> time \<Rightarrow> create_config \<Rightarrow> source_index \<Rightarrow> bool \<Rightarrow> string \<Rightarrow>
     string list \<Rightarrow> bundle_page_input list \<Rightarrow> prepared_bundle go" where
  "prepare_bundle L marshal now cfg idx casing dir seen [] = Inr \<lparr>pb_files = [], pb_normalized = [], pb_ambiguous = []\<rparr>"
| "prepare_bundle L marshal now cfg idx casing dir seen (p # ps) =
     (case validateLangParam (bg_lang p) of
        Inl e \<Rightarrow> Inl e
      | Inr lang \<Rightarrow>
          if lang \<in> set seen then Inl ''invalid_params: duplicate language''
          else (case prepare_bundle_page L marshal now cfg idx casing dir p lang of
                  Inl e \<Rightarrow> Inl e
                | Inr (f, ch, sk) \<Rightarrow>
                    (case prepare_bundle L marshal now cfg idx casing dir (lang # seen) ps of
                       Inl e \<Rightarrow> Inl e
                     | Inr d \<Rightarrow> Inr \<lparr>pb_files = f # pb_files d, pb_normalized = ch @ pb_normalized d,
                                     pb_ambiguous = sk @ pb_ambiguous d\<rparr>)))"

section \<open>create\_bundle\<close>

fun bundle_present ::
    "'e lifecycle_env_scheme \<Rightarrow> files \<Rightarrow> bundle_file list \<Rightarrow> string option" where
  "bundle_present env fs [] = None"
| "bundle_present env fs (f # rest) =
     (if gget fs (bf_path f) \<noteq> None \<or> px_taken env (bf_path f) then Some ''already_exists: translation already exists''
      else if lx_stat_fails env (bf_path f) then Some ''read_error: failed to inspect bundle''
      else bundle_present env fs rest)"

text \<open>The rollback of a failed create: the created files are removed; the emptied directory is no entry of the file map.\<close>

fun remove_created :: "'e lifecycle_env_scheme \<Rightarrow> string list \<Rightarrow> files \<Rightarrow> files \<times> bool" where
  "remove_created env [] fs = (fs, True)"
| "remove_created env (p # ps) fs =
     (if be_dies env (BeforeUndo p) then (fs, False)
      else remove_created env ps (if lx_stuck env p then fs else gdel fs p))"

fun create_files ::
    "'e lifecycle_env_scheme \<Rightarrow> path_guard \<Rightarrow> (string \<times> string) list \<Rightarrow> string list \<Rightarrow> files \<Rightarrow> files \<times> write_result" where
  "create_files env pg [] created fs = (fs, Wrote)"
| "create_files env pg ((p, c) # rest) created fs =
     (if be_dies env (BeforeWrite p) then (fs, WriteDied)
      else (case AtomicCreateChecked (be_write env p) (be_view env) (be_view env) (px_taken env) pg fs p c of
              (fs', None) \<Rightarrow> create_files env pg rest (created @ [p]) fs'
            | (fs', Some e) \<Rightarrow>
                (case remove_created env created fs' of
                   (fs'', alive) \<Rightarrow>
                     (fs'', if \<not> alive then WriteDied
                            else WriteFailed (if e = errExist then ''already_exists: bundle changed during create''
                                              else ''write_error: bundle creation rolled back'')))))"

definition bundle_texts :: "bundle_file list \<Rightarrow> (string \<times> string) list" where
  "bundle_texts fls = map (\<lambda>f. (bf_path f, bf_content f)) fls"

definition created_transitions :: "bundle_file list \<Rightarrow> recovery_file list" where
  "created_transitions fls = map (\<lambda>f. recoveryFile (bf_path f) None (Some (bf_content f))) fls"

text \<open>A map that the handler fills page by page, leaving out what is empty.\<close>

fun by_lang :: "(bundle_file \<Rightarrow> string) \<Rightarrow> bool \<Rightarrow> bundle_file list \<Rightarrow> (string, string) gomap \<Rightarrow> (string, string) gomap" where
  "by_lang g skip [] m = m"
| "by_lang g skip (f # fls) m =
     by_lang g skip fls (if skip \<and> g f = '''' then m else gput m (bg_lang (bf_page f)) (g f))"

definition bundle_page :: "page_lib \<Rightarrow> time \<Rightarrow> string \<Rightarrow> bundle_file \<Rightarrow> source_page" where
  "bundle_page P now slug f =
     (let p = bf_page f; date = pl_format_time P now;
          draft = (bg_test p \<noteq> None \<or> bg_draft p = Some True);
          opt = (\<lambda>k v. case v of None \<Rightarrow> [] | Some s \<Rightarrow> if s \<noteq> '''' then [(k, YStr s)] else []);
          test = (case bg_test p of None \<Rightarrow> []
                  | Some t \<Rightarrow> [(''test_content'', YBool True)] @
                      (if tc_owner t \<noteq> '''' then [(''test_content_owner'', YStr (tc_owner t))] else []) @
                      (if bf_expires f \<noteq> '''' then [(''test_content_expires_at'', YStr (bf_expires f))] else []))
      in (blank_page slug (bg_lang p))
           \<lparr>pg_file_path := bf_path f, pg_title := bg_title p, pg_date := date, pg_draft := draft,
            pg_tags := nil_list (bg_tags p), pg_categories := nil_list (bg_categories p), pg_body := bg_body p,
            pg_fm := [(''title'', YStr (bg_title p)), (''date'', YStr date), (''draft'', YBool draft)] @
                     opt ''description'' (bg_description p) @ opt ''featuredImage'' (bg_image p) @ test,
            pg_pending := True\<rparr>)"

definition lifecycle_answer_of :: "string \<Rightarrow> string \<Rightarrow> string list \<Rightarrow> lifecycle_answer" where
  "lifecycle_answer_of status slug langs =
     \<lparr>ln_status = status, ln_slug = canonicalPublicSlug slug, ln_languages = langs, ln_dry_run = False,
      ln_revisions = [], ln_expires = [], ln_normalized = [], ln_ambiguous = []\<rparr>"

definition bundle_langs :: "bundle_file list \<Rightarrow> string list" where
  "bundle_langs fls = map (\<lambda>f. bg_lang (bf_page f)) fls"

definition create_bundle_answer :: "string \<Rightarrow> string \<Rightarrow> prepared_bundle \<Rightarrow> lifecycle_answer" where
  "create_bundle_answer status slug d =
     (lifecycle_answer_of status slug (bundle_langs (pb_files d)))
       \<lparr>ln_expires := by_lang bf_expires True (pb_files d) [], ln_normalized := pb_normalized d,
        ln_ambiguous := pb_ambiguous d\<rparr>"

definition lifecycle_seed ::
    "'a lifecycle_lib_of \<Rightarrow> 'e lifecycle_env_scheme \<Rightarrow> string \<Rightarrow> string \<Rightarrow> string list \<Rightarrow> (string, string) gomap \<Rightarrow> string" where
  "lifecycle_seed L env tool slug langs revs =
     seed_text L env tool [(''slug'', JStr (canonicalPublicSlug slug)), (''languages'', JArr (map JStr langs)),
       (''revisions'', JObj (map (\<lambda>(l, r). (l, JStr r)) revs))]"

text \<open>The members of the request that are hashed; an empty optional member is absent.\<close>

definition dec_int :: "int \<Rightarrow> string" where
  "dec_int i = (if i < 0 then ''-'' @ dec_nat (nat (- i)) else dec_nat (nat i))"

definition test_json :: "test_content \<Rightarrow> json" where
  "test_json t = JObj ((case tc_ttl_hours t of None \<Rightarrow> [] | Some h \<Rightarrow> [(''ttl_hours'', JNum (dec_int h))]) @
     opt_member ''owner'' (tc_owner t \<noteq> '''') (JStr (tc_owner t)))"

definition page_json :: "bundle_page_input \<Rightarrow> json" where
  "page_json p =
     (let terms = (\<lambda>k v. opt_member k (nil_list v \<noteq> []) (JArr (map JStr (nil_list v))));
          text_of = (\<lambda>k v. case v of None \<Rightarrow> [] | Some s \<Rightarrow> [(k, JStr s)])
      in JObj ([(''lang'', JStr (bg_lang p)), (''title'', JStr (bg_title p)), (''body'', JStr (bg_body p))] @
           terms ''tags'' (bg_tags p) @ terms ''categories'' (bg_categories p) @
           (case bg_draft p of None \<Rightarrow> [] | Some b \<Rightarrow> [(''draft'', JBool b)]) @
           text_of ''description'' (bg_description p) @ text_of ''featured_image'' (bg_image p) @
           (case bg_test p of None \<Rightarrow> [] | Some t \<Rightarrow> [(''test_content'', test_json t)])))"

definition create_bundle_request :: "create_bundle_input \<Rightarrow> string \<Rightarrow> (string \<times> json) list" where
  "create_bundle_request inp slug =
     [(''slug'', JStr slug), (''pages'', JArr (map page_json (cb_pages inp)))] @
     opt_member ''dry_run'' (cb_dry inp) (JBool True) @
     opt_member ''idempotency_key'' (cb_key inp \<noteq> '''') (JStr (cb_key inp)) @
     opt_member ''change_set_id'' (cb_cs inp \<noteq> '''') (JStr (cb_cs inp)) @
     opt_member ''normalize_taxonomy_casing'' (cb_casing inp) (JBool True)"

text \<open>
  The disk when the lock is held. A call with a key holds the lock from before its checks on; one without
  takes it after them, and another call may have run in between.
\<close>

definition under_lock :: "'e lifecycle_env_scheme \<Rightarrow> string \<Rightarrow> page_world \<Rightarrow> page_world" where
  "under_lock env key w =
     (if \<not> blank key then w else (case lx_raced env of None \<Rightarrow> w | Some fs \<Rightarrow> w\<lparr>pw_files := fs\<rparr>))"

text \<open>The intent in the journal, the files and the note that they are written.\<close>

definition lifecycle_write ::
    "'a lifecycle_lib_of \<Rightarrow> 'e lifecycle_env_scheme \<Rightarrow> page_world \<Rightarrow> string \<Rightarrow> recovery_file list \<Rightarrow> string list \<Rightarrow>
     recovery_idem option \<Rightarrow> string \<Rightarrow> (files \<Rightarrow> files \<times> write_result) \<Rightarrow> page_world \<times> recovery_operation outcome" where
  "lifecycle_write L env w dir rfs cleanup idem intent_error step =
     (case beginBundleWriteRecovery (pk_rec_enc L) (be_random env) (be_rec_fails env ''in_progress'') (be_now env)
             (pw_journal w) dir rfs idem cleanup of
        (j, Inl e) \<Rightarrow> (w\<lparr>pw_journal := j\<rparr>, Failed intent_error)
      | (j, Inr op) \<Rightarrow>
          (case step (pw_files w) of
             (fs, WriteFailed e) \<Rightarrow> (w\<lparr>pw_journal := j, pw_files := fs\<rparr>, Failed e)
           | (fs, WriteDied) \<Rightarrow> (w\<lparr>pw_journal := j, pw_files := fs\<rparr>, Died)
           | (fs, Wrote) \<Rightarrow>
               (let w1 = w\<lparr>pw_journal := j, pw_files := fs\<rparr>
                in if be_dies env AfterWrites then (w1, Died)
                   else (let w2 = page_log L env w1 op ''file_written''
                         in if be_dies env AfterLog then (w2, Died) else (w2, Done op)))))"

definition create_revisions ::
    "'a lifecycle_lib_of \<Rightarrow> 'e lifecycle_env_scheme \<Rightarrow> files \<Rightarrow> bundle_file list \<Rightarrow> (string, string) gomap" where
  "create_revisions L env fs fls =
     by_lang (\<lambda>f. page_rev L (case read_page env fs (bf_path f) of None \<Rightarrow> '''' | Some raw \<Rightarrow> raw)) False fls []"

definition create_bundle_write ::
    "'a lifecycle_lib_of \<Rightarrow> 'e lifecycle_env_scheme \<Rightarrow> path_guard \<Rightarrow> page_world \<Rightarrow> create_bundle_input \<Rightarrow> string \<Rightarrow> string \<Rightarrow>
     prepared_bundle \<Rightarrow> string \<Rightarrow> string \<Rightarrow> page_world \<times> lifecycle_answer outcome" where
  "create_bundle_write L env pg w inp slug dir d idemHash cs =
     (let fls = pb_files d;
          revs = by_lang (\<lambda>f. page_rev L (bf_content f)) False fls []
      in case lifecycle_write L env w dir (created_transitions fls) []
                (recoveryIdempotencyFor (be_ctx env) ''create_bundle'' (cb_key inp) idemHash
                   (lifecycle_seed L env ''create_bundle'' slug (bundle_langs fls) revs))
                ''persistence_error: failed to record bundle create intent''
                (create_files env pg (bundle_texts fls) []) of
           (w1, Failed e) \<Rightarrow> (w1, Failed e)
         | (w1, Died) \<Rightarrow> (w1, Died)
         | (w1, Done op) \<Rightarrow>
             page_close L env
               (w1\<lparr>pw_index := foldl (\<lambda>idx f. Upsert idx (bundle_page (pk_page L) (be_now env) slug f)) (pw_index w1) fls\<rparr>)
               op ''create_bundle'' (cb_key inp) idemHash cs slug ''create''
               ((create_bundle_answer ''created'' slug d)\<lparr>ln_revisions := create_revisions L env (pw_files w1) fls\<rparr>))"

definition lock_error :: string where
  "lock_error = ''build_in_progress: content lock is held, retry in a moment''"

definition create_bundle_run ::
    "'a lifecycle_lib_of \<Rightarrow> 'e lifecycle_env_scheme \<Rightarrow> path_guard \<Rightarrow> page_world \<Rightarrow> create_bundle_input \<Rightarrow> string \<Rightarrow> string \<Rightarrow>
     prepared_bundle \<Rightarrow> bool \<Rightarrow> string \<Rightarrow> page_world \<times> lifecycle_answer outcome" where
  "create_bundle_run L env pg w inp slug dir d mutating cs =
     (if mutating \<and> \<not> blank (cb_key inp) \<and> \<not> be_locked env then (w, Failed lock_error)
      else (case page_replay L env w ''create_bundle'' (cb_key inp) (\<not> mutating) (create_bundle_request inp slug) of
              (w1, Inl e) \<Rightarrow> (w1, Failed e)
            | (w1, Inr (idemHash, Some cached)) \<Rightarrow> (w1, Done cached)
            | (w1, Inr (idemHash, None)) \<Rightarrow>
                (case bundle_present env (pw_files w1) (pb_files d) of
                   Some e \<Rightarrow> (w1, Failed e)
                 | None \<Rightarrow>
                     if \<not> mutating
                     then (w1, Done ((create_bundle_answer ''would_create'' slug d)\<lparr>ln_dry_run := True\<rparr>))
                     else if \<not> be_allow env then (w1, Failed ''rate_limit_exceeded: create_bundle'')
                     else if \<not> be_locked env then (w1, Failed lock_error)
                     else create_bundle_write L env pg (under_lock env (cb_key inp) w1) inp slug dir d idemHash cs)))"

definition handleCreateBundle ::
    "'a lifecycle_lib_of \<Rightarrow> (frontmatter_doc \<Rightarrow> string) \<Rightarrow> 'e lifecycle_env_scheme \<Rightarrow> path_guard \<Rightarrow> create_config \<Rightarrow>
     page_world \<Rightarrow> create_bundle_input \<Rightarrow> page_world \<times> lifecycle_answer outcome" where
  "handleCreateBundle L marshal env pg cfg w inp =
     (let slug = normalizeInputSlug (cb_slug inp)
      in if slug = '''' then (w, Failed ''invalid_params: slug must not be empty'')
         else (case validateIdempotencyKey (cb_key inp) of
           Some e \<Rightarrow> (w, Failed e)
         | None \<Rightarrow>
           (case Resolve (be_cs_read_fails env) (be_cs_touch_fails env) (be_ctx env) (pw_sets w) (cb_cs inp) (be_now env) of
              (r, Inl e) \<Rightarrow> (w\<lparr>pw_sets := r\<rparr>, Failed e)
            | (r, Inr cs) \<Rightarrow>
              (let w1 = w\<lparr>pw_sets := r\<rparr>
               in case validateSlugFormat slug of
                    Some e \<Rightarrow> (w1, Failed e)
                  | None \<Rightarrow>
                    if reservedSlugConflict slug \<noteq> None then (w1, Failed ''invalid_params: slug segment is reserved'')
                    else if cb_pages inp = [] then (w1, Failed ''invalid_params: pages must not be empty'')
                    else (case SafeJoin (be_view env) pg slug of
                       Inl e \<Rightarrow> (w1, Failed ''invalid_params: path validation failed'')
                     | Inr dir \<Rightarrow>
                       (case prepare_bundle L marshal (be_now env) cfg (pw_index w1) (cb_casing inp) dir [] (cb_pages inp) of
                          Inl e \<Rightarrow> (w1, Failed e)
                        | Inr d \<Rightarrow>
                          create_bundle_run L env pg w1 inp slug dir d (\<not> cb_dry inp \<and> \<not> bc_force_dry_run cfg) cs))))))"

section \<open>delete\_bundle\<close>

record doomed =
  dm_lang :: string
  dm_path :: string
  dm_content :: string
  dm_rev :: string

fun choose_doomed ::
    "'a lifecycle_lib_of \<Rightarrow> 'e lifecycle_env_scheme \<Rightarrow> files \<Rightarrow> string \<Rightarrow> (string, string) gomap \<Rightarrow> string list \<Rightarrow>
     string list \<Rightarrow> doomed list go" where
  "choose_doomed L env fs dir expected seen [] = Inr []"
| "choose_doomed L env fs dir expected seen (raw # rest) =
     (case validateLangParam raw of
        Inl e \<Rightarrow> Inl e
      | Inr lang \<Rightarrow>
          if lang \<in> set seen then Inl ''invalid_params: duplicate language''
          else (case bundleLangFile dir lang of
            Inl e \<Rightarrow> Inl e
          | Inr path \<Rightarrow>
              if be_unreadable env path then Inl ''read_error: failed to read translation''
              else (case gget fs path of
                None \<Rightarrow> Inl ''not_found: translation does not exist''
              | Some content \<Rightarrow>
                  (let rev = page_rev L content;
                       wanted = (case gget expected lang of None \<Rightarrow> '''' | Some r \<Rightarrow> r)
                   in if wanted = '''' then Inl ''invalid_params: expected_revisions is required''
                      else if wanted \<noteq> rev then Inl ''revision_conflict: translation changed since it was read''
                      else (case choose_doomed L env fs dir expected (lang # seen) rest of
                              Inl e \<Rightarrow> Inl e
                            | Inr ds \<Rightarrow> Inr (\<lparr>dm_lang = lang, dm_path = path, dm_content = content, dm_rev = rev\<rparr> # ds))))))"

definition still_chosen ::
    "'a lifecycle_lib_of \<Rightarrow> 'e lifecycle_env_scheme \<Rightarrow> files \<Rightarrow> doomed list \<Rightarrow> bool" where
  "still_chosen L env fs ds \<longleftrightarrow>
     list_all (\<lambda>d. case read_page env fs (dm_path d) of None \<Rightarrow> False | Some raw \<Rightarrow> page_rev L raw = dm_rev d) ds"

definition removed_transitions :: "doomed list \<Rightarrow> recovery_file list" where
  "removed_transitions ds = map (\<lambda>d. recoveryFile (dm_path d) (Some (dm_content d)) None) ds"

definition doomed_revisions :: "doomed list \<Rightarrow> (string, string) gomap" where
  "doomed_revisions ds = foldl (\<lambda>m d. gput m (dm_lang d) (dm_rev d)) [] ds"

text \<open>The rollback of a failed delete: the removed files are written again; a failed write is ignored.\<close>

fun restore_removed ::
    "'e lifecycle_env_scheme \<Rightarrow> path_guard \<Rightarrow> doomed list \<Rightarrow> files \<Rightarrow> files \<times> bool" where
  "restore_removed env pg [] fs = (fs, True)"
| "restore_removed env pg (d # ds) fs =
     (if be_dies env (BeforeUndo (dm_path d)) then (fs, False)
      else restore_removed env pg ds
             (fst (AtomicWriteChecked (be_undo env (dm_path d)) (be_view env) (be_view env) pg fs (dm_path d) (dm_content d))))"

fun remove_files ::
    "'e lifecycle_env_scheme \<Rightarrow> path_guard \<Rightarrow> doomed list \<Rightarrow> doomed list \<Rightarrow> files \<Rightarrow> files \<times> write_result" where
  "remove_files env pg [] past fs = (fs, Wrote)"
| "remove_files env pg (d # rest) past fs =
     (if be_dies env (BeforeWrite (dm_path d)) then (fs, WriteDied)
      else if gget fs (dm_path d) = None \<or> lx_stuck env (dm_path d)
      then (case restore_removed env pg past fs of
              (fs', alive) \<Rightarrow> (fs', if alive then WriteFailed ''delete_error: bundle deletion rolled back'' else WriteDied))
      else remove_files env pg rest (past @ [d]) (gdel fs (dm_path d)))"

text \<open>The entries of a directory once some files are gone.\<close>

definition ls_less ::
    "(string \<Rightarrow> (string \<times> bool) list option) \<Rightarrow> string list \<Rightarrow> string \<Rightarrow> (string \<times> bool) list option" where
  "ls_less ls ps d = map_option (filter (\<lambda>(n, is_dir). path_join [d, n] \<notin> set ps)) (ls d)"

text \<open>After the translations are gone: the whole directory goes when it holds no translation any more.\<close>

definition finish_removal ::
    "'e lifecycle_env_scheme \<Rightarrow> page_world \<Rightarrow> string \<Rightarrow> string \<Rightarrow> doomed list \<Rightarrow> page_world \<times> string option" where
  "finish_removal env w slug dir ds =
     (if \<not> bundleHasRemainingLangFiles (ls_less (be_ls env) (map dm_path ds)) dir
      then (case remove_all (lx_tree env dir) (pw_files w) dir of
              (fs, False) \<Rightarrow> (w\<lparr>pw_files := fs\<rparr>, Some ''delete_error: failed to remove completed bundle'')
            | (fs, True) \<Rightarrow> (w\<lparr>pw_files := fs, pw_index := index_delete (pw_index w) slug\<rparr>, None))
      else (w\<lparr>pw_index := foldl (\<lambda>idx d. DeleteLang idx slug (dm_lang d)) (pw_index w) ds\<rparr>, None))"

definition delete_bundle_cleanup :: "'e lifecycle_env_scheme \<Rightarrow> string \<Rightarrow> doomed list \<Rightarrow> string list" where
  "delete_bundle_cleanup env dir ds =
     (if bundleHasUnselectedLangFiles (be_ls env) dir (map dm_path ds) then [] else [dir])"

definition delete_bundle_write ::
    "'a lifecycle_lib_of \<Rightarrow> 'e lifecycle_env_scheme \<Rightarrow> path_guard \<Rightarrow> page_world \<Rightarrow> delete_bundle_input \<Rightarrow> string \<Rightarrow> string \<Rightarrow>
     doomed list \<Rightarrow> string \<Rightarrow> string \<Rightarrow> page_world \<times> lifecycle_answer outcome" where
  "delete_bundle_write L env pg w inp slug dir ds idemHash cs =
     (let langs = map dm_lang ds
      in case lifecycle_write L env w dir (removed_transitions ds) (delete_bundle_cleanup env dir ds)
                (recoveryIdempotencyFor (be_ctx env) ''delete_bundle'' (db_key inp) idemHash
                   (lifecycle_seed L env ''delete_bundle'' slug langs (doomed_revisions ds)))
                ''persistence_error: failed to record bundle delete intent''
                (remove_files env pg ds []) of
           (w1, Failed e) \<Rightarrow> (w1, Failed e)
         | (w1, Died) \<Rightarrow> (w1, Died)
         | (w1, Done op) \<Rightarrow>
             (case finish_removal env w1 slug dir ds of
                (w2, Some e) \<Rightarrow> (w2, Failed e)
              | (w2, None) \<Rightarrow>
                  page_close L env w2 op ''delete_bundle'' (db_key inp) idemHash cs slug ''delete''
                    ((lifecycle_answer_of ''deleted'' slug langs)\<lparr>ln_revisions := doomed_revisions ds\<rparr>)))"

definition delete_bundle_request :: "delete_bundle_input \<Rightarrow> string \<Rightarrow> (string \<times> json) list" where
  "delete_bundle_request inp slug =
     [(''slug'', JStr slug), (''languages'', JArr (map JStr (db_languages inp))),
      (''expected_revisions'', case db_expected inp of None \<Rightarrow> JNull
         | Some m \<Rightarrow> JObj (map (\<lambda>(k, v). (k, JStr v)) (sort_key fst m)))] @
     opt_member ''dry_run'' (db_dry inp) (JBool True) @
     opt_member ''idempotency_key'' (db_key inp \<noteq> '''') (JStr (db_key inp)) @
     opt_member ''change_set_id'' (db_cs inp \<noteq> '''') (JStr (db_cs inp))"

definition delete_bundle_run ::
    "'a lifecycle_lib_of \<Rightarrow> 'e lifecycle_env_scheme \<Rightarrow> path_guard \<Rightarrow> create_config \<Rightarrow> page_world \<Rightarrow> delete_bundle_input \<Rightarrow>
     string \<Rightarrow> string \<Rightarrow> string \<Rightarrow> page_world \<times> lifecycle_answer outcome" where
  "delete_bundle_run L env pg cfg w inp slug idemHash cs =
     (case SafeJoin (be_view env) pg slug of
        Inl e \<Rightarrow> (w, Failed ''invalid_params: path validation failed'')
      | Inr dir \<Rightarrow>
          (case choose_doomed L env (pw_files w) dir (case db_expected inp of None \<Rightarrow> [] | Some m \<Rightarrow> m) [] (db_languages inp) of
             Inl e \<Rightarrow> (w, Failed e)
           | Inr ds \<Rightarrow>
               if db_dry inp \<or> bc_force_dry_run cfg
               then (w, Done ((lifecycle_answer_of ''would_delete'' slug (map dm_lang ds))
                           \<lparr>ln_dry_run := True, ln_revisions := doomed_revisions ds\<rparr>))
               else if \<not> be_allow env then (w, Failed ''rate_limit_exceeded: delete_bundle'')
               else if \<not> be_locked env then (w, Failed lock_error)
               else (let w1 = under_lock env (db_key inp) w
                     in if \<not> still_chosen L env (pw_files w1) ds
                        then (w1, Failed ''revision_conflict: bundle changed during delete'')
                        else delete_bundle_write L env pg w1 inp slug dir ds idemHash cs)))"

definition handleDeleteBundle ::
    "'a lifecycle_lib_of \<Rightarrow> 'e lifecycle_env_scheme \<Rightarrow> path_guard \<Rightarrow> create_config \<Rightarrow> page_world \<Rightarrow> delete_bundle_input \<Rightarrow>
     page_world \<times> lifecycle_answer outcome" where
  "handleDeleteBundle L env pg cfg w inp =
     (let slug = normalizeInputSlug (db_slug inp)
      in case rejectRootSlug slug of
           Some e \<Rightarrow> (w, Failed e)
         | None \<Rightarrow>
           if slug = '''' then (w, Failed ''invalid_params: slug must not be empty'')
           else (case validateIdempotencyKey (db_key inp) of
             Some e \<Rightarrow> (w, Failed e)
           | None \<Rightarrow>
             (case Resolve (be_cs_read_fails env) (be_cs_touch_fails env) (be_ctx env) (pw_sets w) (db_cs inp) (be_now env) of
                (r, Inl e) \<Rightarrow> (w\<lparr>pw_sets := r\<rparr>, Failed e)
              | (r, Inr cs) \<Rightarrow>
                (let w1 = w\<lparr>pw_sets := r\<rparr>
                 in if db_languages inp = [] then (w1, Failed ''invalid_params: languages must not be empty'')
                    else if \<not> db_dry inp \<and> \<not> blank (db_key inp) \<and> \<not> be_locked env then (w1, Failed lock_error)
                    else (case page_replay L env w1 ''delete_bundle'' (db_key inp) (db_dry inp)
                                 (delete_bundle_request inp slug) of
                       (w2, Inl e) \<Rightarrow> (w2, Failed e)
                     | (w2, Inr (idemHash, Some cached)) \<Rightarrow> (w2, Done cached)
                     | (w2, Inr (idemHash, None)) \<Rightarrow> delete_bundle_run L env pg cfg w2 inp slug idemHash cs)))))"

end
