(* ===== verification/LifecycleSafety.thy ===== *)
theory LifecycleSafety
  imports BundleLifecycle PageSuite
begin

text \<open>
  A call of \<open>create\_bundle\<close> or \<open>delete\_bundle\<close> whose process dies, or that fails at any of its steps, is
  finished or undone as a whole by the next start-up.
\<close>

section \<open>Files between two known states\<close>

text \<open>Each listed file is as before or as after, and no other file differs.\<close>

definition between :: "recovery_file list \<Rightarrow> files \<Rightarrow> files \<Rightarrow> bool" where
  "between rfs fs fs' \<longleftrightarrow> list_all (\<lambda>f. at_before fs' f \<or> at_after fs' f) rfs \<and>
     (\<forall>q. q \<notin> rf_path ` set rfs \<longrightarrow> gget fs' q = gget fs q)"

lemma between_start: "list_all (at_before fs) rfs \<Longrightarrow> between rfs fs fs"
  by (auto simp: between_def list_all_iff)

lemma same_path: "distinct (map rf_path rfs) \<Longrightarrow> f \<in> set rfs \<Longrightarrow> g \<in> set rfs \<Longrightarrow> rf_path f = rf_path g \<Longrightarrow> f = g"
  by (auto simp: distinct_map dest: inj_onD)

lemma between_at:
  assumes old: "between rfs fs fs1" and d: "distinct (map rf_path rfs)" and f: "f \<in> set rfs" "rf_path f = p"
    and v: "gget fs2 p = rf_before f \<or> gget fs2 p = rf_after f" and rest: "\<And>q. q \<noteq> p \<Longrightarrow> gget fs2 q = gget fs1 q"
  shows "between rfs fs fs2"
proof -
  have "at_before fs2 g \<or> at_after fs2 g" if g: "g \<in> set rfs" for g
  proof (cases "rf_path g = p")
    case True
    then have "g = f" using same_path [OF d f(1) g] f(2) by simp
    then show ?thesis using v f(2) by (simp add: at_before_def at_after_def)
  next
    case False
    then show ?thesis using old g rest [OF False] by (auto simp: between_def list_all_iff at_before_def at_after_def)
  qed
  moreover have "gget fs2 q = gget fs q" if "q \<notin> rf_path ` set rfs" for q
  proof -
    have "q \<noteq> p" using that f by auto
    then show ?thesis using old that rest by (simp add: between_def)
  qed
  ultimately show ?thesis by (simp add: between_def list_all_iff)
qed

section \<open>The journal row\<close>

definition row_fresh :: "'e bundle_env_scheme \<Rightarrow> page_world \<Rightarrow> bool" where
  "row_fresh env w \<longleftrightarrow>
     (\<exists>t. pw_journal w = Some t \<and> (\<forall>h. be_random env = Some h \<longrightarrow> gget t (''src_'' @ h) = None))"

lemma page_log_row:
  assumes "write_op i dir rfs cl op" "write_row (pk_rec_enc L) i dir rfs cl (pw_journal w)"
    "state \<in> {''in_progress'', ''file_written'', ''committed''}"
  shows "write_row (pk_rec_enc L) i dir rfs cl (pw_journal (page_log L env w op state))"
  using op_record_keeps [OF _ assms(1,3,2)]
  by (cases "op_record (pk_rec_enc L) (be_rec_fails env state) (be_now env) (pw_journal w) op state") (simp add: page_log_def)

lemma lifecycle_write_cases:
  assumes run: "lifecycle_write L env w dir rfs cl idem err step = (w', r)" and fresh: "row_fresh env w"
  obtains (stopped) e where "pw_files w' = pw_files w" "pw_journal w' = pw_journal w" "pw_index w' = pw_index w" "r = Failed e"
  | (tracked) h res where "be_random env = Some h" "step (pw_files w) = (pw_files w', res)" "pw_index w' = pw_index w"
      "write_row (pk_rec_enc L) (''src_'' @ h) (path_clean dir) rfs (map path_clean cl) (pw_journal w')"
      "\<And>op. r = Done op \<Longrightarrow> res = Wrote \<and> write_op (''src_'' @ h) (path_clean dir) rfs (map path_clean cl) op"
proof -
  obtain t where t: "pw_journal w = Some t" "\<And>h. be_random env = Some h \<Longrightarrow> gget t (''src_'' @ h) = None"
    using fresh by (auto simp: row_fresh_def)
  obtain j ro where j: "beginBundleWriteRecovery (pk_rec_enc L) (be_random env) (be_rec_fails env ''in_progress'')
      (be_now env) (pw_journal w) dir rfs idem cl = (j, ro)" by fastforce
  have "(\<exists>e. ro = Inl e) \<and> j = pw_journal w \<or>
     (\<exists>h op. be_random env = Some h \<and> ro = Inr op \<and> write_op (''src_'' @ h) (path_clean dir) rfs (map path_clean cl) op \<and>
        write_row (pk_rec_enc L) (''src_'' @ h) (path_clean dir) rfs (map path_clean cl) j)"
    using begin_row [OF j t(1)] t(2) by blast
  then show ?thesis
  proof (elim disjE exE conjE)
    fix e assume "ro = Inl e" "j = pw_journal w"
    then show ?thesis using run j by (intro stopped [of err]) (auto simp: lifecycle_write_def)
  next
    fix h op
    assume h: "be_random env = Some h" "ro = Inr op" "write_op (''src_'' @ h) (path_clean dir) rfs (map path_clean cl) op"
      "write_row (pk_rec_enc L) (''src_'' @ h) (path_clean dir) rfs (map path_clean cl) j"
    obtain fs res where s: "step (pw_files w) = (fs, res)" by fastforce
    let ?w1 = "w\<lparr>pw_journal := j, pw_files := fs\<rparr>"
    have log: "write_row (pk_rec_enc L) (''src_'' @ h) (path_clean dir) rfs (map path_clean cl)
        (pw_journal (page_log L env ?w1 op ''file_written''))"
      by (rule page_log_row [OF h(3)]) (use h(4) in simp_all)
    have "w' = ?w1 \<and> (\<forall>op. r \<noteq> Done op) \<or> w' = page_log L env ?w1 op ''file_written'' \<and> (\<forall>op'. r = Done op' \<longrightarrow> res = Wrote \<and> op' = op)"
      using run j h(2) s by (auto simp: lifecycle_write_def Let_def split: write_result.splits if_splits)
    then have "pw_files w' = fs" "pw_index w' = pw_index w"
      "write_row (pk_rec_enc L) (''src_'' @ h) (path_clean dir) rfs (map path_clean cl) (pw_journal w')"
      "\<And>op'. r = Done op' \<Longrightarrow> res = Wrote \<and> op' = op" using h(4) log by (auto simp: page_log_def)
    then show ?thesis using tracked [OF h(1), of res] h(3) s by blast
  qed
qed

lemma page_close_row:
  assumes run: "page_close L env w op tool key h cs slug action out = (w', r)"
    and op: "write_op i dir rfs cl op" and row: "write_row (pk_rec_enc L) i dir rfs cl (pw_journal w)"
  shows "pw_files w' = pw_files w \<and> write_row (pk_rec_enc L) i dir rfs cl (pw_journal w')"
proof -
  obtain j so where st: "stageResult (pk_rec_enc L) (be_rec_fails env ''staged'') (be_now env) (pw_journal w) op
      (pk_out_enc L out) = (j, so)" by fastforce
  note kept = stage_row [OF st op row]
  show ?thesis
  proof (cases so)
    case (Inl e)
    then show ?thesis using run st kept by (auto simp: page_close_def)
  next
    case (Inr op2)
    let ?w2 = "page_remember L env (w\<lparr>pw_journal := j\<rparr>) tool key h out"
    have w2: "pw_files ?w2 = pw_files w" "pw_journal ?w2 = j" by (simp_all add: page_remember_def)
    have "write_row (pk_rec_enc L) i dir rfs cl (pw_journal (page_log L env ?w2 op2 ''committed''))"
      by (rule page_log_row) (use kept Inr w2 in simp_all)
    moreover have "pw_files (page_log L env ?w2 op2 ''committed'') = pw_files w" using w2 by (simp add: page_log_def)
    moreover have "w' = w\<lparr>pw_journal := j\<rparr> \<or> w' = ?w2 \<or> (\<exists>rg. w' = (page_log L env ?w2 op2 ''committed'')\<lparr>pw_sets := rg\<rparr>) \<or>
        w' = page_log L env ?w2 op2 ''committed''"
      using run st Inr by (auto simp: page_close_def Let_def split: if_splits)
    ultimately show ?thesis using kept w2 by auto
  qed
qed

text \<open>What start-up makes of the row.\<close>

lemma row_settles:
  assumes row: "write_row enc i dir rfs cl (Some t)" "gget t i = Some row" "rc_state row \<noteq> ''committed''"
    and codec: "row_codec enc dec" and utf8: "row_utf8 dir rfs" "list_all valid_utf8 cl"
    and calm: "calm_restart renv dir rfs"
    and files: "rfs \<noteq> []" "distinct (map rf_path rfs)"
    and clean: "\<And>p. p \<in> set cl \<Longrightarrow> recoveryPathAllowed (rv_content_root renv) p \<and> recoveryPathAllowed dir p \<and>
      rv_stuck_tree renv p = None"
    and mix: "list_all (\<lambda>f. at_before fs f \<or> at_after fs f) rfs"
  shows "\<exists>fs' landed changed. prepare_entry sha dec renv (row_entry i row) fs = (fs', Some landed, changed) \<and>
           landed = (list_all (at_after fs) rfs \<and> \<not> list_all (at_before fs) rfs) \<and>
           (landed \<longrightarrow> fs' = cleaned cl fs) \<and>
           (\<not> landed \<longrightarrow> list_all (at_before fs') rfs \<and> (\<forall>q. q \<notin> rf_path ` set rfs \<longrightarrow> gget fs' q = gget fs q))"
proof -
  obtain idem where kind: "rc_kind row = ''bundle_write''" "rc_state row = ''in_progress'' \<or> rc_state row = ''file_written''"
    and enc: "enc (BundleWrite \<lparr>br_dir = dir, br_files = rfs, br_idem = idem, br_cleanup = cl\<rparr>) = Some (rc_payload row)"
    using row by (auto simp: write_row_def)
  obtain pl where dec: "dec (rc_payload row) = Some pl"
    and pl: "sp_bundle_dir pl = dir" "sp_files pl = rfs" "sp_cleanup pl = cl"
    by (rule row_decodes [OF codec utf8 enc])
  have "\<exists>fs' changed landed. reconcileBundleFiles renv pl fs = (fs', Inr (True, changed, landed)) \<and>
      landed = (list_all (at_after fs) (sp_files pl) \<and> \<not> list_all (at_before fs) (sp_files pl)) \<and>
      (landed \<longrightarrow> fs' = cleaned (sp_cleanup pl) fs) \<and>
      (\<not> landed \<longrightarrow> list_all (at_before fs') (sp_files pl) \<and>
         (\<forall>q. q \<notin> rf_path ` set (sp_files pl) \<longrightarrow> gget fs' q = gget fs q))"
    by (rule reconcile_settles_cleaning) (use calm files clean mix in \<open>auto simp: pl list_all_iff\<close>)
  then obtain fs' changed landed where out: "reconcileBundleFiles renv pl fs = (fs', Inr (True, changed, landed))"
      "landed = (list_all (at_after fs) rfs \<and> \<not> list_all (at_before fs) rfs)" "landed \<longrightarrow> fs' = cleaned cl fs"
      "\<not> landed \<longrightarrow> list_all (at_before fs') rfs \<and> (\<forall>q. q \<notin> rf_path ` set rfs \<longrightarrow> gget fs' q = gget fs q)"
    unfolding pl by blast
  moreover have "prepare_entry sha dec renv (row_entry i row) fs = (fs', Some landed, changed)"
    using kind dec out(1) by (auto simp: prepare_entry_def row_entry_def)
  ultimately show ?thesis by blast
qed

section \<open>The files of a bundle\<close>

lemma path_clean_idem [simp]: "path_clean (path_clean p) = path_clean p"
  by (simp add: path_clean_def [of "path_clean p"]) (simp add: path_clean_def Let_def)

lemma path_clean_ne [simp]: "path_clean p \<noteq> ''''"
  by (simp add: path_clean_def Let_def)

lemma path_join_clean: "path_clean (path_join [d, s]) = path_join [d, s] \<or> d = '''' \<and> s = ''''"
  by (auto simp: path_join_def)

definition lang_name :: "string \<Rightarrow> string" where
  "lang_name lang = (if lang = '''' then ''index.md'' else ''index.'' @ lang @ ''.md'')"

lemma lang_name_plain: "CHR ''/'' \<notin> set lang \<Longrightarrow> plain_seg (lang_name lang)"
  by (auto simp: lang_name_def plain_seg_def)

lemma lang_name_inj: "lang_name a = lang_name b \<Longrightarrow> a = b"
  by (auto simp: lang_name_def split: if_splits)

lemma no_space_front:
  assumes "\<And>p. p \<in> set ps \<Longrightarrow> p \<noteq> '''' \<and> hd p \<notin> set s"
  shows "strip_front ps s = s"
proof (rule strip_front_stop)
  have "\<not> has_prefix p s" if "p \<in> set ps" for p
    using assms [OF that] by (cases p; cases s) auto
  then show "match_len ps s = 0" by (induction ps) auto
qed

lemma trim_no_space:
  assumes "\<And>c. c \<in> set s \<Longrightarrow> c \<notin> set (concat space_seqs)"
  shows "trim_space s = s"
proof -
  have ne: "list_all (\<lambda>p. p \<noteq> '''') space_seqs" by (simp add: space_seqs_def)
  have sub: "hd p \<in> set (concat space_seqs) \<and> last p \<in> set (concat space_seqs)" if "p \<in> set space_seqs" for p
    using that ne by (auto simp: list_all_iff intro!: bexI [OF _ that])
  have "strip_front space_seqs s = s"
    by (rule no_space_front) (use sub assms ne in \<open>auto simp: list_all_iff\<close>)
  moreover have "strip_front (map rev space_seqs) (rev s) = rev s"
  proof (rule no_space_front)
    fix p assume "p \<in> set (map rev space_seqs)"
    then obtain x where x: "x \<in> set space_seqs" "p = rev x" by auto
    then have "last x \<notin> set s" using sub [OF x(1)] assms by blast
    then show "p \<noteq> '''' \<and> hd p \<notin> set (rev s)" using x ne by (auto simp: list_all_iff hd_rev)
  qed
  ultimately show ?thesis by (simp add: trim_space_def)
qed

lemma lang_param_ok:
  assumes "validateLangParam raw = Inr lang"
  shows "validateLangParam lang = Inr lang \<and> CHR ''/'' \<notin> set lang"
proof (cases "lang = ''''")
  case True
  then show ?thesis by (simp add: validateLangParam_def)
next
  case False
  then have "lang = trim_space raw" "validLangPattern lang" "\<not> has_infix ''..'' lang" "CHR ''/'' \<notin> set lang" "CHR 0x5C \<notin> set lang"
    using assms by (auto simp: validateLangParam_def Let_def split: if_splits)
  moreover have "trim_space lang = lang"
  proof (rule trim_no_space)
    have "list_all (\<lambda>c. \<not> (is_upper c \<or> is_lower c \<or> is_digit c \<or> c = CHR ''-'')) (concat space_seqs)" by code_simp
    then show "c \<notin> set (concat space_seqs)" if "c \<in> set lang" for c
      using that calculation(2) unfolding validLangPattern_def list_all_iff by blast
  qed
  ultimately show ?thesis using False by (simp add: validateLangParam_def Let_def)
qed

lemma safe_join_dir: "SafeJoin v pg rel = Inr dir \<Longrightarrow> dir \<noteq> '''' \<and> path_clean dir = dir"
proof -
  assume "SafeJoin v pg rel = Inr dir"
  then have "dir = path_join [pg_root pg, path_clean rel]"
    by (auto simp: SafeJoin_def Let_def split: if_splits option.splits)
  then show "dir \<noteq> '''' \<and> path_clean dir = dir" by (simp add: path_join_def)
qed

lemma lang_file_path:
  assumes "validateLangParam raw = Inr lang"
  shows "bundleLangFile dir lang = Inr (path_join [dir, lang_name lang])"
  using lang_param_ok [OF assms] by (simp add: bundleLangFile_def lang_name_def)

definition lang_paths :: "string \<Rightarrow> string list \<Rightarrow> string list \<Rightarrow> bool" where
  "lang_paths dir langs ps \<longleftrightarrow> distinct langs \<and> (\<forall>l \<in> set langs. CHR ''/'' \<notin> set l) \<and>
     ps = map (\<lambda>l. path_join [dir, lang_name l]) langs"

lemma lang_paths_distinct: "lang_paths dir langs ps \<Longrightarrow> dir \<noteq> '''' \<Longrightarrow> distinct ps"
proof -
  assume l: "lang_paths dir langs ps" and ne: "dir \<noteq> ''''"
  have "inj_on (\<lambda>l. path_join [dir, lang_name l]) (set langs)"
  proof (rule inj_onI)
    fix a b
    assume "a \<in> set langs" "b \<in> set langs" "path_join [dir, lang_name a] = path_join [dir, lang_name b]"
    then show "a = b" using l path_join2_inj [OF ne lang_name_plain lang_name_plain] lang_name_inj by (auto simp: lang_paths_def)
  qed
  then show "distinct ps" using l by (simp add: lang_paths_def distinct_map)
qed

lemma lang_paths_clean: "lang_paths dir langs ps \<Longrightarrow> dir \<noteq> '''' \<Longrightarrow> p \<in> set ps \<Longrightarrow> path_clean p = p"
  using path_join_clean by (auto simp: lang_paths_def)

lemma prepare_bundle_paths:
  assumes "prepare_bundle L marshal now cfg idx casing dir seen ps = Inr d"
  shows "\<exists>langs. lang_paths dir langs (map bf_path (pb_files d)) \<and> set langs \<inter> set seen = {} \<and>
     length langs = length ps"
  using assms
proof (induction ps arbitrary: seen d)
  case Nil
  then show ?case by (auto simp: lang_paths_def)
next
  case (Cons p ps)
  then obtain lang f ch sk d1 where d: "validateLangParam (bg_lang p) = Inr lang" "lang \<notin> set seen"
      "prepare_bundle_page L marshal now cfg idx casing dir p lang = Inr (f, ch, sk)"
      "prepare_bundle L marshal now cfg idx casing dir (lang # seen) ps = Inr d1" "pb_files d = f # pb_files d1"
    by (auto split: sum.splits if_splits prod.splits)
  have "bf_path f = path_join [dir, lang_name lang]"
    using d(3) lang_file_path [OF d(1)] by (auto simp: prepare_bundle_page_def Let_def split: option.splits sum.splits)
  moreover obtain langs where "lang_paths dir langs (map bf_path (pb_files d1))" "set langs \<inter> set (lang # seen) = {}"
      "length langs = length ps" using Cons.IH [OF d(4)] by blast
  ultimately show ?case
    using d(2,5) lang_param_ok [OF d(1)] by (intro exI [of _ "lang # langs"]) (auto simp: lang_paths_def)
qed

section \<open>Creating\<close>

lemma remove_created_between:
  assumes "remove_created env ps fs1 = (fs', alive)" and d: "distinct (map rf_path rfs)" and "between rfs fs fs1"
    and "\<And>p. p \<in> set ps \<Longrightarrow> \<exists>f \<in> set rfs. rf_path f = p \<and> rf_before f = None"
  shows "between rfs fs fs'"
  using assms(1,3,4)
proof (induction ps arbitrary: fs1)
  case (Cons p ps)
  obtain f where f: "f \<in> set rfs" "rf_path f = p" "rf_before f = None" using Cons.prems(3) by auto
  have "between rfs fs (gdel fs1 p)" by (rule between_at [OF Cons.prems(2) d f(1,2)]) (use f(3) in simp_all)
  then show ?case using Cons by (auto split: if_splits)
qed simp

lemma create_files_between:
  assumes "create_files env pg fls made fs1 = (fs', r)" and d: "distinct (map rf_path rfs)" and "between rfs fs fs1"
    and "\<And>p c. (p, c) \<in> set fls \<Longrightarrow> \<exists>f \<in> set rfs. rf_path f = p \<and> rf_before f = None \<and> rf_after f = Some c"
    and "\<And>p. p \<in> set made \<Longrightarrow> \<exists>f \<in> set rfs. rf_path f = p \<and> rf_before f = None"
    and "distinct (map fst fls)"
  shows "between rfs fs fs' \<and> (r = Wrote \<longrightarrow> (\<forall>(p, c) \<in> set fls. gget fs' p = Some c) \<and>
           (\<forall>q. q \<notin> fst ` set fls \<longrightarrow> gget fs' q = gget fs1 q))"
  using assms(1,3-)
proof (induction fls arbitrary: made fs1)
  case (Cons x fls)
  obtain p c where x: "x = (p, c)" by (cases x)
  obtain f where f: "f \<in> set rfs" "rf_path f = p" "rf_before f = None" "rf_after f = Some c"
    using Cons.prems(3) [of p c] x by auto
  obtain fs2 err where w: "AtomicCreateChecked (be_write env p) (be_view env) (be_view env) (px_taken env) pg fs1 p c = (fs2, err)"
    by fastforce
  note eff = AtomicCreateChecked_cases [OF w]
  show ?case
  proof (cases "be_dies env (BeforeWrite p)")
    case True
    then show ?thesis using Cons.prems(1,2) x by simp
  next
    case alive: False
    show ?thesis
    proof (cases err)
      case None
      have b: "between rfs fs fs2"
        by (rule between_at [OF Cons.prems(2) d f(1,2)]) (use eff None f(4) in auto)
      have rest: "create_files env pg fls (made @ [p]) fs2 = (fs', r)" using Cons.prems(1) alive w None x by simp
      have "between rfs fs fs' \<and> (r = Wrote \<longrightarrow> (\<forall>(p, c) \<in> set fls. gget fs' p = Some c) \<and>
           (\<forall>q. q \<notin> fst ` set fls \<longrightarrow> gget fs' q = gget fs2 q))"
        by (rule Cons.IH [OF rest b]) (use Cons.prems(3-5) f x in auto)
      moreover have "fs2 = gput fs1 p c" "p \<notin> fst ` set fls" using eff None Cons.prems(5) x by simp_all
      ultimately show ?thesis using x by (simp add: case_prod_unfold)
    next
      case (Some e)
      obtain fs3 al where u: "remove_created env made fs2 = (fs3, al)" by fastforce
      have "between rfs fs fs3"
        by (rule remove_created_between [OF u d]) (use eff Some Cons.prems(2,4) in auto)
      then show ?thesis using Cons.prems(1) alive w Some u x by (auto split: if_splits)
    qed
  qed
qed simp

lemma replay_keeps_row:
  "page_replay L env w tool key dry req = (w', r) \<Longrightarrow>
     pw_files w' = pw_files w \<and> pw_journal w' = pw_journal w \<and> pw_index w' = pw_index w"
  by (auto simp: page_replay_def split: if_splits option.splits prod.splits)

text \<open>The files that the call finds once it holds the content lock.\<close>

definition held_files :: "'e lifecycle_env_scheme \<Rightarrow> string \<Rightarrow> page_world \<Rightarrow> files" where
  "held_files env key w = pw_files (under_lock env key w)"

lemma held_keyed: "\<not> blank key \<Longrightarrow> held_files env key w = pw_files w"
  by (simp add: held_files_def under_lock_def)

lemma held_at:
  assumes "pw_files w1 = pw_files w"
  shows "pw_files (under_lock env key w1) = held_files env key w" "pw_journal (under_lock env key w1) = pw_journal w1"
  using assms by (simp_all add: held_files_def under_lock_def split: option.split)

lemma create_bundle_cases:
  assumes run: "handleCreateBundle L marshal env pg cfg w inp = (w', out)"
  obtains (untouched) "pw_journal w' = pw_journal w"
  | (written) w1 dir d h cs where "pw_files w1 = held_files env (cb_key inp) w" "pw_journal w1 = pw_journal w"
      "SafeJoin (be_view env) pg (normalizeInputSlug (cb_slug inp)) = Inr dir" "cb_pages inp \<noteq> []"
      "prepare_bundle L marshal (be_now env) cfg (pw_index w) (cb_casing inp) dir [] (cb_pages inp) = Inr d"
      "bundle_present env (pw_files w) (pb_files d) = None"
      "create_bundle_write L env pg w1 inp (normalizeInputSlug (cb_slug inp)) dir d h cs = (w', out)"
proof -
  let ?slug = "normalizeInputSlug (cb_slug inp)"
  show ?thesis
  proof (cases "\<exists>rg cs dir d m. SafeJoin (be_view env) pg ?slug = Inr dir \<and> cb_pages inp \<noteq> [] \<and>
      prepare_bundle L marshal (be_now env) cfg (pw_index w) (cb_casing inp) dir [] (cb_pages inp) = Inr d \<and>
      create_bundle_run L env pg (w\<lparr>pw_sets := rg\<rparr>) inp ?slug dir d m cs = (w', out)")
    case True
    then obtain rg cs dir d m where ok: "SafeJoin (be_view env) pg ?slug = Inr dir" "cb_pages inp \<noteq> []"
      "prepare_bundle L marshal (be_now env) cfg (pw_index w) (cb_casing inp) dir [] (cb_pages inp) = Inr d"
      "create_bundle_run L env pg (w\<lparr>pw_sets := rg\<rparr>) inp ?slug dir d m cs = (w', out)" by blast
    show ?thesis
    proof (cases "\<exists>w1 h. pw_files w1 = pw_files w \<and> pw_journal w1 = pw_journal w \<and> bundle_present env (pw_files w) (pb_files d) = None \<and>
        create_bundle_write L env pg (under_lock env (cb_key inp) w1) inp ?slug dir d h cs = (w', out)")
      case True
      then obtain w1 h where "pw_files w1 = pw_files w" "pw_journal w1 = pw_journal w" "bundle_present env (pw_files w) (pb_files d) = None"
        "create_bundle_write L env pg (under_lock env (cb_key inp) w1) inp ?slug dir d h cs = (w', out)" by blast
      then show ?thesis
        using written [of "under_lock env (cb_key inp) w1"] held_at [of w1 w env "cb_key inp"] ok(1-3) by auto
    next
      case False
      have "pw_journal w' = pw_journal w"
        using ok(4) False unfolding create_bundle_run_def
        by (auto dest!: replay_keeps_row split: prod.splits sum.splits option.splits if_splits)
      then show ?thesis using untouched by blast
    qed
  next
    case False
    have "pw_journal w' = pw_journal w"
      using run False unfolding handleCreateBundle_def Let_def
      by (auto split: prod.splits sum.splits option.splits if_splits)
    then show ?thesis using untouched by blast
  qed
qed

section \<open>Deleting\<close>

lemma restore_removed_between:
  assumes "restore_removed env pg ds fs1 = (fs', alive)" and d: "distinct (map rf_path rfs)" and "between rfs fs fs1"
    and "\<And>x. x \<in> set ds \<Longrightarrow> \<exists>f \<in> set rfs. rf_path f = dm_path x \<and> rf_before f = Some (dm_content x)"
  shows "between rfs fs fs'"
  using assms(1,3,4)
proof (induction ds arbitrary: fs1)
  case (Cons x ds)
  obtain f where f: "f \<in> set rfs" "rf_path f = dm_path x" "rf_before f = Some (dm_content x)"
    using Cons.prems(3) [of x] by auto
  let ?w = "AtomicWriteChecked (be_undo env (dm_path x)) (be_view env) (be_view env) pg fs1 (dm_path x) (dm_content x)"
  have "between rfs fs (fst ?w)"
    using checked_write_fst [of "be_undo env (dm_path x)" "be_view env" "be_view env" pg fs1 "dm_path x" "dm_content x"]
      Cons.prems(2) between_at [OF Cons.prems(2) d f(1,2), of "gput fs1 (dm_path x) (dm_content x)"] f(3) by auto
  then show ?case using Cons by (auto split: if_splits)
qed simp

lemma remove_files_between:
  assumes "remove_files env pg ds past fs1 = (fs', r)" and d: "distinct (map rf_path rfs)" and "between rfs fs fs1"
    and "\<And>x. x \<in> set (past @ ds) \<Longrightarrow>
      \<exists>f \<in> set rfs. rf_path f = dm_path x \<and> rf_before f = Some (dm_content x) \<and> rf_after f = None"
  shows "between rfs fs fs' \<and> (r = Wrote \<longrightarrow> (\<forall>x \<in> set ds. gget fs' (dm_path x) = None) \<and>
           (\<forall>q. gget fs1 q = None \<longrightarrow> gget fs' q = None))"
  using assms(1,3,4)
proof (induction ds arbitrary: past fs1)
  case (Cons x ds)
  obtain f where f: "f \<in> set rfs" "rf_path f = dm_path x" "rf_after f = None" using Cons.prems(3) [of x] by auto
  show ?case
  proof (cases "be_dies env (BeforeWrite (dm_path x))")
    case True
    then show ?thesis using Cons.prems(1,2) by simp
  next
    case alive: False
    show ?thesis
    proof (cases "gget fs1 (dm_path x) = None \<or> lx_stuck env (dm_path x)")
      case True
      obtain fs3 al where u: "restore_removed env pg past fs1 = (fs3, al)" by fastforce
      have "between rfs fs fs3"
        by (rule restore_removed_between [OF u d Cons.prems(2)]) (use Cons.prems(3) in force)
      then show ?thesis using Cons.prems(1) alive True u by (auto split: if_splits)
    next
      case False
      have b: "between rfs fs (gdel fs1 (dm_path x))"
        by (rule between_at [OF Cons.prems(2) d f(1,2)]) (use f(3) in auto)
      have rest: "remove_files env pg ds (past @ [x]) (gdel fs1 (dm_path x)) = (fs', r)"
        using Cons.prems(1) alive False by simp
      have "between rfs fs fs' \<and> (r = Wrote \<longrightarrow> (\<forall>x \<in> set ds. gget fs' (dm_path x) = None) \<and>
           (\<forall>q. gget (gdel fs1 (dm_path x)) q = None \<longrightarrow> gget fs' q = None))"
        by (rule Cons.IH [OF rest b]) (use Cons.prems(3) in auto)
      then show ?thesis by simp
    qed
  qed
qed simp

lemma choose_doomed_spec:
  assumes "choose_doomed L env fs dir expected seen ls = Inr ds"
  shows "\<exists>langs. lang_paths dir langs (map dm_path ds) \<and> set langs \<inter> set seen = {} \<and> length langs = length ls \<and>
     (\<forall>x \<in> set ds. gget fs (dm_path x) = Some (dm_content x) \<and> dm_rev x = page_rev L (dm_content x))"
  using assms
proof (induction ls arbitrary: seen ds)
  case Nil
  then show ?case by (auto simp: lang_paths_def)
next
  case (Cons raw ls)
  obtain lang where lang: "validateLangParam raw = Inr lang" "lang \<notin> set seen"
    using Cons.prems by (auto split: sum.splits if_splits)
  then obtain c ds1 where d: "gget fs (path_join [dir, lang_name lang]) = Some c"
      "choose_doomed L env fs dir expected (lang # seen) ls = Inr ds1"
      "ds = \<lparr>dm_lang = lang, dm_path = path_join [dir, lang_name lang], dm_content = c, dm_rev = page_rev L c\<rparr> # ds1"
    using Cons.prems lang_file_path [OF lang(1), of dir]
    by (auto simp: Let_def split: sum.splits if_splits option.splits)
  obtain langs where "lang_paths dir langs (map dm_path ds1)" "set langs \<inter> set (lang # seen) = {}"
      "length langs = length ls" "\<forall>x \<in> set ds1. gget fs (dm_path x) = Some (dm_content x) \<and> dm_rev x = page_rev L (dm_content x)"
    using Cons.IH [OF d(2)] by blast
  then show ?case
    using d(1,3) lang(2) lang_param_ok [OF lang(1)] by (intro exI [of _ "lang # langs"]) (auto simp: lang_paths_def)
qed

lemma delete_bundle_cases:
  assumes run: "handleDeleteBundle L env pg cfg w inp = (w', out)"
  obtains (untouched) "pw_journal w' = pw_journal w"
  | (written) w1 dir ds h cs where "pw_files w1 = held_files env (db_key inp) w" "pw_journal w1 = pw_journal w"
      "still_chosen L env (held_files env (db_key inp) w) ds"
      "SafeJoin (be_view env) pg (normalizeInputSlug (db_slug inp)) = Inr dir" "db_languages inp \<noteq> []"
      "choose_doomed L env (pw_files w) dir (case db_expected inp of None \<Rightarrow> [] | Some m \<Rightarrow> m) [] (db_languages inp) = Inr ds"
      "delete_bundle_write L env pg w1 inp (normalizeInputSlug (db_slug inp)) dir ds h cs = (w', out)"
proof -
  let ?slug = "normalizeInputSlug (db_slug inp)"
  note lock = held_at [of _ w env "db_key inp"]
  show ?thesis
  proof (cases "\<exists>w2 h cs. pw_files w2 = pw_files w \<and> pw_journal w2 = pw_journal w \<and> db_languages inp \<noteq> [] \<and>
      delete_bundle_run L env pg cfg w2 inp ?slug h cs = (w', out)")
    case True
    then obtain w2 h cs where w2: "pw_files w2 = pw_files w" "pw_journal w2 = pw_journal w" "db_languages inp \<noteq> []"
      "delete_bundle_run L env pg cfg w2 inp ?slug h cs = (w', out)" by blast
    show ?thesis
    proof (cases "\<exists>dir ds. SafeJoin (be_view env) pg ?slug = Inr dir \<and>
        choose_doomed L env (pw_files w) dir (case db_expected inp of None \<Rightarrow> [] | Some m \<Rightarrow> m) [] (db_languages inp) = Inr ds \<and>
        still_chosen L env (held_files env (db_key inp) w) ds \<and>
        delete_bundle_write L env pg (under_lock env (db_key inp) w2) inp ?slug dir ds h cs = (w', out)")
      case True
      then show ?thesis using written [of "under_lock env (db_key inp) w2"] lock [OF w2(1)] w2(2,3) by auto
    next
      case False
      have "w' = w2 \<or> w' = under_lock env (db_key inp) w2"
        using w2(1,4) False lock(1) [OF w2(1)] unfolding delete_bundle_run_def Let_def
        by (auto split: sum.splits if_splits)
      then show ?thesis using untouched w2(1,2) lock(2) [OF w2(1)] by auto
    qed
  next
    case False
    have "pw_journal w' = pw_journal w"
      using run False unfolding handleDeleteBundle_def Let_def
      by (auto dest!: replay_keeps_row split: prod.splits sum.splits option.splits if_splits)
    then show ?thesis using untouched by blast
  qed
qed

section \<open>All or nothing\<close>

text \<open>What a call that got as far as its writes leaves: the row and the files between the two states.\<close>

definition tracked_end :: "'a lifecycle_lib_of \<Rightarrow> 'e bundle_env_scheme \<Rightarrow> string \<Rightarrow> recovery_file list \<Rightarrow> string list \<Rightarrow> page_world \<Rightarrow> bool" where
  "tracked_end L env dir rfs cl w' \<longleftrightarrow>
     (\<exists>h. be_random env = Some h \<and> write_row (pk_rec_enc L) (''src_'' @ h) (path_clean dir) rfs cl (pw_journal w'))"

lemma create_write_effect:
  assumes run: "create_bundle_write L env pg w inp slug dir d h cs = (w', out)" and fresh: "row_fresh env w"
    and dist: "distinct (map rf_path (created_transitions (pb_files d)))" "\<And>f. f \<in> set (pb_files d) \<Longrightarrow> path_clean (bf_path f) = bf_path f"
    and absent: "\<And>f. f \<in> set (pb_files d) \<Longrightarrow> gget (pw_files w) (bf_path f) = None"
  shows "pw_files w' = pw_files w \<and> pw_journal w' = pw_journal w \<or>
     tracked_end L env dir (created_transitions (pb_files d)) [] w' \<and>
     between (created_transitions (pb_files d)) (pw_files w) (pw_files w') \<and>
     ((\<exists>a. out = Done a) \<longrightarrow> list_all (at_after (pw_files w')) (created_transitions (pb_files d)))"
proof -
  let ?rfs = "created_transitions (pb_files d)"
  let ?revs = "by_lang (\<lambda>f. page_rev L (bf_content f)) False (pb_files d) []"
  obtain w1 r where lw: "lifecycle_write L env w dir ?rfs []
      (recoveryIdempotencyFor (be_ctx env) ''create_bundle'' (cb_key inp) h
         (lifecycle_seed L env ''create_bundle'' slug (bundle_langs (pb_files d)) ?revs))
      ''persistence_error: failed to record bundle create intent'' (create_files env pg (bundle_texts (pb_files d)) []) = (w1, r)"
    by fastforce
  from lw fresh show ?thesis
  proof (cases rule: lifecycle_write_cases)
    case (stopped e)
    then show ?thesis using run lw by (simp add: create_bundle_write_def Let_def)
  next
    case (tracked h' res)
    have "between ?rfs (pw_files w) (pw_files w1) \<and> (res = Wrote \<longrightarrow>
        (\<forall>(p, c) \<in> set (bundle_texts (pb_files d)). gget (pw_files w1) p = Some c) \<and>
        (\<forall>q. q \<notin> fst ` set (bundle_texts (pb_files d)) \<longrightarrow> gget (pw_files w1) q = gget (pw_files w) q))"
    proof (rule create_files_between [OF tracked(2) dist(1)])
      show "between ?rfs (pw_files w) (pw_files w)"
        by (rule between_start) (use absent dist(2) in \<open>auto simp: list_all_iff created_transitions_def recoveryFile_def at_before_def\<close>)
      show "distinct (map fst (bundle_texts (pb_files d)))"
        using dist by (simp add: bundle_texts_def created_transitions_def recoveryFile_def comp_def cong: map_cong)
    qed (use dist(2) in \<open>force simp: bundle_texts_def created_transitions_def recoveryFile_def\<close>)+
    then have b: "between ?rfs (pw_files w) (pw_files w1)" "res = Wrote \<Longrightarrow> list_all (at_after (pw_files w1)) ?rfs"
      using dist(2) by (auto simp: bundle_texts_def created_transitions_def recoveryFile_def list_all_iff at_after_def)
    show ?thesis
    proof (cases r)
      case (Done op)
      have o: "res = Wrote" "write_op (''src_'' @ h') (path_clean dir) ?rfs [] op" using tracked(5) Done by auto
      then have "pw_files w' = pw_files w1 \<and> write_row (pk_rec_enc L) (''src_'' @ h') (path_clean dir) ?rfs [] (pw_journal w')"
        using run lw Done tracked(4) by (auto simp: create_bundle_write_def Let_def dest!: page_close_row)
      then show ?thesis using b o tracked(1) by (auto simp: tracked_end_def)
    next
      case (Failed e)
      then have "w' = w1" "out = Failed e" using run lw by (auto simp: create_bundle_write_def Let_def)
      then show ?thesis using b tracked(1,4) by (auto simp: tracked_end_def)
    next
      case Died
      then have "w' = w1" "out = Died" using run lw by (auto simp: create_bundle_write_def Let_def)
      then show ?thesis using b tracked(1,4) by (auto simp: tracked_end_def)
    qed
  qed
qed

text \<open>
  C2. A new bundle appears whole or not at all, also when the process dies. However a \<open>create\_bundle\<close> call
  ended (with an answer, an error, an incomplete rollback, or killed between any two of its steps), if it carried an
  idempotency key or no page of the bundle appeared between its checks and its getting the content lock, and its
  journal row is still open, then a start-up that meets no error resolves it: every page of the bundle is then there
  with its text, or none is; no file differs otherwise from what the call found once it held the lock; and a call that
  had answered keeps its bundle. Texts and paths are valid UTF-8, since the journal row is JSON. (Without a key the
  checks are made before the lock and not repeated: a call that loses the race leaves a row that claims the other
  call's page was absent.)
\<close>

theorem create_bundle_crash_atomic:
  assumes run: "handleCreateBundle L marshal env pg cfg w inp = (w', out)" and fresh: "row_fresh env w"
    and dir: "SafeJoin (be_view env) pg (normalizeInputSlug (cb_slug inp)) = Inr dir"
    and pages: "prepare_bundle L marshal (be_now env) cfg (pw_index w) (cb_casing inp) dir [] (cb_pages inp) = Inr d"
    and race: "\<not> blank (cb_key inp) \<or> (\<forall>f \<in> set (pb_files d). gget (held_files env (cb_key inp) w) (bf_path f) = None)"
    and row: "pw_journal w' = Some t" "be_random env = Some h" "gget t (''src_'' @ h) = Some row"
      "rc_state row \<noteq> ''committed''"
    and codec: "row_codec (pk_rec_enc L) dec" and utf8: "row_utf8 dir (created_transitions (pb_files d))"
    and calm: "calm_restart renv dir (created_transitions (pb_files d))"
  shows "\<exists>fs landed changed.
           prepare_entry sha dec renv (row_entry (''src_'' @ h) row) (pw_files w') = (fs, Some landed, changed) \<and>
           (\<forall>f \<in> set (pb_files d). gget (held_files env (cb_key inp) w) (bf_path f) = None \<and>
              gget fs (bf_path f) = (if landed then Some (bf_content f) else None)) \<and>
           (\<forall>q. q \<notin> bf_path ` set (pb_files d) \<longrightarrow> gget fs q = gget (held_files env (cb_key inp) w) q) \<and>
           ((\<exists>a. out = Done a) \<longrightarrow> landed)"
proof -
  let ?rfs = "created_transitions (pb_files d)" and ?held = "held_files env (cb_key inp) w"
  have dd: "dir \<noteq> ''''" "path_clean dir = dir" using safe_join_dir [OF dir] by auto
  obtain langs where langs: "lang_paths dir langs (map bf_path (pb_files d))" "length langs = length (cb_pages inp)"
    using prepare_bundle_paths [OF pages] by blast
  have clean: "path_clean (bf_path f) = bf_path f" if "f \<in> set (pb_files d)" for f
    by (rule lang_paths_clean [OF langs(1) dd(1)]) (use that in simp)
  have paths: "map rf_path ?rfs = map bf_path (pb_files d)"
    using clean by (simp add: created_transitions_def recoveryFile_def)
  have dist: "distinct (map rf_path ?rfs)" using paths lang_paths_distinct [OF langs(1) dd(1)] by simp
  from run show ?thesis
  proof (cases rule: create_bundle_cases)
    case untouched
    then show ?thesis using fresh row(1-3) by (auto simp: row_fresh_def)
  next
    case (written w1 dir1 d1 h1 cs)
    then have same: "dir1 = dir" "d1 = d" using dir pages by simp_all
    have absent: "gget ?held (bf_path f) = None" if "f \<in> set (pb_files d)" for f
    proof -
      have "bundle_present env fs fls = None \<Longrightarrow> f \<in> set fls \<Longrightarrow> gget fs (bf_path f) = None" for fs fls
        by (induction fls) (auto split: if_splits)
      then have "gget (pw_files w) (bf_path f) = None" using written(6) same that by blast
      then show ?thesis using race held_keyed [of "cb_key inp" env w] that by auto
    qed
    have fresh1: "row_fresh env w1" using fresh written(2) by (simp add: row_fresh_def)
    have "pw_files w' = pw_files w1 \<and> pw_journal w' = pw_journal w1 \<or> tracked_end L env dir ?rfs [] w' \<and>
        between ?rfs (pw_files w1) (pw_files w') \<and> ((\<exists>a. out = Done a) \<longrightarrow> list_all (at_after (pw_files w')) ?rfs)"
      by (rule create_write_effect [OF written(7) [unfolded same] fresh1 dist clean]) (use absent written(1) in auto)
    moreover have "\<not> (pw_files w' = pw_files w1 \<and> pw_journal w' = pw_journal w1)"
      using fresh1 row(1-3) by (auto simp: row_fresh_def)
    ultimately have tr: "write_row (pk_rec_enc L) (''src_'' @ h) dir ?rfs [] (Some t)"
      "between ?rfs ?held (pw_files w')" "(\<exists>a. out = Done a) \<longrightarrow> list_all (at_after (pw_files w')) ?rfs"
      using row(1,2) dd(2) written(1) by (auto simp: tracked_end_def)
    have ne: "?rfs \<noteq> []" using langs written(4) by (auto simp: created_transitions_def lang_paths_def)
    have "\<exists>fs landed changed. prepare_entry sha dec renv (row_entry (''src_'' @ h) row) (pw_files w') = (fs, Some landed, changed) \<and>
        landed = (list_all (at_after (pw_files w')) ?rfs \<and> \<not> list_all (at_before (pw_files w')) ?rfs) \<and>
        (landed \<longrightarrow> fs = cleaned [] (pw_files w')) \<and>
        (\<not> landed \<longrightarrow> list_all (at_before fs) ?rfs \<and> (\<forall>q. q \<notin> rf_path ` set ?rfs \<longrightarrow> gget fs q = gget (pw_files w') q))"
      by (rule row_settles [OF tr(1) row(3,4) codec utf8 _ calm ne dist]) (use tr(2) in \<open>auto simp: between_def\<close>)
    then obtain fs landed changed where out: "prepare_entry sha dec renv (row_entry (''src_'' @ h) row) (pw_files w') = (fs, Some landed, changed)"
        "landed = (list_all (at_after (pw_files w')) ?rfs \<and> \<not> list_all (at_before (pw_files w')) ?rfs)"
        "landed \<longrightarrow> fs = pw_files w'"
        "\<not> landed \<longrightarrow> list_all (at_before fs) ?rfs \<and> (\<forall>q. q \<notin> rf_path ` set ?rfs \<longrightarrow> gget fs q = gget (pw_files w') q)"
      by (auto simp: cleaned_def)
    have at: "list_all (at_before g) ?rfs \<longleftrightarrow> (\<forall>f \<in> set (pb_files d). gget g (bf_path f) = None)"
      "list_all (at_after g) ?rfs \<longleftrightarrow> (\<forall>f \<in> set (pb_files d). gget g (bf_path f) = Some (bf_content f))" for g
      using clean by (auto simp: list_all_iff created_transitions_def recoveryFile_def at_before_def at_after_def)
    have img: "rf_path ` set ?rfs = bf_path ` set (pb_files d)" using paths by (metis image_set)
    have "gget fs (bf_path f) = (if landed then Some (bf_content f) else None)" if "f \<in> set (pb_files d)" for f
      using out(2-4) that unfolding at by auto
    moreover have "gget fs q = gget ?held q" if "q \<notin> bf_path ` set (pb_files d)" for q
      using out(3,4) tr(2) that unfolding between_def img by (cases landed) auto
    moreover have "(\<exists>a. out = Done a) \<longrightarrow> landed"
      using tr(3) out(2) ne unfolding at by (auto simp: created_transitions_def)
    ultimately show ?thesis using out(1) absent by blast
  qed
qed

lemma remaining_unselected:
  "bundleHasRemainingLangFiles (ls_less ls ps) dir = bundleHasUnselectedLangFiles ls dir ps"
  by (cases "ls dir") (auto simp: bundleHasRemainingLangFiles_def bundleHasUnselectedLangFiles_def ls_less_def lang_files_def
      list_ex_iff filter_empty_conv case_prod_unfold; force)+

definition all_chosen :: "'e bundle_env_scheme \<Rightarrow> string \<Rightarrow> doomed list \<Rightarrow> bool" where
  "all_chosen env dir ds \<longleftrightarrow> none_beside (be_ls env) dir (dm_path ` set ds)"

lemma all_chosen_code: "all_chosen env dir ds \<longleftrightarrow> \<not> bundleHasUnselectedLangFiles (be_ls env) dir (map dm_path ds)"
  by (simp add: all_chosen_def none_beside_code)

lemma finish_removal_files:
  assumes "finish_removal env w slug dir ds = (w', e)"
  shows "pw_journal w' = pw_journal w \<and> (gget (pw_files w') q = gget (pw_files w) q \<or>
     all_chosen env dir ds \<and> at_or_below dir q \<and> gget (pw_files w') q = None)"
proof -
  have sub: "gget (fst (remove_all st fs dir)) q = gget fs q \<or> at_or_below dir q \<and> gget (fst (remove_all st fs dir)) q = None"
    for st fs by (auto simp: remove_all_def at_or_below_def gget_keep_key split: option.splits)
  show ?thesis
    using assms sub [of "lx_tree env dir" "pw_files w"] unfolding finish_removal_def remaining_unselected all_chosen_code
    by (auto split: if_splits prod.splits bool.splits)
qed

text \<open>As \<open>between\<close>, but once every file is as after, files of the directory may be gone too.\<close>

definition between_or_gone :: "bool \<Rightarrow> string \<Rightarrow> recovery_file list \<Rightarrow> files \<Rightarrow> files \<Rightarrow> bool" where
  "between_or_gone full dir rfs fs fs' \<longleftrightarrow> list_all (\<lambda>f. at_before fs' f \<or> at_after fs' f) rfs \<and>
     (\<forall>q. q \<notin> rf_path ` set rfs \<longrightarrow> gget fs' q = gget fs q \<or>
        full \<and> list_all (at_after fs') rfs \<and> at_or_below dir q \<and> gget fs' q = None)"

lemma between_gone: "between rfs fs fs' \<Longrightarrow> between_or_gone full dir rfs fs fs'"
  by (simp add: between_def between_or_gone_def)

lemma delete_write_effect:
  assumes run: "delete_bundle_write L env pg w inp slug dir ds h cs = (w', out)" and fresh: "row_fresh env w"
    and dist: "distinct (map rf_path (removed_transitions ds))" "\<And>x. x \<in> set ds \<Longrightarrow> path_clean (dm_path x) = dm_path x"
    and present: "\<And>x. x \<in> set ds \<Longrightarrow> gget (pw_files w) (dm_path x) = Some (dm_content x)"
  shows "pw_files w' = pw_files w \<and> pw_journal w' = pw_journal w \<or>
     tracked_end L env dir (removed_transitions ds) (map path_clean (delete_bundle_cleanup env dir ds)) w' \<and>
     between_or_gone (all_chosen env dir ds) dir (removed_transitions ds) (pw_files w) (pw_files w') \<and>
     ((\<exists>a. out = Done a) \<longrightarrow> list_all (at_after (pw_files w')) (removed_transitions ds))"
proof -
  let ?rfs = "removed_transitions ds" and ?full = "all_chosen env dir ds"
  let ?cl = "delete_bundle_cleanup env dir ds"
  obtain w1 r where lw: "lifecycle_write L env w dir ?rfs ?cl
      (recoveryIdempotencyFor (be_ctx env) ''delete_bundle'' (db_key inp) h
         (lifecycle_seed L env ''delete_bundle'' slug (map dm_lang ds) (doomed_revisions ds)))
      ''persistence_error: failed to record bundle delete intent'' (remove_files env pg ds []) = (w1, r)"
    by fastforce
  from lw fresh show ?thesis
  proof (cases rule: lifecycle_write_cases)
    case (stopped e)
    then show ?thesis using run lw by (simp add: delete_bundle_write_def Let_def)
  next
    case (tracked h' res)
    have "between ?rfs (pw_files w) (pw_files w1) \<and> (res = Wrote \<longrightarrow>
        (\<forall>x \<in> set ds. gget (pw_files w1) (dm_path x) = None) \<and>
        (\<forall>q. gget (pw_files w) q = None \<longrightarrow> gget (pw_files w1) q = None))"
    proof (rule remove_files_between [OF tracked(2) dist(1)])
      show "between ?rfs (pw_files w) (pw_files w)"
        by (rule between_start) (use present dist(2) in \<open>auto simp: list_all_iff removed_transitions_def recoveryFile_def at_before_def\<close>)
    qed (use dist(2) in \<open>force simp: removed_transitions_def recoveryFile_def\<close>)
    then have b: "between ?rfs (pw_files w) (pw_files w1)" "res = Wrote \<Longrightarrow> list_all (at_after (pw_files w1)) ?rfs"
      using dist(2) by (auto simp: removed_transitions_def recoveryFile_def list_all_iff at_after_def)
    show ?thesis
    proof (cases r)
      case (Done op)
      have o: "res = Wrote" "write_op (''src_'' @ h') (path_clean dir) ?rfs (map path_clean ?cl) op" using tracked(5) Done by auto
      obtain w2 e where fin: "finish_removal env w1 slug dir ds = (w2, e)" by fastforce
      note gone = finish_removal_files [OF fin]
      have aft: "list_all (at_after (pw_files w2)) ?rfs"
      proof (unfold list_all_iff, intro ballI)
        fix f assume "f \<in> set ?rfs"
        moreover from this have "rf_after f = None" "at_after (pw_files w1) f"
          using b(2) [OF o(1)] by (auto simp: removed_transitions_def recoveryFile_def list_all_iff)
        ultimately show "at_after (pw_files w2) f"
          using finish_removal_files [OF fin, of "rf_path f"] by (auto simp: at_after_def)
      qed
      then have "list_all (\<lambda>f. at_before (pw_files w2) f \<or> at_after (pw_files w2) f) ?rfs" by (auto simp: list_all_iff)
      then have bg: "between_or_gone ?full dir ?rfs (pw_files w) (pw_files w2)"
        using gone b(1) aft unfolding between_def between_or_gone_def by metis
      have row: "write_row (pk_rec_enc L) (''src_'' @ h') (path_clean dir) ?rfs (map path_clean ?cl) (pw_journal w2)"
        using tracked(4) gone by simp
      have "pw_files w' = pw_files w2 \<and> write_row (pk_rec_enc L) (''src_'' @ h') (path_clean dir) ?rfs (map path_clean ?cl) (pw_journal w')"
        using run lw Done fin row page_close_row [OF _ o(2) row]
        by (cases e) (simp_all add: delete_bundle_write_def Let_def)
      then show ?thesis using bg aft tracked(1) by (auto simp: tracked_end_def)
    next
      case (Failed e)
      then have "w' = w1" "out = Failed e" using run lw by (auto simp: delete_bundle_write_def Let_def)
      then show ?thesis using between_gone [OF b(1)] tracked(1,4) by (auto simp: tracked_end_def)
    next
      case Died
      then have "w' = w1" "out = Died" using run lw by (auto simp: delete_bundle_write_def Let_def)
      then show ?thesis using between_gone [OF b(1)] tracked(1,4) by (auto simp: tracked_end_def)
    qed
  qed
qed

text \<open>
  C3. A bundle, or the chosen part of it, is deleted whole or not at all, also when the process dies. However a
  \<open>delete\_bundle\<close> call ended, whatever other calls did before it held the lock, if its journal row is still open, then
  a start-up that meets no error resolves it: compared with the files it found once it held the lock, either exactly
  the chosen translations are gone, or every file is as it was; and a call that had answered keeps its deletion. With the
  translations goes all that lies in the directory, when its listing showed no language file besides them or when it
  could not be listed. Texts and paths are valid UTF-8, since the journal row is JSON; the revisions of the chosen texts
  do not collide with those of other texts.
\<close>

theorem delete_bundle_crash_atomic:
  assumes run: "handleDeleteBundle L env pg cfg w inp = (w', out)" and fresh: "row_fresh env w"
    and dir: "SafeJoin (be_view env) pg (normalizeInputSlug (db_slug inp)) = Inr dir"
    and chosen: "choose_doomed L env (pw_files w) dir (case db_expected inp of None \<Rightarrow> [] | Some m \<Rightarrow> m) [] (db_languages inp) = Inr ds"
    and sha: "\<forall>x \<in> set ds. \<forall>c. gget (held_files env (db_key inp) w) (dm_path x) = Some c \<and>
      page_rev L c = page_rev L (dm_content x) \<longrightarrow> c = dm_content x"
    and row: "pw_journal w' = Some t" "be_random env = Some h" "gget t (''src_'' @ h) = Some row"
      "rc_state row \<noteq> ''committed''"
    and codec: "row_codec (pk_rec_enc L) dec" and utf8: "row_utf8 dir (removed_transitions ds)"
    and calm: "calm_restart renv dir (removed_transitions ds)" "recoveryPathAllowed (rv_content_root renv) dir"
      "recoveryPathAllowed dir dir" "rv_stuck_tree renv dir = None"
  shows "\<exists>fs landed changed.
           prepare_entry sha dec renv (row_entry (''src_'' @ h) row) (pw_files w') = (fs, Some landed, changed) \<and>
           (\<forall>q. gget fs q = (if landed \<and> (q \<in> dm_path ` set ds \<or> all_chosen env dir ds \<and> at_or_below dir q)
              then None else gget (held_files env (db_key inp) w) q)) \<and>
           ((\<exists>a. out = Done a) \<longrightarrow> landed)"
proof -
  let ?rfs = "removed_transitions ds" and ?full = "all_chosen env dir ds"
  let ?cl = "map path_clean (delete_bundle_cleanup env dir ds)"
  have dd: "dir \<noteq> ''''" "path_clean dir = dir" using safe_join_dir [OF dir] by auto
  have cl: "?cl = (if ?full then [dir] else [])" by (simp add: delete_bundle_cleanup_def all_chosen_code dd)
  obtain langs where langs: "lang_paths dir langs (map dm_path ds)" "length langs = length (db_languages inp)"
    "\<forall>x \<in> set ds. dm_rev x = page_rev L (dm_content x)"
    using choose_doomed_spec [OF chosen] by blast
  let ?held = "held_files env (db_key inp) w"
  have clean: "path_clean (dm_path x) = dm_path x" if "x \<in> set ds" for x
    by (rule lang_paths_clean [OF langs(1) dd(1)]) (use that in simp)
  have paths: "map rf_path ?rfs = map dm_path ds"
    using clean by (simp add: removed_transitions_def recoveryFile_def)
  have dist: "distinct (map rf_path ?rfs)" using paths lang_paths_distinct [OF langs(1) dd(1)] by simp
  from run show ?thesis
  proof (cases rule: delete_bundle_cases)
    case untouched
    then show ?thesis using fresh row(1-3) by (auto simp: row_fresh_def)
  next
    case (written w1 dir1 ds1 h1 cs)
    then have same: "dir1 = dir" "ds1 = ds" using dir chosen by simp_all
    have present: "gget ?held (dm_path x) = Some (dm_content x)" if "x \<in> set ds" for x
      using written(3) that langs(3) sha unfolding still_chosen_def same list_all_iff
      by (fastforce simp: read_page_def split: option.splits if_splits)
    have fresh1: "row_fresh env w1" using fresh written(2) by (simp add: row_fresh_def)
    have "pw_files w' = pw_files w1 \<and> pw_journal w' = pw_journal w1 \<or> tracked_end L env dir ?rfs ?cl w' \<and>
        between_or_gone ?full dir ?rfs (pw_files w1) (pw_files w') \<and>
        ((\<exists>a. out = Done a) \<longrightarrow> list_all (at_after (pw_files w')) ?rfs)"
      by (rule delete_write_effect [OF written(7) [unfolded same] fresh1 dist clean]) (use present written(1) in auto)
    moreover have "\<not> (pw_files w' = pw_files w1 \<and> pw_journal w' = pw_journal w1)"
      using fresh1 row(1-3) by (auto simp: row_fresh_def)
    ultimately have tr: "write_row (pk_rec_enc L) (''src_'' @ h) dir ?rfs ?cl (Some t)"
      "between_or_gone ?full dir ?rfs ?held (pw_files w')" "(\<exists>a. out = Done a) \<longrightarrow> list_all (at_after (pw_files w')) ?rfs"
      using row(1,2) dd(2) written(1) by (auto simp: tracked_end_def)
    have ne: "?rfs \<noteq> []" using langs written(5) by (auto simp: removed_transitions_def lang_paths_def)
    have "\<exists>fs landed changed. prepare_entry sha dec renv (row_entry (''src_'' @ h) row) (pw_files w') = (fs, Some landed, changed) \<and>
        landed = (list_all (at_after (pw_files w')) ?rfs \<and> \<not> list_all (at_before (pw_files w')) ?rfs) \<and>
        (landed \<longrightarrow> fs = cleaned ?cl (pw_files w')) \<and>
        (\<not> landed \<longrightarrow> list_all (at_before fs) ?rfs \<and> (\<forall>q. q \<notin> rf_path ` set ?rfs \<longrightarrow> gget fs q = gget (pw_files w') q))"
      by (rule row_settles [OF tr(1) row(3,4) codec utf8 _ calm(1) ne dist])
         (use tr(2) calm(2-) cl utf8 in \<open>auto simp: between_or_gone_def row_utf8_def split: if_splits\<close>)
    then obtain fs landed changed where out: "prepare_entry sha dec renv (row_entry (''src_'' @ h) row) (pw_files w') = (fs, Some landed, changed)"
        "landed = (list_all (at_after (pw_files w')) ?rfs \<and> \<not> list_all (at_before (pw_files w')) ?rfs)"
        "landed \<longrightarrow> fs = cleaned ?cl (pw_files w')"
        "\<not> landed \<longrightarrow> list_all (at_before fs) ?rfs \<and> (\<forall>q. q \<notin> rf_path ` set ?rfs \<longrightarrow> gget fs q = gget (pw_files w') q)"
      by blast
    have at: "list_all (at_before g) ?rfs \<longleftrightarrow> (\<forall>x \<in> set ds. gget g (dm_path x) = Some (dm_content x))"
      "list_all (at_after g) ?rfs \<longleftrightarrow> (\<forall>x \<in> set ds. gget g (dm_path x) = None)" for g
      using clean by (auto simp: list_all_iff removed_transitions_def recoveryFile_def at_before_def at_after_def)
    have img: "rf_path ` set ?rfs = dm_path ` set ds" using paths by (metis image_set)
    have dne: "ds \<noteq> []" using ne by (simp add: removed_transitions_def)
    have swept: "gget (cleaned ?cl g) q = (if ?full \<and> at_or_below dir q then None else gget g q)" for g q
      unfolding cl by (auto simp: cleaned_def remove_all_def at_or_below_def gget_keep_key)
    have "gget fs q = (if landed \<and> (q \<in> dm_path ` set ds \<or> ?full \<and> at_or_below dir q) then None else gget ?held q)" for q
    proof (cases landed)
      case True
      then have "gget (pw_files w') q = None" if "q \<in> dm_path ` set ds" using that out(2) unfolding at by auto
      then show ?thesis
        using True out(3) tr(2) unfolding between_or_gone_def img by (auto simp: swept)
    next
      case False
      have notall: "\<not> list_all (at_after (pw_files w')) ?rfs"
        using False out(2) dne unfolding at by (cases ds) auto
      then show ?thesis
        using False out(4) tr(2) present unfolding between_or_gone_def img at by (cases "q \<in> dm_path ` set ds") auto
    qed
    moreover have "(\<exists>a. out = Done a) \<longrightarrow> landed"
      using tr(3) out(2) dne unfolding at by (cases ds) auto
    ultimately show ?thesis using out(1) by blast
  qed
qed

section \<open>Two crashes\<close>

definition sample_new_page :: "string \<Rightarrow> bundle_page_input" where
  "sample_new_page lang = \<lparr>bg_lang = lang, bg_title = ''n'', bg_body = '''', bg_tags = None, bg_categories = None,
     bg_draft = None, bg_description = None, bg_image = None, bg_test = None\<rparr>"

definition sample_bundle :: create_bundle_input where
  "sample_bundle = \<lparr>cb_slug = ''q'', cb_pages = [sample_new_page '''', sample_new_page ''fr''], cb_dry = False, cb_key = '''',
     cb_cs = '''', cb_casing = False\<rparr>"

definition sample_bundle_config :: create_config where
  "sample_bundle_config = sample_create_config\<lparr>cc_languages := [''en'', ''fr'']\<rparr>"

definition sample_bundle_text :: string where
  "sample_bundle_text = fm_open @ ''title: n'' @ [CHR 0x0A] @ ''---''"

definition sample_new_file :: "string \<Rightarrow> string \<Rightarrow> bundle_file" where
  "sample_new_file lang p = \<lparr>bf_path = p, bf_content = sample_bundle_text, bf_expires = '''', bf_page = sample_new_page lang\<rparr>"

definition sample_new_files :: "bundle_file list" where
  "sample_new_files = [sample_new_file '''' ''/c/q/index.md'', sample_new_file ''fr'' ''/c/q/index.fr.md'']"

definition sample_doomed :: "doomed list" where
  "sample_doomed = [\<lparr>dm_lang = '''', dm_path = ''/c/q/index.md'', dm_content = ''a'', dm_rev = ''sha256:a''\<rparr>,
     \<lparr>dm_lang = ''fr'', dm_path = ''/c/q/index.fr.md'', dm_content = ''b'', dm_rev = ''sha256:b''\<rparr>]"

definition sample_deletion :: delete_bundle_input where
  "sample_deletion = \<lparr>db_slug = ''q'', db_languages = ['''', ''fr''],
     db_expected = Some [('''', ''sha256:a''), (''fr'', ''sha256:b'')], db_dry = False, db_key = '''', db_cs = ''''\<rparr>"

text \<open>The coder knows the one payload of each call; a row coded as the letter P is that payload.\<close>

definition sample_lifecycle_lib :: "recovery_payload \<Rightarrow> unit lifecycle_lib_of" where
  "sample_lifecycle_lib payload = \<lparr>pk_sha = (\<lambda>s. s), pk_yaml = sample_yaml, pk_yaml_any = (\<lambda>s. True),
     pk_yaml_doc = (\<lambda>s. Some (False, False)), pk_plan_enc = (\<lambda>e. None), pk_plan_dec = (\<lambda>s. None),
     pk_snap_enc = (\<lambda>e. None), pk_snap_dec = (\<lambda>s. None), pk_rec_enc = (\<lambda>r. if r = payload then Some ''P'' else None),
     pk_out_enc = (\<lambda>a. None), pk_out_dec = (\<lambda>s. None), pk_request_hash = (\<lambda>r. None), pk_marshal = (\<lambda>j. ''''),
     pk_meta = JNull, pk_page = pk_page sample_coders, pk_case = pk_case sample_coders\<rparr>"

definition sample_lifecycle_dec :: "recovery_payload \<Rightarrow> string \<Rightarrow> server_payload option" where
  "sample_lifecycle_dec payload raw = (if raw = ''P'' then Some (server_view payload) else None)"

definition sample_created :: recovery_payload where
  "sample_created = BundleWrite \<lparr>br_dir = ''/c/q'', br_files = created_transitions sample_new_files, br_idem = None, br_cleanup = []\<rparr>"

definition sample_deleted :: recovery_payload where
  "sample_deleted = BundleWrite \<lparr>br_dir = ''/c/q'', br_files = removed_transitions sample_doomed, br_idem = None,
     br_cleanup = [''/c/q'']\<rparr>"

text \<open>The process dies before the second file.\<close>

definition sample_lifecycle_env :: lifecycle_env where
  "sample_lifecycle_env = (page_env.extend sample_page_env
       \<lparr>lx_stat_fails = (\<lambda>p. False), lx_stuck = (\<lambda>p. False), lx_tree = (\<lambda>p. None), lx_raced = None\<rparr>)
     \<lparr>be_dies := (\<lambda>c. c = BeforeWrite ''/c/q/index.fr.md''), be_random := Some ''1'',
      be_ls := (\<lambda>d. Some [(''index.fr.md'', False), (''index.md'', False)])\<rparr>"

definition sample_lifecycle_site :: "files \<Rightarrow> page_world" where
  "sample_lifecycle_site fs = sample_site\<lparr>pw_files := fs, pw_journal := Some []\<rparr>"

definition sample_removal_files :: files where
  "sample_removal_files = [(''/c/q/index.md'', ''a''), (''/c/q/index.fr.md'', ''b'')]"

definition sample_deletion_end :: "page_world \<times> lifecycle_answer outcome" where
  "sample_deletion_end = handleDeleteBundle (sample_lifecycle_lib sample_deleted) sample_lifecycle_env sample_guard
     sample_bundle_config (sample_lifecycle_site sample_removal_files) sample_deletion"

lemma sample_codec:
  "row_codec (pk_rec_enc (sample_lifecycle_lib payload)) (sample_lifecycle_dec payload)"
  by (auto simp: row_codec_def sample_lifecycle_lib_def sample_lifecycle_dec_def server_view_def split: if_splits)

lemma sample_row_fresh: "row_fresh sample_lifecycle_env (sample_lifecycle_site fs)"
  by (simp add: row_fresh_def sample_lifecycle_site_def)

lemma delete_bundle_crash_atomic_witness:
  "\<exists>fs landed changed. prepare_entry (\<lambda>s. s) (sample_lifecycle_dec sample_deleted) sample_restart
       (row_entry ''src_1'' sample_row) (pw_files (fst sample_deletion_end)) = (fs, Some landed, changed) \<and>
     gget (pw_files (fst sample_deletion_end)) ''/c/q/index.md'' = None \<and>
     gget fs ''/c/q/index.md'' = (if landed then None else Some ''a'')"
proof -
  have run: "handleDeleteBundle (sample_lifecycle_lib sample_deleted) sample_lifecycle_env sample_guard
     sample_bundle_config (sample_lifecycle_site sample_removal_files) sample_deletion =
     (fst sample_deletion_end, snd sample_deletion_end)" by (simp add: sample_deletion_end_def)
  have dir: "SafeJoin (be_view sample_lifecycle_env) sample_guard (normalizeInputSlug (db_slug sample_deletion)) = Inr ''/c/q''"
    by code_simp
  have held: "held_files sample_lifecycle_env (db_key sample_deletion) (sample_lifecycle_site sample_removal_files) = sample_removal_files"
    by code_simp
  have sha: "\<forall>x \<in> set sample_doomed. \<forall>c. gget (held_files sample_lifecycle_env (db_key sample_deletion)
        (sample_lifecycle_site sample_removal_files)) (dm_path x) = Some c \<and>
      page_rev (sample_lifecycle_lib sample_deleted) c = page_rev (sample_lifecycle_lib sample_deleted) (dm_content x) \<longrightarrow> c = dm_content x"
    unfolding held by (simp add: sample_doomed_def sample_removal_files_def)
  have chosen: "choose_doomed (sample_lifecycle_lib sample_deleted) sample_lifecycle_env
      (pw_files (sample_lifecycle_site sample_removal_files)) ''/c/q''
      (case db_expected sample_deletion of None \<Rightarrow> [] | Some m \<Rightarrow> m) [] (db_languages sample_deletion) = Inr sample_doomed"
    by code_simp
  have j: "pw_journal (fst sample_deletion_end) = Some [(''src_1'', sample_row)]" by code_simp
  have calm: "calm_restart sample_restart ''/c/q'' (removed_transitions sample_doomed)"
    "recoveryPathAllowed (rv_content_root sample_restart) ''/c/q''" "recoveryPathAllowed ''/c/q'' ''/c/q''"
    "rv_stuck_tree sample_restart ''/c/q'' = None" by code_simp+
  have rnd: "be_random sample_lifecycle_env = Some ''1''" "rc_state sample_row \<noteq> ''committed''"
    "gget [(''src_1'', sample_row)] (''src_'' @ ''1'') = Some sample_row"
    by (simp_all add: sample_lifecycle_env_def sample_row_def)
  have died: "gget (pw_files (fst sample_deletion_end)) ''/c/q/index.md'' = None" by code_simp
  have utf8: "row_utf8 ''/c/q'' (removed_transitions sample_doomed)" by code_simp
  show ?thesis
    using delete_bundle_crash_atomic [OF run sample_row_fresh dir chosen sha j rnd(1) rnd(3,2) sample_codec utf8 calm,
        where sha = "\<lambda>s. s"] died
    unfolding held by (fastforce simp: sample_doomed_def sample_removal_files_def)
qed

definition sample_creation_end :: "page_world \<times> lifecycle_answer outcome" where
  "sample_creation_end = handleCreateBundle (sample_lifecycle_lib sample_created) sample_marshal sample_lifecycle_env sample_guard
     sample_bundle_config (sample_lifecycle_site []) sample_bundle"

lemma sample_page_fault: "bundle_page_fault sample_bundle_config (sample_new_page l0) lang = rejectUnconfiguredLang lang [''en'', ''fr''] ''en''"
proof -
  have r: "runes ''n'' = [110]" by code_simp
  have "rejectUnsafeText ''n'' = None"
    unfolding rejectUnsafeText_def r by (simp add: rune_fault_def isBidiControlRune_def emojiTagBase_def in_tag_block_def)
  then have "validateTitleFormat ''n'' = None" by (simp add: validateTitleFormat_def maxTitleRunes_def r del: runes.simps)
  moreover have "rejectUnsafeText '''' = None" by (simp add: rejectUnsafeText_def)
  then have "validateBodyFormat '''' [] = None" by (simp add: validateBodyFormat_def rejectDangerousShortcodes_def)
  ultimately show ?thesis
    by (cases "rejectUnconfiguredLang lang [''en'', ''fr''] ''en''") (simp_all add: bundle_page_fault_def sample_new_page_def
      sample_bundle_config_def sample_create_config_def nil_list_def validateTaxonomyTerms_def test_content_fault_def)
qed

lemma sample_upd:
  "bg_tags (sample_new_page lang) = None" "bg_categories (sample_new_page lang) = None"
  "(sample_new_page lang)\<lparr>bg_tags := None, bg_categories := None\<rparr> = sample_new_page lang"
  "(sample_new_page lang)\<lparr>bg_lang := lang\<rparr> = sample_new_page lang"
  by (simp_all add: sample_new_page_def)

lemma sample_prepared:
  assumes "rejectUnconfiguredLang lang [''en'', ''fr''] ''en'' = None" "bundleLangFile ''/c/q'' lang = Inr p"
  shows "prepare_bundle_page (sample_lifecycle_lib payload) sample_marshal 1 sample_bundle_config idx False ''/c/q''
      (sample_new_page lang) lang = Inr (sample_new_file lang p, [], [])"
proof -
  have built: "fst (buildBundleFrontmatter (pk_page (sample_lifecycle_lib payload)) sample_marshal 1 (sample_new_page lang)) = sample_bundle_text"
    "snd (buildBundleFrontmatter (pk_page (sample_lifecycle_lib payload)) sample_marshal 1 (sample_new_page lang)) = ''''"
    by (simp_all add: buildBundleFrontmatter_def buildFrontmatterWithOptions_def sample_new_page_def sample_bundle_text_def
        sample_marshal_def Let_def)
  have "validateFrontmatterRoundTrip (\<lambda>s. True) (\<lambda>s. Some (False, False)) sample_bundle_text = None" by code_simp
  then have "round_trip_fault (sample_lifecycle_lib payload) sample_bundle_text = None"
    by (simp add: round_trip_fault_def sample_lifecycle_lib_def)
  then show ?thesis
    unfolding prepare_bundle_page_def sample_page_fault assms(1) Let_def
    using assms(2) built by (simp add: sample_upd sample_new_file_def)
qed

lemma create_bundle_crash_atomic_witness:
  "\<exists>fs landed changed. prepare_entry (\<lambda>s. s) (sample_lifecycle_dec sample_created) sample_restart
       (row_entry ''src_1'' sample_row) (pw_files (fst sample_creation_end)) = (fs, Some landed, changed) \<and>
     gget (pw_files (fst sample_creation_end)) ''/c/q/index.md'' = Some sample_bundle_text \<and>
     gget fs ''/c/q/index.md'' = (if landed then Some sample_bundle_text else None)"
proof -
  let ?L = "sample_lifecycle_lib sample_created" and ?w = "sample_lifecycle_site []"
  let ?d = "\<lparr>pb_files = sample_new_files, pb_normalized = [], pb_ambiguous = []\<rparr>"
  have run: "handleCreateBundle ?L sample_marshal sample_lifecycle_env sample_guard sample_bundle_config ?w sample_bundle =
     (fst sample_creation_end, snd sample_creation_end)" by (simp add: sample_creation_end_def)
  have slug: "normalizeInputSlug (cb_slug sample_bundle) = ''q''" by code_simp
  have dir: "SafeJoin (be_view sample_lifecycle_env) sample_guard ''q'' = Inr ''/c/q''" by code_simp
  have held: "held_files sample_lifecycle_env (cb_key sample_bundle) ?w = []" by code_simp
  then have race: "\<not> blank (cb_key sample_bundle) \<or>
      (\<forall>f \<in> set (pb_files ?d). gget (held_files sample_lifecycle_env (cb_key sample_bundle) ?w) (bf_path f) = None)" by simp
  have langs: "validateLangParam '''' = Inr ''''" "validateLangParam ''fr'' = Inr ''fr''"
    "rejectUnconfiguredLang '''' [''en'', ''fr''] ''en'' = None" "rejectUnconfiguredLang ''fr'' [''en'', ''fr''] ''en'' = None"
    "bundleLangFile ''/c/q'' '''' = Inr ''/c/q/index.md''" "bundleLangFile ''/c/q'' ''fr'' = Inr ''/c/q/index.fr.md''" by code_simp+
  have now: "be_now sample_lifecycle_env = 1" "cb_casing sample_bundle = False" by code_simp+
  have pages: "prepare_bundle ?L sample_marshal (be_now sample_lifecycle_env) sample_bundle_config (pw_index ?w)
      (cb_casing sample_bundle) ''/c/q'' [] (cb_pages sample_bundle) = Inr ?d"
    using langs sample_prepared [OF langs(3,5), of sample_created "pw_index ?w"]
      sample_prepared [OF langs(4,6), of sample_created "pw_index ?w"] now
    by (simp add: sample_bundle_def sample_new_files_def) (simp add: sample_new_page_def)
  have res: "Resolve (be_cs_read_fails sample_lifecycle_env) (be_cs_touch_fails sample_lifecycle_env)
      (be_ctx sample_lifecycle_env) (pw_sets ?w) (cb_cs sample_bundle) 1 = (pw_sets ?w, Inr ''default:t'')" by code_simp
  have checks: "validateIdempotencyKey (cb_key sample_bundle) = None" "validateSlugFormat ''q'' = None"
    "reservedSlugConflict ''q'' = None" "cb_pages sample_bundle \<noteq> []" "\<not> cb_dry sample_bundle"
    "\<not> bc_force_dry_run sample_bundle_config" by code_simp+
  have eval: "sample_creation_end = create_bundle_run ?L sample_lifecycle_env sample_guard ?w sample_bundle ''q'' ''/c/q'' ?d True
      ''default:t''"
    unfolding sample_creation_end_def handleCreateBundle_def Let_def slug
    using pages res checks dir now by simp
  have j: "pw_journal (fst sample_creation_end) = Some [(''src_1'', sample_row)]" unfolding eval by code_simp
  have died: "gget (pw_files (fst sample_creation_end)) ''/c/q/index.md'' = Some sample_bundle_text" unfolding eval by code_simp
  have calm: "calm_restart sample_restart ''/c/q'' (created_transitions (pb_files ?d))" by code_simp
  have utf8: "row_utf8 ''/c/q'' (created_transitions (pb_files ?d))" by code_simp
  have rnd: "be_random sample_lifecycle_env = Some ''1''" "rc_state sample_row \<noteq> ''committed''"
    "gget [(''src_1'', sample_row)] (''src_'' @ ''1'') = Some sample_row"
    by (simp_all add: sample_lifecycle_env_def sample_row_def)
  have dir': "SafeJoin (be_view sample_lifecycle_env) sample_guard (normalizeInputSlug (cb_slug sample_bundle)) = Inr ''/c/q''"
    using dir slug by simp
  obtain fs landed changed where out: "prepare_entry (\<lambda>s. s) (sample_lifecycle_dec sample_created) sample_restart
       (row_entry (''src_'' @ ''1'') sample_row) (pw_files (fst sample_creation_end)) = (fs, Some landed, changed)"
     "\<forall>f \<in> set (pb_files ?d). gget (held_files sample_lifecycle_env (cb_key sample_bundle) ?w) (bf_path f) = None \<and>
        gget fs (bf_path f) = (if landed then Some (bf_content f) else None)"
    using create_bundle_crash_atomic [OF run sample_row_fresh dir' pages race j rnd(1) rnd(3,2) sample_codec utf8 calm,
        where sha = "\<lambda>s. s"] by (elim exE conjE) (rule that)
  have "gget fs ''/c/q/index.md'' = (if landed then Some sample_bundle_text else None)"
    using out(2) by (simp add: sample_new_files_def sample_new_file_def)
  then show ?thesis using out(1) died by auto
qed

end
