(* ===== verification/PublicSite.thy ===== *)
theory PublicSite
  imports SourceIndex
begin

text \<open>
  The index of the built site (\<open>internal/site/index.go\<close>, \<open>types.go\<close>, \<open>classifier.go\<close>): slugs of rendered
  files, what a page's document says of itself, the walk that builds the index, its updates and lookups, the
  classifier of pages and the search. Parsing and rendering of documents (package \<open>golang.org/x/net/html\<close>),
  Unicode case tables, percent decoding, time formats and the tree walk are parameters.
\<close>

section \<open>Slugs of rendered pages\<close>

text \<open>\<open>strings.ReplaceAll(raw, "//", "/")\<close>.\<close>

fun squeeze :: "string \<Rightarrow> string" where
  "squeeze [] = []"
| "squeeze [c] = [c]"
| "squeeze (c # d # s) = (if c = CHR ''/'' \<and> d = CHR ''/'' then CHR ''/'' # squeeze s else c # squeeze (d # s))"

definition pathClean :: "string \<Rightarrow> string" where
  "pathClean raw0 =
     (if raw0 = '''' then ''/''
      else (let raw1 = squeeze raw0;
                raw = (if has_prefix ''/'' raw1 then raw1 else ''/'' @ raw1);
                clean = path_clean raw
            in if clean = ''.'' then ''/'' else clean))"

definition public_normalizeSlug :: "string \<Rightarrow> string" where
  "public_normalizeSlug raw =
     (if raw = '''' then ''/''
      else (let c0 = pathClean raw
            in if c0 = ''.'' then ''/''
               else (let c1 = (if has_prefix ''/'' c0 then c0 else ''/'' @ c0);
                         c2 = (if has_suffix ''/index'' c1 then trim_suffix ''index'' c1 else c1);
                         c3 = (if has_suffix ''/index/'' c2 then trim_suffix ''index/'' c2 else c2)
                     in if c3 \<noteq> ''/'' \<and> \<not> has_suffix ''/'' c3 then c3 @ ''/'' else c3)))"

definition go_ext :: "string \<Rightarrow> string" where
  "go_ext p =
     (let base = last (split_on CHR ''/'' p); parts = split_on CHR ''.'' base
      in if length parts \<le> 1 then '''' else ''.'' @ last parts)"

definition slugFromRel :: "string \<Rightarrow> string" where
  "slugFromRel rel =
     (if rel = ''index.html'' then ''/''
      else if has_suffix ''/index.html'' rel then public_normalizeSlug (''/'' @ trim_suffix ''/index.html'' rel)
      else if has_suffix ''.html'' rel then public_normalizeSlug (''/'' @ trim_suffix ''.html'' rel)
      else public_normalizeSlug (''/'' @ trim_suffix (go_ext rel) rel))"

text \<open>The text after the first occurrence of a pattern.\<close>

fun after_sub :: "string \<Rightarrow> string \<Rightarrow> string option" where
  "after_sub p [] = (if p = [] then Some [] else None)"
| "after_sub p (c # s) = (if has_prefix p (c # s) then Some (drop (length p) (c # s)) else after_sub p s)"

definition slugFromCanonical :: "(string \<Rightarrow> string option) \<Rightarrow> string \<Rightarrow> string" where
  "slugFromCanonical unescape raw0 =
     (let raw = trim_space raw0
      in if raw = '''' then ''''
         else (let raw1 = (case after_sub ''://'' raw of
                              None \<Rightarrow> raw
                            | Some rest \<Rightarrow> (let path = dropWhile (\<lambda>c. c \<noteq> CHR ''/'') rest
                                            in if path = '''' then ''/'' else path));
                   raw2 = (if has_prefix ''/'' raw1 then raw1 else ''/'' @ raw1)
               in public_normalizeSlug (case unescape raw2 of Some d \<Rightarrow> d | None \<Rightarrow> raw2)))"

definition isHTMLFile :: "string \<Rightarrow> bool" where
  "isHTMLFile name \<longleftrightarrow> to_lower (go_ext name) = ''.html'' \<or> to_lower (go_ext name) = ''.htm''"

definition isHiddenPath :: "string \<Rightarrow> bool" where
  "isHiddenPath rel \<longleftrightarrow> rel \<noteq> '''' \<and> list_ex (has_prefix ''.'') (split_on CHR ''/'' rel)"

definition joinURL :: "string \<Rightarrow> string \<Rightarrow> string" where
  "joinURL siteURL0 slug0 =
     (let siteURL = strip_slashes (trim_space siteURL0); slug = trim_space slug0
      in if siteURL = '''' then slug
         else if slug = '''' \<or> slug = ''/'' then siteURL @ ''/''
         else siteURL @ public_normalizeSlug slug)"

section \<open>Languages and other texts of a page\<close>

definition primaryLangSubtag :: "(string \<Rightarrow> string) \<Rightarrow> string \<Rightarrow> string" where
  "primaryLangSubtag lower lang0 =
     (let lang = trim_space lang0; stem = takeWhile (\<lambda>c. c \<noteq> CHR ''-'' \<and> c \<noteq> CHR ''_'') lang
      in if lang = '''' then '''' else lower (if stem = '''' then lang else stem))"

definition collapseToDefaultLangSubtag ::
    "(string \<Rightarrow> string) \<Rightarrow> (string \<Rightarrow> string \<Rightarrow> bool) \<Rightarrow> string \<Rightarrow> string \<Rightarrow> string" where
  "collapseToDefaultLangSubtag lower eq lang0 defaultLang =
     (let lang = trim_space lang0
      in if lang = '''' \<or> eq lang defaultLang then lang
         else (let primary = primaryLangSubtag lower lang
               in if primary \<noteq> '''' \<and> primary = primaryLangSubtag lower defaultLang then primary else lang))"

fun firstNonEmptyStr :: "string list \<Rightarrow> string" where
  "firstNonEmptyStr [] = ''''"
| "firstNonEmptyStr (v # vs) = (if trim_space v \<noteq> '''' then trim_space v else firstNonEmptyStr vs)"

fun firstNonZeroTime :: "time list \<Rightarrow> time" where
  "firstNonZeroTime [] = zero_time"
| "firstNonZeroTime (v # vs) = (if v \<noteq> zero_time then v else firstNonZeroTime vs)"

definition splitCSV :: "string \<Rightarrow> string list" where
  "splitCSV raw = filter (\<lambda>p. p \<noteq> '''') (map trim_space (split_on CHR '','' raw))"

definition slugTitleFallback :: "(string \<Rightarrow> string) \<Rightarrow> string \<Rightarrow> string" where
  "slugTitleFallback upper slug0 =
     (let slug = trim_suffix ''/'' (trim_space slug0)
      in if slug = '''' \<or> slug = ''/'' then ''Home''
         else (let leaf0 = last (split_on CHR ''/'' slug);
                   leaf = replace_char CHR ''_'' CHR '' '' (replace_char CHR ''-'' CHR '' '' leaf0)
               in if leaf0 = '''' then ''Home'' else upper (take 1 leaf) @ drop 1 leaf))"

section \<open>Documents\<close>

text \<open>A parsed document: elements with their attributes, texts, and the other nodes.\<close>

datatype html = Elem string "(string \<times> string) list" "html list" | TextNode string | OtherNode "html list"

fun preorder :: "html \<Rightarrow> html list" where
  "preorder (Elem n a cs) = Elem n a cs # concat (map preorder cs)"
| "preorder (TextNode t) = [TextNode t]"
| "preorder (OtherNode cs) = OtherNode cs # concat (map preorder cs)"

record site_lib =
  sl_page :: page_lib
  sl_parse :: "string \<Rightarrow> html option"
  sl_render :: "html list \<Rightarrow> string"
  sl_fold :: "string \<Rightarrow> string \<Rightarrow> bool"
  sl_case :: case_table
  sl_upper :: "string \<Rightarrow> string"
  sl_unescape :: "string \<Rightarrow> string option"

record html_meta =
  hm_title :: string
  hm_description :: string
  hm_canonical_url :: string
  hm_canonical_slug :: string
  hm_lang :: string
  hm_og_title :: string
  hm_og_description :: string
  hm_section :: string
  hm_published :: time
  hm_modified :: time
  hm_tags :: "string list"
  hm_categories :: "string list"

definition no_meta :: html_meta where
  "no_meta = \<lparr>hm_title = '''', hm_description = '''', hm_canonical_url = '''', hm_canonical_slug = '''', hm_lang = '''',
     hm_og_title = '''', hm_og_description = '''', hm_section = '''', hm_published = zero_time, hm_modified = zero_time,
     hm_tags = [], hm_categories = []\<rparr>"

definition nodeAttr :: "site_lib \<Rightarrow> (string \<times> string) list \<Rightarrow> string \<Rightarrow> string" where
  "nodeAttr S attrs key = (case find (\<lambda>a. sl_fold S (fst a) key) attrs of None \<Rightarrow> '''' | Some a \<Rightarrow> snd a)"

definition textContent :: "html \<Rightarrow> string" where
  "textContent n =
     join_with '' '' (go_fields (concat (map (\<lambda>m. case m of TextNode t \<Rightarrow> t @ '' '' | _ \<Rightarrow> '''') (preorder n))))"

definition parseRFC3339 :: "page_lib \<Rightarrow> string \<Rightarrow> time" where
  "parseRFC3339 P s0 =
     (let s = trim_space s0
      in if s = '''' then zero_time else first_time P [''2006-01-02T15:04:05.999999999Z07:00'', ''2006-01-02T15:04:05Z07:00'', ''2006-01-02''] s)"

definition meta_tag :: "site_lib \<Rightarrow> (string \<times> string) list \<Rightarrow> html_meta \<Rightarrow> html_meta" where
  "meta_tag S attrs m =
     (let name = ct_lower (sl_case S) (nodeAttr S attrs ''name'');
          prop = ct_lower (sl_case S) (nodeAttr S attrs ''property'');
          content = trim_space (nodeAttr S attrs ''content'')
      in if name = ''description'' \<and> hm_description m = '''' then m\<lparr>hm_description := content\<rparr>
         else if prop = ''og:title'' \<and> hm_og_title m = '''' then m\<lparr>hm_og_title := content\<rparr>
         else if prop = ''og:description'' \<and> hm_og_description m = '''' then m\<lparr>hm_og_description := content\<rparr>
         else if prop = ''article:section'' \<and> hm_section m = '''' then m\<lparr>hm_section := content\<rparr>
         else if prop = ''article:published_time'' \<and> hm_published m = zero_time
         then m\<lparr>hm_published := parseRFC3339 (sl_page S) content\<rparr>
         else if prop = ''article:modified_time'' \<and> hm_modified m = zero_time
         then m\<lparr>hm_modified := parseRFC3339 (sl_page S) content\<rparr>
         else if prop = ''article:tag'' \<and> content \<noteq> '''' then m\<lparr>hm_tags := hm_tags m @ [content]\<rparr>
         else if prop = ''article:category'' \<and> content \<noteq> '''' then m\<lparr>hm_categories := hm_categories m @ [content]\<rparr>
         else if name = ''keywords'' \<and> content \<noteq> '''' then m\<lparr>hm_categories := hm_categories m @ splitCSV content\<rparr>
         else m)"

definition meta_node :: "site_lib \<Rightarrow> html_meta \<Rightarrow> html \<Rightarrow> html_meta" where
  "meta_node S m n =
     (case n of
        Elem tag attrs cs \<Rightarrow>
          if tag = ''html'' then (let v = nodeAttr S attrs ''lang'' in if v \<noteq> '''' then m\<lparr>hm_lang := v\<rparr> else m)
          else if tag = ''title'' then (if hm_title m = '''' then m\<lparr>hm_title := trim_space (textContent n)\<rparr> else m)
          else if tag = ''meta'' then meta_tag S attrs m
          else if tag = ''link'' then
            (if has_infix ''canonical'' (ct_lower (sl_case S) (nodeAttr S attrs ''rel'')) \<and> hm_canonical_url m = ''''
             then (let href = trim_space (nodeAttr S attrs ''href'')
                   in m\<lparr>hm_canonical_url := href, hm_canonical_slug := slugFromCanonical (sl_unescape S) href\<rparr>)
             else m)
          else m
      | _ \<Rightarrow> m)"

definition collectMeta :: "site_lib \<Rightarrow> html \<Rightarrow> html_meta" where
  "collectMeta S doc = foldl (meta_node S) no_meta (preorder doc)"

definition bodyHTML :: "site_lib \<Rightarrow> string \<Rightarrow> string" where
  "bodyHTML S raw =
     (case sl_parse S raw of
        None \<Rightarrow> raw
      | Some doc \<Rightarrow>
          (case find (\<lambda>n. case n of Elem tag a cs \<Rightarrow> tag = ''body'' | _ \<Rightarrow> False) (preorder doc) of
             Some (Elem tag a cs) \<Rightarrow> sl_render S cs
           | _ \<Rightarrow> raw))"

section \<open>Pages\<close>

record public_page =
  up_slug :: string
  up_title :: string
  up_summary :: string
  up_tags :: "string list"
  up_categories :: "string list"
  up_date :: string
  up_url :: string
  up_lang :: string
  up_html :: string
  up_output :: string

text \<open>\<open>None\<close> when the document cannot be parsed; the second member is the date the page is sorted by.\<close>

definition parseHTMLPage ::
    "site_lib \<Rightarrow> string \<Rightarrow> string \<Rightarrow> time \<Rightarrow> string \<Rightarrow> string \<Rightarrow> (public_page \<times> time) option" where
  "parseHTMLPage S raw rel modTime siteURL defaultLang =
     (case sl_parse S raw of
        None \<Rightarrow> None
      | Some doc \<Rightarrow>
          (let meta = collectMeta S doc;
               slug = (if hm_canonical_slug meta = '''' then slugFromRel rel else hm_canonical_slug meta);
               date = firstNonZeroTime [hm_published meta, hm_modified meta, modTime];
               url = (if hm_canonical_url meta = '''' then joinURL siteURL slug else hm_canonical_url meta);
               lang = collapseToDefaultLangSubtag (ct_lower (sl_case S)) (sl_fold S) (hm_lang meta) defaultLang
           in Some (\<lparr>up_slug = slug,
                     up_title = firstNonEmptyStr [hm_og_title meta, hm_title meta, slugTitleFallback (sl_upper S) slug],
                     up_summary = firstNonEmptyStr [hm_og_description meta, hm_description meta],
                     up_tags = DeduplicateRaw (sl_case S) (hm_tags meta),
                     up_categories = DeduplicateRaw (sl_case S) (hm_categories meta),
                     up_date = (if date = zero_time then '''' else pl_format_time (sl_page S) date),
                     up_url = url, up_lang = firstNonEmptyStr [lang, defaultLang],
                     up_html = bodyHTML S raw, up_output = ''''\<rparr>, date)))"

section \<open>The classifier\<close>

datatype page_kind = KindArticle | KindSection | KindTaxonomy | KindPagination | KindHome | KindPage | KindTechnical

record content_classifier =
  cl_sections :: "string list"
  cl_taxonomies :: "string list"
  cl_verification :: "string list"

definition normalizeVerificationSlugs :: "string list \<Rightarrow> string list" where
  "normalizeVerificationSlugs slugs =
     remdups (filter (\<lambda>s. s \<noteq> '''') (map (\<lambda>s. trim_char CHR ''/'' (trim_space s)) slugs))"

definition slugParts :: "string \<Rightarrow> string list" where
  "slugParts slug =
     (let s = trim_char CHR ''/'' (public_normalizeSlug slug) in if s = '''' then [] else split_on CHR ''/'' s)"

definition looksLikeLanguageCode :: "string \<Rightarrow> bool" where
  "looksLikeLanguageCode v \<longleftrightarrow>
     (let low = (\<lambda>c. of_char c \<ge> (97::nat) \<and> of_char c \<le> (122::nat))
      in (length v = 2 \<and> list_all low v) \<or>
         (length v = 5 \<and> list_all low (take 2 v) \<and> (v ! 2 = CHR ''-'' \<or> v ! 2 = CHR ''_'') \<and> list_all low (drop 3 v)))"

definition stripLanguagePrefix :: "string list \<Rightarrow> string list" where
  "stripLanguagePrefix parts =
     (if length parts < 2 then parts else if \<not> looksLikeLanguageCode (hd parts) then parts else tl parts)"

definition taxonomy_roots :: "string list" where
  "taxonomy_roots = [''tags'', ''categories'', ''series'']"

definition newClassifierFromPages :: "public_page list \<Rightarrow> string list \<Rightarrow> content_classifier" where
  "newClassifierFromPages pages verification =
     (let parts = map (\<lambda>p. slugParts (up_slug p)) pages;
          childRoots = map hd (filter (\<lambda>ps. 1 < length ps) parts);
          single = map hd (filter (\<lambda>ps. length ps = 1) parts)
      in \<lparr>cl_sections = filter (\<lambda>r. r \<notin> set taxonomy_roots \<and> r \<in> set childRoots) single @ [''posts''],
          cl_taxonomies = taxonomy_roots, cl_verification = verification\<rparr>)"

definition technical_names :: "string list" where
  "technical_names = [''robots.txt'', ''security.txt'', ''llms.txt'', ''humans.txt'', ''ai.txt'', ''404.html'', ''404'',
     ''500.html'', ''500'']"

definition isTechnicalSlugParts :: "string list \<Rightarrow> string list \<Rightarrow> bool" where
  "isTechnicalSlugParts parts verification \<longleftrightarrow>
     parts \<noteq> [] \<and> (hd parts = ''.well-known'' \<or>
       length parts = 1 \<and> (hd parts \<in> set technical_names \<or> hd parts \<in> set verification))"

text \<open>\<open>strconv.Atoi\<close> accepts a sign and decimal digits whose value fits in 64 bits.\<close>

definition atoi_ok :: "string \<Rightarrow> bool" where
  "atoi_ok s \<longleftrightarrow>
     (let sign = (s \<noteq> '''' \<and> (hd s = CHR ''-'' \<or> hd s = CHR ''+'')); ds = (if sign then tl s else s)
      in ds \<noteq> '''' \<and> list_all (\<lambda>c. of_char c \<ge> (48::nat) \<and> of_char c \<le> (57::nat)) ds \<and>
         (if sign \<and> hd s = CHR ''-'' then dec_value ds \<le> 2 ^ 63 else dec_value ds < 2 ^ 63))"

definition isPaginationParts :: "string list \<Rightarrow> bool" where
  "isPaginationParts parts \<longleftrightarrow>
     2 \<le> length parts \<and> parts ! (length parts - 2) = ''page'' \<and> atoi_ok (last parts)"

definition Classify :: "content_classifier \<Rightarrow> public_page \<Rightarrow> page_kind" where
  "Classify c p =
     (let parts0 = slugParts (up_slug p)
      in if parts0 = [] then KindHome
         else (let parts = stripLanguagePrefix parts0
               in if isTechnicalSlugParts parts (cl_verification c) then KindTechnical
                  else if isPaginationParts parts then KindPagination
                  else if hd parts \<in> set (cl_taxonomies c) then KindTaxonomy
                  else if length parts = 1
                  then (if hd parts \<in> set (cl_sections c) then KindSection else KindPage)
                  else if hd parts = ''posts'' then KindArticle else KindPage))"

definition IsContent :: "content_classifier \<Rightarrow> public_page \<Rightarrow> bool" where
  "IsContent c p \<longleftrightarrow> Classify c p = KindArticle \<or> Classify c p = KindPage"

definition IsArticle :: "content_classifier \<Rightarrow> public_page \<Rightarrow> bool" where
  "IsArticle c p \<longleftrightarrow> Classify c p = KindArticle"

definition IsTechnical :: "content_classifier \<Rightarrow> public_page \<Rightarrow> bool" where
  "IsTechnical c p \<longleftrightarrow> Classify c p = KindTechnical"

record page_kind_counts =
  pkc_content :: nat
  pkc_taxonomy :: nat
  pkc_section :: nat
  pkc_other :: nat

definition CountKinds :: "content_classifier \<Rightarrow> public_page list \<Rightarrow> page_kind_counts" where
  "CountKinds c pages =
     foldl (\<lambda>n p. case Classify c p of
         KindArticle \<Rightarrow> n\<lparr>pkc_content := pkc_content n + 1\<rparr>
       | KindPage \<Rightarrow> n\<lparr>pkc_content := pkc_content n + 1\<rparr>
       | KindTaxonomy \<Rightarrow> n\<lparr>pkc_taxonomy := pkc_taxonomy n + 1\<rparr>
       | KindSection \<Rightarrow> n\<lparr>pkc_section := pkc_section n + 1\<rparr>
       | _ \<Rightarrow> n\<lparr>pkc_other := pkc_other n + 1\<rparr>)
       \<lparr>pkc_content = 0, pkc_taxonomy = 0, pkc_section = 0, pkc_other = 0\<rparr> pages"

text \<open>A page of which only the slug is known.\<close>

definition bare_page :: "string \<Rightarrow> public_page" where
  "bare_page slug = \<lparr>up_slug = slug, up_title = '''', up_summary = '''', up_tags = [], up_categories = [], up_date = '''',
     up_url = '''', up_lang = '''', up_html = '''', up_output = ''''\<rparr>"

definition ShouldIgnoreBrokenLinkTarget :: "string \<Rightarrow> bool" where
  "ShouldIgnoreBrokenLinkTarget slug \<longleftrightarrow> \<not> IsContent (newClassifierFromPages [] []) (bare_page slug)"

section \<open>The index\<close>

record public_index =
  pi_entries :: "(public_page \<times> time) list"
  pi_by_slug :: "(string, nat) gomap"
  pi_aliases :: "(string, string) gomap"
  pi_tags :: "string list"
  pi_categories :: "string list"
  pi_info :: "(string, string) gomap"
  pi_classifier :: "content_classifier option"
  pi_built :: time
  pi_verification :: "string list"

record site_config =
  sc_site_root :: string
  sc_site_name :: string
  sc_site_url :: string
  sc_default_lang :: string
  sc_reject_hidden :: bool
  sc_reject_symlinks :: bool
  sc_max_entries :: int
  sc_verification :: "string list"

text \<open>One entry of the tree walk below the root: \<open>None\<close> is a failing \<open>os.Stat\<close> or \<open>os.ReadFile\<close>.\<close>

record walk_entry =
  wk_rel :: string
  wk_dir :: bool
  wk_link :: bool
  wk_mod :: "time option"
  wk_raw :: "string option"

text \<open>The state of the walk; \<open>bd_owner_alias\<close> tells of a slug whether an alias holds it.\<close>

record site_build =
  bd_entries :: "(public_page \<times> time) list"
  bd_by_slug :: "(string, nat) gomap"
  bd_aliases :: "(string, string) gomap"
  bd_owner_alias :: "(string, bool) gomap"
  bd_tags :: "string list"
  bd_categories :: "string list"

definition add_page :: "site_build \<Rightarrow> public_page \<Rightarrow> time \<Rightarrow> string \<Rightarrow> site_build" where
  "add_page b pg date own =
     (let is_alias = (own \<noteq> up_slug pg); held_by_alias = (gget (bd_owner_alias b) (up_slug pg) = Some True)
      in case gget (bd_by_slug b) (up_slug pg) of
           Some pos \<Rightarrow>
             if is_alias then b\<lparr>bd_aliases := gput (bd_aliases b) own (up_slug pg)\<rparr>
             else if \<not> held_by_alias then b
             else b\<lparr>bd_aliases := gput (bd_aliases b) (slugFromRel (up_output (fst (bd_entries b ! pos)))) (up_slug pg),
                    bd_entries := (bd_entries b)[pos := (pg, date)],
                    bd_owner_alias := gput (bd_owner_alias b) (up_slug pg) False\<rparr>
         | None \<Rightarrow>
             b\<lparr>bd_aliases := (if is_alias then gput (bd_aliases b) own (up_slug pg) else bd_aliases b),
               bd_owner_alias := (if is_alias then gput (bd_owner_alias b) (up_slug pg) True else bd_owner_alias b),
               bd_by_slug := gput (bd_by_slug b) (up_slug pg) (length (bd_entries b)),
               bd_entries := bd_entries b @ [(pg, date)],
               bd_tags := bd_tags b @ up_tags pg, bd_categories := bd_categories b @ up_categories pg\<rparr>)"

fun walk_site ::
    "site_lib \<Rightarrow> site_config \<Rightarrow> string \<Rightarrow> int \<Rightarrow> walk_entry list \<Rightarrow> site_build \<Rightarrow> site_build go" where
  "walk_site S cfg lang maxEntries [] b = Inr b"
| "walk_site S cfg lang maxEntries (e # es) b =
     (if sc_reject_hidden cfg \<and> isHiddenPath (wk_rel e) then walk_site S cfg lang maxEntries es b
      else if wk_link e then
        (if sc_reject_symlinks cfg then Inl ''symlink rejected'' else walk_site S cfg lang maxEntries es b)
      else if wk_dir e \<or> \<not> isHTMLFile (path_base (wk_rel e)) then walk_site S cfg lang maxEntries es b
      else if int (length (bd_entries b)) \<ge> maxEntries then Inl ''index entry limit exceeded''
      else (case (wk_mod e, wk_raw e) of
              (Some at, Some raw) \<Rightarrow>
                (case parseHTMLPage S raw (wk_rel e) at (sc_site_url cfg) lang of
                   None \<Rightarrow> Inl ''parse''
                 | Some (pg, date) \<Rightarrow>
                     if up_slug pg = '''' then walk_site S cfg lang maxEntries es b
                     else walk_site S cfg lang maxEntries es
                            (add_page b (pg\<lparr>up_output := wk_rel e\<rparr>) date (slugFromRel (wk_rel e))))
            | _ \<Rightarrow> Inl ''read''))"

text \<open>\<open>sort.SliceStable\<close>: newest first, then by slug.\<close>

fun insert_before :: "('a \<Rightarrow> 'a \<Rightarrow> bool) \<Rightarrow> 'a \<Rightarrow> 'a list \<Rightarrow> 'a list" where
  "insert_before lt x [] = [x]"
| "insert_before lt x (y # ys) = (if lt y x then y # insert_before lt x ys else x # y # ys)"

definition stable_sort :: "('a \<Rightarrow> 'a \<Rightarrow> bool) \<Rightarrow> 'a list \<Rightarrow> 'a list" where
  "stable_sort lt xs = foldr (insert_before lt) xs []"

definition entry_before :: "public_page \<times> time \<Rightarrow> public_page \<times> time \<Rightarrow> bool" where
  "entry_before a b \<longleftrightarrow> (if snd a = snd b then up_slug (fst a) < up_slug (fst b) else snd b < snd a)"

fun index_entries :: "nat \<Rightarrow> (public_page \<times> time) list \<Rightarrow> (string, nat) gomap \<Rightarrow> (string, nat) gomap" where
  "index_entries i [] m = m"
| "index_entries i (e # es) m = index_entries (Suc i) es (gput m (up_slug (fst e)) i)"

definition site_info :: "site_config \<Rightarrow> string \<Rightarrow> (string, string) gomap" where
  "site_info cfg lang = [(''name'', sc_site_name cfg), (''url'', sc_site_url cfg), (''lang'', lang)]"

text \<open>\<open>root\<close> is what \<open>canonicalDir\<close> answers; \<open>walk\<close> is \<open>None\<close> when the walk itself fails.\<close>

definition NewIndex ::
    "site_lib \<Rightarrow> site_config \<Rightarrow> time \<Rightarrow> string go \<Rightarrow> walk_entry list option \<Rightarrow> public_index go" where
  "NewIndex S cfg now root walk =
     (let verification = normalizeVerificationSlugs (sc_verification cfg);
          lang = (if sc_default_lang cfg = '''' then ''en'' else sc_default_lang cfg);
          maxEntries = (if sc_max_entries cfg \<le> 0 then 5000 else sc_max_entries cfg)
      in if trim_space (sc_site_root cfg) = ''''
         then Inr \<lparr>pi_entries = [], pi_by_slug = [], pi_aliases = [], pi_tags = [], pi_categories = [],
                   pi_info = site_info cfg (sc_default_lang cfg), pi_classifier = None, pi_built = now,
                   pi_verification = verification\<rparr>
         else (case root of
           Inl e \<Rightarrow> Inl e
         | Inr r \<Rightarrow>
             (case walk of
                None \<Rightarrow> Inl ''walk''
              | Some es \<Rightarrow>
                  (case walk_site S cfg lang maxEntries es
                          \<lparr>bd_entries = [], bd_by_slug = [], bd_aliases = [], bd_owner_alias = [], bd_tags = [],
                           bd_categories = []\<rparr> of
                     Inl e \<Rightarrow> Inl e
                   | Inr b \<Rightarrow>
                       (let entries = stable_sort entry_before (bd_entries b)
                        in Inr \<lparr>pi_entries = entries, pi_by_slug = index_entries 0 entries [],
                                pi_aliases = bd_aliases b, pi_tags = sort (remdups (bd_tags b)),
                                pi_categories = sort (remdups (bd_categories b)), pi_info = site_info cfg lang,
                                pi_classifier = Some (newClassifierFromPages (map fst entries) verification),
                                pi_built = now, pi_verification = verification\<rparr>)))))"

definition public_Reload ::
    "site_lib \<Rightarrow> site_config \<Rightarrow> time \<Rightarrow> string go \<Rightarrow> walk_entry list option \<Rightarrow> public_index \<Rightarrow>
     public_index \<times> string option" where
  "public_Reload S cfg now root walk idx =
     (case NewIndex S cfg now root walk of Inl e \<Rightarrow> (idx, Some e) | Inr r \<Rightarrow> (r, None))"

text \<open>Whether a page was written after the index was built, and the latest such time; asked at most every 30 seconds.\<close>

definition computeStaleAgainstDisk :: "site_config \<Rightarrow> time \<Rightarrow> walk_entry list \<Rightarrow> bool \<times> time" where
  "computeStaleAgainstDisk cfg builtAt es =
     (if trim_space (sc_site_root cfg) = '''' \<or> builtAt = zero_time then (False, zero_time)
      else foldl (\<lambda>(stale, newest) e.
             if sc_reject_hidden cfg \<and> isHiddenPath (wk_rel e) \<or> wk_link e \<or> wk_dir e \<or> \<not> isHTMLFile (path_base (wk_rel e))
             then (stale, newest)
             else (case wk_mod e of
                     None \<Rightarrow> (stale, newest)
                   | Some at \<Rightarrow> if builtAt < at then (True, if newest < at then at else newest) else (stale, newest)))
           (False, zero_time) es)"

record stale_cache =
  st_checked_at :: time
  st_stale :: bool
  st_newest :: time

definition StaleAgainstDisk ::
    "site_config \<Rightarrow> time \<Rightarrow> time \<Rightarrow> walk_entry list \<Rightarrow> public_index \<Rightarrow> stale_cache \<Rightarrow> stale_cache \<times> bool \<times> time" where
  "StaleAgainstDisk cfg now now' es idx c =
     (if now - st_checked_at c < 30 * second then (c, st_stale c, st_newest c)
      else (case computeStaleAgainstDisk cfg (pi_built idx) es of
              (stale, newest) \<Rightarrow> (\<lparr>st_checked_at = now', st_stale = stale, st_newest = newest\<rparr>, stale, newest)))"

definition RemoveBySlug :: "public_index \<Rightarrow> string \<Rightarrow> public_index" where
  "RemoveBySlug idx slug =
     (let norm = public_normalizeSlug slug
      in case gget (pi_by_slug idx) norm of
           None \<Rightarrow> idx
         | Some pos \<Rightarrow>
             (let entries = take pos (pi_entries idx) @ drop (Suc pos) (pi_entries idx)
              in idx\<lparr>pi_entries := entries,
                     pi_by_slug := index_entries pos (drop pos entries) (gdel (pi_by_slug idx) norm)\<rparr>))"

definition UpsertPage :: "public_index \<Rightarrow> public_page \<Rightarrow> public_index" where
  "UpsertPage idx p0 =
     (let norm = public_normalizeSlug (up_slug p0); p = p0\<lparr>up_slug := norm\<rparr>
      in case gget (pi_by_slug idx) norm of
           Some pos \<Rightarrow> idx\<lparr>pi_entries := (pi_entries idx)[pos := (p, snd (pi_entries idx ! pos))]\<rparr>
         | None \<Rightarrow> idx\<lparr>pi_by_slug := gput (pi_by_slug idx) norm (length (pi_entries idx)),
                       pi_entries := pi_entries idx @ [(p, zero_time)]\<rparr>)"

definition public_GetBySlug :: "public_index \<Rightarrow> string \<Rightarrow> public_page option" where
  "public_GetBySlug idx slug =
     (if slug = '''' then None
      else map_option (\<lambda>pos. fst (pi_entries idx ! pos)) (gget (pi_by_slug idx) (public_normalizeSlug slug)))"

definition public_ResolveAlias :: "public_index \<Rightarrow> string \<Rightarrow> string option" where
  "public_ResolveAlias idx slug = (if slug = '''' then None else gget (pi_aliases idx) (public_normalizeSlug slug))"

definition index_classifier :: "public_index \<Rightarrow> content_classifier" where
  "index_classifier idx =
     (case pi_classifier idx of Some c \<Rightarrow> c
      | None \<Rightarrow> newClassifierFromPages (map fst (pi_entries idx)) (pi_verification idx))"

definition ContentPages :: "public_index \<Rightarrow> public_page list" where
  "ContentPages idx = filter (IsContent (index_classifier idx)) (map fst (pi_entries idx))"

definition scoreEntry :: "(string \<Rightarrow> string) \<Rightarrow> public_page \<Rightarrow> string list \<Rightarrow> nat" where
  "scoreEntry lower p terms =
     (if terms = [] then 1
      else (let fields = map lower [up_title p, up_summary p, up_url p, join_with '' '' (up_tags p),
                  join_with '' '' (up_categories p)]
            in length (filter (\<lambda>t. list_ex (has_infix t) fields) terms)))"

definition hit_before :: "public_page \<times> nat \<Rightarrow> public_page \<times> nat \<Rightarrow> bool" where
  "hit_before a b \<longleftrightarrow> (if snd a = snd b then up_date (fst b) < up_date (fst a) else snd b < snd a)"

definition SearchScored :: "(string \<Rightarrow> string) \<Rightarrow> public_index \<Rightarrow> string \<Rightarrow> int \<Rightarrow> (public_page \<times> nat) list" where
  "SearchScored lower idx query limit =
     (let pages = ContentPages idx;
          n = (if limit \<le> 0 \<or> int (length pages) < limit then length pages else nat limit);
          terms = go_fields (lower query);
          hits = filter (\<lambda>h. 0 < snd h) (map (\<lambda>p. (p, scoreEntry lower p terms)) pages)
      in take n (stable_sort hit_before hits))"

definition RecentPosts :: "public_index \<Rightarrow> int \<Rightarrow> public_page list" where
  "RecentPosts idx n =
     (let posts = filter (IsArticle (index_classifier idx)) (map fst (pi_entries idx))
      in if 0 < n \<and> n < int (length posts) then take (nat n) posts else posts)"

definition Sitemap :: "public_index \<Rightarrow> public_page list" where
  "Sitemap idx = map fst (pi_entries idx)"

definition GetFeed :: "public_index \<Rightarrow> int \<Rightarrow> public_page list" where
  "GetFeed idx limit =
     (let out = ContentPages idx in if 0 < limit \<and> limit < int (length out) then take (nat limit) out else out)"

end
