(* ===== verification/SiteOwners.thy ===== *)
theory SiteOwners
  imports PublicSite "HOL-Library.Multiset"
begin

text \<open>
  The index of the built site answers as a map from slug to page; the page it holds for a slug is the file
  that owns the slug, in whatever order the walk met it; and a search returns the best hits.
\<close>

section \<open>Positions\<close>

type_synonym site_entry = "public_page \<times> time"

abbreviation slug_of :: "site_entry \<Rightarrow> string" where "slug_of e \<equiv> up_slug (fst e)"

fun pos_of :: "nat \<Rightarrow> site_entry list \<Rightarrow> string \<Rightarrow> nat option" where
  "pos_of k [] s = None"
| "pos_of k (e # es) s = (if slug_of e = s then Some k else pos_of (Suc k) es s)"

lemma pos_of_append: "pos_of k (a @ b) s = (if s \<in> slug_of ` set a then pos_of k a s else pos_of (k + length a) b s)"
  by (induction a arbitrary: k) auto

lemma pos_of_None: "pos_of k es s = None \<longleftrightarrow> s \<notin> slug_of ` set es"
  by (induction es arbitrary: k) auto

lemma pos_of_Some: "pos_of k es s = Some i \<Longrightarrow> k \<le> i \<and> i < k + length es \<and> slug_of (es ! (i - k)) = s"
proof (induction es arbitrary: k)
  case (Cons e es)
  then show ?case by (cases "slug_of e = s") (force dest: Cons.IH simp: nth_Cons' Suc_diff_le)+
qed simp

lemma pos_of_update: "slug_of e = slug_of (es ! i) \<Longrightarrow> pos_of k (es[i := e]) s = pos_of k es s"
  by (induction es arbitrary: k i) (auto split: nat.splits)

lemma index_entries_get:
  "distinct (map slug_of es) \<Longrightarrow>
     gget (index_entries k es m) s = (case pos_of k es s of Some i \<Rightarrow> Some i | None \<Rightarrow> gget m s)"
proof (induction es arbitrary: k m)
  case (Cons e es)
  have "slug_of e = s \<Longrightarrow> pos_of (Suc k) es s = None" using Cons.prems by (auto simp: pos_of_None)
  then show ?case using Cons by (cases "pos_of (Suc k) es s") auto
qed simp

section \<open>The index is a map from slug to page\<close>

definition public_ok :: "public_index \<Rightarrow> bool" where
  "public_ok idx \<longleftrightarrow> distinct (map slug_of (pi_entries idx)) \<and> (\<forall>s. gget (pi_by_slug idx) s = pos_of 0 (pi_entries idx) s)"

definition page_of :: "site_entry list \<Rightarrow> string \<Rightarrow> public_page option" where
  "page_of es s = map_option fst (find (\<lambda>e. slug_of e = s) es)"

definition site_map :: "public_index \<Rightarrow> string \<Rightarrow> public_page option" where
  "site_map idx = page_of (pi_entries idx)"

lemma page_of_append: "page_of (a @ b) s = (if s \<in> slug_of ` set a then page_of a s else page_of b s)"
  by (induction a) (auto simp: page_of_def)

lemma page_of_Cons [simp]: "page_of (e # es) s = (if slug_of e = s then Some (fst e) else page_of es s)"
  by (simp add: page_of_def)

lemma page_of_Nil [simp]: "page_of [] s = None"
  by (simp add: page_of_def)

lemma page_of_None: "page_of es s = None \<longleftrightarrow> s \<notin> slug_of ` set es"
  by (induction es) auto

lemma page_of_pos: "page_of es s = map_option (\<lambda>i. fst (es ! (i - k))) (pos_of k es s)"
proof (induction es arbitrary: k)
  case (Cons e es)
  have "es ! (i - Suc k) = (e # es) ! (i - k)" if "pos_of (Suc k) es s = Some i" for i
    using pos_of_Some [OF that] by (simp add: nth_Cons')
  then have "map_option (\<lambda>i. fst (es ! (i - Suc k))) (pos_of (Suc k) es s) = map_option (\<lambda>i. fst ((e # es) ! (i - k))) (pos_of (Suc k) es s)"
    by (cases "pos_of (Suc k) es s") simp_all
  then show ?case using Cons.IH [of "Suc k"] by simp
qed simp

lemma page_of_perm:
  assumes "distinct (map slug_of es)" "mset es = mset es'"
  shows "page_of es s = page_of es' s"
proof -
  have set: "set es = set es'" using assms(2) by (metis set_mset_mset)
  have d': "distinct (map slug_of es')"
    using assms by (metis mset_map mset_eq_imp_distinct_iff)
  have found: "page_of xs s = Some (fst e)" if "distinct (map slug_of xs)" "e \<in> set xs" "slug_of e = s" for e :: site_entry and xs
    using that by (induction xs) auto
  show ?thesis
  proof (cases "s \<in> slug_of ` set es")
    case True
    then obtain e where "e \<in> set es" "slug_of e = s" by blast
    then show ?thesis using found assms(1) d' set by simp
  next
    case False
    then have "page_of es s = None" "page_of es' s = None" using set by (simp_all add: page_of_None)
    then show ?thesis by simp
  qed
qed

lemma upsert_ok:
  assumes ok: "public_ok idx"
  shows "public_ok (UpsertPage idx p) \<and> site_map (UpsertPage idx p) =
           (site_map idx)(public_normalizeSlug (up_slug p) \<mapsto> p\<lparr>up_slug := public_normalizeSlug (up_slug p)\<rparr>)"
proof (cases "pos_of 0 (pi_entries idx) (public_normalizeSlug (up_slug p))")
  case None
  let ?n = "public_normalizeSlug (up_slug p)" and ?es = "pi_entries idx"
  let ?e = "(p\<lparr>up_slug := ?n\<rparr>, zero_time)"
  have fresh: "?n \<notin> slug_of ` set ?es" using None by (simp add: pos_of_None)
  have d: "distinct (map slug_of ?es)" and m: "\<And>s. gget (pi_by_slug idx) s = pos_of 0 ?es s"
    using ok by (simp_all add: public_ok_def)
  have up: "UpsertPage idx p = idx\<lparr>pi_by_slug := gput (pi_by_slug idx) ?n (length ?es), pi_entries := ?es @ [?e]\<rparr>"
    using None m by (simp add: UpsertPage_def Let_def)
  have "pos_of 0 (?es @ [?e]) s = (if s = ?n then Some (length ?es) else pos_of 0 ?es s)" for s
    using fresh pos_of_None [of 0 ?es s] by (auto simp: pos_of_append)
  moreover have "page_of (?es @ [?e]) s = (if s = ?n then Some (fst ?e) else page_of ?es s)" for s
    using fresh page_of_None [of ?es s] by (auto simp: page_of_append)
  ultimately show ?thesis
    using d fresh m unfolding up public_ok_def site_map_def by (auto simp: fun_eq_iff)
next
  case (Some i)
  let ?n = "public_normalizeSlug (up_slug p)" and ?es = "pi_entries idx"
  let ?e = "(p\<lparr>up_slug := ?n\<rparr>, snd (?es ! i))"
  have i: "i < length ?es" "slug_of (?es ! i) = ?n" using pos_of_Some [OF Some] by auto
  have same: "pos_of 0 (?es[i := ?e]) s = pos_of 0 ?es s" for s by (rule pos_of_update) (use i in simp)
  have d: "distinct (map slug_of ?es)" using ok by (simp add: public_ok_def)
  have "map slug_of (?es[i := ?e]) = map slug_of ?es" using i by (simp add: map_update list_update_same_conv)
  moreover have "page_of (?es[i := ?e]) s = (if s = ?n then Some (fst ?e) else page_of ?es s)" for s
  proof (cases "s = ?n")
    case True
    then show ?thesis using page_of_pos [of "?es[i := ?e]" s 0] same [of s] Some i by simp
  next
    case False
    then have "pos_of 0 ?es s = Some j \<Longrightarrow> j \<noteq> i" for j using i pos_of_Some [of 0 ?es s j] by auto
    then show ?thesis using page_of_pos [of "?es[i := ?e]" s 0] page_of_pos [of ?es s 0] same [of s] False
      by (cases "pos_of 0 ?es s") auto
  qed
  ultimately show ?thesis
    using ok Some same d by (auto simp: UpsertPage_def public_ok_def site_map_def Let_def fun_eq_iff)
qed

lemma remove_ok:
  assumes ok: "public_ok idx"
  shows "public_ok (RemoveBySlug idx slug) \<and> site_map (RemoveBySlug idx slug) = (site_map idx)(public_normalizeSlug slug := None)"
proof (cases "pos_of 0 (pi_entries idx) (public_normalizeSlug slug)")
  case None
  then have "page_of (pi_entries idx) (public_normalizeSlug slug) = None" by (simp add: page_of_None pos_of_None)
  then show ?thesis using None ok
    by (auto simp: RemoveBySlug_def public_ok_def site_map_def Let_def fun_eq_iff)
next
  case (Some i)
  let ?n = "public_normalizeSlug slug" and ?es = "pi_entries idx"
  have i: "i < length ?es" "slug_of (?es ! i) = ?n" using pos_of_Some [OF Some] by auto
  define a e b where "a = take i ?es" and "e = ?es ! i" and "b = drop (Suc i) ?es"
  have es: "?es = a @ e # b" and la: "length a = i" using i by (simp_all add: a_def b_def e_def id_take_nth_drop)
  have d: "distinct (map slug_of (a @ e # b))" using ok es by (simp add: public_ok_def)
  have e: "slug_of e = ?n" using i by (simp add: e_def)
  have m: "gget (pi_by_slug idx) s = pos_of 0 (a @ e # b) s" for s using ok es by (simp add: public_ok_def)
  have rm: "RemoveBySlug idx slug = idx\<lparr>pi_entries := a @ b, pi_by_slug := index_entries i b (gdel (pi_by_slug idx) ?n)\<rparr>"
    using Some ok la by (simp add: RemoveBySlug_def public_ok_def Let_def a_def b_def)
  have "gget (index_entries i b (gdel (pi_by_slug idx) ?n)) s = pos_of 0 (a @ b) s" for s
  proof (cases "s \<in> slug_of ` set b")
    case True
    then obtain j where j: "pos_of i b s = Some j" using pos_of_None [of i b s] by fastforce
    moreover have "s \<notin> slug_of ` set a" using d True by auto
    ultimately show ?thesis using d la by (simp add: index_entries_get pos_of_append)
  next
    case False
    then have "pos_of i b s = None" "pos_of (Suc i) b s = None" by (simp_all add: pos_of_None)
    moreover have "?n \<notin> slug_of ` set a" using d e by auto
    ultimately show ?thesis using d e la m [of s] by (auto simp: index_entries_get pos_of_append)
  qed
  moreover have "page_of (a @ b) s = ((page_of (a @ e # b))(?n := None)) s" for s
    using d e by (auto simp: page_of_append page_of_None image_iff)
  ultimately show ?thesis
    using d unfolding rm public_ok_def site_map_def es by (auto simp: fun_eq_iff)
qed

section \<open>Which file a slug shows\<close>

text \<open>The pages the walk finds, in its order; each claims the slug of its canonical link, or its own.\<close>

definition site_claim :: "site_lib \<Rightarrow> site_config \<Rightarrow> string \<Rightarrow> walk_entry \<Rightarrow> site_entry list" where
  "site_claim S cfg lang e =
     (if sc_reject_hidden cfg \<and> isHiddenPath (wk_rel e) \<or> wk_link e \<or> wk_dir e \<or> \<not> isHTMLFile (path_base (wk_rel e)) then []
      else (case (wk_mod e, wk_raw e) of
              (Some at, Some raw) \<Rightarrow>
                (case parseHTMLPage S raw (wk_rel e) at (sc_site_url cfg) lang of
                   None \<Rightarrow> []
                 | Some (pg, date) \<Rightarrow> if up_slug pg = '''' then [] else [(pg\<lparr>up_output := wk_rel e\<rparr>, date)])
            | _ \<Rightarrow> []))"

definition site_claims :: "site_lib \<Rightarrow> site_config \<Rightarrow> string \<Rightarrow> walk_entry list \<Rightarrow> site_entry list" where
  "site_claims S cfg lang es = concat (map (site_claim S cfg lang) es)"

definition own_slug :: "site_entry \<Rightarrow> string" where "own_slug c = slugFromRel (up_output (fst c))"

definition add_claim :: "site_build \<Rightarrow> site_entry \<Rightarrow> site_build" where
  "add_claim b c = add_page b (fst c) (snd c) (own_slug c)"

lemma walk_site_claims:
  "walk_site S cfg lang n es b = Inr b' \<Longrightarrow> b' = foldl add_claim b (site_claims S cfg lang es)"
proof (induction es arbitrary: b)
  case (Cons e es)
  then show ?case
    by (auto simp: site_claims_def site_claim_def add_claim_def own_slug_def split: if_splits option.splits prod.splits)
qed (simp add: site_claims_def)

lemma find_in_append: "find P (a @ b) = (case find P a of Some x \<Rightarrow> Some x | None \<Rightarrow> find P b)"
  by (induction a) auto

lemma find_update:
  "distinct (map slug_of es) \<Longrightarrow> i < length es \<Longrightarrow> slug_of e = slug_of (es ! i) \<Longrightarrow>
     find (\<lambda>x. slug_of x = s) (es[i := e]) = (if s = slug_of e then Some e else find (\<lambda>x. slug_of x = s) es)"
proof (induction es arbitrary: i)
  case (Cons x es)
  show ?case
  proof (cases i)
    case 0
    then show ?thesis using Cons.prems by simp
  next
    case (Suc j)
    then have "slug_of (es ! j) \<in> slug_of ` set es" using Cons.prems by simp
    then show ?thesis using Cons Suc by auto
  qed
qed simp

lemma find_pos: "find (\<lambda>x. slug_of x = s) es = map_option (\<lambda>i. es ! (i - k)) (pos_of k es s)"
proof (induction es arbitrary: k)
  case (Cons e es)
  have "es ! (i - Suc k) = (e # es) ! (i - k)" if "pos_of (Suc k) es s = Some i" for i
    using pos_of_Some [OF that] by (simp add: nth_Cons')
  then have "map_option (\<lambda>i. es ! (i - Suc k)) (pos_of (Suc k) es s) = map_option (\<lambda>i. (e # es) ! (i - k)) (pos_of (Suc k) es s)"
    by (cases "pos_of (Suc k) es s") simp_all
  then show ?case using Cons.IH [of "Suc k"] by simp
qed simp

text \<open>
  Of the files that claim a slug: the first, the first that lies where the slug says, and the owner, which is
  the latter when there is one.
\<close>

definition first_claim :: "site_entry list \<Rightarrow> string \<Rightarrow> site_entry option" where
  "first_claim cs s = find (\<lambda>c. slug_of c = s) cs"

definition true_claim :: "site_entry list \<Rightarrow> string \<Rightarrow> site_entry option" where
  "true_claim cs s = find (\<lambda>c. slug_of c = s \<and> own_slug c = s) cs"

definition owner :: "site_entry list \<Rightarrow> string \<Rightarrow> site_entry option" where
  "owner cs s = (case true_claim cs s of Some c \<Rightarrow> Some c | None \<Rightarrow> first_claim cs s)"

lemma first_snoc: "first_claim (cs @ [c]) s = (if first_claim cs s = None \<and> slug_of c = s then Some c else first_claim cs s)"
  by (simp add: first_claim_def find_in_append split: option.splits)

lemma true_snoc: "true_claim (cs @ [c]) s = (if true_claim cs s = None \<and> slug_of c = s \<and> own_slug c = s then Some c else true_claim cs s)"
  by (simp add: true_claim_def find_in_append split: option.splits)

lemma true_first: "first_claim cs s = None \<Longrightarrow> true_claim cs s = None"
  by (auto simp: first_claim_def true_claim_def find_None_iff)

lemma owner_None: "owner cs s = None \<longleftrightarrow> first_claim cs s = None"
  using true_first [of cs s] by (cases "true_claim cs s") (force simp: owner_def)+

lemma owner_claim: "owner cs s = Some c \<Longrightarrow> c \<in> set cs \<and> slug_of c = s"
  by (auto simp: owner_def true_claim_def first_claim_def find_Some_iff split: option.splits)

lemma owner_alias: "owner cs s = Some c \<Longrightarrow> true_claim cs s = None \<Longrightarrow> own_slug c \<noteq> s"
  using owner_claim [of cs s c] by (cases c) (auto simp: true_claim_def find_None_iff)

section \<open>The walk records the claims\<close>

definition slots_ok :: "site_entry list \<Rightarrow> site_build \<Rightarrow> bool" where
  "slots_ok cs b \<longleftrightarrow> distinct (map slug_of (bd_entries b)) \<and> (\<forall>s. gget (bd_by_slug b) s = pos_of 0 (bd_entries b) s) \<and>
     (\<forall>s. find (\<lambda>e. slug_of e = s) (bd_entries b) = owner cs s)"

definition flags_ok :: "site_entry list \<Rightarrow> site_build \<Rightarrow> bool" where
  "flags_ok cs b \<longleftrightarrow>
     (\<forall>s. gget (bd_owner_alias b) s = Some True \<longleftrightarrow> first_claim cs s \<noteq> None \<and> true_claim cs s = None)"

text \<open>Some file that lies at \<open>a\<close> names \<open>s\<close> as its canonical slug.\<close>

definition alias_at :: "site_entry list \<Rightarrow> string \<Rightarrow> string \<Rightarrow> bool" where
  "alias_at cs a s \<longleftrightarrow> list_ex (\<lambda>c. own_slug c = a \<and> slug_of c = s) cs \<and> s \<noteq> a"

definition aliases_ok :: "site_entry list \<Rightarrow> (string, string) gomap \<Rightarrow> bool" where
  "aliases_ok cs m \<longleftrightarrow> (\<forall>a. case gget m a of Some s \<Rightarrow> alias_at cs a s | None \<Rightarrow> (\<forall>s. \<not> alias_at cs a s))"

lemma alias_snoc: "alias_at (cs @ [c]) a s \<longleftrightarrow> alias_at cs a s \<or> own_slug c = a \<and> slug_of c = s \<and> s \<noteq> a"
  by (auto simp: alias_at_def)

lemma alias_mem: "e \<in> set cs \<Longrightarrow> own_slug e \<noteq> slug_of e \<Longrightarrow> alias_at cs (own_slug e) (slug_of e)"
  by (auto simp: alias_at_def list_ex_iff)

lemma aliases_put:
  assumes "aliases_ok cs m" "alias_at (cs @ [c]) a s" "own_slug c = slug_of c \<or> own_slug c = a"
  shows "aliases_ok (cs @ [c]) (gput m a s)"
  unfolding aliases_ok_def
proof
  fix x
  have "x \<noteq> a \<Longrightarrow> alias_at (cs @ [c]) x = alias_at cs x" using assms(3) by (auto simp: alias_snoc fun_eq_iff)
  then show "case gget (gput m a s) x of Some t \<Rightarrow> alias_at (cs @ [c]) x t | None \<Rightarrow> (\<forall>t. \<not> alias_at (cs @ [c]) x t)"
    using assms(1,2) by (cases "x = a") (simp_all add: aliases_ok_def cong del: option.case_cong_weak)
qed

lemma alias_same: "own_slug c = slug_of c \<Longrightarrow> alias_at (cs @ [c]) = alias_at cs"
  by (auto simp: alias_snoc fun_eq_iff)

lemma aliases_keep: "aliases_ok cs m \<Longrightarrow> own_slug c = slug_of c \<Longrightarrow> aliases_ok (cs @ [c]) m"
  by (simp add: aliases_ok_def alias_same cong del: option.case_cong_weak)

definition claim_terms :: "(public_page \<Rightarrow> string list) \<Rightarrow> site_entry list \<Rightarrow> string \<Rightarrow> bool" where
  "claim_terms f cs t \<longleftrightarrow> (\<exists>s c. first_claim cs s = Some c \<and> t \<in> set (f (fst c)))"

lemma claim_terms_old: "first_claim cs (slug_of c) \<noteq> None \<Longrightarrow> claim_terms f (cs @ [c]) t = claim_terms f cs t"
  unfolding claim_terms_def first_snoc by (metis option.distinct(1))

lemma claim_terms_new:
  assumes "first_claim cs (slug_of c) = None"
  shows "claim_terms f (cs @ [c]) t \<longleftrightarrow> claim_terms f cs t \<or> t \<in> set (f (fst c))"
proof
  assume "claim_terms f (cs @ [c]) t"
  then obtain s d where d: "first_claim (cs @ [c]) s = Some d" "t \<in> set (f (fst d))" unfolding claim_terms_def by blast
  show "claim_terms f cs t \<or> t \<in> set (f (fst c))"
  proof (cases "first_claim cs s")
    case None
    then show ?thesis using d by (simp add: first_snoc split: if_splits)
  next
    case (Some e)
    then have "first_claim cs s = Some d" using d by (simp add: first_snoc)
    then show ?thesis using d(2) unfolding claim_terms_def by blast
  qed
next
  assume or: "claim_terms f cs t \<or> t \<in> set (f (fst c))"
  show "claim_terms f (cs @ [c]) t"
  proof (cases "t \<in> set (f (fst c))")
    case True
    have "first_claim (cs @ [c]) (slug_of c) = Some c" using assms by (simp add: first_snoc)
    then show ?thesis using True unfolding claim_terms_def by blast
  next
    case False
    then obtain s d where "first_claim cs s = Some d" "t \<in> set (f (fst d))" using or unfolding claim_terms_def by blast
    moreover from this have "first_claim (cs @ [c]) s = Some d" by (simp add: first_snoc)
    ultimately show ?thesis unfolding claim_terms_def by blast
  qed
qed

definition build_ok :: "site_entry list \<Rightarrow> site_build \<Rightarrow> bool" where
  "build_ok cs b \<longleftrightarrow> slots_ok cs b \<and> flags_ok cs b \<and> aliases_ok cs (bd_aliases b) \<and>
     (\<forall>t. t \<in> set (bd_tags b) \<longleftrightarrow> claim_terms up_tags cs t) \<and>
     (\<forall>t. t \<in> set (bd_categories b) \<longleftrightarrow> claim_terms up_categories cs t)"

lemma slots_find: "slots_ok cs b \<Longrightarrow> gget (bd_by_slug b) s = None \<longleftrightarrow> first_claim cs s = None"
  unfolding slots_ok_def by (metis find_pos map_option_is_None owner_None)

lemma build_new:
  assumes ok: "build_ok cs b" and new: "first_claim cs (slug_of c) = None"
  shows "build_ok (cs @ [c]) (add_claim b c)"
proof -
  let ?s = "slug_of c"
  have slots: "slots_ok cs b" using ok by (simp add: build_ok_def)
  have no: "gget (bd_by_slug b) ?s = None" using slots_find [OF slots] new by simp
  have true: "true_claim cs ?s = None" using true_first new by simp
  have fresh: "pos_of 0 (bd_entries b) ?s = None" using no slots by (simp add: slots_ok_def)
  have out: "?s \<notin> slug_of ` set (bd_entries b)" using fresh by (simp add: pos_of_None)
  have e: "bd_entries (add_claim b c) = bd_entries b @ [c]" "bd_by_slug (add_claim b c) = gput (bd_by_slug b) ?s (length (bd_entries b))"
    "bd_tags (add_claim b c) = bd_tags b @ up_tags (fst c)" "bd_categories (add_claim b c) = bd_categories b @ up_categories (fst c)"
    "bd_owner_alias (add_claim b c) = (if own_slug c \<noteq> ?s then gput (bd_owner_alias b) ?s True else bd_owner_alias b)"
    "bd_aliases (add_claim b c) = (if own_slug c \<noteq> ?s then gput (bd_aliases b) (own_slug c) ?s else bd_aliases b)"
    using no by (simp_all add: add_claim_def add_page_def Let_def)
  have own: "owner (cs @ [c]) s = (if s = ?s then Some c else owner cs s)" for s
    using new true by (cases "s = ?s"; cases "true_claim cs s") (auto simp: owner_def first_snoc true_snoc)
  have "slots_ok (cs @ [c]) (add_claim b c)"
    using slots out fresh owner_None [of cs ?s] new unfolding slots_ok_def e own
    by (auto simp: pos_of_append find_in_append pos_of_None find_None_iff image_iff split: option.splits)
  moreover have "flags_ok (cs @ [c]) (add_claim b c)"
    using ok new true unfolding build_ok_def flags_ok_def e by (auto simp: first_snoc true_snoc)
  moreover have "aliases_ok (cs @ [c]) (bd_aliases (add_claim b c))"
    using ok alias_mem [of c "cs @ [c]"] aliases_keep [of cs "bd_aliases b" c] aliases_put [of cs "bd_aliases b" c]
    by (simp add: build_ok_def e(6))
  ultimately show ?thesis using ok claim_terms_new [OF new] by (simp add: build_ok_def e)
qed

lemma build_seen:
  assumes ok: "build_ok cs b" and old: "first_claim cs (slug_of c) = Some f"
  shows "build_ok (cs @ [c]) (add_claim b c)"
proof -
  let ?s = "slug_of c"
  have slots: "slots_ok cs b" and flags: "gget (bd_owner_alias b) ?s = Some True \<longleftrightarrow> true_claim cs ?s = None"
    using ok old by (simp_all add: build_ok_def flags_ok_def)
  have pos: "gget (bd_by_slug b) ?s = pos_of 0 (bd_entries b) ?s" and d: "distinct (map slug_of (bd_entries b))"
    and find: "\<And>s. find (\<lambda>e. slug_of e = s) (bd_entries b) = owner cs s"
    using slots by (simp_all add: slots_ok_def)
  obtain i where i: "gget (bd_by_slug b) ?s = Some i" using slots_find [OF slots, of ?s] old by auto
  have at: "i < length (bd_entries b)" "slug_of (bd_entries b ! i) = ?s" using pos_of_Some [of 0 "bd_entries b" ?s i] i pos by auto
  have own: "owner cs ?s = Some (bd_entries b ! i)" using find [of ?s] find_pos [of ?s "bd_entries b" 0] i pos by simp
  have first: "first_claim (cs @ [c]) s = first_claim cs s" for s using old by (auto simp: first_snoc)
  have terms: "claim_terms f (cs @ [c]) t = claim_terms f cs t" for f t using old by (intro claim_terms_old) simp
  consider (points) "own_slug c \<noteq> ?s" | (taken) "own_slug c = ?s" "true_claim cs ?s \<noteq> None"
    | (squat) "own_slug c = ?s" "true_claim cs ?s = None" by blast
  then show ?thesis
  proof cases
    case points
    then have e: "add_claim b c = b\<lparr>bd_aliases := gput (bd_aliases b) (own_slug c) ?s\<rparr>"
      using i by (simp add: add_claim_def add_page_def Let_def)
    have true: "true_claim (cs @ [c]) s = true_claim cs s" for s using points by (auto simp: true_snoc)
    have "owner (cs @ [c]) = owner cs" by (simp add: owner_def first true fun_eq_iff cong del: option.case_cong_weak)
    then show ?thesis
      using ok terms first true aliases_put [of cs "bd_aliases b" c] alias_mem [of c "cs @ [c]"] points
      by (simp add: build_ok_def e slots_ok_def flags_ok_def)
  next
    case taken
    then have e: "add_claim b c = b" using i flags by (simp add: add_claim_def add_page_def Let_def)
    have true: "true_claim (cs @ [c]) s = true_claim cs s" for s using taken by (auto simp: true_snoc)
    have "owner (cs @ [c]) = owner cs" by (simp add: owner_def first true fun_eq_iff cong del: option.case_cong_weak)
    then show ?thesis
      using ok terms first true aliases_keep [of cs "bd_aliases b" c] taken
      by (simp add: build_ok_def e slots_ok_def flags_ok_def)
  next
    case squat
    let ?old = "bd_entries b ! i"
    have e: "add_claim b c = b\<lparr>bd_aliases := gput (bd_aliases b) (own_slug ?old) ?s, bd_entries := (bd_entries b)[i := c],
        bd_owner_alias := gput (bd_owner_alias b) ?s False\<rparr>"
      using i squat flags by (simp add: add_claim_def add_page_def Let_def own_slug_def)
    have true: "true_claim (cs @ [c]) s = (if s = ?s then Some c else true_claim cs s)" for s
      using squat by (auto simp: true_snoc)
    have owner': "owner (cs @ [c]) s = (if s = ?s then Some c else owner cs s)" for s
      by (simp add: owner_def first true cong del: option.case_cong_weak)
    have "alias_at (cs @ [c]) (own_slug ?old) ?s"
      using owner_claim [OF own] owner_alias [OF own squat(2)] alias_mem [of ?old "cs @ [c]"] by simp
    then have "aliases_ok (cs @ [c]) (gput (bd_aliases b) (own_slug ?old) ?s)"
      using ok squat by (intro aliases_put) (simp_all add: build_ok_def)
    moreover have "map slug_of ((bd_entries b)[i := c]) = map slug_of (bd_entries b)"
      using at by (simp add: map_update list_update_same_conv)
    moreover have "pos_of 0 ((bd_entries b)[i := c]) s = pos_of 0 (bd_entries b) s" for s
      by (rule pos_of_update) (simp add: at)
    moreover have "find (\<lambda>e. slug_of e = s) ((bd_entries b)[i := c]) = owner (cs @ [c]) s" for s
      using find_update [OF d at(1), of c s] at find by (simp add: owner')
    moreover have "flags_ok (cs @ [c]) (add_claim b c)"
      using ok first true old by (simp add: build_ok_def flags_ok_def e)
    ultimately show ?thesis using ok terms by (simp add: build_ok_def e slots_ok_def)
  qed
qed

lemma build_claims: "build_ok cs b \<Longrightarrow> build_ok (cs @ ds) (foldl add_claim b ds)"
proof (induction ds arbitrary: cs b)
  case (Cons d ds)
  have "build_ok (cs @ [d]) (add_claim b d)"
    using Cons.prems build_new build_seen by (cases "first_claim cs (slug_of d)") blast+
  then show ?case using Cons.IH [of "cs @ [d]"] by simp
qed simp

definition empty_build :: site_build where
  "empty_build = \<lparr>bd_entries = [], bd_by_slug = [], bd_aliases = [], bd_owner_alias = [], bd_tags = [], bd_categories = []\<rparr>"

lemma build_empty: "build_ok [] empty_build"
  by (simp add: build_ok_def slots_ok_def flags_ok_def aliases_ok_def alias_at_def claim_terms_def owner_def
      first_claim_def true_claim_def empty_build_def)

section \<open>Sorting\<close>

lemma mset_insert_before [simp]: "mset (insert_before lt x ys) = add_mset x (mset ys)"
  by (induction ys) auto

lemma mset_stable_sort [simp]: "mset (stable_sort lt xs) = mset xs"
  by (induction xs) (simp_all add: stable_sort_def)

lemma set_stable_sort [simp]: "set (stable_sort lt xs) = set xs"
  by (metis mset_stable_sort set_mset_mset)

lemma sorted_insert_before:
  assumes "\<And>a b. lt a b \<Longrightarrow> \<not> lt b a" "\<And>a b c. lt a c \<Longrightarrow> lt a b \<or> lt b c"
  shows "sorted_wrt (\<lambda>a b. \<not> lt b a) ys \<Longrightarrow> sorted_wrt (\<lambda>a b. \<not> lt b a) (insert_before lt x ys)"
proof (induction ys)
  case (Cons y ys)
  show ?case
  proof (cases "lt y x")
    case True
    have "set (insert_before lt x ys) = insert x (set ys)" by (metis mset_insert_before set_mset_add_mset_insert set_mset_mset)
    then show ?thesis using Cons True assms(1) by simp
  next
    case False
    then have "\<not> lt z x" if "z \<in> set ys" for z using Cons.prems assms(2) [of z x y] that by auto
    then show ?thesis using Cons.prems False by simp
  qed
qed simp

lemma sorted_stable_sort:
  assumes "\<And>a b. lt a b \<Longrightarrow> \<not> lt b a" "\<And>a b c. lt a c \<Longrightarrow> lt a b \<or> lt b c"
  shows "sorted_wrt (\<lambda>a b. \<not> lt b a) (stable_sort lt xs)"
  by (induction xs) (simp_all add: stable_sort_def sorted_insert_before assms)

lemma entry_before_order:
  "entry_before a b \<Longrightarrow> \<not> entry_before b a" "entry_before a c \<Longrightarrow> entry_before a b \<or> entry_before b c"
  by (auto simp: entry_before_def split: if_splits)

lemma hit_before_order: "hit_before a b \<Longrightarrow> \<not> hit_before b a" "hit_before a c \<Longrightarrow> hit_before a b \<or> hit_before b c"
  by (auto simp: hit_before_def split: if_splits)

section \<open>What the index promises\<close>

definition index_lang :: "site_config \<Rightarrow> string" where
  "index_lang cfg = (if sc_default_lang cfg = '''' then ''en'' else sc_default_lang cfg)"

lemma distinct_slugs_sort: "distinct (map slug_of es) \<Longrightarrow> distinct (map slug_of (stable_sort lt es))"
  by (metis mset_map mset_stable_sort mset_eq_imp_distinct_iff)

lemma NewIndex_build:
  assumes "NewIndex S cfg now root (Some es) = Inr idx" "trim_space (sc_site_root cfg) \<noteq> ''''"
  obtains b where "build_ok (site_claims S cfg (index_lang cfg) es) b" "pi_entries idx = stable_sort entry_before (bd_entries b)"
    "pi_by_slug idx = index_entries 0 (pi_entries idx) []" "pi_aliases idx = bd_aliases b"
    "pi_tags idx = sort (remdups (bd_tags b))" "pi_categories idx = sort (remdups (bd_categories b))"
proof -
  obtain n b where walk: "walk_site S cfg (index_lang cfg) n es empty_build = Inr b" and idx: "pi_entries idx = stable_sort entry_before (bd_entries b)"
    "pi_by_slug idx = index_entries 0 (pi_entries idx) []" "pi_aliases idx = bd_aliases b"
    "pi_tags idx = sort (remdups (bd_tags b))" "pi_categories idx = sort (remdups (bd_categories b))"
    using assms by (auto simp: NewIndex_def Let_def index_lang_def empty_build_def split: sum.splits if_splits)
  have "build_ok (site_claims S cfg (index_lang cfg) es) b"
    using build_claims [OF build_empty] walk_site_claims [OF walk] by simp
  then show thesis using idx that by blast
qed

lemma NewIndex_ok:
  assumes "NewIndex S cfg now root walk = Inr idx"
  shows "public_ok idx"
proof (cases "trim_space (sc_site_root cfg) = ''''")
  case True
  then show ?thesis using assms by (auto simp: NewIndex_def public_ok_def Let_def)
next
  case False
  then obtain es where "walk = Some es" using assms by (auto simp: NewIndex_def Let_def split: sum.splits option.splits)
  then obtain b where b: "build_ok (site_claims S cfg (index_lang cfg) es) b" "pi_entries idx = stable_sort entry_before (bd_entries b)"
    "pi_by_slug idx = index_entries 0 (pi_entries idx) []" using NewIndex_build assms False by metis
  then have d: "distinct (map slug_of (pi_entries idx))" by (simp add: distinct_slugs_sort build_ok_def slots_ok_def)
  then show ?thesis using b(3) by (auto simp: public_ok_def index_entries_get split: option.splits)
qed

datatype site_op = SiteUpsert public_page | SiteRemove string

fun site_step :: "public_index \<Rightarrow> site_op \<Rightarrow> public_index" where
  "site_step idx (SiteUpsert p) = UpsertPage idx p"
| "site_step idx (SiteRemove s) = RemoveBySlug idx s"

fun site_spec :: "(string \<Rightarrow> public_page option) \<Rightarrow> site_op \<Rightarrow> string \<Rightarrow> public_page option" where
  "site_spec m (SiteUpsert p) = m(public_normalizeSlug (up_slug p) \<mapsto> p\<lparr>up_slug := public_normalizeSlug (up_slug p)\<rparr>)"
| "site_spec m (SiteRemove s) = m(public_normalizeSlug s := None)"

lemma site_run: "public_ok idx \<Longrightarrow> public_ok (foldl site_step idx ops) \<and> site_map (foldl site_step idx ops) = foldl site_spec (site_map idx) ops"
proof (induction ops arbitrary: idx)
  case (Cons op ops)
  have "public_ok (site_step idx op) \<and> site_map (site_step idx op) = site_spec (site_map idx) op"
    using upsert_ok remove_ok Cons.prems by (cases op) auto
  then show ?case using Cons.IH by simp
qed simp

lemma public_lookup_map: "public_ok idx \<Longrightarrow> slug \<noteq> '''' \<Longrightarrow> public_GetBySlug idx slug = site_map idx (public_normalizeSlug slug)"
  using page_of_pos [of "pi_entries idx" "public_normalizeSlug slug" 0] by (simp add: public_GetBySlug_def site_map_def public_ok_def)

lemma sitemap_map: "public_ok idx \<Longrightarrow> distinct (map up_slug (Sitemap idx)) \<and> (p \<in> set (Sitemap idx) \<longleftrightarrow> site_map idx (up_slug p) = Some p)"
proof -
  have "p \<in> fst ` set es \<longleftrightarrow> page_of es (up_slug p) = Some p" if "distinct (map slug_of es)" for es :: "site_entry list"
    using that by (induction es) (auto simp: image_iff)
  then show "public_ok idx \<Longrightarrow> ?thesis" by (simp add: public_ok_def site_map_def Sitemap_def comp_def)
qed

text \<open>
  The index of the built site is a map from slug to page. Whatever was walked, and after any sequence of
  insertions of a page and removals of a slug, a lookup answers what the map built by these updates holds at
  the normalised slug, and the site map lists exactly the map's pages, each slug once. In particular the
  positions kept beside the pages never point at another page after a removal has shifted them.
\<close>

theorem public_index_is_map:
  assumes new: "NewIndex S cfg now root walk = Inr idx" and slug: "slug \<noteq> ''''"
  shows "public_GetBySlug (foldl site_step idx ops) slug = foldl site_spec (site_map idx) ops (public_normalizeSlug slug) \<and>
    distinct (map up_slug (Sitemap (foldl site_step idx ops))) \<and>
    (p \<in> set (Sitemap (foldl site_step idx ops)) \<longleftrightarrow> foldl site_spec (site_map idx) ops (up_slug p) = Some p)"
  using public_lookup_map [OF _ slug] sitemap_map site_run [OF NewIndex_ok [OF new]] by metis

text \<open>
  C36. The index shows at every slug the page of the file that owns it: the first file lying where the slug
  says, or, when there is none, the first file whose canonical link names it; so a file that only points
  elsewhere never hides the page it points at, in whatever order the walk meets them. The alias table tells
  exactly the locations of the files that point elsewhere, each with a target one of them names; the entries
  are in order, newest first and by slug within a date; and the tags and categories offered are those of the
  first file that claims each slug, which is not always the owner the index shows.
\<close>

theorem site_index_owners:
  assumes "NewIndex S cfg now root (Some es) = Inr idx" "trim_space (sc_site_root cfg) \<noteq> ''''"
  shows "site_map idx s = map_option fst (owner (site_claims S cfg (index_lang cfg) es) s) \<and>
    (case gget (pi_aliases idx) a of
       Some t \<Rightarrow> alias_at (site_claims S cfg (index_lang cfg) es) a t
     | None \<Rightarrow> \<forall>t. \<not> alias_at (site_claims S cfg (index_lang cfg) es) a t) \<and>
    sorted_wrt (\<lambda>x y. \<not> entry_before y x) (pi_entries idx) \<and>
    (t \<in> set (pi_tags idx) \<longleftrightarrow> claim_terms up_tags (site_claims S cfg (index_lang cfg) es) t) \<and>
    (t \<in> set (pi_categories idx) \<longleftrightarrow> claim_terms up_categories (site_claims S cfg (index_lang cfg) es) t)"
proof -
  obtain b where b: "build_ok (site_claims S cfg (index_lang cfg) es) b" "pi_entries idx = stable_sort entry_before (bd_entries b)"
    "pi_aliases idx = bd_aliases b" "pi_tags idx = sort (remdups (bd_tags b))" "pi_categories idx = sort (remdups (bd_categories b))"
    using NewIndex_build assms by metis
  have "page_of (pi_entries idx) s = page_of (bd_entries b) s"
    using b(1,2) by (intro page_of_perm) (simp_all add: distinct_slugs_sort build_ok_def slots_ok_def)
  then show ?thesis
    using b sorted_stable_sort [of entry_before] entry_before_order
    by (simp add: build_ok_def slots_ok_def aliases_ok_def site_map_def page_of_def)
qed

text \<open>
  A search returns the best matches: its result continues to a list of all the content pages that match
  at least one term, each with the number of the terms it matches, in which no page stands before one with a
  higher score, nor before one of the same score with a later date; and it is cut only at the limit asked for.
\<close>

theorem search_best_first:
  "\<exists>rest. mset (SearchScored lower idx query limit @ rest) =
       mset (filter (\<lambda>h. 0 < snd h) (map (\<lambda>p. (p, scoreEntry lower p (go_fields (lower query)))) (ContentPages idx))) \<and>
     sorted_wrt (\<lambda>a b. \<not> hit_before b a) (SearchScored lower idx query limit @ rest) \<and>
     (rest = [] \<or> int (length (SearchScored lower idx query limit)) = limit)"
proof -
  let ?hits = "filter (\<lambda>h. 0 < snd h) (map (\<lambda>p. (p, scoreEntry lower p (go_fields (lower query)))) (ContentPages idx))"
  let ?all = "stable_sort hit_before ?hits"
  define n where "n = (if limit \<le> 0 \<or> int (length (ContentPages idx)) < limit then length (ContentPages idx) else nat limit)"
  have res: "SearchScored lower idx query limit = take n ?all" by (simp add: SearchScored_def Let_def n_def)
  have "length ?all \<le> length (ContentPages idx)"
    by (metis length_filter_le length_map mset_stable_sort size_mset)
  then have "drop n ?all = [] \<or> int (length (take n ?all)) = limit" by (auto simp: n_def min_def)
  moreover have "mset (take n ?all @ drop n ?all) = mset ?hits" by (simp del: mset_append mset_filter mset_map)
  moreover have "sorted_wrt (\<lambda>a b. \<not> hit_before b a) (take n ?all @ drop n ?all)"
    using sorted_stable_sort [of hit_before ?hits] hit_before_order by (simp del: sorted_wrt_append)
  ultimately show ?thesis unfolding res by blast
qed

section \<open>A small site\<close>

text \<open>A page that names another as canonical, met before the page it names; each has a tag of its own.\<close>

definition tag_node :: "string \<Rightarrow> html" where
  "tag_node t = Elem ''meta'' [(''property'', ''article:tag''), (''content'', t)] []"

definition site_sample_lib :: site_lib where
  "site_sample_lib = \<lparr>sl_page = \<lparr>pl_yaml = (\<lambda>s. None), pl_toml = (\<lambda>s. None), pl_sprint = (\<lambda>v. ''''),
                    pl_format_time = (\<lambda>t. ''''), pl_parse_time = (\<lambda>l s. None)\<rparr>,
     sl_parse = (\<lambda>raw. Some (Elem ''html'' [] (if raw = ''alias''
        then [Elem ''link'' [(''rel'', ''canonical''), (''href'', ''/b/'')] [], tag_node ''old''] else [tag_node ''new'']))),
     sl_render = (\<lambda>ns. ''''), sl_fold = (=), sl_case = \<lparr>ct_lower = (\<lambda>s. s), ct_title = (\<lambda>s. s)\<rparr>,
     sl_upper = (\<lambda>s. s), sl_unescape = Some\<rparr>"

definition two_page_site :: site_config where
  "two_page_site = \<lparr>sc_site_root = ''/srv'', sc_site_name = '''', sc_site_url = '''', sc_default_lang = '''',
     sc_reject_hidden = True, sc_reject_symlinks = True, sc_max_entries = 0, sc_verification = []\<rparr>"

definition sample_walk :: "walk_entry list" where
  "sample_walk =
     [\<lparr>wk_rel = ''a/index.html'', wk_dir = False, wk_link = False, wk_mod = Some 5, wk_raw = Some ''alias''\<rparr>,
      \<lparr>wk_rel = ''b/index.html'', wk_dir = False, wk_link = False, wk_mod = Some 7, wk_raw = Some ''page''\<rparr>]"

definition sample_claim :: "string \<Rightarrow> string \<Rightarrow> string \<Rightarrow> time \<Rightarrow> site_entry" where
  "sample_claim raw t rel at =
     (\<lparr>up_slug = ''/b/'', up_title = ''b'', up_summary = '''', up_tags = [t], up_categories = [], up_date = '''',
       up_url = ''/b/'', up_lang = ''en'', up_html = raw, up_output = rel\<rparr>, at)"

lemma sample_claims: "site_claims site_sample_lib two_page_site ''en'' sample_walk =
    [sample_claim ''alias'' ''old'' ''a/index.html'' 5, sample_claim ''page'' ''new'' ''b/index.html'' 7]"
  by code_simp

definition sample_index :: public_index where
  "sample_index = \<lparr>pi_entries = [sample_claim ''page'' ''new'' ''b/index.html'' 7], pi_by_slug = [(''/b/'', 0)],
     pi_aliases = [(''/a/'', ''/b/'')], pi_tags = [''old''], pi_categories = [],
     pi_info = [(''name'', ''''), (''url'', ''''), (''lang'', ''en'')],
     pi_classifier = Some \<lparr>cl_sections = [''posts''], cl_taxonomies = taxonomy_roots, cl_verification = []\<rparr>,
     pi_built = 9, pi_verification = []\<rparr>"

lemma sample_new: "NewIndex site_sample_lib two_page_site 9 (Inr ''/srv'') (Some sample_walk) = Inr sample_index"
  by code_simp

lemma sample_lang: "index_lang two_page_site = ''en''" "trim_space (sc_site_root two_page_site) \<noteq> ''''"
  by code_simp+

lemma site_sample_shown: "map_option up_output (map_option fst (owner (site_claims site_sample_lib two_page_site ''en'' sample_walk) ''/b/'')) = Some ''b/index.html''"
  "alias_at (site_claims site_sample_lib two_page_site ''en'' sample_walk) ''/a/'' ''/b/''"
  "first_claim (site_claims site_sample_lib two_page_site ''en'' sample_walk) s =
     (if s = ''/b/'' then Some (sample_claim ''alias'' ''old'' ''a/index.html'' 5) else None)"
  unfolding sample_claims by code_simp (code_simp, simp add: first_claim_def sample_claim_def)

lemma sample_terms: "\<not> claim_terms up_tags (site_claims site_sample_lib two_page_site ''en'' sample_walk) ''new''"
  by (simp add: claim_terms_def site_sample_shown(3) sample_claim_def)

lemma public_index_is_map_witness:
  "public_GetBySlug (foldl site_step sample_index [SiteUpsert (bare_page ''/c''), SiteRemove ''/b'']) ''c'' = Some (bare_page ''/c/'')"
proof -
  have "public_normalizeSlug ''c'' = ''/c/''" "public_normalizeSlug ''/c'' = ''/c/''" "public_normalizeSlug ''/b'' = ''/b/''"
    by code_simp+
  then show ?thesis
    using public_index_is_map [OF sample_new, of "''c''" "[SiteUpsert (bare_page ''/c''), SiteRemove ''/b'']" "bare_page ''''"]
    by (simp add: bare_page_def)
qed

text \<open>The page shown is the one that lies there, and its own tag is not offered.\<close>

lemma site_index_owners_witness:
  "map_option up_output (site_map sample_index ''/b/'') = Some ''b/index.html'' \<and>
   gget (pi_aliases sample_index) ''/a/'' \<noteq> None \<and> ''new'' \<notin> set (pi_tags sample_index)"
  using site_index_owners [OF sample_new sample_lang(2), of "''/b/''" "''/a/''" "''new''"] site_sample_shown(1,2) sample_terms
  unfolding sample_lang(1) by (auto split: option.splits)

end
