(* ===== verification/PageResolver.thy ===== *)
theory PageResolver
  imports SiteOwners
begin

text \<open>
  The resolution of a slug to the rendered page and the source it stands for (\<open>internal/site/resolver.go\<close>),
  the state shown for what was resolved (\<open>lifecycle_state.go\<close>) and the view of readers
  (\<open>access_profile.go\<close>), and that an explicit language is never answered by a page of another one.
\<close>

section \<open>Slugs and languages\<close>

definition normalizeResolverSlugs :: "string \<Rightarrow> string \<times> string" where
  "normalizeResolverSlugs raw0 =
     (let raw = trim_space raw0
      in if raw = '''' then ('''', '''') else (public_normalizeSlug raw, trim_char CHR ''/'' (public_normalizeSlug raw)))"

definition languagePrefixFromSlug :: "string \<Rightarrow> string" where
  "languagePrefixFromSlug slug =
     (let parts = split_on CHR ''/'' (trim_char CHR ''/'' slug)
      in if parts = [] \<or> hd parts = '''' then ''''
         else if length (stripLanguagePrefix parts) = length parts then '''' else hd parts)"

definition LanguagePrefixFromSlug :: "string \<Rightarrow> string" where
  "LanguagePrefixFromSlug raw = languagePrefixFromSlug (fst (normalizeResolverSlugs raw))"

definition trimIndexSlugSegment :: "string \<Rightarrow> string" where
  "trimIndexSlugSegment slug =
     (let parts = split_on CHR ''/'' slug
      in if takeWhile (\<lambda>c. c \<noteq> CHR ''.'') (last parts) \<noteq> ''_index'' then slug else join_with ''/'' (butlast parts))"

definition canonicalPublicSlugForSourceLang :: "string \<Rightarrow> string \<Rightarrow> string \<Rightarrow> string" where
  "canonicalPublicSlugForSourceLang sourceSlug0 lang0 defaultLang =
     (let sourceSlug1 = trim_char CHR ''/'' sourceSlug0
      in if sourceSlug1 = '''' then ''''
         else (let sourceSlug = trimIndexSlugSegment sourceSlug1; lang = trim_space lang0
               in if lang = '''' \<or> lang = trim_space defaultLang then public_normalizeSlug sourceSlug
                  else if sourceSlug = '''' then public_normalizeSlug (''/'' @ lang)
                  else public_normalizeSlug (''/'' @ lang @ ''/'' @ sourceSlug)))"

definition PublicSlugForSourceLang :: "string \<Rightarrow> string \<Rightarrow> string \<Rightarrow> string" where
  "PublicSlugForSourceLang sourceSlug lang defaultLang = canonicalPublicSlugForSourceLang sourceSlug lang defaultLang"

definition pageMatchesExplicitLang :: "public_page \<Rightarrow> string \<Rightarrow> string \<Rightarrow> bool" where
  "pageMatchesExplicitLang p lang0 defaultLang =
     (let lang = trim_space lang0; pageLang = trim_space (up_lang p); prefix = languagePrefixFromSlug (up_slug p)
      in if lang = '''' then True
         else if pageLang \<noteq> '''' then pageLang = lang
         else if prefix \<noteq> '''' then prefix = lang
         else lang = trim_space defaultLang)"

definition rootIndexCandidates :: "string \<Rightarrow> string list" where
  "rootIndexCandidates lang = (if lang = '''' then [''_index''] else [''_index.'' @ lang, ''_index''])"

definition SourceSlugCandidates :: "string \<Rightarrow> string list" where
  "SourceSlugCandidates sourceSlug0 =
     (let sourceSlug = trim_char CHR ''/'' sourceSlug0;
          langless = join_with ''/'' (stripLanguagePrefix (split_on CHR ''/'' sourceSlug))
      in if sourceSlug = '''' then []
         else if langless \<noteq> '''' \<and> langless \<noteq> sourceSlug then [sourceSlug, langless] else [sourceSlug])"

definition sourceSlugCandidatesForRequest :: "string \<Rightarrow> string \<Rightarrow> string list" where
  "sourceSlugCandidatesForRequest sourceSlug lang0 =
     (let trimmed = trim_char CHR ''/'' sourceSlug; lang = trim_space lang0
      in if trimmed = '''' then rootIndexCandidates lang
         else SourceSlugCandidates sourceSlug @ (if lang \<noteq> '''' \<and> trimmed = lang then rootIndexCandidates lang else []))"

section \<open>The resolver\<close>

record resolved_page =
  rp_public :: "public_page option"
  rp_source :: "source_page option"
  rp_source_path :: string
  rp_slug :: string
  rp_lang :: string

record page_resolver =
  rv_index :: "public_index option"
  rv_sources :: "source_index option"
  rv_default_lang :: string

definition no_page :: resolved_page where
  "no_page = \<lparr>rp_public = None, rp_source = None, rp_source_path = '''', rp_slug = '''', rp_lang = ''''\<rparr>"

definition found_page :: "resolved_page \<Rightarrow> bool" where
  "found_page out \<longleftrightarrow> rp_public out \<noteq> None \<or> rp_source out \<noteq> None"

text \<open>The answer of the first candidate that has one.\<close>

fun first_hit :: "('a \<Rightarrow> 'b option) \<Rightarrow> 'a list \<Rightarrow> 'b option" where
  "first_hit f [] = None"
| "first_hit f (x # xs) = (case f x of Some y \<Rightarrow> Some y | None \<Rightarrow> first_hit f xs)"

definition resolveSourceExact :: "page_resolver \<Rightarrow> string \<Rightarrow> string \<Rightarrow> source_page option" where
  "resolveSourceExact R sourceSlug lang =
     (case rv_sources R of
        None \<Rightarrow> None
      | Some src \<Rightarrow>
          if trim_space lang = '''' then None
          else first_hit (\<lambda>c. GetBySlugLang src c lang) (sourceSlugCandidatesForRequest sourceSlug lang))"

definition resolveUnlabelledSource :: "page_resolver \<Rightarrow> string \<Rightarrow> source_page option" where
  "resolveUnlabelledSource R sourceSlug =
     (case rv_sources R of
        None \<Rightarrow> None
      | Some src \<Rightarrow> first_hit (GetDefaultBySlug src) (sourceSlugCandidatesForRequest sourceSlug ''''))"

definition resolveSourceForRequestedLang :: "page_resolver \<Rightarrow> string \<Rightarrow> string \<Rightarrow> source_page option" where
  "resolveSourceForRequestedLang R sourceSlug lang =
     (case resolveSourceExact R sourceSlug lang of
        Some p \<Rightarrow> Some p
      | None \<Rightarrow>
          if trim_space lang = trim_space (rv_default_lang R) then resolveUnlabelledSource R sourceSlug else None)"

definition resolvePublicForSourceLang :: "page_resolver \<Rightarrow> string \<Rightarrow> string \<Rightarrow> public_page option" where
  "resolvePublicForSourceLang R sourceSlug0 lang0 =
     (case rv_index R of
        None \<Rightarrow> None
      | Some idx \<Rightarrow>
          (let sourceSlug = trim_char CHR ''/'' sourceSlug0; lang = trim_space lang0
           in if sourceSlug = '''' \<or> lang = '''' then None
              else public_GetBySlug idx (canonicalPublicSlugForSourceLang sourceSlug lang (rv_default_lang R))))"

definition resolveDefaultSource :: "page_resolver \<Rightarrow> string \<Rightarrow> source_page option" where
  "resolveDefaultSource R sourceSlug =
     (case rv_sources R of
        None \<Rightarrow> None
      | Some src \<Rightarrow>
          (let lang = rv_default_lang R; candidates = sourceSlugCandidatesForRequest sourceSlug lang
           in case (if lang = '''' then None else first_hit (\<lambda>c. GetBySlugLang src c lang) candidates) of
                Some p \<Rightarrow> Some p
              | None \<Rightarrow>
                  (case resolveUnlabelledSource R sourceSlug of
                     Some p \<Rightarrow> Some p
                   | None \<Rightarrow> first_hit (GetBySlug src) candidates)))"

definition with_source :: "resolved_page \<Rightarrow> source_page option \<Rightarrow> resolved_page" where
  "with_source out src =
     (case src of None \<Rightarrow> out | Some p \<Rightarrow> out\<lparr>rp_source := Some p, rp_source_path := pg_file_path p\<rparr>)"

definition resolveImplicit :: "page_resolver \<Rightarrow> string \<Rightarrow> string \<Rightarrow> resolved_page" where
  "resolveImplicit R publicSlug sourceSlug0 =
     (let requestedLang = languagePrefixFromSlug publicSlug;
          public = Option.bind (rv_index R) (\<lambda>idx. public_GetBySlug idx publicSlug);
          out = no_page\<lparr>rp_slug := publicSlug, rp_lang := requestedLang, rp_public := public\<rparr>;
          resolvedLang = (case public of Some p \<Rightarrow> if trim_space (up_lang p) \<noteq> '''' then up_lang p else requestedLang
                          | None \<Rightarrow> requestedLang);
          sourceSlug = (case public of Some p \<Rightarrow> snd (normalizeResolverSlugs (up_slug p)) | None \<Rightarrow> sourceSlug0);
          src = (if requestedLang \<noteq> ''''
                 then (case resolveSourceExact R sourceSlug resolvedLang of
                         Some p \<Rightarrow> Some p
                       | None \<Rightarrow>
                           (case public of
                              None \<Rightarrow> None
                            | Some pub \<Rightarrow>
                                if trim_space (up_lang pub) = '''' \<or> trim_space resolvedLang = trim_space (rv_default_lang R)
                                then resolveUnlabelledSource R sourceSlug else None))
                 else if resolvedLang \<noteq> '''' then resolveSourceForRequestedLang R sourceSlug resolvedLang
                 else resolveDefaultSource R sourceSlug);
          out1 = with_source out src
      in case src of
           None \<Rightarrow> out1
         | Some p \<Rightarrow>
             if public = None \<and> requestedLang = ''''
             then out1\<lparr>rp_public := Option.bind (rv_index R) (\<lambda>idx. public_GetBySlug idx (''/'' @ pg_slug p @ ''/''))\<rparr>
             else out1)"

text \<open>The page that the index holds at a slug, if its language is the one asked for.\<close>

definition page_in_lang :: "page_resolver \<Rightarrow> string \<Rightarrow> public_page option \<Rightarrow> public_page option" where
  "page_in_lang R lang p =
     (case p of None \<Rightarrow> None | Some q \<Rightarrow> if pageMatchesExplicitLang q lang (rv_default_lang R) then Some q else None)"

definition resolveExplicit :: "page_resolver \<Rightarrow> string \<Rightarrow> string \<Rightarrow> string \<Rightarrow> resolved_page" where
  "resolveExplicit R publicSlug sourceSlug0 lang =
     (let src = resolveSourceForRequestedLang R sourceSlug0 lang;
          out1 = with_source (no_page\<lparr>rp_slug := publicSlug, rp_lang := lang\<rparr>) src;
          sourceSlug1 = (case src of Some p \<Rightarrow> pg_slug p | None \<Rightarrow> sourceSlug0);
          own = page_in_lang R lang (resolvePublicForSourceLang R sourceSlug1 lang);
          named = page_in_lang R lang (Option.bind (rv_index R) (\<lambda>idx. public_GetBySlug idx publicSlug))
      in case own of
           Some p \<Rightarrow>
             (if src = None
              then with_source (out1\<lparr>rp_public := Some p\<rparr>) (resolveSourceForRequestedLang R sourceSlug1 lang)
              else out1\<lparr>rp_public := Some p\<rparr>)
         | None \<Rightarrow>
             (case named of
                None \<Rightarrow> out1
              | Some p \<Rightarrow>
                  if src = None
                  then with_source (out1\<lparr>rp_public := Some p\<rparr>)
                         (resolveSourceForRequestedLang R (snd (normalizeResolverSlugs (up_slug p))) lang)
                  else out1\<lparr>rp_public := Some p\<rparr>))"

definition ResolveWithLang :: "page_resolver \<Rightarrow> string \<Rightarrow> string \<Rightarrow> resolved_page \<times> bool" where
  "ResolveWithLang R rawSlug explicitLang0 =
     (let (publicSlug, sourceSlug) = normalizeResolverSlugs rawSlug; explicitLang = trim_space explicitLang0;
          prefixedLang = languagePrefixFromSlug publicSlug
      in if publicSlug = '''' \<and> sourceSlug = '''' then (no_page, False)
         else if explicitLang = ''''
         then (let out = resolveImplicit R publicSlug sourceSlug in (out, found_page out))
         else if prefixedLang \<noteq> '''' \<and> prefixedLang \<noteq> explicitLang then (no_page, False)
         else (let out = resolveExplicit R publicSlug sourceSlug explicitLang in (out, found_page out)))"

definition resolve_page :: "page_resolver \<Rightarrow> string \<Rightarrow> resolved_page \<times> bool" where
  "resolve_page R rawSlug = ResolveWithLang R rawSlug ''''"

section \<open>What is shown of a resolved page\<close>

record page_lifecycle =
  ls_source :: string
  ls_build :: string
  ls_public :: string
  ls_index :: string

definition publicHTMLPath :: "string \<Rightarrow> string \<Rightarrow> string" where
  "publicHTMLPath siteRoot slug =
     (let trimmed = trim_char CHR ''/'' slug
      in if trimmed = '''' then path_join [siteRoot, ''index.html''] else path_join [siteRoot, trimmed, ''index.html''])"

text \<open>\<open>mtime\<close> answers \<open>os.Stat\<close>: the time a file was changed.\<close>

definition sourceNewerThanPublicOutput :: "(string \<Rightarrow> time option) \<Rightarrow> resolved_page \<Rightarrow> string \<Rightarrow> bool" where
  "sourceNewerThanPublicOutput mtime r siteRoot =
     (case (rp_public r, rp_source r) of
        (Some pub, Some src) \<Rightarrow>
          siteRoot \<noteq> '''' \<and> pg_file_path src \<noteq> '''' \<and>
          (case (mtime (pg_file_path src), mtime (publicHTMLPath siteRoot (up_slug pub))) of
             (Some s, Some p) \<Rightarrow> p < s
           | _ \<Rightarrow> False)
      | _ \<Rightarrow> False)"

definition StateForResolvedPage :: "(string \<Rightarrow> time option) \<Rightarrow> resolved_page \<Rightarrow> string \<Rightarrow> page_lifecycle" where
  "StateForResolvedPage mtime r siteRoot =
     (case rp_public r of
        Some pub \<Rightarrow>
          (case rp_source r of
             None \<Rightarrow> \<lparr>ls_source = ''absent'', ls_build = ''built'', ls_public = ''available'', ls_index = ''fresh''\<rparr>
           | Some src \<Rightarrow>
               if pg_pending src \<or> sourceNewerThanPublicOutput mtime r siteRoot
               then \<lparr>ls_source = ''present'', ls_build = ''pending'', ls_public = ''stale'', ls_index = ''stale''\<rparr>
               else \<lparr>ls_source = ''present'', ls_build = ''built'', ls_public = ''available'', ls_index = ''fresh''\<rparr>)
      | None \<Rightarrow>
          (case rp_source r of
             Some src \<Rightarrow> \<lparr>ls_source = ''present'', ls_build = ''pending'', ls_public = ''not_yet_available'', ls_index = ''source_only''\<rparr>
           | None \<Rightarrow> \<lparr>ls_source = '''', ls_build = '''', ls_public = '''', ls_index = ''''\<rparr>))"

definition ReaderSafeResolvedPage :: "resolved_page \<Rightarrow> resolved_page \<times> bool" where
  "ReaderSafeResolvedPage r =
     (if rp_public r = None then (no_page, False) else (no_page\<lparr>rp_public := rp_public r\<rparr>, True))"

section \<open>Slugs of plain segments\<close>

definition site_slug :: "string list \<Rightarrow> string" where
  "site_slug segs = ''/'' @ join_with ''/'' segs @ ''/''"

lemma squeeze_word: "CHR ''/'' \<notin> set w \<Longrightarrow> squeeze (w @ t) = w @ squeeze t"
proof (induction w)
  case (Cons c w)
  then show ?case by (cases "w @ t") auto
qed simp

lemma squeeze_slash: "t \<noteq> [] \<Longrightarrow> hd t \<noteq> CHR ''/'' \<Longrightarrow> squeeze (CHR ''/'' # t) = CHR ''/'' # squeeze t"
  by (cases t) auto

lemma plain_kept: "plain_seg w \<Longrightarrow> kept_seg w"
  by (simp add: plain_seg_def kept_seg_def)

lemma join_plain: "segs \<noteq> [] \<Longrightarrow> list_all plain_seg segs \<Longrightarrow> join_with ''/'' segs \<noteq> '''' \<and> hd (join_with ''/'' segs) \<noteq> CHR ''/''"
  by (rule join_kept) (auto simp: list_all_iff plain_kept)

lemma squeeze_join: "list_all plain_seg segs \<Longrightarrow> segs \<noteq> [] \<Longrightarrow> squeeze (join_with ''/'' segs @ t) = join_with ''/'' segs @ squeeze t"
proof (induction segs)
  case (Cons x xs)
  have x: "CHR ''/'' \<notin> set x" using Cons.prems by (simp add: plain_seg_def)
  show ?case
  proof (cases xs)
    case Nil
    then show ?thesis using squeeze_word [OF x] by simp
  next
    case (Cons y ys)
    then have "hd (join_with ''/'' xs @ t) \<noteq> CHR ''/''" "join_with ''/'' xs @ t \<noteq> []"
      using join_plain [of xs] Cons.prems by auto
    then show ?thesis using Cons Cons.IH Cons.prems squeeze_word [OF x] squeeze_slash [of "join_with ''/'' xs @ t"] by simp
  qed
qed simp

lemma split_plain: "segs \<noteq> [] \<Longrightarrow> list_all plain_seg segs \<Longrightarrow> split_on CHR ''/'' (join_with ''/'' segs) = segs"
  by (rule split_join) (auto simp: list_all_iff plain_seg_def)

lemma suffix_last:
  assumes "segs \<noteq> []" "list_all plain_seg segs" "CHR ''/'' \<notin> set w" "has_suffix (CHR ''/'' # w) (CHR ''/'' # join_with ''/'' segs)"
  shows "last segs = w"
proof -
  obtain t where "CHR ''/'' # join_with ''/'' segs = t @ CHR ''/'' # w" using assms(4) by (auto simp: has_suffix_iff)
  then have "'''' # split_on CHR ''/'' (join_with ''/'' segs) = split_on CHR ''/'' t @ split_on CHR ''/'' w"
    by (metis split_on.simps(2) split_on_append_sep)
  then have "last ('''' # segs) = w" using assms(1-3) split_plain by simp
  then show ?thesis using assms(1) by simp
qed

lemma no_slash_end: "segs \<noteq> [] \<Longrightarrow> list_all plain_seg segs \<Longrightarrow> \<not> has_suffix ''/'' (CHR ''/'' # join_with ''/'' segs)"
  using suffix_last [of segs "''''"] by (auto simp: plain_seg_def list_all_iff)

lemma normalize_plain:
  assumes "segs \<noteq> []" "list_all plain_seg segs" "last segs \<noteq> ''index''" and t: "t = '''' \<or> t = ''/''"
  shows "public_normalizeSlug (CHR ''/'' # join_with ''/'' segs @ t) = site_slug segs"
proof -
  let ?j = "join_with ''/'' segs"
  let ?raw = "CHR ''/'' # ?j @ t"
  have "squeeze t = t" using t by auto
  then have squeeze: "squeeze ?raw = ?raw"
    using squeeze_join [OF assms(2,1), of t] squeeze_slash [of "?j @ t"] join_plain [OF assms(1,2)] by simp
  have "split_on CHR ''/'' ?raw = '''' # segs @ (if t = '''' then [] else [''''])"
    using t split_on_append_sep [of "CHR ''/''" ?j "''''"] split_plain [OF assms(1,2)] by auto
  then have "clean_segs ?raw = segs"
    using clean_fold_plain [OF assms(2), of True "[]"] by (simp add: clean_segs_def is_abs_def)
  then have "path_clean ?raw = CHR ''/'' # ?j" by (simp add: path_clean_def Let_def is_abs_def)
  then have clean: "pathClean ?raw = CHR ''/'' # ?j"
    using squeeze join_plain [OF assms(1,2)] by (simp add: pathClean_def Let_def has_prefix_def)
  have "\<not> has_suffix ''/index'' (CHR ''/'' # ?j)" using suffix_last [OF assms(1,2), of "''index''"] assms(3) by auto
  moreover have "\<not> has_suffix ''/index/'' (CHR ''/'' # ?j)"
    using no_slash_end [OF assms(1,2)] by (auto simp: has_suffix_iff)
  ultimately show ?thesis
    using clean no_slash_end [OF assms(1,2)] join_plain [OF assms(1,2)]
    by (simp add: public_normalizeSlug_def Let_def has_prefix_def site_slug_def)
qed

lemma normalize_segs:
  "segs \<noteq> [] \<Longrightarrow> list_all plain_seg segs \<Longrightarrow> last segs \<noteq> ''index'' \<Longrightarrow> public_normalizeSlug (site_slug segs) = site_slug segs"
  using normalize_plain [of segs "''/''"] by (simp add: site_slug_def)

lemma trim_slug:
  assumes "segs \<noteq> []" "list_all plain_seg segs"
  shows "trim_char CHR ''/'' (site_slug segs) = join_with ''/'' segs" "trim_char CHR ''/'' (join_with ''/'' segs) = join_with ''/'' segs"
proof -
  let ?j = "join_with ''/'' segs"
  obtain c t where j: "?j = c # t" "c \<noteq> CHR ''/''" using join_plain [OF assms] by (cases ?j) auto
  have "last ?j \<noteq> CHR ''/''"
    using no_slash_end [OF assms] j by (metis append_butlast_last_id append_Cons has_suffix_iff list.distinct(1))
  then have "rev ?j \<noteq> [] \<and> hd (rev ?j) \<noteq> CHR ''/''" by (metis (no_types) Nil_is_rev_conv hd_rev j(1) list.distinct(1))
  then obtain d u where r: "rev ?j = d # u" "d \<noteq> CHR ''/''" by (cases "rev ?j") simp_all
  have "dropWhile ((=) CHR ''/'') (rev ?j) = rev ?j" using r by simp
  moreover have "dropWhile ((=) CHR ''/'') (site_slug segs) = ?j @ ''/''" "dropWhile ((=) CHR ''/'') ?j = ?j"
    using j by (simp_all add: site_slug_def)
  ultimately show "trim_char CHR ''/'' (site_slug segs) = ?j" "trim_char CHR ''/'' ?j = ?j" by (simp_all add: trim_char_def)
qed

lemma trim_site_slug [simp]: "trim_space (site_slug segs) = site_slug segs"
  by (simp add: site_slug_def trim_space_eval match_len.simps)

section \<open>The language of what is found\<close>

lemma first_hit_Some: "first_hit f xs = Some y \<Longrightarrow> \<exists>x \<in> set xs. f x = Some y"
  by (induction xs) (auto split: option.splits)

definition sources_ok :: "page_resolver \<Rightarrow> bool" where
  "sources_ok R \<longleftrightarrow> (case rv_sources R of None \<Rightarrow> True
     | Some src \<Rightarrow> src = rebuildMaps (ix_pages src) \<and> list_all (\<lambda>p. CHR 0x00 \<notin> set (pg_lang p)) (ix_pages src))"

lemma key_lang:
  assumes "sourceLangKey s l = sourceLangKey t m" "CHR 0x00 \<notin> set l" "CHR 0x00 \<notin> set m"
  shows "l = m"
  using assms by (auto simp: sourceLangKey_def append_eq_append_conv2 Cons_eq_append_conv append_eq_Cons_conv)

lemma find_mem: "find P (rev xs) = Some x \<Longrightarrow> x \<in> set xs \<and> P x"
  by (metis find_Some_iff length_rev nth_mem set_rev)

lemma rebuilt_get:
  "GetBySlugLang (rebuildMaps ps) c lang =
     find (\<lambda>q. pg_lang q \<noteq> '''' \<and> sourceLangKey (pg_slug q) (pg_lang q) = sourceLangKey c lang) (rev ps)"
  "GetDefaultBySlug (rebuildMaps ps) c = find (\<lambda>q. pg_lang q = '''' \<and> pg_slug q = c) (rev ps)"
  by (simp_all only: GetBySlugLang_def GetDefaultBySlug_def rebuilt_maps page_at_find)

lemma source_by_lang:
  assumes ok: "sources_ok R" and src: "rv_sources R = Some src" and lang: "CHR 0x00 \<notin> set lang"
    and get: "GetBySlugLang src c lang = Some p"
  shows "p \<in> set (ix_pages src) \<and> pg_lang p = lang"
proof -
  obtain ps where ps: "src = rebuildMaps ps" using ok src by (auto simp: sources_ok_def)
  have p: "p \<in> set ps" "sourceLangKey (pg_slug p) (pg_lang p) = sourceLangKey c lang"
    using get unfolding ps rebuilt_get by (auto dest: find_mem)
  then have "CHR 0x00 \<notin> set (pg_lang p)" using ok src by (simp add: sources_ok_def list_all_iff ps)
  then show ?thesis using p key_lang lang by (simp add: ps)
qed

lemma source_by_default:
  assumes "sources_ok R" "rv_sources R = Some src" "GetDefaultBySlug src c = Some p"
  shows "p \<in> set (ix_pages src) \<and> pg_lang p = ''''"
proof -
  obtain ps where ps: "src = rebuildMaps ps" using assms(1,2) by (auto simp: sources_ok_def)
  then show ?thesis using assms(3) unfolding ps rebuilt_get by (auto dest: find_mem)
qed

text \<open>What a source found for a language may be: labelled with it, or unlabelled for the default language.\<close>

definition source_fits :: "page_resolver \<Rightarrow> string \<Rightarrow> source_page option \<Rightarrow> bool" where
  "source_fits R lang sp \<longleftrightarrow>
     (case (rv_sources R, sp) of
        (Some src, Some p) \<Rightarrow>
          p \<in> set (ix_pages src) \<and> (pg_lang p = lang \<or> pg_lang p = '''' \<and> trim_space lang = trim_space (rv_default_lang R))
      | (None, Some p) \<Rightarrow> False
      | (_, None) \<Rightarrow> True)"

lemma exact_lang:
  assumes "sources_ok R" "CHR 0x00 \<notin> set lang" "resolveSourceExact R s lang = Some p"
  obtains src where "rv_sources R = Some src" "p \<in> set (ix_pages src)" "pg_lang p = lang"
proof -
  obtain src where src: "rv_sources R = Some src" using assms(3) by (auto simp: resolveSourceExact_def split: option.splits)
  then obtain c where "GetBySlugLang src c lang = Some p"
    using assms(3) first_hit_Some [of _ _ p] by (fastforce simp: resolveSourceExact_def split: if_splits)
  then show thesis using source_by_lang [OF assms(1) src assms(2)] src that by blast
qed

lemma unlabelled_lang:
  assumes "sources_ok R" "resolveUnlabelledSource R s = Some p"
  obtains src where "rv_sources R = Some src" "p \<in> set (ix_pages src)" "pg_lang p = ''''"
proof -
  obtain src where src: "rv_sources R = Some src" using assms(2) by (auto simp: resolveUnlabelledSource_def split: option.splits)
  then obtain c where "GetDefaultBySlug src c = Some p"
    using assms(2) first_hit_Some [of _ _ p] by (fastforce simp: resolveUnlabelledSource_def)
  then show thesis using source_by_default [OF assms(1) src] src that by blast
qed

lemma requested_fits:
  assumes "sources_ok R" "CHR 0x00 \<notin> set lang"
  shows "source_fits R lang (resolveSourceForRequestedLang R s lang)"
proof (cases "resolveSourceForRequestedLang R s lang")
  case None
  then show ?thesis by (simp add: source_fits_def split: option.splits)
next
  case (Some p)
  then consider "resolveSourceExact R s lang = Some p"
    | "trim_space lang = trim_space (rv_default_lang R)" "resolveUnlabelledSource R s = Some p"
    by (auto simp: resolveSourceForRequestedLang_def split: option.splits if_splits)
  then show ?thesis
    by cases (use Some exact_lang [OF assms] unlabelled_lang [OF assms(1)] in \<open>fastforce simp: source_fits_def\<close>)+
qed

definition public_fits :: "page_resolver \<Rightarrow> string \<Rightarrow> public_page option \<Rightarrow> bool" where
  "public_fits R lang pub \<longleftrightarrow> (case pub of None \<Rightarrow> True | Some p \<Rightarrow> pageMatchesExplicitLang p lang (rv_default_lang R))"

lemma fits_page: "page_in_lang R lang x = Some p \<Longrightarrow> pageMatchesExplicitLang p lang (rv_default_lang R)"
  by (auto simp: page_in_lang_def split: option.splits if_splits)

lemma with_source_parts [simp]:
  "rp_public (with_source out src) = rp_public out" "rp_lang (with_source out src) = rp_lang out"
  "rp_slug (with_source out src) = rp_slug out"
  "rp_source (with_source out src) = (case src of None \<Rightarrow> rp_source out | Some p \<Rightarrow> Some p)"
  by (simp_all add: with_source_def split: option.splits)

lemma explicit_fits:
  assumes "sources_ok R" "CHR 0x00 \<notin> set lang"
  shows "public_fits R lang (rp_public (resolveExplicit R ps ss lang))" "source_fits R lang (rp_source (resolveExplicit R ps ss lang))"
proof -
  have src: "source_fits R lang (Some p)" if "resolveSourceForRequestedLang R s lang = Some p" for s p
    using requested_fits [OF assms, of s] that by simp
  have none: "source_fits R lang None" by (simp add: source_fits_def split: option.splits)
  show "public_fits R lang (rp_public (resolveExplicit R ps ss lang))"
    by (auto simp: resolveExplicit_def Let_def public_fits_def no_page_def split: option.splits dest: fits_page)
  show "source_fits R lang (rp_source (resolveExplicit R ps ss lang))"
    using none by (auto simp: resolveExplicit_def Let_def no_page_def split: option.split intro: src)
qed

text \<open>
  C37. A request that names a language is never answered in another one: the rendered page it gets matches the
  language, and the source it gets is labelled with the language or, for the site's default language only,
  unlabelled, and is a page of the source index. The answer is positive just when one of the two was found.
\<close>

theorem resolve_language_exact:
  assumes "sources_ok R" "trim_space lang \<noteq> ''''" "CHR 0x00 \<notin> set (trim_space lang)"
    and res: "ResolveWithLang R slug lang = (out, ok)"
  shows "public_fits R (trim_space lang) (rp_public out) \<and> source_fits R (trim_space lang) (rp_source out) \<and>
    (ok \<longleftrightarrow> rp_public out \<noteq> None \<or> rp_source out \<noteq> None)"
proof -
  have "public_fits R l None \<and> source_fits R l None" for l
    by (simp add: public_fits_def source_fits_def split: option.splits)
  moreover have "out = no_page \<and> \<not> ok \<or> (\<exists>ps ss. out = resolveExplicit R ps ss (trim_space lang) \<and> ok = found_page out)"
    using res assms(2) by (auto simp: ResolveWithLang_def Let_def split: prod.splits if_splits)
  ultimately show ?thesis
    using explicit_fits [OF assms(1,3)] by (elim disjE exE conjE) (simp_all add: no_page_def found_page_def)
qed

section \<open>Two-letter sections\<close>

lemma split_slug: "segs \<noteq> [] \<Longrightarrow> list_all plain_seg segs \<Longrightarrow> split_on CHR ''/'' (trim_char CHR ''/'' (site_slug segs)) = segs"
  by (simp add: trim_slug split_plain)

lemma prefix_segs:
  assumes "segs \<noteq> []" "list_all plain_seg segs"
  shows "languagePrefixFromSlug (site_slug segs) =
    (if 2 \<le> length segs \<and> looksLikeLanguageCode (hd segs) then hd segs else '''')"
proof -
  have "hd segs \<noteq> ''''" using assms by (cases segs) (auto simp: plain_seg_def)
  then show ?thesis using assms(1) split_slug [OF assms] by (cases segs) (auto simp: languagePrefixFromSlug_def Let_def stripLanguagePrefix_def Suc_le_eq)
qed

lemma resolver_slugs:
  assumes "segs \<noteq> []" "list_all plain_seg segs" "last segs \<noteq> ''index''"
  shows "normalizeResolverSlugs (site_slug segs) = (site_slug segs, join_with ''/'' segs)"
proof -
  have "site_slug segs \<noteq> ''''" by (simp add: site_slug_def)
  then show ?thesis using normalize_segs [OF assms] trim_slug [OF assms(1,2)] by (simp add: normalizeResolverSlugs_def Let_def)
qed

lemma code_no_nul: "looksLikeLanguageCode v \<Longrightarrow> CHR 0x00 \<notin> set v"
proof -
  assume code: "looksLikeLanguageCode v"
  have v: "length v = 5 \<Longrightarrow> v = take 2 v @ v ! 2 # drop 3 v" using id_take_nth_drop [of 2 v] by (simp add: numeral_3_eq_3)
  have "\<forall>c \<in> set v. c = CHR ''-'' \<or> c = CHR ''_'' \<or> of_char c \<ge> (97::nat)"
  proof (cases "length v = 2")
    case True
    then show ?thesis using code by (auto simp: looksLikeLanguageCode_def list_all_iff)
  next
    case False
    then have "length v = 5" using code by (auto simp: looksLikeLanguageCode_def Let_def)
    then have "set v = set (take 2 v) \<union> {v ! 2} \<union> set (drop 3 v)" using v by (metis Un_insert_right list.simps(15) set_append sup_bot_right Un_commute Un_insert_left)
    then show ?thesis using code False by (auto simp: looksLikeLanguageCode_def list_all_iff Let_def)
  qed
  then show ?thesis by fastforce
qed

text \<open>
  C39. A page in a section whose name looks like a language code (two lower-case letters, such as \<open>ai\<close> or \<open>go\<close>)
  and whose sources are labelled with other languages is out of reach of the resolver until it is built: asked for
  with a language that is not the section's name the request is refused
  outright, whatever the indexes hold, because the section is taken for another language; asked for without
  one, only sources labelled with the section's name as their language are considered, so a source that is not
  yet rendered is reported as missing.
\<close>

theorem two_letter_section_hides_sources:
  assumes segs: "2 \<le> length segs" "list_all plain_seg segs" "last segs \<noteq> ''index''" and code: "looksLikeLanguageCode (hd segs)"
  shows "(trim_space lang \<noteq> '''' \<and> trim_space lang \<noteq> hd segs \<longrightarrow> ResolveWithLang R (site_slug segs) lang = (no_page, False)) \<and>
    (sources_ok R \<and> Option.bind (rv_index R) (\<lambda>idx. public_GetBySlug idx (site_slug segs)) = None \<and>
       (case rv_sources R of None \<Rightarrow> True | Some src \<Rightarrow> list_all (\<lambda>p. pg_lang p \<noteq> hd segs) (ix_pages src)) \<longrightarrow>
     \<not> snd (resolve_page R (site_slug segs)))"
proof -
  have ne: "segs \<noteq> []" using segs(1) by auto
  have prefix: "languagePrefixFromSlug (site_slug segs) = hd segs" using prefix_segs [OF ne segs(2)] segs(1) code by simp
  have hd: "hd segs \<noteq> ''''" using segs(2) ne by (cases segs) (auto simp: plain_seg_def)
  note slugs = resolver_slugs [OF ne segs(2,3)]
  have slug: "site_slug segs \<noteq> ''''" by (simp add: site_slug_def)
  have "ResolveWithLang R (site_slug segs) lang = (no_page, False)" if "trim_space lang \<noteq> ''''" "trim_space lang \<noteq> hd segs"
    using that hd prefix slug by (auto simp: ResolveWithLang_def slugs Let_def)
  moreover have "\<not> snd (resolve_page R (site_slug segs))"
    if ok: "sources_ok R" and no: "Option.bind (rv_index R) (\<lambda>idx. public_GetBySlug idx (site_slug segs)) = None"
      and other: "case rv_sources R of None \<Rightarrow> True | Some src \<Rightarrow> list_all (\<lambda>p. pg_lang p \<noteq> hd segs) (ix_pages src)"
  proof -
    have "resolveSourceExact R (join_with ''/'' segs) (hd segs) = None"
    proof (rule ccontr)
      assume "resolveSourceExact R (join_with ''/'' segs) (hd segs) \<noteq> None"
      then obtain p where "resolveSourceExact R (join_with ''/'' segs) (hd segs) = Some p" by blast
      then obtain src where "rv_sources R = Some src" "p \<in> set (ix_pages src)" "pg_lang p = hd segs"
        using exact_lang [OF ok code_no_nul [OF code]] by blast
      then show False using other by (auto simp: list_all_iff)
    qed
    then have "\<not> found_page (resolveImplicit R (site_slug segs) (join_with ''/'' segs))"
      using no prefix hd by (simp add: resolveImplicit_def Let_def found_page_def no_page_def)
    then show ?thesis using slug by (simp add: resolve_page_def ResolveWithLang_def slugs Let_def)
  qed
  ultimately show ?thesis by blast
qed

section \<open>A translation is found at the slug it is published at\<close>

lemma translation_slug:
  assumes segs: "segs \<noteq> []" "list_all plain_seg segs" "last segs \<noteq> ''index''" "takeWhile (\<lambda>c. c \<noteq> CHR ''.'') (last segs) \<noteq> ''_index''"
    and l: "plain_seg l" "trim_space l = l" "l \<noteq> trim_space dflt"
  shows "canonicalPublicSlugForSourceLang (join_with ''/'' segs) l dflt = site_slug (l # segs)"
proof -
  have "join_with ''/'' (l # segs) = l @ ''/'' @ join_with ''/'' segs" using segs(1) by (cases segs) simp_all
  then have "public_normalizeSlug (''/'' @ l @ ''/'' @ join_with ''/'' segs) = site_slug (l # segs)"
    using normalize_plain [of "l # segs" "''''"] segs l(1) by simp
  moreover have "trimIndexSlugSegment (join_with ''/'' segs) = join_with ''/'' segs"
    using segs(4) split_plain [OF segs(1,2)] by (simp add: trimIndexSlugSegment_def Let_def)
  moreover have "l \<noteq> ''''" using l(1) by (simp add: plain_seg_def)
  ultimately show ?thesis
    using l(2,3) trim_slug(2) [OF segs(1,2)] join_plain [OF segs(1,2)] by (simp add: canonicalPublicSlugForSourceLang_def Let_def)
qed


section \<open>A site in two languages\<close>

definition sample_source :: "string \<Rightarrow> string \<Rightarrow> source_page" where
  "sample_source slug lang = \<lparr>pg_slug = slug, pg_file_path = slug @ ''.md'', pg_lang = lang, pg_title = '''', pg_date = '''',
     pg_draft = False, pg_publish = 0, pg_expiry = 0, pg_tags = [], pg_categories = [], pg_body = '''', pg_fm = [],
     pg_pending = False\<rparr>"

definition sample_resolver :: page_resolver where
  "sample_resolver = \<lparr>rv_index = None,
     rv_sources = Some (rebuildMaps [sample_source ''a'' '''', sample_source ''a'' ''en'', sample_source ''ai/x'' ''en'']),
     rv_default_lang = ''fr''\<rparr>"

lemma sample_sources_ok: "sources_ok sample_resolver"
  by (simp add: sources_ok_def sample_resolver_def sample_source_def)

lemma resolve_language_exact_witness:
  "source_fits sample_resolver ''en'' (rp_source (fst (ResolveWithLang sample_resolver ''a'' ''en''))) \<and>
   snd (ResolveWithLang sample_resolver ''a'' ''en'')"
proof -
  have en: "trim_space ''en'' = ''en''" by code_simp
  have "snd (ResolveWithLang sample_resolver ''a'' ''en'')" by code_simp
  then show ?thesis using resolve_language_exact [OF sample_sources_ok _ _ surjective_pairing, of "''en''" "''a''"] unfolding en by simp
qed

lemma two_letter_section_hides_sources_witness:
  "ResolveWithLang sample_resolver ''/ai/x/'' ''en'' = (no_page, False) \<and> \<not> snd (resolve_page sample_resolver ''/ai/x/'')"
proof -
  have slug: "site_slug [''ai'', ''x''] = ''/ai/x/''" by (simp add: site_slug_def)
  have en: "trim_space ''en'' = ''en''" by code_simp
  have code: "looksLikeLanguageCode (hd [''ai'', ''x''])" by code_simp
  show ?thesis
    using two_letter_section_hides_sources [of "[''ai'', ''x'']" "''en''" sample_resolver] code sample_sources_ok
    unfolding slug en by (simp add: plain_seg_def sample_resolver_def sample_source_def)
qed


end
