(* ===== verification/Backlinks.thy ===== *)
theory Backlinks
  imports SiteOwners
begin

text \<open>
  Which pages link to a page (\<open>internal/site/backlinks.go\<close>): the map from a slug to the pages that link there,
  built from the rendered pages, the cache that keeps it until the index changes, and that an answer from the
  cache is the answer of a fresh computation. Parsing and joining of URLs (package \<open>net/url\<close>) are parameters.
\<close>

section \<open>Links of a page\<close>

record backlink_entry =
  bl_from_slug :: string
  bl_from_title :: string
  bl_from_url :: string

text \<open>A parsed URL: its scheme, host and decoded path; \<open>ul_resolve\<close> is \<open>URL.ResolveReference\<close>.\<close>

record page_url =
  ur_scheme :: string
  ur_host :: string
  ur_path :: string

record url_lib =
  ul_parse :: "string \<Rightarrow> page_url option"
  ul_resolve :: "page_url \<Rightarrow> page_url \<Rightarrow> page_url"

fun anchor_href :: "site_lib \<Rightarrow> html \<Rightarrow> string list" where
  "anchor_href S (Elem tag attrs cs) =
     (if tag \<noteq> ''a'' then []
      else (case find (\<lambda>a. sl_fold S (fst a) ''href'') attrs of
              None \<Rightarrow> []
            | Some a \<Rightarrow> if trim_space (snd a) \<noteq> '''' then [trim_space (snd a)] else []))"
| "anchor_href S n = []"

definition extractLinksHTML :: "site_lib \<Rightarrow> string \<Rightarrow> string list" where
  "extractLinksHTML S rawHTML =
     (if trim_space rawHTML = '''' then []
      else (case sl_parse S rawHTML of None \<Rightarrow> [] | Some doc \<Rightarrow> concat (map (anchor_href S) (preorder doc))))"

text \<open>The slug on this site that a link of a page leads to: \<open>None\<close> for the links that are passed over.\<close>

definition link_target :: "url_lib \<Rightarrow> page_url \<Rightarrow> string \<Rightarrow> string option" where
  "link_target U base href =
     (case ul_parse U href of
        None \<Rightarrow> None
      | Some ref \<Rightarrow>
          if ur_scheme ref \<noteq> '''' \<and> ur_scheme ref \<noteq> ''http'' \<and> ur_scheme ref \<noteq> ''https'' then None
          else if has_prefix ''#'' href \<or> has_prefix ''mailto:'' href \<or> has_prefix ''tel:'' href then None
          else (let target = ul_resolve U base ref
                in if ur_host target \<noteq> '''' \<and> ur_host target \<noteq> ur_host base then None
                   else Some (public_normalizeSlug (ur_path target))))"

section \<open>The reverse map\<close>

type_synonym reverse_map = "(string, backlink_entry list) gomap"

text \<open>The links of one page; \<open>seen\<close> are the targets already recorded for it.\<close>

fun add_links ::
    "url_lib \<Rightarrow> public_index \<Rightarrow> content_classifier \<Rightarrow> public_page \<Rightarrow> page_url \<Rightarrow> string list \<Rightarrow> string list \<Rightarrow> reverse_map \<Rightarrow> reverse_map" where
  "add_links U idx c page base seen [] m = m"
| "add_links U idx c page base seen (href # hrefs) m =
     (case link_target U base href of
        None \<Rightarrow> add_links U idx c page base seen hrefs m
      | Some t \<Rightarrow>
          if t \<in> set seen \<or> t = up_slug page then add_links U idx c page base seen hrefs m
          else (case public_GetBySlug idx t of
                  Some q \<Rightarrow>
                    if IsContent c q
                    then add_links U idx c page base (t # seen) hrefs
                           (gput m t ((case gget m t of None \<Rightarrow> [] | Some es \<Rightarrow> es) @
                              [\<lparr>bl_from_slug = up_slug page, bl_from_title = up_title page, bl_from_url = up_url page\<rparr>]))
                    else add_links U idx c page base seen hrefs m
                | None \<Rightarrow> add_links U idx c page base seen hrefs m))"

fun add_pages ::
    "site_lib \<Rightarrow> url_lib \<Rightarrow> public_index \<Rightarrow> content_classifier \<Rightarrow> public_page list \<Rightarrow> reverse_map \<Rightarrow> reverse_map" where
  "add_pages S U idx c [] m = m"
| "add_pages S U idx c (p # ps) m =
     (case ul_parse U (up_url p) of
        None \<Rightarrow> add_pages S U idx c ps m
      | Some base \<Rightarrow> add_pages S U idx c ps (add_links U idx c p base [] (extractLinksHTML S (up_html p)) m))"

definition NewClassifier :: "public_index \<Rightarrow> content_classifier" where
  "NewClassifier idx = newClassifierFromPages (map fst (pi_entries idx)) (pi_verification idx)"

definition buildReverseMap :: "site_lib \<Rightarrow> url_lib \<Rightarrow> public_index \<Rightarrow> reverse_map" where
  "buildReverseMap S U idx = add_pages S U idx (NewClassifier idx) (ContentPages idx) []"

section \<open>The cache\<close>

text \<open>The index with its cached map.\<close>

type_synonym linked_index = "public_index \<times> reverse_map option"

definition getOrBuild :: "site_lib \<Rightarrow> url_lib \<Rightarrow> linked_index \<Rightarrow> linked_index \<times> reverse_map" where
  "getOrBuild S U L =
     (case snd L of
        Some m \<Rightarrow> (L, m)
      | None \<Rightarrow> (let m = buildReverseMap S U (fst L) in ((fst L, Some m), m)))"

definition links_at :: "reverse_map \<Rightarrow> string \<Rightarrow> backlink_entry list" where
  "links_at m slug = (case gget m (public_normalizeSlug slug) of None \<Rightarrow> [] | Some es \<Rightarrow> es)"

definition GetBacklinks :: "site_lib \<Rightarrow> url_lib \<Rightarrow> linked_index \<Rightarrow> string \<Rightarrow> linked_index \<times> backlink_entry list" where
  "GetBacklinks S U L slug = (let (L', m) = getOrBuild S U L in (L', links_at m slug))"

text \<open>The operations on the index and what they do to the cache; a removal that finds nothing leaves it.\<close>

datatype link_op =
    LUpsert public_page
  | LRemove string
  | LReload site_config time "string go" "walk_entry list option"
  | LBacklinks string

fun link_step :: "site_lib \<Rightarrow> url_lib \<Rightarrow> linked_index \<Rightarrow> link_op \<Rightarrow> linked_index" where
  "link_step S U L (LUpsert p) = (UpsertPage (fst L) p, None)"
| "link_step S U L (LRemove slug) =
     (RemoveBySlug (fst L) slug, if gget (pi_by_slug (fst L)) (public_normalizeSlug slug) = None then snd L else None)"
| "link_step S U L (LReload cfg now root walk) =
     (case public_Reload S cfg now root walk (fst L) of (idx, Some e) \<Rightarrow> (idx, snd L) | (idx, None) \<Rightarrow> (idx, None))"
| "link_step S U L (LBacklinks slug) = fst (GetBacklinks S U L slug)"

section \<open>The cache is never out of date\<close>

definition cache_ok :: "site_lib \<Rightarrow> url_lib \<Rightarrow> linked_index \<Rightarrow> bool" where
  "cache_ok S U L \<longleftrightarrow> (case snd L of None \<Rightarrow> True | Some m \<Rightarrow> m = buildReverseMap S U (fst L))"

lemma cache_step: "cache_ok S U L \<Longrightarrow> cache_ok S U (link_step S U L op)"
proof (cases op)
  case (LRemove slug)
  assume "cache_ok S U L"
  then show ?thesis
    using LRemove by (cases "gget (pi_by_slug (fst L)) (public_normalizeSlug slug)") (simp_all add: cache_ok_def RemoveBySlug_def Let_def)
next
  case (LReload cfg now root walk)
  assume "cache_ok S U L"
  then show ?thesis using LReload by (cases "NewIndex S cfg now root walk") (simp_all add: public_Reload_def cache_ok_def)
qed (auto simp: cache_ok_def GetBacklinks_def getOrBuild_def Let_def split: option.splits)

lemma cache_run: "cache_ok S U L \<Longrightarrow> cache_ok S U (foldl (link_step S U) L ops)"
  by (induction ops arbitrary: L) (simp_all add: cache_step)

lemma cached_answer: "cache_ok S U L \<Longrightarrow> snd (GetBacklinks S U L slug) = links_at (buildReverseMap S U (fst L)) slug"
  by (auto simp: cache_ok_def GetBacklinks_def getOrBuild_def Let_def split: option.splits)

section \<open>The answer is exact\<close>

text \<open>The page links to the slug: to another page of content, over a link that stays on the site.\<close>

definition page_links :: "site_lib \<Rightarrow> url_lib \<Rightarrow> public_index \<Rightarrow> content_classifier \<Rightarrow> public_page \<Rightarrow> string \<Rightarrow> bool" where
  "page_links S U idx c p t \<longleftrightarrow>
     t \<noteq> up_slug p \<and> (case public_GetBySlug idx t of None \<Rightarrow> False | Some q \<Rightarrow> IsContent c q) \<and>
     (case ul_parse U (up_url p) of
        None \<Rightarrow> False
      | Some base \<Rightarrow> list_ex (\<lambda>h. link_target U base h = Some t) (extractLinksHTML S (up_html p)))"

definition link_entry :: "public_page \<Rightarrow> backlink_entry" where
  "link_entry p = \<lparr>bl_from_slug = up_slug p, bl_from_title = up_title p, bl_from_url = up_url p\<rparr>"

abbreviation at_slug :: "reverse_map \<Rightarrow> string \<Rightarrow> backlink_entry list" where
  "at_slug m t \<equiv> (case gget m t of None \<Rightarrow> [] | Some es \<Rightarrow> es)"

lemma add_links_at:
  "at_slug (add_links U idx c p base seen hrefs m) t =
     at_slug m t @ (if t \<notin> set seen \<and> t \<noteq> up_slug p \<and> (case public_GetBySlug idx t of None \<Rightarrow> False | Some q \<Rightarrow> IsContent c q) \<and>
         list_ex (\<lambda>h. link_target U base h = Some t) hrefs then [link_entry p] else [])"
proof (induction U idx c p base seen hrefs m rule: add_links.induct)
  case (2 U idx c page base seen href hrefs m)
  show ?case
  proof (cases "link_target U base href")
    case None
    then show ?thesis using 2(1) by simp
  next
    case (Some u)
    consider "u \<in> set seen \<or> u = up_slug page" | "u \<notin> set seen" "u \<noteq> up_slug page" "public_GetBySlug idx u = None"
      | q where "u \<notin> set seen" "u \<noteq> up_slug page" "public_GetBySlug idx u = Some q" "\<not> IsContent c q"
      | q where "u \<notin> set seen" "u \<noteq> up_slug page" "public_GetBySlug idx u = Some q" "IsContent c q"
      by (cases "public_GetBySlug idx u") blast+
    then show ?thesis
      by cases (use Some 2(2-5) in \<open>auto simp: link_entry_def split: option.splits\<close>)
  qed
qed simp

lemma add_pages_at: "at_slug (add_pages S U idx c ps m) t = at_slug m t @ map link_entry (filter (\<lambda>p. page_links S U idx c p t) ps)"
proof (induction ps arbitrary: m)
  case (Cons p ps)
  show ?case
    by (cases "ul_parse U (up_url p)") (simp_all add: Cons.IH add_links_at page_links_def)
qed simp

text \<open>
  C40. The pages reported to link to a content page are exactly the content pages of the index that link to it, in the
  order of the index and each once, however many links they hold; a page is never reported for its own links. For a
  page that is not content (the home page, a section) the answer is empty, whatever links to it. This holds of the index as it is when the question is asked, after any
  sequence of insertions, removals, reloads (also failing ones) and earlier questions, though the map behind
  the answers is kept between them.
\<close>

theorem backlinks_exact:
  "snd (GetBacklinks S U (foldl (link_step S U) (idx0, None) ops) slug) =
    (let idx = fst (foldl (link_step S U) (idx0, None) ops)
     in map link_entry (filter (\<lambda>p. page_links S U idx (NewClassifier idx) p (public_normalizeSlug slug)) (ContentPages idx)))"
proof -
  have "cache_ok S U (idx0, None)" by (simp add: cache_ok_def)
  from cached_answer [OF cache_run [OF this]] show ?thesis
    by (simp add: links_at_def buildReverseMap_def add_pages_at Let_def)
qed

end
