(* ===== verification/Spec2Isabelle.thy ===== *)
theory Spec2Isabelle
  imports Scopes TokenStore OAuthSafety PreviewStore Plans Idempotency ChangeSet ChunkedUpload Recovery Validation BundleTx FrontMatter Diff ContentModel SourceIndex PageWellFormed LifecycleSafety PageResolver Backlinks
begin

text \<open>
  The MCP server for Hugo sites, as a library of executable definitions with the theorems that make it
  correct. The program lets agents read and edit the content of a Hugo site over HTTP: requests are authorised
  by an OAuth service of its own, reach tools by name, and the tools read or change Markdown files below a
  content root, keep plans, snapshots, previews, uploads and journals in memory and in SQLite tables, and
  rebuild the site. The sources are the Go packages under \<open>src/internal\<close>; the names below are theirs.

  Conventions. \<open>Prelude\<close> has the vocabulary of Go: strings are lists of bytes, maps are association lists with
  one entry per key whose order stands for the order of a range loop, times and durations are integers counting
  nanoseconds, and a fallible operation answers a sum whose left side holds the constant part of the error
  message. What the code asks of the outside is an argument: clock readings, random bytes, the answers and the
  faults of the file system and of each SQL statement, the JSON, YAML, TOML, XML and HTML coders, SHA-256, Unicode
  case tables, URL parsing, the walk of a directory tree. Hypotheses about them are named in the statements and
  hold for concrete functions in the witnesses. A handler is one definition that takes its request, these
  arguments and the state, and returns the new state with its answer; a process that dies is a run that stops at
  a chosen write. Locks are not interleaved inside a critical section: what runs under a mutex is one step, and
  calls are sequences of steps. \<open>Paths\<close> has the lexical path functions, \<open>Glob\<close> the patterns of
  \<open>filepath.Match\<close> and \<open>filepath.Glob\<close>, and \<open>FileUtil\<close> the atomic writes (\<open>fileutil/atomic.go\<close>).

  JSON replaces invalid UTF-8 by U+FFFD, and nothing in the program keeps such text out of page files. What is
  reloaded from a table (journal rows, plans, snapshots) is therefore assumed to come back unchanged only where
  its strings are valid UTF-8: \<open>Utf8\<close> decides that, \<open>Coding\<close> states it for the rows of the journal, and the theorems
  on crashes, plans and rollbacks name it as a condition.

  Access. \<open>Scopes\<close>: registry, scopes, request policy and exposure profiles (\<open>tools/registry.go\<close>,
  \<open>oauth/acl.go\<close>, \<open>oauth/scope_*.go\<close>, \<open>server/exposure_profile.go\<close>). \<open>OAuth\<close> and \<open>OAuthSafety\<close>: the service with its
  handlers (\<open>oauth/oauth.go\<close>, \<open>agent_auth.go\<close>, \<open>redirects.go\<close>, \<open>client_registry.go\<close>), a step relation over all
  its requests and timers, and invariants by rule induction on what can be granted. \<open>TokenStore\<close>: the memory, JSON
  and SQLite stores (\<open>storage/*.go\<close>) and a simulation between them. \<open>Caller\<close>: the keys that own state.

  Stores. \<open>TtlStore\<close> is the shape shared by the plan and snapshot stores: a locale over the coders of a record,
  interpreted in \<open>Plans\<close> on the four stores of \<open>tools/write\<close>. \<open>Journal\<close> has the durable tables (\<open>db/db.go\<close>),
  \<open>Idempotency\<close> the replay of answers, \<open>ChangeSet\<close> the attribution of work and the guard before publication,
  \<open>PreviewStore\<close> the previews with their leases and sessions, \<open>ChunkedUpload\<close> the staged uploads with a step
  relation that interleaves their handlers. Each is refined by an abstract ledger or map kept along all runs with
  restarts and faults.

  Content. \<open>PathGuard\<close> (\<open>security/pathguard.go\<close>), \<open>ContentModel\<close> (\<open>contentmodel/*.go\<close>), \<open>SourceIndex\<close>
  (\<open>hugosite/source_index.go\<close>), \<open>Taxonomy\<close>, \<open>Validation\<close> (\<open>tools/write/validation.go\<close>, \<open>urlpolicy\<close>), \<open>Assets\<close>
  (\<open>page_assets.go\<close>, \<open>svg_validate.go\<close>), \<open>FrontMatter\<close> and \<open>Diff\<close> (\<open>tools.go\<close>, \<open>content_plan.go\<close>).

  Writers. \<open>WriteCommon\<close>: the content lock and what every writer shares. \<open>PageTools\<close>, \<open>PagePlan\<close>, \<open>PageUpdate\<close>,
  \<open>PageRollback\<close>, \<open>PageCreate\<close> and \<open>PageDelete\<close> hold the handlers of \<open>tools.go\<close>, \<open>content_plan.go\<close> and
  \<open>rollback_change.go\<close>; \<open>PageSafety\<close> states in a locale what a writer of one page does, shows it of three handlers,
  and \<open>PageGuarantees\<close>, \<open>PageRemoval\<close>, \<open>PageSuite\<close> and \<open>PageWellFormed\<close> derive what callers can rely on, the
  last that the source index stays well formed and follows what \<open>create\_page\<close> and \<open>delete\_page\<close> do to the disk.
  \<open>Recovery\<close>: the journal of multi-file writes and its reconciliation at start-up (\<open>recovery.go\<close>). \<open>BundleTx\<close>
  (\<open>bundle_plan.go\<close>), \<open>BundleLifecycle\<close> and \<open>LifecycleSafety\<close> (\<open>bundle_lifecycle.go\<close>): the transactions on whole
  bundles, and that a crash anywhere in them followed by a restart leaves all or nothing.

  The built site. \<open>PublicSite\<close> (\<open>site/index.go\<close>, \<open>classifier.go\<close>): the index of the rendered pages, their
  classification and search. \<open>SiteOwners\<close>: the index is a map, and which file owns a slug. \<open>PageResolver\<close>
  (\<open>resolver.go\<close>, \<open>lifecycle_state.go\<close>, \<open>access_profile.go\<close>): from a slug and a language to a rendered page and its
  source. \<open>Backlinks\<close> (\<open>backlinks.go\<close>): the cached map of links.

  Bounds. Nothing is fuelled: every recursion is structural or has a measure. The wait for the content lock, whose
  end depends on the clock, is a \<open>partial_function\<close> in the option monad, with a theorem that it returns.
  Sizes and lifetimes (the number of plans kept, chunk and asset limits, ten seconds of waiting, 500 lines of a
  diff) are the constants of the code. Integers are unbounded where the code counts entries, lines or bytes far
  below the 64-bit range; a number read from text is checked against it.

  Not modelled: configuration loading, the HTTP server and its rate limits, the discovery documents, logging and
  metrics; the reading tools, which format what the indexes hold; the tools that run Hugo or other programs, fetch
  from the network or render images; the derived search tables; the clients of search engines and of the cache
  in front of the site. The manifest gives the reason for each.
\<close>

end
